(* ===== verification/Prelude.thy ===== *)
theory Prelude
  imports Main "HOL-Library.Word"
begin

text \<open>
  Shared vocabulary of the development: the machine-integer types of the C code, the
  C conversions between \<^verbatim>\<open>int\<close> and \<^verbatim>\<open>uint32_t\<close> where the code mixes them, the error
  codes of \<^verbatim>\<open>libqdma/qdma_access/qdma_access_errors.h\<close>, and the generic lemmas on
  lists that several components use.
\<close>

subsection \<open>Machine integers\<close>

type_synonym u8 = "8 word"
type_synonym u16 = "16 word"
type_synonym u32 = "32 word"
type_synonym u64 = "64 word"

text \<open>
  The queue bookkeeping mixes \<^verbatim>\<open>int\<close> and \<^verbatim>\<open>uint32_t\<close>; these values are mathematical
  integers in the model and every C conversion is written out. \<open>to_u32\<close> is the conversion
  to \<^verbatim>\<open>uint32_t\<close>, \<open>to_s32\<close> the conversion to \<^verbatim>\<open>int\<close> (two's complement, as gcc does).
\<close>

definition to_u32 :: "int \<Rightarrow> int" where
  "to_u32 x = x mod 4294967296"

definition to_s32 :: "int \<Rightarrow> int" where
  "to_s32 x = (x + 2147483648) mod 4294967296 - 2147483648"

named_theorems c_conv \<open>C conversions that are the identity on values in range\<close>

lemma to_u32_id [c_conv]: "0 \<le> x \<Longrightarrow> x < 4294967296 \<Longrightarrow> to_u32 x = x"
  by (simp add: to_u32_def)

lemma to_s32_id [c_conv]: "- 2147483648 \<le> x \<Longrightarrow> x < 2147483648 \<Longrightarrow> to_s32 x = x"
  by (simp add: to_s32_def)

lemma to_u32_range [simp]: "0 \<le> to_u32 x" "to_u32 x < 4294967296"
  by (simp_all add: to_u32_def)

lemma to_u32_idem [simp]: "to_u32 (to_u32 x) = to_u32 x"
  by (simp add: to_u32_def)

lemma to_u32_0 [simp]: "to_u32 0 = 0"
  by (simp add: to_u32_def)

subsection \<open>Error codes\<close>

datatype qdma_access_error_codes =
    QDMA_SUCCESS
  | QDMA_ERR_INV_PARAM
  | QDMA_ERR_NO_MEM
  | QDMA_ERR_HWACC_BUSY_TIMEOUT
  | QDMA_ERR_HWACC_INV_CONFIG_BAR
  | QDMA_ERR_HWACC_NO_PEND_LEGCY_INTR
  | QDMA_ERR_HWACC_BAR_NOT_FOUND
  | QDMA_ERR_HWACC_FEATURE_NOT_SUPPORTED
  | QDMA_ERR_RM_RES_EXISTS
  | QDMA_ERR_RM_RES_NOT_EXISTS
  | QDMA_ERR_RM_DEV_EXISTS
  | QDMA_ERR_RM_DEV_NOT_EXISTS
  | QDMA_ERR_RM_NO_QUEUES_LEFT
  | QDMA_ERR_RM_QMAX_CONF_REJECTED
  | QDMA_ERR_MBOX_FMAP_WR_FAILED
  | QDMA_ERR_MBOX_NUM_QUEUES
  | QDMA_ERR_MBOX_INV_QID
  | QDMA_ERR_MBOX_INV_RINGSZ
  | QDMA_ERR_MBOX_INV_BUFSZ
  | QDMA_ERR_MBOX_INV_CNTR_TH
  | QDMA_ERR_MBOX_INV_TMR_TH
  | QDMA_ERR_MBOX_INV_MSG
  | QDMA_ERR_MBOX_SEND_BUSY
  | QDMA_ERR_MBOX_NO_MSG_IN
  | QDMA_ERR_MBOX_REG_READ_FAILED
  | QDMA_ERR_MBOX_ALL_ZERO_MSG

text \<open>
  The code returns \<^verbatim>\<open>-QDMA_ERR_X\<close> as an \<^verbatim>\<open>int\<close>; \<open>err_code\<close> is the enumeration's value
  and \<open>neg_err\<close> the returned number.
\<close>

fun err_code :: "qdma_access_error_codes \<Rightarrow> int" where
  "err_code QDMA_SUCCESS = 0"
| "err_code QDMA_ERR_INV_PARAM = 1"
| "err_code QDMA_ERR_NO_MEM = 2"
| "err_code QDMA_ERR_HWACC_BUSY_TIMEOUT = 3"
| "err_code QDMA_ERR_HWACC_INV_CONFIG_BAR = 4"
| "err_code QDMA_ERR_HWACC_NO_PEND_LEGCY_INTR = 5"
| "err_code QDMA_ERR_HWACC_BAR_NOT_FOUND = 6"
| "err_code QDMA_ERR_HWACC_FEATURE_NOT_SUPPORTED = 7"
| "err_code QDMA_ERR_RM_RES_EXISTS = 8"
| "err_code QDMA_ERR_RM_RES_NOT_EXISTS = 9"
| "err_code QDMA_ERR_RM_DEV_EXISTS = 10"
| "err_code QDMA_ERR_RM_DEV_NOT_EXISTS = 11"
| "err_code QDMA_ERR_RM_NO_QUEUES_LEFT = 12"
| "err_code QDMA_ERR_RM_QMAX_CONF_REJECTED = 13"
| "err_code QDMA_ERR_MBOX_FMAP_WR_FAILED = 14"
| "err_code QDMA_ERR_MBOX_NUM_QUEUES = 15"
| "err_code QDMA_ERR_MBOX_INV_QID = 16"
| "err_code QDMA_ERR_MBOX_INV_RINGSZ = 17"
| "err_code QDMA_ERR_MBOX_INV_BUFSZ = 18"
| "err_code QDMA_ERR_MBOX_INV_CNTR_TH = 19"
| "err_code QDMA_ERR_MBOX_INV_TMR_TH = 20"
| "err_code QDMA_ERR_MBOX_INV_MSG = 21"
| "err_code QDMA_ERR_MBOX_SEND_BUSY = 22"
| "err_code QDMA_ERR_MBOX_NO_MSG_IN = 23"
| "err_code QDMA_ERR_MBOX_REG_READ_FAILED = 24"
| "err_code QDMA_ERR_MBOX_ALL_ZERO_MSG = 25"

definition neg_err :: "qdma_access_error_codes \<Rightarrow> int" where
  "neg_err e = - err_code e"

lemma neg_err_neg: "e \<noteq> QDMA_SUCCESS \<Longrightarrow> neg_err e < 0"
  by (cases e) (simp_all add: neg_err_def)

lemma neg_err_zero [simp]: "neg_err e = 0 \<longleftrightarrow> e = QDMA_SUCCESS"
  by (cases e) (simp_all add: neg_err_def)

text \<open>The error numbers of the kernel that the driver returns.\<close>

definition EIO :: int where "EIO = 5"
definition ENOMEM :: int where "ENOMEM = 12"
definition EBUSY :: int where "EBUSY = 16"
definition ENODEV :: int where "ENODEV = 19"
definition EINVAL :: int where "EINVAL = 22"
definition EPIPE :: int where "EPIPE = 32"

subsection \<open>Lists\<close>

text \<open>The list without its \<open>i\<close>-th element, as unlinking that node leaves it.\<close>

definition remove_nth :: "nat \<Rightarrow> 'a list \<Rightarrow> 'a list" where
  "remove_nth i xs = take i xs @ drop (Suc i) xs"

lemma remove_nth_append [simp]: "remove_nth (length xs) (xs @ y # ys) = xs @ ys"
  by (simp add: remove_nth_def)

text \<open>The first element with a property, updated in place.\<close>

fun update_first :: "('a \<Rightarrow> bool) \<Rightarrow> ('a \<Rightarrow> 'a) \<Rightarrow> 'a list \<Rightarrow> 'a list" where
  "update_first P f [] = []"
| "update_first P f (x # xs) = (if P x then f x # xs else x # update_first P f xs)"

fun remove_first :: "('a \<Rightarrow> bool) \<Rightarrow> 'a list \<Rightarrow> 'a list" where
  "remove_first P [] = []"
| "remove_first P (x # xs) = (if P x then xs else x # remove_first P xs)"

lemma find_split:
  "find P xs = Some x \<Longrightarrow> \<exists>ys zs. xs = ys @ x # zs \<and> P x \<and> (\<forall>y\<in>set ys. \<not> P y)"
proof (induction xs)
  case Nil
  then show ?case by simp
next
  case (Cons a xs)
  show ?case
  proof (cases "P a")
    case True
    with Cons.prems show ?thesis by (intro exI [of _ "[]"] exI [of _ xs]) simp
  next
    case False
    with Cons obtain ys zs where "xs = ys @ x # zs \<and> P x \<and> (\<forall>y\<in>set ys. \<not> P y)"
      by auto
    with False show ?thesis by (intro exI [of _ "a # ys"] exI [of _ zs]) simp
  qed
qed

lemma update_first_split [simp]:
  "\<forall>y\<in>set ys. \<not> P y \<Longrightarrow> P x \<Longrightarrow> update_first P f (ys @ x # zs) = ys @ f x # zs"
  by (induction ys) auto

lemma remove_first_split [simp]:
  "\<forall>y\<in>set ys. \<not> P y \<Longrightarrow> P x \<Longrightarrow> remove_first P (ys @ x # zs) = ys @ zs"
  by (induction ys) auto

lemma find_first_split [simp]:
  "\<forall>y\<in>set ys. \<not> P y \<Longrightarrow> P x \<Longrightarrow> find P (ys @ x # zs) = Some x"
  by (induction ys) auto

lemma successively_cong_on:
  assumes "\<And>a b. a \<in> set (butlast xs) \<Longrightarrow> b \<in> set (tl xs) \<Longrightarrow> P a b = Q a b"
  shows "successively P xs = successively Q xs"
  using assms
proof (induction xs rule: induct_list012)
  case (3 x y zs)
  have "successively P (y # zs) = successively Q (y # zs)"
    using "3.prems" by (intro "3.IH"(2)) (auto split: if_splits)
  moreover have "P x y = Q x y"
    using "3.prems" by simp
  ultimately show ?case by simp
qed auto

end
