(* ===== verification/Qdma_List.thy ===== *)
theory Qdma_List
  imports Prelude "HOL-Library.Monad_Syntax" "HOL-Library.Multiset"
begin

text \<open>
  The intrusive doubly linked list of \<^verbatim>\<open>libqdma/qdma_access/qdma_list.c\<close> and
  \<^verbatim>\<open>qdma_list.h\<close>, over an explicit store: nodes live at addresses, a list is a circular
  chain through a head node, and reading or writing through a pointer that is not
  allocated is a fault (\<open>None\<close>). The second half relates the store to HOL lists: \<open>ring h
  head xs\<close> says that the store holds, from \<open>head\<close>, the circular list of nodes \<open>xs\<close>, and
  every operation is shown to act on \<open>xs\<close> as its documentation says. The locale
  \<open>node_list\<close> is that contract, which the resource manager's use of the lists rests on.
\<close>

subsection \<open>Nodes and the store\<close>

type_synonym addr = nat

record list_head =
  l_prev :: addr
  l_next :: addr
  l_priv :: nat

type_synonym heap = "addr \<Rightarrow> list_head option"

definition NULL :: addr where
  "NULL = 0"

definition set_next :: "addr \<Rightarrow> addr \<Rightarrow> heap \<Rightarrow> heap option" where
  "set_next p v h = (case h p of None \<Rightarrow> None | Some n \<Rightarrow> Some (h(p \<mapsto> n\<lparr>l_next := v\<rparr>)))"

definition set_prev :: "addr \<Rightarrow> addr \<Rightarrow> heap \<Rightarrow> heap option" where
  "set_prev p v h = (case h p of None \<Rightarrow> None | Some n \<Rightarrow> Some (h(p \<mapsto> n\<lparr>l_prev := v\<rparr>)))"

text \<open>\<^verbatim>\<open>QDMA_LIST_GET_DATA\<close> and \<^verbatim>\<open>QDMA_LIST_SET_DATA\<close>.\<close>

definition QDMA_LIST_GET_DATA :: "addr \<Rightarrow> heap \<Rightarrow> nat option" where
  "QDMA_LIST_GET_DATA node h = map_option l_priv (h node)"

definition QDMA_LIST_SET_DATA :: "addr \<Rightarrow> nat \<Rightarrow> heap \<Rightarrow> heap option" where
  "QDMA_LIST_SET_DATA node d h =
     (case h node of None \<Rightarrow> None | Some n \<Rightarrow> Some (h(node \<mapsto> n\<lparr>l_priv := d\<rparr>)))"

definition qdma_list_is_last_entry :: "addr \<Rightarrow> addr \<Rightarrow> heap \<Rightarrow> bool option" where
  "qdma_list_is_last_entry entry head h = map_option (\<lambda>n. l_next n = head) (h entry)"

definition qdma_list_is_empty :: "addr \<Rightarrow> heap \<Rightarrow> bool option" where
  "qdma_list_is_empty head h = map_option (\<lambda>n. l_next n = head) (h head)"

subsection \<open>The operations\<close>

definition qdma_list_init_head :: "addr \<Rightarrow> heap \<Rightarrow> heap option" where
  "qdma_list_init_head head h =
     (if head \<noteq> NULL then do {
        h1 \<leftarrow> set_next head head h;
        set_prev head head h1
      } else Some h)"

definition qdma_list_add_tail :: "addr \<Rightarrow> addr \<Rightarrow> heap \<Rightarrow> heap option" where
  "qdma_list_add_tail node head h = do {
     hd0 \<leftarrow> h head;
     h1 \<leftarrow> set_next (l_prev hd0) node h;
     h2 \<leftarrow> set_next node head h1;
     hd2 \<leftarrow> h2 head;
     h3 \<leftarrow> set_prev node (l_prev hd2) h2;
     set_prev head node h3
   }"

definition qdma_list_insert_before :: "addr \<Rightarrow> addr \<Rightarrow> heap \<Rightarrow> heap option" where
  "qdma_list_insert_before new_node node h = do {
     n0 \<leftarrow> h node;
     h1 \<leftarrow> set_next (l_prev n0) new_node h;
     n1 \<leftarrow> h1 node;
     h2 \<leftarrow> set_prev new_node (l_prev n1) h1;
     h3 \<leftarrow> set_next new_node node h2;
     set_prev node new_node h3
   }"

definition qdma_list_insert_after :: "addr \<Rightarrow> addr \<Rightarrow> heap \<Rightarrow> heap option" where
  "qdma_list_insert_after new_node node h = do {
     h1 \<leftarrow> set_prev new_node node h;
     n1 \<leftarrow> h1 node;
     h2 \<leftarrow> set_next new_node (l_next n1) h1;
     n2 \<leftarrow> h2 node;
     h3 \<leftarrow> set_prev (l_next n2) new_node h2;
     set_next node new_node h3
   }"

definition qdma_list_del :: "addr \<Rightarrow> heap \<Rightarrow> heap option" where
  "qdma_list_del node h =
     (if node \<noteq> NULL then do {
        n0 \<leftarrow> h node;
        h1 \<leftarrow> (if l_prev n0 \<noteq> NULL then set_next (l_prev n0) (l_next n0) h else Some h);
        n1 \<leftarrow> h1 node;
        (if l_next n1 \<noteq> NULL then set_prev (l_next n1) (l_prev n1) h1 else Some h1)
      } else Some h)"

text \<open>
  The traversal macro \<^verbatim>\<open>qdma_list_for_each_safe(pos, n, head)\<close>: \<open>n\<close> is read before the
  body runs, so the body may unlink \<open>pos\<close>. The body returns the new store; \<open>fuel\<close> bounds
  the number of iterations (\<open>None\<close> when it runs out, as when a pointer is not valid).
\<close>

fun for_each_safe_loop ::
  "nat \<Rightarrow> (addr \<Rightarrow> 's \<times> heap \<Rightarrow> ('s \<times> heap) option) \<Rightarrow> addr \<Rightarrow> addr \<Rightarrow> addr
     \<Rightarrow> 's \<times> heap \<Rightarrow> ('s \<times> heap) option" where
  "for_each_safe_loop 0 body pos n head sh = None"
| "for_each_safe_loop (Suc fuel) body pos n head sh =
     (if pos = head then Some sh
      else do {
        sh' \<leftarrow> body pos sh;
        nn \<leftarrow> (snd sh') n;
        for_each_safe_loop fuel body n (l_next nn) head sh'
      })"

definition qdma_list_for_each_safe ::
  "nat \<Rightarrow> (addr \<Rightarrow> 's \<times> heap \<Rightarrow> ('s \<times> heap) option) \<Rightarrow> addr
     \<Rightarrow> 's \<times> heap \<Rightarrow> ('s \<times> heap) option" where
  "qdma_list_for_each_safe fuel body head sh = do {
     hd0 \<leftarrow> (snd sh) head;
     nn \<leftarrow> (snd sh) (l_next hd0);
     for_each_safe_loop fuel body (l_next hd0) (l_next nn) head sh
   }"

subsection \<open>What a store looks like through its pointers\<close>

definition nx :: "heap \<Rightarrow> addr \<Rightarrow> addr option" where
  "nx h a = map_option l_next (h a)"

definition pv :: "heap \<Rightarrow> addr \<Rightarrow> addr option" where
  "pv h a = map_option l_prev (h a)"

definition dt :: "heap \<Rightarrow> addr \<Rightarrow> nat option" where
  "dt h a = map_option l_priv (h a)"

lemma set_next_step:
  assumes "p \<in> dom h"
  obtains h' where "set_next p v h = Some h'" "nx h' = (nx h)(p \<mapsto> v)" "pv h' = pv h"
    "dt h' = dt h" "dom h' = dom h" "\<And>a. a \<noteq> p \<Longrightarrow> h' a = h a"
proof -
  from assms obtain m where m: "h p = Some m" by auto
  let ?h = "h(p \<mapsto> m\<lparr>l_next := v\<rparr>)"
  have "set_next p v h = Some ?h" by (simp add: set_next_def m)
  moreover have "nx ?h = (nx h)(p \<mapsto> v)" "pv ?h = pv h" "dt ?h = dt h"
    by (auto simp: nx_def pv_def dt_def m)
  moreover have "dom ?h = dom h" using m by auto
  ultimately show thesis by (rule that) simp
qed

lemma set_prev_step:
  assumes "p \<in> dom h"
  obtains h' where "set_prev p v h = Some h'" "nx h' = nx h" "pv h' = (pv h)(p \<mapsto> v)"
    "dt h' = dt h" "dom h' = dom h" "\<And>a. a \<noteq> p \<Longrightarrow> h' a = h a"
proof -
  from assms obtain m where m: "h p = Some m" by auto
  let ?h = "h(p \<mapsto> m\<lparr>l_prev := v\<rparr>)"
  have "set_prev p v h = Some ?h" by (simp add: set_prev_def m)
  moreover have "nx ?h = nx h" "pv ?h = (pv h)(p \<mapsto> v)" "dt ?h = dt h"
    by (auto simp: nx_def pv_def dt_def m)
  moreover have "dom ?h = dom h" using m by auto
  ultimately show thesis by (rule that) simp
qed

subsection \<open>Circular lists\<close>

definition link :: "heap \<Rightarrow> addr \<Rightarrow> addr \<Rightarrow> bool" where
  "link h a b \<longleftrightarrow> nx h a = Some b \<and> pv h b = Some a"

definition ring :: "heap \<Rightarrow> addr \<Rightarrow> addr list \<Rightarrow> bool" where
  "ring h head xs \<longleftrightarrow>
     distinct (head # xs) \<and> NULL \<notin> set (head # xs) \<and> successively (link h) (head # xs @ [head])"

lemma ring_split:
  "ring h head (xs @ ys) \<longleftrightarrow>
     distinct (head # xs @ ys) \<and> NULL \<notin> set (head # xs @ ys) \<and>
     successively (link h) (head # xs) \<and> successively (link h) (ys @ [head]) \<and>
     link h (last (head # xs)) (hd (ys @ [head]))"
proof -
  have "head # (xs @ ys) @ [head] = (head # xs) @ (ys @ [head])" by simp
  then have "successively (link h) (head # (xs @ ys) @ [head]) \<longleftrightarrow>
      successively (link h) (head # xs) \<and> successively (link h) (ys @ [head]) \<and>
      link h (last (head # xs)) (hd (ys @ [head]))"
    by (metis list.distinct(1) snoc_eq_iff_butlast successively_append_iff)
  then show ?thesis unfolding ring_def by auto
qed

lemma ring_neighbours:
  assumes "ring h head (xs @ ys)"
  shows "nx h (last (head # xs)) = Some (hd (ys @ [head]))"
    and "pv h (hd (ys @ [head])) = Some (last (head # xs))"
  using assms by (simp_all only: ring_split link_def)

lemma ring_alloc:
  assumes "ring h head xs" and "a \<in> set (head # xs)"
  shows "a \<in> dom h"
proof -
  from assms(2) have "a \<in> set (head # xs @ [head])" by auto
  then obtain us vs where sp: "head # xs = us @ a # vs"
    using assms(2) split_list by metis
  then have "successively (link h) (us @ (a # vs @ [head]))"
    using assms(1) unfolding ring_def by (metis append.assoc append_Cons)
  then have "successively (link h) (a # vs @ [head])"
    by (metis append_is_Nil_conv list.distinct(1) successively_append_iff)
  then have "link h a (hd (vs @ [head]))"
    by (cases vs) auto
  then show ?thesis by (auto simp: link_def nx_def)
qed

lemma successively_link_frame:
  assumes "successively (link h) zs"
    and "\<And>a. a \<in> set (butlast zs) \<Longrightarrow> nx h' a = nx h a"
    and "\<And>b. b \<in> set (tl zs) \<Longrightarrow> pv h' b = pv h b"
  shows "successively (link h') zs"
proof -
  have "successively (link h') zs = successively (link h) zs"
    by (rule successively_cong_on) (simp add: link_def assms(2,3))
  with assms(1) show ?thesis by simp
qed

text \<open>The one fact behind the three insertions: splicing a fresh node between neighbours.\<close>

lemma ring_splice:
  assumes r: "ring h head (xs @ ys)"
    and fresh: "m \<notin> set (head # xs @ ys)" "m \<noteq> NULL"
    and nx': "nx h' = (nx h)(last (head # xs) \<mapsto> m, m \<mapsto> hd (ys @ [head]))"
    and pv': "pv h' = (pv h)(m \<mapsto> last (head # xs), hd (ys @ [head]) \<mapsto> m)"
  shows "ring h' head (xs @ m # ys)"
proof -
  let ?A = "head # xs" and ?B = "ys @ [head]"
  have d: "distinct (head # xs @ ys)"
    and sA: "successively (link h) ?A" and sB: "successively (link h) ?B"
    using r by (simp_all only: ring_split)
  have lA: "last ?A \<in> set ?A" by (rule last_in_set) simp
  have lA': "last ?A \<notin> set (butlast ?A)"
  proof -
    have "distinct (butlast ?A @ [last ?A])" using d by (subst append_butlast_last_id) auto
    then show ?thesis by simp
  qed
  have hB: "hd ?B \<in> set ys \<union> {head}" by (cases ys) auto
  have hBtl: "hd ?B \<notin> set (tl ?B)" using d by (cases ys) auto
  have "successively (link h') ?A"
  proof (rule successively_link_frame [OF sA])
    fix a assume a: "a \<in> set (butlast ?A)"
    then have "a \<in> set ?A" by (rule in_set_butlastD)
    with a lA' fresh(1) have "a \<noteq> last ?A" "a \<noteq> m" by auto
    then show "nx h' a = nx h a" by (simp add: nx')
  next
    fix b assume "b \<in> set (tl ?A)"
    then have "b \<in> set xs" by simp
    then have "b \<noteq> m" "b \<noteq> hd ?B" using fresh(1) hB d by auto
    then show "pv h' b = pv h b" by (simp add: pv')
  qed
  moreover have "successively (link h') ?B"
  proof (rule successively_link_frame [OF sB])
    fix a assume "a \<in> set (butlast ?B)"
    then have "a \<in> set ys" by simp
    then have "a \<noteq> m" "a \<noteq> last ?A" using fresh(1) lA d by auto
    then show "nx h' a = nx h a" by (simp add: nx')
  next
    fix b assume b: "b \<in> set (tl ?B)"
    then have "b \<in> set ys \<union> {head}" by (cases ys) auto
    with b hBtl fresh(1) have "b \<noteq> m" "b \<noteq> hd ?B" by auto
    then show "pv h' b = pv h b" by (simp add: pv')
  qed
  moreover have "link h' m (hd ?B)"
    by (simp add: link_def nx' pv')
  moreover have "link h' (last ?A) m"
  proof -
    have "last ?A \<noteq> m" using lA fresh(1) by auto
    moreover have "m \<noteq> hd ?B" using hB fresh(1) by auto
    ultimately show ?thesis by (simp add: link_def nx' pv')
  qed
  ultimately have "successively (link h') ((m # ys) @ [head])"
    "successively (link h') ?A" "link h' (last ?A) (hd ((m # ys) @ [head]))"
    by (cases ys; simp)+
  then show ?thesis
    unfolding ring_split using d fresh r by (auto simp: ring_def)
qed

text \<open>Unlinking the node between two neighbours.\<close>

lemma ring_unlink:
  assumes r: "ring h head (xs @ m # ys)"
    and nx': "nx h' = (nx h)(last (head # xs) \<mapsto> hd (ys @ [head]))"
    and pv': "pv h' = (pv h)(hd (ys @ [head]) \<mapsto> last (head # xs))"
  shows "ring h' head (xs @ ys)"
proof -
  let ?A = "head # xs" and ?B = "ys @ [head]"
  have d: "distinct (head # xs @ m # ys)"
    and sA: "successively (link h) ?A" and smB: "successively (link h) ((m # ys) @ [head])"
    using r by (simp_all only: ring_split)
  from smB have sB: "successively (link h) ?B"
    by (cases ys) auto
  have lA: "last ?A \<in> set ?A" by (rule last_in_set) simp
  have lA': "last ?A \<notin> set (butlast ?A)"
  proof -
    have "distinct (butlast ?A @ [last ?A])" using d by (subst append_butlast_last_id) auto
    then show ?thesis by simp
  qed
  have hB: "hd ?B \<in> set ys \<union> {head}" by (cases ys) auto
  have hBtl: "hd ?B \<notin> set (tl ?B)" using d by (cases ys) auto
  have "successively (link h') ?A"
  proof (rule successively_link_frame [OF sA])
    fix a assume "a \<in> set (butlast ?A)"
    with lA' have "a \<noteq> last ?A" by auto
    then show "nx h' a = nx h a" by (simp add: nx')
  next
    fix b assume "b \<in> set (tl ?A)"
    then have "b \<noteq> hd ?B" using hB d by auto
    then show "pv h' b = pv h b" by (simp add: pv')
  qed
  moreover have "successively (link h') ?B"
  proof (rule successively_link_frame [OF sB])
    fix a assume "a \<in> set (butlast ?B)"
    then have "a \<noteq> last ?A" using lA d by auto
    then show "nx h' a = nx h a" by (simp add: nx')
  next
    fix b assume "b \<in> set (tl ?B)"
    with hBtl have "b \<noteq> hd ?B" by auto
    then show "pv h' b = pv h b" by (simp add: pv')
  qed
  moreover have "link h' (last ?A) (hd ?B)"
    by (simp add: link_def nx' pv')
  ultimately show ?thesis
    unfolding ring_split using d r by (auto simp: ring_def)
qed

subsection \<open>The operations on circular lists\<close>

text \<open>
  What an operation that turns \<open>xs\<close> into \<open>ys\<close> promises: it returns, the ring holds \<open>ys\<close>,
  no node's data changed, and no node outside \<open>xs\<close> and \<open>ys\<close> was touched.
\<close>

definition relinks :: "heap \<Rightarrow> addr \<Rightarrow> addr list \<Rightarrow> addr list \<Rightarrow> heap option \<Rightarrow> bool" where
  "relinks h head xs ys res \<longleftrightarrow>
     (\<exists>h'. res = Some h' \<and> ring h' head ys \<and> dt h' = dt h \<and>
        (\<forall>a. a \<notin> set (head # xs @ ys) \<longrightarrow> h' a = h a))"

lemma bind_Some_step: "m = Some x \<Longrightarrow> Option.bind m f = f x"
  by simp

lemma init_head_ring:
  assumes "head \<noteq> NULL" "head \<in> dom h"
  shows "\<exists>h'. qdma_list_init_head head h = Some h' \<and> ring h' head [] \<and> dt h' = dt h \<and>
           dom h' = dom h \<and> (\<forall>a. a \<noteq> head \<longrightarrow> h' a = h a)"
proof -
  obtain h1 where s1: "set_next head head h = Some h1" "nx h1 = (nx h)(head \<mapsto> head)"
      "pv h1 = pv h" "dt h1 = dt h" "dom h1 = dom h" "\<And>a. a \<noteq> head \<Longrightarrow> h1 a = h a"
    using set_next_step [OF assms(2)] by blast
  have "head \<in> dom h1" using s1(5) assms(2) by simp
  then obtain h2 where s2: "set_prev head head h1 = Some h2" "nx h2 = nx h1"
      "pv h2 = (pv h1)(head \<mapsto> head)" "dt h2 = dt h1" "dom h2 = dom h1"
      "\<And>a. a \<noteq> head \<Longrightarrow> h2 a = h1 a"
    using set_prev_step [of head h1] by blast
  have "qdma_list_init_head head h = Some h2"
    by (simp add: qdma_list_init_head_def assms(1) s1(1) s2(1))
  moreover have "ring h2 head []"
    using assms(1) by (simp add: ring_def link_def s1 s2)
  ultimately show ?thesis using s1 s2 by auto
qed

text \<open>
  The neighbours \<open>p\<close>, \<open>q\<close> of the insertion point between \<open>xs\<close> and \<open>ys\<close>, with what the
  three insertions need to know of them.
\<close>

lemma insertion_point:
  assumes r: "ring h head (xs @ ys)" and fresh: "m \<notin> set (head # xs @ ys)"
    and p: "p = last (head # xs)" and q: "q = hd (ys @ [head])"
  shows "p \<in> dom h" "q \<in> dom h" "p \<noteq> m" "q \<noteq> m"
    "nx h p = Some q" "pv h q = Some p" "p \<in> set (head # xs @ ys)" "q \<in> set (head # xs @ ys)"
proof -
  have "last (head # xs) \<in> set (head # xs)" by (rule last_in_set) simp
  then show pin: "p \<in> set (head # xs @ ys)" by (auto simp: p)
  show qin: "q \<in> set (head # xs @ ys)" unfolding q by (cases ys) auto
  show "p \<in> dom h" "q \<in> dom h" using ring_alloc [OF r] pin qin by simp_all
  show "p \<noteq> m" "q \<noteq> m" using pin qin fresh by auto
  show "nx h p = Some q" "pv h q = Some p" using ring_neighbours [OF r] by (simp_all only: p q)
qed

lemma insert_after_ring:
  assumes r: "ring h head (xs @ ys)" and p: "p = last (head # xs)"
    and fresh: "m \<notin> set (head # xs @ ys)" "m \<noteq> NULL" "m \<in> dom h"
  shows "relinks h head (xs @ ys) (xs @ m # ys) (qdma_list_insert_after m p h)"
proof -
  define q where "q = hd (ys @ [head])"
  note ip = insertion_point [OF r fresh(1) p q_def]
  obtain h1 where s1: "set_prev m p h = Some h1" "nx h1 = nx h" "pv h1 = (pv h)(m \<mapsto> p)"
      "dt h1 = dt h" "dom h1 = dom h" "\<And>a. a \<noteq> m \<Longrightarrow> h1 a = h a"
    using set_prev_step [OF fresh(3)] by blast
  obtain n1 where n1: "h1 p = Some n1" using ip(1) s1(5) by auto
  have "nx h1 p = Some (l_next n1)" by (simp add: nx_def n1)
  then have n1q: "l_next n1 = q" using ip(5) by (simp add: s1(2))
  obtain h2 where s2: "set_next m q h1 = Some h2" "nx h2 = (nx h1)(m \<mapsto> q)" "pv h2 = pv h1"
      "dt h2 = dt h1" "dom h2 = dom h1" "\<And>a. a \<noteq> m \<Longrightarrow> h2 a = h1 a"
    using set_next_step [of m h1] fresh(3) s1(5) by blast
  have n2: "h2 p = Some n1" using s2(6) [OF ip(3)] n1 by simp
  obtain h3 where s3: "set_prev q m h2 = Some h3" "nx h3 = nx h2" "pv h3 = (pv h2)(q \<mapsto> m)"
      "dt h3 = dt h2" "dom h3 = dom h2" "\<And>a. a \<noteq> q \<Longrightarrow> h3 a = h2 a"
    using set_prev_step [of q h2] ip(2) s1(5) s2(5) by blast
  obtain h4 where s4: "set_next p m h3 = Some h4" "nx h4 = (nx h3)(p \<mapsto> m)" "pv h4 = pv h3"
      "dt h4 = dt h3" "dom h4 = dom h3" "\<And>a. a \<noteq> p \<Longrightarrow> h4 a = h3 a"
    using set_next_step [of p h3] ip(1) s1(5) s2(5) s3(5) by blast
  have res: "qdma_list_insert_after m p h = Some h4"
    by (simp add: qdma_list_insert_after_def s1(1) n1 n1q s2(1) n2 s3(1) s4(1))
  have "ring h4 head (xs @ m # ys)"
  proof (rule ring_splice [OF r fresh(1,2)])
    show "nx h4 = (nx h)(last (head # xs) \<mapsto> m, m \<mapsto> hd (ys @ [head]))"
      unfolding p [symmetric] q_def [symmetric] using ip(3) by (simp add: s1 s2 s3 s4 fun_upd_twist)
    show "pv h4 = (pv h)(m \<mapsto> last (head # xs), hd (ys @ [head]) \<mapsto> m)"
      unfolding p [symmetric] q_def [symmetric] by (simp add: s1 s2 s3 s4)
  qed
  moreover have "h4 a = h a" if "a \<notin> set (head # (xs @ ys) @ xs @ m # ys)" for a
  proof -
    have "a \<noteq> p" "a \<noteq> q" "a \<noteq> m" using that ip(7,8) by auto
    then show ?thesis using s1(6) s2(6) s3(6) s4(6) by simp
  qed
  ultimately show ?thesis
    unfolding relinks_def using res s1(4) s2(4) s3(4) s4(4) by auto
qed

lemma insert_before_ring:
  assumes r: "ring h head (xs @ ys)" and q: "q = hd (ys @ [head])"
    and fresh: "m \<notin> set (head # xs @ ys)" "m \<noteq> NULL" "m \<in> dom h"
  shows "relinks h head (xs @ ys) (xs @ m # ys) (qdma_list_insert_before m q h)"
proof -
  define p where "p = last (head # xs)"
  note ip = insertion_point [OF r fresh(1) p_def q]
  obtain n0 where n0: "h q = Some n0" using ip(2) by auto
  have "pv h q = Some (l_prev n0)" by (simp add: pv_def n0)
  then have n0p: "l_prev n0 = p" using ip(6) by simp
  obtain h1 where s1: "set_next p m h = Some h1" "nx h1 = (nx h)(p \<mapsto> m)" "pv h1 = pv h"
      "dt h1 = dt h" "dom h1 = dom h" "\<And>a. a \<noteq> p \<Longrightarrow> h1 a = h a"
    using set_next_step [OF ip(1)] by blast
  obtain n1 where n1: "h1 q = Some n1" using ip(2) s1(5) by auto
  have "pv h1 q = Some (l_prev n1)" by (simp add: pv_def n1)
  then have n1p: "l_prev n1 = p" using ip(6) by (simp add: s1(3))
  obtain h2 where s2: "set_prev m p h1 = Some h2" "nx h2 = nx h1" "pv h2 = (pv h1)(m \<mapsto> p)"
      "dt h2 = dt h1" "dom h2 = dom h1" "\<And>a. a \<noteq> m \<Longrightarrow> h2 a = h1 a"
    using set_prev_step [of m h1] fresh(3) s1(5) by blast
  obtain h3 where s3: "set_next m q h2 = Some h3" "nx h3 = (nx h2)(m \<mapsto> q)" "pv h3 = pv h2"
      "dt h3 = dt h2" "dom h3 = dom h2" "\<And>a. a \<noteq> m \<Longrightarrow> h3 a = h2 a"
    using set_next_step [of m h2] fresh(3) s1(5) s2(5) by blast
  obtain h4 where s4: "set_prev q m h3 = Some h4" "nx h4 = nx h3" "pv h4 = (pv h3)(q \<mapsto> m)"
      "dt h4 = dt h3" "dom h4 = dom h3" "\<And>a. a \<noteq> q \<Longrightarrow> h4 a = h3 a"
    using set_prev_step [of q h3] ip(2) s1(5) s2(5) s3(5) by blast
  have res: "qdma_list_insert_before m q h = Some h4"
    by (simp add: qdma_list_insert_before_def n0 n0p s1(1) n1 n1p s2(1) s3(1) s4(1))
  have "ring h4 head (xs @ m # ys)"
  proof (rule ring_splice [OF r fresh(1,2)])
    show "nx h4 = (nx h)(last (head # xs) \<mapsto> m, m \<mapsto> hd (ys @ [head]))"
      unfolding p_def [symmetric] q [symmetric] by (simp add: s1 s2 s3 s4)
    show "pv h4 = (pv h)(m \<mapsto> last (head # xs), hd (ys @ [head]) \<mapsto> m)"
      unfolding p_def [symmetric] q [symmetric] by (simp add: s1 s2 s3 s4)
  qed
  moreover have "h4 a = h a" if "a \<notin> set (head # (xs @ ys) @ xs @ m # ys)" for a
  proof -
    have "a \<noteq> p" "a \<noteq> q" "a \<noteq> m" using that ip(7,8) by auto
    then show ?thesis using s1(6) s2(6) s3(6) s4(6) by simp
  qed
  ultimately show ?thesis
    unfolding relinks_def using res s1(4) s2(4) s3(4) s4(4) by auto
qed

lemma add_tail_ring:
  assumes r: "ring h head xs"
    and fresh: "m \<notin> set (head # xs)" "m \<noteq> NULL" "m \<in> dom h"
  shows "relinks h head xs (xs @ [m]) (qdma_list_add_tail m head h)"
proof -
  have r': "ring h head (xs @ [])" using r by simp
  have fresh': "m \<notin> set (head # xs @ [])" using fresh(1) by simp
  define p where "p = last (head # xs)"
  have q: "head = hd ([] @ [head])" by simp
  note ip = insertion_point [OF r' fresh' p_def q]
  obtain n0 where n0: "h head = Some n0" using ip(2) by auto
  have "pv h head = Some (l_prev n0)" by (simp add: pv_def n0)
  then have n0p: "l_prev n0 = p" using ip(6) by simp
  obtain h1 where s1: "set_next p m h = Some h1" "nx h1 = (nx h)(p \<mapsto> m)" "pv h1 = pv h"
      "dt h1 = dt h" "dom h1 = dom h" "\<And>a. a \<noteq> p \<Longrightarrow> h1 a = h a"
    using set_next_step [OF ip(1)] by blast
  obtain h2 where s2: "set_next m head h1 = Some h2" "nx h2 = (nx h1)(m \<mapsto> head)" "pv h2 = pv h1"
      "dt h2 = dt h1" "dom h2 = dom h1" "\<And>a. a \<noteq> m \<Longrightarrow> h2 a = h1 a"
    using set_next_step [of m h1] fresh(3) s1(5) by blast
  obtain n2 where n2: "h2 head = Some n2" using ip(2) s1(5) s2(5) by auto
  have "pv h2 head = Some (l_prev n2)" by (simp add: pv_def n2)
  then have n2p: "l_prev n2 = p" using ip(6) by (simp add: s2(3) s1(3))
  obtain h3 where s3: "set_prev m p h2 = Some h3" "nx h3 = nx h2" "pv h3 = (pv h2)(m \<mapsto> p)"
      "dt h3 = dt h2" "dom h3 = dom h2" "\<And>a. a \<noteq> m \<Longrightarrow> h3 a = h2 a"
    using set_prev_step [of m h2] fresh(3) s1(5) s2(5) by blast
  obtain h4 where s4: "set_prev head m h3 = Some h4" "nx h4 = nx h3" "pv h4 = (pv h3)(head \<mapsto> m)"
      "dt h4 = dt h3" "dom h4 = dom h3" "\<And>a. a \<noteq> head \<Longrightarrow> h4 a = h3 a"
    using set_prev_step [of head h3] ip(2) s1(5) s2(5) s3(5) by blast
  have res: "qdma_list_add_tail m head h = Some h4"
    by (simp add: qdma_list_add_tail_def n0 n0p s1(1) s2(1) n2 n2p s3(1) s4(1))
  have "ring h4 head (xs @ m # [])"
  proof (rule ring_splice [OF r' fresh' fresh(2)])
    show "nx h4 = (nx h)(last (head # xs) \<mapsto> m, m \<mapsto> hd ([] @ [head]))"
      unfolding p_def [symmetric] by (simp add: s1 s2 s3 s4)
    show "pv h4 = (pv h)(m \<mapsto> last (head # xs), hd ([] @ [head]) \<mapsto> m)"
      unfolding p_def [symmetric] by (simp add: s1 s2 s3 s4)
  qed
  moreover have "h4 a = h a" if "a \<notin> set (head # xs @ xs @ [m])" for a
  proof -
    have "a \<noteq> p" "a \<noteq> head" "a \<noteq> m" using that ip(7) by auto
    then show ?thesis using s1(6) s2(6) s3(6) s4(6) by simp
  qed
  ultimately show ?thesis
    unfolding relinks_def using res s1(4) s2(4) s3(4) s4(4) by auto
qed

lemma del_ring:
  assumes r: "ring h head (xs @ m # ys)"
  shows "relinks h head (xs @ m # ys) (xs @ ys) (qdma_list_del m h)"
proof -
  define p where "p = last (head # xs)"
  define q where "q = hd (ys @ [head])"
  have nn: "NULL \<notin> set (head # xs @ m # ys)" and d: "distinct (head # xs @ m # ys)"
    using r unfolding ring_def by blast+
  have "last (head # xs) \<in> set (head # xs)" by (rule last_in_set) simp
  then have pin: "p \<in> set (head # xs)" by (simp only: p_def)
  have qin: "q \<in> set (head # ys)" unfolding q_def by (cases ys) auto
  have pq: "p \<noteq> NULL" "q \<noteq> NULL" "m \<noteq> NULL" "p \<noteq> m" "q \<noteq> m" using nn pin qin d by auto
  have al: "p \<in> dom h" "q \<in> dom h" "m \<in> dom h"
    using ring_alloc [OF r] pin qin by auto
  have "pv h m = Some p" using ring_neighbours(2) [OF r] by (simp add: p_def)
  moreover have "nx h m = Some q"
    using ring_neighbours(1) [of h head "xs @ [m]" ys] r by (simp add: q_def)
  moreover obtain n0 where n0: "h m = Some n0" using al(3) by auto
  ultimately have n0pq: "l_prev n0 = p" "l_next n0 = q" by (simp_all add: pv_def nx_def)
  obtain h1 where s1: "set_next p q h = Some h1" "nx h1 = (nx h)(p \<mapsto> q)" "pv h1 = pv h"
      "dt h1 = dt h" "dom h1 = dom h" "\<And>a. a \<noteq> p \<Longrightarrow> h1 a = h a"
    using set_next_step [OF al(1)] by blast
  have n1: "h1 m = Some n0" using s1(6) pq(4) n0 by metis
  obtain h2 where s2: "set_prev q p h1 = Some h2" "nx h2 = nx h1" "pv h2 = (pv h1)(q \<mapsto> p)"
      "dt h2 = dt h1" "dom h2 = dom h1" "\<And>a. a \<noteq> q \<Longrightarrow> h2 a = h1 a"
    using set_prev_step [of q h1] al(2) s1(5) by blast
  have res: "qdma_list_del m h = Some h2"
    using pq by (simp add: qdma_list_del_def n0 n0pq s1(1) n1 s2(1))
  have "ring h2 head (xs @ ys)"
    by (rule ring_unlink [OF r]) (simp_all add: s1 s2 p_def q_def)
  moreover have "h2 a = h a" if "a \<notin> set (head # (xs @ m # ys) @ xs @ ys)" for a
  proof -
    have "a \<noteq> p" "a \<noteq> q" using that pin qin by auto
    then show ?thesis using s1(6) s2(6) by simp
  qed
  ultimately show ?thesis
    unfolding relinks_def using res s1(4) s2(4) by auto
qed

subsection \<open>Traversals\<close>

lemma nx_ring_hd:
  assumes "ring h head (x # ys)"
  obtains n where "h x = Some n" "l_next n = hd (ys @ [head])"
proof -
  have "nx h x = Some (hd (ys @ [head]))"
    using ring_neighbours(1) [of h head "[x]" ys] assms by simp
  then show thesis using that by (auto simp: nx_def)
qed

lemma ring_head_next:
  assumes "ring h head xs"
  obtains n where "h head = Some n" "l_next n = hd (xs @ [head])"
proof -
  have "nx h head = Some (hd (xs @ [head]))"
    using ring_neighbours(1) [of h head "[]" xs] assms by simp
  then show thesis using that by (auto simp: nx_def)
qed

text \<open>A body that only reads the store visits the nodes of the ring, in order, once each.\<close>

lemma for_each_safe_loop_reads:
  assumes "ring h head (vs @ ys)" "length ys < fuel"
    and "ys \<noteq> [] \<Longrightarrow> n = hd (tl ys @ [head])"
    and body: "\<And>p s. p \<in> set ys \<Longrightarrow> body p (s, h) = Some (f p s, h)"
  shows "for_each_safe_loop fuel body (hd (ys @ [head])) n head (s, h) = Some (fold f ys s, h)"
  using assms
proof (induction ys arbitrary: vs fuel n s)
  case Nil
  then obtain k where "fuel = Suc k" by (cases fuel) auto
  then show ?case by simp
next
  case (Cons y ys)
  obtain k where k: "fuel = Suc k" using Cons.prems(2) by (cases fuel) auto
  have r: "ring h head ((vs @ [y]) @ ys)" using Cons.prems(1) by simp
  have yh: "y \<noteq> head" using Cons.prems(1) by (auto simp: ring_def)
  have n: "n = hd (ys @ [head])" using Cons.prems(3) by simp
  have nin: "n \<in> set (head # vs @ y # ys)" unfolding n by (cases ys) auto
  obtain nn where nn: "h n = Some nn" using ring_alloc [OF Cons.prems(1) nin] by auto
  have next': "ys \<noteq> [] \<Longrightarrow> l_next nn = hd (tl ys @ [head])"
  proof -
    assume "ys \<noteq> []"
    then obtain z zs where ys: "ys = z # zs" by (cases ys) auto
    have "nx h z = Some (hd (zs @ [head]))"
      using ring_neighbours(1) [of h head "vs @ [y, z]" zs] r ys by simp
    then show ?thesis using nn n ys by (simp add: nx_def)
  qed
  have "for_each_safe_loop k body (hd (ys @ [head])) (l_next nn) head (f y s, h)
      = Some (fold f ys (f y s), h)"
    using Cons.prems(2) k by (intro Cons.IH [OF r _ next'] Cons.prems(4)) auto
  then show ?case using yh k nn n Cons.prems(4) [of y s] by simp
qed

lemma for_each_safe_reads:
  assumes "ring h head xs" "length xs < fuel"
    and body: "\<And>p s. p \<in> set xs \<Longrightarrow> body p (s, h) = Some (f p s, h)"
  shows "qdma_list_for_each_safe fuel body head (s, h) = Some (fold f xs s, h)"
proof -
  obtain n where n: "h head = Some n" "l_next n = hd (xs @ [head])"
    using ring_head_next [OF assms(1)] .
  have "hd (xs @ [head]) \<in> set (head # xs)" by (cases xs) auto
  then obtain m where m: "h (hd (xs @ [head])) = Some m" using ring_alloc [OF assms(1)] by auto
  have "xs \<noteq> [] \<Longrightarrow> l_next m = hd (tl xs @ [head])"
    using assms(1) m by (cases xs) (auto elim: nx_ring_hd)
  then have "for_each_safe_loop fuel body (hd (xs @ [head])) (l_next m) head (s, h)
      = Some (fold f xs s, h)"
    using assms by (intro for_each_safe_loop_reads [where vs = "[]"]) auto
  then show ?thesis by (simp add: qdma_list_for_each_safe_def n m)
qed

text \<open>
  The draining loop of \<^verbatim>\<open>qdma_master_resource_destroy\<close>: every visited node is unlinked
  while the traversal runs; \<open>s\<close> collects the nodes that are freed.
\<close>

definition drain_body :: "addr \<Rightarrow> addr list \<times> heap \<Rightarrow> (addr list \<times> heap) option" where
  "drain_body pos sh = map_option (\<lambda>h'. (fst sh @ [pos], h')) (qdma_list_del pos (snd sh))"

lemma drain_loop:
  assumes "ring h head ys" "length ys < fuel"
    and "ys \<noteq> [] \<Longrightarrow> n = hd (tl ys @ [head])"
  shows "\<exists>h'. for_each_safe_loop fuel drain_body (hd (ys @ [head])) n head (s, h) = Some (s @ ys, h')
           \<and> ring h' head []"
  using assms
proof (induction ys arbitrary: h fuel n s)
  case Nil
  then obtain k where "fuel = Suc k" by (cases fuel) auto
  with Nil show ?case by simp
next
  case (Cons y ys)
  obtain k where k: "fuel = Suc k" using Cons.prems(2) by (cases fuel) auto
  have yh: "y \<noteq> head" using Cons.prems(1) by (auto simp: ring_def)
  have n: "n = hd (ys @ [head])" using Cons.prems(3) by simp
  obtain h' where h': "qdma_list_del y h = Some h'" "ring h' head ys"
    using del_ring [of h head "[]" y ys] Cons.prems(1) by (auto simp: relinks_def)
  have "n \<in> set (head # ys)" unfolding n by (cases ys) auto
  then obtain nn where nn: "h' n = Some nn" using ring_alloc [OF h'(2)] by auto
  have next': "ys \<noteq> [] \<Longrightarrow> l_next nn = hd (tl ys @ [head])"
    using h'(2) nn n by (cases ys) (auto elim: nx_ring_hd)
  obtain h'' where "for_each_safe_loop k drain_body (hd (ys @ [head])) (l_next nn) head (s @ [y], h')
      = Some ((s @ [y]) @ ys, h'')" "ring h'' head []"
    using Cons.IH [OF h'(2) _ next', of k "s @ [y]"] Cons.prems(2) k by auto
  moreover have "drain_body y (s, h) = Some (s @ [y], h')"
    by (simp add: drain_body_def h'(1))
  ultimately show ?case using yh k nn n by auto
qed

subsection \<open>The contract of the list, and what its clients rest on\<close>

text \<open>
  \<open>rep h head xs\<close> reads "the list at \<open>head\<close> holds the nodes \<open>xs\<close>"; \<open>usable h m xs\<close> says
  that \<open>m\<close> is a node that may be linked into it.
\<close>

locale node_list =
  fixes rep :: "'h \<Rightarrow> 'a \<Rightarrow> 'a list \<Rightarrow> bool"
    and usable :: "'h \<Rightarrow> 'a \<Rightarrow> 'a \<Rightarrow> 'a list \<Rightarrow> bool"
    and add_tail :: "'a \<Rightarrow> 'a \<Rightarrow> 'h \<Rightarrow> 'h option"
    and insert_before :: "'a \<Rightarrow> 'a \<Rightarrow> 'h \<Rightarrow> 'h option"
    and insert_after :: "'a \<Rightarrow> 'a \<Rightarrow> 'h \<Rightarrow> 'h option"
    and del :: "'a \<Rightarrow> 'h \<Rightarrow> 'h option"
  assumes add_tail_law: "rep h head xs \<Longrightarrow> usable h head m xs \<Longrightarrow>
      \<exists>h'. add_tail m head h = Some h' \<and> rep h' head (xs @ [m])"
    and insert_before_law: "rep h head (xs @ y # ys) \<Longrightarrow> usable h head m (xs @ y # ys) \<Longrightarrow>
      \<exists>h'. insert_before m y h = Some h' \<and> rep h' head (xs @ m # y # ys)"
    and insert_after_law: "rep h head (xs @ y # ys) \<Longrightarrow> usable h head m (xs @ y # ys) \<Longrightarrow>
      \<exists>h'. insert_after m y h = Some h' \<and> rep h' head (xs @ y # m # ys)"
    and del_law: "rep h head (xs @ y # ys) \<Longrightarrow>
      \<exists>h'. del y h = Some h' \<and> rep h' head (xs @ ys)"
begin

text \<open>
  Placing a node the way \<^verbatim>\<open>qdma_submit_to_free_list\<close> does (before the first node with a
  larger key, or at the tail) keeps the list sorted and adds exactly that node.
\<close>

lemma ordered_place:
  assumes "rep h head (xs @ ys)" "usable h head m (xs @ ys)" "sorted (map key (xs @ ys))"
    and "\<forall>x\<in>set xs. key x \<le> (key m :: int)" "ys \<noteq> [] \<Longrightarrow> key m < key (hd ys)"
  shows "\<exists>h' zs. (if ys = [] then add_tail m head h else insert_before m (hd ys) h) = Some h' \<and>
           rep h' head zs \<and> sorted (map key zs) \<and> mset zs = add_mset m (mset (xs @ ys))"
proof (cases ys)
  case Nil
  with assms obtain h' where "add_tail m head h = Some h'" "rep h' head (xs @ [m])"
    using add_tail_law [of h head xs m] by auto
  moreover have "sorted (map key (xs @ [m]))"
    using assms(3,4) Nil by (auto simp: sorted_append)
  ultimately show ?thesis using Nil by (intro exI [of _ h'] exI [of _ "xs @ [m]"]) simp
next
  case (Cons y zs)
  with assms obtain h' where "insert_before m y h = Some h'" "rep h' head (xs @ m # y # zs)"
    using insert_before_law [of h head xs y zs m] by auto
  moreover have "sorted (map key (xs @ m # y # zs))"
    using assms(3-5) Cons by (force simp: sorted_append)
  ultimately show ?thesis
    using Cons by (intro exI [of _ h'] exI [of _ "xs @ m # y # zs"]) simp
qed

text \<open>Unlinking a node that was just linked gives the old list back.\<close>

lemma insert_del:
  assumes "rep h head (xs @ y # ys)" "usable h head m (xs @ y # ys)"
  shows "\<exists>h' h''. insert_after m y h = Some h' \<and> del m h' = Some h'' \<and> rep h'' head (xs @ y # ys)"
proof -
  obtain h' where "insert_after m y h = Some h'" "rep h' head ((xs @ [y]) @ m # ys)"
    using insert_after_law [OF assms] by auto
  then show ?thesis using del_law [of h' head "xs @ [y]" m ys] by auto
qed

end

definition linkable :: "heap \<Rightarrow> addr \<Rightarrow> addr \<Rightarrow> addr list \<Rightarrow> bool" where
  "linkable h head m xs \<longleftrightarrow> m \<notin> set (head # xs) \<and> m \<noteq> NULL \<and> m \<in> dom h"

interpretation qlist: node_list ring linkable
  qdma_list_add_tail qdma_list_insert_before qdma_list_insert_after qdma_list_del
proof
  fix h head xs m
  assume "ring h head xs" "linkable h head m xs"
  then show "\<exists>h'. qdma_list_add_tail m head h = Some h' \<and> ring h' head (xs @ [m])"
    using add_tail_ring [of h head xs m] by (auto simp: relinks_def linkable_def)
next
  fix h head xs y ys m
  assume "ring h head (xs @ y # ys)" "linkable h head m (xs @ y # ys)"
  then show "\<exists>h'. qdma_list_insert_before m y h = Some h' \<and> ring h' head (xs @ m # y # ys)"
    using insert_before_ring [of h head xs "y # ys" y m] by (auto simp: relinks_def linkable_def)
next
  fix h head xs y ys m
  assume "ring h head (xs @ y # ys)" "linkable h head m (xs @ y # ys)"
  then show "\<exists>h'. qdma_list_insert_after m y h = Some h' \<and> ring h' head (xs @ y # m # ys)"
    using insert_after_ring [of h head "xs @ [y]" ys y m] by (auto simp: relinks_def linkable_def)
next
  fix h head xs y ys
  assume "ring h head (xs @ y # ys)"
  then show "\<exists>h'. qdma_list_del y h = Some h' \<and> ring h' head (xs @ ys)"
    using del_ring [of h head xs y ys] by (auto simp: relinks_def)
qed

subsection \<open>Properties\<close>

text \<open>
  Unlinking while traversing is safe. On a well-formed circular list, the
  \<^verbatim>\<open>qdma_list_for_each_safe\<close> loop whose body unlinks every visited node terminates (within
  one iteration per node and one for the end test), visits each node of the list exactly
  once and in order, never follows an invalid pointer, and leaves the list empty.
\<close>

theorem qdma_list_for_each_safe_drains:
  assumes "ring h head xs" "length xs < fuel"
  shows "\<exists>h'. qdma_list_for_each_safe fuel drain_body head ([], h) = Some (xs, h') \<and>
           ring h' head [] \<and> qdma_list_is_empty head h' = Some True"
proof -
  obtain n where n: "h head = Some n" "l_next n = hd (xs @ [head])"
    using ring_head_next [OF assms(1)] .
  have "hd (xs @ [head]) \<in> set (head # xs)" by (cases xs) auto
  then obtain m where m: "h (hd (xs @ [head])) = Some m" using ring_alloc [OF assms(1)] by auto
  have "xs \<noteq> [] \<Longrightarrow> l_next m = hd (tl xs @ [head])"
    using assms(1) m by (cases xs) (auto elim: nx_ring_hd)
  then obtain h' where h': "for_each_safe_loop fuel drain_body (hd (xs @ [head])) (l_next m) head ([], h)
      = Some (xs, h')" "ring h' head []"
    using drain_loop [OF assms, of "l_next m" "[]"] by auto
  moreover have "qdma_list_is_empty head h' = Some True"
    using h'(2) by (auto simp: qdma_list_is_empty_def elim!: ring_head_next)
  ultimately show ?thesis by (simp add: qdma_list_for_each_safe_def n m)
qed

definition demo_heap :: heap where
  "demo_heap = [1 \<mapsto> \<lparr>l_prev = 3, l_next = 2, l_priv = 0\<rparr>,
                2 \<mapsto> \<lparr>l_prev = 1, l_next = 3, l_priv = 10\<rparr>,
                3 \<mapsto> \<lparr>l_prev = 2, l_next = 1, l_priv = 30\<rparr>,
                4 \<mapsto> \<lparr>l_prev = 0, l_next = 0, l_priv = 20\<rparr>]"

lemma demo_ring: "ring demo_heap 1 [2, 3]"
  by (simp add: ring_def link_def nx_def pv_def demo_heap_def NULL_def)

lemma demo_linkable: "linkable demo_heap 1 4 [2, 3]"
  by (simp add: linkable_def demo_heap_def NULL_def)

theorem qdma_list_for_each_safe_drains_witness:
  "\<exists>h'. qdma_list_for_each_safe 3 drain_body 1 ([], demo_heap) = Some ([2, 3], h') \<and>
     ring h' 1 [] \<and> qdma_list_is_empty 1 h' = Some True"
  by (rule qdma_list_for_each_safe_drains [OF demo_ring]) simp

text \<open>
  The pointer operations refine list operations. On a well-formed circular list,
  \<^verbatim>\<open>qdma_list_insert_after\<close>, \<^verbatim>\<open>qdma_list_insert_before\<close>, \<^verbatim>\<open>qdma_list_add_tail\<close> and
  \<^verbatim>\<open>qdma_list_del\<close> follow only valid pointers, yield a well-formed circular list with the
  node inserted after, before, at the end or removed, and change neither the data of any
  node nor any node outside the list.
\<close>

theorem qdma_list_ops_refine:
  assumes r: "ring h head (xs @ y # ys)" and u: "linkable h head m (xs @ y # ys)"
  shows "relinks h head (xs @ y # ys) (xs @ y # m # ys) (qdma_list_insert_after m y h) \<and>
         relinks h head (xs @ y # ys) (xs @ m # y # ys) (qdma_list_insert_before m y h) \<and>
         relinks h head (xs @ y # ys) (xs @ y # ys @ [m]) (qdma_list_add_tail m head h) \<and>
         relinks h head (xs @ y # ys) (xs @ ys) (qdma_list_del y h)"
  using insert_after_ring [of h head "xs @ [y]" ys y m] insert_before_ring [of h head xs "y # ys" y m]
    add_tail_ring [OF r, of m] del_ring [OF r] r u
  by (simp add: linkable_def)

theorem qdma_list_ops_refine_witness:
  "relinks demo_heap 1 [2, 3] [2, 4, 3] (qdma_list_insert_after 4 2 demo_heap) \<and>
   relinks demo_heap 1 [2, 3] [4, 2, 3] (qdma_list_insert_before 4 2 demo_heap) \<and>
   relinks demo_heap 1 [2, 3] [2, 3, 4] (qdma_list_add_tail 4 1 demo_heap) \<and>
   relinks demo_heap 1 [2, 3] [3] (qdma_list_del 2 demo_heap)"
  using qdma_list_ops_refine [of demo_heap 1 "[]" 2 "[3]" 4] demo_ring demo_linkable by simp

end
