(* ===== verification/Free_List.thy ===== *)
theory Free_List
  imports Prelude
begin

text \<open>
  The free list of one queue resource (\<^verbatim>\<open>libqdma/qdma_access/qdma_resource_mgmt.c\<close>):
  returning a range to it with coalescing (\<^verbatim>\<open>qdma_submit_to_free_list\<close>), picking and
  splitting the best node for a request (\<^verbatim>\<open>qdma_get_resource_node\<close>) and the two composed
  (\<^verbatim>\<open>qdma_request_q_resource\<close>). The circular list is a HOL list here (the theory
  Qdma_List shows that the pointer operations act on lists this way). Sizes and bases are
  integers with the C conversions between \<^verbatim>\<open>int\<close> and \<^verbatim>\<open>uint32_t\<close> written out. Memory
  allocation is a parameter: \<open>al k\<close> says whether the \<open>k\<close>-th call of \<^verbatim>\<open>qdma_calloc\<close> returns
  memory; the number of calls made so far is threaded through.
\<close>

subsection \<open>Entries\<close>

record resource_entry =
  qbase :: int
  total_q :: int

type_synonym allocator = "nat \<Rightarrow> bool"

definition qdma_free_entry_create ::
  "allocator \<Rightarrow> nat \<Rightarrow> int \<Rightarrow> int \<Rightarrow> resource_entry option \<times> nat" where
  "qdma_free_entry_create al k q_base tq =
     (if al k then (Some \<lparr>qbase = q_base, total_q = tq\<rparr>, Suc k) else (None, Suc k))"

subsection \<open>Returning a range\<close>

text \<open>
  The insertion loop: before the first node with a larger base, or at the tail. The list is
  not empty, so exactly one iteration inserts.
\<close>

fun insert_free :: "resource_entry \<Rightarrow> resource_entry list \<Rightarrow> resource_entry list" where
  "insert_free new_node [] = [new_node]"
| "insert_free new_node (node # rest) =
     (if qbase node > qbase new_node then new_node # node # rest
      else if rest = [] then [node, new_node]
      else node # insert_free new_node rest)"

text \<open>The merging loop, with the stretched node at the head.\<close>

fun defrag :: "resource_entry list \<Rightarrow> resource_entry list" where
  "defrag [] = []"
| "defrag [streach_node] = [streach_node]"
| "defrag (streach_node # node # rest) =
     (if to_u32 (qbase streach_node + total_q streach_node) = to_u32 (qbase node)
      then defrag (streach_node\<lparr>total_q := to_u32 (total_q streach_node + total_q node)\<rparr> # rest)
      else streach_node # defrag (node # rest))"

text \<open>
  \<open>qdma_submit_to_free_list\<close> takes and returns the device's entry and the free list; when
  the node cannot be allocated it returns early, before the device's entry is reset and
  before merging.
\<close>

definition qdma_submit_to_free_list ::
  "allocator \<Rightarrow> nat \<Rightarrow> resource_entry \<Rightarrow> resource_entry list
     \<Rightarrow> resource_entry \<times> resource_entry list \<times> nat" where
  "qdma_submit_to_free_list al k dev fl =
     (if total_q dev = 0 then (dev, fl, k)
      else case qdma_free_entry_create al k (qbase dev) (total_q dev) of
        (None, k') \<Rightarrow> (dev, fl, k')
      | (Some new_node, k') \<Rightarrow>
          (dev\<lparr>qbase := -1, total_q := 0\<rparr>,
           defrag (if fl = [] then [new_node] else insert_free new_node fl), k'))"

subsection \<open>Picking and splitting a node\<close>

text \<open>The first loop: the first node that holds the requested range.\<close>

definition holds_request :: "int \<Rightarrow> int \<Rightarrow> resource_entry \<Rightarrow> bool" where
  "holds_request qmax qb node \<longleftrightarrow>
     qb \<ge> qbase node \<and> to_u32 (qbase node + total_q node) \<ge> to_u32 (qb + qmax)"

fun find_index :: "('a \<Rightarrow> bool) \<Rightarrow> 'a list \<Rightarrow> nat option" where
  "find_index P [] = None"
| "find_index P (x # xs) = (if P x then Some 0 else map_option Suc (find_index P xs))"

text \<open>
  The second loop: the smallest node that is large enough, the last one of equals; \<open>i\<close> is
  the index of the node the loop looks at, \<open>best\<close> the best index and size so far.
\<close>

fun best_fit :: "int \<Rightarrow> nat \<Rightarrow> (nat \<times> int) option \<Rightarrow> resource_entry list \<Rightarrow> (nat \<times> int) option" where
  "best_fit qmax i best [] = best"
| "best_fit qmax i best (node # rest) =
     best_fit qmax (Suc i)
       (if total_q node \<ge> qmax \<and> (case best of None \<Rightarrow> True | Some (_, bt) \<Rightarrow> bt \<ge> total_q node)
        then Some (i, total_q node) else best) rest"

text \<open>
  After label \<^verbatim>\<open>fragment_free_list\<close>: the node at index \<open>i\<close> is split so that it covers
  \<open>qb\<close>, \<open>qmax\<close>. The result is the new list, the index of the node to hand out (\<open>None\<close> when
  an allocation failed) and the allocation count.
\<close>

definition split_node ::
  "allocator \<Rightarrow> nat \<Rightarrow> int \<Rightarrow> int \<Rightarrow> resource_entry list \<Rightarrow> nat
     \<Rightarrow> resource_entry list \<times> nat option \<times> nat" where
  "split_node al k qmax qb fl i =
     (let node = fl ! i; pre = take i fl; post = drop (Suc i) fl in
      if qb = qbase node \<and> qmax = total_q node then (fl, Some i, k)
      else if qb = qbase node \<and> qmax \<noteq> total_q node then
        (let lqbase = to_s32 (to_u32 (qbase node + qmax)); lqmax = to_u32 (total_q node - qmax) in
         case qdma_free_entry_create al k lqbase lqmax of
           (None, k') \<Rightarrow> (fl, None, k')
         | (Some new_entry, k') \<Rightarrow>
             (pre @ node\<lparr>total_q := to_u32 (total_q node - lqmax)\<rparr> # new_entry # post, Some i, k'))
      else if qb > qbase node \<and> to_u32 (qb + qmax) = to_u32 (qbase node + total_q node) then
        (let lqbase = qbase node; lqmax = to_u32 (qb - qbase node) in
         case qdma_free_entry_create al k lqbase lqmax of
           (None, k') \<Rightarrow> (fl, None, k')
         | (Some new_entry, k') \<Rightarrow>
             (pre @ new_entry # node\<lparr>qbase := qb, total_q := qmax\<rparr> # post, Some (Suc i), k'))
      else
        (let lqbase = qbase node; lqmax = to_u32 (qb - qbase node) in
         case qdma_free_entry_create al k lqbase lqmax of
           (None, k') \<Rightarrow> (fl, None, k')
         | (Some new_entry, k') \<Rightarrow>
             (let node' = node\<lparr>qbase := qb, total_q := to_u32 (total_q node - lqmax)\<rparr>;
                  lqbase' = to_s32 (to_u32 (qbase node' + qmax));
                  lqmax' = to_u32 (total_q node' - qmax) in
              case qdma_free_entry_create al k' lqbase' lqmax' of
                (None, k'') \<Rightarrow> (pre @ new_entry # node' # post, None, k'')
              | (Some new_entry', k'') \<Rightarrow>
                  (pre @ new_entry # node'\<lparr>total_q := qmax\<rparr> # new_entry' # post,
                   Some (Suc i), k''))))"

definition qdma_get_resource_node ::
  "allocator \<Rightarrow> nat \<Rightarrow> int \<Rightarrow> int \<Rightarrow> resource_entry list
     \<Rightarrow> resource_entry list \<times> nat option \<times> nat" where
  "qdma_get_resource_node al k qmax qb fl =
     (case (if qb \<ge> 0 then find_index (holds_request qmax qb) fl else None) of
        Some i \<Rightarrow> split_node al k qmax qb fl i
      | None \<Rightarrow>
          (case best_fit qmax 0 None fl of
             None \<Rightarrow> (fl, None, k)
           | Some (i, _) \<Rightarrow> split_node al k qmax (qbase (fl ! i)) fl i))"

subsection \<open>Re-sizing a device's range\<close>

definition qdma_request_q_resource ::
  "allocator \<Rightarrow> nat \<Rightarrow> resource_entry \<Rightarrow> int \<Rightarrow> int \<Rightarrow> resource_entry list
     \<Rightarrow> int \<times> resource_entry \<times> resource_entry list \<times> nat" where
  "qdma_request_q_resource al k dev new_qmax new_qbase fl =
     (let qmax = total_q dev; qb = qbase dev;
          (dev1, fl1, k1) = qdma_submit_to_free_list al k dev fl in
      if new_qmax = 0 then (0, dev1, fl1, k1)
      else
        (let (fl2, res, k2) = qdma_get_resource_node al k1 new_qmax new_qbase fl1 in
         case res of
           Some i \<Rightarrow>
             (0, dev1\<lparr>qbase := qbase (fl2 ! i), total_q := total_q (fl2 ! i)\<rparr>, remove_nth i fl2, k2)
         | None \<Rightarrow>
             (let (fl3, res', k3) = qdma_get_resource_node al k2 qmax qb fl2;
                  rv = neg_err QDMA_ERR_RM_NO_QUEUES_LEFT in
              case res' of
                None \<Rightarrow> (rv, dev1\<lparr>qbase := -1, total_q := 0\<rparr>, fl3, k3)
              | Some i \<Rightarrow>
                  (rv, dev1\<lparr>qbase := qbase (fl3 ! i), total_q := total_q (fl3 ! i)\<rparr>,
                   remove_nth i fl3, k3))))"

subsection \<open>The queues an entry and a list stand for\<close>

definition ivl :: "resource_entry \<Rightarrow> int set" where
  "ivl e = {qbase e ..< qbase e + total_q e}"

definition cover :: "resource_entry list \<Rightarrow> int set" where
  "cover fl = (\<Union>e\<in>set fl. ivl e)"

text \<open>Sorted, non-empty, non-overlapping entries between \<open>lo\<close> and \<open>hi\<close>.\<close>

fun wf_fl :: "int \<Rightarrow> int \<Rightarrow> resource_entry list \<Rightarrow> bool" where
  "wf_fl lo hi [] = (lo \<le> hi)"
| "wf_fl lo hi (e # es) =
     (lo \<le> qbase e \<and> 0 < total_q e \<and> wf_fl (qbase e + total_q e) hi es)"

text \<open>The range a resource manages: all queue numbers fit a C \<^verbatim>\<open>int\<close>.\<close>

definition in_int_range :: "int \<Rightarrow> int \<Rightarrow> bool" where
  "in_int_range lo hi \<longleftrightarrow> 0 \<le> lo \<and> hi \<le> 2147483647"

lemma cover_simps [simp]:
  "cover [] = {}" "cover (e # es) = ivl e \<union> cover es" "cover (xs @ ys) = cover xs \<union> cover ys"
  by (auto simp: cover_def)

lemma ivl_empty [simp]: "total_q e = 0 \<Longrightarrow> ivl e = {}"
  by (simp add: ivl_def)

lemma wf_fl_le: "wf_fl lo hi fl \<Longrightarrow> lo \<le> hi"
  by (induction fl arbitrary: lo) force+

lemma wf_fl_mono: "wf_fl lo hi fl \<Longrightarrow> lo' \<le> lo \<Longrightarrow> hi \<le> hi' \<Longrightarrow> wf_fl lo' hi' fl"
  by (induction fl arbitrary: lo lo') auto

lemma wf_fl_append: "wf_fl lo hi (xs @ ys) \<longleftrightarrow> (\<exists>m. wf_fl lo m xs \<and> wf_fl m hi ys)"
proof (induction xs arbitrary: lo)
  case Nil
  then show ?case
    using wf_fl_le wf_fl_mono by fastforce
qed auto

lemma wf_fl_cover: "wf_fl lo hi fl \<Longrightarrow> cover fl \<subseteq> {lo..<hi}"
proof (induction fl arbitrary: lo)
  case (Cons e es)
  then have "cover es \<subseteq> {qbase e + total_q e..<hi}" "qbase e + total_q e \<le> hi"
    using wf_fl_le by auto
  with Cons.prems show ?case by (fastforce simp: ivl_def)
qed simp

lemma wf_fl_member:
  "wf_fl lo hi fl \<Longrightarrow> e \<in> set fl \<Longrightarrow> lo \<le> qbase e \<and> 0 < total_q e \<and> qbase e + total_q e \<le> hi"
proof (induction fl arbitrary: lo)
  case (Cons a es)
  then show ?case using wf_fl_le [of _ hi es] by fastforce
qed simp

text \<open>Two disjoint non-empty ranges lie side by side.\<close>

lemma disjoint_ivl_cases:
  assumes "ivl a \<inter> ivl b = {}" "0 < total_q a" "0 < total_q b"
  shows "qbase a + total_q a \<le> qbase b \<or> qbase b + total_q b \<le> qbase a"
proof (rule ccontr)
  assume "\<not> ?thesis"
  with assms(2,3) have "max (qbase a) (qbase b) \<in> ivl a \<inter> ivl b"
    by (auto simp: ivl_def)
  with assms(1) show False by simp
qed

subsection \<open>Returning a range keeps the list well formed\<close>

lemma insert_free_cover: "cover (insert_free e fl) = cover fl \<union> ivl e"
  by (induction e fl rule: insert_free.induct) auto

lemma insert_free_set: "set (insert_free e fl) = insert e (set fl)"
  by (induction e fl rule: insert_free.induct) auto

lemma insert_free_wf:
  assumes "wf_fl lo hi fl" "lo \<le> qbase e" "0 < total_q e" "qbase e + total_q e \<le> hi"
    and "ivl e \<inter> cover fl = {}"
  shows "wf_fl lo hi (insert_free e fl)"
  using assms
proof (induction e fl arbitrary: lo rule: insert_free.induct)
  case (1 e)
  then show ?case by simp
next
  case (2 e node rest)
  have disj: "qbase node + total_q node \<le> qbase e \<or> qbase e + total_q e \<le> qbase node"
    using disjoint_ivl_cases [of node e] "2.prems" by auto
  show ?case
  proof (cases "qbase node > qbase e")
    case True
    with disj "2.prems" show ?thesis by auto
  next
    case False
    with disj "2.prems"(2,3) have "qbase node + total_q node \<le> qbase e"
      using "2.prems"(1) by auto
    with False "2.prems" "2.IH" show ?thesis by auto
  qed
qed

text \<open>Merging: where all numbers fit, the test for adjacency is exact.\<close>

lemma adjacent_exact:
  assumes "in_int_range lo hi" "wf_fl lo hi (a # b # rest)"
  shows "to_u32 (qbase a + total_q a) = qbase a + total_q a" "to_u32 (qbase b) = qbase b"
    "to_u32 (total_q a + total_q b) = total_q a + total_q b"
proof -
  have "qbase b + total_q b \<le> hi" using assms(2) wf_fl_le [of _ hi rest] by auto
  with assms have "0 \<le> qbase a" "qbase a + total_q a \<le> qbase b" "0 < total_q a" "0 < total_q b"
    "qbase b + total_q b \<le> 2147483647"
    by (auto simp: in_int_range_def)
  then show "to_u32 (qbase a + total_q a) = qbase a + total_q a" "to_u32 (qbase b) = qbase b"
    "to_u32 (total_q a + total_q b) = total_q a + total_q b"
    by (simp_all add: to_u32_id)
qed

lemma defrag_spec:
  assumes "in_int_range lo hi" "wf_fl lo hi fl"
  shows "wf_fl lo hi (defrag fl) \<and> cover (defrag fl) = cover fl \<and>
    (\<forall>x\<in>set fl. \<exists>y\<in>set (defrag fl). ivl x \<subseteq> ivl y) \<and>
    (fl \<noteq> [] \<longrightarrow> defrag fl \<noteq> [] \<and> qbase (hd (defrag fl)) = qbase (hd fl)) \<and>
    successively (\<lambda>a b. qbase a + total_q a < qbase b) (defrag fl)"
  using assms
proof (induction fl arbitrary: lo rule: defrag.induct)
  case (3 s n rest)
  note exact = adjacent_exact [OF "3.prems"]
  show ?case
  proof (cases "qbase s + total_q s = qbase n")
    case True
    let ?m = "s\<lparr>total_q := total_q s + total_q n\<rparr>"
    have d: "defrag (s # n # rest) = defrag (?m # rest)"
      using True exact by simp
    have wf: "wf_fl lo hi (?m # rest)"
    proof -
      have eq: "qbase s + (total_q s + total_q n) = qbase n + total_q n" using True by simp
      have "wf_fl (qbase s + (total_q s + total_q n)) hi rest"
        unfolding eq using "3.prems"(2) by simp
      then show ?thesis using "3.prems"(2) by simp
    qed
    have iv: "ivl ?m = ivl s \<union> ivl n"
      using "3.prems"(2) True by (auto simp: ivl_def)
    have IH: "wf_fl lo hi (defrag (?m # rest))" "cover (defrag (?m # rest)) = cover (?m # rest)"
        "\<forall>x\<in>set (?m # rest). \<exists>y\<in>set (defrag (?m # rest)). ivl x \<subseteq> ivl y"
        "defrag (?m # rest) \<noteq> []" "qbase (hd (defrag (?m # rest))) = qbase s"
        "successively (\<lambda>a b. qbase a + total_q a < qbase b) (defrag (?m # rest))"
      using "3.IH"(1) [of lo] "3.prems"(1) wf True exact by auto
    have "\<forall>x\<in>set (s # n # rest). \<exists>y\<in>set (defrag (?m # rest)). ivl x \<subseteq> ivl y"
      using IH(3) iv by auto
    with IH iv show ?thesis unfolding d by auto
  next
    case False
    have d: "defrag (s # n # rest) = s # defrag (n # rest)"
      using False exact by simp
    have lt: "qbase s + total_q s < qbase n" using False "3.prems"(2) by auto
    have "in_int_range (qbase s + total_q s) hi" "wf_fl (qbase s + total_q s) hi (n # rest)"
      using "3.prems" by (auto simp: in_int_range_def)
    then have IH: "wf_fl (qbase s + total_q s) hi (defrag (n # rest))"
        "cover (defrag (n # rest)) = cover (n # rest)"
        "\<forall>x\<in>set (n # rest). \<exists>y\<in>set (defrag (n # rest)). ivl x \<subseteq> ivl y"
        "defrag (n # rest) \<noteq> []" "qbase (hd (defrag (n # rest))) = qbase n"
        "successively (\<lambda>a b. qbase a + total_q a < qbase b) (defrag (n # rest))"
      using "3.IH"(2) [of "qbase s + total_q s"] False exact by auto
    have "successively (\<lambda>a b. qbase a + total_q a < qbase b) (s # defrag (n # rest))"
      using IH(4,5,6) lt by (simp add: successively_Cons)
    with IH "3.prems" show ?thesis unfolding d by auto
  qed
qed auto

text \<open>A device's entry: empty, or a range inside the resource that is not free.\<close>

definition entry_ok :: "int \<Rightarrow> int \<Rightarrow> resource_entry \<Rightarrow> resource_entry list \<Rightarrow> bool" where
  "entry_ok lo hi dev fl \<longleftrightarrow>
     0 \<le> total_q dev \<and> -1 \<le> qbase dev \<and> qbase dev + total_q dev \<le> hi \<and>
     (0 < total_q dev \<longrightarrow> lo \<le> qbase dev) \<and> ivl dev \<inter> cover fl = {}"

lemma submit_spec:
  assumes "in_int_range lo hi" "wf_fl lo hi fl" "entry_ok lo hi dev fl"
    and "qdma_submit_to_free_list al k dev fl = (dev', fl', k')"
  shows "wf_fl lo hi fl'" "entry_ok lo hi dev' fl'" "cover fl' \<union> ivl dev' = cover fl \<union> ivl dev"
    and "(\<forall>n. al n) \<Longrightarrow> total_q dev' = 0"
    and "(\<forall>n. al n) \<Longrightarrow> 0 < total_q dev \<Longrightarrow>
      \<exists>y\<in>set fl'. qbase y \<le> qbase dev \<and> qbase dev + total_q dev \<le> qbase y + total_q y"
proof -
  let ?new = "\<lparr>qbase = qbase dev, total_q = total_q dev\<rparr>"
  consider (empty) "total_q dev = 0" "dev' = dev" "fl' = fl"
    | (nomem) "total_q dev \<noteq> 0" "\<not> al k" "dev' = dev" "fl' = fl"
    | (ok) "total_q dev \<noteq> 0" "dev' = dev\<lparr>qbase := -1, total_q := 0\<rparr>"
        "fl' = defrag (insert_free ?new fl)"
    using assms(4)
    by (cases fl) (auto simp: qdma_submit_to_free_list_def qdma_free_entry_create_def
        split: if_splits)
  then have "wf_fl lo hi fl' \<and> entry_ok lo hi dev' fl' \<and>
      cover fl' \<union> ivl dev' = cover fl \<union> ivl dev \<and> ((\<forall>n. al n) \<longrightarrow> total_q dev' = 0) \<and>
      ((\<forall>n. al n) \<longrightarrow> 0 < total_q dev \<longrightarrow>
        (\<exists>y\<in>set fl'. qbase y \<le> qbase dev \<and> qbase dev + total_q dev \<le> qbase y + total_q y))"
  proof cases
    case ok
    have iv: "ivl ?new = ivl dev" by (simp add: ivl_def)
    have wf: "wf_fl lo hi (insert_free ?new fl)"
      using assms(2,3) ok(1) iv by (intro insert_free_wf) (auto simp: entry_ok_def)
    note spec = defrag_spec [OF assms(1) wf]
    have "?new \<in> set (insert_free ?new fl)" by (simp add: insert_free_set)
    then obtain y where y: "y \<in> set fl'" "ivl ?new \<subseteq> ivl y" using spec ok(3) by blast
    have "0 < total_q dev" using ok(1) assms(3) by (simp add: entry_ok_def)
    then have "qbase y \<le> qbase dev \<and> qbase dev + total_q dev \<le> qbase y + total_q y"
      using y(2) by (simp add: ivl_def)
    with y(1) spec ok assms(1,3) iv wf_fl_le [OF assms(2)] show ?thesis
      by (auto simp: insert_free_cover entry_ok_def in_int_range_def)
  qed (use assms(2,3) in auto)
  then show "wf_fl lo hi fl'" "entry_ok lo hi dev' fl'" "cover fl' \<union> ivl dev' = cover fl \<union> ivl dev"
    and "(\<forall>n. al n) \<Longrightarrow> total_q dev' = 0"
    and "(\<forall>n. al n) \<Longrightarrow> 0 < total_q dev \<Longrightarrow>
      \<exists>y\<in>set fl'. qbase y \<le> qbase dev \<and> qbase dev + total_q dev \<le> qbase y + total_q y"
    by blast+
qed

subsection \<open>Picking a node\<close>

lemma find_index_Some:
  "find_index P xs = Some i \<Longrightarrow> i < length xs \<and> P (xs ! i) \<and> (\<forall>j<i. \<not> P (xs ! j))"
proof (induction xs arbitrary: i)
  case (Cons x xs)
  show ?case
  proof (cases "P x")
    case False
    with Cons.prems obtain j where "i = Suc j" "find_index P xs = Some j" by auto
    with Cons.IH False show ?thesis by (auto simp: less_Suc_eq_0_disj)
  qed (use Cons.prems in auto)
qed simp

lemma find_index_None: "find_index P xs = None \<longleftrightarrow> (\<forall>x\<in>set xs. \<not> P x)"
  by (induction xs) auto

lemma best_fit_Some:
  assumes "best_fit q i best xs = Some (j, t)"
  shows "(best = Some (j, t) \<or> (i \<le> j \<and> j < i + length xs \<and> total_q (xs ! (j - i)) = t \<and> q \<le> t)) \<and>
    (\<forall>x\<in>set xs. q \<le> total_q x \<longrightarrow> t \<le> total_q x) \<and> (\<forall>b bt. best = Some (b, bt) \<longrightarrow> t \<le> bt)"
  using assms
proof (induction q i best xs rule: best_fit.induct)
  case (2 q i best x xs)
  define best' where "best' = (if q \<le> total_q x \<and> (case best of None \<Rightarrow> True | Some (_, bt) \<Rightarrow> total_q x \<le> bt)
      then Some (i, total_q x) else best)"
  have IH: "(best' = Some (j, t) \<or> (Suc i \<le> j \<and> j < Suc i + length xs \<and>
      total_q (xs ! (j - Suc i)) = t \<and> q \<le> t)) \<and>
    (\<forall>x\<in>set xs. q \<le> total_q x \<longrightarrow> t \<le> total_q x) \<and> (\<forall>b bt. best' = Some (b, bt) \<longrightarrow> t \<le> bt)"
    using "2.IH" "2.prems" by (simp add: best'_def)
  have "\<forall>b bt. best = Some (b, bt) \<longrightarrow> t \<le> bt" "q \<le> total_q x \<longrightarrow> t \<le> total_q x"
    using IH by (auto simp: best'_def split: if_splits option.splits)
  moreover have "best = Some (j, t) \<or> (i \<le> j \<and> j < i + length (x # xs) \<and>
      total_q ((x # xs) ! (j - i)) = t \<and> q \<le> t)"
  proof -
    from IH consider "best' = Some (j, t)" | "Suc i \<le> j" "j < Suc i + length xs"
        "total_q (xs ! (j - Suc i)) = t" "q \<le> t" by blast
    then show ?thesis
    proof cases
      case 2
      then have "j - i = Suc (j - Suc i)" by simp
      with 2 show ?thesis by simp
    qed (auto simp: best'_def split: if_splits)
  qed
  ultimately show ?case using IH by auto
qed simp

lemma best_fit_None:
  "best_fit q i best xs = None \<longleftrightarrow> best = None \<and> (\<forall>x\<in>set xs. total_q x < q)"
proof (induction q i best xs rule: best_fit.induct)
  case (2 q i best x xs)
  then show ?case by (cases best) auto
qed simp

subsection \<open>Splitting a node\<close>

text \<open>What handing out a node of \<open>qmax\<close> queues from \<open>b\<close> on leaves behind.\<close>

definition carved :: "int \<Rightarrow> int \<Rightarrow> int \<Rightarrow> int \<Rightarrow> resource_entry list \<Rightarrow> resource_entry list \<Rightarrow> nat \<Rightarrow> bool" where
  "carved lo hi b qmax fl fl' j \<longleftrightarrow>
     j < length fl' \<and> fl' ! j = \<lparr>qbase = b, total_q = qmax\<rparr> \<and>
     lo \<le> b \<and> b + qmax \<le> hi \<and> {b ..< b + qmax} \<subseteq> cover fl \<and>
     wf_fl lo hi (remove_nth j fl') \<and> cover (remove_nth j fl') = cover fl - {b ..< b + qmax}"

lemma carvedI:
  assumes "fl' = us @ \<lparr>qbase = b, total_q = qmax\<rparr> # vs" "j = length us"
    and "lo \<le> b" "b + qmax \<le> hi" "{b ..< b + qmax} \<subseteq> cover fl"
    and "wf_fl lo hi (us @ vs)" "cover (us @ vs) = cover fl - {b ..< b + qmax}"
  shows "carved lo hi b qmax fl fl' j"
  using assms by (simp add: carved_def)

lemma entry_upd:
  "e\<lparr>total_q := t\<rparr> = \<lparr>qbase = qbase e, total_q = t\<rparr>"
  "e\<lparr>qbase := b, total_q := t\<rparr> = \<lparr>qbase = b, total_q = t\<rparr>" for e :: resource_entry
  by (cases e; simp)+

text \<open>The part of a node that stays free on one side of the range handed out.\<close>

definition piece :: "int \<Rightarrow> int \<Rightarrow> resource_entry list" where
  "piece a b = (if a < b then [\<lparr>qbase = a, total_q = b - a\<rparr>] else [])"

lemma piece_simps [simp]:
  "a \<le> b \<Longrightarrow> cover (piece a b) = {a..<b}" "a \<le> b \<Longrightarrow> wf_fl a b (piece a b)" "piece a a = []"
  by (auto simp: piece_def ivl_def)

lemma carved_pieces:
  assumes fl: "fl = pre @ node # post" and wf: "wf_fl lo hi fl"
    and fit: "qbase node \<le> qb" "qb + qmax \<le> qbase node + total_q node" "0 \<le> qmax"
  shows "carved lo hi qb qmax fl
    ((pre @ piece (qbase node) qb) @ \<lparr>qbase = qb, total_q = qmax\<rparr> #
       piece (qb + qmax) (qbase node + total_q node) @ post)
    (length (pre @ piece (qbase node) qb))"
proof -
  let ?b = "qbase node" and ?e = "qbase node + total_q node"
  let ?L = "piece ?b qb" and ?R = "piece (qb + qmax) ?e"
  obtain m where m: "wf_fl lo m pre" "m \<le> ?b" "0 < total_q node" "wf_fl ?e hi post"
    using wf unfolding fl wf_fl_append by auto
  have le: "lo \<le> m" "?e \<le> hi" using wf_fl_le [OF m(1)] wf_fl_le [OF m(4)] .
  have "wf_fl lo ?b pre" using wf_fl_mono [OF m(1) order_refl m(2)] .
  moreover have "wf_fl (qb + qmax) hi (?R @ post)"
    by (subst wf_fl_append) (use m(4) fit in \<open>intro exI [of _ ?e], simp\<close>)
  then have "wf_fl qb hi (?R @ post)" by (rule wf_fl_mono) (use fit in auto)
  ultimately have wf': "wf_fl lo hi ((pre @ ?L) @ ?R @ post)"
    unfolding wf_fl_append using fit piece_simps(2) by (metis append.assoc wf_fl_append)
  have "cover pre \<subseteq> {lo..<m}" "cover post \<subseteq> {?e..<hi}"
    using wf_fl_cover [OF m(1)] wf_fl_cover [OF m(4)] .
  then have "cover ((pre @ ?L) @ ?R @ post) = cover fl - {qb..<qb + qmax}"
    using fit m(2) by (fastforce simp: fl ivl_def)
  moreover have "{qb..<qb + qmax} \<subseteq> cover fl" using fit by (auto simp: fl ivl_def)
  ultimately show ?thesis
    by (intro carvedI [OF refl refl]) (use wf' le m(2) fit in auto)
qed

text \<open>
  With numbers in range the conversions in \<open>split_node\<close> are identities, and each of its
  branches yields the pieces.
\<close>

lemma split_node_result:
  assumes rng: "in_int_range lo hi" and i: "i < length fl" and fl: "fl = pre @ node # post"
    and len: "length pre = i" and bnd: "lo \<le> qbase node" "qbase node + total_q node \<le> hi"
    and fit: "qbase node \<le> qb" "qb + qmax \<le> qbase node + total_q node" "0 \<le> qmax"
    and res: "split_node al k qmax qb fl i = (fl', r, k')"
  shows "(r = Some (length (pre @ piece (qbase node) qb)) \<and>
      fl' = (pre @ piece (qbase node) qb) @ \<lparr>qbase = qb, total_q = qmax\<rparr> #
        piece (qb + qmax) (qbase node + total_q node) @ post) \<or>
    (r = None \<and> (\<exists>n. \<not> al n) \<and>
      (fl' = fl \<or> qbase node < qb \<and> qb < qbase node + total_q node \<and>
        fl' = pre @ piece (qbase node) qb @ piece qb (qbase node + total_q node) @ post))"
proof -
  have hi: "0 \<le> qbase node" "qbase node + total_q node \<le> 2147483647" "0 \<le> total_q node"
    using rng bnd fit by (auto simp: in_int_range_def)
  have at_i: "fl ! i = node" "take i fl = pre" "drop (Suc i) fl = post"
    using fl len by (auto simp: nth_append)
  note defs = split_node_def Let_def at_i qdma_free_entry_create_def piece_def entry_upd
  have conv: "to_s32 (to_u32 (qb + qmax)) = qb + qmax" "to_u32 (qb + qmax) = qb + qmax"
      "to_u32 (qbase node + total_q node) = qbase node + total_q node"
      "to_u32 (qb - qbase node) = qb - qbase node" "to_u32 qmax = qmax"
      "to_u32 (total_q node - qmax) = total_q node - qmax"
      "to_u32 (total_q node - (qb - qbase node)) = total_q node - (qb - qbase node)"
      "to_u32 (total_q node - (qb - qbase node) - qmax) = total_q node - (qb - qbase node) - qmax"
    using hi fit by (simp_all add: to_u32_id to_s32_id)
  consider (exact) "qb = qbase node" "qmax = total_q node"
    | (front) "qb = qbase node" "qmax < total_q node"
    | (rear) "qb > qbase node" "qb + qmax = qbase node + total_q node"
    | (middle) "qb > qbase node" "qb + qmax < qbase node + total_q node"
    using fit by fastforce
  then show ?thesis
  proof cases
    case exact
    then show ?thesis using res fl len by (cases node) (auto simp: defs)
  next
    case front
    note fr = front(2) conv [unfolded front(1)]
    show ?thesis
      using res [unfolded front(1)] fr len unfolding front(1)
      by (cases "al k") (auto simp: defs algebra_simps)
  next
    case rear
    then show ?thesis using res conv len by (cases "al k") (auto simp: defs algebra_simps)
  next
    case middle
    define L where "L = qb - qbase node"
    define R where "R = qbase node + total_q node - (qb + qmax)"
    have eqs: "qb = qbase node + L" "total_q node = L + qmax + R" "0 < L" "0 < R"
      using middle by (simp_all add: L_def R_def)
    have conv': "to_u32 (qbase node + L + qmax) = qbase node + L + qmax"
        "to_s32 (qbase node + L + qmax) = qbase node + L + qmax"
        "to_u32 (qbase node + (L + qmax + R)) = qbase node + (L + qmax + R)" "to_u32 L = L"
        "to_u32 (qmax + R) = qmax + R" "to_u32 R = R"
      using hi fit(3) eqs by (simp_all add: to_u32_id to_s32_id)
    show ?thesis
      using res len eqs(3,4) conv' fit(3) unfolding eqs(1,2)
      by (cases "al k"; cases "al (Suc k)") (auto simp: defs eqs(2) add.assoc)
  qed
qed

lemma split_node_spec:
  assumes rng: "in_int_range lo hi" and wf: "wf_fl lo hi fl" and i: "i < length fl"
    and fit: "qbase (fl ! i) \<le> qb" "qb + qmax \<le> qbase (fl ! i) + total_q (fl ! i)" "0 \<le> qmax"
    and res: "split_node al k qmax qb fl i = (fl', r, k')"
  shows "case r of None \<Rightarrow> (\<exists>n. \<not> al n) \<and> wf_fl lo hi fl' \<and> cover fl' = cover fl
         | Some j \<Rightarrow> carved lo hi qb qmax fl fl' j"
proof -
  define node where "node = fl ! i"
  define pre where "pre = take i fl"
  define post where "post = drop (Suc i) fl"
  have fl: "fl = pre @ node # post" unfolding pre_def node_def post_def by (rule id_take_nth_drop [OF i])
  have len: "length pre = i" using i by (simp add: pre_def)
  have "node \<in> set fl" by (simp add: fl)
  note bnd = wf_fl_member [OF wf this]
  note fit' = fit [folded node_def]
  note cp = carved_pieces [OF fl wf fit']
  have two: "wf_fl lo hi (pre @ piece (qbase node) qb @ piece qb (qbase node + total_q node) @ post) \<and>
      cover (pre @ piece (qbase node) qb @ piece qb (qbase node + total_q node) @ post) = cover fl"
    if "qbase node < qb" "qb < qbase node + total_q node"
  proof -
    obtain m where m: "wf_fl lo m pre" "m \<le> qbase node" "wf_fl (qbase node + total_q node) hi post"
      using wf unfolding fl wf_fl_append by auto
    have "wf_fl qb hi (piece qb (qbase node + total_q node) @ post)"
      unfolding wf_fl_append using that m(3) by (intro exI [of _ "qbase node + total_q node"]) simp
    then have "wf_fl (qbase node) hi (piece (qbase node) qb @ piece qb (qbase node + total_q node) @ post)"
      by (subst wf_fl_append) (use that in \<open>intro exI [of _ qb], simp\<close>)
    moreover have "wf_fl lo (qbase node) pre" using wf_fl_mono [OF m(1) order_refl m(2)] .
    ultimately show ?thesis using that by (subst wf_fl_append) (auto simp: fl ivl_def)
  qed
  show ?thesis
    using split_node_result [OF rng i fl len _ _ fit' res] bnd cp two wf by auto
qed

subsection \<open>Requesting queues\<close>

lemma holds_request_exact:
  assumes "in_int_range lo hi" "wf_fl lo hi fl" "node \<in> set fl" "0 \<le> qb" "0 \<le> qmax" "qb + qmax < 4294967296"
  shows "holds_request qmax qb node \<longleftrightarrow> qbase node \<le> qb \<and> qb + qmax \<le> qbase node + total_q node"
proof -
  have "0 \<le> qbase node + total_q node" "qbase node + total_q node < 4294967296"
    using wf_fl_member [OF assms(2,3)] assms(1) by (auto simp: in_int_range_def)
  then show ?thesis using assms(4-6) by (auto simp: holds_request_def to_u32_id)
qed

text \<open>
  The outcome of a request on a well-formed list, for every allocator: either a node of
  exactly the requested size (at the requested base, when a free node holds that range), or
  nothing, and then the free queues are unchanged. With memory, failure means that no free
  node is large enough.
\<close>

lemma get_resource_node_spec:
  assumes rng: "in_int_range lo hi" and wf: "wf_fl lo hi fl"
    and q: "0 \<le> qmax" "0 \<le> qb \<Longrightarrow> qb + qmax < 4294967296"
    and res: "qdma_get_resource_node al k qmax qb fl = (fl', r, k')"
  shows "case r of
      None \<Rightarrow> wf_fl lo hi fl' \<and> cover fl' = cover fl \<and>
        ((\<forall>n. al n) \<longrightarrow> fl' = fl \<and> (\<forall>e\<in>set fl. total_q e < qmax))
    | Some j \<Rightarrow> \<exists>b. carved lo hi b qmax fl fl' j \<and>
        (0 \<le> qb \<and> (\<exists>e\<in>set fl. qbase e \<le> qb \<and> qb + qmax \<le> qbase e + total_q e) \<longrightarrow> b = qb)"
proof (cases "if qb \<ge> 0 then find_index (holds_request qmax qb) fl else None")
  case (Some i)
  then have qb: "0 \<le> qb" and fi: "find_index (holds_request qmax qb) fl = Some i"
    by (auto split: if_splits)
  note fi' = find_index_Some [OF fi]
  have "fl ! i \<in> set fl" using fi' by simp
  then have fit: "qbase (fl ! i) \<le> qb" "qb + qmax \<le> qbase (fl ! i) + total_q (fl ! i)"
    using holds_request_exact [OF rng wf _ qb q(1) q(2) [OF qb]] fi' by auto
  have "split_node al k qmax qb fl i = (fl', r, k')"
    using res Some by (simp add: qdma_get_resource_node_def)
  with fi' show ?thesis
    using split_node_spec [OF rng wf _ fit q(1), of al k fl' r k'] by (cases r) auto
next
  case None
  then have none: "0 \<le> qb \<Longrightarrow> \<forall>e\<in>set fl. \<not> holds_request qmax qb e"
    by (auto simp: find_index_None split: if_splits)
  have nohold: "\<not> (0 \<le> qb \<and> (\<exists>e\<in>set fl. qbase e \<le> qb \<and> qb + qmax \<le> qbase e + total_q e))"
    using none holds_request_exact [OF rng wf _ _ q(1)] q(2) by blast
  show ?thesis
  proof (cases "best_fit qmax 0 None fl")
    case None
    then have "fl' = fl" "r = None"
      using res \<open>(if qb \<ge> 0 then find_index (holds_request qmax qb) fl else None) = None\<close>
      by (simp_all add: qdma_get_resource_node_def)
    then show ?thesis using wf None by (simp add: best_fit_None)
  next
    case (Some it)
    obtain i t where it: "it = (i, t)" by (cases it)
    have bf: "i < length fl" "total_q (fl ! i) = t" "qmax \<le> t"
      using best_fit_Some [of qmax 0 None fl i t] Some it by auto
    have "split_node al k qmax (qbase (fl ! i)) fl i = (fl', r, k')"
      using res Some it \<open>(if qb \<ge> 0 then find_index (holds_request qmax qb) fl else None) = None\<close>
      by (simp add: qdma_get_resource_node_def)
    then show ?thesis
      using split_node_spec [OF rng wf bf(1), of "qbase (fl ! i)" qmax al k fl' r k'] bf q(1) nohold
      by (cases r) auto
  qed
qed

lemma entry_ok_carved:
  assumes "carved lo hi b qmax fl fl' j" "in_int_range lo hi" "0 \<le> qmax"
  shows "entry_ok lo hi (dev\<lparr>qbase := qbase (fl' ! j), total_q := total_q (fl' ! j)\<rparr>) (remove_nth j fl')"
    "ivl (dev\<lparr>qbase := qbase (fl' ! j), total_q := total_q (fl' ! j)\<rparr>) = {b ..< b + qmax}"
  using assms by (auto simp: carved_def entry_ok_def ivl_def in_int_range_def)

text \<open>
  Re-sizing a device's range, for every allocator: the free list stays well formed, the
  device's new range is disjoint from it, and no queue appears from nowhere. With memory
  nothing is lost either; success gives exactly the number asked for, and failure gives the
  device its old queues back.
\<close>

definition resized ::
  "int \<Rightarrow> int \<Rightarrow> bool \<Rightarrow> resource_entry \<Rightarrow> resource_entry list \<Rightarrow> int
     \<Rightarrow> int \<Rightarrow> resource_entry \<Rightarrow> resource_entry list \<Rightarrow> bool" where
  "resized lo hi mem dev fl new_qmax rv dev' fl' \<longleftrightarrow>
     wf_fl lo hi fl' \<and> entry_ok lo hi dev' fl' \<and>
     cover fl' \<union> ivl dev' \<subseteq> cover fl \<union> ivl dev \<and>
     (mem \<longrightarrow> cover fl' \<union> ivl dev' = cover fl \<union> ivl dev) \<and>
     (rv = 0 \<and> 0 < new_qmax \<longrightarrow> total_q dev' = new_qmax) \<and>
     (mem \<and> new_qmax = 0 \<longrightarrow> rv = 0 \<and> total_q dev' = 0) \<and>
     (rv = 0 \<or> rv = neg_err QDMA_ERR_RM_NO_QUEUES_LEFT) \<and>
     (mem \<and> rv \<noteq> 0 \<longrightarrow> ivl dev' = ivl dev \<and> total_q dev' = total_q dev \<and> cover fl' = cover fl)"

lemma resized_success:
  assumes rng: "in_int_range lo hi" and q: "0 < qmax"
    and c: "carved lo hi b qmax fl1 fl2 j" and u: "cover fl1 \<union> ivl dev1 = cover fl \<union> ivl dev"
    and e: "mem \<Longrightarrow> total_q dev1 = 0"
  shows "resized lo hi mem dev fl qmax 0
    (dev1\<lparr>qbase := qbase (fl2 ! j), total_q := total_q (fl2 ! j)\<rparr>) (remove_nth j fl2)"
proof -
  let ?d = "dev1\<lparr>qbase := qbase (fl2 ! j), total_q := total_q (fl2 ! j)\<rparr>"
  have ok: "entry_ok lo hi ?d (remove_nth j fl2)" "ivl ?d = {b ..< b + qmax}"
    using entry_ok_carved [OF c rng] q by simp_all
  have "cover (remove_nth j fl2) \<union> ivl ?d = cover fl1" "wf_fl lo hi (remove_nth j fl2)"
      "total_q ?d = qmax"
    using c ok(2) by (auto simp: carved_def)
  moreover have "mem \<Longrightarrow> ivl dev1 = {}" using e by simp
  ultimately show ?thesis unfolding resized_def using ok(1) u q by auto
qed

lemma resized_restored:
  assumes rng: "in_int_range lo hi" and dev: "entry_ok lo hi dev fl" and q: "0 < qmax"
    and c: "carved lo hi b (total_q dev) fl1 fl2 j" and u: "cover fl1 \<union> ivl dev1 = cover fl \<union> ivl dev"
    and e: "mem \<Longrightarrow> total_q dev1 = 0" and b: "mem \<Longrightarrow> 0 < total_q dev \<Longrightarrow> b = qbase dev"
  shows "resized lo hi mem dev fl qmax (neg_err QDMA_ERR_RM_NO_QUEUES_LEFT)
    (dev1\<lparr>qbase := qbase (fl2 ! j), total_q := total_q (fl2 ! j)\<rparr>) (remove_nth j fl2)"
proof -
  let ?d = "dev1\<lparr>qbase := qbase (fl2 ! j), total_q := total_q (fl2 ! j)\<rparr>"
  let ?f = "remove_nth j fl2"
  have dev0: "0 \<le> total_q dev" and disj: "ivl dev \<inter> cover fl = {}"
    using dev by (auto simp: entry_ok_def)
  have ok: "entry_ok lo hi ?d ?f" "ivl ?d = {b ..< b + total_q dev}"
    using entry_ok_carved [OF c rng dev0] by simp_all
  have all: "cover ?f \<union> ivl ?d = cover fl1" "wf_fl lo hi ?f" "total_q ?d = total_q dev"
      "cover ?f = cover fl1 - ivl ?d"
    using c ok(2) by (auto simp: carved_def)
  have same: "mem \<Longrightarrow> ivl ?d = ivl dev"
    using ok(2) b dev0 by (cases "total_q dev = 0") (auto simp: ivl_def)
  have mem1: "mem \<Longrightarrow> ivl dev1 = {}" using e by simp
  have "mem \<Longrightarrow> cover ?f = cover fl" using all(4) same mem1 u disj by auto
  then show ?thesis
    unfolding resized_def using ok(1) all same mem1 u q by auto
qed

lemma resized_lost:
  assumes rng: "in_int_range lo hi" and wf: "wf_fl lo hi fl'" and q: "0 < qmax"
    and c: "cover fl' = cover fl1" and u: "cover fl1 \<union> ivl dev1 = cover fl \<union> ivl dev"
    and e: "mem \<Longrightarrow> total_q dev1 = 0" "mem \<Longrightarrow> total_q dev = 0"
  shows "resized lo hi mem dev fl qmax (neg_err QDMA_ERR_RM_NO_QUEUES_LEFT)
    (dev1\<lparr>qbase := -1, total_q := 0\<rparr>) fl'"
proof -
  have "0 \<le> hi" using wf_fl_le [OF wf] rng by (auto simp: in_int_range_def)
  then have "entry_ok lo hi (dev1\<lparr>qbase := -1, total_q := 0\<rparr>) fl'" by (simp add: entry_ok_def)
  moreover have "mem \<Longrightarrow> cover fl1 = cover fl" "mem \<Longrightarrow> ivl dev = {}" using e u by simp_all
  moreover have "cover fl1 \<subseteq> cover fl \<union> ivl dev" using u by blast
  ultimately show ?thesis unfolding resized_def using wf c e(2) q by simp
qed

lemma request_q_resource_spec:
  assumes rng: "in_int_range lo hi" and wf: "wf_fl lo hi fl" and dev: "entry_ok lo hi dev fl"
    and q: "0 \<le> new_qmax" "0 \<le> new_qbase \<Longrightarrow> new_qbase + new_qmax < 4294967296"
    and res: "qdma_request_q_resource al k dev new_qmax new_qbase fl = (rv, dev', fl', k')"
  shows "resized lo hi (\<forall>n. al n) dev fl new_qmax rv dev' fl'"
proof -
  obtain dev1 fl1 k1 where s1: "qdma_submit_to_free_list al k dev fl = (dev1, fl1, k1)"
    by (metis prod_cases3)
  note sub = submit_spec [OF rng wf dev s1]
  have dev0: "0 \<le> total_q dev" "0 \<le> qbase dev \<Longrightarrow> qbase dev + total_q dev < 4294967296"
    using dev rng by (auto simp: entry_ok_def in_int_range_def)
  obtain fl2 r k2 where s2: "qdma_get_resource_node al k1 new_qmax new_qbase fl1 = (fl2, r, k2)"
    by (metis prod_cases3)
  note get = get_resource_node_spec [OF rng sub(1) q s2]
  consider (zero) "new_qmax = 0" | (got) j where "0 < new_qmax" "r = Some j" | (full) "0 < new_qmax" "r = None"
    using q(1) by (cases r) force+
  then show ?thesis
  proof cases
    case zero
    then have "rv = 0" "dev' = dev1" "fl' = fl1" using res s1
      by (simp_all add: qdma_request_q_resource_def)
    with zero sub show ?thesis unfolding resized_def by auto
  next
    case got
    then obtain b where c: "carved lo hi b new_qmax fl1 fl2 j" using get by auto
    have out: "rv = 0" "fl' = remove_nth j fl2"
        "dev' = dev1\<lparr>qbase := qbase (fl2 ! j), total_q := total_q (fl2 ! j)\<rparr>"
      using res s1 s2 got by (simp_all add: qdma_request_q_resource_def)
    show ?thesis unfolding out by (rule resized_success [OF rng got(1) c sub(3,4)])
  next
    case full
    then have f2: "wf_fl lo hi fl2" "cover fl2 = cover fl1" "(\<forall>n. al n) \<Longrightarrow> fl2 = fl1"
      using get by auto
    obtain fl3 r' k3 where s3: "qdma_get_resource_node al k2 (total_q dev) (qbase dev) fl2 = (fl3, r', k3)"
      by (metis prod_cases3)
    note again = get_resource_node_spec [OF rng f2(1) dev0 s3]
    have u2: "cover fl2 \<union> ivl dev1 = cover fl \<union> ivl dev" using f2(2) sub(3) by simp
    have held: "(\<forall>n. al n) \<Longrightarrow> 0 < total_q dev \<Longrightarrow> 0 \<le> qbase dev \<and>
        (\<exists>e\<in>set fl2. qbase e \<le> qbase dev \<and> qbase dev + total_q dev \<le> qbase e + total_q e)"
      using sub(5) f2(3) dev rng by (simp add: entry_ok_def in_int_range_def)
    show ?thesis
    proof (cases r')
      case (Some j)
      then obtain b where c: "carved lo hi b (total_q dev) fl2 fl3 j"
          and bq: "(\<forall>n. al n) \<Longrightarrow> 0 < total_q dev \<Longrightarrow> b = qbase dev"
        using again held by auto
      have out: "fl' = remove_nth j fl3" "rv = neg_err QDMA_ERR_RM_NO_QUEUES_LEFT"
          "dev' = dev1\<lparr>qbase := qbase (fl3 ! j), total_q := total_q (fl3 ! j)\<rparr>"
        using res s1 s2 s3 full Some by (simp_all add: qdma_request_q_resource_def)
      show ?thesis unfolding out
        by (rule resized_restored [OF rng dev full(1) c u2 sub(4) bq])
    next
      case None
      have out: "fl' = fl3" "rv = neg_err QDMA_ERR_RM_NO_QUEUES_LEFT" "dev' = dev1\<lparr>qbase := -1, total_q := 0\<rparr>"
        using res s1 s2 s3 full None by (simp_all add: qdma_request_q_resource_def)
      have "(\<forall>n. al n) \<Longrightarrow> total_q dev = 0" using held again None dev0(1) by fastforce
      moreover have "wf_fl lo hi fl3" "cover fl3 = cover fl2" using again None by auto
      ultimately show ?thesis unfolding out by (intro resized_lost [OF rng _ full(1) _ u2 sub(4)])
    qed
  qed
qed

subsection \<open>Coalesced lists\<close>

text \<open>No two neighbours touch.\<close>

definition coalesced :: "resource_entry list \<Rightarrow> bool" where
  "coalesced fl \<longleftrightarrow> successively (\<lambda>a b. qbase a + total_q a < qbase b) fl"

lemma coalesced_defrag:
  "in_int_range lo hi \<Longrightarrow> wf_fl lo hi fl \<Longrightarrow> coalesced (defrag fl)"
  using defrag_spec by (simp add: coalesced_def)

text \<open>In a coalesced list a free range lies in a single node.\<close>

lemma coalesced_node:
  assumes "wf_fl lo hi fl" "coalesced fl" "a < b" "{a..<b} \<subseteq> cover fl"
  shows "\<exists>e\<in>set fl. qbase e \<le> a \<and> b \<le> qbase e + total_q e"
  using assms
proof (induction fl arbitrary: lo)
  case (Cons e es)
  let ?hi_e = "qbase e + total_q e"
  have es: "wf_fl ?hi_e hi es" "coalesced es"
    using Cons.prems(1,2) by (auto simp: coalesced_def successively_Cons)
  have after: "cover es \<subseteq> {?hi_e + 1..}"
  proof (cases es)
    case (Cons e2 es2)
    then have "?hi_e < qbase e2" "wf_fl (qbase e2) hi es"
      using Cons.prems es(1) by (auto simp: coalesced_def)
    then show ?thesis using wf_fl_cover [of "qbase e2" hi es] by fastforce
  qed simp
  show ?case
  proof (cases "?hi_e \<le> a")
    case True
    then have "{a..<b} \<subseteq> cover es" using Cons.prems(4) by (fastforce simp: ivl_def)
    then show ?thesis using Cons.IH [OF es Cons.prems(3)] by auto
  next
    case False
    have "a \<in> cover (e # es)" using Cons.prems(3,4) by auto
    then have a: "qbase e \<le> a" using after False by (auto simp: ivl_def)
    have "?hi_e \<notin> cover (e # es)" using after by (auto simp: ivl_def)
    then have "?hi_e \<notin> {a..<b}" using Cons.prems(4) by blast
    with False have "\<not> ?hi_e < b" by simp
    with a show ?thesis by auto
  qed
qed (auto simp: coalesced_def)

lemma coalesced_full:
  assumes "wf_fl lo hi fl" "coalesced fl" "lo < hi" "cover fl = {lo..<hi}"
  shows "fl = [\<lparr>qbase = lo, total_q = hi - lo\<rparr>]"
proof -
  obtain e where e: "e \<in> set fl" "qbase e \<le> lo" "hi \<le> qbase e + total_q e"
    using coalesced_node [OF assms(1-3)] assms(4) by auto
  obtain us vs where fl: "fl = us @ e # vs" using e(1) by (meson split_list)
  have ends: "qbase e = lo" "qbase e + total_q e = hi"
    using wf_fl_member [OF assms(1) e(1)] e by auto
  have "us = []"
  proof (cases us)
    case (Cons u us')
    then show ?thesis using assms(1) ends wf_fl_append [of lo hi us "e # vs"] wf_fl_le
      by (fastforce simp: fl)
  qed simp
  moreover have "vs = []"
    using assms(1) ends wf_fl_le by (cases vs) (fastforce simp: fl wf_fl_append)+
  moreover have "e = \<lparr>qbase = lo, total_q = hi - lo\<rparr>" using ends by (cases e) auto
  ultimately show ?thesis by (simp add: fl)
qed

lemma submit_coalesces:
  assumes "in_int_range lo hi" "wf_fl lo hi fl" "entry_ok lo hi dev fl" "\<forall>n. al n"
    and "coalesced fl \<or> total_q dev \<noteq> 0"
    and "qdma_submit_to_free_list al k dev fl = (dev', fl', k')"
  shows "coalesced fl'"
proof (cases "total_q dev = 0")
  case False
  let ?new = "\<lparr>qbase = qbase dev, total_q = total_q dev\<rparr>"
  have "fl' = defrag (insert_free ?new fl)"
    using assms(4,6) False
    by (cases fl) (auto simp: qdma_submit_to_free_list_def qdma_free_entry_create_def)
  moreover have "wf_fl lo hi (insert_free ?new fl)"
    using assms(2,3) False by (intro insert_free_wf) (auto simp: entry_ok_def ivl_def)
  ultimately show ?thesis using coalesced_defrag [OF assms(1)] by simp
qed (use assms(5,6) in \<open>auto simp: qdma_submit_to_free_list_def\<close>)

subsection \<open>The contract of a pool of queues\<close>

text \<open>
  What the device table of the resource manager relies on: giving queues back and asking
  for others keeps the pool and the caller's entry consistent, and moves queues only
  between the two. Everything about the \<^emph>\<open>other\<close> devices follows from that alone.
\<close>

locale queue_pool =
  fixes pool_ok :: "'p \<Rightarrow> bool"
    and free :: "'p \<Rightarrow> int set"
    and fits :: "'e \<Rightarrow> bool"
    and owned :: "'e \<Rightarrow> int set"
    and req_ok :: "int \<Rightarrow> int \<Rightarrow> bool"
    and submit :: "'k \<Rightarrow> 'e \<Rightarrow> 'p \<Rightarrow> 'e \<times> 'p \<times> 'k"
    and request :: "'k \<Rightarrow> 'e \<Rightarrow> int \<Rightarrow> int \<Rightarrow> 'p \<Rightarrow> int \<times> 'e \<times> 'p \<times> 'k"
  assumes submit_law: "pool_ok p \<Longrightarrow> fits e \<Longrightarrow> owned e \<inter> free p = {} \<Longrightarrow>
      submit k e p = (e', p', k') \<Longrightarrow>
      pool_ok p' \<and> fits e' \<and> owned e' \<inter> free p' = {} \<and> free p' \<union> owned e' = free p \<union> owned e"
    and request_law: "pool_ok p \<Longrightarrow> fits e \<Longrightarrow> owned e \<inter> free p = {} \<Longrightarrow> req_ok qmax qb \<Longrightarrow>
      request k e qmax qb p = (rv, e', p', k') \<Longrightarrow>
      pool_ok p' \<and> fits e' \<and> owned e' \<inter> free p' = {} \<and> free p' \<union> owned e' \<subseteq> free p \<union> owned e"
begin

text \<open>A consistent pool and a family of pairwise disjoint entries.\<close>

definition shares :: "'p \<Rightarrow> ('i \<Rightarrow> 'e) \<Rightarrow> 'i set \<Rightarrow> bool" where
  "shares p es I \<longleftrightarrow> pool_ok p \<and> (\<forall>i\<in>I. fits (es i) \<and> owned (es i) \<inter> free p = {}) \<and>
     (\<forall>i\<in>I. \<forall>j\<in>I. i \<noteq> j \<longrightarrow> owned (es i) \<inter> owned (es j) = {})"

lemma shares_exchange:
  assumes "shares p es I" "i \<in> I" "pool_ok p'" "fits e'" "owned e' \<inter> free p' = {}"
    and "free p' \<union> owned e' \<subseteq> free p \<union> owned (es i)"
  shows "shares p' (es(i := e')) I"
proof -
  have away: "owned (es j) \<inter> free p' = {} \<and> owned (es j) \<inter> owned e' = {} \<and> fits (es j)"
    if "j \<in> I" "j \<noteq> i" for j
  proof -
    have "owned (es j) \<inter> (free p \<union> owned (es i)) = {}" "fits (es j)"
      using assms(1,2) that unfolding shares_def by blast+
    then show ?thesis using assms(6) by blast
  qed
  have others: "owned (es j) \<inter> owned (es k) = {}" if "j \<in> I" "k \<in> I" "j \<noteq> k" for j k
    using assms(1) that unfolding shares_def by blast
  have "fits ((es(i := e')) j) \<and> owned ((es(i := e')) j) \<inter> free p' = {}" if "j \<in> I" for j
    using assms(4,5) away [OF that] by (cases "j = i") simp_all
  moreover have "owned ((es(i := e')) j) \<inter> owned ((es(i := e')) k) = {}"
    if "j \<in> I" "k \<in> I" "j \<noteq> k" for j k
    using others [OF that] away [of j] away [of k] that
    by (cases "j = i"; cases "k = i") (simp_all add: Int_commute)
  ultimately show ?thesis unfolding shares_def using assms(3) by blast
qed

lemma shares_request:
  assumes "shares p es I" "i \<in> I" "req_ok qmax qb"
    and "request k (es i) qmax qb p = (rv, e', p', k')"
  shows "shares p' (es(i := e')) I"
proof -
  have "pool_ok p" "fits (es i)" "owned (es i) \<inter> free p = {}"
    using assms(1,2) by (auto simp: shares_def)
  from request_law [OF this assms(3,4)] show ?thesis
    using shares_exchange [OF assms(1,2)] by blast
qed

text \<open>A device that gives everything back and leaves the table.\<close>

lemma shares_release:
  assumes "shares p es I" "i \<in> I" and "submit k (es i) p = (e', p', k')"
  shows "shares p' es (I - {i})"
proof -
  have "pool_ok p" "fits (es i)" "owned (es i) \<inter> free p = {}"
    using assms(1,2) by (auto simp: shares_def)
  from submit_law [OF this assms(3)] have "shares p' (es(i := e')) I"
    using shares_exchange [OF assms(1,2)] by blast
  then have "shares p' (es(i := e')) (I - {i})" unfolding shares_def by blast
  then show ?thesis unfolding shares_def by simp
qed

lemma shares_add:
  assumes "shares p es I" "fits e" "owned e = {}" "i \<notin> I"
  shows "shares p (es(i := e)) (insert i I)"
proof -
  have "(es(i := e)) j = es j" if "j \<in> I" for j
    using that assms(4) by auto
  then show ?thesis using assms(1-3) by (simp add: shares_def)
qed

end

definition entry_fits :: "int \<Rightarrow> int \<Rightarrow> resource_entry \<Rightarrow> bool" where
  "entry_fits lo hi dev \<longleftrightarrow>
     0 \<le> total_q dev \<and> -1 \<le> qbase dev \<and> qbase dev + total_q dev \<le> hi \<and>
     (0 < total_q dev \<longrightarrow> lo \<le> qbase dev)"

lemma entry_ok_iff: "entry_ok lo hi dev fl \<longleftrightarrow> entry_fits lo hi dev \<and> ivl dev \<inter> cover fl = {}"
  by (auto simp: entry_ok_def entry_fits_def)

definition free_list_ok :: "int \<Rightarrow> int \<Rightarrow> resource_entry list \<Rightarrow> bool" where
  "free_list_ok lo hi fl \<longleftrightarrow> in_int_range lo hi \<and> wf_fl lo hi fl"

text \<open>A request whose end does not wrap around in \<^verbatim>\<open>uint32_t\<close>.\<close>

definition request_ok :: "int \<Rightarrow> int \<Rightarrow> bool" where
  "request_ok qmax qb \<longleftrightarrow> 0 \<le> qmax \<and> (0 \<le> qb \<longrightarrow> qb + qmax < 4294967296)"

interpretation fl_pool: queue_pool "free_list_ok lo hi" cover "entry_fits lo hi" ivl request_ok
  "qdma_submit_to_free_list al" "qdma_request_q_resource al"
  for lo hi :: int and al :: allocator
proof
  fix p e k e' p' k'
  assume "free_list_ok lo hi p" "entry_fits lo hi e" "ivl e \<inter> cover p = {}"
    and s: "qdma_submit_to_free_list al k e p = (e', p', k')"
  then have ok: "in_int_range lo hi" "wf_fl lo hi p" "entry_ok lo hi e p"
    by (simp_all add: free_list_ok_def entry_ok_iff)
  show "free_list_ok lo hi p' \<and> entry_fits lo hi e' \<and> ivl e' \<inter> cover p' = {} \<and>
      cover p' \<union> ivl e' = cover p \<union> ivl e"
    using submit_spec(1-3) [OF ok s] ok(1) by (simp add: free_list_ok_def entry_ok_iff)
next
  fix p e qmax qb k rv e' p' k'
  assume "free_list_ok lo hi p" "entry_fits lo hi e" "ivl e \<inter> cover p = {}"
    and "request_ok qmax qb" and s: "qdma_request_q_resource al k e qmax qb p = (rv, e', p', k')"
  then have ok: "in_int_range lo hi" "wf_fl lo hi p" "entry_ok lo hi e p"
      "0 \<le> qmax" "0 \<le> qb \<Longrightarrow> qb + qmax < 4294967296"
    by (simp_all add: free_list_ok_def entry_ok_iff request_ok_def)
  show "free_list_ok lo hi p' \<and> entry_fits lo hi e' \<and> ivl e' \<inter> cover p' = {} \<and>
      cover p' \<union> ivl e' \<subseteq> cover p \<union> ivl e"
    using request_q_resource_spec [OF ok s] ok(1)
    by (simp add: resized_def free_list_ok_def entry_ok_iff)
qed

subsection \<open>Properties\<close>

text \<open>
  Returning the last range restores the resource. When a device gives back a
  non-empty range and every other queue of the resource is already free, the free list
  becomes the single node it started as, however fragmented it was.
\<close>

theorem submit_restores_single_node:
  assumes "in_int_range lo hi" "wf_fl lo hi fl" "entry_ok lo hi dev fl" "al k"
    and "0 < total_q dev" "cover fl \<union> ivl dev = {lo..<hi}"
  shows "qdma_submit_to_free_list al k dev fl =
    (\<lparr>qbase = -1, total_q = 0\<rparr>, [\<lparr>qbase = lo, total_q = hi - lo\<rparr>], Suc k)"
proof -
  obtain dev' fl' k' where s: "qdma_submit_to_free_list (\<lambda>_. True) k dev fl = (dev', fl', k')"
    by (metis prod_cases3)
  have same: "qdma_submit_to_free_list al k dev fl = (dev', fl', k')"
    unfolding s [symmetric] using assms(4)
    by (simp add: qdma_submit_to_free_list_def qdma_free_entry_create_def)
  have out: "dev' = \<lparr>qbase = -1, total_q = 0\<rparr>" "k' = Suc k"
    using s assms(5) by (auto simp: qdma_submit_to_free_list_def qdma_free_entry_create_def)
  have "cover fl' = {lo..<hi}" "wf_fl lo hi fl'"
    using submit_spec(1,3) [OF assms(1-3) s] assms(6) by (simp_all add: out)
  moreover have "lo < hi" using assms(3,5) by (auto simp: entry_ok_def)
  moreover have "coalesced fl'" using submit_coalesces [OF assms(1-3) _ _ s] assms(5) by simp
  ultimately show ?thesis using coalesced_full same out by metis
qed

theorem submit_restores_single_node_witness:
  "qdma_submit_to_free_list (\<lambda>_. True) 0 \<lparr>qbase = 8, total_q = 16\<rparr>
     [\<lparr>qbase = 0, total_q = 8\<rparr>, \<lparr>qbase = 24, total_q = 40\<rparr>] =
   (\<lparr>qbase = -1, total_q = 0\<rparr>, [\<lparr>qbase = 0, total_q = 64 - 0\<rparr>], Suc 0)"
  by (rule submit_restores_single_node [of 0 64])
    (auto simp: in_int_range_def entry_ok_def ivl_def)

text \<open>
  A request for a given base is granted at that base. With memory, when the requested
  range consists of queues that are free or already the caller's own, the request succeeds
  with exactly that base and size. This holds on a coalesced free list, and on any list
  when the caller holds queues, since returning them coalesces the list first.
\<close>

theorem request_grants_base:
  assumes "in_int_range lo hi" "wf_fl lo hi fl" "entry_ok lo hi dev fl" "\<forall>n. al n"
    and "coalesced fl \<or> total_q dev \<noteq> 0"
    and "0 < qmax" "0 \<le> qb" "{qb..<qb + qmax} \<subseteq> cover fl \<union> ivl dev"
  shows "\<exists>fl' k'. qdma_request_q_resource al k dev qmax qb fl =
    (0, \<lparr>qbase = qb, total_q = qmax\<rparr>, fl', k') \<and> wf_fl lo hi fl' \<and>
    cover fl' = (cover fl \<union> ivl dev) - {qb..<qb + qmax}"
proof -
  obtain dev1 fl1 k1 where s1: "qdma_submit_to_free_list al k dev fl = (dev1, fl1, k1)"
    by (metis prod_cases3)
  note sub = submit_spec [OF assms(1-3) s1]
  have cov: "cover fl1 = cover fl \<union> ivl dev" using sub(3,4) assms(4) by simp
  have co: "coalesced fl1" using submit_coalesces [OF assms(1-5) s1] .
  obtain e where e: "e \<in> set fl1" "qbase e \<le> qb" "qb + qmax \<le> qbase e + total_q e"
    using coalesced_node [OF sub(1) co, of qb "qb + qmax"] assms(6,8) cov by auto
  have small: "qb + qmax < 4294967296"
    using wf_fl_member [OF sub(1) e(1)] e(3) assms(1) by (auto simp: in_int_range_def)
  obtain fl2 r k2 where s2: "qdma_get_resource_node al k1 qmax qb fl1 = (fl2, r, k2)"
    by (metis prod_cases3)
  have "total_q e \<ge> qmax" using e by simp
  with get_resource_node_spec [OF assms(1) sub(1) _ _ s2] small assms(4,6,7) e
  obtain j where j: "r = Some j" "carved lo hi qb qmax fl1 fl2 j"
    by (cases r) fastforce+
  have "qdma_request_q_resource al k dev qmax qb fl =
      (0, dev1\<lparr>qbase := qb, total_q := qmax\<rparr>, remove_nth j fl2, k2)"
    using s1 s2 j assms(6) by (simp add: qdma_request_q_resource_def carved_def)
  moreover have "dev1\<lparr>qbase := qb, total_q := qmax\<rparr> = \<lparr>qbase = qb, total_q = qmax\<rparr>"
    by (cases dev1) simp
  ultimately show ?thesis using j(2) cov by (simp add: carved_def)
qed

theorem request_grants_base_witness:
  "\<exists>fl' k'. qdma_request_q_resource (\<lambda>_. True) 0 \<lparr>qbase = 8, total_q = 8\<rparr> 20 4
      [\<lparr>qbase = 0, total_q = 8\<rparr>, \<lparr>qbase = 16, total_q = 16\<rparr>] =
    (0, \<lparr>qbase = 4, total_q = 20\<rparr>, fl', k') \<and> wf_fl 0 64 fl' \<and>
    cover fl' = (cover [\<lparr>qbase = 0, total_q = 8\<rparr>, \<lparr>qbase = 16, total_q = 16\<rparr>] \<union>
      ivl \<lparr>qbase = 8, total_q = 8\<rparr>) - {4..<4 + 20}"
  by (rule request_grants_base [of 0 64]) (auto simp: in_int_range_def entry_ok_def ivl_def)

end
