(* ===== verification/Resource_Mgmt.thy ===== *)
theory Resource_Mgmt
  imports Free_List
begin

text \<open>
  The queue resource manager (\<^verbatim>\<open>libqdma/qdma_access/qdma_resource_mgmt.c\<close>): the list of
  master resources (one per PCI bus range), each with the devices (PCI functions) attached
  to it and its free list, and every operation the driver and the mailbox call. The
  resource lock only serialises the operations; each operation is one step of the model.
\<close>

subsection \<open>State\<close>

datatype qdma_dev_q_range = QDMA_DEV_Q_IN_RANGE | QDMA_DEV_Q_OUT_OF_RANGE | QDMA_DEV_Q_RANGE_MAX

text \<open>\<open>QDMA_DEV_Q_TYPE_MAX\<close> stands for every value outside the three queue types.\<close>

datatype qdma_dev_q_type =
  QDMA_DEV_Q_TYPE_H2C | QDMA_DEV_Q_TYPE_C2H | QDMA_DEV_Q_TYPE_CMPT | QDMA_DEV_Q_TYPE_MAX

record dev_entry =
  func_id :: int
  active_h2c_qcnt :: int
  active_c2h_qcnt :: int
  active_cmpt_qcnt :: int
  entry :: resource_entry

record resource_master =
  dma_device_index :: int
  pci_bus_start :: int
  pci_bus_end :: int
  m_total_q :: int
  m_qbase :: int
  dev_list :: "dev_entry list"
  free_list :: "resource_entry list"
  active_qcnt :: int

text \<open>\<open>rm_index\<close> is the static counter of \<^verbatim>\<open>qdma_master_resource_create\<close>, \<open>rm_allocs\<close> the
  number of \<^verbatim>\<open>qdma_calloc\<close> calls so far.\<close>

record rm_state =
  master_resource_list :: "resource_master list"
  rm_index :: int
  rm_allocs :: nat

definition rm_init :: rm_state where
  "rm_init = \<lparr>master_resource_list = [], rm_index = 0, rm_allocs = 0\<rparr>"

subsection \<open>Lookups\<close>

definition qdma_find_master_resource_entry :: "int \<Rightarrow> int \<Rightarrow> rm_state \<Rightarrow> resource_master option" where
  "qdma_find_master_resource_entry bus_start bus_end s =
     find (\<lambda>m. pci_bus_start m = bus_start \<and> pci_bus_end m = bus_end) (master_resource_list s)"

definition qdma_get_master_resource_entry :: "int \<Rightarrow> rm_state \<Rightarrow> resource_master option" where
  "qdma_get_master_resource_entry idx s =
     find (\<lambda>m. dma_device_index m = idx) (master_resource_list s)"

definition qdma_get_dev_entry :: "int \<Rightarrow> int \<Rightarrow> rm_state \<Rightarrow> dev_entry option" where
  "qdma_get_dev_entry idx fid s =
     (case qdma_get_master_resource_entry idx s of
        None \<Rightarrow> None
      | Some m \<Rightarrow> find (\<lambda>d. func_id d = fid) (dev_list m))"

text \<open>
  The code updates the structures the lookups return through their pointers; here the found
  master, and the found device of a master, are replaced in their lists.
\<close>

definition put_master :: "int \<Rightarrow> resource_master \<Rightarrow> rm_state \<Rightarrow> rm_state" where
  "put_master idx m s = s\<lparr>master_resource_list :=
     update_first (\<lambda>m. dma_device_index m = idx) (\<lambda>_. m) (master_resource_list s)\<rparr>"

definition put_dev :: "int \<Rightarrow> dev_entry \<Rightarrow> resource_master \<Rightarrow> resource_master" where
  "put_dev fid d m = m\<lparr>dev_list := update_first (\<lambda>d. func_id d = fid) (\<lambda>_. d) (dev_list m)\<rparr>"

subsection \<open>Masters\<close>

text \<open>The result is the return value, \<^verbatim>\<open>*dma_device_index\<close> and the state.\<close>

definition qdma_master_resource_create ::
  "allocator \<Rightarrow> int \<Rightarrow> int \<Rightarrow> int \<Rightarrow> int \<Rightarrow> rm_state \<Rightarrow> int \<times> int \<times> rm_state" where
  "qdma_master_resource_create al bus_start bus_end q_base tq s =
     (case qdma_find_master_resource_entry bus_start bus_end s of
        Some m \<Rightarrow> (neg_err QDMA_ERR_RM_RES_EXISTS, dma_device_index m, s)
      | None \<Rightarrow>
          (let index = rm_index s; k = rm_allocs s in
           if \<not> al k then
             (neg_err QDMA_ERR_NO_MEM, to_u32 index, s\<lparr>rm_allocs := Suc k\<rparr>)
           else if \<not> al (Suc k) then
             (neg_err QDMA_ERR_NO_MEM, to_u32 index, s\<lparr>rm_allocs := Suc (Suc k)\<rparr>)
           else
             (err_code QDMA_SUCCESS, to_u32 index,
              s\<lparr>master_resource_list := master_resource_list s @
                  [\<lparr>dma_device_index = to_u32 index, pci_bus_start = bus_start,
                    pci_bus_end = bus_end, m_total_q = tq, m_qbase = q_base,
                    dev_list = [], free_list = [\<lparr>qbase = q_base, total_q = tq\<rparr>],
                    active_qcnt = 0\<rparr>],
                rm_index := to_s32 (index + 1),
                rm_allocs := Suc (Suc k)\<rparr>)))"

definition qdma_master_resource_destroy :: "int \<Rightarrow> rm_state \<Rightarrow> rm_state" where
  "qdma_master_resource_destroy idx s =
     (case qdma_get_master_resource_entry idx s of
        None \<Rightarrow> s
      | Some m \<Rightarrow>
          if dev_list m \<noteq> [] then s
          else s\<lparr>master_resource_list :=
                   remove_first (\<lambda>m. dma_device_index m = idx) (master_resource_list s)\<rparr>)"

subsection \<open>Devices\<close>

definition qdma_dev_entry_create :: "allocator \<Rightarrow> int \<Rightarrow> int \<Rightarrow> rm_state \<Rightarrow> int \<times> rm_state" where
  "qdma_dev_entry_create al idx fid s =
     (case qdma_get_master_resource_entry idx s of
        None \<Rightarrow> (neg_err QDMA_ERR_RM_RES_NOT_EXISTS, s)
      | Some m \<Rightarrow>
          (case qdma_get_dev_entry idx fid s of
             Some _ \<Rightarrow> (neg_err QDMA_ERR_RM_DEV_EXISTS, s)
           | None \<Rightarrow>
               (let s' = s\<lparr>rm_allocs := Suc (rm_allocs s)\<rparr> in
                if \<not> al (rm_allocs s) then (neg_err QDMA_ERR_NO_MEM, s')
                else
                  (err_code QDMA_SUCCESS,
                   put_master idx
                     (m\<lparr>dev_list := dev_list m @
                         [\<lparr>func_id = fid, active_h2c_qcnt = 0, active_c2h_qcnt = 0,
                           active_cmpt_qcnt = 0, entry = \<lparr>qbase = -1, total_q = 0\<rparr>\<rparr>]\<rparr>) s'))))"

definition qdma_dev_entry_destroy :: "allocator \<Rightarrow> int \<Rightarrow> int \<Rightarrow> rm_state \<Rightarrow> rm_state" where
  "qdma_dev_entry_destroy al idx fid s =
     (case qdma_get_master_resource_entry idx s of
        None \<Rightarrow> s
      | Some m \<Rightarrow>
          (case qdma_get_dev_entry idx fid s of
             None \<Rightarrow> s
           | Some d \<Rightarrow>
               (let (e, fl, k) =
                      qdma_submit_to_free_list al (rm_allocs s) (entry d) (free_list m) in
                put_master idx
                  (m\<lparr>free_list := fl,
                     dev_list := remove_first (\<lambda>d. func_id d = fid) (dev_list m)\<rparr>)
                  (s\<lparr>rm_allocs := k\<rparr>))))"

text \<open>The result is the return value, \<^verbatim>\<open>*qbase\<close> and the state.\<close>

definition qdma_dev_update ::
  "allocator \<Rightarrow> int \<Rightarrow> int \<Rightarrow> int \<Rightarrow> int \<Rightarrow> rm_state \<Rightarrow> int \<times> int \<times> rm_state" where
  "qdma_dev_update al idx fid qmax qb s =
     (case qdma_get_master_resource_entry idx s of
        None \<Rightarrow> (neg_err QDMA_ERR_RM_RES_NOT_EXISTS, qb, s)
      | Some m \<Rightarrow>
          (case qdma_get_dev_entry idx fid s of
             None \<Rightarrow> (neg_err QDMA_ERR_RM_DEV_NOT_EXISTS, qb, s)
           | Some d \<Rightarrow>
               if active_h2c_qcnt d \<noteq> 0 \<or> active_c2h_qcnt d \<noteq> 0 \<or> active_cmpt_qcnt d \<noteq> 0 then
                 (neg_err QDMA_ERR_RM_QMAX_CONF_REJECTED, qb, s)
               else
                 (let (rv, e, fl, k) =
                        qdma_request_q_resource al (rm_allocs s) (entry d) qmax qb (free_list m) in
                  (rv, qbase e,
                   put_master idx (put_dev fid (d\<lparr>entry := e\<rparr>) (m\<lparr>free_list := fl\<rparr>))
                     (s\<lparr>rm_allocs := k\<rparr>)))))"

text \<open>The output parameters keep their old values \<open>qb\<close>, \<open>qm\<close> on an error.\<close>

definition qdma_dev_qinfo_get :: "int \<Rightarrow> int \<Rightarrow> int \<Rightarrow> int \<Rightarrow> rm_state \<Rightarrow> int \<times> int \<times> int" where
  "qdma_dev_qinfo_get idx fid qb qm s =
     (case qdma_get_master_resource_entry idx s of
        None \<Rightarrow> (neg_err QDMA_ERR_RM_RES_NOT_EXISTS, qb, qm)
      | Some m \<Rightarrow>
          (case qdma_get_dev_entry idx fid s of
             None \<Rightarrow> (neg_err QDMA_ERR_RM_DEV_NOT_EXISTS, qb, qm)
           | Some d \<Rightarrow> (err_code QDMA_SUCCESS, qbase (entry d), total_q (entry d))))"

definition qdma_dev_is_queue_in_range :: "int \<Rightarrow> int \<Rightarrow> int \<Rightarrow> rm_state \<Rightarrow> qdma_dev_q_range" where
  "qdma_dev_is_queue_in_range idx fid qid_hw s =
     (case qdma_get_master_resource_entry idx s of
        None \<Rightarrow> QDMA_DEV_Q_OUT_OF_RANGE
      | Some m \<Rightarrow>
          (case qdma_get_dev_entry idx fid s of
             None \<Rightarrow> QDMA_DEV_Q_OUT_OF_RANGE
           | Some d \<Rightarrow>
               (let qmax = to_u32 (qbase (entry d) + total_q (entry d)) in
                if total_q (entry d) \<noteq> 0 \<and> qid_hw < qmax \<and> to_s32 qid_hw \<ge> qbase (entry d)
                then QDMA_DEV_Q_IN_RANGE else QDMA_DEV_Q_OUT_OF_RANGE)))"

subsection \<open>Active queue counters\<close>

fun get_qcnt :: "qdma_dev_q_type \<Rightarrow> dev_entry \<Rightarrow> int option" where
  "get_qcnt QDMA_DEV_Q_TYPE_H2C d = Some (active_h2c_qcnt d)"
| "get_qcnt QDMA_DEV_Q_TYPE_C2H d = Some (active_c2h_qcnt d)"
| "get_qcnt QDMA_DEV_Q_TYPE_CMPT d = Some (active_cmpt_qcnt d)"
| "get_qcnt QDMA_DEV_Q_TYPE_MAX d = None"

fun set_qcnt :: "qdma_dev_q_type \<Rightarrow> int \<Rightarrow> dev_entry \<Rightarrow> dev_entry" where
  "set_qcnt QDMA_DEV_Q_TYPE_H2C n d = d\<lparr>active_h2c_qcnt := n\<rparr>"
| "set_qcnt QDMA_DEV_Q_TYPE_C2H n d = d\<lparr>active_c2h_qcnt := n\<rparr>"
| "set_qcnt QDMA_DEV_Q_TYPE_CMPT n d = d\<lparr>active_cmpt_qcnt := n\<rparr>"
| "set_qcnt QDMA_DEV_Q_TYPE_MAX n d = d"

definition qdma_dev_increment_active_queue ::
  "int \<Rightarrow> int \<Rightarrow> qdma_dev_q_type \<Rightarrow> rm_state \<Rightarrow> int \<times> rm_state" where
  "qdma_dev_increment_active_queue idx fid q_type s =
     (case qdma_get_master_resource_entry idx s of
        None \<Rightarrow> (neg_err QDMA_ERR_RM_RES_NOT_EXISTS, s)
      | Some m \<Rightarrow>
          (case qdma_get_dev_entry idx fid s of
             None \<Rightarrow> (neg_err QDMA_ERR_RM_DEV_NOT_EXISTS, s)
           | Some d \<Rightarrow>
               (case get_qcnt q_type d of
                  None \<Rightarrow> (neg_err QDMA_ERR_RM_DEV_NOT_EXISTS, s)
                | Some cnt \<Rightarrow>
                    if total_q (entry d) < to_u32 (cnt + 1)
                    then (neg_err QDMA_ERR_RM_NO_QUEUES_LEFT, s)
                    else
                      (err_code QDMA_SUCCESS,
                       put_master idx
                         (put_dev fid (set_qcnt q_type (to_u32 (cnt + 1)) d)
                            (m\<lparr>active_qcnt := to_u32 (active_qcnt m + 1)\<rparr>)) s))))"

definition qdma_dev_decrement_active_queue ::
  "int \<Rightarrow> int \<Rightarrow> qdma_dev_q_type \<Rightarrow> rm_state \<Rightarrow> int \<times> rm_state" where
  "qdma_dev_decrement_active_queue idx fid q_type s =
     (case qdma_get_master_resource_entry idx s of
        None \<Rightarrow> (neg_err QDMA_ERR_RM_RES_NOT_EXISTS, s)
      | Some m \<Rightarrow>
          (case qdma_get_dev_entry idx fid s of
             None \<Rightarrow> (neg_err QDMA_ERR_RM_DEV_NOT_EXISTS, s)
           | Some d \<Rightarrow>
               (let m' = m\<lparr>active_qcnt := to_u32 (active_qcnt m - 1)\<rparr> in
                case get_qcnt q_type d of
                  None \<Rightarrow> (neg_err QDMA_ERR_RM_DEV_NOT_EXISTS, put_master idx m' s)
                | Some cnt \<Rightarrow>
                    (err_code QDMA_SUCCESS,
                     put_master idx
                       (put_dev fid (if cnt \<noteq> 0 then set_qcnt q_type (to_u32 (cnt - 1)) d else d) m')
                       s))))"

definition qdma_get_active_queue_count :: "int \<Rightarrow> rm_state \<Rightarrow> int" where
  "qdma_get_active_queue_count idx s =
     (case qdma_get_master_resource_entry idx s of
        None \<Rightarrow> err_code QDMA_SUCCESS
      | Some m \<Rightarrow> active_qcnt m)"

definition qdma_get_device_active_queue_count :: "int \<Rightarrow> int \<Rightarrow> qdma_dev_q_type \<Rightarrow> rm_state \<Rightarrow> int" where
  "qdma_get_device_active_queue_count idx fid q_type s =
     (case qdma_get_master_resource_entry idx s of
        None \<Rightarrow> neg_err QDMA_ERR_RM_RES_NOT_EXISTS
      | Some m \<Rightarrow>
          (case qdma_get_dev_entry idx fid s of
             None \<Rightarrow> neg_err QDMA_ERR_RM_DEV_NOT_EXISTS
           | Some d \<Rightarrow> to_s32 (case get_qcnt q_type d of None \<Rightarrow> 0 | Some cnt \<Rightarrow> cnt)))"

subsection \<open>Lookups by key\<close>

lemma find_key:
  assumes "distinct (map k xs)" "x \<in> set xs"
  shows "find (\<lambda>y. k y = k x) xs = Some x"
  using assms by (induction xs) (auto simp: image_iff)

lemma find_key_None: "find (\<lambda>y. k y = i) xs = None \<longleftrightarrow> i \<notin> k ` set xs"
  by (auto simp: find_None_iff)

lemma find_key_Some:
  "find (\<lambda>y. k y = i) xs = Some x \<Longrightarrow> x \<in> set xs \<and> k x = i"
  by (induction xs) (auto split: if_splits)

lemma update_key_map:
  "find (\<lambda>y. k y = i) xs = Some x \<Longrightarrow> k x' = i \<Longrightarrow>
     map k (update_first (\<lambda>y. k y = i) (\<lambda>_. x') xs) = map k xs"
  by (induction xs) (auto split: if_splits)

lemma update_key_set:
  assumes "distinct (map k xs)" "find (\<lambda>y. k y = i) xs = Some x"
  shows "set (update_first (\<lambda>y. k y = i) (\<lambda>_. x') xs) = insert x' (set xs - {x})"
  using assms by (induction xs) (auto split: if_splits dest: find_key_Some)

lemma remove_key_set:
  assumes "distinct (map k xs)" "find (\<lambda>y. k y = i) xs = Some x"
  shows "set (remove_first (\<lambda>y. k y = i) xs) = set xs - {x}"
  using assms by (induction xs) (auto split: if_splits dest: find_key_Some)

lemma remove_key_distinct:
  "distinct (map k xs) \<Longrightarrow> distinct (map k (remove_first (\<lambda>y. k y = i) xs))"
proof (induction xs)
  case (Cons a xs)
  have "set (remove_first (\<lambda>y. k y = i) xs) \<subseteq> set xs" by (induction xs) auto
  with Cons show ?case by auto
qed simp

lemmas key_list = find_key find_key_None update_key_map update_key_set remove_key_set remove_key_distinct

subsection \<open>The invariant of a master\<close>

text \<open>The counters of a device never pass the size of its range.\<close>

definition counts_ok :: "dev_entry \<Rightarrow> bool" where
  "counts_ok d \<longleftrightarrow>
     0 \<le> active_h2c_qcnt d \<and> active_h2c_qcnt d \<le> total_q (entry d) \<and>
     0 \<le> active_c2h_qcnt d \<and> active_c2h_qcnt d \<le> total_q (entry d) \<and>
     0 \<le> active_cmpt_qcnt d \<and> active_cmpt_qcnt d \<le> total_q (entry d)"

text \<open>
  Isolation: the free list is well formed, every device's range lies in the resource and
  is disjoint from the free queues, and the ranges of two functions are disjoint.
\<close>

definition isolated :: "resource_master \<Rightarrow> bool" where
  "isolated m \<longleftrightarrow>
     distinct (map func_id (dev_list m)) \<and>
     free_list_ok (m_qbase m) (m_qbase m + m_total_q m) (free_list m) \<and>
     (\<forall>d\<in>set (dev_list m).
        entry_fits (m_qbase m) (m_qbase m + m_total_q m) (entry d) \<and>
        ivl (entry d) \<inter> cover (free_list m) = {}) \<and>
     (\<forall>d\<in>set (dev_list m). \<forall>d'\<in>set (dev_list m).
        func_id d \<noteq> func_id d' \<longrightarrow> ivl (entry d) \<inter> ivl (entry d') = {})"

definition master_ok :: "resource_master \<Rightarrow> bool" where
  "master_ok m \<longleftrightarrow> isolated m \<and> (\<forall>d\<in>set (dev_list m). counts_ok d)"

text \<open>All queues of a resource: the free ones and those some device holds.\<close>

definition all_queues :: "resource_master \<Rightarrow> int set" where
  "all_queues m = cover (free_list m) \<union> (\<Union>d\<in>set (dev_list m). ivl (entry d))"

text \<open>The entry of a function, as the contract of a queue pool indexes them.\<close>

definition dev_of :: "resource_master \<Rightarrow> int \<Rightarrow> resource_entry" where
  "dev_of m fid = (case find (\<lambda>d. func_id d = fid) (dev_list m) of
     Some d \<Rightarrow> entry d | None \<Rightarrow> \<lparr>qbase = -1, total_q = 0\<rparr>)"

lemma dev_of_member [simp]:
  "distinct (map func_id (dev_list m)) \<Longrightarrow> d \<in> set (dev_list m) \<Longrightarrow> dev_of m (func_id d) = entry d"
  by (simp add: dev_of_def find_key)

text \<open>Isolation is the sharing contract of the queue pool.\<close>

lemma isolated_shares:
  assumes "distinct (map func_id (dev_list m))"
    and "\<And>d. d \<in> set (dev_list m) \<Longrightarrow> es (func_id d) = entry d"
  shows "isolated m \<longleftrightarrow>
    fl_pool.shares (m_qbase m) (m_qbase m + m_total_q m) (free_list m) es
      (func_id ` set (dev_list m))"
  using assms by (simp add: isolated_def fl_pool.shares_def)

lemma isolatedD:
  assumes "isolated m"
  shows "distinct (map func_id (dev_list m))"
    and "fl_pool.shares (m_qbase m) (m_qbase m + m_total_q m) (free_list m) (dev_of m)
           (func_id ` set (dev_list m))"
  using isolated_shares [of m "dev_of m"] assms by (auto simp: isolated_def)

subsection \<open>The operations on a master keep it in order\<close>

lemma new_master_ok:
  assumes "0 \<le> q_base" "0 < tq" "q_base + tq \<le> 2147483647"
    and "dev_list m = []" "free_list m = [\<lparr>qbase = q_base, total_q = tq\<rparr>]"
    and "m_qbase m = q_base" "m_total_q m = tq"
  shows "master_ok m"
  using assms by (simp add: master_ok_def isolated_def free_list_ok_def in_int_range_def)

lemma add_dev_ok:
  assumes m: "master_ok m" and new: "fid \<notin> func_id ` set (dev_list m)"
    and m': "m' = m\<lparr>dev_list := dev_list m @
      [\<lparr>func_id = fid, active_h2c_qcnt = 0, active_c2h_qcnt = 0, active_cmpt_qcnt = 0,
        entry = \<lparr>qbase = -1, total_q = 0\<rparr>\<rparr>]\<rparr>"
  shows "master_ok m'"
proof -
  let ?e = "\<lparr>qbase = -1, total_q = 0\<rparr> :: resource_entry"
  have iso: "isolated m" using m by (simp add: master_ok_def)
  have "0 \<le> m_qbase m + m_total_q m"
    using iso wf_fl_le by (fastforce simp: isolated_def free_list_ok_def in_int_range_def)
  then have "entry_fits (m_qbase m) (m_qbase m + m_total_q m) ?e" "ivl ?e = {}"
    by (simp_all add: entry_fits_def)
  from fl_pool.shares_add [OF isolatedD(2) [OF iso] this new]
  have "isolated m'"
    by (subst isolated_shares [where es = "(dev_of m)(fid := ?e)"])
      (use isolatedD(1) [OF iso] new in \<open>auto simp: m'\<close>)
  then show ?thesis using m by (auto simp: m' master_ok_def counts_ok_def)
qed

lemma release_ok:
  assumes m: "master_ok m" and d: "find (\<lambda>d. func_id d = fid) (dev_list m) = Some d"
    and s: "qdma_submit_to_free_list al k (entry d) (free_list m) = (e, fl, k')"
    and m': "m' = m\<lparr>free_list := fl, dev_list := remove_first (\<lambda>d. func_id d = fid) (dev_list m)\<rparr>"
  shows "master_ok m'"
proof -
  have iso: "isolated m" using m by (simp add: master_ok_def)
  note dist = isolatedD(1) [OF iso]
  have mem: "d \<in> set (dev_list m)" "func_id d = fid" using find_key_Some [OF d] by simp_all
  have set': "set (dev_list m') = set (dev_list m) - {d}"
    using remove_key_set [OF dist d] by (simp add: m')
  have ids: "func_id ` set (dev_list m') = func_id ` set (dev_list m) - {fid}"
    using dist mem unfolding set' by (auto simp: distinct_map inj_on_def)
  have "qdma_submit_to_free_list al k (dev_of m fid) (free_list m) = (e, fl, k')"
    using s mem dist by auto
  from fl_pool.shares_release [OF isolatedD(2) [OF iso] _ this]
  have "isolated m'"
    by (subst isolated_shares [where es = "dev_of m"])
      (use dist mem set' ids in \<open>auto simp: m' remove_key_distinct\<close>)
  then show ?thesis using m set' by (simp add: master_ok_def)
qed

text \<open>A device's record may be replaced by one with the same function and range.\<close>

lemma put_dev_set:
  assumes "isolated m" "find (\<lambda>d. func_id d = fid) (dev_list m) = Some d" "func_id d' = fid"
  shows "set (dev_list (put_dev fid d' m)) = insert d' (set (dev_list m) - {d})"
    and "map func_id (dev_list (put_dev fid d' m)) = map func_id (dev_list m)"
  using update_key_set [OF isolatedD(1) assms(2)] update_key_map [OF assms(2,3)] assms(1)
  by (simp_all add: put_dev_def)

lemma resize_ok:
  assumes m: "master_ok m" and d: "find (\<lambda>d. func_id d = fid) (dev_list m) = Some d"
    and idle: "active_h2c_qcnt d = 0" "active_c2h_qcnt d = 0" "active_cmpt_qcnt d = 0"
    and r: "request_ok qmax qb"
    and s: "qdma_request_q_resource al k (entry d) qmax qb (free_list m) = (rv, e, fl, k')"
    and m': "m' = put_dev fid (d\<lparr>entry := e\<rparr>) (m\<lparr>free_list := fl\<rparr>)"
  shows "master_ok m'"
proof -
  have iso: "isolated m" using m by (simp add: master_ok_def)
  note dist = isolatedD(1) [OF iso]
  have mem: "d \<in> set (dev_list m)" "func_id d = fid" using find_key_Some [OF d] by simp_all
  have m'_dev: "dev_list m' = dev_list (put_dev fid (d\<lparr>entry := e\<rparr>) m)"
    by (simp add: m' put_dev_def)
  have set': "set (dev_list m') = insert (d\<lparr>entry := e\<rparr>) (set (dev_list m) - {d})"
    and ids: "map func_id (dev_list m') = map func_id (dev_list m)"
    using put_dev_set [OF iso d, of "d\<lparr>entry := e\<rparr>"] mem(2) unfolding m'_dev by simp_all
  then have ids': "func_id ` set (dev_list m') = func_id ` set (dev_list m)"
    by (metis set_map)
  have others: "func_id x \<noteq> fid" if "x \<in> set (dev_list m) - {d}" for x
    using that dist mem by (auto simp: distinct_map inj_on_def)
  have "qdma_request_q_resource al k (dev_of m fid) qmax qb (free_list m) = (rv, e, fl, k')"
    using s mem dist by auto
  from fl_pool.shares_request [OF isolatedD(2) [OF iso] _ r this]
  have sh: "fl_pool.shares (m_qbase m) (m_qbase m + m_total_q m) fl ((dev_of m)(fid := e))
      (func_id ` set (dev_list m))"
    using mem by auto
  have es: "((dev_of m)(fid := e)) (func_id x) = entry x" if "x \<in> set (dev_list m')" for x
    using that others dist mem(2) unfolding set' by auto
  have fixed: "m_qbase m' = m_qbase m" "m_total_q m' = m_total_q m" "free_list m' = fl"
    by (simp_all add: m' put_dev_def)
  have iso': "isolated m'"
    using isolated_shares [of m' "(dev_of m)(fid := e)"] es sh ids' dist ids fixed by metis
  then have "0 \<le> total_q e" by (auto simp: isolated_def set' entry_fits_def)
  then show ?thesis using m iso' idle
    by (auto simp: master_ok_def set' counts_ok_def)
qed

lemma recount_ok:
  assumes m: "master_ok m" and d: "find (\<lambda>d. func_id d = fid) (dev_list m) = Some d"
    and d': "func_id d' = fid" "entry d' = entry d" "counts_ok d'"
    and m': "m' = put_dev fid d' (m\<lparr>active_qcnt := n\<rparr>)"
  shows "master_ok m'"
proof -
  have iso: "isolated m" using m by (simp add: master_ok_def)
  note dist = isolatedD(1) [OF iso]
  have mem: "d \<in> set (dev_list m)" "func_id d = fid" using find_key_Some [OF d] by simp_all
  have m'_dev: "dev_list m' = dev_list (put_dev fid d' m)"
    by (simp add: m' put_dev_def)
  have set': "set (dev_list m') = insert d' (set (dev_list m) - {d})"
    and ids: "map func_id (dev_list m') = map func_id (dev_list m)"
    using put_dev_set [OF iso d d'(1)] unfolding m'_dev by simp_all
  have fixed: "m_qbase m' = m_qbase m" "m_total_q m' = m_total_q m" "free_list m' = free_list m"
    by (simp_all add: m' put_dev_def)
  have es: "dev_of m (func_id x) = entry x" if "x \<in> set (dev_list m')" for x
    using that dist mem d' dev_of_member [OF dist mem(1)] unfolding set' by auto
  have "func_id ` set (dev_list m') = func_id ` set (dev_list m)" using ids by (metis set_map)
  then have "isolated m'"
    using isolated_shares [of m' "dev_of m"] es isolatedD(2) [OF iso] dist ids fixed by metis
  then show ?thesis using m d'(3) by (auto simp: master_ok_def set')
qed

subsection \<open>The invariant of the manager\<close>

text \<open>
  Device indices are unique and below the static counter, and every master is in order.
\<close>

definition rm_ok :: "rm_state \<Rightarrow> bool" where
  "rm_ok s \<longleftrightarrow>
     distinct (map dma_device_index (master_resource_list s)) \<and>
     0 \<le> rm_index s \<and> rm_index s \<le> 2147483647 \<and>
     (\<forall>m\<in>set (master_resource_list s).
        master_ok m \<and> 0 \<le> dma_device_index m \<and> dma_device_index m < rm_index s)"

lemma rm_ok_init: "rm_ok rm_init"
  by (simp add: rm_ok_def rm_init_def)

lemma get_masterD:
  assumes "qdma_get_master_resource_entry idx s = Some m"
  shows "m \<in> set (master_resource_list s)" "dma_device_index m = idx"
  using assms find_key_Some [of dma_device_index idx]
  by (auto simp: qdma_get_master_resource_entry_def)

lemma get_dev_of:
  assumes "qdma_get_master_resource_entry idx s = Some m"
  shows "qdma_get_dev_entry idx fid s = find (\<lambda>d. func_id d = fid) (dev_list m)"
  using assms by (simp add: qdma_get_dev_entry_def)

lemma lookup_cases:
  obtains (no_master) "qdma_get_master_resource_entry idx s = None"
  | (no_dev) m where "qdma_get_master_resource_entry idx s = Some m"
      "qdma_get_dev_entry idx fid s = None"
  | (found) m d where "qdma_get_master_resource_entry idx s = Some m"
      "find (\<lambda>d. func_id d = fid) (dev_list m) = Some d"
  by (cases "qdma_get_master_resource_entry idx s"; cases "qdma_get_dev_entry idx fid s")
    (auto simp: get_dev_of)

lemma rm_ok_master:
  "rm_ok s \<Longrightarrow> qdma_get_master_resource_entry idx s = Some m \<Longrightarrow> master_ok m"
  using get_masterD by (auto simp: rm_ok_def)

lemma put_master_rm_ok:
  assumes ok: "rm_ok s" and m: "qdma_get_master_resource_entry idx s = Some m"
    and m': "master_ok m'" "dma_device_index m' = idx"
  shows "rm_ok (put_master idx m' (s\<lparr>rm_allocs := k\<rparr>))"
proof -
  have f: "find (\<lambda>m. dma_device_index m = idx) (master_resource_list s) = Some m"
    using m by (simp add: qdma_get_master_resource_entry_def)
  have dist: "distinct (map dma_device_index (master_resource_list s))"
    using ok by (simp add: rm_ok_def)
  note [simp] = update_key_set [OF dist f] update_key_map [where k = dma_device_index, OF f m'(2)]
  show ?thesis using ok m' dist get_masterD [OF m]
    by (auto simp: rm_ok_def put_master_def)
qed

lemma put_master_rm_ok':
  "rm_ok s \<Longrightarrow> qdma_get_master_resource_entry idx s = Some m \<Longrightarrow> master_ok m' \<Longrightarrow>
     dma_device_index m' = idx \<Longrightarrow> rm_ok (put_master idx m' s)"
  using put_master_rm_ok [of s idx m m' "rm_allocs s"] by simp

lemma rm_ok_allocs [simp]: "rm_ok (s\<lparr>rm_allocs := k\<rparr>) = rm_ok s"
  by (simp add: rm_ok_def)

subsection \<open>Every operation preserves it\<close>

lemma master_create_ok:
  assumes "rm_ok s" "0 \<le> q_base" "0 < tq" "q_base + tq \<le> 2147483647" "rm_index s < 2147483647"
    and "qdma_master_resource_create al bs be q_base tq s = (rv, idx, s')"
  shows "rm_ok s'"
proof (cases "rv = 0")
  case True
  let ?m = "\<lparr>dma_device_index = to_u32 (rm_index s), pci_bus_start = bs, pci_bus_end = be,
    m_total_q = tq, m_qbase = q_base, dev_list = [], free_list = [\<lparr>qbase = q_base, total_q = tq\<rparr>],
    active_qcnt = 0\<rparr>"
  have s': "master_resource_list s' = master_resource_list s @ [?m]" "rm_index s' = to_s32 (rm_index s + 1)"
    using assms(6) True
    by (auto simp: qdma_master_resource_create_def Let_def split: option.splits if_splits)
  have idx: "to_u32 (rm_index s) = rm_index s" "to_s32 (rm_index s + 1) = rm_index s + 1"
    using assms(1,5) by (simp_all add: rm_ok_def c_conv)
  have "master_ok ?m"
    by (rule new_master_ok [OF assms(2-4)]) simp_all
  then show ?thesis using assms(1,5) by (fastforce simp: rm_ok_def s' idx)
next
  case False
  then have "\<exists>k. s' = s\<lparr>rm_allocs := k\<rparr>" using assms(6)
    by (auto simp: qdma_master_resource_create_def Let_def split: option.splits if_splits
        intro: exI [of _ "rm_allocs s"])
  then show ?thesis using assms(1) by auto
qed

lemma remove_first_subset: "set (remove_first P xs) \<subseteq> set xs"
  by (induction xs) auto

lemma master_destroy_ok: "rm_ok s \<Longrightarrow> rm_ok (qdma_master_resource_destroy idx s)"
  using remove_first_subset
  by (fastforce simp: qdma_master_resource_destroy_def rm_ok_def remove_key_distinct
      split: option.splits)

lemma dev_create_ok:
  assumes "rm_ok s" and "qdma_dev_entry_create al idx fid s = (rv, s')"
  shows "rm_ok s'"
proof (cases "rv = 0")
  case True
  then obtain m where m: "qdma_get_master_resource_entry idx s = Some m"
      "qdma_get_dev_entry idx fid s = None"
    and s': "s' = put_master idx (m\<lparr>dev_list := dev_list m @
      [\<lparr>func_id = fid, active_h2c_qcnt = 0, active_c2h_qcnt = 0, active_cmpt_qcnt = 0,
        entry = \<lparr>qbase = -1, total_q = 0\<rparr>\<rparr>]\<rparr>) (s\<lparr>rm_allocs := Suc (rm_allocs s)\<rparr>)"
    using assms(2)
    by (auto simp: qdma_dev_entry_create_def Let_def split: option.splits if_splits)
  have "fid \<notin> func_id ` set (dev_list m)"
    using m by (simp add: get_dev_of find_key_None)
  from add_dev_ok [OF rm_ok_master [OF assms(1) m(1)] this refl]
  show ?thesis unfolding s'
    using assms(1) m(1) get_masterD [OF m(1)] by (intro put_master_rm_ok) simp_all
next
  case False
  then have "\<exists>k. s' = s\<lparr>rm_allocs := k\<rparr>" using assms(2)
    by (auto simp: qdma_dev_entry_create_def Let_def split: option.splits if_splits
        intro: exI [of _ "rm_allocs s"])
  then show ?thesis using assms(1) by auto
qed

lemma dev_destroy_ok:
  assumes "rm_ok s"
  shows "rm_ok (qdma_dev_entry_destroy al idx fid s)"
proof -
  show ?thesis
  proof (cases rule: lookup_cases [where idx = idx and s = s and fid = fid])
    case (found m d)
    obtain e fl k where r: "qdma_submit_to_free_list al (rm_allocs s) (entry d) (free_list m) = (e, fl, k)"
      by (metis prod_cases3)
    have "qdma_dev_entry_destroy al idx fid s = put_master idx (m\<lparr>free_list := fl,
        dev_list := remove_first (\<lambda>d. func_id d = fid) (dev_list m)\<rparr>) (s\<lparr>rm_allocs := k\<rparr>)"
      using found r get_dev_of [OF found(1), of fid] by (simp add: qdma_dev_entry_destroy_def)
    then show ?thesis
      using put_master_rm_ok [OF assms found(1) release_ok [OF rm_ok_master [OF assms found(1)] found(2) r refl]]
        get_masterD [OF found(1)] by simp
  qed (use assms in \<open>simp_all add: qdma_dev_entry_destroy_def\<close>)
qed

lemma dev_update_ok:
  assumes "rm_ok s" "request_ok qmax qb" and "qdma_dev_update al idx fid qmax qb s = (rv, b, s')"
  shows "rm_ok s'"
proof -
  consider (absent) "s' = s"
    | (found) m d where "qdma_get_master_resource_entry idx s = Some m"
        "find (\<lambda>d. func_id d = fid) (dev_list m) = Some d"
        "active_h2c_qcnt d = 0" "active_c2h_qcnt d = 0" "active_cmpt_qcnt d = 0"
    using assms(3)
    by (auto simp: qdma_dev_update_def qdma_get_dev_entry_def split: option.splits if_splits)
  then show ?thesis
  proof cases
    case found
    obtain rv' e fl k where r: "qdma_request_q_resource al (rm_allocs s) (entry d) qmax qb (free_list m)
        = (rv', e, fl, k)"
      by (metis prod_cases4)
    have "s' = put_master idx (put_dev fid (d\<lparr>entry := e\<rparr>) (m\<lparr>free_list := fl\<rparr>)) (s\<lparr>rm_allocs := k\<rparr>)"
      using assms(3) found r by (simp add: qdma_dev_update_def get_dev_of)
    moreover have "dma_device_index (put_dev fid (d\<lparr>entry := e\<rparr>) (m\<lparr>free_list := fl\<rparr>)) = idx"
      using get_masterD [OF found(1)] by (simp add: put_dev_def)
    ultimately show ?thesis
      using put_master_rm_ok [OF assms(1) found(1)
          resize_ok [OF rm_ok_master [OF assms(1) found(1)] found(2-5) assms(2) r refl]] by simp
  qed (use assms in simp)
qed

lemma get_qcnt_set:
  assumes "get_qcnt q d = Some c"
  shows "func_id (set_qcnt q n d) = func_id d" "entry (set_qcnt q n d) = entry d"
    and "get_qcnt q (set_qcnt q n d) = Some n" "set_qcnt q c (set_qcnt q n d) = d"
    and "counts_ok d \<Longrightarrow> 0 \<le> n \<Longrightarrow> n \<le> total_q (entry d) \<Longrightarrow> counts_ok (set_qcnt q n d)"
  using assms by (cases q; auto simp: counts_ok_def)+

lemma get_qcnt_range:
  "get_qcnt q d = Some c \<Longrightarrow> counts_ok d \<Longrightarrow> 0 \<le> c \<and> c \<le> total_q (entry d)"
  by (cases q) (auto simp: counts_ok_def)

text \<open>What is known about a device of a manager in order.\<close>

lemma found_ok:
  assumes "rm_ok s" "qdma_get_master_resource_entry idx s = Some m"
    and "find (\<lambda>d. func_id d = fid) (dev_list m) = Some d"
  shows "counts_ok d" "entry_fits (m_qbase m) (m_qbase m + m_total_q m) (entry d)"
    and "func_id d = fid" "d \<in> set (dev_list m)"
    and "0 \<le> m_qbase m" "m_qbase m + m_total_q m \<le> 2147483647"
  using rm_ok_master [OF assms(1,2)] find_key_Some [OF assms(3)]
  by (auto simp: master_ok_def isolated_def free_list_ok_def in_int_range_def)

lemma increment_ok:
  assumes "rm_ok s" and "qdma_dev_increment_active_queue idx fid q s = (rv, s')"
  shows "rm_ok s'"
proof (cases rule: lookup_cases [where idx = idx and s = s and fid = fid])
  case (found m d)
  note ok = found_ok [OF assms(1) found]
  show ?thesis
  proof (cases "rv = 0")
    case True
    then obtain c where c: "get_qcnt q d = Some c" "to_u32 (c + 1) \<le> total_q (entry d)"
      and s': "s' = put_master idx (put_dev fid (set_qcnt q (to_u32 (c + 1)) d)
        (m\<lparr>active_qcnt := to_u32 (active_qcnt m + 1)\<rparr>)) s"
      using assms(2) found get_dev_of [OF found(1), of fid]
      by (auto simp: qdma_dev_increment_active_queue_def split: option.splits if_splits)
    note cnt = get_qcnt_set [OF c(1), where n = "to_u32 (c + 1)"]
    have "master_ok (put_dev fid (set_qcnt q (to_u32 (c + 1)) d)
        (m\<lparr>active_qcnt := to_u32 (active_qcnt m + 1)\<rparr>))"
      using rm_ok_master [OF assms(1) found(1)] found(2) cnt ok c(2)
      by (intro recount_ok [OF _ _ _ _ _ refl]) auto
    then show ?thesis unfolding s'
      using put_master_rm_ok' [OF assms(1) found(1)] get_masterD [OF found(1)]
      by (simp add: put_dev_def)
  next
    case False
    then have "s' = s" using assms(2) found get_dev_of [OF found(1), of fid]
      by (auto simp: qdma_dev_increment_active_queue_def split: option.splits if_splits)
    then show ?thesis using assms(1) by simp
  qed
qed (use assms in \<open>auto simp: qdma_dev_increment_active_queue_def\<close>)

lemma decrement_ok:
  assumes "rm_ok s" and "qdma_dev_decrement_active_queue idx fid q s = (rv, s')"
  shows "rm_ok s'"
proof (cases rule: lookup_cases [where idx = idx and s = s and fid = fid])
  case (found m d)
  note ok = found_ok [OF assms(1) found]
  define d' where "d' = (case get_qcnt q d of None \<Rightarrow> d
    | Some c \<Rightarrow> if c \<noteq> 0 then set_qcnt q (to_u32 (c - 1)) d else d)"
  have d': "func_id d' = fid" "entry d' = entry d" "counts_ok d'"
  proof -
    show "func_id d' = fid" "entry d' = entry d"
      using ok by (auto simp: d'_def get_qcnt_set split: option.split)
    show "counts_ok d'"
    proof (cases "get_qcnt q d")
      case (Some c)
      have "0 \<le> c" "c \<le> total_q (entry d)" "total_q (entry d) \<le> 2147483648"
        using get_qcnt_range [OF Some ok(1)] ok(2,6) by (auto simp: entry_fits_def)
      then show ?thesis
        using get_qcnt_set(5) [OF Some ok(1), where n = "c - 1"] ok(1)
        by (simp add: d'_def Some c_conv)
    qed (simp add: d'_def ok(1))
  qed
  have same: "put_dev fid d (m\<lparr>active_qcnt := n\<rparr>) = m\<lparr>active_qcnt := n\<rparr>" for n
    using find_split [OF found(2)] by (auto simp: put_dev_def)
  have s': "s' = put_master idx (put_dev fid d' (m\<lparr>active_qcnt := to_u32 (active_qcnt m - 1)\<rparr>)) s"
    using assms(2) found(1) get_dev_of [OF found(1), of fid] found(2) same
    by (auto simp: qdma_dev_decrement_active_queue_def Let_def d'_def split: option.splits)
  have "master_ok (put_dev fid d' (m\<lparr>active_qcnt := to_u32 (active_qcnt m - 1)\<rparr>))"
    using recount_ok [OF rm_ok_master [OF assms(1) found(1)] found(2) d' refl] .
  then show ?thesis unfolding s'
    using put_master_rm_ok' [OF assms(1) found(1)] get_masterD [OF found(1)]
    by (simp add: put_dev_def)
qed (use assms in \<open>auto simp: qdma_dev_decrement_active_queue_def\<close>)

subsection \<open>Runs of the manager\<close>

datatype rm_op =
  Rm_master_create int int int int
| Rm_master_destroy int
| Rm_dev_create int int
| Rm_dev_destroy int int
| Rm_dev_update int int int int
| Rm_increment int int qdma_dev_q_type
| Rm_decrement int int qdma_dev_q_type

fun rm_exec :: "allocator \<Rightarrow> rm_op \<Rightarrow> rm_state \<Rightarrow> rm_state" where
  "rm_exec al (Rm_master_create bs be q_base tq) s =
     snd (snd (qdma_master_resource_create al bs be q_base tq s))"
| "rm_exec al (Rm_master_destroy idx) s = qdma_master_resource_destroy idx s"
| "rm_exec al (Rm_dev_create idx fid) s = snd (qdma_dev_entry_create al idx fid s)"
| "rm_exec al (Rm_dev_destroy idx fid) s = qdma_dev_entry_destroy al idx fid s"
| "rm_exec al (Rm_dev_update idx fid qmax qb) s = snd (snd (qdma_dev_update al idx fid qmax qb s))"
| "rm_exec al (Rm_increment idx fid q) s = snd (qdma_dev_increment_active_queue idx fid q s)"
| "rm_exec al (Rm_decrement idx fid q) s = snd (qdma_dev_decrement_active_queue idx fid q s)"

text \<open>
  The calls the theorems are about: a resource has queues and fits the C types, and an
  update does not ask for a range whose end wraps around.
\<close>

fun rm_op_ok :: "rm_op \<Rightarrow> rm_state \<Rightarrow> bool" where
  "rm_op_ok (Rm_master_create bs be q_base tq) s \<longleftrightarrow>
     0 \<le> q_base \<and> 0 < tq \<and> q_base + tq \<le> 2147483647 \<and> rm_index s < 2147483647"
| "rm_op_ok (Rm_dev_update idx fid qmax qb) s \<longleftrightarrow> request_ok qmax qb"
| "rm_op_ok _ s \<longleftrightarrow> True"

inductive rm_reach :: "allocator \<Rightarrow> rm_state \<Rightarrow> bool" for al where
  rm_start: "rm_reach al rm_init"
| rm_step: "rm_reach al s \<Longrightarrow> rm_op_ok op s \<Longrightarrow> rm_reach al (rm_exec al op s)"

lemma rm_exec_ok: "rm_ok s \<Longrightarrow> rm_op_ok op s \<Longrightarrow> rm_ok (rm_exec al op s)"
proof (cases op)
  case (Rm_master_create bs be q_base tq)
  assume "rm_ok s" "rm_op_ok op s"
  with Rm_master_create show ?thesis
    using master_create_ok [of s q_base tq al bs be] by (metis rm_exec.simps(1) rm_op_ok.simps(1) prod.collapse)
next
  case (Rm_dev_update idx fid qmax qb)
  assume "rm_ok s" "rm_op_ok op s"
  with Rm_dev_update show ?thesis
    using dev_update_ok [of s qmax qb al idx fid] by (metis rm_exec.simps(5) rm_op_ok.simps(2) prod.collapse)
next
  case (Rm_dev_create idx fid)
  assume "rm_ok s"
  with Rm_dev_create show ?thesis
    using dev_create_ok [of s al idx fid] by (metis rm_exec.simps(3) prod.collapse)
next
  case (Rm_increment idx fid q)
  assume "rm_ok s"
  with Rm_increment show ?thesis
    using increment_ok [of s idx fid q] by (metis rm_exec.simps(6) prod.collapse)
next
  case (Rm_decrement idx fid q)
  assume "rm_ok s"
  with Rm_decrement show ?thesis
    using decrement_ok [of s idx fid q] by (metis rm_exec.simps(7) prod.collapse)
qed (simp_all add: master_destroy_ok dev_destroy_ok)

lemma rm_reach_ok: "rm_reach al s \<Longrightarrow> rm_ok s"
  by (induction rule: rm_reach.induct) (auto simp: rm_ok_init rm_exec_ok)

fun rm_run :: "allocator \<Rightarrow> rm_op list \<Rightarrow> rm_state \<Rightarrow> rm_state" where
  "rm_run al [] s = s"
| "rm_run al (op # ops) s = rm_run al ops (rm_exec al op s)"

fun rm_ops_ok :: "allocator \<Rightarrow> rm_op list \<Rightarrow> rm_state \<Rightarrow> bool" where
  "rm_ops_ok al [] s = True"
| "rm_ops_ok al (op # ops) s = (rm_op_ok op s \<and> rm_ops_ok al ops (rm_exec al op s))"

lemma rm_reach_run: "rm_reach al s \<Longrightarrow> rm_ops_ok al ops s \<Longrightarrow> rm_reach al (rm_run al ops s)"
  by (induction ops arbitrary: s) (auto intro: rm_step)

subsection \<open>With enough memory no queue is lost\<close>

definition complete :: "rm_state \<Rightarrow> bool" where
  "complete s \<longleftrightarrow> (\<forall>m\<in>set (master_resource_list s).
     all_queues m = {m_qbase m ..< m_qbase m + m_total_q m})"

lemma put_master_complete:
  assumes ok: "rm_ok s" "complete s" and m: "qdma_get_master_resource_entry idx s = Some m"
    and m': "all_queues m' = all_queues m" "m_qbase m' = m_qbase m" "m_total_q m' = m_total_q m"
  shows "complete (put_master idx m' (s\<lparr>rm_allocs := k\<rparr>))"
proof -
  have f: "find (\<lambda>m. dma_device_index m = idx) (master_resource_list s) = Some m"
    using m by (simp add: qdma_get_master_resource_entry_def)
  have dist: "distinct (map dma_device_index (master_resource_list s))"
    using ok by (simp add: rm_ok_def)
  show ?thesis using ok(2) m' get_masterD [OF m] update_key_set [OF dist f]
    by (auto simp: complete_def put_master_def)
qed

lemma put_master_complete':
  "rm_ok s \<Longrightarrow> complete s \<Longrightarrow> qdma_get_master_resource_entry idx s = Some m \<Longrightarrow>
     all_queues m' = all_queues m \<Longrightarrow> m_qbase m' = m_qbase m \<Longrightarrow> m_total_q m' = m_total_q m \<Longrightarrow>
     complete (put_master idx m' s)"
  using put_master_complete [of s idx m m' "rm_allocs s"] by simp

lemma all_queues_put_dev:
  assumes "isolated m" "find (\<lambda>d. func_id d = fid) (dev_list m) = Some d" "func_id d' = fid"
    and "cover fl \<union> ivl (entry d') = cover (free_list m) \<union> ivl (entry d)"
  shows "all_queues (put_dev fid d' (m\<lparr>free_list := fl, active_qcnt := n\<rparr>)) = all_queues m"
proof -
  let ?others = "\<Union>x\<in>set (dev_list m) - {d}. ivl (entry x)"
  have mem: "d \<in> set (dev_list m)" using find_key_Some [OF assms(2)] by simp
  have "set (dev_list (put_dev fid d' (m\<lparr>free_list := fl, active_qcnt := n\<rparr>))) =
      insert d' (set (dev_list m) - {d})"
    using put_dev_set(1) [OF assms(1-3)] by (simp add: put_dev_def)
  then have "all_queues (put_dev fid d' (m\<lparr>free_list := fl, active_qcnt := n\<rparr>)) =
      (cover fl \<union> ivl (entry d')) \<union> ?others"
    by (auto simp: all_queues_def put_dev_def)
  also have "\<dots> = (cover (free_list m) \<union> ivl (entry d)) \<union> ?others" unfolding assms(4) ..
  also have "\<dots> = all_queues m" using mem by (auto simp: all_queues_def)
  finally show ?thesis .
qed

lemma entry_ok_found:
  assumes "isolated m" "find (\<lambda>d. func_id d = fid) (dev_list m) = Some d"
  shows "in_int_range (m_qbase m) (m_qbase m + m_total_q m)"
    and "wf_fl (m_qbase m) (m_qbase m + m_total_q m) (free_list m)"
    and "entry_ok (m_qbase m) (m_qbase m + m_total_q m) (entry d) (free_list m)"
  using assms find_key_Some [OF assms(2)]
  by (simp_all add: isolated_def free_list_ok_def entry_ok_iff)

lemma dev_destroy_complete:
  assumes "rm_ok s" "complete s" and al: "\<forall>n. al n"
  shows "complete (qdma_dev_entry_destroy al idx fid s)"
proof (cases rule: lookup_cases [where idx = idx and s = s and fid = fid])
  case (found m d)
  have iso: "isolated m" using rm_ok_master [OF assms(1) found(1)] by (simp add: master_ok_def)
  obtain e fl k where r: "qdma_submit_to_free_list al (rm_allocs s) (entry d) (free_list m) = (e, fl, k)"
    by (metis prod_cases3)
  let ?m = "m\<lparr>free_list := fl, dev_list := remove_first (\<lambda>d. func_id d = fid) (dev_list m)\<rparr>"
  have "cover fl \<union> ivl e = cover (free_list m) \<union> ivl (entry d)" "total_q e = 0"
    using submit_spec(3,4) [OF entry_ok_found [OF iso found(2)] r] al by auto
  then have "cover fl = cover (free_list m) \<union> ivl (entry d)" by simp
  then have "all_queues ?m = all_queues m"
    using remove_key_set [OF isolatedD(1) [OF iso] found(2)] find_key_Some [OF found(2)]
    by (auto simp: all_queues_def)
  moreover have "qdma_dev_entry_destroy al idx fid s = put_master idx ?m (s\<lparr>rm_allocs := k\<rparr>)"
    using found r get_dev_of [OF found(1), of fid] by (simp add: qdma_dev_entry_destroy_def)
  ultimately show ?thesis using put_master_complete [OF assms(1,2) found(1)] by simp
qed (use assms in \<open>simp_all add: qdma_dev_entry_destroy_def\<close>)

lemma dev_update_resized:
  assumes "rm_ok s" "request_ok qmax qb"
    and m: "qdma_get_master_resource_entry idx s = Some m"
    and d: "find (\<lambda>d. func_id d = fid) (dev_list m) = Some d"
    and idle: "active_h2c_qcnt d = 0" "active_c2h_qcnt d = 0" "active_cmpt_qcnt d = 0"
  obtains rv e fl k where
    "qdma_dev_update al idx fid qmax qb s =
       (rv, qbase e, put_master idx (put_dev fid (d\<lparr>entry := e\<rparr>) (m\<lparr>free_list := fl\<rparr>)) (s\<lparr>rm_allocs := k\<rparr>))"
    and "resized (m_qbase m) (m_qbase m + m_total_q m) (\<forall>n. al n) (entry d) (free_list m) qmax rv e fl"
proof -
  have iso: "isolated m" using rm_ok_master [OF assms(1) m] by (simp add: master_ok_def)
  obtain rv e fl k where r: "qdma_request_q_resource al (rm_allocs s) (entry d) qmax qb (free_list m)
      = (rv, e, fl, k)"
    by (metis prod_cases4)
  show ?thesis
    using that [of rv e fl k] request_q_resource_spec [OF entry_ok_found [OF iso d] _ _ r]
      assms(2) r m d idle get_dev_of [OF m, of fid]
    by (simp add: qdma_dev_update_def request_ok_def)
qed

lemma dev_update_complete:
  assumes "rm_ok s" "complete s" "request_ok qmax qb" and al: "\<forall>n. al n"
  shows "complete (snd (snd (qdma_dev_update al idx fid qmax qb s)))"
proof (cases rule: lookup_cases [where idx = idx and s = s and fid = fid])
  case (found m d)
  show ?thesis
  proof (cases "active_h2c_qcnt d = 0 \<and> active_c2h_qcnt d = 0 \<and> active_cmpt_qcnt d = 0")
    case True
    then obtain rv e fl k where u: "qdma_dev_update al idx fid qmax qb s =
       (rv, qbase e, put_master idx (put_dev fid (d\<lparr>entry := e\<rparr>) (m\<lparr>free_list := fl\<rparr>)) (s\<lparr>rm_allocs := k\<rparr>))"
      and r: "resized (m_qbase m) (m_qbase m + m_total_q m) (\<forall>n. al n) (entry d) (free_list m) qmax rv e fl"
      using dev_update_resized [OF assms(1,3) found] by blast
    have iso: "isolated m" using rm_ok_master [OF assms(1) found(1)] by (simp add: master_ok_def)
    have "all_queues (put_dev fid (d\<lparr>entry := e\<rparr>) (m\<lparr>free_list := fl, active_qcnt := active_qcnt m\<rparr>)) = all_queues m"
      using r al find_key_Some [OF found(2)]
      by (intro all_queues_put_dev [OF iso found(2)]) (auto simp: resized_def)
    then show ?thesis
      using put_master_complete [OF assms(1,2) found(1)] by (simp add: u put_dev_def)
  next
    case False
    then show ?thesis using found assms(2) get_dev_of [OF found(1), of fid]
      by (simp add: qdma_dev_update_def)
  qed
qed (use assms in \<open>simp_all add: qdma_dev_update_def\<close>)

lemma recount_complete:
  assumes "rm_ok s" "complete s"
    and m: "qdma_get_master_resource_entry idx s = Some m"
    and d: "find (\<lambda>d. func_id d = fid) (dev_list m) = Some d"
    and d': "func_id d' = func_id d" "entry d' = entry d"
  shows "complete (put_master idx (put_dev fid d' (m\<lparr>active_qcnt := n\<rparr>)) s)"
proof -
  have iso: "isolated m" using rm_ok_master [OF assms(1) m] by (simp add: master_ok_def)
  have "all_queues (put_dev fid d' (m\<lparr>free_list := free_list m, active_qcnt := n\<rparr>)) = all_queues m"
    using d' find_key_Some [OF d] by (intro all_queues_put_dev [OF iso d]) simp_all
  then show ?thesis
    using put_master_complete' [OF assms(1,2) m] by (simp add: put_dev_def)
qed

lemma put_master_same:
  assumes "rm_ok s" "complete s" "qdma_get_master_resource_entry idx s = Some m"
  shows "complete (put_master idx (m\<lparr>active_qcnt := n\<rparr>) s)"
  using put_master_complete' [OF assms] by (simp add: all_queues_def)

lemma increment_complete:
  assumes "rm_ok s" "complete s"
  shows "complete (snd (qdma_dev_increment_active_queue idx fid q s))"
proof (cases rule: lookup_cases [where idx = idx and s = s and fid = fid])
  case (found m d)
  then show ?thesis using assms get_dev_of [OF found(1), of fid]
    by (auto simp: qdma_dev_increment_active_queue_def get_qcnt_set
        intro!: recount_complete split: option.split)
qed (use assms in \<open>auto simp: qdma_dev_increment_active_queue_def\<close>)

lemma decrement_complete:
  assumes "rm_ok s" "complete s"
  shows "complete (snd (qdma_dev_decrement_active_queue idx fid q s))"
proof (cases rule: lookup_cases [where idx = idx and s = s and fid = fid])
  case (found m d)
  then show ?thesis using assms get_dev_of [OF found(1), of fid]
    by (auto simp: qdma_dev_decrement_active_queue_def Let_def get_qcnt_set
        intro!: recount_complete put_master_same split: option.split)
qed (use assms in \<open>auto simp: qdma_dev_decrement_active_queue_def\<close>)

lemma dev_create_complete:
  assumes "rm_ok s" "complete s"
  shows "complete (snd (qdma_dev_entry_create al idx fid s))"
proof (cases rule: lookup_cases [where idx = idx and s = s and fid = fid])
  case (no_dev m)
  let ?m = "m\<lparr>dev_list := dev_list m @
    [\<lparr>func_id = fid, active_h2c_qcnt = 0, active_c2h_qcnt = 0, active_cmpt_qcnt = 0,
      entry = \<lparr>qbase = -1, total_q = 0\<rparr>\<rparr>]\<rparr>"
  have "complete (put_master idx ?m (s\<lparr>rm_allocs := Suc (rm_allocs s)\<rparr>))"
    by (rule put_master_complete [OF assms no_dev(1)]) (simp_all add: all_queues_def)
  moreover have "complete (s\<lparr>rm_allocs := k\<rparr>)" for k
    using assms(2) by (simp add: complete_def)
  ultimately show ?thesis using no_dev by (simp add: qdma_dev_entry_create_def Let_def)
qed (use assms in \<open>auto simp: qdma_dev_entry_create_def get_dev_of\<close>)

lemma master_create_complete:
  "complete s \<Longrightarrow> complete (snd (snd (qdma_master_resource_create al bs be q_base tq s)))"
  by (auto simp: qdma_master_resource_create_def Let_def complete_def all_queues_def ivl_def
      split: option.split)

lemma master_destroy_complete: "complete s \<Longrightarrow> complete (qdma_master_resource_destroy idx s)"
  using remove_first_subset
  by (fastforce simp: qdma_master_resource_destroy_def complete_def split: option.splits)

lemma rm_exec_complete:
  "rm_ok s \<Longrightarrow> complete s \<Longrightarrow> rm_op_ok op s \<Longrightarrow> \<forall>n. al n \<Longrightarrow> complete (rm_exec al op s)"
  by (cases op) (simp_all add: master_create_complete master_destroy_complete dev_create_complete
      dev_destroy_complete dev_update_complete increment_complete decrement_complete)

lemma rm_reach_complete: "rm_reach al s \<Longrightarrow> \<forall>n. al n \<Longrightarrow> complete s"
  by (induction rule: rm_reach.induct)
    (simp add: complete_def rm_init_def, simp add: rm_exec_complete rm_reach_ok)

subsection \<open>A run\<close>

text \<open>
  Two functions on a resource of 64 queues: the first takes 16 queues anywhere, the second
  asks for 32 from number 24 on.
\<close>

definition demo_ops :: "rm_op list" where
  "demo_ops = [Rm_master_create 3 3 0 64, Rm_dev_create 0 8, Rm_dev_create 0 9,
     Rm_dev_update 0 8 16 (-1), Rm_dev_update 0 9 32 24, Rm_increment 0 8 QDMA_DEV_Q_TYPE_C2H]"

definition demo_rm :: rm_state where
  "demo_rm = rm_run (\<lambda>_. True) demo_ops rm_init"

lemma demo_rm_value: "demo_rm =
  \<lparr>master_resource_list =
     [\<lparr>dma_device_index = 0, pci_bus_start = 3, pci_bus_end = 3, m_total_q = 64, m_qbase = 0,
       dev_list =
         [\<lparr>func_id = 8, active_h2c_qcnt = 0, active_c2h_qcnt = 1, active_cmpt_qcnt = 0,
           entry = \<lparr>qbase = 0, total_q = 16\<rparr>\<rparr>,
          \<lparr>func_id = 9, active_h2c_qcnt = 0, active_c2h_qcnt = 0, active_cmpt_qcnt = 0,
           entry = \<lparr>qbase = 24, total_q = 32\<rparr>\<rparr>],
       free_list = [\<lparr>qbase = 16, total_q = 8\<rparr>, \<lparr>qbase = 56, total_q = 8\<rparr>], active_qcnt = 1\<rparr>],
   rm_index = 1, rm_allocs = 7\<rparr>"
  by code_simp

lemma demo_rm_reach: "rm_reach (\<lambda>_. True) demo_rm"
  unfolding demo_rm_def by (rule rm_reach_run [OF rm_start]) code_simp

subsection \<open>Properties\<close>

text \<open>
  C1: Queue isolation. In every state the resource manager reaches by creating and
  destroying resources and devices, re-sizing devices and counting queues, in any order and
  whether or not memory runs out on the way, no queue number belongs to two functions of the
  same resource, none that belongs to a function is on the free list, and every range lies
  inside the resource. Two demands on the arguments, which the code does not check: a
  resource is created with a non-negative base and at least one queue, ending at or below
  2^31 - 1 (at most 2^31 - 1 of them are created), and a re-sizing asks for a non-negative
  number of queues whose end, counted from an explicit base, does not wrap past 2^32. The
  last demand is needed: \<^verbatim>\<open>update_wraps_around\<close> breaks it.
\<close>

theorem queue_isolation:
  assumes "rm_reach al s" "m \<in> set (master_resource_list s)"
  shows "(\<forall>d\<in>set (dev_list m). ivl (entry d) \<inter> cover (free_list m) = {} \<and>
             ivl (entry d) \<subseteq> {m_qbase m ..< m_qbase m + m_total_q m}) \<and>
         (\<forall>d\<in>set (dev_list m). \<forall>d'\<in>set (dev_list m).
             d \<noteq> d' \<longrightarrow> func_id d \<noteq> func_id d' \<and> ivl (entry d) \<inter> ivl (entry d') = {})"
proof -
  have iso: "isolated m" using rm_reach_ok [OF assms(1)] assms(2)
    by (simp add: rm_ok_def master_ok_def)
  have ids: "d \<noteq> d' \<Longrightarrow> func_id d \<noteq> func_id d'"
    if "d \<in> set (dev_list m)" "d' \<in> set (dev_list m)" for d d'
    using that isolatedD(1) [OF iso] by (auto simp: distinct_map inj_on_def)
  have "ivl (entry d) \<subseteq> {m_qbase m ..< m_qbase m + m_total_q m}" if "d \<in> set (dev_list m)" for d
    using that iso by (cases "total_q (entry d) = 0") (auto simp: isolated_def entry_fits_def ivl_def)
  then show ?thesis using iso ids by (simp add: isolated_def)
qed

theorem queue_isolation_witness:
  "(let m = hd (master_resource_list demo_rm); d = hd (dev_list m); d' = last (dev_list m) in
    func_id d = 8 \<and> func_id d' = 9 \<and> ivl (entry d) = {0..<16} \<and> ivl (entry d') = {24..<56} \<and>
    ivl (entry d) \<inter> cover (free_list m) = {} \<and> ivl (entry d) \<inter> ivl (entry d') = {})"
  using queue_isolation [OF demo_rm_reach, of "hd (master_resource_list demo_rm)"]
  by (simp add: demo_rm_value Let_def ivl_def)

text \<open>
  C15: No queue is lost. When every allocation succeeds, the free queues of a resource and
  the queues its devices hold make up exactly the resource's range in every state reached by
  creations, destructions and re-sizings, refused ones included, under the same two demands
  on the arguments: a resource ends at or below 2^31 - 1, and a re-sizing asks for a
  non-negative number of queues whose end does not wrap past 2^32.
\<close>

theorem no_queue_lost:
  assumes "rm_reach (\<lambda>_. True) s" "m \<in> set (master_resource_list s)"
  shows "cover (free_list m) \<union> (\<Union>d\<in>set (dev_list m). ivl (entry d)) =
         {m_qbase m ..< m_qbase m + m_total_q m}"
  using rm_reach_complete [OF assms(1)] assms(2) by (simp add: complete_def all_queues_def)

theorem no_queue_lost_witness:
  "(let m = hd (master_resource_list demo_rm) in
    cover (free_list m) \<union> (\<Union>d\<in>set (dev_list m). ivl (entry d)) = {0..<64})"
  using no_queue_lost [OF demo_rm_reach, of "hd (master_resource_list demo_rm)"]
  by (simp add: demo_rm_value)

lemma in_range_iff:
  assumes "rm_ok s" "0 \<le> q" "q < 4294967296"
  shows "qdma_dev_is_queue_in_range idx fid q s = QDMA_DEV_Q_IN_RANGE \<longleftrightarrow>
    (\<exists>m d. qdma_get_master_resource_entry idx s = Some m \<and>
           find (\<lambda>d. func_id d = fid) (dev_list m) = Some d \<and> q \<in> ivl (entry d))"
proof (cases rule: lookup_cases [where idx = idx and s = s and fid = fid])
  case (found m d)
  have "total_q (entry d) \<noteq> 0 \<and> q < to_u32 (qbase (entry d) + total_q (entry d)) \<and>
      to_s32 q \<ge> qbase (entry d) \<longleftrightarrow> q \<in> ivl (entry d)"
  proof (cases "total_q (entry d) = 0")
    case False
    then have "0 \<le> qbase (entry d)" "0 < total_q (entry d)" "qbase (entry d) + total_q (entry d) \<le> 2147483647"
      using found_ok [OF assms(1) found] by (auto simp: entry_fits_def)
    then show ?thesis using assms(2,3) by (auto simp: ivl_def c_conv)
  qed simp
  then show ?thesis using found get_dev_of [OF found(1), of fid]
    by (simp add: qdma_dev_is_queue_in_range_def Let_def)
qed (auto simp: qdma_dev_is_queue_in_range_def get_dev_of)

lemma in_range_exclusive:
  assumes ok: "rm_ok s" and q: "0 \<le> q" "q < 4294967296"
    and "qdma_dev_is_queue_in_range idx fid q s = QDMA_DEV_Q_IN_RANGE"
      "qdma_dev_is_queue_in_range idx fid' q s = QDMA_DEV_Q_IN_RANGE"
  shows "fid = fid'"
proof -
  obtain m d d' where m: "qdma_get_master_resource_entry idx s = Some m"
    and d: "find (\<lambda>d. func_id d = fid) (dev_list m) = Some d" "q \<in> ivl (entry d)"
    and d': "find (\<lambda>d. func_id d = fid') (dev_list m) = Some d'" "q \<in> ivl (entry d')"
    using assms(4,5) unfolding in_range_iff [OF ok q] by auto
  have iso: "isolated m" using rm_ok_master [OF ok m] by (simp add: master_ok_def)
  have mem: "d \<in> set (dev_list m)" "func_id d = fid" "d' \<in> set (dev_list m)" "func_id d' = fid'"
    using find_key_Some [OF d(1)] find_key_Some [OF d'(1)] by auto
  with iso have "fid \<noteq> fid' \<longrightarrow> ivl (entry d) \<inter> ivl (entry d') = {}"
    unfolding isolated_def by blast
  then show "fid = fid'" using d(2) d'(2) by blast
qed

text \<open>
  The range test is exact and exclusive. In every reachable state a hardware queue
  number is in range for a function exactly when it belongs to the range
  \<^verbatim>\<open>qdma_dev_qinfo_get\<close> reports for it, the C conversions between \<^verbatim>\<open>int\<close> and
  \<^verbatim>\<open>uint32_t\<close> in the test notwithstanding, and no queue number is in range for two
  functions of one device.
\<close>

theorem queue_in_range_exact:
  assumes "rm_reach al s" "0 \<le> q" "q < 4294967296"
  shows "(qdma_dev_is_queue_in_range idx fid q s = QDMA_DEV_Q_IN_RANGE \<longleftrightarrow>
            (\<exists>b n. qdma_dev_qinfo_get idx fid 0 0 s = (0, b, n) \<and> b \<le> q \<and> q < b + n)) \<and>
         (\<forall>fid'. qdma_dev_is_queue_in_range idx fid q s = QDMA_DEV_Q_IN_RANGE \<and>
                 qdma_dev_is_queue_in_range idx fid' q s = QDMA_DEV_Q_IN_RANGE \<longrightarrow> fid = fid')"
proof
  have ok: "rm_ok s" by (rule rm_reach_ok [OF assms(1)])
  note iff = in_range_iff [OF ok assms(2,3)]
  show "qdma_dev_is_queue_in_range idx fid q s = QDMA_DEV_Q_IN_RANGE \<longleftrightarrow>
      (\<exists>b n. qdma_dev_qinfo_get idx fid 0 0 s = (0, b, n) \<and> b \<le> q \<and> q < b + n)"
    by (cases rule: lookup_cases [where idx = idx and s = s and fid = fid])
      (auto simp: iff qdma_dev_qinfo_get_def get_dev_of ivl_def)
  show "\<forall>fid'. qdma_dev_is_queue_in_range idx fid q s = QDMA_DEV_Q_IN_RANGE \<and>
      qdma_dev_is_queue_in_range idx fid' q s = QDMA_DEV_Q_IN_RANGE \<longrightarrow> fid = fid'"
    using in_range_exclusive [OF ok assms(2,3)] by blast
qed

theorem queue_in_range_exact_witness:
  "(\<exists>b n. qdma_dev_qinfo_get 0 9 0 0 demo_rm = (0, b, n) \<and> b \<le> 30 \<and> 30 < b + n) \<and>
   qdma_dev_is_queue_in_range 0 8 30 demo_rm \<noteq> QDMA_DEV_Q_IN_RANGE"
proof -
  have q: "(0::int) \<le> 30" "(30::int) < 4294967296" by simp_all
  have "qdma_dev_is_queue_in_range 0 9 30 demo_rm = QDMA_DEV_Q_IN_RANGE"
    unfolding demo_rm_value by code_simp
  with queue_in_range_exact [OF demo_rm_reach q, of 0 9]
  have "\<exists>b n. qdma_dev_qinfo_get 0 9 0 0 demo_rm = (0, b, n) \<and> b \<le> 30 \<and> 30 < b + n"
    and "qdma_dev_is_queue_in_range 0 8 30 demo_rm = QDMA_DEV_Q_IN_RANGE \<longrightarrow> (9::int) = 8"
    by blast+
  then show ?thesis by simp
qed

lemma put_dev_others:
  "fid' \<noteq> func_id d' \<Longrightarrow> find (\<lambda>d. func_id d = fid) xs = Some d \<Longrightarrow> func_id d' = fid \<Longrightarrow>
   find (\<lambda>d. func_id d = fid') (update_first (\<lambda>d. func_id d = fid) (\<lambda>_. d') xs) =
   find (\<lambda>d. func_id d = fid') xs"
  by (induction xs) (auto split: if_splits)

lemma put_dev_found:
  "find (\<lambda>d. func_id d = fid) xs = Some d \<Longrightarrow> func_id d' = fid \<Longrightarrow>
   find (\<lambda>d. func_id d = fid) (update_first (\<lambda>d. func_id d = fid) (\<lambda>_. d') xs) = Some d'"
  by (induction xs) (auto split: if_splits)

lemma get_put_master:
  "qdma_get_master_resource_entry idx s = Some m \<Longrightarrow> dma_device_index m' = idx \<Longrightarrow>
   qdma_get_master_resource_entry idx (put_master idx m' (s\<lparr>rm_allocs := k\<rparr>)) = Some m'"
  using find_split [of "\<lambda>m. dma_device_index m = idx" "master_resource_list s" m]
  by (auto simp: qdma_get_master_resource_entry_def put_master_def)

lemma get_put_dev:
  assumes "qdma_get_master_resource_entry idx s = Some m"
    and "find (\<lambda>d. func_id d = fid) (dev_list m) = Some d" "func_id d' = fid"
    and "s' = put_master idx (put_dev fid d' (m\<lparr>free_list := fl\<rparr>)) (s\<lparr>rm_allocs := k\<rparr>)"
  shows "qdma_get_dev_entry idx fid' s' = (if fid' = fid then Some d' else qdma_get_dev_entry idx fid' s)"
proof -
  have "qdma_get_master_resource_entry idx s' = Some (put_dev fid d' (m\<lparr>free_list := fl\<rparr>))"
    unfolding assms(4) using assms(1) get_masterD [OF assms(1)]
    by (intro get_put_master) (auto simp: put_dev_def)
  then show ?thesis
    using assms put_dev_others [of fid' d' fid "dev_list m" d] put_dev_found [OF assms(2,3)]
    by (simp add: get_dev_of put_dev_def)
qed

text \<open>
  C23: Re-sizing is all or nothing. In a state the resource manager reaches with every
  allocation succeeding and no earlier re-sizing that wrapped, let \<^verbatim>\<open>qdma_dev_update\<close> ask, with
  allocations succeeding, for a non-negative number of queues whose end, counted from an
  explicit base, does not wrap past 2^32, for a function with no active queue. Then it either
  returns 0 with the function holding exactly the number of queues asked for, or returns
  \<^verbatim>\<open>-QDMA_ERR_RM_NO_QUEUES_LEFT\<close> with the function's queues and the free queues as before;
  \<^verbatim>\<open>*qbase\<close> is the function's new base, and the entry of every other function is unchanged.
\<close>

theorem dev_update_all_or_nothing:
  assumes "rm_reach (\<lambda>_. True) s" "request_ok qmax qb"
    and "qdma_get_master_resource_entry idx s = Some m"
    and "qdma_get_dev_entry idx fid s = Some d"
    and "active_h2c_qcnt d = 0" "active_c2h_qcnt d = 0" "active_cmpt_qcnt d = 0"
  shows "\<exists>rv b s' m' d'. qdma_dev_update (\<lambda>_. True) idx fid qmax qb s = (rv, b, s') \<and>
     qdma_get_master_resource_entry idx s' = Some m' \<and>
     qdma_get_dev_entry idx fid s' = Some d' \<and> b = qbase (entry d') \<and>
     (rv = 0 \<and> total_q (entry d') = qmax \<or>
      rv = neg_err QDMA_ERR_RM_NO_QUEUES_LEFT \<and> ivl (entry d') = ivl (entry d) \<and>
        total_q (entry d') = total_q (entry d) \<and> cover (free_list m') = cover (free_list m)) \<and>
     (\<forall>fid'. fid' \<noteq> fid \<longrightarrow> qdma_get_dev_entry idx fid' s' = qdma_get_dev_entry idx fid' s)"
proof -
  have ok: "rm_ok s" using rm_reach_ok [OF assms(1)] .
  have d: "find (\<lambda>d. func_id d = fid) (dev_list m) = Some d"
    using assms(4) get_dev_of [OF assms(3)] by simp
  obtain rv e fl k where u: "qdma_dev_update (\<lambda>_. True) idx fid qmax qb s =
       (rv, qbase e, put_master idx (put_dev fid (d\<lparr>entry := e\<rparr>) (m\<lparr>free_list := fl\<rparr>)) (s\<lparr>rm_allocs := k\<rparr>))"
    and r: "resized (m_qbase m) (m_qbase m + m_total_q m) (\<forall>n::nat. True) (entry d) (free_list m) qmax rv e fl"
    using dev_update_resized [OF ok assms(2,3) d assms(5-7), of "\<lambda>_. True"] by blast
  let ?m = "put_dev fid (d\<lparr>entry := e\<rparr>) (m\<lparr>free_list := fl\<rparr>)"
  let ?s = "put_master idx ?m (s\<lparr>rm_allocs := k\<rparr>)"
  have fid: "func_id (d\<lparr>entry := e\<rparr>) = fid" using find_key_Some [OF d] by simp
  have m': "qdma_get_master_resource_entry idx ?s = Some ?m"
    using assms(3) get_masterD [OF assms(3)] by (intro get_put_master) (auto simp: put_dev_def)
  have q: "0 \<le> qmax" using assms(2) by (simp add: request_ok_def)
  note devs = get_put_dev [OF assms(3) d fid refl, where k = k and fl = fl]
  have "rv = 0 \<and> total_q e = qmax \<or> rv = neg_err QDMA_ERR_RM_NO_QUEUES_LEFT \<and>
      ivl e = ivl (entry d) \<and> total_q e = total_q (entry d) \<and> cover fl = cover (free_list m)"
    using r q unfolding resized_def by (cases "rv = 0"; cases "0 < qmax") auto
  then have out: "rv = 0 \<and> total_q (entry (d\<lparr>entry := e\<rparr>)) = qmax \<or>
      rv = neg_err QDMA_ERR_RM_NO_QUEUES_LEFT \<and> ivl (entry (d\<lparr>entry := e\<rparr>)) = ivl (entry d) \<and>
      total_q (entry (d\<lparr>entry := e\<rparr>)) = total_q (entry d) \<and>
      cover (free_list ?m) = cover (free_list m)"
    by (simp add: put_dev_def)
  have others: "\<forall>fid'. fid' \<noteq> fid \<longrightarrow> qdma_get_dev_entry idx fid' ?s = qdma_get_dev_entry idx fid' s"
    by (simp add: devs)
  have mine: "qdma_get_dev_entry idx fid ?s = Some (d\<lparr>entry := e\<rparr>)" "qbase e = qbase (entry (d\<lparr>entry := e\<rparr>))"
    by (simp_all add: devs)
  show ?thesis using u m' mine out others by blast
qed

theorem dev_update_all_or_nothing_witness:
  "\<exists>b s' m' d'. qdma_dev_update (\<lambda>_. True) 0 9 20 (-1) demo_rm = (0, b, s') \<and>
     qdma_get_master_resource_entry 0 s' = Some m' \<and>
     qdma_get_dev_entry 0 9 s' = Some d' \<and> b = qbase (entry d') \<and> total_q (entry d') = 20 \<and>
     (\<forall>fid'. fid' \<noteq> 9 \<longrightarrow> qdma_get_dev_entry 0 fid' s' = qdma_get_dev_entry 0 fid' demo_rm)"
proof -
  let ?d = "\<lparr>func_id = 9, active_h2c_qcnt = 0, active_c2h_qcnt = 0, active_cmpt_qcnt = 0,
           entry = \<lparr>qbase = 24, total_q = 32\<rparr>\<rparr>"
  have m: "qdma_get_master_resource_entry 0 demo_rm = Some (hd (master_resource_list demo_rm))"
    by (simp add: demo_rm_value qdma_get_master_resource_entry_def)
  have d: "qdma_get_dev_entry 0 9 demo_rm = Some ?d"
    by (simp add: demo_rm_value qdma_get_master_resource_entry_def qdma_get_dev_entry_def)
  have r: "request_ok 20 (-1)" by (simp add: request_ok_def)
  have z: "fst (qdma_dev_update (\<lambda>_. True) 0 9 20 (-1) demo_rm) = 0" unfolding demo_rm_value by code_simp
  from dev_update_all_or_nothing [OF demo_rm_reach r m d] z show ?thesis
    by (auto simp: neg_err_def)
qed

text \<open>
  The active-queue counters of a function never exceed the number of queues it holds.
  In every reachable state \<^verbatim>\<open>qdma_get_device_active_queue_count\<close> lies between 0 and the size
  \<^verbatim>\<open>qdma_dev_qinfo_get\<close> reports, for each of the three queue types.
\<close>

theorem active_count_bounded:
  assumes "rm_reach al s" "qdma_dev_qinfo_get idx fid 0 0 s = (0, b, n)"
  shows "0 \<le> qdma_get_device_active_queue_count idx fid q s \<and>
         qdma_get_device_active_queue_count idx fid q s \<le> n"
proof (cases rule: lookup_cases [where idx = idx and s = s and fid = fid])
  case (found m d)
  have ok: "rm_ok s" using rm_reach_ok [OF assms(1)] .
  note dev = found_ok [OF ok found]
  have n: "n = total_q (entry d)"
    using assms(2) found get_dev_of [OF found(1), of fid] by (simp add: qdma_dev_qinfo_get_def)
  have n0: "0 \<le> n" using dev(2) by (simp add: n entry_fits_def)
  moreover have "n \<le> 2147483647"
    using n0 dev(2,5,6) by (cases "n = 0") (auto simp: n entry_fits_def)
  moreover have "to_s32 c = c" if "0 \<le> c" "c \<le> n" for c
    using that \<open>n \<le> 2147483647\<close> by (intro to_s32_id) auto
  ultimately show ?thesis
    using found get_dev_of [OF found(1), of fid] get_qcnt_range [OF _ dev(1), of q]
    by (cases "get_qcnt q d") (auto simp: qdma_get_device_active_queue_count_def n to_s32_id)
qed (use assms(2) in \<open>auto simp: qdma_dev_qinfo_get_def\<close>)

theorem active_count_bounded_witness:
  "qdma_get_device_active_queue_count 0 8 QDMA_DEV_Q_TYPE_C2H demo_rm \<le> 16 \<and>
   qdma_get_device_active_queue_count 0 8 QDMA_DEV_Q_TYPE_C2H demo_rm = 1"
proof
  have "qdma_dev_qinfo_get 0 8 0 0 demo_rm = (0, 0, 16)" unfolding demo_rm_value by code_simp
  from active_count_bounded [OF demo_rm_reach this, of QDMA_DEV_Q_TYPE_C2H]
  show "qdma_get_device_active_queue_count 0 8 QDMA_DEV_Q_TYPE_C2H demo_rm \<le> 16" by simp
  show "qdma_get_device_active_queue_count 0 8 QDMA_DEV_Q_TYPE_C2H demo_rm = 1"
    unfolding demo_rm_value by code_simp
qed

definition wrap_ops :: "rm_op list" where
  "wrap_ops = [Rm_master_create 3 3 0 256, Rm_dev_create 0 8, Rm_dev_create 0 9,
     Rm_dev_update 0 8 100 0]"

text \<open>
  The demand on re-sizings is needed. The request
  of function 9 for \<^verbatim>\<open>0xFFFFFFF0\<close> queues from 100 on ends, in \<^verbatim>\<open>uint32_t\<close> arithmetic, at 84,
  so the free node from 100 to 255 seems to hold it: \<^verbatim>\<open>qdma_dev_update\<close> returns 0, and
  afterwards queue 90 is on the free list although it belongs to function 8.
\<close>

theorem update_wraps_around:
  "let s = rm_run (\<lambda>_. True) wrap_ops rm_init;
       (rv, b, s') = qdma_dev_update (\<lambda>_. True) 0 9 4294967280 100 s
   in rv = 0 \<and> qdma_dev_is_queue_in_range 0 8 90 s' = QDMA_DEV_Q_IN_RANGE \<and>
      list_ex (\<lambda>m. list_ex (\<lambda>e. qbase e \<le> 90 \<and> 90 < qbase e + total_q e) (free_list m))
        (master_resource_list s')"
  by code_simp

text \<open>
  The count of active queues of a resource can underflow. \<^verbatim>\<open>qdma_dev_decrement_active_queue\<close>
  leaves a device counter that is already 0 alone but decrements the resource's counter all
  the same and reports success, after which \<^verbatim>\<open>qdma_get_active_queue_count\<close> returns
  \<^verbatim>\<open>0xFFFFFFFF\<close>.
\<close>

theorem decrement_underflows:
  "let s = rm_run (\<lambda>_. True) [Rm_master_create 3 3 0 64, Rm_dev_create 0 8] rm_init;
       (rv, s') = qdma_dev_decrement_active_queue 0 8 QDMA_DEV_Q_TYPE_H2C s
   in qdma_get_active_queue_count 0 s = 0 \<and> rv = 0 \<and> qdma_get_active_queue_count 0 s' = 4294967295"
  by code_simp

text \<open>
  Without memory queues are lost. When the allocation in \<^verbatim>\<open>qdma_submit_to_free_list\<close> fails
  while a device is destroyed, the device's queues are neither free nor owned afterwards.
\<close>

theorem destroy_without_memory_loses_queues:
  "let s = rm_run (\<lambda>k. k < 4) [Rm_master_create 3 3 0 64, Rm_dev_create 0 8,
         Rm_dev_update 0 8 16 0, Rm_dev_destroy 0 8] rm_init
   in map (\<lambda>m. (dev_list m, free_list m)) (master_resource_list s) =
      [([], [\<lparr>qbase = 16, total_q = 48\<rparr>])]"
  by code_simp

end
