(* ===== verification/Bit_Fields.thy ===== *)
theory Bit_Fields
  imports Prelude
begin

unbundle bit_operations_syntax

text \<open>
  The bit-field macros of the register code (\<^verbatim>\<open>qdma_access_common.h\<close>,
  \<^verbatim>\<open>qdma_soft_reg.h\<close>): masks, the shift computed from a mask by
  \<^verbatim>\<open>get_trailing_zeros\<close>, and setting and getting a field. The lemmas reduce every packing
  and unpacking of a register to the bounds of the fields, so that the proofs about
  contexts never look at single bits.
\<close>

subsection \<open>Definitions\<close>

text \<open>The portable \<^verbatim>\<open>get_trailing_zeros\<close>: five halvings, then the last bit.\<close>

definition gtz_step :: "nat \<Rightarrow> u64 \<times> nat \<Rightarrow> u64 \<times> nat" where
  "gtz_step n vp = (case vp of (value, pos) \<Rightarrow>
     if value AND mask n = 0 then (drop_bit n value, pos + n) else (value, pos))"

definition get_trailing_zeros :: "u64 \<Rightarrow> nat" where
  "get_trailing_zeros value =
     (let (v, pos) = gtz_step 2 (gtz_step 4 (gtz_step 8 (gtz_step 16 (gtz_step 32 (value, 0))))) in
      if v AND 1 = 0 then pos + 1 else pos)"

definition BIT :: "nat \<Rightarrow> u32" where
  "BIT n = push_bit n 1"

definition GENMASK :: "nat \<Rightarrow> nat \<Rightarrow> u32" where
  "GENMASK h l = push_bit l 0xFFFFFFFF AND drop_bit (32 - 1 - h) 0xFFFFFFFF"

definition GENMASK_ULL :: "nat \<Rightarrow> nat \<Rightarrow> u64" where
  "GENMASK_ULL h l = push_bit l 0xFFFFFFFFFFFFFFFF AND drop_bit (64 - 1 - h) 0xFFFFFFFFFFFFFFFF"

definition FIELD_SHIFT :: "'a::len word \<Rightarrow> nat" where
  "FIELD_SHIFT m = get_trailing_zeros (ucast m)"

definition FIELD_SET :: "'a::len word \<Rightarrow> 'a word \<Rightarrow> 'a word" where
  "FIELD_SET m val = push_bit (FIELD_SHIFT m) val AND m"

definition FIELD_GET :: "'a::len word \<Rightarrow> 'a word \<Rightarrow> 'a word" where
  "FIELD_GET m reg = drop_bit (FIELD_SHIFT m) (reg AND m)"

subsection \<open>Counting trailing zeros\<close>

text \<open>
  One halving: the value so far is the original one shifted down by \<open>pos\<close>, all bits shifted
  out are zero, and the lowest set bit lies below \<open>k\<close>.
\<close>

definition gtz_inv :: "u64 \<Rightarrow> nat \<Rightarrow> u64 \<times> nat \<Rightarrow> bool" where
  "gtz_inv x k vp \<longleftrightarrow> (case vp of (v, pos) \<Rightarrow>
     (\<forall>i<64. bit v i \<longleftrightarrow> bit x (i + pos)) \<and> (\<forall>i<pos. \<not> bit x i) \<and> (\<exists>i<k. bit v i))"

lemma and_mask_zero: "(v :: u64) AND mask n = 0 \<longleftrightarrow> (\<forall>i<n. \<not> bit v i)"
proof
  assume z: "v AND mask n = 0"
  show "\<forall>i<n. \<not> bit v i"
  proof (intro allI impI notI)
    fix i assume "i < n" "bit v i"
    then have "bit (v AND mask n) i"
      using bit_imp_le_length [of v i] by (simp add: bit_simps)
    with z show False by simp
  qed
qed (auto intro!: bit_word_eqI simp: bit_simps)

lemma gtz_step_inv:
  assumes "gtz_inv x (2 * n) vp" "2 * n \<le> 64"
  shows "gtz_inv x n (gtz_step n vp)"
proof -
  obtain v pos where vp: "vp = (v, pos)" by (cases vp)
  have v: "\<And>i. i < 64 \<Longrightarrow> bit v i \<longleftrightarrow> bit x (i + pos)" "\<And>i. i < pos \<Longrightarrow> \<not> bit x i"
    using assms(1) by (auto simp: gtz_inv_def vp)
  obtain j where j: "j < 2 * n" "bit v j" using assms(1) by (auto simp: gtz_inv_def vp)
  show ?thesis
  proof (cases "v AND mask n = 0")
    case True
    then have z: "\<And>i. i < n \<Longrightarrow> \<not> bit v i" by (simp add: and_mask_zero)
    have "\<not> bit x i" if "i < pos + n" for i
      using that v(2) [of i] v(1) [of "i - pos"] z [of "i - pos"] assms(2)
      by (cases "i < pos") auto
    moreover have "bit (drop_bit n v) i \<longleftrightarrow> bit x (i + (pos + n))" if "i < 64" for i
      using that v(1) [of "n + i"] bit_imp_le_length [of v "n + i"] bit_imp_le_length [of x "i + (pos + n)"]
      by (auto simp: bit_drop_bit_eq ac_simps)
    moreover have "j - n < n" "bit (drop_bit n v) (j - n)"
      using j z [of j] by (cases "j < n"; simp add: bit_drop_bit_eq)+
    ultimately show ?thesis using True by (auto simp: gtz_inv_def gtz_step_def vp)
  next
    case False
    then show ?thesis using v by (auto simp: gtz_inv_def gtz_step_def vp and_mask_zero)
  qed
qed

lemma get_trailing_zeros_lowest:
  assumes "x \<noteq> 0"
  shows "bit x (get_trailing_zeros x) \<and> (\<forall>i<get_trailing_zeros x. \<not> bit x i)"
proof -
  have "\<exists>i<64. bit x i"
    using assms bit_imp_le_length by (fastforce simp: bit_eq_iff)
  then have "gtz_inv x (2 * 32) (x, 0)" by (simp add: gtz_inv_def)
  then have "gtz_inv x (2 * 16) (gtz_step 32 (x, 0))" using gtz_step_inv by fastforce
  then have "gtz_inv x (2 * 8) (gtz_step 16 (gtz_step 32 (x, 0)))" using gtz_step_inv by fastforce
  then have "gtz_inv x (2 * 4) (gtz_step 8 (gtz_step 16 (gtz_step 32 (x, 0))))"
    using gtz_step_inv by fastforce
  then have "gtz_inv x (2 * 2) (gtz_step 4 (gtz_step 8 (gtz_step 16 (gtz_step 32 (x, 0)))))"
    using gtz_step_inv by fastforce
  then have inv: "gtz_inv x 2 (gtz_step 2 (gtz_step 4 (gtz_step 8 (gtz_step 16 (gtz_step 32 (x, 0))))))"
    using gtz_step_inv by fastforce
  obtain v pos where vp: "gtz_step 2 (gtz_step 4 (gtz_step 8 (gtz_step 16 (gtz_step 32 (x, 0))))) = (v, pos)"
    by (metis prod.exhaust)
  have v: "\<And>i. i < 64 \<Longrightarrow> bit v i \<longleftrightarrow> bit x (i + pos)" "\<And>i. i < pos \<Longrightarrow> \<not> bit x i"
    and low: "\<exists>i<2. bit v i" using inv by (auto simp: gtz_inv_def vp)
  have b0: "v AND 1 = 0 \<longleftrightarrow> \<not> bit x pos"
    using v(1) [of 0] by (auto simp: and_one_eq even_iff_mod_2_eq_zero [symmetric] bit_0)
  show ?thesis
  proof (cases "bit x pos")
    case True
    then show ?thesis using v(2) b0 by (simp add: get_trailing_zeros_def vp)
  next
    case False
    obtain i where "i < 2" "bit v i" using low by blast
    with False v(1) [of i] have "bit x (Suc pos)" by (cases i) (auto simp: less_Suc_eq)
    moreover have "get_trailing_zeros x = Suc pos"
      using b0 False by (simp add: get_trailing_zeros_def vp)
    ultimately show ?thesis using v(2) False by (auto simp: less_Suc_eq)
  qed
qed

lemma get_trailing_zeros_eqI:
  assumes "bit x n" "\<And>i. i < n \<Longrightarrow> \<not> bit x i"
  shows "get_trailing_zeros x = n"
proof -
  have "x \<noteq> 0" using assms(1) by auto
  from get_trailing_zeros_lowest [OF this] assms show ?thesis
    by (metis linorder_neqE_nat)
qed


subsection \<open>Fields as bit ranges\<close>

text \<open>\<open>range_mask m l w\<close>: the mask has exactly the \<open>w\<close> bits from \<open>l\<close> on.\<close>

definition range_mask :: "'a::len word \<Rightarrow> nat \<Rightarrow> nat \<Rightarrow> bool" where
  "range_mask m l w \<longleftrightarrow> 0 < w \<and> l + w \<le> LENGTH('a) \<and> LENGTH('a) \<le> 64 \<and>
     (\<forall>i. bit m i \<longleftrightarrow> l \<le> i \<and> i < l + w)"

lemma all_ones: "(0xFFFFFFFF :: u32) = - 1" "(0xFFFFFFFFFFFFFFFF :: u64) = - 1"
  by simp_all

lemma GENMASK_range:
  assumes "l \<le> h" "h < 32"
  shows "range_mask (GENMASK h l) l (h + 1 - l)"
proof -
  have "bit (GENMASK h l) i \<longleftrightarrow> l \<le> i \<and> i < l + (h + 1 - l)" for i
    using assms
    unfolding GENMASK_def all_ones
    by (simp only: bit_and_iff bit_push_bit_iff bit_drop_bit_eq bit_minus_1_iff possible_bit_word o_def
        len_num1 len_bit0) arith
  then show ?thesis using assms by (simp add: range_mask_def)
qed

lemma GENMASK_ULL_range:
  assumes "l \<le> h" "h < 64"
  shows "range_mask (GENMASK_ULL h l) l (h + 1 - l)"
proof -
  have "bit (GENMASK_ULL h l) i \<longleftrightarrow> l \<le> i \<and> i < l + (h + 1 - l)" for i
    using assms
    unfolding GENMASK_ULL_def all_ones
    by (simp only: bit_and_iff bit_push_bit_iff bit_drop_bit_eq bit_minus_1_iff possible_bit_word o_def
        len_num1 len_bit0) arith
  then show ?thesis using assms by (simp add: range_mask_def)
qed

lemma range_mask_bit: "range_mask m l w \<Longrightarrow> bit m i \<longleftrightarrow> l \<le> i \<and> i < l + w"
  and range_mask_len: "range_mask m l w \<Longrightarrow> l + w \<le> LENGTH('a)" "range_mask m l w \<Longrightarrow> 0 < w"
    "range_mask m l w \<Longrightarrow> LENGTH('a) \<le> 64"
  for m :: "'a::len word"
  by (simp_all add: range_mask_def)

lemma BIT_GENMASK:
  assumes "n < 32"
  shows "BIT n = GENMASK n n"
proof (rule bit_word_eqI)
  fix i assume "i < LENGTH(32)"
  then have "bit (BIT n) i \<longleftrightarrow> i = n"
    using assms by (auto simp: BIT_def bit_push_bit_iff possible_bit_word bit_1_iff simp del: push_bit_of_1)
  also have "\<dots> \<longleftrightarrow> bit (GENMASK n n) i"
    using assms range_mask_bit [OF GENMASK_range [of n n], of i] by auto
  finally show "bit (BIT n) i \<longleftrightarrow> bit (GENMASK n n) i" .
qed

lemma range_mask_shift: "range_mask m l w \<Longrightarrow> FIELD_SHIFT m = l"
  for m :: "'a::len word"
  unfolding FIELD_SHIFT_def using range_mask_len [of m l w]
  by (intro get_trailing_zeros_eqI) (simp_all add: bit_ucast_iff range_mask_bit)

lemma bit_FIELD_SET:
  fixes m :: "'a::len word"
  assumes m: "range_mask m l w"
  shows "bit (FIELD_SET m v) i \<longleftrightarrow> l \<le> i \<and> i < l + w \<and> bit v (i - l)"
proof -
  have "bit (FIELD_SET m v) i \<longleftrightarrow> (l \<le> i \<and> i < LENGTH('a) \<and> bit v (i - l)) \<and> l \<le> i \<and> i < l + w"
    by (simp add: FIELD_SET_def range_mask_shift [OF m] bit_and_iff bit_push_bit_iff
        range_mask_bit [OF m] possible_bit_word)
  then show ?thesis using range_mask_len(1) [OF m] by linarith
qed

lemma bit_FIELD_GET:
  fixes m :: "'a::len word"
  assumes m: "range_mask m l w"
  shows "bit (FIELD_GET m v) i \<longleftrightarrow> i < w \<and> bit v (i + l)"
  by (simp add: FIELD_GET_def range_mask_shift [OF m] bit_drop_bit_eq bit_and_iff
      range_mask_bit [OF m] add.commute conj_commute)

lemma FIELD_GET_SET_same:
  fixes m :: "'a::len word"
  assumes m: "range_mask m l w"
  shows "FIELD_GET m (FIELD_SET m v) = take_bit w v"
  by (rule bit_word_eqI)
    (simp add: bit_FIELD_GET [OF m] bit_FIELD_SET [OF m] bit_take_bit_iff possible_bit_word)

lemma FIELD_GET_SET_other:
  fixes m :: "'a::len word"
  assumes m: "range_mask m l w" and m': "range_mask m' l' w'" and "l + w \<le> l' \<or> l' + w' \<le> l"
  shows "FIELD_GET m (FIELD_SET m' v) = 0"
proof (rule bit_word_eqI)
  fix i
  show "bit (FIELD_GET m (FIELD_SET m' v)) i \<longleftrightarrow> bit 0 i"
    unfolding bit_FIELD_GET [OF m] bit_FIELD_SET [OF m'] using assms(3) by auto
qed

lemma FIELD_GET_OR: "FIELD_GET m (a OR b) = FIELD_GET m a OR FIELD_GET m b"
  by (rule bit_word_eqI) (simp add: FIELD_GET_def bit_simps, blast)

lemma FIELD_GET_0: "FIELD_GET m 0 = 0"
  by (simp add: FIELD_GET_def)

text \<open>The same with the bounds of the masks, for rewriting.\<close>

named_theorems field_simps \<open>packing and unpacking of register fields\<close>

lemma get_set_same [field_simps]:
  "l \<le> h \<Longrightarrow> h < 32 \<Longrightarrow> FIELD_GET (GENMASK h l) (FIELD_SET (GENMASK h l) v) = take_bit (h + 1 - l) v"
  using FIELD_GET_SET_same GENMASK_range by blast

lemma get_set_other [field_simps]:
  "h < l' \<or> h' < l \<Longrightarrow> l \<le> h \<Longrightarrow> h < 32 \<Longrightarrow> l' \<le> h' \<Longrightarrow> h' < 32 \<Longrightarrow>
     FIELD_GET (GENMASK h l) (FIELD_SET (GENMASK h' l') v) = 0"
  using FIELD_GET_SET_other [OF GENMASK_range GENMASK_range] by fastforce

lemmas [field_simps] = FIELD_GET_OR FIELD_GET_0

text \<open>Reading back a value narrower than the register.\<close>

lemma ucast_take_up_down [field_simps]:
  "LENGTH('a) \<le> LENGTH('b) \<Longrightarrow>
   (ucast (take_bit n (ucast v :: 'b::len word)) :: 'a::len word) = take_bit n v" for v :: "'a::len word"
  by (rule bit_word_eqI) (auto simp: bit_simps dest: bit_imp_le_length)

lemma ucast_mod2_up_down [field_simps]:
  "LENGTH('a) \<le> LENGTH('b) \<Longrightarrow>
   (ucast (ucast v mod 2 :: 'b::len word) :: 'a::len word) = v mod 2" for v :: "'a::len word"
  using ucast_take_up_down [of 1 v, where 'b = 'b] by (simp add: take_bit_Suc_from_most)

text \<open>Putting a value together from parts of it.\<close>

lemma FIELD_SET_GET:
  fixes m :: "'a::len word"
  assumes m: "range_mask m l w"
  shows "FIELD_SET m (FIELD_GET m x) = x AND m"
proof (rule bit_word_eqI)
  fix i
  show "bit (FIELD_SET m (FIELD_GET m x)) i \<longleftrightarrow> bit (x AND m) i"
    unfolding bit_FIELD_SET [OF m] bit_FIELD_GET [OF m] bit_and_iff range_mask_bit [OF m] by auto
qed

text \<open>A value cut into fields and put together again.\<close>

lemma bit_GENMASK: "l \<le> h \<Longrightarrow> h < 32 \<Longrightarrow> bit (GENMASK h l) i \<longleftrightarrow> l \<le> i \<and> i \<le> h"
  using range_mask_bit [OF GENMASK_range] by fastforce

lemma bit_GENMASK_ULL: "l \<le> h \<Longrightarrow> h < 64 \<Longrightarrow> bit (GENMASK_ULL h l) i \<longleftrightarrow> l \<le> i \<and> i \<le> h"
  using range_mask_bit [OF GENMASK_ULL_range] by fastforce

lemma set_take_get:
  assumes "l \<le> h" "h < 32" "h + 1 - l \<le> n"
  shows "FIELD_SET (GENMASK h l) (take_bit n (FIELD_GET (GENMASK h l) a)) = a AND GENMASK h l"
proof (rule bit_word_eqI)
  fix i
  note m = GENMASK_range [OF assms(1,2)]
  show "bit (FIELD_SET (GENMASK h l) (take_bit n (FIELD_GET (GENMASK h l) a))) i \<longleftrightarrow>
      bit (a AND GENMASK h l) i"
    unfolding bit_FIELD_SET [OF m] bit_take_bit_iff bit_FIELD_GET [OF m] bit_and_iff
      bit_GENMASK [OF assms(1,2)] using assms(3) by auto
qed

lemma set_take_get_ULL:
  assumes "l \<le> h" "h < 64" "h + 1 - l \<le> n" "n \<le> 32"
  shows "FIELD_SET (GENMASK_ULL h l) (ucast (take_bit n (ucast (FIELD_GET (GENMASK_ULL h l) a) :: u32))) =
    a AND GENMASK_ULL h l"
proof (rule bit_word_eqI)
  fix i
  note m = GENMASK_ULL_range [OF assms(1,2)]
  show "bit (FIELD_SET (GENMASK_ULL h l) (ucast (take_bit n (ucast (FIELD_GET (GENMASK_ULL h l) a) :: u32)))) i \<longleftrightarrow>
      bit (a AND GENMASK_ULL h l) i"
    unfolding bit_FIELD_SET [OF m] bit_ucast_iff bit_take_bit_iff bit_FIELD_GET [OF m] bit_and_iff
      bit_GENMASK_ULL [OF assms(1,2)] using assms by auto
qed

lemma set_get_ULL:
  assumes "l \<le> h" "h < 64" "h + 1 - l \<le> 32"
  shows "FIELD_SET (GENMASK_ULL h l) (ucast (ucast (FIELD_GET (GENMASK_ULL h l) a) :: u32)) =
    a AND GENMASK_ULL h l"
  using set_take_get_ULL [OF assms order_refl, of a] by (simp add: take_bit_word_eq_self)

lemma join_fields:
  assumes "l \<le> h" "Suc h \<le> h'" "h' < 32"
  shows "(a AND GENMASK h l) OR (a AND GENMASK h' (Suc h)) = a AND GENMASK h' l"
proof (rule bit_word_eqI)
  fix i
  have "h < 32" "l \<le> h'" using assms by auto
  then show "bit ((a AND GENMASK h l) OR (a AND GENMASK h' (Suc h))) i \<longleftrightarrow> bit (a AND GENMASK h' l) i"
    using assms by (auto simp: bit_or_iff bit_and_iff bit_GENMASK)
qed

lemma join_fields_ULL:
  assumes "l \<le> h" "Suc h \<le> h'" "h' < 64"
  shows "(a AND GENMASK_ULL h l) OR (a AND GENMASK_ULL h' (Suc h)) = a AND GENMASK_ULL h' l"
proof (rule bit_word_eqI)
  fix i
  have "h < 64" "l \<le> h'" using assms by auto
  then show "bit ((a AND GENMASK_ULL h l) OR (a AND GENMASK_ULL h' (Suc h))) i \<longleftrightarrow>
      bit (a AND GENMASK_ULL h' l) i"
    using assms by (auto simp: bit_or_iff bit_and_iff bit_GENMASK_ULL)
qed

lemmas split_joins =
  set_take_get set_take_get_ULL set_get_ULL
  join_fields [of 0 2 15, simplified] join_fields [of 0 3 15, simplified]
  join_fields_ULL [of 12 37 63, simplified] join_fields_ULL [of 29 60 63, simplified]
  join_fields_ULL [of 12 28 63, simplified]

text \<open>The values of the C types the code packs, read back in full.\<close>

lemma ucast_all16 [field_simps]: "(ucast (ucast (p :: u16) AND GENMASK 15 0 :: u32) :: u16) = p"
proof (rule bit_word_eqI)
  fix i assume "i < LENGTH(16)"
  then show "bit (ucast (ucast p AND GENMASK 15 0 :: u32) :: u16) i \<longleftrightarrow> bit p i"
    by (auto simp: bit_ucast_iff bit_and_iff bit_GENMASK)
qed

lemma ucast_halves [field_simps]:
  "push_bit 32 (ucast (ucast (drop_bit 32 a AND 0xffffffff) :: u32)) OR
   ucast (ucast (a AND 0xffffffff) :: u32) = a" for a :: u64
proof (rule bit_word_eqI)
  fix i assume i: "i < LENGTH(64)"
  have m: "(0xffffffff :: u64) = mask 32" by (simp add: mask_eq_exp_minus_1)
  show "bit (push_bit 32 (ucast (ucast (drop_bit 32 a AND 0xffffffff) :: u32)) OR
      ucast (ucast (a AND 0xffffffff) :: u32) :: u64) i \<longleftrightarrow> bit a i"
    unfolding m using i
    by (cases "i < 32") (auto simp: bit_or_iff bit_push_bit_iff bit_ucast_iff bit_and_iff
        bit_drop_bit_eq bit_mask_iff possible_bit_word)
qed

lemma take_all [field_simps]: "LENGTH('a) \<le> n \<Longrightarrow> take_bit n v = v" for v :: "'a::len word"
  by (rule take_bit_word_eq_self)

subsection \<open>Bit-field structures\<close>

text \<open>A C bit-field of \<open>w\<close> bits from bit \<open>p\<close> on.\<close>

definition get_bits :: "nat \<Rightarrow> nat \<Rightarrow> u32 \<Rightarrow> u32" where
  "get_bits p w v = take_bit w (drop_bit p v)"

definition put_bits :: "nat \<Rightarrow> nat \<Rightarrow> u32 \<Rightarrow> u32" where
  "put_bits p w x = push_bit p (take_bit w x)"

lemma get_bits_OR: "get_bits p w (a OR b) = get_bits p w a OR get_bits p w b"
  by (simp add: get_bits_def take_bit_or drop_bit_or)

lemma get_put_bits_same: "p + w \<le> 32 \<Longrightarrow> get_bits p w (put_bits p w x) = take_bit w x"
  by (rule bit_word_eqI) (auto simp: get_bits_def put_bits_def bit_take_bit_iff bit_drop_bit_eq
      bit_push_bit_iff possible_bit_word)

lemma get_put_bits_other: "p + w \<le> q \<or> q + v \<le> p \<Longrightarrow> get_bits p w (put_bits q v x) = 0"
  by (rule bit_word_eqI) (auto simp: get_bits_def put_bits_def bit_take_bit_iff bit_drop_bit_eq
      bit_push_bit_iff possible_bit_word)

lemmas bits_simps = get_bits_OR get_put_bits_same get_put_bits_other

end
