(* ===== verification/Reg_Access.thy ===== *)
theory Reg_Access
  imports Bit_Fields
begin

text \<open>
  Register access (\<^verbatim>\<open>libqdma/qdma_access/qdma_access_common.c\<close>, the indirect context
  registers of \<^verbatim>\<open>qdma_soft_access/qdma_soft_access.c\<close>). The device is a parameter of the
  model: a function that answers a register read from the log of everything done to the
  device so far. An operation appends its register accesses, delays and lock operations to
  the log.
\<close>

subsection \<open>The device and the log\<close>

datatype hw_event =
    Reg_write u32 u32
  | Reg_read u32 u32
  | Udelay u32
  | Reg_lock
  | Reg_unlock

type_synonym hw_log = "hw_event list"
type_synonym hw_env = "hw_log \<Rightarrow> u32 \<Rightarrow> u32"

text \<open>A device handle: \<open>None\<close> is the null pointer.\<close>

type_synonym dev_hndl = "hw_env option"

definition qdma_reg_write :: "u32 \<Rightarrow> u32 \<Rightarrow> hw_log \<Rightarrow> hw_log" where
  "qdma_reg_write addr val s = s @ [Reg_write addr val]"

definition qdma_reg_read :: "hw_env \<Rightarrow> u32 \<Rightarrow> hw_log \<Rightarrow> u32 \<times> hw_log" where
  "qdma_reg_read env addr s = (env s addr, s @ [Reg_read addr (env s addr)])"

definition qdma_udelay :: "u32 \<Rightarrow> hw_log \<Rightarrow> hw_log" where
  "qdma_udelay us s = s @ [Udelay us]"

definition qdma_reg_access_lock :: "hw_log \<Rightarrow> hw_log" where
  "qdma_reg_access_lock s = s @ [Reg_lock]"

definition qdma_reg_access_release :: "hw_log \<Rightarrow> hw_log" where
  "qdma_reg_access_release s = s @ [Reg_unlock]"

subsection \<open>Polling a register\<close>

definition QDMA_REG_POLL_DFLT_INTERVAL_US :: u32 where
  "QDMA_REG_POLL_DFLT_INTERVAL_US = 10"

definition QDMA_REG_POLL_DFLT_TIMEOUT_US :: u32 where
  "QDMA_REG_POLL_DFLT_TIMEOUT_US = 500 * 1000"

text \<open>\<open>n\<close> more iterations of the loop, then the read after it.\<close>

fun poll_loop :: "hw_env \<Rightarrow> u32 \<Rightarrow> u32 \<Rightarrow> u32 \<Rightarrow> u32 \<Rightarrow> nat \<Rightarrow> hw_log \<Rightarrow> int \<times> hw_log" where
  "poll_loop env reg msk val interval_us 0 s =
     (let (v, s1) = qdma_reg_read env reg s in
      if v AND msk = val then (err_code QDMA_SUCCESS, s1)
      else (neg_err QDMA_ERR_HWACC_BUSY_TIMEOUT, s1))"
| "poll_loop env reg msk val interval_us (Suc n) s =
     (let (v, s1) = qdma_reg_read env reg s in
      if v AND msk = val then (err_code QDMA_SUCCESS, s1)
      else poll_loop env reg msk val interval_us n (qdma_udelay interval_us s1))"

text \<open>
  The iterations of \<^verbatim>\<open>do ... while (--count)\<close> for an \<^verbatim>\<open>int\<close> count: a count that is not
  positive runs through the negative numbers first (the C code's overflow wraps around).
\<close>

definition do_while_count :: "int \<Rightarrow> nat" where
  "do_while_count count = nat (if count \<le> 0 then count + 4294967296 else count)"

definition hw_monitor_reg ::
  "hw_env \<Rightarrow> u32 \<Rightarrow> u32 \<Rightarrow> u32 \<Rightarrow> u32 \<Rightarrow> u32 \<Rightarrow> hw_log \<Rightarrow> int \<times> hw_log" where
  "hw_monitor_reg env reg msk val interval_us timeout_us s =
     (let interval_us = (if interval_us = 0 then QDMA_REG_POLL_DFLT_INTERVAL_US else interval_us);
          timeout_us = (if timeout_us = 0 then QDMA_REG_POLL_DFLT_TIMEOUT_US else timeout_us);
          count = to_s32 (uint (timeout_us div interval_us)) in
      poll_loop env reg msk val interval_us (do_while_count count) s)"

subsection \<open>Arrays of registers\<close>

text \<open>The values are the array's elements; the address wraps around as in the code.\<close>

fun qdma_write_csr_values :: "u32 \<Rightarrow> u32 \<Rightarrow> u32 list \<Rightarrow> hw_log \<Rightarrow> hw_log" where
  "qdma_write_csr_values reg_offst idx [] s = s"
| "qdma_write_csr_values reg_offst idx (v # values) s =
     qdma_write_csr_values reg_offst (idx + 1) values (qdma_reg_write (reg_offst + idx * 4) v s)"

text \<open>The loops that step the address by one register.\<close>

fun write_regs :: "u32 \<Rightarrow> u32 list \<Rightarrow> hw_log \<Rightarrow> hw_log" where
  "write_regs reg_addr [] s = s"
| "write_regs reg_addr (v # vs) s = write_regs (reg_addr + 4) vs (qdma_reg_write reg_addr v s)"

fun read_regs :: "hw_env \<Rightarrow> u32 \<Rightarrow> nat \<Rightarrow> hw_log \<Rightarrow> u32 list \<times> hw_log" where
  "read_regs env reg_addr 0 s = ([], s)"
| "read_regs env reg_addr (Suc cnt) s =
     (let (v, s1) = qdma_reg_read env reg_addr s;
          (vs, s2) = read_regs env (reg_addr + 4) cnt s1
      in (v # vs, s2))"

definition qdma_read_csr_values :: "hw_env \<Rightarrow> u32 \<Rightarrow> u32 \<Rightarrow> nat \<Rightarrow> hw_log \<Rightarrow> u32 list \<times> hw_log" where
  "qdma_read_csr_values env reg_offst idx cnt s = read_regs env (reg_offst + idx * 4) cnt s"

subsection \<open>Indirect context registers\<close>

datatype ind_ctxt_cmd_op =
  QDMA_CTXT_CMD_CLR | QDMA_CTXT_CMD_WR | QDMA_CTXT_CMD_RD | QDMA_CTXT_CMD_INV

datatype ind_ctxt_cmd_sel =
    QDMA_CTXT_SEL_SW_C2H
  | QDMA_CTXT_SEL_SW_H2C
  | QDMA_CTXT_SEL_HW_C2H
  | QDMA_CTXT_SEL_HW_H2C
  | QDMA_CTXT_SEL_CR_C2H
  | QDMA_CTXT_SEL_CR_H2C
  | QDMA_CTXT_SEL_CMPT
  | QDMA_CTXT_SEL_PFTCH
  | QDMA_CTXT_SEL_INT_COAL
  | QDMA_CTXT_SEL_PASID_RAM_LOW
  | QDMA_CTXT_SEL_PASID_RAM_HIGH
  | QDMA_CTXT_SEL_TIMER
  | QDMA_CTXT_SEL_FMAP

fun op_code :: "ind_ctxt_cmd_op \<Rightarrow> u32" where
  "op_code QDMA_CTXT_CMD_CLR = 0"
| "op_code QDMA_CTXT_CMD_WR = 1"
| "op_code QDMA_CTXT_CMD_RD = 2"
| "op_code QDMA_CTXT_CMD_INV = 3"

fun sel_code :: "ind_ctxt_cmd_sel \<Rightarrow> u32" where
  "sel_code QDMA_CTXT_SEL_SW_C2H = 0"
| "sel_code QDMA_CTXT_SEL_SW_H2C = 1"
| "sel_code QDMA_CTXT_SEL_HW_C2H = 2"
| "sel_code QDMA_CTXT_SEL_HW_H2C = 3"
| "sel_code QDMA_CTXT_SEL_CR_C2H = 4"
| "sel_code QDMA_CTXT_SEL_CR_H2C = 5"
| "sel_code QDMA_CTXT_SEL_CMPT = 6"
| "sel_code QDMA_CTXT_SEL_PFTCH = 7"
| "sel_code QDMA_CTXT_SEL_INT_COAL = 8"
| "sel_code QDMA_CTXT_SEL_PASID_RAM_LOW = 9"
| "sel_code QDMA_CTXT_SEL_PASID_RAM_HIGH = 10"
| "sel_code QDMA_CTXT_SEL_TIMER = 11"
| "sel_code QDMA_CTXT_SEL_FMAP = 12"

text \<open>
  \<^verbatim>\<open>union qdma_ind_ctxt_cmd\<close> with all bits zero but \<open>sel\<close> (4 bits from bit 1), \<open>op\<close> (2 bits
  from bit 5) and \<open>qid\<close> (11 bits from bit 7), the layout of the supported little-endian ABIs;
  a bit-field assignment truncates.
\<close>

definition qdma_ind_ctxt_cmd :: "ind_ctxt_cmd_sel \<Rightarrow> ind_ctxt_cmd_op \<Rightarrow> u16 \<Rightarrow> u32" where
  "qdma_ind_ctxt_cmd sel opc hw_qid =
     put_bits 1 4 (sel_code sel) OR put_bits 5 2 (op_code opc) OR put_bits 7 11 (ucast hw_qid)"

definition QDMA_OFFSET_IND_CTXT_DATA :: u32 where "QDMA_OFFSET_IND_CTXT_DATA = 0x804"
definition QDMA_OFFSET_IND_CTXT_MASK :: u32 where "QDMA_OFFSET_IND_CTXT_MASK = 0x824"
definition QDMA_OFFSET_IND_CTXT_CMD :: u32 where "QDMA_OFFSET_IND_CTXT_CMD = 0x844"
definition QDMA_IND_CTXT_CMD_BUSY_MASK :: u32 where "QDMA_IND_CTXT_CMD_BUSY_MASK = 1"
definition QDMA_IND_CTXT_DATA_NUM_REGS :: nat where "QDMA_IND_CTXT_DATA_NUM_REGS = 8"

definition wait_ctxt_cmd :: "hw_env \<Rightarrow> hw_log \<Rightarrow> int \<times> hw_log" where
  "wait_ctxt_cmd env = hw_monitor_reg env QDMA_OFFSET_IND_CTXT_CMD QDMA_IND_CTXT_CMD_BUSY_MASK 0
     QDMA_REG_POLL_DFLT_INTERVAL_US QDMA_REG_POLL_DFLT_TIMEOUT_US"

definition qdma_indirect_reg_invalidate ::
  "hw_env \<Rightarrow> ind_ctxt_cmd_sel \<Rightarrow> u16 \<Rightarrow> hw_log \<Rightarrow> int \<times> hw_log" where
  "qdma_indirect_reg_invalidate env sel hw_qid s =
     (let s1 = qdma_reg_access_lock s;
          s2 = qdma_reg_write QDMA_OFFSET_IND_CTXT_CMD (qdma_ind_ctxt_cmd sel QDMA_CTXT_CMD_INV hw_qid) s1;
          (rv, s3) = wait_ctxt_cmd env s2 in
      if rv \<noteq> 0 then (neg_err QDMA_ERR_HWACC_BUSY_TIMEOUT, qdma_reg_access_release s3)
      else (err_code QDMA_SUCCESS, qdma_reg_access_release s3))"

definition qdma_indirect_reg_clear ::
  "hw_env \<Rightarrow> ind_ctxt_cmd_sel \<Rightarrow> u16 \<Rightarrow> hw_log \<Rightarrow> int \<times> hw_log" where
  "qdma_indirect_reg_clear env sel hw_qid s =
     (let s1 = qdma_reg_access_lock s;
          s2 = qdma_reg_write QDMA_OFFSET_IND_CTXT_CMD (qdma_ind_ctxt_cmd sel QDMA_CTXT_CMD_CLR hw_qid) s1;
          (rv, s3) = wait_ctxt_cmd env s2 in
      if rv \<noteq> 0 then (neg_err QDMA_ERR_HWACC_BUSY_TIMEOUT, qdma_reg_access_release s3)
      else (err_code QDMA_SUCCESS, qdma_reg_access_release s3))"

text \<open>The words read are \<open>None\<close> when the operation fails: the caller's array is not written.\<close>

definition qdma_indirect_reg_read ::
  "hw_env \<Rightarrow> ind_ctxt_cmd_sel \<Rightarrow> u16 \<Rightarrow> nat \<Rightarrow> hw_log \<Rightarrow> int \<times> u32 list option \<times> hw_log" where
  "qdma_indirect_reg_read env sel hw_qid cnt s =
     (let s1 = qdma_reg_access_lock s;
          s2 = qdma_reg_write QDMA_OFFSET_IND_CTXT_CMD (qdma_ind_ctxt_cmd sel QDMA_CTXT_CMD_RD hw_qid) s1;
          (rv, s3) = wait_ctxt_cmd env s2 in
      if rv \<noteq> 0 then (neg_err QDMA_ERR_HWACC_BUSY_TIMEOUT, None, qdma_reg_access_release s3)
      else (let (data, s4) = read_regs env QDMA_OFFSET_IND_CTXT_DATA cnt s3 in
            (err_code QDMA_SUCCESS, Some data, qdma_reg_access_release s4)))"

text \<open>
  \<^verbatim>\<open>struct qdma_indirect_ctxt_regs\<close> as the 17 words the code writes: the data padded with
  zeros, the mask, the command.
\<close>

definition indirect_ctxt_regs :: "u32 list \<Rightarrow> u32 \<Rightarrow> u32 list" where
  "indirect_ctxt_regs data cmd =
     map (\<lambda>index. if index < length data then data ! index else 0) [0..<QDMA_IND_CTXT_DATA_NUM_REGS] @
     replicate QDMA_IND_CTXT_DATA_NUM_REGS 0xFFFFFFFF @ [cmd]"

definition qdma_indirect_reg_write ::
  "hw_env \<Rightarrow> ind_ctxt_cmd_sel \<Rightarrow> u16 \<Rightarrow> u32 list \<Rightarrow> hw_log \<Rightarrow> int \<times> hw_log" where
  "qdma_indirect_reg_write env sel hw_qid data s =
     (let s1 = qdma_reg_access_lock s;
          wr_data = indirect_ctxt_regs data (qdma_ind_ctxt_cmd sel QDMA_CTXT_CMD_WR hw_qid);
          s2 = write_regs QDMA_OFFSET_IND_CTXT_DATA wr_data s1;
          (rv, s3) = wait_ctxt_cmd env s2 in
      if rv \<noteq> 0 then (neg_err QDMA_ERR_HWACC_BUSY_TIMEOUT, qdma_reg_access_release s3)
      else (err_code QDMA_SUCCESS, qdma_reg_access_release s3))"


subsection \<open>Polling\<close>

text \<open>The log before the \<open>k\<close>-th poll, all earlier ones having failed.\<close>

fun before_poll :: "hw_env \<Rightarrow> u32 \<Rightarrow> u32 \<Rightarrow> nat \<Rightarrow> hw_log \<Rightarrow> hw_log" where
  "before_poll env reg interval_us 0 s = s"
| "before_poll env reg interval_us (Suc k) s =
     before_poll env reg interval_us k (s @ [Reg_read reg (env s reg), Udelay interval_us])"

definition poll_hits :: "hw_env \<Rightarrow> u32 \<Rightarrow> u32 \<Rightarrow> u32 \<Rightarrow> u32 \<Rightarrow> hw_log \<Rightarrow> nat \<Rightarrow> bool" where
  "poll_hits env reg msk val interval_us s k \<longleftrightarrow>
     env (before_poll env reg interval_us k s) reg AND msk = val"

lemma poll_loop_hit:
  assumes "poll_hits env reg msk val iv s k" "\<And>j. j < k \<Longrightarrow> \<not> poll_hits env reg msk val iv s j" "k \<le> n"
  shows "poll_loop env reg msk val iv n s =
    (0, before_poll env reg iv k s @ [Reg_read reg (env (before_poll env reg iv k s) reg)])"
  using assms
proof (induction n arbitrary: s k)
  case 0
  then show ?case by (simp add: qdma_reg_read_def poll_hits_def)
next
  case (Suc n)
  show ?case
  proof (cases k)
    case 0
    with Suc.prems show ?thesis by (simp add: qdma_reg_read_def poll_hits_def)
  next
    case (Suc j)
    let ?s = "s @ [Reg_read reg (env s reg), Udelay iv]"
    have "\<not> poll_hits env reg msk val iv s 0" using Suc.prems(2) Suc by blast
    moreover have "poll_hits env reg msk val iv ?s j"
      using Suc.prems(1) Suc by (simp add: poll_hits_def)
    moreover have "\<not> poll_hits env reg msk val iv ?s i" if "i < j" for i
      using Suc.prems(2) [of "Suc i"] that Suc by (simp add: poll_hits_def)
    ultimately show ?thesis
      using Suc.IH [of ?s j] Suc.prems(3) Suc
      by (simp add: qdma_reg_read_def qdma_udelay_def poll_hits_def)
  qed
qed

lemma poll_loop_timeout:
  assumes "\<And>j. j \<le> n \<Longrightarrow> \<not> poll_hits env reg msk val iv s j"
  shows "poll_loop env reg msk val iv n s =
    (neg_err QDMA_ERR_HWACC_BUSY_TIMEOUT,
     before_poll env reg iv n s @ [Reg_read reg (env (before_poll env reg iv n s) reg)])"
  using assms
proof (induction n arbitrary: s)
  case 0
  then show ?case by (simp add: qdma_reg_read_def poll_hits_def)
next
  case (Suc n)
  have "\<not> poll_hits env reg msk val iv s 0" using Suc.prems by blast
  moreover have "\<not> poll_hits env reg msk val iv (s @ [Reg_read reg (env s reg), Udelay iv]) j" if "j \<le> n" for j
    using Suc.prems [of "Suc j"] that by (simp add: poll_hits_def)
  ultimately show ?case using Suc.IH by (simp add: qdma_reg_read_def qdma_udelay_def poll_hits_def)
qed

text \<open>
  Polling is exact and bounded. \<^verbatim>\<open>hw_monitor_reg\<close> with a non-zero interval that is not
  longer than the timeout polls the register at most \<^verbatim>\<open>timeout_us / interval_us + 1\<close> times,
  with one delay between two polls and no write; it returns 0 right after the first
  poll that yields the expected value, and \<^verbatim>\<open>-QDMA_ERR_HWACC_BUSY_TIMEOUT\<close> exactly when none
  of these polls does.
\<close>

theorem hw_monitor_reg_exact:
  assumes "0 < interval_us" "interval_us \<le> timeout_us" "timeout_us < 0x80000000"
  defines "n \<equiv> unat timeout_us div unat interval_us"
  shows "(\<exists>k\<le>n. poll_hits env reg msk val interval_us s k \<and>
      (\<forall>j<k. \<not> poll_hits env reg msk val interval_us s j) \<and>
      hw_monitor_reg env reg msk val interval_us timeout_us s =
        (0, before_poll env reg interval_us k s @
            [Reg_read reg (env (before_poll env reg interval_us k s) reg)])) \<or>
    (\<forall>k\<le>n. \<not> poll_hits env reg msk val interval_us s k) \<and>
      hw_monitor_reg env reg msk val interval_us timeout_us s =
        (neg_err QDMA_ERR_HWACC_BUSY_TIMEOUT, before_poll env reg interval_us n s @
            [Reg_read reg (env (before_poll env reg interval_us n s) reg)])"
proof -
  have n0: "0 < n" unfolding n_def using assms(1,2)
    by (simp add: div_greater_zero_iff word_le_nat_alt word_less_nat_alt)
  have "n \<le> unat timeout_us" unfolding n_def by (rule div_le_dividend)
  moreover have "unat timeout_us < 2147483648" using assms(3) by (simp add: word_less_nat_alt)
  ultimately have small: "n < 2147483648" by linarith
  have "uint (timeout_us div interval_us) = int n"
    by (simp add: n_def uint_div zdiv_int flip: uint_nat)
  then have "do_while_count (to_s32 (uint (timeout_us div interval_us))) = n"
    using n0 small by (simp add: do_while_count_def c_conv)
  moreover have "timeout_us \<noteq> 0" "interval_us \<noteq> 0" using assms(1,2) by auto
  ultimately have eq: "hw_monitor_reg env reg msk val interval_us timeout_us s =
      poll_loop env reg msk val interval_us n s" by (simp add: hw_monitor_reg_def Let_def)
  show ?thesis
  proof (cases "\<exists>k\<le>n. poll_hits env reg msk val interval_us s k")
    case True
    define k where "k = (LEAST k. poll_hits env reg msk val interval_us s k)"
    have "poll_hits env reg msk val interval_us s k" "k \<le> n"
      "\<forall>j<k. \<not> poll_hits env reg msk val interval_us s j"
      using True unfolding k_def by (meson LeastI Least_le order_trans not_less_Least)+
    then show ?thesis unfolding eq using poll_loop_hit by blast
  next
    case False
    then show ?thesis unfolding eq using poll_loop_timeout by blast
  qed
qed

theorem hw_monitor_reg_exact_witness:
  "\<not> poll_hits (\<lambda>s _. if length s < 3 then 1 else 0) 0x844 1 0 10 [] 0 \<and>
   hw_monitor_reg (\<lambda>s _. if length s < 3 then 1 else 0) 0x844 1 0 10 30 [] =
     (0, [Reg_read 0x844 1, Udelay 10, Reg_read 0x844 1, Udelay 10, Reg_read 0x844 0])"
proof -
  let ?env = "\<lambda>(s :: hw_log) (_ :: u32). if length s < 3 then 1 else 0 :: u32"
  have hits: "poll_hits ?env 0x844 1 0 10 [] 2" "\<not> poll_hits ?env 0x844 1 0 10 [] 0"
    "\<not> poll_hits ?env 0x844 1 0 10 [] 1"
    by (simp_all add: poll_hits_def numeral_2_eq_2)
  have k: "k = 2" if "poll_hits ?env 0x844 1 0 10 [] k" "\<forall>j<k. \<not> poll_hits ?env 0x844 1 0 10 [] j" for k
    using that hits by (metis One_nat_def less_2_cases linorder_neqE_nat)
  have ex: "\<exists>k\<le>3. poll_hits ?env 0x844 1 0 10 [] k" using hits(1) by (intro exI [of _ 2]) simp
  have pre: "(0 :: u32) < 10" "(10 :: u32) \<le> 30" "(30 :: u32) < 0x80000000" by simp_all
  have n: "unat (30 :: u32) div unat (10 :: u32) = 3" by simp
  obtain j where "poll_hits ?env 0x844 1 0 10 [] j" "\<forall>i<j. \<not> poll_hits ?env 0x844 1 0 10 [] i"
    and run: "hw_monitor_reg ?env 0x844 1 0 10 30 [] = (0, before_poll ?env 0x844 10 j [] @
      [Reg_read 0x844 (?env (before_poll ?env 0x844 10 j []) 0x844)])"
    using hw_monitor_reg_exact [OF pre, of ?env "0x844" 1 0 "[]", unfolded n] ex by blast
  then have "j = 2" using k by blast
  moreover have "before_poll ?env 0x844 10 2 [] =
      [Reg_read 0x844 1, Udelay 10, Reg_read 0x844 1, Udelay 10]"
    by (simp add: numeral_2_eq_2)
  ultimately show ?thesis using run hits(2) by simp
qed

end
