(* ===== verification/Ctxt_Memory.thy ===== *)
theory Ctxt_Memory
  imports Reg_Access
begin

text \<open>
  What the indirect context registers promise. An abstract context memory is computed from
  the log of register accesses: eight words per context kind and queue, unknown until they
  are written or cleared. The operations of theory Reg_Access refine it on every device
  that behaves as the register interface documents: a command is finished when the busy
  bit reads 0, and a read command leaves the context's words in the data registers. The
  locale at the end is the interface the context theories use.
\<close>

subsection \<open>The fields of a command\<close>

lemma cmd_fields [simp]:
  "get_bits 1 4 (qdma_ind_ctxt_cmd sel opc qid) = sel_code sel"
  "get_bits 5 2 (qdma_ind_ctxt_cmd sel opc qid) = op_code opc"
  "get_bits 7 11 (qdma_ind_ctxt_cmd sel opc qid) = take_bit 11 (ucast qid)"
proof -
  have "take_bit 4 (sel_code sel) = sel_code sel" by (cases sel) simp_all
  moreover have "take_bit 2 (op_code opc) = op_code opc" by (cases opc) simp_all
  ultimately show "get_bits 1 4 (qdma_ind_ctxt_cmd sel opc qid) = sel_code sel"
    "get_bits 5 2 (qdma_ind_ctxt_cmd sel opc qid) = op_code opc"
    "get_bits 7 11 (qdma_ind_ctxt_cmd sel opc qid) = take_bit 11 (ucast qid)"
    unfolding qdma_ind_ctxt_cmd_def by (simp_all add: bits_simps)
qed

lemmas [simp] = cmd_fields [unfolded One_nat_def]

lemma sel_code_inj: "sel_code sel = sel_code sel' \<longleftrightarrow> sel = sel'"
  by (cases sel; cases sel'; simp)

subsection \<open>The abstract memory\<close>

type_synonym ctxt_key = "u32 \<times> u32"

record ctxt_dev =
  cd_regs :: "u32 \<Rightarrow> u32 option"
  cd_ram :: "ctxt_key \<Rightarrow> u32 option list"

definition data_addrs :: "u32 list" where
  "data_addrs = [0x804, 0x808, 0x80C, 0x810, 0x814, 0x818, 0x81C, 0x820]"

definition mask_addrs :: "u32 list" where
  "mask_addrs = [0x824, 0x828, 0x82C, 0x830, 0x834, 0x838, 0x83C, 0x840]"

definition cmd_key :: "u32 \<Rightarrow> ctxt_key" where
  "cmd_key v = (get_bits 1 4 v, get_bits 7 11 v)"

text \<open>A write command stores the words whose mask register is all ones; an invalidated
  context has unknown content.\<close>

definition ctxt_cmd :: "u32 \<Rightarrow> ctxt_dev \<Rightarrow> ctxt_dev" where
  "ctxt_cmd v d =
     (let opc = get_bits 5 2 v; key = cmd_key v in
      if opc = op_code QDMA_CTXT_CMD_CLR then d\<lparr>cd_ram := (cd_ram d)(key := replicate 8 (Some 0))\<rparr>
      else if opc = op_code QDMA_CTXT_CMD_WR then
        d\<lparr>cd_ram := (cd_ram d)(key :=
          map2 (\<lambda>da ma. if cd_regs d ma = Some 0xFFFFFFFF then cd_regs d da else None) data_addrs mask_addrs)\<rparr>
      else if opc = op_code QDMA_CTXT_CMD_RD then
        d\<lparr>cd_regs := fold (\<lambda>(a, w) r. r(a := w)) (zip data_addrs (cd_ram d key)) (cd_regs d)\<rparr>
      else d\<lparr>cd_ram := (cd_ram d)(key := replicate 8 None)\<rparr>)"

fun ctxt_step :: "hw_event \<Rightarrow> ctxt_dev \<Rightarrow> ctxt_dev" where
  "ctxt_step (Reg_write a v) d =
     (if a = QDMA_OFFSET_IND_CTXT_CMD then ctxt_cmd v d else d\<lparr>cd_regs := (cd_regs d)(a \<mapsto> v)\<rparr>)"
| "ctxt_step _ d = d"

definition ctxt_dev_of :: "hw_log \<Rightarrow> ctxt_dev" where
  "ctxt_dev_of s = fold ctxt_step s \<lparr>cd_regs = (\<lambda>_. None), cd_ram = (\<lambda>_. replicate 8 None)\<rparr>"

lemma ctxt_dev_of_append [simp]: "ctxt_dev_of (s @ es) = fold ctxt_step es (ctxt_dev_of s)"
  by (simp add: ctxt_dev_of_def)

text \<open>
  A command is pending from the write of the command register to a read of it that finds
  the busy bit clear. The log is settled when no command is pending.
\<close>

fun settle :: "hw_event \<Rightarrow> bool \<Rightarrow> bool" where
  "settle (Reg_write a v) b = (if a = QDMA_OFFSET_IND_CTXT_CMD then False else b)"
| "settle (Reg_read a v) b =
     (if a = QDMA_OFFSET_IND_CTXT_CMD then v AND QDMA_IND_CTXT_CMD_BUSY_MASK = 0 else b)"
| "settle _ b = b"

definition settled :: "hw_log \<Rightarrow> bool" where
  "settled s = fold settle s True"

lemma settled_append: "settled (s @ es) = fold settle es (settled s)"
  by (simp add: settled_def)

lemmas settled_snoc [simp] = settled_append [of s "[e]" for s e, simplified]

text \<open>
  The documented behaviour of a device. It may be busy after a command, but polled every
  10 us it clears the busy bit within the 50000 polls the driver allows it. Commands take
  effect in the order they are given, and only when no command is pending do the data
  registers hold what the last commands left in them.
\<close>

definition ctxt_hw :: "hw_env \<Rightarrow> bool" where
  "ctxt_hw env \<longleftrightarrow>
     (\<forall>s. \<exists>k\<le>50000. poll_hits env QDMA_OFFSET_IND_CTXT_CMD QDMA_IND_CTXT_CMD_BUSY_MASK 0
        QDMA_REG_POLL_DFLT_INTERVAL_US s k) \<and>
     (\<forall>s. settled s \<longrightarrow>
        (\<forall>a\<in>set data_addrs. \<forall>w. cd_regs (ctxt_dev_of s) a = Some w \<longrightarrow> env s a = w))"

text \<open>
  Such a device: it is busy on the first read after a command, its data registers hold
  nonsense while a command is pending, it answers from the abstract memory otherwise, and 0
  elsewhere.
\<close>

fun cmd_written :: "hw_event \<Rightarrow> bool \<Rightarrow> bool" where
  "cmd_written (Reg_write a v) b = (a = QDMA_OFFSET_IND_CTXT_CMD \<or> b)"
| "cmd_written (Reg_read a v) b = (a \<noteq> QDMA_OFFSET_IND_CTXT_CMD \<and> b)"
| "cmd_written _ b = b"

definition ref_hw :: hw_env where
  "ref_hw s addr =
     (if addr = QDMA_OFFSET_IND_CTXT_CMD then (if fold cmd_written s False then 1 else 0)
      else case cd_regs (ctxt_dev_of s) addr of
          Some w \<Rightarrow> if settled s then w else 0xDEADBEEF
        | None \<Rightarrow> 0)"

lemma ref_hw_polls: "\<exists>k\<le>50000. poll_hits ref_hw QDMA_OFFSET_IND_CTXT_CMD QDMA_IND_CTXT_CMD_BUSY_MASK 0 iv s k"
proof (cases "fold cmd_written s False")
  case True
  then have "poll_hits ref_hw QDMA_OFFSET_IND_CTXT_CMD QDMA_IND_CTXT_CMD_BUSY_MASK 0 iv s 1"
    by (simp add: poll_hits_def ref_hw_def QDMA_IND_CTXT_CMD_BUSY_MASK_def)
  then show ?thesis by (intro exI [of _ 1]) simp
next
  case False
  then have "poll_hits ref_hw QDMA_OFFSET_IND_CTXT_CMD QDMA_IND_CTXT_CMD_BUSY_MASK 0 iv s 0"
    by (simp add: poll_hits_def ref_hw_def QDMA_IND_CTXT_CMD_BUSY_MASK_def)
  then show ?thesis by (intro exI [of _ 0]) simp
qed

lemma ref_hw_ok: "ctxt_hw ref_hw"
  by (simp add: ctxt_hw_def ref_hw_polls)
    (simp add: ref_hw_def data_addrs_def QDMA_OFFSET_IND_CTXT_CMD_def)

lemma ref_hw_busy: "ref_hw (s @ [Reg_write QDMA_OFFSET_IND_CTXT_CMD v]) QDMA_OFFSET_IND_CTXT_CMD = 1"
  by (simp add: ref_hw_def)

text \<open>A device that differs from a documented one in other registers only.\<close>

lemma ctxt_hw_other_regs:
  assumes "ctxt_hw env" and same: "\<And>s a. a \<in> insert QDMA_OFFSET_IND_CTXT_CMD (set data_addrs) \<Longrightarrow> env' s a = env s a"
  shows "ctxt_hw env'"
proof -
  have "before_poll env' QDMA_OFFSET_IND_CTXT_CMD iv k s = before_poll env QDMA_OFFSET_IND_CTXT_CMD iv k s" for iv k s
    by (induction k arbitrary: s) (simp_all add: same)
  then have "poll_hits env' QDMA_OFFSET_IND_CTXT_CMD msk v iv s k = poll_hits env QDMA_OFFSET_IND_CTXT_CMD msk v iv s k"
    for msk v iv s k by (simp add: poll_hits_def same)
  then show ?thesis using assms(1) same by (simp add: ctxt_hw_def)
qed

text \<open>The content of a context as far as it is known.\<close>

definition ctxt_words :: "hw_log \<Rightarrow> ctxt_key \<Rightarrow> u32 option list" where
  "ctxt_words s = cd_ram (ctxt_dev_of s)"

definition ctxt_key_of :: "ind_ctxt_cmd_sel \<Rightarrow> u16 \<Rightarrow> ctxt_key" where
  "ctxt_key_of sel qid = (sel_code sel, take_bit 11 (ucast qid))"

lemma cmd_key_of [simp]: "cmd_key (qdma_ind_ctxt_cmd sel opc qid) = ctxt_key_of sel qid"
  by (simp add: cmd_key_def ctxt_key_of_def)

lemma op_codes [simp]:
  "op_code a = op_code b \<longleftrightarrow> a = b"
  by (cases a; cases b) simp_all


subsection \<open>The operations refine the memory\<close>

text \<open>Waiting on such a device ends without an error, settles the log and only reads.\<close>

lemma before_poll_reads: "ctxt_dev_of (before_poll env reg iv k s) = ctxt_dev_of s"
  by (induction k arbitrary: s) simp_all

lemma wait_ctxt_cmd_ok:
  assumes "ctxt_hw env"
  shows "\<exists>s'. wait_ctxt_cmd env s = (0, s') \<and> settled s' \<and> ctxt_dev_of s' = ctxt_dev_of s"
proof -
  let ?hit = "poll_hits env QDMA_OFFSET_IND_CTXT_CMD QDMA_IND_CTXT_CMD_BUSY_MASK 0 10 s"
  have n: "unat (500000 :: u32) div unat (10 :: u32) = 50000" by simp
  have "\<exists>k\<le>50000. ?hit k"
    using assms unfolding ctxt_hw_def QDMA_REG_POLL_DFLT_INTERVAL_US_def by blast
  moreover have "(0 :: u32) < 10" "(10 :: u32) \<le> 500000" "(500000 :: u32) < 0x80000000" by simp_all
  ultimately obtain k where hit: "?hit k"
    and run: "hw_monitor_reg env QDMA_OFFSET_IND_CTXT_CMD QDMA_IND_CTXT_CMD_BUSY_MASK 0 10 500000 s =
      (0, before_poll env QDMA_OFFSET_IND_CTXT_CMD 10 k s @
        [Reg_read QDMA_OFFSET_IND_CTXT_CMD (env (before_poll env QDMA_OFFSET_IND_CTXT_CMD 10 k s) QDMA_OFFSET_IND_CTXT_CMD)])"
    using hw_monitor_reg_exact [of 10 500000 env QDMA_OFFSET_IND_CTXT_CMD QDMA_IND_CTXT_CMD_BUSY_MASK 0 s, unfolded n]
    by blast
  then show ?thesis
    by (simp add: wait_ctxt_cmd_def QDMA_REG_POLL_DFLT_INTERVAL_US_def QDMA_REG_POLL_DFLT_TIMEOUT_US_def
        poll_hits_def before_poll_reads)
qed

lemma read_regs_log: "\<exists>es. snd (read_regs env a n s) = s @ es \<and> (\<forall>e\<in>set es. \<exists>x y. e = Reg_read x y)"
proof (induction n arbitrary: a s)
  case (Suc n)
  obtain es where "snd (read_regs env (a + 4) n (s @ [Reg_read a (env s a)])) =
      (s @ [Reg_read a (env s a)]) @ es" "\<forall>e\<in>set es. \<exists>x y. e = Reg_read x y"
    using Suc.IH by blast
  then show ?case
    by (intro exI [of _ "Reg_read a (env s a) # es"]) (simp add: qdma_reg_read_def case_prod_unfold Let_def)
qed simp

lemma fold_reads: "\<forall>e\<in>set es. \<exists>x y. e = Reg_read x y \<Longrightarrow> fold ctxt_step es d = d"
  by (induction es) auto

lemma read_regs_dev: "ctxt_dev_of (snd (read_regs env a n s)) = ctxt_dev_of s"
  using read_regs_log [of env a n s] fold_reads by (auto simp: ctxt_dev_of_append)

definition pad_words :: "u32 list \<Rightarrow> u32 list" where
  "pad_words data = map (\<lambda>i. if i < length data then data ! i else 0) [0..<8]"

text \<open>The 17 words of a write command.\<close>

lemma ctxt_regs_cases:
  obtains d0 d1 d2 d3 d4 d5 d6 d7 where "pad_words data = [d0, d1, d2, d3, d4, d5, d6, d7]"
    "indirect_ctxt_regs data cmd = [d0, d1, d2, d3, d4, d5, d6, d7, 0xFFFFFFFF, 0xFFFFFFFF, 0xFFFFFFFF,
       0xFFFFFFFF, 0xFFFFFFFF, 0xFFFFFFFF, 0xFFFFFFFF, 0xFFFFFFFF, cmd]"
proof -
  have "length (pad_words data) = 8" by (simp add: pad_words_def)
  then obtain d0 d1 d2 d3 d4 d5 d6 d7 where d: "pad_words data = [d0, d1, d2, d3, d4, d5, d6, d7]"
    by (auto simp: numeral_eq_Suc length_Suc_conv)
  have "indirect_ctxt_regs data cmd = pad_words data @ replicate 8 0xFFFFFFFF @ [cmd]"
    by (simp add: indirect_ctxt_regs_def pad_words_def QDMA_IND_CTXT_DATA_NUM_REGS_def)
  moreover have "replicate 8 (x :: u32) = [x, x, x, x, x, x, x, x]" for x
    by (simp add: numeral_eq_Suc)
  ultimately show thesis using d that by simp
qed

lemma indirect_write_words:
  assumes "ctxt_hw env" "length data \<le> 8"
    and "qdma_indirect_reg_write env sel qid data s = (rv, s')"
  shows "rv = 0" "settled s'" "ctxt_words s' = (ctxt_words s)(ctxt_key_of sel qid := map Some (pad_words data))"
proof -
  let ?cmd = "qdma_ind_ctxt_cmd sel QDMA_CTXT_CMD_WR qid"
  let ?s = "write_regs QDMA_OFFSET_IND_CTXT_DATA (indirect_ctxt_regs data ?cmd) (qdma_reg_access_lock s)"
  obtain t where w: "wait_ctxt_cmd env ?s = (0, t)" "settled t" "ctxt_dev_of t = ctxt_dev_of ?s"
    using wait_ctxt_cmd_ok [OF assms(1)] by blast
  then have s': "s' = t @ [Reg_unlock]" and rv: "rv = 0"
    using assms(3) by (auto simp: qdma_indirect_reg_write_def qdma_reg_access_release_def Let_def)
  show "rv = 0" "settled s'" by (simp_all add: rv s' w(2))
  obtain d0 d1 d2 d3 d4 d5 d6 d7 where d: "pad_words data = [d0, d1, d2, d3, d4, d5, d6, d7]"
    "indirect_ctxt_regs data ?cmd = [d0, d1, d2, d3, d4, d5, d6, d7, 0xFFFFFFFF, 0xFFFFFFFF, 0xFFFFFFFF,
       0xFFFFFFFF, 0xFFFFFFFF, 0xFFFFFFFF, 0xFFFFFFFF, 0xFFFFFFFF, ?cmd]"
    by (rule ctxt_regs_cases)
  have "cd_ram (ctxt_dev_of ?s) =
      (cd_ram (ctxt_dev_of s))(ctxt_key_of sel qid := map Some (pad_words data))"
    by (simp add: d QDMA_OFFSET_IND_CTXT_DATA_def QDMA_OFFSET_IND_CTXT_CMD_def qdma_reg_write_def
        qdma_reg_access_lock_def ctxt_cmd_def data_addrs_def mask_addrs_def Let_def)
  then show "ctxt_words s' = (ctxt_words s)(ctxt_key_of sel qid := map Some (pad_words data))"
    by (simp add: ctxt_words_def s' w(3))
qed

text \<open>The commands without data.\<close>

lemma command_done:
  assumes "ctxt_hw env"
  obtains t where "wait_ctxt_cmd env (s @ [Reg_lock, Reg_write QDMA_OFFSET_IND_CTXT_CMD cmd]) = (0, t)"
    "settled t" "ctxt_dev_of t = ctxt_cmd cmd (ctxt_dev_of s)"
  using wait_ctxt_cmd_ok [OF assms, of "s @ [Reg_lock, Reg_write QDMA_OFFSET_IND_CTXT_CMD cmd]"] by auto

lemma indirect_clear_words:
  assumes "ctxt_hw env" and r: "qdma_indirect_reg_clear env sel qid s = (rv, s')"
  shows "rv = 0" "settled s'" "ctxt_words s' = (ctxt_words s)(ctxt_key_of sel qid := replicate 8 (Some 0))"
proof -
  let ?cmd = "qdma_ind_ctxt_cmd sel QDMA_CTXT_CMD_CLR qid"
  obtain t where t: "wait_ctxt_cmd env (s @ [Reg_lock, Reg_write QDMA_OFFSET_IND_CTXT_CMD ?cmd]) = (0, t)"
    "settled t" "ctxt_dev_of t = ctxt_cmd ?cmd (ctxt_dev_of s)"
    by (rule command_done [OF assms(1)])
  have "rv = 0" "s' = t @ [Reg_unlock]"
    using r t(1) by (simp_all add: qdma_indirect_reg_clear_def qdma_reg_access_release_def
        qdma_reg_access_lock_def qdma_reg_write_def)
  then show "rv = 0" "settled s'"
    "ctxt_words s' = (ctxt_words s)(ctxt_key_of sel qid := replicate 8 (Some 0))"
    using t(2,3) by (simp_all add: ctxt_words_def ctxt_cmd_def Let_def)
qed

lemma indirect_invalidate_words:
  assumes "ctxt_hw env" and r: "qdma_indirect_reg_invalidate env sel qid s = (rv, s')"
  shows "rv = 0" "settled s'" "ctxt_words s' = (ctxt_words s)(ctxt_key_of sel qid := replicate 8 None)"
proof -
  let ?cmd = "qdma_ind_ctxt_cmd sel QDMA_CTXT_CMD_INV qid"
  obtain t where t: "wait_ctxt_cmd env (s @ [Reg_lock, Reg_write QDMA_OFFSET_IND_CTXT_CMD ?cmd]) = (0, t)"
    "settled t" "ctxt_dev_of t = ctxt_cmd ?cmd (ctxt_dev_of s)"
    by (rule command_done [OF assms(1)])
  have "rv = 0" "s' = t @ [Reg_unlock]"
    using r t(1) by (simp_all add: qdma_indirect_reg_invalidate_def qdma_reg_access_release_def
        qdma_reg_access_lock_def qdma_reg_write_def)
  then show "rv = 0" "settled s'"
    "ctxt_words s' = (ctxt_words s)(ctxt_key_of sel qid := replicate 8 None)"
    using t(2,3) by (simp_all add: ctxt_words_def ctxt_cmd_def Let_def)
qed

text \<open>Reading consecutive registers whose content is known.\<close>

lemma read_regs_known:
  assumes "ctxt_hw env" "settled s"
    and "\<And>i. i < n \<Longrightarrow> a + 4 * of_nat i \<in> set data_addrs \<and>
      cd_regs (ctxt_dev_of s) (a + 4 * of_nat i) = Some (f i)"
  shows "fst (read_regs env a n s) = map f [0..<n] \<and> settled (snd (read_regs env a n s))"
  using assms(2,3)
proof (induction n arbitrary: a s f)
  case (Suc n)
  have a: "a \<in> set data_addrs" using Suc.prems(2) [of 0] by simp
  then have "a \<noteq> QDMA_OFFSET_IND_CTXT_CMD"
    by (auto simp: data_addrs_def QDMA_OFFSET_IND_CTXT_CMD_def)
  then have set: "settled (s @ [Reg_read a (env s a)])" using Suc.prems(1) by simp
  have "env s a = f 0" using Suc.prems(2) [of 0] Suc.prems(1) assms(1) by (auto simp: ctxt_hw_def)
  moreover have "fst (read_regs env (a + 4) n (s @ [Reg_read a (env s a)])) = map (\<lambda>i. f (Suc i)) [0..<n] \<and>
      settled (snd (read_regs env (a + 4) n (s @ [Reg_read a (env s a)])))"
    using Suc.prems(2) [of "Suc i" for i] by (intro Suc.IH set) (simp_all add: ac_simps)
  moreover have "map f [0..<Suc n] = f 0 # map (\<lambda>i. f (Suc i)) [0..<n]"
    by (simp add: upt_conv_Cons map_Suc_upt [symmetric] del: upt_Suc)
  ultimately show ?case by (simp add: qdma_reg_read_def case_prod_unfold Let_def)
qed simp

text \<open>The words of a context that is known completely are read back.\<close>

lemma indirect_read_words:
  assumes hw: "ctxt_hw env" and n: "n \<le> 8"
    and known: "ctxt_words s (ctxt_key_of sel qid) = map Some ws" "length ws = 8"
    and r: "qdma_indirect_reg_read env sel qid n s = (rv, data, s')"
  shows "rv = 0" "data = Some (take n ws)" "settled s'" "ctxt_words s' = ctxt_words s"
proof -
  let ?cmd = "qdma_ind_ctxt_cmd sel QDMA_CTXT_CMD_RD qid"
  obtain s2 where t: "wait_ctxt_cmd env (s @ [Reg_lock, Reg_write QDMA_OFFSET_IND_CTXT_CMD ?cmd]) = (0, s2)"
    "settled s2" and dev: "ctxt_dev_of s2 = ctxt_cmd ?cmd (ctxt_dev_of s)"
    by (rule command_done [OF hw])
  obtain d s3 where rd: "read_regs env QDMA_OFFSET_IND_CTXT_DATA n s2 = (d, s3)" by (metis prod.exhaust)
  have out: "rv = 0" "data = Some d" "s' = s3 @ [Reg_unlock]"
    using r t(1) rd
    by (simp_all add: qdma_indirect_reg_read_def qdma_reg_access_lock_def qdma_reg_write_def
        qdma_reg_access_release_def)
  have ram: "cd_ram (ctxt_dev_of s) (ctxt_key_of sel qid) = map Some ws"
    using known(1) by (simp add: ctxt_words_def)
  obtain w0 w1 w2 w3 w4 w5 w6 w7 where ws: "ws = [w0, w1, w2, w3, w4, w5, w6, w7]"
    using known(2) by (auto simp: numeral_eq_Suc length_Suc_conv)
  have regs: "QDMA_OFFSET_IND_CTXT_DATA + 4 * of_nat i \<in> set data_addrs \<and>
      cd_regs (ctxt_dev_of s2) (QDMA_OFFSET_IND_CTXT_DATA + 4 * of_nat i) = Some (ws ! i)"
    if "i < n" for i
  proof -
    have "i = 0 \<or> i = 1 \<or> i = 2 \<or> i = 3 \<or> i = 4 \<or> i = 5 \<or> i = 6 \<or> i = 7"
      using that n by linarith
    then show ?thesis unfolding dev
      by (elim disjE)
        (simp_all add: ctxt_cmd_def ram ws data_addrs_def QDMA_OFFSET_IND_CTXT_DATA_def Let_def)
  qed
  have d: "d = map (\<lambda>i. ws ! i) [0..<n]" "settled s3"
    using read_regs_known [OF hw t(2) regs] rd by (metis fst_conv, metis snd_conv)
  show "rv = 0" "settled s'" using out d(2) by simp_all
  show "data = Some (take n ws)" using out(2) d(1) n known(2) by (simp add: list_eq_iff_nth_eq)
  have "ctxt_dev_of s3 = ctxt_dev_of s2"
    using read_regs_dev [of env QDMA_OFFSET_IND_CTXT_DATA n s2] rd by simp
  then show "ctxt_words s' = ctxt_words s"
    unfolding out(3) by (simp add: ctxt_words_def dev ctxt_cmd_def Let_def)
qed

subsection \<open>The interface\<close>

locale context_memory =
  fixes hw :: "'env \<Rightarrow> bool"
    and words :: "'log \<Rightarrow> 'key \<Rightarrow> u32 option list"
    and key :: "'sel \<Rightarrow> 'q \<Rightarrow> 'key"
    and wr :: "'env \<Rightarrow> 'sel \<Rightarrow> 'q \<Rightarrow> u32 list \<Rightarrow> 'log \<Rightarrow> int \<times> 'log"
    and rd :: "'env \<Rightarrow> 'sel \<Rightarrow> 'q \<Rightarrow> nat \<Rightarrow> 'log \<Rightarrow> int \<times> u32 list option \<times> 'log"
    and clr :: "'env \<Rightarrow> 'sel \<Rightarrow> 'q \<Rightarrow> 'log \<Rightarrow> int \<times> 'log"
    and inv :: "'env \<Rightarrow> 'sel \<Rightarrow> 'q \<Rightarrow> 'log \<Rightarrow> int \<times> 'log"
  assumes wr_law: "hw env \<Longrightarrow> length data \<le> 8 \<Longrightarrow> wr env sel q data s = (rv, s') \<Longrightarrow>
      rv = 0 \<and> words s' = (words s)(key sel q := map Some (pad_words data))"
    and rd_law: "hw env \<Longrightarrow> n \<le> 8 \<Longrightarrow> words s (key sel q) = map Some ws \<Longrightarrow> length ws = 8 \<Longrightarrow>
      rd env sel q n s = (rv, d, s') \<Longrightarrow> rv = 0 \<and> d = Some (take n ws) \<and> words s' = words s"
    and clr_law: "hw env \<Longrightarrow> clr env sel q s = (rv, s') \<Longrightarrow>
      rv = 0 \<and> words s' = (words s)(key sel q := replicate 8 (Some 0))"
    and inv_law: "hw env \<Longrightarrow> inv env sel q s = (rv, s') \<Longrightarrow>
      rv = 0 \<and> words s' = (words s)(key sel q := replicate 8 None)"
begin

lemma read_known:
  assumes "hw env" "n \<le> length data" "length data \<le> 8" "words s (key sel q) = map Some (pad_words data)"
    and "rd env sel q n s = (rv, d, s')"
  shows "rv = 0 \<and> d = Some (take n data) \<and> words s' = words s"
proof -
  have "length (pad_words data) = 8" "take n (pad_words data) = take n data"
    using assms(2,3) by (simp_all add: pad_words_def list_eq_iff_nth_eq)
  then show ?thesis using rd_law [OF assms(1) _ assms(4) _ assms(5)] assms(2,3) by simp
qed

lemma write_then_read:
  assumes "hw env" "n \<le> length data" "length data \<le> 8"
    and "wr env sel q data s = (rv, s1)" "rd env sel q n s1 = (rv', d, s2)"
  shows "rv = 0 \<and> rv' = 0 \<and> d = Some (take n data)"
  using wr_law [OF assms(1,3,4)] read_known [OF assms(1-3) _ assms(5)] by simp

lemma write_other_read:
  assumes "hw env" "n \<le> length data" "length data \<le> 8" "length data' \<le> 8"
    and "key sel q \<noteq> key sel' q'"
    and "wr env sel q data s = (rv, s1)" "wr env sel' q' data' s1 = (rv1, s2)"
    and "rd env sel q n s2 = (rv2, d, s3)"
  shows "rv2 = 0 \<and> d = Some (take n data)"
  using wr_law [OF assms(1,3,6)] wr_law [OF assms(1,4,7)] read_known [OF assms(1-3) _ assms(8)] assms(5)
  by simp

lemma clear_then_read:
  assumes "hw env" "n \<le> 8" "clr env sel q s = (rv, s1)" "rd env sel q n s1 = (rv', d, s2)"
  shows "rv = 0 \<and> rv' = 0 \<and> d = Some (replicate n 0)"
  using clr_law [OF assms(1,3)] rd_law [OF assms(1,2) _ _ assms(4), of "replicate 8 0"] assms(2)
  by (simp add: map_replicate min_def)

end

interpretation ind_ctxt: context_memory ctxt_hw ctxt_words ctxt_key_of
  qdma_indirect_reg_write qdma_indirect_reg_read qdma_indirect_reg_clear qdma_indirect_reg_invalidate
  by unfold_locales
    (blast dest: indirect_write_words indirect_read_words indirect_clear_words indirect_invalidate_words)+

subsection \<open>Lock discipline\<close>

text \<open>The registers of the interface and the accesses that give a command.\<close>

definition ctxt_reg :: "u32 \<Rightarrow> bool" where
  "ctxt_reg a \<longleftrightarrow> QDMA_OFFSET_IND_CTXT_DATA \<le> a \<and> a \<le> QDMA_OFFSET_IND_CTXT_CMD"

fun gives_command :: "hw_event \<Rightarrow> bool" where
  "gives_command (Reg_write a v) \<longleftrightarrow> a = QDMA_OFFSET_IND_CTXT_CMD"
| "gives_command _ \<longleftrightarrow> False"

text \<open>
  \<open>under_lock n s s'\<close>: between the logs the lock is neither taken nor released and \<open>n\<close>
  commands are given.
\<close>

definition under_lock :: "nat \<Rightarrow> hw_log \<Rightarrow> hw_log \<Rightarrow> bool" where
  "under_lock n s s' \<longleftrightarrow>
     (\<exists>es. s' = s @ es \<and> Reg_lock \<notin> set es \<and> Reg_unlock \<notin> set es \<and> length (filter gives_command es) = n)"

lemma under_lock_trans:
  assumes "under_lock m s s'" "under_lock n s' s''"
  shows "under_lock (m + n) s s''"
proof -
  obtain es fs where "s' = s @ es" "Reg_lock \<notin> set es" "Reg_unlock \<notin> set es" "length (filter gives_command es) = m"
    "s'' = s' @ fs" "Reg_lock \<notin> set fs" "Reg_unlock \<notin> set fs" "length (filter gives_command fs) = n"
    using assms by (auto simp: under_lock_def)
  then show ?thesis unfolding under_lock_def by (intro exI [of _ "es @ fs"]) simp
qed

lemma under_lock_quiet: "under_lock n s s' \<Longrightarrow> under_lock 0 s' s'' \<Longrightarrow> under_lock n s s''"
  using under_lock_trans by fastforce

lemma under_lock_step:
  "under_lock (if a = QDMA_OFFSET_IND_CTXT_CMD then 1 else 0) s (qdma_reg_write a v s)"
  "under_lock 0 s (snd (qdma_reg_read env a s))"
  "under_lock 0 s (qdma_udelay us s)"
  by (auto simp: under_lock_def qdma_reg_write_def qdma_reg_read_def qdma_udelay_def)

lemma under_lock_refl [simp]: "under_lock 0 s s"
  by (simp add: under_lock_def)

lemma under_lock_poll: "under_lock 0 s (snd (poll_loop env reg msk val iv n s))"
proof (induction n arbitrary: s)
  case 0
  then show ?case using under_lock_step(2) by (simp add: qdma_reg_read_def)
next
  case (Suc n)
  then show ?case
    using under_lock_step(2) [of s env reg] under_lock_step(3) under_lock_quiet
    by (auto simp: qdma_reg_read_def Let_def) blast
qed

lemma under_lock_wait: "under_lock 0 s (snd (wait_ctxt_cmd env s))"
  by (simp add: wait_ctxt_cmd_def hw_monitor_reg_def Let_def under_lock_poll)

lemma under_lock_reads: "under_lock 0 s (snd (read_regs env a n s))"
proof (induction n arbitrary: a s)
  case (Suc n)
  then show ?case
    using under_lock_step(2) [of s env a] under_lock_quiet
    by (auto simp: qdma_reg_read_def Let_def case_prod_unfold)
qed simp

text \<open>A write command is the last of the 17 words.\<close>

lemma under_lock_writes:
  "under_lock 1 s (write_regs QDMA_OFFSET_IND_CTXT_DATA (indirect_ctxt_regs data cmd) s)"
proof -
  obtain d0 d1 d2 d3 d4 d5 d6 d7 where
    "indirect_ctxt_regs data cmd = [d0, d1, d2, d3, d4, d5, d6, d7, 0xFFFFFFFF, 0xFFFFFFFF, 0xFFFFFFFF,
       0xFFFFFFFF, 0xFFFFFFFF, 0xFFFFFFFF, 0xFFFFFFFF, 0xFFFFFFFF, cmd]"
    by (rule ctxt_regs_cases)
  then show ?thesis
    by (simp add: under_lock_def QDMA_OFFSET_IND_CTXT_DATA_def QDMA_OFFSET_IND_CTXT_CMD_def qdma_reg_write_def)
qed

text \<open>One critical section: one pair of lock operations around everything else, one command.\<close>

definition critical :: "hw_log \<Rightarrow> hw_log \<Rightarrow> bool" where
  "critical s s' \<longleftrightarrow>
     (\<exists>es. s' = s @ Reg_lock # es @ [Reg_unlock] \<and> Reg_lock \<notin> set es \<and> Reg_unlock \<notin> set es \<and>
        length (filter gives_command es) = 1)"

lemma criticalI:
  "under_lock 1 (qdma_reg_access_lock s) s1 \<Longrightarrow> critical s (qdma_reg_access_release s1)"
  by (auto simp: under_lock_def critical_def qdma_reg_access_lock_def qdma_reg_access_release_def)

lemmas under_lock_later =
  under_lock_quiet [OF _ under_lock_wait] under_lock_quiet [OF _ under_lock_reads]
  under_lock_writes under_lock_step(1) [of QDMA_OFFSET_IND_CTXT_CMD, simplified]

lemma indirect_critical:
  "critical s (snd (qdma_indirect_reg_write env sel qid data s))"
  "critical s (snd (snd (qdma_indirect_reg_read env sel qid n s)))"
  "critical s (snd (qdma_indirect_reg_clear env sel qid s))"
  "critical s (snd (qdma_indirect_reg_invalidate env sel qid s))"
  by (auto simp: qdma_indirect_reg_write_def qdma_indirect_reg_read_def qdma_indirect_reg_clear_def
      qdma_indirect_reg_invalidate_def Let_def case_prod_unfold
      intro!: criticalI under_lock_later)

text \<open>
  C24: The context registers are only used inside one critical section. For every device,
  including one that never finishes a command, each indirect operation takes the register
  lock exactly once, as its first action, and releases it exactly once, as its last one, on
  every path, the timeouts included; everything else it does lies between the two, and
  exactly one command is given there.
\<close>

theorem indirect_lock_discipline:
  "critical s (snd (qdma_indirect_reg_write env sel qid data s)) \<and>
   critical s (snd (snd (qdma_indirect_reg_read env sel qid n s))) \<and>
   critical s (snd (qdma_indirect_reg_clear env sel qid s)) \<and>
   critical s (snd (qdma_indirect_reg_invalidate env sel qid s))"
  by (intro conjI indirect_critical)

text \<open>
  C2: The indirect operations refine a context memory. On a device that may be busy after
  every command but clears the busy bit within the polls the driver allows it, and whose
  data registers only hold the words when no command is pending, a write command
  followed by a read of the same context returns the words written, also when another
  context is written in between; two contexts are the same only when the kind and the low
  11 bits of the queue number agree. Each operation returns 0, and only after a read of
  the command register that found its command finished.
\<close>

theorem indirect_context_memory:
  assumes "ctxt_hw env" "n \<le> length data" "length data \<le> 8" "length data' \<le> 8"
    and "sel \<noteq> sel' \<or> take_bit 11 (ucast qid :: u32) \<noteq> take_bit 11 (ucast qid')"
    and "qdma_indirect_reg_write env sel qid data s = (rv, s1)"
    and "qdma_indirect_reg_write env sel' qid' data' s1 = (rv1, s2)"
    and "qdma_indirect_reg_read env sel qid n s2 = (rv2, d, s3)"
  shows "rv = 0 \<and> rv1 = 0 \<and> rv2 = 0 \<and> d = Some (take n data) \<and> settled s1 \<and> settled s2 \<and> settled s3"
proof -
  have "ctxt_key_of sel qid \<noteq> ctxt_key_of sel' qid'"
    using assms(5) by (simp add: ctxt_key_of_def sel_code_inj)
  then have w: "ctxt_words s2 (ctxt_key_of sel qid) = map Some (pad_words data)"
    using ind_ctxt.wr_law [OF assms(1,3,6)] ind_ctxt.wr_law [OF assms(1,4,7)] by simp
  have "length (pad_words data) = 8" "n \<le> 8" using assms(2,3) by (simp_all add: pad_words_def)
  then have "settled s3" using indirect_read_words(3) [OF assms(1) _ w _ assms(8)] by blast
  then show ?thesis
    using ind_ctxt.read_known [OF assms(1-3) w assms(8)] indirect_write_words(1,2) [OF assms(1,3,6)]
      indirect_write_words(1,2) [OF assms(1,4,7)] by simp
qed

theorem indirect_context_memory_witness:
  "\<exists>s1 s2 s3. qdma_indirect_reg_write ref_hw QDMA_CTXT_SEL_CMPT 5 [1, 2, 3] [] = (0, s1) \<and>
     qdma_indirect_reg_write ref_hw QDMA_CTXT_SEL_CMPT 6 [7] s1 = (0, s2) \<and>
     qdma_indirect_reg_read ref_hw QDMA_CTXT_SEL_CMPT 5 2 s2 = (0, Some [1, 2], s3) \<and> settled s3 \<and>
     ref_hw [Reg_write QDMA_OFFSET_IND_CTXT_CMD 0] QDMA_OFFSET_IND_CTXT_CMD = 1"
proof -
  obtain rv s1 where a: "qdma_indirect_reg_write ref_hw QDMA_CTXT_SEL_CMPT 5 [1, 2, 3] [] = (rv, s1)"
    by (metis prod.exhaust)
  obtain rv1 s2 where b: "qdma_indirect_reg_write ref_hw QDMA_CTXT_SEL_CMPT 6 [7] s1 = (rv1, s2)"
    by (metis prod.exhaust)
  obtain rv2 d s3 where c: "qdma_indirect_reg_read ref_hw QDMA_CTXT_SEL_CMPT 5 2 s2 = (rv2, d, s3)"
    by (metis prod_cases3)
  have "rv = 0 \<and> rv1 = 0 \<and> rv2 = 0 \<and> d = Some (take 2 [1, 2, 3]) \<and> settled s1 \<and> settled s2 \<and> settled s3"
    using indirect_context_memory [OF ref_hw_ok _ _ _ _ a b c] by simp
  then show ?thesis using a b c ref_hw_busy [of "[]"] by simp
qed

end
