(* ===== verification/Soft_Context.thy ===== *)
theory Soft_Context
  imports Ctxt_Memory
begin

text \<open>
  The queue contexts of the soft IP (\<^verbatim>\<open>qdma_soft_access/qdma_soft_access.c\<close>, lines 2383 to
  3794): software, hardware, credit, prefetch, completion, interrupt and function-map
  contexts. Each is a C structure packed into up to five words and kept in the indirect
  context memory of theory Ctxt_Memory. A \<open>None\<close> device or context is a null pointer.
\<close>

subsection \<open>The structures\<close>

record qdma_fmap_cfg =
  fm_qbase :: u16
  fm_qmax :: u16

record qdma_descq_sw_ctxt =
  sw_ring_bs_addr :: u64
  sw_vec :: u16
  sw_pidx :: u16
  sw_irq_arm :: u8
  sw_fnc_id :: u8
  sw_qen :: u8
  sw_frcd_en :: u8
  sw_wbi_chk :: u8
  sw_wbi_intvl_en :: u8
  sw_at :: u8
  sw_fetch_max :: u8
  sw_rngsz_idx :: u8
  sw_desc_sz :: u8
  sw_bypass :: u8
  sw_mm_chn :: u8
  sw_wbk_en :: u8
  sw_irq_en :: u8
  sw_port_id :: u8
  sw_irq_no_last :: u8
  sw_err :: u8
  sw_err_wb_sent :: u8
  sw_irq_req :: u8
  sw_mrkr_dis :: u8
  sw_is_mm :: u8
  sw_intr_aggr :: u8
  sw_pasid_en :: u8
  sw_dis_intr_on_vf :: u8
  sw_virtio_en :: u8
  sw_pack_byp_out :: u8
  sw_irq_byp :: u8
  sw_host_id :: u8
  sw_pasid :: u32
  sw_virtio_dsc_base :: u64

record qdma_descq_hw_ctxt =
  hw_cidx :: u16
  hw_crd_use :: u16
  hw_dsc_pend :: u8
  hw_idl_stp_b :: u8
  hw_evt_pnd :: u8
  hw_fetch_pnd :: u8

record qdma_descq_credit_ctxt =
  cr_credit :: u32

record qdma_descq_prefetch_ctxt =
  pf_sw_crdt :: u16
  pf_bypass :: u8
  pf_bufsz_idx :: u8
  pf_port_id :: u8
  pf_var_desc :: u8
  pf_num_pftch :: u16
  pf_err :: u8
  pf_pfch_en :: u8
  pf_pfch :: u8
  pf_valid :: u8

record qdma_descq_cmpt_ctxt =
  cm_bs_addr :: u64
  cm_vec :: u16
  cm_pidx :: u16
  cm_cidx :: u16
  cm_en_stat_desc :: u8
  cm_en_int :: u8
  cm_trig_mode :: u8
  cm_fnc_id :: u8
  cm_counter_idx :: u8
  cm_timer_idx :: u8
  cm_in_st :: u8
  cm_color :: u8
  cm_ringsz_idx :: u8
  cm_desc_sz :: u8
  cm_valid :: u8
  cm_err :: u8
  cm_user_trig_pend :: u8
  cm_timer_running :: u8
  cm_full_upd :: u8
  cm_ovf_chk_dis :: u8
  cm_at :: u8
  cm_int_aggr :: u8
  cm_dis_intr_on_vf :: u8
  cm_vio :: u8
  cm_dir_c2h :: u8
  cm_host_id :: u8
  cm_pasid :: u32
  cm_pasid_en :: u8
  cm_vio_eop :: u8
  cm_sh_cmpt :: u8

record qdma_indirect_intr_ctxt =
  ii_baddr_4k :: u64
  ii_vec :: u16
  ii_pidx :: u16
  ii_valid :: u8
  ii_int_st :: u8
  ii_color :: u8
  ii_page_size :: u8
  ii_at :: u8
  ii_host_id :: u8
  ii_pasid :: u32
  ii_pasid_en :: u8
  ii_func_id :: u16

subsection \<open>The masks\<close>

definition QDMA_PFTCH_CTXT_SW_CRDT_GET_H_MASK :: u32 where "QDMA_PFTCH_CTXT_SW_CRDT_GET_H_MASK = GENMASK 15 3"
definition QDMA_PFTCH_CTXT_SW_CRDT_GET_L_MASK :: u32 where "QDMA_PFTCH_CTXT_SW_CRDT_GET_L_MASK = GENMASK 2 0"
definition QDMA_COMPL_CTXT_BADDR_GET_H_MASK :: u64 where "QDMA_COMPL_CTXT_BADDR_GET_H_MASK = GENMASK_ULL 63 38"
definition QDMA_COMPL_CTXT_BADDR_GET_L_MASK :: u64 where "QDMA_COMPL_CTXT_BADDR_GET_L_MASK = GENMASK_ULL 37 12"
definition QDMA_COMPL_CTXT_PIDX_GET_H_MASK :: u32 where "QDMA_COMPL_CTXT_PIDX_GET_H_MASK = GENMASK 15 4"
definition QDMA_COMPL_CTXT_PIDX_GET_L_MASK :: u32 where "QDMA_COMPL_CTXT_PIDX_GET_L_MASK = GENMASK 3 0"
definition QDMA_INTR_CTXT_BADDR_GET_H_MASK :: u64 where "QDMA_INTR_CTXT_BADDR_GET_H_MASK = GENMASK_ULL 63 61"
definition QDMA_INTR_CTXT_BADDR_GET_M_MASK :: u64 where "QDMA_INTR_CTXT_BADDR_GET_M_MASK = GENMASK_ULL 60 29"
definition QDMA_INTR_CTXT_BADDR_GET_L_MASK :: u64 where "QDMA_INTR_CTXT_BADDR_GET_L_MASK = GENMASK_ULL 28 12"
definition QDMA_FMAP_CTXT_W1_QID_MAX_MASK :: u32 where "QDMA_FMAP_CTXT_W1_QID_MAX_MASK = GENMASK 11 0"
definition QDMA_FMAP_CTXT_W0_QID_MASK :: u32 where "QDMA_FMAP_CTXT_W0_QID_MASK = GENMASK 10 0"
definition QDMA_SW_CTXT_W4_INTR_AGGR_MASK :: u32 where "QDMA_SW_CTXT_W4_INTR_AGGR_MASK = BIT 11"
definition QDMA_SW_CTXT_W4_VEC_MASK :: u32 where "QDMA_SW_CTXT_W4_VEC_MASK = GENMASK 10 0"
definition QDMA_SW_CTXT_W3_DSC_H_MASK :: u32 where "QDMA_SW_CTXT_W3_DSC_H_MASK = GENMASK 31 0"
definition QDMA_SW_CTXT_W2_DSC_L_MASK :: u32 where "QDMA_SW_CTXT_W2_DSC_L_MASK = GENMASK 31 0"
definition QDMA_SW_CTXT_W1_IS_MM_MASK :: u32 where "QDMA_SW_CTXT_W1_IS_MM_MASK = BIT 31"
definition QDMA_SW_CTXT_W1_MRKR_DIS_MASK :: u32 where "QDMA_SW_CTXT_W1_MRKR_DIS_MASK = BIT 30"
definition QDMA_SW_CTXT_W1_IRQ_REQ_MASK :: u32 where "QDMA_SW_CTXT_W1_IRQ_REQ_MASK = BIT 29"
definition QDMA_SW_CTXT_W1_ERR_WB_SENT_MASK :: u32 where "QDMA_SW_CTXT_W1_ERR_WB_SENT_MASK = BIT 28"
definition QDMA_SW_CTXT_W1_ERR_MASK :: u32 where "QDMA_SW_CTXT_W1_ERR_MASK = GENMASK 27 26"
definition QDMA_SW_CTXT_W1_IRQ_NO_LAST_MASK :: u32 where "QDMA_SW_CTXT_W1_IRQ_NO_LAST_MASK = BIT 25"
definition QDMA_SW_CTXT_W1_PORT_ID_MASK :: u32 where "QDMA_SW_CTXT_W1_PORT_ID_MASK = GENMASK 24 22"
definition QDMA_SW_CTXT_W1_IRQ_EN_MASK :: u32 where "QDMA_SW_CTXT_W1_IRQ_EN_MASK = BIT 21"
definition QDMA_SW_CTXT_W1_WBK_EN_MASK :: u32 where "QDMA_SW_CTXT_W1_WBK_EN_MASK = BIT 20"
definition QDMA_SW_CTXT_W1_MM_CHN_MASK :: u32 where "QDMA_SW_CTXT_W1_MM_CHN_MASK = BIT 19"
definition QDMA_SW_CTXT_W1_BYP_MASK :: u32 where "QDMA_SW_CTXT_W1_BYP_MASK = BIT 18"
definition QDMA_SW_CTXT_W1_DSC_SZ_MASK :: u32 where "QDMA_SW_CTXT_W1_DSC_SZ_MASK = GENMASK 17 16"
definition QDMA_SW_CTXT_W1_RNG_SZ_MASK :: u32 where "QDMA_SW_CTXT_W1_RNG_SZ_MASK = GENMASK 15 12"
definition QDMA_SW_CTXT_W1_FETCH_MAX_MASK :: u32 where "QDMA_SW_CTXT_W1_FETCH_MAX_MASK = GENMASK 7 5"
definition QDMA_SW_CTXT_W1_AT_MASK :: u32 where "QDMA_SW_CTXT_W1_AT_MASK = BIT 4"
definition QDMA_SW_CTXT_W1_WB_INT_EN_MASK :: u32 where "QDMA_SW_CTXT_W1_WB_INT_EN_MASK = BIT 3"
definition QDMA_SW_CTXT_W1_WBI_CHK_MASK :: u32 where "QDMA_SW_CTXT_W1_WBI_CHK_MASK = BIT 2"
definition QDMA_SW_CTXT_W1_FCRD_EN_MASK :: u32 where "QDMA_SW_CTXT_W1_FCRD_EN_MASK = BIT 1"
definition QDMA_SW_CTXT_W1_QEN_MASK :: u32 where "QDMA_SW_CTXT_W1_QEN_MASK = BIT 0"
definition QDMA_SW_CTXT_W0_FUNC_ID_MASK :: u32 where "QDMA_SW_CTXT_W0_FUNC_ID_MASK = GENMASK 24 17"
definition QDMA_SW_CTXT_W0_IRQ_ARM_MASK :: u32 where "QDMA_SW_CTXT_W0_IRQ_ARM_MASK = BIT 16"
definition QDMA_SW_CTXT_W0_PIDX :: u32 where "QDMA_SW_CTXT_W0_PIDX = GENMASK 15 0"
definition QDMA_PFTCH_CTXT_W1_VALID_MASK :: u32 where "QDMA_PFTCH_CTXT_W1_VALID_MASK = BIT 13"
definition QDMA_PFTCH_CTXT_W1_SW_CRDT_H_MASK :: u32 where "QDMA_PFTCH_CTXT_W1_SW_CRDT_H_MASK = GENMASK 12 0"
definition QDMA_PFTCH_CTXT_W0_SW_CRDT_L_MASK :: u32 where "QDMA_PFTCH_CTXT_W0_SW_CRDT_L_MASK = GENMASK 31 29"
definition QDMA_PFTCH_CTXT_W0_Q_IN_PFETCH_MASK :: u32 where "QDMA_PFTCH_CTXT_W0_Q_IN_PFETCH_MASK = BIT 28"
definition QDMA_PFTCH_CTXT_W0_PFETCH_EN_MASK :: u32 where "QDMA_PFTCH_CTXT_W0_PFETCH_EN_MASK = BIT 27"
definition QDMA_PFTCH_CTXT_W0_ERR_MASK :: u32 where "QDMA_PFTCH_CTXT_W0_ERR_MASK = BIT 26"
definition QDMA_PFTCH_CTXT_W0_PORT_ID_MASK :: u32 where "QDMA_PFTCH_CTXT_W0_PORT_ID_MASK = GENMASK 7 5"
definition QDMA_PFTCH_CTXT_W0_BUF_SIZE_IDX_MASK :: u32 where "QDMA_PFTCH_CTXT_W0_BUF_SIZE_IDX_MASK = GENMASK 4 1"
definition QDMA_PFTCH_CTXT_W0_BYPASS_MASK :: u32 where "QDMA_PFTCH_CTXT_W0_BYPASS_MASK = BIT 0"
definition QDMA_COMPL_CTXT_W4_INTR_AGGR_MASK :: u32 where "QDMA_COMPL_CTXT_W4_INTR_AGGR_MASK = BIT 15"
definition QDMA_COMPL_CTXT_W4_INTR_VEC_MASK :: u32 where "QDMA_COMPL_CTXT_W4_INTR_VEC_MASK = GENMASK 14 4"
definition QDMA_COMPL_CTXT_W4_AT_MASK :: u32 where "QDMA_COMPL_CTXT_W4_AT_MASK = BIT 3"
definition QDMA_COMPL_CTXT_W4_OVF_CHK_DIS_MASK :: u32 where "QDMA_COMPL_CTXT_W4_OVF_CHK_DIS_MASK = BIT 2"
definition QDMA_COMPL_CTXT_W4_FULL_UPDT_MASK :: u32 where "QDMA_COMPL_CTXT_W4_FULL_UPDT_MASK = BIT 1"
definition QDMA_COMPL_CTXT_W4_TMR_RUN_MASK :: u32 where "QDMA_COMPL_CTXT_W4_TMR_RUN_MASK = BIT 0"
definition QDMA_COMPL_CTXT_W3_USR_TRG_PND_MASK :: u32 where "QDMA_COMPL_CTXT_W3_USR_TRG_PND_MASK = BIT 31"
definition QDMA_COMPL_CTXT_W3_ERR_MASK :: u32 where "QDMA_COMPL_CTXT_W3_ERR_MASK = GENMASK 30 29"
definition QDMA_COMPL_CTXT_W3_VALID_MASK :: u32 where "QDMA_COMPL_CTXT_W3_VALID_MASK = BIT 28"
definition QDMA_COMPL_CTXT_W3_CIDX_MASK :: u32 where "QDMA_COMPL_CTXT_W3_CIDX_MASK = GENMASK 27 12"
definition QDMA_COMPL_CTXT_W3_PIDX_H_MASK :: u32 where "QDMA_COMPL_CTXT_W3_PIDX_H_MASK = GENMASK 11 0"
definition QDMA_COMPL_CTXT_W2_PIDX_L_MASK :: u32 where "QDMA_COMPL_CTXT_W2_PIDX_L_MASK = GENMASK 31 28"
definition QDMA_COMPL_CTXT_W2_DESC_SIZE_MASK :: u32 where "QDMA_COMPL_CTXT_W2_DESC_SIZE_MASK = GENMASK 27 26"
definition QDMA_COMPL_CTXT_W2_BADDR_64_H_MASK :: u32 where "QDMA_COMPL_CTXT_W2_BADDR_64_H_MASK = GENMASK 25 0"
definition QDMA_COMPL_CTXT_W1_BADDR_64_L_MASK :: u32 where "QDMA_COMPL_CTXT_W1_BADDR_64_L_MASK = GENMASK 31 6"
definition QDMA_COMPL_CTXT_W0_RING_SZ_MASK :: u32 where "QDMA_COMPL_CTXT_W0_RING_SZ_MASK = GENMASK 31 28"
definition QDMA_COMPL_CTXT_W0_COLOR_MASK :: u32 where "QDMA_COMPL_CTXT_W0_COLOR_MASK = BIT 27"
definition QDMA_COMPL_CTXT_W0_INT_ST_MASK :: u32 where "QDMA_COMPL_CTXT_W0_INT_ST_MASK = GENMASK 26 25"
definition QDMA_COMPL_CTXT_W0_TIMER_IDX_MASK :: u32 where "QDMA_COMPL_CTXT_W0_TIMER_IDX_MASK = GENMASK 24 21"
definition QDMA_COMPL_CTXT_W0_COUNTER_IDX_MASK :: u32 where "QDMA_COMPL_CTXT_W0_COUNTER_IDX_MASK = GENMASK 20 17"
definition QDMA_COMPL_CTXT_W0_FNC_ID_MASK :: u32 where "QDMA_COMPL_CTXT_W0_FNC_ID_MASK = GENMASK 12 5"
definition QDMA_COMPL_CTXT_W0_TRIG_MODE_MASK :: u32 where "QDMA_COMPL_CTXT_W0_TRIG_MODE_MASK = GENMASK 4 2"
definition QDMA_COMPL_CTXT_W0_EN_INT_MASK :: u32 where "QDMA_COMPL_CTXT_W0_EN_INT_MASK = BIT 1"
definition QDMA_COMPL_CTXT_W0_EN_STAT_DESC_MASK :: u32 where "QDMA_COMPL_CTXT_W0_EN_STAT_DESC_MASK = BIT 0"
definition QDMA_HW_CTXT_W1_FETCH_PEND_MASK :: u32 where "QDMA_HW_CTXT_W1_FETCH_PEND_MASK = GENMASK 14 11"
definition QDMA_HW_CTXT_W1_EVENT_PEND_MASK :: u32 where "QDMA_HW_CTXT_W1_EVENT_PEND_MASK = BIT 10"
definition QDMA_HW_CTXT_W1_IDL_STP_B_MASK :: u32 where "QDMA_HW_CTXT_W1_IDL_STP_B_MASK = BIT 9"
definition QDMA_HW_CTXT_W1_DSC_PND_MASK :: u32 where "QDMA_HW_CTXT_W1_DSC_PND_MASK = BIT 8"
definition QDMA_HW_CTXT_W0_CRD_USE_MASK :: u32 where "QDMA_HW_CTXT_W0_CRD_USE_MASK = GENMASK 31 16"
definition QDMA_HW_CTXT_W0_CIDX_MASK :: u32 where "QDMA_HW_CTXT_W0_CIDX_MASK = GENMASK 15 0"
definition QDMA_CR_CTXT_W0_CREDT_MASK :: u32 where "QDMA_CR_CTXT_W0_CREDT_MASK = GENMASK 15 0"
definition QDMA_INTR_CTXT_W2_AT_MASK :: u32 where "QDMA_INTR_CTXT_W2_AT_MASK = BIT 18"
definition QDMA_INTR_CTXT_W2_PIDX_MASK :: u32 where "QDMA_INTR_CTXT_W2_PIDX_MASK = GENMASK 17 6"
definition QDMA_INTR_CTXT_W2_PAGE_SIZE_MASK :: u32 where "QDMA_INTR_CTXT_W2_PAGE_SIZE_MASK = GENMASK 5 3"
definition QDMA_INTR_CTXT_W2_BADDR_64_MASK :: u32 where "QDMA_INTR_CTXT_W2_BADDR_64_MASK = GENMASK 2 0"
definition QDMA_INTR_CTXT_W1_BADDR_64_MASK :: u32 where "QDMA_INTR_CTXT_W1_BADDR_64_MASK = GENMASK 31 0"
definition QDMA_INTR_CTXT_W0_BADDR_64_MASK :: u32 where "QDMA_INTR_CTXT_W0_BADDR_64_MASK = GENMASK 31 15"
definition QDMA_INTR_CTXT_W0_COLOR_MASK :: u32 where "QDMA_INTR_CTXT_W0_COLOR_MASK = BIT 14"
definition QDMA_INTR_CTXT_W0_INT_ST_MASK :: u32 where "QDMA_INTR_CTXT_W0_INT_ST_MASK = BIT 13"
definition QDMA_INTR_CTXT_W0_VEC_ID_MASK :: u32 where "QDMA_INTR_CTXT_W0_VEC_ID_MASK = GENMASK 11 1"
definition QDMA_INTR_CTXT_W0_VALID_MASK :: u32 where "QDMA_INTR_CTXT_W0_VALID_MASK = BIT 0"

lemmas ctxt_masks =
  QDMA_PFTCH_CTXT_SW_CRDT_GET_H_MASK_def QDMA_PFTCH_CTXT_SW_CRDT_GET_L_MASK_def
  QDMA_COMPL_CTXT_BADDR_GET_H_MASK_def QDMA_COMPL_CTXT_BADDR_GET_L_MASK_def
  QDMA_COMPL_CTXT_PIDX_GET_H_MASK_def QDMA_COMPL_CTXT_PIDX_GET_L_MASK_def
  QDMA_INTR_CTXT_BADDR_GET_H_MASK_def QDMA_INTR_CTXT_BADDR_GET_M_MASK_def
  QDMA_INTR_CTXT_BADDR_GET_L_MASK_def QDMA_FMAP_CTXT_W1_QID_MAX_MASK_def
  QDMA_FMAP_CTXT_W0_QID_MASK_def QDMA_SW_CTXT_W4_INTR_AGGR_MASK_def
  QDMA_SW_CTXT_W4_VEC_MASK_def QDMA_SW_CTXT_W3_DSC_H_MASK_def QDMA_SW_CTXT_W2_DSC_L_MASK_def
  QDMA_SW_CTXT_W1_IS_MM_MASK_def QDMA_SW_CTXT_W1_MRKR_DIS_MASK_def
  QDMA_SW_CTXT_W1_IRQ_REQ_MASK_def QDMA_SW_CTXT_W1_ERR_WB_SENT_MASK_def
  QDMA_SW_CTXT_W1_ERR_MASK_def QDMA_SW_CTXT_W1_IRQ_NO_LAST_MASK_def
  QDMA_SW_CTXT_W1_PORT_ID_MASK_def QDMA_SW_CTXT_W1_IRQ_EN_MASK_def
  QDMA_SW_CTXT_W1_WBK_EN_MASK_def QDMA_SW_CTXT_W1_MM_CHN_MASK_def QDMA_SW_CTXT_W1_BYP_MASK_def
  QDMA_SW_CTXT_W1_DSC_SZ_MASK_def QDMA_SW_CTXT_W1_RNG_SZ_MASK_def
  QDMA_SW_CTXT_W1_FETCH_MAX_MASK_def QDMA_SW_CTXT_W1_AT_MASK_def
  QDMA_SW_CTXT_W1_WB_INT_EN_MASK_def QDMA_SW_CTXT_W1_WBI_CHK_MASK_def
  QDMA_SW_CTXT_W1_FCRD_EN_MASK_def QDMA_SW_CTXT_W1_QEN_MASK_def
  QDMA_SW_CTXT_W0_FUNC_ID_MASK_def QDMA_SW_CTXT_W0_IRQ_ARM_MASK_def QDMA_SW_CTXT_W0_PIDX_def
  QDMA_PFTCH_CTXT_W1_VALID_MASK_def QDMA_PFTCH_CTXT_W1_SW_CRDT_H_MASK_def
  QDMA_PFTCH_CTXT_W0_SW_CRDT_L_MASK_def QDMA_PFTCH_CTXT_W0_Q_IN_PFETCH_MASK_def
  QDMA_PFTCH_CTXT_W0_PFETCH_EN_MASK_def QDMA_PFTCH_CTXT_W0_ERR_MASK_def
  QDMA_PFTCH_CTXT_W0_PORT_ID_MASK_def QDMA_PFTCH_CTXT_W0_BUF_SIZE_IDX_MASK_def
  QDMA_PFTCH_CTXT_W0_BYPASS_MASK_def QDMA_COMPL_CTXT_W4_INTR_AGGR_MASK_def
  QDMA_COMPL_CTXT_W4_INTR_VEC_MASK_def QDMA_COMPL_CTXT_W4_AT_MASK_def
  QDMA_COMPL_CTXT_W4_OVF_CHK_DIS_MASK_def QDMA_COMPL_CTXT_W4_FULL_UPDT_MASK_def
  QDMA_COMPL_CTXT_W4_TMR_RUN_MASK_def QDMA_COMPL_CTXT_W3_USR_TRG_PND_MASK_def
  QDMA_COMPL_CTXT_W3_ERR_MASK_def QDMA_COMPL_CTXT_W3_VALID_MASK_def
  QDMA_COMPL_CTXT_W3_CIDX_MASK_def QDMA_COMPL_CTXT_W3_PIDX_H_MASK_def
  QDMA_COMPL_CTXT_W2_PIDX_L_MASK_def QDMA_COMPL_CTXT_W2_DESC_SIZE_MASK_def
  QDMA_COMPL_CTXT_W2_BADDR_64_H_MASK_def QDMA_COMPL_CTXT_W1_BADDR_64_L_MASK_def
  QDMA_COMPL_CTXT_W0_RING_SZ_MASK_def QDMA_COMPL_CTXT_W0_COLOR_MASK_def
  QDMA_COMPL_CTXT_W0_INT_ST_MASK_def QDMA_COMPL_CTXT_W0_TIMER_IDX_MASK_def
  QDMA_COMPL_CTXT_W0_COUNTER_IDX_MASK_def QDMA_COMPL_CTXT_W0_FNC_ID_MASK_def
  QDMA_COMPL_CTXT_W0_TRIG_MODE_MASK_def QDMA_COMPL_CTXT_W0_EN_INT_MASK_def
  QDMA_COMPL_CTXT_W0_EN_STAT_DESC_MASK_def QDMA_HW_CTXT_W1_FETCH_PEND_MASK_def
  QDMA_HW_CTXT_W1_EVENT_PEND_MASK_def QDMA_HW_CTXT_W1_IDL_STP_B_MASK_def
  QDMA_HW_CTXT_W1_DSC_PND_MASK_def QDMA_HW_CTXT_W0_CRD_USE_MASK_def
  QDMA_HW_CTXT_W0_CIDX_MASK_def QDMA_CR_CTXT_W0_CREDT_MASK_def QDMA_INTR_CTXT_W2_AT_MASK_def
  QDMA_INTR_CTXT_W2_PIDX_MASK_def QDMA_INTR_CTXT_W2_PAGE_SIZE_MASK_def
  QDMA_INTR_CTXT_W2_BADDR_64_MASK_def QDMA_INTR_CTXT_W1_BADDR_64_MASK_def
  QDMA_INTR_CTXT_W0_BADDR_64_MASK_def QDMA_INTR_CTXT_W0_COLOR_MASK_def
  QDMA_INTR_CTXT_W0_INT_ST_MASK_def QDMA_INTR_CTXT_W0_VEC_ID_MASK_def
  QDMA_INTR_CTXT_W0_VALID_MASK_def

datatype qdma_hw_access_type =
  QDMA_HW_ACCESS_READ | QDMA_HW_ACCESS_WRITE | QDMA_HW_ACCESS_CLEAR | QDMA_HW_ACCESS_INVALIDATE
| QDMA_HW_ACCESS_MAX

subsection \<open>Packing and unpacking\<close>

text \<open>
  The words a write packs a structure into, in the order of the array the code fills, and
  the fields a read takes out of the words it got. A read leaves the fields it does not
  know unchanged.
\<close>

definition fmap_words :: "qdma_fmap_cfg \<Rightarrow> u32 list" where
  "fmap_words c =
    [FIELD_SET QDMA_FMAP_CTXT_W0_QID_MASK (ucast (fm_qbase c)),
     FIELD_SET QDMA_FMAP_CTXT_W1_QID_MAX_MASK (ucast (fm_qmax c))]"

definition fmap_unpack :: "u32 list \<Rightarrow> qdma_fmap_cfg \<Rightarrow> qdma_fmap_cfg" where
  "fmap_unpack w c = c\<lparr>
      fm_qbase := ucast (FIELD_GET QDMA_FMAP_CTXT_W0_QID_MASK (w ! 0)),
      fm_qmax := ucast (FIELD_GET QDMA_FMAP_CTXT_W1_QID_MAX_MASK (w ! 1))\<rparr>"

definition sw_ctxt_words :: "qdma_descq_sw_ctxt \<Rightarrow> u32 list" where
  "sw_ctxt_words c =
    [FIELD_SET QDMA_SW_CTXT_W0_PIDX (ucast (sw_pidx c)) OR
      FIELD_SET QDMA_SW_CTXT_W0_IRQ_ARM_MASK (ucast (sw_irq_arm c)) OR
      FIELD_SET QDMA_SW_CTXT_W0_FUNC_ID_MASK (ucast (sw_fnc_id c)),
     FIELD_SET QDMA_SW_CTXT_W1_QEN_MASK (ucast (sw_qen c)) OR
      FIELD_SET QDMA_SW_CTXT_W1_FCRD_EN_MASK (ucast (sw_frcd_en c)) OR
      FIELD_SET QDMA_SW_CTXT_W1_WBI_CHK_MASK (ucast (sw_wbi_chk c)) OR
      FIELD_SET QDMA_SW_CTXT_W1_WB_INT_EN_MASK (ucast (sw_wbi_intvl_en c)) OR
      FIELD_SET QDMA_SW_CTXT_W1_AT_MASK (ucast (sw_at c)) OR
      FIELD_SET QDMA_SW_CTXT_W1_FETCH_MAX_MASK (ucast (sw_fetch_max c)) OR
      FIELD_SET QDMA_SW_CTXT_W1_RNG_SZ_MASK (ucast (sw_rngsz_idx c)) OR
      FIELD_SET QDMA_SW_CTXT_W1_DSC_SZ_MASK (ucast (sw_desc_sz c)) OR
      FIELD_SET QDMA_SW_CTXT_W1_BYP_MASK (ucast (sw_bypass c)) OR
      FIELD_SET QDMA_SW_CTXT_W1_MM_CHN_MASK (ucast (sw_mm_chn c)) OR
      FIELD_SET QDMA_SW_CTXT_W1_WBK_EN_MASK (ucast (sw_wbk_en c)) OR
      FIELD_SET QDMA_SW_CTXT_W1_IRQ_EN_MASK (ucast (sw_irq_en c)) OR
      FIELD_SET QDMA_SW_CTXT_W1_PORT_ID_MASK (ucast (sw_port_id c)) OR
      FIELD_SET QDMA_SW_CTXT_W1_IRQ_NO_LAST_MASK (ucast (sw_irq_no_last c)) OR
      FIELD_SET QDMA_SW_CTXT_W1_ERR_MASK (ucast (sw_err c)) OR
      FIELD_SET QDMA_SW_CTXT_W1_ERR_WB_SENT_MASK (ucast (sw_err_wb_sent c)) OR
      FIELD_SET QDMA_SW_CTXT_W1_IRQ_REQ_MASK (ucast (sw_irq_req c)) OR
      FIELD_SET QDMA_SW_CTXT_W1_MRKR_DIS_MASK (ucast (sw_mrkr_dis c)) OR
      FIELD_SET QDMA_SW_CTXT_W1_IS_MM_MASK (ucast (sw_is_mm c)),
     ucast (sw_ring_bs_addr c AND 0xffffffff),
     ucast (drop_bit 32 (sw_ring_bs_addr c) AND 0xffffffff),
     FIELD_SET QDMA_SW_CTXT_W4_VEC_MASK (ucast (sw_vec c)) OR
      FIELD_SET QDMA_SW_CTXT_W4_INTR_AGGR_MASK (ucast (sw_intr_aggr c))]"

definition sw_ctxt_unpack :: "u32 list \<Rightarrow> qdma_descq_sw_ctxt \<Rightarrow> qdma_descq_sw_ctxt" where
  "sw_ctxt_unpack w c = c\<lparr>
      sw_pidx := ucast (FIELD_GET QDMA_SW_CTXT_W0_PIDX (w ! 0)),
      sw_irq_arm := ucast (FIELD_GET QDMA_SW_CTXT_W0_IRQ_ARM_MASK (w ! 0)),
      sw_fnc_id := ucast (FIELD_GET QDMA_SW_CTXT_W0_FUNC_ID_MASK (w ! 0)),
      sw_qen := ucast (FIELD_GET QDMA_SW_CTXT_W1_QEN_MASK (w ! 1)),
      sw_frcd_en := ucast (FIELD_GET QDMA_SW_CTXT_W1_FCRD_EN_MASK (w ! 1)),
      sw_wbi_chk := ucast (FIELD_GET QDMA_SW_CTXT_W1_WBI_CHK_MASK (w ! 1)),
      sw_wbi_intvl_en := ucast (FIELD_GET QDMA_SW_CTXT_W1_WB_INT_EN_MASK (w ! 1)),
      sw_at := ucast (FIELD_GET QDMA_SW_CTXT_W1_AT_MASK (w ! 1)),
      sw_fetch_max := ucast (FIELD_GET QDMA_SW_CTXT_W1_FETCH_MAX_MASK (w ! 1)),
      sw_rngsz_idx := ucast (FIELD_GET QDMA_SW_CTXT_W1_RNG_SZ_MASK (w ! 1)),
      sw_desc_sz := ucast (FIELD_GET QDMA_SW_CTXT_W1_DSC_SZ_MASK (w ! 1)),
      sw_bypass := ucast (FIELD_GET QDMA_SW_CTXT_W1_BYP_MASK (w ! 1)),
      sw_mm_chn := ucast (FIELD_GET QDMA_SW_CTXT_W1_MM_CHN_MASK (w ! 1)),
      sw_wbk_en := ucast (FIELD_GET QDMA_SW_CTXT_W1_WBK_EN_MASK (w ! 1)),
      sw_irq_en := ucast (FIELD_GET QDMA_SW_CTXT_W1_IRQ_EN_MASK (w ! 1)),
      sw_port_id := ucast (FIELD_GET QDMA_SW_CTXT_W1_PORT_ID_MASK (w ! 1)),
      sw_irq_no_last := ucast (FIELD_GET QDMA_SW_CTXT_W1_IRQ_NO_LAST_MASK (w ! 1)),
      sw_err := ucast (FIELD_GET QDMA_SW_CTXT_W1_ERR_MASK (w ! 1)),
      sw_err_wb_sent := ucast (FIELD_GET QDMA_SW_CTXT_W1_ERR_WB_SENT_MASK (w ! 1)),
      sw_irq_req := ucast (FIELD_GET QDMA_SW_CTXT_W1_IRQ_REQ_MASK (w ! 1)),
      sw_mrkr_dis := ucast (FIELD_GET QDMA_SW_CTXT_W1_MRKR_DIS_MASK (w ! 1)),
      sw_is_mm := ucast (FIELD_GET QDMA_SW_CTXT_W1_IS_MM_MASK (w ! 1)),
      sw_ring_bs_addr := push_bit 32 (ucast (w ! 3)) OR ucast (w ! 2),
      sw_vec := ucast (FIELD_GET QDMA_SW_CTXT_W4_VEC_MASK (w ! 4)),
      sw_intr_aggr := ucast (FIELD_GET QDMA_SW_CTXT_W4_INTR_AGGR_MASK (w ! 4))\<rparr>"

definition pfetch_ctxt_words :: "qdma_descq_prefetch_ctxt \<Rightarrow> u32 list" where
  "pfetch_ctxt_words c =
    (let sw_crdt_l = FIELD_GET QDMA_PFTCH_CTXT_SW_CRDT_GET_L_MASK (ucast (pf_sw_crdt c));
         sw_crdt_h = FIELD_GET QDMA_PFTCH_CTXT_SW_CRDT_GET_H_MASK (ucast (pf_sw_crdt c)) in
    [FIELD_SET QDMA_PFTCH_CTXT_W0_BYPASS_MASK (ucast (pf_bypass c)) OR
      FIELD_SET QDMA_PFTCH_CTXT_W0_BUF_SIZE_IDX_MASK (ucast (pf_bufsz_idx c)) OR
      FIELD_SET QDMA_PFTCH_CTXT_W0_PORT_ID_MASK (ucast (pf_port_id c)) OR
      FIELD_SET QDMA_PFTCH_CTXT_W0_ERR_MASK (ucast (pf_err c)) OR
      FIELD_SET QDMA_PFTCH_CTXT_W0_PFETCH_EN_MASK (ucast (pf_pfch_en c)) OR
      FIELD_SET QDMA_PFTCH_CTXT_W0_Q_IN_PFETCH_MASK (ucast (pf_pfch c)) OR
      FIELD_SET QDMA_PFTCH_CTXT_W0_SW_CRDT_L_MASK (sw_crdt_l),
     FIELD_SET QDMA_PFTCH_CTXT_W1_SW_CRDT_H_MASK (sw_crdt_h) OR
      FIELD_SET QDMA_PFTCH_CTXT_W1_VALID_MASK (ucast (pf_valid c))])"

definition pfetch_ctxt_unpack :: "u32 list \<Rightarrow> qdma_descq_prefetch_ctxt \<Rightarrow> qdma_descq_prefetch_ctxt" where
  "pfetch_ctxt_unpack w c =
    (let sw_crdt_l = FIELD_GET QDMA_PFTCH_CTXT_W0_SW_CRDT_L_MASK (w ! 0);
         sw_crdt_h = FIELD_GET QDMA_PFTCH_CTXT_W1_SW_CRDT_H_MASK (w ! 1) in
    c\<lparr>
      pf_bypass := ucast (FIELD_GET QDMA_PFTCH_CTXT_W0_BYPASS_MASK (w ! 0)),
      pf_bufsz_idx := ucast (FIELD_GET QDMA_PFTCH_CTXT_W0_BUF_SIZE_IDX_MASK (w ! 0)),
      pf_port_id := ucast (FIELD_GET QDMA_PFTCH_CTXT_W0_PORT_ID_MASK (w ! 0)),
      pf_err := ucast (FIELD_GET QDMA_PFTCH_CTXT_W0_ERR_MASK (w ! 0)),
      pf_pfch_en := ucast (FIELD_GET QDMA_PFTCH_CTXT_W0_PFETCH_EN_MASK (w ! 0)),
      pf_pfch := ucast (FIELD_GET QDMA_PFTCH_CTXT_W0_Q_IN_PFETCH_MASK (w ! 0)),
      pf_valid := ucast (FIELD_GET QDMA_PFTCH_CTXT_W1_VALID_MASK (w ! 1)),
      pf_sw_crdt := ucast (FIELD_SET QDMA_PFTCH_CTXT_SW_CRDT_GET_L_MASK sw_crdt_l OR
        FIELD_SET QDMA_PFTCH_CTXT_SW_CRDT_GET_H_MASK sw_crdt_h)\<rparr>)"

definition cmpt_ctxt_words :: "qdma_descq_cmpt_ctxt \<Rightarrow> u32 list" where
  "cmpt_ctxt_words c =
    (let baddr_l = ucast (FIELD_GET QDMA_COMPL_CTXT_BADDR_GET_L_MASK (cm_bs_addr c));
         baddr_h = ucast (FIELD_GET QDMA_COMPL_CTXT_BADDR_GET_H_MASK (cm_bs_addr c));
         pidx_l = FIELD_GET QDMA_COMPL_CTXT_PIDX_GET_L_MASK (ucast (cm_pidx c));
         pidx_h = FIELD_GET QDMA_COMPL_CTXT_PIDX_GET_H_MASK (ucast (cm_pidx c)) in
    [FIELD_SET QDMA_COMPL_CTXT_W0_EN_STAT_DESC_MASK (ucast (cm_en_stat_desc c)) OR
      FIELD_SET QDMA_COMPL_CTXT_W0_EN_INT_MASK (ucast (cm_en_int c)) OR
      FIELD_SET QDMA_COMPL_CTXT_W0_TRIG_MODE_MASK (ucast (cm_trig_mode c)) OR
      FIELD_SET QDMA_COMPL_CTXT_W0_FNC_ID_MASK (ucast (cm_fnc_id c)) OR
      FIELD_SET QDMA_COMPL_CTXT_W0_COUNTER_IDX_MASK (ucast (cm_counter_idx c)) OR
      FIELD_SET QDMA_COMPL_CTXT_W0_TIMER_IDX_MASK (ucast (cm_timer_idx c)) OR
      FIELD_SET QDMA_COMPL_CTXT_W0_INT_ST_MASK (ucast (cm_in_st c)) OR
      FIELD_SET QDMA_COMPL_CTXT_W0_COLOR_MASK (ucast (cm_color c)) OR
      FIELD_SET QDMA_COMPL_CTXT_W0_RING_SZ_MASK (ucast (cm_ringsz_idx c)),
     FIELD_SET QDMA_COMPL_CTXT_W1_BADDR_64_L_MASK baddr_l,
     FIELD_SET QDMA_COMPL_CTXT_W2_BADDR_64_H_MASK (baddr_h) OR
      FIELD_SET QDMA_COMPL_CTXT_W2_DESC_SIZE_MASK (ucast (cm_desc_sz c)) OR
      FIELD_SET QDMA_COMPL_CTXT_W2_PIDX_L_MASK (pidx_l),
     FIELD_SET QDMA_COMPL_CTXT_W3_PIDX_H_MASK (pidx_h) OR
      FIELD_SET QDMA_COMPL_CTXT_W3_CIDX_MASK (ucast (cm_cidx c)) OR
      FIELD_SET QDMA_COMPL_CTXT_W3_VALID_MASK (ucast (cm_valid c)) OR
      FIELD_SET QDMA_COMPL_CTXT_W3_ERR_MASK (ucast (cm_err c)) OR
      FIELD_SET QDMA_COMPL_CTXT_W3_USR_TRG_PND_MASK (ucast (cm_user_trig_pend c)),
     FIELD_SET QDMA_COMPL_CTXT_W4_TMR_RUN_MASK (ucast (cm_timer_running c)) OR
      FIELD_SET QDMA_COMPL_CTXT_W4_FULL_UPDT_MASK (ucast (cm_full_upd c)) OR
      FIELD_SET QDMA_COMPL_CTXT_W4_OVF_CHK_DIS_MASK (ucast (cm_ovf_chk_dis c)) OR
      FIELD_SET QDMA_COMPL_CTXT_W4_AT_MASK (ucast (cm_at c)) OR
      FIELD_SET QDMA_COMPL_CTXT_W4_INTR_VEC_MASK (ucast (cm_vec c)) OR
      FIELD_SET QDMA_COMPL_CTXT_W4_INTR_AGGR_MASK (ucast (cm_int_aggr c))])"

definition cmpt_ctxt_unpack :: "u32 list \<Rightarrow> qdma_descq_cmpt_ctxt \<Rightarrow> qdma_descq_cmpt_ctxt" where
  "cmpt_ctxt_unpack w c =
    (let baddr_l = FIELD_GET QDMA_COMPL_CTXT_W1_BADDR_64_L_MASK (w ! 1);
         baddr_h = FIELD_GET QDMA_COMPL_CTXT_W2_BADDR_64_H_MASK (w ! 2);
         pidx_l = FIELD_GET QDMA_COMPL_CTXT_W2_PIDX_L_MASK (w ! 2);
         pidx_h = FIELD_GET QDMA_COMPL_CTXT_W3_PIDX_H_MASK (w ! 3) in
    c\<lparr>
      cm_en_stat_desc := ucast (FIELD_GET QDMA_COMPL_CTXT_W0_EN_STAT_DESC_MASK (w ! 0)),
      cm_en_int := ucast (FIELD_GET QDMA_COMPL_CTXT_W0_EN_INT_MASK (w ! 0)),
      cm_trig_mode := ucast (FIELD_GET QDMA_COMPL_CTXT_W0_TRIG_MODE_MASK (w ! 0)),
      cm_fnc_id := ucast (FIELD_GET QDMA_COMPL_CTXT_W0_FNC_ID_MASK (w ! 0)),
      cm_counter_idx := ucast (FIELD_GET QDMA_COMPL_CTXT_W0_COUNTER_IDX_MASK (w ! 0)),
      cm_timer_idx := ucast (FIELD_GET QDMA_COMPL_CTXT_W0_TIMER_IDX_MASK (w ! 0)),
      cm_in_st := ucast (FIELD_GET QDMA_COMPL_CTXT_W0_INT_ST_MASK (w ! 0)),
      cm_color := ucast (FIELD_GET QDMA_COMPL_CTXT_W0_COLOR_MASK (w ! 0)),
      cm_ringsz_idx := ucast (FIELD_GET QDMA_COMPL_CTXT_W0_RING_SZ_MASK (w ! 0)),
      cm_desc_sz := ucast (FIELD_GET QDMA_COMPL_CTXT_W2_DESC_SIZE_MASK (w ! 2)),
      cm_cidx := ucast (FIELD_GET QDMA_COMPL_CTXT_W3_CIDX_MASK (w ! 3)),
      cm_valid := ucast (FIELD_GET QDMA_COMPL_CTXT_W3_VALID_MASK (w ! 3)),
      cm_err := ucast (FIELD_GET QDMA_COMPL_CTXT_W3_ERR_MASK (w ! 3)),
      cm_user_trig_pend := ucast (FIELD_GET QDMA_COMPL_CTXT_W3_USR_TRG_PND_MASK (w ! 3)),
      cm_timer_running := ucast (FIELD_GET QDMA_COMPL_CTXT_W4_TMR_RUN_MASK (w ! 4)),
      cm_full_upd := ucast (FIELD_GET QDMA_COMPL_CTXT_W4_FULL_UPDT_MASK (w ! 4)),
      cm_ovf_chk_dis := ucast (FIELD_GET QDMA_COMPL_CTXT_W4_OVF_CHK_DIS_MASK (w ! 4)),
      cm_at := ucast (FIELD_GET QDMA_COMPL_CTXT_W4_AT_MASK (w ! 4)),
      cm_vec := ucast (FIELD_GET QDMA_COMPL_CTXT_W4_INTR_VEC_MASK (w ! 4)),
      cm_int_aggr := ucast (FIELD_GET QDMA_COMPL_CTXT_W4_INTR_AGGR_MASK (w ! 4)),
      cm_bs_addr := FIELD_SET QDMA_COMPL_CTXT_BADDR_GET_L_MASK (ucast baddr_l) OR
        FIELD_SET QDMA_COMPL_CTXT_BADDR_GET_H_MASK (ucast baddr_h),
      cm_pidx := ucast (FIELD_SET QDMA_COMPL_CTXT_PIDX_GET_L_MASK pidx_l OR
        FIELD_SET QDMA_COMPL_CTXT_PIDX_GET_H_MASK pidx_h)\<rparr>)"

definition hw_ctxt_unpack :: "u32 list \<Rightarrow> qdma_descq_hw_ctxt \<Rightarrow> qdma_descq_hw_ctxt" where
  "hw_ctxt_unpack w c = c\<lparr>
      hw_cidx := ucast (FIELD_GET QDMA_HW_CTXT_W0_CIDX_MASK (w ! 0)),
      hw_crd_use := ucast (FIELD_GET QDMA_HW_CTXT_W0_CRD_USE_MASK (w ! 0)),
      hw_dsc_pend := ucast (FIELD_GET QDMA_HW_CTXT_W1_DSC_PND_MASK (w ! 1)),
      hw_idl_stp_b := ucast (FIELD_GET QDMA_HW_CTXT_W1_IDL_STP_B_MASK (w ! 1)),
      hw_evt_pnd := ucast (FIELD_GET QDMA_HW_CTXT_W1_EVENT_PEND_MASK (w ! 1)),
      hw_fetch_pnd := ucast (FIELD_GET QDMA_HW_CTXT_W1_FETCH_PEND_MASK (w ! 1))\<rparr>"

definition credit_ctxt_unpack :: "u32 list \<Rightarrow> qdma_descq_credit_ctxt \<Rightarrow> qdma_descq_credit_ctxt" where
  "credit_ctxt_unpack w c = c\<lparr>cr_credit := FIELD_GET QDMA_CR_CTXT_W0_CREDT_MASK (w ! 0)\<rparr>"

definition intr_ctxt_words :: "qdma_indirect_intr_ctxt \<Rightarrow> u32 list" where
  "intr_ctxt_words c =
    (let baddr_l = ucast (FIELD_GET QDMA_INTR_CTXT_BADDR_GET_L_MASK (ii_baddr_4k c));
         baddr_m = ucast (FIELD_GET QDMA_INTR_CTXT_BADDR_GET_M_MASK (ii_baddr_4k c));
         baddr_h = ucast (FIELD_GET QDMA_INTR_CTXT_BADDR_GET_H_MASK (ii_baddr_4k c)) in
    [FIELD_SET QDMA_INTR_CTXT_W0_VALID_MASK (ucast (ii_valid c)) OR
      FIELD_SET QDMA_INTR_CTXT_W0_VEC_ID_MASK (ucast (ii_vec c)) OR
      FIELD_SET QDMA_INTR_CTXT_W0_INT_ST_MASK (ucast (ii_int_st c)) OR
      FIELD_SET QDMA_INTR_CTXT_W0_COLOR_MASK (ucast (ii_color c)) OR
      FIELD_SET QDMA_INTR_CTXT_W0_BADDR_64_MASK (baddr_l),
     FIELD_SET QDMA_INTR_CTXT_W1_BADDR_64_MASK baddr_m,
     FIELD_SET QDMA_INTR_CTXT_W2_BADDR_64_MASK (baddr_h) OR
      FIELD_SET QDMA_INTR_CTXT_W2_PAGE_SIZE_MASK (ucast (ii_page_size c)) OR
      FIELD_SET QDMA_INTR_CTXT_W2_PIDX_MASK (ucast (ii_pidx c)) OR
      FIELD_SET QDMA_INTR_CTXT_W2_AT_MASK (ucast (ii_at c))])"

definition intr_ctxt_unpack :: "u32 list \<Rightarrow> qdma_indirect_intr_ctxt \<Rightarrow> qdma_indirect_intr_ctxt" where
  "intr_ctxt_unpack w c =
    (let baddr_l = ucast (FIELD_GET QDMA_INTR_CTXT_W0_BADDR_64_MASK (w ! 0));
         baddr_m = ucast (FIELD_GET QDMA_INTR_CTXT_W1_BADDR_64_MASK (w ! 1));
         baddr_h = ucast (FIELD_GET QDMA_INTR_CTXT_W2_BADDR_64_MASK (w ! 2)) in
    c\<lparr>
      ii_valid := ucast (FIELD_GET QDMA_INTR_CTXT_W0_VALID_MASK (w ! 0)),
      ii_vec := ucast (FIELD_GET QDMA_INTR_CTXT_W0_VEC_ID_MASK (w ! 0)),
      ii_int_st := ucast (FIELD_GET QDMA_INTR_CTXT_W0_INT_ST_MASK (w ! 0)),
      ii_color := ucast (FIELD_GET QDMA_INTR_CTXT_W0_COLOR_MASK (w ! 0)),
      ii_page_size := ucast (FIELD_GET QDMA_INTR_CTXT_W2_PAGE_SIZE_MASK (w ! 2)),
      ii_pidx := ucast (FIELD_GET QDMA_INTR_CTXT_W2_PIDX_MASK (w ! 2)),
      ii_at := ucast (FIELD_GET QDMA_INTR_CTXT_W2_AT_MASK (w ! 2)),
      ii_baddr_4k := FIELD_SET QDMA_INTR_CTXT_BADDR_GET_L_MASK baddr_l OR
        FIELD_SET QDMA_INTR_CTXT_BADDR_GET_M_MASK baddr_m OR
        FIELD_SET QDMA_INTR_CTXT_BADDR_GET_H_MASK baddr_h\<rparr>)"

subsection \<open>The operations\<close>

text \<open>
  Every write, read, clear and invalidate operation checks its pointers and then runs one
  indirect operation; the \<^verbatim>\<open>*_conf\<close> functions dispatch on the access type. The result is
  the return value and the log, with the structure the context pointer refers to in
  between where the operation may write it.
\<close>

definition inv_param :: int where "inv_param = neg_err QDMA_ERR_INV_PARAM"

subsubsection \<open>Function map\<close>

definition qdma_fmap_write ::
  "dev_hndl \<Rightarrow> u16 \<Rightarrow> qdma_fmap_cfg option \<Rightarrow> hw_log \<Rightarrow> int \<times> hw_log" where
  "qdma_fmap_write dev_hndl hw_qid ctxt s =
     (case (dev_hndl, ctxt) of
        (Some env, Some c) \<Rightarrow> qdma_indirect_reg_write env QDMA_CTXT_SEL_FMAP hw_qid (fmap_words c) s
      | _ \<Rightarrow> (inv_param, s))"

definition qdma_fmap_read ::
  "dev_hndl \<Rightarrow> u16 \<Rightarrow> qdma_fmap_cfg option \<Rightarrow> hw_log
     \<Rightarrow> int \<times> qdma_fmap_cfg option \<times> hw_log" where
  "qdma_fmap_read dev_hndl hw_qid ctxt s =
     (case (dev_hndl, ctxt) of
        (Some env, Some c) \<Rightarrow>
          (let (rv, data, s1) = qdma_indirect_reg_read env QDMA_CTXT_SEL_FMAP hw_qid 2 s in
           if rv < 0 then (rv, ctxt, s1)
           else (err_code QDMA_SUCCESS, Some (fmap_unpack (the data) c), s1))
      | _ \<Rightarrow> (inv_param, ctxt, s))"

definition qdma_fmap_clear :: "dev_hndl \<Rightarrow> u16 \<Rightarrow> hw_log \<Rightarrow> int \<times> hw_log" where
  "qdma_fmap_clear dev_hndl hw_qid s =
     (case dev_hndl of
        None \<Rightarrow> (inv_param, s)
      | Some env \<Rightarrow> qdma_indirect_reg_clear env QDMA_CTXT_SEL_FMAP hw_qid s)"

definition qdma_fmap_conf ::
  "dev_hndl \<Rightarrow> u16 \<Rightarrow> qdma_fmap_cfg option \<Rightarrow> qdma_hw_access_type \<Rightarrow> hw_log
     \<Rightarrow> int \<times> qdma_fmap_cfg option \<times> hw_log" where
  "qdma_fmap_conf dev_hndl hw_qid ctxt access_type s =
     (case access_type of
        QDMA_HW_ACCESS_READ \<Rightarrow> qdma_fmap_read dev_hndl hw_qid ctxt s
      | QDMA_HW_ACCESS_WRITE \<Rightarrow> (let (rv, s1) = qdma_fmap_write dev_hndl hw_qid ctxt s in (rv, ctxt, s1))
      | QDMA_HW_ACCESS_CLEAR \<Rightarrow> (let (rv, s1) = qdma_fmap_clear dev_hndl hw_qid s in (rv, ctxt, s1))
      | _ \<Rightarrow> (inv_param, ctxt, s))"

subsubsection \<open>Software context\<close>

definition qdma_sw_context_write ::
  "dev_hndl \<Rightarrow> u8 \<Rightarrow> u16 \<Rightarrow> qdma_descq_sw_ctxt option \<Rightarrow> hw_log \<Rightarrow> int \<times> hw_log" where
  "qdma_sw_context_write dev_hndl c2h hw_qid ctxt s =
     (case (dev_hndl, ctxt) of
        (Some env, Some c) \<Rightarrow> qdma_indirect_reg_write env (if c2h \<noteq> 0 then QDMA_CTXT_SEL_SW_C2H else QDMA_CTXT_SEL_SW_H2C) hw_qid (sw_ctxt_words c) s
      | _ \<Rightarrow> (inv_param, s))"

definition qdma_sw_context_read ::
  "dev_hndl \<Rightarrow> u8 \<Rightarrow> u16 \<Rightarrow> qdma_descq_sw_ctxt option \<Rightarrow> hw_log
     \<Rightarrow> int \<times> qdma_descq_sw_ctxt option \<times> hw_log" where
  "qdma_sw_context_read dev_hndl c2h hw_qid ctxt s =
     (case (dev_hndl, ctxt) of
        (Some env, Some c) \<Rightarrow>
          (let (rv, data, s1) = qdma_indirect_reg_read env (if c2h \<noteq> 0 then QDMA_CTXT_SEL_SW_C2H else QDMA_CTXT_SEL_SW_H2C) hw_qid 5 s in
           if rv < 0 then (rv, ctxt, s1)
           else (err_code QDMA_SUCCESS, Some (sw_ctxt_unpack (the data) c), s1))
      | _ \<Rightarrow> (inv_param, ctxt, s))"

definition qdma_sw_context_clear :: "dev_hndl \<Rightarrow> u8 \<Rightarrow> u16 \<Rightarrow> hw_log \<Rightarrow> int \<times> hw_log" where
  "qdma_sw_context_clear dev_hndl c2h hw_qid s =
     (case dev_hndl of
        None \<Rightarrow> (inv_param, s)
      | Some env \<Rightarrow> qdma_indirect_reg_clear env (if c2h \<noteq> 0 then QDMA_CTXT_SEL_SW_C2H else QDMA_CTXT_SEL_SW_H2C) hw_qid s)"

definition qdma_sw_context_invalidate :: "dev_hndl \<Rightarrow> u8 \<Rightarrow> u16 \<Rightarrow> hw_log \<Rightarrow> int \<times> hw_log" where
  "qdma_sw_context_invalidate dev_hndl c2h hw_qid s =
     (case dev_hndl of
        None \<Rightarrow> (inv_param, s)
      | Some env \<Rightarrow> qdma_indirect_reg_invalidate env (if c2h \<noteq> 0 then QDMA_CTXT_SEL_SW_C2H else QDMA_CTXT_SEL_SW_H2C) hw_qid s)"

definition qdma_sw_ctx_conf ::
  "dev_hndl \<Rightarrow> u8 \<Rightarrow> u16 \<Rightarrow> qdma_descq_sw_ctxt option \<Rightarrow> qdma_hw_access_type \<Rightarrow> hw_log
     \<Rightarrow> int \<times> qdma_descq_sw_ctxt option \<times> hw_log" where
  "qdma_sw_ctx_conf dev_hndl c2h hw_qid ctxt access_type s =
     (if c2h > 1 then (inv_param, ctxt, s)
      else case access_type of
        QDMA_HW_ACCESS_READ \<Rightarrow> qdma_sw_context_read dev_hndl c2h hw_qid ctxt s
      | QDMA_HW_ACCESS_WRITE \<Rightarrow> (let (rv, s1) = qdma_sw_context_write dev_hndl c2h hw_qid ctxt s in (rv, ctxt, s1))
      | QDMA_HW_ACCESS_CLEAR \<Rightarrow> (let (rv, s1) = qdma_sw_context_clear dev_hndl c2h hw_qid s in (rv, ctxt, s1))
      | QDMA_HW_ACCESS_INVALIDATE \<Rightarrow> (let (rv, s1) = qdma_sw_context_invalidate dev_hndl c2h hw_qid s in (rv, ctxt, s1))
      | _ \<Rightarrow> (inv_param, ctxt, s))"

subsubsection \<open>Prefetch context\<close>

definition qdma_pfetch_context_write ::
  "dev_hndl \<Rightarrow> u16 \<Rightarrow> qdma_descq_prefetch_ctxt option \<Rightarrow> hw_log \<Rightarrow> int \<times> hw_log" where
  "qdma_pfetch_context_write dev_hndl hw_qid ctxt s =
     (case (dev_hndl, ctxt) of
        (Some env, Some c) \<Rightarrow> qdma_indirect_reg_write env QDMA_CTXT_SEL_PFTCH hw_qid (pfetch_ctxt_words c) s
      | _ \<Rightarrow> (inv_param, s))"

definition qdma_pfetch_context_read ::
  "dev_hndl \<Rightarrow> u16 \<Rightarrow> qdma_descq_prefetch_ctxt option \<Rightarrow> hw_log
     \<Rightarrow> int \<times> qdma_descq_prefetch_ctxt option \<times> hw_log" where
  "qdma_pfetch_context_read dev_hndl hw_qid ctxt s =
     (case (dev_hndl, ctxt) of
        (Some env, Some c) \<Rightarrow>
          (let (rv, data, s1) = qdma_indirect_reg_read env QDMA_CTXT_SEL_PFTCH hw_qid 2 s in
           if rv < 0 then (rv, ctxt, s1)
           else (err_code QDMA_SUCCESS, Some (pfetch_ctxt_unpack (the data) c), s1))
      | _ \<Rightarrow> (inv_param, ctxt, s))"

definition qdma_pfetch_context_clear :: "dev_hndl \<Rightarrow> u16 \<Rightarrow> hw_log \<Rightarrow> int \<times> hw_log" where
  "qdma_pfetch_context_clear dev_hndl hw_qid s =
     (case dev_hndl of
        None \<Rightarrow> (inv_param, s)
      | Some env \<Rightarrow> qdma_indirect_reg_clear env QDMA_CTXT_SEL_PFTCH hw_qid s)"

definition qdma_pfetch_context_invalidate :: "dev_hndl \<Rightarrow> u16 \<Rightarrow> hw_log \<Rightarrow> int \<times> hw_log" where
  "qdma_pfetch_context_invalidate dev_hndl hw_qid s =
     (case dev_hndl of
        None \<Rightarrow> (inv_param, s)
      | Some env \<Rightarrow> qdma_indirect_reg_invalidate env QDMA_CTXT_SEL_PFTCH hw_qid s)"

definition qdma_pfetch_ctx_conf ::
  "dev_hndl \<Rightarrow> u16 \<Rightarrow> qdma_descq_prefetch_ctxt option \<Rightarrow> qdma_hw_access_type \<Rightarrow> hw_log
     \<Rightarrow> int \<times> qdma_descq_prefetch_ctxt option \<times> hw_log" where
  "qdma_pfetch_ctx_conf dev_hndl hw_qid ctxt access_type s =
     (case access_type of
        QDMA_HW_ACCESS_READ \<Rightarrow> qdma_pfetch_context_read dev_hndl hw_qid ctxt s
      | QDMA_HW_ACCESS_WRITE \<Rightarrow> (let (rv, s1) = qdma_pfetch_context_write dev_hndl hw_qid ctxt s in (rv, ctxt, s1))
      | QDMA_HW_ACCESS_CLEAR \<Rightarrow> (let (rv, s1) = qdma_pfetch_context_clear dev_hndl hw_qid s in (rv, ctxt, s1))
      | QDMA_HW_ACCESS_INVALIDATE \<Rightarrow> (let (rv, s1) = qdma_pfetch_context_invalidate dev_hndl hw_qid s in (rv, ctxt, s1))
      | _ \<Rightarrow> (inv_param, ctxt, s))"

text \<open>The largest trigger mode, \<^verbatim>\<open>QDMA_CMPT_UPDATE_TRIG_MODE_TMR_CNTR\<close>.\<close>

definition TRIG_MODE_TMR_CNTR :: u8 where "TRIG_MODE_TMR_CNTR = 5"

subsubsection \<open>Completion context\<close>

definition qdma_cmpt_context_write ::
  "dev_hndl \<Rightarrow> u16 \<Rightarrow> qdma_descq_cmpt_ctxt option \<Rightarrow> hw_log \<Rightarrow> int \<times> hw_log" where
  "qdma_cmpt_context_write dev_hndl hw_qid ctxt s =
     (case (dev_hndl, ctxt) of
        (Some env, Some c) \<Rightarrow> 
         if cm_trig_mode c > TRIG_MODE_TMR_CNTR then (inv_param, s)
         else qdma_indirect_reg_write env QDMA_CTXT_SEL_CMPT hw_qid (cmpt_ctxt_words c) s
      | _ \<Rightarrow> (inv_param, s))"

definition qdma_cmpt_context_read ::
  "dev_hndl \<Rightarrow> u16 \<Rightarrow> qdma_descq_cmpt_ctxt option \<Rightarrow> hw_log
     \<Rightarrow> int \<times> qdma_descq_cmpt_ctxt option \<times> hw_log" where
  "qdma_cmpt_context_read dev_hndl hw_qid ctxt s =
     (case (dev_hndl, ctxt) of
        (Some env, Some c) \<Rightarrow>
          (let (rv, data, s1) = qdma_indirect_reg_read env QDMA_CTXT_SEL_CMPT hw_qid 5 s in
           if rv < 0 then (rv, ctxt, s1)
           else (err_code QDMA_SUCCESS, Some (cmpt_ctxt_unpack (the data) c), s1))
      | _ \<Rightarrow> (inv_param, ctxt, s))"

definition qdma_cmpt_context_clear :: "dev_hndl \<Rightarrow> u16 \<Rightarrow> hw_log \<Rightarrow> int \<times> hw_log" where
  "qdma_cmpt_context_clear dev_hndl hw_qid s =
     (case dev_hndl of
        None \<Rightarrow> (inv_param, s)
      | Some env \<Rightarrow> qdma_indirect_reg_clear env QDMA_CTXT_SEL_CMPT hw_qid s)"

definition qdma_cmpt_context_invalidate :: "dev_hndl \<Rightarrow> u16 \<Rightarrow> hw_log \<Rightarrow> int \<times> hw_log" where
  "qdma_cmpt_context_invalidate dev_hndl hw_qid s =
     (case dev_hndl of
        None \<Rightarrow> (inv_param, s)
      | Some env \<Rightarrow> qdma_indirect_reg_invalidate env QDMA_CTXT_SEL_CMPT hw_qid s)"

definition qdma_cmpt_ctx_conf ::
  "dev_hndl \<Rightarrow> u16 \<Rightarrow> qdma_descq_cmpt_ctxt option \<Rightarrow> qdma_hw_access_type \<Rightarrow> hw_log
     \<Rightarrow> int \<times> qdma_descq_cmpt_ctxt option \<times> hw_log" where
  "qdma_cmpt_ctx_conf dev_hndl hw_qid ctxt access_type s =
     (case access_type of
        QDMA_HW_ACCESS_READ \<Rightarrow> qdma_cmpt_context_read dev_hndl hw_qid ctxt s
      | QDMA_HW_ACCESS_WRITE \<Rightarrow> (let (rv, s1) = qdma_cmpt_context_write dev_hndl hw_qid ctxt s in (rv, ctxt, s1))
      | QDMA_HW_ACCESS_CLEAR \<Rightarrow> (let (rv, s1) = qdma_cmpt_context_clear dev_hndl hw_qid s in (rv, ctxt, s1))
      | QDMA_HW_ACCESS_INVALIDATE \<Rightarrow> (let (rv, s1) = qdma_cmpt_context_invalidate dev_hndl hw_qid s in (rv, ctxt, s1))
      | _ \<Rightarrow> (inv_param, ctxt, s))"

subsubsection \<open>Hardware context\<close>

definition qdma_hw_context_read ::
  "dev_hndl \<Rightarrow> u8 \<Rightarrow> u16 \<Rightarrow> qdma_descq_hw_ctxt option \<Rightarrow> hw_log
     \<Rightarrow> int \<times> qdma_descq_hw_ctxt option \<times> hw_log" where
  "qdma_hw_context_read dev_hndl c2h hw_qid ctxt s =
     (case (dev_hndl, ctxt) of
        (Some env, Some c) \<Rightarrow>
          (let (rv, data, s1) = qdma_indirect_reg_read env (if c2h \<noteq> 0 then QDMA_CTXT_SEL_HW_C2H else QDMA_CTXT_SEL_HW_H2C) hw_qid 2 s in
           if rv < 0 then (rv, ctxt, s1)
           else (err_code QDMA_SUCCESS, Some (hw_ctxt_unpack (the data) c), s1))
      | _ \<Rightarrow> (inv_param, ctxt, s))"

definition qdma_hw_context_clear :: "dev_hndl \<Rightarrow> u8 \<Rightarrow> u16 \<Rightarrow> hw_log \<Rightarrow> int \<times> hw_log" where
  "qdma_hw_context_clear dev_hndl c2h hw_qid s =
     (case dev_hndl of
        None \<Rightarrow> (inv_param, s)
      | Some env \<Rightarrow> qdma_indirect_reg_clear env (if c2h \<noteq> 0 then QDMA_CTXT_SEL_HW_C2H else QDMA_CTXT_SEL_HW_H2C) hw_qid s)"

definition qdma_hw_context_invalidate :: "dev_hndl \<Rightarrow> u8 \<Rightarrow> u16 \<Rightarrow> hw_log \<Rightarrow> int \<times> hw_log" where
  "qdma_hw_context_invalidate dev_hndl c2h hw_qid s =
     (case dev_hndl of
        None \<Rightarrow> (inv_param, s)
      | Some env \<Rightarrow> qdma_indirect_reg_invalidate env (if c2h \<noteq> 0 then QDMA_CTXT_SEL_HW_C2H else QDMA_CTXT_SEL_HW_H2C) hw_qid s)"

definition qdma_hw_ctx_conf ::
  "dev_hndl \<Rightarrow> u8 \<Rightarrow> u16 \<Rightarrow> qdma_descq_hw_ctxt option \<Rightarrow> qdma_hw_access_type \<Rightarrow> hw_log
     \<Rightarrow> int \<times> qdma_descq_hw_ctxt option \<times> hw_log" where
  "qdma_hw_ctx_conf dev_hndl c2h hw_qid ctxt access_type s =
     (if c2h > 1 then (inv_param, ctxt, s)
      else case access_type of
        QDMA_HW_ACCESS_READ \<Rightarrow> qdma_hw_context_read dev_hndl c2h hw_qid ctxt s
      | QDMA_HW_ACCESS_CLEAR \<Rightarrow> (let (rv, s1) = qdma_hw_context_clear dev_hndl c2h hw_qid s in (rv, ctxt, s1))
      | QDMA_HW_ACCESS_INVALIDATE \<Rightarrow> (let (rv, s1) = qdma_hw_context_invalidate dev_hndl c2h hw_qid s in (rv, ctxt, s1))
      | _ \<Rightarrow> (inv_param, ctxt, s))"

subsubsection \<open>Credit context\<close>

definition qdma_credit_context_read ::
  "dev_hndl \<Rightarrow> u8 \<Rightarrow> u16 \<Rightarrow> qdma_descq_credit_ctxt option \<Rightarrow> hw_log
     \<Rightarrow> int \<times> qdma_descq_credit_ctxt option \<times> hw_log" where
  "qdma_credit_context_read dev_hndl c2h hw_qid ctxt s =
     (case (dev_hndl, ctxt) of
        (Some env, Some c) \<Rightarrow>
          (let (rv, data, s1) = qdma_indirect_reg_read env (if c2h \<noteq> 0 then QDMA_CTXT_SEL_CR_C2H else QDMA_CTXT_SEL_CR_H2C) hw_qid 1 s in
           if rv < 0 then (rv, ctxt, s1)
           else (err_code QDMA_SUCCESS, Some (credit_ctxt_unpack (the data) c), s1))
      | _ \<Rightarrow> (inv_param, ctxt, s))"

definition qdma_credit_context_clear :: "dev_hndl \<Rightarrow> u8 \<Rightarrow> u16 \<Rightarrow> hw_log \<Rightarrow> int \<times> hw_log" where
  "qdma_credit_context_clear dev_hndl c2h hw_qid s =
     (case dev_hndl of
        None \<Rightarrow> (inv_param, s)
      | Some env \<Rightarrow> qdma_indirect_reg_clear env (if c2h \<noteq> 0 then QDMA_CTXT_SEL_CR_C2H else QDMA_CTXT_SEL_CR_H2C) hw_qid s)"

definition qdma_credit_context_invalidate :: "dev_hndl \<Rightarrow> u8 \<Rightarrow> u16 \<Rightarrow> hw_log \<Rightarrow> int \<times> hw_log" where
  "qdma_credit_context_invalidate dev_hndl c2h hw_qid s =
     (case dev_hndl of
        None \<Rightarrow> (inv_param, s)
      | Some env \<Rightarrow> qdma_indirect_reg_invalidate env (if c2h \<noteq> 0 then QDMA_CTXT_SEL_CR_C2H else QDMA_CTXT_SEL_CR_H2C) hw_qid s)"

definition qdma_credit_ctx_conf ::
  "dev_hndl \<Rightarrow> u8 \<Rightarrow> u16 \<Rightarrow> qdma_descq_credit_ctxt option \<Rightarrow> qdma_hw_access_type \<Rightarrow> hw_log
     \<Rightarrow> int \<times> qdma_descq_credit_ctxt option \<times> hw_log" where
  "qdma_credit_ctx_conf dev_hndl c2h hw_qid ctxt access_type s =
     (if c2h > 1 then (inv_param, ctxt, s)
      else case access_type of
        QDMA_HW_ACCESS_READ \<Rightarrow> qdma_credit_context_read dev_hndl c2h hw_qid ctxt s
      | QDMA_HW_ACCESS_CLEAR \<Rightarrow> (let (rv, s1) = qdma_credit_context_clear dev_hndl c2h hw_qid s in (rv, ctxt, s1))
      | QDMA_HW_ACCESS_INVALIDATE \<Rightarrow> (let (rv, s1) = qdma_credit_context_invalidate dev_hndl c2h hw_qid s in (rv, ctxt, s1))
      | _ \<Rightarrow> (inv_param, ctxt, s))"

subsubsection \<open>Interrupt context\<close>

definition qdma_indirect_intr_context_write ::
  "dev_hndl \<Rightarrow> u16 \<Rightarrow> qdma_indirect_intr_ctxt option \<Rightarrow> hw_log \<Rightarrow> int \<times> hw_log" where
  "qdma_indirect_intr_context_write dev_hndl hw_qid ctxt s =
     (case (dev_hndl, ctxt) of
        (Some env, Some c) \<Rightarrow> qdma_indirect_reg_write env QDMA_CTXT_SEL_INT_COAL hw_qid (intr_ctxt_words c) s
      | _ \<Rightarrow> (inv_param, s))"

definition qdma_indirect_intr_context_read ::
  "dev_hndl \<Rightarrow> u16 \<Rightarrow> qdma_indirect_intr_ctxt option \<Rightarrow> hw_log
     \<Rightarrow> int \<times> qdma_indirect_intr_ctxt option \<times> hw_log" where
  "qdma_indirect_intr_context_read dev_hndl hw_qid ctxt s =
     (case (dev_hndl, ctxt) of
        (Some env, Some c) \<Rightarrow>
          (let (rv, data, s1) = qdma_indirect_reg_read env QDMA_CTXT_SEL_INT_COAL hw_qid 3 s in
           if rv < 0 then (rv, ctxt, s1)
           else (err_code QDMA_SUCCESS, Some (intr_ctxt_unpack (the data) c), s1))
      | _ \<Rightarrow> (inv_param, ctxt, s))"

definition qdma_indirect_intr_context_clear :: "dev_hndl \<Rightarrow> u16 \<Rightarrow> hw_log \<Rightarrow> int \<times> hw_log" where
  "qdma_indirect_intr_context_clear dev_hndl hw_qid s =
     (case dev_hndl of
        None \<Rightarrow> (inv_param, s)
      | Some env \<Rightarrow> qdma_indirect_reg_clear env QDMA_CTXT_SEL_INT_COAL hw_qid s)"

definition qdma_indirect_intr_context_invalidate :: "dev_hndl \<Rightarrow> u16 \<Rightarrow> hw_log \<Rightarrow> int \<times> hw_log" where
  "qdma_indirect_intr_context_invalidate dev_hndl hw_qid s =
     (case dev_hndl of
        None \<Rightarrow> (inv_param, s)
      | Some env \<Rightarrow> qdma_indirect_reg_invalidate env QDMA_CTXT_SEL_INT_COAL hw_qid s)"

definition qdma_indirect_intr_ctx_conf ::
  "dev_hndl \<Rightarrow> u16 \<Rightarrow> qdma_indirect_intr_ctxt option \<Rightarrow> qdma_hw_access_type \<Rightarrow> hw_log
     \<Rightarrow> int \<times> qdma_indirect_intr_ctxt option \<times> hw_log" where
  "qdma_indirect_intr_ctx_conf dev_hndl hw_qid ctxt access_type s =
     (case access_type of
        QDMA_HW_ACCESS_READ \<Rightarrow> qdma_indirect_intr_context_read dev_hndl hw_qid ctxt s
      | QDMA_HW_ACCESS_WRITE \<Rightarrow> (let (rv, s1) = qdma_indirect_intr_context_write dev_hndl hw_qid ctxt s in (rv, ctxt, s1))
      | QDMA_HW_ACCESS_CLEAR \<Rightarrow> (let (rv, s1) = qdma_indirect_intr_context_clear dev_hndl hw_qid s in (rv, ctxt, s1))
      | QDMA_HW_ACCESS_INVALIDATE \<Rightarrow> (let (rv, s1) = qdma_indirect_intr_context_invalidate dev_hndl hw_qid s in (rv, ctxt, s1))
      | _ \<Rightarrow> (inv_param, ctxt, s))"

subsection \<open>What a context keeps\<close>

text \<open>
  The structure a read returns after a write of \<open>c\<close>, read into \<open>c0\<close>: every field cut to
  its width in the hardware, the fields that are not in the hardware context as in \<open>c0\<close>.
  The ring addresses of completion and interrupt contexts are 4K aligned.
\<close>

definition fmap_stored :: "qdma_fmap_cfg \<Rightarrow> qdma_fmap_cfg \<Rightarrow> qdma_fmap_cfg" where
  "fmap_stored c c0 = c0\<lparr>fm_qbase := take_bit 11 (fm_qbase c), fm_qmax := take_bit 12 (fm_qmax c)\<rparr>"

definition sw_stored :: "qdma_descq_sw_ctxt \<Rightarrow> qdma_descq_sw_ctxt \<Rightarrow> qdma_descq_sw_ctxt" where
  "sw_stored c c0 = c0\<lparr>
     sw_pidx := sw_pidx c, sw_irq_arm := take_bit 1 (sw_irq_arm c), sw_fnc_id := sw_fnc_id c,
     sw_qen := take_bit 1 (sw_qen c), sw_frcd_en := take_bit 1 (sw_frcd_en c),
     sw_wbi_chk := take_bit 1 (sw_wbi_chk c), sw_wbi_intvl_en := take_bit 1 (sw_wbi_intvl_en c),
     sw_at := take_bit 1 (sw_at c), sw_fetch_max := take_bit 3 (sw_fetch_max c),
     sw_rngsz_idx := take_bit 4 (sw_rngsz_idx c), sw_desc_sz := take_bit 2 (sw_desc_sz c),
     sw_bypass := take_bit 1 (sw_bypass c), sw_mm_chn := take_bit 1 (sw_mm_chn c),
     sw_wbk_en := take_bit 1 (sw_wbk_en c), sw_irq_en := take_bit 1 (sw_irq_en c),
     sw_port_id := take_bit 3 (sw_port_id c), sw_irq_no_last := take_bit 1 (sw_irq_no_last c),
     sw_err := take_bit 2 (sw_err c), sw_err_wb_sent := take_bit 1 (sw_err_wb_sent c),
     sw_irq_req := take_bit 1 (sw_irq_req c), sw_mrkr_dis := take_bit 1 (sw_mrkr_dis c),
     sw_is_mm := take_bit 1 (sw_is_mm c), sw_ring_bs_addr := sw_ring_bs_addr c,
     sw_vec := take_bit 11 (sw_vec c), sw_intr_aggr := take_bit 1 (sw_intr_aggr c)\<rparr>"

definition pfetch_stored ::
  "qdma_descq_prefetch_ctxt \<Rightarrow> qdma_descq_prefetch_ctxt \<Rightarrow> qdma_descq_prefetch_ctxt" where
  "pfetch_stored c c0 = c0\<lparr>
     pf_bypass := take_bit 1 (pf_bypass c), pf_bufsz_idx := take_bit 4 (pf_bufsz_idx c),
     pf_port_id := take_bit 3 (pf_port_id c), pf_err := take_bit 1 (pf_err c),
     pf_pfch_en := take_bit 1 (pf_pfch_en c), pf_pfch := take_bit 1 (pf_pfch c),
     pf_valid := take_bit 1 (pf_valid c), pf_sw_crdt := pf_sw_crdt c\<rparr>"

definition cmpt_stored :: "qdma_descq_cmpt_ctxt \<Rightarrow> qdma_descq_cmpt_ctxt \<Rightarrow> qdma_descq_cmpt_ctxt" where
  "cmpt_stored c c0 = c0\<lparr>
     cm_en_stat_desc := take_bit 1 (cm_en_stat_desc c), cm_en_int := take_bit 1 (cm_en_int c),
     cm_trig_mode := take_bit 3 (cm_trig_mode c), cm_fnc_id := cm_fnc_id c,
     cm_counter_idx := take_bit 4 (cm_counter_idx c), cm_timer_idx := take_bit 4 (cm_timer_idx c),
     cm_in_st := take_bit 2 (cm_in_st c), cm_color := take_bit 1 (cm_color c),
     cm_ringsz_idx := take_bit 4 (cm_ringsz_idx c), cm_desc_sz := take_bit 2 (cm_desc_sz c),
     cm_cidx := cm_cidx c, cm_valid := take_bit 1 (cm_valid c), cm_err := take_bit 2 (cm_err c),
     cm_user_trig_pend := take_bit 1 (cm_user_trig_pend c),
     cm_timer_running := take_bit 1 (cm_timer_running c), cm_full_upd := take_bit 1 (cm_full_upd c),
     cm_ovf_chk_dis := take_bit 1 (cm_ovf_chk_dis c), cm_at := take_bit 1 (cm_at c),
     cm_vec := take_bit 11 (cm_vec c), cm_int_aggr := take_bit 1 (cm_int_aggr c),
     cm_bs_addr := cm_bs_addr c AND GENMASK_ULL 63 12, cm_pidx := cm_pidx c\<rparr>"

definition intr_stored ::
  "qdma_indirect_intr_ctxt \<Rightarrow> qdma_indirect_intr_ctxt \<Rightarrow> qdma_indirect_intr_ctxt" where
  "intr_stored c c0 = c0\<lparr>
     ii_valid := take_bit 1 (ii_valid c), ii_vec := take_bit 11 (ii_vec c),
     ii_int_st := take_bit 1 (ii_int_st c), ii_color := take_bit 1 (ii_color c),
     ii_page_size := take_bit 3 (ii_page_size c), ii_pidx := take_bit 12 (ii_pidx c),
     ii_at := take_bit 1 (ii_at c), ii_baddr_4k := ii_baddr_4k c AND GENMASK_ULL 63 12\<rparr>"

lemmas ctxt_pack = ctxt_masks BIT_GENMASK field_simps split_joins Let_def

lemma fmap_pack: "fmap_unpack (fmap_words c) c0 = fmap_stored c c0"
  by (simp add: fmap_unpack_def fmap_words_def fmap_stored_def ctxt_pack)

lemma sw_pack: "sw_ctxt_unpack (sw_ctxt_words c) c0 = sw_stored c c0"
  by (simp add: sw_ctxt_unpack_def sw_ctxt_words_def sw_stored_def ctxt_pack)

lemma pfetch_pack: "pfetch_ctxt_unpack (pfetch_ctxt_words c) c0 = pfetch_stored c c0"
  by (simp add: pfetch_ctxt_unpack_def pfetch_ctxt_words_def pfetch_stored_def ctxt_pack)

lemma cmpt_pack: "cmpt_ctxt_unpack (cmpt_ctxt_words c) c0 = cmpt_stored c c0"
  by (simp add: cmpt_ctxt_unpack_def cmpt_ctxt_words_def cmpt_stored_def ctxt_pack)

lemma intr_pack: "intr_ctxt_unpack (intr_ctxt_words c) c0 = intr_stored c c0"
  by (simp add: intr_ctxt_unpack_def intr_ctxt_words_def intr_stored_def ctxt_pack)

subsection \<open>Packed contexts\<close>

text \<open>A structure kept in a context memory through a packing.\<close>

locale packed_context = context_memory +
  fixes pack :: "'c \<Rightarrow> u32 list"
    and unpack :: "u32 list \<Rightarrow> 'c \<Rightarrow> 'c"
    and stored :: "'c \<Rightarrow> 'c \<Rightarrow> 'c"
    and n :: nat
  assumes pack_length: "length (pack c) = n"
    and n_regs: "n \<le> 8"
    and unpack_pack: "unpack (pack c) c0 = stored c c0"
begin

lemma packed_write_read:
  assumes "hw env" "wr env sel q (pack c) s = (rv, s1)" "rd env sel q n s1 = (rv', d, s2)"
  shows "rv = 0 \<and> rv' = 0 \<and> unpack (the d) c0 = stored c c0"
  using write_then_read [OF assms(1) _ _ assms(2,3)] by (simp add: pack_length n_regs unpack_pack)

end

interpretation fmap_ctxt: packed_context ctxt_hw ctxt_words ctxt_key_of
  qdma_indirect_reg_write qdma_indirect_reg_read qdma_indirect_reg_clear qdma_indirect_reg_invalidate
  fmap_words fmap_unpack fmap_stored 2
  by unfold_locales (simp_all add: fmap_pack, simp add: fmap_words_def)

interpretation sw_ctxt: packed_context ctxt_hw ctxt_words ctxt_key_of
  qdma_indirect_reg_write qdma_indirect_reg_read qdma_indirect_reg_clear qdma_indirect_reg_invalidate
  sw_ctxt_words sw_ctxt_unpack sw_stored 5
  by unfold_locales (simp_all add: sw_pack, simp add: sw_ctxt_words_def)

interpretation pfetch_ctxt: packed_context ctxt_hw ctxt_words ctxt_key_of
  qdma_indirect_reg_write qdma_indirect_reg_read qdma_indirect_reg_clear qdma_indirect_reg_invalidate
  pfetch_ctxt_words pfetch_ctxt_unpack pfetch_stored 2
  by unfold_locales (simp_all add: pfetch_pack, simp add: pfetch_ctxt_words_def)

interpretation cmpt_ctxt: packed_context ctxt_hw ctxt_words ctxt_key_of
  qdma_indirect_reg_write qdma_indirect_reg_read qdma_indirect_reg_clear qdma_indirect_reg_invalidate
  cmpt_ctxt_words cmpt_ctxt_unpack cmpt_stored 5
  by unfold_locales (simp_all add: cmpt_pack, simp add: cmpt_ctxt_words_def)

interpretation intr_ctxt: packed_context ctxt_hw ctxt_words ctxt_key_of
  qdma_indirect_reg_write qdma_indirect_reg_read qdma_indirect_reg_clear qdma_indirect_reg_invalidate
  intr_ctxt_words intr_ctxt_unpack intr_stored 3
  by unfold_locales (simp_all add: intr_pack, simp add: intr_ctxt_words_def)

subsection \<open>Properties\<close>

text \<open>All-zero structures, for concrete runs.\<close>

definition sw_zero :: qdma_descq_sw_ctxt where
  "sw_zero = \<lparr>sw_ring_bs_addr = 0, sw_vec = 0, sw_pidx = 0, sw_irq_arm = 0, sw_fnc_id = 0, sw_qen = 0,
     sw_frcd_en = 0, sw_wbi_chk = 0, sw_wbi_intvl_en = 0, sw_at = 0, sw_fetch_max = 0,
     sw_rngsz_idx = 0, sw_desc_sz = 0, sw_bypass = 0, sw_mm_chn = 0, sw_wbk_en = 0, sw_irq_en = 0,
     sw_port_id = 0, sw_irq_no_last = 0, sw_err = 0, sw_err_wb_sent = 0, sw_irq_req = 0,
     sw_mrkr_dis = 0, sw_is_mm = 0, sw_intr_aggr = 0, sw_pasid_en = 0, sw_dis_intr_on_vf = 0,
     sw_virtio_en = 0, sw_pack_byp_out = 0, sw_irq_byp = 0, sw_host_id = 0, sw_pasid = 0,
     sw_virtio_dsc_base = 0\<rparr>"

definition cm_zero :: qdma_descq_cmpt_ctxt where
  "cm_zero = \<lparr>cm_bs_addr = 0, cm_vec = 0, cm_pidx = 0, cm_cidx = 0, cm_en_stat_desc = 0,
     cm_en_int = 0, cm_trig_mode = 0, cm_fnc_id = 0, cm_counter_idx = 0, cm_timer_idx = 0,
     cm_in_st = 0, cm_color = 0, cm_ringsz_idx = 0, cm_desc_sz = 0, cm_valid = 0, cm_err = 0,
     cm_user_trig_pend = 0, cm_timer_running = 0, cm_full_upd = 0, cm_ovf_chk_dis = 0, cm_at = 0,
     cm_int_aggr = 0, cm_dis_intr_on_vf = 0, cm_vio = 0, cm_dir_c2h = 0, cm_host_id = 0,
     cm_pasid = 0, cm_pasid_en = 0, cm_vio_eop = 0, cm_sh_cmpt = 0\<rparr>"

text \<open>
  C8: Software contexts survive the round trip. On a device that behaves as documented,
  \<^verbatim>\<open>qdma_sw_ctx_conf\<close> with \<^verbatim>\<open>QDMA_HW_ACCESS_WRITE\<close> followed by \<^verbatim>\<open>QDMA_HW_ACCESS_READ\<close> for the
  same queue and direction succeeds and returns every one of the 25 fields as written, cut
  to its width in the hardware context; no field leaks into another.
\<close>

theorem sw_ctxt_write_read:
  assumes "ctxt_hw env" "c2h \<le> 1"
  shows "\<exists>s1 s2. qdma_sw_ctx_conf (Some env) c2h hw_qid (Some c) QDMA_HW_ACCESS_WRITE s = (0, Some c, s1) \<and>
     qdma_sw_ctx_conf (Some env) c2h hw_qid (Some c0) QDMA_HW_ACCESS_READ s1 = (0, Some (sw_stored c c0), s2)"
proof -
  obtain rv s1 where w: "qdma_indirect_reg_write env (if c2h \<noteq> 0 then QDMA_CTXT_SEL_SW_C2H else QDMA_CTXT_SEL_SW_H2C) hw_qid (sw_ctxt_words c) s = (rv, s1)"
    by (metis prod.exhaust)
  obtain rv' d s2 where r: "qdma_indirect_reg_read env (if c2h \<noteq> 0 then QDMA_CTXT_SEL_SW_C2H else QDMA_CTXT_SEL_SW_H2C) hw_qid 5 s1 = (rv', d, s2)"
    by (metis prod_cases3)
  note wr = sw_ctxt.packed_write_read [OF assms(1) w r, of c0]
  show ?thesis using wr w r assms(1) leD [OF assms(2)]
    by (simp add: qdma_sw_ctx_conf_def qdma_sw_context_write_def qdma_sw_context_read_def)
qed

theorem sw_ctxt_write_read_witness:
  "\<exists>s1 s2. qdma_sw_ctx_conf (Some ref_hw) 1 7 (Some (sw_zero\<lparr>sw_qen := 1, sw_rngsz_idx := 5\<rparr>))
       QDMA_HW_ACCESS_WRITE [] = (0, Some (sw_zero\<lparr>sw_qen := 1, sw_rngsz_idx := 5\<rparr>), s1) \<and>
     qdma_sw_ctx_conf (Some ref_hw) 1 7 (Some sw_zero) QDMA_HW_ACCESS_READ s1 =
       (0, Some (sw_zero\<lparr>sw_qen := 1, sw_rngsz_idx := 5\<rparr>), s2)"
  using sw_ctxt_write_read [OF ref_hw_ok, of 1 7 "sw_zero\<lparr>sw_qen := 1, sw_rngsz_idx := 5\<rparr>" "[]" sw_zero]
  by (simp add: sw_stored_def sw_zero_def)

text \<open>
  Completion contexts survive the round trip. With a valid trigger mode,
  \<^verbatim>\<open>qdma_cmpt_ctx_conf\<close> writes a context that a later read of the queue returns field by
  field; the ring address, which is spread over two words, comes back with its low 12 bits
  cleared, and the producer index, split over two words, comes back whole.
\<close>

theorem cmpt_ctxt_write_read:
  assumes "ctxt_hw env" "cm_trig_mode c \<le> TRIG_MODE_TMR_CNTR"
  shows "\<exists>s1 s2. qdma_cmpt_ctx_conf (Some env) hw_qid (Some c) QDMA_HW_ACCESS_WRITE s = (0, Some c, s1) \<and>
     qdma_cmpt_ctx_conf (Some env) hw_qid (Some c0) QDMA_HW_ACCESS_READ s1 = (0, Some (cmpt_stored c c0), s2)"
proof -
  obtain rv s1 where w: "qdma_indirect_reg_write env QDMA_CTXT_SEL_CMPT hw_qid (cmpt_ctxt_words c) s = (rv, s1)"
    by (metis prod.exhaust)
  obtain rv' d s2 where r: "qdma_indirect_reg_read env QDMA_CTXT_SEL_CMPT hw_qid 5 s1 = (rv', d, s2)"
    by (metis prod_cases3)
  note wr = cmpt_ctxt.packed_write_read [OF assms(1) w r, of c0]
  show ?thesis using wr w r assms(1) leD [OF assms(2)]
    by (simp add: qdma_cmpt_ctx_conf_def qdma_cmpt_context_write_def qdma_cmpt_context_read_def)
qed

theorem cmpt_ctxt_write_read_witness:
  "\<exists>s1 s2. qdma_cmpt_ctx_conf (Some ref_hw) 7 (Some (cm_zero\<lparr>cm_valid := 1, cm_pidx := 0xABCD\<rparr>))
       QDMA_HW_ACCESS_WRITE [] = (0, Some (cm_zero\<lparr>cm_valid := 1, cm_pidx := 0xABCD\<rparr>), s1) \<and>
     qdma_cmpt_ctx_conf (Some ref_hw) 7 (Some cm_zero) QDMA_HW_ACCESS_READ s1 =
       (0, Some (cm_zero\<lparr>cm_valid := 1, cm_pidx := 0xABCD\<rparr>), s2)"
  using cmpt_ctxt_write_read [OF ref_hw_ok, of "cm_zero\<lparr>cm_valid := 1, cm_pidx := 0xABCD\<rparr>" 7 "[]" cm_zero]
  by (simp add: cmpt_stored_def cm_zero_def TRIG_MODE_TMR_CNTR_def)

text \<open>
  Prefetch contexts survive the round trip: \<^verbatim>\<open>qdma_pfetch_ctx_conf\<close> returns on a read
  what it wrote, the 16-bit software credit, split over two words, included.
\<close>

theorem pfetch_ctxt_write_read:
  assumes "ctxt_hw env"
  shows "\<exists>s1 s2. qdma_pfetch_ctx_conf (Some env) hw_qid (Some c) QDMA_HW_ACCESS_WRITE s = (0, Some c, s1) \<and>
     qdma_pfetch_ctx_conf (Some env) hw_qid (Some c0) QDMA_HW_ACCESS_READ s1 = (0, Some (pfetch_stored c c0), s2)"
proof -
  obtain rv s1 where w: "qdma_indirect_reg_write env QDMA_CTXT_SEL_PFTCH hw_qid (pfetch_ctxt_words c) s = (rv, s1)"
    by (metis prod.exhaust)
  obtain rv' d s2 where r: "qdma_indirect_reg_read env QDMA_CTXT_SEL_PFTCH hw_qid 2 s1 = (rv', d, s2)"
    by (metis prod_cases3)
  note wr = pfetch_ctxt.packed_write_read [OF assms(1) w r, of c0]
  show ?thesis using wr w r assms
    by (simp add: qdma_pfetch_ctx_conf_def qdma_pfetch_context_write_def qdma_pfetch_context_read_def)
qed

theorem pfetch_ctxt_write_read_witness:
  "\<exists>s1 s2 c. c = \<lparr>pf_sw_crdt = 0xABCD, pf_bypass = 1, pf_bufsz_idx = 3, pf_port_id = 2, pf_var_desc = 0,
       pf_num_pftch = 0, pf_err = 0, pf_pfch_en = 1, pf_pfch = 0, pf_valid = 1\<rparr> \<and>
     qdma_pfetch_ctx_conf (Some ref_hw) 7 (Some c) QDMA_HW_ACCESS_WRITE [] = (0, Some c, s1) \<and>
     qdma_pfetch_ctx_conf (Some ref_hw) 7 (Some c) QDMA_HW_ACCESS_READ s1 = (0, Some c, s2)"
  using pfetch_ctxt_write_read [OF ref_hw_ok, of 7 "\<lparr>pf_sw_crdt = 0xABCD, pf_bypass = 1, pf_bufsz_idx = 3,
      pf_port_id = 2, pf_var_desc = 0, pf_num_pftch = 0, pf_err = 0, pf_pfch_en = 1, pf_pfch = 0,
      pf_valid = 1\<rparr>" "[]" "\<lparr>pf_sw_crdt = 0xABCD, pf_bypass = 1, pf_bufsz_idx = 3,
      pf_port_id = 2, pf_var_desc = 0, pf_num_pftch = 0, pf_err = 0, pf_pfch_en = 1, pf_pfch = 0,
      pf_valid = 1\<rparr>"]
  by (simp add: pfetch_stored_def)

text \<open>
  Interrupt contexts survive the round trip: \<^verbatim>\<open>qdma_indirect_intr_ctx_conf\<close> returns on
  a read what it wrote; the ring address, cut into three parts over three words, comes back
  4K aligned.
\<close>

theorem intr_ctxt_write_read:
  assumes "ctxt_hw env"
  shows "\<exists>s1 s2. qdma_indirect_intr_ctx_conf (Some env) hw_qid (Some c) QDMA_HW_ACCESS_WRITE s = (0, Some c, s1) \<and>
     qdma_indirect_intr_ctx_conf (Some env) hw_qid (Some c0) QDMA_HW_ACCESS_READ s1 = (0, Some (intr_stored c c0), s2)"
proof -
  obtain rv s1 where w: "qdma_indirect_reg_write env QDMA_CTXT_SEL_INT_COAL hw_qid (intr_ctxt_words c) s = (rv, s1)"
    by (metis prod.exhaust)
  obtain rv' d s2 where r: "qdma_indirect_reg_read env QDMA_CTXT_SEL_INT_COAL hw_qid 3 s1 = (rv', d, s2)"
    by (metis prod_cases3)
  note wr = intr_ctxt.packed_write_read [OF assms(1) w r, of c0]
  show ?thesis using wr w r assms
    by (simp add: qdma_indirect_intr_ctx_conf_def qdma_indirect_intr_context_write_def qdma_indirect_intr_context_read_def)
qed

theorem intr_ctxt_write_read_witness:
  "\<exists>s1 s2 c. c = \<lparr>ii_baddr_4k = 0, ii_vec = 3, ii_pidx = 9, ii_valid = 1, ii_int_st = 0, ii_color = 1,
       ii_page_size = 2, ii_at = 0, ii_host_id = 0, ii_pasid = 0, ii_pasid_en = 0, ii_func_id = 0\<rparr> \<and>
     qdma_indirect_intr_ctx_conf (Some ref_hw) 7 (Some c) QDMA_HW_ACCESS_WRITE [] = (0, Some c, s1) \<and>
     qdma_indirect_intr_ctx_conf (Some ref_hw) 7 (Some c) QDMA_HW_ACCESS_READ s1 = (0, Some c, s2)"
  using intr_ctxt_write_read [OF ref_hw_ok, of 7 "\<lparr>ii_baddr_4k = 0, ii_vec = 3, ii_pidx = 9, ii_valid = 1,
      ii_int_st = 0, ii_color = 1, ii_page_size = 2, ii_at = 0, ii_host_id = 0, ii_pasid = 0,
      ii_pasid_en = 0, ii_func_id = 0\<rparr>" "[]" "\<lparr>ii_baddr_4k = 0, ii_vec = 3, ii_pidx = 9, ii_valid = 1,
      ii_int_st = 0, ii_color = 1, ii_page_size = 2, ii_at = 0, ii_host_id = 0, ii_pasid = 0,
      ii_pasid_en = 0, ii_func_id = 0\<rparr>"]
  by (simp add: intr_stored_def)

text \<open>
  Function-map entries survive the round trip: \<^verbatim>\<open>qdma_fmap_conf\<close> returns on a read the
  base and count it wrote, cut to 11 and 12 bits, so every base below 2048 and count below
  4096 comes back unchanged.
\<close>

theorem fmap_write_read:
  assumes "ctxt_hw env"
  shows "\<exists>s1 s2. qdma_fmap_conf (Some env) hw_qid (Some c) QDMA_HW_ACCESS_WRITE s = (0, Some c, s1) \<and>
     qdma_fmap_conf (Some env) hw_qid (Some c0) QDMA_HW_ACCESS_READ s1 = (0, Some (fmap_stored c c0), s2)"
proof -
  obtain rv s1 where w: "qdma_indirect_reg_write env QDMA_CTXT_SEL_FMAP hw_qid (fmap_words c) s = (rv, s1)"
    by (metis prod.exhaust)
  obtain rv' d s2 where r: "qdma_indirect_reg_read env QDMA_CTXT_SEL_FMAP hw_qid 2 s1 = (rv', d, s2)"
    by (metis prod_cases3)
  note wr = fmap_ctxt.packed_write_read [OF assms(1) w r, of c0]
  show ?thesis using wr w r assms
    by (simp add: qdma_fmap_conf_def qdma_fmap_write_def qdma_fmap_read_def)
qed

theorem fmap_write_read_witness:
  "\<exists>s1 s2. qdma_fmap_conf (Some ref_hw) 7 (Some \<lparr>fm_qbase = 32, fm_qmax = 16\<rparr>) QDMA_HW_ACCESS_WRITE [] =
       (0, Some \<lparr>fm_qbase = 32, fm_qmax = 16\<rparr>, s1) \<and>
     qdma_fmap_conf (Some ref_hw) 7 (Some \<lparr>fm_qbase = 0, fm_qmax = 0\<rparr>) QDMA_HW_ACCESS_READ s1 =
       (0, Some \<lparr>fm_qbase = 32, fm_qmax = 16\<rparr>, s2)"
  using fmap_write_read [OF ref_hw_ok, of 7 "\<lparr>fm_qbase = 32, fm_qmax = 16\<rparr>" "[]" "\<lparr>fm_qbase = 0, fm_qmax = 0\<rparr>"]
  by (simp add: fmap_stored_def)

text \<open>
  Invalid requests never reach the device. A null device, a null context where one is
  needed, a direction other than 0 and 1, an access type the context does not support and
  a trigger mode beyond the last one make the configuration functions return
  \<^verbatim>\<open>-QDMA_ERR_INV_PARAM\<close> without a single register access and without changing the
  caller's structure.
\<close>

theorem ctx_conf_rejects:
  "qdma_sw_ctx_conf None c2h hw_qid ctxt1 t s = (inv_param, ctxt1, s) \<and>
   qdma_cmpt_ctx_conf None hw_qid ctxt2 t s = (inv_param, ctxt2, s) \<and>
   qdma_sw_ctx_conf dev 2 hw_qid ctxt1 t s = (inv_param, ctxt1, s) \<and>
   qdma_sw_ctx_conf dev c2h hw_qid None QDMA_HW_ACCESS_WRITE s = (inv_param, None, s) \<and>
   qdma_hw_ctx_conf dev c2h hw_qid ctxt3 QDMA_HW_ACCESS_WRITE s = (inv_param, ctxt3, s) \<and>
   qdma_credit_ctx_conf dev c2h hw_qid ctxt4 QDMA_HW_ACCESS_WRITE s = (inv_param, ctxt4, s) \<and>
   qdma_fmap_conf dev hw_qid ctxt5 QDMA_HW_ACCESS_INVALIDATE s = (inv_param, ctxt5, s) \<and>
   qdma_indirect_intr_ctx_conf dev hw_qid ctxt6 QDMA_HW_ACCESS_MAX s = (inv_param, ctxt6, s) \<and>
   qdma_cmpt_ctx_conf dev hw_qid (Some (c\<lparr>cm_trig_mode := 6\<rparr>)) QDMA_HW_ACCESS_WRITE s =
     (inv_param, Some (c\<lparr>cm_trig_mode := 6\<rparr>), s)"
proof (intro conjI)
  show "qdma_sw_ctx_conf None c2h hw_qid ctxt1 t s = (inv_param, ctxt1, s)"
    by (cases t; cases ctxt1) (auto simp: qdma_sw_ctx_conf_def qdma_sw_context_write_def
        qdma_sw_context_read_def qdma_sw_context_clear_def qdma_sw_context_invalidate_def)
  show "qdma_cmpt_ctx_conf None hw_qid ctxt2 t s = (inv_param, ctxt2, s)"
    by (cases t; cases ctxt2) (auto simp: qdma_cmpt_ctx_conf_def qdma_cmpt_context_write_def
        qdma_cmpt_context_read_def qdma_cmpt_context_clear_def qdma_cmpt_context_invalidate_def)
  show "qdma_sw_ctx_conf dev c2h hw_qid None QDMA_HW_ACCESS_WRITE s = (inv_param, None, s)"
    by (cases dev) (auto simp: qdma_sw_ctx_conf_def qdma_sw_context_write_def)
  show "qdma_cmpt_ctx_conf dev hw_qid (Some (c\<lparr>cm_trig_mode := 6\<rparr>)) QDMA_HW_ACCESS_WRITE s =
     (inv_param, Some (c\<lparr>cm_trig_mode := 6\<rparr>), s)"
    by (cases dev) (simp_all add: qdma_cmpt_ctx_conf_def qdma_cmpt_context_write_def TRIG_MODE_TMR_CNTR_def)
qed (auto simp: qdma_sw_ctx_conf_def qdma_hw_ctx_conf_def qdma_credit_ctx_conf_def qdma_fmap_conf_def
    qdma_indirect_intr_ctx_conf_def)

lemmas ctx_conf_defs =
  qdma_sw_ctx_conf_def qdma_sw_context_write_def qdma_sw_context_read_def
  qdma_sw_context_clear_def qdma_sw_context_invalidate_def
  qdma_pfetch_ctx_conf_def qdma_pfetch_context_write_def qdma_pfetch_context_read_def
  qdma_pfetch_context_clear_def qdma_pfetch_context_invalidate_def
  qdma_cmpt_ctx_conf_def qdma_cmpt_context_write_def qdma_cmpt_context_read_def
  qdma_cmpt_context_clear_def qdma_cmpt_context_invalidate_def
  qdma_hw_ctx_conf_def qdma_hw_context_read_def qdma_hw_context_clear_def
  qdma_hw_context_invalidate_def
  qdma_credit_ctx_conf_def qdma_credit_context_read_def qdma_credit_context_clear_def
  qdma_credit_context_invalidate_def
  qdma_indirect_intr_ctx_conf_def qdma_indirect_intr_context_write_def
  qdma_indirect_intr_context_read_def qdma_indirect_intr_context_clear_def
  qdma_indirect_intr_context_invalidate_def
  qdma_fmap_conf_def qdma_fmap_write_def qdma_fmap_read_def qdma_fmap_clear_def

definition untouched_or_critical :: "hw_log \<Rightarrow> hw_log \<Rightarrow> bool" where
  "untouched_or_critical s s' \<longleftrightarrow> s' = s \<or> critical s s'"

lemma conf_critical:
  "untouched_or_critical s (snd (snd (qdma_sw_ctx_conf dev c2h qid c1 t s)))"
  "untouched_or_critical s (snd (snd (qdma_pfetch_ctx_conf dev qid c2 t s)))"
  "untouched_or_critical s (snd (snd (qdma_cmpt_ctx_conf dev qid c3 t s)))"
  "untouched_or_critical s (snd (snd (qdma_hw_ctx_conf dev c2h qid c4 t s)))"
  "untouched_or_critical s (snd (snd (qdma_credit_ctx_conf dev c2h qid c5 t s)))"
  "untouched_or_critical s (snd (snd (qdma_indirect_intr_ctx_conf dev qid c6 t s)))"
  "untouched_or_critical s (snd (snd (qdma_fmap_conf dev qid c7 t s)))"
  by (cases t; auto simp: untouched_or_critical_def ctx_conf_defs case_prod_unfold Let_def
      indirect_critical split: option.split)+

text \<open>
  The register lock is balanced in every context operation. For every device, including
  one that never answers, and all arguments, each configuration function either leaves the
  device alone or runs exactly one critical section, whatever it returns.
\<close>

theorem ctx_conf_lock_balanced:
  "untouched_or_critical s (snd (snd (qdma_sw_ctx_conf dev c2h qid c1 t s))) \<and>
   untouched_or_critical s (snd (snd (qdma_pfetch_ctx_conf dev qid c2 t s))) \<and>
   untouched_or_critical s (snd (snd (qdma_cmpt_ctx_conf dev qid c3 t s))) \<and>
   untouched_or_critical s (snd (snd (qdma_hw_ctx_conf dev c2h qid c4 t s))) \<and>
   untouched_or_critical s (snd (snd (qdma_credit_ctx_conf dev c2h qid c5 t s))) \<and>
   untouched_or_critical s (snd (snd (qdma_indirect_intr_ctx_conf dev qid c6 t s))) \<and>
   untouched_or_critical s (snd (snd (qdma_fmap_conf dev qid c7 t s)))"
  by (intro conjI conf_critical)

end
