(* ===== verification/Soft_Csr.thy ===== *)
theory Soft_Csr
  imports Soft_Context
begin

text \<open>
  Global configuration of the soft IP (\<^verbatim>\<open>src/libqdma/qdma_access/qdma_soft_access/qdma_soft_access.c\<close>):
  the arrays of global registers (ring sizes, timers, counter thresholds, buffer sizes), the
  defaults, the device attributes, the doorbell registers of the queues, the user BAR, the
  legacy interrupt, the writeback interval, the memory-mapped channel and the clearing of
  the context memory. The lemmas show that the global arrays behave like four separate
  arrays of 16 registers, that every doorbell write goes to its own register with every
  field in its place, and which bits the read-modify-write operations can and cannot change.
\<close>

subsection \<open>Registers and masks\<close>

definition QDMA_H2C_THROT_DATA_THRESH :: u32 where "QDMA_H2C_THROT_DATA_THRESH = 0x4000"
definition QDMA_THROT_EN_DATA :: u32 where "QDMA_THROT_EN_DATA = 1"
definition QDMA_THROT_EN_REQ :: u32 where "QDMA_THROT_EN_REQ = 0"
definition QDMA_H2C_THROT_REQ_THRESH :: u32 where "QDMA_H2C_THROT_REQ_THRESH = 0x60"
definition QDMA_OFFSET_GLBL_RNG_SZ :: u32 where "QDMA_OFFSET_GLBL_RNG_SZ = 0x204"
definition QDMA_OFFSET_GLBL_DSC_CFG :: u32 where "QDMA_OFFSET_GLBL_DSC_CFG = 0x250"
definition QDMA_GLBL_DSC_CFG_WB_ACC_INT_MASK :: u32 where "QDMA_GLBL_DSC_CFG_WB_ACC_INT_MASK = GENMASK 2 0"
definition QDMA_GLBL_DSC_CFG_MAX_DSC_FETCH_MASK :: u32 where "QDMA_GLBL_DSC_CFG_MAX_DSC_FETCH_MASK = GENMASK 5 3"
definition QDMA_OFFSET_GLBL_INTERRUPT_CFG :: u32 where "QDMA_OFFSET_GLBL_INTERRUPT_CFG = 0x2C4"
definition QDMA_GLBL_INTR_CFG_EN_LGCY_INTR_MASK :: u32 where "QDMA_GLBL_INTR_CFG_EN_LGCY_INTR_MASK = BIT 0"
definition QDMA_GLBL_INTR_LGCY_INTR_PEND_MASK :: u32 where "QDMA_GLBL_INTR_LGCY_INTR_PEND_MASK = BIT 1"
definition QDMA_OFFSET_C2H_TIMER_CNT :: u32 where "QDMA_OFFSET_C2H_TIMER_CNT = 0xA00"
definition QDMA_OFFSET_C2H_CNT_TH :: u32 where "QDMA_OFFSET_C2H_CNT_TH = 0xA40"
definition QDMA_OFFSET_C2H_BUF_SZ :: u32 where "QDMA_OFFSET_C2H_BUF_SZ = 0xAB0"
definition QDMA_OFFSET_C2H_PFETCH_CFG :: u32 where "QDMA_OFFSET_C2H_PFETCH_CFG = 0xB08"
definition QDMA_C2H_EVT_QCNT_TH_MASK :: u32 where "QDMA_C2H_EVT_QCNT_TH_MASK = GENMASK 31 25"
definition QDMA_C2H_PFCH_QCNT_MASK :: u32 where "QDMA_C2H_PFCH_QCNT_MASK = GENMASK 24 18"
definition QDMA_C2H_NUM_PFCH_MASK :: u32 where "QDMA_C2H_NUM_PFCH_MASK = GENMASK 17 9"
definition QDMA_C2H_PFCH_FL_TH_MASK :: u32 where "QDMA_C2H_PFCH_FL_TH_MASK = GENMASK 8 0"
definition QDMA_OFFSET_C2H_INT_TIMER_TICK :: u32 where "QDMA_OFFSET_C2H_INT_TIMER_TICK = 0xB0C"
definition QDMA_OFFSET_C2H_WRB_COAL_CFG :: u32 where "QDMA_OFFSET_C2H_WRB_COAL_CFG = 0xB50"
definition QDMA_C2H_MAX_BUF_SZ_MASK :: u32 where "QDMA_C2H_MAX_BUF_SZ_MASK = GENMASK 31 26"
definition QDMA_C2H_TICK_VAL_MASK :: u32 where "QDMA_C2H_TICK_VAL_MASK = GENMASK 25 14"
definition QDMA_C2H_TICK_CNT_MASK :: u32 where "QDMA_C2H_TICK_CNT_MASK = GENMASK 13 2"
definition QDMA_OFFSET_C2H_PFETCH_CACHE_DEPTH :: u32 where "QDMA_OFFSET_C2H_PFETCH_CACHE_DEPTH = 0xBE0"
definition QDMA_OFFSET_C2H_CMPT_COAL_BUF_DEPTH :: u32 where "QDMA_OFFSET_C2H_CMPT_COAL_BUF_DEPTH = 0xBE4"
definition QDMA_OFFSET_H2C_REQ_THROT :: u32 where "QDMA_OFFSET_H2C_REQ_THROT = 0xE24"
definition QDMA_H2C_REQ_THROT_EN_REQ_MASK :: u32 where "QDMA_H2C_REQ_THROT_EN_REQ_MASK = BIT 31"
definition QDMA_H2C_REQ_THRESH_MASK :: u32 where "QDMA_H2C_REQ_THRESH_MASK = GENMASK 25 17"
definition QDMA_H2C_REQ_THROT_EN_DATA_MASK :: u32 where "QDMA_H2C_REQ_THROT_EN_DATA_MASK = BIT 16"
definition QDMA_H2C_DATA_THRESH_MASK :: u32 where "QDMA_H2C_DATA_THRESH_MASK = GENMASK 15 0"
definition QDMA_OFFSET_H2C_MM_CONTROL :: u32 where "QDMA_OFFSET_H2C_MM_CONTROL = 0x1204"
definition QDMA_OFFSET_C2H_MM_CONTROL :: u32 where "QDMA_OFFSET_C2H_MM_CONTROL = 0x1004"
definition QDMA_OFFSET_GLBL2_PF_BARLITE_INT :: u32 where "QDMA_OFFSET_GLBL2_PF_BARLITE_INT = 0x104"
definition QDMA_GLBL2_PF3_BAR_MAP_MASK :: u32 where "QDMA_GLBL2_PF3_BAR_MAP_MASK = GENMASK 23 18"
definition QDMA_GLBL2_PF2_BAR_MAP_MASK :: u32 where "QDMA_GLBL2_PF2_BAR_MAP_MASK = GENMASK 17 12"
definition QDMA_GLBL2_PF1_BAR_MAP_MASK :: u32 where "QDMA_GLBL2_PF1_BAR_MAP_MASK = GENMASK 11 6"
definition QDMA_GLBL2_PF0_BAR_MAP_MASK :: u32 where "QDMA_GLBL2_PF0_BAR_MAP_MASK = GENMASK 5 0"
definition QDMA_OFFSET_GLBL2_PF_BARLITE_EXT :: u32 where "QDMA_OFFSET_GLBL2_PF_BARLITE_EXT = 0x10C"
definition QDMA_OFFSET_GLBL2_CHANNEL_MDMA :: u32 where "QDMA_OFFSET_GLBL2_CHANNEL_MDMA = 0x118"
definition QDMA_GLBL2_ST_C2H_MASK :: u32 where "QDMA_GLBL2_ST_C2H_MASK = BIT 17"
definition QDMA_GLBL2_ST_H2C_MASK :: u32 where "QDMA_GLBL2_ST_H2C_MASK = BIT 16"
definition QDMA_GLBL2_MM_C2H_MASK :: u32 where "QDMA_GLBL2_MM_C2H_MASK = BIT 8"
definition QDMA_GLBL2_MM_H2C_MASK :: u32 where "QDMA_GLBL2_MM_H2C_MASK = BIT 0"
definition QDMA_OFFSET_GLBL2_CHANNEL_QDMA_CAP :: u32 where "QDMA_OFFSET_GLBL2_CHANNEL_QDMA_CAP = 0x120"
definition QDMA_GLBL2_MULTQ_MAX_MASK :: u32 where "QDMA_GLBL2_MULTQ_MAX_MASK = GENMASK 11 0"
definition QDMA_OFFSET_GLBL2_MISC_CAP :: u32 where "QDMA_OFFSET_GLBL2_MISC_CAP = 0x134"
definition QDMA_OFFSET_VF_USER_BAR_ID :: u32 where "QDMA_OFFSET_VF_USER_BAR_ID = 0x1018"
definition QDMA_OFFSET_DMAP_SEL_INT_CIDX :: u32 where "QDMA_OFFSET_DMAP_SEL_INT_CIDX = 0x18000"
definition QDMA_OFFSET_DMAP_SEL_H2C_DSC_PIDX :: u32 where "QDMA_OFFSET_DMAP_SEL_H2C_DSC_PIDX = 0x18004"
definition QDMA_OFFSET_DMAP_SEL_C2H_DSC_PIDX :: u32 where "QDMA_OFFSET_DMAP_SEL_C2H_DSC_PIDX = 0x18008"
definition QDMA_OFFSET_DMAP_SEL_CMPT_CIDX :: u32 where "QDMA_OFFSET_DMAP_SEL_CMPT_CIDX = 0x1800C"
definition QDMA_OFFSET_VF_DMAP_SEL_INT_CIDX :: u32 where "QDMA_OFFSET_VF_DMAP_SEL_INT_CIDX = 0x3000"
definition QDMA_OFFSET_VF_DMAP_SEL_H2C_DSC_PIDX :: u32 where "QDMA_OFFSET_VF_DMAP_SEL_H2C_DSC_PIDX = 0x3004"
definition QDMA_OFFSET_VF_DMAP_SEL_C2H_DSC_PIDX :: u32 where "QDMA_OFFSET_VF_DMAP_SEL_C2H_DSC_PIDX = 0x3008"
definition QDMA_OFFSET_VF_DMAP_SEL_CMPT_CIDX :: u32 where "QDMA_OFFSET_VF_DMAP_SEL_CMPT_CIDX = 0x300C"
definition QDMA_DMA_SEL_INT_SW_CIDX_MASK :: u32 where "QDMA_DMA_SEL_INT_SW_CIDX_MASK = GENMASK 15 0"
definition QDMA_DMA_SEL_INT_RING_IDX_MASK :: u32 where "QDMA_DMA_SEL_INT_RING_IDX_MASK = GENMASK 23 16"
definition QDMA_DMA_SEL_DESC_PIDX_MASK :: u32 where "QDMA_DMA_SEL_DESC_PIDX_MASK = GENMASK 15 0"
definition QDMA_DMA_SEL_IRQ_EN_MASK :: u32 where "QDMA_DMA_SEL_IRQ_EN_MASK = BIT 16"
definition QDMA_DMAP_SEL_CMPT_IRQ_EN_MASK :: u32 where "QDMA_DMAP_SEL_CMPT_IRQ_EN_MASK = BIT 28"
definition QDMA_DMAP_SEL_CMPT_STS_DESC_EN_MASK :: u32 where "QDMA_DMAP_SEL_CMPT_STS_DESC_EN_MASK = BIT 27"
definition QDMA_DMAP_SEL_CMPT_TRG_MODE_MASK :: u32 where "QDMA_DMAP_SEL_CMPT_TRG_MODE_MASK = GENMASK 26 24"
definition QDMA_DMAP_SEL_CMPT_TMR_CNT_MASK :: u32 where "QDMA_DMAP_SEL_CMPT_TMR_CNT_MASK = GENMASK 23 20"
definition QDMA_DMAP_SEL_CMPT_CNT_THRESH_MASK :: u32 where "QDMA_DMAP_SEL_CMPT_CNT_THRESH_MASK = GENMASK 19 16"
definition QDMA_DMAP_SEL_CMPT_WRB_CIDX_MASK :: u32 where "QDMA_DMAP_SEL_CMPT_WRB_CIDX_MASK = GENMASK 15 0"
definition QDMA_GLBL2_MM_CMPT_EN_MASK :: u32 where "QDMA_GLBL2_MM_CMPT_EN_MASK = BIT 2"
definition QDMA_GLBL2_FLR_PRESENT_MASK :: u32 where "QDMA_GLBL2_FLR_PRESENT_MASK = BIT 1"
definition QDMA_GLBL2_MAILBOX_EN_MASK :: u32 where "QDMA_GLBL2_MAILBOX_EN_MASK = BIT 0"
definition QDMA_MM_CONTROL_STEP :: u32 where "QDMA_MM_CONTROL_STEP = 0x100"
definition QDMA_PIDX_STEP :: u32 where "QDMA_PIDX_STEP = 0x10"
definition QDMA_CMPT_CIDX_STEP :: u32 where "QDMA_CMPT_CIDX_STEP = 0x10"
definition QDMA_INT_CIDX_STEP :: u32 where "QDMA_INT_CIDX_STEP = 0x10"
definition DEFAULT_MAX_DSC_FETCH :: u32 where "DEFAULT_MAX_DSC_FETCH = 6"
definition QDMA_NUM_WRB_INTERVALS :: u32 where "QDMA_NUM_WRB_INTERVALS = 8"
definition QDMA_WRB_INTERVAL_128 :: u32 where "QDMA_WRB_INTERVAL_128 = 5"
definition DEFAULT_WRB_INT :: u32 where "DEFAULT_WRB_INT = QDMA_WRB_INTERVAL_128"
definition DEFAULT_PFCH_STOP_THRESH :: u32 where "DEFAULT_PFCH_STOP_THRESH = 256"
definition DEFAULT_PFCH_NUM_ENTRIES_PER_Q :: u32 where "DEFAULT_PFCH_NUM_ENTRIES_PER_Q = 8"
definition DEFAULT_C2H_INTR_TIMER_TICK :: u32 where "DEFAULT_C2H_INTR_TIMER_TICK = 25"
definition DEFAULT_CMPT_COAL_TIMER_CNT :: u32 where "DEFAULT_CMPT_COAL_TIMER_CNT = 5"
definition DEFAULT_CMPT_COAL_TIMER_TICK :: u32 where "DEFAULT_CMPT_COAL_TIMER_TICK = 25"
definition QDMA_NUM_RING_SIZES :: nat where "QDMA_NUM_RING_SIZES = 16"
definition QDMA_NUM_C2H_TIMERS :: nat where "QDMA_NUM_C2H_TIMERS = 16"
definition QDMA_NUM_C2H_BUFFER_SIZES :: nat where "QDMA_NUM_C2H_BUFFER_SIZES = 16"
definition QDMA_NUM_C2H_COUNTERS :: nat where "QDMA_NUM_C2H_COUNTERS = 16"
definition QDMA_BAR_NUM :: nat where "QDMA_BAR_NUM = 6"

lemmas csr_masks =
  QDMA_GLBL_DSC_CFG_WB_ACC_INT_MASK_def QDMA_GLBL_DSC_CFG_MAX_DSC_FETCH_MASK_def
  QDMA_GLBL_INTR_CFG_EN_LGCY_INTR_MASK_def QDMA_GLBL_INTR_LGCY_INTR_PEND_MASK_def
  QDMA_C2H_EVT_QCNT_TH_MASK_def QDMA_C2H_PFCH_QCNT_MASK_def QDMA_C2H_NUM_PFCH_MASK_def
  QDMA_C2H_PFCH_FL_TH_MASK_def QDMA_C2H_MAX_BUF_SZ_MASK_def QDMA_C2H_TICK_VAL_MASK_def
  QDMA_C2H_TICK_CNT_MASK_def QDMA_H2C_REQ_THROT_EN_REQ_MASK_def QDMA_H2C_REQ_THRESH_MASK_def
  QDMA_H2C_REQ_THROT_EN_DATA_MASK_def QDMA_H2C_DATA_THRESH_MASK_def
  QDMA_GLBL2_PF3_BAR_MAP_MASK_def QDMA_GLBL2_PF2_BAR_MAP_MASK_def QDMA_GLBL2_PF1_BAR_MAP_MASK_def
  QDMA_GLBL2_PF0_BAR_MAP_MASK_def QDMA_GLBL2_ST_C2H_MASK_def QDMA_GLBL2_ST_H2C_MASK_def
  QDMA_GLBL2_MM_C2H_MASK_def QDMA_GLBL2_MM_H2C_MASK_def QDMA_GLBL2_MULTQ_MAX_MASK_def
  QDMA_DMA_SEL_INT_SW_CIDX_MASK_def QDMA_DMA_SEL_INT_RING_IDX_MASK_def
  QDMA_DMA_SEL_DESC_PIDX_MASK_def QDMA_DMA_SEL_IRQ_EN_MASK_def QDMA_DMAP_SEL_CMPT_IRQ_EN_MASK_def
  QDMA_DMAP_SEL_CMPT_STS_DESC_EN_MASK_def QDMA_DMAP_SEL_CMPT_TRG_MODE_MASK_def
  QDMA_DMAP_SEL_CMPT_TMR_CNT_MASK_def QDMA_DMAP_SEL_CMPT_CNT_THRESH_MASK_def
  QDMA_DMAP_SEL_CMPT_WRB_CIDX_MASK_def QDMA_GLBL2_MM_CMPT_EN_MASK_def
  QDMA_GLBL2_FLR_PRESENT_MASK_def QDMA_GLBL2_MAILBOX_EN_MASK_def

lemmas csr_consts =
  QDMA_H2C_THROT_DATA_THRESH_def QDMA_THROT_EN_DATA_def QDMA_THROT_EN_REQ_def
  QDMA_H2C_THROT_REQ_THRESH_def QDMA_OFFSET_GLBL_RNG_SZ_def QDMA_OFFSET_GLBL_DSC_CFG_def
  QDMA_OFFSET_GLBL_INTERRUPT_CFG_def QDMA_OFFSET_C2H_TIMER_CNT_def QDMA_OFFSET_C2H_CNT_TH_def
  QDMA_OFFSET_C2H_BUF_SZ_def QDMA_OFFSET_C2H_PFETCH_CFG_def QDMA_OFFSET_C2H_INT_TIMER_TICK_def
  QDMA_OFFSET_C2H_WRB_COAL_CFG_def QDMA_OFFSET_C2H_PFETCH_CACHE_DEPTH_def
  QDMA_OFFSET_C2H_CMPT_COAL_BUF_DEPTH_def QDMA_OFFSET_H2C_REQ_THROT_def
  QDMA_OFFSET_H2C_MM_CONTROL_def QDMA_OFFSET_C2H_MM_CONTROL_def
  QDMA_OFFSET_GLBL2_PF_BARLITE_INT_def QDMA_OFFSET_GLBL2_PF_BARLITE_EXT_def
  QDMA_OFFSET_GLBL2_CHANNEL_MDMA_def QDMA_OFFSET_GLBL2_CHANNEL_QDMA_CAP_def
  QDMA_OFFSET_GLBL2_MISC_CAP_def QDMA_OFFSET_VF_USER_BAR_ID_def QDMA_OFFSET_DMAP_SEL_INT_CIDX_def
  QDMA_OFFSET_DMAP_SEL_H2C_DSC_PIDX_def QDMA_OFFSET_DMAP_SEL_C2H_DSC_PIDX_def
  QDMA_OFFSET_DMAP_SEL_CMPT_CIDX_def QDMA_OFFSET_VF_DMAP_SEL_INT_CIDX_def
  QDMA_OFFSET_VF_DMAP_SEL_H2C_DSC_PIDX_def QDMA_OFFSET_VF_DMAP_SEL_C2H_DSC_PIDX_def
  QDMA_OFFSET_VF_DMAP_SEL_CMPT_CIDX_def QDMA_MM_CONTROL_STEP_def QDMA_PIDX_STEP_def
  QDMA_CMPT_CIDX_STEP_def QDMA_INT_CIDX_STEP_def DEFAULT_MAX_DSC_FETCH_def
  DEFAULT_PFCH_STOP_THRESH_def DEFAULT_PFCH_NUM_ENTRIES_PER_Q_def DEFAULT_C2H_INTR_TIMER_TICK_def
  DEFAULT_CMPT_COAL_TIMER_CNT_def DEFAULT_CMPT_COAL_TIMER_TICK_def QDMA_WRB_INTERVAL_128_def
  QDMA_NUM_WRB_INTERVALS_def DEFAULT_WRB_INT_def QDMA_NUM_RING_SIZES_def QDMA_NUM_C2H_TIMERS_def
  QDMA_NUM_C2H_BUFFER_SIZES_def QDMA_NUM_C2H_COUNTERS_def QDMA_BAR_NUM_def

subsection \<open>Data\<close>

text \<open>A one-bit or two-bit field is a word of that width: an assignment truncates.\<close>

record qdma_dev_attributes =
  num_pfs :: u8
  num_qs :: u16
  flr_present :: "1 word"
  st_en :: "1 word"
  mm_en :: "1 word"
  mm_cmpt_en :: "1 word"
  mailbox_en :: "1 word"
  debug_mode :: "1 word"
  desc_eng_mode :: "2 word"
  mm_channel_max :: u8
  qid2vec_ctx :: "1 word"
  cmpt_ovf_chk_dis :: "1 word"
  mailbox_intr :: "1 word"
  sw_desc_64b :: "1 word"
  cmpt_desc_64b :: "1 word"
  dynamic_bar :: "1 word"
  legacy_intr :: "1 word"
  cmpt_trig_count_timer :: "1 word"

record qdma_q_pidx_reg_info =
  pi_pidx :: u16
  pi_irq_en :: u8

record qdma_intr_cidx_reg_info =
  ic_sw_cidx :: u16
  ic_rng_idx :: u8

record qdma_q_cmpt_cidx_reg_info =
  cc_wrb_cidx :: u16
  cc_counter_idx :: u8
  cc_timer_idx :: u8
  cc_trig_mode :: u8
  cc_wrb_en :: u8
  cc_irq_en :: u8

datatype qdma_global_csr_type =
  QDMA_CSR_RING_SZ | QDMA_CSR_TIMER_CNT | QDMA_CSR_CNT_TH | QDMA_CSR_BUF_SZ | QDMA_CSR_MAX

datatype status_type = DISABLE | ENABLE

fun status_code :: "status_type \<Rightarrow> u32" where
  "status_code DISABLE = 0"
| "status_code ENABLE = 1"

subsection \<open>Device attributes\<close>

text \<open>The number of PFs with a BAR, counted in a byte.\<close>

definition count_pfs :: "u32 \<Rightarrow> u8" where
  "count_pfs reg_val =
     (let count = 0;
          count = (if FIELD_GET QDMA_GLBL2_PF0_BAR_MAP_MASK reg_val \<noteq> 0 then count + 1 else count);
          count = (if FIELD_GET QDMA_GLBL2_PF1_BAR_MAP_MASK reg_val \<noteq> 0 then count + 1 else count);
          count = (if FIELD_GET QDMA_GLBL2_PF2_BAR_MAP_MASK reg_val \<noteq> 0 then count + 1 else count);
          count = (if FIELD_GET QDMA_GLBL2_PF3_BAR_MAP_MASK reg_val \<noteq> 0 then count + 1 else count)
      in count)"

text \<open>The part of \<^verbatim>\<open>qdma_get_device_attributes\<close> after the pointer checks; it sets every field.\<close>

definition read_dev_attributes :: "hw_env \<Rightarrow> hw_log \<Rightarrow> qdma_dev_attributes \<times> hw_log" where
  "read_dev_attributes env s =
     (let (pfs, s1) = qdma_reg_read env QDMA_OFFSET_GLBL2_PF_BARLITE_INT s;
          (cap, s2) = qdma_reg_read env QDMA_OFFSET_GLBL2_CHANNEL_QDMA_CAP s1;
          (misc, s3) = qdma_reg_read env QDMA_OFFSET_GLBL2_MISC_CAP s2;
          (mdma, s4) = qdma_reg_read env QDMA_OFFSET_GLBL2_CHANNEL_MDMA s3 in
      (\<lparr>num_pfs = count_pfs pfs,
        num_qs = ucast (FIELD_GET QDMA_GLBL2_MULTQ_MAX_MASK cap),
        flr_present = ucast (FIELD_GET QDMA_GLBL2_FLR_PRESENT_MASK misc),
        st_en = (if FIELD_GET QDMA_GLBL2_ST_C2H_MASK mdma \<noteq> 0 \<and> FIELD_GET QDMA_GLBL2_ST_H2C_MASK mdma \<noteq> 0
                 then 1 else 0),
        mm_en = (if FIELD_GET QDMA_GLBL2_MM_C2H_MASK mdma \<noteq> 0 \<and> FIELD_GET QDMA_GLBL2_MM_H2C_MASK mdma \<noteq> 0
                 then 1 else 0),
        mm_cmpt_en = ucast (FIELD_GET QDMA_GLBL2_MM_CMPT_EN_MASK misc),
        mailbox_en = ucast (FIELD_GET QDMA_GLBL2_MAILBOX_EN_MASK misc),
        debug_mode = 0, desc_eng_mode = 0, mm_channel_max = 1, qid2vec_ctx = 0,
        cmpt_ovf_chk_dis = 1, mailbox_intr = 1, sw_desc_64b = 1, cmpt_desc_64b = 1,
        dynamic_bar = 1, legacy_intr = 1, cmpt_trig_count_timer = 1\<rparr>, s4))"

definition qdma_get_device_attributes ::
  "dev_hndl \<Rightarrow> qdma_dev_attributes option \<Rightarrow> hw_log
     \<Rightarrow> int \<times> qdma_dev_attributes option \<times> hw_log" where
  "qdma_get_device_attributes dev_hndl dev_info s =
     (case (dev_hndl, dev_info) of
        (Some env, Some _) \<Rightarrow>
          (let (a, s1) = read_dev_attributes env s in (err_code QDMA_SUCCESS, Some a, s1))
      | _ \<Rightarrow> (inv_param, dev_info, s))"

subsection \<open>The global register arrays\<close>

text \<open>
  The pointer refers to an array of at least \<open>count\<close> elements. A read replaces its first
  \<open>count\<close> elements. The sum \<^verbatim>\<open>index + count\<close> is computed in \<^verbatim>\<open>int\<close>.
\<close>

definition qdma_write_global_ring_sizes :: "dev_hndl \<Rightarrow> u8 \<Rightarrow> u8 \<Rightarrow> u32 list option \<Rightarrow> hw_log \<Rightarrow> int \<times> hw_log" where
  "qdma_write_global_ring_sizes dev_hndl index count vals s =
     (case (dev_hndl, vals) of
        (Some env, Some vs) \<Rightarrow>
          if count = 0 then (inv_param, s)
          else if unat index + unat count > QDMA_NUM_RING_SIZES then (inv_param, s)
          else (err_code QDMA_SUCCESS, qdma_write_csr_values QDMA_OFFSET_GLBL_RNG_SZ (ucast index) (take (unat count) vs) s)
      | _ \<Rightarrow> (inv_param, s))"

definition qdma_read_global_ring_sizes ::
  "dev_hndl \<Rightarrow> u8 \<Rightarrow> u8 \<Rightarrow> u32 list option \<Rightarrow> hw_log \<Rightarrow> int \<times> u32 list option \<times> hw_log" where
  "qdma_read_global_ring_sizes dev_hndl index count vals s =
     (case (dev_hndl, vals) of
        (Some env, Some vs) \<Rightarrow>
          if count = 0 then (inv_param, vals, s)
          else if unat index + unat count > QDMA_NUM_RING_SIZES then (inv_param, vals, s)
          else (let (ws, s2) = qdma_read_csr_values env QDMA_OFFSET_GLBL_RNG_SZ (ucast index) (unat count) s in
             (err_code QDMA_SUCCESS, Some (ws @ drop (unat count) vs), s2))
      | _ \<Rightarrow> (inv_param, vals, s))"

definition qdma_write_global_timer_count :: "dev_hndl \<Rightarrow> u8 \<Rightarrow> u8 \<Rightarrow> u32 list option \<Rightarrow> hw_log \<Rightarrow> int \<times> hw_log" where
  "qdma_write_global_timer_count dev_hndl index count vals s =
     (case (dev_hndl, vals) of
        (Some env, Some vs) \<Rightarrow>
          if count = 0 then (inv_param, s)
          else if unat index + unat count > QDMA_NUM_C2H_TIMERS then (inv_param, s)
          else (let (dev_cap, s1) = read_dev_attributes env s in
            if st_en dev_cap \<noteq> 0 \<or> mm_cmpt_en dev_cap \<noteq> 0 then
             (err_code QDMA_SUCCESS, qdma_write_csr_values QDMA_OFFSET_C2H_TIMER_CNT (ucast index) (take (unat count) vs) s1)
            else (neg_err QDMA_ERR_HWACC_FEATURE_NOT_SUPPORTED, s1))
      | _ \<Rightarrow> (inv_param, s))"

definition qdma_read_global_timer_count ::
  "dev_hndl \<Rightarrow> u8 \<Rightarrow> u8 \<Rightarrow> u32 list option \<Rightarrow> hw_log \<Rightarrow> int \<times> u32 list option \<times> hw_log" where
  "qdma_read_global_timer_count dev_hndl index count vals s =
     (case (dev_hndl, vals) of
        (Some env, Some vs) \<Rightarrow>
          if count = 0 then (inv_param, vals, s)
          else if unat index + unat count > QDMA_NUM_C2H_TIMERS then (inv_param, vals, s)
          else (let (dev_cap, s1) = read_dev_attributes env s in
            if st_en dev_cap \<noteq> 0 \<or> mm_cmpt_en dev_cap \<noteq> 0 then
             (let (ws, s2) = qdma_read_csr_values env QDMA_OFFSET_C2H_TIMER_CNT (ucast index) (unat count) s1 in
             (err_code QDMA_SUCCESS, Some (ws @ drop (unat count) vs), s2))
            else (neg_err QDMA_ERR_HWACC_FEATURE_NOT_SUPPORTED, vals, s1))
      | _ \<Rightarrow> (inv_param, vals, s))"

definition qdma_write_global_counter_threshold :: "dev_hndl \<Rightarrow> u8 \<Rightarrow> u8 \<Rightarrow> u32 list option \<Rightarrow> hw_log \<Rightarrow> int \<times> hw_log" where
  "qdma_write_global_counter_threshold dev_hndl index count vals s =
     (case (dev_hndl, vals) of
        (Some env, Some vs) \<Rightarrow>
          if count = 0 then (inv_param, s)
          else if unat index + unat count > QDMA_NUM_C2H_COUNTERS then (inv_param, s)
          else (let (dev_cap, s1) = read_dev_attributes env s in
            if st_en dev_cap \<noteq> 0 \<or> mm_cmpt_en dev_cap \<noteq> 0 then
             (err_code QDMA_SUCCESS, qdma_write_csr_values QDMA_OFFSET_C2H_CNT_TH (ucast index) (take (unat count) vs) s1)
            else (neg_err QDMA_ERR_HWACC_FEATURE_NOT_SUPPORTED, s1))
      | _ \<Rightarrow> (inv_param, s))"

definition qdma_read_global_counter_threshold ::
  "dev_hndl \<Rightarrow> u8 \<Rightarrow> u8 \<Rightarrow> u32 list option \<Rightarrow> hw_log \<Rightarrow> int \<times> u32 list option \<times> hw_log" where
  "qdma_read_global_counter_threshold dev_hndl index count vals s =
     (case (dev_hndl, vals) of
        (Some env, Some vs) \<Rightarrow>
          if count = 0 then (inv_param, vals, s)
          else if unat index + unat count > QDMA_NUM_C2H_COUNTERS then (inv_param, vals, s)
          else (let (dev_cap, s1) = read_dev_attributes env s in
            if st_en dev_cap \<noteq> 0 \<or> mm_cmpt_en dev_cap \<noteq> 0 then
             (let (ws, s2) = qdma_read_csr_values env QDMA_OFFSET_C2H_CNT_TH (ucast index) (unat count) s1 in
             (err_code QDMA_SUCCESS, Some (ws @ drop (unat count) vs), s2))
            else (neg_err QDMA_ERR_HWACC_FEATURE_NOT_SUPPORTED, vals, s1))
      | _ \<Rightarrow> (inv_param, vals, s))"

definition qdma_write_global_buffer_sizes :: "dev_hndl \<Rightarrow> u8 \<Rightarrow> u8 \<Rightarrow> u32 list option \<Rightarrow> hw_log \<Rightarrow> int \<times> hw_log" where
  "qdma_write_global_buffer_sizes dev_hndl index count vals s =
     (case (dev_hndl, vals) of
        (Some env, Some vs) \<Rightarrow>
          if count = 0 then (inv_param, s)
          else if unat index + unat count > QDMA_NUM_C2H_BUFFER_SIZES then (inv_param, s)
          else (let (dev_cap, s1) = read_dev_attributes env s in
            if st_en dev_cap \<noteq> 0 then
             (err_code QDMA_SUCCESS, qdma_write_csr_values QDMA_OFFSET_C2H_BUF_SZ (ucast index) (take (unat count) vs) s1)
            else (neg_err QDMA_ERR_HWACC_FEATURE_NOT_SUPPORTED, s1))
      | _ \<Rightarrow> (inv_param, s))"

definition qdma_read_global_buffer_sizes ::
  "dev_hndl \<Rightarrow> u8 \<Rightarrow> u8 \<Rightarrow> u32 list option \<Rightarrow> hw_log \<Rightarrow> int \<times> u32 list option \<times> hw_log" where
  "qdma_read_global_buffer_sizes dev_hndl index count vals s =
     (case (dev_hndl, vals) of
        (Some env, Some vs) \<Rightarrow>
          if count = 0 then (inv_param, vals, s)
          else if unat index + unat count > QDMA_NUM_C2H_BUFFER_SIZES then (inv_param, vals, s)
          else (let (dev_cap, s1) = read_dev_attributes env s in
            if st_en dev_cap \<noteq> 0 then
             (let (ws, s2) = qdma_read_csr_values env QDMA_OFFSET_C2H_BUF_SZ (ucast index) (unat count) s1 in
             (err_code QDMA_SUCCESS, Some (ws @ drop (unat count) vs), s2))
            else (neg_err QDMA_ERR_HWACC_FEATURE_NOT_SUPPORTED, vals, s1))
      | _ \<Rightarrow> (inv_param, vals, s))"

definition qdma_global_csr_conf ::
  "dev_hndl \<Rightarrow> u8 \<Rightarrow> u8 \<Rightarrow> u32 list option \<Rightarrow> qdma_global_csr_type \<Rightarrow> qdma_hw_access_type \<Rightarrow> hw_log
     \<Rightarrow> int \<times> u32 list option \<times> hw_log" where
  "qdma_global_csr_conf dev_hndl index count csr_val csr_type access_type s =
     (case csr_type of
        QDMA_CSR_RING_SZ \<Rightarrow>
          (case access_type of
             QDMA_HW_ACCESS_READ \<Rightarrow> qdma_read_global_ring_sizes dev_hndl index count csr_val s
           | QDMA_HW_ACCESS_WRITE \<Rightarrow>
               (let (rv, s1) = qdma_write_global_ring_sizes dev_hndl index count csr_val s in (rv, csr_val, s1))
           | _ \<Rightarrow> (inv_param, csr_val, s))
      | QDMA_CSR_TIMER_CNT \<Rightarrow>
          (case access_type of
             QDMA_HW_ACCESS_READ \<Rightarrow> qdma_read_global_timer_count dev_hndl index count csr_val s
           | QDMA_HW_ACCESS_WRITE \<Rightarrow>
               (let (rv, s1) = qdma_write_global_timer_count dev_hndl index count csr_val s in (rv, csr_val, s1))
           | _ \<Rightarrow> (inv_param, csr_val, s))
      | QDMA_CSR_CNT_TH \<Rightarrow>
          (case access_type of
             QDMA_HW_ACCESS_READ \<Rightarrow> qdma_read_global_counter_threshold dev_hndl index count csr_val s
           | QDMA_HW_ACCESS_WRITE \<Rightarrow>
               (let (rv, s1) = qdma_write_global_counter_threshold dev_hndl index count csr_val s in (rv, csr_val, s1))
           | _ \<Rightarrow> (inv_param, csr_val, s))
      | QDMA_CSR_BUF_SZ \<Rightarrow>
          (case access_type of
             QDMA_HW_ACCESS_READ \<Rightarrow> qdma_read_global_buffer_sizes dev_hndl index count csr_val s
           | QDMA_HW_ACCESS_WRITE \<Rightarrow>
               (let (rv, s1) = qdma_write_global_buffer_sizes dev_hndl index count csr_val s in (rv, csr_val, s1))
           | _ \<Rightarrow> (inv_param, csr_val, s))
      | QDMA_CSR_MAX \<Rightarrow> (inv_param, csr_val, s))"

subsection \<open>Defaults\<close>

definition default_rng_sz :: "u32 list" where
  "default_rng_sz = [2049, 65, 129, 193, 257, 385, 513, 769, 1025, 1537, 3073, 4097, 6145, 8193, 12289, 16385]"

definition default_tmr_cnt :: "u32 list" where
  "default_tmr_cnt = [1, 2, 4, 5, 8, 10, 15, 20, 25, 30, 50, 75, 100, 125, 150, 200]"

definition default_cnt_th :: "u32 list" where
  "default_cnt_th = [2, 4, 8, 16, 24, 32, 48, 64, 80, 96, 112, 128, 144, 160, 176, 192]"

definition default_buf_sz :: "u32 list" where
  "default_buf_sz = [4096, 256, 512, 1024, 2048, 3968, 4096, 4096, 4096, 4096, 4096, 4096, 4096, 8192, 9018, 16384]"

definition qdma_set_default_global_csr :: "dev_hndl \<Rightarrow> hw_log \<Rightarrow> int \<times> hw_log" where
  "qdma_set_default_global_csr dev_hndl s =
     (case dev_hndl of
        None \<Rightarrow> (inv_param, s)
      | Some env \<Rightarrow>
          (let (dev_cap, s1) = read_dev_attributes env s;
               s2 = qdma_write_csr_values QDMA_OFFSET_GLBL_RNG_SZ 0 default_rng_sz s1;
               s3 = (if st_en dev_cap \<noteq> 0 \<or> mm_cmpt_en dev_cap \<noteq> 0 then
                       (let t1 = qdma_write_csr_values QDMA_OFFSET_C2H_CNT_TH 0 default_cnt_th s2;
                            t2 = qdma_write_csr_values QDMA_OFFSET_C2H_TIMER_CNT 0 default_tmr_cnt t1;
                            reg_val = FIELD_SET QDMA_GLBL_DSC_CFG_MAX_DSC_FETCH_MASK DEFAULT_MAX_DSC_FETCH OR
                                      FIELD_SET QDMA_GLBL_DSC_CFG_WB_ACC_INT_MASK DEFAULT_WRB_INT
                        in qdma_reg_write QDMA_OFFSET_GLBL_DSC_CFG reg_val t2)
                     else s2);
               s4 = (if st_en dev_cap \<noteq> 0 then
                       (let t1 = qdma_write_csr_values QDMA_OFFSET_C2H_BUF_SZ 0 default_buf_sz s3;
                            (cfg_val, t2) = qdma_reg_read env QDMA_OFFSET_C2H_PFETCH_CACHE_DEPTH t1;
                            reg_val = FIELD_SET QDMA_C2H_PFCH_FL_TH_MASK DEFAULT_PFCH_STOP_THRESH OR
                                      FIELD_SET QDMA_C2H_NUM_PFCH_MASK DEFAULT_PFCH_NUM_ENTRIES_PER_Q OR
                                      FIELD_SET QDMA_C2H_PFCH_QCNT_MASK (drop_bit 1 cfg_val) OR
                                      FIELD_SET QDMA_C2H_EVT_QCNT_TH_MASK (drop_bit 1 cfg_val - 2);
                            t3 = qdma_reg_write QDMA_OFFSET_C2H_PFETCH_CFG reg_val t2;
                            t4 = qdma_reg_write QDMA_OFFSET_C2H_INT_TIMER_TICK DEFAULT_C2H_INTR_TIMER_TICK t3;
                            (cfg_val, t5) = qdma_reg_read env QDMA_OFFSET_C2H_CMPT_COAL_BUF_DEPTH t4;
                            reg_val = FIELD_SET QDMA_C2H_TICK_CNT_MASK DEFAULT_CMPT_COAL_TIMER_CNT OR
                                      FIELD_SET QDMA_C2H_TICK_VAL_MASK DEFAULT_CMPT_COAL_TIMER_TICK OR
                                      FIELD_SET QDMA_C2H_MAX_BUF_SZ_MASK cfg_val;
                            t6 = qdma_reg_write QDMA_OFFSET_C2H_WRB_COAL_CFG reg_val t5;
                            reg_val = FIELD_SET QDMA_H2C_DATA_THRESH_MASK QDMA_H2C_THROT_DATA_THRESH OR
                                      FIELD_SET QDMA_H2C_REQ_THROT_EN_DATA_MASK QDMA_THROT_EN_DATA OR
                                      FIELD_SET QDMA_H2C_REQ_THRESH_MASK QDMA_H2C_THROT_REQ_THRESH OR
                                      FIELD_SET QDMA_H2C_REQ_THROT_EN_REQ_MASK QDMA_THROT_EN_REQ
                        in qdma_reg_write QDMA_OFFSET_H2C_REQ_THROT reg_val t6)
                     else s3)
           in (err_code QDMA_SUCCESS, s4)))"

subsection \<open>Doorbells\<close>

definition qdma_queue_pidx_update ::
  "dev_hndl \<Rightarrow> u8 \<Rightarrow> u16 \<Rightarrow> u8 \<Rightarrow> qdma_q_pidx_reg_info option \<Rightarrow> hw_log \<Rightarrow> int \<times> hw_log" where
  "qdma_queue_pidx_update dev_hndl is_vf qid is_c2h reg_info s =
     (case (dev_hndl, reg_info) of
        (Some env, Some r) \<Rightarrow>
          (let reg_addr =
                 (if is_vf = 0
                  then (if is_c2h \<noteq> 0 then QDMA_OFFSET_DMAP_SEL_C2H_DSC_PIDX else QDMA_OFFSET_DMAP_SEL_H2C_DSC_PIDX)
                  else (if is_c2h \<noteq> 0 then QDMA_OFFSET_VF_DMAP_SEL_C2H_DSC_PIDX
                        else QDMA_OFFSET_VF_DMAP_SEL_H2C_DSC_PIDX));
               reg_addr = reg_addr + ucast qid * QDMA_PIDX_STEP;
               reg_val = FIELD_SET QDMA_DMA_SEL_DESC_PIDX_MASK (ucast (pi_pidx r)) OR
                         FIELD_SET QDMA_DMA_SEL_IRQ_EN_MASK (ucast (pi_irq_en r))
           in (err_code QDMA_SUCCESS, qdma_reg_write reg_addr reg_val s))
      | _ \<Rightarrow> (inv_param, s))"

definition qdma_queue_cmpt_cidx_update ::
  "dev_hndl \<Rightarrow> u8 \<Rightarrow> u16 \<Rightarrow> qdma_q_cmpt_cidx_reg_info option \<Rightarrow> hw_log \<Rightarrow> int \<times> hw_log" where
  "qdma_queue_cmpt_cidx_update dev_hndl is_vf qid reg_info s =
     (case (dev_hndl, reg_info) of
        (Some env, Some r) \<Rightarrow>
          (let reg_addr =
                 (if is_vf \<noteq> 0 then QDMA_OFFSET_VF_DMAP_SEL_CMPT_CIDX else QDMA_OFFSET_DMAP_SEL_CMPT_CIDX);
               reg_addr = reg_addr + ucast qid * QDMA_CMPT_CIDX_STEP;
               reg_val = FIELD_SET QDMA_DMAP_SEL_CMPT_WRB_CIDX_MASK (ucast (cc_wrb_cidx r)) OR
                         FIELD_SET QDMA_DMAP_SEL_CMPT_CNT_THRESH_MASK (ucast (cc_counter_idx r)) OR
                         FIELD_SET QDMA_DMAP_SEL_CMPT_TMR_CNT_MASK (ucast (cc_timer_idx r)) OR
                         FIELD_SET QDMA_DMAP_SEL_CMPT_TRG_MODE_MASK (ucast (cc_trig_mode r)) OR
                         FIELD_SET QDMA_DMAP_SEL_CMPT_STS_DESC_EN_MASK (ucast (cc_wrb_en r)) OR
                         FIELD_SET QDMA_DMAP_SEL_CMPT_IRQ_EN_MASK (ucast (cc_irq_en r))
           in (err_code QDMA_SUCCESS, qdma_reg_write reg_addr reg_val s))
      | _ \<Rightarrow> (inv_param, s))"

definition qdma_queue_intr_cidx_update ::
  "dev_hndl \<Rightarrow> u8 \<Rightarrow> u16 \<Rightarrow> qdma_intr_cidx_reg_info option \<Rightarrow> hw_log \<Rightarrow> int \<times> hw_log" where
  "qdma_queue_intr_cidx_update dev_hndl is_vf qid reg_info s =
     (case (dev_hndl, reg_info) of
        (Some env, Some r) \<Rightarrow>
          (let reg_addr =
                 (if is_vf \<noteq> 0 then QDMA_OFFSET_VF_DMAP_SEL_INT_CIDX else QDMA_OFFSET_DMAP_SEL_INT_CIDX);
               reg_addr = reg_addr + ucast qid * QDMA_INT_CIDX_STEP;
               reg_val = FIELD_SET QDMA_DMA_SEL_INT_SW_CIDX_MASK (ucast (ic_sw_cidx r)) OR
                         FIELD_SET QDMA_DMA_SEL_INT_RING_IDX_MASK (ucast (ic_rng_idx r))
           in (err_code QDMA_SUCCESS, qdma_reg_write reg_addr reg_val s))
      | _ \<Rightarrow> (inv_param, s))"

subsection \<open>The user BAR\<close>

text \<open>
  The loop over the BARs: the first one whose bit is set. For a function number above 5 the
  shift count of the code is out of range (undefined in C); the model shifts everything out.
\<close>

definition first_bar :: "u32 \<Rightarrow> nat option" where
  "first_bar user_bar_id = find (\<lambda>bar_idx. user_bar_id AND push_bit bar_idx 1 \<noteq> 0) [0..<QDMA_BAR_NUM]"

definition qdma_get_user_bar ::
  "dev_hndl \<Rightarrow> u8 \<Rightarrow> u8 \<Rightarrow> u8 option \<Rightarrow> hw_log \<Rightarrow> int \<times> u8 option \<times> hw_log" where
  "qdma_get_user_bar dev_hndl is_vf func_id user_bar s =
     (case (dev_hndl, user_bar) of
        (Some env, Some _) \<Rightarrow>
          (let reg_addr = (if is_vf \<noteq> 0 then QDMA_OFFSET_VF_USER_BAR_ID else QDMA_OFFSET_GLBL2_PF_BARLITE_EXT);
               (user_bar_id, s1) = qdma_reg_read env reg_addr s;
               user_bar_id = (if is_vf = 0 then drop_bit (6 * unat func_id) user_bar_id AND 0x3F
                              else user_bar_id AND 0x3F)
           in case first_bar user_bar_id of
                Some bar_idx \<Rightarrow> (err_code QDMA_SUCCESS, Some (word_of_nat bar_idx), s1)
              | None \<Rightarrow> (neg_err QDMA_ERR_HWACC_BAR_NOT_FOUND, Some 0, s1))
      | _ \<Rightarrow> (inv_param, user_bar, s))"

subsection \<open>Legacy interrupts\<close>

definition qdma_is_legacy_intr_pend :: "dev_hndl \<Rightarrow> hw_log \<Rightarrow> int \<times> hw_log" where
  "qdma_is_legacy_intr_pend dev_hndl s =
     (case dev_hndl of
        None \<Rightarrow> (inv_param, s)
      | Some env \<Rightarrow>
          (let (reg_val, s1) = qdma_reg_read env QDMA_OFFSET_GLBL_INTERRUPT_CFG s in
           if FIELD_GET QDMA_GLBL_INTR_LGCY_INTR_PEND_MASK reg_val \<noteq> 0 then (err_code QDMA_SUCCESS, s1)
           else (neg_err QDMA_ERR_HWACC_NO_PEND_LEGCY_INTR, s1)))"

definition qdma_clear_pend_legacy_intr :: "dev_hndl \<Rightarrow> hw_log \<Rightarrow> int \<times> hw_log" where
  "qdma_clear_pend_legacy_intr dev_hndl s =
     (case dev_hndl of
        None \<Rightarrow> (inv_param, s)
      | Some env \<Rightarrow>
          (let (reg_val, s1) = qdma_reg_read env QDMA_OFFSET_GLBL_INTERRUPT_CFG s;
               reg_val = reg_val OR FIELD_SET QDMA_GLBL_INTR_LGCY_INTR_PEND_MASK 1
           in (err_code QDMA_SUCCESS, qdma_reg_write QDMA_OFFSET_GLBL_INTERRUPT_CFG reg_val s1)))"

definition qdma_legacy_intr_conf :: "dev_hndl \<Rightarrow> status_type \<Rightarrow> hw_log \<Rightarrow> int \<times> hw_log" where
  "qdma_legacy_intr_conf dev_hndl enable s =
     (case dev_hndl of
        None \<Rightarrow> (inv_param, s)
      | Some env \<Rightarrow>
          (let (reg_val, s1) = qdma_reg_read env QDMA_OFFSET_GLBL_INTERRUPT_CFG s;
               reg_val = reg_val OR FIELD_SET QDMA_GLBL_INTR_CFG_EN_LGCY_INTR_MASK (status_code enable)
           in (err_code QDMA_SUCCESS, qdma_reg_write QDMA_OFFSET_GLBL_INTERRUPT_CFG reg_val s1)))"

subsection \<open>Writeback interval and memory-mapped channel\<close>

text \<open>The interval is an unsigned enumeration value.\<close>

definition qdma_global_writeback_interval_write :: "dev_hndl \<Rightarrow> u32 \<Rightarrow> hw_log \<Rightarrow> int \<times> hw_log" where
  "qdma_global_writeback_interval_write dev_hndl wb_int s =
     (case dev_hndl of
        None \<Rightarrow> (inv_param, s)
      | Some env \<Rightarrow>
          if wb_int \<ge> QDMA_NUM_WRB_INTERVALS then (inv_param, s)
          else
            (let (dev_cap, s1) = read_dev_attributes env s in
             if st_en dev_cap \<noteq> 0 \<or> mm_cmpt_en dev_cap \<noteq> 0 then
               (let (reg_val, s2) = qdma_reg_read env QDMA_OFFSET_GLBL_DSC_CFG s1;
                    reg_val = reg_val OR FIELD_SET QDMA_GLBL_DSC_CFG_WB_ACC_INT_MASK wb_int
                in (err_code QDMA_SUCCESS, qdma_reg_write QDMA_OFFSET_GLBL_DSC_CFG reg_val s2))
             else (neg_err QDMA_ERR_HWACC_FEATURE_NOT_SUPPORTED, s1)))"

definition qdma_global_writeback_interval_read ::
  "dev_hndl \<Rightarrow> u32 option \<Rightarrow> hw_log \<Rightarrow> int \<times> u32 option \<times> hw_log" where
  "qdma_global_writeback_interval_read dev_hndl wb_int s =
     (case (dev_hndl, wb_int) of
        (Some env, Some _) \<Rightarrow>
          (let (dev_cap, s1) = read_dev_attributes env s in
           if st_en dev_cap \<noteq> 0 \<or> mm_cmpt_en dev_cap \<noteq> 0 then
             (let (reg_val, s2) = qdma_reg_read env QDMA_OFFSET_GLBL_DSC_CFG s1
              in (err_code QDMA_SUCCESS, Some (FIELD_GET QDMA_GLBL_DSC_CFG_WB_ACC_INT_MASK reg_val), s2))
           else (neg_err QDMA_ERR_HWACC_FEATURE_NOT_SUPPORTED, wb_int, s1))
      | _ \<Rightarrow> (inv_param, wb_int, s))"

text \<open>
  The write access reads through the pointer before any check: the result is \<open>None\<close> when
  that pointer is null.
\<close>

definition qdma_global_writeback_interval_conf ::
  "dev_hndl \<Rightarrow> u32 option \<Rightarrow> qdma_hw_access_type \<Rightarrow> hw_log \<Rightarrow> (int \<times> u32 option \<times> hw_log) option" where
  "qdma_global_writeback_interval_conf dev_hndl wb_int access_type s =
     (case access_type of
        QDMA_HW_ACCESS_READ \<Rightarrow> Some (qdma_global_writeback_interval_read dev_hndl wb_int s)
      | QDMA_HW_ACCESS_WRITE \<Rightarrow>
          (case wb_int of
             None \<Rightarrow> None
           | Some w \<Rightarrow>
               (let (rv, s1) = qdma_global_writeback_interval_write dev_hndl w s in Some (rv, wb_int, s1)))
      | _ \<Rightarrow> Some (inv_param, wb_int, s))"

definition qdma_mm_channel_conf :: "dev_hndl \<Rightarrow> u8 \<Rightarrow> u8 \<Rightarrow> u8 \<Rightarrow> hw_log \<Rightarrow> int \<times> hw_log" where
  "qdma_mm_channel_conf dev_hndl channel is_c2h enable s =
     (let reg_addr = (if is_c2h \<noteq> 0 then QDMA_OFFSET_C2H_MM_CONTROL else QDMA_OFFSET_H2C_MM_CONTROL) in
      case dev_hndl of
        None \<Rightarrow> (inv_param, s)
      | Some env \<Rightarrow>
          (let (dev_cap, s1) = read_dev_attributes env s in
           if mm_en dev_cap \<noteq> 0 then
             (err_code QDMA_SUCCESS,
              qdma_reg_write (reg_addr + ucast channel * QDMA_MM_CONTROL_STEP) (ucast enable) s1)
           else (err_code QDMA_SUCCESS, s1)))"

subsection \<open>Clearing the context memory\<close>

text \<open>The inner loop over the selectors, the outer loop over the queues, the loop over the functions.\<close>

fun clear_selectors ::
  "hw_env \<Rightarrow> qdma_dev_attributes \<Rightarrow> u16 \<Rightarrow> ind_ctxt_cmd_sel list \<Rightarrow> hw_log \<Rightarrow> int \<times> hw_log" where
  "clear_selectors env dev_info i [] s = (0, s)"
| "clear_selectors env dev_info i (sel # sels) s =
     (if st_en dev_info = 0 \<and> (sel = QDMA_CTXT_SEL_PFTCH \<or> sel = QDMA_CTXT_SEL_CMPT)
      then clear_selectors env dev_info i sels s
      else (let (rv, s1) = qdma_indirect_reg_clear env sel i s in
            if rv < 0 then (rv, s1) else clear_selectors env dev_info i sels s1))"

definition queue_selectors :: "ind_ctxt_cmd_sel list" where
  "queue_selectors =
     [QDMA_CTXT_SEL_SW_C2H, QDMA_CTXT_SEL_SW_H2C, QDMA_CTXT_SEL_HW_C2H, QDMA_CTXT_SEL_HW_H2C,
      QDMA_CTXT_SEL_CR_C2H, QDMA_CTXT_SEL_CR_H2C, QDMA_CTXT_SEL_CMPT, QDMA_CTXT_SEL_PFTCH]"

fun clear_queues :: "hw_env \<Rightarrow> qdma_dev_attributes \<Rightarrow> u16 list \<Rightarrow> hw_log \<Rightarrow> int \<times> hw_log" where
  "clear_queues env dev_info [] s = (0, s)"
| "clear_queues env dev_info (i # is) s =
     (let (rv, s1) = clear_selectors env dev_info i queue_selectors s in
      if rv < 0 then (rv, s1) else clear_queues env dev_info is s1)"

fun clear_fmaps :: "hw_env \<Rightarrow> u16 list \<Rightarrow> hw_log \<Rightarrow> hw_log" where
  "clear_fmaps env [] s = s"
| "clear_fmaps env (i # is) s = clear_fmaps env is (snd (qdma_indirect_reg_clear env QDMA_CTXT_SEL_FMAP i s))"

definition qdma_init_ctxt_memory :: "dev_hndl \<Rightarrow> hw_log \<Rightarrow> int \<times> hw_log" where
  "qdma_init_ctxt_memory dev_hndl s =
     (case dev_hndl of
        None \<Rightarrow> (inv_param, s)
      | Some env \<Rightarrow>
          (let (dev_info, s1) = read_dev_attributes env s;
               (rv, s2) = clear_queues env dev_info (map word_of_nat [0..<unat (num_qs dev_info)]) s1
           in if rv < 0 then (rv, s2)
              else (err_code QDMA_SUCCESS,
                    clear_fmaps env (map word_of_nat [0..<unat (num_pfs dev_info)]) s2)))"

subsection \<open>Plain registers\<close>

fun last_written :: "u32 \<Rightarrow> hw_log \<Rightarrow> u32 option" where
  "last_written a [] = None"
| "last_written a (Reg_write b v # s) =
     (case last_written a s of None \<Rightarrow> (if a = b then Some v else None) | Some w \<Rightarrow> Some w)"
| "last_written a (_ # s) = last_written a s"

lemma last_written_append [simp]:
  "last_written a (s @ t) = (case last_written a t of None \<Rightarrow> last_written a s | Some w \<Rightarrow> Some w)"
  by (induction a s rule: last_written.induct) (auto split: option.splits)

definition plain_reg :: "hw_env \<Rightarrow> u32 \<Rightarrow> bool" where
  "plain_reg env a \<longleftrightarrow> (\<forall>s v. last_written a s = Some v \<longrightarrow> env s a = v)"

definition cap_addrs :: "u32 list" where
  "cap_addrs = [QDMA_OFFSET_GLBL2_PF_BARLITE_INT, QDMA_OFFSET_GLBL2_CHANNEL_QDMA_CAP,
     QDMA_OFFSET_GLBL2_MISC_CAP, QDMA_OFFSET_GLBL2_CHANNEL_MDMA]"

definition fixed_caps :: "hw_env \<Rightarrow> bool" where
  "fixed_caps env \<longleftrightarrow> (\<forall>a\<in>set cap_addrs. \<forall>s s'. env s a = env s' a)"

definition caps :: "hw_env \<Rightarrow> qdma_dev_attributes" where
  "caps env = fst (read_dev_attributes env [])"

lemma read_dev_attributes_log:
  "\<exists>es. snd (read_dev_attributes env s) = s @ es \<and> (\<forall>e\<in>set es. \<exists>x y. e = Reg_read x y)"
  by (simp add: read_dev_attributes_def qdma_reg_read_def Let_def)

lemma last_written_reads: "\<forall>e\<in>set es. \<exists>x y. e = Reg_read x y \<Longrightarrow> last_written a es = None"
  by (induction es) auto

lemma read_dev_attributes_caps:
  assumes "fixed_caps env"
  shows "fst (read_dev_attributes env s) = caps env"
proof -
  define k where "k a = env [] a" for a
  have "env s' a = k a" if "a \<in> set cap_addrs" for a s'
    using assms that by (auto simp: fixed_caps_def k_def)
  then have c: "env s' QDMA_OFFSET_GLBL2_PF_BARLITE_INT = k QDMA_OFFSET_GLBL2_PF_BARLITE_INT"
    "env s' QDMA_OFFSET_GLBL2_CHANNEL_QDMA_CAP = k QDMA_OFFSET_GLBL2_CHANNEL_QDMA_CAP"
    "env s' QDMA_OFFSET_GLBL2_MISC_CAP = k QDMA_OFFSET_GLBL2_MISC_CAP"
    "env s' QDMA_OFFSET_GLBL2_CHANNEL_MDMA = k QDMA_OFFSET_GLBL2_CHANNEL_MDMA" for s'
    by (simp_all add: cap_addrs_def)
  show ?thesis
    by (simp only: caps_def read_dev_attributes_def qdma_reg_read_def Let_def prod.case fst_conv c)
qed

subsection \<open>The global arrays\<close>

fun csr_base :: "qdma_global_csr_type \<Rightarrow> u32" where
  "csr_base QDMA_CSR_RING_SZ = QDMA_OFFSET_GLBL_RNG_SZ"
| "csr_base QDMA_CSR_TIMER_CNT = QDMA_OFFSET_C2H_TIMER_CNT"
| "csr_base QDMA_CSR_CNT_TH = QDMA_OFFSET_C2H_CNT_TH"
| "csr_base QDMA_CSR_BUF_SZ = QDMA_OFFSET_C2H_BUF_SZ"
| "csr_base QDMA_CSR_MAX = 0"

definition csr_addr :: "qdma_global_csr_type \<Rightarrow> nat \<Rightarrow> u32" where
  "csr_addr t i = csr_base t + word_of_nat i * 4"

fun csr_supported :: "qdma_dev_attributes \<Rightarrow> qdma_global_csr_type \<Rightarrow> bool" where
  "csr_supported a QDMA_CSR_RING_SZ = True"
| "csr_supported a QDMA_CSR_TIMER_CNT = (st_en a \<noteq> 0 \<or> mm_cmpt_en a \<noteq> 0)"
| "csr_supported a QDMA_CSR_CNT_TH = (st_en a \<noteq> 0 \<or> mm_cmpt_en a \<noteq> 0)"
| "csr_supported a QDMA_CSR_BUF_SZ = (st_en a \<noteq> 0)"
| "csr_supported a QDMA_CSR_MAX = False"

lemma unat_csr_addr:
  assumes "i < 16"
  shows "unat (csr_addr t i) = unat (csr_base t) + i * 4"
  using assms
  by (cases t) (simp_all add: csr_addr_def csr_consts unat_word_ariths unat_of_nat take_bit_eq_mod)

lemma csr_addr_inj:
  assumes "i < 16" "j < 16" "t \<noteq> QDMA_CSR_MAX" "t' \<noteq> QDMA_CSR_MAX"
  shows "csr_addr t i = csr_addr t' j \<longleftrightarrow> t = t' \<and> i = j"
proof
  assume "csr_addr t i = csr_addr t' j"
  then have "unat (csr_base t) + i * 4 = unat (csr_base t') + j * 4"
    using unat_csr_addr assms(1,2) by metis
  then show "t = t' \<and> i = j" using assms
    by (cases t; cases t') (simp_all add: csr_consts)
qed simp

lemma write_csr_log:
  "qdma_write_csr_values off idx vs s =
   s @ map (\<lambda>j. Reg_write (off + (idx + word_of_nat j) * 4) (vs ! j)) [0..<length vs]"
proof (induction vs arbitrary: idx s)
  case (Cons v vs)
  have "map (\<lambda>j. Reg_write (off + (idx + word_of_nat j) * 4) ((v # vs) ! j)) [0..<Suc (length vs)] =
    Reg_write (off + idx * 4) v #
    map (\<lambda>j. Reg_write (off + (idx + 1 + word_of_nat j) * 4) (vs ! j)) [0..<length vs]"
    unfolding upt_conv_Cons [OF zero_less_Suc] list.map
    by (simp add: map_Suc_upt [symmetric] o_def algebra_simps del: upt_Suc map_Suc_upt)
  then show ?case using Cons.IH [of "idx + 1"] by (simp add: qdma_reg_write_def del: upt_Suc)
qed simp

lemma last_written_writes_other:
  assumes "\<And>j. j < n \<Longrightarrow> f j \<noteq> a"
  shows "last_written a (map (\<lambda>j. Reg_write (f j) (g j)) [0..<n]) = None"
  using assms by (induction n) auto

lemma last_written_writes:
  assumes "inj_on f {..<n}" "k < n"
  shows "last_written (f k) (map (\<lambda>j. Reg_write (f j) (g j)) [0..<n]) = Some (g k)"
  using assms
proof (induction n)
  case (Suc n)
  have "inj_on f {..<n}" using Suc.prems(1) by (rule inj_on_subset) auto
  moreover have "f n \<noteq> f k" if "k < n" using inj_onD [OF Suc.prems(1), of n k] that by auto
  ultimately show ?case using Suc by (auto simp: less_Suc_eq)
qed simp

lemma csr_write_values:
  assumes "t \<noteq> QDMA_CSR_MAX" "t' \<noteq> QDMA_CSR_MAX" "unat index + length vs \<le> 16" "i < 16"
  shows "last_written (csr_addr t' i) (qdma_write_csr_values (csr_base t) (ucast (index::u8)) vs s) =
    (if t' = t \<and> unat index \<le> i \<and> i < unat index + length vs then Some (vs ! (i - unat index))
     else last_written (csr_addr t' i) s)"
proof -
  have addr: "csr_base t + (ucast index + word_of_nat j) * 4 = csr_addr t (unat index + j)" for j
    by (simp add: csr_addr_def)
  let ?w = "map (\<lambda>j. Reg_write (csr_addr t (unat index + j)) (vs ! j)) [0..<length vs]"
  have log: "qdma_write_csr_values (csr_base t) (ucast index) vs s = s @ ?w"
    by (simp only: write_csr_log addr)
  show ?thesis
  proof (cases "t' = t \<and> unat index \<le> i \<and> i < unat index + length vs")
    case True
    have "inj_on (\<lambda>j. csr_addr t (unat index + j)) {..<length vs}"
      using assms by (auto simp: inj_on_def csr_addr_inj)
    from last_written_writes [OF this, of "i - unat index" "(!) vs"] True
    have "last_written (csr_addr t' i) ?w = Some (vs ! (i - unat index))" by auto
    then show ?thesis using True by (simp add: log)
  next
    case False
    have "last_written (csr_addr t' i) ?w = None"
      using False assms by (intro last_written_writes_other) (auto simp: csr_addr_inj)
    then show ?thesis using False by (auto simp: log)
  qed
qed

text \<open>What a read leaves of the log and of the stored values.\<close>

lemma last_written_read_regs [simp]:
  "last_written a (snd (read_regs env b n s)) = last_written a s"
  using read_regs_log [of env b n s] last_written_reads by (auto split: option.splits)

lemma last_written_dev_attributes [simp]:
  "last_written a (snd (read_dev_attributes env s)) = last_written a s"
  using read_dev_attributes_log [of env s] last_written_reads by (auto split: option.splits)

lemma read_regs_plain:
  assumes "\<And>j. j < length xs \<Longrightarrow> plain_reg env (a + word_of_nat j * 4) \<and>
      last_written (a + word_of_nat j * 4) s = Some (xs ! j)"
  shows "fst (read_regs env a (length xs) s) = xs"
  using assms
proof (induction xs arbitrary: a s)
  case (Cons x xs)
  have x: "env s a = x" using Cons.prems [of 0] by (simp add: plain_reg_def)
  have "fst (read_regs env (a + 4) (length xs) (s @ [Reg_read a x])) = xs"
    using Cons.prems [of "Suc j" for j] by (intro Cons.IH) (simp add: algebra_simps)
  then show ?case by (simp add: qdma_reg_read_def x case_prod_unfold Let_def)
qed simp

lemma csr_read_values:
  assumes "\<And>j. j < length xs \<Longrightarrow> plain_reg env (csr_addr t (unat index + j)) \<and>
      last_written (csr_addr t (unat index + j)) s = Some (xs ! j)"
  shows "fst (qdma_read_csr_values env (csr_base t) (ucast (index::u8)) (length xs) s) = xs"
  unfolding qdma_read_csr_values_def
  using assms by (intro read_regs_plain) (simp add: csr_addr_def algebra_simps)

lemma last_written_read_csr [simp]:
  "last_written a (snd (qdma_read_csr_values env b i n s)) = last_written a s"
  by (simp add: qdma_read_csr_values_def)

text \<open>The dispatcher, in one equation per access.\<close>

definition csr_prep :: "qdma_global_csr_type \<Rightarrow> hw_env \<Rightarrow> hw_log \<Rightarrow> hw_log" where
  "csr_prep t env s = (if t = QDMA_CSR_RING_SZ then s else snd (read_dev_attributes env s))"

lemma last_written_csr_prep [simp]: "last_written a (csr_prep t env s) = last_written a s"
  by (simp add: csr_prep_def)

lemmas csr_conf_defs = qdma_global_csr_conf_def
  qdma_write_global_ring_sizes_def qdma_read_global_ring_sizes_def
  qdma_write_global_timer_count_def qdma_read_global_timer_count_def
  qdma_write_global_counter_threshold_def qdma_read_global_counter_threshold_def
  qdma_write_global_buffer_sizes_def qdma_read_global_buffer_sizes_def

lemma csr_sizes: "QDMA_NUM_RING_SIZES = 16" "QDMA_NUM_C2H_TIMERS = 16" "QDMA_NUM_C2H_COUNTERS = 16"
  "QDMA_NUM_C2H_BUFFER_SIZES = 16"
  by (simp_all add: csr_consts)

lemma csr_conf_write:
  assumes "t \<noteq> QDMA_CSR_MAX"
  shows "qdma_global_csr_conf (Some env) index count (Some vs) t QDMA_HW_ACCESS_WRITE s =
    (if count = 0 \<or> unat index + unat count > 16 then (inv_param, Some vs, s)
     else if csr_supported (fst (read_dev_attributes env s)) t
     then (0, Some vs, qdma_write_csr_values (csr_base t) (ucast index) (take (unat count) vs) (csr_prep t env s))
     else (neg_err QDMA_ERR_HWACC_FEATURE_NOT_SUPPORTED, Some vs, csr_prep t env s))"
  using assms by (cases t) (simp_all add: csr_conf_defs csr_sizes csr_prep_def Let_def case_prod_unfold)

lemma csr_conf_read:
  assumes "t \<noteq> QDMA_CSR_MAX"
  shows "qdma_global_csr_conf (Some env) index count (Some vs) t QDMA_HW_ACCESS_READ s =
    (if count = 0 \<or> unat index + unat count > 16 then (inv_param, Some vs, s)
     else if csr_supported (fst (read_dev_attributes env s)) t
     then (let (ws, s2) = qdma_read_csr_values env (csr_base t) (ucast index) (unat count) (csr_prep t env s) in
           (0, Some (ws @ drop (unat count) vs), s2))
     else (neg_err QDMA_ERR_HWACC_FEATURE_NOT_SUPPORTED, Some vs, csr_prep t env s))"
  using assms by (cases t) (simp_all add: csr_conf_defs csr_sizes csr_prep_def Let_def case_prod_unfold)

subsection \<open>Four separate arrays\<close>

text \<open>
  The contract of a family of register arrays: \<open>cell\<close> is the last value stored, a store
  fills a range and leaves all other cells alone, a load of filled cells returns them and
  changes nothing.
\<close>

locale register_arrays =
  fixes cell :: "'k \<Rightarrow> nat \<Rightarrow> 's \<Rightarrow> 'v option"
    and store :: "'k \<Rightarrow> nat \<Rightarrow> 'v list \<Rightarrow> 's \<Rightarrow> 's"
    and load :: "'k \<Rightarrow> nat \<Rightarrow> nat \<Rightarrow> 's \<Rightarrow> 'v list \<times> 's"
    and usable :: "'k \<Rightarrow> bool"
    and size :: nat
  assumes store_cell: "\<lbrakk>usable k; usable k'; vs \<noteq> []; i + length vs \<le> size; j < size\<rbrakk> \<Longrightarrow>
      cell k' j (store k i vs s) =
        (if k' = k \<and> i \<le> j \<and> j < i + length vs then Some (vs ! (j - i)) else cell k' j s)"
    and load_cells: "\<lbrakk>usable k; xs \<noteq> []; i + length xs \<le> size;
        \<And>j. j < length xs \<Longrightarrow> cell k (i + j) s = Some (xs ! j)\<rbrakk> \<Longrightarrow>
      fst (load k i (length xs) s) = xs"
    and load_keeps: "\<lbrakk>usable k; usable k'\<rbrakk> \<Longrightarrow> cell k' j (snd (load k i n s)) = cell k' j s"
begin

lemma load_store:
  assumes "usable k" "vs \<noteq> []" "i + length vs \<le> size"
  shows "fst (load k i (length vs) (store k i vs s)) = vs"
  using assms by (intro load_cells) (auto simp: store_cell)

text \<open>A part of what was stored is still there after stores elsewhere.\<close>

lemma load_part:
  assumes "usable k" "usable k'" "vs \<noteq> []" "ws \<noteq> []" "i + length vs \<le> size" "i' + length ws \<le> size"
    and "k' \<noteq> k \<or> i' + length ws \<le> i + a \<or> i + a + n \<le> i'"
    and "0 < n" "a + n \<le> length vs"
  shows "fst (load k (i + a) n (store k' i' ws (store k i vs s))) = take n (drop a vs)"
proof -
  let ?xs = "take n (drop a vs)"
  have len: "length ?xs = n" using assms(9) by simp
  have "fst (load k (i + a) (length ?xs) (store k' i' ws (store k i vs s))) = ?xs"
    using assms len by (intro load_cells) (auto simp: store_cell)
  then show ?thesis by (simp only: len)
qed

end

text \<open>
  On a device whose four arrays are plain registers and whose capability registers do not
  change, the configuration functions are such a family.
\<close>

definition csr_hw :: "hw_env \<Rightarrow> bool" where
  "csr_hw env \<longleftrightarrow> fixed_caps env \<and>
     (\<forall>t\<in>{QDMA_CSR_RING_SZ, QDMA_CSR_TIMER_CNT, QDMA_CSR_CNT_TH, QDMA_CSR_BUF_SZ}.
        \<forall>i\<in>{..<16}. plain_reg env (csr_addr t i))"

definition csr_usable :: "hw_env \<Rightarrow> qdma_global_csr_type \<Rightarrow> bool" where
  "csr_usable env t \<longleftrightarrow> csr_hw env \<and> csr_supported (caps env) t"

definition csr_store ::
  "hw_env \<Rightarrow> qdma_global_csr_type \<Rightarrow> nat \<Rightarrow> u32 list \<Rightarrow> hw_log \<Rightarrow> hw_log" where
  "csr_store env t i vs s =
     snd (snd (qdma_global_csr_conf (Some env) (word_of_nat i) (word_of_nat (length vs)) (Some vs) t
                 QDMA_HW_ACCESS_WRITE s))"

definition csr_load ::
  "hw_env \<Rightarrow> qdma_global_csr_type \<Rightarrow> nat \<Rightarrow> nat \<Rightarrow> hw_log \<Rightarrow> u32 list \<times> hw_log" where
  "csr_load env t i n s =
     (let (rv, ws, s') = qdma_global_csr_conf (Some env) (word_of_nat i) (word_of_nat n)
            (Some (replicate n 0)) t QDMA_HW_ACCESS_READ s
      in (the ws, s'))"

lemma csr_usableD:
  assumes "csr_usable env t"
  shows "t \<noteq> QDMA_CSR_MAX" "fst (read_dev_attributes env s) = caps env" "csr_supported (caps env) t"
    "i < 16 \<Longrightarrow> plain_reg env (csr_addr t i)"
  using assms by (cases t; auto simp: csr_usable_def csr_hw_def read_dev_attributes_caps)+

lemma unat_small_u8: "n \<le> 16 \<Longrightarrow> unat (word_of_nat n :: u8) = n"
  by (simp add: unat_of_nat take_bit_eq_mod)

lemma word_small_u8:
  assumes "n \<le> 16"
  shows "(word_of_nat n :: u8) = 0 \<longleftrightarrow> n = 0"
proof
  assume "(word_of_nat n :: u8) = 0"
  then have "unat (word_of_nat n :: u8) = 0" by (simp only: unat_0)
  then show "n = 0" using unat_small_u8 [OF assms] by simp
qed simp

lemma csr_store_eq:
  assumes "csr_usable env t" "vs \<noteq> []" "i + length vs \<le> 16"
  shows "csr_store env t i vs s =
    qdma_write_csr_values (csr_base t) (ucast (word_of_nat i :: u8)) vs (csr_prep t env s)"
  using assms csr_usableD [OF assms(1)]
  by (simp add: csr_store_def csr_conf_write unat_small_u8 word_small_u8)

lemma csr_load_eq:
  assumes "csr_usable env t" "0 < n" "i + n \<le> 16"
  shows "csr_load env t i n s =
    qdma_read_csr_values env (csr_base t) (ucast (word_of_nat i :: u8)) n (csr_prep t env s)"
  using assms csr_usableD [OF assms(1)]
  by (simp add: csr_load_def csr_conf_read unat_small_u8 word_small_u8 case_prod_unfold Let_def)

lemma csr_load_keeps:
  assumes "csr_usable env t"
  shows "last_written a (snd (csr_load env t i n s)) = last_written a s"
  using csr_usableD [OF assms]
  by (simp add: csr_load_def csr_conf_read case_prod_unfold Let_def)

interpretation csrs: register_arrays "\<lambda>t i. last_written (csr_addr t i)" "csr_store env" "csr_load env"
  "csr_usable env" 16 for env
proof
  fix t t' :: qdma_global_csr_type and vs :: "u32 list" and i j :: nat and s
  assume "csr_usable env t" "csr_usable env t'" "vs \<noteq> []" "i + length vs \<le> 16" "j < 16"
  then show "last_written (csr_addr t' j) (csr_store env t i vs s) =
      (if t' = t \<and> i \<le> j \<and> j < i + length vs then Some (vs ! (j - i))
       else last_written (csr_addr t' j) s)"
    using csr_usableD(1) by (simp add: csr_store_eq csr_write_values unat_small_u8)
next
  fix t :: qdma_global_csr_type and xs :: "u32 list" and i :: nat and s
  assume u: "csr_usable env t" and x: "xs \<noteq> []" "i + length xs \<le> 16"
    and c: "\<And>j. j < length xs \<Longrightarrow> last_written (csr_addr t (i + j)) s = Some (xs ! j)"
  have "fst (qdma_read_csr_values env (csr_base t) (ucast (word_of_nat i :: u8)) (length xs)
      (csr_prep t env s)) = xs"
    using c x csr_usableD(4) [OF u] by (intro csr_read_values) (simp add: unat_small_u8)
  then show "fst (csr_load env t i (length xs) s) = xs" using u x by (simp add: csr_load_eq)
next
  fix t t' :: qdma_global_csr_type and j i n :: nat and s
  assume "csr_usable env t" "csr_usable env t'"
  then show "last_written (csr_addr t' j) (snd (csr_load env t i n s)) = last_written (csr_addr t' j) s"
    by (simp add: csr_load_keeps)
qed

subsection \<open>Round trip and bounds\<close>

text \<open>
  The global arrays round trip. On a device whose four arrays are plain registers and
  whose capability registers do not change, writing a range of a supported array with
  \<^verbatim>\<open>qdma_global_csr_conf\<close> succeeds, reading it back returns the values written, and all
  registers of the other arrays and outside the range keep their contents.
\<close>

theorem csr_write_read:
  assumes "csr_hw env" "csr_supported (caps env) t"
    and "0 < count" "unat index + unat count \<le> 16"
    and "length vs = unat count" "length ws = unat count"
  shows "\<exists>s1 s2.
    qdma_global_csr_conf (Some env) index count (Some vs) t QDMA_HW_ACCESS_WRITE s = (0, Some vs, s1) \<and>
    qdma_global_csr_conf (Some env) index count (Some ws) t QDMA_HW_ACCESS_READ s1 = (0, Some vs, s2) \<and>
    (\<forall>t' j. csr_supported (caps env) t' \<and> j < 16 \<and> (t' \<noteq> t \<or> j < unat index \<or> unat index + unat count \<le> j) \<longrightarrow>
       last_written (csr_addr t' j) s2 = last_written (csr_addr t' j) s)"
proof -
  have u: "csr_usable env t'" if "csr_supported (caps env) t'" for t'
    using assms(1) that by (simp add: csr_usable_def)
  note ut = csr_usableD [OF u [OF assms(2)]]
  have n: "count \<noteq> 0" "vs \<noteq> []" "0 < unat count" using assms(3,5) unat_gt_0 [of count] by (auto simp: word_gt_0)
  have st: "csr_store env t (unat index) vs s =
      qdma_write_csr_values (csr_base t) (ucast index) vs (csr_prep t env s)" for s
    using assms n by (simp add: csr_store_eq [OF u])
  have ld: "csr_load env t (unat index) (unat count) s =
      qdma_read_csr_values env (csr_base t) (ucast index) (unat count) (csr_prep t env s)" for s
    using assms n by (simp add: csr_load_eq [OF u])
  let ?s1 = "csr_store env t (unat index) vs s"
  have w: "qdma_global_csr_conf (Some env) index count (Some vs) t QDMA_HW_ACCESS_WRITE s = (0, Some vs, ?s1)"
    using assms n ut by (simp add: csr_conf_write st)
  have "fst (csr_load env t (unat index) (length vs) ?s1) = vs"
    using assms n by (intro csrs.load_store u) auto
  then have r: "qdma_global_csr_conf (Some env) index count (Some ws) t QDMA_HW_ACCESS_READ ?s1 =
      (0, Some vs, snd (csr_load env t (unat index) (unat count) ?s1))"
    using assms n ut by (simp add: csr_conf_read ld [symmetric] case_prod_unfold Let_def)
  have "last_written (csr_addr t' j) (snd (csr_load env t (unat index) (unat count) ?s1)) =
      last_written (csr_addr t' j) s"
    if "csr_supported (caps env) t'" "j < 16" "t' \<noteq> t \<or> j < unat index \<or> unat index + unat count \<le> j" for t' j
    using that assms n csrs.store_cell [OF u [OF assms(2)] u [OF that(1)], of vs "unat index" j s]
    by (auto simp: csrs.load_keeps u)
  then show ?thesis using w r by blast
qed

definition plain_hw :: hw_env where
  "plain_hw s a = (if a \<in> set cap_addrs then 0x00030107
     else case last_written a s of Some v \<Rightarrow> v | None \<Rightarrow> 0)"

lemma plain_hw_reg: "a \<notin> set cap_addrs \<Longrightarrow> plain_reg plain_hw a"
  by (simp add: plain_reg_def plain_hw_def)

lemma csr_addr_not_cap:
  assumes "t \<noteq> QDMA_CSR_MAX" "i < 16"
  shows "csr_addr t i \<notin> set cap_addrs"
proof
  assume "csr_addr t i \<in> set cap_addrs"
  then have "unat (csr_addr t i) \<in> unat ` set cap_addrs" by blast
  then show False using assms unat_csr_addr [OF assms(2), of t]
    by (cases t) (auto simp: cap_addrs_def csr_consts)
qed

lemma plain_hw_csr: "csr_hw plain_hw"
  using csr_addr_not_cap by (auto simp: csr_hw_def fixed_caps_def plain_hw_def intro!: plain_hw_reg)

lemma plain_hw_caps: "st_en (caps plain_hw) = 1" "mm_cmpt_en (caps plain_hw) = 1"
  by code_simp+

theorem csr_write_read_witness:
  "\<exists>s1 s2.
    qdma_global_csr_conf (Some plain_hw) 3 2 (Some [20, 25]) QDMA_CSR_TIMER_CNT QDMA_HW_ACCESS_WRITE [] =
      (0, Some [20, 25], s1) \<and>
    qdma_global_csr_conf (Some plain_hw) 3 2 (Some [0, 0]) QDMA_CSR_TIMER_CNT QDMA_HW_ACCESS_READ s1 =
      (0, Some [20, 25], s2)"
  using csr_write_read [OF plain_hw_csr, of QDMA_CSR_TIMER_CNT 2 3 "[20, 25]" "[0, 0]" "[]"]
  by (simp add: plain_hw_caps) blast

lemma csr_prep_log: "\<exists>es. csr_prep t env s = s @ es \<and> (\<forall>e\<in>set es. \<exists>x y. e = Reg_read x y)"
  by (cases "t = QDMA_CSR_RING_SZ") (simp_all add: csr_prep_def read_dev_attributes_log)

text \<open>
  The bounds of the global arrays are checked. For every device and every request,
  \<^verbatim>\<open>qdma_global_csr_conf\<close> writes only registers of the addressed array from the given index on,
  below 16; an empty or too long range, an unknown array, a null array and an unsupported
  access type give \<open>-QDMA_ERR_INV_PARAM\<close> and touch nothing.
\<close>

theorem csr_conf_bounds:
  assumes "qdma_global_csr_conf dev index count vals t access_type s = (rv, vals', s')"
  shows "(\<exists>es. s' = s @ es \<and>
      (\<forall>a v. Reg_write a v \<in> set es \<longrightarrow>
         (\<exists>i. unat index \<le> i \<and> i < unat index + unat count \<and> unat index + unat count \<le> 16 \<and> a = csr_addr t i))) \<and>
    (count = 0 \<or> unat index + unat count > 16 \<or> t = QDMA_CSR_MAX \<or> vals = None \<or> dev = None \<or>
       access_type \<notin> {QDMA_HW_ACCESS_READ, QDMA_HW_ACCESS_WRITE} \<longrightarrow>
     rv = inv_param \<and> vals' = vals \<and> s' = s)"
proof (cases "count = 0 \<or> unat index + unat count > 16 \<or> t = QDMA_CSR_MAX \<or> vals = None \<or> dev = None \<or>
       access_type \<notin> {QDMA_HW_ACCESS_READ, QDMA_HW_ACCESS_WRITE}")
  case True
  have "rv = inv_param \<and> vals' = vals \<and> s' = s"
  proof (cases "dev = None \<or> vals = None")
    case True
    then show ?thesis using assms
      by (cases dev; cases vals)
         (auto simp: csr_conf_defs split: qdma_global_csr_type.splits qdma_hw_access_type.splits)
  next
    case False
    then obtain env vs where d: "dev = Some env" "vals = Some vs" by auto
    consider "t = QDMA_CSR_MAX" | "t \<noteq> QDMA_CSR_MAX" "access_type = QDMA_HW_ACCESS_READ"
      | "t \<noteq> QDMA_CSR_MAX" "access_type = QDMA_HW_ACCESS_WRITE"
      | "access_type \<notin> {QDMA_HW_ACCESS_READ, QDMA_HW_ACCESS_WRITE}" by blast
    then show ?thesis
    proof cases
      case 1
      then show ?thesis using assms by (simp add: qdma_global_csr_conf_def)
    next
      case 2
      then show ?thesis using assms d True \<open>\<not> (dev = None \<or> vals = None)\<close>
        by (auto simp: csr_conf_read)
    next
      case 3
      then show ?thesis using assms d True \<open>\<not> (dev = None \<or> vals = None)\<close>
        by (auto simp: csr_conf_write)
    next
      case 4
      then show ?thesis using assms
        by (cases t; cases access_type) (auto simp: qdma_global_csr_conf_def)
    qed
  qed
  then show ?thesis by (intro conjI exI [of _ "[]"]) auto
next
  case False
  then obtain env vs where d: "dev = Some env" "vals = Some vs" "t \<noteq> QDMA_CSR_MAX" by auto
  obtain es0 where es0: "csr_prep t env s = s @ es0" "\<forall>e\<in>set es0. \<exists>x y. e = Reg_read x y"
    using csr_prep_log by blast
  have nw: "Reg_write a v \<notin> set es0" for a v using es0(2) by blast
  have addr: "csr_base t + (ucast index + word_of_nat j) * 4 = csr_addr t (unat index + j)" for j
    by (simp add: csr_addr_def)
  have "\<exists>es. s' = s @ es \<and> (\<forall>a v. Reg_write a v \<in> set es \<longrightarrow>
      (\<exists>i. unat index \<le> i \<and> i < unat index + unat count \<and> unat index + unat count \<le> 16 \<and> a = csr_addr t i))"
  proof (cases "access_type = QDMA_HW_ACCESS_WRITE")
    case True
    let ?w = "map (\<lambda>j. Reg_write (csr_addr t (unat index + j)) (take (unat count) vs ! j)) [0..<length (take (unat count) vs)]"
    have log: "qdma_write_csr_values (csr_base t) (ucast index) (take (unat count) vs) u = u @ ?w" for u
      by (simp only: write_csr_log addr)
    have "s' = s @ es0 \<or> s' = s @ es0 @ ?w"
      using assms False True d es0(1)
      by (simp add: csr_conf_write log split: if_splits)
    then show ?thesis
    proof
      assume "s' = s @ es0 @ ?w"
      moreover have "\<exists>i. unat index \<le> i \<and> i < unat index + unat count \<and>
          unat index + unat count \<le> 16 \<and> a = csr_addr t i" if w: "Reg_write a v \<in> set (es0 @ ?w)" for a v
      proof -
        obtain j where "j < unat count" "a = csr_addr t (unat index + j)" using w nw by auto
        then show ?thesis using False by (intro exI [of _ "unat index + j"]) auto
      qed
      ultimately show ?thesis by blast
    next
      assume "s' = s @ es0"
      then show ?thesis using nw by blast
    qed
  next
    case read: False
    then have "access_type = QDMA_HW_ACCESS_READ" using False by auto
    obtain es1 where "snd (qdma_read_csr_values env (csr_base t) (ucast index) (unat count) (csr_prep t env s)) =
        csr_prep t env s @ es1" "\<forall>e\<in>set es1. \<exists>x y. e = Reg_read x y"
      using read_regs_log unfolding qdma_read_csr_values_def by blast
    then have "s' = s @ es0 \<or> s' = s @ es0 @ es1"
      using assms d False es0(1) \<open>access_type = _\<close>
      by (auto simp: csr_conf_read case_prod_unfold Let_def split: if_splits)
    moreover have "Reg_write a v \<notin> set (es0 @ es1)" for a v using nw \<open>\<forall>e\<in>set es1. _\<close> by auto
    ultimately show ?thesis using nw by blast
  qed
  then show ?thesis using False by blast
qed

theorem csr_conf_bounds_witness:
  "\<exists>rv vals' s'. qdma_global_csr_conf (Some plain_hw) 10 7 (Some []) QDMA_CSR_CNT_TH QDMA_HW_ACCESS_WRITE [] =
     (rv, vals', s') \<and> rv = inv_param \<and> s' = []"
proof -
  obtain rv vals' s' where
    e: "qdma_global_csr_conf (Some plain_hw) 10 7 (Some []) QDMA_CSR_CNT_TH QDMA_HW_ACCESS_WRITE [] = (rv, vals', s')"
    by (metis prod_cases3)
  from csr_conf_bounds [OF this] have "rv = inv_param \<and> s' = []" by simp
  then show ?thesis using e by blast
qed

subsection \<open>Doorbells\<close>

datatype doorbell = Db_intr | Db_h2c | Db_c2h | Db_cmpt

fun doorbell_slot :: "doorbell \<Rightarrow> nat" where
  "doorbell_slot Db_intr = 0"
| "doorbell_slot Db_h2c = 4"
| "doorbell_slot Db_c2h = 8"
| "doorbell_slot Db_cmpt = 12"

text \<open>The register of a queue's doorbell: 16 bytes per queue, from 0x18000 in a PF and from
  0x3000 in a VF.\<close>

definition doorbell_addr :: "bool \<Rightarrow> doorbell \<Rightarrow> u16 \<Rightarrow> u32" where
  "doorbell_addr vf k qid =
     (if vf then 0x3000 else 0x18000) + word_of_nat (doorbell_slot k) + word_of_nat (unat qid) * 16"

lemma unat_doorbell_addr:
  "unat (doorbell_addr vf k qid) = (if vf then 0x3000 else 0x18000) + doorbell_slot k + unat qid * 16"
proof -
  have "unat qid < 65536" using unsigned_less [of qid] by simp
  then show ?thesis
    by (cases k) (simp_all add: doorbell_addr_def unat_word_ariths unsigned_ucast_eq take_bit_eq_mod)
qed

lemma doorbell_addr_inj:
  "doorbell_addr vf k qid = doorbell_addr vf k' qid' \<longleftrightarrow> k = k' \<and> qid = qid'"
proof
  assume "doorbell_addr vf k qid = doorbell_addr vf k' qid'"
  then have "doorbell_slot k + unat qid * 16 = doorbell_slot k' + unat qid' * 16"
    using unat_doorbell_addr [of vf k qid] unat_doorbell_addr [of vf k' qid'] by simp
  moreover have "doorbell_slot k < 16" "doorbell_slot k' < 16" by (cases k; simp) (cases k'; simp)
  ultimately have "doorbell_slot k = doorbell_slot k'" "unat qid = unat qid'" by presburger+
  then show "k = k' \<and> qid = qid'" by (cases k; cases k') (simp_all add: word_unat_eq_iff)
qed simp

lemmas csr_pack = csr_masks BIT_GENMASK field_simps Let_def

text \<open>
  C26: Doorbells go to the right place. The update functions write exactly one register; the
  registers of different queues and of different doorbells of a function differ; and every
  field of the value written is the field of the request, cut to its width.
\<close>

theorem doorbells_exact:
  "(\<exists>v. qdma_queue_pidx_update (Some env) is_vf qid is_c2h (Some p) s =
          (0, s @ [Reg_write (doorbell_addr (is_vf \<noteq> 0) (if is_c2h \<noteq> 0 then Db_c2h else Db_h2c) qid) v]) \<and>
      FIELD_GET QDMA_DMA_SEL_DESC_PIDX_MASK v = ucast (pi_pidx p) \<and>
      FIELD_GET QDMA_DMA_SEL_IRQ_EN_MASK v = take_bit 1 (ucast (pi_irq_en p))) \<and>
   (\<exists>v. qdma_queue_cmpt_cidx_update (Some env) is_vf qid (Some c) s =
          (0, s @ [Reg_write (doorbell_addr (is_vf \<noteq> 0) Db_cmpt qid) v]) \<and>
      FIELD_GET QDMA_DMAP_SEL_CMPT_WRB_CIDX_MASK v = ucast (cc_wrb_cidx c) \<and>
      FIELD_GET QDMA_DMAP_SEL_CMPT_CNT_THRESH_MASK v = take_bit 4 (ucast (cc_counter_idx c)) \<and>
      FIELD_GET QDMA_DMAP_SEL_CMPT_TMR_CNT_MASK v = take_bit 4 (ucast (cc_timer_idx c)) \<and>
      FIELD_GET QDMA_DMAP_SEL_CMPT_TRG_MODE_MASK v = take_bit 3 (ucast (cc_trig_mode c)) \<and>
      FIELD_GET QDMA_DMAP_SEL_CMPT_STS_DESC_EN_MASK v = take_bit 1 (ucast (cc_wrb_en c)) \<and>
      FIELD_GET QDMA_DMAP_SEL_CMPT_IRQ_EN_MASK v = take_bit 1 (ucast (cc_irq_en c))) \<and>
   (\<exists>v. qdma_queue_intr_cidx_update (Some env) is_vf qid (Some i) s =
          (0, s @ [Reg_write (doorbell_addr (is_vf \<noteq> 0) Db_intr qid) v]) \<and>
      FIELD_GET QDMA_DMA_SEL_INT_SW_CIDX_MASK v = ucast (ic_sw_cidx i) \<and>
      FIELD_GET QDMA_DMA_SEL_INT_RING_IDX_MASK v = ucast (ic_rng_idx i)) \<and>
   (doorbell_addr vf k q = doorbell_addr vf k' q' \<longleftrightarrow> k = k' \<and> q = q')"
proof (intro conjI)
  have u16: "take_bit 16 (ucast w :: u32) = ucast w" for w :: u16
    by (rule bit_word_eqI) (auto simp: bit_simps dest: bit_imp_le_length)
  have u8: "take_bit 8 (ucast w :: u32) = ucast w" for w :: u8
    by (rule bit_word_eqI) (auto simp: bit_simps dest: bit_imp_le_length)
  note [simp] = qdma_reg_write_def doorbell_addr_def csr_consts u16 u8
  show "\<exists>v. qdma_queue_pidx_update (Some env) is_vf qid is_c2h (Some p) s =
          (0, s @ [Reg_write (doorbell_addr (is_vf \<noteq> 0) (if is_c2h \<noteq> 0 then Db_c2h else Db_h2c) qid) v]) \<and>
      FIELD_GET QDMA_DMA_SEL_DESC_PIDX_MASK v = ucast (pi_pidx p) \<and>
      FIELD_GET QDMA_DMA_SEL_IRQ_EN_MASK v = take_bit 1 (ucast (pi_irq_en p))"
    by (simp add: qdma_queue_pidx_update_def csr_pack)
  show "\<exists>v. qdma_queue_cmpt_cidx_update (Some env) is_vf qid (Some c) s =
          (0, s @ [Reg_write (doorbell_addr (is_vf \<noteq> 0) Db_cmpt qid) v]) \<and>
      FIELD_GET QDMA_DMAP_SEL_CMPT_WRB_CIDX_MASK v = ucast (cc_wrb_cidx c) \<and>
      FIELD_GET QDMA_DMAP_SEL_CMPT_CNT_THRESH_MASK v = take_bit 4 (ucast (cc_counter_idx c)) \<and>
      FIELD_GET QDMA_DMAP_SEL_CMPT_TMR_CNT_MASK v = take_bit 4 (ucast (cc_timer_idx c)) \<and>
      FIELD_GET QDMA_DMAP_SEL_CMPT_TRG_MODE_MASK v = take_bit 3 (ucast (cc_trig_mode c)) \<and>
      FIELD_GET QDMA_DMAP_SEL_CMPT_STS_DESC_EN_MASK v = take_bit 1 (ucast (cc_wrb_en c)) \<and>
      FIELD_GET QDMA_DMAP_SEL_CMPT_IRQ_EN_MASK v = take_bit 1 (ucast (cc_irq_en c))"
    by (simp add: qdma_queue_cmpt_cidx_update_def csr_pack)
  show "\<exists>v. qdma_queue_intr_cidx_update (Some env) is_vf qid (Some i) s =
          (0, s @ [Reg_write (doorbell_addr (is_vf \<noteq> 0) Db_intr qid) v]) \<and>
      FIELD_GET QDMA_DMA_SEL_INT_SW_CIDX_MASK v = ucast (ic_sw_cidx i) \<and>
      FIELD_GET QDMA_DMA_SEL_INT_RING_IDX_MASK v = ucast (ic_rng_idx i)"
    by (simp add: qdma_queue_intr_cidx_update_def csr_pack)
qed (rule doorbell_addr_inj)

subsection \<open>User BAR\<close>

lemma find_upt_Some: "find P [0..<k] = Some n \<longleftrightarrow> n < k \<and> P n \<and> (\<forall>m<n. \<not> P m)"
  by (auto simp: find_Some_iff)

lemma find_upt_None: "find P [0..<k] = None \<longleftrightarrow> (\<forall>m<k. \<not> P m)"
  by (auto simp: find_None_iff)

lemma first_bar_spec:
  "first_bar x = Some n \<longleftrightarrow> n < 6 \<and> bit x n \<and> (\<forall>m<n. \<not> bit x m)"
  "first_bar x = None \<longleftrightarrow> (\<forall>m<6. \<not> bit x m)"
  by (simp_all add: first_bar_def csr_consts bit_iff_and_push_bit_not_eq_0 find_upt_Some find_upt_None
      del: upt.simps upt_rec_numeral)

lemma bar_field_bit: "bit (drop_bit k x AND 0x3F :: u32) n \<longleftrightarrow> n < 6 \<and> bit x (k + n)" for x :: u32
proof -
  have "(0x3F :: u32) = mask 6" by (simp add: mask_eq_exp_minus_1)
  then have "bit (0x3F :: u32) n \<longleftrightarrow> n < 6" by (simp only: bit_mask_iff) auto
  then show ?thesis by (auto simp: bit_and_iff bit_drop_bit_eq)
qed

text \<open>
  The user BAR is the first one marked. For a PF with a number up to 4 the function
  returns the position of the lowest bit set among the six bits of that PF in the BAR
  register, and \<open>-QDMA_ERR_HWACC_BAR_NOT_FOUND\<close> with BAR 0 exactly when none is set; a VF
  uses the low six bits of its own register. The register is read once and none is written.
\<close>

theorem user_bar_first:
  fixes func_id is_vf :: u8 and env :: hw_env and s :: hw_log
  assumes "unat func_id \<le> 4"
  defines "reg \<equiv> (if is_vf \<noteq> 0 then QDMA_OFFSET_VF_USER_BAR_ID else QDMA_OFFSET_GLBL2_PF_BARLITE_EXT)"
    and "pos \<equiv> (if is_vf \<noteq> 0 then 0 else 6 * unat func_id)"
  shows "\<exists>rv bar. qdma_get_user_bar (Some env) is_vf func_id (Some b) s =
      (rv, Some bar, s @ [Reg_read reg (env s reg)]) \<and>
    (rv = 0 \<and> (\<exists>n<6. bar = word_of_nat n \<and> bit (env s reg) (pos + n) \<and> (\<forall>m<n. \<not> bit (env s reg) (pos + m))) \<or>
     rv = neg_err QDMA_ERR_HWACC_BAR_NOT_FOUND \<and> bar = 0 \<and> (\<forall>m<6. \<not> bit (env s reg) (pos + m)))"
proof -
  define x where "x = drop_bit pos (env s reg) AND 0x3F"
  have id: "(if is_vf = 0 then drop_bit (6 * unat func_id) (env s reg) AND 0x3F else env s reg AND 0x3F) = x"
    by (simp add: x_def pos_def)
  have r: "qdma_get_user_bar (Some env) is_vf func_id (Some b) s =
      (case first_bar x of
         Some n \<Rightarrow> (err_code QDMA_SUCCESS, Some (word_of_nat n), s @ [Reg_read reg (env s reg)])
       | None \<Rightarrow> (neg_err QDMA_ERR_HWACC_BAR_NOT_FOUND, Some 0, s @ [Reg_read reg (env s reg)]))"
    unfolding qdma_get_user_bar_def reg_def [symmetric]
    by (simp only: prod.case option.case Let_def qdma_reg_read_def id)
  have b: "bit x n \<longleftrightarrow> n < 6 \<and> bit (env s reg) (pos + n)" for n
    by (simp add: x_def bar_field_bit)
  show ?thesis
  proof (cases "first_bar x")
    case None
    then show ?thesis using r first_bar_spec(2) [of x] b by auto
  next
    case (Some n)
    then show ?thesis using r first_bar_spec(1) [of x n] b by auto
  qed
qed

theorem user_bar_first_witness:
  "\<exists>rv bar. qdma_get_user_bar (Some (\<lambda>_ _. 0x30104)) 0 1 (Some 0) [] =
      (rv, Some bar, [Reg_read QDMA_OFFSET_GLBL2_PF_BARLITE_EXT 0x30104]) \<and> rv = 0 \<and> bar = 2"
proof -
  from user_bar_first [of "1 :: u8" "\<lambda>_ _. 0x30104" "0 :: u8" "0 :: u8" "[]"]
  have "\<exists>rv bar. qdma_get_user_bar (Some (\<lambda>_ _. 0x30104)) 0 1 (Some 0) [] =
      (rv, Some bar, [Reg_read QDMA_OFFSET_GLBL2_PF_BARLITE_EXT 0x30104])" by simp blast
  moreover have "qdma_get_user_bar (Some (\<lambda>_ _. 0x30104)) 0 1 (Some 0) [] =
      (0, Some 2, [Reg_read QDMA_OFFSET_GLBL2_PF_BARLITE_EXT 0x30104])" by code_simp
  ultimately show ?thesis by simp
qed

lemma plain_hw_fixed: "fixed_caps plain_hw"
  by (auto simp: fixed_caps_def plain_hw_def)

subsection \<open>Writeback interval and legacy interrupt\<close>

text \<open>
  The writeback interval cannot be lowered bit by bit. On plain registers with the
  feature present, setting interval \<open>w\<close> over an earlier register value \<open>v\<close> succeeds, but the
  next read returns the bitwise or of \<open>w\<close> and the old interval: the old field is never
  cleared, so after the default interval 128 (code 5) a request for interval 16 (code 2)
  reads back as 512 (code 7).
\<close>

theorem writeback_interval_accumulates:
  assumes "fixed_caps env" "csr_supported (caps env) QDMA_CSR_TIMER_CNT"
    and "plain_reg env QDMA_OFFSET_GLBL_DSC_CFG"
    and "last_written QDMA_OFFSET_GLBL_DSC_CFG s = Some v" "w < QDMA_NUM_WRB_INTERVALS"
  shows "\<exists>s1 s2.
     qdma_global_writeback_interval_conf (Some env) (Some w) QDMA_HW_ACCESS_WRITE s = Some (0, Some w, s1) \<and>
     qdma_global_writeback_interval_conf (Some env) (Some x) QDMA_HW_ACCESS_READ s1 =
       Some (0, Some (FIELD_GET QDMA_GLBL_DSC_CFG_WB_ACC_INT_MASK v OR w), s2)"
proof -
  let ?r = QDMA_OFFSET_GLBL_DSC_CFG and ?f = "FIELD_SET QDMA_GLBL_DSC_CFG_WB_ACC_INT_MASK w"
  have sup: "st_en (caps env) \<noteq> 0 \<or> mm_cmpt_en (caps env) \<noteq> 0" using assms(2) by simp
  have nge: "\<not> QDMA_NUM_WRB_INTERVALS \<le> w" using assms(5) by (simp only: not_le)
  have cap: "fst (read_dev_attributes env s) = caps env" for s
    using read_dev_attributes_caps [OF assms(1)] .
  have val: "env u ?r = y" if "last_written ?r u = Some y" for u y
    using assms(3) that by (simp add: plain_reg_def)
  have keep: "last_written ?r (snd (read_dev_attributes env u)) = last_written ?r u" for u by simp
  let ?s0 = "snd (read_dev_attributes env s)"
  let ?s1 = "?s0 @ [Reg_read ?r v, Reg_write ?r (v OR ?f)]"
  have r0: "env ?s0 ?r = v" using val assms(4) by simp
  have wr: "qdma_global_writeback_interval_conf (Some env) (Some w) QDMA_HW_ACCESS_WRITE s = Some (0, Some w, ?s1)"
    using sup nge by (simp add: qdma_global_writeback_interval_conf_def
        qdma_global_writeback_interval_write_def case_prod_unfold Let_def cap qdma_reg_read_def
        qdma_reg_write_def r0)
  have r1: "env (snd (read_dev_attributes env ?s1)) ?r = v OR ?f" by (intro val) simp
  have "uint w < 2 ^ 3" using assms(5) by (simp add: QDMA_NUM_WRB_INTERVALS_def word_less_alt)
  then have "uint (take_bit 3 w) = uint w" by (simp only: unsigned_take_bit_eq take_bit_int_eq_self uint_ge_0)
  then have "take_bit 3 w = w" by (simp only: word_uint_eq_iff)
  then have "FIELD_GET QDMA_GLBL_DSC_CFG_WB_ACC_INT_MASK (v OR ?f) =
      FIELD_GET QDMA_GLBL_DSC_CFG_WB_ACC_INT_MASK v OR w"
    by (simp add: csr_pack)
  then show ?thesis unfolding wr using sup
    by (simp add: qdma_global_writeback_interval_conf_def
        qdma_global_writeback_interval_read_def case_prod_unfold Let_def cap qdma_reg_read_def r1)
qed

theorem writeback_interval_accumulates_witness:
  "\<exists>s1 s2. qdma_global_writeback_interval_conf (Some plain_hw) (Some 2) QDMA_HW_ACCESS_WRITE
       [Reg_write QDMA_OFFSET_GLBL_DSC_CFG 5] = Some (0, Some 2, s1) \<and>
     qdma_global_writeback_interval_conf (Some plain_hw) (Some 0) QDMA_HW_ACCESS_READ s1 =
       Some (0, Some 7, s2)"
proof -
  have "plain_reg plain_hw QDMA_OFFSET_GLBL_DSC_CFG"
    by (intro plain_hw_reg) (simp add: cap_addrs_def csr_consts)
  note w = writeback_interval_accumulates [OF plain_hw_fixed _ this,
      of "[Reg_write QDMA_OFFSET_GLBL_DSC_CFG 5]" 5 2 0]
  have "FIELD_GET QDMA_GLBL_DSC_CFG_WB_ACC_INT_MASK 5 OR 2 = 7" by code_simp
  with w show ?thesis by (simp add: plain_hw_caps QDMA_NUM_WRB_INTERVALS_def)
qed

text \<open>
  The legacy interrupt can be enabled but not disabled. On a plain interrupt register
  holding \<open>v\<close>, \<^verbatim>\<open>qdma_legacy_intr_conf\<close> writes \<open>v\<close> with bit 0 set for \<^verbatim>\<open>ENABLE\<close> and writes \<open>v\<close> back
  unchanged for \<^verbatim>\<open>DISABLE\<close>, so an enabled interrupt stays enabled; clearing the pending bit
  sets bit 1 and changes no other bit.
\<close>

theorem legacy_intr_never_disabled:
  assumes "plain_reg env QDMA_OFFSET_GLBL_INTERRUPT_CFG"
    and "last_written QDMA_OFFSET_GLBL_INTERRUPT_CFG s = Some v"
  shows "qdma_legacy_intr_conf (Some env) e s =
      (0, s @ [Reg_read QDMA_OFFSET_GLBL_INTERRUPT_CFG v,
               Reg_write QDMA_OFFSET_GLBL_INTERRUPT_CFG (case e of ENABLE \<Rightarrow> v OR 1 | DISABLE \<Rightarrow> v)]) \<and>
    qdma_clear_pend_legacy_intr (Some env) s =
      (0, s @ [Reg_read QDMA_OFFSET_GLBL_INTERRUPT_CFG v, Reg_write QDMA_OFFSET_GLBL_INTERRUPT_CFG (v OR 2)])"
proof -
  have "env s QDMA_OFFSET_GLBL_INTERRUPT_CFG = v" using assms by (simp add: plain_reg_def)
  moreover have "FIELD_SET QDMA_GLBL_INTR_CFG_EN_LGCY_INTR_MASK 0 = 0"
    "FIELD_SET QDMA_GLBL_INTR_CFG_EN_LGCY_INTR_MASK 1 = 1"
    "FIELD_SET QDMA_GLBL_INTR_LGCY_INTR_PEND_MASK 1 = 2" by code_simp+
  ultimately show ?thesis
    by (simp add: qdma_legacy_intr_conf_def qdma_clear_pend_legacy_intr_def qdma_reg_read_def
        qdma_reg_write_def Let_def split: status_type.split)
qed

theorem legacy_intr_never_disabled_witness:
  "snd (qdma_legacy_intr_conf (Some plain_hw) DISABLE [Reg_write QDMA_OFFSET_GLBL_INTERRUPT_CFG 1]) =
     [Reg_write QDMA_OFFSET_GLBL_INTERRUPT_CFG 1, Reg_read QDMA_OFFSET_GLBL_INTERRUPT_CFG 1,
      Reg_write QDMA_OFFSET_GLBL_INTERRUPT_CFG 1]"
proof -
  have "plain_reg plain_hw QDMA_OFFSET_GLBL_INTERRUPT_CFG"
    by (intro plain_hw_reg) (simp add: cap_addrs_def csr_consts)
  from legacy_intr_never_disabled [OF this, of "[Reg_write QDMA_OFFSET_GLBL_INTERRUPT_CFG 1]" 1 DISABLE]
  show ?thesis by simp
qed

subsection \<open>Clearing all contexts\<close>

text \<open>The contexts known to be zero only grow while contexts are cleared.\<close>

definition zeroed :: "hw_log \<Rightarrow> ctxt_key set" where
  "zeroed s = {k. ctxt_words s k = replicate 8 (Some 0)}"

lemma clear_zeroed:
  assumes "ctxt_hw env" "qdma_indirect_reg_clear env sel i s = (rv, s')"
  shows "rv = 0" "zeroed s' = insert (ctxt_key_of sel i) (zeroed s)"
  using indirect_clear_words [OF assms] by (auto simp: zeroed_def)

definition cleared_selectors :: "qdma_dev_attributes \<Rightarrow> ind_ctxt_cmd_sel list \<Rightarrow> ind_ctxt_cmd_sel set" where
  "cleared_selectors a sels =
     (if st_en a = 0 then set sels - {QDMA_CTXT_SEL_PFTCH, QDMA_CTXT_SEL_CMPT} else set sels)"

lemma clear_selectors_zeroed:
  assumes "ctxt_hw env"
  shows "fst (clear_selectors env a i sels s) = 0 \<and>
    zeroed (snd (clear_selectors env a i sels s)) =
      zeroed s \<union> (\<lambda>sel. ctxt_key_of sel i) ` cleared_selectors a sels"
proof (induction sels arbitrary: s)
  case (Cons sel sels)
  obtain rv s1 where c: "qdma_indirect_reg_clear env sel i s = (rv, s1)" by fastforce
  show ?case using Cons.IH [of s] Cons.IH [of s1] clear_zeroed [OF assms c] c
    by (auto simp: cleared_selectors_def)
qed (simp add: cleared_selectors_def)

lemma clear_queues_zeroed:
  assumes "ctxt_hw env"
  shows "fst (clear_queues env a is s) = 0 \<and>
    zeroed (snd (clear_queues env a is s)) =
      zeroed s \<union> {ctxt_key_of sel i |sel i. sel \<in> cleared_selectors a queue_selectors \<and> i \<in> set is}"
proof (induction "is" arbitrary: s)
  case (Cons i "is")
  obtain rv s1 where c: "clear_selectors env a i queue_selectors s = (rv, s1)" by fastforce
  show ?case using Cons.IH [of s1] clear_selectors_zeroed [OF assms, of a i queue_selectors s] c
    by (auto simp: image_iff)
qed simp

lemma clear_fmaps_zeroed:
  assumes "ctxt_hw env"
  shows "zeroed (clear_fmaps env is s) = zeroed s \<union> ctxt_key_of QDMA_CTXT_SEL_FMAP ` set is"
proof (induction "is" arbitrary: s)
  case (Cons i "is")
  obtain rv s1 where c: "qdma_indirect_reg_clear env QDMA_CTXT_SEL_FMAP i s = (rv, s1)" by fastforce
  show ?case using Cons.IH [of s1] clear_zeroed [OF assms c] c by auto
qed simp

text \<open>
  Start-up clears the whole context memory. On a device that behaves as documented,
  \<^verbatim>\<open>qdma_init_ctxt_memory\<close> succeeds and afterwards the software, hardware and credit contexts
  of both directions of every queue the device reports, and with streaming their completion
  and prefetch contexts, are zero, and so is the function-map entry of every PF; no other
  context is touched.
\<close>

theorem init_clears_contexts:
  fixes env :: hw_env and s :: hw_log
  assumes "ctxt_hw env"
  defines "a \<equiv> fst (read_dev_attributes env s)"
  shows "\<exists>s'. qdma_init_ctxt_memory (Some env) s = (0, s') \<and>
     zeroed s' = zeroed s \<union>
       {ctxt_key_of sel q |sel q. sel \<in> cleared_selectors a queue_selectors \<and> q < num_qs a} \<union>
       {ctxt_key_of QDMA_CTXT_SEL_FMAP f |f. f < ucast (num_pfs a)}"
proof -
  let ?qs = "map word_of_nat [0..<unat (num_qs a)] :: u16 list"
  let ?fs = "map word_of_nat [0..<unat (num_pfs a)] :: u16 list"
  obtain s1 where r: "read_dev_attributes env s = (a, s1)" "s1 = snd (read_dev_attributes env s)"
    by (simp add: a_def prod_eq_iff)
  have z1: "zeroed s1 = zeroed s"
    using read_dev_attributes_log [of env s] fold_reads r(2)
    by (auto simp: zeroed_def ctxt_words_def)
  obtain s2 where c: "clear_queues env a ?qs s1 = (0, s2)"
      "zeroed s2 = zeroed s1 \<union>
        {ctxt_key_of sel i |sel i. sel \<in> cleared_selectors a queue_selectors \<and> i \<in> set ?qs}"
    using clear_queues_zeroed [OF assms(1), of a ?qs s1] by (metis prod.collapse)
  have qs: "set ?qs = {q. q < num_qs a}"
  proof (intro set_eqI iffI)
    fix q assume "q \<in> {q. q < num_qs a}"
    then have "unat q < unat (num_qs a)" by (simp add: word_less_nat_alt)
    then show "q \<in> set ?qs" by (auto intro: image_eqI [of _ _ "unat q"])
  qed (auto simp: word_less_nat_alt unat_of_nat take_bit_eq_mod intro: le_less_trans [OF mod_less_eq_dividend])
  have up: "unat (ucast n :: u16) = unat n" for n :: u8
    using unsigned_less [of n, where 'a = nat] by (simp add: unsigned_ucast_eq take_bit_nat_eq_self)
  have fs: "set ?fs = {f. f < ucast (num_pfs a)}"
  proof (intro set_eqI iffI)
    fix f :: u16 assume "f \<in> {f. f < ucast (num_pfs a)}"
    then have "unat f < unat (num_pfs a)" by (simp add: word_less_nat_alt up)
    then show "f \<in> set ?fs" by (auto intro: image_eqI [of _ _ "unat f"])
  qed (auto simp: word_less_nat_alt unat_of_nat up take_bit_eq_mod intro: le_less_trans [OF mod_less_eq_dividend])
  have "qdma_init_ctxt_memory (Some env) s = (0, clear_fmaps env ?fs s2)"
    by (simp add: qdma_init_ctxt_memory_def r(1) c(1) Let_def)
  moreover have "zeroed (clear_fmaps env ?fs s2) = zeroed s \<union>
       {ctxt_key_of sel q |sel q. sel \<in> cleared_selectors a queue_selectors \<and> q < num_qs a} \<union>
       {ctxt_key_of QDMA_CTXT_SEL_FMAP f |f. f < ucast (num_pfs a)}"
    unfolding clear_fmaps_zeroed [OF assms(1)] c(2) z1 qs fs by blast
  ultimately show ?thesis by blast
qed

definition two_queue_hw :: hw_env where
  "two_queue_hw s a =
     (if a = QDMA_OFFSET_GLBL2_CHANNEL_QDMA_CAP then 2
      else if a = QDMA_OFFSET_GLBL2_PF_BARLITE_INT then 1 else ref_hw s a)"

lemma two_queue_hw_ok: "ctxt_hw two_queue_hw"
  by (rule ctxt_hw_other_regs [OF ref_hw_ok])
    (auto simp: two_queue_hw_def csr_consts data_addrs_def QDMA_OFFSET_IND_CTXT_CMD_def)

lemma two_queue_attributes:
  "num_qs (fst (read_dev_attributes two_queue_hw [])) = 2"
  "num_pfs (fst (read_dev_attributes two_queue_hw [])) = 1"
proof -
  have "FIELD_GET QDMA_GLBL2_MULTQ_MAX_MASK 2 = 2" "count_pfs 1 = 1" by code_simp+
  then show "num_qs (fst (read_dev_attributes two_queue_hw [])) = 2"
    "num_pfs (fst (read_dev_attributes two_queue_hw [])) = 1"
    by (simp_all add: read_dev_attributes_def qdma_reg_read_def two_queue_hw_def Let_def csr_consts)
qed

theorem init_clears_contexts_witness:
  "\<exists>s'. qdma_init_ctxt_memory (Some two_queue_hw) [] = (0, s') \<and>
     ctxt_words s' (ctxt_key_of QDMA_CTXT_SEL_CR_H2C 1) = replicate 8 (Some 0) \<and>
     ctxt_words s' (ctxt_key_of QDMA_CTXT_SEL_FMAP 0) = replicate 8 (Some 0)"
proof -
  obtain s' where i: "qdma_init_ctxt_memory (Some two_queue_hw) [] = (0, s')"
    and z: "zeroed s' = zeroed [] \<union>
       {ctxt_key_of sel q |sel q. sel \<in> cleared_selectors (fst (read_dev_attributes two_queue_hw [])) queue_selectors
          \<and> q < num_qs (fst (read_dev_attributes two_queue_hw []))} \<union>
       {ctxt_key_of QDMA_CTXT_SEL_FMAP f |f. f < ucast (num_pfs (fst (read_dev_attributes two_queue_hw [])))}"
    using init_clears_contexts [OF two_queue_hw_ok, of "[]"] by blast
  have "QDMA_CTXT_SEL_CR_H2C \<in> cleared_selectors (fst (read_dev_attributes two_queue_hw [])) queue_selectors"
    by (simp add: cleared_selectors_def queue_selectors_def)
  moreover have "(1::u16) < 2" "(0::u16) < ucast (1::u8)" by (simp_all add: word_less_nat_alt)
  ultimately have "ctxt_key_of QDMA_CTXT_SEL_CR_H2C 1 \<in> zeroed s'" "ctxt_key_of QDMA_CTXT_SEL_FMAP 0 \<in> zeroed s'"
    unfolding z two_queue_attributes by blast+
  then show ?thesis using i by (simp add: zeroed_def)
qed

subsection \<open>Default values\<close>

fun csr_default :: "qdma_global_csr_type \<Rightarrow> u32 list" where
  "csr_default QDMA_CSR_RING_SZ = default_rng_sz"
| "csr_default QDMA_CSR_TIMER_CNT = default_tmr_cnt"
| "csr_default QDMA_CSR_CNT_TH = default_cnt_th"
| "csr_default QDMA_CSR_BUF_SZ = default_buf_sz"
| "csr_default QDMA_CSR_MAX = []"

lemma length_csr_default: "t \<noteq> QDMA_CSR_MAX \<Longrightarrow> length (csr_default t) = 16"
  by (cases t) (simp_all add: default_rng_sz_def default_tmr_cnt_def default_cnt_th_def default_buf_sz_def)

lemma csr_write_default:
  assumes "t \<noteq> QDMA_CSR_MAX" "t' \<noteq> QDMA_CSR_MAX" "i < 16"
  shows "last_written (csr_addr t' i) (qdma_write_csr_values (csr_base t) 0 (csr_default t) s) =
    (if t' = t then Some (csr_default t ! i) else last_written (csr_addr t' i) s)"
  using csr_write_values [OF assms(1,2), of 0 "csr_default t" i s] assms
  by (simp add: length_csr_default)

lemma last_written_reg_write:
  "last_written a (qdma_reg_write b v s) = (if a = b then Some v else last_written a s)"
  by (simp add: qdma_reg_write_def)

lemma last_written_reg_read: "last_written a (snd (qdma_reg_read env b s)) = last_written a s"
  by (simp add: qdma_reg_read_def)

definition lone_regs :: "u32 list" where
  "lone_regs = [QDMA_OFFSET_GLBL_DSC_CFG, QDMA_OFFSET_C2H_PFETCH_CFG, QDMA_OFFSET_C2H_INT_TIMER_TICK,
     QDMA_OFFSET_C2H_WRB_COAL_CFG, QDMA_OFFSET_H2C_REQ_THROT]"

lemma csr_addr_not_lone:
  assumes "t \<noteq> QDMA_CSR_MAX" "i < 16"
  shows "csr_addr t i \<notin> set lone_regs"
proof
  assume "csr_addr t i \<in> set lone_regs"
  then have "unat (csr_addr t i) \<in> unat ` set lone_regs" by blast
  then show False using assms unat_csr_addr [OF assms(2), of t]
    by (cases t) (auto simp: lone_regs_def csr_consts)
qed

text \<open>
  The defaults are complete. \<^verbatim>\<open>qdma_set_default_global_csr\<close> succeeds, and afterwards every
  register of an array that the device supports holds its default: the ring sizes always,
  the timers and counter thresholds with streaming or memory-mapped completions, the buffer
  sizes with streaming; arrays that are not supported keep their contents.
\<close>

theorem default_csr_complete:
  assumes "t \<noteq> QDMA_CSR_MAX" "i < 16"
  shows "\<exists>s'. qdma_set_default_global_csr (Some env) s = (0, s') \<and>
    last_written (csr_addr t i) s' =
      (if csr_supported (fst (read_dev_attributes env s)) t then Some (csr_default t ! i)
       else last_written (csr_addr t i) s)"
proof -
  have lone: "csr_addr t i \<noteq> r" if "r \<in> set lone_regs" for r
    using csr_addr_not_lone [OF assms] that by auto
  have ne: "csr_addr t i \<noteq> QDMA_OFFSET_GLBL_DSC_CFG" "csr_addr t i \<noteq> QDMA_OFFSET_C2H_PFETCH_CFG"
    "csr_addr t i \<noteq> QDMA_OFFSET_C2H_INT_TIMER_TICK" "csr_addr t i \<noteq> QDMA_OFFSET_C2H_WRB_COAL_CFG"
    "csr_addr t i \<noteq> QDMA_OFFSET_H2C_REQ_THROT" by (intro lone; simp add: lone_regs_def)+
  have w: "last_written (csr_addr t i) (qdma_write_csr_values QDMA_OFFSET_GLBL_RNG_SZ 0 default_rng_sz u) =
        (if t = QDMA_CSR_RING_SZ then Some (csr_default t ! i) else last_written (csr_addr t i) u)"
      "last_written (csr_addr t i) (qdma_write_csr_values QDMA_OFFSET_C2H_TIMER_CNT 0 default_tmr_cnt u) =
        (if t = QDMA_CSR_TIMER_CNT then Some (csr_default t ! i) else last_written (csr_addr t i) u)"
      "last_written (csr_addr t i) (qdma_write_csr_values QDMA_OFFSET_C2H_CNT_TH 0 default_cnt_th u) =
        (if t = QDMA_CSR_CNT_TH then Some (csr_default t ! i) else last_written (csr_addr t i) u)"
      "last_written (csr_addr t i) (qdma_write_csr_values QDMA_OFFSET_C2H_BUF_SZ 0 default_buf_sz u) =
        (if t = QDMA_CSR_BUF_SZ then Some (csr_default t ! i) else last_written (csr_addr t i) u)" for u
    using csr_write_default [of QDMA_CSR_RING_SZ t i u] csr_write_default [of QDMA_CSR_TIMER_CNT t i u]
      csr_write_default [of QDMA_CSR_CNT_TH t i u] csr_write_default [of QDMA_CSR_BUF_SZ t i u] assms
    by auto
  let ?s' = "snd (qdma_set_default_global_csr (Some env) s)"
  have "fst (qdma_set_default_global_csr (Some env) s) = 0"
    by (simp add: qdma_set_default_global_csr_def case_prod_unfold Let_def)
  moreover have "last_written (csr_addr t i) ?s' =
      (if csr_supported (fst (read_dev_attributes env s)) t then Some (csr_default t ! i)
       else last_written (csr_addr t i) s)"
    unfolding qdma_set_default_global_csr_def option.case Let_def case_prod_unfold
      if_distrib [of "last_written (csr_addr t i)"] last_written_reg_write last_written_reg_read snd_conv w
      last_written_dev_attributes
    using assms(1) ne by (cases t) simp_all
  ultimately show ?thesis by (metis prod.collapse)
qed

theorem default_csr_complete_witness:
  "\<exists>s'. qdma_set_default_global_csr (Some (\<lambda>_ _. 0x30100)) [] = (0, s') \<and>
     last_written (csr_addr QDMA_CSR_BUF_SZ 14) s' = Some 9018"
proof -
  have "csr_supported (fst (read_dev_attributes (\<lambda>_ _. 0x30100) [])) QDMA_CSR_BUF_SZ" by code_simp
  with default_csr_complete [of QDMA_CSR_BUF_SZ 14 "\<lambda>_ _. 0x30100" "[]"]
  show ?thesis by (simp add: default_buf_sz_def)
qed

end
