(* ===== verification/Jsmn.thy ===== *)
theory Jsmn
  imports Prelude
begin

text \<open>
  The JSON tokenizer of the driver (\<^verbatim>\<open>src/jsmn/jsmn.c\<close>), as it is built: without
  \<^verbatim>\<open>JSMN_STRICT\<close> and \<^verbatim>\<open>JSMN_PARENT_LINKS\<close>. The text is a list of bytes, the token array a list
  (\<open>None\<close> for the null pointer of a counting run). Every access goes through a bounds check:
  the result \<open>None\<close> is an access outside the text or the token array. The lemmas show that
  this never happens, that the tokenizer always returns, that the tokens of a successful
  run are closed ranges of the text, and that a counting run predicts the number of tokens.

  The counters of the parser are natural numbers and the fields of a token integers, where the
  code has \<^verbatim>\<open>unsigned int\<close> and \<^verbatim>\<open>int\<close>: on a text of 2^31 bytes or more the two would differ
  (\<^verbatim>\<open>start\<close> would turn negative and the position could wrap). The safety property is therefore
  stated for shorter texts, and shows that no counter outgrows the text there. The only caller
  keeps the length in 16 bits.
\<close>

subsection \<open>Data\<close>

datatype jsmntype_t = JSMN_UNDEFINED | JSMN_OBJECT | JSMN_ARRAY | JSMN_STRING | JSMN_PRIMITIVE

definition JSMN_ERROR_NOMEM :: int where "JSMN_ERROR_NOMEM = -1"
definition JSMN_ERROR_INVAL :: int where "JSMN_ERROR_INVAL = -2"
definition JSMN_ERROR_PART :: int where "JSMN_ERROR_PART = -3"

lemmas jsmn_errors = JSMN_ERROR_NOMEM_def JSMN_ERROR_INVAL_def JSMN_ERROR_PART_def

record jsmntok_t =
  tk_type :: jsmntype_t
  tk_start :: int
  tk_end :: int
  tk_size :: int

record jsmn_parser =
  jp_pos :: nat
  jp_toknext :: nat
  jp_toksuper :: int

definition jsmn_init :: jsmn_parser where
  "jsmn_init = \<lparr>jp_pos = 0, jp_toknext = 0, jp_toksuper = -1\<rparr>"

text \<open>Checked accesses to the text and to the tokens.\<close>

definition at :: "'a list \<Rightarrow> nat \<Rightarrow> 'a option" where
  "at xs i = (if i < length xs then Some (xs ! i) else None)"

definition modify :: "(jsmntok_t \<Rightarrow> jsmntok_t) \<Rightarrow> int \<Rightarrow> jsmntok_t list \<Rightarrow> jsmntok_t list option" where
  "modify f i toks =
     (if 0 \<le> i \<and> nat i < length toks then Some (toks[nat i := f (toks ! nat i)]) else None)"

definition is_open :: "jsmntok_t \<Rightarrow> bool" where
  "is_open t \<longleftrightarrow> tk_start t \<noteq> -1 \<and> tk_end t = -1"

subsection \<open>Tokens\<close>

text \<open>
  The result is \<open>None\<close> on a fault, otherwise the token's index (\<open>None\<close> for a null pointer),
  the parser and the tokens.
\<close>

definition jsmn_alloc_token ::
  "jsmn_parser \<Rightarrow> jsmntok_t list \<Rightarrow> nat \<Rightarrow> (nat option \<times> jsmn_parser \<times> jsmntok_t list) option" where
  "jsmn_alloc_token parser tokens num_tokens =
     (if jp_toknext parser \<ge> num_tokens then Some (None, parser, tokens)
      else
        (case modify (\<lambda>tok. tok\<lparr>tk_start := -1, tk_end := -1, tk_size := 0\<rparr>) (int (jp_toknext parser)) tokens of
           None \<Rightarrow> None
         | Some tokens' \<Rightarrow>
             Some (Some (jp_toknext parser), parser\<lparr>jp_toknext := Suc (jp_toknext parser)\<rparr>, tokens')))"

definition jsmn_fill_token :: "jsmntype_t \<Rightarrow> int \<Rightarrow> int \<Rightarrow> jsmntok_t \<Rightarrow> jsmntok_t" where
  "jsmn_fill_token ty s e token = token\<lparr>tk_type := ty, tk_start := s, tk_end := e, tk_size := 0\<rparr>"

subsection \<open>Primitives\<close>

text \<open>The scan of \<^verbatim>\<open>jsmn_parse_primitive\<close>: where it stops, or an invalid character (\<open>None\<close>).\<close>

definition ends_primitive :: "u8 \<Rightarrow> bool" where
  "ends_primitive c \<longleftrightarrow>
     c \<in> {0x3A \<comment> \<open>colon\<close>, 9, 13, 10, 32, 0x2C \<comment> \<open>comma\<close>, 0x5D \<comment> \<open>closing bracket\<close>, 0x7D \<comment> \<open>closing brace\<close>}"

function primitive_scan :: "u8 list \<Rightarrow> nat \<Rightarrow> nat \<Rightarrow> nat option option" where
  "primitive_scan js len pos =
     (if pos < len then
        (case at js pos of
           None \<Rightarrow> None
         | Some c \<Rightarrow>
             if c = 0 \<or> ends_primitive c then Some (Some pos)
             else if c < 32 \<or> c \<ge> 127 then Some None
             else primitive_scan js len (Suc pos))
      else Some (Some pos))"
  by auto
termination by (relation "measure (\<lambda>(js, len, pos). len - pos)") auto

declare primitive_scan.simps [simp del]

text \<open>
  The result is the return value, the parser and the tokens. The position is at least 1
  after a scan that stops, because the scan starts at a character that does not end a
  primitive.
\<close>

definition jsmn_parse_primitive ::
  "jsmn_parser \<Rightarrow> u8 list \<Rightarrow> nat \<Rightarrow> jsmntok_t list option \<Rightarrow> nat
     \<Rightarrow> (int \<times> jsmn_parser \<times> jsmntok_t list option) option" where
  "jsmn_parse_primitive parser js len tokens num_tokens =
     (let start = jp_pos parser in
      case primitive_scan js len start of
        None \<Rightarrow> None
      | Some None \<Rightarrow> Some (JSMN_ERROR_INVAL, parser\<lparr>jp_pos := start\<rparr>, tokens)
      | Some (Some pos) \<Rightarrow>
          (case tokens of
             None \<Rightarrow> Some (0, parser\<lparr>jp_pos := pos - 1\<rparr>, None)
           | Some toks \<Rightarrow>
               (case jsmn_alloc_token (parser\<lparr>jp_pos := pos\<rparr>) toks num_tokens of
                  None \<Rightarrow> None
                | Some (None, parser', toks') \<Rightarrow>
                    Some (JSMN_ERROR_NOMEM, parser'\<lparr>jp_pos := start\<rparr>, Some toks')
                | Some (Some t, parser', toks') \<Rightarrow>
                    (case modify (jsmn_fill_token JSMN_PRIMITIVE (int start) (int pos)) (int t) toks' of
                       None \<Rightarrow> None
                     | Some toks'' \<Rightarrow> Some (0, parser'\<lparr>jp_pos := pos - 1\<rparr>, Some toks'')))))"

subsection \<open>Strings\<close>

definition is_hex :: "u8 \<Rightarrow> bool" where
  "is_hex c \<longleftrightarrow> 48 \<le> c \<and> c \<le> 57 \<or> 65 \<le> c \<and> c \<le> 70 \<or> 97 \<le> c \<and> c \<le> 102"

text \<open>The loop over the digits of an escape, \<open>n\<close> of which are left; \<open>None\<close> is an invalid digit.\<close>

fun hex_scan :: "u8 list \<Rightarrow> nat \<Rightarrow> nat \<Rightarrow> nat \<Rightarrow> nat option option" where
  "hex_scan js len 0 pos = Some (Some pos)"
| "hex_scan js len (Suc n) pos =
     (if pos < len then
        (case at js pos of
           None \<Rightarrow> None
         | Some c \<Rightarrow>
             if c = 0 then Some (Some pos)
             else if is_hex c then hex_scan js len n (Suc pos)
             else Some None)
      else Some (Some pos))"

lemma hex_scan_le: "hex_scan js len n pos = Some (Some pos') \<Longrightarrow> pos \<le> pos'"
  by (induction n arbitrary: pos) (force split: if_splits option.splits)+

text \<open>The scan of \<^verbatim>\<open>jsmn_parse_string\<close>.\<close>

datatype string_result = Str_end nat | Str_inval | Str_part

definition is_escape :: "u8 \<Rightarrow> bool" where
  "is_escape c \<longleftrightarrow> c \<in> {0x22, 0x2F, 0x5C, 0x62, 0x66, 0x72, 0x6E, 0x74}"

function string_scan :: "u8 list \<Rightarrow> nat \<Rightarrow> nat \<Rightarrow> string_result option" where
  "string_scan js len pos =
     (if pos < len then
        (case at js pos of
           None \<Rightarrow> None
         | Some c \<Rightarrow>
             if c = 0 then Some Str_part
             else if c = 0x22 then Some (Str_end pos)
             else if c = 0x5C \<and> Suc pos < len then
               (case at js (Suc pos) of
                  None \<Rightarrow> None
                | Some e \<Rightarrow>
                    if is_escape e then string_scan js len (pos + 2)
                    else if e = 0x75 then
                      (case hex_scan js len 4 (pos + 2) of
                         None \<Rightarrow> None
                       | Some None \<Rightarrow> Some Str_inval
                       | Some (Some pos') \<Rightarrow> string_scan js len pos')
                    else Some Str_inval)
             else string_scan js len (Suc pos))
      else Some Str_part)"
  by auto
termination
  by (relation "measure (\<lambda>(js, len, pos). len - pos)") (auto dest: hex_scan_le)

declare string_scan.simps [simp del]

definition jsmn_parse_string ::
  "jsmn_parser \<Rightarrow> u8 list \<Rightarrow> nat \<Rightarrow> jsmntok_t list option \<Rightarrow> nat
     \<Rightarrow> (int \<times> jsmn_parser \<times> jsmntok_t list option) option" where
  "jsmn_parse_string parser js len tokens num_tokens =
     (let start = jp_pos parser in
      case string_scan js len (Suc start) of
        None \<Rightarrow> None
      | Some Str_inval \<Rightarrow> Some (JSMN_ERROR_INVAL, parser\<lparr>jp_pos := start\<rparr>, tokens)
      | Some Str_part \<Rightarrow> Some (JSMN_ERROR_PART, parser\<lparr>jp_pos := start\<rparr>, tokens)
      | Some (Str_end pos) \<Rightarrow>
          (case tokens of
             None \<Rightarrow> Some (0, parser\<lparr>jp_pos := pos\<rparr>, None)
           | Some toks \<Rightarrow>
               (case jsmn_alloc_token (parser\<lparr>jp_pos := pos\<rparr>) toks num_tokens of
                  None \<Rightarrow> None
                | Some (None, parser', toks') \<Rightarrow>
                    Some (JSMN_ERROR_NOMEM, parser'\<lparr>jp_pos := start\<rparr>, Some toks')
                | Some (Some t, parser', toks') \<Rightarrow>
                    (case modify (jsmn_fill_token JSMN_STRING (int start + 1) (int pos)) (int t) toks' of
                       None \<Rightarrow> None
                     | Some toks'' \<Rightarrow> Some (0, parser', Some toks'')))))"

subsection \<open>The main loop\<close>

text \<open>
  The backward search for the last open token below an index that satisfies \<open>P\<close>: the index
  found, or \<open>None\<close> for the loop variable at \<open>-1\<close>.
\<close>

fun find_back :: "(jsmntok_t \<Rightarrow> bool) \<Rightarrow> jsmntok_t list \<Rightarrow> nat \<Rightarrow> nat option option" where
  "find_back P toks 0 = Some None"
| "find_back P toks (Suc i) =
     (case at toks i of
        None \<Rightarrow> None
      | Some t \<Rightarrow> if P t then Some (Some i) else find_back P toks i)"

definition is_container :: "jsmntok_t \<Rightarrow> bool" where
  "is_container t \<longleftrightarrow> tk_type t = JSMN_ARRAY \<or> tk_type t = JSMN_OBJECT"

text \<open>\<^verbatim>\<open>if (toksuper != -1) tokens[toksuper].size++\<close>\<close>

definition count_child :: "jsmn_parser \<Rightarrow> jsmntok_t list \<Rightarrow> jsmntok_t list option" where
  "count_child parser toks =
     (if jp_toksuper parser \<noteq> -1
      then modify (\<lambda>t. t\<lparr>tk_size := tk_size t + 1\<rparr>) (jp_toksuper parser) toks else Some toks)"

text \<open>One character: the function returns, or the loop goes on with a new count.\<close>

datatype jsmn_step =
    Stop int jsmn_parser "jsmntok_t list option"
  | Go jsmn_parser "jsmntok_t list option" int

definition open_container ::
  "u8 \<Rightarrow> jsmn_parser \<Rightarrow> jsmntok_t list option \<Rightarrow> nat \<Rightarrow> int \<Rightarrow> jsmn_step option" where
  "open_container c parser tokens num_tokens count =
     (case tokens of
        None \<Rightarrow> Some (Go parser None (count + 1))
      | Some toks \<Rightarrow>
          (case jsmn_alloc_token parser toks num_tokens of
             None \<Rightarrow> None
           | Some (None, parser1, toks1) \<Rightarrow> Some (Stop JSMN_ERROR_NOMEM parser1 (Some toks1))
           | Some (Some token, parser1, toks1) \<Rightarrow>
               (case count_child parser1 toks1 of
                  None \<Rightarrow> None
                | Some toks2 \<Rightarrow>
                    (case modify (\<lambda>t. t\<lparr>tk_type := (if c = 0x7B then JSMN_OBJECT else JSMN_ARRAY),
                                     tk_start := int (jp_pos parser1)\<rparr>) (int token) toks2 of
                       None \<Rightarrow> None
                     | Some toks3 \<Rightarrow>
                         Some (Go (parser1\<lparr>jp_toksuper := int (jp_toknext parser1) - 1\<rparr>) (Some toks3)
                                 (count + 1))))))"

definition close_container ::
  "u8 \<Rightarrow> jsmn_parser \<Rightarrow> jsmntok_t list option \<Rightarrow> int \<Rightarrow> jsmn_step option" where
  "close_container c parser tokens count =
     (case tokens of
        None \<Rightarrow> Some (Go parser None count)
      | Some toks \<Rightarrow>
          (case find_back is_open toks (jp_toknext parser) of
             None \<Rightarrow> None
           | Some None \<Rightarrow> Some (Stop JSMN_ERROR_INVAL parser tokens)
           | Some (Some i) \<Rightarrow>
               (if tk_type (toks ! i) \<noteq> (if c = 0x7D then JSMN_OBJECT else JSMN_ARRAY)
                then Some (Stop JSMN_ERROR_INVAL parser tokens)
                else
                  (case modify (\<lambda>t. t\<lparr>tk_end := int (jp_pos parser) + 1\<rparr>) (int i) toks of
                     None \<Rightarrow> None
                   | Some toks1 \<Rightarrow>
                       (case find_back is_open toks1 (Suc i) of
                          None \<Rightarrow> None
                        | Some None \<Rightarrow> Some (Go (parser\<lparr>jp_toksuper := -1\<rparr>) (Some toks1) count)
                        | Some (Some j) \<Rightarrow>
                            Some (Go (parser\<lparr>jp_toksuper := int j\<rparr>) (Some toks1) count))))))"

definition comma :: "jsmn_parser \<Rightarrow> jsmntok_t list option \<Rightarrow> int \<Rightarrow> jsmn_step option" where
  "comma parser tokens count =
     (case tokens of
        None \<Rightarrow> Some (Go parser None count)
      | Some toks \<Rightarrow>
          if jp_toksuper parser = -1 then Some (Go parser tokens count)
          else if jp_toksuper parser < 0 then None
          else
            (case at toks (nat (jp_toksuper parser)) of
               None \<Rightarrow> None
             | Some t \<Rightarrow>
                 if is_container t then Some (Go parser tokens count)
                 else
                   (case find_back (\<lambda>t. is_container t \<and> is_open t) toks (jp_toknext parser) of
                      None \<Rightarrow> None
                    | Some None \<Rightarrow> Some (Go parser tokens count)
                    | Some (Some i) \<Rightarrow> Some (Go (parser\<lparr>jp_toksuper := int i\<rparr>) tokens count))))"

text \<open>After a string or a primitive: return its error, or count it.\<close>

definition after_value ::
  "(int \<times> jsmn_parser \<times> jsmntok_t list option) option \<Rightarrow> int \<Rightarrow> jsmn_step option" where
  "after_value res count =
     (case res of
        None \<Rightarrow> None
      | Some (r, parser, tokens) \<Rightarrow>
          if r < 0 then Some (Stop r parser tokens)
          else
            (case tokens of
               None \<Rightarrow> Some (Go parser None (count + 1))
             | Some toks \<Rightarrow>
                 (case count_child parser toks of
                    None \<Rightarrow> None
                  | Some toks1 \<Rightarrow> Some (Go parser (Some toks1) (count + 1)))))"

definition jsmn_char ::
  "u8 \<Rightarrow> jsmn_parser \<Rightarrow> u8 list \<Rightarrow> nat \<Rightarrow> jsmntok_t list option \<Rightarrow> nat \<Rightarrow> int \<Rightarrow> jsmn_step option" where
  "jsmn_char c parser js len tokens num_tokens count =
     (if c = 0x7B \<or> c = 0x5B then open_container c parser tokens num_tokens count
      else if c = 0x7D \<or> c = 0x5D then close_container c parser tokens count
      else if c = 0x22 then after_value (jsmn_parse_string parser js len tokens num_tokens) count
      else if c = 9 \<or> c = 13 \<or> c = 10 \<or> c = 32 then Some (Go parser tokens count)
      else if c = 0x3A then
        Some (Go (parser\<lparr>jp_toksuper := int (jp_toknext parser) - 1\<rparr>) tokens count)
      else if c = 0x2C then comma parser tokens count
      else after_value (jsmn_parse_primitive parser js len tokens num_tokens) count)"

text \<open>No character moves the position back, which is why the loop ends.\<close>

lemma primitive_scan_le: "primitive_scan js len pos = Some (Some pos') \<Longrightarrow> pos \<le> pos'"
  by (induction js len pos rule: primitive_scan.induct)
     (subst (asm) (2) primitive_scan.simps, force split: if_splits option.splits)

lemma primitive_scan_less:
  assumes "primitive_scan js len pos = Some (Some pos')" "pos < len" "at js pos = Some c"
    and "c \<noteq> 0" "\<not> ends_primitive c"
  shows "pos < pos'"
  using assms primitive_scan_le [of js len "Suc pos" pos']
  by (subst (asm) primitive_scan.simps) (auto split: if_splits)

lemma string_scan_le: "string_scan js len pos = Some (Str_end pos') \<Longrightarrow> pos \<le> pos'"
proof (induction js len pos rule: string_scan.induct)
  case (1 js len pos)
  show ?case using 1(4) 1(1-3)
    by (subst (asm) string_scan.simps) (force split: if_splits option.splits dest: hex_scan_le)
qed

lemma alloc_token_parser:
  "jsmn_alloc_token p toks num = Some (i, p', toks') \<Longrightarrow>
     jp_pos p' = jp_pos p \<and> jp_toksuper p' = jp_toksuper p \<and>
     jp_toknext p' = (if i = None then jp_toknext p else Suc (jp_toknext p))"
  by (auto simp: jsmn_alloc_token_def split: if_splits option.splits)

lemma jsmn_char_pos:
  assumes "jsmn_char c p js len tokens num count = Some (Go p' tokens' count')"
    and "jp_pos p < len" "at js (jp_pos p) = Some c" "c \<noteq> 0"
  shows "jp_pos p \<le> jp_pos p'"
proof -
  consider "c = 0x7B \<or> c = 0x5B" | "c = 0x7D \<or> c = 0x5D" | "c = 0x22"
    | "c = 9 \<or> c = 13 \<or> c = 10 \<or> c = 32" | "c = 0x3A" | "c = 0x2C"
    | "\<not> ends_primitive c" "c \<notin> {0x7B, 0x5B, 0x22}"
    by (auto simp: ends_primitive_def)
  then show ?thesis
  proof cases
    case 1
    then show ?thesis using assms(1)
      by (auto simp: jsmn_char_def open_container_def dest!: alloc_token_parser
          split: option.splits prod.splits)
  next
    case 2
    then show ?thesis using assms(1)
      by (auto simp: jsmn_char_def close_container_def split: option.splits if_splits)
  next
    case 3
    then show ?thesis using assms(1)
      by (auto simp: jsmn_char_def after_value_def jsmn_parse_string_def Let_def
          dest!: alloc_token_parser dest: string_scan_le
          split: option.splits prod.splits if_splits string_result.splits)
  next
    case 7
    then have "jsmn_char c p js len tokens num count =
        after_value (jsmn_parse_primitive p js len tokens num) count"
      by (auto simp: jsmn_char_def ends_primitive_def)
    then show ?thesis using assms primitive_scan_less [OF _ assms(2,3,4) 7(1)]
      by (fastforce simp: after_value_def jsmn_parse_primitive_def Let_def
          split: option.splits prod.splits if_splits)
  qed (use assms(1) in \<open>auto simp: jsmn_char_def comma_def split: option.splits if_splits\<close>)
qed

text \<open>The loop over the text.\<close>

function jsmn_loop ::
  "jsmn_parser \<Rightarrow> u8 list \<Rightarrow> nat \<Rightarrow> jsmntok_t list option \<Rightarrow> nat \<Rightarrow> int
     \<Rightarrow> jsmn_step option" where
  "jsmn_loop parser js len tokens num_tokens count =
     (if jp_pos parser < len then
        (case at js (jp_pos parser) of
           None \<Rightarrow> None
         | Some c \<Rightarrow>
             if c = 0 then Some (Go parser tokens count)
             else
               (case jsmn_char c parser js len tokens num_tokens count of
                  None \<Rightarrow> None
                | Some (Stop r parser' tokens') \<Rightarrow> Some (Stop r parser' tokens')
                | Some (Go parser' tokens' count') \<Rightarrow>
                    jsmn_loop (parser'\<lparr>jp_pos := Suc (jp_pos parser')\<rparr>) js len tokens' num_tokens count'))
      else Some (Go parser tokens count))"
  by pat_completeness auto
termination
  by (relation "measure (\<lambda>(parser, js, len, tokens, n, count). len - jp_pos parser)")
     (auto dest: jsmn_char_pos)

declare jsmn_loop.simps [simp del]

definition jsmn_parse ::
  "jsmn_parser \<Rightarrow> u8 list \<Rightarrow> nat \<Rightarrow> jsmntok_t list option \<Rightarrow> nat
     \<Rightarrow> (int \<times> jsmn_parser \<times> jsmntok_t list option) option" where
  "jsmn_parse parser js len tokens num_tokens =
     (case jsmn_loop parser js len tokens num_tokens (int (jp_toknext parser)) of
        None \<Rightarrow> None
      | Some (Stop r parser' tokens') \<Rightarrow> Some (r, parser', tokens')
      | Some (Go parser' tokens' count) \<Rightarrow>
          (case tokens' of
             None \<Rightarrow> Some (count, parser', None)
           | Some toks \<Rightarrow>
               (case find_back is_open toks (jp_toknext parser') of
                  None \<Rightarrow> None
                | Some (Some i) \<Rightarrow> Some (JSMN_ERROR_PART, parser', tokens')
                | Some None \<Rightarrow> Some (count, parser', tokens'))))"

subsection \<open>No fault\<close>

text \<open>A token is a range of the text before \<open>b\<close>; only containers are still open.\<close>

definition tok_ok :: "nat \<Rightarrow> jsmntok_t \<Rightarrow> bool" where
  "tok_ok b t \<longleftrightarrow> 0 \<le> tk_start t \<and>
     (if tk_end t = -1 then is_container t \<and> tk_start t < int b
      else tk_start t \<le> tk_end t \<and> tk_end t \<le> int b)"

lemma tok_ok_mono: "tok_ok b t \<Longrightarrow> b \<le> b' \<Longrightarrow> tok_ok b' t"
  by (auto simp: tok_ok_def split: if_splits)

definition parser_ok :: "nat \<Rightarrow> nat \<Rightarrow> nat \<Rightarrow> jsmn_parser \<Rightarrow> jsmntok_t list \<Rightarrow> bool" where
  "parser_ok len num b p toks \<longleftrightarrow>
     jp_pos p \<le> len \<and> jp_toknext p \<le> num \<and> num \<le> length toks \<and>
     -1 \<le> jp_toksuper p \<and> jp_toksuper p < int (jp_toknext p) \<and>
     (\<forall>i<jp_toknext p. tok_ok b (toks ! i))"

lemma tok_ok_size [simp]: "tok_ok b (t\<lparr>tk_size := n\<rparr>) = tok_ok b t"
  by (simp add: tok_ok_def is_container_def)

lemma parser_ok_mono: "parser_ok len num b p toks \<Longrightarrow> b \<le> b' \<Longrightarrow> parser_ok len num b' p toks"
  by (auto simp: parser_ok_def intro: tok_ok_mono)

lemma modify_ok: "0 \<le> i \<Longrightarrow> nat i < length toks \<Longrightarrow> modify f i toks = Some (toks[nat i := f (toks ! nat i)])"
  by (simp add: modify_def)

lemma find_back_ok:
  "n \<le> length toks \<Longrightarrow> (find_back P toks n = Some None \<and> (\<forall>i<n. \<not> P (toks ! i))) \<or>
     (\<exists>i<n. find_back P toks n = Some (Some i) \<and> P (toks ! i) \<and> (\<forall>j. i < j \<and> j < n \<longrightarrow> \<not> P (toks ! j)))"
proof (induction n)
  case (Suc n)
  then show ?case by (cases "P (toks ! n)") (auto simp: at_def less_Suc_eq)
qed simp

lemma count_child_ok:
  assumes "parser_ok len num b p toks"
  shows "\<exists>toks'. count_child p toks = Some toks' \<and> length toks' = length toks \<and> parser_ok len num b p toks' \<and>
    (\<forall>i. tk_start (toks' ! i) = tk_start (toks ! i) \<and> tk_end (toks' ! i) = tk_end (toks ! i) \<and>
         tk_type (toks' ! i) = tk_type (toks ! i))"
  using assms by (cases "jp_toksuper p = -1")
     (auto simp: count_child_def modify_def parser_ok_def nth_list_update)

lemma alloc_token_ok:
  assumes "parser_ok len num b p toks"
  shows "(jp_toknext p = num \<and> jsmn_alloc_token p toks num = Some (None, p, toks)) \<or>
    (jp_toknext p < num \<and> jsmn_alloc_token p toks num =
       Some (Some (jp_toknext p), p\<lparr>jp_toknext := Suc (jp_toknext p)\<rparr>,
         toks[jp_toknext p := (toks ! jp_toknext p)\<lparr>tk_start := -1, tk_end := -1, tk_size := 0\<rparr>]))"
  using assms by (auto simp: jsmn_alloc_token_def parser_ok_def modify_def)

lemma primitive_scan_ok:
  assumes "len \<le> length js" "pos \<le> len"
  shows "primitive_scan js len pos = Some None \<or>
    (\<exists>pos'\<le>len. primitive_scan js len pos = Some (Some pos'))"
  using assms
proof (induction js len pos rule: primitive_scan.induct)
  case (1 js len pos)
  then show ?case
    by (subst (1 2) primitive_scan.simps) (auto simp: at_def)
qed

lemma hex_scan_ok:
  assumes "len \<le> length js" "pos \<le> len"
  shows "hex_scan js len n pos = Some None \<or> (\<exists>pos'\<le>len. hex_scan js len n pos = Some (Some pos'))"
  using assms by (induction n arbitrary: pos) (auto simp: at_def)

lemma string_scan_ok:
  assumes "len \<le> length js"
  shows "string_scan js len pos \<in> {Some Str_inval, Some Str_part} \<or>
    (\<exists>pos'<len. string_scan js len pos = Some (Str_end pos'))"
  using assms
proof (induction js len pos rule: string_scan.induct)
  case (1 js len pos)
  show ?case
  proof (cases "pos < len \<and> js ! pos = 0x5C \<and> Suc pos < len \<and> js ! Suc pos = 0x75")
    case True
    then have e: "at js pos = Some 0x5C" "at js (Suc pos) = Some 0x75" "pos + 2 \<le> len"
      using 1(4) by (auto simp: at_def)
    then show ?thesis using hex_scan_ok [OF 1(4) e(3), of 4] True 1
      by (subst (1 2) string_scan.simps) (auto simp: is_escape_def, blast)
  next
    case False
    then show ?thesis using 1
      by (subst (1 2) string_scan.simps) (auto simp: at_def)
  qed
qed

text \<open>What a value scan leaves behind.\<close>

definition value_ok ::
  "nat \<Rightarrow> nat \<Rightarrow> jsmn_parser \<Rightarrow> jsmntok_t list
     \<Rightarrow> (int \<times> jsmn_parser \<times> jsmntok_t list option) option \<Rightarrow> bool" where
  "value_ok len num p toks res \<longleftrightarrow>
     (\<exists>r p' toks'. res = Some (r, p', Some toks') \<and> length toks' = length toks \<and>
        (r = 0 \<and> jp_pos p' < len \<and> jp_toknext p' = Suc (jp_toknext p) \<and>
           parser_ok len num (Suc (jp_pos p')) p' toks' \<or>
         r \<in> {JSMN_ERROR_NOMEM, JSMN_ERROR_INVAL, JSMN_ERROR_PART} \<and> parser_ok len num len p' toks' \<and>
           (r = JSMN_ERROR_NOMEM \<longrightarrow> jp_toknext p = num)))"

lemma parser_ok_new_token:
  assumes "parser_ok len num b p toks" "jp_toknext p < num" "tok_ok b' t" "b \<le> b'" "pos \<le> len"
  shows "parser_ok len num b' (p\<lparr>jp_pos := pos, jp_toknext := Suc (jp_toknext p)\<rparr>) (toks[jp_toknext p := t])"
  using assms by (auto simp: parser_ok_def less_Suc_eq nth_list_update intro: tok_ok_mono)

lemma parser_ok_len:
  assumes "parser_ok len num (jp_pos p) p toks"
  shows "parser_ok len num len p toks"
proof (rule parser_ok_mono [OF assms])
  show "jp_pos p \<le> len" using assms by (simp add: parser_ok_def)
qed

lemma parse_primitive_ok:
  assumes ok: "parser_ok len num (jp_pos p) p toks" and len: "len \<le> length js" "jp_pos p < len"
    and c: "at js (jp_pos p) = Some c" "c \<noteq> 0" "\<not> ends_primitive c"
  shows "value_ok len num p toks (jsmn_parse_primitive p js len (Some toks) num)"
proof -
  consider "primitive_scan js len (jp_pos p) = Some None"
    | pos where "primitive_scan js len (jp_pos p) = Some (Some pos)" "jp_pos p < pos" "pos \<le> len"
    using primitive_scan_ok [OF len(1)] primitive_scan_less [OF _ len(2) c] len(2)
    by (metis less_imp_le option.inject)
  then show ?thesis
  proof cases
    case 1
    then show ?thesis using parser_ok_len [OF ok]
      by (auto simp: value_ok_def jsmn_parse_primitive_def jsmn_errors)
  next
    case 2
    let ?t = "jsmn_fill_token JSMN_PRIMITIVE (int (jp_pos p)) (int pos)
        ((toks ! jp_toknext p)\<lparr>tk_start := -1, tk_end := -1, tk_size := 0\<rparr>)"
    have t: "tok_ok (Suc (pos - 1)) ?t" using 2 by (simp add: tok_ok_def jsmn_fill_token_def)
    have ok': "parser_ok len num (jp_pos p) (p\<lparr>jp_pos := pos\<rparr>) toks" using ok 2 by (simp add: parser_ok_def)
    show ?thesis
    proof (cases "jp_toknext p = num")
      case True
      then show ?thesis using alloc_token_ok [OF ok'] 2(1) parser_ok_len [OF ok]
        by (auto simp: value_ok_def jsmn_parse_primitive_def parser_ok_def)
    next
      case False
      then have n: "jp_toknext p < num" "jp_toknext p < length toks" using ok by (auto simp: parser_ok_def)
      then have "jsmn_parse_primitive p js len (Some toks) num =
          Some (0, p\<lparr>jp_pos := pos - 1, jp_toknext := Suc (jp_toknext p)\<rparr>, Some (toks[jp_toknext p := ?t]))"
        using alloc_token_ok [OF ok'] 2(1)
        by (auto simp: jsmn_parse_primitive_def modify_ok)
      moreover have "parser_ok len num (Suc (pos - 1)) (p\<lparr>jp_pos := pos - 1, jp_toknext := Suc (jp_toknext p)\<rparr>)
          (toks[jp_toknext p := ?t])"
        using 2 by (intro parser_ok_new_token [OF ok n(1) t]) auto
      ultimately show ?thesis using 2 by (auto simp: value_ok_def)
    qed
  qed
qed

lemma parse_string_ok:
  assumes ok: "parser_ok len num (jp_pos p) p toks" and len: "len \<le> length js" "jp_pos p < len"
  shows "value_ok len num p toks (jsmn_parse_string p js len (Some toks) num)"
proof -
  consider "string_scan js len (Suc (jp_pos p)) = Some Str_inval"
    | "string_scan js len (Suc (jp_pos p)) = Some Str_part"
    | pos where "string_scan js len (Suc (jp_pos p)) = Some (Str_end pos)" "jp_pos p < pos" "pos < len"
    using string_scan_ok [OF len(1), of "Suc (jp_pos p)"] string_scan_le [of js len "Suc (jp_pos p)"]
    by (auto simp: Suc_le_eq)
  then show ?thesis
  proof cases
    case 3
    let ?t = "jsmn_fill_token JSMN_STRING (int (jp_pos p) + 1) (int pos)
        ((toks ! jp_toknext p)\<lparr>tk_start := -1, tk_end := -1, tk_size := 0\<rparr>)"
    have t: "tok_ok (Suc pos) ?t" using 3 by (simp add: tok_ok_def jsmn_fill_token_def)
    have ok': "parser_ok len num (jp_pos p) (p\<lparr>jp_pos := pos\<rparr>) toks" using ok 3 by (simp add: parser_ok_def)
    show ?thesis
    proof (cases "jp_toknext p = num")
      case True
      then show ?thesis using alloc_token_ok [OF ok'] 3(1) parser_ok_len [OF ok]
        by (auto simp: value_ok_def jsmn_parse_string_def parser_ok_def)
    next
      case False
      then have n: "jp_toknext p < num" "jp_toknext p < length toks" using ok by (auto simp: parser_ok_def)
      then have "jsmn_parse_string p js len (Some toks) num =
          Some (0, p\<lparr>jp_pos := pos, jp_toknext := Suc (jp_toknext p)\<rparr>, Some (toks[jp_toknext p := ?t]))"
        using alloc_token_ok [OF ok'] 3(1)
        by (auto simp: jsmn_parse_string_def modify_ok)
      moreover have "parser_ok len num (Suc pos) (p\<lparr>jp_pos := pos, jp_toknext := Suc (jp_toknext p)\<rparr>)
          (toks[jp_toknext p := ?t])"
        using 3 by (intro parser_ok_new_token [OF ok n(1) t]) auto
      ultimately show ?thesis using 3 by (auto simp: value_ok_def)
    qed
  qed (use parser_ok_len [OF ok] in \<open>auto simp: value_ok_def jsmn_parse_string_def jsmn_errors\<close>)
qed

text \<open>What one character leaves behind.\<close>

definition step_ok ::
  "nat \<Rightarrow> nat \<Rightarrow> jsmn_parser \<Rightarrow> jsmntok_t list \<Rightarrow> int \<Rightarrow> jsmn_step option \<Rightarrow> bool" where
  "step_ok len num p toks count st \<longleftrightarrow>
     (\<exists>r p' toks'. st = Some (Stop r p' (Some toks')) \<and> length toks' = length toks \<and>
        parser_ok len num len p' toks' \<and> r \<in> {JSMN_ERROR_NOMEM, JSMN_ERROR_INVAL, JSMN_ERROR_PART} \<and>
        (r = JSMN_ERROR_NOMEM \<longrightarrow> jp_toknext p = num)) \<or>
     (\<exists>p' toks' count'. st = Some (Go p' (Some toks') count') \<and> length toks' = length toks \<and>
        parser_ok len num (Suc (jp_pos p')) p' toks' \<and> jp_pos p' < len \<and>
        count' - count = int (jp_toknext p') - int (jp_toknext p))"

lemma parser_ok_super:
  "parser_ok len num b p toks \<Longrightarrow> -1 \<le> i \<Longrightarrow> i < int (jp_toknext p) \<Longrightarrow>
     parser_ok len num b (p\<lparr>jp_toksuper := i\<rparr>) toks"
  by (simp add: parser_ok_def)

lemma after_value_ok:
  assumes "value_ok len num p toks res"
  shows "step_ok len num p toks count (after_value res count)"
proof -
  obtain r p' toks' where res: "res = Some (r, p', Some toks')" and l: "length toks' = length toks"
    and v: "r = 0 \<and> jp_pos p' < len \<and> jp_toknext p' = Suc (jp_toknext p) \<and>
         parser_ok len num (Suc (jp_pos p')) p' toks' \<or>
       r \<in> {JSMN_ERROR_NOMEM, JSMN_ERROR_INVAL, JSMN_ERROR_PART} \<and> parser_ok len num len p' toks' \<and>
         (r = JSMN_ERROR_NOMEM \<longrightarrow> jp_toknext p = num)"
    using assms unfolding value_ok_def by blast
  show ?thesis
  proof (cases "r = 0")
    case True
    then have v': "jp_pos p' < len" "jp_toknext p' = Suc (jp_toknext p)"
        "parser_ok len num (Suc (jp_pos p')) p' toks'"
      using v by (auto simp: jsmn_errors)
    then obtain toks'' where "count_child p' toks' = Some toks''" "length toks'' = length toks'"
      "parser_ok len num (Suc (jp_pos p')) p' toks''" using count_child_ok by blast
    then show ?thesis using v' res l True by (auto simp: after_value_def step_ok_def)
  next
    case False
    then show ?thesis using v res l by (auto simp: after_value_def step_ok_def jsmn_errors)
  qed
qed

lemma open_container_ok:
  assumes ok: "parser_ok len num (jp_pos p) p toks" and "jp_pos p < len"
  shows "step_ok len num p toks count (open_container c p (Some toks) num count)"
proof (cases "jp_toknext p = num")
  case True
  then show ?thesis using alloc_token_ok [OF ok] parser_ok_len [OF ok]
    by (auto simp: step_ok_def open_container_def)
next
  case False
  let ?n = "jp_toknext p"
  let ?p1 = "p\<lparr>jp_toknext := Suc ?n\<rparr>"
  let ?t1 = "toks[?n := (toks ! ?n)\<lparr>tk_start := -1, tk_end := -1, tk_size := 0\<rparr>]"
  have n: "?n < num" "?n < length toks" using ok False by (auto simp: parser_ok_def)
  have al: "jsmn_alloc_token p toks num = Some (Some ?n, ?p1, ?t1)"
    using alloc_token_ok [OF ok] False by auto
  have super: "jp_toksuper p = -1 \<or> 0 \<le> jp_toksuper p \<and> nat (jp_toksuper p) < ?n"
    using ok by (auto simp: parser_ok_def)
  define t2 where "t2 = (if jp_toksuper p = -1 then ?t1
      else ?t1[nat (jp_toksuper p) := (?t1 ! nat (jp_toksuper p))\<lparr>tk_size := tk_size (?t1 ! nat (jp_toksuper p)) + 1\<rparr>])"
  have cc: "count_child ?p1 ?t1 = Some t2"
    using super n by (auto simp: count_child_def modify_def t2_def)
  have t2: "length t2 = length toks" "t2 ! ?n = (toks ! ?n)\<lparr>tk_start := -1, tk_end := -1, tk_size := 0\<rparr>"
    using super n by (auto simp: t2_def)
  have old: "tok_ok (Suc (jp_pos p)) (t2 ! i)" if "i < ?n" for i
  proof -
    have "tok_ok (Suc (jp_pos p)) (toks ! i)"
      using ok that by (auto simp: parser_ok_def intro: tok_ok_mono)
    moreover have "t2 ! i = toks ! i \<or> t2 ! i = (toks ! i)\<lparr>tk_size := tk_size (toks ! i) + 1\<rparr>"
      using that super n by (cases "nat (jp_toksuper p) = i") (auto simp: t2_def)
    ultimately show ?thesis by auto
  qed
  let ?new = "(toks ! ?n)\<lparr>tk_end := -1, tk_size := 0,
      tk_type := (if c = 0x7B then JSMN_OBJECT else JSMN_ARRAY), tk_start := int (jp_pos p)\<rparr>"
  have "open_container c p (Some toks) num count =
      Some (Go (?p1\<lparr>jp_toksuper := int ?n\<rparr>) (Some (t2[?n := ?new])) (count + 1))"
    using n t2 by (simp add: open_container_def al cc modify_ok)
  moreover have "tok_ok (Suc (jp_pos p)) ?new" by (simp add: tok_ok_def is_container_def)
  then have "parser_ok len num (Suc (jp_pos p)) (?p1\<lparr>jp_toksuper := int ?n\<rparr>) (t2[?n := ?new])"
    using ok n t2 old by (auto simp: parser_ok_def less_Suc_eq nth_list_update)
  ultimately show ?thesis using t2 assms(2) by (auto simp: step_ok_def)
qed

lemma close_container_ok:
  assumes ok: "parser_ok len num (jp_pos p) p toks" and pos: "jp_pos p < len"
  shows "step_ok len num p toks count (close_container c p (Some toks) count)"
proof -
  have n: "jp_toknext p \<le> length toks" using ok by (simp add: parser_ok_def)
  consider "find_back is_open toks (jp_toknext p) = Some None"
    | i where "find_back is_open toks (jp_toknext p) = Some (Some i)" "i < jp_toknext p" "is_open (toks ! i)"
    using find_back_ok [OF n, of is_open] by blast
  then show ?thesis
  proof cases
    case 1
    then show ?thesis using parser_ok_len [OF ok] by (simp add: close_container_def step_ok_def jsmn_errors)
  next
    case (2 i)
    let ?t1 = "toks[i := (toks ! i)\<lparr>tk_end := int (jp_pos p) + 1\<rparr>]"
    have m: "modify (\<lambda>t. t\<lparr>tk_end := int (jp_pos p) + 1\<rparr>) (int i) toks = Some ?t1"
      using 2 n by (simp add: modify_ok)
    have "tok_ok (Suc (jp_pos p)) (?t1 ! j)" if "j < jp_toknext p" for j
    proof -
      have "tok_ok (jp_pos p) (toks ! j)" using ok that by (simp add: parser_ok_def)
      then show ?thesis using 2 n by (auto simp: nth_list_update tok_ok_def is_open_def split: if_splits)
    qed
    then have ok1: "parser_ok len num (Suc (jp_pos p)) p ?t1" using ok by (simp add: parser_ok_def)
    have "Suc i \<le> length ?t1" using 2 n by simp
    from find_back_ok [OF this, of is_open] show ?thesis
      using 2 parser_ok_len [OF ok] ok1 pos m parser_ok_super [OF ok1]
      by (auto simp: close_container_def step_ok_def jsmn_errors)
  qed
qed

lemma comma_ok:
  assumes ok: "parser_ok len num (jp_pos p) p toks" and pos: "jp_pos p < len"
  shows "step_ok len num p toks count (comma p (Some toks) count)"
proof -
  have n: "jp_toknext p \<le> length toks" using ok by (simp add: parser_ok_def)
  have ok': "parser_ok len num (Suc (jp_pos p)) p toks" using ok by (rule parser_ok_mono) simp
  have "jp_toksuper p = -1 \<or> 0 \<le> jp_toksuper p \<and> nat (jp_toksuper p) < length toks"
    using ok by (auto simp: parser_ok_def)
  then show ?thesis using ok' pos find_back_ok [OF n, of "\<lambda>t. is_container t \<and> is_open t"] parser_ok_super [OF ok']
    by (auto simp: comma_def step_ok_def at_def)
qed

lemma jsmn_char_ok:
  assumes ok: "parser_ok len num (jp_pos p) p toks" and len: "len \<le> length js" "jp_pos p < len"
    and c: "at js (jp_pos p) = Some c" "c \<noteq> 0"
  shows "step_ok len num p toks count (jsmn_char c p js len (Some toks) num count)"
proof -
  have ok': "parser_ok len num (Suc (jp_pos p)) p toks" using ok by (rule parser_ok_mono) simp
  have stay: "step_ok len num p toks count (Some (Go p (Some toks) count))"
    using ok' len(2) by (simp add: step_ok_def)
  have colon: "step_ok len num p toks count
      (Some (Go (p\<lparr>jp_toksuper := int (jp_toknext p) - 1\<rparr>) (Some toks) count))"
    using parser_ok_super [OF ok'] len(2) by (simp add: step_ok_def)
  show ?thesis
  proof (cases "ends_primitive c \<or> c \<in> {0x7B, 0x5B, 0x22}")
    case True
    then show ?thesis
      using open_container_ok [OF ok len(2)] close_container_ok [OF ok len(2)] comma_ok [OF ok len(2)]
        stay colon after_value_ok [OF parse_string_ok [OF ok len]]
      by (auto simp: jsmn_char_def ends_primitive_def)
  next
    case False
    then show ?thesis using after_value_ok [OF parse_primitive_ok [OF ok len c]]
      by (auto simp: jsmn_char_def ends_primitive_def)
  qed
qed

lemma jsmn_loop_ok:
  assumes "parser_ok len num (jp_pos p) p toks" "len \<le> length js"
  shows "(\<exists>r p' toks'. jsmn_loop p js len (Some toks) num count = Some (Stop r p' (Some toks')) \<and>
        length toks' = length toks \<and> parser_ok len num len p' toks' \<and>
        r \<in> {JSMN_ERROR_NOMEM, JSMN_ERROR_INVAL, JSMN_ERROR_PART}) \<or>
     (\<exists>p' toks' count'. jsmn_loop p js len (Some toks) num count = Some (Go p' (Some toks') count') \<and>
        length toks' = length toks \<and> parser_ok len num (jp_pos p') p' toks' \<and>
        count' - count = int (jp_toknext p') - int (jp_toknext p))"
  using assms
proof (induction "len - jp_pos p" arbitrary: p toks count rule: less_induct)
  case less
  show ?case
  proof (cases "jp_pos p < len \<and> js ! jp_pos p \<noteq> 0")
    case False
    then show ?thesis using less.prems
      by (subst (1 2) jsmn_loop.simps) (auto simp: at_def)
  next
    case True
    then have c: "at js (jp_pos p) = Some (js ! jp_pos p)" using less.prems(2) by (simp add: at_def)
    let ?st = "jsmn_char (js ! jp_pos p) p js len (Some toks) num count"
    have unf: "jsmn_loop p js len (Some toks) num count =
        (case ?st of
           None \<Rightarrow> None
         | Some (Stop r parser' tokens') \<Rightarrow> Some (Stop r parser' tokens')
         | Some (Go parser' tokens' count') \<Rightarrow>
             jsmn_loop (parser'\<lparr>jp_pos := Suc (jp_pos parser')\<rparr>) js len tokens' num count')"
      using True c by (subst jsmn_loop.simps) simp
    have "step_ok len num p toks count ?st"
      using True c by (intro jsmn_char_ok less.prems) auto
    then consider r p' toks' where "?st = Some (Stop r p' (Some toks'))" "length toks' = length toks"
        "parser_ok len num len p' toks'" "r \<in> {JSMN_ERROR_NOMEM, JSMN_ERROR_INVAL, JSMN_ERROR_PART}"
      | p' toks' count' where "?st = Some (Go p' (Some toks') count')" "length toks' = length toks"
        "parser_ok len num (Suc (jp_pos p')) p' toks'" "jp_pos p' < len"
        "count' - count = int (jp_toknext p') - int (jp_toknext p)"
      unfolding step_ok_def by blast
    then show ?thesis
    proof cases
      case 1
      then show ?thesis by (simp add: unf)
    next
      case (2 p' toks' count')
      have "jp_pos p \<le> jp_pos p'" using jsmn_char_pos [OF 2(1)] True c by blast
      then have "len - jp_pos (p'\<lparr>jp_pos := Suc (jp_pos p')\<rparr>) < len - jp_pos p" using True by simp arith
      moreover have "parser_ok len num (jp_pos (p'\<lparr>jp_pos := Suc (jp_pos p')\<rparr>)) (p'\<lparr>jp_pos := Suc (jp_pos p')\<rparr>) toks'"
        using 2 by (simp add: parser_ok_def)
      ultimately show ?thesis using less.hyps [of "p'\<lparr>jp_pos := Suc (jp_pos p')\<rparr>" toks' count'] less.prems(2) 2
        by (fastforce simp: unf)
    qed
  qed
qed

lemma init_ok: "num \<le> length toks \<Longrightarrow> parser_ok len num (jp_pos jsmn_init) jsmn_init toks"
  by (simp add: parser_ok_def jsmn_init_def)

text \<open>
  No counter outgrows the text: at most \<open>n\<close> tokens are in use, and each has at most \<open>b\<close>
  children.
\<close>

definition sized :: "nat \<Rightarrow> nat \<Rightarrow> jsmn_parser \<Rightarrow> jsmntok_t list \<Rightarrow> bool" where
  "sized n b p toks \<longleftrightarrow> jp_toknext p \<le> n \<and> (\<forall>i<jp_toknext p. tk_size (toks ! i) \<le> int b)"

definition step_sized :: "nat \<Rightarrow> jsmn_step option \<Rightarrow> bool" where
  "step_sized b st \<longleftrightarrow>
     (\<forall>r p' toks'. st = Some (Stop r p' (Some toks')) \<longrightarrow> sized b b p' toks') \<and>
     (\<forall>p' toks' count'. st = Some (Go p' (Some toks') count') \<longrightarrow> sized b b p' toks')"

lemma sized_mono: "sized n b p toks \<Longrightarrow> n \<le> n' \<Longrightarrow> b \<le> b' \<Longrightarrow> sized n' b' p toks"
  by (fastforce simp: sized_def)

lemma sized_parser [simp]:
  "sized n b (p\<lparr>jp_pos := x\<rparr>) toks = sized n b p toks" "sized n b (p\<lparr>jp_toksuper := i\<rparr>) toks = sized n b p toks"
  by (simp_all add: sized_def)

lemma modify_sized:
  assumes "modify f i toks = Some toks'" "sized n b p toks" "\<And>t. tk_size (f t) = tk_size t \<or> tk_size (f t) = 0"
  shows "sized n b p toks'"
  unfolding sized_def
proof (intro conjI allI impI)
  show "jp_toknext p \<le> n" using assms(2) by (simp add: sized_def)
  fix j assume "j < jp_toknext p"
  then have "tk_size (toks ! j) \<le> int b" using assms(2) by (simp add: sized_def)
  then show "tk_size (toks' ! j) \<le> int b"
    using assms(1) assms(3) [of "toks ! nat i"] by (auto simp: modify_def nth_list_update split: if_splits)
qed

lemma count_child_sized: "count_child p toks = Some toks' \<Longrightarrow> sized n b p toks \<Longrightarrow> sized n (Suc b) p toks'"
  by (fastforce simp: count_child_def modify_def sized_def nth_list_update split: if_splits)

lemma alloc_token_sized:
  "jsmn_alloc_token p toks num = Some (t, p', toks') \<Longrightarrow> sized n b p toks \<Longrightarrow> sized (Suc n) b p' toks'"
  by (auto simp: jsmn_alloc_token_def modify_def sized_def nth_list_update less_Suc_eq
      split: if_splits option.splits)

lemma fill_size [simp]: "tk_size (jsmn_fill_token ty s e t) = 0"
  by (simp add: jsmn_fill_token_def)

lemma open_container_sized:
  assumes "sized b b p toks"
  shows "step_sized (Suc b) (open_container c p (Some toks) num count)"
proof -
  have "sized (Suc b) (Suc b) p' t" if "jsmn_alloc_token p toks num = Some (x, p', t)" for x p' t
    using sized_mono [OF alloc_token_sized [OF that assms]] by simp
  moreover have "sized (Suc b) (Suc b) p' t3"
    if "jsmn_alloc_token p toks num = Some (x, p', t)" "count_child p' t = Some t2" "modify f i t2 = Some t3"
      "\<And>t. tk_size (f t) = tk_size t \<or> tk_size (f t) = 0" for x p' t t2 t3 f i
    using modify_sized [OF that(3) count_child_sized [OF that(2) alloc_token_sized [OF that(1) assms]] that(4)] by simp
  ultimately show ?thesis
    by (auto simp: step_sized_def open_container_def split: option.splits prod.splits)
qed

lemma close_container_sized:
  assumes "sized b b p toks"
  shows "step_sized (Suc b) (close_container c p (Some toks) count)"
proof -
  have s: "sized (Suc b) (Suc b) p toks" by (rule sized_mono [OF assms]) simp_all
  have "sized (Suc b) (Suc b) p t"
    if "modify (\<lambda>t. t\<lparr>tk_end := e\<rparr>) i toks = Some t" for t e i
    by (rule modify_sized [OF that s]) simp
  then show ?thesis using s
    by (auto simp: step_sized_def close_container_def split: option.splits if_splits)
qed

lemma comma_sized: "sized b b p toks \<Longrightarrow> step_sized (Suc b) (comma p (Some toks) count)"
  using sized_mono [of b b p toks "Suc b" "Suc b"]
  by (auto simp: step_sized_def comma_def split: option.splits if_splits)

definition value_sized :: "nat \<Rightarrow> (int \<times> jsmn_parser \<times> jsmntok_t list option) option \<Rightarrow> bool" where
  "value_sized b res \<longleftrightarrow> (\<forall>r p' toks'. res = Some (r, p', Some toks') \<longrightarrow> sized (Suc b) b p' toks')"

lemma parse_primitive_sized:
  assumes "sized b b p toks"
  shows "value_sized b (jsmn_parse_primitive p js len (Some toks) num)"
proof -
  have s: "sized (Suc b) b p toks" by (rule sized_mono [OF assms]) simp_all
  have a: "sized (Suc b) b p' t" if "jsmn_alloc_token (p\<lparr>jp_pos := x\<rparr>) toks num = Some (y, p', t)" for x y p' t
    by (rule alloc_token_sized [OF that]) (simp add: assms)
  have "sized (Suc b) b p' t2"
    if "jsmn_alloc_token (p\<lparr>jp_pos := x\<rparr>) toks num = Some (y, p', t)"
      "modify (jsmn_fill_token ty u v) i t = Some t2" for x y p' t t2 ty u v i
    by (rule modify_sized [OF that(2) a [OF that(1)]]) simp
  then show ?thesis using s a
    by (auto simp: value_sized_def jsmn_parse_primitive_def Let_def split: option.splits prod.splits)
qed

lemma parse_string_sized:
  assumes "sized b b p toks"
  shows "value_sized b (jsmn_parse_string p js len (Some toks) num)"
proof -
  have s: "sized (Suc b) b p toks" by (rule sized_mono [OF assms]) simp_all
  have a: "sized (Suc b) b p' t" if "jsmn_alloc_token (p\<lparr>jp_pos := x\<rparr>) toks num = Some (y, p', t)" for x y p' t
    by (rule alloc_token_sized [OF that]) (simp add: assms)
  have "sized (Suc b) b p' t2"
    if "jsmn_alloc_token (p\<lparr>jp_pos := x\<rparr>) toks num = Some (y, p', t)"
      "modify (jsmn_fill_token ty u v) i t = Some t2" for x y p' t t2 ty u v i
    by (rule modify_sized [OF that(2) a [OF that(1)]]) simp
  then show ?thesis using s a
    by (auto simp: value_sized_def jsmn_parse_string_def Let_def split: option.splits prod.splits string_result.splits)
qed

lemma after_value_sized:
  assumes "value_sized b res"
  shows "step_sized (Suc b) (after_value res count)"
proof -
  have "sized (Suc b) (Suc b) p t" if "res = Some (r, p, Some t)" for r p t
    using assms that by (auto simp: value_sized_def intro: sized_mono)
  moreover have "sized (Suc b) (Suc b) p t'" if "res = Some (r, p, Some t)" "count_child p t = Some t'" for r p t t'
    using assms that count_child_sized [OF that(2)] by (auto simp: value_sized_def)
  ultimately show ?thesis
    by (auto simp: step_sized_def after_value_def split: option.splits prod.splits if_splits)
qed

lemma jsmn_char_sized:
  assumes "sized b b p toks"
  shows "step_sized (Suc b) (jsmn_char c p js len (Some toks) num count)"
proof -
  have "sized (Suc b) (Suc b) p toks" by (rule sized_mono [OF assms]) simp_all
  then have "step_sized (Suc b) (Some (Go p (Some toks) count))"
    "step_sized (Suc b) (Some (Go (p\<lparr>jp_toksuper := i\<rparr>) (Some toks) count))" for i
    by (simp_all add: step_sized_def)
  then show ?thesis
    using open_container_sized [OF assms] close_container_sized [OF assms] comma_sized [OF assms]
      after_value_sized [OF parse_string_sized [OF assms]] after_value_sized [OF parse_primitive_sized [OF assms]]
    by (simp add: jsmn_char_def)
qed

lemma jsmn_loop_sized:
  assumes "sized (jp_pos p) (jp_pos p) p toks" "parser_ok len num (jp_pos p) p toks" "len \<le> length js"
  shows "step_sized len (jsmn_loop p js len (Some toks) num count)"
  using assms
proof (induction "len - jp_pos p" arbitrary: p toks count rule: less_induct)
  case less
  show ?case
  proof (cases "jp_pos p < len \<and> js ! jp_pos p \<noteq> 0")
    case False
    have "sized len len p toks"
      using sized_mono [OF less.prems(1)] less.prems(2) by (simp add: parser_ok_def)
    then show ?thesis using False less.prems(3)
      by (subst jsmn_loop.simps) (auto simp: at_def step_sized_def)
  next
    case True
    then have c: "at js (jp_pos p) = Some (js ! jp_pos p)" using less.prems(3) by (simp add: at_def)
    let ?st = "jsmn_char (js ! jp_pos p) p js len (Some toks) num count"
    have s: "step_sized (Suc (jp_pos p)) ?st" by (rule jsmn_char_sized [OF less.prems(1)])
    have unf: "jsmn_loop p js len (Some toks) num count =
        (case ?st of
           None \<Rightarrow> None
         | Some (Stop r parser' tokens') \<Rightarrow> Some (Stop r parser' tokens')
         | Some (Go parser' tokens' count') \<Rightarrow>
             jsmn_loop (parser'\<lparr>jp_pos := Suc (jp_pos parser')\<rparr>) js len tokens' num count')"
      using True c by (subst jsmn_loop.simps) simp
    have "step_ok len num p toks count ?st"
      using True c by (intro jsmn_char_ok less.prems) auto
    then consider r p' toks' where "?st = Some (Stop r p' (Some toks'))"
      | p' toks' count' where "?st = Some (Go p' (Some toks') count')"
        "parser_ok len num (Suc (jp_pos p')) p' toks'" "jp_pos p' < len"
      unfolding step_ok_def by blast
    then show ?thesis
    proof cases
      case 1
      then show ?thesis using s True by (auto simp: step_sized_def unf intro: sized_mono)
    next
      case (2 p' toks' count')
      let ?p = "p'\<lparr>jp_pos := Suc (jp_pos p')\<rparr>"
      have le: "jp_pos p \<le> jp_pos p'" using jsmn_char_pos [OF 2(1)] True c by blast
      have "sized (Suc (jp_pos p')) (Suc (jp_pos p')) p' toks'"
        using s 2(1) le by (auto simp: step_sized_def intro: sized_mono)
      then have "sized (jp_pos ?p) (jp_pos ?p) ?p toks'" "parser_ok len num (jp_pos ?p) ?p toks'"
        using 2 by (simp_all add: parser_ok_def)
      then show ?thesis using less.hyps [of ?p toks' count'] less.prems(3) 2 le True by (simp add: unf)
    qed
  qed
qed

lemma init_sized: "sized (jp_pos jsmn_init) (jp_pos jsmn_init) jsmn_init toks"
  by (simp add: sized_def jsmn_init_def)

lemma jsmn_parse_ok:
  assumes "len \<le> length js" "num \<le> length toks"
  shows "\<exists>r p toks'. jsmn_parse jsmn_init js len (Some toks) num = Some (r, p, Some toks') \<and>
     length toks' = length toks \<and> jp_pos p \<le> len \<and> jp_toknext p \<le> num \<and> sized len len p toks' \<and>
     (r \<in> {JSMN_ERROR_NOMEM, JSMN_ERROR_INVAL, JSMN_ERROR_PART} \<or>
      r = int (jp_toknext p) \<and>
      (\<forall>i<jp_toknext p. 0 \<le> tk_start (toks' ! i) \<and> tk_start (toks' ! i) \<le> tk_end (toks' ! i) \<and>
         tk_end (toks' ! i) \<le> int len))"
proof -
  let ?l = "jsmn_loop jsmn_init js len (Some toks) num (int (jp_toknext jsmn_init))"
  have z: "step_sized len ?l" by (rule jsmn_loop_sized [OF init_sized init_ok [OF assms(2)] assms(1)])
  consider r p toks' where "?l = Some (Stop r p (Some toks'))" "length toks' = length toks"
      "parser_ok len num len p toks'" "r \<in> {JSMN_ERROR_NOMEM, JSMN_ERROR_INVAL, JSMN_ERROR_PART}"
    | p toks' count where "?l = Some (Go p (Some toks') count)" "length toks' = length toks"
      "parser_ok len num (jp_pos p) p toks'" "count = int (jp_toknext p)"
    using jsmn_loop_ok [OF init_ok [OF assms(2)] assms(1), of "int (jp_toknext jsmn_init)"]
    by (auto simp: jsmn_init_def)
  then show ?thesis
  proof cases
    case 1
    then show ?thesis using z by (auto simp: jsmn_parse_def parser_ok_def step_sized_def)
  next
    case (2 p toks' count)
    have n: "jp_toknext p \<le> length toks'" and ok: "parser_ok len num len p toks'"
      using 2 parser_ok_len by (auto simp: parser_ok_def)
    have z': "sized len len p toks'" using z 2(1) by (simp add: step_sized_def)
    show ?thesis
    proof (cases "\<exists>i<jp_toknext p. is_open (toks' ! i)")
      case True
      then obtain i where "find_back is_open toks' (jp_toknext p) = Some (Some i)"
        using find_back_ok [OF n, of is_open] by blast
      then show ?thesis using 2 ok z' by (simp add: jsmn_parse_def parser_ok_def)
    next
      case False
      then have "find_back is_open toks' (jp_toknext p) = Some None"
        using find_back_ok [OF n, of is_open] by blast
      moreover have "0 \<le> tk_start (toks' ! i) \<and> tk_start (toks' ! i) \<le> tk_end (toks' ! i) \<and>
          tk_end (toks' ! i) \<le> int len" if "i < jp_toknext p" for i
      proof -
        have "tok_ok len (toks' ! i)" "\<not> is_open (toks' ! i)" using ok False that by (auto simp: parser_ok_def)
        then show ?thesis by (auto simp: tok_ok_def is_open_def split: if_splits)
      qed
      ultimately show ?thesis using 2 ok z' by (simp add: jsmn_parse_def parser_ok_def)
    qed
  qed
qed

text \<open>
  C25: The tokenizer is memory safe and its tokens are ranges of the text, for a text shorter than
  2^31 bytes. Such a text, of at least \<open>len\<close> bytes, and a token array of at least \<open>num\<close> entries
  with \<open>num < 2^32\<close> are read by a fresh parser without any access outside the two, and it
  returns; the result is one of the three errors or the number of tokens, which fits the array;
  and after a success every token is closed, with \<open>0 \<le> start \<le> end \<le> len\<close>. In either
  case the position, the number of tokens in use and the children counted for a token are at
  most \<open>len\<close>, so they fit the \<^verbatim>\<open>unsigned int\<close> and \<^verbatim>\<open>int\<close> fields the code keeps them in.
\<close>

theorem jsmn_parse_safe:
  assumes "len \<le> length js" "num \<le> length toks" "len < 2147483648" "num < 4294967296"
  shows "\<exists>r p toks'. jsmn_parse jsmn_init js len (Some toks) num = Some (r, p, Some toks') \<and>
     length toks' = length toks \<and> jp_pos p \<le> len \<and> jp_toknext p \<le> num \<and>
     jp_pos p < 2147483648 \<and> jp_toknext p < 2147483648 \<and>
     (\<forall>i<jp_toknext p. tk_size (toks' ! i) \<le> int len \<and> tk_size (toks' ! i) < 2147483648) \<and>
     (r \<in> {JSMN_ERROR_NOMEM, JSMN_ERROR_INVAL, JSMN_ERROR_PART} \<or>
      r = int (jp_toknext p) \<and>
      (\<forall>i<jp_toknext p. 0 \<le> tk_start (toks' ! i) \<and> tk_start (toks' ! i) \<le> tk_end (toks' ! i) \<and>
         tk_end (toks' ! i) \<le> int len \<and> tk_end (toks' ! i) < 2147483648))"
proof -
  obtain r p toks' where s: "jsmn_parse jsmn_init js len (Some toks) num = Some (r, p, Some toks')"
      "length toks' = length toks" "jp_pos p \<le> len" "jp_toknext p \<le> num" "sized len len p toks'"
    and t: "r \<in> {JSMN_ERROR_NOMEM, JSMN_ERROR_INVAL, JSMN_ERROR_PART} \<or>
      r = int (jp_toknext p) \<and>
      (\<forall>i<jp_toknext p. 0 \<le> tk_start (toks' ! i) \<and> tk_start (toks' ! i) \<le> tk_end (toks' ! i) \<and>
         tk_end (toks' ! i) \<le> int len)"
    using jsmn_parse_ok [OF assms(1,2)] by blast
  have l: "int len < 2147483648" using assms(3) by simp
  show ?thesis
    using s t assms(3) le_less_trans [OF _ l] by (intro exI [of _ r] exI [of _ p] exI [of _ toks']) (auto simp: sized_def)
qed

theorem jsmn_parse_safe_witness:
  "\<exists>r p toks'. jsmn_parse jsmn_init [0x5B, 0x31, 0x2C, 0x32, 0x5D] 5
       (Some (replicate 3 \<lparr>tk_type = JSMN_UNDEFINED, tk_start = 0, tk_end = 0, tk_size = 0\<rparr>)) 3 =
     Some (r, p, Some toks') \<and> length toks' = 3 \<and> jp_toknext p \<le> 3"
  using jsmn_parse_safe [of 5 "[0x5B, 0x31, 0x2C, 0x32, 0x5D]" 3
      "replicate 3 \<lparr>tk_type = JSMN_UNDEFINED, tk_start = 0, tk_end = 0, tk_size = 0\<rparr>"]
  by simp blast

subsection \<open>Counting\<close>

text \<open>
  A counting run (without tokens) and a run with tokens go through the text in step: the
  counting run never fails where the other goes on, and both count the same. Only a missing
  token or an unmatched bracket stops the run with tokens alone.
\<close>

definition in_step :: "int \<Rightarrow> jsmn_step option \<Rightarrow> jsmn_step option \<Rightarrow> bool" where
  "in_step count null full \<longleftrightarrow>
     (\<exists>r p r' p' t'. null = Some (Stop r p None) \<and> r < 0 \<and> full = Some (Stop r' p' t')) \<or>
     (\<exists>p c s. null = Some (Go p None c) \<and> jp_toknext p = 0 \<and> (c = count \<or> c = count + 1) \<and> full = Some s \<and>
        ((\<exists>p' t'. s = Stop JSMN_ERROR_INVAL p' t') \<or>
         (\<exists>p' t'. s = Stop JSMN_ERROR_NOMEM p' t' \<and> c = count + 1) \<or>
         (\<exists>p' t'. s = Go p' t' c \<and> jp_pos p' = jp_pos p)))"

definition s_to :: "int \<Rightarrow> jsmn_step \<Rightarrow> int \<Rightarrow> nat \<Rightarrow> bool" where
  "s_to r s count pos \<longleftrightarrow>
     (\<exists>p t. s = Stop r p t) \<or> (\<exists>p t. s = Go p t count \<and> jp_pos p = pos)"

lemma in_step_go:
  assumes "null = Some (Go q None c)" "jp_toknext q = 0" "full = Some s" "s_to r s c (jp_pos q)"
    and "r = JSMN_ERROR_NOMEM \<and> c = count + 1 \<or> r = JSMN_ERROR_INVAL \<and> c = count"
  shows "in_step count null full"
  using assms unfolding in_step_def s_to_def by blast

lemma parse_primitive_null:
  "jsmn_parse_primitive p js len None num =
    (case primitive_scan js len (jp_pos p) of None \<Rightarrow> None
     | Some None \<Rightarrow> Some (JSMN_ERROR_INVAL, p, None)
     | Some (Some pos) \<Rightarrow> Some (0, p\<lparr>jp_pos := pos - 1\<rparr>, None))"
  by (simp add: jsmn_parse_primitive_def Let_def split: option.split)

lemma parse_primitive_full:
  assumes "jsmn_parse_primitive p js len (Some toks) num = Some (r, p', t')"
  shows "(case primitive_scan js len (jp_pos p) of None \<Rightarrow> False
     | Some None \<Rightarrow> r = JSMN_ERROR_INVAL
     | Some (Some pos) \<Rightarrow> r = JSMN_ERROR_NOMEM \<or> r = 0 \<and> jp_pos p' = pos - 1)"
  using assms by (auto simp: jsmn_parse_primitive_def Let_def split: option.splits prod.splits)

lemma parse_string_null:
  "jsmn_parse_string p js len None num =
    (case string_scan js len (Suc (jp_pos p)) of None \<Rightarrow> None
     | Some Str_inval \<Rightarrow> Some (JSMN_ERROR_INVAL, p, None)
     | Some Str_part \<Rightarrow> Some (JSMN_ERROR_PART, p, None)
     | Some (Str_end pos) \<Rightarrow> Some (0, p\<lparr>jp_pos := pos\<rparr>, None))"
  by (simp add: jsmn_parse_string_def Let_def split: option.split string_result.split)

lemma parse_string_full:
  assumes "jsmn_parse_string p js len (Some toks) num = Some (r, p', t')"
  shows "(case string_scan js len (Suc (jp_pos p)) of None \<Rightarrow> False
     | Some Str_inval \<Rightarrow> r = JSMN_ERROR_INVAL
     | Some Str_part \<Rightarrow> r = JSMN_ERROR_PART
     | Some (Str_end pos) \<Rightarrow> r = JSMN_ERROR_NOMEM \<or> r = 0 \<and> jp_pos p' = pos)"
  using assms by (auto simp: jsmn_parse_string_def Let_def jsmn_alloc_token_def
      split: option.splits prod.splits string_result.splits if_splits)

lemma open_container_cases:
  assumes "open_container c p (Some toks) num count = Some s"
  shows "s_to JSMN_ERROR_NOMEM s (count + 1) (jp_pos p)"
proof -
  obtain i p1 t1 where a: "jsmn_alloc_token p toks num = Some (i, p1, t1)"
    using assms by (cases "jsmn_alloc_token p toks num") (auto simp: open_container_def)
  show ?thesis
  proof (cases i)
    case None
    then show ?thesis using assms a by (auto simp: open_container_def s_to_def)
  next
    case (Some n)
    let ?m = "\<lambda>t. modify (\<lambda>t. t\<lparr>tk_type := (if c = 0x7B then JSMN_OBJECT else JSMN_ARRAY),
        tk_start := int (jp_pos p1)\<rparr>) (int n) t"
    obtain t2 where "count_child p1 t1 = Some t2"
      using assms a Some by (cases "count_child p1 t1") (auto simp: open_container_def)
    moreover from this obtain t3 where "?m t2 = Some t3"
      using assms a Some by (cases "?m t2") (auto simp: open_container_def)
    ultimately have "s = Go (p1\<lparr>jp_toksuper := int (jp_toknext p1) - 1\<rparr>) (Some t3) (count + 1)"
      using assms a Some by (simp add: open_container_def)
    then show ?thesis using alloc_token_parser [OF a] by (simp add: s_to_def)
  qed
qed

lemma close_container_cases:
  assumes "close_container c p (Some toks) count = Some s"
  shows "s_to JSMN_ERROR_INVAL s count (jp_pos p)"
  using assms by (auto simp: close_container_def s_to_def split: option.splits if_splits)

lemma comma_cases:
  assumes "comma p (Some toks) count = Some s"
  shows "s_to JSMN_ERROR_INVAL s count (jp_pos p)"
  using assms by (auto simp: comma_def s_to_def split: option.splits if_splits)

lemma after_value_in_step:
  assumes null: "null = Some (rn, qn, None)" "jp_toknext qn = 0"
    and full: "full = Some (rf, pf, Some tf)" "after_value full count \<noteq> None"
    and r: "rn < 0 \<and> rf < 0 \<or> rn = 0 \<and> (rf = JSMN_ERROR_NOMEM \<or> rf = 0 \<and> jp_pos pf = jp_pos qn)"
  shows "in_step count (after_value null count) (after_value full count)"
proof -
  obtain s where s: "after_value full count = Some s" using full(2) by blast
  from r show ?thesis
  proof
    assume "rn < 0 \<and> rf < 0"
    then show ?thesis using null full(1) unfolding in_step_def by (intro disjI1) (simp add: after_value_def)
  next
    assume r: "rn = 0 \<and> (rf = JSMN_ERROR_NOMEM \<or> rf = 0 \<and> jp_pos pf = jp_pos qn)"
    then have "after_value null count = Some (Go qn None (count + 1))"
      using null by (simp add: after_value_def)
    moreover have "s_to JSMN_ERROR_NOMEM s (count + 1) (jp_pos qn)"
      using r s full(1)
      by (auto simp: after_value_def s_to_def jsmn_errors split: option.splits)
    ultimately show ?thesis using in_step_go [OF _ null(2) s] by blast
  qed
qed

lemma string_in_step:
  assumes "value_ok len num p toks (jsmn_parse_string p js len (Some toks) num)"
    and "after_value (jsmn_parse_string p js len (Some toks) num) count \<noteq> None"
    and "jp_pos q = jp_pos p" "jp_toknext q = 0"
  shows "in_step count (after_value (jsmn_parse_string q js len None 0) count)
    (after_value (jsmn_parse_string p js len (Some toks) num) count)"
proof -
  obtain r p' t' where v: "jsmn_parse_string p js len (Some toks) num = Some (r, p', Some t')"
    using assms(1) unfolding value_ok_def by blast
  obtain sc where sc: "string_scan js len (Suc (jp_pos p)) = Some sc"
    using parse_string_full [OF v] by (cases "string_scan js len (Suc (jp_pos p))") auto
  obtain rn qn where n: "jsmn_parse_string q js len None 0 = Some (rn, qn, None)" "jp_toknext qn = 0"
    and r: "rn < 0 \<and> r < 0 \<or> rn = 0 \<and> (r = JSMN_ERROR_NOMEM \<or> r = 0 \<and> jp_pos p' = jp_pos qn)"
    using parse_string_full [OF v] assms(3,4) sc
    by (cases sc) (auto simp: parse_string_null jsmn_errors)
  show ?thesis using after_value_in_step [OF n v assms(2) r] .
qed

lemma primitive_in_step:
  assumes "value_ok len num p toks (jsmn_parse_primitive p js len (Some toks) num)"
    and "after_value (jsmn_parse_primitive p js len (Some toks) num) count \<noteq> None"
    and "jp_pos q = jp_pos p" "jp_toknext q = 0"
  shows "in_step count (after_value (jsmn_parse_primitive q js len None 0) count)
    (after_value (jsmn_parse_primitive p js len (Some toks) num) count)"
proof -
  obtain r p' t' where v: "jsmn_parse_primitive p js len (Some toks) num = Some (r, p', Some t')"
    using assms(1) unfolding value_ok_def by blast
  obtain sc where sc: "primitive_scan js len (jp_pos p) = Some sc"
    using parse_primitive_full [OF v] by (cases "primitive_scan js len (jp_pos p)") auto
  obtain rn qn where n: "jsmn_parse_primitive q js len None 0 = Some (rn, qn, None)" "jp_toknext qn = 0"
    and r: "rn < 0 \<and> r < 0 \<or> rn = 0 \<and> (r = JSMN_ERROR_NOMEM \<or> r = 0 \<and> jp_pos p' = jp_pos qn)"
    using parse_primitive_full [OF v] assms(3,4) sc
    by (cases sc) (auto simp: parse_primitive_null jsmn_errors)
  show ?thesis using after_value_in_step [OF n v assms(2) r] .
qed

lemma jsmn_char_in_step:
  assumes ok: "parser_ok len num (jp_pos p) p toks" and len: "len \<le> length js" "jp_pos p < len"
    and c: "at js (jp_pos p) = Some c" "c \<noteq> 0"
    and q: "jp_pos q = jp_pos p" "jp_toknext q = 0"
  shows "in_step count (jsmn_char c q js len None 0 count) (jsmn_char c p js len (Some toks) num count)"
proof -
  have "jsmn_char c p js len (Some toks) num count \<noteq> None"
    using jsmn_char_ok [OF ok len c, of count] by (auto simp: step_ok_def)
  then obtain s where full: "jsmn_char c p js len (Some toks) num count = Some s" by blast
  consider "c = 0x7B \<or> c = 0x5B" | "c = 0x7D \<or> c = 0x5D" | "c = 0x22"
    | "c = 9 \<or> c = 13 \<or> c = 10 \<or> c = 32 \<or> c = 0x3A" | "c = 0x2C"
    | "\<not> ends_primitive c" "c \<notin> {0x7B, 0x5B, 0x22}"
    by (auto simp: ends_primitive_def)
  then show ?thesis
  proof cases
    case 1
    then have char: "jsmn_char c x js len t n count = open_container c x t n count" for x t n
      by (simp only: jsmn_char_def if_True)
    have "jsmn_char c q js len None 0 count = Some (Go q None (count + 1))"
      by (simp add: char open_container_def)
    moreover have "s_to JSMN_ERROR_NOMEM s (count + 1) (jp_pos q)"
      using open_container_cases full q(1) by (simp add: char)
    ultimately show ?thesis using in_step_go [OF _ q(2) full] by blast
  next
    case 2
    then have char: "jsmn_char c x js len t n count = close_container c x t count" for x t n
      by (auto simp: jsmn_char_def)
    have "jsmn_char c q js len None 0 count = Some (Go q None count)"
      by (simp add: char close_container_def)
    moreover have "s_to JSMN_ERROR_INVAL s count (jp_pos q)"
      using close_container_cases full q(1) by (simp add: char)
    ultimately show ?thesis using in_step_go [OF _ q(2) full] by blast
  next
    case 3
    then have char: "jsmn_char c x js len t n count = after_value (jsmn_parse_string x js len t n) count" for x t n
      by (simp add: jsmn_char_def)
    show ?thesis using string_in_step [OF parse_string_ok [OF ok len], of count q] q full
      by (simp add: char)
  next
    case 4
    then show ?thesis using q unfolding in_step_def by (intro disjI2) (auto simp: jsmn_char_def)
  next
    case 5
    then have char: "jsmn_char c x js len t n count = comma x t count" for x t n
      by (simp add: jsmn_char_def)
    have "jsmn_char c q js len None 0 count = Some (Go q None count)"
      by (simp add: char comma_def)
    moreover have "s_to JSMN_ERROR_INVAL s count (jp_pos q)"
      using comma_cases full q(1) by (simp add: char)
    ultimately show ?thesis using in_step_go [OF _ q(2) full] by blast
  next
    case 6
    then have char: "jsmn_char c x js len t n count = after_value (jsmn_parse_primitive x js len t n) count" for x t n
      by (auto simp: jsmn_char_def ends_primitive_def)
    show ?thesis using primitive_in_step [OF parse_primitive_ok [OF ok len c 6(1)], of count q] q full
      by (simp add: char)
  qed
qed


definition loop_in_step :: "nat \<Rightarrow> int \<Rightarrow> jsmn_step option \<Rightarrow> jsmn_step option \<Rightarrow> bool" where
  "loop_in_step num count null full \<longleftrightarrow>
     (\<exists>r p r' p' t'. null = Some (Stop r p None) \<and> r < 0 \<and> full = Some (Stop r' p' t')) \<or>
     (\<exists>p c s. null = Some (Go p None c) \<and> count \<le> c \<and> full = Some s \<and>
        ((\<exists>p' t'. s = Stop JSMN_ERROR_INVAL p' t') \<or>
         (\<exists>p' t'. s = Stop JSMN_ERROR_NOMEM p' t' \<and> int num < c) \<or>
         (\<exists>p' t'. s = Go p' t' c)))"

lemma loop_in_step_mono: "loop_in_step num c null full \<Longrightarrow> count \<le> c \<Longrightarrow> loop_in_step num count null full"
  unfolding loop_in_step_def by (elim disjE exE conjE; fastforce)

text \<open>A counting run always ends, with an error or with a count that did not shrink.\<close>

lemma null_loop:
  assumes "len \<le> length js" "jp_toknext q = 0"
  shows "(\<exists>r p. jsmn_loop q js len None 0 count = Some (Stop r p None) \<and> r < 0) \<or>
    (\<exists>p c. jsmn_loop q js len None 0 count = Some (Go p None c) \<and> count \<le> c)"
  using assms
proof (induction "len - jp_pos q" arbitrary: q count rule: less_induct)
  case less
  note unf = jsmn_loop.simps [of q js len None 0 count]
  show ?case
  proof (cases "jp_pos q < len \<and> js ! jp_pos q \<noteq> 0")
    case False
    then show ?thesis using less.prems unfolding unf by (auto simp: at_def)
  next
    case True
    let ?n = "jsmn_char (js ! jp_pos q) q js len None 0 count"
    have c: "at js (jp_pos q) = Some (js ! jp_pos q)" "js ! jp_pos q \<noteq> 0" "jp_pos q < len"
      using less.prems(1) True by (auto simp: at_def)
    let ?p = "q\<lparr>jp_toksuper := -1\<rparr>"
    have "parser_ok len 0 (jp_pos ?p) ?p []" using less.prems c(3) by (simp add: parser_ok_def)
    from jsmn_char_in_step [OF this less.prems(1), of "js ! jp_pos q" q count] c less.prems(2)
    consider r p where "?n = Some (Stop r p None)" "r < 0"
      | p c' where "?n = Some (Go p None c')" "jp_toknext p = 0" "count \<le> c'"
      unfolding in_step_def by fastforce
    then show ?thesis
    proof cases
      case 1
      then show ?thesis unfolding unf using c by simp
    next
      case (2 p c')
      let ?q = "p\<lparr>jp_pos := Suc (jp_pos p)\<rparr>"
      have "jp_pos q \<le> jp_pos p" using jsmn_char_pos [OF 2(1) c(3,1,2)] .
      then have "len - jp_pos ?q < len - jp_pos q" using c(3) by simp
      then have "(\<exists>r p'. jsmn_loop ?q js len None 0 c' = Some (Stop r p' None) \<and> r < 0) \<or>
          (\<exists>p' c. jsmn_loop ?q js len None 0 c' = Some (Go p' None c) \<and> c' \<le> c)"
        using less.hyps [of ?q c'] less.prems(1) 2(2) by simp
      then show ?thesis unfolding unf using c 2 by force
    qed
  qed
qed

lemma jsmn_loop_in_step:
  assumes "parser_ok len num (jp_pos p) p toks" "len \<le> length js"
    and "jp_pos q = jp_pos p" "jp_toknext q = 0" "count = int (jp_toknext p)"
  shows "loop_in_step num count (jsmn_loop q js len None 0 count) (jsmn_loop p js len (Some toks) num count)"
  using assms
proof (induction "len - jp_pos p" arbitrary: p q toks count rule: less_induct)
  case less
  note unf = jsmn_loop.simps [of q js len None 0 count] jsmn_loop.simps [of p js len "Some toks" num count]
  show ?case
  proof (cases "jp_pos p < len \<and> js ! jp_pos p \<noteq> 0")
    case False
    then show ?thesis using less.prems(2-4) unfolding unf by (auto simp: at_def loop_in_step_def)
  next
    case True
    let ?c = "js ! jp_pos p"
    let ?n = "jsmn_char ?c q js len None 0 count" and ?f = "jsmn_char ?c p js len (Some toks) num count"
    have c: "at js (jp_pos p) = Some ?c" "?c \<noteq> 0" "jp_pos p < len" using less.prems(2) True by (auto simp: at_def)
    have loops: "jsmn_loop q js len None 0 count = (case ?n of None \<Rightarrow> None
         | Some (Stop r p' t') \<Rightarrow> Some (Stop r p' t')
         | Some (Go p' t' c') \<Rightarrow> jsmn_loop (p'\<lparr>jp_pos := Suc (jp_pos p')\<rparr>) js len t' 0 c')"
      "jsmn_loop p js len (Some toks) num count = (case ?f of None \<Rightarrow> None
         | Some (Stop r p' t') \<Rightarrow> Some (Stop r p' t')
         | Some (Go p' t' c') \<Rightarrow> jsmn_loop (p'\<lparr>jp_pos := Suc (jp_pos p')\<rparr>) js len t' num c')"
      unfolding unf using c less.prems(3) by simp_all
    have st: "in_step count ?n ?f" using jsmn_char_in_step [OF less.prems(1,2) c(3,1,2) less.prems(3,4)] .
    have ok: "step_ok len num p toks count ?f" using jsmn_char_ok [OF less.prems(1,2) c(3,1,2)] .
    from st consider r q' r' p' t' where "?n = Some (Stop r q' None)" "r < 0" "?f = Some (Stop r' p' t')"
      | q' c' p' t' where "?n = Some (Go q' None c')" "jp_toknext q' = 0" "c' = count \<or> c' = count + 1"
          "?f = Some (Stop JSMN_ERROR_INVAL p' t')"
      | q' c' p' t' where "?n = Some (Go q' None c')" "jp_toknext q' = 0" "c' = count + 1"
          "?f = Some (Stop JSMN_ERROR_NOMEM p' t')"
      | q' c' p' t' where "?n = Some (Go q' None c')" "jp_toknext q' = 0" "c' = count \<or> c' = count + 1"
          "?f = Some (Go p' t' c')" "jp_pos p' = jp_pos q'"
      unfolding in_step_def by metis
    then show ?thesis
    proof cases
      case 1
      then show ?thesis by (simp add: loops loop_in_step_def)
    next
      case (2 q' c' p' t')
      have "(\<exists>r p. jsmn_loop q js len None 0 count = Some (Stop r p None) \<and> r < 0) \<or>
          (\<exists>p c. jsmn_loop q js len None 0 count = Some (Go p None c) \<and> count \<le> c)"
        using null_loop [OF less.prems(2,4)] .
      then show ?thesis using 2(4) by (auto simp: loops(2) loop_in_step_def)
    next
      case (3 q' c' p' t')
      have "num = jp_toknext p" using ok 3(4) by (auto simp: step_ok_def jsmn_errors)
      moreover have "(\<exists>r p. jsmn_loop q js len None 0 count = Some (Stop r p None) \<and> r < 0) \<or>
          (\<exists>p c. jsmn_loop q js len None 0 count = Some (Go p None c) \<and> c' \<le> c)"
        using null_loop [OF less.prems(2), of "q'\<lparr>jp_pos := Suc (jp_pos q')\<rparr>" c'] 3(1,2)
        by (simp add: loops(1))
      moreover have "jsmn_loop p js len (Some toks) num count = Some (Stop JSMN_ERROR_NOMEM p' t')"
        unfolding loops(2) 3(4) by simp
      ultimately show ?thesis using 3(3) less.prems(5) unfolding loop_in_step_def by auto
    next
      case (4 q' c' p' t')
      let ?q = "q'\<lparr>jp_pos := Suc (jp_pos q')\<rparr>" and ?p = "p'\<lparr>jp_pos := Suc (jp_pos p')\<rparr>"
      obtain toks' where t': "t' = Some toks'" "parser_ok len num (Suc (jp_pos p')) p' toks'" "jp_pos p' < len"
          "c' - count = int (jp_toknext p') - int (jp_toknext p)"
        using ok 4(4) by (auto simp: step_ok_def)
      have "jp_pos p \<le> jp_pos p'" using jsmn_char_pos [OF 4(4) c(3,1,2)] .
      then have "len - jp_pos ?p < len - jp_pos p" using c(3) by simp
      moreover have "parser_ok len num (jp_pos ?p) ?p toks'" using t' by (simp add: parser_ok_def)
      ultimately have "loop_in_step num c' (jsmn_loop ?q js len None 0 c') (jsmn_loop ?p js len (Some toks') num c')"
        using 4 t' less.prems(2,5) by (intro less.hyps) auto
      then show ?thesis using 4 t'(1) loop_in_step_mono [of num c' _ _ count] by (auto simp: loops)
    qed
  qed
qed

text \<open>
  The counting run predicts the tokens. Without a token array the tokenizer returns an
  error or a number \<open>n\<close> of tokens, and never faults. With an array of at least \<open>n\<close> tokens the
  second run never runs out of tokens, and if it succeeds it returns the same \<open>n\<close>; if the
  counting run fails, the second run fails too.
\<close>

theorem jsmn_count_predicts:
  assumes "len \<le> length js" "num \<le> length toks"
  shows "\<exists>n q r p toks'. jsmn_parse jsmn_init js len None 0 = Some (n, q, None) \<and>
     jsmn_parse jsmn_init js len (Some toks) num = Some (r, p, Some toks') \<and>
     (n < 0 \<longrightarrow> r < 0) \<and> (0 \<le> n \<and> 0 \<le> r \<longrightarrow> r = n) \<and>
     (0 \<le> n \<and> n \<le> int num \<longrightarrow> r \<noteq> JSMN_ERROR_NOMEM)"
proof -
  obtain r p toks' where full: "jsmn_parse jsmn_init js len (Some toks) num = Some (r, p, Some toks')"
    and "r \<in> {JSMN_ERROR_NOMEM, JSMN_ERROR_INVAL, JSMN_ERROR_PART} \<or> r = int (jp_toknext p)"
    using jsmn_parse_ok [OF assms] by blast
  have "loop_in_step num 0 (jsmn_loop jsmn_init js len None 0 0) (jsmn_loop jsmn_init js len (Some toks) num 0)"
    using assms by (intro jsmn_loop_in_step init_ok) (simp_all add: jsmn_init_def)
  then consider r0 q r' p' t' where "jsmn_loop jsmn_init js len None 0 0 = Some (Stop r0 q None)" "r0 < 0"
      "jsmn_loop jsmn_init js len (Some toks) num 0 = Some (Stop r' p' t')"
    | q c r' p' t' where "jsmn_loop jsmn_init js len None 0 0 = Some (Go q None c)" "0 \<le> c"
      "jsmn_loop jsmn_init js len (Some toks) num 0 = Some (Stop r' p' t')"
      "r' = JSMN_ERROR_INVAL \<or> r' = JSMN_ERROR_NOMEM \<and> int num < c"
    | q c p' t' where "jsmn_loop jsmn_init js len None 0 0 = Some (Go q None c)" "0 \<le> c"
      "jsmn_loop jsmn_init js len (Some toks) num 0 = Some (Go p' t' c)"
    unfolding loop_in_step_def by metis
  then show ?thesis
  proof cases
    case 1
    have "r' \<in> {JSMN_ERROR_NOMEM, JSMN_ERROR_INVAL, JSMN_ERROR_PART}"
      using jsmn_loop_ok [OF init_ok [OF assms(2)] assms(1), of 0] 1(3) by auto
    then show ?thesis using 1 full by (auto simp: jsmn_parse_def jsmn_init_def jsmn_errors)
  next
    case 2
    then show ?thesis using full by (auto simp: jsmn_parse_def jsmn_init_def jsmn_errors)
  next
    case (3 q c p' t')
    then have "r = c \<or> r = JSMN_ERROR_PART" using full
      by (auto simp: jsmn_parse_def jsmn_init_def split: option.splits)
    then show ?thesis using 3 full
      by (auto simp: jsmn_parse_def jsmn_init_def jsmn_errors split: option.splits)
  qed
qed

theorem jsmn_count_predicts_witness:
  "\<exists>r p toks'. jsmn_parse jsmn_init [0x7B, 0x22, 0x61, 0x22, 0x3A, 0x31, 0x7D] 7
      (Some (replicate 3 \<lparr>tk_type = JSMN_UNDEFINED, tk_start = 0, tk_end = 0, tk_size = 0\<rparr>)) 3 =
        Some (r, p, Some toks') \<and> r \<noteq> JSMN_ERROR_NOMEM"
proof -
  let ?js = "[0x7B, 0x22, 0x61, 0x22, 0x3A, 0x31, 0x7D] :: u8 list"
  let ?ts = "replicate 3 \<lparr>tk_type = JSMN_UNDEFINED, tk_start = 0, tk_end = 0, tk_size = 0\<rparr>"
  have "jsmn_parse jsmn_init ?js 7 None 0 = Some (3, \<lparr>jp_pos = 7, jp_toknext = 0, jp_toksuper = -1\<rparr>, None)"
    by code_simp
  with jsmn_count_predicts [of 7 ?js 3 ?ts] show ?thesis by auto
qed

end
