(* ===== verification/Onic_Json.thy ===== *)
theory Onic_Json
  imports Jsmn
begin

text \<open>
  The platform configuration of the driver (\<^verbatim>\<open>src/onic_json.c\<close>): the file is tokenized twice,
  the first time to count the tokens, and the keys of the root object are copied into the
  platform information. The kernel's services are parameters: the firmware loader's answer,
  whether the allocation succeeds, and the number parsers. The result \<open>None\<close> is an access
  outside the token array, the text or the MAC address. The lemmas show what a well-formed file
  does to the platform information, and that the function does not check that a file is well
  formed. The log messages are left out; the one for an unexpected key prints the text of its
  token, which is inside the file for every token of a successful run.
\<close>

subsection \<open>Data\<close>

record onic_platform_info =
  qdma_bar :: u8
  user_bar :: u8
  queue_base :: u16
  queue_max :: u16
  used_queues :: u16
  pci_msix_user_cnt :: u8
  pci_master_pf :: bool
  poll_mode :: bool
  intr_mod_en :: bool
  ring_sz :: int
  c2h_tmr_cnt :: int
  c2h_cnt_thr :: int
  c2h_buf_sz :: int
  rsfec_en :: bool
  port_id :: u8
  mac_addr :: "u8 list"

text \<open>The kernel's number parsers: the text, the base, the value unless the text is rejected.\<close>

record kstrto =
  kstrtou8 :: "u8 list \<Rightarrow> nat \<Rightarrow> u8 option"
  kstrtou16 :: "u8 list \<Rightarrow> nat \<Rightarrow> u16 option"
  kstrtoint :: "u8 list \<Rightarrow> nat \<Rightarrow> int option"

definition PARSEBUF_LEN :: nat where "PARSEBUF_LEN = 32"

definition bytes :: "string \<Rightarrow> u8 list" where
  "bytes s = map of_char s"

subsection \<open>Tokens as text\<close>

text \<open>
  \<^verbatim>\<open>jsoneq\<close>: the comparison of the two texts, which have the same length, runs over the
  token's range.
\<close>

definition jsoneq :: "u8 list \<Rightarrow> jsmntok_t \<Rightarrow> string \<Rightarrow> bool option" where
  "jsoneq json tok s =
     (if tk_type tok = JSMN_STRING \<and> int (length s) = tk_end tok - tk_start tok then
        (if 0 \<le> tk_start tok \<and> nat (tk_end tok) \<le> length json
         then Some (take (length s) (drop (nat (tk_start tok)) json) = bytes s) else None)
      else Some False)"

text \<open>
  \<^verbatim>\<open>snprintf(parsingBuffer, PARSEBUF_LEN, "%.*s", n, p)\<close>: at most \<open>n\<close> bytes up to a zero byte,
  cut to the buffer; a negative precision counts as none, so the text is read up to a zero
  byte.
\<close>

definition value_text :: "u8 list \<Rightarrow> jsmntok_t \<Rightarrow> u8 list option" where
  "value_text json tok =
     (let n = tk_end tok - tk_start tok; rest = drop (nat (tk_start tok)) json in
      if tk_start tok < 0 then None
      else if 0 \<le> n then
        (if nat (tk_end tok) \<le> length json
         then Some (take (PARSEBUF_LEN - 1) (takeWhile (\<lambda>c. c \<noteq> 0) (take (nat n) rest))) else None)
      else if 0 \<in> set rest then Some (take (PARSEBUF_LEN - 1) (takeWhile (\<lambda>c. c \<noteq> 0) rest)) else None)"

text \<open>The test for a true value: the first byte of the buffer, which ends with a zero byte.\<close>

definition truth :: "u8 list \<Rightarrow> bool" where
  "truth buf = (let c = (if buf = [] then 0 else hd buf) in c \<noteq> 0x30 \<and> c \<noteq> 0x66 \<and> c \<noteq> 0x46)"

definition keep :: "'a \<Rightarrow> 'a option \<Rightarrow> 'a" where
  "keep old v = (case v of None \<Rightarrow> old | Some x \<Rightarrow> x)"

text \<open>The keys with a scalar value, in the order in which the code tries them.\<close>

definition scalar_keys :: "kstrto \<Rightarrow> (string \<times> (u8 list \<Rightarrow> onic_platform_info \<Rightarrow> onic_platform_info)) list" where
  "scalar_keys k =
    [(''qdma_bar'', \<lambda>b p. p\<lparr>qdma_bar := keep (qdma_bar p) (kstrtou8 k b 10)\<rparr>),
     (''user_bar'', \<lambda>b p. p\<lparr>user_bar := keep (user_bar p) (kstrtou8 k b 10)\<rparr>),
     (''queue_base'', \<lambda>b p. p\<lparr>queue_base := keep (queue_base p) (kstrtou16 k b 10)\<rparr>),
     (''queue_max'', \<lambda>b p. p\<lparr>queue_max := keep (queue_max p) (kstrtou16 k b 10)\<rparr>),
     (''used_queues'', \<lambda>b p. p\<lparr>used_queues := keep (used_queues p) (kstrtou16 k b 10)\<rparr>),
     (''pci_msix_user_cnt'', \<lambda>b p. p\<lparr>pci_msix_user_cnt := keep (pci_msix_user_cnt p) (kstrtou8 k b 10)\<rparr>),
     (''pci_master_pf'', \<lambda>b p. p\<lparr>pci_master_pf := truth b\<rparr>),
     (''poll_mode'', \<lambda>b p. p\<lparr>poll_mode := truth b\<rparr>),
     (''intr_mod_en'', \<lambda>b p. p\<lparr>intr_mod_en := truth b\<rparr>),
     (''ring_sz'', \<lambda>b p. p\<lparr>ring_sz := keep (ring_sz p) (kstrtoint k b 10)\<rparr>),
     (''c2h_tmr_cnt'', \<lambda>b p. p\<lparr>c2h_tmr_cnt := keep (c2h_tmr_cnt p) (kstrtoint k b 10)\<rparr>),
     (''c2h_cnt_thr'', \<lambda>b p. p\<lparr>c2h_cnt_thr := keep (c2h_cnt_thr p) (kstrtoint k b 10)\<rparr>),
     (''c2h_buf_sz'', \<lambda>b p. p\<lparr>c2h_buf_sz := keep (c2h_buf_sz p) (kstrtoint k b 10)\<rparr>),
     (''rsfec_en'', \<lambda>b p. p\<lparr>rsfec_en := truth b\<rparr>),
     (''port_id'', \<lambda>b p. p\<lparr>port_id := keep (port_id p) (kstrtou8 k b 10)\<rparr>)]"

text \<open>The chain of comparisons: the first key that matches, \<open>None\<close> inside when there is none.\<close>

fun match_key :: "u8 list \<Rightarrow> jsmntok_t \<Rightarrow> (string \<times> 'a) list \<Rightarrow> 'a option option" where
  "match_key json tok [] = Some None"
| "match_key json tok ((s, f) # ks) =
     (case jsoneq json tok s of
        None \<Rightarrow> None
      | Some b \<Rightarrow> if b then Some (Some f) else match_key json tok ks)"

subsection \<open>The loop over the keys\<close>

text \<open>The bytes of the MAC address; \<open>m\<close> of them are left, starting with byte \<open>j\<close>.\<close>

fun set_mac ::
  "kstrto \<Rightarrow> u8 list \<Rightarrow> jsmntok_t list \<Rightarrow> nat \<Rightarrow> nat \<Rightarrow> nat \<Rightarrow> onic_platform_info \<Rightarrow> onic_platform_info option" where
  "set_mac k json toks i j 0 p = Some p"
| "set_mac k json toks i j (Suc m) p =
     (case at toks (i + j + 2) of
        None \<Rightarrow> None
      | Some t \<Rightarrow>
          (case value_text json t of
             None \<Rightarrow> None
           | Some buf \<Rightarrow>
               if j < length (mac_addr p)
               then set_mac k json toks i (Suc j) m
                      (p\<lparr>mac_addr := (mac_addr p)[j := keep (mac_addr p ! j) (kstrtou8 k buf 16)]\<rparr>)
               else None))"

function key_loop ::
  "kstrto \<Rightarrow> u8 list \<Rightarrow> jsmntok_t list \<Rightarrow> nat \<Rightarrow> nat \<Rightarrow> onic_platform_info \<Rightarrow> onic_platform_info option" where
  "key_loop k json toks num_tokens i p =
     (if i < num_tokens then
        (case at toks i of
           None \<Rightarrow> None
         | Some t \<Rightarrow>
             (case match_key json t (scalar_keys k) of
                None \<Rightarrow> None
              | Some (Some f) \<Rightarrow>
                  (case at toks (i + 1) of
                     None \<Rightarrow> None
                   | Some v \<Rightarrow>
                       (case value_text json v of
                          None \<Rightarrow> None
                        | Some buf \<Rightarrow> key_loop k json toks num_tokens (i + 2) (f buf p)))
              | Some None \<Rightarrow>
                  (case jsoneq json t ''mac_addr'' of
                     None \<Rightarrow> None
                   | Some True \<Rightarrow>
                       (case at toks (i + 1) of
                          None \<Rightarrow> None
                        | Some v \<Rightarrow>
                            if tk_type v \<noteq> JSMN_ARRAY then key_loop k json toks num_tokens (i + 1) p
                            else
                              (case set_mac k json toks i 0 (nat (tk_size v)) p of
                                 None \<Rightarrow> None
                               | Some p' \<Rightarrow> key_loop k json toks num_tokens (i + nat (tk_size v) + 2) p'))
                   | Some False \<Rightarrow> key_loop k json toks num_tokens (i + 1) p)))
      else Some p)"
  by pat_completeness auto
termination
  by (relation "measure (\<lambda>(k, json, toks, n, i, p). n - i)") auto

declare key_loop.simps [simp del]

subsection \<open>Reading the configuration\<close>

definition zero_token :: jsmntok_t where
  "zero_token = \<lparr>tk_type = JSMN_UNDEFINED, tk_start = 0, tk_end = 0, tk_size = 0\<rparr>"

definition u16_of :: "int \<Rightarrow> nat" where
  "u16_of r = unat (word_of_int r :: u16)"

text \<open>
  \<open>fw\<close> is the answer of \<^verbatim>\<open>request_firmware\<close>, an error or the bytes of the file; \<open>alloc_ok\<close> is
  whether \<^verbatim>\<open>kcalloc\<close> succeeds. The length and the number of tokens are 16 bits wide.
\<close>

definition onic_get_platform_info ::
  "kstrto \<Rightarrow> int + u8 list \<Rightarrow> bool \<Rightarrow> onic_platform_info \<Rightarrow> (int \<times> onic_platform_info) option" where
  "onic_get_platform_info k fw alloc_ok pinfo =
     (case fw of
        Inl err \<Rightarrow> Some (err, pinfo)
      | Inr json \<Rightarrow>
          (let len = u16_of (int (length json)) in
           case jsmn_parse jsmn_init json len None 0 of
             None \<Rightarrow> None
           | Some (r1, parser1, t1) \<Rightarrow>
               (let n1 = u16_of r1 in
                if n1 < 1 then Some (- EINVAL, pinfo)
                else if \<not> alloc_ok then Some (- ENOMEM, pinfo)
                else
                  (case jsmn_parse jsmn_init json len (Some (replicate n1 zero_token)) n1 of
                     None \<Rightarrow> None
                   | Some (r2, parser2, None) \<Rightarrow> None
                   | Some (r2, parser2, Some toks) \<Rightarrow>
                       (let n2 = u16_of r2 in
                        if n2 < 1 then Some (- EINVAL, pinfo)
                        else
                          (case at toks 0 of
                             None \<Rightarrow> None
                           | Some t0 \<Rightarrow>
                               if tk_type t0 \<noteq> JSMN_OBJECT then Some (- EINVAL, pinfo)
                               else
                                 (case key_loop k json toks n2 1 pinfo of
                                    None \<Rightarrow> None
                                  | Some p \<Rightarrow> Some (0, p))))))))"

subsection \<open>Tokens inside the file\<close>

definition good_token :: "u8 list \<Rightarrow> jsmntok_t \<Rightarrow> bool" where
  "good_token json t \<longleftrightarrow> 0 \<le> tk_start t \<and> tk_start t \<le> tk_end t \<and> tk_end t \<le> int (length json)"

lemma jsoneq_good: "good_token json t \<Longrightarrow> jsoneq json t s \<noteq> None"
  by (auto simp: jsoneq_def good_token_def)

lemma match_key_good: "good_token json t \<Longrightarrow> match_key json t ks \<noteq> None"
proof (induction ks)
  case (Cons a ks)
  then show ?case using jsoneq_good [of json t "fst a"] by (cases a) auto
qed simp

lemma value_text_good: "good_token json t \<Longrightarrow> value_text json t \<noteq> None"
  by (auto simp: value_text_def good_token_def Let_def)

subsection \<open>What a configuration means\<close>

text \<open>
  A member of the root object as the tokens show it: a known key and its value, the MAC address
  with its bytes, or a token that is no known key (the key of another setting, or a token of its
  value). The settings are written down by the name of the key.
\<close>

datatype member =
    Setting string jsmntok_t jsmntok_t
  | Mac_bytes jsmntok_t jsmntok_t "jsmntok_t list"
  | Ignored jsmntok_t

fun member_tokens :: "member \<Rightarrow> jsmntok_t list" where
  "member_tokens (Setting s kt v) = [kt, v]"
| "member_tokens (Mac_bytes kt a es) = kt # a # es"
| "member_tokens (Ignored t) = [t]"

definition token_text :: "u8 list \<Rightarrow> jsmntok_t \<Rightarrow> u8 list" where
  "token_text json t = take (nat (tk_end t - tk_start t)) (drop (nat (tk_start t)) json)"

definition names :: "u8 list \<Rightarrow> jsmntok_t \<Rightarrow> string \<Rightarrow> bool" where
  "names json t s \<longleftrightarrow> tk_type t = JSMN_STRING \<and> token_text json t = bytes s"

text \<open>The text a value is read from: up to a zero byte, and at most 31 bytes.\<close>

definition cell :: "u8 list \<Rightarrow> jsmntok_t \<Rightarrow> u8 list" where
  "cell json t = take 31 (takeWhile (\<lambda>c. c \<noteq> 0) (token_text json t))"

definition settings :: "string list" where
  "settings = [''qdma_bar'', ''user_bar'', ''pci_msix_user_cnt'', ''port_id'', ''queue_base'', ''queue_max'',
     ''used_queues'', ''ring_sz'', ''c2h_tmr_cnt'', ''c2h_cnt_thr'', ''c2h_buf_sz'', ''pci_master_pf'',
     ''poll_mode'', ''intr_mod_en'', ''rsfec_en'']"

definition yes :: "u8 list \<Rightarrow> bool" where
  "yes b \<longleftrightarrow> b = [] \<or> b ! 0 \<notin> {0x30 \<comment> \<open>0\<close>, 0x66 \<comment> \<open>f\<close>, 0x46 \<comment> \<open>F\<close>}"

definition change :: "kstrto \<Rightarrow> string \<Rightarrow> u8 list \<Rightarrow> onic_platform_info \<Rightarrow> onic_platform_info" where
  "change k s b p =
     (let byte = (\<lambda>old. case kstrtou8 k b 10 of Some v \<Rightarrow> v | None \<Rightarrow> old);
          half = (\<lambda>old. case kstrtou16 k b 10 of Some v \<Rightarrow> v | None \<Rightarrow> old);
          number = (\<lambda>old. case kstrtoint k b 10 of Some v \<Rightarrow> v | None \<Rightarrow> old)
      in if s = ''qdma_bar'' then p\<lparr>qdma_bar := byte (qdma_bar p)\<rparr>
         else if s = ''user_bar'' then p\<lparr>user_bar := byte (user_bar p)\<rparr>
         else if s = ''pci_msix_user_cnt'' then p\<lparr>pci_msix_user_cnt := byte (pci_msix_user_cnt p)\<rparr>
         else if s = ''port_id'' then p\<lparr>port_id := byte (port_id p)\<rparr>
         else if s = ''queue_base'' then p\<lparr>queue_base := half (queue_base p)\<rparr>
         else if s = ''queue_max'' then p\<lparr>queue_max := half (queue_max p)\<rparr>
         else if s = ''used_queues'' then p\<lparr>used_queues := half (used_queues p)\<rparr>
         else if s = ''ring_sz'' then p\<lparr>ring_sz := number (ring_sz p)\<rparr>
         else if s = ''c2h_tmr_cnt'' then p\<lparr>c2h_tmr_cnt := number (c2h_tmr_cnt p)\<rparr>
         else if s = ''c2h_cnt_thr'' then p\<lparr>c2h_cnt_thr := number (c2h_cnt_thr p)\<rparr>
         else if s = ''c2h_buf_sz'' then p\<lparr>c2h_buf_sz := number (c2h_buf_sz p)\<rparr>
         else if s = ''pci_master_pf'' then p\<lparr>pci_master_pf := yes b\<rparr>
         else if s = ''poll_mode'' then p\<lparr>poll_mode := yes b\<rparr>
         else if s = ''intr_mod_en'' then p\<lparr>intr_mod_en := yes b\<rparr>
         else if s = ''rsfec_en'' then p\<lparr>rsfec_en := yes b\<rparr>
         else p)"

text \<open>The bytes of the list replace the first ones of the address, those that parse.\<close>

definition mac_bytes :: "kstrto \<Rightarrow> u8 list list \<Rightarrow> u8 list \<Rightarrow> u8 list" where
  "mac_bytes k bs mac =
     map2 (\<lambda>b old. case kstrtou8 k b 16 of Some v \<Rightarrow> v | None \<Rightarrow> old) bs mac @ drop (length bs) mac"

fun member_ok :: "u8 list \<Rightarrow> member \<Rightarrow> bool" where
  "member_ok json (Setting s kt v) \<longleftrightarrow> s \<in> set settings \<and> names json kt s"
| "member_ok json (Mac_bytes kt a es) \<longleftrightarrow> names json kt ''mac_addr'' \<and> tk_type a = JSMN_ARRAY \<and>
     tk_size a = int (length es) \<and> length es \<le> 6"
| "member_ok json (Ignored t) \<longleftrightarrow> \<not> list_ex (names json t) (''mac_addr'' # settings)"

fun member_effect :: "kstrto \<Rightarrow> u8 list \<Rightarrow> member \<Rightarrow> onic_platform_info \<Rightarrow> onic_platform_info" where
  "member_effect k json (Setting s kt v) p = change k s (cell json v) p"
| "member_effect k json (Mac_bytes kt a es) p = p\<lparr>mac_addr := mac_bytes k (map (cell json) es) (mac_addr p)\<rparr>"
| "member_effect k json (Ignored t) p = p"

lemma token_text_length: "good_token json t \<Longrightarrow> int (length (token_text json t)) = tk_end t - tk_start t"
  by (auto simp: token_text_def good_token_def)

lemma byte_inj: "(of_char c :: u8) = of_char d \<longleftrightarrow> c = d"
proof
  assume a: "(of_char c :: u8) = of_char d"
  have "unat (of_char x :: u8) = of_char x" for x
  proof -
    have "(of_char x :: u8) = word_of_nat (of_char x)" by (rule of_nat_of_char [symmetric])
    moreover have "(of_char x :: nat) < 256" by simp
    ultimately show ?thesis by (simp only: unat_of_nat) (simp add: take_bit_eq_mod)
  qed
  then show "c = d" using a by (metis of_char_eq_iff)
qed simp

lemma bytes_inj: "bytes s = bytes s' \<longleftrightarrow> s = s'"
  unfolding bytes_def by (rule inj_map_eq_map) (simp add: inj_def byte_inj)

lemma names_unique: "names json t s \<Longrightarrow> names json t s' \<longleftrightarrow> s' = s"
  by (auto simp: names_def bytes_inj)

lemma jsoneq_names:
  assumes "good_token json t"
  shows "jsoneq json t s = Some (names json t s)"
proof -
  have l: "token_text json t = bytes s \<Longrightarrow> int (length s) = tk_end t - tk_start t"
    using token_text_length [OF assms] by (metis bytes_def length_map)
  show ?thesis
  proof (cases "int (length s) = tk_end t - tk_start t")
    case True
    then have "nat (tk_end t - tk_start t) = length s" by linarith
    then show ?thesis using assms True by (auto simp: jsoneq_def names_def token_text_def good_token_def)
  next
    case False
    then show ?thesis using l by (auto simp: jsoneq_def names_def)
  qed
qed

lemma value_text_cell: "good_token json t \<Longrightarrow> value_text json t = Some (cell json t)"
  by (auto simp: value_text_def cell_def token_text_def good_token_def PARSEBUF_LEN_def Let_def)

lemma match_key_find:
  "good_token json t \<Longrightarrow> match_key json t ks = Some (map_option snd (find (\<lambda>x. names json t (fst x)) ks))"
  by (induction ks) (auto simp: jsoneq_names)

lemma truth_yes: "truth b = yes b"
  by (auto simp: truth_def yes_def hd_conv_nth Let_def)

lemma scalar_find:
  "find (\<lambda>x. ''qdma_bar'' = fst x) (scalar_keys k) = Some (''qdma_bar'', change k ''qdma_bar'')"
  "find (\<lambda>x. ''user_bar'' = fst x) (scalar_keys k) = Some (''user_bar'', change k ''user_bar'')"
  "find (\<lambda>x. ''pci_msix_user_cnt'' = fst x) (scalar_keys k) = Some (''pci_msix_user_cnt'', change k ''pci_msix_user_cnt'')"
  "find (\<lambda>x. ''port_id'' = fst x) (scalar_keys k) = Some (''port_id'', change k ''port_id'')"
  "find (\<lambda>x. ''queue_base'' = fst x) (scalar_keys k) = Some (''queue_base'', change k ''queue_base'')"
  "find (\<lambda>x. ''queue_max'' = fst x) (scalar_keys k) = Some (''queue_max'', change k ''queue_max'')"
  "find (\<lambda>x. ''used_queues'' = fst x) (scalar_keys k) = Some (''used_queues'', change k ''used_queues'')"
  "find (\<lambda>x. ''ring_sz'' = fst x) (scalar_keys k) = Some (''ring_sz'', change k ''ring_sz'')"
  "find (\<lambda>x. ''c2h_tmr_cnt'' = fst x) (scalar_keys k) = Some (''c2h_tmr_cnt'', change k ''c2h_tmr_cnt'')"
  "find (\<lambda>x. ''c2h_cnt_thr'' = fst x) (scalar_keys k) = Some (''c2h_cnt_thr'', change k ''c2h_cnt_thr'')"
  "find (\<lambda>x. ''c2h_buf_sz'' = fst x) (scalar_keys k) = Some (''c2h_buf_sz'', change k ''c2h_buf_sz'')"
  "find (\<lambda>x. ''pci_master_pf'' = fst x) (scalar_keys k) = Some (''pci_master_pf'', change k ''pci_master_pf'')"
  "find (\<lambda>x. ''poll_mode'' = fst x) (scalar_keys k) = Some (''poll_mode'', change k ''poll_mode'')"
  "find (\<lambda>x. ''intr_mod_en'' = fst x) (scalar_keys k) = Some (''intr_mod_en'', change k ''intr_mod_en'')"
  "find (\<lambda>x. ''rsfec_en'' = fst x) (scalar_keys k) = Some (''rsfec_en'', change k ''rsfec_en'')"
  by (simp_all add: scalar_keys_def fun_eq_iff change_def keep_def truth_yes Let_def)

lemma match_key_named:
  assumes "good_token json t" "names json t s" "s \<in> set settings"
  shows "\<exists>f. match_key json t (scalar_keys k) = Some (Some f) \<and> f = change k s"
proof -
  have n: "(\<lambda>x. names json t (fst x)) = (\<lambda>x. s = fst x)" using names_unique [OF assms(2)] by auto
  have "\<exists>f. find (\<lambda>x. s = fst x) (scalar_keys k) = Some (s, f) \<and> f = change k s"
    using assms(3) unfolding settings_def list.set insert_iff empty_iff
    by (elim disjE) (simp_all add: scalar_find)
  then show ?thesis unfolding match_key_find [OF assms(1)] n by force
qed

lemma match_key_other:
  assumes "good_token json t" "\<not> list_ex (names json t) settings"
  shows "match_key json t (scalar_keys k) = Some None"
proof -
  have "\<not> names json t (fst x)" if "x \<in> set (scalar_keys k)" for x
    using assms(2) that by (auto simp: scalar_keys_def settings_def)
  then show ?thesis unfolding match_key_find [OF assms(1)] by (force simp: find_None_iff)
qed

lemma mac_key: "names json t ''mac_addr'' \<Longrightarrow> \<not> list_ex (names json t) settings"
  by (auto simp: names_unique [of json t "''mac_addr''"] settings_def)


lemma set_mac_spec:
  assumes "\<forall>t\<in>set es. good_token json t" "\<And>x. x < length es \<Longrightarrow> at toks (i + 2 + j + x) = Some (es ! x)"
    and "j + length es \<le> length (mac_addr p)"
  shows "set_mac k json toks i j (length es) p =
    Some (p\<lparr>mac_addr := take j (mac_addr p) @ mac_bytes k (map (cell json) es) (drop j (mac_addr p))\<rparr>)"
  using assms
proof (induction es arbitrary: j p)
  case Nil
  then show ?case by (simp add: mac_bytes_def)
next
  case (Cons e es)
  let ?v = "keep (mac_addr p ! j) (kstrtou8 k (cell json e) 16)"
  let ?p = "p\<lparr>mac_addr := (mac_addr p)[j := ?v]\<rparr>"
  have a: "at toks (i + j + 2) = Some e" using Cons.prems(2) [of 0] by (simp add: ac_simps)
  have v: "value_text json e = Some (cell json e)" using Cons.prems(1) by (simp add: value_text_cell)
  have j: "j < length (mac_addr p)" using Cons.prems(3) by simp
  have "at toks (i + 2 + Suc j + x) = Some (es ! x)" if "x < length es" for x
    using Cons.prems(2) [of "Suc x"] that by simp
  then have IH: "set_mac k json toks i (Suc j) (length es) ?p =
      Some (?p\<lparr>mac_addr := take (Suc j) (mac_addr ?p) @ mac_bytes k (map (cell json) es) (drop (Suc j) (mac_addr ?p))\<rparr>)"
    using Cons.prems by (intro Cons.IH) auto
  have "take (Suc j) ((mac_addr p)[j := ?v]) = take j (mac_addr p) @ [?v]"
    using j by (simp add: take_Suc_conv_app_nth)
  moreover have "mac_bytes k (map (cell json) (e # es)) (drop j (mac_addr p)) =
      ?v # mac_bytes k (map (cell json) es) (drop (Suc j) (mac_addr p))"
    using j by (simp add: mac_bytes_def keep_def flip: Cons_nth_drop_Suc)
  ultimately show ?case using a v j IH by simp
qed

lemma at_append: "at (xs @ ys) (length xs + i) = at ys i"
  by (simp add: at_def)

lemma at_here: "at (xs @ y # ys) (length xs) = Some y"
  by (simp add: at_def)

lemma member_mac: "length (mac_addr (member_effect k json m p)) = length (mac_addr p)"
  if "member_ok json m" "length (mac_addr p) = 6"
  using that by (cases m) (auto simp: change_def mac_bytes_def Let_def)

lemma key_loop_spec:
  assumes "\<forall>t\<in>set toks. good_token json t" "toks = pre @ concat (map member_tokens ms)"
    and "\<forall>m\<in>set ms. member_ok json m" "length (mac_addr p) = 6"
  shows "key_loop k json toks (length toks) (length pre) p = Some (fold (member_effect k json) ms p)"
  using assms(2-)
proof (induction ms arbitrary: pre p)
  case Nil
  then show ?case by (subst key_loop.simps) simp
next
  case (Cons m ms)
  note unf = key_loop.simps [of k json toks "length toks" "length pre" p]
  have IH: "key_loop k json toks (length toks) (length pre + length (member_tokens m)) q =
      Some (fold (member_effect k json) ms q)" if "length (mac_addr q) = 6" for q
    using Cons.IH [of "pre @ member_tokens m" q] Cons.prems(1,2) that by simp
  have next_info: "length (mac_addr (member_effect k json m p)) = 6"
    using member_mac [of json m p k] Cons.prems(2,3) by simp
  show ?case
  proof (cases m)
    case (Setting s kt v)
    then have toks: "toks = pre @ kt # v # concat (map member_tokens ms)" using Cons.prems(1) by simp
    have g: "good_token json kt" "good_token json v" using assms(1) by (simp_all add: toks)
    have at1: "at toks (length pre) = Some kt" by (simp add: toks at_here)
    have at2: "at toks (length pre + 1) = Some v" unfolding toks at_append by (simp add: at_def)
    have "match_key json kt (scalar_keys k) = Some (Some (change k s))"
      using match_key_named [OF g(1), of s k] Cons.prems(2) Setting by simp
    then show ?thesis using IH [OF next_info] Setting at1 at2 value_text_cell [OF g(2)]
      unfolding unf by (simp add: toks)
  next
    case (Ignored t)
    then have toks: "toks = pre @ t # concat (map member_tokens ms)" using Cons.prems(1) by simp
    have g: "good_token json t" using assms(1) by (simp add: toks)
    have o: "\<not> list_ex (names json t) settings" "\<not> names json t ''mac_addr''"
      using Cons.prems(2) Ignored by simp_all
    have at1: "at toks (length pre) = Some t" by (simp add: toks at_here)
    show ?thesis using IH [OF next_info] Ignored at1 match_key_other [OF g o(1)] o(2) jsoneq_names [OF g]
      unfolding unf by (simp add: toks)
  next
    case (Mac_bytes kt a es)
    then have toks: "toks = pre @ kt # a # es @ concat (map member_tokens ms)" using Cons.prems(1) by simp
    have g: "good_token json kt" "\<forall>t\<in>set es. good_token json t" using assms(1) by (simp_all add: toks)
    have ok: "names json kt ''mac_addr''" "tk_type a = JSMN_ARRAY" "tk_size a = int (length es)" "length es \<le> 6"
      using Cons.prems(2) Mac_bytes by simp_all
    have at1: "at toks (length pre) = Some kt" by (simp add: toks at_here)
    have at2: "at toks (length pre + 1) = Some a" unfolding toks at_append by (simp add: at_def)
    have at3: "at toks (length pre + 2 + 0 + x) = Some (es ! x)" if "x < length es" for x
      using that unfolding toks add.assoc at_append by (simp add: at_def nth_append)
    have set: "set_mac k json toks (length pre) 0 (length es) p =
        Some (p\<lparr>mac_addr := mac_bytes k (map (cell json) es) (mac_addr p)\<rparr>)"
      using set_mac_spec [OF g(2) at3, of p k] ok(4) Cons.prems(3) by simp
    show ?thesis using IH [OF next_info] Mac_bytes at1 at2 ok set match_key_other [OF g(1) mac_key [OF ok(1)]]
        jsoneq_names [OF g(1)]
      unfolding unf by (simp add: toks ac_simps)
  qed
qed

lemma parsed_good:
  assumes "jsmn_parse jsmn_init json (length json) (Some (replicate n zero_token)) n = Some (int n, p, Some toks)"
  shows "length toks = n" "\<forall>t\<in>set toks. good_token json t"
  using jsmn_parse_ok [of "length json" json n "replicate n zero_token"] assms
  by (auto simp: jsmn_errors good_token_def in_set_conv_nth)

text \<open>
  C27: A configuration means what its members say. Let the file have fewer than 65536 bytes and
  tokenize, in an array of \<open>n < 65536\<close> tokens, into exactly \<open>n\<close> tokens that are an object and a
  sequence of members: known keys followed by one value token, \<^verbatim>\<open>mac_addr\<close> followed by an array of
  at most six tokens, whatever these contain, and tokens that are no known key. Then
  \<^verbatim>\<open>onic_get_platform_info\<close> returns 0, without an access outside the tokens, the file or the MAC
  address, and the platform information has been changed by the members in their order, and by
  nothing else: each key sets its own field, with the value its number parser returns (left alone
  when the parser rejects the text) or with the truth test on the first byte, and the tokens of
  the array set the leading bytes of the address. When the token array cannot be allocated, it
  returns \<^verbatim>\<open>-ENOMEM\<close> and changes nothing.
\<close>

theorem config_read:
  assumes "length json < 65536" "length (mac_addr pinfo) = 6" "n < 65536"
    and "jsmn_parse jsmn_init json (length json) (Some (replicate n zero_token)) n =
      Some (int n, p, Some (t0 # concat (map member_tokens ms)))"
    and "tk_type t0 = JSMN_OBJECT" "\<forall>m\<in>set ms. member_ok json m"
  shows "onic_get_platform_info k (Inr json) alloc_ok pinfo =
    Some (if alloc_ok then (0, fold (member_effect k json) ms pinfo) else (- ENOMEM, pinfo))"
proof -
  let ?toks = "t0 # concat (map member_tokens ms)"
  have u: "u16_of (int x) = x" if "x < 65536" for x
    using that by (simp add: u16_of_def unat_of_nat take_bit_eq_mod)
  note s = parsed_good [OF assms(4)]
  then have n: "0 < n" by auto
  obtain q where null: "jsmn_parse jsmn_init json (length json) None 0 = Some (int n, q, None)"
    using jsmn_count_predicts [of "length json" json n "replicate n zero_token"] assms(4) by force
  have "key_loop k json ?toks n 1 pinfo = Some (fold (member_effect k json) ms pinfo)"
    using key_loop_spec [OF s(2), of "[t0]" ms pinfo k] assms(2,6) s(1) by simp
  then show ?thesis using null n assms u by (simp add: onic_get_platform_info_def at_def)
qed


text \<open>A number parser and a configuration to evaluate with.\<close>

definition digits :: "u8 list \<Rightarrow> nat \<Rightarrow> nat option" where
  "digits s base =
     (if s = [] then None
      else fold (\<lambda>c acc. case acc of None \<Rightarrow> None
             | Some v \<Rightarrow> if 48 \<le> c \<and> c \<le> 57 then Some (v * base + unat (c - 48)) else None) s (Some 0))"

definition demo_kstrto :: kstrto where
  "demo_kstrto = \<lparr>kstrtou8 = \<lambda>s b. map_option word_of_nat (digits s b),
     kstrtou16 = \<lambda>s b. map_option word_of_nat (digits s b),
     kstrtoint = \<lambda>s b. map_option int (digits s b)\<rparr>"

definition demo_info :: onic_platform_info where
  "demo_info = \<lparr>qdma_bar = 0, user_bar = 0, queue_base = 0, queue_max = 0, used_queues = 0,
     pci_msix_user_cnt = 0, pci_master_pf = False, poll_mode = False, intr_mod_en = False,
     ring_sz = 0, c2h_tmr_cnt = 0, c2h_cnt_thr = 0, c2h_buf_sz = 0, rsfec_en = False, port_id = 0,
     mac_addr = [0, 0, 0, 0, 0, 0]\<rparr>"

text \<open>\<^verbatim>\<open>{"port_id":3}\<close>, and a file with every kind of member.\<close>

definition demo_json :: "u8 list" where
  "demo_json = [0x7B, 0x22, 0x70, 0x6F, 0x72, 0x74, 0x5F, 0x69, 0x64, 0x22, 0x3A, 0x33, 0x7D]"

definition full_json :: "u8 list" where
  "full_json = bytes ''{\"x\":1,\"mac_addr\":[\"1\",\"port_id\"],\"port_id\":3}''"

definition full_members :: "member list" where
  "full_members =
     [Ignored \<lparr>tk_type = JSMN_STRING, tk_start = 2, tk_end = 3, tk_size = 1\<rparr>,
      Ignored \<lparr>tk_type = JSMN_PRIMITIVE, tk_start = 5, tk_end = 6, tk_size = 0\<rparr>,
      Mac_bytes \<lparr>tk_type = JSMN_STRING, tk_start = 8, tk_end = 16, tk_size = 1\<rparr>
        \<lparr>tk_type = JSMN_ARRAY, tk_start = 18, tk_end = 33, tk_size = 2\<rparr>
        [\<lparr>tk_type = JSMN_STRING, tk_start = 20, tk_end = 21, tk_size = 0\<rparr>,
         \<lparr>tk_type = JSMN_STRING, tk_start = 24, tk_end = 31, tk_size = 0\<rparr>],
      Setting ''port_id'' \<lparr>tk_type = JSMN_STRING, tk_start = 35, tk_end = 42, tk_size = 1\<rparr>
        \<lparr>tk_type = JSMN_PRIMITIVE, tk_start = 44, tk_end = 45, tk_size = 0\<rparr>]"

definition full_root :: jsmntok_t where
  "full_root = \<lparr>tk_type = JSMN_OBJECT, tk_start = 0, tk_end = 46, tk_size = 3\<rparr>"

lemma full_parse:
  "jsmn_parse jsmn_init full_json (length full_json) (Some (replicate 9 zero_token)) 9 =
     Some (int 9, \<lparr>jp_pos = 46, jp_toknext = 9, jp_toksuper = -1\<rparr>, Some (full_root # concat (map member_tokens full_members)))"
  by code_simp

lemma full_ok: "list_all (member_ok full_json) full_members"
  by code_simp

theorem config_read_witness:
  "onic_get_platform_info demo_kstrto (Inr full_json) True demo_info =
     Some (0, demo_info\<lparr>port_id := 3, mac_addr := [1, 0, 0, 0, 0, 0]\<rparr>)"
proof -
  have "fold (member_effect demo_kstrto full_json) full_members demo_info =
      demo_info\<lparr>port_id := 3, mac_addr := [1, 0, 0, 0, 0, 0]\<rparr>"
    by code_simp
  moreover have "length full_json < 65536" by code_simp
  ultimately show ?thesis
    using config_read [OF _ _ _ full_parse, of demo_info demo_kstrto True] full_ok
    by (simp add: list_all_iff full_root_def demo_info_def)
qed

lemma match_key_not_string: "tk_type t \<noteq> JSMN_STRING \<Longrightarrow> match_key json t ks = Some None"
  by (induction ks) (auto simp: jsoneq_def)

subsection \<open>Where it is not\<close>

text \<open>One round of the loop, by the kind of the key.\<close>

lemma key_loop_fault: "i < n \<Longrightarrow> at toks i = None \<Longrightarrow> key_loop k json toks n i p = None"
  by (subst key_loop.simps) simp

lemma key_loop_skip:
  "i < n \<Longrightarrow> at toks i = Some t \<Longrightarrow> match_key json t (scalar_keys k) = Some None \<Longrightarrow>
   jsoneq json t ''mac_addr'' = Some False \<Longrightarrow> key_loop k json toks n i p = key_loop k json toks n (i + 1) p"
  by (subst key_loop.simps) simp

lemma key_loop_no_array:
  "i < n \<Longrightarrow> at toks i = Some t \<Longrightarrow> match_key json t (scalar_keys k) = Some None \<Longrightarrow>
   jsoneq json t ''mac_addr'' = Some True \<Longrightarrow> at toks (i + 1) = Some v \<Longrightarrow> tk_type v \<noteq> JSMN_ARRAY \<Longrightarrow>
   key_loop k json toks n i p = key_loop k json toks n (i + 1) p"
  by (subst key_loop.simps) simp

lemma key_loop_scalar:
  "i < n \<Longrightarrow> at toks i = Some t \<Longrightarrow> match_key json t (scalar_keys k) = Some (Some f) \<Longrightarrow>
   at toks (i + 1) = Some v \<Longrightarrow> value_text json v = Some buf \<Longrightarrow>
   key_loop k json toks n i p = key_loop k json toks n (i + 2) (f buf p)"
  by (subst key_loop.simps) simp

text \<open>The same file without its closing brace.\<close>

definition cut_json :: "u8 list" where
  "cut_json = butlast demo_json"

definition cut_tokens :: "jsmntok_t list" where
  "cut_tokens =
     [\<lparr>tk_type = JSMN_OBJECT, tk_start = 0, tk_end = -1, tk_size = 1\<rparr>,
      \<lparr>tk_type = JSMN_STRING, tk_start = 2, tk_end = 9, tk_size = 1\<rparr>,
      \<lparr>tk_type = JSMN_PRIMITIVE, tk_start = 11, tk_end = 12, tk_size = 0\<rparr>]"

lemma cut_parse:
  "jsmn_parse jsmn_init cut_json 12 None 0 = Some (3, \<lparr>jp_pos = 12, jp_toknext = 0, jp_toksuper = -1\<rparr>, None)"
  "jsmn_parse jsmn_init cut_json 12 (Some (replicate 3 zero_token)) 3 =
     Some (JSMN_ERROR_PART, \<lparr>jp_pos = 12, jp_toknext = 3, jp_toksuper = 1\<rparr>, Some cut_tokens)"
  by code_simp+

lemma cut_lengths:
  "u16_of JSMN_ERROR_PART = 65533" "u16_of 3 = 3" "u16_of 12 = 12" "length cut_json = 12"
  by (simp_all add: u16_of_def jsmn_errors cut_json_def demo_json_def)

text \<open>
  C28: A truncated file makes the loop run off the token array. The counting run accepts
  \<^verbatim>\<open>{"port_id":3\<close> with three tokens, the second run returns \<open>-3\<close>, which the 16-bit variable
  holds as 65533; the function goes on and reads token 3 of 3. The value is faulty for every
  number parser and every initial configuration.
\<close>

theorem truncated_config_overruns:
  "jsmn_parse jsmn_init cut_json 12 None 0 = Some (3, \<lparr>jp_pos = 12, jp_toknext = 0, jp_toksuper = -1\<rparr>, None) \<and>
   onic_get_platform_info k (Inr cut_json) True pinfo = None"
proof -
  note p = cut_parse cut_lengths
  obtain m where m: "match_key cut_json (cut_tokens ! 1) (scalar_keys k) = Some m"
    using match_key_good [of cut_json "cut_tokens ! 1"] cut_lengths(4) by (fastforce simp: good_token_def cut_tokens_def)
  obtain b where b: "jsoneq cut_json (cut_tokens ! 1) ''mac_addr'' = Some b"
    using jsoneq_good [of cut_json "cut_tokens ! 1"] cut_lengths(4) by (fastforce simp: good_token_def cut_tokens_def)
  have v: "value_text cut_json (cut_tokens ! 2) \<noteq> None"
    by (rule value_text_good) (simp add: good_token_def cut_tokens_def cut_lengths(4))
  obtain w where w: "value_text cut_json (cut_tokens ! 2) = Some w" using v by blast
  have t: "at cut_tokens 1 = Some (cut_tokens ! 1)" "at cut_tokens 2 = Some (cut_tokens ! 2)" "at cut_tokens 3 = None"
    by (simp_all add: at_def cut_tokens_def)
  have ty: "tk_type (cut_tokens ! 2) \<noteq> JSMN_ARRAY" by (simp add: cut_tokens_def)
  have k2: "match_key cut_json (cut_tokens ! 2) (scalar_keys k) = Some None"
    "jsoneq cut_json (cut_tokens ! 2) ''mac_addr'' = Some False"
    by (rule match_key_not_string, simp add: cut_tokens_def) (simp add: jsoneq_def cut_tokens_def)
  have l3: "key_loop k cut_json cut_tokens 65533 3 q = None" for q
    by (rule key_loop_fault) (simp_all add: t)
  then have l2: "key_loop k cut_json cut_tokens 65533 2 q = None" for q
    using key_loop_skip [OF _ t(2) k2, of 65533 q] by simp
  have "key_loop k cut_json cut_tokens 65533 1 pinfo = None"
  proof (cases m)
    case None
    then have m': "match_key cut_json (cut_tokens ! 1) (scalar_keys k) = Some None" using m by simp
    show ?thesis
    proof (cases b)
      case True
      then show ?thesis using key_loop_no_array [OF _ t(1) m' _ _, of 65533 "cut_tokens ! 2" pinfo] b t l2 ty
          by (simp only: one_add_one simp_thms zero_less_numeral)
    next
      case False
      then show ?thesis using key_loop_skip [OF _ t(1) m', of 65533 pinfo] b l2 by (simp only: one_add_one simp_thms zero_less_numeral)
    qed
  next
    case (Some f)
    have "key_loop k cut_json cut_tokens 65533 1 pinfo = key_loop k cut_json cut_tokens 65533 (1 + 2) (f w pinfo)"
      by (rule key_loop_scalar [OF _ t(1) _ _ w]) (use m Some t in \<open>simp_all add: numeral_2_eq_2\<close>)
    then show ?thesis using l3 by (simp add: numeral_3_eq_3)
  qed
  then show ?thesis using p by (simp add: onic_get_platform_info_def at_def cut_tokens_def)
qed

end
