(* ===== verification/Soft_Regs.thy ===== *)
theory Soft_Regs
  imports Soft_Csr
begin

text \<open>
  The register list of the soft IP (\<^verbatim>\<open>qdma_soft_access.c\<close>): the table of configuration
  registers, the group reads a virtual function may request through the mailbox, and the
  register dump with no text buffer. Register names and the text output are not modelled; the
  other columns of the table the modelled code does not use (\<^verbatim>\<open>shift\<close>, \<^verbatim>\<open>len\<close>,
  \<^verbatim>\<open>is_debug_reg\<close>, the bit fields) are zero or null in every row.
\<close>

subsection \<open>The table\<close>

datatype qdma_reg_read_type =
  QDMA_REG_READ_PF_ONLY | QDMA_REG_READ_VF_ONLY | QDMA_REG_READ_PF_VF | QDMA_REG_READ_MAX

record xreg_info =
  xr_addr :: u32
  xr_repeat :: nat
  xr_step :: nat
  xr_mode :: u8
  xr_read_type :: qdma_reg_read_type

definition creg :: "u32 \<Rightarrow> nat \<Rightarrow> nat \<Rightarrow> u8 \<Rightarrow> qdma_reg_read_type \<Rightarrow> xreg_info" where
  "creg a n st mo rt = \<lparr>xr_addr = a, xr_repeat = n, xr_step = st, xr_mode = mo, xr_read_type = rt\<rparr>"

definition QDMA_MM_EN_SHIFT :: nat where "QDMA_MM_EN_SHIFT = 0"
definition QDMA_CMPT_EN_SHIFT :: nat where "QDMA_CMPT_EN_SHIFT = 1"
definition QDMA_ST_EN_SHIFT :: nat where "QDMA_ST_EN_SHIFT = 2"
definition QDMA_MAILBOX_EN_SHIFT :: nat where "QDMA_MAILBOX_EN_SHIFT = 3"

definition QDMA_MM_MODE :: u8 where "QDMA_MM_MODE = push_bit QDMA_MM_EN_SHIFT 1"
definition QDMA_COMPLETION_MODE :: u8 where "QDMA_COMPLETION_MODE = push_bit QDMA_CMPT_EN_SHIFT 1"
definition QDMA_ST_MODE :: u8 where "QDMA_ST_MODE = push_bit QDMA_ST_EN_SHIFT 1"
definition QDMA_MAILBOX :: u8 where "QDMA_MAILBOX = push_bit QDMA_MAILBOX_EN_SHIFT 1"
definition QDMA_MM_ST_MODE :: u8 where
  "QDMA_MM_ST_MODE = QDMA_MM_MODE OR QDMA_COMPLETION_MODE OR QDMA_ST_MODE"

lemmas reg_mode_defs = QDMA_MM_EN_SHIFT_def QDMA_CMPT_EN_SHIFT_def QDMA_ST_EN_SHIFT_def
  QDMA_MAILBOX_EN_SHIFT_def QDMA_MM_MODE_def QDMA_COMPLETION_MODE_def QDMA_ST_MODE_def
  QDMA_MAILBOX_def QDMA_MM_ST_MODE_def

definition GET_CAPABILITY_MASK :: "1 word \<Rightarrow> 1 word \<Rightarrow> 1 word \<Rightarrow> 1 word \<Rightarrow> u32" where
  "GET_CAPABILITY_MASK mm st mm_cmpt mailbox =
     push_bit QDMA_MM_EN_SHIFT (ucast mm) OR
     push_bit QDMA_CMPT_EN_SHIFT (ucast mm_cmpt OR ucast st) OR
     push_bit QDMA_ST_EN_SHIFT (ucast st) OR
     push_bit QDMA_MAILBOX_EN_SHIFT (ucast mailbox)"

text \<open>The rows by register block, in the order of the table, then the empty last row.\<close>

definition config_regs_glbl :: "xreg_info list" where
  "config_regs_glbl =
    [creg 0x00 1 0 QDMA_MM_ST_MODE QDMA_REG_READ_PF_ONLY,
     creg 0x04 1 0 QDMA_MM_ST_MODE QDMA_REG_READ_PF_ONLY,
     creg 0x08 1 0 QDMA_MM_ST_MODE QDMA_REG_READ_PF_ONLY,
     creg 0x0c 1 0 QDMA_MM_ST_MODE QDMA_REG_READ_PF_ONLY,
     creg 0x10 1 0 QDMA_MM_ST_MODE QDMA_REG_READ_PF_ONLY,
     creg 0x14 1 0 QDMA_MM_ST_MODE QDMA_REG_READ_PF_ONLY,
     creg 0x18 1 0 QDMA_MM_ST_MODE QDMA_REG_READ_PF_ONLY,
     creg 0x1c 1 0 QDMA_MM_ST_MODE QDMA_REG_READ_PF_ONLY,
     creg 0x40 1 0 QDMA_MM_ST_MODE QDMA_REG_READ_PF_ONLY,
     creg 0x44 1 0 QDMA_MM_ST_MODE QDMA_REG_READ_PF_ONLY,
     creg 0x4c 1 0 QDMA_MM_ST_MODE QDMA_REG_READ_PF_ONLY,
     creg 0x80 8 0 QDMA_MM_ST_MODE QDMA_REG_READ_PF_ONLY,
     creg 0xf0 1 0 QDMA_MM_ST_MODE QDMA_REG_READ_PF_ONLY,
     creg 0xf4 1 0 QDMA_MM_ST_MODE QDMA_REG_READ_PF_ONLY,
     creg 0xf8 1 0 QDMA_MM_ST_MODE QDMA_REG_READ_PF_ONLY,
     creg 0xfc 1 0 QDMA_MM_ST_MODE QDMA_REG_READ_PF_ONLY,
     creg 0x100 1 0 QDMA_MM_ST_MODE QDMA_REG_READ_PF_ONLY,
     creg 0x104 1 0 QDMA_MM_ST_MODE QDMA_REG_READ_PF_ONLY,
     creg 0x108 1 0 QDMA_MM_ST_MODE QDMA_REG_READ_PF_ONLY,
     creg 0x10c 1 0 QDMA_MM_ST_MODE QDMA_REG_READ_PF_ONLY,
     creg 0x110 1 0 QDMA_MM_ST_MODE QDMA_REG_READ_PF_ONLY,
     creg 0x114 1 0 QDMA_MM_ST_MODE QDMA_REG_READ_PF_ONLY,
     creg 0x118 1 0 QDMA_MM_ST_MODE QDMA_REG_READ_PF_ONLY,
     creg 0x11c 1 0 QDMA_MM_ST_MODE QDMA_REG_READ_PF_ONLY,
     creg 0x120 1 0 QDMA_MM_ST_MODE QDMA_REG_READ_PF_ONLY,
     creg 0x128 1 0 QDMA_MM_ST_MODE QDMA_REG_READ_PF_ONLY,
     creg 0x12c 1 0 QDMA_MM_ST_MODE QDMA_REG_READ_PF_ONLY,
     creg 0x130 1 0 QDMA_MM_ST_MODE QDMA_REG_READ_PF_ONLY,
     creg 0x134 1 0 QDMA_MM_ST_MODE QDMA_REG_READ_PF_ONLY,
     creg 0x1b8 2 0 QDMA_MM_ST_MODE QDMA_REG_READ_PF_ONLY,
     creg 0x1c0 2 0 QDMA_MM_ST_MODE QDMA_REG_READ_PF_ONLY,
     creg 0x1c8 2 0 QDMA_MM_ST_MODE QDMA_REG_READ_PF_ONLY,
     creg 0x204 16 1 QDMA_MM_ST_MODE QDMA_REG_READ_PF_ONLY,
     creg 0x248 1 0 QDMA_MM_ST_MODE QDMA_REG_READ_PF_VF,
     creg 0x24c 1 0 QDMA_MM_ST_MODE QDMA_REG_READ_PF_VF,
     creg 0x250 1 0 QDMA_MM_ST_MODE QDMA_REG_READ_PF_VF,
     creg 0x254 1 0 QDMA_MM_ST_MODE QDMA_REG_READ_PF_VF,
     creg 0x258 1 0 QDMA_MM_ST_MODE QDMA_REG_READ_PF_VF,
     creg 0x25c 2 0 QDMA_MM_ST_MODE QDMA_REG_READ_PF_VF,
     creg 0x264 1 0 QDMA_MM_ST_MODE QDMA_REG_READ_PF_VF,
     creg 0x268 1 0 QDMA_MM_ST_MODE QDMA_REG_READ_PF_VF,
     creg 0x26c 1 0 QDMA_MM_ST_MODE QDMA_REG_READ_PF_VF,
     creg 0x270 2 0 QDMA_MM_ST_MODE QDMA_REG_READ_PF_VF,
     creg 0x27c 1 0 QDMA_MM_ST_MODE QDMA_REG_READ_PF_VF,
     creg 0x288 1 0 QDMA_MM_ST_MODE QDMA_REG_READ_PF_VF]"

definition config_regs_ctxt_c2h :: "xreg_info list" where
  "config_regs_ctxt_c2h =
    [creg 0x400 4 0 QDMA_MM_ST_MODE QDMA_REG_READ_PF_ONLY,
     creg 0x804 8 0 QDMA_MM_ST_MODE QDMA_REG_READ_PF_ONLY,
     creg 0x824 8 0 QDMA_MM_ST_MODE QDMA_REG_READ_PF_ONLY,
     creg 0x844 1 0 QDMA_MM_ST_MODE QDMA_REG_READ_PF_ONLY,
     creg 0xa00 16 0 QDMA_COMPLETION_MODE QDMA_REG_READ_PF_ONLY,
     creg 0xa40 16 0 QDMA_COMPLETION_MODE QDMA_REG_READ_PF_ONLY,
     creg 0xa88 1 0 QDMA_ST_MODE QDMA_REG_READ_PF_VF,
     creg 0xa8c 1 0 QDMA_ST_MODE QDMA_REG_READ_PF_VF,
     creg 0xa90 1 0 QDMA_ST_MODE QDMA_REG_READ_PF_VF,
     creg 0xa94 1 0 QDMA_ST_MODE QDMA_REG_READ_PF_VF,
     creg 0xa98 1 0 QDMA_ST_MODE QDMA_REG_READ_PF_VF,
     creg 0xa9c 1 0 QDMA_ST_MODE QDMA_REG_READ_PF_ONLY,
     creg 0xaa0 1 0 QDMA_ST_MODE QDMA_REG_READ_PF_ONLY,
     creg 0xaa4 1 0 QDMA_ST_MODE QDMA_REG_READ_PF_ONLY,
     creg 0xaa8 1 0 QDMA_ST_MODE QDMA_REG_READ_PF_ONLY,
     creg 0xaac 1 0 QDMA_ST_MODE QDMA_REG_READ_PF_ONLY,
     creg 0xab0 16 0 QDMA_ST_MODE QDMA_REG_READ_PF_ONLY,
     creg 0xaf0 1 0 QDMA_ST_MODE QDMA_REG_READ_PF_VF,
     creg 0xaf4 1 0 QDMA_ST_MODE QDMA_REG_READ_PF_VF,
     creg 0xaf8 1 0 QDMA_ST_MODE QDMA_REG_READ_PF_VF,
     creg 0xafc 1 0 QDMA_ST_MODE QDMA_REG_READ_PF_VF]"

definition config_regs_c2h_more :: "xreg_info list" where
  "config_regs_c2h_more =
    [creg 0xb00 1 0 QDMA_ST_MODE QDMA_REG_READ_PF_VF,
     creg 0xb04 1 0 QDMA_ST_MODE QDMA_REG_READ_PF_VF,
     creg 0xb08 1 0 QDMA_ST_MODE QDMA_REG_READ_PF_ONLY,
     creg 0xb0c 1 0 QDMA_ST_MODE QDMA_REG_READ_PF_ONLY,
     creg 0xb10 1 0 QDMA_ST_MODE QDMA_REG_READ_PF_VF,
     creg 0xb14 1 0 QDMA_ST_MODE QDMA_REG_READ_PF_VF,
     creg 0xb18 1 0 QDMA_ST_MODE QDMA_REG_READ_PF_ONLY,
     creg 0xb1c 4 0 QDMA_ST_MODE QDMA_REG_READ_PF_ONLY,
     creg 0xb2c 1 0 QDMA_ST_MODE QDMA_REG_READ_PF_ONLY,
     creg 0xb30 1 0 QDMA_ST_MODE QDMA_REG_READ_PF_VF,
     creg 0xb34 1 0 QDMA_ST_MODE QDMA_REG_READ_PF_ONLY,
     creg 0xb38 1 0 QDMA_ST_MODE QDMA_REG_READ_PF_ONLY,
     creg 0xb3c 1 0 QDMA_ST_MODE QDMA_REG_READ_PF_ONLY,
     creg 0xb40 1 0 QDMA_ST_MODE QDMA_REG_READ_PF_ONLY,
     creg 0xb44 1 0 QDMA_ST_MODE QDMA_REG_READ_PF_ONLY,
     creg 0xb48 1 0 QDMA_ST_MODE QDMA_REG_READ_PF_ONLY,
     creg 0xb4c 1 0 QDMA_ST_MODE QDMA_REG_READ_PF_ONLY,
     creg 0xb50 1 0 QDMA_ST_MODE QDMA_REG_READ_PF_ONLY,
     creg 0xb54 1 0 QDMA_ST_MODE QDMA_REG_READ_PF_VF,
     creg 0xb58 1 0 QDMA_ST_MODE QDMA_REG_READ_PF_VF,
     creg 0xb5c 1 0 QDMA_ST_MODE QDMA_REG_READ_PF_VF,
     creg 0xb60 1 0 QDMA_ST_MODE QDMA_REG_READ_PF_VF,
     creg 0xb64 1 0 QDMA_ST_MODE QDMA_REG_READ_PF_ONLY,
     creg 0xb68 1 0 QDMA_ST_MODE QDMA_REG_READ_PF_ONLY,
     creg 0xb6c 1 0 QDMA_ST_MODE QDMA_REG_READ_PF_ONLY,
     creg 0xb70 1 0 QDMA_ST_MODE QDMA_REG_READ_PF_ONLY,
     creg 0xb74 1 0 QDMA_ST_MODE QDMA_REG_READ_PF_VF,
     creg 0xb78 1 0 QDMA_ST_MODE QDMA_REG_READ_PF_VF,
     creg 0xb7c 1 0 QDMA_ST_MODE QDMA_REG_READ_PF_ONLY,
     creg 0xb80 1 0 QDMA_ST_MODE QDMA_REG_READ_PF_ONLY,
     creg 0xb84 1 0 QDMA_ST_MODE QDMA_REG_READ_PF_ONLY,
     creg 0xb88 1 0 QDMA_ST_MODE QDMA_REG_READ_PF_ONLY,
     creg 0xb8c 1 0 QDMA_ST_MODE QDMA_REG_READ_PF_ONLY,
     creg 0xb90 1 0 QDMA_ST_MODE QDMA_REG_READ_PF_ONLY,
     creg 0xb94 1 0 QDMA_ST_MODE QDMA_REG_READ_PF_ONLY,
     creg 0xb98 1 0 QDMA_ST_MODE QDMA_REG_READ_PF_ONLY,
     creg 0xb9c 1 0 QDMA_ST_MODE QDMA_REG_READ_PF_ONLY,
     creg 0xba0 1 0 QDMA_ST_MODE QDMA_REG_READ_PF_ONLY,
     creg 0xba4 1 0 QDMA_ST_MODE QDMA_REG_READ_PF_ONLY,
     creg 0xba8 1 0 QDMA_ST_MODE QDMA_REG_READ_PF_ONLY,
     creg 0xbac 1 0 QDMA_ST_MODE QDMA_REG_READ_PF_ONLY,
     creg 0xbb0 1 0 QDMA_ST_MODE QDMA_REG_READ_PF_ONLY,
     creg 0xbb4 1 0 QDMA_ST_MODE QDMA_REG_READ_PF_ONLY,
     creg 0xbb8 1 0 QDMA_ST_MODE QDMA_REG_READ_PF_ONLY,
     creg 0xbbc 1 0 QDMA_ST_MODE QDMA_REG_READ_PF_ONLY,
     creg 0xbc0 1 0 QDMA_ST_MODE QDMA_REG_READ_PF_ONLY,
     creg 0xbc4 7 0 QDMA_ST_MODE QDMA_REG_READ_PF_ONLY,
     creg 0xbe0 1 0 QDMA_ST_MODE QDMA_REG_READ_PF_ONLY,
     creg 0xbe4 1 0 QDMA_ST_MODE QDMA_REG_READ_PF_ONLY,
     creg 0xbe8 1 0 QDMA_ST_MODE QDMA_REG_READ_PF_ONLY]"

definition config_regs_h2c_mm_mbox :: "xreg_info list" where
  "config_regs_h2c_mm_mbox =
    [creg 0xe00 1 0 QDMA_ST_MODE QDMA_REG_READ_PF_VF,
     creg 0xe04 1 0 QDMA_ST_MODE QDMA_REG_READ_PF_VF,
     creg 0xe08 1 0 QDMA_ST_MODE QDMA_REG_READ_PF_VF,
     creg 0xe0c 5 0 QDMA_ST_MODE QDMA_REG_READ_PF_ONLY,
     creg 0xe20 1 0 QDMA_ST_MODE QDMA_REG_READ_PF_ONLY,
     creg 0xe24 1 0 QDMA_ST_MODE QDMA_REG_READ_PF_ONLY,
     creg 0xe28 1 0 QDMA_ST_MODE QDMA_REG_READ_PF_ONLY,
     creg 0x1004 3 0 QDMA_MM_MODE QDMA_REG_READ_PF_ONLY,
     creg 0x1040 2 0 QDMA_MM_MODE QDMA_REG_READ_PF_ONLY,
     creg 0x1048 1 0 QDMA_MM_MODE QDMA_REG_READ_PF_ONLY,
     creg 0x1054 1 0 QDMA_MM_MODE QDMA_REG_READ_PF_ONLY,
     creg 0x1058 1 0 QDMA_MM_MODE QDMA_REG_READ_PF_ONLY,
     creg 0x105c 1 0 QDMA_MM_MODE QDMA_REG_READ_PF_ONLY,
     creg 0x10c0 1 0 QDMA_MM_MODE QDMA_REG_READ_PF_ONLY,
     creg 0x10c4 2 0 QDMA_MM_MODE QDMA_REG_READ_PF_ONLY,
     creg 0x10cc 2 0 QDMA_MM_MODE QDMA_REG_READ_PF_ONLY,
     creg 0x10e8 2 0 QDMA_MM_MODE QDMA_REG_READ_PF_ONLY,
     creg 0x1204 3 0 QDMA_MM_MODE QDMA_REG_READ_PF_ONLY,
     creg 0x1240 1 0 QDMA_MM_MODE QDMA_REG_READ_PF_ONLY,
     creg 0x1248 1 0 QDMA_MM_MODE QDMA_REG_READ_PF_ONLY,
     creg 0x1254 1 0 QDMA_MM_MODE QDMA_REG_READ_PF_ONLY,
     creg 0x1258 1 0 QDMA_MM_MODE QDMA_REG_READ_PF_ONLY,
     creg 0x125c 1 0 QDMA_MM_MODE QDMA_REG_READ_PF_ONLY,
     creg 0x12c0 1 0 QDMA_MM_MODE QDMA_REG_READ_PF_ONLY,
     creg 0x12c4 2 0 QDMA_MM_MODE QDMA_REG_READ_PF_ONLY,
     creg 0x12cc 2 0 QDMA_MM_MODE QDMA_REG_READ_PF_ONLY,
     creg 0x12e8 1 0 QDMA_MM_MODE QDMA_REG_READ_PF_ONLY,
     creg 0x12ec 1 0 QDMA_MM_MODE QDMA_REG_READ_PF_ONLY,
     creg 0x2400 1 0 QDMA_MAILBOX QDMA_REG_READ_PF_ONLY,
     creg 0x2404 1 0 QDMA_MAILBOX QDMA_REG_READ_PF_ONLY,
     creg 0x2408 1 0 QDMA_MAILBOX QDMA_REG_READ_PF_ONLY,
     creg 0x240c 1 0 QDMA_MAILBOX QDMA_REG_READ_PF_ONLY,
     creg 0x2410 1 0 QDMA_MAILBOX QDMA_REG_READ_PF_ONLY,
     creg 0x2420 8 0 QDMA_MAILBOX QDMA_REG_READ_PF_ONLY,
     creg 0x2500 1 0 QDMA_MAILBOX QDMA_REG_READ_PF_ONLY,
     creg 0x2800 32 0 QDMA_MAILBOX QDMA_REG_READ_PF_ONLY,
     creg 0x2c00 32 0 QDMA_MAILBOX QDMA_REG_READ_PF_ONLY]"

definition qdma_config_regs :: "xreg_info list" where
  "qdma_config_regs =
     config_regs_glbl @ config_regs_ctxt_c2h @ config_regs_c2h_more @ config_regs_h2c_mm_mbox @
     [creg 0 0 0 0 QDMA_REG_READ_PF_ONLY]"

definition qdma_get_config_num_regs :: nat where
  "qdma_get_config_num_regs = length qdma_config_regs"

definition qdma_get_config_regs :: "xreg_info list" where
  "qdma_get_config_regs = qdma_config_regs"

subsection \<open>Reading a group of registers\<close>

definition QDMA_MAX_REGISTER_DUMP :: nat where "QDMA_MAX_REGISTER_DUMP = 14"

definition QDMA_REG_GROUP_1_START_ADDR :: u32 where "QDMA_REG_GROUP_1_START_ADDR = 0x000"
definition QDMA_REG_GROUP_2_START_ADDR :: u32 where "QDMA_REG_GROUP_2_START_ADDR = 0x400"
definition QDMA_REG_GROUP_3_START_ADDR :: u32 where "QDMA_REG_GROUP_3_START_ADDR = 0xB00"
definition QDMA_REG_GROUP_4_START_ADDR :: u32 where "QDMA_REG_GROUP_4_START_ADDR = 0x1014"

lemmas reg_group_defs = QDMA_REG_GROUP_1_START_ADDR_def QDMA_REG_GROUP_2_START_ADDR_def
  QDMA_REG_GROUP_3_START_ADDR_def QDMA_REG_GROUP_4_START_ADDR_def

record qdma_reg_data =
  rd_addr :: u32
  rd_val :: u32

text \<open>The index of the first row with the address.\<close>

fun reg_index_of :: "u32 \<Rightarrow> xreg_info list \<Rightarrow> nat option" where
  "reg_index_of a [] = None"
| "reg_index_of a (r # rs) =
     (if xr_addr r = a then Some 0 else map_option Suc (reg_index_of a rs))"

text \<open>The result and the index; the last row of the table is never looked at.\<close>

definition get_reg_entry :: "u32 \<Rightarrow> int \<times> int" where
  "get_reg_entry reg_addr =
     (case reg_index_of reg_addr (butlast qdma_config_regs) of
        Some i \<Rightarrow> (0, int i)
      | None \<Rightarrow> (inv_param, -1))"

text \<open>The inner loop: the words \<open>js\<close> of one row, as long as there is room for another one.\<close>

fun repeat_regs ::
  "hw_env \<Rightarrow> u32 \<Rightarrow> nat list \<Rightarrow> qdma_reg_data list \<Rightarrow> hw_log \<Rightarrow> qdma_reg_data list \<times> hw_log" where
  "repeat_regs env addr [] regs s = (regs, s)"
| "repeat_regs env addr (j # js) regs s =
     (if length regs < QDMA_MAX_REGISTER_DUMP then
        (let a = addr + of_nat j * 4; (v, s1) = qdma_reg_read env a s in
         repeat_regs env addr js (regs @ [\<lparr>rd_addr = a, rd_val = v\<rparr>]) s1)
      else (regs, s))"

definition reg_skipped :: "u32 \<Rightarrow> xreg_info \<Rightarrow> bool" where
  "reg_skipped cap r \<longleftrightarrow> cap AND ucast (xr_mode r) = 0 \<or> xr_read_type r = QDMA_REG_READ_PF_ONLY"

fun collect_regs ::
  "hw_env \<Rightarrow> u32 \<Rightarrow> xreg_info list \<Rightarrow> qdma_reg_data list \<Rightarrow> hw_log \<Rightarrow> qdma_reg_data list \<times> hw_log" where
  "collect_regs env cap [] regs s = (regs, s)"
| "collect_regs env cap (r # rs) regs s =
     (if length regs < QDMA_MAX_REGISTER_DUMP then
        (if reg_skipped cap r then collect_regs env cap rs regs s
         else (let (regs1, s1) = repeat_regs env (xr_addr r) [0..<xr_repeat r] regs s in
               collect_regs env cap rs regs1 s1))
      else (regs, s))"

definition reg_group_start :: "u16 \<Rightarrow> u32 option" where
  "reg_group_start g =
     (if g = 0 then Some QDMA_REG_GROUP_1_START_ADDR
      else if g = 1 then Some QDMA_REG_GROUP_2_START_ADDR
      else if g = 2 then Some QDMA_REG_GROUP_3_START_ADDR
      else if g = 3 then Some QDMA_REG_GROUP_4_START_ADDR
      else None)"

text \<open>
  The number of registers and the array are the caller's; an error leaves them alone. The
  array is \<open>None\<close> for a null pointer; a result \<open>None\<close> is a write beyond its end.
\<close>

definition qdma_read_reg_list ::
  "dev_hndl \<Rightarrow> u8 \<Rightarrow> u16 \<Rightarrow> u16 \<Rightarrow> qdma_reg_data list option \<Rightarrow> hw_log \<Rightarrow>
     (int \<times> u16 \<times> qdma_reg_data list option \<times> hw_log) option" where
  "qdma_read_reg_list dev_hndl is_vf reg_rd_group total_regs reg_list s =
     (if is_vf = 0 then Some (neg_err QDMA_ERR_HWACC_FEATURE_NOT_SUPPORTED, total_regs, reg_list, s)
      else case (dev_hndl, reg_list) of
        (Some env, Some arr) \<Rightarrow>
          (let (cap, s1) = read_dev_attributes env s in
           case reg_group_start reg_rd_group of
             None \<Rightarrow> Some (inv_param, total_regs, reg_list, s1)
           | Some start \<Rightarrow>
               (let (rv, i) = get_reg_entry start in
                if rv < 0 then Some (rv, total_regs, reg_list, s1)
                else
                  (let rows = drop (nat i) (butlast qdma_config_regs);
                       (regs, s2) = collect_regs env
                          (GET_CAPABILITY_MASK (mm_en cap) (st_en cap) (mm_cmpt_en cap) (mailbox_en cap))
                          rows [] s1 in
                   if length regs \<le> length arr
                   then Some (rv, of_nat (length regs), Some (regs @ drop (length regs) arr), s2)
                   else None)))
      | _ \<Rightarrow> Some (inv_param, total_regs, reg_list, s))"

subsection \<open>Dumping registers to the log\<close>

fun dump_rows :: "hw_env \<Rightarrow> xreg_info list \<Rightarrow> hw_log \<Rightarrow> hw_log" where
  "dump_rows env [] s = s"
| "dump_rows env (r # rs) s = dump_rows env rs (snd (qdma_reg_read env (xr_addr r) s))"

text \<open>
  \<^verbatim>\<open>qdma_dump_reg_info\<close> without a buffer, as the error handlers call it: the register is looked
  up by its address and \<open>num_regs\<close> rows of the table from there are read; no text is produced,
  so the length is 0.
\<close>

definition qdma_dump_reg_info :: "dev_hndl \<Rightarrow> u32 \<Rightarrow> u32 \<Rightarrow> hw_log \<Rightarrow> int \<times> hw_log" where
  "qdma_dump_reg_info dev_hndl reg_addr num_regs s =
     (case dev_hndl of
        None \<Rightarrow> (inv_param, s)
      | Some env \<Rightarrow>
          (case reg_index_of reg_addr qdma_get_config_regs of
             None \<Rightarrow> (inv_param, s)
           | Some j \<Rightarrow>
               (let to_row = unat (of_nat j + num_regs);
                    num_regs_idx = (if to_row < qdma_get_config_num_regs then to_row
                                    else qdma_get_config_num_regs) in
                (0, dump_rows env (drop j (take num_regs_idx qdma_get_config_regs)) s))))"

subsection \<open>What a group read does\<close>

text \<open>The words of a row, and of the rows the virtual function may see.\<close>

definition row_words :: "xreg_info \<Rightarrow> u32 list" where
  "row_words r = map (\<lambda>j. xr_addr r + of_nat j * 4) [0..<xr_repeat r]"

definition group_words :: "u32 \<Rightarrow> xreg_info list \<Rightarrow> u32 list" where
  "group_words cap rows = concat (map row_words (filter (\<lambda>r. \<not> reg_skipped cap r) rows))"

text \<open>The answers to reading a list of addresses one after the other.\<close>

fun read_all :: "hw_env \<Rightarrow> u32 list \<Rightarrow> hw_log \<Rightarrow> qdma_reg_data list \<times> hw_log" where
  "read_all env [] s = ([], s)"
| "read_all env (a # as) s =
     (let (v, s1) = qdma_reg_read env a s; (rest, s2) = read_all env as s1 in
      (\<lparr>rd_addr = a, rd_val = v\<rparr> # rest, s2))"

lemma read_all_append:
  "read_all env (as @ bs) s =
     (let (x, s1) = read_all env as s; (y, s2) = read_all env bs s1 in (x @ y, s2))"
  by (induction as arbitrary: s) (auto simp: Let_def split: prod.splits)

lemma read_all_facts:
  "read_all env as s = (regs, s') \<Longrightarrow>
     map rd_addr regs = as \<and> (\<exists>evs. s' = s @ evs \<and> (\<forall>ev\<in>set evs. \<exists>a\<in>set as. \<exists>v. ev = Reg_read a v))"
proof (induction as arbitrary: s regs s')
  case (Cons a as)
  obtain v s1 where v: "qdma_reg_read env a s = (v, s1)" by force
  obtain rest s2 where r: "read_all env as s1 = (rest, s2)" by force
  have "s1 = s @ [Reg_read a v]" using v by (auto simp: qdma_reg_read_def)
  then show ?case using Cons.IH [OF r] Cons.prems v r by (fastforce simp: Let_def)
qed simp

lemma repeat_regs_eq:
  "repeat_regs env addr js regs s =
     (let (new, s') = read_all env (take (QDMA_MAX_REGISTER_DUMP - length regs)
                        (map (\<lambda>j. addr + of_nat j * 4) js)) s
      in (regs @ new, s'))"
proof (induction js arbitrary: regs s)
  case (Cons j js)
  show ?case
  proof (cases "length regs < QDMA_MAX_REGISTER_DUMP")
    case True
    then obtain n where n: "QDMA_MAX_REGISTER_DUMP - length regs = Suc n"
      by (metis Suc_diff_Suc)
    then have "QDMA_MAX_REGISTER_DUMP - Suc (length regs) = n" by simp
    then show ?thesis using True n Cons.IH by (simp add: Let_def split: prod.splits)
  qed simp
qed simp

lemma collect_regs_eq:
  "collect_regs env cap rows regs s =
     (let (new, s') = read_all env (take (QDMA_MAX_REGISTER_DUMP - length regs) (group_words cap rows)) s
      in (regs @ new, s'))"
proof (induction rows arbitrary: regs s)
  case Nil
  show ?case by (simp add: group_words_def)
next
  case (Cons r rows)
  let ?room = "QDMA_MAX_REGISTER_DUMP - length regs"
  consider "QDMA_MAX_REGISTER_DUMP \<le> length regs" | "length regs < QDMA_MAX_REGISTER_DUMP" "reg_skipped cap r"
    | "length regs < QDMA_MAX_REGISTER_DUMP" "\<not> reg_skipped cap r" by linarith
  then show ?case
  proof cases
    case 2
    then show ?thesis by (simp add: Cons.IH group_words_def)
  next
    case 3
    obtain new s1 where a: "read_all env (take ?room (row_words r)) s = (new, s1)" by force
    obtain more s2 where b:
      "read_all env (take (?room - length (row_words r)) (group_words cap rows)) s1 = (more, s2)" by force
    have l: "length new = min ?room (length (row_words r))"
      using read_all_facts [OF a] by (metis length_map length_take min.commute)
    have "QDMA_MAX_REGISTER_DUMP - length (regs @ new) = ?room - length new" by simp
    also have "?room - length new = (if length (row_words r) \<le> ?room then ?room - length (row_words r) else 0)"
      using l by simp
    finally have d: "take (QDMA_MAX_REGISTER_DUMP - length (regs @ new)) (group_words cap rows) =
        take (?room - length (row_words r)) (group_words cap rows)" by simp
    have "group_words cap (r # rows) = row_words r @ group_words cap rows"
      using 3 by (simp add: group_words_def)
    then show ?thesis using 3 a b d
      by (simp add: repeat_regs_eq Cons.IH row_words_def read_all_append Let_def)
  qed simp
qed

lemma collect_from_nothing:
  "collect_regs env cap rows [] s = read_all env (take QDMA_MAX_REGISTER_DUMP (group_words cap rows)) s"
  by (simp add: collect_regs_eq)

definition attribute_regs :: "u32 list" where
  "attribute_regs = [QDMA_OFFSET_GLBL2_PF_BARLITE_INT, QDMA_OFFSET_GLBL2_CHANNEL_QDMA_CAP,
     QDMA_OFFSET_GLBL2_MISC_CAP, QDMA_OFFSET_GLBL2_CHANNEL_MDMA]"

lemma attributes_read_shared:
  "\<exists>evs. snd (read_dev_attributes env s) = s @ evs \<and>
     (\<forall>ev\<in>set evs. \<exists>a v. ev = Reg_read a v \<and> a \<in> set attribute_regs)"
  by (simp add: read_dev_attributes_def qdma_reg_read_def attribute_regs_def)

text \<open>The registers a virtual function may see.\<close>

definition vf_readable :: "u32 \<Rightarrow> bool" where
  "vf_readable a \<longleftrightarrow>
     (\<exists>r\<in>set qdma_config_regs. xr_read_type r \<noteq> QDMA_REG_READ_PF_ONLY \<and> a \<in> set (row_words r)) \<or>
     a \<in> set attribute_regs"

lemma group_words_readable:
  "a \<in> set (group_words cap (drop i (butlast qdma_config_regs))) \<Longrightarrow> vf_readable a"
  by (auto simp: group_words_def vf_readable_def reg_skipped_def dest: in_set_dropD in_set_butlastD)

lemma read_reg_list_ok:
  assumes "is_vf \<noteq> 0" "read_dev_attributes env s = (cap, s1)" "reg_group_start g = Some start"
    "get_reg_entry start = (rv, i)" "0 \<le> rv"
    "cm = GET_CAPABILITY_MASK (mm_en cap) (st_en cap) (mm_cmpt_en cap) (mailbox_en cap)"
    "read_all env (take QDMA_MAX_REGISTER_DUMP (group_words cm (drop (nat i) (butlast qdma_config_regs)))) s1 =
       (regs, s2)"
    "length regs \<le> length arr"
  shows "qdma_read_reg_list (Some env) is_vf g n (Some arr) s =
    Some (rv, of_nat (length regs), Some (regs @ drop (length regs) arr), s2)"
  using assms by (simp add: qdma_read_reg_list_def collect_from_nothing)

lemma read_reg_list_facts:
  assumes "QDMA_MAX_REGISTER_DUMP \<le> length arr"
  shows "\<exists>rv n' arr' evs.
    qdma_read_reg_list dev is_vf g n (Some arr) s = Some (rv, n', Some arr', s @ evs) \<and>
    (n' = n \<or> n' \<le> 14) \<and> length arr' = length arr \<and> (\<forall>ev\<in>set evs. \<exists>a v. ev = Reg_read a v \<and> vf_readable a)"
proof (cases "is_vf = 0 \<or> dev = None")
  case True
  then show ?thesis by (auto simp: qdma_read_reg_list_def)
next
  case False
  then obtain env where e: "dev = Some env" "is_vf \<noteq> 0" by auto
  obtain cap s1 where c: "read_dev_attributes env s = (cap, s1)" by force
  then obtain evs where evs: "s1 = s @ evs" "\<forall>ev\<in>set evs. \<exists>a v. ev = Reg_read a v \<and> vf_readable a"
    using attributes_read_shared [of env s] unfolding vf_readable_def by (metis snd_conv)
  show ?thesis
  proof (cases "reg_group_start g")
    case None
    then have "qdma_read_reg_list dev is_vf g n (Some arr) s = Some (inv_param, n, Some arr, s @ evs)"
      using e c evs(1) by (simp add: qdma_read_reg_list_def)
    then show ?thesis using evs(2) by blast
  next
    case (Some start)
    obtain rv i where i: "get_reg_entry start = (rv, i)" by force
    define cm where "cm = GET_CAPABILITY_MASK (mm_en cap) (st_en cap) (mm_cmpt_en cap) (mailbox_en cap)"
    define ws where "ws = take QDMA_MAX_REGISTER_DUMP (group_words cm (drop (nat i) (butlast qdma_config_regs)))"
    obtain regs s2 where r: "read_all env ws s1 = (regs, s2)" by force
    have l: "length regs \<le> 14" using read_all_facts [OF r]
      by (metis ws_def QDMA_MAX_REGISTER_DUMP_def length_map length_take min.cobounded2)
    then have l': "(of_nat (length regs) :: u16) \<le> 14"
      by (simp add: word_le_nat_alt unat_of_nat)
    have w: "vf_readable a" if "a \<in> set ws" for a
      using that group_words_readable unfolding ws_def by (blast dest: in_set_takeD)
    obtain evs' where evs': "s2 = s1 @ evs'" "\<forall>ev\<in>set evs'. \<exists>a\<in>set ws. \<exists>v. ev = Reg_read a v"
      using read_all_facts [OF r] by blast
    then have "\<forall>ev\<in>set evs'. \<exists>a v. ev = Reg_read a v \<and> vf_readable a" using w by blast
    then have all: "s2 = s @ (evs @ evs')" "\<forall>ev\<in>set (evs @ evs'). \<exists>a v. ev = Reg_read a v \<and> vf_readable a"
      using evs evs'(1) unfolding set_append by (simp, blast)
    show ?thesis
    proof (cases "rv < 0")
      case True
      then have "qdma_read_reg_list dev is_vf g n (Some arr) s = Some (rv, n, Some arr, s @ evs)"
        using e c evs(1) Some i by (simp add: qdma_read_reg_list_def)
      then show ?thesis using evs(2) by blast
    next
      case False
      have "qdma_read_reg_list dev is_vf g n (Some arr) s =
          Some (rv, of_nat (length regs), Some (regs @ drop (length regs) arr), s @ (evs @ evs'))"
        unfolding e(1) all(1) [symmetric] using False l assms
        by (intro read_reg_list_ok [OF e(2) c Some i _ cm_def r [unfolded ws_def]])
          (simp_all add: QDMA_MAX_REGISTER_DUMP_def)
      moreover have "length (regs @ drop (length regs) arr) = length arr"
        using l assms by (simp add: QDMA_MAX_REGISTER_DUMP_def)
      ultimately show ?thesis using l' all(2) by blast
    qed
  qed
qed

text \<open>
  A virtual function sees only shared registers, and the list fits. Whatever group is
  asked for and whatever the device answers, with room for 14 entries
  \<^verbatim>\<open>qdma_read_reg_list\<close> stays inside the array, reports at most 14 registers on success, and
  does nothing to the device but read the capability registers and registers of the table that
  are not reserved to physical functions.
\<close>

theorem vf_reads_shared_registers:
  assumes "QDMA_MAX_REGISTER_DUMP \<le> length arr" "n \<le> 14"
  shows "\<exists>rv n' arr' evs.
    qdma_read_reg_list dev is_vf g n (Some arr) s = Some (rv, n', Some arr', s @ evs) \<and>
    n' \<le> 14 \<and> length arr' = length arr \<and> (\<forall>ev\<in>set evs. \<exists>a v. ev = Reg_read a v \<and> vf_readable a)"
  using read_reg_list_facts [OF assms(1), of dev is_vf g n s] assms(2) by blast

theorem vf_reads_shared_registers_witness:
  "\<exists>rv n' arr' evs.
    qdma_read_reg_list (Some (\<lambda>_ _. 0xffffffff)) 1 1 0 (Some (replicate 14 \<lparr>rd_addr = 0, rd_val = 0\<rparr>)) [] =
      Some (rv, n', Some arr', [] @ evs) \<and> n' \<le> 14 \<and>
    length arr' = length (replicate 14 \<lparr>rd_addr = 0, rd_val = 0\<rparr> :: qdma_reg_data list) \<and>
    (\<forall>ev\<in>set evs. \<exists>a v. ev = Reg_read a v \<and> vf_readable a)"
  by (rule vf_reads_shared_registers) (simp_all add: QDMA_MAX_REGISTER_DUMP_def)

text \<open>
  The four groups. On a device with every capability, a group read returns, in the order of
  the table, at most 14 words from its start row on: the first group ends with its block, the
  second one, documented as the registers up to 0xAFC, runs into the third, and the third runs
  into the H2C block. The fourth fails for every device, because its start address 0x1014 is in
  no row of the table.
\<close>

theorem register_groups:
  "take 14 (group_words 15 (drop 0 (butlast qdma_config_regs))) =
     [0x248, 0x24C, 0x250, 0x254, 0x258, 0x25C, 0x260, 0x264, 0x268, 0x26C, 0x270, 0x274, 0x27C, 0x288] \<and>
   get_reg_entry QDMA_REG_GROUP_2_START_ADDR = (0, 45) \<and>
   take 14 (group_words 15 (drop 45 (butlast qdma_config_regs))) =
     [0xA88, 0xA8C, 0xA90, 0xA94, 0xA98, 0xAF0, 0xAF4, 0xAF8, 0xAFC, 0xB00, 0xB04, 0xB10, 0xB14, 0xB30] \<and>
   get_reg_entry QDMA_REG_GROUP_3_START_ADDR = (0, 66) \<and>
   take 14 (group_words 15 (drop 66 (butlast qdma_config_regs))) =
     [0xB00, 0xB04, 0xB10, 0xB14, 0xB30, 0xB54, 0xB58, 0xB5C, 0xB60, 0xB74, 0xB78, 0xE00, 0xE04, 0xE08] \<and>
   qdma_read_reg_list (Some env) 1 3 n (Some arr) s =
     Some (inv_param, n, Some arr, snd (read_dev_attributes env s))"
proof -
  have g1: "take 14 (group_words 15 (drop 0 (butlast qdma_config_regs))) =
     [0x248, 0x24C, 0x250, 0x254, 0x258, 0x25C, 0x260, 0x264, 0x268, 0x26C, 0x270, 0x274, 0x27C, 0x288]"
    by code_simp
  have g2: "get_reg_entry QDMA_REG_GROUP_2_START_ADDR = (0, 45)" by code_simp
  have g2': "take 14 (group_words 15 (drop 45 (butlast qdma_config_regs))) =
     [0xA88, 0xA8C, 0xA90, 0xA94, 0xA98, 0xAF0, 0xAF4, 0xAF8, 0xAFC, 0xB00, 0xB04, 0xB10, 0xB14, 0xB30]"
    by code_simp
  have g3: "get_reg_entry QDMA_REG_GROUP_3_START_ADDR = (0, 66)" by code_simp
  have g3': "take 14 (group_words 15 (drop 66 (butlast qdma_config_regs))) =
     [0xB00, 0xB04, 0xB10, 0xB14, 0xB30, 0xB54, 0xB58, 0xB5C, 0xB60, 0xB74, 0xB78, 0xE00, 0xE04, 0xE08]"
    by code_simp
  have g4: "get_reg_entry QDMA_REG_GROUP_4_START_ADDR = (-1, -1)" by code_simp
  have "inv_param = -1" by (simp add: inv_param_def neg_err_def)
  then have "qdma_read_reg_list (Some env) 1 3 n (Some arr) s =
     Some (inv_param, n, Some arr, snd (read_dev_attributes env s))"
    by (simp add: qdma_read_reg_list_def reg_group_start_def g4 split: prod.splits)
  then show ?thesis using g1 g2 g2' g3 g3' by blast
qed

end
