(* ===== verification/Mbox_Layout.thy ===== *)
theory Mbox_Layout
  imports Prelude
begin

text \<open>
  The memory of a mailbox message. A message is a buffer of \<^verbatim>\<open>MBOX_MSG_REG_MAX\<close> 32-bit words
  (\<^verbatim>\<open>raw\<close> of \<^verbatim>\<open>struct mbox_msg\<close>, \<^verbatim>\<open>libqdma/qdma_mbox.h\<close>) that the protocol reads and writes
  through \<^verbatim>\<open>union qdma_mbox_txrx\<close>. This theory computes the places of the members from the
  declarations: a structure is the list of the sizes of its fields, a scalar is aligned to its
  size and a structure to its largest scalar, the rule of the supported ABIs.
\<close>

subsection \<open>Offsets and sizes\<close>

definition MBOX_MSG_REG_MAX :: nat where "MBOX_MSG_REG_MAX = 32"

definition mbox_buffer_bytes :: nat where
  "mbox_buffer_bytes = MBOX_MSG_REG_MAX * 4"

definition align_up :: "nat \<Rightarrow> nat \<Rightarrow> nat" where
  "align_up a n = (n + a - 1) div a * a"

text \<open>The first byte behind scalars of the given sizes that are placed from \<open>off\<close> on.\<close>

fun fields_end :: "nat \<Rightarrow> nat list \<Rightarrow> nat" where
  "fields_end off [] = off"
| "fields_end off (w # ws) = fields_end (align_up w off + w) ws"

definition struct_align :: "nat list \<Rightarrow> nat" where
  "struct_align ws = fold max ws 1"

definition struct_size :: "nat list \<Rightarrow> nat" where
  "struct_size ws = align_up (struct_align ws) (fields_end 0 ws)"

text \<open>Structures one after the other: the offsets of each, from \<open>off\<close> on.\<close>

fun struct_offsets :: "nat \<Rightarrow> nat list list \<Rightarrow> nat list" where
  "struct_offsets off [] = []"
| "struct_offsets off (ws # wss) =
     (let o1 = align_up (struct_align ws) off in o1 # struct_offsets (o1 + struct_size ws) wss)"

subsection \<open>The contexts of a queue\<close>

definition qid2vec_fields :: "nat list" where "qid2vec_fields = [1, 1, 1, 1]"
definition fmap_cfg_fields :: "nat list" where "fmap_cfg_fields = [2, 2]"
definition sw_ctxt_fields :: "nat list" where "sw_ctxt_fields = [8, 2, 2] @ replicate 28 1 @ [4, 8]"
definition hw_ctxt_fields :: "nat list" where "hw_ctxt_fields = [2, 2, 1, 1, 1, 1]"
definition cr_ctxt_fields :: "nat list" where "cr_ctxt_fields = [4]"
definition pfetch_ctxt_fields :: "nat list" where "pfetch_ctxt_fields = [2, 1, 1, 1, 1, 2, 1, 1, 1, 1]"
definition cmpt_ctxt_fields :: "nat list" where "cmpt_ctxt_fields = [8, 2, 2, 2] @ replicate 22 1 @ [4, 1, 1, 1]"

lemmas ctxt_fields_defs = qid2vec_fields_def fmap_cfg_fields_def sw_ctxt_fields_def hw_ctxt_fields_def
  cr_ctxt_fields_def pfetch_ctxt_fields_def cmpt_ctxt_fields_def

text \<open>The members of \<^verbatim>\<open>struct qdma_descq_context\<close>.\<close>

definition descq_context_structs :: "nat list list" where
  "descq_context_structs = [qid2vec_fields, fmap_cfg_fields, sw_ctxt_fields, hw_ctxt_fields,
     cr_ctxt_fields, pfetch_ctxt_fields, cmpt_ctxt_fields]"

text \<open>
  \<^verbatim>\<open>struct mbox_msg_qctxt\<close>: the header, \<^verbatim>\<open>qid_hw\<close> and one byte of bit-fields come before the union
  with the contexts, which starts at a multiple of 8.
\<close>

definition mbox_hdr_fields :: "nat list" where "mbox_hdr_fields = [1, 1, 2, 2]"

definition qctxt_contexts_offset :: nat where
  "qctxt_contexts_offset = align_up 8 (fields_end 0 (mbox_hdr_fields @ [2, 1]))"

definition cmpt_ctxt_offset :: nat where
  "cmpt_ctxt_offset = qctxt_contexts_offset + last (struct_offsets 0 descq_context_structs)"

text \<open>
  \<^verbatim>\<open>qdma_cmpt_context_read\<close> of the soft IP writes the fields up to \<^verbatim>\<open>int_aggr\<close>, the 22nd of the
  structure.
\<close>

definition cmpt_read_end :: nat where
  "cmpt_read_end = cmpt_ctxt_offset + fields_end 0 (take 22 cmpt_ctxt_fields)"

definition sizeof_mbox_msg_qctxt :: nat where
  "sizeof_mbox_msg_qctxt = align_up 8 (cmpt_ctxt_offset + struct_size cmpt_ctxt_fields)"

text \<open>
  The other members: the messages for hello, function map, interrupt contexts (with one
  ring), global registers, active queues, queue notification, register lists, and the
  configuration of a queue in \<^verbatim>\<open>struct mbox_msg_qctxt\<close>.
\<close>

definition intr_ctxt_fields :: "nat list" where
  "intr_ctxt_fields = [8, 2, 2] @ replicate 6 1 @ [4, 1, 2]"

definition other_member_sizes :: "nat list" where
  "other_member_sizes =
     [struct_size (mbox_hdr_fields @ [4, 4] @ [1, 2, 1, 1, 1] @ [4]),
      struct_size (mbox_hdr_fields @ [4, 4]),
      align_up 8 (fields_end 0 mbox_hdr_fields) + struct_size ([1, 4] @ intr_ctxt_fields),
      struct_size (mbox_hdr_fields @ replicate 32 2 @ replicate 33 1),
      struct_size (mbox_hdr_fields @ [4, 4, 4]),
      struct_size (mbox_hdr_fields @ [2, 4]),
      struct_size (mbox_hdr_fields @ [2, 2] @ replicate 28 4),
      qctxt_contexts_offset + struct_size [8, 8, 4, 4, 2, 2, 2, 2]]"

text \<open>
  Only the member with the completion context does not fit into the buffer, so the functions
  that clear a message of \<^verbatim>\<open>sizeof(union qdma_mbox_txrx)\<close> bytes clear 24 bytes behind it.
\<close>

definition sizeof_qdma_mbox_txrx :: nat where
  "sizeof_qdma_mbox_txrx = fold max (mbox_buffer_bytes # sizeof_mbox_msg_qctxt # other_member_sizes) 0"

lemma qctxt_layout:
  "map (\<lambda>n. qctxt_contexts_offset + n) (struct_offsets 0 descq_context_structs) = [16, 20, 24, 80, 88, 92, 104]"
  "cmpt_ctxt_offset = 104" "cmpt_read_end = 136" "sizeof_mbox_msg_qctxt = 152" "mbox_buffer_bytes = 128"
  by code_simp+

lemma other_members_fit: "list_all (\<lambda>n. n \<le> mbox_buffer_bytes) other_member_sizes"
  by code_simp

lemma union_too_big: "sizeof_qdma_mbox_txrx = mbox_buffer_bytes + 24"
  by code_simp

end
