(* ===== verification/Mbox_Msg.thy ===== *)
theory Mbox_Msg
  imports Soft_Regs Resource_Mgmt Mbox_Layout
begin

text \<open>
  The messages of the mailbox between a virtual and its physical function
  (\<^verbatim>\<open>qdma_mbox_protocol.c\<close>): the opcodes, the message structures, the functions that compose a
  request and those that take a response apart.

  \<^verbatim>\<open>union qdma_mbox_txrx\<close> is a record with one field for every member of the union. The request
  and the response are different buffers; an opcode uses one member of each, and every function
  of the protocol reads a message through the member that its composer has written, so the
  record tells the members apart that share memory in C without changing what is read. The
  places where the code uses two members of one buffer are \<^verbatim>\<open>qbase\<close> and \<^verbatim>\<open>qmax\<close>, which
  \<^verbatim>\<open>struct mbox_msg_fmap\<close> and \<^verbatim>\<open>struct mbox_msg_hello\<close> have at the same place; the hello message
  reads each of them through the member it wrote. A message received from another function is
  an arbitrary record. What the sharing does not hide is the size: the buffer has 128 bytes, the
  union 152 (theory Mbox_Layout), and the accesses that leave the buffer are told apart where
  they happen: the handler's read of a completion context (theory Mbox_Handler) ends without a
  result. The composers clear the whole union, 24 bytes more than the buffer, before they fill
  it, and the virtual function copies the contexts of a response from 24 bytes more than it
  received; the model of these two has the buffer's bytes only.
\<close>

subsection \<open>Opcodes\<close>

definition MBOX_MSG_OP_RSP_OFFSET :: u8 where "MBOX_MSG_OP_RSP_OFFSET = 0x80"

definition MBOX_OP_VF_BYE :: u8 where "MBOX_OP_VF_BYE = 0x00"
definition MBOX_OP_HELLO :: u8 where "MBOX_OP_HELLO = 0x01"
definition MBOX_OP_FMAP :: u8 where "MBOX_OP_FMAP = 0x02"
definition MBOX_OP_CSR :: u8 where "MBOX_OP_CSR = 0x03"
definition MBOX_OP_QREQ :: u8 where "MBOX_OP_QREQ = 0x04"
definition MBOX_OP_QNOTIFY_ADD :: u8 where "MBOX_OP_QNOTIFY_ADD = 0x05"
definition MBOX_OP_QNOTIFY_DEL :: u8 where "MBOX_OP_QNOTIFY_DEL = 0x06"
definition MBOX_OP_GET_QACTIVE_CNT :: u8 where "MBOX_OP_GET_QACTIVE_CNT = 0x07"
definition MBOX_OP_QCTXT_WRT :: u8 where "MBOX_OP_QCTXT_WRT = 0x08"
definition MBOX_OP_QCTXT_RD :: u8 where "MBOX_OP_QCTXT_RD = 0x09"
definition MBOX_OP_QCTXT_CLR :: u8 where "MBOX_OP_QCTXT_CLR = 0x0A"
definition MBOX_OP_QCTXT_INV :: u8 where "MBOX_OP_QCTXT_INV = 0x0B"
definition MBOX_OP_INTR_CTXT_WRT :: u8 where "MBOX_OP_INTR_CTXT_WRT = 0x0C"
definition MBOX_OP_INTR_CTXT_RD :: u8 where "MBOX_OP_INTR_CTXT_RD = 0x0D"
definition MBOX_OP_INTR_CTXT_CLR :: u8 where "MBOX_OP_INTR_CTXT_CLR = 0x0E"
definition MBOX_OP_INTR_CTXT_INV :: u8 where "MBOX_OP_INTR_CTXT_INV = 0x0F"
definition MBOX_OP_RESET_PREPARE :: u8 where "MBOX_OP_RESET_PREPARE = 0x10"
definition MBOX_OP_RESET_DONE :: u8 where "MBOX_OP_RESET_DONE = 0x11"
definition MBOX_OP_REG_LIST_READ :: u8 where "MBOX_OP_REG_LIST_READ = 0x12"
definition MBOX_OP_PF_BYE :: u8 where "MBOX_OP_PF_BYE = 0x13"
definition MBOX_OP_PF_RESET_VF_BYE :: u8 where "MBOX_OP_PF_RESET_VF_BYE = 0x14"
definition MBOX_OP_RESET_PREPARE_RESP :: u8 where "MBOX_OP_RESET_PREPARE_RESP = 0x90"
definition MBOX_OP_RESET_DONE_RESP :: u8 where "MBOX_OP_RESET_DONE_RESP = 0x91"
definition MBOX_OP_PF_BYE_RESP :: u8 where "MBOX_OP_PF_BYE_RESP = 0x93"

lemmas mbox_op_defs =
  MBOX_OP_VF_BYE_def
  MBOX_OP_HELLO_def
  MBOX_OP_FMAP_def
  MBOX_OP_CSR_def
  MBOX_OP_QREQ_def
  MBOX_OP_QNOTIFY_ADD_def
  MBOX_OP_QNOTIFY_DEL_def
  MBOX_OP_GET_QACTIVE_CNT_def
  MBOX_OP_QCTXT_WRT_def
  MBOX_OP_QCTXT_RD_def
  MBOX_OP_QCTXT_CLR_def
  MBOX_OP_QCTXT_INV_def
  MBOX_OP_INTR_CTXT_WRT_def
  MBOX_OP_INTR_CTXT_RD_def
  MBOX_OP_INTR_CTXT_CLR_def
  MBOX_OP_INTR_CTXT_INV_def
  MBOX_OP_RESET_PREPARE_def
  MBOX_OP_RESET_DONE_def
  MBOX_OP_REG_LIST_READ_def
  MBOX_OP_PF_BYE_def
  MBOX_OP_PF_RESET_VF_BYE_def
  MBOX_OP_RESET_PREPARE_RESP_def
  MBOX_OP_RESET_DONE_RESP_def
  MBOX_OP_PF_BYE_RESP_def

subsection \<open>Structures\<close>

text \<open>The status is a \<^verbatim>\<open>char\<close>, read as a signed byte.\<close>

record mbox_msg_hdr =
  h_op :: u8
  h_status :: u8
  h_src :: u16
  h_dst :: u16

record mbox_msg_hello =
  he_qbase :: u32
  he_qmax :: u32
  he_dev_cap :: qdma_dev_attributes
  he_dma_device_index :: u32

record mbox_msg_active_qcnt =
  qc_h2c_queues :: u32
  qc_c2h_queues :: u32
  qc_cmpt_queues :: u32

text \<open>\<^verbatim>\<open>qbase\<close> is an \<^verbatim>\<open>int\<close>.\<close>

record mbox_msg_fmap =
  mf_qbase :: u32
  mf_qmax :: u32

record qdma_csr_info =
  ci_ringsz :: "u16 list"
  ci_bufsz :: "u16 list"
  ci_timer_cnt :: "u8 list"
  ci_cnt_thres :: "u8 list"
  ci_wb_intvl :: u8

record mbox_msg_q_nitfy =
  qn_qid_hw :: u16
  qn_q_type :: u32

definition QDMA_NUM_DATA_VEC_FOR_INTR_CXT :: nat where "QDMA_NUM_DATA_VEC_FOR_INTR_CXT = 1"

record mbox_descq_conf =
  mq_ring_bs_addr :: u64
  mq_cmpt_ring_bs_addr :: u64
  mq_forced_en :: "1 word"
  mq_en_bypass :: "1 word"
  mq_irq_arm :: "1 word"
  mq_wbi_intvl_en :: "1 word"
  mq_wbi_chk :: "1 word"
  mq_at :: "1 word"
  mq_wbk_en :: "1 word"
  mq_irq_en :: "1 word"
  mq_pfch_en :: "1 word"
  mq_en_bypass_prefetch :: "1 word"
  mq_dis_overflow_check :: "1 word"
  mq_cmpt_int_en :: "1 word"
  mq_cmpt_at :: "1 word"
  mq_cmpt_color :: "1 word"
  mq_cmpt_full_upd :: "1 word"
  mq_cmpl_stat_en :: "1 word"
  mq_desc_sz :: "2 word"
  mq_cmpt_desc_sz :: "2 word"
  mq_triggermode :: "3 word"
  mq_func_id :: u16
  mq_cnt_thres :: u8
  mq_timer_thres :: u8
  mq_intr_id :: "11 word"
  mq_intr_aggr :: "1 word"
  mq_ringsz :: u16
  mq_bufsz :: u16
  mq_cmpt_ringsz :: u16

text \<open>The contexts of a queue, without the fields no mailbox message uses.\<close>

record qdma_descq_context =
  dc_sw_ctxt :: qdma_descq_sw_ctxt
  dc_hw_ctxt :: qdma_descq_hw_ctxt
  dc_cr_ctxt :: qdma_descq_credit_ctxt
  dc_pfetch_ctxt :: qdma_descq_prefetch_ctxt
  dc_cmpt_ctxt :: qdma_descq_cmpt_ctxt

text \<open>The values of the two-bit field \<^verbatim>\<open>cmpt_ctxt_type\<close>.\<close>

type_synonym mbox_cmpt_ctxt_type = "2 word"

definition QDMA_MBOX_CMPT_CTXT_ONLY :: mbox_cmpt_ctxt_type where "QDMA_MBOX_CMPT_CTXT_ONLY = 0"
definition QDMA_MBOX_CMPT_WITH_MM :: mbox_cmpt_ctxt_type where "QDMA_MBOX_CMPT_WITH_MM = 1"
definition QDMA_MBOX_CMPT_WITH_ST :: mbox_cmpt_ctxt_type where "QDMA_MBOX_CMPT_WITH_ST = 2"
definition QDMA_MBOX_CMPT_CTXT_NONE :: mbox_cmpt_ctxt_type where "QDMA_MBOX_CMPT_CTXT_NONE = 3"

lemmas cmpt_ctxt_type_defs = QDMA_MBOX_CMPT_CTXT_ONLY_def QDMA_MBOX_CMPT_WITH_MM_def
  QDMA_MBOX_CMPT_WITH_ST_def QDMA_MBOX_CMPT_CTXT_NONE_def

record mbox_msg_qctxt =
  qx_qid_hw :: u16
  qx_st :: "1 word"
  qx_c2h :: "1 word"
  qx_cmpt_ctxt_type :: mbox_cmpt_ctxt_type
  qx_descq_conf :: mbox_descq_conf
  qx_descq_ctxt :: qdma_descq_context

text \<open>The two arrays have \<open>QDMA_NUM_DATA_VEC_FOR_INTR_CXT\<close> entries.\<close>

record mbox_msg_intr_ctxt =
  ic_num_rings :: u8
  ic_ring_index_list :: "u32 list"
  ic_ictxt :: "qdma_indirect_intr_ctxt list"

record mbox_read_reg_list =
  rl_group_num :: u16
  rl_num_regs :: u16
  rl_reg_list :: "qdma_reg_data list"

record qdma_mbox_txrx =
  m_hdr :: mbox_msg_hdr
  m_hello :: mbox_msg_hello
  m_fmap :: mbox_msg_fmap
  m_intr_ctxt :: mbox_msg_intr_ctxt
  m_qctxt :: mbox_msg_qctxt
  m_csr :: qdma_csr_info
  m_qcnt :: mbox_msg_active_qcnt
  m_q_notify :: mbox_msg_q_nitfy
  m_reg_read_list :: mbox_read_reg_list

subsection \<open>A message of zeros\<close>

definition zero_dev_attributes :: qdma_dev_attributes where
  "zero_dev_attributes = \<lparr>num_pfs = 0, num_qs = 0, flr_present = 0, st_en = 0, mm_en = 0,
     mm_cmpt_en = 0, mailbox_en = 0, debug_mode = 0, desc_eng_mode = 0, mm_channel_max = 0,
     qid2vec_ctx = 0, cmpt_ovf_chk_dis = 0, mailbox_intr = 0, sw_desc_64b = 0, cmpt_desc_64b = 0,
     dynamic_bar = 0, legacy_intr = 0, cmpt_trig_count_timer = 0\<rparr>"

definition zero_sw_ctxt :: qdma_descq_sw_ctxt where
  "zero_sw_ctxt = \<lparr>sw_ring_bs_addr = 0, sw_vec = 0, sw_pidx = 0, sw_irq_arm = 0, sw_fnc_id = 0,
     sw_qen = 0, sw_frcd_en = 0, sw_wbi_chk = 0, sw_wbi_intvl_en = 0, sw_at = 0, sw_fetch_max = 0,
     sw_rngsz_idx = 0, sw_desc_sz = 0, sw_bypass = 0, sw_mm_chn = 0, sw_wbk_en = 0, sw_irq_en = 0,
     sw_port_id = 0, sw_irq_no_last = 0, sw_err = 0, sw_err_wb_sent = 0, sw_irq_req = 0,
     sw_mrkr_dis = 0, sw_is_mm = 0, sw_intr_aggr = 0, sw_pasid_en = 0, sw_dis_intr_on_vf = 0,
     sw_virtio_en = 0, sw_pack_byp_out = 0, sw_irq_byp = 0, sw_host_id = 0, sw_pasid = 0,
     sw_virtio_dsc_base = 0\<rparr>"

definition zero_hw_ctxt :: qdma_descq_hw_ctxt where
  "zero_hw_ctxt = \<lparr>hw_cidx = 0, hw_crd_use = 0, hw_dsc_pend = 0, hw_idl_stp_b = 0, hw_evt_pnd = 0,
     hw_fetch_pnd = 0\<rparr>"

definition zero_credit_ctxt :: qdma_descq_credit_ctxt where
  "zero_credit_ctxt = \<lparr>cr_credit = 0\<rparr>"

definition zero_prefetch_ctxt :: qdma_descq_prefetch_ctxt where
  "zero_prefetch_ctxt = \<lparr>pf_sw_crdt = 0, pf_bypass = 0, pf_bufsz_idx = 0, pf_port_id = 0,
     pf_var_desc = 0, pf_num_pftch = 0, pf_err = 0, pf_pfch_en = 0, pf_pfch = 0, pf_valid = 0\<rparr>"

definition zero_cmpt_ctxt :: qdma_descq_cmpt_ctxt where
  "zero_cmpt_ctxt = \<lparr>cm_bs_addr = 0, cm_vec = 0, cm_pidx = 0, cm_cidx = 0, cm_en_stat_desc = 0,
     cm_en_int = 0, cm_trig_mode = 0, cm_fnc_id = 0, cm_counter_idx = 0, cm_timer_idx = 0,
     cm_in_st = 0, cm_color = 0, cm_ringsz_idx = 0, cm_desc_sz = 0, cm_valid = 0, cm_err = 0,
     cm_user_trig_pend = 0, cm_timer_running = 0, cm_full_upd = 0, cm_ovf_chk_dis = 0, cm_at = 0,
     cm_int_aggr = 0, cm_dis_intr_on_vf = 0, cm_vio = 0, cm_dir_c2h = 0, cm_host_id = 0,
     cm_pasid = 0, cm_pasid_en = 0, cm_vio_eop = 0, cm_sh_cmpt = 0\<rparr>"

definition zero_intr_ctxt :: qdma_indirect_intr_ctxt where
  "zero_intr_ctxt = \<lparr>ii_baddr_4k = 0, ii_vec = 0, ii_pidx = 0, ii_valid = 0, ii_int_st = 0,
     ii_color = 0, ii_page_size = 0, ii_at = 0, ii_host_id = 0, ii_pasid = 0, ii_pasid_en = 0,
     ii_func_id = 0\<rparr>"

definition zero_descq_conf :: mbox_descq_conf where
  "zero_descq_conf = \<lparr>mq_ring_bs_addr = 0, mq_cmpt_ring_bs_addr = 0, mq_forced_en = 0,
     mq_en_bypass = 0, mq_irq_arm = 0, mq_wbi_intvl_en = 0, mq_wbi_chk = 0, mq_at = 0, mq_wbk_en = 0,
     mq_irq_en = 0, mq_pfch_en = 0, mq_en_bypass_prefetch = 0, mq_dis_overflow_check = 0,
     mq_cmpt_int_en = 0, mq_cmpt_at = 0, mq_cmpt_color = 0, mq_cmpt_full_upd = 0, mq_cmpl_stat_en = 0,
     mq_desc_sz = 0, mq_cmpt_desc_sz = 0, mq_triggermode = 0, mq_func_id = 0, mq_cnt_thres = 0,
     mq_timer_thres = 0, mq_intr_id = 0, mq_intr_aggr = 0, mq_ringsz = 0, mq_bufsz = 0,
     mq_cmpt_ringsz = 0\<rparr>"

definition zero_descq_context :: qdma_descq_context where
  "zero_descq_context = \<lparr>dc_sw_ctxt = zero_sw_ctxt, dc_hw_ctxt = zero_hw_ctxt,
     dc_cr_ctxt = zero_credit_ctxt, dc_pfetch_ctxt = zero_prefetch_ctxt, dc_cmpt_ctxt = zero_cmpt_ctxt\<rparr>"

definition zero_msg :: qdma_mbox_txrx where
  "zero_msg =
     \<lparr>m_hdr = \<lparr>h_op = 0, h_status = 0, h_src = 0, h_dst = 0\<rparr>,
      m_hello = \<lparr>he_qbase = 0, he_qmax = 0, he_dev_cap = zero_dev_attributes, he_dma_device_index = 0\<rparr>,
      m_fmap = \<lparr>mf_qbase = 0, mf_qmax = 0\<rparr>,
      m_intr_ctxt = \<lparr>ic_num_rings = 0,
        ic_ring_index_list = replicate QDMA_NUM_DATA_VEC_FOR_INTR_CXT 0,
        ic_ictxt = replicate QDMA_NUM_DATA_VEC_FOR_INTR_CXT zero_intr_ctxt\<rparr>,
      m_qctxt = \<lparr>qx_qid_hw = 0, qx_st = 0, qx_c2h = 0, qx_cmpt_ctxt_type = 0,
        qx_descq_conf = zero_descq_conf, qx_descq_ctxt = zero_descq_context\<rparr>,
      m_csr = \<lparr>ci_ringsz = replicate 16 0, ci_bufsz = replicate 16 0, ci_timer_cnt = replicate 16 0,
        ci_cnt_thres = replicate 16 0, ci_wb_intvl = 0\<rparr>,
      m_qcnt = \<lparr>qc_h2c_queues = 0, qc_c2h_queues = 0, qc_cmpt_queues = 0\<rparr>,
      m_q_notify = \<lparr>qn_qid_hw = 0, qn_q_type = 0\<rparr>,
      m_reg_read_list = \<lparr>rl_group_num = 0, rl_num_regs = 0,
        rl_reg_list = replicate QDMA_MAX_REGISTER_DUMP \<lparr>rd_addr = 0, rd_val = 0\<rparr>\<rparr>\<rparr>"

text \<open>The arrays of a message have the size of their C declarations.\<close>

definition msg_shape :: "qdma_mbox_txrx \<Rightarrow> bool" where
  "msg_shape m \<longleftrightarrow>
     length (ic_ring_index_list (m_intr_ctxt m)) = QDMA_NUM_DATA_VEC_FOR_INTR_CXT \<and>
     length (ic_ictxt (m_intr_ctxt m)) = QDMA_NUM_DATA_VEC_FOR_INTR_CXT \<and>
     length (ci_ringsz (m_csr m)) = 16 \<and> length (ci_bufsz (m_csr m)) = 16 \<and>
     length (ci_timer_cnt (m_csr m)) = 16 \<and> length (ci_cnt_thres (m_csr m)) = 16 \<and>
     length (rl_reg_list (m_reg_read_list m)) = QDMA_MAX_REGISTER_DUMP"

lemma zero_msg_shape [simp]: "msg_shape zero_msg"
  by (simp add: msg_shape_def zero_msg_def)

subsection \<open>Composing requests\<close>

text \<open>
  What the functions that compose a request share: a null buffer is rejected, the message is
  cleared, opcode and source are set. The buffer is the result.
\<close>

definition compose :: "u8 \<Rightarrow> u16 \<Rightarrow> (qdma_mbox_txrx \<Rightarrow> qdma_mbox_txrx) \<Rightarrow> qdma_mbox_txrx option \<Rightarrow>
    int \<times> qdma_mbox_txrx option" where
  "compose op src fill raw =
     (case raw of
        None \<Rightarrow> (inv_param, None)
      | Some _ \<Rightarrow>
          (err_code QDMA_SUCCESS,
           Some (fill (zero_msg\<lparr>m_hdr := (m_hdr zero_msg)\<lparr>h_op := op, h_src := src\<rparr>\<rparr>))))"

definition set_fmap :: "u32 \<Rightarrow> u32 \<Rightarrow> qdma_mbox_txrx \<Rightarrow> qdma_mbox_txrx" where
  "set_fmap qb qm m = m\<lparr>m_fmap := (m_fmap m)\<lparr>mf_qbase := qb, mf_qmax := qm\<rparr>\<rparr>"

definition set_notify :: "u16 \<Rightarrow> u32 \<Rightarrow> qdma_mbox_txrx \<Rightarrow> qdma_mbox_txrx" where
  "set_notify qid ty m = m\<lparr>m_q_notify := (m_q_notify m)\<lparr>qn_qid_hw := qid, qn_q_type := ty\<rparr>\<rparr>"

text \<open>The one-bit and two-bit fields truncate.\<close>

definition set_qctxt :: "u16 \<Rightarrow> u8 \<Rightarrow> u8 \<Rightarrow> mbox_cmpt_ctxt_type \<Rightarrow> qdma_mbox_txrx \<Rightarrow> qdma_mbox_txrx" where
  "set_qctxt qid st c2h ty m =
     m\<lparr>m_qctxt := (m_qctxt m)\<lparr>qx_qid_hw := qid, qx_c2h := ucast c2h, qx_st := ucast st,
         qx_cmpt_ctxt_type := ty\<rparr>\<rparr>"

definition qmda_mbox_compose_vf_online ::
  "u16 \<Rightarrow> u16 \<Rightarrow> int \<Rightarrow> qdma_mbox_txrx option \<Rightarrow> int \<times> qdma_mbox_txrx option" where
  "qmda_mbox_compose_vf_online fid qmax qb raw =
     compose MBOX_OP_HELLO fid (set_fmap (word_of_int qb) (ucast qmax)) raw"

definition qdma_mbox_compose_vf_offline ::
  "u16 \<Rightarrow> qdma_mbox_txrx option \<Rightarrow> int \<times> qdma_mbox_txrx option" where
  "qdma_mbox_compose_vf_offline fid raw =
     compose MBOX_OP_VF_BYE fid (\<lambda>m. m) raw"

definition qdma_mbox_compose_vf_reset_offline ::
  "u16 \<Rightarrow> qdma_mbox_txrx option \<Rightarrow> int \<times> qdma_mbox_txrx option" where
  "qdma_mbox_compose_vf_reset_offline fid raw =
     compose MBOX_OP_PF_RESET_VF_BYE fid (\<lambda>m. m) raw"

definition qdma_mbox_compose_vf_qreq ::
  "u16 \<Rightarrow> u16 \<Rightarrow> int \<Rightarrow> qdma_mbox_txrx option \<Rightarrow> int \<times> qdma_mbox_txrx option" where
  "qdma_mbox_compose_vf_qreq fid qmax qb raw =
     compose MBOX_OP_QREQ fid (set_fmap (word_of_int qb) (ucast qmax)) raw"

definition qdma_mbox_compose_vf_notify_qadd ::
  "u16 \<Rightarrow> u16 \<Rightarrow> u32 \<Rightarrow> qdma_mbox_txrx option \<Rightarrow> int \<times> qdma_mbox_txrx option" where
  "qdma_mbox_compose_vf_notify_qadd fid qid ty raw =
     compose MBOX_OP_QNOTIFY_ADD fid (set_notify qid ty) raw"

definition qdma_mbox_compose_vf_get_device_active_qcnt ::
  "u16 \<Rightarrow> qdma_mbox_txrx option \<Rightarrow> int \<times> qdma_mbox_txrx option" where
  "qdma_mbox_compose_vf_get_device_active_qcnt fid raw =
     compose MBOX_OP_GET_QACTIVE_CNT fid (\<lambda>m. m) raw"

definition qdma_mbox_compose_vf_notify_qdel ::
  "u16 \<Rightarrow> u16 \<Rightarrow> u32 \<Rightarrow> qdma_mbox_txrx option \<Rightarrow> int \<times> qdma_mbox_txrx option" where
  "qdma_mbox_compose_vf_notify_qdel fid qid ty raw =
     compose MBOX_OP_QNOTIFY_DEL fid (set_notify qid ty) raw"

definition qdma_mbox_compose_vf_fmap_prog ::
  "u16 \<Rightarrow> u16 \<Rightarrow> int \<Rightarrow> qdma_mbox_txrx option \<Rightarrow> int \<times> qdma_mbox_txrx option" where
  "qdma_mbox_compose_vf_fmap_prog fid qmax qb raw =
     compose MBOX_OP_FMAP fid (set_fmap (word_of_int qb) (ucast qmax)) raw"

definition qdma_mbox_compose_vf_qctxt_write ::
  "u16 \<Rightarrow> u16 \<Rightarrow> u8 \<Rightarrow> u8 \<Rightarrow> mbox_cmpt_ctxt_type \<Rightarrow> mbox_descq_conf \<Rightarrow> qdma_mbox_txrx option \<Rightarrow> int \<times> qdma_mbox_txrx option" where
  "qdma_mbox_compose_vf_qctxt_write fid qid st c2h ty conf raw =
     compose MBOX_OP_QCTXT_WRT fid (\<lambda>m. let m1 = set_qctxt qid st c2h ty m in
        m1\<lparr>m_qctxt := (m_qctxt m1)\<lparr>qx_descq_conf := conf\<rparr>\<rparr>) raw"

definition qdma_mbox_compose_vf_qctxt_read ::
  "u16 \<Rightarrow> u16 \<Rightarrow> u8 \<Rightarrow> u8 \<Rightarrow> mbox_cmpt_ctxt_type \<Rightarrow> qdma_mbox_txrx option \<Rightarrow> int \<times> qdma_mbox_txrx option" where
  "qdma_mbox_compose_vf_qctxt_read fid qid st c2h ty raw =
     compose MBOX_OP_QCTXT_RD fid (set_qctxt qid st c2h ty) raw"

definition qdma_mbox_compose_vf_qctxt_invalidate ::
  "u16 \<Rightarrow> u16 \<Rightarrow> u8 \<Rightarrow> u8 \<Rightarrow> mbox_cmpt_ctxt_type \<Rightarrow> qdma_mbox_txrx option \<Rightarrow> int \<times> qdma_mbox_txrx option" where
  "qdma_mbox_compose_vf_qctxt_invalidate fid qid st c2h ty raw =
     compose MBOX_OP_QCTXT_INV fid (set_qctxt qid st c2h ty) raw"

definition qdma_mbox_compose_vf_qctxt_clear ::
  "u16 \<Rightarrow> u16 \<Rightarrow> u8 \<Rightarrow> u8 \<Rightarrow> mbox_cmpt_ctxt_type \<Rightarrow> qdma_mbox_txrx option \<Rightarrow> int \<times> qdma_mbox_txrx option" where
  "qdma_mbox_compose_vf_qctxt_clear fid qid st c2h ty raw =
     compose MBOX_OP_QCTXT_CLR fid (set_qctxt qid st c2h ty) raw"

definition qdma_mbox_compose_csr_read ::
  "u16 \<Rightarrow> qdma_mbox_txrx option \<Rightarrow> int \<times> qdma_mbox_txrx option" where
  "qdma_mbox_compose_csr_read fid raw =
     compose MBOX_OP_CSR fid (\<lambda>m. m) raw"

definition qdma_mbox_compose_reg_read ::
  "u16 \<Rightarrow> u16 \<Rightarrow> qdma_mbox_txrx option \<Rightarrow> int \<times> qdma_mbox_txrx option" where
  "qdma_mbox_compose_reg_read fid g raw =
     compose MBOX_OP_REG_LIST_READ fid (\<lambda>m. m\<lparr>m_reg_read_list := (m_reg_read_list m)\<lparr>rl_group_num := g\<rparr>\<rparr>) raw"

definition qdma_mbox_compose_vf_intr_ctxt_write ::
  "u16 \<Rightarrow> mbox_msg_intr_ctxt \<Rightarrow> qdma_mbox_txrx option \<Rightarrow> int \<times> qdma_mbox_txrx option" where
  "qdma_mbox_compose_vf_intr_ctxt_write fid ictxt raw =
     compose MBOX_OP_INTR_CTXT_WRT fid (\<lambda>m. m\<lparr>m_intr_ctxt := ictxt\<rparr>) raw"

definition qdma_mbox_compose_vf_intr_ctxt_read ::
  "u16 \<Rightarrow> mbox_msg_intr_ctxt \<Rightarrow> qdma_mbox_txrx option \<Rightarrow> int \<times> qdma_mbox_txrx option" where
  "qdma_mbox_compose_vf_intr_ctxt_read fid ictxt raw =
     compose MBOX_OP_INTR_CTXT_RD fid (\<lambda>m. m\<lparr>m_intr_ctxt := ictxt\<rparr>) raw"

definition qdma_mbox_compose_vf_intr_ctxt_clear ::
  "u16 \<Rightarrow> mbox_msg_intr_ctxt \<Rightarrow> qdma_mbox_txrx option \<Rightarrow> int \<times> qdma_mbox_txrx option" where
  "qdma_mbox_compose_vf_intr_ctxt_clear fid ictxt raw =
     compose MBOX_OP_INTR_CTXT_CLR fid (\<lambda>m. m\<lparr>m_intr_ctxt := ictxt\<rparr>) raw"

definition qdma_mbox_compose_vf_intr_ctxt_invalidate ::
  "u16 \<Rightarrow> mbox_msg_intr_ctxt \<Rightarrow> qdma_mbox_txrx option \<Rightarrow> int \<times> qdma_mbox_txrx option" where
  "qdma_mbox_compose_vf_intr_ctxt_invalidate fid ictxt raw =
     compose MBOX_OP_INTR_CTXT_INV fid (\<lambda>m. m\<lparr>m_intr_ctxt := ictxt\<rparr>) raw"

text \<open>The messages a physical function sends; the function numbers are bytes.\<close>

definition qdma_mbox_compose_vf_reset_message ::
  "qdma_mbox_txrx option \<Rightarrow> u8 \<Rightarrow> u8 \<Rightarrow> int \<times> qdma_mbox_txrx option" where
  "qdma_mbox_compose_vf_reset_message raw src dst =
     compose MBOX_OP_RESET_PREPARE (ucast src) (\<lambda>m. m\<lparr>m_hdr := (m_hdr m)\<lparr>h_dst := ucast dst\<rparr>\<rparr>) raw"

definition qdma_mbox_compose_pf_reset_done_message ::
  "qdma_mbox_txrx option \<Rightarrow> u8 \<Rightarrow> u8 \<Rightarrow> int \<times> qdma_mbox_txrx option" where
  "qdma_mbox_compose_pf_reset_done_message raw src dst =
     compose MBOX_OP_RESET_DONE (ucast src) (\<lambda>m. m\<lparr>m_hdr := (m_hdr m)\<lparr>h_dst := ucast dst\<rparr>\<rparr>) raw"

definition qdma_mbox_compose_pf_offline ::
  "qdma_mbox_txrx option \<Rightarrow> u8 \<Rightarrow> u8 \<Rightarrow> int \<times> qdma_mbox_txrx option" where
  "qdma_mbox_compose_pf_offline raw src dst =
     compose MBOX_OP_PF_BYE (ucast src) (\<lambda>m. m\<lparr>m_hdr := (m_hdr m)\<lparr>h_dst := ucast dst\<rparr>\<rparr>) raw"

subsection \<open>Taking responses apart\<close>

definition qdma_mbox_is_msg_response :: "qdma_mbox_txrx \<Rightarrow> qdma_mbox_txrx \<Rightarrow> bool" where
  "qdma_mbox_is_msg_response tx rx \<longleftrightarrow>
     uint (h_op (m_hdr tx)) + uint MBOX_MSG_OP_RSP_OFFSET = uint (h_op (m_hdr rx))"

definition qdma_mbox_vf_response_status :: "qdma_mbox_txrx \<Rightarrow> int" where
  "qdma_mbox_vf_response_status m = sint (h_status (m_hdr m))"

definition qdma_mbox_vf_func_id_get :: "qdma_mbox_txrx \<Rightarrow> bool \<Rightarrow> u8" where
  "qdma_mbox_vf_func_id_get m is_vf =
     ucast (if is_vf then h_dst (m_hdr m) else h_src (m_hdr m))"

definition qdma_mbox_vf_active_queues_get :: "qdma_mbox_txrx \<Rightarrow> qdma_dev_q_type \<Rightarrow> int" where
  "qdma_mbox_vf_active_queues_get m q_type =
     (case q_type of
        QDMA_DEV_Q_TYPE_H2C \<Rightarrow> sint (qc_h2c_queues (m_qcnt m))
      | QDMA_DEV_Q_TYPE_C2H \<Rightarrow> sint (qc_c2h_queues (m_qcnt m))
      | QDMA_DEV_Q_TYPE_CMPT \<Rightarrow> sint (qc_cmpt_queues (m_qcnt m))
      | _ \<Rightarrow> 0)"

definition qdma_mbox_vf_parent_func_id_get :: "qdma_mbox_txrx \<Rightarrow> u8" where
  "qdma_mbox_vf_parent_func_id_get m = ucast (h_src (m_hdr m))"

definition qdma_mbox_vf_dev_info_get :: "qdma_mbox_txrx \<Rightarrow> int \<times> qdma_dev_attributes \<times> u32" where
  "qdma_mbox_vf_dev_info_get m =
     (qdma_mbox_vf_response_status m, he_dev_cap (m_hello m), he_dma_device_index (m_hello m))"

definition qdma_mbox_vf_qinfo_get :: "qdma_mbox_txrx \<Rightarrow> int \<times> int \<times> u16" where
  "qdma_mbox_vf_qinfo_get m =
     (qdma_mbox_vf_response_status m, sint (mf_qbase (m_fmap m)), ucast (mf_qmax (m_fmap m)))"

definition qdma_mbox_vf_csr_get :: "qdma_mbox_txrx \<Rightarrow> int \<times> qdma_csr_info" where
  "qdma_mbox_vf_csr_get m = (qdma_mbox_vf_response_status m, m_csr m)"

text \<open>
  The size of the copy is a byte: of \<^verbatim>\<open>num_regs\<close> entries with 8 bytes each, \<open>8 * num_regs mod 256\<close>
  bytes are copied; \<open>None\<close> is a copy beyond the end of the source or of the target.
\<close>

definition qdma_mbox_vf_reg_list_get ::
  "qdma_mbox_txrx \<Rightarrow> qdma_reg_data list \<Rightarrow> (int \<times> u16 \<times> qdma_reg_data list) option" where
  "qdma_mbox_vf_reg_list_get m reg_list =
     (let n = rl_num_regs (m_reg_read_list m);
          k = (unat n * 8) mod 256 div 8;
          src = rl_reg_list (m_reg_read_list m) in
      if k \<le> length src \<and> k \<le> length reg_list
      then Some (qdma_mbox_vf_response_status m, n, take k src @ drop k reg_list) else None)"

definition qdma_mbox_vf_context_get :: "qdma_mbox_txrx \<Rightarrow> int \<times> qdma_descq_context" where
  "qdma_mbox_vf_context_get m = (qdma_mbox_vf_response_status m, qx_descq_ctxt (m_qctxt m))"

definition qdma_mbox_vf_intr_context_get :: "qdma_mbox_txrx \<Rightarrow> int \<times> mbox_msg_intr_ctxt" where
  "qdma_mbox_vf_intr_context_get m = (qdma_mbox_vf_response_status m, m_intr_ctxt m)"

end
