(* ===== verification/Mbox_Handler.thy ===== *)
theory Mbox_Handler
  imports Mbox_Msg
begin

text \<open>
  What a function does with a mailbox message (\<^verbatim>\<open>qdma_mbox_protocol.c\<close>): the queue contexts
  composed from a request, their clearing, invalidation, writing and reading, the handler of the
  physical function and the handler of the virtual function. The hardware access table is the
  one of the soft IP. The handler's result is \<open>None\<close> when it leaves an array of a message or a
  message's buffer.
\<close>

subsection \<open>Lookups in the global arrays\<close>

fun index_where :: "('a \<Rightarrow> bool) \<Rightarrow> 'a list \<Rightarrow> nat option" where
  "index_where P [] = None"
| "index_where P (x # xs) = (if P x then Some 0 else map_option Suc (index_where P xs))"

text \<open>
  The four lookups read one global array; the index stays 0, as the caller has initialised it,
  unless the value is found.
\<close>

definition csr_lookup ::
  "dev_hndl \<Rightarrow> qdma_global_csr_type \<Rightarrow> (u32 \<Rightarrow> bool) \<Rightarrow> qdma_access_error_codes \<Rightarrow> hw_log \<Rightarrow>
     int \<times> nat \<times> hw_log" where
  "csr_lookup dev ty P err s =
     (let (rv, vals, s1) = qdma_global_csr_conf dev 0 16 (Some (replicate 16 0)) ty QDMA_HW_ACCESS_READ s in
      if rv \<noteq> 0 then (rv, 0, s1)
      else case index_where P (case vals of Some vs \<Rightarrow> vs | None \<Rightarrow> []) of
        Some i \<Rightarrow> (err_code QDMA_SUCCESS, i, s1)
      | None \<Rightarrow> (neg_err err, 0, s1))"

definition get_ring_idx :: "dev_hndl \<Rightarrow> u16 \<Rightarrow> hw_log \<Rightarrow> int \<times> u16 \<times> hw_log" where
  "get_ring_idx dev ring_sz s =
     (let (rv, i, s1) = csr_lookup dev QDMA_CSR_RING_SZ (\<lambda>v. ucast ring_sz = v - 1) QDMA_ERR_MBOX_INV_RINGSZ s in
      (rv, of_nat i, s1))"

definition get_buf_idx :: "dev_hndl \<Rightarrow> u16 \<Rightarrow> hw_log \<Rightarrow> int \<times> u16 \<times> hw_log" where
  "get_buf_idx dev buf_sz s =
     (let (rv, i, s1) = csr_lookup dev QDMA_CSR_BUF_SZ (\<lambda>v. v = ucast buf_sz) QDMA_ERR_MBOX_INV_BUFSZ s in
      (rv, of_nat i, s1))"

definition get_cntr_idx :: "dev_hndl \<Rightarrow> u8 \<Rightarrow> hw_log \<Rightarrow> int \<times> u8 \<times> hw_log" where
  "get_cntr_idx dev cntr_val s =
     (let (rv, i, s1) = csr_lookup dev QDMA_CSR_CNT_TH (\<lambda>v. v = ucast cntr_val) QDMA_ERR_MBOX_INV_CNTR_TH s in
      (rv, of_nat i, s1))"

definition get_tmr_idx :: "dev_hndl \<Rightarrow> u8 \<Rightarrow> hw_log \<Rightarrow> int \<times> u8 \<times> hw_log" where
  "get_tmr_idx dev tmr_val s =
     (let (rv, i, s1) = csr_lookup dev QDMA_CSR_TIMER_CNT (\<lambda>v. v = ucast tmr_val) QDMA_ERR_MBOX_INV_TMR_TH s in
      (rv, of_nat i, s1))"

subsection \<open>The contexts a request asks for\<close>

text \<open>\<^verbatim>\<open>~qctxt->st\<close> is the complement of an \<^verbatim>\<open>int\<close>, cut to a byte.\<close>

definition mbox_compose_sw_context ::
  "dev_hndl \<Rightarrow> mbox_msg_qctxt \<Rightarrow> qdma_descq_sw_ctxt \<Rightarrow> hw_log \<Rightarrow> int \<times> qdma_descq_sw_ctxt \<times> hw_log" where
  "mbox_compose_sw_context dev q sw s =
     (let conf = qx_descq_conf q; (rv, rng_idx, s1) = get_ring_idx dev (mq_ringsz conf) s in
      if rv < 0 then (rv, sw, s1)
      else
        (let sw1 = sw\<lparr>sw_vec := ucast (mq_intr_id conf), sw_intr_aggr := ucast (mq_intr_aggr conf),
               sw_ring_bs_addr := mq_ring_bs_addr conf, sw_wbi_chk := ucast (mq_wbi_chk conf),
               sw_wbi_intvl_en := ucast (mq_wbi_intvl_en conf), sw_rngsz_idx := ucast rng_idx,
               sw_bypass := ucast (mq_en_bypass conf), sw_wbk_en := ucast (mq_wbk_en conf),
               sw_irq_en := ucast (mq_irq_en conf), sw_is_mm := NOT (ucast (qx_st q)), sw_mm_chn := 0,
               sw_qen := 1, sw_frcd_en := ucast (mq_forced_en conf), sw_desc_sz := ucast (mq_desc_sz conf),
               sw_fnc_id := ucast (mq_func_id conf), sw_irq_arm := ucast (mq_irq_arm conf)\<rparr> in
         (err_code QDMA_SUCCESS,
          (if qx_st q \<noteq> 0 \<and> qx_c2h q \<noteq> 0
           then sw1\<lparr>sw_irq_en := 0, sw_irq_arm := 0, sw_wbk_en := 0, sw_wbi_chk := 0\<rparr> else sw1),
          s1)))"

definition mbox_compose_prefetch_context ::
  "dev_hndl \<Rightarrow> mbox_msg_qctxt \<Rightarrow> qdma_descq_prefetch_ctxt \<Rightarrow> hw_log \<Rightarrow>
     int \<times> qdma_descq_prefetch_ctxt \<times> hw_log" where
  "mbox_compose_prefetch_context dev q pf s =
     (let conf = qx_descq_conf q; (rv, buf_idx, s1) = get_buf_idx dev (mq_bufsz conf) s in
      if rv < 0 then (rv, pf, s1)
      else (err_code QDMA_SUCCESS,
            pf\<lparr>pf_valid := 1, pf_bypass := ucast (mq_en_bypass_prefetch conf), pf_bufsz_idx := ucast buf_idx,
               pf_pfch_en := ucast (mq_pfch_en conf)\<rparr>, s1))"

definition mbox_compose_cmpt_context ::
  "dev_hndl \<Rightarrow> mbox_msg_qctxt \<Rightarrow> qdma_descq_cmpt_ctxt \<Rightarrow> hw_log \<Rightarrow>
     int \<times> qdma_descq_cmpt_ctxt \<times> hw_log" where
  "mbox_compose_cmpt_context dev q cm s =
     (let conf = qx_descq_conf q; (rv1, cntr_idx, s1) = get_cntr_idx dev (mq_cnt_thres conf) s in
      if rv1 < 0 then (rv1, cm, s1)
      else (let (rv2, tmr_idx, s2) = get_tmr_idx dev (mq_timer_thres conf) s1 in
      if rv2 < 0 then (rv2, cm, s2)
      else (let (rv3, rng_idx, s3) = get_ring_idx dev (mq_cmpt_ringsz conf) s2 in
      if rv3 < 0 then (rv3, cm, s3)
      else (err_code QDMA_SUCCESS,
            cm\<lparr>cm_bs_addr := mq_cmpt_ring_bs_addr conf, cm_en_stat_desc := ucast (mq_cmpl_stat_en conf),
               cm_en_int := ucast (mq_cmpt_int_en conf), cm_trig_mode := ucast (mq_triggermode conf),
               cm_fnc_id := ucast (mq_func_id conf), cm_timer_idx := tmr_idx, cm_counter_idx := cntr_idx,
               cm_color := 1, cm_ringsz_idx := ucast rng_idx, cm_desc_sz := ucast (mq_cmpt_desc_sz conf),
               cm_valid := 1, cm_ovf_chk_dis := ucast (mq_dis_overflow_check conf),
               cm_vec := ucast (mq_intr_id conf), cm_int_aggr := ucast (mq_intr_aggr conf)\<rparr>, s3))))"

subsection \<open>The contexts of a queue\<close>

text \<open>One step after the other, up to the first negative result.\<close>

definition and_then :: "int \<times> hw_log \<Rightarrow> (hw_log \<Rightarrow> int \<times> hw_log) \<Rightarrow> int \<times> hw_log" where
  "and_then r f = (if fst r < 0 then r else f (snd r))"

text \<open>An access with a null context, or one whose context is not used afterwards.\<close>

definition drop_ctxt :: "int \<times> 'c \<times> hw_log \<Rightarrow> int \<times> hw_log" where
  "drop_ctxt r = (fst r, snd (snd r))"

definition with_cmpt :: "mbox_cmpt_ctxt_type \<Rightarrow> bool" where
  "with_cmpt ty \<longleftrightarrow> ty = QDMA_MBOX_CMPT_WITH_MM \<or> ty = QDMA_MBOX_CMPT_WITH_ST"

text \<open>
  \<^verbatim>\<open>mbox_clear_queue_contexts\<close> and \<^verbatim>\<open>mbox_invalidate_queue_contexts\<close> differ in the access only.
  A queue outside the function's range ends both with the result of
  \<^verbatim>\<open>qdma_dev_qinfo_get\<close>, which is not negative there.
\<close>

definition reset_queue_contexts ::
  "qdma_hw_access_type \<Rightarrow> dev_hndl \<Rightarrow> u8 \<Rightarrow> u16 \<Rightarrow> u16 \<Rightarrow> u8 \<Rightarrow> u8 \<Rightarrow> mbox_cmpt_ctxt_type \<Rightarrow> rm_state \<Rightarrow>
     hw_log \<Rightarrow> int \<times> hw_log" where
  "reset_queue_contexts access dev idx fid qid st c2h ty rm s =
     (if ty = QDMA_MBOX_CMPT_CTXT_ONLY then
        and_then (drop_ctxt (qdma_cmpt_ctx_conf dev qid None access s)) (\<lambda>s. (err_code QDMA_SUCCESS, s))
      else
        (let rv = fst (qdma_dev_qinfo_get (uint idx) (uint fid) 0 0 rm) in
         if rv < 0 then (rv, s)
         else if qdma_dev_is_queue_in_range (uint idx) (uint fid) (uint qid) rm \<noteq> QDMA_DEV_Q_IN_RANGE then (rv, s)
         else
           and_then (drop_ctxt (qdma_sw_ctx_conf dev c2h qid None access s)) (\<lambda>s.
           and_then (drop_ctxt (qdma_hw_ctx_conf dev c2h qid None access s)) (\<lambda>s.
           and_then (drop_ctxt (qdma_credit_ctx_conf dev c2h qid None access s)) (\<lambda>s.
           and_then (if st \<noteq> 0 \<and> c2h \<noteq> 0 then drop_ctxt (qdma_pfetch_ctx_conf dev qid None access s) else (0, s)) (\<lambda>s.
           and_then (if with_cmpt ty then drop_ctxt (qdma_cmpt_ctx_conf dev qid None access s) else (0, s)) (\<lambda>s.
           (err_code QDMA_SUCCESS, s))))))))"

definition mbox_clear_queue_contexts ::
  "dev_hndl \<Rightarrow> u8 \<Rightarrow> u16 \<Rightarrow> u16 \<Rightarrow> u8 \<Rightarrow> u8 \<Rightarrow> mbox_cmpt_ctxt_type \<Rightarrow> rm_state \<Rightarrow> hw_log \<Rightarrow> int \<times> hw_log" where
  "mbox_clear_queue_contexts = reset_queue_contexts QDMA_HW_ACCESS_CLEAR"

definition mbox_invalidate_queue_contexts ::
  "dev_hndl \<Rightarrow> u8 \<Rightarrow> u16 \<Rightarrow> u16 \<Rightarrow> u8 \<Rightarrow> u8 \<Rightarrow> mbox_cmpt_ctxt_type \<Rightarrow> rm_state \<Rightarrow> hw_log \<Rightarrow> int \<times> hw_log" where
  "mbox_invalidate_queue_contexts = reset_queue_contexts QDMA_HW_ACCESS_INVALIDATE"

text \<open>A context composed in a local variable; its address is passed on only on success.\<close>

definition then_with :: "int \<times> 'c \<times> hw_log \<Rightarrow> ('c \<Rightarrow> hw_log \<Rightarrow> int \<times> hw_log) \<Rightarrow> int \<times> hw_log" where
  "then_with r f = (if fst r < 0 then drop_ctxt r else f (fst (snd r)) (snd (snd r)))"

definition mbox_write_queue_contexts ::
  "dev_hndl \<Rightarrow> u8 \<Rightarrow> mbox_msg_qctxt \<Rightarrow> rm_state \<Rightarrow> hw_log \<Rightarrow> int \<times> hw_log" where
  "mbox_write_queue_contexts dev idx q rm s =
     (let fid = mq_func_id (qx_descq_conf q); qid = qx_qid_hw q; ty = qx_cmpt_ctxt_type q;
          st_c2h = (qx_st q \<noteq> 0 \<and> qx_c2h q \<noteq> 0);
          rv = fst (qdma_dev_qinfo_get (uint idx) (uint fid) 0 0 rm) in
      if rv < 0 then (rv, s)
      else if qdma_dev_is_queue_in_range (uint idx) (uint fid) (uint qid) rm \<noteq> QDMA_DEV_Q_IN_RANGE then (rv, s)
      else if ty = QDMA_MBOX_CMPT_CTXT_ONLY then
        then_with (mbox_compose_cmpt_context dev q zero_cmpt_ctxt s) (\<lambda>cm s.
        and_then (drop_ctxt (qdma_cmpt_ctx_conf dev qid None QDMA_HW_ACCESS_CLEAR s)) (\<lambda>s.
        and_then (drop_ctxt (qdma_cmpt_ctx_conf dev qid (Some cm) QDMA_HW_ACCESS_WRITE s)) (\<lambda>s.
        (err_code QDMA_SUCCESS, s))))
      else
        then_with (mbox_compose_sw_context dev q zero_sw_ctxt s) (\<lambda>sw s.
        then_with (if st_c2h then mbox_compose_prefetch_context dev q zero_prefetch_ctxt s
                   else (0, zero_prefetch_ctxt, s)) (\<lambda>pf s.
        then_with (if with_cmpt ty then mbox_compose_cmpt_context dev q zero_cmpt_ctxt s
                   else (0, zero_cmpt_ctxt, s)) (\<lambda>cm s.
        and_then (mbox_clear_queue_contexts dev idx fid qid (ucast (qx_st q)) (ucast (qx_c2h q)) ty rm s) (\<lambda>s.
        and_then (drop_ctxt (qdma_sw_ctx_conf dev (ucast (qx_c2h q)) qid (Some sw) QDMA_HW_ACCESS_WRITE s)) (\<lambda>s.
        and_then (if st_c2h then drop_ctxt (qdma_pfetch_ctx_conf dev qid (Some pf) QDMA_HW_ACCESS_WRITE s)
                  else (0, s)) (\<lambda>s.
        and_then (if with_cmpt ty then drop_ctxt (qdma_cmpt_ctx_conf dev qid (Some cm) QDMA_HW_ACCESS_WRITE s)
                  else (0, s)) (\<lambda>s.
        (err_code QDMA_SUCCESS, s)))))))))"

text \<open>Reading fills the contexts one after the other, up to the first error.\<close>

definition keep_ctxt :: "'c \<Rightarrow> 'c option \<Rightarrow> 'c" where
  "keep_ctxt old c = (case c of Some c' \<Rightarrow> c' | None \<Rightarrow> old)"

definition mbox_read_queue_contexts ::
  "dev_hndl \<Rightarrow> u16 \<Rightarrow> u8 \<Rightarrow> u8 \<Rightarrow> mbox_cmpt_ctxt_type \<Rightarrow> qdma_descq_context \<Rightarrow> hw_log \<Rightarrow>
     int \<times> qdma_descq_context \<times> hw_log" where
  "mbox_read_queue_contexts dev qid st c2h ty c s =
     (let (rv1, sw, s1) = qdma_sw_ctx_conf dev c2h qid (Some (dc_sw_ctxt c)) QDMA_HW_ACCESS_READ s;
          c1 = c\<lparr>dc_sw_ctxt := keep_ctxt (dc_sw_ctxt c) sw\<rparr> in
      if rv1 < 0 then (rv1, c1, s1)
      else (let (rv2, hw, s2) = qdma_hw_ctx_conf dev c2h qid (Some (dc_hw_ctxt c)) QDMA_HW_ACCESS_READ s1;
                c2 = c1\<lparr>dc_hw_ctxt := keep_ctxt (dc_hw_ctxt c) hw\<rparr> in
      if rv2 < 0 then (rv2, c2, s2)
      else (let (rv3, cr, s3) = qdma_credit_ctx_conf dev c2h qid (Some (dc_cr_ctxt c)) QDMA_HW_ACCESS_READ s2;
                c3 = c2\<lparr>dc_cr_ctxt := keep_ctxt (dc_cr_ctxt c) cr\<rparr> in
      if rv3 < 0 then (rv3, c3, s3)
      else (let (rv4, pf, s4) = (if st \<noteq> 0 \<and> c2h \<noteq> 0
                  then qdma_pfetch_ctx_conf dev qid (Some (dc_pfetch_ctxt c)) QDMA_HW_ACCESS_READ s3
                  else (0, Some (dc_pfetch_ctxt c), s3));
                c4 = c3\<lparr>dc_pfetch_ctxt := keep_ctxt (dc_pfetch_ctxt c) pf\<rparr> in
      if rv4 < 0 then (rv4, c4, s4)
      else (let (rv5, cm, s5) = (if with_cmpt ty
                  then qdma_cmpt_ctx_conf dev qid (Some (dc_cmpt_ctxt c)) QDMA_HW_ACCESS_READ s4
                  else (0, Some (dc_cmpt_ctxt c), s4));
                c5 = c4\<lparr>dc_cmpt_ctxt := keep_ctxt (dc_cmpt_ctxt c) cm\<rparr> in
      if rv5 < 0 then (rv5, c5, s5) else (err_code QDMA_SUCCESS, c5, s5))))))"

subsection \<open>The physical function\<close>

definition QDMA_MBOX_VF_ONLINE :: int where "QDMA_MBOX_VF_ONLINE = 1"
definition QDMA_MBOX_VF_OFFLINE :: int where "QDMA_MBOX_VF_OFFLINE = -1"
definition QDMA_MBOX_VF_RESET :: int where "QDMA_MBOX_VF_RESET = 2"
definition QDMA_MBOX_PF_RESET_DONE :: int where "QDMA_MBOX_PF_RESET_DONE = 3"
definition QDMA_MBOX_PF_BYE :: int where "QDMA_MBOX_PF_BYE = 4"
definition QDMA_MBOX_VF_RESET_BYE :: int where "QDMA_MBOX_VF_RESET_BYE = 5"

lemmas mbox_ret_defs = QDMA_MBOX_VF_ONLINE_def QDMA_MBOX_VF_OFFLINE_def QDMA_MBOX_VF_RESET_def
  QDMA_MBOX_PF_RESET_DONE_def QDMA_MBOX_PF_BYE_def QDMA_MBOX_VF_RESET_BYE_def

text \<open>The two messages, the queue resources and the device.\<close>

record pf_state =
  ps_rcv :: qdma_mbox_txrx
  ps_resp :: qdma_mbox_txrx
  ps_rm :: rm_state
  ps_log :: hw_log

definition src_of :: "pf_state \<Rightarrow> u16" where
  "src_of p = h_src (m_hdr (ps_rcv p))"

definition elem_at :: "'a list \<Rightarrow> nat \<Rightarrow> 'a option" where
  "elem_at xs i = (if i < length xs then Some (xs ! i) else None)"

definition zero_fmap_cfg :: qdma_fmap_cfg where
  "zero_fmap_cfg = \<lparr>fm_qbase = 0, fm_qmax = 0\<rparr>"

definition write_fmap :: "dev_hndl \<Rightarrow> u16 \<Rightarrow> qdma_fmap_cfg \<Rightarrow> hw_log \<Rightarrow> int \<times> hw_log" where
  "write_fmap dev fid cfg s = drop_ctxt (qdma_fmap_conf dev fid (Some cfg) QDMA_HW_ACCESS_WRITE s)"

text \<open>\<^verbatim>\<open>MBOX_OP_VF_BYE\<close> and \<^verbatim>\<open>MBOX_OP_PF_RESET_VF_BYE\<close>.\<close>

definition op_bye :: "dev_hndl \<Rightarrow> allocator \<Rightarrow> u8 \<Rightarrow> pf_state \<Rightarrow> int \<times> pf_state" where
  "op_bye dev al idx p =
     (let (rv, s1) = write_fmap dev (src_of p) zero_fmap_cfg (ps_log p) in
      (rv, p\<lparr>ps_log := s1, ps_rm := qdma_dev_entry_destroy al (uint idx) (uint (src_of p)) (ps_rm p)\<rparr>))"

definition op_hello :: "dev_hndl \<Rightarrow> allocator \<Rightarrow> u8 \<Rightarrow> pf_state \<Rightarrow> int \<times> pf_state" where
  "op_hello dev al idx p =
     (let f = m_fmap (ps_rcv p);
          (rv0, qb, qm) = qdma_dev_qinfo_get (uint idx) (uint (src_of p)) (sint (mf_qbase f)) (uint (mf_qmax f)) (ps_rm p);
          f1 = f\<lparr>mf_qbase := word_of_int qb, mf_qmax := word_of_int qm\<rparr>;
          p1 = p\<lparr>ps_rcv := (ps_rcv p)\<lparr>m_fmap := f1\<rparr>\<rparr>;
          (rv, rm1) = (if rv0 < 0 then qdma_dev_entry_create al (uint idx) (uint (src_of p)) (ps_rm p)
                       else (rv0, ps_rm p));
          p2 = p1\<lparr>ps_rm := rm1\<rparr>;
          p3 = (if rv = 0 then
                  (let h = (m_hello (ps_resp p2))\<lparr>he_qbase := mf_qbase f1, he_qmax := mf_qmax f1,
                             he_dma_device_index := ucast idx\<rparr>;
                       (_, cap, s1) = qdma_get_device_attributes dev (Some (he_dev_cap h)) (ps_log p2) in
                   p2\<lparr>ps_resp := (ps_resp p2)\<lparr>m_hello := h\<lparr>he_dev_cap := keep_ctxt (he_dev_cap h) cap\<rparr>\<rparr>,
                      ps_log := s1\<rparr>)
                else p2);
          (_, s2) = write_fmap dev (src_of p) zero_fmap_cfg (ps_log p3) in
      (rv, p3\<lparr>ps_log := s2\<rparr>))"

text \<open>\<^verbatim>\<open>fmap_cfg\<close> has 16-bit fields.\<close>

definition op_fmap :: "dev_hndl \<Rightarrow> pf_state \<Rightarrow> int \<times> pf_state" where
  "op_fmap dev p =
     (let f = m_fmap (ps_rcv p);
          (rv, s1) = write_fmap dev (src_of p)
             \<lparr>fm_qbase = ucast (mf_qbase f), fm_qmax = ucast (mf_qmax f)\<rparr> (ps_log p) in
      (rv, p\<lparr>ps_log := s1\<rparr>))"

definition read_csr :: "dev_hndl \<Rightarrow> qdma_global_csr_type \<Rightarrow> hw_log \<Rightarrow> int \<times> u32 list \<times> hw_log" where
  "read_csr dev ty s =
     (let zeros = replicate 16 0;
          (rv, vals, s1) = qdma_global_csr_conf dev 0 16 (Some zeros) ty QDMA_HW_ACCESS_READ s in
      (rv, keep_ctxt zeros vals, s1))"

text \<open>An error other than a missing feature ends \<^verbatim>\<open>MBOX_OP_CSR\<close>.\<close>

definition csr_fails :: "int \<Rightarrow> bool" where
  "csr_fails rv \<longleftrightarrow> rv < 0 \<and> rv \<noteq> neg_err QDMA_ERR_HWACC_FEATURE_NOT_SUPPORTED"

definition fill_csr :: "int \<Rightarrow> u32 list \<Rightarrow> u32 list \<Rightarrow> u32 list \<Rightarrow> u32 list \<Rightarrow> pf_state \<Rightarrow> pf_state" where
  "fill_csr rv ringsz bufsz tmr_th cntr_th p =
     (let c = m_csr (ps_resp p);
          c1 = c\<lparr>ci_ringsz := map (\<lambda>v. ucast (v AND 0xFFFF)) ringsz\<rparr>;
          c2 = (if rv = 0 then c1\<lparr>ci_bufsz := map (\<lambda>v. ucast (v AND 0xFFFF)) bufsz,
                  ci_timer_cnt := map (\<lambda>v. ucast (v AND 0xFF)) tmr_th,
                  ci_cnt_thres := map (\<lambda>v. ucast (v AND 0xFF)) cntr_th\<rparr> else c1) in
      p\<lparr>ps_resp := (ps_resp p)\<lparr>m_csr := c2\<rparr>\<rparr>)"

definition op_csr :: "dev_hndl \<Rightarrow> pf_state \<Rightarrow> int \<times> pf_state" where
  "op_csr dev p =
     (let zeros = replicate 16 0;
          (rv1, ringsz, s1) = read_csr dev QDMA_CSR_RING_SZ (ps_log p) in
      if rv1 < 0 then (rv1, p\<lparr>ps_log := s1\<rparr>)
      else
        (let (_, cap, s2) = qdma_get_device_attributes dev (Some zero_dev_attributes) s1;
             cap = keep_ctxt zero_dev_attributes cap;
             (rv2, bufsz, s3) = (if st_en cap \<noteq> 0 then read_csr dev QDMA_CSR_BUF_SZ s2 else (rv1, zeros, s2)) in
         if csr_fails rv2 then (rv2, p\<lparr>ps_log := s3\<rparr>)
         else
           (let more = (st_en cap \<noteq> 0 \<or> mm_cmpt_en cap \<noteq> 0);
                (rv3, tmr_th, s4) = (if more then read_csr dev QDMA_CSR_TIMER_CNT s3 else (rv2, zeros, s3)) in
            if csr_fails rv3 then (rv3, p\<lparr>ps_log := s4\<rparr>)
            else
              (let (rv4, cntr_th, s5) = (if more then read_csr dev QDMA_CSR_CNT_TH s4 else (rv3, zeros, s4)) in
               if csr_fails rv4 then (rv4, p\<lparr>ps_log := s5\<rparr>)
               else
                 (if rv4 = neg_err QDMA_ERR_HWACC_FEATURE_NOT_SUPPORTED then err_code QDMA_SUCCESS else rv4,
                  (fill_csr rv4 ringsz bufsz tmr_th cntr_th p)\<lparr>ps_log := s5\<rparr>)))))"

definition op_qreq :: "dev_hndl \<Rightarrow> allocator \<Rightarrow> u8 \<Rightarrow> pf_state \<Rightarrow> int \<times> pf_state" where
  "op_qreq dev al idx p =
     (let f = m_fmap (ps_rcv p); rf = m_fmap (ps_resp p);
          (rv0, qb, rm1) = qdma_dev_update al (uint idx) (uint (src_of p)) (uint (mf_qmax f)) (sint (mf_qbase f)) (ps_rm p);
          p1 = p\<lparr>ps_rcv := (ps_rcv p)\<lparr>m_fmap := f\<lparr>mf_qbase := word_of_int qb\<rparr>\<rparr>, ps_rm := rm1\<rparr>;
          (rv, rqb, rqm) = (if rv0 = 0
             then qdma_dev_qinfo_get (uint idx) (uint (src_of p)) (sint (mf_qbase rf)) (uint (mf_qmax rf)) rm1
             else (rv0, sint (mf_qbase rf), uint (mf_qmax rf)));
          p2 = p1\<lparr>ps_resp := (ps_resp p)\<lparr>m_fmap := rf\<lparr>mf_qbase := word_of_int rqb, mf_qmax := word_of_int rqm\<rparr>\<rparr>\<rparr> in
      if rv < 0 then (neg_err QDMA_ERR_MBOX_NUM_QUEUES, p2)
      else (let (_, s1) = write_fmap dev (src_of p) zero_fmap_cfg (ps_log p2) in (rv, p2\<lparr>ps_log := s1\<rparr>)))"

text \<open>The queue type of a message; every other number is outside the enumeration.\<close>

definition q_type_of :: "u32 \<Rightarrow> qdma_dev_q_type" where
  "q_type_of v = (if v = 0 then QDMA_DEV_Q_TYPE_H2C else if v = 1 then QDMA_DEV_Q_TYPE_C2H
     else if v = 2 then QDMA_DEV_Q_TYPE_CMPT else QDMA_DEV_Q_TYPE_MAX)"

definition op_notify ::
  "(int \<Rightarrow> int \<Rightarrow> qdma_dev_q_type \<Rightarrow> rm_state \<Rightarrow> int \<times> rm_state) \<Rightarrow> u8 \<Rightarrow> pf_state \<Rightarrow> int \<times> pf_state" where
  "op_notify count idx p =
     (let n = m_q_notify (ps_rcv p) in
      if qdma_dev_is_queue_in_range (uint idx) (uint (src_of p)) (uint (qn_qid_hw n)) (ps_rm p) \<noteq> QDMA_DEV_Q_IN_RANGE
      then (neg_err QDMA_ERR_MBOX_INV_QID, p)
      else (let (rv, rm1) = count (uint idx) (uint (src_of p)) (q_type_of (qn_q_type n)) (ps_rm p) in
            (rv, p\<lparr>ps_rm := rm1\<rparr>)))"

text \<open>The last count is also the result.\<close>

definition op_qactive_cnt :: "u8 \<Rightarrow> pf_state \<Rightarrow> int \<times> pf_state" where
  "op_qactive_cnt idx p =
     (let count = (\<lambda>ty. qdma_get_device_active_queue_count (uint idx) (uint (src_of p)) ty (ps_rm p)) in
      (count QDMA_DEV_Q_TYPE_CMPT,
       p\<lparr>ps_resp := (ps_resp p)\<lparr>m_qcnt := \<lparr>qc_h2c_queues = word_of_int (count QDMA_DEV_Q_TYPE_H2C),
          qc_c2h_queues = word_of_int (count QDMA_DEV_Q_TYPE_C2H),
          qc_cmpt_queues = word_of_int (count QDMA_DEV_Q_TYPE_CMPT)\<rparr>\<rparr>\<rparr>))"

text \<open>An error of one ring is noted in the response.\<close>

definition note_error :: "int \<Rightarrow> pf_state \<Rightarrow> pf_state" where
  "note_error rv p =
     (if rv < 0 then p\<lparr>ps_resp := (ps_resp p)\<lparr>m_hdr := (m_hdr (ps_resp p))\<lparr>h_status := word_of_int rv\<rparr>\<rparr>\<rparr> else p)"

text \<open>
  The loops over the rings of an interrupt message: \<open>step\<close> handles ring \<open>i\<close> and is \<open>None\<close> when an
  index leaves an array; \<open>n\<close> rings are left.
\<close>

fun for_rings :: "(nat \<Rightarrow> pf_state \<Rightarrow> (int \<times> pf_state) option) \<Rightarrow> nat \<Rightarrow> nat \<Rightarrow> int \<Rightarrow> pf_state \<Rightarrow>
    (int \<times> pf_state) option" where
  "for_rings step i 0 rv p = Some (rv, p)"
| "for_rings step i (Suc n) rv p =
     (case step i p of
        None \<Rightarrow> None
      | Some (rv', p') \<Rightarrow> for_rings step (Suc i) n rv' p')"

definition intr_reset :: "dev_hndl \<Rightarrow> qdma_hw_access_type \<Rightarrow> nat \<Rightarrow> pf_state \<Rightarrow> (int \<times> pf_state) option" where
  "intr_reset dev access i p =
     (case elem_at (ic_ring_index_list (m_intr_ctxt (ps_rcv p))) i of
        None \<Rightarrow> None
      | Some ring \<Rightarrow>
          (let (rv, s1) = drop_ctxt (qdma_indirect_intr_ctx_conf dev (ucast ring) None access (ps_log p)) in
           Some (rv, note_error rv (p\<lparr>ps_log := s1\<rparr>))))"

definition intr_write :: "dev_hndl \<Rightarrow> nat \<Rightarrow> pf_state \<Rightarrow> (int \<times> pf_state) option" where
  "intr_write dev i p =
     (case (intr_reset dev QDMA_HW_ACCESS_CLEAR i p, elem_at (ic_ring_index_list (m_intr_ctxt (ps_rcv p))) i,
            elem_at (ic_ictxt (m_intr_ctxt (ps_rcv p))) i) of
        (Some (_, p1), Some ring, Some ctxt) \<Rightarrow>
          (let (rv, s1) = drop_ctxt (qdma_indirect_intr_ctx_conf dev (ucast ring) (Some ctxt) QDMA_HW_ACCESS_WRITE (ps_log p1)) in
           Some (rv, note_error rv (p1\<lparr>ps_log := s1\<rparr>)))
      | _ \<Rightarrow> None)"

definition intr_read :: "dev_hndl \<Rightarrow> nat \<Rightarrow> pf_state \<Rightarrow> (int \<times> pf_state) option" where
  "intr_read dev i p =
     (case (elem_at (ic_ring_index_list (m_intr_ctxt (ps_rcv p))) i, elem_at (ic_ictxt (m_intr_ctxt (ps_resp p))) i) of
        (Some ring, Some old) \<Rightarrow>
          (let (rv, ctxt, s1) = qdma_indirect_intr_ctx_conf dev (ucast ring) (Some old) QDMA_HW_ACCESS_READ (ps_log p);
               ic = m_intr_ctxt (ps_resp p);
               p1 = p\<lparr>ps_resp := (ps_resp p)\<lparr>m_intr_ctxt := ic\<lparr>ic_ictxt := (ic_ictxt ic)[i := keep_ctxt old ctxt]\<rparr>\<rparr>,
                      ps_log := s1\<rparr> in
           Some (rv, note_error rv p1))
      | _ \<Rightarrow> None)"

definition op_intr :: "(nat \<Rightarrow> pf_state \<Rightarrow> (int \<times> pf_state) option) \<Rightarrow> pf_state \<Rightarrow> (int \<times> pf_state) option" where
  "op_intr step p = for_rings step 0 (unat (ic_num_rings (m_intr_ctxt (ps_rcv p)))) (err_code QDMA_SUCCESS) p"

definition op_qctxt_reset ::
  "(dev_hndl \<Rightarrow> u8 \<Rightarrow> u16 \<Rightarrow> u16 \<Rightarrow> u8 \<Rightarrow> u8 \<Rightarrow> mbox_cmpt_ctxt_type \<Rightarrow> rm_state \<Rightarrow> hw_log \<Rightarrow> int \<times> hw_log) \<Rightarrow>
     dev_hndl \<Rightarrow> u8 \<Rightarrow> pf_state \<Rightarrow> int \<times> pf_state" where
  "op_qctxt_reset reset dev idx p =
     (let q = m_qctxt (ps_rcv p);
          (rv, s1) = reset dev idx (src_of p) (qx_qid_hw q) (ucast (qx_st q)) (ucast (qx_c2h q))
                       (qx_cmpt_ctxt_type q) (ps_rm p) (ps_log p) in
      (rv, p\<lparr>ps_log := s1\<rparr>))"

text \<open>
  The response's buffer ends inside the completion context: a read that gets as far as storing
  that context leaves the buffer.
\<close>

definition op_qctxt_read :: "dev_hndl \<Rightarrow> pf_state \<Rightarrow> (int \<times> pf_state) option" where
  "op_qctxt_read dev p =
     (let q = m_qctxt (ps_rcv p); rq = m_qctxt (ps_resp p);
          (rv, c, s1) = mbox_read_queue_contexts dev (qx_qid_hw q) (ucast (qx_st q)) (ucast (qx_c2h q))
                          (qx_cmpt_ctxt_type q) (qx_descq_ctxt rq) (ps_log p) in
      if with_cmpt (qx_cmpt_ctxt_type q) \<and> \<not> rv < 0 \<and> mbox_buffer_bytes < cmpt_read_end then None
      else Some (rv, p\<lparr>ps_resp := (ps_resp p)\<lparr>m_qctxt := rq\<lparr>qx_descq_ctxt := c\<rparr>\<rparr>, ps_log := s1\<rparr>))"

definition op_qctxt_write :: "dev_hndl \<Rightarrow> u8 \<Rightarrow> pf_state \<Rightarrow> int \<times> pf_state" where
  "op_qctxt_write dev idx p =
     (let q = m_qctxt (ps_rcv p);
          q1 = q\<lparr>qx_descq_conf := (qx_descq_conf q)\<lparr>mq_func_id := src_of p\<rparr>\<rparr>;
          (rv, s1) = mbox_write_queue_contexts dev idx q1 (ps_rm p) (ps_log p) in
      (rv, p\<lparr>ps_rcv := (ps_rcv p)\<lparr>m_qctxt := q1\<rparr>, ps_log := s1\<rparr>))"

definition op_reg_list :: "dev_hndl \<Rightarrow> pf_state \<Rightarrow> (int \<times> pf_state) option" where
  "op_reg_list dev p =
     (let r = m_reg_read_list (ps_resp p) in
      case qdma_read_reg_list dev 1 (rl_group_num (m_reg_read_list (ps_rcv p))) (rl_num_regs r)
             (Some (rl_reg_list r)) (ps_log p) of
        None \<Rightarrow> None
      | Some (rv, n, regs, s1) \<Rightarrow>
          Some (if rv < 0 \<or> n = 0 then neg_err QDMA_ERR_MBOX_REG_READ_FAILED else rv,
                p\<lparr>ps_resp := (ps_resp p)\<lparr>m_reg_read_list :=
                    r\<lparr>rl_num_regs := n, rl_reg_list := keep_ctxt (rl_reg_list r) regs\<rparr>\<rparr>,
                  ps_log := s1\<rparr>))"

text \<open>
  How a branch of the handler ends: with a plain \<^verbatim>\<open>return\<close>, or at \<^verbatim>\<open>exit_func\<close> with \<^verbatim>\<open>ret\<close> and
  \<^verbatim>\<open>rv\<close>.
\<close>

datatype pf_exit = Return int | Exit_func int int

definition exit_with :: "int \<Rightarrow> int \<times> pf_state \<Rightarrow> (pf_exit \<times> pf_state) option" where
  "exit_with ret r = Some (Exit_func ret (fst r), snd r)"

definition exit_opt :: "(int \<times> pf_state) option \<Rightarrow> (pf_exit \<times> pf_state) option" where
  "exit_opt r = (case r of None \<Rightarrow> None | Some x \<Rightarrow> exit_with 0 x)"

definition pf_dispatch :: "dev_hndl \<Rightarrow> allocator \<Rightarrow> u8 \<Rightarrow> pf_state \<Rightarrow> (pf_exit \<times> pf_state) option" where
  "pf_dispatch dev al idx p =
     (let op = h_op (m_hdr (ps_rcv p)) in
      if op = MBOX_OP_VF_BYE then exit_with QDMA_MBOX_VF_OFFLINE (op_bye dev al idx p)
      else if op = MBOX_OP_PF_RESET_VF_BYE then exit_with QDMA_MBOX_VF_RESET_BYE (op_bye dev al idx p)
      else if op = MBOX_OP_HELLO then exit_with QDMA_MBOX_VF_ONLINE (op_hello dev al idx p)
      else if op = MBOX_OP_FMAP then
        (let (rv, p1) = op_fmap dev p in
         if rv < 0 then Some (Return rv, p1) else Some (Exit_func 0 rv, p1))
      else if op = MBOX_OP_CSR then exit_with 0 (op_csr dev p)
      else if op = MBOX_OP_QREQ then exit_with 0 (op_qreq dev al idx p)
      else if op = MBOX_OP_QNOTIFY_ADD then exit_with 0 (op_notify qdma_dev_increment_active_queue idx p)
      else if op = MBOX_OP_QNOTIFY_DEL then exit_with 0 (op_notify qdma_dev_decrement_active_queue idx p)
      else if op = MBOX_OP_GET_QACTIVE_CNT then exit_with 0 (op_qactive_cnt idx p)
      else if op = MBOX_OP_INTR_CTXT_WRT then exit_opt (op_intr (intr_write dev) p)
      else if op = MBOX_OP_INTR_CTXT_RD then exit_opt (op_intr (intr_read dev) p)
      else if op = MBOX_OP_INTR_CTXT_CLR then exit_opt (op_intr (intr_reset dev QDMA_HW_ACCESS_CLEAR) p)
      else if op = MBOX_OP_INTR_CTXT_INV then exit_opt (op_intr (intr_reset dev QDMA_HW_ACCESS_INVALIDATE) p)
      else if op = MBOX_OP_QCTXT_INV then exit_with 0 (op_qctxt_reset mbox_invalidate_queue_contexts dev idx p)
      else if op = MBOX_OP_QCTXT_CLR then exit_with 0 (op_qctxt_reset mbox_clear_queue_contexts dev idx p)
      else if op = MBOX_OP_QCTXT_RD then exit_opt (op_qctxt_read dev p)
      else if op = MBOX_OP_QCTXT_WRT then exit_with 0 (op_qctxt_write dev idx p)
      else if op = MBOX_OP_RESET_PREPARE_RESP then Some (Return QDMA_MBOX_VF_RESET, p)
      else if op = MBOX_OP_RESET_DONE_RESP then Some (Return QDMA_MBOX_PF_RESET_DONE, p)
      else if op = MBOX_OP_REG_LIST_READ then exit_opt (op_reg_list dev p)
      else if op = MBOX_OP_PF_BYE_RESP then Some (Return QDMA_MBOX_PF_BYE, p)
      else Some (Return (neg_err QDMA_ERR_MBOX_INV_MSG), p))"

text \<open>\<^verbatim>\<open>exit_func\<close>; the status is cut to a byte.\<close>

definition fill_response :: "u16 \<Rightarrow> int \<Rightarrow> pf_state \<Rightarrow> pf_state" where
  "fill_response fid rv p =
     p\<lparr>ps_resp := (ps_resp p)\<lparr>m_hdr := \<lparr>h_op = h_op (m_hdr (ps_rcv p)) + MBOX_MSG_OP_RSP_OFFSET,
         h_status = word_of_int rv, h_src = fid, h_dst = src_of p\<rparr>\<rparr>\<rparr>"

definition qdma_mbox_pf_rcv_msg_handler ::
  "dev_hndl \<Rightarrow> allocator \<Rightarrow> u8 \<Rightarrow> u16 \<Rightarrow> qdma_mbox_txrx option \<Rightarrow> qdma_mbox_txrx \<Rightarrow> rm_state \<Rightarrow> hw_log \<Rightarrow>
     (int \<times> qdma_mbox_txrx \<times> rm_state \<times> hw_log) option" where
  "qdma_mbox_pf_rcv_msg_handler dev al idx fid rcv resp rm s =
     (case rcv of
        None \<Rightarrow> Some (inv_param, resp, rm, s)
      | Some m \<Rightarrow>
          (case pf_dispatch dev al idx \<lparr>ps_rcv = m, ps_resp = resp, ps_rm = rm, ps_log = s\<rparr> of
             None \<Rightarrow> None
           | Some (Return ret, p) \<Rightarrow> Some (ret, ps_resp p, ps_rm p, ps_log p)
           | Some (Exit_func ret rv, p) \<Rightarrow>
               (let p1 = fill_response fid rv p in Some (ret, ps_resp p1, ps_rm p1, ps_log p1))))"

subsection \<open>The virtual function\<close>

definition answer :: "qdma_mbox_txrx \<Rightarrow> qdma_mbox_txrx \<Rightarrow> qdma_mbox_txrx" where
  "answer rcv resp = resp\<lparr>m_hdr := (m_hdr resp)\<lparr>h_op := h_op (m_hdr rcv) + MBOX_MSG_OP_RSP_OFFSET,
     h_dst := h_src (m_hdr rcv), h_src := h_dst (m_hdr rcv)\<rparr>\<rparr>"

definition qdma_mbox_vf_rcv_msg_handler :: "qdma_mbox_txrx \<Rightarrow> qdma_mbox_txrx \<Rightarrow> int \<times> qdma_mbox_txrx" where
  "qdma_mbox_vf_rcv_msg_handler rcv resp =
     (let op = h_op (m_hdr rcv) in
      if op = MBOX_OP_RESET_PREPARE then (QDMA_MBOX_VF_RESET, answer rcv resp)
      else if op = MBOX_OP_RESET_DONE then (QDMA_MBOX_PF_RESET_DONE, answer rcv resp)
      else if op = MBOX_OP_PF_BYE then (QDMA_MBOX_PF_BYE, answer rcv resp)
      else (0, resp))"

subsection \<open>Frames\<close>

text \<open>Every branch keeps the header of the request; the queue resources change by one operation.\<close>

named_theorems pf_frame \<open>what a branch of the handler leaves alone\<close>

lemma note_error_frame [simp]:
  "ps_rcv (note_error rv p) = ps_rcv p" "ps_rm (note_error rv p) = ps_rm p" "ps_log (note_error rv p) = ps_log p"
  "m_intr_ctxt (ps_resp (note_error rv p)) = m_intr_ctxt (ps_resp p)"
  by (simp_all add: note_error_def)

lemma op_bye_frame [pf_frame]:
  "op_bye dev al idx p = (rv, p') \<Longrightarrow>
     ps_rcv p' = ps_rcv p \<and> ps_rm p' = rm_exec al (Rm_dev_destroy (uint idx) (uint (src_of p))) (ps_rm p)"
  by (auto simp: op_bye_def split: prod.splits)

lemma op_hello_frame [pf_frame]:
  "op_hello dev al idx p = (rv, p') \<Longrightarrow>
     m_hdr (ps_rcv p') = m_hdr (ps_rcv p) \<and>
     (ps_rm p' = ps_rm p \<or> ps_rm p' = rm_exec al (Rm_dev_create (uint idx) (uint (src_of p))) (ps_rm p))"
  by (auto simp: op_hello_def Let_def split: prod.splits if_splits)

lemma op_fmap_frame [pf_frame]:
  "op_fmap dev p = (rv, p') \<Longrightarrow> ps_rcv p' = ps_rcv p \<and> ps_rm p' = ps_rm p \<and> ps_resp p' = ps_resp p"
  by (auto simp: op_fmap_def Let_def split: prod.splits)

lemma op_csr_frame [pf_frame]:
  "op_csr dev p = (rv, p') \<Longrightarrow> ps_rcv p' = ps_rcv p \<and> ps_rm p' = ps_rm p"
  by (auto simp: op_csr_def fill_csr_def Let_def split: prod.splits if_splits)

lemma op_qreq_frame [pf_frame]:
  "op_qreq dev al idx p = (rv, p') \<Longrightarrow>
     m_hdr (ps_rcv p') = m_hdr (ps_rcv p) \<and>
     ps_rm p' = rm_exec al (Rm_dev_update (uint idx) (uint (src_of p)) (uint (mf_qmax (m_fmap (ps_rcv p))))
                  (sint (mf_qbase (m_fmap (ps_rcv p))))) (ps_rm p)"
  by (auto simp: op_qreq_def Let_def split: prod.splits if_splits)

lemma op_notify_frame [pf_frame]:
  "op_notify qdma_dev_increment_active_queue idx p = (rv, p') \<Longrightarrow>
     ps_rcv p' = ps_rcv p \<and>
     (ps_rm p' = ps_rm p \<or>
      ps_rm p' = rm_exec al (Rm_increment (uint idx) (uint (src_of p))
        (q_type_of (qn_q_type (m_q_notify (ps_rcv p))))) (ps_rm p))"
  "op_notify qdma_dev_decrement_active_queue idx p = (rv, p') \<Longrightarrow>
     ps_rcv p' = ps_rcv p \<and>
     (ps_rm p' = ps_rm p \<or>
      ps_rm p' = rm_exec al (Rm_decrement (uint idx) (uint (src_of p))
        (q_type_of (qn_q_type (m_q_notify (ps_rcv p))))) (ps_rm p))"
  by (auto simp: op_notify_def Let_def split: prod.splits if_splits)

lemma op_qactive_cnt_frame [pf_frame]:
  "op_qactive_cnt idx p = (rv, p') \<Longrightarrow> ps_rcv p' = ps_rcv p \<and> ps_rm p' = ps_rm p"
  by (auto simp: op_qactive_cnt_def)

lemma intr_step_frame:
  "intr_reset dev access i p = Some (rv, p') \<Longrightarrow> ps_rcv p' = ps_rcv p \<and> ps_rm p' = ps_rm p"
  "intr_write dev i p = Some (rv, p') \<Longrightarrow> ps_rcv p' = ps_rcv p \<and> ps_rm p' = ps_rm p"
  "intr_read dev i p = Some (rv, p') \<Longrightarrow> ps_rcv p' = ps_rcv p \<and> ps_rm p' = ps_rm p"
  by (auto simp: intr_reset_def intr_write_def intr_read_def Let_def split: option.splits prod.splits)

lemma for_rings_frame:
  assumes "\<And>i p rv p'. step i p = Some (rv, p') \<Longrightarrow> ps_rcv p' = ps_rcv p \<and> ps_rm p' = ps_rm p"
  shows "for_rings step i n rv p = Some (rv', p') \<Longrightarrow> ps_rcv p' = ps_rcv p \<and> ps_rm p' = ps_rm p"
proof (induction n arbitrary: i rv p)
  case (Suc n)
  then obtain rv1 p1 where "step i p = Some (rv1, p1)" "for_rings step (Suc i) n rv1 p1 = Some (rv', p')"
    by (auto split: option.splits prod.splits)
  then show ?case using Suc.IH [of "Suc i" rv1 p1] assms [of i p rv1 p1] by simp
qed simp

lemma op_intr_frame [pf_frame]:
  "op_intr (intr_reset dev access) p = Some (rv, p') \<Longrightarrow> ps_rcv p' = ps_rcv p \<and> ps_rm p' = ps_rm p"
  "op_intr (intr_write dev) p = Some (rv, p') \<Longrightarrow> ps_rcv p' = ps_rcv p \<and> ps_rm p' = ps_rm p"
  "op_intr (intr_read dev) p = Some (rv, p') \<Longrightarrow> ps_rcv p' = ps_rcv p \<and> ps_rm p' = ps_rm p"
  unfolding op_intr_def
  by (erule for_rings_frame [rotated], erule intr_step_frame)+

lemma op_qctxt_reset_frame [pf_frame]:
  "op_qctxt_reset reset dev idx p = (rv, p') \<Longrightarrow> ps_rcv p' = ps_rcv p \<and> ps_rm p' = ps_rm p"
  by (auto simp: op_qctxt_reset_def Let_def split: prod.splits)

lemma op_qctxt_read_frame [pf_frame]:
  "op_qctxt_read dev p = Some (rv, p') \<Longrightarrow> ps_rcv p' = ps_rcv p \<and> ps_rm p' = ps_rm p"
  by (auto simp: op_qctxt_read_def Let_def split: prod.splits if_splits)

lemma op_qctxt_write_frame [pf_frame]:
  "op_qctxt_write dev idx p = (rv, p') \<Longrightarrow> m_hdr (ps_rcv p') = m_hdr (ps_rcv p) \<and> ps_rm p' = ps_rm p"
  by (auto simp: op_qctxt_write_def Let_def split: prod.splits)

lemma op_reg_list_frame [pf_frame]:
  "op_reg_list dev p = Some (rv, p') \<Longrightarrow> ps_rcv p' = ps_rcv p \<and> ps_rm p' = ps_rm p"
  by (auto simp: op_reg_list_def Let_def split: option.splits prod.splits)

text \<open>The requests that end at \<^verbatim>\<open>exit_func\<close>; \<^verbatim>\<open>MBOX_OP_FMAP\<close> does so when it succeeds.\<close>

definition answered_ops :: "u8 list" where
  "answered_ops = [MBOX_OP_VF_BYE, MBOX_OP_HELLO, MBOX_OP_CSR, MBOX_OP_QREQ, MBOX_OP_QNOTIFY_ADD,
     MBOX_OP_QNOTIFY_DEL, MBOX_OP_GET_QACTIVE_CNT, MBOX_OP_QCTXT_WRT, MBOX_OP_QCTXT_RD, MBOX_OP_QCTXT_CLR,
     MBOX_OP_QCTXT_INV, MBOX_OP_INTR_CTXT_WRT, MBOX_OP_INTR_CTXT_RD, MBOX_OP_INTR_CTXT_CLR,
     MBOX_OP_INTR_CTXT_INV, MBOX_OP_REG_LIST_READ, MBOX_OP_PF_RESET_VF_BYE]"

definition intr_ops :: "u8 list" where
  "intr_ops = [MBOX_OP_INTR_CTXT_WRT, MBOX_OP_INTR_CTXT_RD, MBOX_OP_INTR_CTXT_CLR, MBOX_OP_INTR_CTXT_INV]"

lemma exit_with_Some: "exit_with ret r = Some (e, p') \<longleftrightarrow> (\<exists>rv. r = (rv, p') \<and> e = Exit_func ret rv)"
  by (cases r) (auto simp: exit_with_def)

lemma exit_opt_Some: "exit_opt r = Some (e, p') \<longleftrightarrow> (\<exists>rv. r = Some (rv, p') \<and> e = Exit_func 0 rv)"
  by (cases r) (auto simp: exit_opt_def exit_with_Some)

lemma exit_never [simp]: "exit_with ret x \<noteq> None" "exit_opt r = None \<longleftrightarrow> r = None"
  by (auto simp: exit_with_def exit_opt_def split: option.splits)

text \<open>Case analysis of a run of the handler, one case for each kind of change.\<close>

lemma pf_dispatch_cases:
  assumes "pf_dispatch dev al idx p = Some (e, p')"
  obtains (exit) ret rv where "e = Exit_func ret rv" "h_op (m_hdr (ps_rcv p)) \<in> set answered_ops"
      "m_hdr (ps_rcv p') = m_hdr (ps_rcv p)"
    | (fmap) rv where "h_op (m_hdr (ps_rcv p)) = MBOX_OP_FMAP" "op_fmap dev p = (rv, p')"
      "e = (if rv < 0 then Return rv else Exit_func 0 rv)"
    | (return) ret where "e = Return ret" "h_op (m_hdr (ps_rcv p)) \<notin> set answered_ops"
      "h_op (m_hdr (ps_rcv p)) \<noteq> MBOX_OP_FMAP" "p' = p"
  using assms
  by (auto simp: pf_dispatch_def Let_def exit_with_Some exit_opt_Some answered_ops_def mbox_op_defs
      dest!: pf_frame split: if_splits prod.splits)

end
