(* ===== verification/Mbox_Isolation.thy ===== *)
theory Mbox_Isolation
  imports Mbox_Handler
begin

text \<open>
  What a request can do to the queue contexts of the device: the context commands an operation
  issues, the confinement of the queue requests to the sender's queues, and the completion
  context requests that escape it.
\<close>

subsection \<open>The context commands of an operation\<close>

text \<open>
  An event that leaves every register but the indirect context registers alone and whose
  command, if it is one, addresses a context of \<open>K\<close>.
\<close>

fun allowed :: "ctxt_key set \<Rightarrow> hw_event \<Rightarrow> bool" where
  "allowed K (Reg_write a v) \<longleftrightarrow> ctxt_reg a \<and> (a = QDMA_OFFSET_IND_CTXT_CMD \<longrightarrow> cmd_key v \<in> K)"
| "allowed K _ \<longleftrightarrow> True"

definition confined :: "ctxt_key set \<Rightarrow> hw_log \<Rightarrow> hw_log \<Rightarrow> bool" where
  "confined K s s' \<longleftrightarrow> (\<exists>es. s' = s @ es \<and> list_all (allowed K) es)"

named_theorems confined_intro \<open>operations that stay inside a set of contexts\<close>

lemma confined_refl [simp, confined_intro]: "confined K s s"
  by (simp add: confined_def)

lemma confined_trans: "confined K s s' \<Longrightarrow> confined K s' s'' \<Longrightarrow> confined K s s''"
  by (auto simp: confined_def)

lemma confined_mono: "confined K s s' \<Longrightarrow> K \<subseteq> L \<Longrightarrow> confined L s s'"
proof -
  assume "confined K s s'" "K \<subseteq> L"
  moreover from this(2) have "allowed K e \<Longrightarrow> allowed L e" for e by (cases e) auto
  ultimately show ?thesis by (auto simp: confined_def list_all_iff)
qed

lemma confined_step:
  "confined K s (snd (qdma_reg_read env a s))" "confined K s (qdma_udelay us s)"
  "confined K s (qdma_reg_access_lock s)" "confined K s (qdma_reg_access_release s)"
  "ctxt_reg a \<Longrightarrow> a \<noteq> QDMA_OFFSET_IND_CTXT_CMD \<or> cmd_key v \<in> K \<Longrightarrow> confined K s (qdma_reg_write a v s)"
  by (auto simp: confined_def qdma_reg_write_def qdma_reg_read_def qdma_udelay_def
      qdma_reg_access_lock_def qdma_reg_access_release_def)

lemma confined_poll: "confined K s (snd (poll_loop env reg msk val iv n s))"
proof (induction n arbitrary: s)
  case 0
  then show ?case using confined_step(1) by (simp add: qdma_reg_read_def)
next
  case (Suc n)
  then show ?case
    using confined_step(1) [of K s env reg] confined_step(2) confined_trans
    by (auto simp: qdma_reg_read_def Let_def) blast
qed

lemma confined_wait: "confined K s (snd (wait_ctxt_cmd env s))"
  by (simp add: wait_ctxt_cmd_def hw_monitor_reg_def Let_def confined_poll)

lemma confined_reads: "confined K s (snd (read_regs env a n s))"
  using read_regs_log [of env a n s] by (fastforce simp: confined_def list_all_iff)

lemma confined_write_regs:
  assumes "cmd_key cmd \<in> K"
  shows "confined K s (write_regs QDMA_OFFSET_IND_CTXT_DATA (indirect_ctxt_regs data cmd) s)"
  by (rule ctxt_regs_cases [of data cmd])
    (use assms in \<open>simp add: confined_def qdma_reg_write_def ctxt_reg_def
        QDMA_OFFSET_IND_CTXT_DATA_def QDMA_OFFSET_IND_CTXT_CMD_def\<close>)

lemmas confined_later =
  confined_trans [OF _ confined_wait] confined_trans [OF _ confined_reads]
  confined_trans [OF _ confined_step(3)] confined_trans [OF _ confined_step(4)]
  confined_trans [OF _ confined_step(5)] confined_trans [OF _ confined_write_regs]

lemma ctxt_reg_cmd [simp]: "ctxt_reg QDMA_OFFSET_IND_CTXT_CMD"
  by (simp add: ctxt_reg_def QDMA_OFFSET_IND_CTXT_DATA_def QDMA_OFFSET_IND_CTXT_CMD_def)

lemma indirect_confined:
  assumes "ctxt_key_of sel qid \<in> K"
  shows "confined K s (snd (qdma_indirect_reg_write env sel qid data s))"
    "confined K s (snd (snd (qdma_indirect_reg_read env sel qid n s)))"
    "confined K s (snd (qdma_indirect_reg_clear env sel qid s))"
    "confined K s (snd (qdma_indirect_reg_invalidate env sel qid s))"
  using assms
  by (auto simp: qdma_indirect_reg_write_def qdma_indirect_reg_read_def qdma_indirect_reg_clear_def
      qdma_indirect_reg_invalidate_def Let_def case_prod_unfold
      intro!: confined_later confined_step(3))

text \<open>The contexts of a queue.\<close>

definition queue_keys :: "u16 \<Rightarrow> ctxt_key set" where
  "queue_keys qid = (\<lambda>sel. ctxt_key_of sel qid) ` (UNIV - {QDMA_CTXT_SEL_INT_COAL, QDMA_CTXT_SEL_FMAP})"

lemma queue_key [simp]:
  "sel \<noteq> QDMA_CTXT_SEL_INT_COAL \<Longrightarrow> sel \<noteq> QDMA_CTXT_SEL_FMAP \<Longrightarrow> ctxt_key_of sel qid \<in> queue_keys qid"
  by (simp add: queue_keys_def)

lemma conf_confined [confined_intro]:
  "confined (queue_keys qid) s (snd (snd (qdma_sw_ctx_conf dev c2h qid c1 t s)))"
  "confined (queue_keys qid) s (snd (snd (qdma_pfetch_ctx_conf dev qid c2 t s)))"
  "confined (queue_keys qid) s (snd (snd (qdma_cmpt_ctx_conf dev qid c3 t s)))"
  "confined (queue_keys qid) s (snd (snd (qdma_hw_ctx_conf dev c2h qid c4 t s)))"
  "confined (queue_keys qid) s (snd (snd (qdma_credit_ctx_conf dev c2h qid c5 t s)))"
  "confined {ctxt_key_of QDMA_CTXT_SEL_INT_COAL qid} s (snd (snd (qdma_indirect_intr_ctx_conf dev qid c6 t s)))"
  "confined {ctxt_key_of QDMA_CTXT_SEL_FMAP qid} s (snd (snd (qdma_fmap_conf dev qid c7 t s)))"
  by (cases t; auto simp: ctx_conf_defs case_prod_unfold Let_def indirect_confined split: option.split)+

lemma confined_and_then [confined_intro]:
  assumes "confined K s (snd r)" "\<And>t. confined K t (snd (f t))"
  shows "confined K s (snd (and_then r f))"
  using assms confined_trans by (auto simp: and_then_def)

lemma confined_then_with [confined_intro]:
  assumes "confined K s (snd (snd r))" "\<And>c t. confined K t (snd (f c t))"
  shows "confined K s (snd (then_with r f))"
  using assms confined_trans by (auto simp: then_with_def drop_ctxt_def)

lemma confined_drop [confined_intro]: "confined K s (snd (snd r)) \<Longrightarrow> confined K s (snd (drop_ctxt r))"
  by (simp add: drop_ctxt_def)

text \<open>Reading the global arrays writes nothing.\<close>

lemma attributes_confined: "confined K s (snd (read_dev_attributes env s))"
  using read_dev_attributes_log [of env s] by (fastforce simp: confined_def list_all_iff)

lemma csr_read_confined [confined_intro]:
  "confined K s (snd (snd (qdma_global_csr_conf dev i n vals ty QDMA_HW_ACCESS_READ s)))"
  by (cases ty; cases dev; cases vals;
      simp add: csr_conf_defs qdma_read_csr_values_def Let_def case_prod_unfold
        confined_reads attributes_confined confined_trans [OF attributes_confined confined_reads])

lemma lookup_confined [confined_intro]:
  "confined K s (snd (snd (get_ring_idx dev a s)))" "confined K s (snd (snd (get_buf_idx dev a s)))"
  "confined K s (snd (snd (get_cntr_idx dev b s)))" "confined K s (snd (snd (get_tmr_idx dev b s)))"
  using csr_read_confined
  by (auto simp: get_ring_idx_def get_buf_idx_def get_cntr_idx_def get_tmr_idx_def csr_lookup_def Let_def
      split: prod.splits option.splits) (metis snd_conv)+

lemma compose_confined [confined_intro]:
  "confined K s (snd (snd (mbox_compose_sw_context dev q sw s)))"
  "confined K s (snd (snd (mbox_compose_prefetch_context dev q pf s)))"
  "confined K s (snd (snd (mbox_compose_cmpt_context dev q cm s)))"
  using lookup_confined confined_trans
  by (auto simp: mbox_compose_sw_context_def mbox_compose_prefetch_context_def mbox_compose_cmpt_context_def Let_def
      split: prod.splits) (metis snd_conv)+

lemma reset_confined [confined_intro]:
  "confined (queue_keys qid) s (snd (reset_queue_contexts access dev idx fid qid st c2h ty rm s))"
  by (auto simp: reset_queue_contexts_def Let_def intro!: confined_intro)

lemma write_confined [confined_intro]:
  "confined (queue_keys (qx_qid_hw q)) s (snd (mbox_write_queue_contexts dev idx q rm s))"
  by (auto simp: mbox_write_queue_contexts_def mbox_clear_queue_contexts_def Let_def intro!: confined_intro)

text \<open>The steps of a read, without the contexts.\<close>

lemma read_queue_steps:
  "drop_ctxt (mbox_read_queue_contexts dev qid st c2h ty c s) =
     and_then (drop_ctxt (qdma_sw_ctx_conf dev c2h qid (Some (dc_sw_ctxt c)) QDMA_HW_ACCESS_READ s)) (\<lambda>s.
     and_then (drop_ctxt (qdma_hw_ctx_conf dev c2h qid (Some (dc_hw_ctxt c)) QDMA_HW_ACCESS_READ s)) (\<lambda>s.
     and_then (drop_ctxt (qdma_credit_ctx_conf dev c2h qid (Some (dc_cr_ctxt c)) QDMA_HW_ACCESS_READ s)) (\<lambda>s.
     and_then (if st \<noteq> 0 \<and> c2h \<noteq> 0
       then drop_ctxt (qdma_pfetch_ctx_conf dev qid (Some (dc_pfetch_ctxt c)) QDMA_HW_ACCESS_READ s) else (0, s)) (\<lambda>s.
     and_then (if with_cmpt ty
       then drop_ctxt (qdma_cmpt_ctx_conf dev qid (Some (dc_cmpt_ctxt c)) QDMA_HW_ACCESS_READ s) else (0, s)) (\<lambda>s.
     (err_code QDMA_SUCCESS, s))))))"
proof -
  have "(st \<noteq> 0 \<and> c2h \<noteq> 0) = True \<or> (st \<noteq> 0 \<and> c2h \<noteq> 0) = False" by blast
  then show ?thesis
    unfolding mbox_read_queue_contexts_def and_then_def drop_ctxt_def Let_def case_prod_unfold
    by (elim disjE; cases "with_cmpt ty"; simp only: if_True if_False fst_conv snd_conv; simp)
qed

lemma read_confined [confined_intro]:
  "confined (queue_keys qid) s (snd (snd (mbox_read_queue_contexts dev qid st c2h ty c s)))"
proof -
  have "confined (queue_keys qid) s (snd (drop_ctxt (mbox_read_queue_contexts dev qid st c2h ty c s)))"
    unfolding read_queue_steps by (auto intro!: confined_intro)
  then show ?thesis by (simp add: drop_ctxt_def)
qed

lemma dispatch_qctxt:
  "h_op (m_hdr (ps_rcv p)) = MBOX_OP_QCTXT_CLR \<Longrightarrow>
     pf_dispatch dev al idx p = exit_with 0 (op_qctxt_reset mbox_clear_queue_contexts dev idx p)"
  "h_op (m_hdr (ps_rcv p)) = MBOX_OP_QCTXT_INV \<Longrightarrow>
     pf_dispatch dev al idx p = exit_with 0 (op_qctxt_reset mbox_invalidate_queue_contexts dev idx p)"
  "h_op (m_hdr (ps_rcv p)) = MBOX_OP_QCTXT_WRT \<Longrightarrow>
     pf_dispatch dev al idx p = exit_with 0 (op_qctxt_write dev idx p)"
  "h_op (m_hdr (ps_rcv p)) = MBOX_OP_QCTXT_RD \<Longrightarrow>
     pf_dispatch dev al idx p = exit_opt (op_qctxt_read dev p)"
  by (simp_all add: pf_dispatch_def mbox_op_defs)

text \<open>The log after the handler, for a branch that is answered.\<close>

lemma handler_answered:
  assumes "pf_dispatch dev al idx \<lparr>ps_rcv = m, ps_resp = resp, ps_rm = rm, ps_log = s\<rparr> = exit_with ret r"
  shows "qdma_mbox_pf_rcv_msg_handler dev al idx fid (Some m) resp rm s =
    Some (ret, ps_resp (fill_response fid (fst r) (snd r)), ps_rm (snd r), ps_log (snd r))"
  using assms by (simp add: qdma_mbox_pf_rcv_msg_handler_def exit_with_def fill_response_def)

definition sender_owns :: "u8 \<Rightarrow> qdma_mbox_txrx \<Rightarrow> rm_state \<Rightarrow> bool" where
  "sender_owns idx m rm \<longleftrightarrow>
     qdma_dev_is_queue_in_range (uint idx) (uint (h_src (m_hdr m))) (uint (qx_qid_hw (m_qctxt m))) rm =
       QDMA_DEV_Q_IN_RANGE"

lemma reset_not_owned:
  "ty \<noteq> QDMA_MBOX_CMPT_CTXT_ONLY \<Longrightarrow>
   qdma_dev_is_queue_in_range (uint idx) (uint fid) (uint qid) rm \<noteq> QDMA_DEV_Q_IN_RANGE \<Longrightarrow>
   snd (reset_queue_contexts access dev idx fid qid st c2h ty rm s) = s"
  by (simp add: reset_queue_contexts_def Let_def)

lemma write_not_owned:
  "qdma_dev_is_queue_in_range (uint idx) (uint (mq_func_id (qx_descq_conf q))) (uint (qx_qid_hw q)) rm \<noteq>
     QDMA_DEV_Q_IN_RANGE \<Longrightarrow>
   snd (mbox_write_queue_contexts dev idx q rm s) = s"
  by (simp add: mbox_write_queue_contexts_def Let_def)

lemma qctxt_confined:
  assumes "h_op (m_hdr m) = MBOX_OP_QCTXT_WRT \<or>
      (h_op (m_hdr m) = MBOX_OP_QCTXT_CLR \<or> h_op (m_hdr m) = MBOX_OP_QCTXT_INV) \<and>
      qx_cmpt_ctxt_type (m_qctxt m) \<noteq> QDMA_MBOX_CMPT_CTXT_ONLY"
    and "qdma_mbox_pf_rcv_msg_handler dev al idx fid (Some m) resp rm s = Some (ret, resp', rm', s')"
  shows "(sender_owns idx m rm \<longrightarrow> confined (queue_keys (qx_qid_hw (m_qctxt m))) s s') \<and>
         (\<not> sender_owns idx m rm \<longrightarrow> s' = s)"
proof -
  let ?p = "\<lparr>ps_rcv = m, ps_resp = resp, ps_rm = rm, ps_log = s\<rparr>"
  let ?q = "m_qctxt m"
  let ?q1 = "?q\<lparr>qx_descq_conf := (qx_descq_conf ?q)\<lparr>mq_func_id := h_src (m_hdr m)\<rparr>\<rparr>"
  have "s' = snd (mbox_write_queue_contexts dev idx ?q1 rm s) \<or>
      (\<exists>access. s' = snd (reset_queue_contexts access dev idx (h_src (m_hdr m)) (qx_qid_hw ?q)
         (ucast (qx_st ?q)) (ucast (qx_c2h ?q)) (qx_cmpt_ctxt_type ?q) rm s) \<and>
         qx_cmpt_ctxt_type ?q \<noteq> QDMA_MBOX_CMPT_CTXT_ONLY)"
    using assms
    by (elim disjE conjE)
      (auto simp: handler_answered dispatch_qctxt op_qctxt_reset_def op_qctxt_write_def src_of_def
        mbox_clear_queue_contexts_def mbox_invalidate_queue_contexts_def Let_def case_prod_unfold)
  then show ?thesis
    using write_confined [of ?q1 s dev idx rm] reset_confined write_not_owned [of idx ?q1 rm dev s]
    by (auto simp: sender_owns_def reset_not_owned)
qed

lemma queue_keys_disjoint:
  assumes "uint q < 2048" "uint q' < 2048" "q \<noteq> q'"
  shows "queue_keys q \<inter> queue_keys q' = {}"
proof -
  have "take_bit 11 (ucast x :: u32) = ucast x" if "uint x < 2048" for x :: u16
    using that by (simp add: take_bit_eq_mod word_uint_eq_iff uint_mod unsigned_ucast_eq take_bit_int_eq_self)
  moreover have "ucast q \<noteq> (ucast q' :: u32)"
    using assms by (simp add: word_uint_eq_iff unsigned_ucast_eq take_bit_int_eq_self)
  ultimately show ?thesis using assms by (auto simp: queue_keys_def ctxt_key_of_def sel_code_inj)
qed

text \<open>
  C3: A virtual function reaches only its own queues. In every reachable state of the
  resource manager, on every device, a request to write, clear or invalidate the contexts of
  a queue leads only to context commands for that queue, and to no register access at all
  when the queue is not in the sender's range; so the contexts of a queue that belongs to
  another function are not touched. Both queue numbers are below 2048, the number of queues
  of the device: the context command selects with 11 bits, so a request for queue 2053 would
  reach the contexts of queue 5, and the handler's range test does not bound the number
  itself. A clear or an invalidation of the completion context alone is excluded: it is not
  checked.
\<close>

theorem mailbox_queue_isolation:
  assumes "rm_reach al rm"
    and "h_op (m_hdr m) = MBOX_OP_QCTXT_WRT \<or>
      (h_op (m_hdr m) = MBOX_OP_QCTXT_CLR \<or> h_op (m_hdr m) = MBOX_OP_QCTXT_INV) \<and>
      qx_cmpt_ctxt_type (m_qctxt m) \<noteq> QDMA_MBOX_CMPT_CTXT_ONLY"
    and "qdma_mbox_pf_rcv_msg_handler dev al idx fid (Some m) resp rm s = Some (ret, resp', rm', s')"
    and "uint (qx_qid_hw (m_qctxt m)) < 2048"
  shows "(sender_owns idx m rm \<longrightarrow> confined (queue_keys (qx_qid_hw (m_qctxt m))) s s') \<and>
    (\<not> sender_owns idx m rm \<longrightarrow> s' = s) \<and>
    (\<forall>fid' q. fid' \<noteq> uint (h_src (m_hdr m)) \<and> uint q < 2048 \<and>
        qdma_dev_is_queue_in_range (uint idx) fid' (uint q) rm = QDMA_DEV_Q_IN_RANGE \<longrightarrow>
        confined (- queue_keys q) s s')"
proof (intro conjI allI impI)
  note c = qctxt_confined [OF assms(2,3)]
  show "sender_owns idx m rm \<Longrightarrow> confined (queue_keys (qx_qid_hw (m_qctxt m))) s s'"
    and "\<not> sender_owns idx m rm \<Longrightarrow> s' = s" using c by blast+
  fix fid' and q :: u16
  assume other: "fid' \<noteq> uint (h_src (m_hdr m)) \<and> uint q < 2048 \<and>
        qdma_dev_is_queue_in_range (uint idx) fid' (uint q) rm = QDMA_DEV_Q_IN_RANGE"
  show "confined (- queue_keys q) s s'"
  proof (cases "sender_owns idx m rm")
    case True
    have "uint q < 4294967296" "0 \<le> uint q" using other by simp_all
    then have "q \<noteq> qx_qid_hw (m_qctxt m)"
      using in_range_exclusive [OF rm_reach_ok [OF assms(1)], of "uint q" "uint idx"] True other
      unfolding sender_owns_def by metis
    then show ?thesis
      using queue_keys_disjoint [of "qx_qid_hw (m_qctxt m)" q] assms(4) other c True
      by (blast intro: confined_mono)
  qed (use c in simp)
qed

text \<open>A request of function 9 for the contexts of queue \<open>qid\<close>.\<close>

definition demo_qctxt :: "u8 \<Rightarrow> u16 \<Rightarrow> mbox_cmpt_ctxt_type \<Rightarrow> qdma_mbox_txrx" where
  "demo_qctxt op qid ty =
     set_qctxt qid 0 0 ty (zero_msg\<lparr>m_hdr := \<lparr>h_op = op, h_status = 0, h_src = 9, h_dst = 0\<rparr>\<rparr>)"

lemma demo_qctxt_fields [simp]:
  "m_hdr (demo_qctxt op qid ty) = \<lparr>h_op = op, h_status = 0, h_src = 9, h_dst = 0\<rparr>"
  "qx_qid_hw (m_qctxt (demo_qctxt op qid ty)) = qid" "qx_cmpt_ctxt_type (m_qctxt (demo_qctxt op qid ty)) = ty"
  by (simp_all add: demo_qctxt_def set_qctxt_def)

theorem mailbox_queue_isolation_witness:
  "\<exists>ret resp' rm' s'.
     qdma_mbox_pf_rcv_msg_handler (Some ref_hw) (\<lambda>_. True) 0 0
       (Some (demo_qctxt MBOX_OP_QCTXT_CLR 30 QDMA_MBOX_CMPT_CTXT_NONE)) zero_msg demo_rm [] =
       Some (ret, resp', rm', s') \<and>
     confined (queue_keys 30) [] s' \<and> confined (- queue_keys 5) [] s'"
proof -
  let ?m = "demo_qctxt MBOX_OP_QCTXT_CLR 30 QDMA_MBOX_CMPT_CTXT_NONE"
  obtain ret resp' rm' s' where r: "qdma_mbox_pf_rcv_msg_handler (Some ref_hw) (\<lambda>_. True) 0 0 (Some ?m)
      zero_msg demo_rm [] = Some (ret, resp', rm', s')"
    by (simp add: handler_answered dispatch_qctxt)
  have own: "sender_owns 0 ?m demo_rm" "qdma_dev_is_queue_in_range 0 8 5 demo_rm = QDMA_DEV_Q_IN_RANGE"
    unfolding sender_owns_def demo_rm_value by code_simp+
  have "confined (queue_keys 30) [] s' \<and> confined (- queue_keys 5) [] s'"
    using mailbox_queue_isolation [OF demo_rm_reach _ r, simplified, THEN conjunct2, THEN conjunct2,
        rule_format, of 8 5] mailbox_queue_isolation [OF demo_rm_reach _ r] own
    by (simp add: cmpt_ctxt_type_defs)
  then show ?thesis using r by blast
qed

text \<open>
  C22: The completion context is not protected. Whatever the state of the resource manager,
  on a device that behaves as documented, a request to clear only the completion context of
  any queue succeeds: the context is zero afterwards, also when the queue belongs to another
  function or to none.
\<close>

theorem completion_clear_unchecked:
  assumes "ctxt_hw env" "h_op (m_hdr m) = MBOX_OP_QCTXT_CLR"
    and "qx_cmpt_ctxt_type (m_qctxt m) = QDMA_MBOX_CMPT_CTXT_ONLY"
  shows "\<exists>resp' s'. qdma_mbox_pf_rcv_msg_handler (Some env) al idx fid (Some m) resp rm s =
      Some (0, resp', rm, s') \<and> h_status (m_hdr resp') = 0 \<and>
      ctxt_words s' = (ctxt_words s)(ctxt_key_of QDMA_CTXT_SEL_CMPT (qx_qid_hw (m_qctxt m)) := replicate 8 (Some 0))"
proof -
  obtain rv s' where c: "qdma_indirect_reg_clear env QDMA_CTXT_SEL_CMPT (qx_qid_hw (m_qctxt m)) s = (rv, s')"
    by force
  have "rv = 0" and w: "ctxt_words s' =
      (ctxt_words s)(ctxt_key_of QDMA_CTXT_SEL_CMPT (qx_qid_hw (m_qctxt m)) := replicate 8 (Some 0))"
    using ind_ctxt.clr_law [OF assms(1) c] by simp_all
  then have "qdma_mbox_pf_rcv_msg_handler (Some env) al idx fid (Some m) resp rm s =
      Some (0, ps_resp (fill_response fid 0 \<lparr>ps_rcv = m, ps_resp = resp, ps_rm = rm, ps_log = s'\<rparr>), rm, s')"
    using assms c
    by (simp add: handler_answered dispatch_qctxt op_qctxt_reset_def mbox_clear_queue_contexts_def
        reset_queue_contexts_def qdma_cmpt_ctx_conf_def qdma_cmpt_context_clear_def drop_ctxt_def
        and_then_def Let_def)
  then show ?thesis using w by (simp add: fill_response_def)
qed

theorem completion_clear_unchecked_witness:
  "\<exists>resp' s'. qdma_mbox_pf_rcv_msg_handler (Some ref_hw) (\<lambda>_. True) 0 0
      (Some (demo_qctxt MBOX_OP_QCTXT_CLR 5 QDMA_MBOX_CMPT_CTXT_ONLY)) zero_msg demo_rm [] =
      Some (0, resp', demo_rm, s') \<and>
    qdma_dev_is_queue_in_range 0 8 5 demo_rm = QDMA_DEV_Q_IN_RANGE \<and>
    qdma_dev_is_queue_in_range 0 9 5 demo_rm = QDMA_DEV_Q_OUT_OF_RANGE \<and>
    ctxt_words s' (ctxt_key_of QDMA_CTXT_SEL_CMPT 5) = replicate 8 (Some 0)"
proof -
  have own: "qdma_dev_is_queue_in_range 0 8 5 demo_rm = QDMA_DEV_Q_IN_RANGE"
    "qdma_dev_is_queue_in_range 0 9 5 demo_rm = QDMA_DEV_Q_OUT_OF_RANGE"
    unfolding demo_rm_value by code_simp+
  obtain resp' s' where "qdma_mbox_pf_rcv_msg_handler (Some ref_hw) (\<lambda>_. True) 0 0
      (Some (demo_qctxt MBOX_OP_QCTXT_CLR 5 QDMA_MBOX_CMPT_CTXT_ONLY)) zero_msg demo_rm [] =
      Some (0, resp', demo_rm, s')" "ctxt_words s' (ctxt_key_of QDMA_CTXT_SEL_CMPT 5) = replicate 8 (Some 0)"
    using completion_clear_unchecked [OF ref_hw_ok, of "demo_qctxt MBOX_OP_QCTXT_CLR 5 QDMA_MBOX_CMPT_CTXT_ONLY"]
    by fastforce
  then show ?thesis using own by blast
qed

end
