(* ===== verification/Mbox_Safety.thy ===== *)
theory Mbox_Safety
  imports Mbox_Isolation
begin

text \<open>
  The handler of the physical function as a whole: what it does to the queue resources, which
  accesses leave a message, which responses it fills, and what the accesses to the contexts do.
\<close>

subsection \<open>The resource manager behind the handler\<close>

lemma dispatch_rm:
  assumes "pf_dispatch dev al idx p = Some (e, p')"
  shows "ps_rm p' = ps_rm p \<or>
    (\<exists>op. ps_rm p' = rm_exec al op (ps_rm p) \<and>
       (rm_op_ok op (ps_rm p) \<or>
        h_op (m_hdr (ps_rcv p)) = MBOX_OP_QREQ \<and>
        op = Rm_dev_update (uint idx) (uint (src_of p)) (uint (mf_qmax (m_fmap (ps_rcv p)))) (sint (mf_qbase (m_fmap (ps_rcv p))))))"
  using assms
  by (auto simp: pf_dispatch_def Let_def exit_with_Some exit_opt_Some simp del: rm_exec.simps
      dest!: pf_frame split: if_splits prod.splits)

lemma handler_cases:
  assumes "qdma_mbox_pf_rcv_msg_handler dev al idx fid (Some m) resp rm s = Some (ret, resp', rm', s')"
  obtains e p' where
    "pf_dispatch dev al idx \<lparr>ps_rcv = m, ps_resp = resp, ps_rm = rm, ps_log = s\<rparr> = Some (e, p')"
    "rm' = ps_rm p'" "s' = ps_log p'"
    "(e = Return ret \<and> resp' = ps_resp p') \<or> (\<exists>rv. e = Exit_func ret rv \<and> resp' = ps_resp (fill_response fid rv p'))"
  using assms
  by (auto simp: qdma_mbox_pf_rcv_msg_handler_def fill_response_def Let_def split: option.splits prod.splits pf_exit.splits)

text \<open>
  C17: Mailbox messages keep the resource manager sound. Whatever a virtual function sends,
  for every device and every outcome of the allocations, the queue resources after the
  handler are reachable by the resource manager's operations, so queue isolation holds for
  them; the only demand is that a request for queues does not ask for a range whose end
  leaves the 32-bit numbers.
\<close>

theorem mailbox_keeps_resources:
  assumes "rm_reach al rm"
    and "h_op (m_hdr m) = MBOX_OP_QREQ \<longrightarrow> request_ok (uint (mf_qmax (m_fmap m))) (sint (mf_qbase (m_fmap m)))"
    and "qdma_mbox_pf_rcv_msg_handler dev al idx fid (Some m) resp rm s = Some (ret, resp', rm', s')"
  shows "rm_reach al rm'"
proof -
  obtain e p' where d: "pf_dispatch dev al idx \<lparr>ps_rcv = m, ps_resp = resp, ps_rm = rm, ps_log = s\<rparr> = Some (e, p')"
    and rm': "rm' = ps_rm p'" by (rule handler_cases [OF assms(3)])
  have "rm' = rm \<or> (\<exists>op. rm' = rm_exec al op rm \<and> rm_op_ok op rm)"
    using dispatch_rm [OF d] assms(2) by (auto simp: rm' src_of_def simp del: rm_exec.simps)
  then show ?thesis using assms(1) rm_step by blast
qed

subsection \<open>Bounds of the arrays and of the buffer\<close>

definition out_of_bounds :: "qdma_mbox_txrx \<Rightarrow> bool" where
  "out_of_bounds m \<longleftrightarrow> h_op (m_hdr m) \<in> set intr_ops \<and> uint (ic_num_rings (m_intr_ctxt m)) > 1"

lemma elem_at_one [simp]:
  "length xs = QDMA_NUM_DATA_VEC_FOR_INTR_CXT \<Longrightarrow> elem_at xs i = None \<longleftrightarrow> 0 < i"
  by (simp add: elem_at_def QDMA_NUM_DATA_VEC_FOR_INTR_CXT_def)

definition intr_shape :: "pf_state \<Rightarrow> bool" where
  "intr_shape p \<longleftrightarrow>
     length (ic_ring_index_list (m_intr_ctxt (ps_rcv p))) = QDMA_NUM_DATA_VEC_FOR_INTR_CXT \<and>
     length (ic_ictxt (m_intr_ctxt (ps_rcv p))) = QDMA_NUM_DATA_VEC_FOR_INTR_CXT \<and>
     length (ic_ictxt (m_intr_ctxt (ps_resp p))) = QDMA_NUM_DATA_VEC_FOR_INTR_CXT"

lemma intr_step_shape:
  "intr_reset dev access i p = Some (rv, p') \<Longrightarrow> intr_shape p \<Longrightarrow> intr_shape p'"
  "intr_write dev i p = Some (rv, p') \<Longrightarrow> intr_shape p \<Longrightarrow> intr_shape p'"
  "intr_read dev i p = Some (rv, p') \<Longrightarrow> intr_shape p \<Longrightarrow> intr_shape p'"
  by (auto simp: intr_reset_def intr_write_def intr_read_def intr_shape_def Let_def split: option.splits prod.splits)

lemma intr_step_None:
  assumes "intr_shape p"
  shows "intr_reset dev access i p = None \<longleftrightarrow> 0 < i" "intr_write dev i p = None \<longleftrightarrow> 0 < i"
    "intr_read dev i p = None \<longleftrightarrow> 0 < i"
  using assms
  by (auto simp: intr_reset_def intr_write_def intr_read_def intr_shape_def Let_def split: option.splits prod.splits)
    (metis elem_at_one option.distinct(1) not_gr_zero)+

lemma for_rings_None:
  assumes "\<And>i p. intr_shape p \<Longrightarrow> step i p = None \<longleftrightarrow> 0 < i"
    and "\<And>i p rv p'. step i p = Some (rv, p') \<Longrightarrow> intr_shape p \<Longrightarrow> intr_shape p'" and "intr_shape p"
  shows "for_rings step 0 n rv p = None \<longleftrightarrow> 1 < n"
proof (cases n)
  case (Suc k)
  obtain rv1 p1 where s: "step 0 p = Some (rv1, p1)" using assms(1) [OF assms(3), of 0] by auto
  have "step 1 p1 = None" using assms(1) assms(2) [OF s assms(3)] by simp
  then show ?thesis using s Suc by (cases k) simp_all
qed simp

lemma op_intr_None:
  assumes "intr_shape p"
  shows "op_intr (intr_reset dev access) p = None \<longleftrightarrow> 1 < unat (ic_num_rings (m_intr_ctxt (ps_rcv p)))"
    "op_intr (intr_write dev) p = None \<longleftrightarrow> 1 < unat (ic_num_rings (m_intr_ctxt (ps_rcv p)))"
    "op_intr (intr_read dev) p = None \<longleftrightarrow> 1 < unat (ic_num_rings (m_intr_ctxt (ps_rcv p)))"
  unfolding op_intr_def
  by (rule for_rings_None [OF _ _ assms], erule intr_step_None, erule (1) intr_step_shape)+

lemma op_reg_list_Some:
  assumes "length (rl_reg_list (m_reg_read_list (ps_resp p))) = QDMA_MAX_REGISTER_DUMP"
  shows "op_reg_list dev p \<noteq> None"
proof -
  obtain rv n regs s where "qdma_read_reg_list dev 1 (rl_group_num (m_reg_read_list (ps_rcv p)))
      (rl_num_regs (m_reg_read_list (ps_resp p))) (Some (rl_reg_list (m_reg_read_list (ps_resp p)))) (ps_log p) =
      Some (rv, n, regs, s)"
    using read_reg_list_facts [of "rl_reg_list (m_reg_read_list (ps_resp p))" dev 1] assms by fastforce
  then show ?thesis by (simp add: op_reg_list_def Let_def)
qed

lemma exit_returns:
  "\<exists>a b. exit_with ret x = Some (a, b)" "(\<exists>a b. exit_opt r = Some (a, b)) \<longleftrightarrow> r \<noteq> None"
  by (auto simp: exit_with_def exit_opt_def split: option.splits)

lemma buffer_too_small [simp]: "mbox_buffer_bytes < cmpt_read_end"
  by (simp add: qctxt_layout)

definition overfills_buffer :: "dev_hndl \<Rightarrow> pf_state \<Rightarrow> bool" where
  "overfills_buffer dev p \<longleftrightarrow>
     h_op (m_hdr (ps_rcv p)) = MBOX_OP_QCTXT_RD \<and>
     (let q = m_qctxt (ps_rcv p) in
      with_cmpt (qx_cmpt_ctxt_type q) \<and>
      \<not> fst (mbox_read_queue_contexts dev (qx_qid_hw q) (ucast (qx_st q)) (ucast (qx_c2h q)) (qx_cmpt_ctxt_type q)
            (qx_descq_ctxt (m_qctxt (ps_resp p))) (ps_log p)) < 0)"

text \<open>A read without the completion context.\<close>

lemma op_qctxt_read_plain:
  assumes "\<not> with_cmpt (qx_cmpt_ctxt_type (m_qctxt (ps_rcv p)))"
    and "mbox_read_queue_contexts dev (qx_qid_hw (m_qctxt (ps_rcv p))) (ucast (qx_st (m_qctxt (ps_rcv p))))
      (ucast (qx_c2h (m_qctxt (ps_rcv p)))) (qx_cmpt_ctxt_type (m_qctxt (ps_rcv p)))
      (qx_descq_ctxt (m_qctxt (ps_resp p))) (ps_log p) = (rv, c, t)"
  shows "exit_opt (op_qctxt_read dev p) =
    exit_with 0 (rv, p\<lparr>ps_resp := (ps_resp p)\<lparr>m_qctxt := (m_qctxt (ps_resp p))\<lparr>qx_descq_ctxt := c\<rparr>\<rparr>, ps_log := t\<rparr>)"
  using assms by (simp add: op_qctxt_read_def exit_opt_def Let_def)

lemma op_qctxt_read_None:
  "h_op (m_hdr (ps_rcv p)) = MBOX_OP_QCTXT_RD \<Longrightarrow> op_qctxt_read dev p = None \<longleftrightarrow> overfills_buffer dev p"
  by (simp add: op_qctxt_read_def overfills_buffer_def Let_def case_prod_unfold)

lemma dispatch_None:
  assumes "intr_shape p" "length (rl_reg_list (m_reg_read_list (ps_resp p))) = QDMA_MAX_REGISTER_DUMP"
  shows "pf_dispatch dev al idx p = None \<longleftrightarrow> out_of_bounds (ps_rcv p) \<or> overfills_buffer dev p"
proof -
  have r: "(1 < uint n) = (1 < unat n)" for n :: u8
    unfolding unat_eq_nat_uint by linarith
  consider (fmap) "h_op (m_hdr (ps_rcv p)) = MBOX_OP_FMAP" | (rd) "h_op (m_hdr (ps_rcv p)) = MBOX_OP_QCTXT_RD"
    | (other) "h_op (m_hdr (ps_rcv p)) \<noteq> MBOX_OP_FMAP" "h_op (m_hdr (ps_rcv p)) \<noteq> MBOX_OP_QCTXT_RD" by blast
  then show ?thesis
  proof cases
    case fmap
    then have "pf_dispatch dev al idx p \<noteq> None"
      by (simp add: pf_dispatch_def mbox_op_defs Let_def split: prod.splits)
    then show ?thesis using fmap by (simp add: out_of_bounds_def overfills_buffer_def intr_ops_def mbox_op_defs)
  next
    case rd
    have "\<not> out_of_bounds (ps_rcv p)" using rd by (simp add: out_of_bounds_def intr_ops_def mbox_op_defs)
    then show ?thesis using op_qctxt_read_None [OF rd, of dev] dispatch_qctxt(4) [OF rd, of dev al idx] by simp
  next
    case other
    then have "\<not> overfills_buffer dev p" by (simp add: overfills_buffer_def)
    then show ?thesis
      using op_intr_None [OF assms(1)] op_reg_list_Some [OF assms(2), of dev] other
      by (simp add: pf_dispatch_def Let_def out_of_bounds_def intr_ops_def mbox_op_defs r exit_returns)
  qed
qed

text \<open>
  C18: The handler stays inside its memory exactly when a request does not ask for too much.
  For a request and a response whose arrays have the lengths of their declarations, every device,
  every state of the resources and every operation code, the known ones and the unknown ones,
  the handler leaves an array of a message or the 128 bytes of the response's buffer exactly in
  two cases: the request is one of the four interrupt requests and its \<^verbatim>\<open>num_rings\<close>, which the
  virtual function chooses and nothing checks, is more than the one entry the arrays have; or it
  is a read of the contexts of a queue with its completion context, and no read of a context
  fails, for the completion context lies in the bytes 104 to 151 of the message.
\<close>

theorem handler_memory_safe:
  assumes "msg_shape m" "msg_shape resp"
  shows "qdma_mbox_pf_rcv_msg_handler dev al idx fid (Some m) resp rm s = None \<longleftrightarrow>
    h_op (m_hdr m) \<in> set intr_ops \<and> uint (ic_num_rings (m_intr_ctxt m)) > 1 \<or>
    h_op (m_hdr m) = MBOX_OP_QCTXT_RD \<and> with_cmpt (qx_cmpt_ctxt_type (m_qctxt m)) \<and>
    \<not> fst (mbox_read_queue_contexts dev (qx_qid_hw (m_qctxt m)) (ucast (qx_st (m_qctxt m)))
          (ucast (qx_c2h (m_qctxt m))) (qx_cmpt_ctxt_type (m_qctxt m)) (qx_descq_ctxt (m_qctxt resp)) s) < 0"
  using dispatch_None [of "\<lparr>ps_rcv = m, ps_resp = resp, ps_rm = rm, ps_log = s\<rparr>" dev al idx] assms
  by (auto simp: qdma_mbox_pf_rcv_msg_handler_def intr_shape_def msg_shape_def out_of_bounds_def
      overfills_buffer_def Let_def split: option.splits prod.splits pf_exit.splits)

definition demo_intr :: "u8 \<Rightarrow> qdma_mbox_txrx" where
  "demo_intr n = zero_msg\<lparr>m_hdr := (m_hdr zero_msg)\<lparr>h_op := MBOX_OP_INTR_CTXT_INV\<rparr>,
     m_intr_ctxt := (m_intr_ctxt zero_msg)\<lparr>ic_num_rings := n\<rparr>\<rparr>"

text \<open>On a documented device no read of a context fails.\<close>

lemma indirect_read_ok: "ctxt_hw env \<Longrightarrow> \<exists>d t. qdma_indirect_reg_read env sel qid n s = (0, Some d, t)"
  using wait_ctxt_cmd_ok [of env "qdma_reg_write QDMA_OFFSET_IND_CTXT_CMD (qdma_ind_ctxt_cmd sel QDMA_CTXT_CMD_RD qid)
      (qdma_reg_access_lock s)"]
  by (auto simp: qdma_indirect_reg_read_def Let_def case_prod_unfold)

lemma conf_read_ok:
  assumes "ctxt_hw env"
  shows "c2h \<le> 1 \<Longrightarrow> \<exists>d t. qdma_sw_ctx_conf (Some env) c2h qid (Some c1) QDMA_HW_ACCESS_READ s = (0, Some d, t)"
    "c2h \<le> 1 \<Longrightarrow> \<exists>d t. qdma_hw_ctx_conf (Some env) c2h qid (Some c2) QDMA_HW_ACCESS_READ s = (0, Some d, t)"
    "c2h \<le> 1 \<Longrightarrow> \<exists>d t. qdma_credit_ctx_conf (Some env) c2h qid (Some c3) QDMA_HW_ACCESS_READ s = (0, Some d, t)"
    "\<exists>d t. qdma_pfetch_ctx_conf (Some env) qid (Some c4) QDMA_HW_ACCESS_READ s = (0, Some d, t)"
    "\<exists>d t. qdma_cmpt_ctx_conf (Some env) qid (Some c5) QDMA_HW_ACCESS_READ s = (0, Some d, t)"
proof -
  note r = indirect_read_ok [OF assms]
  show "c2h \<le> 1 \<Longrightarrow> \<exists>d t. qdma_sw_ctx_conf (Some env) c2h qid (Some c1) QDMA_HW_ACCESS_READ s = (0, Some d, t)"
    using r [of "if c2h \<noteq> 0 then QDMA_CTXT_SEL_SW_C2H else QDMA_CTXT_SEL_SW_H2C" qid 5 s]
    by (auto simp: qdma_sw_ctx_conf_def qdma_sw_context_read_def leD)
  show "c2h \<le> 1 \<Longrightarrow> \<exists>d t. qdma_hw_ctx_conf (Some env) c2h qid (Some c2) QDMA_HW_ACCESS_READ s = (0, Some d, t)"
    using r [of "if c2h \<noteq> 0 then QDMA_CTXT_SEL_HW_C2H else QDMA_CTXT_SEL_HW_H2C" qid 2 s]
    by (auto simp: qdma_hw_ctx_conf_def qdma_hw_context_read_def leD)
  show "c2h \<le> 1 \<Longrightarrow> \<exists>d t. qdma_credit_ctx_conf (Some env) c2h qid (Some c3) QDMA_HW_ACCESS_READ s = (0, Some d, t)"
    using r [of "if c2h \<noteq> 0 then QDMA_CTXT_SEL_CR_C2H else QDMA_CTXT_SEL_CR_H2C" qid 1 s]
    by (auto simp: qdma_credit_ctx_conf_def qdma_credit_context_read_def leD)
  show "\<exists>d t. qdma_pfetch_ctx_conf (Some env) qid (Some c4) QDMA_HW_ACCESS_READ s = (0, Some d, t)"
    using r [of QDMA_CTXT_SEL_PFTCH qid 2 s] by (auto simp: qdma_pfetch_ctx_conf_def qdma_pfetch_context_read_def)
  show "\<exists>d t. qdma_cmpt_ctx_conf (Some env) qid (Some c5) QDMA_HW_ACCESS_READ s = (0, Some d, t)"
    using r [of QDMA_CTXT_SEL_CMPT qid 5 s] by (auto simp: qdma_cmpt_ctx_conf_def qdma_cmpt_context_read_def)
qed

lemma bit_le_one: "(ucast (b :: 1 word) :: u8) \<le> 1"
  using unsigned_less [where 'a = nat, of b] by (simp add: word_le_nat_alt unsigned_ucast_eq take_bit_nat_eq_self)

lemma read_contexts_ok:
  assumes hw: "ctxt_hw env" and c2h: "c2h \<le> 1"
  shows "fst (mbox_read_queue_contexts (Some env) qid st c2h ty c s) = 0"
proof -
  obtain d1 t1 where 1: "qdma_sw_ctx_conf (Some env) c2h qid (Some (dc_sw_ctxt c)) QDMA_HW_ACCESS_READ s = (0, Some d1, t1)"
    using conf_read_ok(1) [OF hw c2h] by blast
  obtain d2 t2 where 2: "qdma_hw_ctx_conf (Some env) c2h qid (Some (dc_hw_ctxt c)) QDMA_HW_ACCESS_READ t1 = (0, Some d2, t2)"
    using conf_read_ok(2) [OF hw c2h] by blast
  obtain d3 t3 where 3: "qdma_credit_ctx_conf (Some env) c2h qid (Some (dc_cr_ctxt c)) QDMA_HW_ACCESS_READ t2 = (0, Some d3, t3)"
    using conf_read_ok(3) [OF hw c2h] by blast
  obtain d4 t4 where 4: "qdma_pfetch_ctx_conf (Some env) qid (Some (dc_pfetch_ctxt c)) QDMA_HW_ACCESS_READ t3 = (0, Some d4, t4)"
    using conf_read_ok(4) [OF hw] by blast
  obtain d5 t5 where 5: "qdma_cmpt_ctx_conf (Some env) qid (Some (dc_cmpt_ctxt c)) QDMA_HW_ACCESS_READ t4 = (0, Some d5, t5)"
    using conf_read_ok(5) [OF hw] by blast
  obtain d6 t6 where 6: "qdma_cmpt_ctx_conf (Some env) qid (Some (dc_cmpt_ctxt c)) QDMA_HW_ACCESS_READ t3 = (0, Some d6, t6)"
    using conf_read_ok(5) [OF hw] by blast
  show ?thesis
    by (cases "st \<noteq> 0 \<and> c2h \<noteq> 0"; cases "with_cmpt ty")
      (simp_all add: mbox_read_queue_contexts_def drop_ctxt_def 1 2 3 4 5 6)
qed

text \<open>
  A virtual function can make the physical function write behind a message. On every
  device that behaves as documented, whatever the resources and the messages, a request to
  read the contexts of any queue with its completion context, its own or not, leaves the
  buffer of the response: the fields of the completion context are stored up to byte 135 of a
  buffer of 128 bytes.
\<close>

theorem completion_read_overflows:
  assumes "ctxt_hw env" "h_op (m_hdr m) = MBOX_OP_QCTXT_RD"
    and "qx_cmpt_ctxt_type (m_qctxt m) \<in> {QDMA_MBOX_CMPT_WITH_MM, QDMA_MBOX_CMPT_WITH_ST}"
  shows "qdma_mbox_pf_rcv_msg_handler (Some env) al idx fid (Some m) resp rm s = None \<and>
    mbox_buffer_bytes = 128 \<and> cmpt_read_end = 136"
proof -
  have "overfills_buffer (Some env) \<lparr>ps_rcv = m, ps_resp = resp, ps_rm = rm, ps_log = s\<rparr>"
    using assms by (auto simp: overfills_buffer_def with_cmpt_def Let_def read_contexts_ok [OF assms(1) bit_le_one])
  then have "op_qctxt_read (Some env) \<lparr>ps_rcv = m, ps_resp = resp, ps_rm = rm, ps_log = s\<rparr> = None"
    using assms(2) by (simp add: op_qctxt_read_None)
  then show ?thesis
    using assms(2) by (simp add: qdma_mbox_pf_rcv_msg_handler_def dispatch_qctxt qctxt_layout exit_opt_def)
qed

theorem completion_read_overflows_witness:
  "qdma_mbox_pf_rcv_msg_handler (Some ref_hw) (\<lambda>_. True) 0 3
     (Some (demo_qctxt MBOX_OP_QCTXT_RD 30 QDMA_MBOX_CMPT_WITH_MM)) zero_msg demo_rm [] = None"
  using completion_read_overflows [OF ref_hw_ok, of "demo_qctxt MBOX_OP_QCTXT_RD 30 QDMA_MBOX_CMPT_WITH_MM"]
  by simp

theorem handler_memory_safe_witness:
  "qdma_mbox_pf_rcv_msg_handler (Some ref_hw) (\<lambda>_. True) 0 0 (Some (demo_intr 2)) zero_msg demo_rm [] = None \<and>
   qdma_mbox_pf_rcv_msg_handler (Some ref_hw) (\<lambda>_. True) 0 0 (Some (demo_intr 1)) zero_msg demo_rm [] \<noteq> None \<and>
   qdma_mbox_pf_rcv_msg_handler (Some ref_hw) (\<lambda>_. True) 0 0
     (Some (demo_qctxt MBOX_OP_QCTXT_RD 30 QDMA_MBOX_CMPT_WITH_ST)) zero_msg demo_rm [] = None \<and>
   qdma_mbox_pf_rcv_msg_handler (Some ref_hw) (\<lambda>_. True) 0 0
     (Some (demo_qctxt MBOX_OP_QCTXT_RD 30 QDMA_MBOX_CMPT_CTXT_NONE)) zero_msg demo_rm [] \<noteq> None"
proof (intro conjI)
  show "qdma_mbox_pf_rcv_msg_handler (Some ref_hw) (\<lambda>_. True) 0 0 (Some (demo_intr 2)) zero_msg demo_rm [] = None"
    "qdma_mbox_pf_rcv_msg_handler (Some ref_hw) (\<lambda>_. True) 0 0 (Some (demo_intr 1)) zero_msg demo_rm [] \<noteq> None"
    using handler_memory_safe [of "demo_intr 2" zero_msg] handler_memory_safe [of "demo_intr 1" zero_msg]
    by (simp_all add: demo_intr_def msg_shape_def zero_msg_def intr_ops_def mbox_op_defs)
  have shape: "msg_shape (demo_qctxt MBOX_OP_QCTXT_RD 30 ty)" for ty
    by (simp add: msg_shape_def demo_qctxt_def set_qctxt_def zero_msg_def)
  show "qdma_mbox_pf_rcv_msg_handler (Some ref_hw) (\<lambda>_. True) 0 0
      (Some (demo_qctxt MBOX_OP_QCTXT_RD 30 QDMA_MBOX_CMPT_WITH_ST)) zero_msg demo_rm [] = None"
    using handler_memory_safe [OF shape [of QDMA_MBOX_CMPT_WITH_ST] zero_msg_shape, where dev = "Some ref_hw"]
    by (simp add: with_cmpt_def read_contexts_ok [OF ref_hw_ok bit_le_one])
  show "qdma_mbox_pf_rcv_msg_handler (Some ref_hw) (\<lambda>_. True) 0 0
      (Some (demo_qctxt MBOX_OP_QCTXT_RD 30 QDMA_MBOX_CMPT_CTXT_NONE)) zero_msg demo_rm [] \<noteq> None"
    using handler_memory_safe [OF shape [of QDMA_MBOX_CMPT_CTXT_NONE] zero_msg_shape, where dev = "Some ref_hw"]
    by (simp add: with_cmpt_def cmpt_ctxt_type_defs intr_ops_def mbox_op_defs)
qed

subsection \<open>Responses\<close>

lemma response_code:
  "op \<in> set answered_ops \<or> op = MBOX_OP_FMAP \<Longrightarrow> uint (op + 0x80) = uint op + 0x80"
  by (auto simp: answered_ops_def mbox_op_defs)

text \<open>
  C21: Every answer is addressed to its request. When the handler ends at its exit label the
  response carries the request's operation code with the response bit, the request's source as
  destination and the physical function as source, so \<^verbatim>\<open>qdma_mbox_is_msg_response\<close> recognises it;
  this holds for each of the seventeen requests that are always answered, and for a function
  map request that does not fail. Everything else, a failed function map request and an
  operation code the handler does not know included, leaves the response, the resources and
  the header as they were, so the sender gets a response that does not match its request.
\<close>

theorem responses_match_requests:
  assumes "qdma_mbox_pf_rcv_msg_handler dev al idx fid (Some m) resp rm s = Some (ret, resp', rm', s')"
  shows "if h_op (m_hdr m) \<in> set answered_ops \<or>
            h_op (m_hdr m) = MBOX_OP_FMAP \<and> 0 \<le> ret
         then h_op (m_hdr resp') = h_op (m_hdr m) + 0x80 \<and> h_dst (m_hdr resp') = h_src (m_hdr m) \<and>
              h_src (m_hdr resp') = fid \<and> qdma_mbox_is_msg_response m resp'
         else resp' = resp \<and> rm' = rm"
proof -
  obtain e p' where d: "pf_dispatch dev al idx \<lparr>ps_rcv = m, ps_resp = resp, ps_rm = rm, ps_log = s\<rparr> = Some (e, p')"
    and r: "rm' = ps_rm p'" "s' = ps_log p'"
    and e: "(e = Return ret \<and> resp' = ps_resp p') \<or> (\<exists>rv. e = Exit_func ret rv \<and> resp' = ps_resp (fill_response fid rv p'))"
    by (rule handler_cases [OF assms])
  show ?thesis using d
  proof (cases rule: pf_dispatch_cases)
    case (exit ret1 rv)
    then show ?thesis using e response_code
      by (auto simp: fill_response_def src_of_def MBOX_MSG_OP_RSP_OFFSET_def qdma_mbox_is_msg_response_def)
  next
    case (fmap rv)
    then show ?thesis using e r op_fmap_frame [OF fmap(2)] response_code
      by (auto simp: fill_response_def src_of_def MBOX_MSG_OP_RSP_OFFSET_def qdma_mbox_is_msg_response_def
          answered_ops_def mbox_op_defs split: if_splits)
  next
    case (return ret1)
    then show ?thesis using e r by auto
  qed
qed

subsection \<open>A queue set up through the mailbox\<close>

text \<open>On a documented device the steps succeed; what they do to the contexts.\<close>

definition sw_sel :: "u8 \<Rightarrow> ind_ctxt_cmd_sel" where
  "sw_sel c2h = (if c2h \<noteq> 0 then QDMA_CTXT_SEL_SW_C2H else QDMA_CTXT_SEL_SW_H2C)"

definition hw_sel :: "u8 \<Rightarrow> ind_ctxt_cmd_sel" where
  "hw_sel c2h = (if c2h \<noteq> 0 then QDMA_CTXT_SEL_HW_C2H else QDMA_CTXT_SEL_HW_H2C)"

definition cr_sel :: "u8 \<Rightarrow> ind_ctxt_cmd_sel" where
  "cr_sel c2h = (if c2h \<noteq> 0 then QDMA_CTXT_SEL_CR_C2H else QDMA_CTXT_SEL_CR_H2C)"

lemmas sel_defs = sw_sel_def hw_sel_def cr_sel_def

lemma sels_distinct [simp]:
  "sw_sel c2h \<noteq> hw_sel c2h'" "sw_sel c2h \<noteq> cr_sel c2h'" "hw_sel c2h \<noteq> cr_sel c2h'"
  "hw_sel c2h \<noteq> sw_sel c2h'" "cr_sel c2h \<noteq> sw_sel c2h'" "cr_sel c2h \<noteq> hw_sel c2h'"
  by (simp_all add: sel_defs)

lemma ctxt_key_eq [simp]: "ctxt_key_of sel qid = ctxt_key_of sel' qid \<longleftrightarrow> sel = sel'"
  by (simp add: ctxt_key_of_def sel_code_inj)

lemma and_then_ok: "r = (0, t) \<Longrightarrow> and_then r f = f t"
  by (simp add: and_then_def)

lemma conf_clear_words:
  assumes "ctxt_hw env" "c2h \<le> 1"
  shows "\<exists>t. drop_ctxt (qdma_sw_ctx_conf (Some env) c2h qid None QDMA_HW_ACCESS_CLEAR s) = (0, t) \<and>
      ctxt_words t = (ctxt_words s)(ctxt_key_of (sw_sel c2h) qid := replicate 8 (Some 0))"
    "\<exists>t. drop_ctxt (qdma_hw_ctx_conf (Some env) c2h qid None QDMA_HW_ACCESS_CLEAR s) = (0, t) \<and>
      ctxt_words t = (ctxt_words s)(ctxt_key_of (hw_sel c2h) qid := replicate 8 (Some 0))"
    "\<exists>t. drop_ctxt (qdma_credit_ctx_conf (Some env) c2h qid None QDMA_HW_ACCESS_CLEAR s) = (0, t) \<and>
      ctxt_words t = (ctxt_words s)(ctxt_key_of (cr_sel c2h) qid := replicate 8 (Some 0))"
proof -
  have clr: "\<exists>t. qdma_indirect_reg_clear env sel qid s = (0, t) \<and>
      ctxt_words t = (ctxt_words s)(ctxt_key_of sel qid := replicate 8 (Some 0))" for sel
    using ind_ctxt.clr_law [OF assms(1), of sel qid s] by (metis prod.exhaust)
  have c: "\<not> c2h > 1" using assms(2) by simp
  show "\<exists>t. drop_ctxt (qdma_sw_ctx_conf (Some env) c2h qid None QDMA_HW_ACCESS_CLEAR s) = (0, t) \<and>
      ctxt_words t = (ctxt_words s)(ctxt_key_of (sw_sel c2h) qid := replicate 8 (Some 0))"
    using clr [of "sw_sel c2h"] c
    by (auto simp: qdma_sw_ctx_conf_def qdma_sw_context_clear_def drop_ctxt_def sw_sel_def)
  show "\<exists>t. drop_ctxt (qdma_hw_ctx_conf (Some env) c2h qid None QDMA_HW_ACCESS_CLEAR s) = (0, t) \<and>
      ctxt_words t = (ctxt_words s)(ctxt_key_of (hw_sel c2h) qid := replicate 8 (Some 0))"
    using clr [of "hw_sel c2h"] c
    by (auto simp: qdma_hw_ctx_conf_def qdma_hw_context_clear_def drop_ctxt_def hw_sel_def)
  show "\<exists>t. drop_ctxt (qdma_credit_ctx_conf (Some env) c2h qid None QDMA_HW_ACCESS_CLEAR s) = (0, t) \<and>
      ctxt_words t = (ctxt_words s)(ctxt_key_of (cr_sel c2h) qid := replicate 8 (Some 0))"
    using clr [of "cr_sel c2h"] c
    by (auto simp: qdma_credit_ctx_conf_def qdma_credit_context_clear_def drop_ctxt_def cr_sel_def)
qed

lemma conf_write_words:
  assumes "ctxt_hw env" "c2h \<le> 1"
  shows "\<exists>t. drop_ctxt (qdma_sw_ctx_conf (Some env) c2h qid (Some c) QDMA_HW_ACCESS_WRITE s) = (0, t) \<and>
      ctxt_words t = (ctxt_words s)(ctxt_key_of (sw_sel c2h) qid := map Some (pad_words (sw_ctxt_words c)))"
proof -
  have l: "length (sw_ctxt_words c) \<le> 8" by (simp add: sw_ctxt_words_def)
  have "\<exists>t. qdma_indirect_reg_write env (sw_sel c2h) qid (sw_ctxt_words c) s = (0, t) \<and>
      ctxt_words t = (ctxt_words s)(ctxt_key_of (sw_sel c2h) qid := map Some (pad_words (sw_ctxt_words c)))"
    using ind_ctxt.wr_law [OF assms(1) l, of "sw_sel c2h" qid s] by (metis prod.exhaust)
  then show ?thesis using assms(2)
    by (auto simp: qdma_sw_ctx_conf_def qdma_sw_context_write_def drop_ctxt_def sw_sel_def leD split: if_splits)
qed

text \<open>The contexts of a queue that has just been set up: composed, and cleared.\<close>

definition set_up :: "u8 \<Rightarrow> u16 \<Rightarrow> qdma_descq_sw_ctxt \<Rightarrow> hw_log \<Rightarrow> bool" where
  "set_up c2h qid sw s \<longleftrightarrow>
     ctxt_words s (ctxt_key_of (sw_sel c2h) qid) = map Some (pad_words (sw_ctxt_words sw)) \<and>
     ctxt_words s (ctxt_key_of (hw_sel c2h) qid) = replicate 8 (Some 0) \<and>
     ctxt_words s (ctxt_key_of (cr_sel c2h) qid) = replicate 8 (Some 0)"

theorem responses_match_requests_witness:
  "\<exists>resp' rm' s'. qdma_mbox_pf_rcv_msg_handler (Some ref_hw) (\<lambda>_. True) 0 3
      (Some (demo_qctxt MBOX_OP_QCTXT_RD 30 QDMA_MBOX_CMPT_CTXT_NONE)) zero_msg demo_rm [] =
      Some (0, resp', rm', s') \<and>
    h_op (m_hdr resp') = 0x89 \<and> h_dst (m_hdr resp') = 9 \<and> h_src (m_hdr resp') = 3"
proof -
  let ?m = "demo_qctxt MBOX_OP_QCTXT_RD 30 QDMA_MBOX_CMPT_CTXT_NONE"
  let ?p = "\<lparr>ps_rcv = ?m, ps_resp = zero_msg, ps_rm = demo_rm, ps_log = []\<rparr>"
  have op: "h_op (m_hdr (ps_rcv ?p)) = MBOX_OP_QCTXT_RD" and ty: "\<not> with_cmpt (qx_cmpt_ctxt_type (m_qctxt (ps_rcv ?p)))"
    by (simp_all add: with_cmpt_def cmpt_ctxt_type_defs)
  obtain rv c t where "mbox_read_queue_contexts (Some ref_hw) (qx_qid_hw (m_qctxt (ps_rcv ?p))) (ucast (qx_st (m_qctxt (ps_rcv ?p))))
      (ucast (qx_c2h (m_qctxt (ps_rcv ?p)))) (qx_cmpt_ctxt_type (m_qctxt (ps_rcv ?p)))
      (qx_descq_ctxt (m_qctxt (ps_resp ?p))) (ps_log ?p) = (rv, c, t)" by (metis prod_cases3)
  note d = trans [OF dispatch_qctxt(4) [OF op] op_qctxt_read_plain [OF ty this]]
  obtain resp' rm' s' where r: "qdma_mbox_pf_rcv_msg_handler (Some ref_hw) (\<lambda>_. True) 0 3 (Some ?m)
      zero_msg demo_rm [] = Some (0, resp', rm', s')"
    by (rule that, rule handler_answered [OF d])
  show ?thesis
    using responses_match_requests [OF r] r by (auto simp: answered_ops_def mbox_op_defs)
qed

theorem mailbox_keeps_resources_witness:
  "\<exists>ret resp' rm' s'. qdma_mbox_pf_rcv_msg_handler (Some ref_hw) (\<lambda>_. True) 0 0
      (snd (qdma_mbox_compose_vf_qreq 9 20 (-1) (Some zero_msg))) zero_msg demo_rm [] =
      Some (ret, resp', rm', s') \<and> rm_reach (\<lambda>_. True) rm'"
proof -
  let ?m = "the (snd (qdma_mbox_compose_vf_qreq 9 20 (-1) (Some zero_msg)))"
  have m: "snd (qdma_mbox_compose_vf_qreq 9 20 (-1) (Some zero_msg)) = Some ?m" 
    "request_ok (uint (mf_qmax (m_fmap ?m))) (sint (mf_qbase (m_fmap ?m)))" "h_op (m_hdr ?m) = MBOX_OP_QREQ"
    by (simp_all add: qdma_mbox_compose_vf_qreq_def compose_def set_fmap_def request_ok_def)
  obtain ret resp' rm' s' where r: "qdma_mbox_pf_rcv_msg_handler (Some ref_hw) (\<lambda>_. True) 0 0 (Some ?m)
      zero_msg demo_rm [] = Some (ret, resp', rm', s')"
    using m(3) by (simp add: handler_answered pf_dispatch_def mbox_op_defs)
  show ?thesis
    using mailbox_keeps_resources [OF demo_rm_reach _ r] m r by auto
qed

end
