(* ===== verification/Mbox_Hw.thy ===== *)
theory Mbox_Hw
  imports Mbox_Safety
begin

text \<open>
  The mailbox registers (\<^verbatim>\<open>qdma_mbox_protocol.c\<close>, the register part): sending and receiving the
  32 words of a message, the acknowledgements, the interrupt and the initialisation. The bases
  are those of the soft IP. The words of a message are a list; the header is read from the first
  two words in the layout of the little-endian ABIs.
\<close>

subsection \<open>Registers\<close>

definition QDMA_OFFSET_MBOX_BASE_VF :: u32 where "QDMA_OFFSET_MBOX_BASE_VF = 0x1000"
definition QDMA_OFFSET_MBOX_BASE_PF :: u32 where "QDMA_OFFSET_MBOX_BASE_PF = 0x2400"
definition MBOX_FN_STATUS :: u32 where "MBOX_FN_STATUS = 0x0"
definition M_MBOX_FN_STATUS_IN_MSG :: u32 where "M_MBOX_FN_STATUS_IN_MSG = 0x1"
definition S_MBOX_FN_STATUS_OUT_MSG :: nat where "S_MBOX_FN_STATUS_OUT_MSG = 1"
definition F_MBOX_FN_STATUS_OUT_MSG :: u32 where "F_MBOX_FN_STATUS_OUT_MSG = push_bit S_MBOX_FN_STATUS_OUT_MSG 1"
definition S_MBOX_FN_STATUS_ACK :: nat where "S_MBOX_FN_STATUS_ACK = 2"
definition F_MBOX_FN_STATUS_ACK :: u32 where "F_MBOX_FN_STATUS_ACK = push_bit S_MBOX_FN_STATUS_ACK 1"
definition S_MBOX_FN_STATUS_SRC :: nat where "S_MBOX_FN_STATUS_SRC = 4"
definition M_MBOX_FN_STATUS_SRC :: u32 where "M_MBOX_FN_STATUS_SRC = 0xFFF"
definition G_MBOX_FN_STATUS_SRC :: "u32 \<Rightarrow> u32" where
  "G_MBOX_FN_STATUS_SRC x = drop_bit S_MBOX_FN_STATUS_SRC x AND M_MBOX_FN_STATUS_SRC"
definition MBOX_FN_CMD :: u32 where "MBOX_FN_CMD = 0x4"
definition F_MBOX_FN_CMD_SND :: u32 where "F_MBOX_FN_CMD_SND = push_bit 0 1"
definition F_MBOX_FN_CMD_RCV :: u32 where "F_MBOX_FN_CMD_RCV = push_bit 1 1"
definition MBOX_ISR_VEC :: u32 where "MBOX_ISR_VEC = 0x8"
definition MBOX_FN_TARGET :: u32 where "MBOX_FN_TARGET = 0xC"
definition M_MBOX_FN_TARGET_ID :: u32 where "M_MBOX_FN_TARGET_ID = 0xFFF"
definition V_MBOX_FN_TARGET_ID :: "u32 \<Rightarrow> u32" where "V_MBOX_FN_TARGET_ID x = x AND M_MBOX_FN_TARGET_ID"
definition MBOX_ISR_EN :: u32 where "MBOX_ISR_EN = 0x10"
definition MBOX_PF_ACK_BASE :: u32 where "MBOX_PF_ACK_BASE = 0x20"
definition MBOX_PF_ACK_STEP :: u32 where "MBOX_PF_ACK_STEP = 4"
definition MBOX_PF_ACK_COUNT :: nat where "MBOX_PF_ACK_COUNT = 8"
definition MBOX_IN_MSG_BASE :: u32 where "MBOX_IN_MSG_BASE = 0x800"
definition MBOX_OUT_MSG_BASE :: u32 where "MBOX_OUT_MSG_BASE = 0xc00"

lemmas mbox_reg_defs =
  QDMA_OFFSET_MBOX_BASE_VF_def QDMA_OFFSET_MBOX_BASE_PF_def MBOX_FN_STATUS_def MBOX_FN_CMD_def
  MBOX_ISR_VEC_def MBOX_FN_TARGET_def MBOX_ISR_EN_def MBOX_PF_ACK_BASE_def MBOX_PF_ACK_STEP_def
  MBOX_PF_ACK_COUNT_def MBOX_IN_MSG_BASE_def MBOX_OUT_MSG_BASE_def MBOX_MSG_REG_MAX_def

definition get_mbox_offset :: "bool \<Rightarrow> u32" where
  "get_mbox_offset is_vf = (if is_vf then QDMA_OFFSET_MBOX_BASE_VF else QDMA_OFFSET_MBOX_BASE_PF)"

subsection \<open>The header in the words\<close>

definition raw_op :: "u32 list \<Rightarrow> u8" where
  "raw_op raw = ucast (raw ! 0)"

definition raw_src :: "u32 list \<Rightarrow> u16" where
  "raw_src raw = ucast (drop_bit 16 (raw ! 0))"

definition raw_dst :: "u32 list \<Rightarrow> u16" where
  "raw_dst raw = ucast (raw ! 1)"

definition set_raw_src :: "u16 \<Rightarrow> u32 list \<Rightarrow> u32 list" where
  "set_raw_src src raw = raw[0 := take_bit 16 (raw ! 0) OR push_bit 16 (ucast src)]"

subsection \<open>Operations\<close>

definition mbox_pf_hw_clear_func_ack :: "u16 \<Rightarrow> hw_log \<Rightarrow> hw_log" where
  "mbox_pf_hw_clear_func_ack fid s =
     qdma_reg_write (get_mbox_offset False + MBOX_PF_ACK_BASE + ucast (fid div 32) * MBOX_PF_ACK_STEP)
       (push_bit (unat (fid mod 32)) 1) s"

fun clear_acks :: "hw_env \<Rightarrow> u32 \<Rightarrow> nat \<Rightarrow> hw_log \<Rightarrow> hw_log" where
  "clear_acks env reg 0 s = s"
| "clear_acks env reg (Suc n) s =
     (let (v, s1) = qdma_reg_read env reg s in
      clear_acks env (reg + MBOX_PF_ACK_STEP) n (if v = 0 then s1 else qdma_reg_write reg v s1))"

definition qdma_mbox_pf_hw_clear_ack :: "hw_env \<Rightarrow> hw_log \<Rightarrow> hw_log" where
  "qdma_mbox_pf_hw_clear_ack env s =
     (let (v, s1) = qdma_reg_read env (get_mbox_offset False + MBOX_FN_STATUS) s in
      if v AND F_MBOX_FN_STATUS_ACK = 0 then s1
      else clear_acks env (get_mbox_offset False + MBOX_PF_ACK_BASE) MBOX_PF_ACK_COUNT s1)"

definition qdma_mbox_send :: "hw_env \<Rightarrow> bool \<Rightarrow> u32 list \<Rightarrow> hw_log \<Rightarrow> int \<times> hw_log" where
  "qdma_mbox_send env is_vf raw s =
     (let dst_func_id = raw_dst raw; mbox_base = get_mbox_offset is_vf;
          (v, s1) = qdma_reg_read env (mbox_base + MBOX_FN_STATUS) s in
      if v AND F_MBOX_FN_STATUS_OUT_MSG \<noteq> 0 then (neg_err QDMA_ERR_MBOX_SEND_BUSY, s1)
      else
        (let s2 = (if is_vf then s1
                   else qdma_reg_write (mbox_base + MBOX_FN_TARGET) (V_MBOX_FN_TARGET_ID (ucast dst_func_id)) s1);
             s3 = write_regs (mbox_base + MBOX_OUT_MSG_BASE) (take MBOX_MSG_REG_MAX raw) s2;
             s4 = (if is_vf then s3 else mbox_pf_hw_clear_func_ack dst_func_id s3) in
         (err_code QDMA_SUCCESS, qdma_reg_write (mbox_base + MBOX_FN_CMD) F_MBOX_FN_CMD_SND s4)))"

definition qdma_mbox_rcv :: "hw_env \<Rightarrow> bool \<Rightarrow> u32 list \<Rightarrow> hw_log \<Rightarrow> int \<times> u32 list \<times> hw_log" where
  "qdma_mbox_rcv env is_vf raw s =
     (let mbox_base = get_mbox_offset is_vf;
          (v, s1) = qdma_reg_read env (mbox_base + MBOX_FN_STATUS) s in
      if v AND M_MBOX_FN_STATUS_IN_MSG = 0 then (neg_err QDMA_ERR_MBOX_NO_MSG_IN, raw, s1)
      else
        (let from_id = (if is_vf then 0 else G_MBOX_FN_STATUS_SRC v);
             s2 = (if is_vf then s1 else qdma_reg_write (mbox_base + MBOX_FN_TARGET) from_id s1);
             (data, s3) = read_regs env (mbox_base + MBOX_IN_MSG_BASE) MBOX_MSG_REG_MAX s2;
             s4 = qdma_reg_write (mbox_base + MBOX_FN_CMD) F_MBOX_FN_CMD_RCV s3 in
         if list_all (\<lambda>w. w = 0) data then (neg_err QDMA_ERR_MBOX_ALL_ZERO_MSG, data, s4)
         else (err_code QDMA_SUCCESS,
               if \<not> is_vf \<and> from_id \<noteq> ucast (raw_src data) then set_raw_src (ucast from_id) data else data, s4)))"

definition qdma_mbox_hw_init :: "hw_env \<Rightarrow> bool \<Rightarrow> hw_log \<Rightarrow> hw_log" where
  "qdma_mbox_hw_init env is_vf s =
     (if is_vf then
        (let (v, s1) = qdma_reg_read env (get_mbox_offset is_vf + MBOX_FN_STATUS) s in
         if v AND M_MBOX_FN_STATUS_IN_MSG \<noteq> 0
         then qdma_reg_write (get_mbox_offset is_vf + MBOX_FN_CMD) F_MBOX_FN_CMD_RCV s1 else s1)
      else qdma_mbox_pf_hw_clear_ack env s)"

definition qdma_mbox_enable_interrupts :: "bool \<Rightarrow> hw_log \<Rightarrow> hw_log" where
  "qdma_mbox_enable_interrupts is_vf s =
     qdma_reg_write (get_mbox_offset is_vf + MBOX_ISR_EN) 1
       (qdma_reg_write (get_mbox_offset is_vf + MBOX_ISR_VEC) 0 s)"

definition qdma_mbox_disable_interrupts :: "bool \<Rightarrow> hw_log \<Rightarrow> hw_log" where
  "qdma_mbox_disable_interrupts is_vf s = qdma_reg_write (get_mbox_offset is_vf + MBOX_ISR_EN) 0 s"

definition qdma_mbox_out_status :: "hw_env \<Rightarrow> bool \<Rightarrow> hw_log \<Rightarrow> u8 \<times> hw_log" where
  "qdma_mbox_out_status env is_vf s =
     (let (v, s1) = qdma_reg_read env (get_mbox_offset is_vf + MBOX_FN_STATUS) s in
      (if v AND F_MBOX_FN_STATUS_OUT_MSG \<noteq> 0 then 1 else 0, s1))"

subsection \<open>Sending and receiving\<close>

lemma write_regs_log:
  "write_regs a vs s = s @ map (\<lambda>i. Reg_write (a + 4 * of_nat i) (vs ! i)) [0..<length vs]"
proof (induction vs arbitrary: a s)
  case (Cons v vs)
  show ?case
    by (simp add: Cons.IH qdma_reg_write_def upt_conv_Cons map_Suc_upt [symmetric] ac_simps del: upt_Suc)
qed simp

text \<open>The addresses of the message registers are distinct.\<close>

lemma addr_eq:
  assumes "a < 4294967296" "b < 4294967296"
  shows "(of_nat a :: u32) = of_nat b \<longleftrightarrow> a = b"
proof
  assume "(of_nat a :: u32) = of_nat b"
  then have "unat (of_nat a :: u32) = unat (of_nat b :: u32)" by (rule arg_cong)
  then show "a = b" using assms by (simp only: unsigned_of_nat) (simp add: take_bit_nat_eq_self)
qed simp

lemma msg_regs_inj: "inj_on (\<lambda>i. a + 4 * of_nat i :: u32) {..<32}"
proof (rule inj_onI)
  fix i j :: nat
  assume *: "i \<in> {..<32}" "j \<in> {..<32}" "a + 4 * of_nat i = a + (4 * of_nat j :: u32)"
  then have "(of_nat (4 * i) :: u32) = of_nat (4 * j)" by simp
  then show "i = j" using *(1,2) by (subst (asm) addr_eq) auto
qed

text \<open>The outgoing message registers are apart from the others a send writes.\<close>

lemma out_regs_apart:
  assumes "i < 32" "uint dst < 4096"
  shows "get_mbox_offset vf + MBOX_OUT_MSG_BASE + 4 * of_nat i \<noteq> get_mbox_offset vf + MBOX_FN_CMD"
    "get_mbox_offset False + MBOX_OUT_MSG_BASE + 4 * of_nat i \<noteq>
       get_mbox_offset False + MBOX_PF_ACK_BASE + ucast ((dst :: u16) div 32) * 4"
proof -
  have "(of_nat (0xc00 + 4 * i) :: u32) \<noteq> of_nat 4" using assms(1) by (subst addr_eq) auto
  then show "get_mbox_offset vf + MBOX_OUT_MSG_BASE + 4 * of_nat i \<noteq> get_mbox_offset vf + MBOX_FN_CMD"
    by (simp add: MBOX_OUT_MSG_BASE_def MBOX_FN_CMD_def)
  have "unat dst < 4096" using assms(2) unfolding unat_eq_nat_uint by linarith
  then have u: "unat (dst div 32) < 128" by (simp add: unat_div)
  have "(ucast (dst div 32) :: u32) = of_nat (unat (dst div 32))" by simp
  moreover have "(of_nat (0xc00 + 4 * i) :: u32) \<noteq> of_nat (0x20 + unat (dst div 32) * 4)"
    using assms(1) u by (subst addr_eq) auto
  ultimately show "get_mbox_offset False + MBOX_OUT_MSG_BASE + 4 * of_nat i \<noteq>
       get_mbox_offset False + MBOX_PF_ACK_BASE + ucast (dst div 32) * 4"
    by (simp add: MBOX_OUT_MSG_BASE_def MBOX_PF_ACK_BASE_def)
qed

lemma last_written_none: "(\<And>v. Reg_write a v \<notin> set es) \<Longrightarrow> last_written a es = None"
  by (induction a es rule: last_written.induct) auto

lemma read_regs_answers:
  "(\<And>i t. i < n \<Longrightarrow> env t (a + 4 * of_nat i) = f i) \<Longrightarrow> fst (read_regs env a n s) = map f [0..<n]"
proof (induction n arbitrary: a s f)
  case (Suc n)
  have "fst (read_regs env (a + 4) n (s @ [Reg_read a (env s a)])) = map (\<lambda>i. f (Suc i)) [0..<n]"
    using Suc.prems [of "Suc i" for i] by (intro Suc.IH) (simp add: ac_simps)
  moreover have "env s a = f 0" using Suc.prems [of 0] by simp
  ultimately show ?case
    by (simp add: qdma_reg_read_def case_prod_unfold Let_def upt_conv_Cons map_Suc_upt [symmetric] del: upt_Suc)
qed simp

text \<open>What a send does when the outgoing mailbox is free.\<close>

lemma send_log:
  assumes "length raw = 32" "env s (get_mbox_offset is_vf + MBOX_FN_STATUS) AND F_MBOX_FN_STATUS_OUT_MSG = 0"
  shows "\<exists>v pre post. qdma_mbox_send env is_vf raw s =
    (0, s @ Reg_read (get_mbox_offset is_vf + MBOX_FN_STATUS) v # pre @
      map (\<lambda>i. Reg_write (get_mbox_offset is_vf + MBOX_OUT_MSG_BASE + 4 * of_nat i) (raw ! i)) [0..<32] @ post @
      [Reg_write (get_mbox_offset is_vf + MBOX_FN_CMD) F_MBOX_FN_CMD_SND]) \<and>
    (if is_vf then pre = [] \<and> post = []
     else pre = [Reg_write (get_mbox_offset is_vf + MBOX_FN_TARGET) (ucast (raw_dst raw) AND 0xFFF)] \<and>
       post = [Reg_write (get_mbox_offset False + MBOX_PF_ACK_BASE + ucast (raw_dst raw div 32) * 4)
         (push_bit (unat (raw_dst raw mod 32)) 1)])"
  using assms
  by (cases is_vf)
    (simp_all add: qdma_mbox_send_def qdma_reg_read_def write_regs_log qdma_reg_write_def
      mbox_pf_hw_clear_func_ack_def V_MBOX_FN_TARGET_ID_def M_MBOX_FN_TARGET_ID_def MBOX_MSG_REG_MAX_def
      MBOX_PF_ACK_STEP_def Let_def)

text \<open>A send to a free mailbox, and the receive at the other end.\<close>

lemma send_free:
  assumes "length raw = 32" "a_vf \<or> uint (raw_dst raw) < 4096"
    and "envA s (get_mbox_offset a_vf + MBOX_FN_STATUS) AND F_MBOX_FN_STATUS_OUT_MSG = 0"
  shows "fst (qdma_mbox_send envA a_vf raw s) = 0 \<and>
    last (snd (qdma_mbox_send envA a_vf raw s)) = Reg_write (get_mbox_offset a_vf + MBOX_FN_CMD) F_MBOX_FN_CMD_SND \<and>
    (\<forall>i<32. last_written (get_mbox_offset a_vf + MBOX_OUT_MSG_BASE + 4 * of_nat i) (snd (qdma_mbox_send envA a_vf raw s)) =
       Some (raw ! i))"
proof -
  let ?out = "\<lambda>i. get_mbox_offset a_vf + MBOX_OUT_MSG_BASE + 4 * of_nat i"
  let ?cmd = "get_mbox_offset a_vf + MBOX_FN_CMD"
  let ?w = "map (\<lambda>i. Reg_write (?out i) (raw ! i)) [0..<32]"
  obtain v1 pre post where log: "qdma_mbox_send envA a_vf raw s =
      (0, s @ Reg_read (get_mbox_offset a_vf + MBOX_FN_STATUS) v1 # pre @ ?w @ post @ [Reg_write ?cmd F_MBOX_FN_CMD_SND])"
    "if a_vf then post = [] else post = [Reg_write (get_mbox_offset False + MBOX_PF_ACK_BASE + ucast (raw_dst raw div 32) * 4)
         (push_bit (unat (raw_dst raw mod 32)) 1)]"
    using send_log [of raw envA s a_vf, OF assms(1,3)] by (cases a_vf) auto
  have "last_written (?out i) (post @ [Reg_write ?cmd F_MBOX_FN_CMD_SND]) = None" if "i < 32" for i
    using log(2) out_regs_apart(1) [OF that, of 0 a_vf] out_regs_apart(2) [OF that, of "raw_dst raw"] assms(2)
    by (intro last_written_none) (auto split: if_splits)
  moreover have "last_written (?out i) ?w = Some (raw ! i)" if "i < 32" for i
    using last_written_writes [OF msg_regs_inj that] by simp
  ultimately show ?thesis using log(1) by simp
qed

lemma free_mailbox_transfers:
  assumes "length raw = 32" "\<not> list_all (\<lambda>w. w = 0) raw"
    and "envA s (get_mbox_offset a_vf + MBOX_FN_STATUS) AND F_MBOX_FN_STATUS_OUT_MSG = 0"
    and "qdma_mbox_send envA a_vf raw s = (rv, s')"
    and "\<And>i t w. i < 32 \<Longrightarrow>
           last_written (get_mbox_offset a_vf + MBOX_OUT_MSG_BASE + 4 * of_nat i) s' = Some w \<Longrightarrow>
           envB t (get_mbox_offset b_vf + MBOX_IN_MSG_BASE + 4 * of_nat i) = w"
    and "envB t (get_mbox_offset b_vf + MBOX_FN_STATUS) = v" "v AND M_MBOX_FN_STATUS_IN_MSG \<noteq> 0"
    and "a_vf \<or> uint (raw_dst raw) < 4096"
  shows "rv = 0 \<and> last s' = Reg_write (get_mbox_offset a_vf + MBOX_FN_CMD) F_MBOX_FN_CMD_SND \<and>
    (\<exists>raw' t'. qdma_mbox_rcv envB b_vf old t = (0, raw', t') \<and>
       last t' = Reg_write (get_mbox_offset b_vf + MBOX_FN_CMD) F_MBOX_FN_CMD_RCV \<and>
       (if b_vf \<or> G_MBOX_FN_STATUS_SRC v = ucast (raw_src raw) then raw' = raw
        else raw' = set_raw_src (ucast (G_MBOX_FN_STATUS_SRC v)) raw))"
proof -
  note f = send_free [where raw = raw and a_vf = a_vf and envA = envA and s = s, OF assms(1,8,3)]
  have out: "last_written (get_mbox_offset a_vf + MBOX_OUT_MSG_BASE + 4 * of_nat i) s' = Some (raw ! i)" if "i < 32" for i
    using f that assms(4) by simp
  have "fst (read_regs envB (get_mbox_offset b_vf + MBOX_IN_MSG_BASE) 32 u) = map ((!) raw) [0..<32]" for u
    using assms(5) [OF _ out] by (intro read_regs_answers) simp
  then have rd: "fst (read_regs envB (get_mbox_offset b_vf + MBOX_IN_MSG_BASE) 32 u) = raw" for u
    using assms(1) map_nth [of raw] by simp
  show ?thesis
    using f assms(2,4,6,7) rd
    by (auto simp: qdma_mbox_rcv_def qdma_reg_read_def MBOX_MSG_REG_MAX_def qdma_reg_write_def Let_def case_prod_unfold)
qed

text \<open>The physical function's side: it sees in its registers what the virtual function wrote.\<close>

definition wired :: "hw_log \<Rightarrow> u32 \<Rightarrow> hw_env" where
  "wired sent status s a =
     (if a = get_mbox_offset False + MBOX_FN_STATUS then status
      else case last_written (a - (get_mbox_offset False + MBOX_IN_MSG_BASE) + (get_mbox_offset True + MBOX_OUT_MSG_BASE)) sent of
        Some w \<Rightarrow> w | None \<Rightarrow> 0)"

lemma wired_answers:
  assumes "i < 32" "last_written (get_mbox_offset True + MBOX_OUT_MSG_BASE + 4 * of_nat i) sent = Some w"
  shows "wired sent status s (get_mbox_offset False + MBOX_IN_MSG_BASE + 4 * of_nat i) = w"
proof -
  have "(of_nat (0x800 + 4 * i) :: u32) \<noteq> of_nat 0" using assms(1) by (subst addr_eq) auto
  then have "get_mbox_offset False + MBOX_IN_MSG_BASE + 4 * of_nat i \<noteq> get_mbox_offset False + MBOX_FN_STATUS"
    by (simp add: MBOX_IN_MSG_BASE_def MBOX_FN_STATUS_def)
  then show ?thesis using assms(2) by (simp add: wired_def add.commute)
qed

text \<open>
  C19: A message crosses the mailbox unchanged. For a message of 32 words that are not all
  zero, and a destination below 4096 when the physical function sends it: a send to a busy
  mailbox returns the busy error after reading the status register, and does nothing else. A
  send to a free mailbox returns 0, having written the 32 words to the outgoing registers and
  the send command after everything else; and when the receiver's incoming registers show
  what the sender wrote last and its status reports a message, the receive returns the same
  words, with the source function replaced by the one the hardware reports when the receiver
  is the physical function, and acknowledges them.
\<close>

theorem mailbox_transfers_message:
  assumes "length raw = 32" "\<not> list_all (\<lambda>w. w = 0) raw" "a_vf \<or> uint (raw_dst raw) < 4096"
    and "qdma_mbox_send envA a_vf raw s = (rv, s')"
  shows "let status = envA s (get_mbox_offset a_vf + MBOX_FN_STATUS) in
    if status AND F_MBOX_FN_STATUS_OUT_MSG \<noteq> 0
    then rv = neg_err QDMA_ERR_MBOX_SEND_BUSY \<and> s' = s @ [Reg_read (get_mbox_offset a_vf + MBOX_FN_STATUS) status]
    else rv = 0 \<and> last s' = Reg_write (get_mbox_offset a_vf + MBOX_FN_CMD) F_MBOX_FN_CMD_SND \<and>
      (\<forall>i<32. last_written (get_mbox_offset a_vf + MBOX_OUT_MSG_BASE + 4 * of_nat i) s' = Some (raw ! i)) \<and>
      (\<forall>envB b_vf old t v.
         (\<forall>i<32. \<forall>u w. last_written (get_mbox_offset a_vf + MBOX_OUT_MSG_BASE + 4 * of_nat i) s' = Some w \<longrightarrow>
            envB u (get_mbox_offset b_vf + MBOX_IN_MSG_BASE + 4 * of_nat i) = w) \<and>
         envB t (get_mbox_offset b_vf + MBOX_FN_STATUS) = v \<and> v AND M_MBOX_FN_STATUS_IN_MSG \<noteq> 0 \<longrightarrow>
         (\<exists>raw' t'. qdma_mbox_rcv envB b_vf old t = (0, raw', t') \<and>
            last t' = Reg_write (get_mbox_offset b_vf + MBOX_FN_CMD) F_MBOX_FN_CMD_RCV \<and>
            (if b_vf \<or> G_MBOX_FN_STATUS_SRC v = ucast (raw_src raw) then raw' = raw
             else raw' = set_raw_src (ucast (G_MBOX_FN_STATUS_SRC v)) raw)))"
proof (cases "envA s (get_mbox_offset a_vf + MBOX_FN_STATUS) AND F_MBOX_FN_STATUS_OUT_MSG = 0")
  case False
  then show ?thesis using assms(4) by (auto simp: qdma_mbox_send_def qdma_reg_read_def Let_def)
next
  case True
  note t = free_mailbox_transfers [where raw = raw and a_vf = a_vf and envA = envA and s = s, OF assms(1,2) True assms(4) _ _ _ assms(3)]
  have "rv = 0 \<and> last s' = Reg_write (get_mbox_offset a_vf + MBOX_FN_CMD) F_MBOX_FN_CMD_SND"
    using send_free [where raw = raw and a_vf = a_vf and envA = envA and s = s, OF assms(1,3) True] assms(4) by simp
  moreover have "\<forall>i<32. last_written (get_mbox_offset a_vf + MBOX_OUT_MSG_BASE + 4 * of_nat i) s' = Some (raw ! i)"
    using send_free [where raw = raw and a_vf = a_vf and envA = envA and s = s, OF assms(1,3) True] assms(4) by simp
  moreover have "\<exists>raw' t'. qdma_mbox_rcv envB b_vf old t = (0, raw', t') \<and>
      last t' = Reg_write (get_mbox_offset b_vf + MBOX_FN_CMD) F_MBOX_FN_CMD_RCV \<and>
      (if b_vf \<or> G_MBOX_FN_STATUS_SRC v = ucast (raw_src raw) then raw' = raw
       else raw' = set_raw_src (ucast (G_MBOX_FN_STATUS_SRC v)) raw)"
    if "\<forall>i<32. \<forall>u w. last_written (get_mbox_offset a_vf + MBOX_OUT_MSG_BASE + 4 * of_nat i) s' = Some w \<longrightarrow>
          envB u (get_mbox_offset b_vf + MBOX_IN_MSG_BASE + 4 * of_nat i) = w"
      "envB t (get_mbox_offset b_vf + MBOX_FN_STATUS) = v" "v AND M_MBOX_FN_STATUS_IN_MSG \<noteq> 0" for envB b_vf old t v
    using t [of envB b_vf, OF _ that(2,3), of old] that(1) by blast
  ultimately show ?thesis using True unfolding Let_def by simp
qed

theorem mailbox_transfers_message_witness:
  "\<exists>s' raw' t'. qdma_mbox_send (\<lambda>_ _. 0) True (0x00090001 # replicate 31 7) [] = (0, s') \<and>
     qdma_mbox_rcv (wired s' 0x51) False [] [] = (0, raw', t') \<and> raw' = set_raw_src 5 (0x00090001 # replicate 31 7)"
proof -
  define raw :: "u32 list" where "raw = 0x00090001 # replicate 31 7"
  have raw: "length raw = 32" "\<not> list_all (\<lambda>w. w = 0) raw" "raw_src raw = 9"
    by (simp_all add: raw_def raw_src_def)
  obtain rv s' where s: "qdma_mbox_send (\<lambda>_ _. 0) True raw [] = (rv, s')" by force
  have st: "wired s' 0x51 [] (get_mbox_offset False + MBOX_FN_STATUS) = 0x51" by (simp add: wired_def)
  have in_msg: "(0x51 :: u32) AND M_MBOX_FN_STATUS_IN_MSG \<noteq> 0" by (simp add: M_MBOX_FN_STATUS_IN_MSG_def)
  have src: "G_MBOX_FN_STATUS_SRC 0x51 = 5"
    by (simp add: G_MBOX_FN_STATUS_SRC_def S_MBOX_FN_STATUS_SRC_def M_MBOX_FN_STATUS_SRC_def)
  have free: "(0 :: u32) AND F_MBOX_FN_STATUS_OUT_MSG = 0" by simp
  note t = mailbox_transfers_message [OF raw(1,2) disjI1 [OF TrueI] s, unfolded Let_def free simp_thms if_False]
  have "\<exists>raw' t'. qdma_mbox_rcv (wired s' 0x51) False [] [] = (0, raw', t') \<and> raw' = set_raw_src 5 raw"
    using t [THEN conjunct2, THEN conjunct2, THEN conjunct2, rule_format, of "wired s' 0x51" False "[]" "0x51" "[]"]
      wired_answers st in_msg unfolding src raw(3) by fastforce
  moreover have "rv = 0" using t by blast
  ultimately show ?thesis using s unfolding raw_def by blast
qed

lemma read_regs_length: "length (fst (read_regs env a n s)) = n"
  by (induction n arbitrary: a s) (simp_all add: case_prod_unfold Let_def)

lemma set_raw_src_fields:
  assumes "raw \<noteq> []"
  shows "raw_src (set_raw_src src raw) = src" "raw_op (set_raw_src src raw) = raw_op raw"
    "length (set_raw_src src raw) = length raw" "tl (set_raw_src src raw) = tl raw"
proof -
  have "drop_bit 16 (take_bit 16 w OR push_bit 16 (ucast src)) = (ucast src :: u32)" for w :: u32
    by (rule bit_eqI) (auto simp: bit_simps dest: bit_imp_le_length)
  moreover have "ucast (ucast src :: u32) = src"
    by (rule bit_eqI) (auto simp: bit_simps dest: bit_imp_le_length)
  ultimately show "raw_src (set_raw_src src raw) = src"
    using assms by (simp add: raw_src_def set_raw_src_def)
  have "ucast (take_bit 16 w OR push_bit 16 (ucast src)) = (ucast w :: u8)" for w :: u32
    by (rule bit_eqI) (auto simp: bit_simps)
  then show "raw_op (set_raw_src src raw) = raw_op raw"
    using assms by (simp add: raw_op_def set_raw_src_def)
  show "tl (set_raw_src src raw) = tl raw"
    using assms by (cases raw) (simp_all add: set_raw_src_def)
qed (simp add: set_raw_src_def)

text \<open>
  C20: The physical function cannot be deceived about the sender. For every device, when the
  physical function receives a message, the source function in the message is the one the
  hardware reports in the mailbox status, whatever the sender wrote there; operation code,
  destination and every other word are as received. A message of zeros is refused, and without
  a message nothing is acknowledged.
\<close>

theorem pf_knows_the_sender:
  "case qdma_mbox_rcv env False raw s of (rv, raw', s') \<Rightarrow>
     (let v = env s (get_mbox_offset False + MBOX_FN_STATUS);
          pre = s @ [Reg_read (get_mbox_offset False + MBOX_FN_STATUS) v];
          (data, s3) = read_regs env (get_mbox_offset False + MBOX_IN_MSG_BASE) 32
            (pre @ [Reg_write (get_mbox_offset False + MBOX_FN_TARGET) (G_MBOX_FN_STATUS_SRC v)]) in
      if v AND M_MBOX_FN_STATUS_IN_MSG = 0 then rv = neg_err QDMA_ERR_MBOX_NO_MSG_IN \<and> raw' = raw \<and> s' = pre
      else s' = s3 @ [Reg_write (get_mbox_offset False + MBOX_FN_CMD) F_MBOX_FN_CMD_RCV] \<and>
        (if list_all (\<lambda>w. w = 0) data then rv = neg_err QDMA_ERR_MBOX_ALL_ZERO_MSG
         else rv = 0 \<and> ucast (raw_src raw') = G_MBOX_FN_STATUS_SRC v \<and> raw_op raw' = raw_op data \<and>
              length raw' = 32 \<and> tl raw' = tl data))"
proof -
  let ?v = "env s (get_mbox_offset False + MBOX_FN_STATUS)"
  let ?s2 = "s @ [Reg_read (get_mbox_offset False + MBOX_FN_STATUS) ?v] @
    [Reg_write (get_mbox_offset False + MBOX_FN_TARGET) (G_MBOX_FN_STATUS_SRC ?v)]"
  obtain data s3 where r: "read_regs env (get_mbox_offset False + MBOX_IN_MSG_BASE) 32 ?s2 = (data, s3)" by force
  have l: "length data = 32" using r read_regs_length by (metis fst_conv)
  then have "data \<noteq> []" by auto
  note set_raw_src_fields [OF this]
  moreover have "(ucast (ucast (G_MBOX_FN_STATUS_SRC ?v) :: u16) :: u32) = G_MBOX_FN_STATUS_SRC ?v"
  proof -
    have m: "G_MBOX_FN_STATUS_SRC ?v = take_bit 12 (drop_bit 4 ?v)"
      by (simp add: G_MBOX_FN_STATUS_SRC_def S_MBOX_FN_STATUS_SRC_def M_MBOX_FN_STATUS_SRC_def
          take_bit_eq_mask mask_eq_exp_minus_1)
    show ?thesis unfolding m by (rule bit_eqI) (auto simp: bit_simps)
  qed
  ultimately show ?thesis using r l
    by (auto simp: qdma_mbox_rcv_def qdma_reg_read_def qdma_reg_write_def MBOX_MSG_REG_MAX_def Let_def)
qed


text \<open>
  The shutdown handshakes close. The messages by which the physical function announces a
  reset, the end of a reset or its own end are answered by the virtual function with the
  response that matches them, addressed back to the sender; both sides return the same code
  for it, and the physical function changes neither the resources nor the device when the
  answer arrives.
\<close>

theorem reset_handshakes:
  "list_all (\<lambda>(compose_msg, code). \<exists>m r. compose_msg (Some raw) pf vf = (0, Some m) \<and>
       qdma_mbox_vf_rcv_msg_handler m resp = (code, r) \<and> qdma_mbox_is_msg_response m r \<and>
       h_src (m_hdr r) = ucast vf \<and> h_dst (m_hdr r) = ucast pf \<and>
       qdma_mbox_pf_rcv_msg_handler dev al idx fid (Some r) resp2 rm s = Some (code, resp2, rm, s))
     [(qdma_mbox_compose_vf_reset_message, QDMA_MBOX_VF_RESET),
      (qdma_mbox_compose_pf_reset_done_message, QDMA_MBOX_PF_RESET_DONE),
      (qdma_mbox_compose_pf_offline, QDMA_MBOX_PF_BYE)]"
  by (simp add: qdma_mbox_compose_vf_reset_message_def qdma_mbox_compose_pf_reset_done_message_def
      qdma_mbox_compose_pf_offline_def compose_def qdma_mbox_vf_rcv_msg_handler_def answer_def
      qdma_mbox_is_msg_response_def qdma_mbox_pf_rcv_msg_handler_def pf_dispatch_def mbox_op_defs
      MBOX_MSG_OP_RSP_OFFSET_def mbox_ret_defs zero_msg_def)

end
