(* ===== verification/Mbox_Transport.thy ===== *)
theory Mbox_Transport
  imports Mbox_Hw
begin

text \<open>
  The mailbox of the physical function as the driver runs it (\<^verbatim>\<open>libqdma/qdma_mbox.c\<close>, built
  without \<^verbatim>\<open>__QDMA_VF__\<close> and with \<^verbatim>\<open>CONFIG_PCI_IOV\<close>, and the table of virtual functions of
  \<^verbatim>\<open>qdma_sriov.c\<close>): the list of messages to send, the list of messages that wait for a
  response, the two work items and the timer. A message is a heap object with a number; a freed
  one is not in the heap, and an access to it gives \<open>None\<close>. The work items run one at a time on
  the single-threaded work queue; each is one step here, and the callers' steps come in between.
  The layout of \<^verbatim>\<open>union qdma_mbox_txrx\<close> in the 32 words, which the compiler chooses, is the
  parameter \<open>dec\<close> with its inverse \<open>enc\<close>.
\<close>

subsection \<open>State\<close>

record mbox_msg =
  mm_wait_resp :: bool
  mm_resp_op_matched :: bool
  mm_retry_cnt :: u16
  mm_raw :: "u32 list"

record qdma_vf_info =
  vf_func_id :: u16
  vf_qbase :: u16
  vf_qmax :: u16

datatype reset_state_t =
    RESET_STATE_IDLE
  | RESET_STATE_RECV_PF_RESET_REQ
  | RESET_STATE_PF_WAIT_FOR_BYES
  | RESET_STATE_RECV_PF_RESET_DONE
  | RESET_STATE_RECV_PF_OFFLINE_REQ
  | RESET_STATE_PF_OFFLINE_REQ_PROCESSING
  | RESET_STATE_INVALID

text \<open>
  The mailbox and the parts of the device it uses: \<open>mb_timer\<close>, \<open>mb_tx_queued\<close> and
  \<open>mb_rx_queued\<close> say whether the timer is armed and the work items are queued.
\<close>

record qdma_mbox =
  mb_msgs :: "nat \<Rightarrow> mbox_msg option"
  mb_next :: nat
  mb_tx_todo :: "nat list"
  mb_rx_pend :: "nat list"
  mb_send_busy :: bool
  mb_rx_poll :: bool
  mb_timer :: bool
  mb_tx_queued :: bool
  mb_rx_queued :: bool
  mb_offline :: bool
  mb_reset_state :: reset_state_t
  mb_vf_info :: "qdma_vf_info list"
  mb_vf_count_online :: u8
  mb_rm :: rm_state
  mb_log :: hw_log

definition QDMA_FUNC_ID_INVALID :: u16 where "QDMA_FUNC_ID_INVALID = 0xFFFF"
definition QDMA_MBOX_MSG_TIMEOUT_MS :: u32 where "QDMA_MBOX_MSG_TIMEOUT_MS = 10000"

subsection \<open>Messages and lists\<close>

definition blank_msg :: mbox_msg where
  "blank_msg = \<lparr>mm_wait_resp = False, mm_resp_op_matched = False, mm_retry_cnt = 0, mm_raw = replicate 32 0\<rparr>"

definition qdma_mbox_msg_alloc :: "allocator \<Rightarrow> qdma_mbox \<Rightarrow> nat option \<times> qdma_mbox" where
  "qdma_mbox_msg_alloc al s =
     (let i = mb_next s; s1 = s\<lparr>mb_next := i + 1\<rparr> in
      if al i then (Some i, s1\<lparr>mb_msgs := (mb_msgs s)(i \<mapsto> blank_msg)\<rparr>) else (None, s1))"

text \<open>The last reference is dropped.\<close>

definition msg_free :: "nat \<Rightarrow> qdma_mbox \<Rightarrow> qdma_mbox" where
  "msg_free i s = s\<lparr>mb_msgs := (mb_msgs s)(i := None)\<rparr>"

text \<open>\<^verbatim>\<open>list_del\<close>: the message leaves the list it is on; it has to be on one.\<close>

definition list_del :: "nat \<Rightarrow> qdma_mbox \<Rightarrow> qdma_mbox option" where
  "list_del i s =
     (if i \<in> set (mb_tx_todo s) \<or> i \<in> set (mb_rx_pend s)
      then Some (s\<lparr>mb_tx_todo := remove1 i (mb_tx_todo s), mb_rx_pend := remove1 i (mb_rx_pend s)\<rparr>) else None)"

subsection \<open>Sending\<close>

text \<open>
  \<^verbatim>\<open>qdma_mbox_msg_send\<close> up to the point where a caller that expects a response starts to wait;
  a caller that does not is finished with result 0.
\<close>

definition msg_submit :: "nat \<Rightarrow> bool \<Rightarrow> u32 \<Rightarrow> qdma_mbox \<Rightarrow> qdma_mbox option" where
  "msg_submit i wait_resp timeout_ms s =
     (case mb_msgs s i of
        None \<Rightarrow> None
      | Some m \<Rightarrow>
          Some (s\<lparr>mb_msgs := (mb_msgs s)(i \<mapsto> m\<lparr>mm_resp_op_matched := False, mm_wait_resp := wait_resp,
                     mm_retry_cnt := ucast (timeout_ms div 1000 + 1)\<rparr>),
                  mb_tx_todo := mb_tx_todo s @ [i], mb_tx_queued := True\<rparr>))"

text \<open>The rest of it, after the wait has ended.\<close>


definition msg_wait_done :: "nat \<Rightarrow> qdma_mbox \<Rightarrow> (int \<times> qdma_mbox) option" where
  "msg_wait_done i s =
     (case mb_msgs s i of
        None \<Rightarrow> None
      | Some m \<Rightarrow>
          if \<not> mm_resp_op_matched m
          then (case list_del i s of None \<Rightarrow> None | Some s1 \<Rightarrow> Some (- EPIPE, s1))
          else Some (0, s))"

text \<open>The loop of the send work; it ends with the list, or at the first message that cannot be sent.\<close>

function mbox_tx_work :: "hw_env \<Rightarrow> qdma_mbox \<Rightarrow> qdma_mbox option" where
  "mbox_tx_work env s =
     (case mb_tx_todo s of
        [] \<Rightarrow> Some s
      | i # rest \<Rightarrow>
          (case mb_msgs s i of
             None \<Rightarrow> None
           | Some m \<Rightarrow>
               (let (rv, log) = qdma_mbox_send env False (mm_raw m) (mb_log s); s1 = s\<lparr>mb_log := log\<rparr> in
                if rv = 0 then
                  (let s2 = s1\<lparr>mb_send_busy := False, mb_tx_todo := rest\<rparr> in
                   mbox_tx_work env (if mm_wait_resp m then s2\<lparr>mb_rx_pend := mb_rx_pend s2 @ [i]\<rparr> else msg_free i s2))
                else if \<not> mb_offline s1 then
                  (let m1 = (if mm_wait_resp m then m else m\<lparr>mm_retry_cnt := mm_retry_cnt m - 1\<rparr>);
                       s2 = s1\<lparr>mb_msgs := (mb_msgs s1)(i \<mapsto> m1)\<rparr> in
                   if \<not> mm_wait_resp m \<and> mm_retry_cnt m1 = 0
                   then Some (msg_free i (s2\<lparr>mb_tx_todo := rest\<rparr>))
                   else Some (s2\<lparr>mb_send_busy := True, mb_timer := True\<rparr>))
                else Some (msg_free i s1))))"
  by pat_completeness auto
termination
  by (relation "measure (\<lambda>(env, s). length (mb_tx_todo s))") (auto simp: msg_free_def split: if_splits)

declare mbox_tx_work.simps [simp del]

subsection \<open>The virtual functions\<close>

definition xdev_sriov_vf_offline :: "u8 \<Rightarrow> qdma_mbox \<Rightarrow> qdma_mbox" where
  "xdev_sriov_vf_offline fid s =
     s\<lparr>mb_vf_count_online := mb_vf_count_online s - 1,
       mb_vf_info := map (\<lambda>vf. if vf_func_id vf = ucast fid
         then vf\<lparr>vf_func_id := if mb_reset_state s = RESET_STATE_IDLE then QDMA_FUNC_ID_INVALID else vf_func_id vf,
                 vf_qbase := 0, vf_qmax := 0\<rparr>
         else vf) (mb_vf_info s)\<rparr>"

fun claim_slot :: "u16 \<Rightarrow> qdma_vf_info list \<Rightarrow> qdma_vf_info list option" where
  "claim_slot fid [] = None"
| "claim_slot fid (vf # vfs) =
     (if vf_func_id vf = QDMA_FUNC_ID_INVALID then Some (vf\<lparr>vf_func_id := fid\<rparr> # vfs)
      else map_option (\<lambda>vfs'. vf # vfs') (claim_slot fid vfs))"

definition xdev_sriov_vf_online :: "u8 \<Rightarrow> qdma_mbox \<Rightarrow> int \<times> qdma_mbox" where
  "xdev_sriov_vf_online fid s =
     (let s1 = s\<lparr>mb_vf_count_online := mb_vf_count_online s + 1\<rparr> in
      if mb_reset_state s1 = RESET_STATE_IDLE then
        (case claim_slot (ucast fid) (mb_vf_info s1) of
           Some vfs \<Rightarrow> (0, s1\<lparr>mb_vf_info := vfs\<rparr>)
         | None \<Rightarrow> (- EINVAL, s1))
      else (0, s1))"

fun set_vf_fmap :: "u16 \<Rightarrow> u16 \<Rightarrow> u16 \<Rightarrow> qdma_vf_info list \<Rightarrow> qdma_vf_info list option" where
  "set_vf_fmap fid qb qm [] = None"
| "set_vf_fmap fid qb qm (vf # vfs) =
     (if vf_func_id vf = fid then Some (vf\<lparr>vf_qbase := qb, vf_qmax := qm\<rparr> # vfs)
      else map_option (\<lambda>vfs'. vf # vfs') (set_vf_fmap fid qb qm vfs))"

definition xdev_sriov_vf_fmap :: "u8 \<Rightarrow> u16 \<Rightarrow> u16 \<Rightarrow> qdma_mbox \<Rightarrow> int \<times> qdma_mbox" where
  "xdev_sriov_vf_fmap fid qb qm s =
     (case set_vf_fmap (ucast fid) qb qm (mb_vf_info s) of
        Some vfs \<Rightarrow> (0, s\<lparr>mb_vf_info := vfs\<rparr>)
      | None \<Rightarrow> (- EINVAL, s))"

subsection \<open>Receiving\<close>

text \<open>The first pending request the received message answers; all of them are alive.\<close>

fun find_request :: "(u32 list \<Rightarrow> qdma_mbox_txrx) \<Rightarrow> (nat \<Rightarrow> mbox_msg option) \<Rightarrow> u32 list \<Rightarrow> nat list \<Rightarrow> nat option option" where
  "find_request dec msgs rx [] = Some None"
| "find_request dec msgs rx (i # is) =
     (case msgs i of
        None \<Rightarrow> None
      | Some m \<Rightarrow>
          if qdma_mbox_is_msg_response (dec (mm_raw m)) (dec rx) then Some (Some i)
          else find_request dec msgs rx is)"

text \<open>The response to a pending request: the waiter is woken and the request freed.\<close>

definition deliver_response :: "(u32 list \<Rightarrow> qdma_mbox_txrx) \<Rightarrow> u32 list \<Rightarrow> qdma_mbox \<Rightarrow> qdma_mbox option" where
  "deliver_response dec rx s =
     (case find_request dec (mb_msgs s) rx (mb_rx_pend s) of
        None \<Rightarrow> None
      | Some None \<Rightarrow> Some s
      | Some (Some i) \<Rightarrow>
          (case list_del i s of
             None \<Rightarrow> None
           | Some s1 \<Rightarrow> Some (msg_free i s1)))"

definition store_raw :: "nat \<Rightarrow> u32 list \<Rightarrow> qdma_mbox \<Rightarrow> qdma_mbox" where
  "store_raw i raw s =
     s\<lparr>mb_msgs := (mb_msgs s)(i := map_option (\<lambda>m. m\<lparr>mm_raw := raw\<rparr>) (mb_msgs s i))\<rparr>"

record mbox_ctx =
  mc_env :: hw_env
  mc_alloc :: allocator
  mc_rm_alloc :: allocator
  mc_dec :: "u32 list \<Rightarrow> qdma_mbox_txrx"
  mc_enc :: "qdma_mbox_txrx \<Rightarrow> u32 list"
  mc_idx :: u8
  mc_func :: u8

definition respond :: "nat \<Rightarrow> qdma_mbox \<Rightarrow> qdma_mbox option" where
  "respond i s = msg_submit i False QDMA_MBOX_MSG_TIMEOUT_MS s"

definition mbox_rcv_one_msg :: "mbox_ctx \<Rightarrow> u32 list \<Rightarrow> qdma_mbox \<Rightarrow> (int \<times> qdma_mbox) option" where
  "mbox_rcv_one_msg c rx s =
     (case qdma_mbox_msg_alloc (mc_alloc c) s of
        (None, s1) \<Rightarrow> Some (- ENOMEM, s1)
      | (Some i, s1) \<Rightarrow>
          (case qdma_mbox_pf_rcv_msg_handler (Some (mc_env c)) (mc_rm_alloc c) (mc_idx c) (ucast (mc_func c))
                  (Some (mc_dec c rx)) (mc_dec c (replicate 32 0)) (mb_rm s1) (mb_log s1) of
             None \<Rightarrow> None
           | Some (rv, resp, rm, log) \<Rightarrow>
               (let s2 = store_raw i (mc_enc c resp) (s1\<lparr>mb_rm := rm, mb_log := log\<rparr>);
                    vf = qdma_mbox_vf_func_id_get (mc_dec c rx) False in
                map_option (\<lambda>s3. (0, s3))
                  (if rv = QDMA_MBOX_VF_OFFLINE \<or> rv = QDMA_MBOX_VF_RESET_BYE then
                     (let s3 = xdev_sriov_vf_offline vf s2 in
                      if rv = QDMA_MBOX_VF_RESET_BYE then respond i s3 else Some (msg_free i s3))
                   else if rv = QDMA_MBOX_VF_ONLINE then respond i (snd (xdev_sriov_vf_online vf s2))
                   else if rv = QDMA_MBOX_VF_RESET \<or> rv = QDMA_MBOX_PF_RESET_DONE \<or> rv = QDMA_MBOX_PF_BYE then
                     map_option (msg_free i) (deliver_response (mc_dec c) rx s2)
                   else respond i s2))))"

text \<open>
  The loop of the receive work: \<open>None\<close> when it does not end, \<open>Some None\<close> when a message leaves an
  array, otherwise the last result of the mailbox registers.
\<close>

partial_function (option) rx_loop :: "mbox_ctx \<Rightarrow> qdma_mbox \<Rightarrow> (int \<times> qdma_mbox) option option" where
  "rx_loop c s =
     (case qdma_mbox_rcv (mc_env c) False (replicate 32 0) (mb_log s) of
        (rv, raw, log) \<Rightarrow>
          (let s1 = s\<lparr>mb_log := log\<rparr> in
           if rv \<noteq> 0 \<or> mb_offline s1 then Some (Some (rv, s1))
           else (case mbox_rcv_one_msg c raw s1 of
               None \<Rightarrow> Some None
             | Some (rv1, s2) \<Rightarrow> if rv1 = - EINVAL then Some (Some (rv, s2)) else rx_loop c s2)))"

definition mbox_timer_stop :: "qdma_mbox \<Rightarrow> qdma_mbox" where
  "mbox_timer_stop s = s\<lparr>mb_timer := False\<rparr>"

definition mbox_timer_start :: "qdma_mbox \<Rightarrow> qdma_mbox" where
  "mbox_timer_start s = s\<lparr>mb_timer := True\<rparr>"

definition mbox_rx_work :: "mbox_ctx \<Rightarrow> qdma_mbox \<Rightarrow> qdma_mbox option option" where
  "mbox_rx_work c s =
     map_option (map_option (\<lambda>(rv, s1).
       let mbox_stop = (rv = neg_err QDMA_ERR_MBOX_ALL_ZERO_MSG \<or> mb_offline s1) in
       if mb_rx_poll s1 then (if mbox_stop then mbox_timer_stop s1 else mbox_timer_start s1)
       else if mbox_stop then s1\<lparr>mb_log := qdma_mbox_disable_interrupts False (mb_log s1)\<rparr> else s1)) (rx_loop c s)"

definition mbox_timer_handler :: "qdma_mbox \<Rightarrow> qdma_mbox" where
  "mbox_timer_handler s =
     s\<lparr>mb_timer := False, mb_rx_queued := mb_rx_queued s \<or> mb_rx_poll s, mb_tx_queued := mb_tx_queued s \<or> mb_send_busy s\<rparr>"

text \<open>\<open>mbox_cap\<close> is the mailbox capability of the device.\<close>

definition qdma_mbox_start :: "bool \<Rightarrow> qdma_mbox \<Rightarrow> qdma_mbox" where
  "qdma_mbox_start mbox_cap s =
     (if \<not> mbox_cap then s
      else if mb_rx_poll s then mbox_timer_start s
      else s\<lparr>mb_log := qdma_mbox_enable_interrupts False (mb_log s)\<rparr>)"

definition qdma_mbox_poll_start :: "bool \<Rightarrow> qdma_mbox \<Rightarrow> qdma_mbox" where
  "qdma_mbox_poll_start mbox_cap s =
     (if \<not> mbox_cap then s
      else mbox_timer_start (s\<lparr>mb_rx_poll := True, mb_log := qdma_mbox_disable_interrupts False (mb_log s)\<rparr>))"

text \<open>
  Stopping waits until the work item has emptied the list (\<open>None\<close>: not yet), then up to 100 times
  10 ms for the hardware; \<open>has_intr\<close> says whether the device has mailbox interrupts.
\<close>

fun wait_out :: "hw_env \<Rightarrow> nat \<Rightarrow> hw_log \<Rightarrow> hw_log" where
  "wait_out env 0 s = s"
| "wait_out env (Suc n) s =
     (let (busy, s1) = qdma_mbox_out_status env False s in
      if busy = 0 then s1 else wait_out env n (qdma_udelay 10000 s1))"

definition qdma_mbox_stop :: "hw_env \<Rightarrow> bool \<Rightarrow> bool \<Rightarrow> qdma_mbox \<Rightarrow> qdma_mbox option" where
  "qdma_mbox_stop env mbox_cap has_intr s =
     (if \<not> mbox_cap then Some s
      else if mb_tx_todo s \<noteq> [] then None
      else
        (let s1 = mbox_timer_stop (s\<lparr>mb_log := wait_out env 100 (mb_log s)\<rparr>) in
         Some (if has_intr \<and> \<not> mb_rx_poll s1
               then s1\<lparr>mb_log := qdma_mbox_disable_interrupts False (mb_log s1)\<rparr> else s1)))"

fun discard_msgs :: "hw_env \<Rightarrow> nat \<Rightarrow> hw_log \<Rightarrow> hw_log" where
  "discard_msgs env 0 s = s"
| "discard_msgs env (Suc n) s = discard_msgs env n (snd (snd (qdma_mbox_rcv env False (replicate 32 0) s)))"

text \<open>\<open>wq_ok\<close>: the work queue could be created; \<open>polled\<close>: the driver mode is poll or legacy interrupt.\<close>

definition qdma_mbox_init :: "hw_env \<Rightarrow> bool \<Rightarrow> bool \<Rightarrow> bool \<Rightarrow> qdma_mbox \<Rightarrow> int \<times> qdma_mbox" where
  "qdma_mbox_init env wq_ok has_intr polled s =
     (let s1 = s\<lparr>mb_tx_todo := [], mb_rx_pend := []\<rparr> in
      if \<not> wq_ok then (- ENOMEM, s1)
      else
        (let s2 = s1\<lparr>mb_log := qdma_mbox_hw_init env False (discard_msgs env 256 (mb_log s1))\<rparr> in
         (0, if has_intr \<and> \<not> polled
             then s2\<lparr>mb_rx_poll := False, mb_log := qdma_mbox_enable_interrupts False (mb_log s2)\<rparr>
             else s2\<lparr>mb_rx_poll := True\<rparr>)))"

subsection \<open>The send work\<close>

text \<open>Messages that are queued, alive and, if they are pending, waiting for a response.\<close>

definition mbox_ok :: "qdma_mbox \<Rightarrow> bool" where
  "mbox_ok s \<longleftrightarrow>
     distinct (mb_tx_todo s @ mb_rx_pend s) \<and>
     set (mb_tx_todo s @ mb_rx_pend s) \<subseteq> dom (mb_msgs s) \<and>
     dom (mb_msgs s) \<subseteq> {..<mb_next s} \<and>
     (\<forall>i\<in>set (mb_rx_pend s). mm_wait_resp (the (mb_msgs s i)))"

text \<open>One message has been sent.\<close>

definition sent_on :: "nat \<Rightarrow> nat list \<Rightarrow> hw_log \<Rightarrow> qdma_mbox \<Rightarrow> qdma_mbox" where
  "sent_on i rest log s =
     (let s2 = s\<lparr>mb_log := log, mb_send_busy := False, mb_tx_todo := rest\<rparr> in
      if mm_wait_resp (the (mb_msgs s i)) then s2\<lparr>mb_rx_pend := mb_rx_pend s2 @ [i]\<rparr> else msg_free i s2)"

lemma sent_on_simps [simp]:
  "mb_tx_todo (sent_on i rest log s) = rest" "mb_offline (sent_on i rest log s) = mb_offline s"
  "mb_log (sent_on i rest log s) = log" "mb_next (sent_on i rest log s) = mb_next s"
  "mb_rx_pend (sent_on i rest log s) = mb_rx_pend s @ (if mm_wait_resp (the (mb_msgs s i)) then [i] else [])"
  "j \<noteq> i \<Longrightarrow> mb_msgs (sent_on i rest log s) j = mb_msgs s j"
  "mb_send_busy (sent_on i rest log s) \<longleftrightarrow> False"
  by (auto simp: sent_on_def msg_free_def Let_def)

lemma sent_on_ok:
  assumes "mbox_ok s" "mb_tx_todo s = i # rest"
  shows "mbox_ok (sent_on i rest log s)"
proof -
  have d: "dom (mb_msgs (sent_on i rest log s)) = (if mm_wait_resp (the (mb_msgs s i)) then dom (mb_msgs s) else dom (mb_msgs s) - {i})"
    by (auto simp: sent_on_def msg_free_def Let_def)
  have "j \<in> set (mb_rx_pend s) \<Longrightarrow> mb_msgs (sent_on i rest log s) j = mb_msgs s j" for j
    using assms by (cases "j = i") (auto simp: mbox_ok_def)
  moreover have "mm_wait_resp (the (mb_msgs s i)) \<Longrightarrow> mb_msgs (sent_on i rest log s) i = mb_msgs s i"
    by (simp add: sent_on_def Let_def)
  ultimately show ?thesis using assms by (auto simp: mbox_ok_def d)
qed

text \<open>The head of the list, alive: sent, put off, given up, or found when the device is offline.\<close>

lemma tx_work_cons:
  assumes "mb_tx_todo s = i # rest" "mb_msgs s i = Some m" "qdma_mbox_send env False (mm_raw m) (mb_log s) = (rv, log)"
  shows "rv = 0 \<Longrightarrow> mbox_tx_work env s = mbox_tx_work env (sent_on i rest log s)"
    "rv \<noteq> 0 \<Longrightarrow> mb_offline s \<Longrightarrow> mbox_tx_work env s = Some (msg_free i (s\<lparr>mb_log := log\<rparr>))"
    "rv \<noteq> 0 \<Longrightarrow> \<not> mb_offline s \<Longrightarrow> \<not> mm_wait_resp m \<Longrightarrow> mm_retry_cnt m = 1 \<Longrightarrow>
       mbox_tx_work env s = Some (msg_free i (s\<lparr>mb_log := log, mb_tx_todo := rest\<rparr>))"
    "rv \<noteq> 0 \<Longrightarrow> \<not> mb_offline s \<Longrightarrow> mm_wait_resp m \<or> mm_retry_cnt m \<noteq> 1 \<Longrightarrow>
       mbox_tx_work env s = Some (s\<lparr>mb_log := log, mb_send_busy := True, mb_timer := True, mb_msgs :=
         (mb_msgs s)(i \<mapsto> if mm_wait_resp m then m else m\<lparr>mm_retry_cnt := mm_retry_cnt m - 1\<rparr>)\<rparr>)"
proof -
  note w = mbox_tx_work.simps [of env s, unfolded assms(1) list.case assms(2) option.case assms(3) Let_def case_prod_conv]
  show "rv = 0 \<Longrightarrow> mbox_tx_work env s = mbox_tx_work env (sent_on i rest log s)"
    unfolding w by (simp add: sent_on_def assms(2) msg_free_def)
  show "rv \<noteq> 0 \<Longrightarrow> mb_offline s \<Longrightarrow> mbox_tx_work env s = Some (msg_free i (s\<lparr>mb_log := log\<rparr>))"
    unfolding w by simp
  show "rv \<noteq> 0 \<Longrightarrow> \<not> mb_offline s \<Longrightarrow> \<not> mm_wait_resp m \<Longrightarrow> mm_retry_cnt m = 1 \<Longrightarrow>
      mbox_tx_work env s = Some (msg_free i (s\<lparr>mb_log := log, mb_tx_todo := rest\<rparr>))"
    unfolding w by (simp add: msg_free_def)
  show "rv \<noteq> 0 \<Longrightarrow> \<not> mb_offline s \<Longrightarrow> mm_wait_resp m \<or> mm_retry_cnt m \<noteq> 1 \<Longrightarrow>
      mbox_tx_work env s = Some (s\<lparr>mb_log := log, mb_send_busy := True, mb_timer := True, mb_msgs :=
         (mb_msgs s)(i \<mapsto> if mm_wait_resp m then m else m\<lparr>mm_retry_cnt := mm_retry_cnt m - 1\<rparr>)\<rparr>)"
    unfolding w by auto
qed

text \<open>A list of messages is split by a run: sent, then what stays.\<close>

definition waiting :: "qdma_mbox \<Rightarrow> nat \<Rightarrow> bool" where
  "waiting s i \<longleftrightarrow> mm_wait_resp (the (mb_msgs s i))"

definition tries :: "qdma_mbox \<Rightarrow> nat \<Rightarrow> nat" where
  "tries s i = unat (mm_retry_cnt (the (mb_msgs s i)))"

text \<open>The outcome of a run that ends at a busy mailbox, with the head \<open>i\<close> of what is left.\<close>

definition put_off :: "qdma_mbox \<Rightarrow> qdma_mbox \<Rightarrow> nat \<Rightarrow> nat list \<Rightarrow> bool" where
  "put_off s s' i rest \<longleftrightarrow>
     (if \<not> waiting s i \<and> tries s i = 1 then mb_tx_todo s' = rest
      else mb_tx_todo s' = i # rest \<and> mb_send_busy s' \<and> mb_timer s' \<and> mb_msgs s' i \<noteq> None \<and> waiting s' i = waiting s i \<and>
        (\<not> waiting s i \<longrightarrow> mm_retry_cnt (the (mb_msgs s' i)) = mm_retry_cnt (the (mb_msgs s i)) - 1))"

lemma tx_work_run:
  assumes "mbox_ok s" "\<not> mb_offline s"
  shows "\<exists>s' sent rest. mbox_tx_work env s = Some s' \<and> mbox_ok s' \<and> \<not> mb_offline s' \<and>
    mb_tx_todo s = sent @ rest \<and> mb_rx_pend s' = mb_rx_pend s @ filter (waiting s) sent \<and>
    (if rest = [] then mb_tx_todo s' = [] else put_off s s' (hd rest) (tl rest)) \<and>
    (\<forall>j\<in>set (tl rest). mb_msgs s' j = mb_msgs s j)"
  using assms
proof (induction "length (mb_tx_todo s)" arbitrary: s rule: less_induct)
  case less
  show ?case
  proof (cases "mb_tx_todo s")
    case Nil
    then have "mbox_tx_work env s = Some s" by (simp add: mbox_tx_work.simps)
    then show ?thesis using less.prems Nil by (intro exI [of _ s] exI [of _ "[]"]) simp
  next
    case (Cons i rest)
    then obtain m where m: "mb_msgs s i = Some m" using less.prems(1) by (auto simp: mbox_ok_def)
    obtain rv log where send: "qdma_mbox_send env False (mm_raw m) (mb_log s) = (rv, log)" by force
    note w = tx_work_cons [OF Cons m send]
    show ?thesis
    proof (cases "rv = 0")
      case True
      let ?s1 = "sent_on i rest log s"
      obtain s' sent rest' where r: "mbox_tx_work env ?s1 = Some s'" "mbox_ok s'" "\<not> mb_offline s'"
        "rest = sent @ rest'" "mb_rx_pend s' = mb_rx_pend ?s1 @ filter (waiting ?s1) sent"
        "if rest' = [] then mb_tx_todo s' = [] else put_off ?s1 s' (hd rest') (tl rest')"
        "\<forall>j\<in>set (tl rest'). mb_msgs s' j = mb_msgs ?s1 j"
        using less.hyps [of ?s1] sent_on_ok [OF less.prems(1) Cons] less.prems(2) Cons by auto
      have "i \<notin> set rest" using less.prems(1) Cons by (simp add: mbox_ok_def)
      then have eq: "mb_msgs ?s1 j = mb_msgs s j" if "j \<in> set rest" for j
        using that by (cases "j = i") auto
      then have same: "waiting ?s1 j = waiting s j" "tries ?s1 j = tries s j" if "j \<in> set rest" for j
        using that by (simp_all add: waiting_def tries_def)
      have pend: "mb_rx_pend s' = mb_rx_pend s @ filter (waiting s) (i # sent)"
        using r(5) same(1) r(4) by (auto simp: waiting_def cong: filter_cong)
      have left: "if rest' = [] then mb_tx_todo s' = [] else put_off s s' (hd rest') (tl rest')"
      proof (cases rest')
        case (Cons k ks)
        then have "k \<in> set rest" using r(4) by simp
        then show ?thesis using r(6) Cons same [of k] eq [of k] by (simp add: put_off_def)
      qed (use r(6) in simp)
      have tail: "\<forall>j\<in>set (tl rest'). mb_msgs s' j = mb_msgs s j"
        using r(4,7) eq by (cases rest') auto
      show ?thesis
        using w(1) [OF True] r(1-4) Cons pend left tail by (intro exI [of _ s'] exI [of _ "i # sent"] exI [of _ rest']) simp
    next
      case False
      have i: "i \<notin> set rest" using less.prems(1) Cons by (simp add: mbox_ok_def)
      show ?thesis
      proof (cases "\<not> mm_wait_resp m \<and> mm_retry_cnt m = 1")
        case True
        have "mbox_ok (msg_free i (s\<lparr>mb_log := log, mb_tx_todo := rest\<rparr>))"
          using less.prems(1) Cons by (auto simp: mbox_ok_def msg_free_def)
        then show ?thesis
          using w(3) [OF False less.prems(2)] True m Cons i less.prems(2)
          by (intro exI [of _ "msg_free i (s\<lparr>mb_log := log, mb_tx_todo := rest\<rparr>)"] exI [of _ "[]"] exI [of _ "i # rest"])
            (auto simp: put_off_def waiting_def tries_def msg_free_def)
      next
        case False2: False
        have "unat (mm_retry_cnt m) = 1 \<longleftrightarrow> mm_retry_cnt m = 1"
          by (metis unat_1 word_unat_eq_iff)
        then show ?thesis
          using w(4) [OF False less.prems(2)] False2 m Cons i less.prems
          by (intro exI [of _ "s\<lparr>mb_log := log, mb_send_busy := True, mb_timer := True, mb_msgs :=
              (mb_msgs s)(i \<mapsto> if mm_wait_resp m then m else m\<lparr>mm_retry_cnt := mm_retry_cnt m - 1\<rparr>)\<rparr>"]
              exI [of _ "[]"] exI [of _ "i # rest"])
            (auto simp: put_off_def waiting_def tries_def mbox_ok_def)
      qed
    qed
  qed
qed

end
