(* ===== verification/Mbox_Progress.thy ===== *)
theory Mbox_Progress
  imports Mbox_Transport
begin

text \<open>
  What the send work of the mailbox (\<^verbatim>\<open>libqdma/qdma_mbox.c\<close>) achieves over several runs: how
  often it has to run until the list is empty, and the cases in which it loses the list, a
  message or the memory of one.
\<close>

subsection \<open>Progress\<close>

text \<open>The send work run again and again, each time against another state of the hardware.\<close>

fun tx_runs :: "hw_env list \<Rightarrow> qdma_mbox \<Rightarrow> qdma_mbox option" where
  "tx_runs [] s = Some s"
| "tx_runs (env # envs) s =
     (case mbox_tx_work env s of None \<Rightarrow> None | Some s' \<Rightarrow> tx_runs envs s')"

text \<open>The runs a message can put the list off for: its counter, which wraps around at 0.\<close>

definition cost :: "qdma_mbox \<Rightarrow> nat \<Rightarrow> nat" where
  "cost s i = (if tries s i = 0 then 65536 else tries s i)"

lemma cost_pos [simp]: "cost s i \<noteq> 0"
  by (simp add: cost_def)

definition budget :: "qdma_mbox \<Rightarrow> nat" where
  "budget s = sum_list (map (cost s) (mb_tx_todo s))"

lemma tries_dec:
  assumes "mm_retry_cnt (the (mb_msgs s' i)) = mm_retry_cnt (the (mb_msgs s i)) - 1" "tries s i \<noteq> 1"
  shows "cost s' i = cost s i - 1"
proof -
  have "unat (0xFFFF :: u16) = 65535" "(- 1 :: u16) = 0xFFFF" by simp_all
  then have m: "unat (- 1 :: u16) = 65535" by (simp only:)
  have u: "unat (x - 1) = (if x = 0 then 65535 else unat x - 1)" for x :: u16
    using m by (cases "x = 0") (simp_all add: unat_minus_one)
  have "tries s' i = (if tries s i = 0 then 65535 else tries s i - 1)"
    unfolding tries_def assms(1) u by (simp add: unat_eq_zero)
  then show ?thesis using assms(2) by (cases "tries s i") (auto simp: cost_def)
qed

lemma tx_work_progress:
  assumes "mbox_ok s" "\<not> mb_offline s" "\<forall>i\<in>set (mb_tx_todo s). \<not> waiting s i"
  shows "\<exists>s'. mbox_tx_work env s = Some s' \<and> mbox_ok s' \<and> \<not> mb_offline s' \<and>
    (\<forall>i\<in>set (mb_tx_todo s'). \<not> waiting s' i) \<and> budget s' \<le> budget s - 1"
proof -
  obtain s' sent rest where r: "mbox_tx_work env s = Some s'" "mbox_ok s'" "\<not> mb_offline s'"
    "mb_tx_todo s = sent @ rest"
    "if rest = [] then mb_tx_todo s' = [] else put_off s s' (hd rest) (tl rest)"
    "\<forall>j\<in>set (tl rest). mb_msgs s' j = mb_msgs s j"
    using tx_work_run [OF assms(1,2), of env] by auto
  show ?thesis
  proof (cases rest)
    case Nil
    then show ?thesis using r by (intro exI [of _ s']) (simp add: budget_def)
  next
    case (Cons i ks)
    have w: "\<not> waiting s i" using assms(3) r(4) Cons by simp
    have same: "cost s' j = cost s j" "waiting s' j = waiting s j" if "j \<in> set ks" for j
      using that r(6) Cons by (simp_all add: cost_def tries_def waiting_def)
    then have ks: "sum_list (map (cost s') ks) = sum_list (map (cost s) ks)" by (simp cong: map_cong)
    have pos: "0 < cost s i" by (simp add: cost_def)
    have p: "put_off s s' i ks" using r(5) Cons by simp
    show ?thesis
    proof (cases "tries s i = 1")
      case True
      then have "mb_tx_todo s' = ks" using p w by (simp add: put_off_def)
      then show ?thesis using r(1-4) Cons same ks assms(3) pos
        by (intro exI [of _ s']) (auto simp: budget_def)
    next
      case False
      then have q: "mb_tx_todo s' = i # ks" "\<not> waiting s' i" "cost s' i = cost s i - 1"
        using p w tries_dec [of s' i s] by (simp_all add: put_off_def)
      then show ?thesis using r(1-4) Cons same ks assms(3) pos
        by (intro exI [of _ s']) (auto simp: budget_def)
    qed
  qed
qed

text \<open>
  C31: Every response leaves the queue. Whatever the hardware does, as long as the device is
  online and no queued message waits for a response, the send work never touches a freed
  message, and after as many runs as the messages have attempts left - 11 for each message with
  the driver's timeout - the list is empty: each message has been sent or given up.
\<close>

theorem send_queue_drains:
  assumes "mbox_ok s" "\<not> mb_offline s" "\<forall>i\<in>set (mb_tx_todo s). \<not> waiting s i" "budget s \<le> length envs"
  shows "\<exists>s'. tx_runs envs s = Some s' \<and> mb_tx_todo s' = []"
  using assms
proof (induction envs arbitrary: s)
  case Nil
  have "mb_tx_todo s = []"
    using Nil.prems(4) by (cases "mb_tx_todo s") (simp_all add: budget_def)
  then show ?case by simp
next
  case (Cons env envs)
  obtain s' where "mbox_tx_work env s = Some s'" "mbox_ok s'" "\<not> mb_offline s'"
    "\<forall>i\<in>set (mb_tx_todo s'). \<not> waiting s' i" "budget s' \<le> budget s - 1"
    using tx_work_progress [OF Cons.prems(1-3)] by blast
  then show ?case using Cons.IH [of s'] Cons.prems(4) by auto
qed

text \<open>
  A message that is given up takes the others with it. When the last attempt of a message
  fails the work item ends without arming the timer; in interrupt mode, where nothing else
  restarts it, the messages behind it stay in the list with no work queued and no timer armed,
  until somebody sends another message.
\<close>

theorem given_up_message_stalls_queue:
  assumes "mb_tx_todo s = i # rest" "rest \<noteq> []" "mb_msgs s i = Some m" "\<not> mm_wait_resp m" "mm_retry_cnt m = 1"
    and "\<not> mb_offline s" "\<not> mb_timer s" "\<not> mb_tx_queued s" "\<not> mb_rx_queued s"
    and "fst (qdma_mbox_send env False (mm_raw m) (mb_log s)) \<noteq> 0"
  shows "\<exists>s'. mbox_tx_work env s = Some s' \<and> mb_tx_todo s' = rest \<and> \<not> mb_timer s' \<and> \<not> mb_tx_queued s' \<and> \<not> mb_rx_queued s'"
proof -
  obtain rv log where "qdma_mbox_send env False (mm_raw m) (mb_log s) = (rv, log)" "rv \<noteq> 0"
    using assms(10) by (metis fst_conv prod.exhaust)
  then show ?thesis using tx_work_cons(3) [OF assms(1,3)] assms by (simp add: msg_free_def)
qed

text \<open>
  C32: An offline device leaves a freed message in the list. When the head of the list cannot be
  sent and the device is offline, the message is freed but not taken off the list, so the next
  run, whatever the hardware does, uses a freed message.
\<close>

theorem offline_send_uses_freed_message:
  assumes "mb_tx_todo s = i # rest" "mb_msgs s i = Some m" "mb_offline s"
    and "fst (qdma_mbox_send env False (mm_raw m) (mb_log s)) \<noteq> 0"
  shows "\<exists>s'. mbox_tx_work env s = Some s' \<and> mbox_tx_work env' s' = None"
proof -
  obtain rv log where "qdma_mbox_send env False (mm_raw m) (mb_log s) = (rv, log)" "rv \<noteq> 0"
    using assms(4) by (metis fst_conv prod.exhaust)
  then have "mbox_tx_work env s = Some (msg_free i (s\<lparr>mb_log := log\<rparr>))"
    using tx_work_cons(2) [OF assms(1,2)] assms(3) by simp
  moreover have "mbox_tx_work env' (msg_free i (s\<lparr>mb_log := log\<rparr>)) = None"
    using assms(1) by (simp add: mbox_tx_work.simps msg_free_def)
  ultimately show ?thesis by blast
qed

text \<open>
  C33: A response frees the message its sender waits for. When the physical function receives
  the response to one of its pending messages, the message is taken off the list and freed by
  the receive work, although the sender, which is woken by it, reads the message again: every
  wait of the physical function that succeeds ends in an access to freed memory.
\<close>

theorem response_frees_waited_message:
  assumes "find_request dec (mb_msgs s) rx (mb_rx_pend s) = Some (Some i)"
  shows "\<exists>s'. deliver_response dec rx s = Some s' \<and> msg_wait_done i s' = None"
proof -
  have "find_request dec msgs rx is = Some (Some i) \<Longrightarrow> i \<in> set is" for msgs "is"
    by (induction "is") (auto split: option.splits if_splits)
  then have "i \<in> set (mb_rx_pend s)" using assms by blast
  then show ?thesis using assms by (simp add: deliver_response_def list_del_def msg_free_def msg_wait_done_def)
qed

subsection \<open>Runs\<close>

definition demo_msg :: "bool \<Rightarrow> u16 \<Rightarrow> u32 list \<Rightarrow> mbox_msg" where
  "demo_msg w n raw = \<lparr>mm_wait_resp = w, mm_resp_op_matched = False, mm_retry_cnt = n, mm_raw = raw\<rparr>"

definition demo_mbox :: "(nat \<Rightarrow> mbox_msg option) \<Rightarrow> nat list \<Rightarrow> nat list \<Rightarrow> bool \<Rightarrow> qdma_mbox" where
  "demo_mbox msgs todo pend off =
     \<lparr>mb_msgs = msgs, mb_next = 2, mb_tx_todo = todo, mb_rx_pend = pend, mb_send_busy = False, mb_rx_poll = False,
      mb_timer = False, mb_tx_queued = False, mb_rx_queued = False, mb_offline = off, mb_reset_state = RESET_STATE_IDLE,
      mb_vf_info = [], mb_vf_count_online = 0, mb_rm = rm_init, mb_log = []\<rparr>"

definition header_dec :: "u32 list \<Rightarrow> qdma_mbox_txrx" where
  "header_dec raw = zero_msg\<lparr>m_hdr := \<lparr>h_op = raw_op raw, h_status = 0, h_src = raw_src raw, h_dst = raw_dst raw\<rparr>\<rparr>"

definition busy_hw :: hw_env where "busy_hw s a = F_MBOX_FN_STATUS_OUT_MSG"

lemma busy_send: "fst (qdma_mbox_send busy_hw vf raw s) \<noteq> 0"
  by (simp add: qdma_mbox_send_def qdma_reg_read_def busy_hw_def F_MBOX_FN_STATUS_OUT_MSG_def S_MBOX_FN_STATUS_OUT_MSG_def)

theorem send_queue_drains_witness:
  "\<exists>s'. tx_runs (replicate 22 busy_hw)
     (demo_mbox [0 \<mapsto> demo_msg False 11 [], 1 \<mapsto> demo_msg False 11 []] [0, 1] [] False) = Some s' \<and> mb_tx_todo s' = []"
  by (rule send_queue_drains)
    (auto simp: mbox_ok_def demo_mbox_def waiting_def demo_msg_def budget_def cost_def tries_def split: if_splits)

theorem given_up_message_stalls_queue_witness:
  "\<exists>s'. mbox_tx_work busy_hw
     (demo_mbox [0 \<mapsto> demo_msg False 1 [], 1 \<mapsto> demo_msg False 11 []] [0, 1] [] False) = Some s' \<and>
   mb_tx_todo s' = [1] \<and> \<not> mb_timer s' \<and> \<not> mb_tx_queued s' \<and> \<not> mb_rx_queued s'"
  by (rule given_up_message_stalls_queue [where i = 0 and m = "demo_msg False 1 []"])
    (simp_all add: demo_mbox_def demo_msg_def busy_send)

theorem offline_send_uses_freed_message_witness:
  "\<exists>s'. mbox_tx_work busy_hw (demo_mbox [0 \<mapsto> demo_msg False 11 []] [0] [] True) = Some s' \<and>
     mbox_tx_work (\<lambda>_ _. 0) s' = None"
  by (rule offline_send_uses_freed_message [where i = 0 and rest = "[]" and m = "demo_msg False 11 []"])
    (simp_all add: demo_mbox_def demo_msg_def busy_send)

theorem response_frees_waited_message_witness:
  "\<exists>s'. deliver_response header_dec [0x91, 0]
     (demo_mbox [1 \<mapsto> demo_msg True 11 [0x11, 0]] [] [1] False) = Some s' \<and> msg_wait_done 1 s' = None"
  by (rule response_frees_waited_message)
    (simp add: demo_mbox_def demo_msg_def header_dec_def raw_op_def qdma_mbox_is_msg_response_def MBOX_MSG_OP_RSP_OFFSET_def)

end
