(* ===== verification/Mbox_Steps.thy ===== *)
theory Mbox_Steps
  imports Mbox_Progress
begin

text \<open>
  The mailbox of the physical function (\<^verbatim>\<open>libqdma/qdma_mbox.c\<close>) as a transition system: the
  steps of the callers, of the two work items, of the timer and of the interrupt, in any order,
  and the invariant of the message lists that each of them keeps while the device is online.
\<close>

subsection \<open>The mailbox as a transition system\<close>

text \<open>
  The steps of a mailbox that stays online: a caller sends a message; a work item runs, each time
  against another state of the hardware; the timer expires; the mailbox interrupt arrives; a
  caller gives up waiting.
\<close>

inductive mbox_step :: "mbox_ctx \<Rightarrow> qdma_mbox \<Rightarrow> qdma_mbox \<Rightarrow> bool" for c where
  step_send: "qdma_mbox_msg_alloc (mc_alloc c) s = (Some i, s1) \<Longrightarrow>
     msg_submit i w t (store_raw i raw s1) = Some s2 \<Longrightarrow> mbox_step c s s2"
| step_tx: "mb_tx_queued s \<Longrightarrow> mbox_tx_work env (s\<lparr>mb_tx_queued := False\<rparr>) = Some s' \<Longrightarrow> mbox_step c s s'"
| step_rx: "mb_rx_queued s \<Longrightarrow> mbox_rx_work (c\<lparr>mc_env := env\<rparr>) (s\<lparr>mb_rx_queued := False\<rparr>) = Some (Some s') \<Longrightarrow>
     mbox_step c s s'"
| step_timer: "mb_timer s \<Longrightarrow> mbox_step c s (mbox_timer_handler s)"
| step_intr: "mbox_step c s (s\<lparr>mb_rx_queued := True\<rparr>)"
| step_timeout: "i \<in> set (mb_tx_todo s) \<or> i \<in> set (mb_rx_pend s) \<Longrightarrow> waiting s i \<Longrightarrow>
     msg_wait_done i s = Some (rv, s') \<Longrightarrow> mbox_step c s s'"

inductive mbox_reach :: "mbox_ctx \<Rightarrow> qdma_mbox \<Rightarrow> bool" for c where
  reach_init: "mb_msgs s = (\<lambda>_. None) \<Longrightarrow> \<not> mb_offline s \<Longrightarrow> qdma_mbox_init env wq has_intr polled s = (0, s') \<Longrightarrow>
     mbox_reach c s'"
| reach_step: "mbox_reach c s \<Longrightarrow> mbox_step c s s' \<Longrightarrow> mbox_reach c s'"

inductive_cases mbox_stepE: "mbox_step c s s'"

subsection \<open>What every step keeps\<close>

lemma mbox_ok_cong:
  "mb_msgs s' = mb_msgs s \<Longrightarrow> mb_next s' = mb_next s \<Longrightarrow> mb_tx_todo s' = mb_tx_todo s \<Longrightarrow>
   mb_rx_pend s' = mb_rx_pend s \<Longrightarrow> mbox_ok s' = mbox_ok s"
  by (simp add: mbox_ok_def)

text \<open>A message that has just been allocated is on no list; sending or freeing it keeps the lists.\<close>

definition fresh :: "nat \<Rightarrow> qdma_mbox \<Rightarrow> bool" where
  "fresh i s \<longleftrightarrow> mb_msgs s i \<noteq> None \<and> i < mb_next s \<and> i \<notin> set (mb_tx_todo s @ mb_rx_pend s)"

lemma alloc_ok:
  assumes "mbox_ok s" "qdma_mbox_msg_alloc al s = (r, s1)"
  shows "mbox_ok s1" "r = Some i \<Longrightarrow> fresh i s1" "mb_offline s1 = mb_offline s"
proof -
  let ?n = "mb_next s"
  have n: "?n \<notin> set (mb_tx_todo s)" "?n \<notin> set (mb_rx_pend s)" "dom (mb_msgs s) \<subseteq> {..<Suc ?n}"
    using assms(1) by (auto simp: mbox_ok_def subset_iff less_SucI)
  show "mbox_ok s1" "mb_offline s1 = mb_offline s"
    using assms n by (auto simp: qdma_mbox_msg_alloc_def mbox_ok_def Let_def subset_iff domIff split: if_splits)
  show "r = Some i \<Longrightarrow> fresh i s1"
    using assms(2) n by (auto simp: qdma_mbox_msg_alloc_def fresh_def Let_def split: if_splits)
qed

lemma store_raw_ok [simp]:
  "mbox_ok (store_raw i raw s) = mbox_ok s" "fresh j (store_raw i raw s) = fresh j s"
  "mb_offline (store_raw i raw s) = mb_offline s"
proof -
  have "dom (mb_msgs (store_raw i raw s)) = dom (mb_msgs s)"
    by (auto simp: store_raw_def split: if_splits)
  moreover have "j \<in> dom (mb_msgs s) \<Longrightarrow>
      mm_wait_resp (the (mb_msgs (store_raw i raw s) j)) = mm_wait_resp (the (mb_msgs s j))" for j
    by (auto simp: store_raw_def)
  moreover have "mb_next (store_raw i raw s) = mb_next s" "mb_tx_todo (store_raw i raw s) = mb_tx_todo s"
    "mb_rx_pend (store_raw i raw s) = mb_rx_pend s" by (simp_all add: store_raw_def)
  ultimately show "mbox_ok (store_raw i raw s) = mbox_ok s" by (auto simp: mbox_ok_def subset_iff)
  show "fresh j (store_raw i raw s) = fresh j s" "mb_offline (store_raw i raw s) = mb_offline s"
    by (auto simp: fresh_def store_raw_def)
qed

lemma submit_ok:
  assumes "mbox_ok s" "fresh i s"
  shows "\<exists>s'. msg_submit i w t s = Some s' \<and> mbox_ok s' \<and> mb_offline s' = mb_offline s"
  using assms by (auto simp: msg_submit_def mbox_ok_def fresh_def)

lemma free_fresh_ok:
  "mbox_ok s \<Longrightarrow> fresh i s \<Longrightarrow> mbox_ok (msg_free i s) \<and> mb_offline (msg_free i s) = mb_offline s"
  by (auto simp: mbox_ok_def fresh_def msg_free_def)

lemma find_request_alive:
  "set is \<subseteq> dom msgs \<Longrightarrow> \<exists>r. find_request dec msgs rx is = Some r \<and> (\<forall>i. r = Some i \<longrightarrow> i \<in> set is)"
  by (induction "is") (auto split: option.splits)

lemma deliver_ok:
  assumes "mbox_ok s" "fresh j s"
  shows "\<exists>s'. deliver_response dec rx s = Some s' \<and> mbox_ok s' \<and> fresh j s' \<and> mb_offline s' = mb_offline s"
proof -
  obtain r where r: "find_request dec (mb_msgs s) rx (mb_rx_pend s) = Some r" "\<forall>i. r = Some i \<longrightarrow> i \<in> set (mb_rx_pend s)"
    using find_request_alive [of "mb_rx_pend s" "mb_msgs s" dec rx] assms(1) by (force simp: mbox_ok_def)
  show ?thesis
  proof (cases r)
    case None
    then show ?thesis using r assms by (simp add: deliver_response_def)
  next
    case (Some i)
    then have i: "i \<in> set (mb_rx_pend s)" "i \<noteq> j" using r(2) assms(2) by (auto simp: fresh_def)
    then show ?thesis using r(1) Some assms
      by (auto simp: deliver_response_def list_del_def msg_free_def mbox_ok_def fresh_def distinct_remove1
          dest: notin_set_remove1 in_set_remove1 [THEN iffD1])
  qed
qed

lemma sriov_frame [simp]:
  "mb_msgs (xdev_sriov_vf_offline vf s) = mb_msgs s" "mb_next (xdev_sriov_vf_offline vf s) = mb_next s"
  "mb_tx_todo (xdev_sriov_vf_offline vf s) = mb_tx_todo s" "mb_rx_pend (xdev_sriov_vf_offline vf s) = mb_rx_pend s"
  "mb_offline (xdev_sriov_vf_offline vf s) = mb_offline s"
  "mb_msgs (snd (xdev_sriov_vf_online vf s)) = mb_msgs s" "mb_next (snd (xdev_sriov_vf_online vf s)) = mb_next s"
  "mb_tx_todo (snd (xdev_sriov_vf_online vf s)) = mb_tx_todo s"
  "mb_rx_pend (snd (xdev_sriov_vf_online vf s)) = mb_rx_pend s"
  "mb_offline (snd (xdev_sriov_vf_online vf s)) = mb_offline s"
  by (simp_all add: xdev_sriov_vf_offline_def xdev_sriov_vf_online_def Let_def split: option.split)

lemma sriov_ok [simp]:
  "mbox_ok (xdev_sriov_vf_offline vf s) = mbox_ok s" "mbox_ok (snd (xdev_sriov_vf_online vf s)) = mbox_ok s"
  "fresh i (xdev_sriov_vf_offline vf s) = fresh i s" "fresh i (snd (xdev_sriov_vf_online vf s)) = fresh i s"
  by (simp_all add: mbox_ok_def fresh_def)

lemma rm_log_ok [simp]:
  "mbox_ok (s\<lparr>mb_rm := rm\<rparr>) = mbox_ok s" "fresh i (s\<lparr>mb_rm := rm\<rparr>) = fresh i s"
  "mbox_ok (s\<lparr>mb_log := log\<rparr>) = mbox_ok s" "fresh i (s\<lparr>mb_log := log\<rparr>) = fresh i s"
  by (simp_all add: mbox_ok_def fresh_def)

text \<open>The handler's run for a received message.\<close>

definition handle :: "mbox_ctx \<Rightarrow> u32 list \<Rightarrow> qdma_mbox \<Rightarrow> (int \<times> qdma_mbox_txrx \<times> rm_state \<times> hw_log) option" where
  "handle c rx s = qdma_mbox_pf_rcv_msg_handler (Some (mc_env c)) (mc_rm_alloc c) (mc_idx c) (ucast (mc_func c))
     (Some (mc_dec c rx)) (mc_dec c (replicate 32 0)) (mb_rm s) (mb_log s)"

lemma alloc_frame [simp]:
  "qdma_mbox_msg_alloc al s = (r, s1) \<Longrightarrow> handle c rx s1 = handle c rx s"
  by (auto simp: qdma_mbox_msg_alloc_def handle_def Let_def split: if_splits)

text \<open>Receiving one message is safe as far as the handler is.\<close>

lemma rcv_one_ok:
  assumes "mbox_ok s"
    and "handle c rx s \<noteq> None"
  shows "\<exists>rv s'. mbox_rcv_one_msg c rx s = Some (rv, s') \<and> mbox_ok s' \<and> mb_offline s' = mb_offline s"
proof -
  obtain r s1 where a: "qdma_mbox_msg_alloc (mc_alloc c) s = (r, s1)" by force
  note a1 = alloc_ok [OF assms(1) a]
  show ?thesis
  proof (cases r)
    case None
    then show ?thesis using a a1 by (simp add: mbox_rcv_one_msg_def)
  next
    case (Some i)
    obtain rv resp rm log where h: "qdma_mbox_pf_rcv_msg_handler (Some (mc_env c)) (mc_rm_alloc c) (mc_idx c)
        (ucast (mc_func c)) (Some (mc_dec c rx)) (mc_dec c (replicate 32 0)) (mb_rm s1) (mb_log s1) = Some (rv, resp, rm, log)"
      using assms(2) alloc_frame [OF a, of c rx] unfolding handle_def by fastforce
    let ?s2 = "store_raw i (mc_enc c resp) (s1\<lparr>mb_rm := rm, mb_log := log\<rparr>)"
    have f: "mbox_ok ?s2" "fresh i ?s2" "mb_offline ?s2 = mb_offline s" using a1 Some by simp_all
    let ?vf = "qdma_mbox_vf_func_id_get (mc_dec c rx) False"
    have resp: "\<exists>s'. respond i x = Some s' \<and> mbox_ok s' \<and> mb_offline s' = mb_offline s"
      if "mbox_ok x" "fresh i x" "mb_offline x = mb_offline s" for x
      using submit_ok [OF that(1,2)] that(3) by (simp add: respond_def)
    have free: "mbox_ok (msg_free i x) \<and> mb_offline (msg_free i x) = mb_offline s"
      if "mbox_ok x" "fresh i x" "mb_offline x = mb_offline s" for x
      using free_fresh_ok [OF that(1,2)] that(3) by simp
    obtain s3 where d: "deliver_response (mc_dec c) rx ?s2 = Some s3" "mbox_ok s3" "fresh i s3" "mb_offline s3 = mb_offline s"
      using deliver_ok [OF f(1,2), of "mc_dec c" rx] f(3) by auto
    consider "rv = QDMA_MBOX_VF_OFFLINE" | "rv = QDMA_MBOX_VF_RESET_BYE" | "rv = QDMA_MBOX_VF_ONLINE"
      | "rv \<in> {QDMA_MBOX_VF_RESET, QDMA_MBOX_PF_RESET_DONE, QDMA_MBOX_PF_BYE}"
      | "rv \<notin> {QDMA_MBOX_VF_OFFLINE, QDMA_MBOX_VF_RESET_BYE, QDMA_MBOX_VF_ONLINE, QDMA_MBOX_VF_RESET,
           QDMA_MBOX_PF_RESET_DONE, QDMA_MBOX_PF_BYE}" by blast
    then show ?thesis
    proof cases
      case 1
      then show ?thesis using a Some h free [of "xdev_sriov_vf_offline ?vf ?s2"] f
        by (simp add: mbox_rcv_one_msg_def mbox_ret_defs Let_def)
    next
      case 2
      then show ?thesis using a Some h resp [of "xdev_sriov_vf_offline ?vf ?s2"] f
        by (auto simp: mbox_rcv_one_msg_def mbox_ret_defs Let_def)
    next
      case 3
      then show ?thesis using a Some h resp [of "snd (xdev_sriov_vf_online ?vf ?s2)"] f
        by (auto simp: mbox_rcv_one_msg_def mbox_ret_defs Let_def)
    next
      case 4
      then show ?thesis using a Some h d free [OF d(2-4)]
        by (auto simp: mbox_rcv_one_msg_def mbox_ret_defs Let_def)
    next
      case 5
      then show ?thesis using a Some h resp [of ?s2] f
        by (auto simp: mbox_rcv_one_msg_def Let_def)
    qed
  qed
qed

lemma rcv_one_keeps:
  assumes "mbox_rcv_one_msg c rx s = Some (rv, s')" "mbox_ok s"
  shows "mbox_ok s' \<and> mb_offline s' = mb_offline s"
proof -
  obtain r s1 where a: "qdma_mbox_msg_alloc (mc_alloc c) s = (r, s1)" by force
  show ?thesis
  proof (cases "r = None")
    case True
    then show ?thesis using assms a alloc_ok [OF assms(2) a] by (simp add: mbox_rcv_one_msg_def)
  next
    case False
    have "handle c rx s \<noteq> None"
    proof
      assume "handle c rx s = None"
      then have "mbox_rcv_one_msg c rx s = None"
        using a False alloc_frame [OF a, of c rx] by (auto simp: mbox_rcv_one_msg_def handle_def)
      then show False using assms(1) by simp
    qed
    then show ?thesis using rcv_one_ok [OF assms(2)] assms(1) by fastforce
  qed
qed

lemma rx_loop_keeps:
  assumes "rx_loop c s = Some r"
  shows "\<forall>rv s'. r = Some (rv, s') \<longrightarrow> mbox_ok s \<longrightarrow> mbox_ok s' \<and> mb_offline s' = mb_offline s"
proof (rule rx_loop.raw_induct [where P = "\<lambda>c s r. \<forall>rv s'. r = Some (rv, s') \<longrightarrow> mbox_ok s \<longrightarrow>
    mbox_ok s' \<and> mb_offline s' = mb_offline s", OF _ assms], intro allI impI)
  fix loop c s r rv s'
  assume IH: "\<And>c s r. loop c s = Some r \<Longrightarrow> \<forall>rv s'. r = Some (rv, s') \<longrightarrow> mbox_ok s \<longrightarrow>
      mbox_ok s' \<and> mb_offline s' = mb_offline s"
    and body: "(case qdma_mbox_rcv (mc_env c) False (replicate 32 0) (mb_log s) of
        (rv, raw, log) \<Rightarrow>
          (let s1 = s\<lparr>mb_log := log\<rparr> in
           if rv \<noteq> 0 \<or> mb_offline s1 then Some (Some (rv, s1))
           else (case mbox_rcv_one_msg c raw s1 of
               None \<Rightarrow> Some None
             | Some (rv1, s2) \<Rightarrow> if rv1 = - EINVAL then Some (Some (rv, s2)) else loop c s2))) = Some r"
    and r: "r = Some (rv, s')" and ok: "mbox_ok s"
  obtain v raw log where rcv: "qdma_mbox_rcv (mc_env c) False (replicate 32 0) (mb_log s) = (v, raw, log)"
    by (metis prod_cases3)
  let ?s1 = "s\<lparr>mb_log := log\<rparr>"
  show "mbox_ok s' \<and> mb_offline s' = mb_offline s"
  proof (cases "v \<noteq> 0 \<or> mb_offline ?s1")
    case True
    then have "s' = ?s1" using body rcv r by (auto split: if_splits)
    then show ?thesis using ok by simp
  next
    case False
    then obtain v1 s2 where one: "mbox_rcv_one_msg c raw ?s1 = Some (v1, s2)"
      using body rcv r by (auto split: option.splits)
    then have k: "mbox_ok s2" "mb_offline s2 = mb_offline s" using rcv_one_keeps [OF one] ok by simp_all
    show ?thesis
    proof (cases "v1 = - EINVAL")
      case True
      then have "s' = s2" using body rcv False one r by (auto split: if_splits)
      then show ?thesis using k by simp
    next
      case False2: False
      then have "loop c s2 = Some r" using body rcv False one by auto
      then show ?thesis using IH [of c s2 r] r k by simp
    qed
  qed
qed

lemma rx_work_keeps:
  assumes "mbox_rx_work c s = Some (Some s')" "mbox_ok s"
  shows "mbox_ok s' \<and> mb_offline s' = mb_offline s"
proof -
  obtain rv s1 where l: "rx_loop c s = Some (Some (rv, s1))"
    "mb_msgs s' = mb_msgs s1" "mb_next s' = mb_next s1" "mb_tx_todo s' = mb_tx_todo s1"
    "mb_rx_pend s' = mb_rx_pend s1" "mb_offline s' = mb_offline s1"
    using assms(1)
    by (auto simp: mbox_rx_work_def mbox_timer_start_def mbox_timer_stop_def Let_def split: if_splits)
  then have "mbox_ok s1 \<and> mb_offline s1 = mb_offline s" using rx_loop_keeps [OF l(1)] assms(2) by blast
  then show ?thesis using mbox_ok_cong [OF l(2-5)] l(6) by simp
qed

lemma wait_done_keeps:
  assumes "msg_wait_done i s = Some (rv, s')" "mbox_ok s"
  shows "mbox_ok s' \<and> mb_offline s' = mb_offline s"
proof -
  consider "s' = s" | "s' = s\<lparr>mb_tx_todo := remove1 i (mb_tx_todo s), mb_rx_pend := remove1 i (mb_rx_pend s)\<rparr>"
    using assms(1) by (auto simp: msg_wait_done_def list_del_def split: option.splits if_splits)
  then show ?thesis
    by cases (use assms(2) set_remove1_subset [of i "mb_tx_todo s"] set_remove1_subset [of i "mb_rx_pend s"]
      in \<open>auto simp: mbox_ok_def distinct_remove1 subset_iff domIff\<close>)
qed

lemma queued_ok [simp]:
  "mbox_ok (s\<lparr>mb_tx_queued := b\<rparr>) = mbox_ok s" "mbox_ok (s\<lparr>mb_rx_queued := b\<rparr>) = mbox_ok s"
  "mbox_ok (mbox_timer_handler s) = mbox_ok s" "mb_offline (mbox_timer_handler s) = mb_offline s"
  by (simp_all add: mbox_ok_def mbox_timer_handler_def)

lemma msg_submit_keeps:
  "msg_submit i w t s = Some s' \<Longrightarrow> mbox_ok s \<Longrightarrow> fresh i s \<Longrightarrow> mbox_ok s' \<and> mb_offline s' = mb_offline s"
  using submit_ok [of s i w t] by auto

lemma step_keeps:
  assumes "mbox_step c s s'" "mbox_ok s" "\<not> mb_offline s"
  shows "mbox_ok s' \<and> \<not> mb_offline s'"
  using assms(1)
proof cases
  case step_send
  note a = alloc_ok [OF assms(2) step_send(1)]
  show ?thesis using msg_submit_keeps [OF step_send(2)] a assms(3) by simp
next
  case (step_tx env)
  then show ?thesis using tx_work_run [of "s\<lparr>mb_tx_queued := False\<rparr>" env] assms(2,3) by auto
next
  case step_rx
  then show ?thesis using rx_work_keeps [OF step_rx(2)] assms(2,3) by simp
next
  case step_timeout
  then show ?thesis using wait_done_keeps [OF step_timeout(3)] assms(2,3) by simp
qed (use assms(2,3) in simp_all)

lemma reach_ok: "mbox_reach c s \<Longrightarrow> mbox_ok s \<and> \<not> mb_offline s"
proof (induction rule: mbox_reach.induct)
  case (reach_init s env wq has_intr polled s')
  then show ?case
    by (auto simp: qdma_mbox_init_def mbox_ok_def Let_def ENOMEM_def split: if_splits)
next
  case (reach_step s s')
  then show ?case using step_keeps by blast
qed

text \<open>
  C29: The work items use no freed message while the device is online, when each work item and
  each call runs as a whole. In every state the mailbox reaches by such steps - callers sending,
  the work items running, the timer and the interrupt firing, a caller whose message is still on
  a list giving up, in any order and against any hardware - no message is on a list twice or on
  both lists, a caller can give up any listed message without a fault, every message on the
  pending list is waiting for a response, the send work never reads a freed message, and the
  receive work fails only if the message handler does. Steps that are left out: a caller giving
  up a message that was already answered, and one whose time runs out in the middle of the
  send work; both go wrong, and each is a property of its own.
\<close>

theorem mailbox_lists_sound:
  assumes "mbox_reach c s"
  shows "distinct (mb_tx_todo s @ mb_rx_pend s) \<and>
    mbox_tx_work env s \<noteq> None \<and>
    (mbox_rcv_one_msg c rx s = None \<longrightarrow> handle c rx s = None) \<and>
    (\<forall>i\<in>set (mb_tx_todo s @ mb_rx_pend s). msg_wait_done i s \<noteq> None) \<and>
    (\<forall>i\<in>set (mb_rx_pend s). waiting s i)"
proof (intro conjI ballI impI)
  have ok: "mbox_ok s" "\<not> mb_offline s" using reach_ok [OF assms] by simp_all
  show "distinct (mb_tx_todo s @ mb_rx_pend s)" using ok by (simp add: mbox_ok_def)
  show "mbox_tx_work env s \<noteq> None" using tx_work_run [OF ok, of env] by auto
  show "mbox_rcv_one_msg c rx s = None \<Longrightarrow> handle c rx s = None"
    using rcv_one_ok [OF ok(1), of c rx] by (metis option.distinct(1))
  fix i
  show "i \<in> set (mb_tx_todo s @ mb_rx_pend s) \<Longrightarrow> msg_wait_done i s \<noteq> None"
    using ok by (auto simp: mbox_ok_def msg_wait_done_def list_del_def split: option.split)
  show "i \<in> set (mb_rx_pend s) \<Longrightarrow> waiting s i" using ok by (simp add: mbox_ok_def waiting_def)
qed

definition demo_ctx :: mbox_ctx where
  "demo_ctx = \<lparr>mc_env = (\<lambda>_ _. 0), mc_alloc = (\<lambda>_. True), mc_rm_alloc = (\<lambda>_. True), mc_dec = header_dec,
     mc_enc = (\<lambda>_. replicate 32 0), mc_idx = 0, mc_func = 0\<rparr>"

theorem mailbox_lists_sound_witness:
  "\<exists>s. mbox_reach demo_ctx s \<and> mb_tx_todo s = [2] \<and> mbox_tx_work busy_hw s \<noteq> None"
proof -
  let ?s0 = "demo_mbox (\<lambda>_. None) [] [] False"
  obtain s1 where s1: "qdma_mbox_init (\<lambda>_ _. 0) True False False ?s0 = (0, s1)"
    "mb_msgs s1 = (\<lambda>_. None)" "mb_next s1 = 2" "mb_tx_todo s1 = []"
    by (simp add: qdma_mbox_init_def demo_mbox_def Let_def)
  have r: "mbox_reach demo_ctx s1"
    by (rule reach_init [OF _ _ s1(1)]) (simp_all add: demo_mbox_def)
  obtain s2 where a: "qdma_mbox_msg_alloc (mc_alloc demo_ctx) s1 = (Some 2, s2)" "mb_msgs s2 2 = Some blank_msg" "mb_tx_todo s2 = []"
    using s1 by (simp add: qdma_mbox_msg_alloc_def demo_ctx_def Let_def)
  obtain s3 where b: "msg_submit 2 False 10000 (store_raw 2 [] s2) = Some s3" "mb_tx_todo s3 = [2]"
    using a(2,3) by (simp add: msg_submit_def store_raw_def)
  have "mbox_reach demo_ctx s3" by (rule reach_step [OF r step_send [OF a(1) b(1)]])
  then show ?thesis using mailbox_lists_sound [of demo_ctx s3 busy_hw] b(2) by blast
qed

end
