(* ===== verification/Mbox_Race.thy ===== *)
theory Mbox_Race
  imports Mbox_Steps
begin

text \<open>
  The send work of the mailbox (\<^verbatim>\<open>mbox_tx_work\<close> of \<^verbatim>\<open>libqdma/qdma_mbox.c\<close>) at the grain of its
  lock sections: it holds \<^verbatim>\<open>list_lock\<close> while it picks the first message, while it removes it
  from the list and while it appends it to the other one, but not in between. Run without
  interruption it is the function \<open>mbox_tx_work\<close> of theory Mbox_Transport; a caller whose wait
  ends between two sections breaks it.
\<close>

subsection \<open>The steps of the send work\<close>

datatype tx_pc =
    Tx_check
  | Tx_picked nat
  | Tx_sent nat
  | Tx_unlinked nat
  | Tx_refused nat
  | Tx_done

text \<open>
  One step: a lock section, or what is done between two of them. \<open>None\<close>: the step reads a
  freed message, or removes a message that is on no list.
\<close>

fun tx_micro :: "hw_env \<Rightarrow> tx_pc \<times> qdma_mbox \<Rightarrow> (tx_pc \<times> qdma_mbox) option" where
  "tx_micro env (Tx_check, s) =
     (case mb_tx_todo s of [] \<Rightarrow> Some (Tx_done, s) | i # _ \<Rightarrow> Some (Tx_picked i, s))"
| "tx_micro env (Tx_picked i, s) =
     (case mb_msgs s i of
        None \<Rightarrow> None
      | Some m \<Rightarrow>
          (let (rv, log) = qdma_mbox_send env False (mm_raw m) (mb_log s) in
           if rv = 0 then Some (Tx_sent i, s\<lparr>mb_log := log, mb_send_busy := False\<rparr>)
           else Some (Tx_refused i, s\<lparr>mb_log := log\<rparr>)))"
| "tx_micro env (Tx_sent i, s) =
     (case list_del i s of None \<Rightarrow> None | Some s1 \<Rightarrow> Some (Tx_unlinked i, s1))"
| "tx_micro env (Tx_unlinked i, s) =
     (case mb_msgs s i of
        None \<Rightarrow> None
      | Some m \<Rightarrow>
          Some (Tx_check, if mm_wait_resp m then s\<lparr>mb_rx_pend := mb_rx_pend s @ [i]\<rparr> else msg_free i s))"
| "tx_micro env (Tx_refused i, s) =
     (if mb_offline s then Some (Tx_done, msg_free i s)
      else
        (case mb_msgs s i of
           None \<Rightarrow> None
         | Some m \<Rightarrow>
             (let m1 = (if mm_wait_resp m then m else m\<lparr>mm_retry_cnt := mm_retry_cnt m - 1\<rparr>);
                  s1 = s\<lparr>mb_msgs := (mb_msgs s)(i \<mapsto> m1)\<rparr> in
              if \<not> mm_wait_resp m \<and> mm_retry_cnt m1 = 0
              then (case list_del i s1 of None \<Rightarrow> None | Some s2 \<Rightarrow> Some (Tx_done, msg_free i s2))
              else Some (Tx_done, s1\<lparr>mb_send_busy := True, mb_timer := True\<rparr>))))"
| "tx_micro env (Tx_done, s) = Some (Tx_done, s)"

fun tx_micros :: "hw_env \<Rightarrow> nat \<Rightarrow> tx_pc \<times> qdma_mbox \<Rightarrow> (tx_pc \<times> qdma_mbox) option" where
  "tx_micros env 0 x = Some x"
| "tx_micros env (Suc n) x = (case tx_micro env x of None \<Rightarrow> None | Some y \<Rightarrow> tx_micros env n y)"

lemma tx_micros_add:
  "tx_micros env (m + n) x = (case tx_micros env m x of None \<Rightarrow> None | Some y \<Rightarrow> tx_micros env n y)"
  by (induction m arbitrary: x) (auto split: option.split)

subsection \<open>Without interruption\<close>

text \<open>A message that can be sent takes four steps.\<close>

lemma four_steps:
  assumes "mbox_ok s" "mb_tx_todo s = i # rest" "mb_msgs s i = Some m"
    and "qdma_mbox_send env False (mm_raw m) (mb_log s) = (0, log)"
  shows "tx_micros env 4 (Tx_check, s) = Some (Tx_check, sent_on i rest log s)"
proof -
  have "i \<notin> set (mb_rx_pend s)" using assms(1,2) by (auto simp: mbox_ok_def)
  then have r: "remove1 i (mb_rx_pend s) = mb_rx_pend s" by (rule remove1_idem)
  show ?thesis
    using assms(2-4) r by (simp add: numeral_eq_Suc list_del_def sent_on_def Let_def msg_free_def)
qed

lemma refused_steps:
  assumes "mbox_ok s" "mb_tx_todo s = i # rest" "mb_msgs s i = Some m"
    and "qdma_mbox_send env False (mm_raw m) (mb_log s) = (rv, log)" "rv \<noteq> 0"
  shows "\<exists>s'. mbox_tx_work env s = Some s' \<and> tx_micros env 3 (Tx_check, s) = Some (Tx_done, s')"
proof -
  have "i \<notin> set (mb_rx_pend s)" using assms(1,2) by (auto simp: mbox_ok_def)
  then have r: "remove1 i (mb_rx_pend s) = mb_rx_pend s" by (rule remove1_idem)
  have d: "mm_retry_cnt m - 1 = 0 \<longleftrightarrow> mm_retry_cnt m = 1" by simp
  note w = tx_work_cons [OF assms(2-4)]
  consider (offline) "mb_offline s" | (last) "\<not> mb_offline s" "\<not> mm_wait_resp m" "mm_retry_cnt m = 1"
    | (again) "\<not> mb_offline s" "mm_wait_resp m \<or> mm_retry_cnt m \<noteq> 1" by blast
  then show ?thesis
  proof cases
    case offline
    then show ?thesis using w(2) assms(2-5) by (simp add: numeral_eq_Suc)
  next
    case last
    then show ?thesis using w(3) assms(2-5) r
      by (simp add: numeral_eq_Suc list_del_def msg_free_def Let_def)
  next
    case again
    then show ?thesis using w(4) assms(2-5) d
      by (auto simp add: numeral_eq_Suc Let_def)
  qed
qed

lemma tx_work_micros:
  assumes "mbox_ok s" "mbox_tx_work env s = Some s'"
  shows "\<exists>n. tx_micros env n (Tx_check, s) = Some (Tx_done, s')"
  using assms
proof (induction "length (mb_tx_todo s)" arbitrary: s rule: less_induct)
  case less
  show ?case
  proof (cases "mb_tx_todo s")
    case Nil
    then have "s' = s" using less.prems(2) by (simp add: mbox_tx_work.simps)
    then show ?thesis using Nil by (intro exI [of _ 1]) simp
  next
    case (Cons i rest)
    then obtain m where m: "mb_msgs s i = Some m" using less.prems(1) by (auto simp: mbox_ok_def)
    obtain rv log where send: "qdma_mbox_send env False (mm_raw m) (mb_log s) = (rv, log)" by force
    show ?thesis
    proof (cases "rv = 0")
      case True
      have "mbox_tx_work env (sent_on i rest log s) = Some s'"
        using tx_work_cons(1) [OF Cons m send True] less.prems(2) by simp
      then obtain n where "tx_micros env n (Tx_check, sent_on i rest log s) = Some (Tx_done, s')"
        using less.hyps [of "sent_on i rest log s"] sent_on_ok [OF less.prems(1) Cons] Cons by auto
      then show ?thesis
        using four_steps [OF less.prems(1) Cons m] send True by (intro exI [of _ "4 + n"]) (simp only: tx_micros_add option.case)
    next
      case False
      then show ?thesis using refused_steps [OF less.prems(1) Cons m send False] less.prems(2) by auto
    qed
  qed
qed

subsection \<open>A caller that gives up in between\<close>

text \<open>
  C30: A timeout during a send corrupts the list. In every mailbox whose lists are sound, when a
  message that waits for a response is the next to be sent, nothing interrupts the send work's
  steps and they are the run of the whole work; but when its caller stops waiting after the
  work has picked the message and dropped the lock, the caller removes the message from the
  list and returns an error, and the work, on any hardware that takes the message, sends it all
  the same and then removes it from the list a second time; if the caller has freed the message
  by then, as callers do, the work reads freed memory.
\<close>

theorem timeout_races_with_send:
  assumes "mbox_ok s" "mb_tx_todo s = i # rest" "waiting s i" "\<not> mm_resp_op_matched (the (mb_msgs s i))"
    and "fst (qdma_mbox_send env False (mm_raw (the (mb_msgs s i))) (mb_log s)) = 0"
  shows "(\<forall>s'. mbox_tx_work env s = Some s' \<longrightarrow> (\<exists>n. tx_micros env n (Tx_check, s) = Some (Tx_done, s'))) \<and>
    tx_micro env (Tx_check, s) = Some (Tx_picked i, s) \<and>
    (\<exists>s1 s2. msg_wait_done i s = Some (- EPIPE, s1) \<and> i \<notin> set (mb_tx_todo s1 @ mb_rx_pend s1) \<and>
       tx_micro env (Tx_picked i, s1) = Some (Tx_sent i, s2) \<and> tx_micro env (Tx_sent i, s2) = None \<and>
       tx_micro env (Tx_picked i, msg_free i s1) = None)"
proof -
  obtain m where m: "mb_msgs s i = Some m" using assms(1,2) by (auto simp: mbox_ok_def)
  let ?s1 = "s\<lparr>mb_tx_todo := rest, mb_rx_pend := remove1 i (mb_rx_pend s)\<rparr>"
  let ?s2 = "?s1\<lparr>mb_log := snd (qdma_mbox_send env False (mm_raw m) (mb_log s)), mb_send_busy := False\<rparr>"
  have i: "i \<notin> set rest" "i \<notin> set (remove1 i (mb_rx_pend s))" using assms(1,2) by (auto simp: mbox_ok_def)
  have "msg_wait_done i s = Some (- EPIPE, ?s1)"
    using assms(2,4) m by (simp add: msg_wait_done_def list_del_def)
  moreover have "tx_micro env (Tx_picked i, ?s1) = Some (Tx_sent i, ?s2)"
    using assms(5) m by (simp add: case_prod_unfold Let_def)
  moreover have "tx_micro env (Tx_sent i, ?s2) = None" using i by (simp add: list_del_def)
  moreover have "tx_micro env (Tx_picked i, msg_free i ?s1) = None" by (simp add: msg_free_def)
  moreover have "i \<notin> set (mb_tx_todo ?s1 @ mb_rx_pend ?s1)" using i by simp
  ultimately show ?thesis using tx_work_micros [OF assms(1)] assms(2) by auto
qed

definition race_mbox :: qdma_mbox where
  "race_mbox = demo_mbox [0 \<mapsto> blank_msg\<lparr>mm_wait_resp := True, mm_retry_cnt := 11\<rparr>] [0] [] False"

theorem timeout_races_with_send_witness:
  "\<exists>s1 s2. msg_wait_done 0 race_mbox = Some (- EPIPE, s1) \<and>
     tx_micro (\<lambda>_ _. 0) (Tx_picked 0, s1) = Some (Tx_sent 0, s2) \<and> tx_micro (\<lambda>_ _. 0) (Tx_sent 0, s2) = None"
proof -
  have "mbox_ok race_mbox" "mb_tx_todo race_mbox = [0]" "waiting race_mbox 0"
    "\<not> mm_resp_op_matched (the (mb_msgs race_mbox 0))"
    "fst (qdma_mbox_send (\<lambda>_ _. 0) False (mm_raw (the (mb_msgs race_mbox 0))) (mb_log race_mbox)) = 0"
    by (simp_all add: mbox_ok_def race_mbox_def demo_mbox_def waiting_def blank_msg_def qdma_mbox_send_def
        qdma_reg_read_def Let_def)
  from timeout_races_with_send [OF this] show ?thesis by blast
qed

end
