(* ===== verification/Queue_Conf.thy ===== *)
theory Queue_Conf
  imports Soft_Csr
begin

text \<open>
  The data of the driver above the register access: the enumerations and the queue
  configuration of \<^verbatim>\<open>libqdma/libqdma_export.h\<close> and the part of \<^verbatim>\<open>struct xlnx_dma_dev\<close>
  (\<^verbatim>\<open>libqdma/xdev.h\<close>) that the queue operations use. Bit fields keep their width; a one-bit
  flag is a \<open>bool\<close>, and a function pointer is the \<open>bool\<close> that says whether it is set.
\<close>

subsection \<open>Enumerations\<close>

datatype qdma_drv_mode =
    AUTO_MODE
  | POLL_MODE
  | DIRECT_INTR_MODE
  | INDIRECT_INTR_MODE
  | LEGACY_INTR_MODE

datatype queue_type_t =
    Q_H2C
  | Q_C2H
  | Q_CMPT
  | Q_H2C_C2H

fun q_type_val :: "queue_type_t \<Rightarrow> u8" where
  "q_type_val Q_H2C = 0"
| "q_type_val Q_C2H = 1"
| "q_type_val Q_CMPT = 2"
| "q_type_val Q_H2C_C2H = 3"

datatype q_state_t =
    Q_STATE_DISABLED
  | Q_STATE_ENABLED
  | Q_STATE_ONLINE

datatype qdma_ip_type =
    QDMA_VERSAL_HARD_IP
  | QDMA_VERSAL_SOFT_IP
  | QDMA_SOFT_IP
  | EQDMA_SOFT_IP
  | QDMA_NONE_IP

datatype qdma_q_mode = QDMA_Q_MODE_MM | QDMA_Q_MODE_ST
datatype qdma_q_dir = QDMA_Q_DIR_H2C | QDMA_Q_DIR_C2H

definition DESC_SZ_8B :: "2 word" where "DESC_SZ_8B = 0"
definition DESC_SZ_16B :: "2 word" where "DESC_SZ_16B = 1"
definition DESC_SZ_32B :: "2 word" where "DESC_SZ_32B = 2"
definition DESC_SZ_64B :: "2 word" where "DESC_SZ_64B = 3"

definition TRIG_MODE_COMBO :: "3 word" where "TRIG_MODE_COMBO = 5"

definition QDMA_GLOBAL_CSR_ARRAY_SZ :: nat where "QDMA_GLOBAL_CSR_ARRAY_SZ = 16"

subsection \<open>The configuration of a queue\<close>

record qdma_queue_conf =
  qc_qidx :: "24 word"
  qc_st :: bool
  qc_q_type :: queue_type_t
  qc_irq_en :: bool
  qc_desc_rng_sz_idx :: "4 word"
  qc_wb_status_en :: bool
  qc_cmpl_status_acc_en :: bool
  qc_cmpl_status_pend_chk :: bool
  qc_desc_bypass :: bool
  qc_pfetch_en :: bool
  qc_fetch_credit :: bool
  qc_c2h_buf_sz_idx :: "4 word"
  qc_cmpl_rng_sz_idx :: "4 word"
  qc_cmpl_desc_sz :: "2 word"
  qc_cmpl_stat_en :: bool
  qc_cmpl_udd_en :: bool
  qc_cmpl_timer_idx :: "4 word"
  qc_cmpl_cnt_th_idx :: "4 word"
  qc_cmpl_trig_mode :: "3 word"
  qc_cmpl_en_intr :: bool
  qc_sw_desc_sz :: "2 word"
  qc_pfetch_bypass :: bool
  qc_cmpl_ovf_chk_dis :: bool
  qc_at :: bool
  qc_adaptive_rx :: bool
  qc_init_pidx_dis :: bool
  qc_mm_channel :: bool
  qc_pidx_acc :: u8
  qc_c2h_packet :: bool
  qc_bypass_desc_fill :: bool
  qc_rngsz :: u32
  qc_rngsz_cmpt :: u32
  qc_c2h_bufsz :: u32
  qc_ping_pong_en :: bool
  qc_aperture_size :: u32
  qc_latency_optimize :: bool
  qc_proc_ul_cmpt_entry :: bool

subsection \<open>The device\<close>

record global_csr_conf =
  gc_ring_sz :: "u32 list"
  gc_c2h_timer_cnt :: "u32 list"
  gc_c2h_cnt_th :: "u32 list"
  gc_c2h_buf_sz :: "u32 list"
  gc_wb_intvl :: u32

record intr_coal_conf =
  co_vec_id :: u16
  co_intr_ring_bus :: u64
  co_color :: u8

record xlnx_dma_dev =
  xd_drv_mode :: qdma_drv_mode
  xd_ip_type :: qdma_ip_type
  xd_csr_info :: global_csr_conf
  xd_sorted_c2h_cntr_idx :: "u8 list"
  xd_func_id :: u8
  xd_num_vecs :: int
  xd_dvec_start_idx :: int
  xd_data_msix_qvec_max :: u16
  xd_intr_list_cnt :: "int list"
  xd_intr_rngsz :: u8
  xd_intr_coal_list :: "intr_coal_conf list"
  xd_dev_cap :: qdma_dev_attributes
  xd_total_mm_h2c_pkts :: u64
  xd_total_mm_c2h_pkts :: u64
  xd_total_st_h2c_pkts :: u64
  xd_total_st_c2h_pkts :: u64
  xd_intr_moderation :: bool
  xd_ping_pong_lat_min :: u64
  xd_ping_pong_lat_max :: u64
  xd_ping_pong_lat_total :: u64

end
