(* ===== verification/Descq.thy ===== *)
theory Descq
  imports Queue_Conf
begin

text \<open>
  The descriptor queue (\<^verbatim>\<open>libqdma/qdma_descq.c\<close>, \<^verbatim>\<open>qdma_descq.h\<close>): the ring of descriptors
  with its producer and consumer index, the requests that wait to be submitted and those that
  wait for their descriptors to be completed, and the processing of memory mapped and of
  streaming host-to-card requests. A request is named by a number; the request with its call-back
  data is in \<open>dq_req\<close>. The two views of the ring memory, as memory mapped and as streaming
  descriptors, are kept apart; which one is in use depends on the queue. The status word the
  hardware writes and the descriptor writer of an upper-layer module are parameters. Every
  function here holds the lock of the queue while it runs. The wake-up of the completion thread
  and log output are not modelled.
\<close>

subsection \<open>Descriptors and requests\<close>

record qdma_mm_desc =
  md_src_addr :: u64
  md_flag_len :: u32
  md_dst_addr :: u64

record qdma_h2c_desc =
  hd_cdh_flags :: u16
  hd_pld_len :: u16
  hd_len :: u16
  hd_flags :: u16
  hd_src_addr :: u64

definition S_DESC_F_DV :: nat where "S_DESC_F_DV = 28"
definition S_DESC_F_SOP :: nat where "S_DESC_F_SOP = 29"
definition S_DESC_F_EOP :: nat where "S_DESC_F_EOP = 30"
definition S_H2C_DESC_F_SOP :: u16 where "S_H2C_DESC_F_SOP = 1"
definition S_H2C_DESC_F_EOP :: u16 where "S_H2C_DESC_F_EOP = 2"
definition S_H2C_DESC_F_ZERO_CDH :: u16 where "S_H2C_DESC_F_ZERO_CDH = 13"
definition QDMA_DESC_BLEN_MAX :: u32 where "QDMA_DESC_BLEN_MAX = push_bit 28 1 - 1"
definition PAGE_SIZE :: u32 where "PAGE_SIZE = 4096"

text \<open>\<open>sg_pg\<close> is the address of the page, 0 for none.\<close>

record qdma_sw_sg =
  sg_pg :: u64
  sg_offset :: u32
  sg_len :: u32
  sg_dma_addr :: u64

text \<open>A request with its call-back data; \<open>rq_fp_done\<close> says whether it has a completion call.\<close>

record qdma_request =
  rq_fp_done :: bool
  rq_count :: u32
  rq_ep_addr :: u64
  rq_write :: bool
  rq_dma_mapped :: bool
  rq_no_memcpy :: bool
  rq_check_qstate_disabled :: bool
  rq_sgl :: "qdma_sw_sg list"
  cb_desc_nr :: u32
  cb_offset :: u32
  cb_sg_offset :: u32
  cb_sg :: "nat option"
  cb_status :: int
  cb_done :: bool
  cb_unmap_needed :: bool
  cb_sg_idx :: u32
  cb_left :: u32

subsection \<open>The free list of a streaming card-to-host queue\<close>

text \<open>\<open>pg_base\<close> is the address of the page, 0 for none.\<close>

record qdma_sw_pg_sg =
  pg_base :: u64
  pg_dma_base_addr :: u64
  pg_offset :: u32

record qdma_sdesc_info =
  si_valid :: bool
  si_sop :: bool
  si_eop :: bool
  si_cidx :: u32

record qdma_flq =
  fl_size :: u32
  fl_desc_buf_size :: u32
  fl_num_pages :: u32
  fl_num_pgs_mask :: u32
  fl_num_bufs_per_pg :: u32
  fl_alloc_idx :: u32
  fl_recycle_idx :: u32
  fl_max_pg_offset :: u32
  fl_buf_pg_mask :: u32
  fl_desc_pg_order :: u8
  fl_desc_pg_shift :: u8
  fl_buf_pg_shift :: u8
  fl_udd_cnt :: u32
  fl_pkt_cnt :: u32
  fl_pkt_dlen :: u32
  fl_alloc_fail :: u64
  fl_mapping_err :: u64
  fl_pidx_pend :: u32
  fl_pg_sdesc :: "qdma_sw_pg_sg list"
  fl_sdesc :: "qdma_sw_sg list"
  fl_sdesc_info :: "qdma_sdesc_info list"

subsection \<open>The queue\<close>

text \<open>
  \<open>dq_c2h_ring\<close> holds the buffer address of each streaming card-to-host descriptor, \<open>dq_cmpt_cur\<close> the
  number of the completion entry that is read next; \<open>dq_desc\<close> and \<open>dq_desc_cmpt\<close> say whether the rings are
  allocated, \<open>dq_desc_list\<close> is the allocation the descriptor list of an upper-layer module points to and
  \<open>dq_freed\<close> the allocations that were freed. \<open>dq_reads\<close> counts the reads of the status word, \<open>dq_done\<close> lists the completion calls,
  \<open>dq_stamps\<close> the places a time stamp was written to, \<open>dq_unmaps\<close> the addresses given back to
  the DMA mapping, \<open>dq_copies\<close> the copies to the pages of a reader (target, source, length);
  \<open>dq_page_refs\<close> is the number of references the driver holds on or has handed out for a page and
  \<open>dq_allocs\<close> the number of allocations.
\<close>

record qdma_descq =
  dq_conf :: qdma_queue_conf
  dq_channel :: u8
  dq_proc_req_running :: bool
  dq_q_state :: q_state_t
  dq_qidx_hw :: u32
  dq_intr_id :: int
  dq_work_list :: "nat list"
  dq_work_req_pend :: u32
  dq_pend_list :: "nat list"
  dq_pend_list_empty :: bool
  dq_q_stop_wait :: bool
  dq_avail :: u32
  dq_pidx :: u32
  dq_cidx :: u32
  dq_credit :: u32
  dq_desc_bus :: u64
  dq_desc_cmpt_bus :: u64
  dq_cmpt_entry_len :: u8
  dq_pidx_cmpt :: u32
  dq_cidx_cmpt :: u32
  dq_total_cmpl_descs :: u64
  dq_desc_pend :: u8
  dq_pidx_info :: qdma_q_pidx_reg_info
  dq_cmpt_cidx_info :: qdma_q_cmpt_cidx_reg_info
  dq_c2h_pend_pkt_moving_avg :: u32
  dq_c2h_pend_pkt_avg_thr_hi :: u32
  dq_c2h_pend_pkt_avg_thr_lo :: u32
  dq_sorted_c2h_cntr_idx :: u8
  dq_c2h_cntr_monitor_cnt :: u8
  dq_err :: bool
  dq_color :: bool
  dq_ping_pong_rx_time :: u64
  dq_ping_pong_tx_time :: u64
  dq_flq :: qdma_flq
  dq_c2h_ring :: "u64 list"
  dq_cmpt_cur :: nat
  dq_desc :: bool
  dq_desc_cmpt :: bool
  dq_desc_list :: "nat option"
  dq_freed :: "nat list"
  dq_mm_ring :: "qdma_mm_desc list"
  dq_h2c_ring :: "qdma_h2c_desc list"
  dq_req :: "nat \<Rightarrow> qdma_request"
  dq_done :: "(nat \<times> u32 \<times> int) list"
  dq_stamps :: "u64 list"
  dq_unmaps :: "u64 list"
  dq_copies :: "(u64 \<times> u64 \<times> u32) list"
  dq_page_refs :: "u64 \<Rightarrow> int"
  dq_allocs :: nat
  dq_reads :: nat
  dq_log :: hw_log
  dq_xdev :: xlnx_dma_dev

text \<open>What the driver reads from a completion entry.\<close>

record qdma_ul_cmpt_info =
  ci_format :: bool
  ci_color :: bool
  ci_err :: bool
  ci_desc_used :: bool
  ci_eot :: bool
  ci_len :: u16
  ci_pidx :: u32

text \<open>
  The surroundings of a queue: the device registers, the consumer index in the status word the
  hardware writes, whether the driver is the one of a virtual function, the DMA mapping of a page
  (the address and whether it failed), the descriptor writer of an upper-layer module with the
  number of descriptors it wrote; for streaming card-to-host queues the producer index of the
  completion ring, the first word of each completion entry, how an upper-layer module reads and takes
  packets, the page allocator (page, DMA address, whether the mapping failed) with the memory
  allocator (whether it succeeds, and the bus address of a ring), and the time stamp at an address.
\<close>

record dq_env =
  de_hw :: hw_env
  de_status_cidx :: "qdma_descq \<Rightarrow> u16"
  de_vf :: bool
  de_map :: "u64 \<Rightarrow> u64 \<times> bool"
  de_cmpt_pidx :: "qdma_descq \<Rightarrow> u16"
  de_cmpt_entry :: "qdma_descq \<Rightarrow> nat \<Rightarrow> u64"
  de_ul_cmpt :: "qdma_descq \<Rightarrow> nat \<Rightarrow> int \<times> qdma_ul_cmpt_info"
  de_packet :: "u32 \<Rightarrow> int \<Rightarrow> nat \<Rightarrow> qdma_descq \<Rightarrow> int \<times> qdma_sw_sg list"
  de_alloc_page :: "nat \<Rightarrow> (u64 \<times> u64 \<times> bool) option"
  de_alloc :: "nat \<Rightarrow> bool"
  de_bus :: "nat \<Rightarrow> u64"
  de_time :: "u64 \<Rightarrow> u64"
  de_fill :: "qdma_q_mode \<Rightarrow> qdma_q_dir \<Rightarrow> nat \<Rightarrow> qdma_descq \<Rightarrow> int \<times> qdma_descq"

definition upd_req :: "nat \<Rightarrow> (qdma_request \<Rightarrow> qdma_request) \<Rightarrow> qdma_descq \<Rightarrow> qdma_descq" where
  "upd_req i f s = s\<lparr>dq_req := (dq_req s)(i := f (dq_req s i))\<rparr>"

definition is_ul_ext :: "qdma_queue_conf \<Rightarrow> bool" where
  "is_ul_ext c \<longleftrightarrow> qc_desc_bypass c \<and> qc_bypass_desc_fill c"

definition ring_idx_delta :: "u32 \<Rightarrow> u32 \<Rightarrow> u32 \<Rightarrow> u32" where
  "ring_idx_delta new old rngsz = (if new \<ge> old then new - old else new + (rngsz - old))"

definition ring_idx_incr :: "u32 \<Rightarrow> u32 \<Rightarrow> u32 \<Rightarrow> u32" where
  "ring_idx_incr idx cnt rngsz = (let idx = idx + cnt in if idx \<ge> rngsz then idx - rngsz else idx)"

definition ring_idx_decr :: "u32 \<Rightarrow> u32 \<Rightarrow> u32 \<Rightarrow> u32" where
  "ring_idx_decr idx cnt rngsz = (if idx \<ge> cnt then idx - cnt else rngsz - (cnt - idx))"

definition incr_pidx :: "u32 \<Rightarrow> u32 \<Rightarrow> u32 \<Rightarrow> u32" where
  "incr_pidx pidx incr_val ring_sz =
     (let pidx = pidx + incr_val in if pidx \<ge> ring_sz then pidx - ring_sz else pidx)"

definition qdma_work_queue_add :: "nat \<Rightarrow> qdma_descq \<Rightarrow> qdma_descq" where
  "qdma_work_queue_add i s =
     s\<lparr>dq_work_list := dq_work_list s @ [i], dq_work_req_pend := dq_work_req_pend s + 1\<rparr>"

definition qdma_work_queue_del :: "nat \<Rightarrow> qdma_descq \<Rightarrow> qdma_descq" where
  "qdma_work_queue_del i s =
     s\<lparr>dq_work_list := remove1 i (dq_work_list s), dq_work_req_pend := dq_work_req_pend s - 1\<rparr>"

subsection \<open>Where a request goes on\<close>

text \<open>The entry the offset lies in, with the offset inside it; the number of entries if there is none.\<close>

fun find_sg :: "u32 \<Rightarrow> nat \<Rightarrow> u32 \<Rightarrow> qdma_sw_sg list \<Rightarrow> nat \<times> u32" where
  "find_sg offset i len [] = (i, 0)"
| "find_sg offset i len (sg # sgs) =
     (let len = len + sg_len sg in
      if len = offset then (i + 1, 0)
      else if len > offset then (i, sg_len sg - (len - offset))
      else find_sg offset (i + 1) len sgs)"

definition qdma_sgl_find_offset :: "qdma_request \<Rightarrow> int \<times> u32" where
  "qdma_sgl_find_offset req =
     (if rq_count req = 0 then (0, 0)
      else (let (i, off) = find_sg (cb_offset req) 0 0 (rq_sgl req) in
            if i < length (rq_sgl req) then (int i, off) else (- EINVAL, 0)))"

definition qdma_update_request :: "nat \<Rightarrow> u32 \<Rightarrow> u32 \<Rightarrow> u32 \<Rightarrow> nat option \<Rightarrow> qdma_descq \<Rightarrow> qdma_descq" where
  "qdma_update_request i num_desc data_cnt sg_off sg s =
     (let s1 = upd_req i (\<lambda>r. r\<lparr>cb_desc_nr := cb_desc_nr r + num_desc, cb_offset := cb_offset r + data_cnt,
                 cb_sg_offset := sg_off, cb_sg := sg\<rparr>) s in
      if cb_offset (dq_req s1 i) \<ge> rq_count (dq_req s1 i)
      then (let s2 = qdma_work_queue_del i s1 in s2\<lparr>dq_pend_list := dq_pend_list s2 @ [i]\<rparr>)
      else s1)"

subsection \<open>The doorbell\<close>

definition queue_pidx_update :: "dq_env \<Rightarrow> qdma_descq \<Rightarrow> int \<times> qdma_descq" where
  "queue_pidx_update e s =
     (let (rv, log) = qdma_queue_pidx_update (Some (de_hw e)) (if de_vf e then 1 else 0) (ucast (qc_qidx (dq_conf s)))
            (q_type_val (qc_q_type (dq_conf s))) (Some (dq_pidx_info s)) (dq_log s) in
      (rv, s\<lparr>dq_log := log\<rparr>))"

definition qdma_pidx_update :: "dq_env \<Rightarrow> bool \<Rightarrow> qdma_descq \<Rightarrow> int \<times> qdma_descq" where
  "qdma_pidx_update e force s =
     (let desc_avail_max = qc_rngsz (dq_conf s) - 1; pidx_acc = qc_pidx_acc (dq_conf s) in
      if force \<or> dq_avail s > desc_avail_max - ucast pidx_acc \<or> \<not> dq_desc_pend s < pidx_acc
      then (let (ret, s1) = queue_pidx_update e s in
            if ret < 0 then (- EINVAL, s1) else (ret, s1\<lparr>dq_desc_pend := 0\<rparr>))
      else (0, s))"

subsection \<open>Completion\<close>

definition incr_cmpl_desc_cnt :: "u32 \<Rightarrow> qdma_descq \<Rightarrow> qdma_descq" where
  "incr_cmpl_desc_cnt cnt s =
     (let x = dq_xdev s; c = dq_conf s;
          x1 = (case (qc_st c, qc_q_type c) of
                  (False, Q_H2C) \<Rightarrow> x\<lparr>xd_total_mm_h2c_pkts := xd_total_mm_h2c_pkts x + ucast cnt\<rparr>
                | (False, Q_C2H) \<Rightarrow> x\<lparr>xd_total_mm_c2h_pkts := xd_total_mm_c2h_pkts x + ucast cnt\<rparr>
                | (False, Q_CMPT) \<Rightarrow> x\<lparr>xd_total_st_h2c_pkts := xd_total_st_h2c_pkts x + ucast cnt\<rparr>
                | (True, Q_H2C) \<Rightarrow> x\<lparr>xd_total_st_h2c_pkts := xd_total_st_h2c_pkts x + ucast cnt\<rparr>
                | (True, Q_CMPT) \<Rightarrow> x\<lparr>xd_total_st_h2c_pkts := xd_total_st_h2c_pkts x + ucast cnt\<rparr>
                | _ \<Rightarrow> x\<lparr>xd_total_st_c2h_pkts := xd_total_st_c2h_pkts x + ucast cnt\<rparr>) in
      s\<lparr>dq_total_cmpl_descs := dq_total_cmpl_descs s + ucast cnt, dq_xdev := x1\<rparr>)"

text \<open>
  Unmapping stops at the first entry without a page; \<open>sgl_unmapped\<close> are the addresses it gives back.
\<close>

fun sgl_unmap :: "qdma_sw_sg list \<Rightarrow> qdma_sw_sg list" where
  "sgl_unmap [] = []"
| "sgl_unmap (sg # sgs) = (if sg_pg sg = 0 then sg # sgs else sg\<lparr>sg_dma_addr := 0\<rparr> # sgl_unmap sgs)"

fun sgl_unmapped :: "qdma_sw_sg list \<Rightarrow> u64 list" where
  "sgl_unmapped [] = []"
| "sgl_unmapped (sg # sgs) =
     (if sg_pg sg = 0 then []
      else (if sg_dma_addr sg \<noteq> 0 then [sg_dma_addr sg - ucast (sg_offset sg)] else []) @ sgl_unmapped sgs)"

text \<open>Unmapping the list of a request.\<close>

definition unmap_req :: "nat \<Rightarrow> qdma_descq \<Rightarrow> qdma_descq" where
  "unmap_req i s =
     (let r = dq_req s i in
      upd_req i (\<lambda>r. r\<lparr>rq_sgl := sgl_unmap (rq_sgl r)\<rparr>) (s\<lparr>dq_unmaps := dq_unmaps s @ sgl_unmapped (rq_sgl r)\<rparr>))"

definition st_c2h :: "qdma_queue_conf \<Rightarrow> bool" where
  "st_c2h c \<longleftrightarrow> qc_st c \<and> qc_q_type c = Q_C2H"

definition qdma_sgt_req_done :: "nat \<Rightarrow> int \<Rightarrow> qdma_descq \<Rightarrow> qdma_descq" where
  "qdma_sgt_req_done i error s =
     (let s1 = s\<lparr>dq_work_list := remove1 i (dq_work_list s), dq_pend_list := remove1 i (dq_pend_list s)\<rparr>;
          s2 = (if cb_unmap_needed (dq_req s1 i)
                then upd_req i (\<lambda>r. r\<lparr>cb_unmap_needed := False\<rparr>) (unmap_req i s1) else s1);
          r = dq_req s2 i;
          error1 = (if rq_fp_done r \<and> cb_offset r \<noteq> rq_count r \<and> \<not> st_c2h (dq_conf s2) then - EINVAL else error);
          s3 = upd_req i (\<lambda>r. r\<lparr>cb_status := error1, cb_done := True\<rparr>) s2;
          s4 = (if rq_fp_done r then s3\<lparr>dq_done := dq_done s3 @ [(i, cb_offset r, error1)]\<rparr> else s3) in
      s4\<lparr>dq_pend_list_empty :=
        (if qc_c2h_packet (dq_conf s4) then True
         else if st_c2h (dq_conf s4) then dq_avail s4 = 0
         else dq_avail s4 = qc_rngsz (dq_conf s4) - 1)\<rparr>)"

lemma req_done_lists [simp]:
  "dq_pend_list (qdma_sgt_req_done i e s) = remove1 i (dq_pend_list s)"
  "dq_work_list (qdma_sgt_req_done i e s) = remove1 i (dq_work_list s)"
  by (simp_all add: qdma_sgt_req_done_def unmap_req_def upd_req_def Let_def)

text \<open>The credits are handed to the pending requests in their order.\<close>

function give_credits :: "u32 \<Rightarrow> qdma_descq \<Rightarrow> u32 \<times> qdma_descq" where
  "give_credits cr s =
     (case dq_pend_list s of
        [] \<Rightarrow> (cr, s)
      | i # _ \<Rightarrow>
          (let n = cb_desc_nr (dq_req s i) in
           if cr \<ge> n
           then (let cr1 = cr - n; s1 = qdma_sgt_req_done i 0 s in
                 if cr1 = 0 then (cr1, s1) else give_credits cr1 s1)
           else (0, upd_req i (\<lambda>r. r\<lparr>cb_desc_nr := n - cr\<rparr>) s)))"
  by pat_completeness auto

termination
  by (relation "measure (\<lambda>(cr, s). length (dq_pend_list s))") (auto simp: length_remove1)

declare give_credits.simps [simp del]

definition descq_mm_n_h2c_cmpl_status :: "dq_env \<Rightarrow> qdma_descq \<Rightarrow> qdma_descq" where
  "descq_mm_n_h2c_cmpl_status e s =
     (if dq_pidx s = dq_cidx s then s
      else
        (let cidx = dq_cidx s; cidx_hw = ucast (de_status_cidx e s) :: u32; s1 = s\<lparr>dq_reads := dq_reads s + 1\<rparr> in
         if cidx_hw = cidx then s1
         else
           (let cr = (if cidx_hw < cidx then (qc_rngsz (dq_conf s) - cidx) + cidx_hw else cidx_hw - cidx);
                s2 = s1\<lparr>dq_cidx := cidx_hw, dq_avail := dq_avail s1 + cr, dq_credit := dq_credit s1 + cr\<rparr>;
                s3 = incr_cmpl_desc_cnt cr s2;
                (cr1, s4) = give_credits (dq_credit s3) s3 in
            snd (qdma_pidx_update e True (s4\<lparr>dq_credit := cr1\<rparr>)))))"

definition descq_poll_mm_n_h2c_cmpl_status :: "dq_env \<Rightarrow> qdma_descq \<Rightarrow> qdma_descq" where
  "descq_poll_mm_n_h2c_cmpl_status e s =
     (if xd_drv_mode (dq_xdev s) \<in> {POLL_MODE, AUTO_MODE}
      then descq_mm_n_h2c_cmpl_status e (s\<lparr>dq_proc_req_running := True\<rparr>) else s)"

end
