(* ===== verification/St_C2h.thy ===== *)
theory St_C2h
  imports Descq
begin

text \<open>
  Streaming card-to-host queues (\<^verbatim>\<open>libqdma/qdma_st_c2h.c\<close>): the free list of receive buffers, cut
  from pages, the completion entries and how packets are received from them, and the reader of the
  received bytes. The linked rings of the code are lists, the successor of an entry being the one
  with the next number. \<open>None\<close> is an access outside such a list or a loop that does not return.
\<close>

definition ENODATA :: int where "ENODATA = 61"
definition PAGE_SHIFT :: nat where "PAGE_SHIFT = 12"
definition MAX_C2H_CNTR_STAGNANT_CNT :: u8 where "MAX_C2H_CNTR_STAGNANT_CNT = 16"

definition upd_flq :: "(qdma_flq \<Rightarrow> qdma_flq) \<Rightarrow> qdma_descq \<Rightarrow> qdma_descq" where
  "upd_flq f s = s\<lparr>dq_flq := f (dq_flq s)\<rparr>"

definition upd_page :: "nat \<Rightarrow> (qdma_sw_pg_sg \<Rightarrow> qdma_sw_pg_sg) \<Rightarrow> qdma_descq \<Rightarrow> qdma_descq" where
  "upd_page j f = upd_flq (\<lambda>fl. fl\<lparr>fl_pg_sdesc := (fl_pg_sdesc fl)[j := f (fl_pg_sdesc fl ! j)]\<rparr>)"

definition upd_sdesc :: "nat \<Rightarrow> (qdma_sw_sg \<Rightarrow> qdma_sw_sg) \<Rightarrow> qdma_descq \<Rightarrow> qdma_descq" where
  "upd_sdesc k f = upd_flq (\<lambda>fl. fl\<lparr>fl_sdesc := (fl_sdesc fl)[k := f (fl_sdesc fl ! k)]\<rparr>)"

definition upd_sinfo :: "nat \<Rightarrow> (qdma_sdesc_info \<Rightarrow> qdma_sdesc_info) \<Rightarrow> qdma_descq \<Rightarrow> qdma_descq" where
  "upd_sinfo k f = upd_flq (\<lambda>fl. fl\<lparr>fl_sdesc_info := (fl_sdesc_info fl)[k := f (fl_sdesc_info fl ! k)]\<rparr>)"

text \<open>References to a page: allocated with one, \<^verbatim>\<open>page_ref_inc\<close> and \<^verbatim>\<open>put_page\<close>.\<close>

definition page_ref :: "u64 \<Rightarrow> int \<Rightarrow> qdma_descq \<Rightarrow> qdma_descq" where
  "page_ref a d s = s\<lparr>dq_page_refs := (dq_page_refs s)(a := dq_page_refs s a + d)\<rparr>"

subsection \<open>Powers of two\<close>

text \<open>The position of the highest bit that is set, from 1; 0 if there is none.\<close>

fun bit_len :: "nat \<Rightarrow> nat" where
  "bit_len n = (if n = 0 then 0 else Suc (bit_len (n div 2)))"

declare bit_len.simps [simp del]

definition fls :: "u32 \<Rightarrow> nat" where
  "fls w = bit_len (unat w)"

definition get_next_powof2 :: "u32 \<Rightarrow> u32" where
  "get_next_powof2 value =
     (let num_bits = fls value - 1; mask = push_bit num_bits 1 - 1 in
      push_bit num_bits (drop_bit num_bits (value + mask)))"

subsection \<open>Receive buffers\<close>

definition flq_free_one :: "nat \<Rightarrow> qdma_descq \<Rightarrow> qdma_descq" where
  "flq_free_one k s =
     (let sd = fl_sdesc (dq_flq s) ! k;
          s1 = (if sg_dma_addr sd \<noteq> 0
                then upd_sdesc k (\<lambda>d. d\<lparr>sg_dma_addr := 0\<rparr>) (s\<lparr>dq_c2h_ring := (dq_c2h_ring s)[k := 0]\<rparr>) else s) in
      if sg_pg sd \<noteq> 0 then upd_sdesc k (\<lambda>d. d\<lparr>sg_pg := 0, sg_offset := 0\<rparr>) s1 else s1)"

text \<open>The next buffer of the current page goes to the descriptor \<open>k\<close>.\<close>

definition flq_fill_one :: "nat \<Rightarrow> qdma_descq \<Rightarrow> (int \<times> qdma_descq) option" where
  "flq_fill_one k s =
     (let fl = dq_flq s; buf_sz = fl_desc_buf_size fl; pg_idx = fl_alloc_idx fl AND fl_num_pgs_mask fl; j = unat pg_idx in
      if fl_num_pages fl = 0 then Some (- EINVAL, s)
      else if pg_idx \<ge> fl_num_pages fl then Some (- EINVAL, s)
      else if \<not> j < length (fl_pg_sdesc fl) then None
      else
        (let pg = fl_pg_sdesc fl ! j in
         if pg_base pg = 0 then Some (- EINVAL, s)
         else if pg_offset pg + buf_sz > fl_max_pg_offset fl then Some (- ENOMEM, s)
         else if \<not> (k < length (fl_sdesc fl) \<and> k < length (dq_c2h_ring s)) then None
         else
           (let addr = pg_dma_base_addr pg + ucast (pg_offset pg);
                s1 = upd_sdesc k (\<lambda>d. d\<lparr>sg_pg := pg_base pg, sg_offset := pg_offset pg, sg_dma_addr := addr,
                                      sg_len := qc_c2h_bufsz (dq_conf s)\<rparr>) s;
                s2 = page_ref (pg_base pg) 1 (s1\<lparr>dq_c2h_ring := (dq_c2h_ring s1)[k := addr]\<rparr>);
                s3 = upd_page j (\<lambda>p. p\<lparr>pg_offset := pg_offset p + buf_sz\<rparr>) s2 in
            Some (0, if pg_offset pg + buf_sz + buf_sz > fl_max_pg_offset fl
                     then upd_flq (\<lambda>fl. fl\<lparr>fl_alloc_idx := fl_alloc_idx fl + 1\<rparr>) s3 else s3))))"

definition flq_unmap_page_one :: "nat \<Rightarrow> qdma_descq \<Rightarrow> qdma_descq" where
  "flq_unmap_page_one j s =
     (let a = pg_dma_base_addr (fl_pg_sdesc (dq_flq s) ! j) in
      if a \<noteq> 0 then upd_page j (\<lambda>p. p\<lparr>pg_dma_base_addr := 0\<rparr>) (s\<lparr>dq_unmaps := dq_unmaps s @ [a]\<rparr>) else s)"

definition flq_free_page_one :: "nat \<Rightarrow> qdma_descq \<Rightarrow> qdma_descq" where
  "flq_free_page_one j s =
     (let fl = dq_flq s; pg = fl_pg_sdesc fl ! j in
      if pg_base pg \<noteq> 0 then
        (let page_count = drop_bit (unat (fl_desc_pg_shift fl)) (pg_offset pg) + 1;
             s1 = page_ref (pg_base pg) (- int (unat page_count)) (flq_unmap_page_one j s) in
         upd_page j (\<lambda>p. p\<lparr>pg_base := 0, pg_dma_base_addr := 0\<rparr>) s1)
      else s)"

definition empty_flq :: qdma_flq where
  "empty_flq = \<lparr>fl_size = 0, fl_desc_buf_size = 0, fl_num_pages = 0, fl_num_pgs_mask = 0, fl_num_bufs_per_pg = 0,
     fl_alloc_idx = 0, fl_recycle_idx = 0, fl_max_pg_offset = 0, fl_buf_pg_mask = 0, fl_desc_pg_order = 0,
     fl_desc_pg_shift = 0, fl_buf_pg_shift = 0, fl_udd_cnt = 0, fl_pkt_cnt = 0, fl_pkt_dlen = 0, fl_alloc_fail = 0,
     fl_mapping_err = 0, fl_pidx_pend = 0, fl_pg_sdesc = [], fl_sdesc = [], fl_sdesc_info = []\<rparr>"

text \<open>
  Without page entries the pointer to them is null; only the first one is then skipped, so the loop
  goes astray if there should be more.
\<close>

definition descq_flq_free_page_resource :: "qdma_descq \<Rightarrow> qdma_descq option" where
  "descq_flq_free_page_resource s =
     (let fl = dq_flq s; n = unat (fl_num_pages fl) in
      if fl_pg_sdesc fl = [] then (if n \<le> 1 then Some (s\<lparr>dq_flq := empty_flq\<rparr>) else None)
      else if length (fl_pg_sdesc fl) < n then None
      else Some ((fold flq_free_page_one [0..<n] s)\<lparr>dq_flq := empty_flq\<rparr>))"

definition descq_flq_free_resource :: "qdma_descq \<Rightarrow> qdma_descq" where
  "descq_flq_free_resource s =
     (if fl_sdesc (dq_flq s) = [] then s
      else upd_flq (\<lambda>fl. fl\<lparr>fl_sdesc := [], fl_sdesc_info := []\<rparr>)
             (fold flq_free_one [0..<length (fl_sdesc (dq_flq s))] s))"

definition flq_fill_page_one :: "dq_env \<Rightarrow> nat \<Rightarrow> qdma_descq \<Rightarrow> int \<times> qdma_descq" where
  "flq_fill_page_one e j s =
     (let s1 = s\<lparr>dq_allocs := dq_allocs s + 1\<rparr> in
      case de_alloc_page e (dq_allocs s) of
        None \<Rightarrow> (- ENOMEM, s1)
      | Some (pg, mapping, err) \<Rightarrow>
          if err then (- EINVAL, s1)
          else (0, upd_page j (\<lambda>p. \<lparr>pg_base = pg, pg_dma_base_addr = mapping, pg_offset = 0\<rparr>) (page_ref pg 1 s1)))"

definition with_rv :: "int \<Rightarrow> qdma_descq option \<Rightarrow> (int \<times> qdma_descq) option" where
  "with_rv rv = map_option (Pair rv)"

fun fill_pages :: "dq_env \<Rightarrow> nat list \<Rightarrow> qdma_descq \<Rightarrow> (int \<times> qdma_descq) option" where
  "fill_pages e [] s = Some (0, s)"
| "fill_pages e (j # js) s =
     (let (rv, s1) = flq_fill_page_one e j s in
      if rv < 0 then with_rv rv (descq_flq_free_page_resource s1) else fill_pages e js s1)"

fun fill_bufs :: "nat list \<Rightarrow> qdma_descq \<Rightarrow> (int \<times> qdma_descq) option" where
  "fill_bufs [] s = Some (0, s)"
| "fill_bufs (k # ks) s =
     (case flq_fill_one k s of
        None \<Rightarrow> None
      | Some (rv, s1) \<Rightarrow>
          if rv < 0 then with_rv rv (descq_flq_free_page_resource (descq_flq_free_resource s1)) else fill_bufs ks s1)"

definition descq_flq_alloc_resource :: "dq_env \<Rightarrow> qdma_descq \<Rightarrow> (int \<times> qdma_descq) option" where
  "descq_flq_alloc_resource e s =
     (let fl = dq_flq s; n = drop_bit (unat (fl_desc_pg_shift fl)) (fl_max_pg_offset fl); size = fl_size fl in
      if n = 0 then Some (- EINVAL, upd_flq (\<lambda>fl. fl\<lparr>fl_num_bufs_per_pg := 0\<rparr>) s)
      else
        (let pages = get_next_powof2 (size div n + (if size mod n = 0 then 0 else 1));
             pages = (if pages < size then push_bit 1 pages else pages);
             s1 = upd_flq (\<lambda>fl. fl\<lparr>fl_num_bufs_per_pg := n, fl_num_pages := pages, fl_num_pgs_mask := pages - 1\<rparr>)
                    (s\<lparr>dq_allocs := dq_allocs s + 1\<rparr>) in
         if \<not> de_alloc e (dq_allocs s) then Some (- ENOMEM, s1)
         else
           (case fill_pages e [0..<unat pages]
                  (upd_flq (\<lambda>fl. fl\<lparr>fl_pg_sdesc := replicate (unat pages) \<lparr>pg_base = 0, pg_dma_base_addr = 0, pg_offset = 0\<rparr>\<rparr>) s1) of
              None \<Rightarrow> None
            | Some (rv, s2) \<Rightarrow>
                if rv < 0 then Some (rv, s2)
                else
                  (let s3 = s2\<lparr>dq_allocs := dq_allocs s2 + 1\<rparr> in
                   if \<not> de_alloc e (dq_allocs s2) then with_rv (- ENOMEM) (descq_flq_free_page_resource s3)
                   else fill_bufs [0..<unat size]
                     (upd_flq (\<lambda>fl. fl\<lparr>fl_sdesc := replicate (unat size) \<lparr>sg_pg = 0, sg_offset = 0, sg_len = 0, sg_dma_addr = 0\<rparr>,
                        fl_sdesc_info := replicate (unat size) \<lparr>si_valid = False, si_sop = False, si_eop = False, si_cidx = 0\<rparr>,
                        fl_alloc_idx := 0\<rparr>) s3)))))"

subsection \<open>Refilling the free list\<close>

text \<open>Buffers given back: page by page from the recycle index on.\<close>

partial_function (option) refill_drop :: "u32 \<Rightarrow> u32 \<Rightarrow> bool \<Rightarrow> u32 \<Rightarrow> qdma_descq \<Rightarrow> (u32 \<times> qdma_descq) option" where
  "refill_drop count i recycle n_recycle s =
     (if \<not> i < count then Some (n_recycle, s)
      else
        (let fl = dq_flq s; j = unat (n_recycle AND fl_num_pgs_mask fl) in
         if \<not> j < length (fl_pg_sdesc fl) then None
         else
           (let pg = fl_pg_sdesc fl ! j;
                free = min (drop_bit (unat (fl_desc_pg_shift fl)) (pg_offset pg)) (count - i);
                s1 = upd_page j (\<lambda>p. p\<lparr>pg_offset := pg_offset p - free * fl_desc_buf_size fl\<rparr>) s;
                s2 = (if \<not> recycle \<and> \<not> qc_c2h_packet (dq_conf s)
                      then page_ref (pg_base pg) (- int (unat free)) s1 else s1) in
            refill_drop count (i + free) recycle
              (if pg_offset (fl_pg_sdesc (dq_flq s2) ! j) = 0 then n_recycle + 1 else n_recycle) s2)))"

text \<open>Pages all of whose buffers are back are replaced by fresh ones.\<close>

partial_function (option) refill_new :: "dq_env \<Rightarrow> qdma_descq \<Rightarrow> qdma_descq option" where
  "refill_new e s =
     (let fl = dq_flq s; j = unat (fl_recycle_idx fl AND fl_num_pgs_mask fl) in
      if \<not> j < length (fl_pg_sdesc fl) then None
      else if pg_offset (fl_pg_sdesc fl ! j) \<noteq> 0 \<or> fl_recycle_idx fl = fl_alloc_idx fl then Some s
      else
        (let s1 = page_ref (pg_base (fl_pg_sdesc fl ! j)) (- 1) (flq_unmap_page_one j s);
             (rv, s2) = flq_fill_page_one e j s1 in
         if rv < 0 then Some s2
         else refill_new e (upd_flq (\<lambda>fl. fl\<lparr>fl_recycle_idx := fl_recycle_idx fl + 1\<rparr>) s2)))"

definition flq_refill_pages :: "dq_env \<Rightarrow> u32 \<Rightarrow> bool \<Rightarrow> qdma_descq \<Rightarrow> qdma_descq option" where
  "flq_refill_pages e count recycle s =
     (case refill_drop count 0 recycle (fl_recycle_idx (dq_flq s)) s of
        None \<Rightarrow> None
      | Some (n_recycle, s1) \<Rightarrow>
          if recycle then Some (upd_flq (\<lambda>fl. fl\<lparr>fl_recycle_idx := n_recycle\<rparr>) s1) else refill_new e s1)"

text \<open>Recycling sets the length of a buffer; its offset stays where the last reader left it.\<close>

fun refill_descs :: "nat \<Rightarrow> nat \<Rightarrow> bool \<Rightarrow> qdma_descq \<Rightarrow> (nat \<times> qdma_descq) option" where
  "refill_descs 0 idx recycle s = Some (0, s)"
| "refill_descs (Suc n) idx recycle s =
     (let idx = (if idx = unat (fl_size (dq_flq s)) then 0 else idx) in
      if \<not> (idx < length (fl_sdesc (dq_flq s)) \<and> idx < length (dq_c2h_ring s)) then None
      else
        (case (if recycle then Some (0, upd_sdesc idx (\<lambda>d. d\<lparr>sg_len := qc_c2h_bufsz (dq_conf s)\<rparr>) s)
               else flq_fill_one idx (flq_free_one idx s)) of
           None \<Rightarrow> None
         | Some (rv, s1) \<Rightarrow>
             if rv < 0 then
               Some (0, upd_flq (\<lambda>fl. if rv = - ENOMEM then fl\<lparr>fl_alloc_fail := fl_alloc_fail fl + 1\<rparr>
                                      else fl\<lparr>fl_mapping_err := fl_mapping_err fl + 1\<rparr>) s1)
             else
               (let s2 = upd_sinfo idx (\<lambda>x. x\<lparr>si_valid := False, si_sop := False, si_eop := False\<rparr>) s1 in
                map_option (\<lambda>(i, t). (Suc i, t)) (refill_descs n (idx + 1) recycle (s2\<lparr>dq_avail := dq_avail s2 + 1\<rparr>)))))"

definition qdma_flq_refill :: "dq_env \<Rightarrow> u32 \<Rightarrow> u32 \<Rightarrow> bool \<Rightarrow> qdma_descq \<Rightarrow> (nat \<times> qdma_descq) option" where
  "qdma_flq_refill e idx count recycle s =
     (case (if recycle then Some s else flq_refill_pages e count recycle s) of
        None \<Rightarrow> None
      | Some s1 \<Rightarrow>
          map_option (\<lambda>(i, t). (i, if dq_work_list t = [] \<and> dq_pend_list t = [] then t\<lparr>dq_pend_list_empty := True\<rparr> else t))
            (refill_descs (unat count) (unat idx) recycle s1))"

subsection \<open>Reading received bytes\<close>

text \<open>The latency measurement compares the time stamp at the start of a buffer with the expected one.\<close>

definition note_latency :: "dq_env \<Rightarrow> u64 \<Rightarrow> qdma_descq \<Rightarrow> qdma_descq" where
  "note_latency e a s =
     (if qc_ping_pong_en (dq_conf s) \<and> de_time e a = dq_ping_pong_tx_time s
      then (let l = dq_ping_pong_rx_time s - de_time e a; x = dq_xdev s;
                x = (if xd_ping_pong_lat_min x > l \<or> xd_ping_pong_lat_min x = 0 then x\<lparr>xd_ping_pong_lat_min := l\<rparr> else x);
                x = (if xd_ping_pong_lat_max x < l \<or> xd_ping_pong_lat_max x = 0 then x\<lparr>xd_ping_pong_lat_max := l\<rparr> else x) in
            s\<lparr>dq_xdev := x\<lparr>xd_ping_pong_lat_total := xd_ping_pong_lat_total x + l\<rparr>\<rparr>)
      else s)"

text \<open>Each turn finishes a target entry or takes bytes of the buffer.\<close>

lemma copy_dec:
  fixes flen off len :: u32
  assumes "flen \<noteq> 0" "off + min flen (len - off) \<noteq> len"
  shows "unat (flen - min flen (len - off)) < unat flen"
proof -
  have "min flen (len - off) \<noteq> 0"
  proof
    assume "min flen (len - off) = 0"
    then have "len - off = 0" using assms(1) by (simp add: min_def split: if_splits)
    then show False using assms(2) by simp
  qed
  moreover have "unat (flen - min flen (len - off)) = unat flen - unat (min flen (len - off))" by (rule unat_sub) simp
  moreover have "unat (min flen (len - off)) \<le> unat flen" by (simp add: word_le_nat_alt [symmetric])
  ultimately show ?thesis by (metis diff_less gr0I le_0_eq linorder_not_less unat_eq_zero)
qed

text \<open>One buffer to the target entries: \<open>ts\<close> are those still to be filled, the first one from \<open>tsgoff\<close> on.\<close>

function read_buf ::
  "dq_env \<Rightarrow> bool \<Rightarrow> u64 \<Rightarrow> u64 \<Rightarrow> u32 \<Rightarrow> u32 \<Rightarrow> qdma_sw_sg list \<Rightarrow> u32 \<Rightarrow> u32 \<Rightarrow> qdma_descq
     \<Rightarrow> u32 \<times> qdma_sw_sg list \<times> u32 \<times> u32 \<times> qdma_descq" where
  "read_buf e no_memcpy start faddr flen foff ts tsgoff copied s =
     (case ts of
        [] \<Rightarrow> (foff, ts, tsgoff, copied, s)
      | t # ts' \<Rightarrow>
          if flen = 0 then (foff, ts, tsgoff, copied, s)
          else
            (let copy = min flen (sg_len t - tsgoff);
                 s1 = (if no_memcpy then s
                       else s\<lparr>dq_copies := dq_copies s @ [(sg_pg t + ucast (sg_offset t + tsgoff), faddr, copy)]\<rparr>);
                 s2 = note_latency e start s1 in
             if tsgoff + copy = sg_len t
             then read_buf e no_memcpy start (faddr + ucast copy) (flen - copy) (foff + copy) ts' 0 (copied + copy) s2
             else read_buf e no_memcpy start (faddr + ucast copy) (flen - copy) (foff + copy) ts (tsgoff + copy) (copied + copy) s2))"
  by pat_completeness auto

termination
  by (relation "measures [\<lambda>(e, nm, st, fa, flen, fo, ts, to, c, s). length ts, \<lambda>(e, nm, st, fa, flen, fo, ts, to, c, s). unat flen]")
    (auto simp: copy_dec)

declare read_buf.simps [simp del]

text \<open>
  The buffers from the pending index on; \<open>n\<close> are left. The result has the number of buffers that
  were finished, how far the reader came in the one it stopped in, and its place in the target.
\<close>

fun read_bufs ::
  "dq_env \<Rightarrow> bool \<Rightarrow> nat \<Rightarrow> nat \<Rightarrow> u32 \<Rightarrow> qdma_sw_sg list \<Rightarrow> u32 \<Rightarrow> u32 \<Rightarrow> qdma_descq
     \<Rightarrow> (u32 \<times> u32 \<times> qdma_sw_sg list \<times> u32 \<times> u32 \<times> qdma_descq) option" where
  "read_bufs e nm 0 k i ts tsgoff copied s = Some (i, 0, ts, tsgoff, copied, s)"
| "read_bufs e nm (Suc n) k i ts tsgoff copied s =
     (if ts = [] then Some (i, 0, ts, tsgoff, copied, s)
      else if \<not> k < length (fl_sdesc (dq_flq s)) then None
      else
        (let f = fl_sdesc (dq_flq s) ! k; addr = sg_pg f + ucast (sg_offset f);
             (foff, ts1, tsgoff1, copied1, s1) = read_buf e nm addr addr (sg_len f) 0 ts tsgoff copied s in
         if foff = sg_len f
         then read_bufs e nm n (if k + 1 = length (fl_sdesc (dq_flq s)) then 0 else k + 1) (i + 1) ts1 tsgoff1 copied1 s1
         else Some (i, foff, ts1, tsgoff1, copied1, s1)))"

definition descq_st_c2h_read :: "dq_env \<Rightarrow> nat \<Rightarrow> bool \<Rightarrow> bool \<Rightarrow> qdma_descq \<Rightarrow> (int \<times> qdma_descq) option" where
  "descq_st_c2h_read e r update_pidx refill s =
     (let fl = dq_flq s; pidx = fl_pidx_pend fl; req = dq_req s r; fsgcnt = ring_idx_delta (dq_pidx s) pidx (fl_size fl);
          skip = unat (cb_sg_idx req) in
      if fsgcnt = 0 then Some (0, s)
      else if cb_sg_idx req \<noteq> 0 \<and> length (rq_sgl req) \<le> skip then Some (- EINVAL, s)
      else
        (case read_bufs e (rq_no_memcpy req) (unat fsgcnt) (unat pidx) 0 (drop skip (rq_sgl req)) (cb_sg_offset req) 0 s of
           None \<Rightarrow> None
         | Some (i, foff, ts, tsgoff, copied, s1) \<Rightarrow>
             (let s2 = incr_cmpl_desc_cnt i s1 in
              case (if refill \<and> i \<noteq> 0 then map_option snd (qdma_flq_refill e (fl_pidx_pend (dq_flq s2)) i True s2) else Some s2) of
                None \<Rightarrow> None
              | Some s3 \<Rightarrow>
                  (let stop = (unat pidx + unat i) mod length (fl_sdesc fl);
                       s4 = upd_flq (\<lambda>fl. fl\<lparr>fl_pidx_pend := ring_idx_incr (fl_pidx_pend fl) i (fl_size fl)\<rparr>) s3;
                       s5 = (if foff \<noteq> 0
                             then upd_sdesc stop (\<lambda>d. d\<lparr>sg_offset := sg_offset d + foff, sg_len := sg_len d - foff\<rparr>) s4 else s4);
                       pp = ring_idx_decr (fl_pidx_pend (dq_flq s5)) 1 (fl_size (dq_flq s5));
                       (rv, s6) = (if i \<noteq> 0 \<and> update_pidx
                                   then queue_pidx_update e (s5\<lparr>dq_pidx_info := (dq_pidx_info s5)\<lparr>pi_pidx := ucast pp\<rparr>\<rparr>)
                                   else (0, s5)) in
                   if rv < 0 then Some (- EINVAL, s6)
                   else
                     (let s7 = upd_req r (\<lambda>q. q\<lparr>cb_sg_idx := of_nat (length (rq_sgl req) - length ts), cb_sg_offset := tsgoff,
                                               cb_left := cb_left q - copied\<rparr>) s6 in
                      Some (int (unat copied), upd_flq (\<lambda>fl. fl\<lparr>fl_pkt_dlen := fl_pkt_dlen fl - copied\<rparr>) s7))))))"

text \<open>The readers that wait are served in their order, as far as there are bytes.\<close>

fun serve_readers :: "dq_env \<Rightarrow> nat list \<Rightarrow> qdma_descq \<Rightarrow> qdma_descq option" where
  "serve_readers e [] s = Some s"
| "serve_readers e (r # rs) s =
     (if cb_left (dq_req s r) = 0 then Some (qdma_sgt_req_done r 0 s)
      else
        (case descq_st_c2h_read e r False False s of
           None \<Rightarrow> None
         | Some (rv, s1) \<Rightarrow>
             if rv < 0 then serve_readers e rs (qdma_sgt_req_done r rv s1)
             else if cb_left (dq_req s1 r) = 0 then serve_readers e rs (qdma_sgt_req_done r 0 s1)
             else Some s1))"

definition qdma_c2h_packets_proc_dflt :: "dq_env \<Rightarrow> qdma_descq \<Rightarrow> qdma_descq option" where
  "qdma_c2h_packets_proc_dflt e s = serve_readers e (dq_pend_list s) s"

subsection \<open>Completion entries\<close>

definition cmpt_next :: "qdma_descq \<Rightarrow> qdma_descq" where
  "cmpt_next s =
     (let c = dq_cidx_cmpt s + 1 in
      if c = qc_rngsz_cmpt (dq_conf s) then s\<lparr>dq_cidx_cmpt := 0, dq_color := \<not> dq_color s, dq_cmpt_cur := 0\<rparr>
      else s\<lparr>dq_cidx_cmpt := c, dq_cmpt_cur := dq_cmpt_cur s + 1\<rparr>)"

definition is_new_cmpl_entry :: "qdma_descq \<Rightarrow> qdma_ul_cmpt_info \<Rightarrow> bool" where
  "is_new_cmpl_entry s c \<longleftrightarrow> ci_color c = dq_color s"

definition parse_cmpl_entry :: "u64 \<Rightarrow> qdma_ul_cmpt_info" where
  "parse_cmpl_entry w =
     (let format = bit w 0; desc_used = bit w 3 in
      \<lparr>ci_format = format, ci_color = bit w 1, ci_err = bit w 2, ci_desc_used = desc_used, ci_eot = bit w 20,
       ci_len = (if \<not> format \<and> desc_used then ucast (drop_bit 4 w AND 0xFFFF) else 0), ci_pidx = 0\<rparr>)"

text \<open>The buffers of a packet, counted one by one, with the bytes in the last one.\<close>

partial_function (option) count_bufs :: "u32 \<Rightarrow> u32 \<Rightarrow> int \<Rightarrow> (int \<times> u32) option" where
  "count_bufs bufsz l n = (if l \<ge> bufsz then count_bufs bufsz (l - bufsz) (n + 1) else Some (n, l))"

definition get_fl_nr :: "u32 \<Rightarrow> u32 \<Rightarrow> nat \<Rightarrow> u32 \<Rightarrow> (int \<times> u32) option" where
  "get_fl_nr len c2h_bufsz pg_shift pg_mask =
     (if len AND (len - 1) = 0 then
        (let l = len AND pg_mask in
         Some (if len \<noteq> 0 then int (unat (drop_bit pg_shift (len + pg_mask))) else 1, if l = 0 then c2h_bufsz else l))
      else if len \<le> c2h_bufsz then Some (1, len)
      else map_option (\<lambda>(n, l). if l \<noteq> 0 then (n + 1, l) else (n, c2h_bufsz)) (count_bufs c2h_bufsz len 0))"

text \<open>
  A packet takes its buffers from the descriptor queue. The length of the last buffer is set before
  it is known that there are enough; a packet an upper-layer module refuses has used them up.
\<close>

fun mark_bufs :: "nat \<Rightarrow> nat \<Rightarrow> u32 \<Rightarrow> qdma_descq \<Rightarrow> qdma_descq" where
  "mark_bufs 0 k cidx s = s"
| "mark_bufs (Suc n) k cidx s =
     mark_bufs n (if k + 1 = length (fl_sdesc_info (dq_flq s)) then 0 else k + 1) cidx
       (upd_sinfo k (\<lambda>x. x\<lparr>si_valid := True, si_cidx := cidx\<rparr>) s)"

definition rcv_pkt :: "dq_env \<Rightarrow> qdma_ul_cmpt_info \<Rightarrow> u32 \<Rightarrow> qdma_descq \<Rightarrow> (int \<times> qdma_ul_cmpt_info \<times> qdma_descq) option" where
  "rcv_pkt e cmpl len s =
     (let pidx = ci_pidx cmpl; c = dq_conf s; pg_shift = unat (fl_desc_pg_shift (dq_flq s)); rngsz = qc_rngsz c in
      case get_fl_nr len (qc_c2h_bufsz c) pg_shift (push_bit pg_shift 1 - 1) of
        None \<Rightarrow> None
      | Some (fl_nr, l_len) \<Rightarrow>
          (let last = ring_idx_incr pidx (word_of_int (fl_nr - 1)) rngsz; next = ring_idx_incr last 1 rngsz;
               cidx_next = ring_idx_incr (dq_cidx_cmpt s) 1 (qc_rngsz_cmpt c) in
           if \<not> (unat last < length (fl_sdesc (dq_flq s)) \<and> unat pidx < length (fl_sdesc (dq_flq s))) then None
           else
             (let s1 = upd_sdesc (unat last) (\<lambda>d. d\<lparr>sg_len := (if len = 0 then 0 else l_len)\<rparr>) s in
              if dq_avail s1 < word_of_int fl_nr then Some (- EBUSY, cmpl, s1)
              else
                (let s2 = s1\<lparr>dq_avail := dq_avail s1 - word_of_int fl_nr\<rparr> in
                 if qc_c2h_packet c then
                   (let (rv, sd) = de_packet e len fl_nr (unat pidx) s2; s3 = upd_flq (\<lambda>fl. fl\<lparr>fl_sdesc := sd\<rparr>) s2 in
                    if rv < 0 then Some (rv, cmpl, s3)
                    else Some (0, cmpl\<lparr>ci_pidx := next\<rparr>, upd_flq (\<lambda>fl. fl\<lparr>fl_pidx_pend := next\<rparr>) s3))
                 else
                   (let s3 = mark_bufs (nat fl_nr) (unat pidx) cidx_next s2;
                        s4 = upd_sinfo (unat last) (\<lambda>x. x\<lparr>si_eop := True\<rparr>) (upd_sinfo (unat pidx) (\<lambda>x. x\<lparr>si_sop := True\<rparr>) s3);
                        s5 = upd_flq (\<lambda>fl. fl\<lparr>fl_pkt_dlen := fl_pkt_dlen fl + len,
                               fl_udd_cnt := (if qc_cmpl_udd_en c then fl_udd_cnt fl + 1 else fl_udd_cnt fl)\<rparr>) s4 in
                    Some (0, cmpl\<lparr>ci_pidx := next\<rparr>, s5))))))"

definition rcv_udd_only :: "dq_env \<Rightarrow> qdma_descq \<Rightarrow> int \<times> qdma_descq" where
  "rcv_udd_only e s =
     (if qc_c2h_packet (dq_conf s)
      then (let (rv, sd) = de_packet e 0 0 0 s in (rv, upd_flq (\<lambda>fl. fl\<lparr>fl_sdesc := sd\<rparr>) s))
      else (0, upd_flq (\<lambda>fl. fl\<lparr>fl_udd_cnt := fl_udd_cnt fl + 1\<rparr>) s))"

text \<open>An erroneous entry halts the queue.\<close>

definition descq_cmpl_err_check :: "qdma_ul_cmpt_info \<Rightarrow> qdma_descq \<Rightarrow> int \<times> qdma_descq" where
  "descq_cmpl_err_check cmpl s =
     (if ci_format cmpl \<or> (\<not> ci_desc_used cmpl \<and> \<not> qc_cmpl_udd_en (dq_conf s)) \<or> ci_err cmpl
      then (- EINVAL, s\<lparr>dq_err := True\<rparr>) else (0, s))"

subsection \<open>Adapting the counter threshold\<close>

abbreviation cnt_th :: "qdma_descq \<Rightarrow> u8 \<Rightarrow> u32" where
  "cnt_th s i \<equiv> gc_c2h_cnt_th (xd_csr_info (dq_xdev s)) ! unat i"

abbreviation sorted_idx :: "qdma_descq \<Rightarrow> u8 \<Rightarrow> u8" where
  "sorted_idx s i \<equiv> xd_sorted_c2h_cntr_idx (dq_xdev s) ! unat i"

definition descq_adjust_c2h_cntr_avgs :: "qdma_descq \<Rightarrow> qdma_descq" where
  "descq_adjust_c2h_cntr_avgs s =
     (let k = dq_sorted_c2h_cntr_idx s; avg = cnt_th s (cc_counter_idx (dq_cmpt_cidx_info s));
          opt = qc_latency_optimize (dq_conf s);
          hi = cnt_th s (sorted_idx s (if unat k = QDMA_GLOBAL_CSR_ARRAY_SZ - 1 then k else k + 1));
          lo = cnt_th s (sorted_idx s (if k > 0 then k - 1 else k)) in
      s\<lparr>dq_c2h_pend_pkt_moving_avg := avg,
        dq_c2h_pend_pkt_avg_thr_hi := drop_bit 1 (if opt then hi + hi else avg + hi),
        dq_c2h_pend_pkt_avg_thr_lo := drop_bit 1 (if opt then lo + lo else avg + lo)\<rparr>)"

text \<open>The thresholds are compared as bytes.\<close>

definition descq_incr_c2h_cntr_th :: "qdma_descq \<Rightarrow> qdma_descq" where
  "descq_incr_c2h_cntr_th s =
     (let k = dq_sorted_c2h_cntr_idx s; avg = dq_c2h_pend_pkt_moving_avg s in
      if unat k = QDMA_GLOBAL_CSR_ARRAY_SZ - 1 then s
      else
        (let curr = ucast (ucast (cnt_th s (sorted_idx s k)) :: u8) :: u32; idx = sorted_idx s (k + 1);
             new = ucast (ucast (cnt_th s idx) :: u8) :: u32; s1 = s\<lparr>dq_c2h_cntr_monitor_cnt := 0\<rparr> in
         if new \<ge> avg \<and> new - avg \<ge> avg - curr then s1
         else if new < drop_bit 1 (qc_rngsz (dq_conf s1)) then
           descq_adjust_c2h_cntr_avgs
             (s1\<lparr>dq_cmpt_cidx_info := (dq_cmpt_cidx_info s1)\<lparr>cc_counter_idx := idx\<rparr>, dq_sorted_c2h_cntr_idx := k + 1\<rparr>)
         else s1))"

definition descq_decr_c2h_cntr_th :: "u32 \<Rightarrow> qdma_descq \<Rightarrow> qdma_descq" where
  "descq_decr_c2h_cntr_th budget s =
     (let k = dq_sorted_c2h_cntr_idx s; avg = dq_c2h_pend_pkt_moving_avg s in
      if k = 0 then s
      else
        (let curr = ucast (ucast (cnt_th s (sorted_idx s k)) :: u8) :: u32; idx = sorted_idx s (k - 1);
             new = ucast (ucast (cnt_th s idx) :: u8) :: u32; s1 = s\<lparr>dq_c2h_cntr_monitor_cnt := 0\<rparr> in
         if new \<le> avg \<and> avg - new \<ge> curr - avg then s1
         else if \<not> qc_latency_optimize (dq_conf s1) \<and> new < budget - 2 then s1
         else
           descq_adjust_c2h_cntr_avgs
             (s1\<lparr>dq_cmpt_cidx_info := (dq_cmpt_cidx_info s1)\<lparr>cc_counter_idx := idx\<rparr>, dq_sorted_c2h_cntr_idx := k - 1\<rparr>)))"

definition descq_adjust_c2h_cntr_th :: "u32 \<Rightarrow> u32 \<Rightarrow> qdma_descq \<Rightarrow> qdma_descq" where
  "descq_adjust_c2h_cntr_th pend budget s =
     (let avg = drop_bit 1 (dq_c2h_pend_pkt_moving_avg s + pend); s1 = s\<lparr>dq_c2h_pend_pkt_moving_avg := avg\<rparr> in
      if dq_c2h_pend_pkt_avg_thr_hi s1 \<le> avg then descq_incr_c2h_cntr_th s1
      else if dq_c2h_pend_pkt_avg_thr_lo s1 \<ge> avg then descq_decr_c2h_cntr_th budget s1
      else
        (let s2 = s1\<lparr>dq_c2h_cntr_monitor_cnt := dq_c2h_cntr_monitor_cnt s1 + 1\<rparr> in
         if dq_c2h_cntr_monitor_cnt s2 = MAX_C2H_CNTR_STAGNANT_CNT
         then (descq_decr_c2h_cntr_th budget s2)\<lparr>dq_c2h_cntr_monitor_cnt := 0\<rparr> else s2))"

subsection \<open>Processing completions\<close>

definition queue_cmpt_cidx_update :: "dq_env \<Rightarrow> qdma_descq \<Rightarrow> int \<times> qdma_descq" where
  "queue_cmpt_cidx_update e s =
     (let (rv, log) = qdma_queue_cmpt_cidx_update (Some (de_hw e)) (if de_vf e then 1 else 0)
            (ucast (qc_qidx (dq_conf s))) (Some (dq_cmpt_cidx_info s)) (dq_log s) in
      (rv, s\<lparr>dq_log := log\<rparr>))"

text \<open>
  Up to \<open>n\<close> entries. The result is \<open>Inl\<close> the error that ends the processing of the queue, or
  \<open>Inr\<close> the number of entries with the descriptor index they leave off at.
\<close>

fun proc_entries :: "dq_env \<Rightarrow> bool \<Rightarrow> nat \<Rightarrow> u32 \<Rightarrow> nat \<Rightarrow> qdma_descq \<Rightarrow> ((int + nat \<times> u32) \<times> qdma_descq) option" where
  "proc_entries e ul 0 pidx cnt s = Some (Inr (cnt, pidx), s)"
| "proc_entries e ul (Suc n) pidx cnt s =
     (let (rv, cmpl) = (if ul then de_ul_cmpt e s (dq_cmpt_cur s) else (0, parse_cmpl_entry (de_cmpt_entry e s (dq_cmpt_cur s)))) in
      if rv < 0 then Some (Inl rv, s)
      else
        (let (rv1, s1) = descq_cmpl_err_check cmpl s in
         if rv1 < 0 then Some (Inl rv1, s1)
         else if \<not> is_new_cmpl_entry s1 cmpl then Some (Inr (cnt, pidx), s1)
         else
           (let cmpl1 = cmpl\<lparr>ci_pidx := pidx\<rparr> in
            case (if ci_desc_used cmpl1 then rcv_pkt e cmpl1 (ucast (ci_len cmpl1)) s1
                  else if qc_cmpl_udd_en (dq_conf s1) then (let (rv2, s2) = rcv_udd_only e s1 in Some (rv2, cmpl1, s2))
                  else Some (rv1, cmpl1, s1)) of
              None \<Rightarrow> None
            | Some (rv2, cmpl2, s2) \<Rightarrow>
                if rv2 < 0 then Some (Inr (cnt, pidx), s2)
                else proc_entries e ul n (ci_pidx cmpl2) (cnt + 1) (cmpt_next s2))))"

definition adapt :: "dq_env \<Rightarrow> u32 \<Rightarrow> nat \<Rightarrow> qdma_descq \<Rightarrow> qdma_descq" where
  "adapt e budget cnt s =
     (if xd_intr_moderation (dq_xdev s) \<and> cc_trig_mode (dq_cmpt_cidx_info s) = ucast TRIG_MODE_COMBO
      then
        (let pend = ring_idx_delta (ucast (de_cmpt_pidx e s)) (dq_cidx_cmpt s) (qc_rngsz_cmpt (dq_conf s));
             s1 = upd_flq (\<lambda>fl. fl\<lparr>fl_pkt_cnt := pend\<rparr>) s;
             s2 = s1\<lparr>dq_cmpt_cidx_info := (dq_cmpt_cidx_info s1)\<lparr>cc_irq_en := (if budget \<noteq> 0 \<and> pend > budget then 0 else 1)\<rparr>\<rparr> in
         if qc_adaptive_rx (dq_conf s2) then descq_adjust_c2h_cntr_th (pend + of_nat cnt) budget s2 else s2)
      else s)"

text \<open>The buffers that were read go back to the hardware.\<close>

definition give_back :: "dq_env \<Rightarrow> bool \<Rightarrow> u32 \<Rightarrow> qdma_descq \<Rightarrow> (int \<times> qdma_descq) option" where
  "give_back e upd_cmpl pidx_pend s =
     (let fl = dq_flq s; pend = ring_idx_delta (fl_pidx_pend fl) pidx_pend (fl_size fl) in
      if fl_pidx_pend fl = pidx_pend then Some (0, s)
      else
        (case qdma_flq_refill e pidx_pend pend (\<not> qc_c2h_packet (dq_conf s)) s of
           None \<Rightarrow> None
         | Some (i, s1) \<Rightarrow>
             if upd_cmpl \<and> \<not> dq_q_stop_wait s1 then
               (let pp = ring_idx_decr (fl_pidx_pend (dq_flq s1)) 1 (fl_size (dq_flq s1));
                    s2 = s1\<lparr>dq_pidx_info := (dq_pidx_info s1)\<lparr>pi_pidx := ucast pp\<rparr>\<rparr> in
                if qc_c2h_packet (dq_conf s2) then Some (0, s2)
                else (let (ret, s3) = queue_pidx_update e s2 in Some (if ret < 0 then - EINVAL else 0, s3)))
             else Some (0, s1)))"

definition descq_process_completion_st_c2h :: "dq_env \<Rightarrow> u32 \<Rightarrow> bool \<Rightarrow> qdma_descq \<Rightarrow> (int \<times> qdma_descq) option" where
  "descq_process_completion_st_c2h e budget upd_cmpl s =
     (let c = dq_conf s; pidx_cmpt = ucast (de_cmpt_pidx e s) :: u32; pidx_pend = fl_pidx_pend (dq_flq s);
          pend = ring_idx_delta pidx_cmpt (dq_cidx_cmpt s) (qc_rngsz_cmpt c) in
      if dq_err s then Some (- EINVAL, s)
      else if pend = 0 then
        (if xd_drv_mode (dq_xdev s) \<noteq> POLL_MODE
         then (let (rv, s1) = queue_cmpt_cidx_update e s in Some (if rv < 0 then - EINVAL else - ENODATA, s1))
         else Some (- ENODATA, s))
      else
        (case proc_entries e (qc_desc_bypass c \<and> qc_proc_ul_cmpt_entry c)
                (unat (if budget = 0 \<or> budget > pend then pend else budget)) (dq_pidx s) 0
                (upd_flq (\<lambda>fl. fl\<lparr>fl_pkt_cnt := pend\<rparr>) s) of
           None \<Rightarrow> None
         | Some (Inl rv, s1) \<Rightarrow> Some (rv, s1)
         | Some (Inr (cnt, pidx), s1) \<Rightarrow>
             (let s2 = adapt e budget cnt (upd_flq (\<lambda>fl. fl\<lparr>fl_pkt_cnt := fl_pkt_cnt fl - of_nat cnt\<rparr>) s1) in
              if cnt = 0 then Some (0, s2)
              else
                (let s3 = s2\<lparr>dq_pidx_cmpt := pidx_cmpt, dq_pidx := pidx,
                             dq_cmpt_cidx_info := (dq_cmpt_cidx_info s2)\<lparr>cc_wrb_cidx := ucast (dq_cidx_cmpt s2)\<rparr>\<rparr> in
                 case (if qc_c2h_packet (dq_conf s3) then Some (0, s3)
                       else (let (rv, s4) = queue_cmpt_cidx_update e s3 in
                             if rv < 0 then Some (- EINVAL, s4) else map_option (Pair 0) (qdma_c2h_packets_proc_dflt e s4))) of
                   None \<Rightarrow> None
                 | Some (rv, s5) \<Rightarrow>
                     if rv < 0 then Some (rv, s5)
                     else
                       give_back e upd_cmpl pidx_pend
                         (upd_flq (\<lambda>fl. fl\<lparr>fl_pkt_cnt := ring_idx_delta (ucast (de_cmpt_pidx e s5)) (dq_cidx_cmpt s5)
                                                            (qc_rngsz_cmpt (dq_conf s5))\<rparr>) s5)))))"

subsection \<open>For users of the queue\<close>

definition qdma_queue_c2h_peek :: "qdma_descq \<Rightarrow> u32 \<times> u32 \<times> u32" where
  "qdma_queue_c2h_peek s = (let fl = dq_flq s in (fl_udd_cnt fl, fl_pkt_cnt fl, fl_pkt_dlen fl))"

record qdma_cmpl_ctrl =
  ct_cnt_th_idx :: "4 word"
  ct_timer_idx :: "4 word"
  ct_trigger_mode :: "3 word"
  ct_en_stat_desc :: bool
  ct_cmpl_en_intr :: bool

definition set_cmpl_ctrl :: "qdma_cmpl_ctrl \<Rightarrow> qdma_descq \<Rightarrow> qdma_descq" where
  "set_cmpl_ctrl ct s =
     s\<lparr>dq_conf := (dq_conf s)\<lparr>qc_cmpl_trig_mode := ct_trigger_mode ct, qc_cmpl_timer_idx := ct_timer_idx ct,
         qc_cmpl_cnt_th_idx := ct_cnt_th_idx ct, qc_cmpl_en_intr := ct_cmpl_en_intr ct, qc_cmpl_stat_en := ct_en_stat_desc ct\<rparr>,
       dq_cmpt_cidx_info := (dq_cmpt_cidx_info s)\<lparr>cc_trig_mode := ucast (ct_trigger_mode ct), cc_timer_idx := ucast (ct_timer_idx ct),
         cc_counter_idx := ucast (ct_cnt_th_idx ct), cc_irq_en := of_bool (ct_cmpl_en_intr ct),
         cc_wrb_en := of_bool (ct_en_stat_desc ct), cc_wrb_cidx := ucast (dq_cidx_cmpt s)\<rparr>\<rparr>"

definition reset_cb :: "qdma_request \<Rightarrow> qdma_request" where
  "reset_cb r = r\<lparr>cb_desc_nr := 0, cb_offset := 0, cb_sg_offset := 0, cb_sg := None, cb_status := 0, cb_done := False,
     cb_unmap_needed := False, cb_sg_idx := 0, cb_left := 0\<rparr>"

text \<open>The result is the byte count less what is left of the request, which is never set here.\<close>

definition qdma_queue_packet_read :: "dq_env \<Rightarrow> nat \<Rightarrow> qdma_cmpl_ctrl option \<Rightarrow> qdma_descq \<Rightarrow> (int \<times> qdma_descq) option" where
  "qdma_queue_packet_read e r cctrl s =
     (if \<not> qc_st (dq_conf s) \<or> qc_q_type (dq_conf s) \<noteq> Q_C2H then Some (- EINVAL, s)
      else
        (let (rv, s1) = (case cctrl of None \<Rightarrow> (0, s) | Some ct \<Rightarrow> queue_cmpt_cidx_update e (set_cmpl_ctrl ct s)) in
         if rv < 0 then Some (- EINVAL, s1)
         else
           map_option (\<lambda>(rv, t). (sint (rq_count (dq_req t r) - cb_left (dq_req t r)), t))
             (descq_st_c2h_read e r True True (upd_req r reset_cb s1))))"

text \<open>The pointer update of a queue; the flag says that the lock is given back without being held.\<close>

definition qdma_queue_update_pointers :: "dq_env \<Rightarrow> qdma_descq \<Rightarrow> int \<times> bool \<times> qdma_descq" where
  "qdma_queue_update_pointers e s =
     (if \<not> (qc_st (dq_conf s) \<and> qc_q_type (dq_conf s) = Q_C2H) then (- EINVAL, True, s)
      else if dq_q_state s \<noteq> Q_STATE_ONLINE then (- ENODEV, False, s)
      else
        (let (ret, s1) = queue_cmpt_cidx_update e s in
         if ret < 0 then (- EBUSY, False, s1)
         else (let (ret, s2) = queue_pidx_update e s1 in (if ret < 0 then - EBUSY else ret, False, s2))))"

end
