(* ===== verification/Descq_Config.thy ===== *)
theory Descq_Config
  imports St_C2h
begin

text \<open>
  Setting up a descriptor queue (\<^verbatim>\<open>libqdma/qdma_descq.c\<close>): its configuration, the rings it needs, the
  interrupt vector it shares and the state it starts in. Rings are coherent memory that is zero
  when it is allocated.
\<close>

definition DESC_SZ_64B_BYTES :: int where "DESC_SZ_64B_BYTES = 64"

definition zero_conf :: qdma_queue_conf where
  "zero_conf = \<lparr>
     qc_qidx = 0, qc_st = False, qc_q_type = Q_H2C, qc_irq_en = False, qc_desc_rng_sz_idx = 0,
     qc_wb_status_en = False, qc_cmpl_status_acc_en = False, qc_cmpl_status_pend_chk = False, qc_desc_bypass = False,
     qc_pfetch_en = False, qc_fetch_credit = False, qc_c2h_buf_sz_idx = 0, qc_cmpl_rng_sz_idx = 0,
     qc_cmpl_desc_sz = 0, qc_cmpl_stat_en = False, qc_cmpl_udd_en = False, qc_cmpl_timer_idx = 0,
     qc_cmpl_cnt_th_idx = 0, qc_cmpl_trig_mode = 0, qc_cmpl_en_intr = False, qc_sw_desc_sz = 0,
     qc_pfetch_bypass = False, qc_cmpl_ovf_chk_dis = False, qc_at = False, qc_adaptive_rx = False,
     qc_init_pidx_dis = False, qc_mm_channel = False, qc_pidx_acc = 0, qc_c2h_packet = False,
     qc_bypass_desc_fill = False, qc_rngsz = 0, qc_rngsz_cmpt = 0, qc_c2h_bufsz = 0, qc_ping_pong_en = False,
     qc_aperture_size = 0, qc_latency_optimize = False, qc_proc_ul_cmpt_entry = False\<rparr>"

text \<open>A queue all of whose fields are zero, on a device and with the requests of its users.\<close>

definition zero_descq :: "xlnx_dma_dev \<Rightarrow> (nat \<Rightarrow> qdma_request) \<Rightarrow> qdma_descq" where
  "zero_descq xdev req = \<lparr>
     dq_conf = zero_conf, dq_channel = 0, dq_proc_req_running = False,
     dq_q_state = Q_STATE_DISABLED, dq_qidx_hw = 0, dq_intr_id = 0, dq_work_list = [],
     dq_work_req_pend = 0, dq_pend_list = [], dq_pend_list_empty = False, dq_q_stop_wait = False, dq_avail = 0,
     dq_pidx = 0, dq_cidx = 0, dq_credit = 0, dq_desc_bus = 0, dq_desc_cmpt_bus = 0, dq_cmpt_entry_len = 0,
     dq_pidx_cmpt = 0, dq_cidx_cmpt = 0, dq_total_cmpl_descs = 0, dq_desc_pend = 0,
     dq_pidx_info = \<lparr>pi_pidx = 0, pi_irq_en = 0\<rparr>,
     dq_cmpt_cidx_info = \<lparr>cc_wrb_cidx = 0, cc_counter_idx = 0, cc_timer_idx = 0, cc_trig_mode = 0, cc_wrb_en = 0, cc_irq_en = 0\<rparr>,
     dq_c2h_pend_pkt_moving_avg = 0, dq_c2h_pend_pkt_avg_thr_hi = 0, dq_c2h_pend_pkt_avg_thr_lo = 0,
     dq_sorted_c2h_cntr_idx = 0, dq_c2h_cntr_monitor_cnt = 0, dq_err = False, dq_color = False,
     dq_ping_pong_rx_time = 0, dq_ping_pong_tx_time = 0, dq_flq = empty_flq, dq_c2h_ring = [], dq_cmpt_cur = 0,
     dq_desc = False, dq_desc_cmpt = False, dq_desc_list = None, dq_freed = [], dq_mm_ring = [],
     dq_h2c_ring = [], dq_req = req, dq_done = [], dq_stamps = [], dq_unmaps = [],
     dq_copies = [], dq_page_refs = \<lambda>a. 0, dq_allocs = 0, dq_reads = 0,
     dq_log = [], dq_xdev = xdev\<rparr>"

text \<open>Initialisation clears all but what the model keeps beside the queue.\<close>

definition qdma_descq_init :: "xlnx_dma_dev \<Rightarrow> u32 \<Rightarrow> u32 \<Rightarrow> 24 word \<Rightarrow> qdma_descq \<Rightarrow> qdma_descq" where
  "qdma_descq_init xdev qbase idx_hw idx_sw s =
     (zero_descq xdev (dq_req s))\<lparr>dq_done := dq_done s, dq_stamps := dq_stamps s, dq_unmaps := dq_unmaps s,
       dq_copies := dq_copies s, dq_page_refs := dq_page_refs s, dq_allocs := dq_allocs s, dq_reads := dq_reads s,
       dq_log := dq_log s, dq_freed := dq_freed s, dq_qidx_hw := qbase + idx_hw, dq_conf := zero_conf\<lparr>qc_qidx := idx_sw\<rparr>\<rparr>"

subsection \<open>Configuration\<close>

text \<open>The first configuration is copied; the name of the queue is not modelled.\<close>

definition qdma_descq_config :: "qdma_queue_conf \<Rightarrow> bool \<Rightarrow> qdma_descq \<Rightarrow> qdma_descq" where
  "qdma_descq_config q reconfig s =
     (if \<not> reconfig then s\<lparr>dq_conf := q\<rparr>
      else
        (let irq = (xd_drv_mode (dq_xdev s) \<noteq> POLL_MODE) in
         s\<lparr>dq_channel := (if xd_ip_type (dq_xdev s) = QDMA_VERSAL_HARD_IP then of_bool (qc_mm_channel q) else dq_channel s),
           dq_conf := (dq_conf s)\<lparr>
             qc_desc_rng_sz_idx := qc_desc_rng_sz_idx q, qc_cmpl_rng_sz_idx := qc_cmpl_rng_sz_idx q,
             qc_c2h_buf_sz_idx := qc_c2h_buf_sz_idx q, qc_irq_en := irq, qc_cmpl_en_intr := irq,
             qc_wb_status_en := qc_wb_status_en q, qc_cmpl_status_acc_en := qc_cmpl_status_acc_en q,
             qc_cmpl_status_pend_chk := qc_cmpl_status_pend_chk q, qc_cmpl_stat_en := qc_cmpl_stat_en q,
             qc_cmpl_trig_mode := qc_cmpl_trig_mode q, qc_cmpl_timer_idx := qc_cmpl_timer_idx q,
             qc_fetch_credit := qc_fetch_credit q, qc_cmpl_cnt_th_idx := qc_cmpl_cnt_th_idx q,
             qc_desc_bypass := qc_desc_bypass q, qc_pfetch_bypass := qc_pfetch_bypass q, qc_pfetch_en := qc_pfetch_en q,
             qc_cmpl_udd_en := qc_cmpl_udd_en q, qc_cmpl_desc_sz := qc_cmpl_desc_sz q, qc_sw_desc_sz := qc_sw_desc_sz q,
             qc_cmpl_ovf_chk_dis := qc_cmpl_ovf_chk_dis q, qc_adaptive_rx := qc_adaptive_rx q,
             qc_ping_pong_en := qc_ping_pong_en q, qc_aperture_size := qc_aperture_size q, qc_pidx_acc := qc_pidx_acc q\<rparr>\<rparr>))"

text \<open>A queue with a completion ring.\<close>

definition has_cmpt :: "qdma_queue_conf \<Rightarrow> bool" where
  "has_cmpt c \<longleftrightarrow> st_c2h c \<or> \<not> qc_st c \<and> qc_q_type c = Q_CMPT"

text \<open>The smallest ring that is larger than \<open>v\<close>.\<close>

fun larger_ring :: "u32 \<Rightarrow> nat \<Rightarrow> u32 list \<Rightarrow> (nat \<times> u32) option \<Rightarrow> (nat \<times> u32) option" where
  "larger_ring v i [] best = best"
| "larger_ring v i (z # zs) best =
     larger_ring v (i + 1) zs
       (if z > v then (case best of None \<Rightarrow> Some (i, z) | Some (j, b) \<Rightarrow> if z < b then Some (i, z) else best) else best)"

fun find_idx :: "u8 \<Rightarrow> nat \<Rightarrow> u8 list \<Rightarrow> nat option" where
  "find_idx x i [] = None"
| "find_idx x i (y # ys) = (if y = x then Some i else find_idx x (i + 1) ys)"

definition config_cmpt :: "qdma_descq \<Rightarrow> qdma_descq" where
  "config_cmpt s =
     (let c = dq_conf s; csr = xd_csr_info (dq_xdev s);
          v = gc_ring_sz csr ! unat (qc_cmpl_rng_sz_idx c);
          idx = (case larger_ring v 0 (take QDMA_GLOBAL_CSR_ARRAY_SZ (gc_ring_sz csr)) None of
                   None \<Rightarrow> qc_cmpl_rng_sz_idx c | Some (i, z) \<Rightarrow> of_nat i) in
      s\<lparr>dq_conf := c\<lparr>qc_cmpl_rng_sz_idx := idx, qc_rngsz_cmpt := gc_ring_sz csr ! unat idx - 1,
                     qc_c2h_bufsz := gc_c2h_buf_sz csr ! unat (qc_c2h_buf_sz_idx c)\<rparr>,
        dq_cmpt_cidx_info := (dq_cmpt_cidx_info s)\<lparr>cc_irq_en := of_bool (qc_cmpl_en_intr c),
          cc_trig_mode := ucast (qc_cmpl_trig_mode c), cc_timer_idx := ucast (qc_cmpl_timer_idx c),
          cc_counter_idx := ucast (qc_cmpl_cnt_th_idx c), cc_wrb_en := of_bool (qc_cmpl_stat_en c)\<rparr>\<rparr>)"

definition config_counters :: "qdma_descq \<Rightarrow> qdma_descq" where
  "config_counters s =
     (let c = dq_conf s; x = dq_xdev s; th = gc_c2h_cnt_th (xd_csr_info x); sorted = xd_sorted_c2h_cntr_idx x;
          avg = th ! unat (qc_cmpl_cnt_th_idx c);
          k = (case find_idx (ucast (qc_cmpl_cnt_th_idx c)) 0 (take QDMA_GLOBAL_CSR_ARRAY_SZ sorted) of
                 None \<Rightarrow> dq_sorted_c2h_cntr_idx s | Some i \<Rightarrow> of_nat i);
          hi = (if unat k = QDMA_GLOBAL_CSR_ARRAY_SZ - 1 then unat k else unat k + 1);
          lo = (if k = 0 then 0 else unat k - 1) in
      s\<lparr>dq_cmpt_entry_len := push_bit (unat (qc_cmpl_desc_sz c)) 8, dq_c2h_pend_pkt_moving_avg := avg,
        dq_sorted_c2h_cntr_idx := k,
        dq_c2h_pend_pkt_avg_thr_hi := drop_bit 1 (avg + th ! unat (sorted ! hi)),
        dq_c2h_pend_pkt_avg_thr_lo := drop_bit 1 (avg + th ! unat (sorted ! lo))\<rparr>)"

definition qdma_descq_config_complete :: "qdma_descq \<Rightarrow> qdma_descq" where
  "qdma_descq_config_complete s =
     (let s1 = s\<lparr>dq_conf := (dq_conf s)\<lparr>qc_rngsz := gc_ring_sz (xd_csr_info (dq_xdev s)) ! unat (qc_desc_rng_sz_idx (dq_conf s)) - 1\<rparr>\<rparr>;
          s2 = (if has_cmpt (dq_conf s1) then config_cmpt s1 else s1);
          c = dq_conf s2;
          s3 = s2\<lparr>dq_pidx_info := (dq_pidx_info s2)\<lparr>pi_irq_en := (if st_c2h c then 0 else of_bool (qc_irq_en c))\<rparr>,
                  dq_avail := qc_rngsz c - 1, dq_pend_list_empty := True, dq_pidx := 0, dq_cidx := 0, dq_cidx_cmpt := 0,
                  dq_pidx_cmpt := 0, dq_credit := 0, dq_work_req_pend := 0\<rparr> in
      if has_cmpt c then config_counters s3 else s3)"

subsection \<open>The interrupt vector\<close>

text \<open>The data vector with the fewest queues, the first one that has none.\<close>

fun pick_vec :: "int \<Rightarrow> int \<Rightarrow> (int \<times> int) list \<Rightarrow> int" where
  "pick_vec idx m [] = idx"
| "pick_vec idx m ((i, cnt) # rest) =
     (if cnt = 0 then i
      else (let m = (if m < 0 then cnt else m) in
            if cnt < m then pick_vec i cnt rest else pick_vec idx m rest))"

definition desc_alloc_irq :: "qdma_descq \<Rightarrow> qdma_descq" where
  "desc_alloc_irq s =
     (let x = dq_xdev s; start = xd_dvec_start_idx x in
      if xd_num_vecs x = 0 then s
      else
        s\<lparr>dq_intr_id :=
            (if xd_drv_mode x = DIRECT_INTR_MODE
             then pick_vec start (- 1) (map (\<lambda>i. (i, xd_intr_list_cnt x ! nat i)) [start..int (unat (xd_data_msix_qvec_max x)) - 1])
             else start)\<rparr>)"

subsection \<open>Rings\<close>

definition get_desc_size :: "qdma_descq \<Rightarrow> int" where
  "get_desc_size s =
     (let c = dq_conf s in
      if qc_desc_bypass c \<and> qc_sw_desc_sz c = DESC_SZ_64B then DESC_SZ_64B_BYTES
      else if \<not> qc_st c then 32
      else if qc_q_type c = Q_C2H then 8 else 16)"

text \<open>The number of an allocation; \<open>None\<close> if there is no memory.\<close>

definition take_memory :: "dq_env \<Rightarrow> qdma_descq \<Rightarrow> nat option \<times> qdma_descq" where
  "take_memory e s = (if de_alloc e (dq_allocs s) then Some (dq_allocs s) else None, s\<lparr>dq_allocs := dq_allocs s + 1\<rparr>)"

definition free_memory :: "nat option \<Rightarrow> qdma_descq \<Rightarrow> qdma_descq" where
  "free_memory p s = (case p of None \<Rightarrow> s | Some a \<Rightarrow> s\<lparr>dq_freed := dq_freed s @ [a]\<rparr>)"

text \<open>The descriptor list of an upper-layer module is freed, but still pointed to.\<close>

definition qdma_descq_free_resource :: "qdma_descq \<Rightarrow> qdma_descq option" where
  "qdma_descq_free_resource s =
     (case (if dq_desc s then
              map_option (\<lambda>t. t\<lparr>dq_desc := False, dq_desc_bus := 0, dq_mm_ring := [], dq_h2c_ring := [], dq_c2h_ring := []\<rparr>)
                (if st_c2h (dq_conf s) then descq_flq_free_page_resource (descq_flq_free_resource s)
                 else Some (free_memory (dq_desc_list s) s))
            else Some s) of
        None \<Rightarrow> None
      | Some s1 \<Rightarrow> Some (if dq_desc_cmpt s1 then s1\<lparr>dq_desc_cmpt := False, dq_desc_cmpt_bus := 0\<rparr> else s1))"

definition zero_mm_desc :: qdma_mm_desc where
  "zero_mm_desc = \<lparr>md_src_addr = 0, md_flag_len = 0, md_dst_addr = 0\<rparr>"

definition zero_h2c_desc :: qdma_h2c_desc where
  "zero_h2c_desc = \<lparr>hd_cdh_flags = 0, hd_pld_len = 0, hd_len = 0, hd_flags = 0, hd_src_addr = 0\<rparr>"

definition set_flq :: "qdma_descq \<Rightarrow> qdma_descq" where
  "set_flq s =
     (let c = dq_conf s; bufsz = qc_c2h_bufsz c; buf_shift = fls bufsz - 1; sz = get_next_powof2 bufsz; shift = fls sz - 1;
          order = (if shift < PAGE_SHIFT then 0 else shift - PAGE_SHIFT) in
      upd_flq (\<lambda>fl. fl\<lparr>fl_size := qc_rngsz c, fl_buf_pg_shift := of_nat buf_shift, fl_buf_pg_mask := push_bit buf_shift 1 - 1,
        fl_desc_buf_size := sz, fl_desc_pg_shift := of_nat shift, fl_desc_pg_order := of_nat order,
        fl_max_pg_offset := push_bit order PAGE_SIZE\<rparr>) s)"

text \<open>The three parts of the allocation; each gives \<open>False\<close> when it fails.\<close>

definition alloc_desc :: "dq_env \<Rightarrow> qdma_descq \<Rightarrow> bool \<times> qdma_descq" where
  "alloc_desc e s =
     (let n = unat (qc_rngsz (dq_conf s)) in
      if qc_q_type (dq_conf s) = Q_CMPT then (True, s)
      else (case take_memory e s of
              (None, s1) \<Rightarrow> (False, s1)
            | (Some a, s1) \<Rightarrow> (True, s1\<lparr>dq_desc := True, dq_desc_bus := de_bus e a, dq_mm_ring := replicate n zero_mm_desc,
                                      dq_h2c_ring := replicate n zero_h2c_desc, dq_c2h_ring := replicate n 0\<rparr>)))"

definition alloc_bufs :: "dq_env \<Rightarrow> qdma_descq \<Rightarrow> (bool \<times> qdma_descq) option" where
  "alloc_bufs e s =
     (if st_c2h (dq_conf s) then map_option (\<lambda>(rv, t). (0 \<le> rv, t)) (descq_flq_alloc_resource e (set_flq s))
      else if is_ul_ext (dq_conf s)
      then (case take_memory e s of
              (None, s1) \<Rightarrow> Some (False, s1\<lparr>dq_desc_list := None\<rparr>) | (Some a, s1) \<Rightarrow> Some (True, s1\<lparr>dq_desc_list := Some a\<rparr>))
      else Some (True, s))"

definition alloc_cmpt :: "dq_env \<Rightarrow> qdma_descq \<Rightarrow> bool \<times> qdma_descq" where
  "alloc_cmpt e s =
     (if has_cmpt (dq_conf s)
      then (case take_memory e (s\<lparr>dq_color := True\<rparr>) of
              (None, s1) \<Rightarrow> (False, s1)
            | (Some a, s1) \<Rightarrow> (True, s1\<lparr>dq_desc_cmpt := True, dq_desc_cmpt_bus := de_bus e a, dq_cmpt_cur := 0\<rparr>))
      else (True, s))"

definition qdma_descq_alloc_resource :: "dq_env \<Rightarrow> qdma_descq \<Rightarrow> (int \<times> qdma_descq) option" where
  "qdma_descq_alloc_resource e s =
     (let (ok, s1) = alloc_desc e s in
      if \<not> ok then with_rv (- ENOMEM) (qdma_descq_free_resource s1)
      else
        (case alloc_bufs e s1 of
           None \<Rightarrow> None
         | Some (ok, s2) \<Rightarrow>
             if \<not> ok then with_rv (- ENOMEM) (qdma_descq_free_resource s2)
             else
               (let (ok, s3) = alloc_cmpt e s2 in
                if \<not> ok then with_rv (- ENOMEM) (qdma_descq_free_resource s3) else Some (0, desc_alloc_irq s3))))"

subsection \<open>The first pointers\<close>

text \<open>The hardware is told that all completion entries are free and, for receive buffers, all of them filled.\<close>

definition write_pointers :: "dq_env \<Rightarrow> qdma_descq \<Rightarrow> int \<times> qdma_descq" where
  "write_pointers e s =
     (let (rv, s1) = queue_cmpt_cidx_update e (s\<lparr>dq_cmpt_cidx_info := (dq_cmpt_cidx_info s)\<lparr>cc_wrb_cidx := 0\<rparr>\<rparr>) in
      if rv < 0 then (- EINVAL, s1)
      else if qc_q_type (dq_conf s1) = Q_CMPT then (0, s1)
      else
        (let (rv, s2) = queue_pidx_update e (s1\<lparr>dq_pidx_info := (dq_pidx_info s1)\<lparr>pi_pidx := ucast (qc_rngsz (dq_conf s1) - 1)\<rparr>\<rparr>) in
         (if rv < 0 then - EINVAL else 0, s2)))"

definition qdma_q_init_pointers :: "dq_env \<Rightarrow> qdma_descq \<Rightarrow> int \<times> qdma_descq" where
  "qdma_q_init_pointers e s =
     (if has_cmpt (dq_conf s) \<and> qc_init_pidx_dis (dq_conf s) then write_pointers e s else (- EINVAL, s))"

text \<open>Descriptors for an upper-layer module: those from the producer index on, the index of the first.\<close>

definition qdma_q_desc_get :: "dq_env \<Rightarrow> u32 \<Rightarrow> qdma_descq \<Rightarrow> (int + u32) \<times> qdma_descq" where
  "qdma_q_desc_get e desc_cnt s =
     (if desc_cnt \<ge> qc_rngsz (dq_conf s) then (Inl (- EINVAL), s)
      else
        (let s1 = (if dq_avail s < desc_cnt then descq_mm_n_h2c_cmpl_status e s else s) in
         if dq_avail s1 < desc_cnt then (Inl (- EBUSY), s1)
         else (Inr (dq_pidx s1),
               s1\<lparr>dq_pidx := incr_pidx (dq_pidx s1) desc_cnt (qc_rngsz (dq_conf s1)), dq_avail := dq_avail s1 - desc_cnt\<rparr>)))"

end
