(* ===== verification/Descq_Context.thy ===== *)
theory Descq_Context
  imports Descq_Config Mbox_Safety
begin

text \<open>
  The contexts of a queue as the driver fills them from its configuration (\<^verbatim>\<open>libqdma/qdma_context.c\<close>).
  A physical function writes them itself; a virtual function sends the configuration to its physical
  function in a mailbox message. The hardware access table is the one of the soft IP; its entry for the
  vector map of a queue (\<^verbatim>\<open>qdma_qid2vec_conf\<close>), which only other devices have, and the exchange of
  a message for its response (\<^verbatim>\<open>qdma_mbox_msg_send\<close>) are parameters.
\<close>

subsection \<open>Error codes\<close>

text \<open>\<^verbatim>\<open>qdma_platform.c\<close>: the table is read at the negated code, which is in range for the access functions.\<close>

definition EPERM :: int where "EPERM = 1"

definition error_code_map_list :: "int list" where
  "error_code_map_list = [0, EINVAL, ENOMEM, EBUSY, EINVAL, EINVAL, EINVAL, EINVAL, EPERM, EINVAL, EPERM, EINVAL,
     EPERM, EPERM, EIO, EINVAL, EINVAL, EINVAL, EINVAL, EINVAL, EINVAL, EINVAL, EBUSY, EINVAL, EIO, EINVAL]"

definition qdma_get_err_code :: "int \<Rightarrow> int" where
  "qdma_get_err_code acc_err_code = - (error_code_map_list ! nat (- acc_err_code))"

subsection \<open>The contexts\<close>

text \<open>The ring of the interrupt vector \<open>v\<close>; the arithmetic is unsigned.\<close>

definition get_intr_ring_index :: "xlnx_dma_dev \<Rightarrow> u32 \<Rightarrow> int" where
  "get_intr_ring_index x v =
     sint (v - word_of_int (xd_dvec_start_idx x) + ucast (xd_func_id x) * of_nat QDMA_NUM_DATA_VEC_FOR_INTR_CXT :: u32)"

definition indirect_mode :: "xlnx_dma_dev \<Rightarrow> bool" where
  "indirect_mode x \<longleftrightarrow> xd_drv_mode x = INDIRECT_INTR_MODE \<or> xd_drv_mode x = AUTO_MODE"

definition vec_of :: "qdma_descq \<Rightarrow> int" where
  "vec_of d = (if indirect_mode (dq_xdev d) then get_intr_ring_index (dq_xdev d) (word_of_int (dq_intr_id d))
               else dq_intr_id d)"

definition make_sw_context :: "qdma_descq \<Rightarrow> qdma_descq_sw_ctxt" where
  "make_sw_context d =
     (let c = dq_conf d;
          sw1 = zero_sw_ctxt\<lparr>sw_vec := word_of_int (vec_of d), sw_intr_aggr := of_bool (indirect_mode (dq_xdev d)),
                  sw_ring_bs_addr := dq_desc_bus d, sw_wbi_chk := of_bool (qc_cmpl_status_pend_chk c),
                  sw_wbi_intvl_en := of_bool (qc_cmpl_status_acc_en c), sw_rngsz_idx := ucast (qc_desc_rng_sz_idx c),
                  sw_bypass := of_bool (qc_desc_bypass c), sw_wbk_en := of_bool (qc_wb_status_en c),
                  sw_irq_en := of_bool (qc_irq_en c), sw_is_mm := NOT (of_bool (qc_st c)), sw_qen := 1\<rparr>;
          sw2 = (if qc_desc_bypass c \<and> qc_sw_desc_sz c = DESC_SZ_64B then sw1\<lparr>sw_desc_sz := ucast (qc_sw_desc_sz c)\<rparr>
                 else if \<not> qc_st c then sw1\<lparr>sw_desc_sz := ucast DESC_SZ_32B, sw_mm_chn := dq_channel d\<rparr>
                 else if qc_q_type c = Q_C2H then sw1\<lparr>sw_frcd_en := of_bool (qc_fetch_credit c), sw_desc_sz := ucast DESC_SZ_8B\<rparr>
                 else if qc_q_type c = Q_H2C then sw1\<lparr>sw_frcd_en := of_bool (qc_fetch_credit c), sw_desc_sz := ucast DESC_SZ_16B\<rparr>
                 else sw1\<lparr>sw_desc_sz := ucast DESC_SZ_16B\<rparr>);
          sw3 = sw2\<lparr>sw_fnc_id := xd_func_id (dq_xdev d), sw_irq_arm := of_bool (qc_irq_en c)\<rparr>;
          sw4 = (if st_c2h c then sw3\<lparr>sw_irq_en := 0, sw_irq_arm := 0, sw_wbk_en := 0, sw_wbi_chk := 0\<rparr> else sw3) in
      if \<not> qc_desc_bypass c \<and> (\<not> qc_st c \<or> qc_q_type c = Q_H2C) then sw4\<lparr>sw_mrkr_dis := 1\<rparr> else sw4)"

record qdma_qid2vec =
  qv_c2h_vector :: u8
  qv_c2h_en_coal :: u8
  qv_h2c_vector :: u8
  qv_h2c_en_coal :: u8

definition zero_qid2vec :: qdma_qid2vec where
  "zero_qid2vec = \<lparr>qv_c2h_vector = 0, qv_c2h_en_coal = 0, qv_h2c_vector = 0, qv_h2c_en_coal = 0\<rparr>"

definition make_qid2vec_context :: "qdma_descq \<Rightarrow> qdma_qid2vec" where
  "make_qid2vec_context d =
     (let vec = word_of_int (vec_of d); coal = of_bool (indirect_mode (dq_xdev d)) in
      case qc_q_type (dq_conf d) of
        Q_C2H \<Rightarrow> zero_qid2vec\<lparr>qv_c2h_en_coal := coal, qv_c2h_vector := vec\<rparr>
      | Q_H2C \<Rightarrow> zero_qid2vec\<lparr>qv_h2c_en_coal := coal, qv_h2c_vector := vec\<rparr>
      | _ \<Rightarrow> zero_qid2vec)"

definition make_prefetch_context :: "qdma_descq \<Rightarrow> qdma_descq_prefetch_ctxt" where
  "make_prefetch_context d =
     (let c = dq_conf d in
      zero_prefetch_ctxt\<lparr>pf_valid := 1, pf_bypass := of_bool (qc_pfetch_bypass c),
        pf_bufsz_idx := ucast (qc_c2h_buf_sz_idx c), pf_pfch_en := of_bool (qc_pfetch_en c)\<rparr>)"

definition make_cmpt_context :: "qdma_descq \<Rightarrow> qdma_descq_cmpt_ctxt" where
  "make_cmpt_context d =
     (let c = dq_conf d in
      zero_cmpt_ctxt\<lparr>cm_en_stat_desc := of_bool (qc_cmpl_stat_en c), cm_en_int := of_bool (qc_cmpl_en_intr c),
        cm_trig_mode := ucast (qc_cmpl_trig_mode c), cm_fnc_id := xd_func_id (dq_xdev d),
        cm_timer_idx := ucast (qc_cmpl_timer_idx c), cm_counter_idx := ucast (qc_cmpl_cnt_th_idx c), cm_color := 1,
        cm_ringsz_idx := ucast (qc_cmpl_rng_sz_idx c), cm_bs_addr := dq_desc_cmpt_bus d,
        cm_desc_sz := ucast (qc_cmpl_desc_sz c), cm_full_upd := of_bool (qc_adaptive_rx c), cm_valid := 1,
        cm_ovf_chk_dis := of_bool (qc_cmpl_ovf_chk_dis c), cm_vec := word_of_int (vec_of d),
        cm_int_aggr := of_bool (indirect_mode (dq_xdev d))\<rparr>)"

subsection \<open>The physical function\<close>

text \<open>One access after the other; the first one that fails ends it with its error code converted.\<close>

definition or_error :: "int \<times> hw_log \<Rightarrow> (hw_log \<Rightarrow> int \<times> hw_log) \<Rightarrow> int \<times> hw_log" where
  "or_error r f = (if fst r < 0 then (qdma_get_err_code (fst r), snd r) else f (snd r))"

definition skip_unless :: "bool \<Rightarrow> int \<times> hw_log \<Rightarrow> hw_log \<Rightarrow> int \<times> hw_log" where
  "skip_unless b r s = (if b then r else (0, s))"

definition cmpt_queue :: "bool \<Rightarrow> u8 \<Rightarrow> bool" where
  "cmpt_queue st ty \<longleftrightarrow> st \<and> ty = q_type_val Q_C2H \<or> \<not> st \<and> ty = q_type_val Q_CMPT"

definition qdma_descq_context_clear :: "dev_hndl \<Rightarrow> u32 \<Rightarrow> bool \<Rightarrow> u8 \<Rightarrow> bool \<Rightarrow> hw_log \<Rightarrow> int \<times> hw_log" where
  "qdma_descq_context_clear dev qid_hw st ty clr s =
     (let access = (if clr then QDMA_HW_ACCESS_CLEAR else QDMA_HW_ACCESS_INVALIDATE); qid = ucast qid_hw;
          q = (ty \<noteq> q_type_val Q_CMPT) in
      or_error (skip_unless q (drop_ctxt (qdma_sw_ctx_conf dev ty qid None access s)) s) (\<lambda>s.
      or_error (skip_unless q (drop_ctxt (qdma_hw_ctx_conf dev ty qid None access s)) s) (\<lambda>s.
      or_error (skip_unless q (drop_ctxt (qdma_credit_ctx_conf dev ty qid None access s)) s) (\<lambda>s.
      or_error (skip_unless (q \<and> st \<and> ty = q_type_val Q_C2H) (drop_ctxt (qdma_pfetch_ctx_conf dev qid None access s)) s) (\<lambda>s.
      or_error (skip_unless (cmpt_queue st ty) (drop_ctxt (qdma_cmpt_ctx_conf dev qid None access s)) s) (\<lambda>s.
      (0, s)))))))"

type_synonym qid2vec_conf = "u8 \<Rightarrow> u16 \<Rightarrow> qdma_qid2vec \<Rightarrow> hw_log \<Rightarrow> hw_log"

text \<open>The error code of the clearing is converted a second time.\<close>

definition qdma_descq_context_program ::
  "dev_hndl \<Rightarrow> qid2vec_conf \<Rightarrow> xlnx_dma_dev \<Rightarrow> u32 \<Rightarrow> bool \<Rightarrow> u8 \<Rightarrow> qdma_descq_context \<Rightarrow> qdma_qid2vec \<Rightarrow> hw_log \<Rightarrow> int \<times> hw_log" where
  "qdma_descq_context_program dev q2v x qid_hw st ty c v s =
     (let qid = ucast qid_hw; q = (ty \<noteq> q_type_val Q_CMPT) in
      or_error (qdma_descq_context_clear dev qid_hw st ty True s) (\<lambda>s.
      or_error (skip_unless q (drop_ctxt (qdma_sw_ctx_conf dev ty qid (Some (dc_sw_ctxt c)) QDMA_HW_ACCESS_WRITE s)) s) (\<lambda>s.
      let s = (if q \<and> qid2vec_ctx (xd_dev_cap x) \<noteq> 0 \<and> xd_drv_mode x \<noteq> POLL_MODE then q2v ty qid v s else s) in
      or_error (skip_unless (q \<and> st \<and> ty \<noteq> 0)
        (drop_ctxt (qdma_pfetch_ctx_conf dev qid (Some (dc_pfetch_ctxt c)) QDMA_HW_ACCESS_WRITE s)) s) (\<lambda>s.
      or_error (skip_unless (cmpt_queue st ty)
        (drop_ctxt (qdma_cmpt_ctx_conf dev qid (Some (dc_cmpt_ctxt c)) QDMA_HW_ACCESS_WRITE s)) s) (\<lambda>s.
      (0, s))))))"

definition make_context :: "qdma_descq \<Rightarrow> qdma_descq_context" where
  "make_context d =
     (let c = dq_conf d; q = (qc_q_type c \<noteq> Q_CMPT) in
      zero_descq_context\<lparr>dc_sw_ctxt := (if q then make_sw_context d else zero_sw_ctxt),
        dc_pfetch_ctxt := (if q \<and> st_c2h c then make_prefetch_context d else zero_prefetch_ctxt),
        dc_cmpt_ctxt := (if has_cmpt c then make_cmpt_context d else zero_cmpt_ctxt)\<rparr>)"

definition qdma_descq_context_setup :: "dev_hndl \<Rightarrow> qid2vec_conf \<Rightarrow> qdma_descq \<Rightarrow> hw_log \<Rightarrow> int \<times> hw_log" where
  "qdma_descq_context_setup dev q2v d s =
     (let c = dq_conf d; x = dq_xdev d;
          v = (if qc_q_type c \<noteq> Q_CMPT \<and> qid2vec_ctx (xd_dev_cap x) \<noteq> 0 \<and> xd_drv_mode x \<noteq> POLL_MODE
               then make_qid2vec_context d else zero_qid2vec) in
      qdma_descq_context_program dev q2v x (dq_qidx_hw d) (qc_st c) (q_type_val (qc_q_type c)) (make_context d) v s)"

definition or_error_ctxt ::
  "int \<times> 'c option \<times> hw_log \<Rightarrow> 'c \<Rightarrow> ('c \<Rightarrow> qdma_descq_context \<Rightarrow> qdma_descq_context) \<Rightarrow> qdma_descq_context
     \<Rightarrow> (qdma_descq_context \<Rightarrow> hw_log \<Rightarrow> int \<times> qdma_descq_context \<times> hw_log) \<Rightarrow> int \<times> qdma_descq_context \<times> hw_log" where
  "or_error_ctxt r old put c f =
     (let (rv, x, s) = r; c1 = put (keep_ctxt old x) c in
      if rv < 0 then (qdma_get_err_code rv, c1, s) else f c1 s)"

definition qdma_descq_context_read ::
  "dev_hndl \<Rightarrow> u32 \<Rightarrow> bool \<Rightarrow> u8 \<Rightarrow> hw_log \<Rightarrow> int \<times> qdma_descq_context \<times> hw_log" where
  "qdma_descq_context_read dev qid_hw st ty s =
     (let qid = ucast qid_hw; q = (ty \<noteq> q_type_val Q_CMPT); z = zero_descq_context in
      or_error_ctxt (if q then qdma_sw_ctx_conf dev ty qid (Some zero_sw_ctxt) QDMA_HW_ACCESS_READ s else (0, None, s))
        zero_sw_ctxt (\<lambda>x c. c\<lparr>dc_sw_ctxt := x\<rparr>) z (\<lambda>c s.
      or_error_ctxt (if q then qdma_hw_ctx_conf dev ty qid (Some zero_hw_ctxt) QDMA_HW_ACCESS_READ s else (0, None, s))
        zero_hw_ctxt (\<lambda>x c. c\<lparr>dc_hw_ctxt := x\<rparr>) c (\<lambda>c s.
      or_error_ctxt (if q then qdma_credit_ctx_conf dev ty qid (Some zero_credit_ctxt) QDMA_HW_ACCESS_READ s else (0, None, s))
        zero_credit_ctxt (\<lambda>x c. c\<lparr>dc_cr_ctxt := x\<rparr>) c (\<lambda>c s.
      or_error_ctxt (if q \<and> st \<and> ty \<noteq> 0 then qdma_pfetch_ctx_conf dev qid (Some zero_prefetch_ctxt) QDMA_HW_ACCESS_READ s else (0, None, s))
        zero_prefetch_ctxt (\<lambda>x c. c\<lparr>dc_pfetch_ctxt := x\<rparr>) c (\<lambda>c s.
      or_error_ctxt (if cmpt_queue st ty then qdma_cmpt_ctx_conf dev qid (Some zero_cmpt_ctxt) QDMA_HW_ACCESS_READ s else (0, None, s))
        zero_cmpt_ctxt (\<lambda>x c. c\<lparr>dc_cmpt_ctxt := x\<rparr>) c (\<lambda>c s.
      (0, c, s)))))))"

text \<open>The contexts and then, unless that is left to the user of the queue, the first pointers.\<close>

definition qdma_descq_prog_hw :: "dq_env \<Rightarrow> qid2vec_conf \<Rightarrow> qdma_descq \<Rightarrow> int \<times> qdma_descq" where
  "qdma_descq_prog_hw e q2v d =
     (let (rv, s) = qdma_descq_context_setup (Some (de_hw e)) q2v d (dq_log d); d1 = d\<lparr>dq_log := s\<rparr> in
      if rv < 0 then (rv, d1)
      else if has_cmpt (dq_conf d1) \<and> \<not> qc_init_pidx_dis (dq_conf d1) then write_pointers e d1 else (rv, d1))"

subsection \<open>Interrupt contexts\<close>

definition make_intr_context :: "xlnx_dma_dev \<Rightarrow> nat \<Rightarrow> qdma_indirect_intr_ctxt" where
  "make_intr_context x i =
     (let entry = xd_intr_coal_list x ! i in
      zero_intr_ctxt\<lparr>ii_valid := 1, ii_vec := co_vec_id entry, ii_baddr_4k := co_intr_ring_bus entry, ii_color := co_color entry,
        ii_page_size := xd_intr_rngsz x, ii_func_id := ucast (xd_func_id x)\<rparr>)"

definition ring_of_vector :: "xlnx_dma_dev \<Rightarrow> nat \<Rightarrow> int" where
  "ring_of_vector x i = get_intr_ring_index x (word_of_int (int i + xd_dvec_start_idx x))"

fun setup_rings :: "dev_hndl \<Rightarrow> xlnx_dma_dev \<Rightarrow> nat list \<Rightarrow> hw_log \<Rightarrow> int \<times> hw_log" where
  "setup_rings dev x [] s = (0, s)"
| "setup_rings dev x (i # is) s =
     (let ring = word_of_int (ring_of_vector x i) in
      or_error (drop_ctxt (qdma_indirect_intr_ctx_conf dev ring None QDMA_HW_ACCESS_CLEAR s)) (\<lambda>s.
      or_error (drop_ctxt (qdma_indirect_intr_ctx_conf dev ring (Some (make_intr_context x i)) QDMA_HW_ACCESS_WRITE s)) (\<lambda>s.
      setup_rings dev x is s)))"

definition qdma_intr_context_setup :: "dev_hndl \<Rightarrow> xlnx_dma_dev \<Rightarrow> hw_log \<Rightarrow> int \<times> hw_log" where
  "qdma_intr_context_setup dev x s =
     (if \<not> indirect_mode x then (0, s) else setup_rings dev x [0..<QDMA_NUM_DATA_VEC_FOR_INTR_CXT] s)"

definition qdma_intr_context_read :: "dev_hndl \<Rightarrow> int \<Rightarrow> hw_log \<Rightarrow> int \<times> qdma_indirect_intr_ctxt \<times> hw_log" where
  "qdma_intr_context_read dev ring_index s =
     (let (rv, c, s1) = qdma_indirect_intr_ctx_conf dev (word_of_int ring_index) (Some zero_intr_ctxt) QDMA_HW_ACCESS_READ s in
      (if rv < 0 then qdma_get_err_code rv else 0, keep_ctxt zero_intr_ctxt c, s1))"

text \<open>The contexts of an interrupt message; \<open>None\<close> when it names more rings than it has room for.\<close>

fun prog_rings :: "dev_hndl \<Rightarrow> mbox_msg_intr_ctxt \<Rightarrow> nat list \<Rightarrow> hw_log \<Rightarrow> (int \<times> hw_log) option" where
  "prog_rings dev m [] s = Some (0, s)"
| "prog_rings dev m (i # is) s =
     (case (elem_at (ic_ring_index_list m) i, elem_at (ic_ictxt m) i) of
        (Some ring, Some c) \<Rightarrow>
          (let (rv, s1) = drop_ctxt (qdma_indirect_intr_ctx_conf dev (ucast ring) (Some c) QDMA_HW_ACCESS_WRITE s) in
           if rv < 0 then Some (qdma_get_err_code rv, s1) else prog_rings dev m is s1)
      | _ \<Rightarrow> None)"

definition qdma_prog_intr_context :: "dev_hndl \<Rightarrow> mbox_msg_intr_ctxt \<Rightarrow> hw_log \<Rightarrow> (int \<times> hw_log) option" where
  "qdma_prog_intr_context dev m s = prog_rings dev m [0..<unat (ic_num_rings m)] s"

subsection \<open>The virtual function\<close>

text \<open>
  What the driver of a virtual function asks for: the ring and buffer sizes and thresholds
  themselves, whose indices the physical function looks up. \<open>exchange\<close> sends a message that expects an answer:
  the result of the send and the message with the response.
\<close>

type_synonym exchange = "qdma_mbox_txrx \<Rightarrow> int \<times> qdma_mbox_txrx"

definition cmpt_ctxt_type :: "bool \<Rightarrow> u8 \<Rightarrow> mbox_cmpt_ctxt_type" where
  "cmpt_ctxt_type st ty =
     (if \<not> st then (if ty = q_type_val Q_CMPT then QDMA_MBOX_CMPT_CTXT_ONLY else QDMA_MBOX_CMPT_CTXT_NONE)
      else if ty = q_type_val Q_C2H then QDMA_MBOX_CMPT_WITH_ST else QDMA_MBOX_CMPT_CTXT_NONE)"

definition vf_desc_sz :: "qdma_queue_conf \<Rightarrow> 2 word" where
  "vf_desc_sz c =
     (if qc_desc_bypass c \<and> qc_sw_desc_sz c = DESC_SZ_64B then qc_sw_desc_sz c
      else if qc_q_type c = Q_CMPT then 0
      else if \<not> qc_st c then DESC_SZ_32B
      else if qc_q_type c \<noteq> Q_H2C then DESC_SZ_8B else DESC_SZ_16B)"

definition vf_forced_en :: "qdma_queue_conf \<Rightarrow> bool" where
  "vf_forced_en c \<longleftrightarrow> \<not> (qc_desc_bypass c \<and> qc_sw_desc_sz c = DESC_SZ_64B) \<and> qc_q_type c \<noteq> Q_CMPT \<and> qc_st c \<and>
     qc_q_type c \<noteq> Q_H2C \<and> qc_fetch_credit c"

definition vf_intr_id :: "qdma_descq \<Rightarrow> 11 word" where
  "vf_intr_id d = (if indirect_mode (dq_xdev d) then ucast ((word_of_int (vec_of d) :: u32) AND 0xFFF) else word_of_int (dq_intr_id d))"

definition vf_descq_conf :: "qdma_descq \<Rightarrow> mbox_descq_conf" where
  "vf_descq_conf d =
     (let c = dq_conf d; x = dq_xdev d; csr = xd_csr_info x in
      \<lparr>mq_ring_bs_addr = dq_desc_bus d, mq_cmpt_ring_bs_addr = dq_desc_cmpt_bus d, mq_forced_en = of_bool (vf_forced_en c),
       mq_en_bypass = of_bool (qc_desc_bypass c), mq_irq_arm = of_bool (qc_irq_en c),
       mq_wbi_intvl_en = of_bool (qc_cmpl_status_acc_en c), mq_wbi_chk = of_bool (qc_cmpl_status_pend_chk c),
       mq_at = of_bool (qc_at c), mq_wbk_en = of_bool (qc_wb_status_en c), mq_irq_en = of_bool (qc_irq_en c),
       mq_pfch_en = of_bool (qc_pfetch_en c), mq_en_bypass_prefetch = of_bool (qc_pfetch_bypass c),
       mq_dis_overflow_check = of_bool (qc_cmpl_ovf_chk_dis c), mq_cmpt_int_en = of_bool (qc_cmpl_en_intr c),
       mq_cmpt_at = of_bool (qc_at c), mq_cmpt_color = 1, mq_cmpt_full_upd = 0, mq_cmpl_stat_en = of_bool (qc_cmpl_stat_en c),
       mq_desc_sz = vf_desc_sz c, mq_cmpt_desc_sz = qc_cmpl_desc_sz c, mq_triggermode = qc_cmpl_trig_mode c,
       mq_func_id = ucast (xd_func_id x),
       mq_cnt_thres = ucast (gc_c2h_cnt_th csr ! unat (qc_cmpl_cnt_th_idx c)),
       mq_timer_thres = ucast (gc_c2h_timer_cnt csr ! unat (qc_cmpl_timer_idx c)),
       mq_intr_id = vf_intr_id d, mq_intr_aggr = of_bool (indirect_mode x), mq_ringsz = ucast (qc_rngsz c),
       mq_bufsz = ucast (qc_c2h_bufsz c), mq_cmpt_ringsz = ucast (qc_rngsz_cmpt c)\<rparr>)"

definition vf_setup_msg :: "qdma_descq \<Rightarrow> qdma_mbox_txrx" where
  "vf_setup_msg d =
     (let c = dq_conf d; ty = q_type_val (qc_q_type c) in
      the (snd (qdma_mbox_compose_vf_qctxt_write (ucast (xd_func_id (dq_xdev d))) (ucast (dq_qidx_hw d)) (of_bool (qc_st c)) ty
        (cmpt_ctxt_type (qc_st c) ty) (vf_descq_conf d) (Some zero_msg))))"

text \<open>A request that needs no more than the status of the response; \<open>mem\<close> is the allocation of the message.\<close>

definition ask_status :: "exchange \<Rightarrow> bool \<Rightarrow> qdma_mbox_txrx \<Rightarrow> int" where
  "ask_status exchange mem m =
     (if \<not> mem then - ENOMEM
      else
        (let (rv, m1) = exchange m in
         if rv < 0 then rv
         else if qdma_mbox_vf_response_status m1 < 0 then - EINVAL else qdma_mbox_vf_response_status m1))"

definition vf_descq_context_setup :: "exchange \<Rightarrow> bool \<Rightarrow> qdma_descq \<Rightarrow> int" where
  "vf_descq_context_setup exchange mem d = ask_status exchange mem (vf_setup_msg d)"

definition vf_descq_context_clear :: "exchange \<Rightarrow> bool \<Rightarrow> u8 \<Rightarrow> u32 \<Rightarrow> bool \<Rightarrow> u8 \<Rightarrow> bool \<Rightarrow> int" where
  "vf_descq_context_clear exchange mem fid qid_hw st ty clr =
     (let compose_reset = (if clr then qdma_mbox_compose_vf_qctxt_clear else qdma_mbox_compose_vf_qctxt_invalidate) in
      ask_status exchange mem
        (the (snd (compose_reset (ucast fid) (ucast qid_hw) (of_bool st) ty (cmpt_ctxt_type st ty) (Some zero_msg)))))"

text \<open>\<open>None\<close> leaves the context of the caller as it is.\<close>

definition vf_descq_context_read :: "exchange \<Rightarrow> bool \<Rightarrow> u8 \<Rightarrow> u32 \<Rightarrow> bool \<Rightarrow> u8 \<Rightarrow> int \<times> qdma_descq_context option" where
  "vf_descq_context_read exchange mem fid qid_hw st ty =
     (if \<not> mem then (- ENOMEM, None)
      else
        (let (rv, m1) = exchange (the (snd (qdma_mbox_compose_vf_qctxt_read (ucast fid) (ucast qid_hw) (of_bool st) ty
                          (cmpt_ctxt_type st ty) (Some zero_msg)))) in
         if rv < 0 then (rv, None)
         else
           (let (rv, c) = qdma_mbox_vf_context_get m1 in (if rv < 0 then - EINVAL else rv, Some c))))"

definition vf_intr_msg :: "xlnx_dma_dev \<Rightarrow> qdma_mbox_txrx" where
  "vf_intr_msg x =
     (let n = QDMA_NUM_DATA_VEC_FOR_INTR_CXT in
      the (snd (qdma_mbox_compose_vf_intr_ctxt_write (ucast (xd_func_id x))
        \<lparr>ic_num_rings = of_nat n,
         ic_ring_index_list = map (\<lambda>i. word_of_int (get_intr_ring_index x (word_of_int (xd_dvec_start_idx x + int i)))) [0..<n],
         ic_ictxt = map (make_intr_context x) [0..<n]\<rparr> (Some zero_msg))))"

definition vf_intr_context_setup :: "exchange \<Rightarrow> bool \<Rightarrow> xlnx_dma_dev \<Rightarrow> int" where
  "vf_intr_context_setup exchange mem x = (if \<not> indirect_mode x then 0 else ask_status exchange mem (vf_intr_msg x))"

text \<open>A failed send is only reported in the log; the message is then read as if it were the response.\<close>

definition vf_intr_context_read :: "exchange \<Rightarrow> bool \<Rightarrow> u8 \<Rightarrow> int \<Rightarrow> int \<times> qdma_indirect_intr_ctxt option" where
  "vf_intr_context_read exchange mem fid ring_index =
     (if \<not> mem then (- ENOMEM, None)
      else
        (let m = the (snd (qdma_mbox_compose_vf_intr_ctxt_read (ucast fid)
                   ((m_intr_ctxt zero_msg)\<lparr>ic_num_rings := 1,
                      ic_ring_index_list := (ic_ring_index_list (m_intr_ctxt zero_msg))[0 := word_of_int ring_index]\<rparr>)
                   (Some zero_msg)));
             m1 = snd (exchange m); (rv, c) = qdma_mbox_vf_intr_context_get m1 in
         if rv < 0 then (- EINVAL, None) else (rv, Some (ic_ictxt c ! 0))))"

end
