(* ===== verification/Descq_Proc.thy ===== *)
theory Descq_Proc
  imports Descq
begin

text \<open>
  Request processing of a descriptor queue (\<^verbatim>\<open>libqdma/qdma_descq.c\<close>): the loops that write the
  descriptors of memory mapped requests (\<^verbatim>\<open>descq_mm_proc_request\<close>) and of streaming host-to-card
  requests (\<^verbatim>\<open>descq_proc_st_h2c_request\<close>), and the service of completions. The local
  \<^verbatim>\<open>desc\<close> of the code is always the ring entry with the number \<^verbatim>\<open>pidx\<close>; an access outside the
  ring gives \<open>None\<close>. The loop over the work list need not end, so it is a partial function:
  \<open>None\<close> says that it does not return.
\<close>

subsection \<open>Filling the ring\<close>

text \<open>
  The local variables of the two loops over one request; \<open>f_end\<close> is the last descriptor written,
  \<open>f_stamp\<close> the place for the time stamp of the latency measurement.
\<close>

record 'd fill =
  f_ring :: "'d list"
  f_pidx :: u32
  f_ep_addr :: u64
  f_data_cnt :: u32
  f_desc_cnt :: u32
  f_sg_offset :: u32
  f_end :: "u32 option"
  f_stamp :: "u64 option"

record fill_par =
  p_rngsz :: u32
  p_desc_max :: u32
  p_c2h :: bool
  p_aperture :: u32
  p_keyhole :: bool
  p_req_ep_addr :: u64
  p_ep_addr_max :: u64
  p_bypass :: bool
  p_sg_max :: nat

definition next_pidx :: "fill_par \<Rightarrow> u32 \<Rightarrow> u32" where
  "next_pidx p pidx = (if pidx + 1 = p_rngsz p then 0 else pidx + 1)"

text \<open>The keyhole keeps the end point address inside the aperture.\<close>

definition mm_chunk :: "fill_par \<Rightarrow> u32 \<Rightarrow> u64 \<Rightarrow> u32 \<times> u64" where
  "mm_chunk p tlen ep_addr =
     (let len = min tlen (p_aperture p) in
      if p_keyhole p then
        (let ep_addr = (if ep_addr > p_ep_addr_max p then p_req_ep_addr p else ep_addr);
             len = (if ep_addr + ucast len > p_ep_addr_max p then ucast (p_ep_addr_max p - ep_addr + 1) else len) in
         (len, ep_addr))
      else (len, ep_addr))"

text \<open>The descriptor loops end because the counter reaches \<^verbatim>\<open>desc_max\<close>.\<close>

lemma desc_max_dec: "c + 1 \<noteq> m \<Longrightarrow> unat (m - (c + 1) - 1) < unat (m - c - 1)" for c m :: u32
proof -
  assume "c + 1 \<noteq> m"
  then have nz: "m - c - 1 \<noteq> 0" by (auto simp: algebra_simps)
  have "unat (x - 1) < unat x" if "x \<noteq> 0" for x :: u32
    using that by (simp add: measure_unat)
  then have "unat (m - c - 1 - 1) < unat (m - c - 1)" using nz by blast
  moreover have "m - (c + 1) - 1 = m - c - 1 - 1" by simp
  ultimately show ?thesis by (simp only:)
qed

function mm_fill_sg :: "fill_par \<Rightarrow> u64 \<Rightarrow> u32 \<Rightarrow> qdma_mm_desc fill \<Rightarrow> (u32 \<times> qdma_mm_desc fill) option" where
  "mm_fill_sg p src_addr tlen f =
     (let (len, ep_addr) = mm_chunk p tlen (f_ep_addr f);
          d = (if p_c2h p then \<lparr>md_src_addr = ep_addr, md_flag_len = len OR push_bit S_DESC_F_DV 1, md_dst_addr = src_addr\<rparr>
               else \<lparr>md_src_addr = src_addr, md_flag_len = len OR push_bit S_DESC_F_DV 1, md_dst_addr = ep_addr\<rparr>) in
      if \<not> unat (f_pidx f) < length (f_ring f) then None
      else
        (let f1 = f\<lparr>f_ring := (f_ring f)[unat (f_pidx f) := d], f_end := Some (f_pidx f), f_sg_offset := f_sg_offset f + len,
                    f_ep_addr := ep_addr + ucast len, f_data_cnt := f_data_cnt f + len,
                    f_pidx := next_pidx p (f_pidx f), f_desc_cnt := f_desc_cnt f + 1\<rparr> in
         if f_desc_cnt f1 = p_desc_max p \<or> tlen - len = 0 then Some (tlen - len, f1)
         else mm_fill_sg p (src_addr + ucast len) (tlen - len) f1))"
  by pat_completeness auto

termination
  by (relation "measure (\<lambda>(p, src, tlen, f). unat (p_desc_max p - f_desc_cnt f - 1))") (auto dest: desc_max_dec)

declare mm_fill_sg.simps [simp del]

text \<open>
  Entry \<open>i\<close> and those after it; the result is the number of the entry the loop ended at. Clearing
  \<^verbatim>\<open>flag_len\<close> of the next descriptor before it is filled has no effect and is left out.
\<close>

fun mm_fill_sgl :: "fill_par \<Rightarrow> nat \<Rightarrow> qdma_sw_sg list \<Rightarrow> qdma_mm_desc fill \<Rightarrow> (nat \<times> qdma_mm_desc fill) option" where
  "mm_fill_sgl p i [] f = Some (i, f)"
| "mm_fill_sgl p i (sg # sgs) f =
     (if \<not> f_desc_cnt f < p_desc_max p then Some (i, f)
      else
        (let off = f_sg_offset f; tlen = sg_len sg - off; src_addr = sg_dma_addr sg + ucast off in
         case mm_fill_sg p src_addr tlen (f\<lparr>f_sg_offset := 0\<rparr>) of
           None \<Rightarrow> None
         | Some (tlen1, f1) \<Rightarrow> mm_fill_sgl p (i + 1) sgs (if tlen1 = 0 then f1\<lparr>f_sg_offset := 0\<rparr> else f1)))"

text \<open>The last descriptor of the run gets the end mark, the first one the start mark.\<close>

definition or_flag :: "nat \<Rightarrow> u32 \<Rightarrow> qdma_mm_desc list \<Rightarrow> qdma_mm_desc list" where
  "or_flag b k ring =
     ring[unat k := (ring ! unat k)\<lparr>md_flag_len := md_flag_len (ring ! unat k) OR push_bit b 1\<rparr>]"

definition mm_par :: "qdma_descq \<Rightarrow> qdma_request \<Rightarrow> fill_par" where
  "mm_par s r =
     (let c = dq_conf s; aperture = (if qc_aperture_size c \<noteq> 0 then qc_aperture_size c else QDMA_DESC_BLEN_MAX) in
      \<lparr>p_rngsz = qc_rngsz c, p_desc_max = dq_avail s, p_c2h = (qc_q_type c = Q_C2H), p_aperture = aperture,
       p_keyhole = (qc_aperture_size c \<noteq> 0), p_req_ep_addr = rq_ep_addr r,
       p_ep_addr_max = rq_ep_addr r + ucast aperture - 1, p_bypass = qc_desc_bypass c, p_sg_max = length (rq_sgl r)\<rparr>)"

text \<open>
  One request of the work list as far as the ring has room: the number of descriptors written,
  none if there was nothing to write.
\<close>

definition mm_submit :: "nat \<Rightarrow> nat \<Rightarrow> u32 \<Rightarrow> qdma_descq \<Rightarrow> (u32 \<times> qdma_descq) option" where
  "mm_submit i k sg_off s =
     (let r = dq_req s i; p = mm_par s r;
          ep_addr = (if p_keyhole p then rq_ep_addr r + ucast (cb_offset r AND (p_aperture p - 1))
                     else rq_ep_addr r + ucast (cb_offset r));
          f0 = \<lparr>f_ring = dq_mm_ring s, f_pidx = dq_pidx s, f_ep_addr = ep_addr, f_data_cnt = 0, f_desc_cnt = 0,
                f_sg_offset = sg_off, f_end = None, f_stamp = None\<rparr> in
      case mm_fill_sgl p k (drop k (rq_sgl r)) f0 of
        None \<Rightarrow> None
      | Some (i1, f) \<Rightarrow>
          (case f_end f of
             None \<Rightarrow> Some (0, s)
           | Some e \<Rightarrow>
               (let ring = or_flag S_DESC_F_SOP (dq_pidx s) (or_flag S_DESC_F_EOP e (f_ring f));
                    last = (i1 = p_sg_max p);
                    s1 = qdma_update_request i (f_desc_cnt f) (f_data_cnt f) (if last then 0 else f_sg_offset f)
                           (if last then None else Some i1) (s\<lparr>dq_mm_ring := ring\<rparr>) in
                Some (f_desc_cnt f, s1\<lparr>dq_pidx := f_pidx f, dq_avail := dq_avail s1 - f_desc_cnt f\<rparr>))))"

subsection \<open>Memory mapped requests\<close>

partial_function (option) mm_loop :: "dq_env \<Rightarrow> u32 \<Rightarrow> qdma_descq \<Rightarrow> (u32 \<times> qdma_descq) option option" where
  "mm_loop e written s =
     (case dq_work_list s of
        [] \<Rightarrow> Some (Some (written, s))
      | i # _ \<Rightarrow>
          (let s1 = (if dq_avail s = 0 then descq_poll_mm_n_h2c_cmpl_status e s else s) in
           if dq_avail s1 = 0 then Some (Some (written, s1))
           else if is_ul_ext (dq_conf s1) then
             (let (n, s2) = de_fill e QDMA_Q_MODE_MM
                    (if qc_q_type (dq_conf s1) = Q_C2H then QDMA_Q_DIR_C2H else QDMA_Q_DIR_H2C) i s1 in
              mm_loop e (written + (if n > 0 then word_of_int n else 0)) s2)
           else
             (let (k, off) = qdma_sgl_find_offset (dq_req s1 i) in
              if k < 0 then mm_loop e written (qdma_update_request i 0 0 0 None s1)
              else
                (case mm_submit i (nat k) off s1 of
                   None \<Rightarrow> Some None
                 | Some (n, s2) \<Rightarrow>
                     if n = 0 then Some (Some (written, s2)) else mm_loop e (written + n) s2))))"

text \<open>After the loop of either kind of request: the doorbell and another look at the completions.\<close>

definition submit_written :: "dq_env \<Rightarrow> qdma_descq \<Rightarrow> int \<times> qdma_descq" where
  "submit_written e s =
     (let s1 = s\<lparr>dq_pend_list_empty := False, dq_pidx_info := (dq_pidx_info s)\<lparr>pi_pidx := ucast (dq_pidx s)\<rparr>\<rparr>;
          (rv, s2) = queue_pidx_update e s1 in
      if rv < 0 then (- EINVAL, s2)
      else (0, (descq_poll_mm_n_h2c_cmpl_status e s2)\<lparr>dq_proc_req_running := False\<rparr>))"

definition descq_mm_proc_request :: "dq_env \<Rightarrow> qdma_descq \<Rightarrow> (int \<times> qdma_descq) option option" where
  "descq_mm_proc_request e s =
     (if dq_q_stop_wait s then Some (Some (0, descq_mm_n_h2c_cmpl_status e s))
      else if dq_q_state s \<noteq> Q_STATE_ONLINE \<or> dq_proc_req_running s then Some (Some (0, s))
      else
        map_option (map_option (\<lambda>(written, s1).
          if written \<noteq> 0 then submit_written e s1 else (0, s1\<lparr>dq_proc_req_running := False\<rparr>)))
          (mm_loop e 0 (descq_poll_mm_n_h2c_cmpl_status e s)))"

subsection \<open>Streaming host-to-card requests\<close>

text \<open>
  Only the descriptor after the one just written is cleared, so the first one of the ring keeps
  its old flags when the producer index wraps around.
\<close>

definition clear_flags :: "u32 \<Rightarrow> qdma_h2c_desc list \<Rightarrow> qdma_h2c_desc list" where
  "clear_flags k ring = ring[unat k := (ring ! unat k)\<lparr>hd_flags := 0, hd_cdh_flags := 0\<rparr>]"

definition h2c_desc :: "fill_par \<Rightarrow> nat \<Rightarrow> u64 \<Rightarrow> u32 \<Rightarrow> qdma_h2c_desc \<Rightarrow> qdma_h2c_desc" where
  "h2c_desc p i src_addr len d =
     d\<lparr>hd_src_addr := src_addr, hd_len := ucast len, hd_pld_len := ucast len,
       hd_cdh_flags := hd_cdh_flags d OR S_H2C_DESC_F_ZERO_CDH,
       hd_flags := hd_flags d OR (if p_bypass p \<and> i = 0 then S_H2C_DESC_F_SOP else 0)
                              OR (if p_bypass p \<and> i + 1 = p_sg_max p then S_H2C_DESC_F_EOP else 0)\<rparr>"

function st_fill_sg ::
  "fill_par \<Rightarrow> nat \<Rightarrow> u64 \<Rightarrow> u64 \<Rightarrow> u32 \<Rightarrow> qdma_h2c_desc fill \<Rightarrow> (u32 \<times> qdma_h2c_desc fill) option" where
  "st_fill_sg p i stamp src_addr tlen f =
     (let len = min tlen (p_aperture p); k = unat (f_pidx f) in
      if \<not> k < length (f_ring f) then None
      else
        (let f1 = f\<lparr>f_ring := (f_ring f)[k := h2c_desc p i src_addr len (f_ring f ! k)], f_end := Some (f_pidx f),
                    f_sg_offset := f_sg_offset f + len, f_data_cnt := f_data_cnt f + len, f_stamp := Some stamp,
                    f_pidx := next_pidx p (f_pidx f), f_desc_cnt := f_desc_cnt f + 1\<rparr> in
         if f_pidx f1 \<noteq> 0 \<and> \<not> unat (f_pidx f1) < length (f_ring f1) then None
         else
           (let f2 = (if f_pidx f1 \<noteq> 0 then f1\<lparr>f_ring := clear_flags (f_pidx f1) (f_ring f1)\<rparr> else f1) in
            if f_desc_cnt f2 = p_desc_max p \<or> tlen - len = 0 then Some (tlen - len, f2)
            else st_fill_sg p i stamp (src_addr + ucast len) (tlen - len) f2)))"
  by pat_completeness auto

termination
  by (relation "measure (\<lambda>(p, i, stamp, src, tlen, f). unat (p_desc_max p - f_desc_cnt f - 1))")
    (auto dest: desc_max_dec split: if_splits)

declare st_fill_sg.simps [simp del]

fun st_fill_sgl :: "fill_par \<Rightarrow> nat \<Rightarrow> qdma_sw_sg list \<Rightarrow> qdma_h2c_desc fill \<Rightarrow> (nat \<times> qdma_h2c_desc fill) option" where
  "st_fill_sgl p i [] f = Some (i, f)"
| "st_fill_sgl p i (sg # sgs) f =
     (if \<not> f_desc_cnt f < p_desc_max p then Some (i, f)
      else
        (let off = f_sg_offset f; tlen = sg_len sg - off; src_addr = sg_dma_addr sg + ucast off in
         case st_fill_sg p i (sg_pg sg + ucast (sg_offset sg)) src_addr tlen (f\<lparr>f_sg_offset := 0\<rparr>) of
           None \<Rightarrow> None
         | Some (tlen1, f1) \<Rightarrow> st_fill_sgl p (i + 1) sgs (if tlen1 = 0 then f1\<lparr>f_sg_offset := 0\<rparr> else f1)))"

definition st_par :: "qdma_descq \<Rightarrow> qdma_request \<Rightarrow> fill_par" where
  "st_par s r =
     (let c = dq_conf s; pktsz = (if rq_ep_addr r \<noteq> 0 then min (ucast (rq_ep_addr r)) PAGE_SIZE else PAGE_SIZE) in
      \<lparr>p_rngsz = qc_rngsz c, p_desc_max = dq_avail s, p_c2h = False, p_aperture = pktsz, p_keyhole = False,
       p_req_ep_addr = 0, p_ep_addr_max = 0, p_bypass = qc_desc_bypass c, p_sg_max = length (rq_sgl r)\<rparr>)"

definition st_submit :: "nat \<Rightarrow> nat \<Rightarrow> u32 \<Rightarrow> qdma_descq \<Rightarrow> (u32 \<times> u64 option \<times> qdma_descq) option" where
  "st_submit i k sg_off s =
     (let r = dq_req s i; p = st_par s r in
      if \<not> unat (dq_pidx s) < length (dq_h2c_ring s) then None
      else
        (let f0 = \<lparr>f_ring = clear_flags (dq_pidx s) (dq_h2c_ring s), f_pidx = dq_pidx s, f_ep_addr = 0, f_data_cnt = 0,
                   f_desc_cnt = 0, f_sg_offset = sg_off, f_end = None, f_stamp = None\<rparr> in
         case st_fill_sgl p k (drop k (rq_sgl r)) f0 of
           None \<Rightarrow> None
         | Some (i1, f) \<Rightarrow>
             (let last = (i1 = p_sg_max p);
                  s1 = qdma_update_request i (f_desc_cnt f) (f_data_cnt f) (if last then 0 else f_sg_offset f)
                         (if last then None else Some i1) (s\<lparr>dq_h2c_ring := f_ring f\<rparr>) in
              Some (f_desc_cnt f, f_stamp f, s1\<lparr>dq_pidx := f_pidx f, dq_avail := dq_avail s1 - f_desc_cnt f\<rparr>))))"

text \<open>\<open>stamp\<close> is the place in the last packet written, for the latency measurement.\<close>

partial_function (option) st_loop ::
  "dq_env \<Rightarrow> u32 \<Rightarrow> u64 option \<Rightarrow> qdma_descq \<Rightarrow> (u32 \<times> u64 option \<times> qdma_descq) option option" where
  "st_loop e written stamp s =
     (case dq_work_list s of
        [] \<Rightarrow> Some (Some (written, stamp, s))
      | i # _ \<Rightarrow>
          (let s1 = (if dq_avail s = 0 then descq_poll_mm_n_h2c_cmpl_status e s else s) in
           if dq_avail s1 = 0 then Some (Some (written, stamp, s1))
           else if is_ul_ext (dq_conf s1) then
             (let (n, s2) = de_fill e QDMA_Q_MODE_ST QDMA_Q_DIR_H2C i s1 in
              if n > 0 then st_loop e (written + word_of_int n) stamp s2 else Some (Some (written, stamp, s2)))
           else
             (let (k, off) = qdma_sgl_find_offset (dq_req s1 i) in
              if k < 0 then st_loop e written stamp (qdma_update_request i 0 0 0 None s1)
              else
                (case st_submit i (nat k) off s1 of
                   None \<Rightarrow> Some None
                 | Some (n, stamp1, s2) \<Rightarrow>
                     (let stamp2 = (if stamp1 = None then stamp else stamp1) in
                      if n = 0 then Some (Some (written, stamp2, s2)) else st_loop e (written + n) stamp2 s2)))))"

definition descq_proc_st_h2c_request :: "dq_env \<Rightarrow> qdma_descq \<Rightarrow> (int \<times> qdma_descq) option option" where
  "descq_proc_st_h2c_request e s =
     (if dq_q_stop_wait s then Some (Some (0, descq_mm_n_h2c_cmpl_status e s))
      else if dq_q_state s \<noteq> Q_STATE_ONLINE \<or> dq_proc_req_running s then Some (Some (0, s))
      else
        map_option (map_option (\<lambda>(written, stamp, s1).
          if written \<noteq> 0
          then submit_written e (case (qc_ping_pong_en (dq_conf s1), stamp) of
                 (True, Some a) \<Rightarrow> s1\<lparr>dq_stamps := dq_stamps s1 @ [a]\<rparr> | _ \<Rightarrow> s1)
          else (0, s1\<lparr>dq_proc_req_running := False\<rparr>)))
          (st_loop e 0 None (descq_poll_mm_n_h2c_cmpl_status e s)))"

end
