(* ===== verification/Descq_Fill.thy ===== *)
theory Descq_Fill
  imports Descq_Proc
begin

text \<open>
  What the two loops over one request write (\<^verbatim>\<open>libqdma/qdma_descq.c\<close>): the scatter-gather list is cut
  into pieces, each piece becomes one descriptor, and the descriptors go to consecutive slots of the ring.
\<close>

subsection \<open>Cutting a buffer into pieces\<close>

text \<open>Pieces of at most \<open>ap\<close> bytes as long as there is room, and the bytes left.\<close>

fun pieces :: "u32 \<Rightarrow> nat \<Rightarrow> u64 \<Rightarrow> u32 \<Rightarrow> (u64 \<times> u32) list \<times> u32" where
  "pieces ap 0 src tlen = ([], tlen)"
| "pieces ap (Suc room) src tlen =
     (let len = min tlen ap in
      if room = 0 \<or> tlen - len = 0 then ([(src, len)], tlen - len)
      else (let (ps, rest) = pieces ap room (src + ucast len) (tlen - len) in ((src, len) # ps, rest)))"

fun pieces_sgl :: "u32 \<Rightarrow> nat \<Rightarrow> u32 \<Rightarrow> qdma_sw_sg list \<Rightarrow> (u64 \<times> u32) list" where
  "pieces_sgl ap room off [] = []"
| "pieces_sgl ap room off (sg # sgs) =
     (if room = 0 then []
      else (let ps = fst (pieces ap room (sg_dma_addr sg + ucast off) (sg_len sg - off)) in
            ps @ pieces_sgl ap (room - length ps) 0 sgs))"

lemma pieces_len: "length (fst (pieces ap room src tlen)) \<le> room"
  by (induction ap room src tlen rule: pieces.induct) (auto simp: Let_def split: prod.splits)

lemma pieces_nonempty: "room \<noteq> 0 \<Longrightarrow> fst (pieces ap room src tlen) \<noteq> []"
  by (cases room) (auto simp: Let_def split: prod.splits)

text \<open>If bytes are left there was no room for more.\<close>

lemma pieces_rest: "snd (pieces ap room src tlen) \<noteq> 0 \<Longrightarrow> length (fst (pieces ap room src tlen)) = room"
  by (induction ap room src tlen rule: pieces.induct) (auto simp: Let_def split: prod.splits if_splits)

lemma pieces_sgl_len: "length (pieces_sgl ap room off sgs) \<le> room"
proof (induction ap room off sgs rule: pieces_sgl.induct)
  case (2 ap room off sg sgs)
  have "length (fst (pieces ap room (sg_dma_addr sg + ucast off) (sg_len sg - off))) \<le> room"
    by (rule pieces_len)
  then show ?case using "2.IH" [OF _ refl] by (cases "room = 0") (auto simp: Let_def)
qed simp

subsection \<open>Bytes\<close>

text \<open>The host addresses of a piece and of the list, byte by byte.\<close>

definition piece_bytes :: "u64 \<times> u32 \<Rightarrow> u64 list" where
  "piece_bytes d = map (\<lambda>j. fst d + of_nat j) [0..<unat (snd d)]"

definition sg_bytes :: "qdma_sw_sg list \<Rightarrow> u64 list" where
  "sg_bytes sgl = concat (map (\<lambda>sg. piece_bytes (sg_dma_addr sg, sg_len sg)) sgl)"

lemma length_piece_bytes [simp]: "length (piece_bytes d) = unat (snd d)"
  by (simp add: piece_bytes_def)

lemma sg_bytes_simps [simp]:
  "sg_bytes [] = []" "sg_bytes (sg # sgs) = piece_bytes (sg_dma_addr sg, sg_len sg) @ sg_bytes sgs"
  by (simp_all add: sg_bytes_def)

lemma of_nat_unat_ucast: "of_nat (unat x) = (ucast (x :: u32) :: u64)"
  by (rule of_nat_unat)

lemma map_upt_split: "n \<le> m \<Longrightarrow> map f [0..<m] = map f [0..<n] @ map (\<lambda>j. f (n + j)) [0..<m - n]"
  by (rule nth_equalityI) (auto simp: nth_append)

lemma piece_bytes_split:
  assumes "len \<le> tlen"
  shows "piece_bytes (src, tlen) = piece_bytes (src, len) @ piece_bytes (src + ucast len, tlen - len)"
proof -
  have u: "unat (tlen - len) = unat tlen - unat len" using assms by (simp add: unat_sub word_le_nat_alt)
  have l: "unat len \<le> unat tlen" using assms by (simp add: word_le_nat_alt)
  have "src + of_nat (unat len + j) = (src + ucast len) + of_nat j" for j
    by (simp only: of_nat_add of_nat_unat_ucast add.assoc)
  then show ?thesis
    unfolding piece_bytes_def fst_conv snd_conv u map_upt_split [OF l] by (simp only:)
qed

text \<open>The pieces of a buffer cover it from its start, without a gap.\<close>

lemma pieces_bytes:
  "piece_bytes (src, tlen) = concat (map piece_bytes (fst (pieces ap room src tlen))) @
     piece_bytes (src + ucast (tlen - snd (pieces ap room src tlen)), snd (pieces ap room src tlen)) \<and>
   snd (pieces ap room src tlen) \<le> tlen"
proof (induction ap room src tlen rule: pieces.induct)
  case (1 ap src tlen)
  then show ?case by simp
next
  case (2 ap room src tlen)
  let ?len = "min tlen ap"
  have le: "?len \<le> tlen" by simp
  have d: "tlen - ?len \<le> tlen" by (simp add: word_sub_le)
  show ?case
  proof (cases "room = 0 \<or> tlen - ?len = 0")
    case True
    then show ?thesis using piece_bytes_split [OF le, of src] d by (simp add: Let_def)
  next
    case False
    let ?src = "src + ucast ?len" and ?tlen = "tlen - ?len"
    obtain ps rest where p: "pieces ap room ?src ?tlen = (ps, rest)" by force
    have IH: "piece_bytes (?src, ?tlen) = concat (map piece_bytes ps) @ piece_bytes (?src + ucast (?tlen - rest), rest)"
      "rest \<le> ?tlen" using "2.IH" [OF refl False] p by simp_all
    have "ucast ?len + ucast (?tlen - rest) = (ucast (tlen - rest) :: u64)"
    proof -
      have "unat ?len + unat (?tlen - rest) = unat (tlen - rest)"
        using IH(2) d le by (simp add: unat_sub word_le_nat_alt)
      then show ?thesis by (metis of_nat_unat_ucast of_nat_add)
    qed
    then have src: "?src + ucast (?tlen - rest) = src + ucast (tlen - rest)" by (simp only: add.assoc)
    have "rest \<le> tlen" using IH(2) d by order
    moreover have "pieces ap (Suc room) src tlen = ((src, ?len) # ps, rest)" using False p by (simp add: Let_def)
    ultimately show ?thesis
      using piece_bytes_split [OF le, of src] IH(1) unfolding src by simp
  qed
qed

text \<open>The same for a whole list that is entered at an offset inside its first entry.\<close>

lemma piece_bytes_drop:
  "off \<le> tlen \<Longrightarrow> piece_bytes (src + ucast off, tlen - off) = drop (unat off) (piece_bytes (src, tlen))"
  using piece_bytes_split [of off tlen src] by simp

lemma pieces_sgl_bytes:
  assumes "sgs \<noteq> [] \<Longrightarrow> off \<le> sg_len (hd sgs)" "sgs = [] \<Longrightarrow> off = 0"
  shows "\<exists>tl. drop (unat off) (sg_bytes sgs) = concat (map piece_bytes (pieces_sgl ap room off sgs)) @ tl \<and>
    (tl = [] \<or> length (pieces_sgl ap room off sgs) = room)"
  using assms
proof (induction ap room off sgs rule: pieces_sgl.induct)
  case (1 ap room off)
  then show ?case by simp
next
  case (2 ap room off sg sgs)
  show ?case
  proof (cases "room = 0")
    case False
    let ?src = "sg_dma_addr sg + ucast off" and ?tlen = "sg_len sg - off"
    obtain ps rest where p: "pieces ap room ?src ?tlen = (ps, rest)" by force
    let ?qs = "pieces_sgl ap (room - length ps) 0 sgs"
    have "length ps \<le> room" using pieces_len [of ap room ?src ?tlen] p by simp
    have drop: "drop (unat off) (sg_bytes (sg # sgs)) = piece_bytes (?src, ?tlen) @ sg_bytes sgs"
      using piece_bytes_drop [of off "sg_len sg" "sg_dma_addr sg"] "2.prems"(1)
      by (simp add: word_le_nat_alt)
    have b: "piece_bytes (?src, ?tlen) = concat (map piece_bytes ps) @ piece_bytes (?src + ucast (?tlen - rest), rest)"
      using pieces_bytes [of ?src ?tlen ap room] p by simp
    obtain tl where tl: "sg_bytes sgs = concat (map piece_bytes ?qs) @ tl" "tl = [] \<or> length ?qs = room - length ps"
      using "2.IH" [OF False refl] p by auto
    have eq: "pieces_sgl ap room off (sg # sgs) = ps @ ?qs" using False p by (simp add: Let_def)
    show ?thesis
    proof (cases "rest = 0")
      case True
      then have "piece_bytes (?src + ucast (?tlen - rest), rest) = []" by (simp add: piece_bytes_def)
      then show ?thesis unfolding drop b eq using tl \<open>length ps \<le> room\<close> by (intro exI [of _ tl]) auto
    next
      case rest: False
      then have l: "length ps = room" using pieces_rest [of ap room ?src ?tlen] p by simp
      have "?qs = []" using pieces_sgl_len [of ap 0 0 sgs] l by simp
      then show ?thesis unfolding drop b eq using l by auto
    qed
  qed simp
qed

lemma pieces_pos: "ap \<noteq> 0 \<Longrightarrow> tlen \<noteq> 0 \<Longrightarrow> list_all (\<lambda>d. snd d \<noteq> 0) (fst (pieces ap room src tlen))"
proof (induction ap room src tlen rule: pieces.induct)
  case (2 ap room src tlen)
  then show ?case by (auto simp: Let_def min_def split: prod.splits if_splits)
qed simp

lemma pieces_sgl_pos:
  "ap \<noteq> 0 \<Longrightarrow> \<forall>sg\<in>set sgs. sg_len sg \<noteq> 0 \<Longrightarrow> sgs \<noteq> [] \<longrightarrow> off \<noteq> sg_len (hd sgs) \<Longrightarrow>
   list_all (\<lambda>d. snd d \<noteq> 0) (pieces_sgl ap room off sgs)"
proof (induction ap room off sgs rule: pieces_sgl.induct)
  case (2 ap room off sg sgs)
  have "list_all (\<lambda>d. snd d \<noteq> 0) (fst (pieces ap room (sg_dma_addr sg + ucast off) (sg_len sg - off)))"
    using "2.prems" by (intro pieces_pos) auto
  moreover have "list_all (\<lambda>d. snd d \<noteq> 0) (pieces_sgl ap r 0 sgs)" if "room \<noteq> 0"
    "r = room - length (fst (pieces ap room (sg_dma_addr sg + ucast off) (sg_len sg - off)))" for r
    using "2.IH" [OF that(1) refl] "2.prems" that(2) by (cases sgs) auto
  ultimately show ?case by (auto simp: Let_def)
qed simp

text \<open>No more descriptors than bytes, and at least one if there is room.\<close>

lemma pos_bytes: "list_all (\<lambda>d. snd d \<noteq> 0) ps \<Longrightarrow> length ps \<le> length (concat (map piece_bytes ps))"
proof (induction ps)
  case (Cons d ps)
  then have "0 < unat (snd d)" by (simp add: unat_gt_0)
  then show ?case using Cons by simp
qed simp

lemma pieces_sgl_nonempty: "room \<noteq> 0 \<Longrightarrow> sgs \<noteq> [] \<Longrightarrow> pieces_sgl ap room off sgs \<noteq> []"
  by (cases sgs) (auto simp: Let_def pieces_nonempty)

text \<open>Every piece lies inside one entry.\<close>

definition inside :: "qdma_sw_sg list \<Rightarrow> u64 \<times> u32 \<Rightarrow> bool" where
  "inside sgl d \<longleftrightarrow> (\<exists>sg\<in>set sgl. \<exists>off. fst d = sg_dma_addr sg + of_nat off \<and> off + unat (snd d) \<le> unat (sg_len sg))"

lemma pieces_inside:
  "d \<in> set (fst (pieces ap room src tlen)) \<Longrightarrow> \<exists>off. fst d = src + of_nat off \<and> off + unat (snd d) \<le> unat tlen"
proof (induction ap room src tlen rule: pieces.induct)
  case (2 ap room src tlen)
  let ?len = "min tlen ap"
  have "?len \<le> tlen" by simp
  then have u: "unat (tlen - ?len) = unat tlen - unat ?len" and le: "unat ?len \<le> unat tlen"
    by (simp_all only: unat_sub word_le_nat_alt)
  show ?case
  proof (cases "d = (src, ?len)")
    case True
    then show ?thesis using le by (intro exI [of _ 0]) simp
  next
    case False
    then obtain stop: "\<not> (room = 0 \<or> tlen - ?len = 0)" and d: "d \<in> set (fst (pieces ap room (src + ucast ?len) (tlen - ?len)))"
      using "2.prems" by (auto simp: Let_def split: if_splits prod.splits)
    obtain off where "fst d = src + ucast ?len + of_nat off" "off + unat (snd d) \<le> unat tlen - unat ?len"
      using "2.IH" [OF refl stop d] unfolding u by blast
    moreover have "src + ucast ?len + of_nat off = src + of_nat (unat ?len + off)"
      by (simp only: of_nat_add of_nat_unat_ucast add.assoc)
    ultimately show ?thesis using le by (intro exI [of _ "unat ?len + off"]) auto
  qed
qed simp

lemma pieces_sgl_inside:
  "d \<in> set (pieces_sgl ap room off sgs) \<Longrightarrow> sgs \<noteq> [] \<longrightarrow> off \<le> sg_len (hd sgs) \<Longrightarrow> inside sgs d"
proof (induction ap room off sgs rule: pieces_sgl.induct)
  case (2 ap room off sg sgs)
  let ?ps = "fst (pieces ap room (sg_dma_addr sg + ucast off) (sg_len sg - off))"
  consider "d \<in> set ?ps" | "room \<noteq> 0" "d \<in> set (pieces_sgl ap (room - length ?ps) 0 sgs)"
    using "2.prems"(1) by (auto simp: Let_def split: if_splits)
  then show ?case
  proof cases
    case 1
    then obtain o1 where o1: "fst d = sg_dma_addr sg + ucast off + of_nat o1" "o1 + unat (snd d) \<le> unat (sg_len sg - off)"
      using pieces_inside by blast
    have "unat (sg_len sg - off) = unat (sg_len sg) - unat off" "unat off \<le> unat (sg_len sg)"
      using "2.prems"(2) by (simp_all add: unat_sub word_le_nat_alt)
    moreover have "fst d = sg_dma_addr sg + of_nat (unat off + o1)"
      unfolding o1(1) by (simp only: of_nat_add of_nat_unat_ucast add.assoc)
    ultimately show ?thesis using o1(2) unfolding inside_def by (intro bexI [of _ sg] exI [of _ "unat off + o1"]) auto
  next
    case 2
    then have "inside sgs d" using "2.IH" [OF 2(1) refl 2(2)] by simp
    then show ?thesis unfolding inside_def by auto
  qed
qed simp

end
