(* ===== verification/Descq_Ring.thy ===== *)
theory Descq_Ring
  imports Descq_Fill
begin

text \<open>
  The two fill loops of \<^verbatim>\<open>libqdma/qdma_descq.c\<close> in terms of the pieces: each writes one
  descriptor per piece to consecutive slots of the ring. What both have in common is the locale
  \<open>descriptor_writer\<close>.
\<close>

subsection \<open>Writing consecutive slots\<close>

lemma next_pidx_nat:
  assumes "unat k < unat (p_rngsz p)"
  shows "unat (next_pidx p k) = (unat k + 1) mod unat (p_rngsz p)"
proof -
  have "k + 1 \<noteq> 0"
  proof
    assume "k + 1 = 0"
    then have "k = - 1" by (simp add: eq_neg_iff_add_eq_0)
    then show False using assms by (metis leD max_word_max word_less_nat_alt)
  qed
  then have s: "unat (k + 1) = unat k + 1" by (metis Suc_eq_plus1 unatSuc add.commute)
  show ?thesis
  proof (cases "k + 1 = p_rngsz p")
    case True
    then show ?thesis using s by (simp add: next_pidx_def)
  next
    case False
    then have "unat k + 1 \<noteq> unat (p_rngsz p)" using s by (metis word_unat_eq_iff)
    then show ?thesis using assms s False by (simp add: next_pidx_def)
  qed
qed

lemma slots_differ:
  fixes a n :: nat
  assumes "i < j" "j < n"
  shows "(a + i) mod n \<noteq> (a + j) mod n"
proof
  assume "(a + i) mod n = (a + j) mod n"
  then have "n dvd (a + j) - (a + i)" using assms by (metis mod_eq_dvd_iff_nat add_le_cancel_left less_imp_le)
  then show False using assms by (simp add: nat_dvd_not_less)
qed

text \<open>
  A writer puts one descriptor at the producer index and moves it on; it may also change the
  slot after it. \<open>view\<close> is the host address and the length in a descriptor, \<open>fits\<close> says which
  pieces a descriptor can hold.
\<close>

locale descriptor_writer =
  fixes p :: fill_par
    and view :: "'d \<Rightarrow> u64 \<times> u32"
    and fits :: "u64 \<times> u32 \<Rightarrow> bool"
    and wr :: "'w \<Rightarrow> u64 \<times> u32 \<Rightarrow> 'd fill \<Rightarrow> 'd fill"
  assumes wr_pidx: "f_pidx (wr w d f) = next_pidx p (f_pidx f)"
    and wr_cnt: "f_desc_cnt (wr w d f) = f_desc_cnt f + 1"
    and wr_data: "f_data_cnt (wr w d f) = f_data_cnt f + snd d"
    and wr_length: "length (f_ring (wr w d f)) = length (f_ring f)"
    and wr_slot: "unat (f_pidx f) < length (f_ring f) \<Longrightarrow> length (f_ring f) = unat (p_rngsz p) \<Longrightarrow> fits d \<Longrightarrow>
      view (f_ring (wr w d f) ! unat (f_pidx f)) = d"
    and wr_other: "k < length (f_ring f) \<Longrightarrow> k \<noteq> unat (f_pidx f) \<Longrightarrow> k \<noteq> unat (next_pidx p (f_pidx f)) \<Longrightarrow>
      view (f_ring (wr w d f) ! k) = view (f_ring f ! k)"
begin

definition run :: "('w \<times> u64 \<times> u32) list \<Rightarrow> 'd fill \<Rightarrow> 'd fill" where
  "run ds f = fold (\<lambda>(w, d). wr w d) ds f"

abbreviation "slot f j \<equiv> (unat (f_pidx f) + j) mod unat (p_rngsz p)"

lemma run_Cons: "run ((w, d) # ds) f = run ds (wr w d f)"
  by (simp add: run_def)

lemma run_cnt: "f_desc_cnt (run ds f) = f_desc_cnt f + of_nat (length ds)"
proof (induction ds arbitrary: f)
  case (Cons x ds)
  then show ?case by (cases x) (simp add: run_Cons wr_cnt algebra_simps)
qed (simp add: run_def)

lemma run_data: "f_data_cnt (run ds f) = f_data_cnt f + sum_list (map (snd \<circ> snd) ds)"
proof (induction ds arbitrary: f)
  case (Cons x ds)
  then show ?case by (cases x) (simp add: run_Cons wr_data algebra_simps)
qed (simp add: run_def)

lemma run_length: "length (f_ring (run ds f)) = length (f_ring f)"
proof (induction ds arbitrary: f)
  case (Cons x ds)
  then show ?case by (cases x) (simp add: run_Cons wr_length)
qed (simp add: run_def)

lemma run_pidx:
  "unat (f_pidx f) < unat (p_rngsz p) \<Longrightarrow> unat (f_pidx (run ds f)) = slot f (length ds)"
proof (induction ds arbitrary: f)
  case (Cons x ds)
  obtain w d where x: "x = (w, d)" by (cases x)
  have "unat (f_pidx (wr w d f)) = (unat (f_pidx f) + 1) mod unat (p_rngsz p)"
    using Cons.prems next_pidx_nat by (simp add: wr_pidx)
  moreover have "0 < unat (p_rngsz p)" using Cons.prems by linarith
  ultimately have "unat (f_pidx (run ds (wr w d f))) = (unat (f_pidx f) + 1 + length ds) mod unat (p_rngsz p)"
    using Cons.IH [of "wr w d f"] by (simp add: mod_add_left_eq)
  then show ?case by (simp add: x run_Cons ac_simps)
qed (simp add: run_def)

text \<open>Slots outside the run and its successor keep their contents.\<close>

lemma run_other:
  "\<lbrakk> unat (f_pidx f) < unat (p_rngsz p); length (f_ring f) = unat (p_rngsz p); k < length (f_ring f);
     \<forall>j\<le>length ds. k \<noteq> slot f j \<rbrakk> \<Longrightarrow> view (f_ring (run ds f) ! k) = view (f_ring f ! k)"
proof (induction ds arbitrary: f)
  case (Cons x ds)
  obtain w d where x: "x = (w, d)" by (cases x)
  let ?g = "wr w d f"
  have pos: "0 < unat (p_rngsz p)" using Cons.prems(1) by linarith
  have g: "unat (f_pidx ?g) = slot f 1" using Cons.prems(1) next_pidx_nat by (simp add: wr_pidx)
  have "\<forall>j\<le>length ds. k \<noteq> slot ?g j"
  proof (intro allI impI)
    fix j assume "j \<le> length ds"
    then have "k \<noteq> slot f (Suc j)" using spec [OF Cons.prems(4), of "Suc j"] by simp
    moreover have "slot ?g j = slot f (Suc j)" using g by (simp add: mod_add_left_eq)
    ultimately show "k \<noteq> slot ?g j" by metis
  qed
  moreover have "unat (f_pidx ?g) < unat (p_rngsz p)" using g pos by simp
  ultimately have "view (f_ring (run ds ?g) ! k) = view (f_ring ?g ! k)"
    using Cons.IH [of ?g] Cons.prems(2,3) by (simp add: wr_length)
  moreover have "k \<noteq> unat (f_pidx f)" using spec [OF Cons.prems(4), of 0] Cons.prems(1) by simp
  moreover have "k \<noteq> unat (next_pidx p (f_pidx f))"
    using spec [OF Cons.prems(4), of 1] next_pidx_nat [OF Cons.prems(1)] by simp
  ultimately show ?case using wr_other [OF Cons.prems(3)] by (simp add: x run_Cons)
qed (simp add: run_def)

text \<open>The slots of the run hold the pieces in their order.\<close>

lemma run_slots:
  "\<lbrakk> unat (f_pidx f) < unat (p_rngsz p); length (f_ring f) = unat (p_rngsz p); list_all (fits \<circ> snd) ds;
     length ds < unat (p_rngsz p); j < length ds \<rbrakk> \<Longrightarrow> view (f_ring (run ds f) ! slot f j) = snd (ds ! j)"
proof (induction ds arbitrary: f j)
  case (Cons x ds)
  obtain w d where x: "x = (w, d)" by (cases x)
  let ?g = "wr w d f"
  have pos: "0 < unat (p_rngsz p)" using Cons.prems(1) by linarith
  have g: "unat (f_pidx ?g) = slot f 1" "unat (f_pidx ?g) < unat (p_rngsz p)"
    "length (f_ring ?g) = unat (p_rngsz p)"
    using Cons.prems(1,2) next_pidx_nat pos by (simp_all add: wr_pidx wr_length)
  have sg: "slot ?g i = slot f (Suc i)" for i using g(1) by (simp add: mod_add_left_eq)
  show ?case
  proof (cases j)
    case 0
    have "slot f 0 \<noteq> slot ?g i" if "i \<le> length ds" for i
      unfolding sg using slots_differ [of 0 "Suc i" "unat (p_rngsz p)" "unat (f_pidx f)"] that Cons.prems(4) by simp
    then have "view (f_ring (run ds ?g) ! slot f 0) = view (f_ring ?g ! slot f 0)"
      using run_other [OF g(2,3), of "slot f 0" ds] g(3) pos by simp
    then show ?thesis
      using wr_slot [of f d w] Cons.prems(1-3) 0 by (simp add: x run_Cons)
  next
    case (Suc i)
    then have "view (f_ring (run ds ?g) ! slot ?g i) = snd (ds ! i)"
      using Cons.IH [OF g(2,3), of i] Cons.prems(3-5) by (simp add: x)
    then show ?thesis unfolding sg using Suc by (simp add: x run_Cons)
  qed
qed simp

end

text \<open>Two states of a run that differ in the offset only.\<close>

definition same_run :: "'d fill \<Rightarrow> 'd fill \<Rightarrow> bool" where
  "same_run f g \<longleftrightarrow> f\<lparr>f_sg_offset := 0\<rparr> = g\<lparr>f_sg_offset := 0\<rparr>"

lemma same_run_sel:
  assumes "same_run f g"
  shows "f_ring f = f_ring g" "f_pidx f = f_pidx g" "f_desc_cnt f = f_desc_cnt g" "f_data_cnt f = f_data_cnt g"
    "f_end f = f_end g" "f_ep_addr f = f_ep_addr g" "f_stamp f = f_stamp g"
  using assms unfolding same_run_def by (metis fill.select_convs fill.surjective fill.update_convs(6))+

lemma same_run_refl [simp]: "same_run f f" "same_run (f\<lparr>f_sg_offset := x\<rparr>) f" "same_run f (f\<lparr>f_sg_offset := x\<rparr>)"
  by (simp_all add: same_run_def)

lemma same_run_trans: "same_run f g \<Longrightarrow> same_run g h \<Longrightarrow> same_run f h"
  by (simp add: same_run_def)

lemma room_step:
  fixes c m :: u32
  assumes "c < m"
  shows "unat m - unat c = Suc (unat m - unat (c + 1))" "c + 1 = m \<longleftrightarrow> unat m - unat (c + 1) = 0" "c + 1 \<noteq> m \<Longrightarrow> c + 1 < m"
proof -
  have lt: "unat c < unat m" using assms by (simp add: word_less_nat_alt)
  moreover have "unat m < 2 ^ LENGTH(32)" by (rule unsigned_less)
  ultimately have s: "unat (c + 1) = unat c + 1" by (simp add: unat_word_ariths)
  then show "unat m - unat c = Suc (unat m - unat (c + 1))" using lt by simp
  show "c + 1 = m \<longleftrightarrow> unat m - unat (c + 1) = 0" using lt s by (metis Suc_eq_plus1 Suc_leI diff_is_0_eq diff_self_eq_0 le_antisym word_unat_eq_iff)
  show "c + 1 \<noteq> m \<Longrightarrow> c + 1 < m" using lt s by (simp add: word_less_nat_alt word_unat_eq_iff)
qed

subsection \<open>The loops over one request\<close>

text \<open>
  Both loops are the same but for the descriptor they write: the outer one goes through the
  scatter-gather list, the inner one cuts an entry into pieces. \<open>tag\<close> is what a writer uses of the
  entry besides its address and length.
\<close>

locale sgl_filler = descriptor_writer p view fits wr
  for p and view :: "'d \<Rightarrow> u64 \<times> u32" and fits and wr :: "'w \<Rightarrow> u64 \<times> u32 \<Rightarrow> 'd fill \<Rightarrow> 'd fill" +
  fixes tag :: "nat \<Rightarrow> qdma_sw_sg \<Rightarrow> 'w"
    and fill_sg :: "'w \<Rightarrow> u64 \<Rightarrow> u32 \<Rightarrow> 'd fill \<Rightarrow> (u32 \<times> 'd fill) option"
    and fill_sgl :: "nat \<Rightarrow> qdma_sw_sg list \<Rightarrow> 'd fill \<Rightarrow> (nat \<times> 'd fill) option"
  assumes wr_same: "same_run f g \<Longrightarrow> same_run (wr w d f) (wr w d g)"
    and fill_sg_step: "length (f_ring f) = unat (p_rngsz p) \<Longrightarrow> unat (f_pidx f) < unat (p_rngsz p) \<Longrightarrow>
      fill_sg w src tlen f =
        (let len = min tlen (p_aperture p); g = wr w (src, len) f in
         if f_desc_cnt g = p_desc_max p \<or> tlen - len = 0 then Some (tlen - len, g)
         else fill_sg w (src + ucast len) (tlen - len) g)"
    and fill_sgl_Nil: "fill_sgl i [] f = Some (i, f)"
    and fill_sgl_Cons: "fill_sgl i (sg # sgs) f =
     (if \<not> f_desc_cnt f < p_desc_max p then Some (i, f)
      else
        (let off = f_sg_offset f in
         case fill_sg (tag i sg) (sg_dma_addr sg + ucast off) (sg_len sg - off) (f\<lparr>f_sg_offset := 0\<rparr>) of
           None \<Rightarrow> None
         | Some (tlen1, f1) \<Rightarrow> fill_sgl (i + 1) sgs (if tlen1 = 0 then f1\<lparr>f_sg_offset := 0\<rparr> else f1)))"
begin

lemma run_same: "same_run f g \<Longrightarrow> same_run (run ds f) (run ds g)"
proof (induction ds arbitrary: f g)
  case (Cons x ds)
  then show ?case by (cases x) (simp add: run_Cons wr_same)
qed (simp add: run_def)

lemma fill_sg_pieces:
  assumes "length (f_ring f) = unat (p_rngsz p)" "unat (f_pidx f) < unat (p_rngsz p)" "f_desc_cnt f < p_desc_max p"
  shows "fill_sg w src tlen f =
    (let (ps, rest) = pieces (p_aperture p) (unat (p_desc_max p) - unat (f_desc_cnt f)) src tlen in
     Some (rest, run (map (Pair w) ps) f))"
  using assms
proof (induction "unat (p_desc_max p) - unat (f_desc_cnt f)" arbitrary: src tlen f)
  case 0
  then show ?case by (simp add: word_less_nat_alt)
next
  case (Suc room)
  let ?len = "min tlen (p_aperture p)"
  let ?g = "wr w (src, ?len) f"
  have g: "f_desc_cnt ?g = f_desc_cnt f + 1" "f_pidx ?g = next_pidx p (f_pidx f)" "length (f_ring ?g) = unat (p_rngsz p)"
    using Suc.prems by (simp_all add: wr_cnt wr_pidx wr_length)
  have step: "fill_sg w src tlen f =
      (if f_desc_cnt ?g = p_desc_max p \<or> tlen - ?len = 0 then Some (tlen - ?len, ?g)
       else fill_sg w (src + ucast ?len) (tlen - ?len) ?g)"
    using fill_sg_step [OF Suc.prems(1,2), of w src tlen] by (simp only: Let_def)
  note rs = room_step [OF Suc.prems(3)]
  have room: "unat (p_desc_max p) - unat (f_desc_cnt f + 1) = room" using Suc.hyps(2) rs(1) by simp
  show ?case
  proof (cases "room = 0 \<or> tlen - ?len = 0")
    case True
    then have "fill_sg w src tlen f = Some (tlen - ?len, ?g)" using step g rs(2) room by auto
    moreover have "pieces (p_aperture p) (Suc room) src tlen = ([(src, ?len)], tlen - ?len)" using True by (simp add: Let_def)
    ultimately show ?thesis unfolding Suc.hyps(2) [symmetric] by (simp add: run_def)
  next
    case False
    then have stop: "f_desc_cnt ?g \<noteq> p_desc_max p" using g rs(2) room by auto
    obtain ps rest where p: "pieces (p_aperture p) room (src + ucast ?len) (tlen - ?len) = (ps, rest)" by force
    have "unat (f_pidx ?g) < unat (p_rngsz p)"
      using next_pidx_nat [of "f_pidx f" p] Suc.prems(2) g(2) by simp
    then have "fill_sg w (src + ucast ?len) (tlen - ?len) ?g = Some (rest, run (map (Pair w) ps) ?g)"
      using Suc.hyps(1) [of ?g "src + ucast ?len" "tlen - ?len"] room g rs(3) stop p by simp
    then have "fill_sg w src tlen f = Some (rest, run (map (Pair w) ((src, ?len) # ps)) f)"
      using step stop False by (simp add: run_Cons)
    moreover have "pieces (p_aperture p) (Suc room) src tlen = ((src, ?len) # ps, rest)" using False p by (simp add: Let_def)
    ultimately show ?thesis unfolding Suc.hyps(2) [symmetric] by simp
  qed
qed

lemma cnt_after:
  assumes "unat (f_desc_cnt f) + length ds \<le> unat (p_desc_max p)"
  shows "unat (f_desc_cnt (run ds f)) = unat (f_desc_cnt f) + length ds"
proof -
  have "unat (p_desc_max p) < 2 ^ LENGTH(32)" by (rule unsigned_less)
  then have "unat (f_desc_cnt f) + length ds < 2 ^ 32" using assms by simp
  then show ?thesis by (simp add: run_cnt unat_word_ariths unat_of_nat)
qed

lemma fill_sgl_pieces:
  assumes "length (f_ring f) = unat (p_rngsz p)" "unat (f_pidx f) < unat (p_rngsz p)" "f_desc_cnt f \<le> p_desc_max p"
  shows "\<exists>i1 f1 ds. fill_sgl i sgs f = Some (i1, f1) \<and> same_run f1 (run ds f) \<and>
    map snd ds = pieces_sgl (p_aperture p) (unat (p_desc_max p) - unat (f_desc_cnt f)) (f_sg_offset f) sgs"
  using assms
proof (induction sgs arbitrary: i f)
  case Nil
  then show ?case by (intro exI [of _ i] exI [of _ f] exI [of _ "[]"]) (simp add: run_def fill_sgl_Nil)
next
  case (Cons sg sgs)
  let ?room = "unat (p_desc_max p) - unat (f_desc_cnt f)" and ?off = "f_sg_offset f"
  show ?case
  proof (cases "f_desc_cnt f < p_desc_max p")
    case False
    then have "?room = 0" by (simp add: word_less_nat_alt)
    then show ?thesis using False
      by (intro exI [of _ i] exI [of _ f] exI [of _ "[]"]) (simp add: run_def fill_sgl_Cons)
  next
    case True
    then have room: "?room \<noteq> 0" by (simp add: word_less_nat_alt)
    let ?f0 = "f\<lparr>f_sg_offset := 0\<rparr>" and ?w = "tag i sg"
    obtain ps rest where p: "pieces (p_aperture p) ?room (sg_dma_addr sg + ucast ?off) (sg_len sg - ?off) = (ps, rest)"
      by force
    let ?ds = "map (Pair ?w) ps"
    let ?f1 = "if rest = 0 then (run ?ds ?f0)\<lparr>f_sg_offset := 0\<rparr> else run ?ds ?f0"
    have fill: "fill_sg ?w (sg_dma_addr sg + ucast ?off) (sg_len sg - ?off) ?f0 = Some (rest, run ?ds ?f0)"
      using fill_sg_pieces [of ?f0 ?w "sg_dma_addr sg + ucast ?off" "sg_len sg - ?off"] Cons.prems True p by simp
    have len: "length ps \<le> ?room" using pieces_len [of "p_aperture p" ?room] p by (metis fst_conv)
    then have "unat (f_desc_cnt (run ?ds ?f0)) = unat (f_desc_cnt f) + length ps"
      using cnt_after [of ?f0 ?ds] True by (simp add: word_less_nat_alt)
    then have f1: "f_desc_cnt ?f1 \<le> p_desc_max p" "unat (p_desc_max p) - unat (f_desc_cnt ?f1) = ?room - length ps"
      "length (f_ring ?f1) = unat (p_rngsz p)" "unat (f_pidx ?f1) < unat (p_rngsz p)"
      using len True Cons.prems(1,2) run_pidx [of ?f0 ?ds]
      by (simp_all add: word_le_nat_alt word_less_nat_alt run_length)
    obtain i1 f2 ds where IH: "fill_sgl (i + 1) sgs ?f1 = Some (i1, f2)" "same_run f2 (run ds ?f1)"
      "map snd ds = pieces_sgl (p_aperture p) (?room - length ps) (f_sg_offset ?f1) sgs"
      using Cons.IH [of ?f1 "i + 1"] f1 by metis
    have off: "pieces_sgl (p_aperture p) (?room - length ps) (f_sg_offset ?f1) sgs =
        pieces_sgl (p_aperture p) (?room - length ps) 0 sgs"
    proof (cases "rest = 0")
      case False
      then have "?room - length ps = 0" using pieces_rest [of "p_aperture p" ?room] p by (metis diff_self_eq_0 fst_conv snd_conv)
      then show ?thesis by (cases sgs) simp_all
    qed simp
    have "same_run ?f1 (run ?ds f)"
      using run_same [of ?f0 f ?ds] by (simp add: same_run_def)
    then have "same_run f2 (run (?ds @ ds) f)"
      using same_run_trans [OF IH(2) run_same] by (simp add: run_def)
    moreover have "map snd (?ds @ ds) = pieces_sgl (p_aperture p) ?room ?off (sg # sgs)"
      using IH(3) off room p by (simp add: Let_def comp_def)
    moreover have "fill_sgl i (sg # sgs) f = Some (i1, f2)" using True fill IH(1) by (simp add: fill_sgl_Cons Let_def)
    ultimately show ?thesis by blast
  qed
qed

end

subsection \<open>Memory mapped descriptors\<close>

definition mm_view :: "bool \<Rightarrow> qdma_mm_desc \<Rightarrow> u64 \<times> u32" where
  "mm_view c2h d = (if c2h then md_dst_addr d else md_src_addr d, md_flag_len d AND QDMA_DESC_BLEN_MAX)"

definition mm_put :: "fill_par \<Rightarrow> unit \<Rightarrow> u64 \<times> u32 \<Rightarrow> qdma_mm_desc fill \<Rightarrow> qdma_mm_desc fill" where
  "mm_put p w d f =
     (let ep = f_ep_addr f; flag_len = snd d OR push_bit S_DESC_F_DV 1;
          desc = (if p_c2h p then \<lparr>md_src_addr = ep, md_flag_len = flag_len, md_dst_addr = fst d\<rparr>
                  else \<lparr>md_src_addr = fst d, md_flag_len = flag_len, md_dst_addr = ep\<rparr>) in
      f\<lparr>f_ring := (f_ring f)[unat (f_pidx f) := desc], f_end := Some (f_pidx f), f_sg_offset := f_sg_offset f + snd d,
        f_ep_addr := ep + ucast (snd d), f_data_cnt := f_data_cnt f + snd d, f_pidx := next_pidx p (f_pidx f), f_desc_cnt := f_desc_cnt f + 1\<rparr>)"

text \<open>The flags lie above the length.\<close>

lemma blen_max: "QDMA_DESC_BLEN_MAX = mask 28"
  by (simp add: QDMA_DESC_BLEN_MAX_def mask_eq_decr_exp push_bit_eq_mult)

lemma len_flag: "28 \<le> b \<Longrightarrow> (x OR 2 ^ b) AND QDMA_DESC_BLEN_MAX = x AND QDMA_DESC_BLEN_MAX" for x :: u32
  unfolding blen_max by (rule bit_eqI) (auto simp: bit_simps)

lemma len_mask: "len \<le> QDMA_DESC_BLEN_MAX \<Longrightarrow> len AND QDMA_DESC_BLEN_MAX = len"
proof -
  assume "len \<le> QDMA_DESC_BLEN_MAX"
  then have "unat len < 2 ^ 28" by (simp add: QDMA_DESC_BLEN_MAX_def word_le_nat_alt)
  then have "take_bit 28 len = len" by (simp add: word_unat_eq_iff unsigned_take_bit_eq take_bit_nat_eq_self)
  then show ?thesis unfolding blen_max by (simp add: take_bit_eq_mask)
qed

lemma mm_writer: "descriptor_writer p (mm_view (p_c2h p)) (\<lambda>d. snd d \<le> QDMA_DESC_BLEN_MAX) (mm_put p)"
  by unfold_locales (auto simp: mm_put_def mm_view_def len_flag len_mask S_DESC_F_DV_def nth_list_update Let_def simp del: power_numeral)

text \<open>The keyhole is off.\<close>

definition plain :: "fill_par \<Rightarrow> fill_par" where
  "plain p = p\<lparr>p_keyhole := False\<rparr>"

lemma plain_sel [simp]:
  "\<not> p_keyhole (plain p)" "p_rngsz (plain p) = p_rngsz p" "p_desc_max (plain p) = p_desc_max p"
  "p_aperture (plain p) = p_aperture p" "p_c2h (plain p) = p_c2h p" "p_sg_max (plain p) = p_sg_max p"
  by (simp_all add: plain_def)

lemma plain_id: "\<not> p_keyhole p \<Longrightarrow> plain p = p"
  by (cases p) (simp add: plain_def)

lemma mm_fill_sg_step:
  assumes "\<not> p_keyhole p" "unat (f_pidx f) < length (f_ring f)"
  shows "mm_fill_sg p src tlen f =
    (let len = min tlen (p_aperture p); g = mm_put p w (src, len) f in
     if f_desc_cnt g = p_desc_max p \<or> tlen - len = 0 then Some (tlen - len, g)
     else mm_fill_sg p (src + ucast len) (tlen - len) g)"
  using assms by (simp add: mm_fill_sg.simps [of p src tlen f] mm_chunk_def mm_put_def Let_def)

interpretation mm: sgl_filler "plain p" "mm_view (p_c2h p)" "\<lambda>d. snd d \<le> QDMA_DESC_BLEN_MAX" "mm_put (plain p)"
  "\<lambda>i sg. ()" "\<lambda>w. mm_fill_sg (plain p)" "mm_fill_sgl (plain p)" for p
proof (rule sgl_filler.intro)
  show "descriptor_writer (plain p) (mm_view (p_c2h p)) (\<lambda>d. snd d \<le> QDMA_DESC_BLEN_MAX) (mm_put (plain p))"
    using mm_writer [of "plain p"] by simp
  show "sgl_filler_axioms (plain p) (mm_put (plain p)) (\<lambda>i sg. ()) (\<lambda>w. mm_fill_sg (plain p)) (mm_fill_sgl (plain p))"
  proof
    show "same_run f g \<Longrightarrow> same_run (mm_put (plain p) w d f) (mm_put (plain p) w d g)" for f g w d
      unfolding same_run_def mm_put_def by (cases f; cases g) (simp add: Let_def)
    show "length (f_ring f) = unat (p_rngsz (plain p)) \<Longrightarrow> unat (f_pidx f) < unat (p_rngsz (plain p)) \<Longrightarrow>
      mm_fill_sg (plain p) src tlen f =
        (let len = min tlen (p_aperture (plain p)); g = mm_put (plain p) w (src, len) f in
         if f_desc_cnt g = p_desc_max (plain p) \<or> tlen - len = 0 then Some (tlen - len, g)
         else mm_fill_sg (plain p) (src + ucast len) (tlen - len) g)" for f w src tlen
      by (rule mm_fill_sg_step) simp_all
  qed (simp_all add: Let_def)
qed

subsection \<open>Streaming descriptors\<close>

definition st_view :: "qdma_h2c_desc \<Rightarrow> u64 \<times> u32" where
  "st_view d = (hd_src_addr d, ucast (hd_len d))"

definition st_put :: "fill_par \<Rightarrow> nat \<times> u64 \<Rightarrow> u64 \<times> u32 \<Rightarrow> qdma_h2c_desc fill \<Rightarrow> qdma_h2c_desc fill" where
  "st_put p w d f =
     (let k = unat (f_pidx f);
          f1 = f\<lparr>f_ring := (f_ring f)[k := h2c_desc p (fst w) (fst d) (snd d) (f_ring f ! k)], f_end := Some (f_pidx f),
                 f_sg_offset := f_sg_offset f + snd d, f_data_cnt := f_data_cnt f + snd d, f_stamp := Some (snd w),
                 f_pidx := next_pidx p (f_pidx f), f_desc_cnt := f_desc_cnt f + 1\<rparr> in
      if f_pidx f1 \<noteq> 0 then f1\<lparr>f_ring := clear_flags (f_pidx f1) (f_ring f1)\<rparr> else f1)"

lemma len_u16: "x \<le> 0xFFFF \<Longrightarrow> ucast (ucast x :: u16) = (x :: u32)"
proof -
  assume "x \<le> 0xFFFF"
  then have "unat x < 2 ^ 16" by (simp add: word_le_nat_alt)
  then have "unat (ucast (ucast x :: u16) :: u32) = unat x"
    by (simp add: unsigned_ucast_eq take_bit_nat_eq_self unsigned_take_bit_eq)
  then show ?thesis by (simp add: word_unat_eq_iff)
qed

lemma clear_flags_view [simp]:
  "length (clear_flags k ring) = length ring" "j < length ring \<Longrightarrow> st_view (clear_flags k ring ! j) = st_view (ring ! j)"
  by (cases "j = unat k"; simp add: clear_flags_def st_view_def nth_list_update)+

lemma h2c_desc_view [simp]: "st_view (h2c_desc p i src len d) = (src, ucast (ucast len :: u16))"
  by (simp add: st_view_def h2c_desc_def)

lemma st_writer: "descriptor_writer p st_view (\<lambda>d. snd d \<le> 0xFFFF) (st_put p)"
  by unfold_locales (auto simp: st_put_def len_u16 nth_list_update Let_def)

lemma st_fill_sg_step:
  assumes "length (f_ring f) = unat (p_rngsz p)" "unat (f_pidx f) < unat (p_rngsz p)"
  shows "st_fill_sg p (fst w) (snd w) src tlen f =
    (let len = min tlen (p_aperture p); g = st_put p w (src, len) f in
     if f_desc_cnt g = p_desc_max p \<or> tlen - len = 0 then Some (tlen - len, g)
     else st_fill_sg p (fst w) (snd w) (src + ucast len) (tlen - len) g)"
proof -
  have "unat (next_pidx p (f_pidx f)) < length (f_ring f)"
    using next_pidx_nat [of "f_pidx f" p] assms by simp
  then show ?thesis using assms
    by (simp add: st_fill_sg.simps [of p "fst w" "snd w" src tlen f] st_put_def Let_def)
qed

interpretation st: sgl_filler p st_view "\<lambda>d. snd d \<le> 0xFFFF" "st_put p"
  "\<lambda>i sg. (i, sg_pg sg + ucast (sg_offset sg))" "\<lambda>w. st_fill_sg p (fst w) (snd w)" "st_fill_sgl p" for p
proof (rule sgl_filler.intro [OF st_writer])
  show "sgl_filler_axioms p (st_put p) (\<lambda>i sg. (i, sg_pg sg + ucast (sg_offset sg)))
    (\<lambda>w. st_fill_sg p (fst w) (snd w)) (st_fill_sgl p)"
  proof
    show "same_run f g \<Longrightarrow> same_run (st_put p w d f) (st_put p w d g)" for f g w d
      unfolding same_run_def st_put_def by (cases f; cases g) (simp add: Let_def)
    show "length (f_ring f) = unat (p_rngsz p) \<Longrightarrow> unat (f_pidx f) < unat (p_rngsz p) \<Longrightarrow>
      st_fill_sg p (fst w) (snd w) src tlen f =
        (let len = min tlen (p_aperture p); g = st_put p w (src, len) f in
         if f_desc_cnt g = p_desc_max p \<or> tlen - len = 0 then Some (tlen - len, g)
         else st_fill_sg p (fst w) (snd w) (src + ucast len) (tlen - len) g)" for f w src tlen
      by (rule st_fill_sg_step)
  qed (simp_all add: Let_def)
qed

end
