(* ===== verification/Descq_Engine.thy ===== *)
theory Descq_Engine
  imports Descq_Account
begin

text \<open>
  Submission keeps the books of a descriptor queue (\<^verbatim>\<open>libqdma/qdma_descq.c\<close>). \<open>request_engine\<close> is
  what the two kinds of request processing have in common: a request is continued at the byte it
  has come to, its pieces go to the free slots of the ring, and it is moved to the pending list
  when it is complete.
\<close>

subsection \<open>The pieces of one submission\<close>

definition sum_len :: "(u64 \<times> u32) list \<Rightarrow> u32" where
  "sum_len ps = sum_list (map snd ps)"

lemma length_concat_bytes: "length (concat (map piece_bytes ps)) = sum_list (map (unat \<circ> snd) ps)"
  by (induction ps) simp_all

lemma unat_sum_len:
  "sum_list (map (unat \<circ> snd) ps) < 2 ^ 32 \<Longrightarrow> unat (sum_len ps) = sum_list (map (unat \<circ> snd) ps)"
  by (induction ps) (simp_all add: sum_len_def unat_word_ariths)

text \<open>They are as many as fit, they have at least one byte each, and they end where the request does.\<close>

lemma submission_pieces:
  assumes r: "req_ok r" "in_work r" and ap: "ap \<noteq> 0" and room: "room \<noteq> 0"
    and f: "k < length (rq_sgl r)" "off \<le> sg_len (rq_sgl r ! k)" "rq_count r \<noteq> 0 \<longrightarrow> off \<noteq> sg_len (rq_sgl r ! k)"
      "drop (unat (cb_offset r)) (sg_bytes (rq_sgl r)) = drop (unat off) (sg_bytes (drop k (rq_sgl r)))"
    and ps: "ps = pieces_sgl ap room off (drop k (rq_sgl r))"
  shows "length ps \<le> room" "ps \<noteq> []" "\<forall>d\<in>set ps. inside (rq_sgl r) d"
    "unat (cb_offset r) + unat (sum_len ps) \<le> unat (rq_count r)"
    "unat (cb_offset r) + unat (sum_len ps) = unat (rq_count r) \<or> length ps = room"
    "rq_count r \<noteq> 0 \<Longrightarrow> length ps \<le> unat (sum_len ps)"
    "rq_count r = 0 \<Longrightarrow> length ps = 1"
    "\<exists>tl. drop (unat (cb_offset r)) (sg_bytes (rq_sgl r)) = concat (map piece_bytes ps) @ tl"
proof -
  let ?sgs = "drop k (rq_sgl r)"
  have ne: "?sgs \<noteq> []" and hd: "hd ?sgs = rq_sgl r ! k" using f(1) by (simp_all add: hd_drop_conv_nth)
  show len: "length ps \<le> room" unfolding ps by (rule pieces_sgl_len)
  show "ps \<noteq> []" unfolding ps by (rule pieces_sgl_nonempty [OF room ne])
  show "\<forall>d\<in>set ps. inside (rq_sgl r) d"
  proof
    fix d assume "d \<in> set ps"
    then have "inside ?sgs d" unfolding ps using pieces_sgl_inside f(2) hd by metis
    then show "inside (rq_sgl r) d" unfolding inside_def by (meson in_set_dropD)
  qed
  obtain tl where tl: "drop (unat (cb_offset r)) (sg_bytes (rq_sgl r)) = concat (map piece_bytes ps) @ tl"
    "tl = [] \<or> length ps = room"
    unfolding f(4) ps using pieces_sgl_bytes [of ?sgs off ap room] f(2) hd ne by auto
  then show "\<exists>tl. drop (unat (cb_offset r)) (sg_bytes (rq_sgl r)) = concat (map piece_bytes ps) @ tl" by blast
  have tot: "sg_total (rq_sgl r) = unat (rq_count r)" "unat (rq_count r) < 2 ^ 31" "unat (cb_offset r) \<le> unat (rq_count r)"
    using r by (auto simp: req_ok_def in_work_def word_less_nat_alt)
  have sum: "unat (rq_count r) - unat (cb_offset r) = sum_list (map (unat \<circ> snd) ps) + length tl"
    using arg_cong [OF tl(1), of length] tot(1) length_concat_bytes [of ps] by simp
  then have s32: "unat (sum_len ps) = sum_list (map (unat \<circ> snd) ps)" using tot(2) by (intro unat_sum_len) simp
  show "unat (cb_offset r) + unat (sum_len ps) \<le> unat (rq_count r)" using sum s32 tot(3) by simp
  show "unat (cb_offset r) + unat (sum_len ps) = unat (rq_count r) \<or> length ps = room"
    using sum s32 tot(3) tl(2) by auto
  show "length ps \<le> unat (sum_len ps)" if "rq_count r \<noteq> 0"
  proof -
    have "\<forall>sg\<in>set ?sgs. sg_len sg \<noteq> 0" using r(1) that by (auto simp: req_ok_def dest: in_set_dropD)
    then have "list_all (\<lambda>d. snd d \<noteq> 0) ps" unfolding ps using pieces_sgl_pos [OF ap] f(3) hd that by metis
    then show ?thesis using pos_bytes length_concat_bytes s32 by metis
  qed
  show "length ps = 1" if "rq_count r = 0"
  proof -
    obtain sg where sg: "rq_sgl r = [sg]" "sg_len sg = 0"
      using r(1) \<open>rq_count r = 0\<close> by (cases "rq_sgl r") (auto simp: req_ok_def unat_eq_zero)
    then have z: "k = 0" "off = 0" using f(1,2) by auto
    obtain m where "room = Suc m" using room by (cases room) auto
    then show ?thesis using sg z by (simp add: ps Let_def)
  qed
qed

subsection \<open>Books after a submission\<close>

text \<open>
  \<open>submitted i ps s t\<close>: the pieces have been handed to the hardware on behalf of the first
  waiting request, whose books and place in the lists are brought up to date.
\<close>

definition submitted :: "nat \<Rightarrow> (u64 \<times> u32) list \<Rightarrow> qdma_descq \<Rightarrow> qdma_descq \<Rightarrow> bool" where
  "submitted i ps s t \<longleftrightarrow>
     dq_conf t = dq_conf s \<and> dq_cidx t = dq_cidx s \<and> dq_credit t = dq_credit s \<and>
     unat (dq_pidx t) = (unat (dq_pidx s) + length ps) mod rng s \<and>
     dq_avail t = dq_avail s - of_nat (length ps) \<and>
     (\<forall>j. j \<noteq> i \<longrightarrow> dq_req t j = dq_req s j) \<and>
     cb_desc_nr (dq_req t i) = cb_desc_nr (dq_req s i) + of_nat (length ps) \<and>
     cb_offset (dq_req t i) = cb_offset (dq_req s i) + sum_len ps \<and>
     rq_count (dq_req t i) = rq_count (dq_req s i) \<and> rq_sgl (dq_req t i) = rq_sgl (dq_req s i) \<and>
     rq_ep_addr (dq_req t i) = rq_ep_addr (dq_req s i) \<and>
     (if cb_offset (dq_req t i) \<ge> rq_count (dq_req t i)
      then dq_pend_list t = dq_pend_list s @ [i] \<and> dq_work_list t = remove1 i (dq_work_list s)
      else dq_pend_list t = dq_pend_list s \<and> dq_work_list t = dq_work_list s)"

lemma update_submitted:
  assumes "dq_conf s0 = dq_conf s" "dq_cidx s0 = dq_cidx s" "dq_credit s0 = dq_credit s" "dq_req s0 = dq_req s"
    "dq_pend_list s0 = dq_pend_list s" "dq_work_list s0 = dq_work_list s"
    "unat p = (unat (dq_pidx s) + length ps) mod rng s"
  shows "submitted i ps s ((qdma_update_request i (of_nat (length ps)) (sum_len ps) so sgi s0)
    \<lparr>dq_pidx := p, dq_avail := dq_avail s - of_nat (length ps)\<rparr>)"
  using assms
  by (auto simp: submitted_def qdma_update_request_def qdma_work_queue_del_def upd_req_def Let_def)

lemma submitted_sel:
  assumes "submitted i ps s t"
  shows "j \<in> set (dq_work_list t) \<Longrightarrow> j \<in> set (dq_work_list s)" "rq_ep_addr (dq_req t j) = rq_ep_addr (dq_req s j)"
    "j \<noteq> i \<Longrightarrow> dq_req t j = dq_req s j"
  using assms set_remove1_subset [of i "dq_work_list s"]
  by (cases "j = i"; auto simp: submitted_def split: if_splits)+

lemma ring_dist_add:
  assumes "a < n" "b < n" "ring_dist n a b + m < n"
  shows "ring_dist n a ((b + m) mod n) = ring_dist n a b + m"
proof (cases "b + m < n")
  case True
  then show ?thesis using assms by (auto simp: ring_dist_def split: if_splits)
next
  case False
  then have "(b + m) mod n = b + m - n" using assms by (simp add: mod_if ring_dist_def split: if_splits)
  then show ?thesis using assms False by (auto simp: ring_dist_def split: if_splits)
qed

lemma ring_dist_end: "a < n \<Longrightarrow> b < n \<Longrightarrow> (a + ring_dist n a b) mod n = b"
  by (auto simp: ring_dist_def mod_if)

definition submission :: "qdma_descq \<Rightarrow> nat \<Rightarrow> nat list \<Rightarrow> (u64 \<times> u32) list \<Rightarrow> qdma_descq \<Rightarrow> bool" where
  "submission s i ws ps t \<longleftrightarrow>
     books_ok s \<and> dq_work_list s = i # ws \<and> submitted i ps s t \<and>
     ps \<noteq> [] \<and> length ps \<le> unat (dq_avail s) \<and>
     unat (cb_offset (dq_req s i)) + unat (sum_len ps) \<le> unat (rq_count (dq_req s i)) \<and>
     (if rq_count (dq_req s i) = 0 then length ps = 1 else length ps \<le> unat (sum_len ps))"

lemma submissionD:
  assumes "submission s i ws ps t"
  shows "books_ok s" "dq_work_list s = i # ws" "submitted i ps s t" "ps \<noteq> []" "length ps \<le> unat (dq_avail s)"
    "unat (cb_offset (dq_req s i)) + unat (sum_len ps) \<le> unat (rq_count (dq_req s i))"
    "rq_count (dq_req s i) \<noteq> 0 \<Longrightarrow> length ps \<le> unat (sum_len ps)"
    "rq_count (dq_req s i) = 0 \<Longrightarrow> length ps = 1"
  using assms by (auto simp: submission_def split: if_splits)

lemma sub_req:
  assumes "submission s i ws ps t"
  shows "in_work (dq_req s i)" "req_ok (dq_req s i)" "req_ok (dq_req t i)" "i \<notin> set ws" "i \<notin> set (dq_pend_list s)"
  using submissionD(1-3) [OF assms] by (auto simp: books_ok_def listed_def submitted_def req_ok_def)

lemma sub_offset:
  assumes "submission s i ws ps t"
  shows "unat (cb_offset (dq_req t i)) = unat (cb_offset (dq_req s i)) + unat (sum_len ps)"
  "unat (cb_desc_nr (dq_req t i)) = unat (cb_desc_nr (dq_req s i)) + length ps"
proof -
  note D = submissionD [OF assms]
  note b = D(1) and w = D(2) and t = D(3) and ps = D(4-8)
  note sub_req = sub_req [OF assms]
  have c: "unat (rq_count (dq_req s i)) < 2 ^ 31" using sub_req by (simp add: req_ok_def)
  show "unat (cb_offset (dq_req t i)) = unat (cb_offset (dq_req s i)) + unat (sum_len ps)"
    using t ps(3) c by (simp add: submitted_def unat_word_ariths)
  have "unat (cb_desc_nr (dq_req s i)) \<le> unat (cb_offset (dq_req s i))" using sub_req(1) by (simp add: in_work_def)
  moreover have "length ps \<le> unat (sum_len ps) + 1" using ps(4,5) by (cases "rq_count (dq_req s i) = 0") auto
  moreover have "(2::nat) ^ 31 + 1 < 2 ^ 32" by simp
  ultimately have "unat (cb_desc_nr (dq_req s i)) + length ps < 2 ^ 32" using ps(3) c by linarith
  then show "unat (cb_desc_nr (dq_req t i)) = unat (cb_desc_nr (dq_req s i)) + length ps"
    using t by (simp add: submitted_def unat_word_ariths unat_of_nat)
qed

lemma sub_listed: "submission s i ws ps t \<Longrightarrow> listed t = listed s"
  using submissionD(2,3) [of s i ws ps t] by (auto simp: submitted_def listed_def split: if_splits)

lemma sub_owners:
  assumes "submission s i ws ps t"
  shows "owners t = owners s @ replicate (length ps) i"
proof -
  note D = submissionD [OF assms]
  note b = D(1) and w = D(2) and t = D(3) and ps = D(4-8)
  note sub_req = sub_req [OF assms]
  note sub_offset = sub_offset [OF assms] and sub_listed = sub_listed [OF assms]
  have z: "copies f ws = []" if "\<And>j. j \<in> set ws \<Longrightarrow> f j = desc_nr s j" for f
    using b w that by (intro copies_zero) (simp add: books_ok_def)
  have eq: "desc_nr t j = desc_nr s j" if "j \<noteq> i" for j using t that by (simp add: submitted_def)
  have p: "copies (desc_nr t) (dq_pend_list s) = copies (desc_nr s) (dq_pend_list s)"
    using sub_req(5) eq by (intro copies_cong) metis
  have l: "listed s = dq_pend_list s @ i # ws" by (simp add: listed_def w)
  have "copies (desc_nr t) ws = []" by (rule z) (metis eq sub_req(4))
  moreover have "copies (desc_nr s) ws = []" by (rule z) (rule refl)
  ultimately show ?thesis
    unfolding owners_def sub_listed l using p sub_offset(2) by (simp add: replicate_add)
qed

lemma sub_inflight:
  assumes "submission s i ws ps t"
  shows "inflight t = inflight s + length ps" "unat (dq_avail t) + inflight t = rng s - 1"
proof -
  note D = submissionD [OF assms]
  note b = D(1) and w = D(2) and t = D(3) and ps = D(4-8)
  note sub_req = sub_req [OF assms]
  note sub_offset = sub_offset [OF assms] and sub_listed = sub_listed [OF assms]
  have r: "unat (dq_avail s) + inflight s = rng s - 1" "unat (dq_pidx s) < rng s" "unat (dq_cidx s) < rng s" "2 \<le> rng s"
    using b by (simp_all add: books_ok_def)
  then show f: "inflight t = inflight s + length ps"
    using t ps(2) ring_dist_add [of "unat (dq_cidx s)" "rng s" "unat (dq_pidx s)" "length ps"]
    by (simp add: inflight_def submitted_def)
  have "unat (dq_avail s) < 2 ^ LENGTH(32)" by (rule unsigned_less)
  then have "unat (of_nat (length ps) :: u32) = length ps"
    using ps(2) by (simp add: unat_of_nat)
  then have "unat (dq_avail t) = unat (dq_avail s) - length ps"
    using t ps(2) by (simp add: submitted_def unat_sub word_le_nat_alt)
  then show "unat (dq_avail t) + inflight t = rng s - 1" using f r ps(2) by simp
qed

lemma sub_books:
  assumes "submission s i ws ps t"
  shows "books_ok t"
  unfolding books_ok_def sub_listed [OF assms]
proof (intro conjI)
  note D = submissionD [OF assms]
  note b = D(1) and w = D(2) and t = D(3) and ps = D(4-8)
  note sub_req = sub_req [OF assms] and sub_offset = sub_offset [OF assms] and sub_owners = sub_owners [OF assms]
    and sub_inflight = sub_inflight [OF assms]
  have c: "dq_conf t = dq_conf s" "dq_cidx t = dq_cidx s" "dq_credit t = dq_credit s"
    "unat (dq_pidx t) = (unat (dq_pidx s) + length ps) mod rng s" using t by (simp_all add: submitted_def)
  show "2 \<le> rng t" "rng t \<le> 65536" "unat (dq_pidx t) < rng t" "unat (dq_cidx t) < rng t" "distinct (listed s)"
    using b c by (simp_all add: books_ok_def)
  show "unat (dq_avail t) + inflight t = rng t - 1" using sub_inflight(2) c by simp
  show "length (owners t) = unat (dq_credit t) + inflight t"
    using b sub_owners sub_inflight(1) c by (simp add: books_ok_def)
  have dn: "desc_nr s j \<le> desc_nr t j" for j
    using t sub_offset(2) by (cases "j = i") (simp_all add: submitted_def)
  show "listed s \<noteq> [] \<longrightarrow> unat (dq_credit t) \<le> desc_nr t (hd (listed s))"
    using b c order_trans [OF _ dn] by (simp add: books_ok_def)
  show "dq_pend_list t \<noteq> [] \<longrightarrow> unat (dq_credit t) < desc_nr t (hd (dq_pend_list t))"
  proof (cases "dq_pend_list s = []")
    case True
    then have "unat (dq_credit s) \<le> desc_nr s i" using b w by (simp add: books_ok_def listed_def)
    moreover have "0 < length ps" using ps(1) by simp
    ultimately have "unat (dq_credit s) < desc_nr t i" unfolding sub_offset(2) by linarith
    then have "unat (dq_credit t) < desc_nr t i" using c(3) by simp
    moreover have "dq_pend_list t = [] \<or> dq_pend_list t = [i]" using t True unfolding submitted_def by (metis append_Nil)
    ultimately show ?thesis by auto
  next
    case False
    then have "hd (dq_pend_list t) = hd (dq_pend_list s)" using t unfolding submitted_def by (metis hd_append2)
    moreover have "unat (dq_credit s) < desc_nr s (hd (dq_pend_list s))" using b False by (simp add: books_ok_def)
    ultimately show ?thesis using c less_le_trans [OF _ dn] by simp
  qed
  have other: "dq_req t j = dq_req s j" if "j \<noteq> i" for j using t that by (simp add: submitted_def)
  show "\<forall>j\<in>set (listed s). req_ok (dq_req t j)" using sub_req(3) other b by (metis books_ok_def)
  have rest: "\<forall>j\<in>set ws. in_work (dq_req t j) \<and> cb_desc_nr (dq_req t j) = 0 \<and> cb_offset (dq_req t j) = 0"
  proof
    fix j assume j: "j \<in> set ws"
    then have "dq_req t j = dq_req s j" using sub_req(4) other by metis
    then show "in_work (dq_req t j) \<and> cb_desc_nr (dq_req t j) = 0 \<and> cb_offset (dq_req t j) = 0"
      using b w j by (simp add: books_ok_def)
  qed
  have pend: "\<forall>j\<in>set (dq_pend_list s). in_pend (dq_req t j)" using b sub_req(5) other by (metis books_ok_def)
  have le: "unat (cb_desc_nr (dq_req t i)) \<le> unat (cb_offset (dq_req t i)) \<or> rq_count (dq_req s i) = 0 \<and> unat (cb_desc_nr (dq_req t i)) = 1"
    using sub_req(1) sub_offset ps(4,5) by (cases "rq_count (dq_req s i) = 0") (auto simp: in_work_def)
  have cnt: "rq_count (dq_req t i) = rq_count (dq_req s i)" using t by (simp add: submitted_def)
  show "\<forall>j\<in>set (dq_work_list t). in_work (dq_req t j)" "\<forall>j\<in>set (dq_pend_list t). in_pend (dq_req t j)"
    "\<forall>j\<in>set (tl (dq_work_list t)). cb_desc_nr (dq_req t j) = 0 \<and> cb_offset (dq_req t j) = 0"
  proof -
    show "\<forall>j\<in>set (tl (dq_work_list t)). cb_desc_nr (dq_req t j) = 0 \<and> cb_offset (dq_req t j) = 0"
      using t w rest by (cases ws) (simp_all add: submitted_def split: if_splits)
    show "\<forall>j\<in>set (dq_work_list t). in_work (dq_req t j)"
    proof (cases "cb_offset (dq_req t i) \<ge> rq_count (dq_req t i)")
      case True
      then show ?thesis using t w rest by (simp add: submitted_def)
    next
      case False
      then have "in_work (dq_req t i)" using le cnt by (auto simp: in_work_def not_le)
      then show ?thesis using False t w rest by (simp add: submitted_def)
    qed
    show "\<forall>j\<in>set (dq_pend_list t). in_pend (dq_req t j)"
    proof (cases "cb_offset (dq_req t i) \<ge> rq_count (dq_req t i)")
      case True
      then have "cb_offset (dq_req t i) = rq_count (dq_req t i)"
        using sub_offset(1) ps(3) cnt by (simp add: word_le_nat_alt word_unat_eq_iff)
      moreover have "cb_desc_nr (dq_req t i) \<noteq> 0" using sub_offset(2) ps(1) by (metis add_is_0 length_0_conv unat_0)
      ultimately have "in_pend (dq_req t i)" using le by (auto simp: in_pend_def)
      then show ?thesis using True t pend by (simp add: submitted_def)
    next
      case False
      then show ?thesis using t pend by (simp add: submitted_def)
    qed
  qed
qed

text \<open>The descriptors in flight are those of before and the new ones.\<close>

lemma sub_owned:
  assumes S: "submission s i ws ps t" and v: "owned v s" "length v' = length v" "length v = rng s"
    and new: "\<forall>j<length ps. v' ! ((unat (dq_pidx s) + j) mod rng s) = ps ! j" "\<forall>d\<in>set ps. inside (rq_sgl (dq_req s i)) d"
    and old: "\<forall>k<rng s. (\<forall>j\<le>length ps. k \<noteq> (unat (dq_pidx s) + j) mod rng s) \<longrightarrow> v' ! k = v ! k"
  shows "owned v' t"
  unfolding owned_def
proof (intro allI impI)
  fix k assume k: "k < inflight t"
  note D = submissionD [OF S]
  let ?c = "unat (dq_cidx s)" and ?n = "length ps"
  have c: "dq_conf t = dq_conf s" "dq_cidx t = dq_cidx s" "dq_credit t = dq_credit s" "rq_sgl (dq_req t j) = rq_sgl (dq_req s j)" for j
    using D(3) by (cases "j = i"; simp add: submitted_def)+
  have r: "?c < rng s" "unat (dq_pidx s) < rng s" "unat (dq_avail s) + inflight s = rng s - 1" "2 \<le> rng s"
    "length (owners s) = unat (dq_credit s) + inflight s"
    using D(1) by (simp_all add: books_ok_def)
  have pidx: "unat (dq_pidx s) = (?c + inflight s) mod rng s"
    using ring_dist_end [OF r(1,2)] by (simp add: inflight_def)
  have pj: "(unat (dq_pidx s) + j) mod rng s = (?c + (inflight s + j)) mod rng s" for j
    unfolding pidx by (simp add: mod_add_left_eq add.assoc)
  show "inside (rq_sgl (dq_req t (owners t ! (unat (dq_credit t) + k)))) (v' ! ((unat (dq_cidx t) + k) mod rng t))"
  proof (cases "k < inflight s")
    case True
    have "(?c + k) mod rng s \<noteq> (unat (dq_pidx s) + j) mod rng s" if "j \<le> ?n" for j
    proof -
      have "k < inflight s + j" "inflight s + j < rng s" using True that D(5) r(3,4) by linarith+
      then show ?thesis unfolding pj by (rule slots_differ)
    qed
    then have "v' ! ((?c + k) mod rng s) = v ! ((?c + k) mod rng s)" using old r(4) by simp
    moreover have "owners t ! (unat (dq_credit s) + k) = owners s ! (unat (dq_credit s) + k)"
      using True r(5) by (simp add: sub_owners [OF S] nth_append)
    ultimately show ?thesis using v(1) True c by (simp add: owned_def)
  next
    case False
    define j where "j = k - inflight s"
    have j: "j < ?n" "k = inflight s + j" using False k sub_inflight(1) [OF S] by (simp_all add: j_def)
    have "owners t ! (unat (dq_credit s) + k) = i"
      using j r(5) by (simp add: sub_owners [OF S] nth_append)
    moreover have "v' ! ((?c + k) mod rng s) = ps ! j" using new(1) j pj by simp
    ultimately show ?thesis using new(2) j c by simp
  qed
qed

subsection \<open>Both kinds of processing\<close>

text \<open>
  \<open>V\<close> is the ring as host address and length of each slot, \<open>ap\<close> the largest piece of a request,
  \<open>ready\<close> what the request and the configuration have to satisfy.
\<close>

definition sub_state :: "nat \<Rightarrow> (u64 \<times> u32) list \<Rightarrow> u32 \<Rightarrow> nat option \<Rightarrow> u32 \<Rightarrow> qdma_descq \<Rightarrow> qdma_descq \<Rightarrow> qdma_descq" where
  "sub_state i ps so sgi p s s0 =
     (qdma_update_request i (of_nat (length ps)) (sum_len ps) so sgi s0)
       \<lparr>dq_pidx := p, dq_avail := dq_avail s - of_nat (length ps)\<rparr>"

text \<open>The state with another ring.\<close>

definition new_ring :: "qdma_descq \<Rightarrow> qdma_descq \<Rightarrow> bool" where
  "new_ring s0 s \<longleftrightarrow> s0 = s\<lparr>dq_mm_ring := dq_mm_ring s0, dq_h2c_ring := dq_h2c_ring s0\<rparr>"

lemma new_ring_sel:
  assumes "new_ring s0 s"
  shows "dq_conf s0 = dq_conf s" "dq_cidx s0 = dq_cidx s" "dq_credit s0 = dq_credit s" "dq_req s0 = dq_req s"
    "dq_pend_list s0 = dq_pend_list s" "dq_work_list s0 = dq_work_list s"
proof -
  obtain a b where "s0 = s\<lparr>dq_mm_ring := a, dq_h2c_ring := b\<rparr>" using assms unfolding new_ring_def by blast
  then show "dq_conf s0 = dq_conf s" "dq_cidx s0 = dq_cidx s" "dq_credit s0 = dq_credit s" "dq_req s0 = dq_req s"
    "dq_pend_list s0 = dq_pend_list s" "dq_work_list s0 = dq_work_list s" by simp_all
qed

text \<open>
  What submissions and completions promise to the users of a queue: no request gets lost, one that
  has left the lists is done, and requests of others are not touched.
\<close>

definition kept :: "qdma_request \<Rightarrow> qdma_request \<Rightarrow> bool" where
  "kept r r0 \<longleftrightarrow> rq_sgl r = rq_sgl r0 \<and> rq_count r = rq_count r0 \<and> cb_done r = cb_done r0"

lemma less_descs_kept: "less_descs r r0 \<Longrightarrow> kept r r0"
proof -
  assume "less_descs r r0"
  then obtain n where "r = r0\<lparr>cb_desc_nr := n\<rparr>" unfolding less_descs_def by blast
  then show ?thesis by (simp add: kept_def)
qed

definition follows :: "qdma_descq \<Rightarrow> qdma_descq \<Rightarrow> bool" where
  "follows s t \<longleftrightarrow> dq_conf t = dq_conf s \<and> dq_q_state t = dq_q_state s \<and> dq_q_stop_wait t = dq_q_stop_wait s \<and>
     set (listed t) \<subseteq> set (listed s) \<and> (\<forall>i\<in>set (listed s). i \<in> set (listed t) \<or> cb_done (dq_req t i)) \<and>
     (\<forall>i\<in>set (listed t). kept (dq_req t i) (dq_req s i)) \<and>
     (\<forall>i. i \<notin> set (listed s) \<longrightarrow> dq_req t i = dq_req s i)"

lemma follows_refl [simp]: "follows s s"
  by (simp add: follows_def kept_def)

lemma follows_trans: "follows s t \<Longrightarrow> follows t u \<Longrightarrow> follows s u"
  unfolding follows_def kept_def by (metis subset_iff)

lemma completed_follows:
  assumes "completed s t"
  shows "follows s t"
proof -
  obtain m where m: "dq_pend_list t = drop m (dq_pend_list s)" "\<forall>i\<in>set (take m (dq_pend_list s)). cb_done (dq_req t i)"
    "dq_work_list t = dq_work_list s" "\<forall>i. i \<notin> set (dq_pend_list s) \<longrightarrow> dq_req t i = dq_req s i"
    using assms by (auto simp: completed_def)
  have "set (dq_pend_list s) = set (take m (dq_pend_list s)) \<union> set (drop m (dq_pend_list s))"
    by (metis append_take_drop_id set_append)
  moreover have "\<forall>i\<in>set (listed t). kept (dq_req t i) (dq_req s i)"
    using assms less_descs_kept by (simp add: completed_def)
  ultimately show ?thesis using m assms by (auto simp: follows_def completed_def listed_def)
qed

lemma submission_follows:
  assumes S: "submission s i ws ps t" and "dq_q_state t = dq_q_state s" "dq_q_stop_wait t = dq_q_stop_wait s"
    "cb_done (dq_req t i) = cb_done (dq_req s i)"
  shows "follows s t"
proof -
  have "i \<in> set (listed s)" using submissionD(2) [OF S] by (simp add: listed_def)
  then have "dq_req t j = dq_req s j" if "j \<notin> set (listed s)" for j
    using submitted_sel(3) [OF submissionD(3) [OF S]] that by metis
  moreover have "dq_conf t = dq_conf s" "kept (dq_req t i) (dq_req s i)"
    using submissionD(3) [OF S] assms(4) by (simp_all add: submitted_def kept_def)
  moreover from this(2) have "kept (dq_req t j) (dq_req s j)" for j
    using submitted_sel(3) [OF submissionD(3) [OF S], of j] by (cases "j = i") (simp_all add: kept_def)
  ultimately show ?thesis using assms sub_listed [OF S] unfolding follows_def by auto
qed

locale request_engine =
  fixes V :: "qdma_descq \<Rightarrow> (u64 \<times> u32) list"
    and ap :: "qdma_descq \<Rightarrow> nat \<Rightarrow> u32"
    and ready :: "qdma_queue_conf \<Rightarrow> qdma_request \<Rightarrow> bool"
    and submit :: "nat \<Rightarrow> nat \<Rightarrow> u32 \<Rightarrow> qdma_descq \<Rightarrow> (u32 \<times> qdma_descq) option"
  assumes V_cong: "dq_conf t = dq_conf s \<Longrightarrow> dq_mm_ring t = dq_mm_ring s \<Longrightarrow> dq_h2c_ring t = dq_h2c_ring s \<Longrightarrow> V t = V s"
    and ready_cong: "rq_ep_addr r' = rq_ep_addr r \<Longrightarrow> ready c r' = ready c r"
    and ap_pos: "ready (dq_conf s) (dq_req s i) \<Longrightarrow> ap s i \<noteq> 0"
    and submit_spec: "\<lbrakk> ready (dq_conf s) (dq_req s i); length (V s) = rng s; unat (dq_pidx s) < rng s; dq_avail s \<noteq> 0;
        unat (dq_avail s) < rng s; k < length (rq_sgl (dq_req s i)); off \<le> sg_len (rq_sgl (dq_req s i) ! k) \<rbrakk> \<Longrightarrow>
      \<exists>s0 so sgi p ps. ps = pieces_sgl (ap s i) (unat (dq_avail s)) off (drop k (rq_sgl (dq_req s i))) \<and>
        submit i k off s = Some (of_nat (length ps), sub_state i ps so sgi p s s0) \<and> new_ring s0 s \<and>
        unat p = (unat (dq_pidx s) + length ps) mod rng s \<and> length (V s0) = length (V s) \<and>
        (\<forall>j<length ps. V s0 ! ((unat (dq_pidx s) + j) mod rng s) = ps ! j) \<and>
        (\<forall>q<rng s. (\<forall>j\<le>length ps. q \<noteq> (unat (dq_pidx s) + j) mod rng s) \<longrightarrow> V s0 ! q = V s ! q)"
begin

definition engine_ok :: "qdma_descq \<Rightarrow> bool" where
  "engine_ok s \<longleftrightarrow> queue_ok (V s) s \<and> (\<forall>i\<in>set (dq_work_list s). ready (dq_conf s) (dq_req s i))"

text \<open>The bytes that are still to be submitted.\<close>

definition todo :: "qdma_descq \<Rightarrow> nat" where
  "todo s = sum_list (map (\<lambda>i. unat (rq_count (dq_req s i)) - unat (cb_offset (dq_req s i)) + 1) (dq_work_list s))"

lemma completed_keeps:
  assumes "engine_ok s" "queue_ok (V s) t" "completed s t"
  shows "engine_ok t" "todo t = todo s" "V t = V s" "follows s t"
proof -
  show "follows s t" by (rule completed_follows [OF assms(3)])
  show V: "V t = V s" using assms(3) by (intro V_cong) (simp_all add: completed_def)
  have "distinct (listed s)" using assms(1) by (simp add: engine_ok_def queue_ok_def books_ok_def)
  then have "dq_req t i = dq_req s i" if "i \<in> set (dq_work_list s)" for i
    using assms(3) that by (auto simp: completed_def listed_def)
  moreover have "dq_work_list t = dq_work_list s" "dq_conf t = dq_conf s" using assms(3) by (simp_all add: completed_def)
  ultimately show "engine_ok t" "todo t = todo s"
    using assms(1,2) V by (simp_all add: engine_ok_def todo_def cong: map_cong)
qed

lemma sum_le: "(\<And>x. x \<in> set xs \<Longrightarrow> f x = g x) \<Longrightarrow> sum_list (map f xs) = sum_list (map (g :: nat \<Rightarrow> nat) xs)"
  by (rule arg_cong [where f = sum_list], rule map_cong) auto

text \<open>Continuing the first request makes progress and keeps the books.\<close>

lemma submit_keeps:
  assumes ok: "engine_ok s" and w: "dq_work_list s = i # ws" and room: "dq_avail s \<noteq> 0"
  shows "\<exists>k off n t. qdma_sgl_find_offset (dq_req s i) = (int k, off) \<and> submit i k off s = Some (n, t) \<and> n \<noteq> 0 \<and>
    engine_ok t \<and> todo t < todo s \<and> follows s t"
proof -
  let ?r = "dq_req s i"
  have q: "books_ok s" "length (V s) = rng s" "owned (V s) s" and rd: "ready (dq_conf s) ?r"
    using ok w by (simp_all add: engine_ok_def queue_ok_def)
  then have r: "req_ok ?r" "in_work ?r" and nums: "unat (dq_pidx s) < rng s" "unat (dq_avail s) < rng s"
    using w by (auto simp: books_ok_def listed_def)
  obtain k off where f: "qdma_sgl_find_offset ?r = (int k, off)" "k < length (rq_sgl ?r)" "off \<le> sg_len (rq_sgl ?r ! k)"
    "rq_count ?r \<noteq> 0 \<longrightarrow> off \<noteq> sg_len (rq_sgl ?r ! k)"
    "drop (unat (cb_offset ?r)) (sg_bytes (rq_sgl ?r)) = drop (unat off) (sg_bytes (drop k (rq_sgl ?r)))"
    using find_offset_ok [OF r] by blast
  obtain s0 so sgi p ps where ps: "ps = pieces_sgl (ap s i) (unat (dq_avail s)) off (drop k (rq_sgl ?r))"
    and sub: "submit i k off s = Some (of_nat (length ps), sub_state i ps so sgi p s s0)" and s0: "new_ring s0 s"
    and p: "unat p = (unat (dq_pidx s) + length ps) mod rng s" and v: "length (V s0) = length (V s)"
      "\<forall>j<length ps. V s0 ! ((unat (dq_pidx s) + j) mod rng s) = ps ! j"
      "\<forall>q<rng s. (\<forall>j\<le>length ps. q \<noteq> (unat (dq_pidx s) + j) mod rng s) \<longrightarrow> V s0 ! q = V s ! q"
    using submit_spec [OF rd q(2) nums(1) room nums(2) f(2,3)] by blast
  define t where "t = sub_state i ps so sgi p s s0"
  have "unat (dq_avail s) \<noteq> 0" using room by (simp add: unat_eq_zero)
  note P = submission_pieces [OF r ap_pos [OF rd] this f(2-5) ps]
  note core = new_ring_sel [OF s0]
  have sb: "submitted i ps s t" unfolding t_def sub_state_def by (rule update_submitted [OF core p])
  have S: "submission s i ws ps t" using q(1) w sb P by (simp add: submission_def)
  have tc: "dq_conf t = dq_conf s" using sb by (simp only: submitted_def)
  have Vt: "V t = V s0" by (rule V_cong) (simp_all add: t_def sub_state_def qdma_update_request_def qdma_work_queue_del_def upd_req_def Let_def)
  have "length (V t) = rng t" unfolding Vt v(1) q(2) tc ..
  moreover have "owned (V t) t" unfolding Vt by (rule sub_owned [OF S q(3) v(1) q(2) v(2) P(3) v(3)])
  ultimately have qt: "queue_ok (V t) t" using sub_books [OF S] by (simp only: queue_ok_def)
  have rdt: "\<forall>j\<in>set (dq_work_list t). ready (dq_conf t) (dq_req t j)"
  proof
    fix j assume "j \<in> set (dq_work_list t)"
    then have "ready (dq_conf s) (dq_req s j)" using submitted_sel(1) [OF sb] ok by (simp add: engine_ok_def)
    then show "ready (dq_conf t) (dq_req t j)" unfolding tc ready_cong [OF submitted_sel(2) [OF sb]] .
  qed
  have "todo t < todo s"
  proof -
    let ?g = "\<lambda>s i. unat (rq_count (dq_req s i)) - unat (cb_offset (dq_req s i)) + 1"
    have ws: "sum_list (map (?g t) ws) = sum_list (map (?g s) ws)"
      using submitted_sel(3) [OF sb] sub_req(4) [OF S] by (intro sum_le) metis
    show ?thesis
    proof (cases "cb_offset (dq_req t i) \<ge> rq_count (dq_req t i)")
      case True
      then have "dq_work_list t = ws" using sb w by (simp add: submitted_def)
      then show ?thesis using ws w by (simp add: todo_def)
    next
      case False
      then have wl: "dq_work_list t = i # ws" using sb w by (simp add: submitted_def)
      have "0 < unat (sum_len ps)"
      proof (cases "rq_count ?r = 0")
        case True
        then show ?thesis using False sb by (simp add: submitted_def)
      next
        case False
        then have "length ps \<le> unat (sum_len ps)" by (rule P(6))
        moreover have "0 < length ps" using P(2) by simp
        ultimately show ?thesis by linarith
      qed
      moreover have "unat (rq_count (dq_req t i)) = unat (rq_count ?r)" using sb by (simp add: submitted_def)
      ultimately have "?g t i < ?g s i" using sub_offset(1) [OF S] P(4) by linarith
      then show ?thesis using ws w wl by (simp add: todo_def)
    qed
  qed
  moreover have "of_nat (length ps) \<noteq> (0 :: u32)"
  proof -
    have "unat (dq_avail s) < 2 ^ LENGTH(32)" by (rule unsigned_less)
    then have "unat (of_nat (length ps) :: u32) = length ps" using P(1) by (simp add: unat_of_nat)
    then show ?thesis using P(2) by (metis length_0_conv unat_0)
  qed
  moreover have "follows s t"
  proof (rule submission_follows [OF S])
    obtain a b where "s0 = s\<lparr>dq_mm_ring := a, dq_h2c_ring := b\<rparr>" using s0 unfolding new_ring_def by blast
    then show "dq_q_state t = dq_q_state s" "dq_q_stop_wait t = dq_q_stop_wait s" "cb_done (dq_req t i) = cb_done (dq_req s i)"
      by (simp_all add: t_def sub_state_def qdma_update_request_def qdma_work_queue_del_def upd_req_def Let_def)
  qed
  ultimately have "engine_ok t \<and> todo t < todo s \<and> of_nat (length ps) \<noteq> (0 :: u32) \<and> follows s t"
    using qt rdt tc by (simp add: engine_ok_def)
  then show ?thesis using f(1) sub [folded t_def] by blast
qed

text \<open>What one turn of the request loop does: it stops at a full ring, or it makes progress.\<close>

lemma turn:
  assumes "hw_ok e" "engine_ok s" "dq_work_list s = i # ws"
  defines "s1 \<equiv> if dq_avail s = 0 then descq_poll_mm_n_h2c_cmpl_status e s else s"
  shows "engine_ok s1" "follows s s1" "todo s1 = todo s" "dq_work_list s1 = i # ws"
    "dq_avail s1 = 0 \<or> (\<exists>k off n t. qdma_sgl_find_offset (dq_req s1 i) = (int k, off) \<and> submit i k off s1 = Some (n, t) \<and>
       n \<noteq> 0 \<and> engine_ok t \<and> todo t < todo s \<and> follows s t)"
proof -
  have "queue_ok (V s) s" using assms(2) by (simp add: engine_ok_def)
  note pk = poll_keeps [OF assms(1) this]
  have s1: "engine_ok s1 \<and> follows s s1 \<and> todo s1 = todo s \<and> dq_work_list s1 = i # ws"
    unfolding s1_def using completed_keeps [OF assms(2)] pk assms(2,3) by (simp add: completed_def)
  then show "engine_ok s1" "follows s s1" "todo s1 = todo s" "dq_work_list s1 = i # ws" by simp_all
  show "dq_avail s1 = 0 \<or> (\<exists>k off n t. qdma_sgl_find_offset (dq_req s1 i) = (int k, off) \<and> submit i k off s1 = Some (n, t) \<and>
       n \<noteq> 0 \<and> engine_ok t \<and> todo t < todo s \<and> follows s t)"
  proof (cases "dq_avail s1 = 0")
    case False
    obtain k off n t where t: "qdma_sgl_find_offset (dq_req s1 i) = (int k, off)" "submit i k off s1 = Some (n, t)" "n \<noteq> 0"
      "engine_ok t" "todo t < todo s1" "follows s1 t"
      using submit_keeps [OF _ _ False, of i ws] s1 by blast
    have "follows s t" using s1 t(6) by (blast intro: follows_trans)
    then show ?thesis using t s1 by auto
  qed simp
qed

end

end
