(* ===== verification/Descq_Run.thy ===== *)
theory Descq_Run
  imports Descq_Engine
begin

text \<open>
  Request processing of a descriptor queue (\<^verbatim>\<open>libqdma/qdma_descq.c\<close>): the loops for memory mapped and
  for streaming host-to-card requests are instances of \<open>request_engine\<close>; they return, they keep the
  books, and they stop only when nothing waits or the ring is full.
\<close>

subsection \<open>One request\<close>

lemma pieces_le: "d \<in> set (fst (pieces ap room src tlen)) \<Longrightarrow> snd d \<le> ap"
  by (induction ap room src tlen rule: pieces.induct) (auto simp: Let_def split: prod.splits if_splits)

lemma pieces_sgl_le: "d \<in> set (pieces_sgl ap room off sgs) \<Longrightarrow> snd d \<le> ap"
  by (induction ap room off sgs rule: pieces_sgl.induct) (auto simp: Let_def dest: pieces_le split: if_splits)

context sgl_filler begin

text \<open>What a submission leaves in the ring: one piece per slot, from the producer index on.\<close>

lemma fill_request:
  assumes f: "length (f_ring f) = unat (p_rngsz p)" "unat (f_pidx f) < unat (p_rngsz p)" "f_desc_cnt f = 0" "f_data_cnt f = 0"
    and room: "unat (p_desc_max p) < unat (p_rngsz p)"
    and ps: "ps = pieces_sgl (p_aperture p) (unat (p_desc_max p)) (f_sg_offset f) sgs" "list_all fits ps"
  shows "\<exists>i1 f1 ds. fill_sgl i sgs f = Some (i1, f1) \<and> same_run f1 (run ds f) \<and> length ds = length ps \<and>
    f_desc_cnt f1 = of_nat (length ps) \<and> f_data_cnt f1 = sum_list (map snd ps) \<and>
    unat (f_pidx f1) = slot f (length ps) \<and> length (f_ring f1) = length (f_ring f) \<and>
    (\<forall>j<length ps. view (f_ring f1 ! slot f j) = ps ! j) \<and>
    (\<forall>q<length (f_ring f). (\<forall>j\<le>length ps. q \<noteq> slot f j) \<longrightarrow> view (f_ring f1 ! q) = view (f_ring f ! q))"
proof -
  obtain i1 f1 ds where fill: "fill_sgl i sgs f = Some (i1, f1)" "same_run f1 (run ds f)" "map snd ds = ps"
    using fill_sgl_pieces [OF f(1,2), of i sgs] f(3) ps(1) by auto
  note sel = same_run_sel [OF fill(2)]
  have len: "length ds = length ps" using fill(3) by auto
  have "length ps \<le> unat (p_desc_max p)" unfolding ps(1) by (rule pieces_sgl_len)
  then have l: "length ds < unat (p_rngsz p)" using len room by simp
  have fit: "list_all (fits \<circ> snd) ds" using ps(2) fill(3) by (fastforce simp: list_all_iff)
  have "snd (ds ! j) = ps ! j" if "j < length ps" for j using that len fill(3) nth_map by metis
  then have "\<forall>j<length ps. view (f_ring f1 ! slot f j) = ps ! j"
    using run_slots [OF f(2,1) fit l] sel(1) len by simp
  moreover have "\<forall>q<length (f_ring f). (\<forall>j\<le>length ps. q \<noteq> slot f j) \<longrightarrow> view (f_ring f1 ! q) = view (f_ring f ! q)"
    using run_other [OF f(2,1), where ds = ds] sel(1) len by simp
  moreover have "sum_list (map (snd \<circ> snd) ds) = sum_list (map snd ps)" using fill(3) by auto
  ultimately show ?thesis
    using fill(1,2) len sel run_cnt [of ds f] run_data [of ds f] run_length [of ds f] run_pidx [OF f(2), of ds] f(3,4) by auto
qed

end

subsection \<open>Memory mapped requests\<close>

definition mm_V :: "qdma_descq \<Rightarrow> (u64 \<times> u32) list" where
  "mm_V s = map (mm_view (qc_q_type (dq_conf s) = Q_C2H)) (dq_mm_ring s)"

definition mm_ready :: "qdma_queue_conf \<Rightarrow> qdma_request \<Rightarrow> bool" where
  "mm_ready c r \<longleftrightarrow> qc_aperture_size c = 0 \<and> \<not> is_ul_ext c"

lemma or_flag_view: "28 \<le> b \<Longrightarrow> map (mm_view c) (or_flag b k ring) = map (mm_view c) ring"
  by (cases "unat k < length ring") (auto simp: or_flag_def mm_view_def len_flag push_bit_eq_mult map_update simp flip: map_update
      intro!: nth_equalityI simp: nth_list_update)

lemma or_flag_length [simp]: "length (or_flag b k ring) = length ring"
  by (simp add: or_flag_def)

lemma mm_run_end: "f_end f \<noteq> None \<or> ds \<noteq> [] \<Longrightarrow> f_end (mm.run p ds f) \<noteq> None"
proof (induction ds arbitrary: f)
  case (Cons x ds)
  have "f_end (mm_put (plain p) (fst x) (snd x) f) \<noteq> None" by (simp add: mm_put_def Let_def)
  then show ?case using Cons.IH by (cases x) (simp add: mm.run_Cons)
qed (simp add: mm.run_def)

lemma mm_par_sel [simp]:
  "p_rngsz (mm_par s r) = qc_rngsz (dq_conf s)" "p_desc_max (mm_par s r) = dq_avail s"
  "p_c2h (mm_par s r) = (qc_q_type (dq_conf s) = Q_C2H)" "p_sg_max (mm_par s r) = length (rq_sgl r)"
  "p_keyhole (mm_par s r) = (qc_aperture_size (dq_conf s) \<noteq> 0)"
  "qc_aperture_size (dq_conf s) = 0 \<Longrightarrow> p_aperture (mm_par s r) = QDMA_DESC_BLEN_MAX"
  by (simp_all add: mm_par_def Let_def)

lemma mm_submit_spec:
  assumes rd: "mm_ready (dq_conf s) (dq_req s i)" and len: "length (mm_V s) = rng s" and px: "unat (dq_pidx s) < rng s"
    and av: "dq_avail s \<noteq> 0" "unat (dq_avail s) < rng s" and k: "k < length (rq_sgl (dq_req s i))"
  shows "\<exists>s0 so sgi p ps. ps = pieces_sgl QDMA_DESC_BLEN_MAX (unat (dq_avail s)) off (drop k (rq_sgl (dq_req s i))) \<and>
    mm_submit i k off s = Some (of_nat (length ps), sub_state i ps so sgi p s s0) \<and> new_ring s0 s \<and>
    unat p = (unat (dq_pidx s) + length ps) mod rng s \<and> length (mm_V s0) = length (mm_V s) \<and>
    (\<forall>j<length ps. mm_V s0 ! ((unat (dq_pidx s) + j) mod rng s) = ps ! j) \<and>
    (\<forall>q<rng s. (\<forall>j\<le>length ps. q \<noteq> (unat (dq_pidx s) + j) mod rng s) \<longrightarrow> mm_V s0 ! q = mm_V s ! q)"
proof -
  let ?r = "dq_req s i" and ?c = "qc_q_type (dq_conf s) = Q_C2H"
  define p where "p = mm_par s ?r"
  have kh: "plain p = p" "p_aperture p = QDMA_DESC_BLEN_MAX" "\<not> p_keyhole p" and psel: "p_rngsz p = qc_rngsz (dq_conf s)"
    "p_desc_max p = dq_avail s" "p_c2h p = ?c" "p_sg_max p = length (rq_sgl ?r)"
    using rd by (simp_all add: p_def mm_ready_def plain_id)
  define f where "f = \<lparr>f_ring = dq_mm_ring s, f_pidx = dq_pidx s, f_ep_addr = rq_ep_addr ?r + ucast (cb_offset ?r),
    f_data_cnt = 0, f_desc_cnt = 0, f_sg_offset = off, f_end = None, f_stamp = None\<rparr>"
  define ps where "ps = pieces_sgl QDMA_DESC_BLEN_MAX (unat (dq_avail s)) off (drop k (rq_sgl ?r))"
  have rl: "length (dq_mm_ring s) = rng s" using len by (simp add: mm_V_def)
  have fits: "list_all (\<lambda>d. snd d \<le> QDMA_DESC_BLEN_MAX) ps" by (auto simp: list_all_iff ps_def dest!: pieces_sgl_le)
  obtain i1 f1 ds where F: "mm_fill_sgl p k (drop k (rq_sgl ?r)) f = Some (i1, f1)" "same_run f1 (mm.run p ds f)" "length ds = length ps"
    "f_desc_cnt f1 = of_nat (length ps)" "f_data_cnt f1 = sum_len ps"
    "unat (f_pidx f1) = (unat (dq_pidx s) + length ps) mod rng s" "length (f_ring f1) = rng s"
    "\<forall>j<length ps. mm_view ?c (f_ring f1 ! ((unat (dq_pidx s) + j) mod rng s)) = ps ! j"
    "\<forall>q<rng s. (\<forall>j\<le>length ps. q \<noteq> (unat (dq_pidx s) + j) mod rng s) \<longrightarrow> mm_view ?c (f_ring f1 ! q) = mm_view ?c (dq_mm_ring s ! q)"
    using mm.fill_request [of f p ps "drop k (rq_sgl ?r)" k] rl px av(2) fits
    by (simp add: kh psel f_def ps_def sum_len_def) blast
  have ne: "ps \<noteq> []" using av(1) k by (simp add: ps_def pieces_sgl_nonempty unat_eq_zero)
  then have "f_end (mm.run p ds f) \<noteq> None" using F(3) by (intro mm_run_end) auto
  then obtain e where e: "f_end f1 = Some e" using same_run_sel(5) [OF F(2)] by auto
  define ring where "ring = or_flag S_DESC_F_SOP (dq_pidx s) (or_flag S_DESC_F_EOP e (f_ring f1))"
  have rv: "map (mm_view ?c) ring = map (mm_view ?c) (f_ring f1)"
    unfolding ring_def by (simp add: or_flag_view S_DESC_F_SOP_def S_DESC_F_EOP_def)
  define s0 where "s0 = s\<lparr>dq_mm_ring := ring\<rparr>"
  have V0: "mm_V s0 = map (mm_view ?c) (f_ring f1)" unfolding mm_V_def s0_def by (simp add: rv)
  define so where "so = (if i1 = length (rq_sgl ?r) then 0 else f_sg_offset f1)"
  define sgi where "sgi = (if i1 = length (rq_sgl ?r) then None else Some i1)"
  have av0: "dq_avail (qdma_update_request i n d so sgi s0) = dq_avail s" for n d
    by (simp add: qdma_update_request_def qdma_work_queue_del_def upd_req_def Let_def s0_def)
  have sub: "mm_submit i k off s = Some (of_nat (length ps), sub_state i ps so sgi (f_pidx f1) s s0)"
    unfolding mm_submit_def Let_def p_def [symmetric] using kh(3) F(1) [unfolded f_def] e F(4,5)
    by (simp add: psel sub_state_def so_def [symmetric] sgi_def [symmetric] ring_def [symmetric] s0_def [symmetric] av0)
  have "(unat (dq_pidx s) + j) mod rng s < rng s" for j using px by simp
  then have "\<forall>j<length ps. mm_V s0 ! ((unat (dq_pidx s) + j) mod rng s) = ps ! j"
    "\<forall>q<rng s. (\<forall>j\<le>length ps. q \<noteq> (unat (dq_pidx s) + j) mod rng s) \<longrightarrow> mm_V s0 ! q = mm_V s ! q"
    "length (mm_V s0) = length (mm_V s)"
    using F(7-9) rl unfolding V0 by (simp_all add: mm_V_def)
  moreover have "new_ring s0 s" by (simp add: new_ring_def s0_def)
  ultimately show ?thesis using sub F(6) ps_def by blast
qed

interpretation mme: request_engine mm_V "\<lambda>s i. QDMA_DESC_BLEN_MAX" mm_ready mm_submit
proof
  show "dq_conf t = dq_conf s \<Longrightarrow> dq_mm_ring t = dq_mm_ring s \<Longrightarrow> dq_h2c_ring t = dq_h2c_ring s \<Longrightarrow> mm_V t = mm_V s" for s t
    by (simp add: mm_V_def)
  show "rq_ep_addr r' = rq_ep_addr r \<Longrightarrow> mm_ready c r' = mm_ready c r" for r r' c by (simp add: mm_ready_def)
  show "mm_ready (dq_conf s) (dq_req s i) \<Longrightarrow> QDMA_DESC_BLEN_MAX \<noteq> 0" for s i by (simp add: QDMA_DESC_BLEN_MAX_def)
qed (rule mm_submit_spec)

subsection \<open>Streaming requests\<close>

definition st_V :: "qdma_descq \<Rightarrow> (u64 \<times> u32) list" where
  "st_V s = map st_view (dq_h2c_ring s)"

definition st_ready :: "qdma_queue_conf \<Rightarrow> qdma_request \<Rightarrow> bool" where
  "st_ready c r \<longleftrightarrow> \<not> is_ul_ext c \<and> (rq_ep_addr r = 0 \<or> (ucast (rq_ep_addr r) :: u32) \<noteq> 0)"

definition pkt_size :: "qdma_request \<Rightarrow> u32" where
  "pkt_size r = (if rq_ep_addr r \<noteq> 0 then min (ucast (rq_ep_addr r)) PAGE_SIZE else PAGE_SIZE)"

definition st_submit1 :: "nat \<Rightarrow> nat \<Rightarrow> u32 \<Rightarrow> qdma_descq \<Rightarrow> (u32 \<times> qdma_descq) option" where
  "st_submit1 i k off s = map_option (\<lambda>(n, stamp, t). (n, t)) (st_submit i k off s)"

lemma st_par_sel [simp]:
  "p_rngsz (st_par s r) = qc_rngsz (dq_conf s)" "p_desc_max (st_par s r) = dq_avail s"
  "p_sg_max (st_par s r) = length (rq_sgl r)" "p_aperture (st_par s r) = pkt_size r"
  by (simp_all add: st_par_def pkt_size_def Let_def)

lemma st_submit_spec:
  assumes rd: "st_ready (dq_conf s) (dq_req s i)" and len: "length (st_V s) = rng s" and px: "unat (dq_pidx s) < rng s"
    and av: "dq_avail s \<noteq> 0" "unat (dq_avail s) < rng s" and k: "k < length (rq_sgl (dq_req s i))"
  shows "\<exists>s0 so sgi p ps. ps = pieces_sgl (pkt_size (dq_req s i)) (unat (dq_avail s)) off (drop k (rq_sgl (dq_req s i))) \<and>
    st_submit1 i k off s = Some (of_nat (length ps), sub_state i ps so sgi p s s0) \<and> new_ring s0 s \<and>
    unat p = (unat (dq_pidx s) + length ps) mod rng s \<and> length (st_V s0) = length (st_V s) \<and>
    (\<forall>j<length ps. st_V s0 ! ((unat (dq_pidx s) + j) mod rng s) = ps ! j) \<and>
    (\<forall>q<rng s. (\<forall>j\<le>length ps. q \<noteq> (unat (dq_pidx s) + j) mod rng s) \<longrightarrow> st_V s0 ! q = st_V s ! q)"
proof -
  let ?r = "dq_req s i"
  define p where "p = st_par s ?r"
  have psel: "p_rngsz p = qc_rngsz (dq_conf s)" "p_desc_max p = dq_avail s" "p_sg_max p = length (rq_sgl ?r)" "p_aperture p = pkt_size ?r"
    by (simp_all add: p_def)
  define ring0 where "ring0 = clear_flags (dq_pidx s) (dq_h2c_ring s)"
  define f where "f = \<lparr>f_ring = ring0, f_pidx = dq_pidx s, f_ep_addr = 0, f_data_cnt = 0, f_desc_cnt = 0, f_sg_offset = off,
    f_end = None, f_stamp = None\<rparr>"
  define ps where "ps = pieces_sgl (pkt_size ?r) (unat (dq_avail s)) off (drop k (rq_sgl ?r))"
  have rl: "length (dq_h2c_ring s) = rng s" using len by (simp add: st_V_def)
  then have r0: "length ring0 = rng s" "\<And>j. j < rng s \<Longrightarrow> st_view (ring0 ! j) = st_view (dq_h2c_ring s ! j)"
    by (simp_all add: ring0_def)
  have "pkt_size ?r \<le> PAGE_SIZE" by (simp add: pkt_size_def)
  moreover have "PAGE_SIZE \<le> 0xFFFF" by (simp add: PAGE_SIZE_def)
  ultimately have "pkt_size ?r \<le> 0xFFFF" by (rule order_trans)
  then have fits: "list_all (\<lambda>d. snd d \<le> 0xFFFF) ps" unfolding list_all_iff ps_def by (auto dest!: pieces_sgl_le intro: order_trans)
  obtain i1 f1 ds where F: "st_fill_sgl p k (drop k (rq_sgl ?r)) f = Some (i1, f1)"
    "f_desc_cnt f1 = of_nat (length ps)" "f_data_cnt f1 = sum_len ps"
    "unat (f_pidx f1) = (unat (dq_pidx s) + length ps) mod rng s" "length (f_ring f1) = rng s"
    "\<forall>j<length ps. st_view (f_ring f1 ! ((unat (dq_pidx s) + j) mod rng s)) = ps ! j"
    "\<forall>q<rng s. (\<forall>j\<le>length ps. q \<noteq> (unat (dq_pidx s) + j) mod rng s) \<longrightarrow> st_view (f_ring f1 ! q) = st_view (ring0 ! q)"
    using st.fill_request [of f p ps "drop k (rq_sgl ?r)" k] r0(1) px av(2) fits
    by (simp add: psel f_def ps_def sum_len_def) blast
  define s0 where "s0 = s\<lparr>dq_h2c_ring := f_ring f1\<rparr>"
  define so where "so = (if i1 = length (rq_sgl ?r) then 0 else f_sg_offset f1)"
  define sgi where "sgi = (if i1 = length (rq_sgl ?r) then None else Some i1)"
  have av0: "dq_avail (qdma_update_request i n d so sgi s0) = dq_avail s" for n d
    by (simp add: qdma_update_request_def qdma_work_queue_del_def upd_req_def Let_def s0_def)
  have sub: "st_submit1 i k off s = Some (of_nat (length ps), sub_state i ps so sgi (f_pidx f1) s s0)"
    unfolding st_submit1_def st_submit_def Let_def p_def [symmetric] using F(1) [unfolded f_def] F(2,3) px rl
    by (simp add: psel sub_state_def so_def [symmetric] sgi_def [symmetric] ring0_def [symmetric] s0_def [symmetric] av0)
  have "(unat (dq_pidx s) + j) mod rng s < rng s" for j using px by simp
  then have "\<forall>j<length ps. st_V s0 ! ((unat (dq_pidx s) + j) mod rng s) = ps ! j"
    "\<forall>q<rng s. (\<forall>j\<le>length ps. q \<noteq> (unat (dq_pidx s) + j) mod rng s) \<longrightarrow> st_V s0 ! q = st_V s ! q"
    "length (st_V s0) = length (st_V s)"
    using F(5-7) rl r0 by (simp_all add: st_V_def s0_def)
  moreover have "new_ring s0 s" by (simp add: new_ring_def s0_def)
  ultimately show ?thesis using sub F(4) ps_def by blast
qed

interpretation ste: request_engine st_V "\<lambda>s i. pkt_size (dq_req s i)" st_ready st_submit1
proof
  show "dq_conf t = dq_conf s \<Longrightarrow> dq_mm_ring t = dq_mm_ring s \<Longrightarrow> dq_h2c_ring t = dq_h2c_ring s \<Longrightarrow> st_V t = st_V s" for s t
    by (simp add: st_V_def)
  show "rq_ep_addr r' = rq_ep_addr r \<Longrightarrow> st_ready c r' = st_ready c r" for r r' c by (simp add: st_ready_def)
  show "st_ready (dq_conf s) (dq_req s i) \<Longrightarrow> pkt_size (dq_req s i) \<noteq> 0" for s i
    by (auto simp: st_ready_def pkt_size_def PAGE_SIZE_def min_def)
qed (rule st_submit_spec)

end
