(* ===== verification/Descq_Loop.thy ===== *)
theory Descq_Loop
  imports Descq_Run
begin

text \<open>
  The request loops of \<^verbatim>\<open>libqdma/qdma_descq.c\<close> return for well-formed requests, and the whole
  request processing keeps the books of the queue.
\<close>

subsection \<open>The loops return\<close>

lemma mm_loop_ok:
  assumes hw: "hw_ok e" and ok: "mme.engine_ok s"
  shows "\<exists>w t. mm_loop e n s = Some (Some (w, t)) \<and> mme.engine_ok t \<and> follows s t \<and> (dq_work_list t = [] \<or> dq_avail t = 0)"
  using ok
proof (induction "mme.todo s" arbitrary: n s rule: less_induct)
  case less
  show ?case
  proof (cases "dq_work_list s")
    case Nil
    then show ?thesis using less.prems by (intro exI [of _ n] exI [of _ s]) (simp add: mm_loop.simps)
  next
    case (Cons i ws)
    define s1 where "s1 = (if dq_avail s = 0 then descq_poll_mm_n_h2c_cmpl_status e s else s)"
    note turn = mme.turn [OF hw less.prems Cons, folded s1_def]
    have ul: "\<not> is_ul_ext (dq_conf s1)" using turn(1,4) by (auto simp: mme.engine_ok_def mm_ready_def)
    have step: "mm_loop e n s = (if dq_avail s1 = 0 then Some (Some (n, s1)) else
        (let (k, off) = qdma_sgl_find_offset (dq_req s1 i) in
         if k < 0 then mm_loop e n (qdma_update_request i 0 0 0 None s1)
         else case mm_submit i (nat k) off s1 of None \<Rightarrow> Some None
              | Some (m, s2) \<Rightarrow> if m = 0 then Some (Some (n, s2)) else mm_loop e (n + m) s2))"
      by (subst mm_loop.simps) (simp only: Cons list.case Let_def ul if_False flip: s1_def)
    show ?thesis
    proof (cases "dq_avail s1 = 0")
      case True
      then show ?thesis using step turn(1,2) by auto
    next
      case False
      then obtain k off m t where t: "qdma_sgl_find_offset (dq_req s1 i) = (int k, off)" "mm_submit i k off s1 = Some (m, t)"
        "m \<noteq> 0" "mme.engine_ok t" "mme.todo t < mme.todo s" "follows s t"
        using turn(5) by blast
      then have "mm_loop e n s = mm_loop e (n + m) t" using step False by simp
      then show ?thesis using less.hyps [OF t(5,4), of "n + m"] follows_trans [OF t(6)] by metis
    qed
  qed
qed

lemma st_loop_ok:
  assumes hw: "hw_ok e" and ok: "ste.engine_ok s"
  shows "\<exists>w st t. st_loop e n stamp s = Some (Some (w, st, t)) \<and> ste.engine_ok t \<and> follows s t \<and>
    (dq_work_list t = [] \<or> dq_avail t = 0)"
  using ok
proof (induction "ste.todo s" arbitrary: n stamp s rule: less_induct)
  case less
  show ?case
  proof (cases "dq_work_list s")
    case Nil
    then show ?thesis using less.prems
      by (intro exI [of _ n] exI [of _ stamp] exI [of _ s]) (simp add: st_loop.simps)
  next
    case (Cons i ws)
    define s1 where "s1 = (if dq_avail s = 0 then descq_poll_mm_n_h2c_cmpl_status e s else s)"
    note turn = ste.turn [OF hw less.prems Cons, folded s1_def]
    have ul: "\<not> is_ul_ext (dq_conf s1)" using turn(1,4) by (auto simp: ste.engine_ok_def st_ready_def)
    have step: "st_loop e n stamp s = (if dq_avail s1 = 0 then Some (Some (n, stamp, s1)) else
        (let (k, off) = qdma_sgl_find_offset (dq_req s1 i) in
         if k < 0 then st_loop e n stamp (qdma_update_request i 0 0 0 None s1)
         else case st_submit i (nat k) off s1 of None \<Rightarrow> Some None
              | Some (m, stamp1, s2) \<Rightarrow> (let stamp2 = (if stamp1 = None then stamp else stamp1) in
                  if m = 0 then Some (Some (n, stamp2, s2)) else st_loop e (n + m) stamp2 s2)))"
      by (subst st_loop.simps) (simp only: Cons list.case Let_def ul if_False flip: s1_def)
    show ?thesis
    proof (cases "dq_avail s1 = 0")
      case True
      then show ?thesis using step turn(1,2) by auto
    next
      case False
      then obtain k off m t where t: "qdma_sgl_find_offset (dq_req s1 i) = (int k, off)" "st_submit1 i k off s1 = Some (m, t)"
        "m \<noteq> 0" "ste.engine_ok t" "ste.todo t < ste.todo s" "follows s t"
        using turn(5) by blast
      then obtain stamp1 where st: "st_submit i k off s1 = Some (m, stamp1, t)" by (auto simp: st_submit1_def)
      obtain stamp2 where "st_loop e n stamp s = st_loop e (n + m) stamp2 t"
        using step False t(1,3) st by (simp add: Let_def)
      then show ?thesis using less.hyps [OF t(5,4), of "n + m" stamp2] follows_trans [OF t(6)] by metis
    qed
  qed
qed

subsection \<open>Request processing\<close>

lemma queue_pidx_frame:
  "same_books (snd (queue_pidx_update e s)) s" "same_ring (snd (queue_pidx_update e s)) s"
  by (simp_all add: queue_pidx_update_def same_books_def same_ring_def split: prod.splits)

text \<open>What the books and the ring do not see.\<close>

definition same_view :: "qdma_descq \<Rightarrow> qdma_descq \<Rightarrow> bool" where
  "same_view t s \<longleftrightarrow> same_books t s \<and> same_ring t s"

lemma same_view_refl [simp]: "same_view s s"
  by (simp add: same_view_def same_books_def same_ring_def)

lemma same_view_trans: "same_view u t \<Longrightarrow> same_view t s \<Longrightarrow> same_view u s"
  by (simp add: same_view_def same_books_def same_ring_def)

lemma same_view_follows: "same_view t s \<Longrightarrow> follows s t"
  by (simp add: same_view_def same_books_def same_ring_def follows_def listed_def kept_def)

context request_engine begin

lemma engine_ok_cong: "same_view t s \<Longrightarrow> engine_ok t = engine_ok s"
proof -
  assume v: "same_view t s"
  then have "V t = V s" by (intro V_cong) (simp_all add: same_view_def same_ring_def)
  moreover have "queue_ok (V s) t = queue_ok (V s) s" using v by (intro queue_ok_cong) (simp add: same_view_def)
  ultimately show ?thesis using v by (simp add: engine_ok_def same_view_def same_books_def)
qed

lemma cmpl_keeps: "hw_ok e \<Longrightarrow> engine_ok s \<Longrightarrow> engine_ok (descq_mm_n_h2c_cmpl_status e s) \<and> follows s (descq_mm_n_h2c_cmpl_status e s)"
  using cmpl_status_keeps [of e "V s" s] completed_keeps [of s "descq_mm_n_h2c_cmpl_status e s"] by (simp add: engine_ok_def)

lemma poll_ok: "hw_ok e \<Longrightarrow> engine_ok s \<Longrightarrow>
    engine_ok (descq_poll_mm_n_h2c_cmpl_status e s) \<and> follows s (descq_poll_mm_n_h2c_cmpl_status e s)"
  using poll_keeps [of e "V s" s] completed_keeps [of s "descq_poll_mm_n_h2c_cmpl_status e s"] by (simp add: engine_ok_def)

lemma submit_written_keeps:
  assumes "hw_ok e" "engine_ok s"
  shows "engine_ok (snd (submit_written e s)) \<and> follows s (snd (submit_written e s))"
proof -
  let ?s1 = "s\<lparr>dq_pend_list_empty := False, dq_pidx_info := (dq_pidx_info s)\<lparr>pi_pidx := ucast (dq_pidx s)\<rparr>\<rparr>"
  obtain rv s2 where q: "queue_pidx_update e ?s1 = (rv, s2)" by force
  have "same_view s2 ?s1" using queue_pidx_frame [of e ?s1] q by (simp add: same_view_def)
  then have v2: "same_view s2 s" by (rule same_view_trans) (simp add: same_view_def same_books_def same_ring_def)
  then have s2: "engine_ok s2" "follows s s2" using engine_ok_cong assms(2) same_view_follows by blast+
  let ?s3 = "descq_poll_mm_n_h2c_cmpl_status e s2"
  have "same_view (?s3\<lparr>dq_proc_req_running := False\<rparr>) ?s3" by (simp add: same_view_def same_books_def same_ring_def)
  then have "engine_ok (?s3\<lparr>dq_proc_req_running := False\<rparr>)" "follows s (?s3\<lparr>dq_proc_req_running := False\<rparr>)"
    using engine_ok_cong poll_ok [OF assms(1) s2(1)] same_view_follows follows_trans s2(2) by blast+
  then show ?thesis using s2 q by (simp add: submit_written_def Let_def)
qed

text \<open>The state after the loop, with the doorbell rung if something was written.\<close>

lemma finish_keeps:
  assumes "hw_ok e" "engine_ok s" "engine_ok t" "follows s t"
  shows "engine_ok (snd (if w \<noteq> 0 then submit_written e t else (0, t\<lparr>dq_proc_req_running := False\<rparr>))) \<and>
    follows s (snd (if w \<noteq> 0 then submit_written e t else (0, t\<lparr>dq_proc_req_running := False\<rparr>)))"
proof -
  let ?t = "t\<lparr>dq_proc_req_running := False\<rparr>"
  have v: "same_view ?t t" by (simp add: same_view_def same_books_def same_ring_def)
  have "engine_ok ?t" "follows s ?t"
    using engine_ok_cong [OF v] assms(3) follows_trans [OF assms(4) same_view_follows [OF v]] by simp_all
  moreover have "engine_ok (snd (submit_written e t))" "follows s (snd (submit_written e t))"
    using submit_written_keeps [OF assms(1,3)] follows_trans [OF assms(4)] by simp_all
  ultimately show ?thesis by simp
qed

end

lemma mm_proc_keeps:
  assumes "hw_ok e" "mme.engine_ok s"
  shows "\<exists>rv t. descq_mm_proc_request e s = Some (Some (rv, t)) \<and> mme.engine_ok t \<and> follows s t"
proof -
  consider "dq_q_stop_wait s" | "\<not> dq_q_stop_wait s" "dq_q_state s \<noteq> Q_STATE_ONLINE \<or> dq_proc_req_running s"
    | "\<not> dq_q_stop_wait s" "\<not> (dq_q_state s \<noteq> Q_STATE_ONLINE \<or> dq_proc_req_running s)" by blast
  then show ?thesis
  proof cases
    case 1
    then show ?thesis using mme.cmpl_keeps [OF assms] by (simp add: descq_mm_proc_request_def)
  next
    case 2
    then show ?thesis using assms by (simp add: descq_mm_proc_request_def)
  next
    case 3
    let ?s = "descq_poll_mm_n_h2c_cmpl_status e s"
    note p = mme.poll_ok [OF assms]
    obtain w t where t: "mm_loop e 0 ?s = Some (Some (w, t))" "mme.engine_ok t" "follows ?s t"
      using mm_loop_ok [OF assms(1), of ?s 0] p by blast
    have "follows s t" using p t(3) follows_trans by blast
    note f = mme.finish_keeps [OF assms t(2) this, of w]
    have "descq_mm_proc_request e s =
      Some (Some (if w \<noteq> 0 then submit_written e t else (0, t\<lparr>dq_proc_req_running := False\<rparr>)))"
      using 3 t(1) by (simp add: descq_mm_proc_request_def)
    then show ?thesis using f by (metis prod.collapse)
  qed
qed

text \<open>The time stamp of the latency measurement is no part of the books.\<close>

definition put_stamp :: "u64 option \<Rightarrow> qdma_descq \<Rightarrow> qdma_descq" where
  "put_stamp stamp s = (case (qc_ping_pong_en (dq_conf s), stamp) of
     (True, Some a) \<Rightarrow> s\<lparr>dq_stamps := dq_stamps s @ [a]\<rparr> | _ \<Rightarrow> s)"

lemma put_stamp_view: "same_view (put_stamp st s) s"
  by (simp add: put_stamp_def same_view_def same_books_def same_ring_def split: option.split bool.split)

lemma st_proc_keeps:
  assumes "hw_ok e" "ste.engine_ok s"
  shows "\<exists>rv t. descq_proc_st_h2c_request e s = Some (Some (rv, t)) \<and> ste.engine_ok t \<and> follows s t"
proof -
  consider "dq_q_stop_wait s" | "\<not> dq_q_stop_wait s" "dq_q_state s \<noteq> Q_STATE_ONLINE \<or> dq_proc_req_running s"
    | "\<not> dq_q_stop_wait s" "\<not> (dq_q_state s \<noteq> Q_STATE_ONLINE \<or> dq_proc_req_running s)" by blast
  then show ?thesis
  proof cases
    case 1
    then show ?thesis using ste.cmpl_keeps [OF assms] by (simp add: descq_proc_st_h2c_request_def)
  next
    case 2
    then show ?thesis using assms by (simp add: descq_proc_st_h2c_request_def)
  next
    case 3
    let ?s = "descq_poll_mm_n_h2c_cmpl_status e s"
    note p = ste.poll_ok [OF assms]
    obtain w st t where t: "st_loop e 0 None ?s = Some (Some (w, st, t))" "ste.engine_ok t" "follows ?s t"
      using st_loop_ok [OF assms(1), of ?s 0 None] p by blast
    have ft: "follows s t" using p t(3) follows_trans by blast
    note pv = put_stamp_view [of st t]
    have "ste.engine_ok (put_stamp st t)" "follows s (put_stamp st t)"
      using ste.engine_ok_cong [OF pv] t(2) follows_trans [OF ft same_view_follows [OF pv]] by simp_all
    note f = ste.submit_written_keeps [OF assms(1) this(1)] follows_trans [OF this(2)]
      ste.finish_keeps [OF assms t(2) ft, of 0, simplified]
    have "descq_proc_st_h2c_request e s =
      Some (Some (if w \<noteq> 0 then submit_written e (put_stamp st t) else (0, t\<lparr>dq_proc_req_running := False\<rparr>)))"
      using 3 t(1) by (simp add: descq_proc_st_h2c_request_def put_stamp_def)
    then show ?thesis using f by (cases "w = 0") (auto simp: prod_eq_iff)
  qed
qed

end
