(* ===== verification/Descq_Submit.thy ===== *)
theory Descq_Submit
  imports Descq_Loop St_C2h
begin

text \<open>
  How requests get into a descriptor queue and leave it: the submission and the wait of
  \<^verbatim>\<open>libqdma/libqdma_export.c\<close>, the dispatch and the service of completions of
  \<^verbatim>\<open>libqdma/qdma_descq.c\<close>. A caller that waits is cut in two: the submission up to the wait, and
  what it does when it is woken up or its time is over.
\<close>

subsection \<open>Mapping\<close>

text \<open>A failed mapping leaves the returned address in its entry; the entries before it are unmapped.\<close>

fun sgl_map_from :: "(u64 \<Rightarrow> u64 \<times> bool) \<Rightarrow> qdma_sw_sg list \<Rightarrow> qdma_sw_sg list \<Rightarrow> int \<times> qdma_sw_sg list \<times> u64 list" where
  "sgl_map_from pm done [] = (0, done, [])"
| "sgl_map_from pm done (sg # sgs) =
     (let (a, err) = pm (sg_pg sg) in
      if err then (- EIO, sgl_unmap done @ sg\<lparr>sg_dma_addr := a\<rparr> # sgs, sgl_unmapped done)
      else sgl_map_from pm (done @ [sg\<lparr>sg_dma_addr := a + ucast (sg_offset sg)\<rparr>]) sgs)"

definition sgl_map :: "(u64 \<Rightarrow> u64 \<times> bool) \<Rightarrow> qdma_sw_sg list \<Rightarrow> int \<times> qdma_sw_sg list \<times> u64 list" where
  "sgl_map pm sgl = sgl_map_from pm [] sgl"

subsection \<open>Dispatch\<close>

text \<open>
  The processing of streaming requests whose descriptors an upper-layer module writes: it goes on
  while a batch is full, and starts again when requests came in while nothing was in flight.
\<close>

partial_function (option) qep_fill :: "dq_env \<Rightarrow> u32 \<Rightarrow> qdma_descq \<Rightarrow> (u32 \<times> qdma_descq) option" where
  "qep_fill e written s =
     (if dq_work_req_pend s = 0 \<or> dq_avail s = 0 then Some (written, s)
      else
        (let (n, s1) = de_fill e QDMA_Q_MODE_ST QDMA_Q_DIR_H2C (hd (dq_work_list s)) s; cnt = word_of_int n :: u32 in
         if cnt = 0 then Some (written, s1)
         else if written + cnt \<ge> ucast (qc_pidx_acc (dq_conf s1)) then Some (written + cnt, s1)
         else qep_fill e (written + cnt) s1))"

partial_function (option) qep :: "dq_env \<Rightarrow> bool \<Rightarrow> qdma_descq \<Rightarrow> (int \<times> qdma_descq) option" where
  "qep e start s =
     (if start \<and> dq_q_stop_wait s then Some (0, descq_mm_n_h2c_cmpl_status e s)
      else if start \<and> dq_q_state s \<noteq> Q_STATE_ONLINE then Some (0, s)
      else
        (case qep_fill e 0 s of
           None \<Rightarrow> None
         | Some (written, s1) \<Rightarrow>
             if written = 0 then
               (if dq_work_req_pend s1 \<noteq> 0 \<and> dq_avail s1 = qc_rngsz (dq_conf s1) - 1
                then Option.bind (qep e True s1) (\<lambda>r. Some (0, snd r))
                else Some (0, s1))
             else
               (let s2 = s1\<lparr>dq_desc_pend := dq_desc_pend s1 + ucast written,
                            dq_pidx_info := (dq_pidx_info s1)\<lparr>pi_pidx := ucast (dq_pidx s1)\<rparr>\<rparr>;
                    (ret, s3) = qdma_pidx_update e False s2 in
                if ret < 0 then Some (- EINVAL, s3)
                else if dq_work_req_pend s3 \<noteq> 0 \<and> written \<ge> ucast (qc_pidx_acc (dq_conf s3)) then qep e False s3
                else Some (ret, s3))))"

definition descq_proc_st_h2c_request_qep :: "dq_env \<Rightarrow> qdma_descq \<Rightarrow> (int \<times> qdma_descq) option" where
  "descq_proc_st_h2c_request_qep e s = qep e True s"

definition qdma_descq_proc_sgt_request :: "dq_env \<Rightarrow> qdma_descq \<Rightarrow> (int \<times> qdma_descq) option option" where
  "qdma_descq_proc_sgt_request e s =
     (let c = dq_conf s in
      if \<not> qc_st c then descq_mm_proc_request e s
      else if qc_q_type c = Q_H2C then
        (if qc_bypass_desc_fill c \<and> qc_desc_bypass c \<and> xd_drv_mode (dq_xdev s) = DIRECT_INTR_MODE
         then map_option Some (descq_proc_st_h2c_request_qep e s)
         else descq_proc_st_h2c_request e s)
      else Some (Some (- EINVAL, s)))"

text \<open>The service of completions, for all but streaming card-to-host queues.\<close>

definition service_mm_n_h2c :: "dq_env \<Rightarrow> qdma_descq \<Rightarrow> (int \<times> qdma_descq) option option" where
  "service_mm_n_h2c e s =
     (if xd_drv_mode (dq_xdev s) \<in> {POLL_MODE, AUTO_MODE}
      then (if dq_proc_req_running s then Some (Some (0, s))
            else map_option (map_option (\<lambda>(rv, t). (0, t))) (qdma_descq_proc_sgt_request e s))
      else
        (let s1 = descq_mm_n_h2c_cmpl_status e s in
         if dq_work_req_pend s1 \<noteq> 0 \<or> dq_desc_pend s1 \<noteq> 0 then qdma_descq_proc_sgt_request e s1
         else Some (Some (0, s1))))"

subsection \<open>Submission\<close>

definition unmap_unless_mapped :: "nat \<Rightarrow> qdma_descq \<Rightarrow> qdma_descq" where
  "unmap_unless_mapped i s = (if rq_dma_mapped (dq_req s i) then s else unmap_req i s)"

text \<open>
  \<open>submit_sgt\<close> is the submission of all but streaming card-to-host requests up to the wait: the
  pages are mapped, the request joins the work list of a queue that is online, and the queue is
  processed. The result \<open>Inl rv\<close> is returned to the caller, \<open>Inr\<close> leaves it waiting.
\<close>

definition bad_direction :: "qdma_queue_conf \<Rightarrow> qdma_request \<Rightarrow> bool" where
  "bad_direction c r \<longleftrightarrow> rq_write r \<and> qc_q_type c \<noteq> Q_H2C \<or> \<not> rq_write r \<and> qc_q_type c \<noteq> Q_C2H"

definition map_request :: "dq_env \<Rightarrow> nat \<Rightarrow> qdma_descq \<Rightarrow> int \<times> qdma_descq" where
  "map_request e i s =
     (if rq_dma_mapped (dq_req s i) then (0, s)
      else
        (let (rv, sgl, un) = sgl_map (de_map e) (rq_sgl (dq_req s i)) in
         (rv, upd_req i (\<lambda>r. r\<lparr>rq_sgl := sgl, cb_unmap_needed := (0 \<le> rv)\<rparr>) (s\<lparr>dq_unmaps := dq_unmaps s @ un\<rparr>))))"

definition submit_sgt :: "dq_env \<Rightarrow> nat \<Rightarrow> qdma_descq \<Rightarrow> ((int + unit) \<times> qdma_descq) option option" where
  "submit_sgt e i s =
     (let (rv, s1) = map_request e i s in
      if rv < 0 then Some (Some (Inl rv, unmap_unless_mapped i s1))
      else if dq_q_state s1 \<noteq> Q_STATE_ONLINE then Some (Some (Inl (- EINVAL), unmap_unless_mapped i s1))
      else
        map_option (map_option (\<lambda>(rv, s2). (if rq_fp_done (dq_req s i) then Inl 0 else Inr (), s2)))
          (qdma_descq_proc_sgt_request e (qdma_work_queue_add i s1)))"

text \<open>
  After the wait. A request that is not done has run out of time and is taken off the list it is on.
\<close>

definition qdma_request_wait_for_cmpl :: "nat \<Rightarrow> qdma_descq \<Rightarrow> int \<times> qdma_descq" where
  "qdma_request_wait_for_cmpl i s =
     (let s1 = (if cb_done (dq_req s i) then s
                else s\<lparr>dq_work_list := remove1 i (dq_work_list s), dq_pend_list := remove1 i (dq_pend_list s)\<rparr>) in
      if \<not> cb_done (dq_req s1 i) \<or> cb_status (dq_req s1 i) \<noteq> 0 then (- EIO, s1) else (0, s1))"

definition submit_sgt_woken :: "nat \<Rightarrow> qdma_descq \<Rightarrow> int \<times> qdma_descq" where
  "submit_sgt_woken i s =
     (let (rv, s1) = qdma_request_wait_for_cmpl i s in
      if rv < 0 then (rv, unmap_unless_mapped i s1) else (int (unat (cb_offset (dq_req s1 i))), s1))"

end
