(* ===== verification/Descq_Demo.thy ===== *)
theory Descq_Demo
  imports Descq_Submit Descq_Config
begin

declare mm_loop.simps [code] st_loop.simps [code] qep.simps [code] qep_fill.simps [code] count_bufs.simps [code]
  refill_drop.simps [code] refill_new.simps [code]

text \<open>
  A small device and two queues on it, set up by the operations of the driver, for the witnesses of
  the properties of \<^verbatim>\<open>libqdma/qdma_descq.c\<close> and \<^verbatim>\<open>libqdma/qdma_st_c2h.c\<close>.
\<close>

definition demo_dev :: xlnx_dma_dev where
  "demo_dev = \<lparr>xd_drv_mode = DIRECT_INTR_MODE, xd_ip_type = QDMA_SOFT_IP,
     xd_csr_info = \<lparr>gc_ring_sz = replicate 16 5, gc_c2h_timer_cnt = replicate 16 1, gc_c2h_cnt_th = replicate 16 2,
                    gc_c2h_buf_sz = replicate 16 4096, gc_wb_intvl = 0\<rparr>,
     xd_sorted_c2h_cntr_idx = map of_nat [0..<16], xd_func_id = 0, xd_num_vecs = 0, xd_dvec_start_idx = 0,
     xd_data_msix_qvec_max = 0, xd_intr_list_cnt = [], xd_intr_rngsz = 0, xd_intr_coal_list = [],
     xd_dev_cap = \<lparr>num_pfs = 1, num_qs = 4, flr_present = 0, st_en = 1, mm_en = 1, mm_cmpt_en = 0, mailbox_en = 1,
       debug_mode = 0, desc_eng_mode = 0, mm_channel_max = 1, qid2vec_ctx = 0, cmpt_ovf_chk_dis = 1, mailbox_intr = 1,
       sw_desc_64b = 1, cmpt_desc_64b = 1, dynamic_bar = 1, legacy_intr = 1, cmpt_trig_count_timer = 1\<rparr>,
     xd_total_mm_h2c_pkts = 0, xd_total_mm_c2h_pkts = 0, xd_total_st_h2c_pkts = 0, xd_total_st_c2h_pkts = 0,
     xd_intr_moderation = False, xd_ping_pong_lat_min = 0, xd_ping_pong_lat_max = 0, xd_ping_pong_lat_total = 0\<rparr>"

text \<open>The hardware has completed nothing yet, or all it was given.\<close>

definition demo_env :: "bool \<Rightarrow> dq_env" where
  "demo_env fin = \<lparr>de_hw = \<lambda>log a. 0, de_status_cidx = \<lambda>s. ucast (if fin then dq_pidx s else dq_cidx s),
     de_vf = False, de_map = \<lambda>pg. (pg + 0x100000, False), de_cmpt_pidx = \<lambda>s. 0, de_cmpt_entry = \<lambda>s k. 0,
     de_ul_cmpt = \<lambda>s k. (- 1, parse_cmpl_entry 0), de_packet = \<lambda>len n k s. (0, fl_sdesc (dq_flq s)),
     de_alloc_page = \<lambda>n. Some (0x10000 * of_nat (Suc n), 0x10000 * of_nat (Suc n), False), de_alloc = \<lambda>n. True,
     de_bus = \<lambda>n. 0x1000 * of_nat n, de_time = \<lambda>a. 0, de_fill = \<lambda>m d i s. (0, s)\<rparr>"

definition demo_sg :: "u64 \<Rightarrow> u32 \<Rightarrow> qdma_sw_sg" where
  "demo_sg pg len = \<lparr>sg_pg = pg, sg_offset = 0, sg_len = len, sg_dma_addr = 0\<rparr>"

definition demo_req :: qdma_request where
  "demo_req = \<lparr>rq_fp_done = True, rq_count = 150, rq_ep_addr = 0, rq_write = True, rq_dma_mapped = False,
     rq_no_memcpy = False, rq_check_qstate_disabled = False, rq_sgl = [demo_sg 0x1000 100, demo_sg 0x2000 50],
     cb_desc_nr = 0, cb_offset = 0, cb_sg_offset = 0, cb_sg = None, cb_status = 0, cb_done = False,
     cb_unmap_needed = False, cb_sg_idx = 0, cb_left = 0\<rparr>"

text \<open>A queue of four descriptors that is set up and online.\<close>

definition demo_conf :: "bool \<Rightarrow> queue_type_t \<Rightarrow> qdma_queue_conf" where
  "demo_conf st typ = zero_conf\<lparr>qc_st := st, qc_q_type := typ\<rparr>"

definition demo_queue :: "qdma_queue_conf \<Rightarrow> qdma_descq" where
  "demo_queue c =
     (let s = qdma_descq_init demo_dev 0 0 0 (zero_descq demo_dev (\<lambda>i. demo_req));
          s = qdma_descq_config_complete (qdma_descq_config c False s) in
      (case qdma_descq_alloc_resource (demo_env False) s of
         Some (rv, t) \<Rightarrow> t\<lparr>dq_q_state := Q_STATE_ONLINE\<rparr> | None \<Rightarrow> s))"

text \<open>The queue with the request submitted, nothing being completed yet.\<close>

definition demo_busy :: "bool \<Rightarrow> qdma_descq" where
  "demo_busy st =
     (let s = demo_queue (demo_conf st Q_H2C) in
      case submit_sgt (demo_env False) 0 (s\<lparr>dq_req := (dq_req s)(0 := reset_cb demo_req)\<rparr>) of
        Some (Some (rv, t)) \<Rightarrow> t | _ \<Rightarrow> s)"

definition returns :: "('a \<times> 'b) option option \<Rightarrow> bool" where
  "returns r = (case r of Some (Some x) \<Rightarrow> True | _ \<Rightarrow> False)"

lemma demo_submits:
  "returns (submit_sgt (demo_env False) 0 ((demo_queue (demo_conf False Q_H2C))
     \<lparr>dq_req := (dq_req (demo_queue (demo_conf False Q_H2C)))(0 := reset_cb demo_req)\<rparr>))"
  by code_simp

text \<open>The fields of both states, evaluated together.\<close>

definition head :: "qdma_descq \<Rightarrow> (u32 \<times> u32 \<times> u32 \<times> u32 \<times> u32) \<times> (nat list \<times> nat list \<times> bool \<times> bool)" where
  "head s = ((qc_rngsz (dq_conf s), dq_avail s, dq_pidx s, dq_cidx s, dq_credit s),
     (dq_pend_list s, dq_work_list s, length (dq_mm_ring s) = 4, is_ul_ext (dq_conf s) \<or> qc_st (dq_conf s) \<or>
      qc_q_type (dq_conf s) \<noteq> Q_H2C \<or> qc_aperture_size (dq_conf s) \<noteq> 0))"

lemma demo_queue_head: "head (demo_queue (demo_conf False Q_H2C)) = ((4, 3, 0, 0, 0), ([], [], True, False))"
  by code_simp

lemma demo_busy_head: "head (demo_busy False) = ((4, 1, 2, 0, 0), ([0], [], True, False))"
  by code_simp

lemmas demo_queue_values = demo_queue_head [unfolded head_def prod.inject]
lemmas demo_busy_values = demo_busy_head [unfolded head_def prod.inject]

lemma demo_submit:
  "\<exists>rv. submit_sgt (demo_env False) 0 ((demo_queue (demo_conf False Q_H2C))
     \<lparr>dq_req := (dq_req (demo_queue (demo_conf False Q_H2C)))(0 := reset_cb demo_req)\<rparr>) = Some (Some (rv, demo_busy False))"
  using demo_submits unfolding demo_busy_def Let_def returns_def
  by (auto split: option.splits)

end
