(* ===== verification/Queue_Contexts.thy ===== *)
theory Queue_Contexts
  imports Descq_Context Descq_Demo
begin

text \<open>
  What programming a queue achieves (\<^verbatim>\<open>libqdma/qdma_context.c\<close>): the contexts a physical function
  writes read back, and those a virtual function obtains through the mailbox are the same but for
  the fields its messages do not carry.
\<close>

subsection \<open>One access\<close>

lemma or_error_ok [simp]: "or_error (0, s) f = f s"
  by (simp add: or_error_def)

lemma skip_simps [simp]: "skip_unless True r s = r" "skip_unless False r s = (0, s)"
  by (simp_all add: skip_unless_def)

definition stores :: "hw_log \<Rightarrow> ctxt_key \<Rightarrow> u32 option list \<Rightarrow> int \<times> hw_log \<Rightarrow> bool" where
  "stores s k ws r \<longleftrightarrow> fst r = 0 \<and> ctxt_words (snd r) = (ctxt_words s)(k := ws)"

lemma stores_step:
  assumes "stores s k ws r"
  obtains t where "r = (0, t)" "ctxt_words t = (ctxt_words s)(k := ws)"
  using assms by (cases r) (auto simp: stores_def)

abbreviation pf_key :: "u16 \<Rightarrow> ctxt_key" where "pf_key \<equiv> ctxt_key_of QDMA_CTXT_SEL_PFTCH"
abbreviation cm_key :: "u16 \<Rightarrow> ctxt_key" where "cm_key \<equiv> ctxt_key_of QDMA_CTXT_SEL_CMPT"

lemma clear_stores:
  assumes "ctxt_hw env"
  shows "c2h \<le> 1 \<Longrightarrow> stores s (ctxt_key_of (sw_sel c2h) qid) (replicate 8 (Some 0)) (drop_ctxt (qdma_sw_ctx_conf (Some env) c2h qid None QDMA_HW_ACCESS_CLEAR s))"
    "c2h \<le> 1 \<Longrightarrow> stores s (ctxt_key_of (hw_sel c2h) qid) (replicate 8 (Some 0)) (drop_ctxt (qdma_hw_ctx_conf (Some env) c2h qid None QDMA_HW_ACCESS_CLEAR s))"
    "c2h \<le> 1 \<Longrightarrow> stores s (ctxt_key_of (cr_sel c2h) qid) (replicate 8 (Some 0)) (drop_ctxt (qdma_credit_ctx_conf (Some env) c2h qid None QDMA_HW_ACCESS_CLEAR s))"
    "stores s (pf_key qid) (replicate 8 (Some 0)) (drop_ctxt (qdma_pfetch_ctx_conf (Some env) qid None QDMA_HW_ACCESS_CLEAR s))"
    "stores s (cm_key qid) (replicate 8 (Some 0)) (drop_ctxt (qdma_cmpt_ctx_conf (Some env) qid None QDMA_HW_ACCESS_CLEAR s))"
proof -
  have clr: "stores s (ctxt_key_of sel qid) (replicate 8 (Some 0)) (qdma_indirect_reg_clear env sel qid s)" for sel
    using ind_ctxt.clr_law [OF assms, of sel qid s] by (metis prod.collapse stores_def)
  show "c2h \<le> 1 \<Longrightarrow> stores s (ctxt_key_of (sw_sel c2h) qid) (replicate 8 (Some 0)) (drop_ctxt (qdma_sw_ctx_conf (Some env) c2h qid None QDMA_HW_ACCESS_CLEAR s))"
    using conf_clear_words(1) [OF assms, of c2h qid s] by (auto simp: stores_def)
  show "c2h \<le> 1 \<Longrightarrow> stores s (ctxt_key_of (hw_sel c2h) qid) (replicate 8 (Some 0)) (drop_ctxt (qdma_hw_ctx_conf (Some env) c2h qid None QDMA_HW_ACCESS_CLEAR s))"
    using conf_clear_words(2) [OF assms, of c2h qid s] by (auto simp: stores_def)
  show "c2h \<le> 1 \<Longrightarrow> stores s (ctxt_key_of (cr_sel c2h) qid) (replicate 8 (Some 0)) (drop_ctxt (qdma_credit_ctx_conf (Some env) c2h qid None QDMA_HW_ACCESS_CLEAR s))"
    using conf_clear_words(3) [OF assms, of c2h qid s] by (auto simp: stores_def)
  show "stores s (pf_key qid) (replicate 8 (Some 0)) (drop_ctxt (qdma_pfetch_ctx_conf (Some env) qid None QDMA_HW_ACCESS_CLEAR s))"
    using clr [of QDMA_CTXT_SEL_PFTCH] by (simp add: qdma_pfetch_ctx_conf_def qdma_pfetch_context_clear_def drop_ctxt_def case_prod_unfold Let_def)
  show "stores s (cm_key qid) (replicate 8 (Some 0)) (drop_ctxt (qdma_cmpt_ctx_conf (Some env) qid None QDMA_HW_ACCESS_CLEAR s))"
    using clr [of QDMA_CTXT_SEL_CMPT] by (simp add: qdma_cmpt_ctx_conf_def qdma_cmpt_context_clear_def drop_ctxt_def case_prod_unfold Let_def)
qed

lemma write_stores:
  assumes "ctxt_hw env"
  shows "c2h \<le> 1 \<Longrightarrow> stores s (ctxt_key_of (sw_sel c2h) qid) (map Some (pad_words (sw_ctxt_words c))) (drop_ctxt (qdma_sw_ctx_conf (Some env) c2h qid (Some c) QDMA_HW_ACCESS_WRITE s))"
    "stores s (pf_key qid) (map Some (pad_words (pfetch_ctxt_words pf))) (drop_ctxt (qdma_pfetch_ctx_conf (Some env) qid (Some pf) QDMA_HW_ACCESS_WRITE s))"
    "cm_trig_mode cm \<le> TRIG_MODE_TMR_CNTR \<Longrightarrow> stores s (cm_key qid) (map Some (pad_words (cmpt_ctxt_words cm))) (drop_ctxt (qdma_cmpt_ctx_conf (Some env) qid (Some cm) QDMA_HW_ACCESS_WRITE s))"
proof -
  have wr: "stores s (ctxt_key_of sel qid) (map Some (pad_words data)) (qdma_indirect_reg_write env sel qid data s)"
    if "length data \<le> 8" for sel data
    using ind_ctxt.wr_law [OF assms that, of sel qid s] by (metis prod.collapse stores_def)
  show "c2h \<le> 1 \<Longrightarrow> stores s (ctxt_key_of (sw_sel c2h) qid) (map Some (pad_words (sw_ctxt_words c))) (drop_ctxt (qdma_sw_ctx_conf (Some env) c2h qid (Some c) QDMA_HW_ACCESS_WRITE s))"
    using conf_write_words [OF assms, of c2h qid c s] by (auto simp: stores_def)
  show "stores s (pf_key qid) (map Some (pad_words (pfetch_ctxt_words pf))) (drop_ctxt (qdma_pfetch_ctx_conf (Some env) qid (Some pf) QDMA_HW_ACCESS_WRITE s))"
    using wr [of "pfetch_ctxt_words pf" QDMA_CTXT_SEL_PFTCH] pfetch_ctxt.pack_length [of pf]
    by (simp add: qdma_pfetch_ctx_conf_def qdma_pfetch_context_write_def drop_ctxt_def case_prod_unfold Let_def)
  show "cm_trig_mode cm \<le> TRIG_MODE_TMR_CNTR \<Longrightarrow> stores s (cm_key qid) (map Some (pad_words (cmpt_ctxt_words cm))) (drop_ctxt (qdma_cmpt_ctx_conf (Some env) qid (Some cm) QDMA_HW_ACCESS_WRITE s))"
    using wr [of "cmpt_ctxt_words cm" QDMA_CTXT_SEL_CMPT] cmpt_ctxt.pack_length [of cm]
    by (simp add: qdma_cmpt_ctx_conf_def qdma_cmpt_context_write_def drop_ctxt_def case_prod_unfold Let_def not_less [symmetric])
qed

lemma step_when:
  assumes "b \<Longrightarrow> stores s k ws r"
  obtains t where "or_error (skip_unless b r s) f = f t" "ctxt_words t = (if b then (ctxt_words s)(k := ws) else ctxt_words s)"
proof (cases b)
  case True
  then obtain t where "r = (0, t)" "ctxt_words t = (ctxt_words s)(k := ws)" using assms stores_step by blast
  then show ?thesis using that True by simp
qed (use that in simp)

subsection \<open>Programming a queue\<close>

lemma type_bound: "ty \<noteq> q_type_val Q_CMPT \<Longrightarrow> ty \<in> {0, 1, 2} \<Longrightarrow> ty \<le> (1 :: u8)"
  by auto

lemma pf_cm_sels [simp]:
  "sw_sel c \<noteq> QDMA_CTXT_SEL_PFTCH" "sw_sel c \<noteq> QDMA_CTXT_SEL_CMPT" "hw_sel c \<noteq> QDMA_CTXT_SEL_PFTCH"
  "hw_sel c \<noteq> QDMA_CTXT_SEL_CMPT" "cr_sel c \<noteq> QDMA_CTXT_SEL_PFTCH" "cr_sel c \<noteq> QDMA_CTXT_SEL_CMPT"
  "QDMA_CTXT_SEL_PFTCH \<noteq> sw_sel c" "QDMA_CTXT_SEL_CMPT \<noteq> sw_sel c"  "QDMA_CTXT_SEL_PFTCH \<noteq> hw_sel c"
  "QDMA_CTXT_SEL_CMPT \<noteq> hw_sel c" "QDMA_CTXT_SEL_PFTCH \<noteq> cr_sel c" "QDMA_CTXT_SEL_CMPT \<noteq> cr_sel c"
  by (simp_all add: sel_defs)

lemma context_clear_words:
  assumes "ctxt_hw env" "ty \<in> {0, 1, 2}"
  obtains t where "qdma_descq_context_clear (Some env) qid_hw st ty True s = (0, t)"
    "ty \<noteq> 2 \<Longrightarrow> ctxt_words t (ctxt_key_of (hw_sel ty) (ucast qid_hw)) = replicate 8 (Some 0)"
    "ty \<noteq> 2 \<Longrightarrow> ctxt_words t (ctxt_key_of (cr_sel ty) (ucast qid_hw)) = replicate 8 (Some 0)"
proof -
  let ?q = "ty \<noteq> q_type_val Q_CMPT"
  have b: "?q \<Longrightarrow> ty \<le> 1" using type_bound assms(2) by blast
  note c = clear_stores [OF assms(1)]
  define k5 where "k5 = (\<lambda>s :: hw_log. (0 :: int, s))"
  define k4 where "k4 = (\<lambda>s. or_error (skip_unless (cmpt_queue st ty) (drop_ctxt (qdma_cmpt_ctx_conf (Some env) (ucast qid_hw) None QDMA_HW_ACCESS_CLEAR s)) s) k5)"
  define k3 where "k3 = (\<lambda>s. or_error (skip_unless (?q \<and> st \<and> ty = q_type_val Q_C2H) (drop_ctxt (qdma_pfetch_ctx_conf (Some env) (ucast qid_hw) None QDMA_HW_ACCESS_CLEAR s)) s) k4)"
  define k2 where "k2 = (\<lambda>s. or_error (skip_unless ?q (drop_ctxt (qdma_credit_ctx_conf (Some env) ty (ucast qid_hw) None QDMA_HW_ACCESS_CLEAR s)) s) k3)"
  define k1 where "k1 = (\<lambda>s. or_error (skip_unless ?q (drop_ctxt (qdma_hw_ctx_conf (Some env) ty (ucast qid_hw) None QDMA_HW_ACCESS_CLEAR s)) s) k2)"
  have eq: "qdma_descq_context_clear (Some env) qid_hw st ty True s =
      or_error (skip_unless ?q (drop_ctxt (qdma_sw_ctx_conf (Some env) ty (ucast qid_hw) None QDMA_HW_ACCESS_CLEAR s)) s) k1"
    unfolding qdma_descq_context_clear_def Let_def if_True k1_def k2_def k3_def k4_def k5_def ..
  obtain t1 where t1: "qdma_descq_context_clear (Some env) qid_hw st ty True s = k1 t1"
    unfolding eq by (rule step_when [where f = k1 and s = s, OF c(1) [OF b]])
  obtain t2 where t2: "k1 t1 = k2 t2" "ctxt_words t2 = (if ?q then (ctxt_words t1)(ctxt_key_of (hw_sel ty) (ucast qid_hw) := replicate 8 (Some 0)) else ctxt_words t1)"
    unfolding k1_def by (rule step_when [where f = k2 and s = t1, OF c(2) [OF b]])
  obtain t3 where t3: "k2 t2 = k3 t3" "ctxt_words t3 = (if ?q then (ctxt_words t2)(ctxt_key_of (cr_sel ty) (ucast qid_hw) := replicate 8 (Some 0)) else ctxt_words t2)"
    unfolding k2_def by (rule step_when [where f = k3 and s = t2, OF c(3) [OF b]])
  obtain t4 where t4: "k3 t3 = k4 t4" "ctxt_words t4 = (if ?q \<and> st \<and> ty = q_type_val Q_C2H then (ctxt_words t3)(pf_key (ucast qid_hw) := replicate 8 (Some 0)) else ctxt_words t3)"
    unfolding k3_def by (rule step_when [where f = k4 and s = t3, OF c(4)])
  obtain t5 where t5: "k4 t4 = k5 t5" "ctxt_words t5 = (if cmpt_queue st ty then (ctxt_words t4)(cm_key (ucast qid_hw) := replicate 8 (Some 0)) else ctxt_words t4)"
    unfolding k4_def by (rule step_when [where f = k5 and s = t4, OF c(5)])
  have "qdma_descq_context_clear (Some env) qid_hw st ty True s = (0, t5)"
    using t1 t2(1) t3(1) t4(1) t5(1) by (simp add: k5_def)
  then show ?thesis using that t2(2) t3(2) t4(2) t5(2) by (simp split: if_splits)
qed

lemma context_program_words:
  assumes "ctxt_hw env" "ty \<in> {0, 1, 2}" "qid2vec_ctx (xd_dev_cap x) = 0"
    and "cmpt_queue st ty \<Longrightarrow> cm_trig_mode (dc_cmpt_ctxt c) \<le> TRIG_MODE_TMR_CNTR"
  obtains t where "qdma_descq_context_program (Some env) q2v x qid_hw st ty c v s = (0, t)"
    "ty \<noteq> 2 \<Longrightarrow> set_up ty (ucast qid_hw) (dc_sw_ctxt c) t"
    "st \<Longrightarrow> ty = 1 \<Longrightarrow> ctxt_words t (pf_key (ucast qid_hw)) = map Some (pad_words (pfetch_ctxt_words (dc_pfetch_ctxt c)))"
    "cmpt_queue st ty \<Longrightarrow> ctxt_words t (cm_key (ucast qid_hw)) = map Some (pad_words (cmpt_ctxt_words (dc_cmpt_ctxt c)))"
proof -
  let ?q = "ty \<noteq> q_type_val Q_CMPT" and ?id = "ucast qid_hw :: u16"
  have b: "?q \<Longrightarrow> ty \<le> 1" using type_bound assms(2) by blast
  note w = write_stores [OF assms(1)]
  define k3 where "k3 = (\<lambda>s :: hw_log. (0 :: int, s))"
  define k2 where "k2 = (\<lambda>s. or_error (skip_unless (cmpt_queue st ty) (drop_ctxt (qdma_cmpt_ctx_conf (Some env) ?id (Some (dc_cmpt_ctxt c)) QDMA_HW_ACCESS_WRITE s)) s) k3)"
  define k1 where "k1 = (\<lambda>s. or_error (skip_unless (?q \<and> st \<and> ty \<noteq> 0) (drop_ctxt (qdma_pfetch_ctx_conf (Some env) ?id (Some (dc_pfetch_ctxt c)) QDMA_HW_ACCESS_WRITE s)) s) k2)"
  obtain t0 where t0: "qdma_descq_context_clear (Some env) qid_hw st ty True s = (0, t0)"
    "ty \<noteq> 2 \<Longrightarrow> ctxt_words t0 (ctxt_key_of (hw_sel ty) ?id) = replicate 8 (Some 0)"
    "ty \<noteq> 2 \<Longrightarrow> ctxt_words t0 (ctxt_key_of (cr_sel ty) ?id) = replicate 8 (Some 0)"
    using context_clear_words [OF assms(1,2), of qid_hw st s] by metis
  have eq: "qdma_descq_context_program (Some env) q2v x qid_hw st ty c v s =
      or_error (skip_unless ?q (drop_ctxt (qdma_sw_ctx_conf (Some env) ty ?id (Some (dc_sw_ctxt c)) QDMA_HW_ACCESS_WRITE t0)) t0) k1"
    unfolding qdma_descq_context_program_def Let_def t0(1) or_error_ok k1_def k2_def k3_def using assms(3) by simp
  obtain t1 where t1: "qdma_descq_context_program (Some env) q2v x qid_hw st ty c v s = k1 t1"
    "ctxt_words t1 = (if ?q then (ctxt_words t0)(ctxt_key_of (sw_sel ty) ?id := map Some (pad_words (sw_ctxt_words (dc_sw_ctxt c)))) else ctxt_words t0)"
    unfolding eq by (rule step_when [where f = k1 and s = t0, OF w(1) [OF b]])
  obtain t2 where t2: "k1 t1 = k2 t2" "ctxt_words t2 = (if ?q \<and> st \<and> ty \<noteq> 0 then (ctxt_words t1)(pf_key ?id := map Some (pad_words (pfetch_ctxt_words (dc_pfetch_ctxt c)))) else ctxt_words t1)"
    unfolding k1_def by (rule step_when [where f = k2 and s = t1, OF w(2)])
  obtain t3 where t3: "k2 t2 = k3 t3" "ctxt_words t3 = (if cmpt_queue st ty then (ctxt_words t2)(cm_key ?id := map Some (pad_words (cmpt_ctxt_words (dc_cmpt_ctxt c)))) else ctxt_words t2)"
    unfolding k2_def by (rule step_when [where f = k3 and s = t2, OF w(3) [OF assms(4)]])
  have "qdma_descq_context_program (Some env) q2v x qid_hw st ty c v s = (0, t3)"
    using t1(1) t2(1) t3(1) by (simp add: k3_def)
  then show ?thesis using that t0(2,3) t1(2) t2(2) t3(2) by (auto simp: set_up_def)
qed

subsection \<open>Reading a queue\<close>

lemma or_error_ctxt_ok [simp]: "or_error_ctxt (0, x, s) old put c f = f (put (keep_ctxt old x) c) s"
  by (simp add: or_error_ctxt_def)

lemma keep_ctxt_simps [simp]: "keep_ctxt old (Some x) = x" "keep_ctxt old None = old"
  by (simp_all add: keep_ctxt_def)

lemma read_sw:
  assumes "ctxt_hw env" "ty \<le> 1" "set_up ty qid sw s"
  obtains t1 t2 t3 where "qdma_sw_ctx_conf (Some env) ty qid (Some zero_sw_ctxt) QDMA_HW_ACCESS_READ s = (0, Some (sw_stored sw zero_sw_ctxt), t1)"
    "qdma_hw_ctx_conf (Some env) ty qid (Some zero_hw_ctxt) QDMA_HW_ACCESS_READ t1 = (0, Some zero_hw_ctxt, t2)"
    "qdma_credit_ctx_conf (Some env) ty qid (Some zero_credit_ctxt) QDMA_HW_ACCESS_READ t2 = (0, Some zero_credit_ctxt, t3)"
    "ctxt_words t3 = ctxt_words s"
proof -
  have c: "\<not> ty > 1" using assms(2) by simp
  have z: "ctxt_words s (ctxt_key_of (hw_sel ty) qid) = map Some (pad_words [0, 0])"
    "ctxt_words s (ctxt_key_of (cr_sel ty) qid) = map Some (pad_words [0])"
    using assms(3) by (simp_all add: set_up_def pad_words_def numeral_eq_Suc)
  obtain rv1 d1 t1 where r1: "qdma_indirect_reg_read env (sw_sel ty) qid 5 s = (rv1, d1, t1)" by (metis prod_cases3)
  have k1: "rv1 = 0 \<and> d1 = Some (sw_ctxt_words sw) \<and> ctxt_words t1 = ctxt_words s"
    using ind_ctxt.read_known [OF assms(1) _ _ _ r1, of "sw_ctxt_words sw"] sw_ctxt.pack_length [of sw] assms(3)
    by (simp add: set_up_def)
  obtain rv2 d2 t2 where r2: "qdma_indirect_reg_read env (hw_sel ty) qid 2 t1 = (rv2, d2, t2)" by (metis prod_cases3)
  have k2: "rv2 = 0 \<and> d2 = Some [0, 0] \<and> ctxt_words t2 = ctxt_words s"
    using ind_ctxt.read_known [OF assms(1) _ _ _ r2, of "[0, 0]"] z(1) k1 by simp
  obtain rv3 d3 t3 where r3: "qdma_indirect_reg_read env (cr_sel ty) qid 1 t2 = (rv3, d3, t3)" by (metis prod_cases3)
  have k3: "rv3 = 0 \<and> d3 = Some [0] \<and> ctxt_words t3 = ctxt_words s"
    using ind_ctxt.read_known [OF assms(1) _ _ _ r3, of "[0]"] z(2) k2 by simp
  have zero: "hw_ctxt_unpack [0, 0] zero_hw_ctxt = zero_hw_ctxt" "credit_ctxt_unpack [0] zero_credit_ctxt = zero_credit_ctxt"
    by code_simp+
  show ?thesis
    by (rule that [of t1 t2 t3])
      (use k1 r1 k2 r2 k3 r3 c zero in \<open>simp_all add: qdma_sw_ctx_conf_def qdma_sw_context_read_def sw_sel_def sw_pack
        qdma_hw_ctx_conf_def qdma_hw_context_read_def hw_sel_def qdma_credit_ctx_conf_def qdma_credit_context_read_def cr_sel_def\<close>)
qed

lemma read_pf:
  assumes "ctxt_hw env" "ctxt_words s (pf_key qid) = map Some (pad_words (pfetch_ctxt_words pf))"
  obtains t where "qdma_pfetch_ctx_conf (Some env) qid (Some zero_prefetch_ctxt) QDMA_HW_ACCESS_READ s =
      (0, Some (pfetch_stored pf zero_prefetch_ctxt), t)" "ctxt_words t = ctxt_words s"
proof -
  obtain rv d t where r: "qdma_indirect_reg_read env QDMA_CTXT_SEL_PFTCH qid 2 s = (rv, d, t)" by (metis prod_cases3)
  have "rv = 0 \<and> d = Some (pfetch_ctxt_words pf) \<and> ctxt_words t = ctxt_words s"
    using ind_ctxt.read_known [OF assms(1) _ _ _ r, of "pfetch_ctxt_words pf"] pfetch_ctxt.pack_length [of pf] assms(2) by simp
  then show ?thesis using that r by (simp add: qdma_pfetch_ctx_conf_def qdma_pfetch_context_read_def pfetch_pack)
qed

lemma read_cm:
  assumes "ctxt_hw env" "ctxt_words s (cm_key qid) = map Some (pad_words (cmpt_ctxt_words cm))"
  obtains t where "qdma_cmpt_ctx_conf (Some env) qid (Some zero_cmpt_ctxt) QDMA_HW_ACCESS_READ s =
      (0, Some (cmpt_stored cm zero_cmpt_ctxt), t)"
proof -
  obtain rv d t where r: "qdma_indirect_reg_read env QDMA_CTXT_SEL_CMPT qid 5 s = (rv, d, t)" by (metis prod_cases3)
  have "rv = 0 \<and> d = Some (cmpt_ctxt_words cm)"
    using ind_ctxt.read_known [OF assms(1) _ _ _ r, of "cmpt_ctxt_words cm"] cmpt_ctxt.pack_length [of cm] assms(2) by simp
  then show ?thesis using that r by (simp add: qdma_cmpt_ctx_conf_def qdma_cmpt_context_read_def cmpt_pack)
qed

lemma type_vals: "q_type_val q \<in> {0, 1, 2} \<longleftrightarrow> q \<noteq> Q_H2C_C2H" "q_type_val q = 2 \<longleftrightarrow> q = Q_CMPT" "q_type_val q = 1 \<longleftrightarrow> q = Q_C2H"
  "q_type_val q = 0 \<longleftrightarrow> q = Q_H2C"
  by (cases q; simp)+

lemma cmpt_queue_has: "cmpt_queue (qc_st c) (q_type_val (qc_q_type c)) = has_cmpt c"
  by (cases "qc_q_type c") (auto simp: cmpt_queue_def has_cmpt_def st_c2h_def)

text \<open>
  C9: What a physical function programs for a queue is what it reads back: on a device that behaves as
  documented the set-up succeeds, and reading the contexts of the queue gives, cut to the widths of the
  hardware, the software context made from the configuration with cleared hardware and credit contexts,
  the prefetch context of a streaming card-to-host queue and the completion context of a queue that has one.
\<close>

theorem queue_contexts_read_back:
  assumes "ctxt_hw env" "qc_q_type (dq_conf d) \<noteq> Q_H2C_C2H" "qid2vec_ctx (xd_dev_cap (dq_xdev d)) = 0"
    and "qc_cmpl_trig_mode (dq_conf d) \<le> TRIG_MODE_COMBO"
  shows "\<exists>t t'. qdma_descq_context_setup (Some env) q2v d s = (0, t) \<and>
    qdma_descq_context_read (Some env) (dq_qidx_hw d) (qc_st (dq_conf d)) (q_type_val (qc_q_type (dq_conf d))) t =
      (0, zero_descq_context
        \<lparr>dc_sw_ctxt := (if qc_q_type (dq_conf d) = Q_CMPT then zero_sw_ctxt else sw_stored (make_sw_context d) zero_sw_ctxt),
         dc_pfetch_ctxt := (if st_c2h (dq_conf d) then pfetch_stored (make_prefetch_context d) zero_prefetch_ctxt else zero_prefetch_ctxt),
         dc_cmpt_ctxt := (if has_cmpt (dq_conf d) then cmpt_stored (make_cmpt_context d) zero_cmpt_ctxt else zero_cmpt_ctxt)\<rparr>, t')"
proof -
  let ?c = "dq_conf d" and ?id = "ucast (dq_qidx_hw d) :: u16"
  let ?ty = "q_type_val (qc_q_type ?c)"
  have ty: "?ty \<in> {0, 1, 2}" using assms(2) type_vals by blast
  have "cm_trig_mode (make_cmpt_context d) = ucast (qc_cmpl_trig_mode ?c)" by (simp add: make_cmpt_context_def Let_def)
  moreover have "(ucast (qc_cmpl_trig_mode ?c) :: u8) \<le> TRIG_MODE_TMR_CNTR"
    using assms(4) by (simp add: TRIG_MODE_TMR_CNTR_def TRIG_MODE_COMBO_def word_le_nat_alt unsigned_ucast_eq take_bit_nat_eq_self unsigned_less [THEN less_trans])
  ultimately have trig: "cm_trig_mode (dc_cmpt_ctxt (make_context d)) \<le> TRIG_MODE_TMR_CNTR"
    by (simp add: make_context_def Let_def zero_cmpt_ctxt_def zero_descq_context_def)
  obtain t where t: "qdma_descq_context_setup (Some env) q2v d s = (0, t)"
    "?ty \<noteq> 2 \<Longrightarrow> set_up ?ty ?id (dc_sw_ctxt (make_context d)) t"
    "qc_st ?c \<Longrightarrow> ?ty = 1 \<Longrightarrow> ctxt_words t (pf_key ?id) = map Some (pad_words (pfetch_ctxt_words (dc_pfetch_ctxt (make_context d))))"
    "cmpt_queue (qc_st ?c) ?ty \<Longrightarrow> ctxt_words t (cm_key ?id) = map Some (pad_words (cmpt_ctxt_words (dc_cmpt_ctxt (make_context d))))"
  proof -
    define v where "v = (if qc_q_type ?c \<noteq> Q_CMPT \<and> qid2vec_ctx (xd_dev_cap (dq_xdev d)) \<noteq> 0 \<and> xd_drv_mode (dq_xdev d) \<noteq> POLL_MODE
      then make_qid2vec_context d else zero_qid2vec)"
    have eq: "qdma_descq_context_setup (Some env) q2v d s =
        qdma_descq_context_program (Some env) q2v (dq_xdev d) (dq_qidx_hw d) (qc_st ?c) ?ty (make_context d) v s"
      by (simp only: qdma_descq_context_setup_def Let_def v_def)
    show thesis
      by (rule context_program_words [OF assms(1) ty assms(3) trig])
        (rule that, simp only: eq, blast+)
  qed
  obtain t3 where t3: "ctxt_words t3 = ctxt_words t"
    "\<And>c f. or_error_ctxt (if ?ty \<noteq> q_type_val Q_CMPT then qdma_sw_ctx_conf (Some env) ?ty ?id (Some zero_sw_ctxt) QDMA_HW_ACCESS_READ t else (0, None, t))
        zero_sw_ctxt (\<lambda>x c. c\<lparr>dc_sw_ctxt := x\<rparr>) c (\<lambda>c s.
      or_error_ctxt (if ?ty \<noteq> q_type_val Q_CMPT then qdma_hw_ctx_conf (Some env) ?ty ?id (Some zero_hw_ctxt) QDMA_HW_ACCESS_READ s else (0, None, s))
        zero_hw_ctxt (\<lambda>x c. c\<lparr>dc_hw_ctxt := x\<rparr>) c (\<lambda>c s.
      or_error_ctxt (if ?ty \<noteq> q_type_val Q_CMPT then qdma_credit_ctx_conf (Some env) ?ty ?id (Some zero_credit_ctxt) QDMA_HW_ACCESS_READ s else (0, None, s))
        zero_credit_ctxt (\<lambda>x c. c\<lparr>dc_cr_ctxt := x\<rparr>) c f)) =
      f (c\<lparr>dc_sw_ctxt := (if qc_q_type ?c = Q_CMPT then zero_sw_ctxt else sw_stored (make_sw_context d) zero_sw_ctxt),
          dc_hw_ctxt := zero_hw_ctxt, dc_cr_ctxt := zero_credit_ctxt\<rparr>) t3"
  proof (cases "qc_q_type ?c = Q_CMPT")
    case True
    then show ?thesis using that [of t] by simp
  next
    case False
    then have q: "?ty \<noteq> q_type_val Q_CMPT" "?ty \<noteq> 2" using type_vals(2) by simp_all
    have sw: "dc_sw_ctxt (make_context d) = make_sw_context d" using False by (simp add: make_context_def Let_def)
    obtain t1 t2 t3 where "qdma_sw_ctx_conf (Some env) ?ty ?id (Some zero_sw_ctxt) QDMA_HW_ACCESS_READ t = (0, Some (sw_stored (make_sw_context d) zero_sw_ctxt), t1)"
      "qdma_hw_ctx_conf (Some env) ?ty ?id (Some zero_hw_ctxt) QDMA_HW_ACCESS_READ t1 = (0, Some zero_hw_ctxt, t2)"
      "qdma_credit_ctx_conf (Some env) ?ty ?id (Some zero_credit_ctxt) QDMA_HW_ACCESS_READ t2 = (0, Some zero_credit_ctxt, t3)"
      "ctxt_words t3 = ctxt_words t"
      using read_sw [OF assms(1) type_bound [OF q(1) ty] t(2) [OF q(2)]] sw by metis
    then show ?thesis using that [of t3] q(1) False by simp
  qed
  define c1 where "c1 = zero_descq_context\<lparr>dc_sw_ctxt := (if qc_q_type ?c = Q_CMPT then zero_sw_ctxt else sw_stored (make_sw_context d) zero_sw_ctxt),
    dc_hw_ctxt := zero_hw_ctxt, dc_cr_ctxt := zero_credit_ctxt\<rparr>"
  have p: "(?ty \<noteq> q_type_val Q_CMPT \<and> qc_st ?c \<and> ?ty \<noteq> 0) = st_c2h ?c"
    using assms(2) by (cases "qc_q_type ?c") (simp_all add: st_c2h_def)
  obtain t4 where t4: "ctxt_words t4 = ctxt_words t"
    "(if st_c2h ?c then qdma_pfetch_ctx_conf (Some env) ?id (Some zero_prefetch_ctxt) QDMA_HW_ACCESS_READ t3 else (0, None, t3)) =
      (0, if st_c2h ?c then Some (pfetch_stored (make_prefetch_context d) zero_prefetch_ctxt) else None, t4)"
  proof (cases "st_c2h ?c")
    case True
    then have "dc_pfetch_ctxt (make_context d) = make_prefetch_context d" "qc_st ?c" "?ty = 1"
      by (simp_all add: make_context_def st_c2h_def Let_def)
    then have "ctxt_words t3 (pf_key ?id) = map Some (pad_words (pfetch_ctxt_words (make_prefetch_context d)))"
      using t(3) t3(1) by simp
    from read_pf [OF assms(1) this] obtain u where
      "qdma_pfetch_ctx_conf (Some env) ?id (Some zero_prefetch_ctxt) QDMA_HW_ACCESS_READ t3 =
        (0, Some (pfetch_stored (make_prefetch_context d) zero_prefetch_ctxt), u)" "ctxt_words u = ctxt_words t3" .
    with that [of u] t3(1) True show ?thesis by simp
  qed (use that [of t3] t3(1) in simp)
  obtain t5 where t5:
    "(if has_cmpt ?c then qdma_cmpt_ctx_conf (Some env) ?id (Some zero_cmpt_ctxt) QDMA_HW_ACCESS_READ t4 else (0, None, t4)) =
      (0, if has_cmpt ?c then Some (cmpt_stored (make_cmpt_context d) zero_cmpt_ctxt) else None, t5)"
  proof (cases "has_cmpt ?c")
    case True
    then have "dc_cmpt_ctxt (make_context d) = make_cmpt_context d" by (simp add: make_context_def Let_def)
    then have "ctxt_words t4 (cm_key ?id) = map Some (pad_words (cmpt_ctxt_words (make_cmpt_context d)))"
      using t(4) t4(1) cmpt_queue_has True by simp
    from read_cm [OF assms(1) this] obtain u where
      "qdma_cmpt_ctx_conf (Some env) ?id (Some zero_cmpt_ctxt) QDMA_HW_ACCESS_READ t4 =
        (0, Some (cmpt_stored (make_cmpt_context d) zero_cmpt_ctxt), u)" .
    with that [of u] True show ?thesis by simp
  qed (use that [of t4] in simp)
  have "qdma_descq_context_read (Some env) (dq_qidx_hw d) (qc_st ?c) ?ty t =
      (0, c1\<lparr>dc_pfetch_ctxt := (if st_c2h ?c then pfetch_stored (make_prefetch_context d) zero_prefetch_ctxt else zero_prefetch_ctxt),
             dc_cmpt_ctxt := (if has_cmpt ?c then cmpt_stored (make_cmpt_context d) zero_cmpt_ctxt else zero_cmpt_ctxt)\<rparr>, t5)"
    unfolding qdma_descq_context_read_def Let_def t3(2) p cmpt_queue_has t4(2) t5 or_error_ctxt_ok c1_def [symmetric]
    by simp
  moreover have "c1 = zero_descq_context\<lparr>dc_sw_ctxt := (if qc_q_type ?c = Q_CMPT then zero_sw_ctxt else sw_stored (make_sw_context d) zero_sw_ctxt)\<rparr>"
    by (simp add: c1_def zero_descq_context_def)
  ultimately show ?thesis using t(1) by auto
qed

text \<open>A streaming card-to-host queue, configured but not yet programmed.\<close>

definition rx_queue :: qdma_descq where
  "rx_queue = qdma_descq_config_complete (qdma_descq_config
     ((demo_conf True Q_C2H)\<lparr>qc_pfetch_en := True, qc_cmpl_trig_mode := TRIG_MODE_COMBO, qc_adaptive_rx := True\<rparr>) False
     (qdma_descq_init demo_dev 3 0 0 (zero_descq demo_dev (\<lambda>i. demo_req))))"

lemma rx_queue_values:
  "qc_q_type (dq_conf rx_queue) = Q_C2H \<and> qc_st (dq_conf rx_queue) \<and> qid2vec_ctx (xd_dev_cap (dq_xdev rx_queue)) = 0 \<and>
   qc_cmpl_trig_mode (dq_conf rx_queue) \<le> TRIG_MODE_COMBO"
  by code_simp

theorem queue_contexts_read_back_witness:
  "\<exists>t c t'. qdma_descq_context_setup (Some ref_hw) (\<lambda>_ _ _ s. s) rx_queue [] = (0, t) \<and>
    qdma_descq_context_read (Some ref_hw) (dq_qidx_hw rx_queue) True (q_type_val Q_C2H) t = (0, c, t') \<and>
    dc_cmpt_ctxt c = cmpt_stored (make_cmpt_context rx_queue) zero_cmpt_ctxt \<and>
    dc_pfetch_ctxt c = pfetch_stored (make_prefetch_context rx_queue) zero_prefetch_ctxt"
  using queue_contexts_read_back [OF ref_hw_ok, of rx_queue "\<lambda>_ _ _ s. s" "[]"] rx_queue_values
  by (auto simp: st_c2h_def has_cmpt_def)

subsection \<open>The virtual function\<close>

text \<open>What the physical function reads from the four global arrays is what the driver of the virtual function knows.\<close>

definition arrays_known :: "hw_env \<Rightarrow> global_csr_conf \<Rightarrow> bool" where
  "arrays_known env g \<longleftrightarrow> (\<forall>s. \<forall>(ty, a)\<in>{(QDMA_CSR_RING_SZ, gc_ring_sz g), (QDMA_CSR_TIMER_CNT, gc_c2h_timer_cnt g),
       (QDMA_CSR_CNT_TH, gc_c2h_cnt_th g), (QDMA_CSR_BUF_SZ, gc_c2h_buf_sz g)}.
     length a = 16 \<and>
     (\<exists>s1. qdma_global_csr_conf (Some env) 0 16 (Some (replicate 16 0)) ty QDMA_HW_ACCESS_READ s = (0, Some a, s1)))"

text \<open>
  The sizes of a queue fit the fields of the message and are those its indices select; an index is the first one
  of its value (the array of buffer sizes the driver programs holds 4096 eight times).
\<close>

definition first_at :: "u32 list \<Rightarrow> 4 word \<Rightarrow> bool" where
  "first_at a i \<longleftrightarrow> (\<forall>v\<in>set (take (unat i) a). v \<noteq> a ! unat i)"

definition sizes_fit :: "qdma_descq \<Rightarrow> bool" where
  "sizes_fit d \<longleftrightarrow>
     (let c = dq_conf d; g = xd_csr_info (dq_xdev d) in
      qc_rngsz c = gc_ring_sz g ! unat (qc_desc_rng_sz_idx c) - 1 \<and> qc_rngsz c < 65536 \<and> first_at (gc_ring_sz g) (qc_desc_rng_sz_idx c) \<and>
      (st_c2h c \<longrightarrow> qc_c2h_bufsz c = gc_c2h_buf_sz g ! unat (qc_c2h_buf_sz_idx c) \<and> qc_c2h_bufsz c < 65536 \<and>
         qc_rngsz_cmpt c = gc_ring_sz g ! unat (qc_cmpl_rng_sz_idx c) - 1 \<and> qc_rngsz_cmpt c < 65536 \<and>
         gc_c2h_cnt_th g ! unat (qc_cmpl_cnt_th_idx c) < 256 \<and> gc_c2h_timer_cnt g ! unat (qc_cmpl_timer_idx c) < 256 \<and>
         first_at (gc_c2h_buf_sz g) (qc_c2h_buf_sz_idx c) \<and> first_at (gc_ring_sz g) (qc_cmpl_rng_sz_idx c) \<and>
         first_at (gc_c2h_cnt_th g) (qc_cmpl_cnt_th_idx c) \<and> first_at (gc_c2h_timer_cnt g) (qc_cmpl_timer_idx c)))"

lemma index_where_nth:
  assumes "i < length a" "P (a ! i)" "\<And>v. v \<in> set (take i a) \<Longrightarrow> \<not> P v"
  shows "index_where P a = Some i"
  using assms
proof (induction a arbitrary: i)
  case (Cons x a)
  show ?case
  proof (cases i)
    case 0
    then show ?thesis using Cons.prems(2) by simp
  next
    case (Suc j)
    have j: "j < length a" "P (a ! j)" using Cons.prems(1,2) Suc by simp_all
    have no: "\<not> P v" if "v \<in> set (take j a)" for v using Cons.prems(3) [of v] that Suc by simp
    have "\<not> P x" using Cons.prems(3) [of x] Suc by simp
    moreover have "index_where P a = Some j"
      using j no by (intro Cons.IH)
    ultimately show ?thesis using Suc by simp
  qed
qed simp

lemma lookup_nth:
  assumes "qdma_global_csr_conf (Some env) 0 16 (Some (replicate 16 0)) ty QDMA_HW_ACCESS_READ s = (0, Some a, s1)"
    and "i < length a" "P (a ! i)" "\<And>v. v \<in> set (take i a) \<Longrightarrow> \<not> P v"
  shows "csr_lookup (Some env) ty P err s = (0, i, s1)"
proof -
  have "index_where P a = Some i" by (rule index_where_nth) (use assms(2-4) in blast)+
  then show ?thesis using assms(1) by (simp add: csr_lookup_def)
qed

lemma arrays_knownD:
  assumes "arrays_known env g" "(ty, a) \<in> {(QDMA_CSR_RING_SZ, gc_ring_sz g), (QDMA_CSR_TIMER_CNT, gc_c2h_timer_cnt g),
       (QDMA_CSR_CNT_TH, gc_c2h_cnt_th g), (QDMA_CSR_BUF_SZ, gc_c2h_buf_sz g)}"
  shows "length a = 16 \<and>
    (\<exists>s1. qdma_global_csr_conf (Some env) 0 16 (Some (replicate 16 0)) ty QDMA_HW_ACCESS_READ s = (0, Some a, s1))"
proof -
  have "\<forall>s. \<forall>x\<in>{(QDMA_CSR_RING_SZ, gc_ring_sz g), (QDMA_CSR_TIMER_CNT, gc_c2h_timer_cnt g),
       (QDMA_CSR_CNT_TH, gc_c2h_cnt_th g), (QDMA_CSR_BUF_SZ, gc_c2h_buf_sz g)}. case x of (ty, a) \<Rightarrow>
      length a = 16 \<and>
      (\<exists>s1. qdma_global_csr_conf (Some env) 0 16 (Some (replicate 16 0)) ty QDMA_HW_ACCESS_READ s = (0, Some a, s1))"
    using assms(1) by (simp only: arrays_known_def)
  from bspec [OF spec [OF this, of s] assms(2)] show ?thesis by (simp only: prod.case)
qed

lemma idx4: "unat (i :: 4 word) < 16" using unsigned_less [where 'a = nat, of i] by simp

lemma cast_back: "w < 65536 \<Longrightarrow> ucast (ucast w :: u16) = w" "w < 256 \<Longrightarrow> ucast (ucast w :: u8) = w" for w :: u32
  by (simp_all add: word_unat_eq_iff unsigned_ucast_eq unsigned_take_bit_eq take_bit_nat_eq_self word_less_nat_alt)

lemma lookups:
  assumes "arrays_known env g"
  shows "w + 1 = gc_ring_sz g ! unat i \<Longrightarrow> w < 65536 \<Longrightarrow> first_at (gc_ring_sz g) i \<Longrightarrow>
      \<exists>s1. get_ring_idx (Some env) (ucast w) s = (0, ucast i, s1)"
    "w = gc_c2h_buf_sz g ! unat i \<Longrightarrow> w < 65536 \<Longrightarrow> first_at (gc_c2h_buf_sz g) i \<Longrightarrow>
      \<exists>s1. get_buf_idx (Some env) (ucast w) s = (0, ucast i, s1)"
    "w = gc_c2h_cnt_th g ! unat i \<Longrightarrow> w < 256 \<Longrightarrow> first_at (gc_c2h_cnt_th g) i \<Longrightarrow>
      \<exists>s1. get_cntr_idx (Some env) (ucast w) s = (0, ucast i, s1)"
    "w = gc_c2h_timer_cnt g ! unat i \<Longrightarrow> w < 256 \<Longrightarrow> first_at (gc_c2h_timer_cnt g) i \<Longrightarrow>
      \<exists>s1. get_tmr_idx (Some env) (ucast w) s = (0, ucast i, s1)"
proof -
  have found: "\<exists>s1. csr_lookup (Some env) ty P err s = (0, unat i, s1)"
    if "(ty, a) \<in> {(QDMA_CSR_RING_SZ, gc_ring_sz g), (QDMA_CSR_TIMER_CNT, gc_c2h_timer_cnt g),
       (QDMA_CSR_CNT_TH, gc_c2h_cnt_th g), (QDMA_CSR_BUF_SZ, gc_c2h_buf_sz g)}" "P (a ! unat i)" "\<And>v. P v \<Longrightarrow> v = a ! unat i"
      "first_at a i"
    for ty a err P
  proof -
    note mem = that(1)
    obtain s1 where k: "length a = 16"
      and r: "qdma_global_csr_conf (Some env) 0 16 (Some (replicate 16 0)) ty QDMA_HW_ACCESS_READ s = (0, Some a, s1)"
      using arrays_knownD [OF assms mem, of s] by blast
    have i: "unat i < length a" unfolding k(1) by (rule idx4)
    have "csr_lookup (Some env) ty P err s = (0, unat i, s1)"
      by (rule lookup_nth [where P = P and a = a, OF r i that(2)]) (use that(3,4) in \<open>unfold first_at_def, blast\<close>)
    then show ?thesis by (rule exI)
  qed
  have ix: "(of_nat (unat i) :: 'a :: len word) = ucast i" by simp
  show "\<exists>s1. get_ring_idx (Some env) (ucast w) s = (0, ucast i, s1)"
    if "w + 1 = gc_ring_sz g ! unat i" "w < 65536" "first_at (gc_ring_sz g) i"
  proof -
    have "\<exists>s1. csr_lookup (Some env) QDMA_CSR_RING_SZ (\<lambda>v. ucast (ucast w :: u16) = v - 1) QDMA_ERR_MBOX_INV_RINGSZ s = (0, unat i, s1)"
      by (rule found [of _ "gc_ring_sz g", OF _ _ _ that(3)]) (auto simp: cast_back(1) [OF that(2)] that(1) [symmetric])
    then show ?thesis by (auto simp: get_ring_idx_def)
  qed
  show "\<exists>s1. get_buf_idx (Some env) (ucast w) s = (0, ucast i, s1)"
    if "w = gc_c2h_buf_sz g ! unat i" "w < 65536" "first_at (gc_c2h_buf_sz g) i"
  proof -
    have "\<exists>s1. csr_lookup (Some env) QDMA_CSR_BUF_SZ (\<lambda>v. v = ucast (ucast w :: u16)) QDMA_ERR_MBOX_INV_BUFSZ s = (0, unat i, s1)"
      by (rule found [of _ "gc_c2h_buf_sz g", OF _ _ _ that(3)]) (auto simp: cast_back(1) [OF that(2)] that(1) [symmetric])
    then show ?thesis by (auto simp: get_buf_idx_def)
  qed
  show "\<exists>s1. get_cntr_idx (Some env) (ucast w) s = (0, ucast i, s1)"
    if "w = gc_c2h_cnt_th g ! unat i" "w < 256" "first_at (gc_c2h_cnt_th g) i"
  proof -
    have "\<exists>s1. csr_lookup (Some env) QDMA_CSR_CNT_TH (\<lambda>v. v = ucast (ucast w :: u8)) QDMA_ERR_MBOX_INV_CNTR_TH s = (0, unat i, s1)"
      by (rule found [of _ "gc_c2h_cnt_th g", OF _ _ _ that(3)]) (auto simp: cast_back(2) [OF that(2)] that(1) [symmetric])
    then show ?thesis by (auto simp: get_cntr_idx_def)
  qed
  show "\<exists>s1. get_tmr_idx (Some env) (ucast w) s = (0, ucast i, s1)"
    if "w = gc_c2h_timer_cnt g ! unat i" "w < 256" "first_at (gc_c2h_timer_cnt g) i"
  proof -
    have "\<exists>s1. csr_lookup (Some env) QDMA_CSR_TIMER_CNT (\<lambda>v. v = ucast (ucast w :: u8)) QDMA_ERR_MBOX_INV_TMR_TH s = (0, unat i, s1)"
      by (rule found [of _ "gc_c2h_timer_cnt g", OF _ _ _ that(3)]) (auto simp: cast_back(2) [OF that(2)] that(1) [symmetric])
    then show ?thesis by (auto simp: get_tmr_idx_def)
  qed
qed

lemma cast_bool [simp]: "ucast (of_bool b :: 1 word) = (of_bool b :: u8)" "ucast (of_bool b :: 1 word) = (of_bool b :: u16)"
  by (cases b; simp)+

lemma setup_msg:
  "qx_descq_conf (m_qctxt (vf_setup_msg d)) = vf_descq_conf d"
  "qx_st (m_qctxt (vf_setup_msg d)) = of_bool (qc_st (dq_conf d))"
  "qc_q_type (dq_conf d) \<in> {Q_H2C, Q_C2H} \<Longrightarrow> qx_c2h (m_qctxt (vf_setup_msg d)) = of_bool (qc_q_type (dq_conf d) = Q_C2H)"
  by (auto simp: vf_setup_msg_def qdma_mbox_compose_vf_qctxt_write_def compose_def set_qctxt_def Let_def)

lemma cast_index [simp]: "ucast (ucast (i :: 4 word) :: u16) = (ucast i :: u8)"
  by (rule bit_word_eqI) (auto simp: bit_simps dest: bit_imp_le_length)

lemma cast_func [simp]: "ucast (ucast (f :: u8) :: u16) = f"
  by (rule bit_word_eqI) (auto simp: bit_simps dest: bit_imp_le_length)

lemma mask12: "(0xFFF :: u32) = mask 12" by (simp add: mask_eq_exp_minus_1)

lemma vf_vec: "take_bit 11 (ucast (vf_intr_id d) :: u16) = take_bit 11 (word_of_int (vec_of d))"
  by (rule bit_word_eqI) (auto simp: bit_simps vf_intr_id_def vec_of_def mask12 simp del: mask_eq_exp_minus_1 dest: bit_imp_le_length)

lemma vf_msg_fields [simp]:
  "mq_ringsz (vf_descq_conf d) = ucast (qc_rngsz (dq_conf d))" "mq_bufsz (vf_descq_conf d) = ucast (qc_c2h_bufsz (dq_conf d))"
  "mq_cmpt_ringsz (vf_descq_conf d) = ucast (qc_rngsz_cmpt (dq_conf d))"
  "mq_cnt_thres (vf_descq_conf d) = ucast (gc_c2h_cnt_th (xd_csr_info (dq_xdev d)) ! unat (qc_cmpl_cnt_th_idx (dq_conf d)))"
  "mq_timer_thres (vf_descq_conf d) = ucast (gc_c2h_timer_cnt (xd_csr_info (dq_xdev d)) ! unat (qc_cmpl_timer_idx (dq_conf d)))"
  by (simp_all add: vf_descq_conf_def Let_def)

lemma sizes_fitD:
  assumes "sizes_fit d"
  shows "qc_rngsz (dq_conf d) + 1 = gc_ring_sz (xd_csr_info (dq_xdev d)) ! unat (qc_desc_rng_sz_idx (dq_conf d))"
    "qc_rngsz (dq_conf d) < 65536" "first_at (gc_ring_sz (xd_csr_info (dq_xdev d))) (qc_desc_rng_sz_idx (dq_conf d))"
proof -
  have inc: "x = y - 1 \<Longrightarrow> x + 1 = y" for x y :: u32 by simp
  note s = assms [unfolded sizes_fit_def Let_def]
  show "qc_rngsz (dq_conf d) + 1 = gc_ring_sz (xd_csr_info (dq_xdev d)) ! unat (qc_desc_rng_sz_idx (dq_conf d))"
    "qc_rngsz (dq_conf d) < 65536" "first_at (gc_ring_sz (xd_csr_info (dq_xdev d))) (qc_desc_rng_sz_idx (dq_conf d))"
    using s by (blast intro: inc)+
qed

lemma sizes_fit_c2hD:
  assumes "sizes_fit d" "st_c2h (dq_conf d)"
  shows "qc_c2h_bufsz (dq_conf d) = gc_c2h_buf_sz (xd_csr_info (dq_xdev d)) ! unat (qc_c2h_buf_sz_idx (dq_conf d))"
    "qc_c2h_bufsz (dq_conf d) < 65536" "first_at (gc_c2h_buf_sz (xd_csr_info (dq_xdev d))) (qc_c2h_buf_sz_idx (dq_conf d))"
    "qc_rngsz_cmpt (dq_conf d) + 1 = gc_ring_sz (xd_csr_info (dq_xdev d)) ! unat (qc_cmpl_rng_sz_idx (dq_conf d))"
    "qc_rngsz_cmpt (dq_conf d) < 65536" "first_at (gc_ring_sz (xd_csr_info (dq_xdev d))) (qc_cmpl_rng_sz_idx (dq_conf d))"
    "gc_c2h_cnt_th (xd_csr_info (dq_xdev d)) ! unat (qc_cmpl_cnt_th_idx (dq_conf d)) < 256"
    "first_at (gc_c2h_cnt_th (xd_csr_info (dq_xdev d))) (qc_cmpl_cnt_th_idx (dq_conf d))"
    "gc_c2h_timer_cnt (xd_csr_info (dq_xdev d)) ! unat (qc_cmpl_timer_idx (dq_conf d)) < 256"
    "first_at (gc_c2h_timer_cnt (xd_csr_info (dq_xdev d))) (qc_cmpl_timer_idx (dq_conf d))"
proof -
  have inc: "x = y - 1 \<Longrightarrow> x + 1 = y" for x y :: u32 by simp
  note s = assms(1) [unfolded sizes_fit_def Let_def]
  show "qc_c2h_bufsz (dq_conf d) = gc_c2h_buf_sz (xd_csr_info (dq_xdev d)) ! unat (qc_c2h_buf_sz_idx (dq_conf d))"
    "qc_c2h_bufsz (dq_conf d) < 65536" "first_at (gc_c2h_buf_sz (xd_csr_info (dq_xdev d))) (qc_c2h_buf_sz_idx (dq_conf d))"
    "qc_rngsz_cmpt (dq_conf d) + 1 = gc_ring_sz (xd_csr_info (dq_xdev d)) ! unat (qc_cmpl_rng_sz_idx (dq_conf d))"
    "qc_rngsz_cmpt (dq_conf d) < 65536" "first_at (gc_ring_sz (xd_csr_info (dq_xdev d))) (qc_cmpl_rng_sz_idx (dq_conf d))"
    "gc_c2h_cnt_th (xd_csr_info (dq_xdev d)) ! unat (qc_cmpl_cnt_th_idx (dq_conf d)) < 256"
    "first_at (gc_c2h_cnt_th (xd_csr_info (dq_xdev d))) (qc_cmpl_cnt_th_idx (dq_conf d))"
    "gc_c2h_timer_cnt (xd_csr_info (dq_xdev d)) ! unat (qc_cmpl_timer_idx (dq_conf d)) < 256"
    "first_at (gc_c2h_timer_cnt (xd_csr_info (dq_xdev d))) (qc_cmpl_timer_idx (dq_conf d))"
    using s assms(2) by (blast intro: inc)+
qed

lemma vf_sw_context:
  assumes "arrays_known env (xd_csr_info (dq_xdev d))" "sizes_fit d" "qc_q_type (dq_conf d) \<in> {Q_H2C, Q_C2H}"
  shows "\<exists>sw t. mbox_compose_sw_context (Some env) (m_qctxt (vf_setup_msg d)) zero_sw_ctxt s = (0, sw, t) \<and>
      sw_stored sw zero_sw_ctxt = sw_stored ((make_sw_context d)\<lparr>sw_mrkr_dis := 0, sw_mm_chn := 0,
        sw_frcd_en := of_bool (vf_forced_en (dq_conf d))\<rparr>) zero_sw_ctxt"
proof -
  let ?c = "dq_conf d"
  from lookups(1) [OF assms(1) sizes_fitD [OF assms(2)]] obtain t where
    r: "get_ring_idx (Some env) (ucast (qc_rngsz ?c)) s = (0, ucast (qc_desc_rng_sz_idx ?c), t)" by blast
  obtain sw where sw: "mbox_compose_sw_context (Some env) (m_qctxt (vf_setup_msg d)) zero_sw_ctxt s = (0, sw, t)"
    using r by (simp add: mbox_compose_sw_context_def setup_msg Let_def)
  have "sw_stored (fst (snd (mbox_compose_sw_context (Some env) (m_qctxt (vf_setup_msg d)) zero_sw_ctxt s))) zero_sw_ctxt =
      sw_stored ((make_sw_context d)\<lparr>sw_mrkr_dis := 0, sw_mm_chn := 0, sw_frcd_en := of_bool (vf_forced_en ?c)\<rparr>) zero_sw_ctxt"
    using assms(3)
    by (cases "qc_st ?c"; cases "qc_q_type ?c"; cases "qc_desc_bypass ?c \<and> qc_sw_desc_sz ?c = DESC_SZ_64B")
      (simp_all add: mbox_compose_sw_context_def r setup_msg Let_def sw_stored_def make_sw_context_def vf_descq_conf_def
        vf_vec vf_desc_sz_def st_c2h_def zero_sw_ctxt_def, blast)
  with sw show ?thesis by simp
qed

lemma vf_prefetch_context:
  assumes "arrays_known env (xd_csr_info (dq_xdev d))" "sizes_fit d" "st_c2h (dq_conf d)"
  shows "\<exists>t. mbox_compose_prefetch_context (Some env) (m_qctxt (vf_setup_msg d)) zero_prefetch_ctxt s = (0, make_prefetch_context d, t)"
proof -
  from lookups(2) [OF assms(1) sizes_fit_c2hD(1-3) [OF assms(2,3)]] obtain t where
    r: "get_buf_idx (Some env) (ucast (qc_c2h_bufsz (dq_conf d))) s = (0, ucast (qc_c2h_buf_sz_idx (dq_conf d)), t)" by blast
  then show ?thesis
    by (simp add: mbox_compose_prefetch_context_def setup_msg make_prefetch_context_def Let_def) (simp add: vf_descq_conf_def Let_def)
qed

lemma vf_cmpt_context:
  assumes "arrays_known env (xd_csr_info (dq_xdev d))" "sizes_fit d" "st_c2h (dq_conf d)"
  shows "\<exists>cm t. mbox_compose_cmpt_context (Some env) (m_qctxt (vf_setup_msg d)) zero_cmpt_ctxt s = (0, cm, t) \<and>
      cmpt_stored cm zero_cmpt_ctxt = cmpt_stored ((make_cmpt_context d)\<lparr>cm_full_upd := 0\<rparr>) zero_cmpt_ctxt"
proof -
  let ?c = "dq_conf d" and ?g = "xd_csr_info (dq_xdev d)"
  from lookups(3) [OF assms(1) refl sizes_fit_c2hD(7,8) [OF assms(2,3)]] obtain t1 where
    r1: "get_cntr_idx (Some env) (ucast (gc_c2h_cnt_th ?g ! unat (qc_cmpl_cnt_th_idx ?c))) s = (0, ucast (qc_cmpl_cnt_th_idx ?c), t1)" by blast
  from lookups(4) [OF assms(1) refl sizes_fit_c2hD(9,10) [OF assms(2,3)]] obtain t2 where
    r2: "get_tmr_idx (Some env) (ucast (gc_c2h_timer_cnt ?g ! unat (qc_cmpl_timer_idx ?c))) t1 = (0, ucast (qc_cmpl_timer_idx ?c), t2)" by blast
  from lookups(1) [OF assms(1) sizes_fit_c2hD(4-6) [OF assms(2,3)]] obtain t3 where
    r3: "get_ring_idx (Some env) (ucast (qc_rngsz_cmpt ?c)) t2 = (0, ucast (qc_cmpl_rng_sz_idx ?c), t3)" by blast
  obtain cm where cm: "mbox_compose_cmpt_context (Some env) (m_qctxt (vf_setup_msg d)) zero_cmpt_ctxt s = (0, cm, t3)"
    using r1 r2 r3 by (simp add: mbox_compose_cmpt_context_def setup_msg Let_def)
  have "cmpt_stored (fst (snd (mbox_compose_cmpt_context (Some env) (m_qctxt (vf_setup_msg d)) zero_cmpt_ctxt s))) zero_cmpt_ctxt =
      cmpt_stored ((make_cmpt_context d)\<lparr>cm_full_upd := 0\<rparr>) zero_cmpt_ctxt"
    by (simp add: mbox_compose_cmpt_context_def r1 r2 r3 setup_msg Let_def cmpt_stored_def make_cmpt_context_def vf_descq_conf_def
        vf_vec zero_cmpt_ctxt_def)
  with cm show ?thesis by simp
qed

text \<open>
  C10: A queue of a virtual function gets, from the message it sends, the contexts it would write itself if it
  were a physical function: when the global arrays of the device are those the driver has read, the sizes fit the
  message and each index is the first one of its value, the three contexts the physical function composes are stored as those the driver makes, except
  that host-to-card queues lose the forced credit, that the channel of a memory queue and the disabling of
  markers are cleared, and that an adaptive completion ring is not fully updated.
\<close>

theorem vf_contexts_equal_pf:
  assumes "arrays_known env (xd_csr_info (dq_xdev d))" "sizes_fit d" "qc_q_type (dq_conf d) \<in> {Q_H2C, Q_C2H}"
  shows "\<exists>sw t. mbox_compose_sw_context (Some env) (m_qctxt (vf_setup_msg d)) zero_sw_ctxt s = (0, sw, t) \<and>
      sw_stored sw zero_sw_ctxt = sw_stored ((make_sw_context d)\<lparr>sw_mrkr_dis := 0, sw_mm_chn := 0,
        sw_frcd_en := of_bool (vf_forced_en (dq_conf d))\<rparr>) zero_sw_ctxt \<and>
      (st_c2h (dq_conf d) \<longrightarrow>
        (\<exists>t. mbox_compose_prefetch_context (Some env) (m_qctxt (vf_setup_msg d)) zero_prefetch_ctxt s = (0, make_prefetch_context d, t)) \<and>
        (\<exists>cm t. mbox_compose_cmpt_context (Some env) (m_qctxt (vf_setup_msg d)) zero_cmpt_ctxt s = (0, cm, t) \<and>
          cmpt_stored cm zero_cmpt_ctxt = cmpt_stored ((make_cmpt_context d)\<lparr>cm_full_upd := 0\<rparr>) zero_cmpt_ctxt))"
  using vf_sw_context [OF assms, of s] vf_prefetch_context [OF assms(1,2), of s] vf_cmpt_context [OF assms(1,2), of s]
  by auto

text \<open>A device that holds the default arrays of the driver.\<close>

definition array_at :: "u32 \<Rightarrow> u32 \<Rightarrow> u32 list \<Rightarrow> u32 option" where
  "array_at a base vals = (if base \<le> a \<and> a < base + 64 then Some (vals ! unat (drop_bit 2 (a - base))) else None)"

definition default_hw :: "u32 \<Rightarrow> u32" where
  "default_hw a =
     (case array_at a (csr_base QDMA_CSR_RING_SZ) default_rng_sz of Some v \<Rightarrow> v | None \<Rightarrow>
      case array_at a (csr_base QDMA_CSR_TIMER_CNT) default_tmr_cnt of Some v \<Rightarrow> v | None \<Rightarrow>
      case array_at a (csr_base QDMA_CSR_CNT_TH) default_cnt_th of Some v \<Rightarrow> v | None \<Rightarrow>
      case array_at a (csr_base QDMA_CSR_BUF_SZ) default_buf_sz of Some v \<Rightarrow> v | None \<Rightarrow> 0xFFFFFFFF)"

definition default_csr :: global_csr_conf where
  "default_csr = \<lparr>gc_ring_sz = default_rng_sz, gc_c2h_timer_cnt = default_tmr_cnt, gc_c2h_cnt_th = default_cnt_th,
     gc_c2h_buf_sz = default_buf_sz, gc_wb_intvl = 0\<rparr>"

lemma read_regs_fixed: "fst (read_regs (\<lambda>_. f) a n s) = map (\<lambda>i. f (a + 4 * of_nat i)) [0..<n]"
proof (induction n arbitrary: a s)
  case (Suc n)
  have "map (\<lambda>i. f (a + 4 * of_nat i)) [0..<Suc n] = f a # map (\<lambda>i. f (a + 4 + 4 * of_nat i)) [0..<n]"
    by (simp add: upt_conv_Cons map_Suc_upt [symmetric] ac_simps del: upt_Suc)
  then show ?case using Suc.IH by (simp add: qdma_reg_read_def case_prod_unfold Let_def)
qed simp

lemma default_caps: "st_en (caps (\<lambda>_. default_hw)) \<noteq> 0" by code_simp

lemma default_read:
  assumes "t \<noteq> QDMA_CSR_MAX"
  shows "\<exists>s1. qdma_global_csr_conf (Some (\<lambda>_. default_hw)) 0 16 (Some (replicate 16 0)) t QDMA_HW_ACCESS_READ s =
    (0, Some (map (\<lambda>i. default_hw (csr_base t + 4 * of_nat i)) [0..<16]), s1)"
proof -
  have "fixed_caps (\<lambda>_. default_hw)" by (simp add: fixed_caps_def)
  then have "csr_supported (fst (read_dev_attributes (\<lambda>_. default_hw) s)) t"
    using assms default_caps by (cases t) (simp_all add: read_dev_attributes_caps)
  then show ?thesis
    using assms read_regs_fixed [of default_hw "csr_base t" 16 "csr_prep t (\<lambda>_. default_hw) s"]
    by (simp add: csr_conf_read qdma_read_csr_values_def case_prod_unfold Let_def del: upt_Suc)
qed

lemma default_values:
  "map (\<lambda>i. default_hw (csr_base QDMA_CSR_RING_SZ + 4 * of_nat i)) [0..<16] = gc_ring_sz default_csr"
  "map (\<lambda>i. default_hw (csr_base QDMA_CSR_TIMER_CNT + 4 * of_nat i)) [0..<16] = gc_c2h_timer_cnt default_csr"
  "map (\<lambda>i. default_hw (csr_base QDMA_CSR_CNT_TH + 4 * of_nat i)) [0..<16] = gc_c2h_cnt_th default_csr"
  "map (\<lambda>i. default_hw (csr_base QDMA_CSR_BUF_SZ + 4 * of_nat i)) [0..<16] = gc_c2h_buf_sz default_csr"
  by code_simp+

lemma default_length:
  "length (gc_ring_sz default_csr) = 16" "length (gc_c2h_timer_cnt default_csr) = 16"
  "length (gc_c2h_cnt_th default_csr) = 16" "length (gc_c2h_buf_sz default_csr) = 16"
  by code_simp+

lemma default_arrays: "arrays_known (\<lambda>_. default_hw) default_csr"
  using default_read [of QDMA_CSR_RING_SZ] default_read [of QDMA_CSR_TIMER_CNT] default_read [of QDMA_CSR_CNT_TH]
    default_read [of QDMA_CSR_BUF_SZ]
  unfolding arrays_known_def default_values by (simp add: default_length)

definition vf_dev :: xlnx_dma_dev where
  "vf_dev = demo_dev\<lparr>xd_csr_info := default_csr, xd_func_id := 9, xd_drv_mode := INDIRECT_INTR_MODE, xd_dvec_start_idx := 1\<rparr>"

definition vf_queue :: qdma_descq where
  "vf_queue =
     (let c = (demo_conf True Q_C2H)\<lparr>qc_desc_rng_sz_idx := 3, qc_c2h_buf_sz_idx := 2, qc_cmpl_rng_sz_idx := 4, qc_cmpl_cnt_th_idx := 5,
        qc_cmpl_timer_idx := 6, qc_fetch_credit := True, qc_adaptive_rx := True, qc_rngsz := 192, qc_rngsz_cmpt := 256, qc_c2h_bufsz := 512\<rparr> in
      (zero_descq vf_dev (\<lambda>i. demo_req))\<lparr>dq_conf := c, dq_qidx_hw := 12, dq_intr_id := 2, dq_desc_bus := 0x12345000\<rparr>)"

lemma vf_queue_values:
  "xd_csr_info (dq_xdev vf_queue) = default_csr" "sizes_fit vf_queue" "qc_q_type (dq_conf vf_queue) = Q_C2H" "st_c2h (dq_conf vf_queue)"
  by code_simp+

theorem vf_contexts_equal_pf_witness:
  "\<exists>sw cm t t'. mbox_compose_sw_context (Some (\<lambda>_. default_hw)) (m_qctxt (vf_setup_msg vf_queue)) zero_sw_ctxt [] = (0, sw, t) \<and>
     sw_stored sw zero_sw_ctxt = sw_stored ((make_sw_context vf_queue)\<lparr>sw_mrkr_dis := 0, sw_mm_chn := 0,
        sw_frcd_en := of_bool (vf_forced_en (dq_conf vf_queue))\<rparr>) zero_sw_ctxt \<and>
     mbox_compose_cmpt_context (Some (\<lambda>_. default_hw)) (m_qctxt (vf_setup_msg vf_queue)) zero_cmpt_ctxt [] = (0, cm, t') \<and>
     cmpt_stored cm zero_cmpt_ctxt = cmpt_stored ((make_cmpt_context vf_queue)\<lparr>cm_full_upd := 0\<rparr>) zero_cmpt_ctxt"
  using vf_contexts_equal_pf [of "\<lambda>_. default_hw" vf_queue "[]"] default_arrays vf_queue_values by auto

end
