(* ===== verification/Mbox_Queue.thy ===== *)
theory Mbox_Queue
  imports Queue_Contexts
begin

text \<open>
  A queue that a virtual function sets up and reads back through the mailbox: what the handler
  of the physical function (\<^verbatim>\<open>qdma_mbox_protocol.c\<close>) leaves in the contexts of the queue, for every
  kind of queue and every field of the request.
\<close>

subsection \<open>What a request asks for\<close>

text \<open>A lookup finds an index, whatever has been done to the device before.\<close>

definition finds :: "(hw_log \<Rightarrow> int \<times> 'i \<times> hw_log) \<Rightarrow> 'i \<Rightarrow> bool" where
  "finds f i \<longleftrightarrow> (\<forall>s. \<exists>t. f s = (0, i, t))"

lemma findsE:
  assumes "finds f i"
  obtains t where "f s = (0, i, t)"
  using assms unfolding finds_def by blast

definition asks_st_c2h :: "mbox_msg_qctxt \<Rightarrow> bool" where
  "asks_st_c2h q \<longleftrightarrow> qx_st q \<noteq> 0 \<and> qx_c2h q \<noteq> 0"

text \<open>
  The contexts, field by field: the function is the sender, a streaming card-to-host queue has
  neither interrupt nor write-back of its own, and everything the request does not name is 0.
\<close>

definition requested_sw :: "mbox_msg_qctxt \<Rightarrow> u16 \<Rightarrow> u16 \<Rightarrow> qdma_descq_sw_ctxt" where
  "requested_sw q src ri =
     (let conf = qx_descq_conf q;
          own = (\<lambda>b :: 1 word. if asks_st_c2h q then 0 else ucast b :: u8) in
      \<lparr>sw_ring_bs_addr = mq_ring_bs_addr conf, sw_vec = ucast (mq_intr_id conf), sw_pidx = 0,
       sw_irq_arm = own (mq_irq_arm conf), sw_fnc_id = ucast src, sw_qen = 1,
       sw_frcd_en = ucast (mq_forced_en conf), sw_wbi_chk = own (mq_wbi_chk conf),
       sw_wbi_intvl_en = ucast (mq_wbi_intvl_en conf), sw_at = 0, sw_fetch_max = 0,
       sw_rngsz_idx = ucast ri, sw_desc_sz = ucast (mq_desc_sz conf),
       sw_bypass = ucast (mq_en_bypass conf), sw_mm_chn = 0, sw_wbk_en = own (mq_wbk_en conf),
       sw_irq_en = own (mq_irq_en conf), sw_port_id = 0, sw_irq_no_last = 0, sw_err = 0,
       sw_err_wb_sent = 0, sw_irq_req = 0, sw_mrkr_dis = 0, sw_is_mm = (if qx_st q = 0 then 1 else 0),
       sw_intr_aggr = ucast (mq_intr_aggr conf), sw_pasid_en = 0, sw_dis_intr_on_vf = 0,
       sw_virtio_en = 0, sw_pack_byp_out = 0, sw_irq_byp = 0, sw_host_id = 0, sw_pasid = 0,
       sw_virtio_dsc_base = 0\<rparr>)"

definition requested_prefetch :: "mbox_msg_qctxt \<Rightarrow> u16 \<Rightarrow> qdma_descq_prefetch_ctxt" where
  "requested_prefetch q bi =
     \<lparr>pf_sw_crdt = 0, pf_bypass = ucast (mq_en_bypass_prefetch (qx_descq_conf q)), pf_bufsz_idx = ucast bi,
      pf_port_id = 0, pf_var_desc = 0, pf_num_pftch = 0, pf_err = 0,
      pf_pfch_en = ucast (mq_pfch_en (qx_descq_conf q)), pf_pfch = 0, pf_valid = 1\<rparr>"

definition requested_cmpt :: "mbox_msg_qctxt \<Rightarrow> u16 \<Rightarrow> u8 \<Rightarrow> u8 \<Rightarrow> u16 \<Rightarrow> qdma_descq_cmpt_ctxt" where
  "requested_cmpt q src ci ti ri =
     (let conf = qx_descq_conf q in
      \<lparr>cm_bs_addr = mq_cmpt_ring_bs_addr conf, cm_vec = ucast (mq_intr_id conf), cm_pidx = 0, cm_cidx = 0,
       cm_en_stat_desc = ucast (mq_cmpl_stat_en conf), cm_en_int = ucast (mq_cmpt_int_en conf),
       cm_trig_mode = ucast (mq_triggermode conf), cm_fnc_id = ucast src, cm_counter_idx = ci,
       cm_timer_idx = ti, cm_in_st = 0, cm_color = 1, cm_ringsz_idx = ucast ri,
       cm_desc_sz = ucast (mq_cmpt_desc_sz conf), cm_valid = 1, cm_err = 0, cm_user_trig_pend = 0,
       cm_timer_running = 0, cm_full_upd = 0, cm_ovf_chk_dis = ucast (mq_dis_overflow_check conf),
       cm_at = 0, cm_int_aggr = ucast (mq_intr_aggr conf), cm_dis_intr_on_vf = 0, cm_vio = 0,
       cm_dir_c2h = 0, cm_host_id = 0, cm_pasid = 0, cm_pasid_en = 0, cm_vio_eop = 0, cm_sh_cmpt = 0\<rparr>)"

lemma not_bit: "take_bit (Suc 0) (NOT (ucast (b :: 1 word)) :: u8) = (if b = 0 then 1 else 0)"
proof -
  have "b = 0 \<or> b = 1" using unsigned_less [where 'a = nat, of b] by (auto simp: word_unat_eq_iff)
  then show ?thesis by (elim disjE; simp)
qed

lemma stored_mm:
  "sw_stored (w\<lparr>sw_is_mm := NOT (ucast (b :: 1 word))\<rparr>) c = sw_stored (w\<lparr>sw_is_mm := if b = 0 then 1 else 0\<rparr>) c"
  using not_bit [of b] by (simp add: sw_stored_def)

lemma requested_mm: "(requested_sw q src ri)\<lparr>sw_is_mm := if qx_st q = 0 then 1 else 0\<rparr> = requested_sw q src ri"
  by (simp add: requested_sw_def Let_def)

lemma compose_sw:
  assumes "get_ring_idx dev (mq_ringsz (qx_descq_conf q)) s = (0, ri, t)"
  shows "mbox_compose_sw_context dev (q\<lparr>qx_descq_conf := (qx_descq_conf q)\<lparr>mq_func_id := src\<rparr>\<rparr>) zero_sw_ctxt s =
    (0, (requested_sw q src ri)\<lparr>sw_is_mm := NOT (ucast (qx_st q))\<rparr>, t)"
  using assms
  by (cases "asks_st_c2h q")
    (simp_all add: mbox_compose_sw_context_def requested_sw_def asks_st_c2h_def zero_sw_ctxt_def Let_def, blast)

lemma compose_requested:
  "finds (get_ring_idx dev (mq_ringsz (qx_descq_conf q))) ri \<Longrightarrow> \<exists>sw t.
     mbox_compose_sw_context dev (q\<lparr>qx_descq_conf := (qx_descq_conf q)\<lparr>mq_func_id := src\<rparr>\<rparr>) zero_sw_ctxt s = (0, sw, t) \<and>
     (\<forall>c. sw_stored sw c = sw_stored (requested_sw q src ri) c)"
  "finds (get_buf_idx dev (mq_bufsz (qx_descq_conf q))) bi \<Longrightarrow> \<exists>t.
     mbox_compose_prefetch_context dev (q\<lparr>qx_descq_conf := (qx_descq_conf q)\<lparr>mq_func_id := src\<rparr>\<rparr>) zero_prefetch_ctxt s =
       (0, requested_prefetch q bi, t)"
  "finds (get_cntr_idx dev (mq_cnt_thres (qx_descq_conf q))) ci \<Longrightarrow>
   finds (get_tmr_idx dev (mq_timer_thres (qx_descq_conf q))) ti \<Longrightarrow>
   finds (get_ring_idx dev (mq_cmpt_ringsz (qx_descq_conf q))) cri \<Longrightarrow> \<exists>t.
     mbox_compose_cmpt_context dev (q\<lparr>qx_descq_conf := (qx_descq_conf q)\<lparr>mq_func_id := src\<rparr>\<rparr>) zero_cmpt_ctxt s =
       (0, requested_cmpt q src ci ti cri, t)"
proof -
  show "\<exists>sw t. mbox_compose_sw_context dev (q\<lparr>qx_descq_conf := (qx_descq_conf q)\<lparr>mq_func_id := src\<rparr>\<rparr>) zero_sw_ctxt s =
      (0, sw, t) \<and> (\<forall>c. sw_stored sw c = sw_stored (requested_sw q src ri) c)"
    if "finds (get_ring_idx dev (mq_ringsz (qx_descq_conf q))) ri"
    by (rule findsE [OF that, of s]) (use compose_sw stored_mm requested_mm in metis)
  show "\<exists>t. mbox_compose_prefetch_context dev (q\<lparr>qx_descq_conf := (qx_descq_conf q)\<lparr>mq_func_id := src\<rparr>\<rparr>)
      zero_prefetch_ctxt s = (0, requested_prefetch q bi, t)"
    if "finds (get_buf_idx dev (mq_bufsz (qx_descq_conf q))) bi"
    by (rule findsE [OF that, of s])
      (simp add: mbox_compose_prefetch_context_def requested_prefetch_def zero_prefetch_ctxt_def Let_def)
  show "\<exists>t. mbox_compose_cmpt_context dev (q\<lparr>qx_descq_conf := (qx_descq_conf q)\<lparr>mq_func_id := src\<rparr>\<rparr>)
      zero_cmpt_ctxt s = (0, requested_cmpt q src ci ti cri, t)"
    if found: "finds (get_cntr_idx dev (mq_cnt_thres (qx_descq_conf q))) ci"
      "finds (get_tmr_idx dev (mq_timer_thres (qx_descq_conf q))) ti"
      "finds (get_ring_idx dev (mq_cmpt_ringsz (qx_descq_conf q))) cri"
  proof -
    obtain t1 where 1: "get_cntr_idx dev (mq_cnt_thres (qx_descq_conf q)) s = (0, ci, t1)" by (rule findsE [OF found(1)])
    obtain t2 where 2: "get_tmr_idx dev (mq_timer_thres (qx_descq_conf q)) t1 = (0, ti, t2)" by (rule findsE [OF found(2)])
    obtain t3 where 3: "get_ring_idx dev (mq_cmpt_ringsz (qx_descq_conf q)) t2 = (0, cri, t3)" by (rule findsE [OF found(3)])
    show ?thesis by (simp add: mbox_compose_cmpt_context_def 1 2 3 requested_cmpt_def zero_cmpt_ctxt_def Let_def)
  qed
qed

subsection \<open>Writing\<close>

text \<open>One access of a sequence, done or left out.\<close>

lemma then_step:
  assumes "b \<Longrightarrow> stores s k ws r"
  obtains t where "and_then (if b then r else (0, s)) f = f t"
    "ctxt_words t = (if b then (ctxt_words s)(k := ws) else ctxt_words s)"
proof (cases b)
  case True
  then obtain t where "r = (0, t)" "ctxt_words t = (ctxt_words s)(k := ws)" using assms stores_step by blast
  then show ?thesis using that True by (simp add: and_then_ok)
qed (use that in \<open>simp add: and_then_def\<close>)

lemmas then_done = then_step [where b = True, simplified]

lemma in_range_known:
  "qdma_dev_is_queue_in_range idx fid q rm = QDMA_DEV_Q_IN_RANGE \<Longrightarrow> fst (qdma_dev_qinfo_get idx fid 0 0 rm) = 0"
  by (auto simp: qdma_dev_is_queue_in_range_def qdma_dev_qinfo_get_def split: option.splits)

lemma clear_queue_words:
  assumes "ctxt_hw env" "c2h \<le> 1" "ty \<noteq> QDMA_MBOX_CMPT_CTXT_ONLY"
    and own: "qdma_dev_is_queue_in_range (uint idx) (uint fid) (uint qid) rm = QDMA_DEV_Q_IN_RANGE"
  obtains t where "mbox_clear_queue_contexts (Some env) idx fid qid st c2h ty rm s = (0, t)"
    "ctxt_words t (ctxt_key_of (hw_sel c2h) qid) = replicate 8 (Some 0)"
    "ctxt_words t (ctxt_key_of (cr_sel c2h) qid) = replicate 8 (Some 0)"
proof -
  note c = clear_stores [OF assms(1)]
  define k5 where "k5 = (\<lambda>s :: hw_log. (0 :: int, s))"
  define k4 where "k4 = (\<lambda>s. and_then (if with_cmpt ty then drop_ctxt (qdma_cmpt_ctx_conf (Some env) qid None QDMA_HW_ACCESS_CLEAR s) else (0, s)) k5)"
  define k3 where "k3 = (\<lambda>s. and_then (if st \<noteq> 0 \<and> c2h \<noteq> 0 then drop_ctxt (qdma_pfetch_ctx_conf (Some env) qid None QDMA_HW_ACCESS_CLEAR s) else (0, s)) k4)"
  define k2 where "k2 = (\<lambda>s. and_then (drop_ctxt (qdma_credit_ctx_conf (Some env) c2h qid None QDMA_HW_ACCESS_CLEAR s)) k3)"
  define k1 where "k1 = (\<lambda>s. and_then (drop_ctxt (qdma_hw_ctx_conf (Some env) c2h qid None QDMA_HW_ACCESS_CLEAR s)) k2)"
  have known: "fst (qdma_dev_qinfo_get (uint idx) (uint fid) 0 0 rm) = 0" using in_range_known [OF own] .
  have eq: "mbox_clear_queue_contexts (Some env) idx fid qid st c2h ty rm s =
      and_then (drop_ctxt (qdma_sw_ctx_conf (Some env) c2h qid None QDMA_HW_ACCESS_CLEAR s)) k1"
    using assms(3) own known
    by (simp add: mbox_clear_queue_contexts_def reset_queue_contexts_def k1_def k2_def k3_def k4_def k5_def)
  obtain t1 where t1: "mbox_clear_queue_contexts (Some env) idx fid qid st c2h ty rm s = k1 t1"
    unfolding eq by (rule then_done [where f = k1, OF c(1) [OF assms(2)]])
  obtain t2 where t2: "k1 t1 = k2 t2" "ctxt_words t2 = (ctxt_words t1)(ctxt_key_of (hw_sel c2h) qid := replicate 8 (Some 0))"
    unfolding k1_def by (rule then_done [where f = k2, OF c(2) [OF assms(2)]])
  obtain t3 where t3: "k2 t2 = k3 t3" "ctxt_words t3 = (ctxt_words t2)(ctxt_key_of (cr_sel c2h) qid := replicate 8 (Some 0))"
    unfolding k2_def by (rule then_done [where f = k3, OF c(3) [OF assms(2)]])
  obtain t4 where t4: "k3 t3 = k4 t4" "ctxt_words t4 =
      (if st \<noteq> 0 \<and> c2h \<noteq> 0 then (ctxt_words t3)(pf_key qid := replicate 8 (Some 0)) else ctxt_words t3)"
    unfolding k3_def by (rule then_step [where f = k4, OF c(4)])
  obtain t5 where t5: "k4 t4 = k5 t5" "ctxt_words t5 =
      (if with_cmpt ty then (ctxt_words t4)(cm_key qid := replicate 8 (Some 0)) else ctxt_words t4)"
    unfolding k4_def by (rule then_step [where f = k5, OF c(5)])
  have "mbox_clear_queue_contexts (Some env) idx fid qid st c2h ty rm s = (0, t5)"
    using t1 t2(1) t3(1) t4(1) t5(1) by (simp add: k5_def)
  then show ?thesis using that t2(2) t3(2) t4(2) t5(2) by (simp split: if_splits)
qed

text \<open>The request can be carried out: every value it names is one of the global ones.\<close>

definition request_found :: "hw_env \<Rightarrow> mbox_msg_qctxt \<Rightarrow> u16 \<Rightarrow> u16 \<Rightarrow> u8 \<Rightarrow> u8 \<Rightarrow> u16 \<Rightarrow> bool" where
  "request_found env q ri bi ci ti cri \<longleftrightarrow>
     (let conf = qx_descq_conf q; dev = Some env in
      finds (get_ring_idx dev (mq_ringsz conf)) ri \<and>
      (asks_st_c2h q \<longrightarrow> finds (get_buf_idx dev (mq_bufsz conf)) bi) \<and>
      (with_cmpt (qx_cmpt_ctxt_type q) \<longrightarrow>
         finds (get_cntr_idx dev (mq_cnt_thres conf)) ci \<and> finds (get_tmr_idx dev (mq_timer_thres conf)) ti \<and>
         finds (get_ring_idx dev (mq_cmpt_ringsz conf)) cri \<and>
         (ucast (mq_triggermode conf) :: u8) \<le> TRIG_MODE_TMR_CNTR))"

lemma write_queue_words:
  assumes hw: "ctxt_hw env" and ty: "qx_cmpt_ctxt_type q \<noteq> QDMA_MBOX_CMPT_CTXT_ONLY"
    and own: "qdma_dev_is_queue_in_range (uint idx) (uint src) (uint (qx_qid_hw q)) rm = QDMA_DEV_Q_IN_RANGE"
    and found: "request_found env q ri bi ci ti cri"
  obtains sw t where
    "mbox_write_queue_contexts (Some env) idx (q\<lparr>qx_descq_conf := (qx_descq_conf q)\<lparr>mq_func_id := src\<rparr>\<rparr>) rm s = (0, t)"
    "\<And>c. sw_stored sw c = sw_stored (requested_sw q src ri) c"
    "set_up (ucast (qx_c2h q)) (qx_qid_hw q) sw t"
    "asks_st_c2h q \<Longrightarrow> ctxt_words t (pf_key (qx_qid_hw q)) = map Some (pad_words (pfetch_ctxt_words (requested_prefetch q bi)))"
    "with_cmpt (qx_cmpt_ctxt_type q) \<Longrightarrow>
       ctxt_words t (cm_key (qx_qid_hw q)) = map Some (pad_words (cmpt_ctxt_words (requested_cmpt q src ci ti cri)))"
proof -
  let ?q = "q\<lparr>qx_descq_conf := (qx_descq_conf q)\<lparr>mq_func_id := src\<rparr>\<rparr>" and ?d = "Some env" and ?id = "qx_qid_hw q"
  let ?c2h = "ucast (qx_c2h q) :: u8" and ?ty = "qx_cmpt_ctxt_type q" and ?st = "asks_st_c2h q"
  let ?cm = "requested_cmpt q src ci ti cri" and ?pf = "requested_prefetch q bi"
  note f = found [unfolded request_found_def Let_def]
  have known: "fst (qdma_dev_qinfo_get (uint idx) (uint src) 0 0 rm) = 0" using in_range_known [OF own] .
  obtain sw t1 where 1: "mbox_compose_sw_context ?d ?q zero_sw_ctxt s = (0, sw, t1)"
    and sw: "\<And>c. sw_stored sw c = sw_stored (requested_sw q src ri) c"
    using compose_requested(1) [of "Some env" q ri src s] f by blast
  define pf where "pf = (if ?st then ?pf else zero_prefetch_ctxt)"
  obtain t2 where 2: "(if ?st then mbox_compose_prefetch_context ?d ?q zero_prefetch_ctxt t1
      else (0, zero_prefetch_ctxt, t1)) = (0, pf, t2)"
    using compose_requested(2) [of "Some env" q bi src t1] f by (cases ?st) (auto simp: pf_def)
  define cm where "cm = (if with_cmpt ?ty then ?cm else zero_cmpt_ctxt)"
  obtain t3 where 3: "(if with_cmpt ?ty then mbox_compose_cmpt_context ?d ?q zero_cmpt_ctxt t2
      else (0, zero_cmpt_ctxt, t2)) = (0, cm, t3)"
    using compose_requested(3) [of "Some env" q ci ti cri src t2] f by (cases "with_cmpt ?ty") (auto simp: cm_def)
  obtain t4 where 4: "mbox_clear_queue_contexts ?d idx src ?id (ucast (qx_st q)) ?c2h ?ty rm t3 = (0, t4)"
    "ctxt_words t4 (ctxt_key_of (hw_sel ?c2h) ?id) = replicate 8 (Some 0)"
    "ctxt_words t4 (ctxt_key_of (cr_sel ?c2h) ?id) = replicate 8 (Some 0)"
    by (rule clear_queue_words [OF hw bit_le_one ty own])
  define k7 where "k7 = (\<lambda>s :: hw_log. (0 :: int, s))"
  define k6 where "k6 = (\<lambda>s. and_then (if with_cmpt ?ty then drop_ctxt (qdma_cmpt_ctx_conf ?d ?id (Some cm) QDMA_HW_ACCESS_WRITE s) else (0, s)) k7)"
  define k5 where "k5 = (\<lambda>s. and_then (if ?st then drop_ctxt (qdma_pfetch_ctx_conf ?d ?id (Some pf) QDMA_HW_ACCESS_WRITE s) else (0, s)) k6)"
  note w = write_stores [OF hw]
  have trig: "with_cmpt ?ty \<Longrightarrow> cm_trig_mode cm \<le> TRIG_MODE_TMR_CNTR"
    using f by (simp add: cm_def requested_cmpt_def Let_def)
  have eq: "mbox_write_queue_contexts ?d idx ?q rm s =
      and_then (drop_ctxt (qdma_sw_ctx_conf ?d ?c2h ?id (Some sw) QDMA_HW_ACCESS_WRITE t4)) k5"
  proof -
    have "mbox_write_queue_contexts ?d idx ?q rm s =
      then_with (mbox_compose_sw_context ?d ?q zero_sw_ctxt s) (\<lambda>sw s.
      then_with (if ?st then mbox_compose_prefetch_context ?d ?q zero_prefetch_ctxt s
                 else (0, zero_prefetch_ctxt, s)) (\<lambda>pf s.
      then_with (if with_cmpt ?ty then mbox_compose_cmpt_context ?d ?q zero_cmpt_ctxt s
                 else (0, zero_cmpt_ctxt, s)) (\<lambda>cm s.
      and_then (mbox_clear_queue_contexts ?d idx src ?id (ucast (qx_st q)) ?c2h ?ty rm s) (\<lambda>s.
      and_then (drop_ctxt (qdma_sw_ctx_conf ?d ?c2h ?id (Some sw) QDMA_HW_ACCESS_WRITE s)) (\<lambda>s.
      and_then (if ?st then drop_ctxt (qdma_pfetch_ctx_conf ?d ?id (Some pf) QDMA_HW_ACCESS_WRITE s)
                else (0, s)) (\<lambda>s.
      and_then (if with_cmpt ?ty then drop_ctxt (qdma_cmpt_ctx_conf ?d ?id (Some cm) QDMA_HW_ACCESS_WRITE s)
                else (0, s)) (\<lambda>s. (0, s))))))))"
      using known own ty by (simp add: mbox_write_queue_contexts_def asks_st_c2h_def Let_def)
    also have "\<dots> = and_then (drop_ctxt (qdma_sw_ctx_conf ?d ?c2h ?id (Some sw) QDMA_HW_ACCESS_WRITE t4)) k5"
      by (simp only: 1 2 3 4(1) then_with_def fst_conv snd_conv less_irrefl if_False and_then_ok [OF refl]
          k5_def k6_def k7_def)
    finally show ?thesis .
  qed
  obtain t5 where 5: "mbox_write_queue_contexts ?d idx ?q rm s = k5 t5"
    "ctxt_words t5 = (ctxt_words t4)(ctxt_key_of (sw_sel ?c2h) ?id := map Some (pad_words (sw_ctxt_words sw)))"
    unfolding eq by (rule then_done [where f = k5, OF w(1) [OF bit_le_one]])
  obtain t6 where 6: "k5 t5 = k6 t6" "ctxt_words t6 =
      (if ?st then (ctxt_words t5)(pf_key ?id := map Some (pad_words (pfetch_ctxt_words pf))) else ctxt_words t5)"
    unfolding k5_def by (rule then_step [where f = k6, OF w(2)])
  obtain t7 where 7: "k6 t6 = k7 t7" "ctxt_words t7 =
      (if with_cmpt ?ty then (ctxt_words t6)(cm_key ?id := map Some (pad_words (cmpt_ctxt_words cm))) else ctxt_words t6)"
    unfolding k6_def by (rule then_step [where f = k7, OF w(3) [OF trig]])
  show ?thesis
  proof (rule that [of t7 sw])
    show "mbox_write_queue_contexts ?d idx ?q rm s = (0, t7)" using 5(1) 6(1) 7(1) by (simp add: k7_def)
    show "set_up ?c2h ?id sw t7" using 4(2,3) 5(2) 6(2) 7(2) by (simp add: set_up_def)
  qed (use sw 6(2) 7(2) in \<open>simp_all add: pf_def cm_def\<close>)
qed

subsection \<open>Reading\<close>

lemma read_queue_words:
  assumes hw: "ctxt_hw env" and c2h: "c2h \<le> 1" and up: "set_up c2h qid sw s" and ty: "\<not> with_cmpt ty"
    and pf: "st \<noteq> 0 \<and> c2h \<noteq> 0 \<Longrightarrow> ctxt_words s (pf_key qid) = map Some (pad_words (pfetch_ctxt_words pf))"
  shows "\<exists>t. mbox_read_queue_contexts (Some env) qid st c2h ty c s =
    (0, c\<lparr>dc_sw_ctxt := sw_stored sw (dc_sw_ctxt c), dc_hw_ctxt := zero_hw_ctxt, dc_cr_ctxt := zero_credit_ctxt,
          dc_pfetch_ctxt := (if st \<noteq> 0 \<and> c2h \<noteq> 0 then pfetch_stored pf (dc_pfetch_ctxt c) else dc_pfetch_ctxt c)\<rparr>, t)"
proof -
  have c: "\<not> c2h > 1" using c2h by simp
  have z: "ctxt_words s (ctxt_key_of (hw_sel c2h) qid) = map Some (pad_words [0, 0])"
    "ctxt_words s (ctxt_key_of (cr_sel c2h) qid) = map Some (pad_words [0])"
    using up by (simp_all add: set_up_def pad_words_def numeral_eq_Suc)
  obtain rv1 d1 t1 where r1: "qdma_indirect_reg_read env (sw_sel c2h) qid 5 s = (rv1, d1, t1)" by (metis prod_cases3)
  have k1: "rv1 = 0 \<and> d1 = Some (sw_ctxt_words sw) \<and> ctxt_words t1 = ctxt_words s"
    using ind_ctxt.read_known [OF hw _ _ _ r1, of "sw_ctxt_words sw"] sw_ctxt.pack_length [of sw] up
    by (simp add: set_up_def)
  obtain rv2 d2 t2 where r2: "qdma_indirect_reg_read env (hw_sel c2h) qid 2 t1 = (rv2, d2, t2)" by (metis prod_cases3)
  have k2: "rv2 = 0 \<and> d2 = Some [0, 0] \<and> ctxt_words t2 = ctxt_words s"
    using ind_ctxt.read_known [OF hw _ _ _ r2, of "[0, 0]"] z(1) k1 by simp
  obtain rv3 d3 t3 where r3: "qdma_indirect_reg_read env (cr_sel c2h) qid 1 t2 = (rv3, d3, t3)" by (metis prod_cases3)
  have k3: "rv3 = 0 \<and> d3 = Some [0] \<and> ctxt_words t3 = ctxt_words s"
    using ind_ctxt.read_known [OF hw _ _ _ r3, of "[0]"] z(2) k2 by simp
  have zero: "hw_ctxt_unpack [0, 0] h = zero_hw_ctxt" "credit_ctxt_unpack [0] cr = zero_credit_ctxt" for h cr
    by (simp_all add: hw_ctxt_unpack_def zero_hw_ctxt_def credit_ctxt_unpack_def zero_credit_ctxt_def FIELD_GET_def)
  have s1: "qdma_sw_ctx_conf (Some env) c2h qid (Some (dc_sw_ctxt c)) QDMA_HW_ACCESS_READ s =
      (0, Some (sw_stored sw (dc_sw_ctxt c)), t1)"
    using k1 r1 c by (simp add: qdma_sw_ctx_conf_def qdma_sw_context_read_def sw_sel_def sw_pack)
  have s2: "qdma_hw_ctx_conf (Some env) c2h qid (Some (dc_hw_ctxt c)) QDMA_HW_ACCESS_READ t1 =
      (0, Some zero_hw_ctxt, t2)"
    using k2 r2 c by (simp add: qdma_hw_ctx_conf_def qdma_hw_context_read_def hw_sel_def zero)
  have s3: "qdma_credit_ctx_conf (Some env) c2h qid (Some (dc_cr_ctxt c)) QDMA_HW_ACCESS_READ t2 =
      (0, Some zero_credit_ctxt, t3)"
    using k3 r3 c by (simp add: qdma_credit_ctx_conf_def qdma_credit_context_read_def cr_sel_def zero)
  obtain t4 where s4: "(if st \<noteq> 0 \<and> c2h \<noteq> 0
        then qdma_pfetch_ctx_conf (Some env) qid (Some (dc_pfetch_ctxt c)) QDMA_HW_ACCESS_READ t3
        else (0, Some (dc_pfetch_ctxt c), t3)) =
      (0, Some (if st \<noteq> 0 \<and> c2h \<noteq> 0 then pfetch_stored pf (dc_pfetch_ctxt c) else dc_pfetch_ctxt c), t4)"
  proof (cases "st \<noteq> 0 \<and> c2h \<noteq> 0")
    case True
    obtain rv d t where r: "qdma_indirect_reg_read env QDMA_CTXT_SEL_PFTCH qid 2 t3 = (rv, d, t)" by (metis prod_cases3)
    have "rv = 0 \<and> d = Some (pfetch_ctxt_words pf)"
      using ind_ctxt.read_known [OF hw _ _ _ r, of "pfetch_ctxt_words pf"] pfetch_ctxt.pack_length [of pf] pf [OF True] k3
      by simp
    then have "qdma_pfetch_ctx_conf (Some env) qid (Some (dc_pfetch_ctxt c)) QDMA_HW_ACCESS_READ t3 =
        (0, Some (pfetch_stored pf (dc_pfetch_ctxt c)), t)"
      using r by (simp add: qdma_pfetch_ctx_conf_def qdma_pfetch_context_read_def pfetch_pack)
    then show ?thesis using that [of t] True by (simp only: if_True simp_thms)
  qed (use that [of t3] in \<open>simp only: if_False\<close>)
  show ?thesis
    unfolding mbox_read_queue_contexts_def Let_def s1 s2 s3 s4 prod.case if_not_P [OF ty]
    by (simp add: keep_ctxt_def s4)
qed

subsection \<open>The queue as a whole\<close>

lemma read_bits: "((ucast (b :: 1 word) :: u8) \<noteq> 0 \<and> (ucast (c :: 1 word) :: u8) \<noteq> 0) = (b \<noteq> 0 \<and> c \<noteq> 0)"
proof -
  have "((ucast (x :: 1 word) :: u8) = 0) = (x = 0)" for x
  proof -
    have "x = 0 \<or> x = 1" using unsigned_less [where 'a = nat, of x] by (auto simp: word_unat_eq_iff)
    then show ?thesis by auto
  qed
  then show ?thesis by simp
qed

text \<open>
  C16: A queue set up through the mailbox is what the request asks for. On a device that
  behaves as documented, busy phases included, when a function writes the contexts of a queue
  of its own, memory-mapped or streaming, in either direction, alone or with a completion
  context, and every size, threshold and timer value of the request is found in the global
  arrays, whatever has been done to the device, and the trigger mode is a valid one, the
  handler answers with status 0. The completion context then holds the requested one, and a
  later request to read the queue without its completion context is answered with the
  requested software context, every field of it, owned by the sender whatever function number
  the request claims, with cleared hardware and credit contexts, and for a streaming
  card-to-host queue with the requested prefetch context, each field cut to its width in the
  hardware.
\<close>

theorem mailbox_queue_setup:
  assumes "ctxt_hw env" "sender_owns idx m rm"
    and "h_op (m_hdr m) = MBOX_OP_QCTXT_WRT" "qx_cmpt_ctxt_type (m_qctxt m) \<noteq> QDMA_MBOX_CMPT_CTXT_ONLY"
    and "request_found env (m_qctxt m) ri bi ci ti cri"
    and "h_op (m_hdr m') = MBOX_OP_QCTXT_RD" "qx_cmpt_ctxt_type (m_qctxt m') = QDMA_MBOX_CMPT_CTXT_NONE"
      "qx_qid_hw (m_qctxt m') = qx_qid_hw (m_qctxt m)" "qx_st (m_qctxt m') = qx_st (m_qctxt m)"
      "qx_c2h (m_qctxt m') = qx_c2h (m_qctxt m)"
  shows "\<exists>resp1 s2 resp2 s3.
    qdma_mbox_pf_rcv_msg_handler (Some env) al idx fid (Some m) resp rm s = Some (0, resp1, rm, s2) \<and>
    h_status (m_hdr resp1) = 0 \<and>
    (with_cmpt (qx_cmpt_ctxt_type (m_qctxt m)) \<longrightarrow>
      ctxt_words s2 (ctxt_key_of QDMA_CTXT_SEL_CMPT (qx_qid_hw (m_qctxt m))) =
        map Some (pad_words (cmpt_ctxt_words (requested_cmpt (m_qctxt m) (h_src (m_hdr m)) ci ti cri)))) \<and>
    qdma_mbox_pf_rcv_msg_handler (Some env) al idx fid (Some m') resp rm s2 = Some (0, resp2, rm, s3) \<and>
    h_status (m_hdr resp2) = 0 \<and>
    (let c = qx_descq_ctxt (m_qctxt resp) in
     qx_descq_ctxt (m_qctxt resp2) =
       c\<lparr>dc_sw_ctxt := sw_stored (requested_sw (m_qctxt m) (h_src (m_hdr m)) ri) (dc_sw_ctxt c),
         dc_hw_ctxt := zero_hw_ctxt, dc_cr_ctxt := zero_credit_ctxt,
         dc_pfetch_ctxt := (if asks_st_c2h (m_qctxt m)
           then pfetch_stored (requested_prefetch (m_qctxt m) bi) (dc_pfetch_ctxt c) else dc_pfetch_ctxt c)\<rparr>)"
proof -
  let ?q = "m_qctxt m" and ?src = "h_src (m_hdr m)" and ?c = "qx_descq_ctxt (m_qctxt resp)"
  let ?q1 = "?q\<lparr>qx_descq_conf := (qx_descq_conf ?q)\<lparr>mq_func_id := ?src\<rparr>\<rparr>"
  have own: "qdma_dev_is_queue_in_range (uint idx) (uint ?src) (uint (qx_qid_hw ?q)) rm = QDMA_DEV_Q_IN_RANGE"
    using assms(2) by (simp add: sender_owns_def)
  obtain sw t where w: "mbox_write_queue_contexts (Some env) idx ?q1 rm s = (0, t)"
    "\<And>c. sw_stored sw c = sw_stored (requested_sw ?q ?src ri) c" "set_up (ucast (qx_c2h ?q)) (qx_qid_hw ?q) sw t"
    "asks_st_c2h ?q \<Longrightarrow> ctxt_words t (pf_key (qx_qid_hw ?q)) = map Some (pad_words (pfetch_ctxt_words (requested_prefetch ?q bi)))"
    "with_cmpt (qx_cmpt_ctxt_type ?q) \<Longrightarrow>
       ctxt_words t (cm_key (qx_qid_hw ?q)) = map Some (pad_words (cmpt_ctxt_words (requested_cmpt ?q ?src ci ti cri)))"
    by (rule write_queue_words [OF assms(1,4) own assms(5), where s = s]) (rule that)
  have h1: "qdma_mbox_pf_rcv_msg_handler (Some env) al idx fid (Some m) resp rm s =
      Some (0, ps_resp (fill_response fid 0 \<lparr>ps_rcv = m\<lparr>m_qctxt := ?q1\<rparr>, ps_resp = resp, ps_rm = rm, ps_log = t\<rparr>), rm, t)"
    using assms(3) by (simp add: handler_answered dispatch_qctxt op_qctxt_write_def src_of_def w(1) Let_def)
  have ty: "\<not> with_cmpt QDMA_MBOX_CMPT_CTXT_NONE" by (simp add: with_cmpt_def cmpt_ctxt_type_defs)
  have pf: "ctxt_words t (pf_key (qx_qid_hw ?q)) = map Some (pad_words (pfetch_ctxt_words (requested_prefetch ?q bi)))"
    if "(ucast (qx_st ?q) :: u8) \<noteq> 0 \<and> (ucast (qx_c2h ?q) :: u8) \<noteq> 0"
    using w(4) that [unfolded read_bits] unfolding asks_st_c2h_def by blast
  let ?c2 = "?c\<lparr>dc_sw_ctxt := sw_stored (requested_sw ?q ?src ri) (dc_sw_ctxt ?c), dc_hw_ctxt := zero_hw_ctxt,
      dc_cr_ctxt := zero_credit_ctxt, dc_pfetch_ctxt := (if asks_st_c2h ?q
        then pfetch_stored (requested_prefetch ?q bi) (dc_pfetch_ctxt ?c) else dc_pfetch_ctxt ?c)\<rparr>"
  obtain t' where r: "mbox_read_queue_contexts (Some env) (qx_qid_hw ?q) (ucast (qx_st ?q)) (ucast (qx_c2h ?q))
      QDMA_MBOX_CMPT_CTXT_NONE ?c t = (0, ?c2, t')"
    using read_queue_words [OF assms(1) bit_le_one w(3) ty pf, of "ucast (qx_st ?q)" ?c]
    unfolding read_bits asks_st_c2h_def w(2) by blast
  have op: "h_op (m_hdr (ps_rcv \<lparr>ps_rcv = m', ps_resp = resp, ps_rm = rm, ps_log = t\<rparr>)) = MBOX_OP_QCTXT_RD"
    using assms(6) by simp
  have "exit_opt (op_qctxt_read (Some env) \<lparr>ps_rcv = m', ps_resp = resp, ps_rm = rm, ps_log = t\<rparr>) =
      exit_with 0 (0, \<lparr>ps_rcv = m', ps_resp = resp\<lparr>m_qctxt := (m_qctxt resp)\<lparr>qx_descq_ctxt := ?c2\<rparr>\<rparr>, ps_rm = rm, ps_log = t'\<rparr>)"
    using op_qctxt_read_plain [of "\<lparr>ps_rcv = m', ps_resp = resp, ps_rm = rm, ps_log = t\<rparr>" "Some env" 0 ?c2 t'] assms(7-10) ty r
    by simp
  note h2 = handler_answered [OF trans [OF dispatch_qctxt(4) [OF op] this], where fid = fid]
  show ?thesis
    by (intro exI conjI, rule h1, simp add: fill_response_def, intro impI, erule w(5), simp only: h2 fst_conv snd_conv,
        simp, (simp add: fill_response_def Let_def)+)
qed

text \<open>A documented device that holds the default arrays of the driver.\<close>

definition array_hw :: hw_env where
  "array_hw s a = (if ctxt_reg a then ref_hw s a else default_hw a)"

lemma array_hw_ok: "ctxt_hw array_hw"
proof (rule ctxt_hw_other_regs [OF ref_hw_ok])
  fix s a
  assume "a \<in> insert QDMA_OFFSET_IND_CTXT_CMD (set data_addrs)"
  then have "ctxt_reg a"
    by (auto simp: ctxt_reg_def data_addrs_def QDMA_OFFSET_IND_CTXT_CMD_def QDMA_OFFSET_IND_CTXT_DATA_def)
  then show "array_hw s a = ref_hw s a" by (simp add: array_hw_def)
qed

lemma read_regs_same:
  assumes "\<And>i t. i < n \<Longrightarrow> env t (a + 4 * of_nat i) = f (a + 4 * of_nat i)"
  shows "fst (read_regs env a n s) = map (\<lambda>i. f (a + 4 * of_nat i)) [0..<n]"
  using assms
proof (induction n arbitrary: a s)
  case (Suc n)
  have "fst (read_regs env (a + 4) n s') = map (\<lambda>i. f (a + 4 + 4 * of_nat i)) [0..<n]" for s'
    using Suc.prems [of "Suc i" for i] by (intro Suc.IH) (simp add: ac_simps)
  moreover have "env s a = f a" using Suc.prems [of 0] by simp
  moreover have "map (\<lambda>i. f (a + 4 * of_nat i)) [0..<Suc n] = f a # map (\<lambda>i. f (a + 4 + 4 * of_nat i)) [0..<n]"
    by (simp add: upt_conv_Cons map_Suc_upt [symmetric] ac_simps del: upt_Suc)
  ultimately show ?case by (simp add: qdma_reg_read_def case_prod_unfold Let_def)
qed simp

lemma array_addrs:
  "list_all (\<lambda>a. \<not> ctxt_reg a) cap_addrs"
  "list_all (\<lambda>t. list_all (\<lambda>i. \<not> ctxt_reg (csr_base t + 4 * of_nat i)) [0..<16])
     [QDMA_CSR_RING_SZ, QDMA_CSR_TIMER_CNT, QDMA_CSR_CNT_TH, QDMA_CSR_BUF_SZ]"
  by code_simp+

lemma array_caps: "fixed_caps array_hw" "caps array_hw = caps (\<lambda>_. default_hw)"
proof -
  have "array_hw s a = default_hw a" if "a \<in> set cap_addrs" for s a
    using array_addrs(1) that by (simp add: array_hw_def list_all_iff)
  then have c: "array_hw s QDMA_OFFSET_GLBL2_PF_BARLITE_INT = default_hw QDMA_OFFSET_GLBL2_PF_BARLITE_INT"
    "array_hw s QDMA_OFFSET_GLBL2_CHANNEL_QDMA_CAP = default_hw QDMA_OFFSET_GLBL2_CHANNEL_QDMA_CAP"
    "array_hw s QDMA_OFFSET_GLBL2_MISC_CAP = default_hw QDMA_OFFSET_GLBL2_MISC_CAP"
    "array_hw s QDMA_OFFSET_GLBL2_CHANNEL_MDMA = default_hw QDMA_OFFSET_GLBL2_CHANNEL_MDMA" for s
    by (simp_all add: cap_addrs_def)
  show "fixed_caps array_hw" by (simp add: fixed_caps_def cap_addrs_def c)
  show "caps array_hw = caps (\<lambda>_. default_hw)"
    by (simp only: caps_def read_dev_attributes_def qdma_reg_read_def Let_def prod.case fst_conv c)
qed

lemma array_read:
  assumes "t \<in> {QDMA_CSR_RING_SZ, QDMA_CSR_TIMER_CNT, QDMA_CSR_CNT_TH, QDMA_CSR_BUF_SZ}"
  shows "\<exists>s1. qdma_global_csr_conf (Some array_hw) 0 16 (Some (replicate 16 0)) t QDMA_HW_ACCESS_READ s =
    (0, Some (map (\<lambda>i. default_hw (csr_base t + 4 * of_nat i)) [0..<16]), s1)"
proof -
  have "csr_supported (fst (read_dev_attributes array_hw s)) t"
    using assms default_caps by (auto simp: read_dev_attributes_caps [OF array_caps(1)] array_caps(2))
  moreover have "fst (read_regs array_hw (csr_base t) 16 u) = map (\<lambda>i. default_hw (csr_base t + 4 * of_nat i)) [0..<16]" for u
  proof (rule read_regs_same)
    show "array_hw v (csr_base t + 4 * of_nat i) = default_hw (csr_base t + 4 * of_nat i)" if "i < 16" for i v
      using array_addrs(2) assms that by (auto simp: array_hw_def list_all_iff)
  qed
  ultimately show ?thesis
    using assms by (auto simp: csr_conf_read qdma_read_csr_values_def case_prod_unfold Let_def simp del: upt_Suc)
qed

lemma array_arrays: "arrays_known array_hw default_csr"
  using array_read [of QDMA_CSR_RING_SZ] array_read [of QDMA_CSR_TIMER_CNT] array_read [of QDMA_CSR_CNT_TH]
    array_read [of QDMA_CSR_BUF_SZ]
  unfolding arrays_known_def default_values by (simp add: default_length)

text \<open>The message of a streaming card-to-host queue of function 9, and the request that reads it.\<close>

definition setup_demo :: qdma_mbox_txrx where
  "setup_demo = vf_setup_msg (vf_queue\<lparr>dq_qidx_hw := 30\<rparr>)"

definition read_demo :: qdma_mbox_txrx where
  "read_demo = set_qctxt 30 1 1 QDMA_MBOX_CMPT_CTXT_NONE
     (zero_msg\<lparr>m_hdr := \<lparr>h_op = MBOX_OP_QCTXT_RD, h_status = 0, h_src = 9, h_dst = 0\<rparr>\<rparr>)"

lemma setup_demo_values:
  "m_hdr setup_demo = \<lparr>h_op = MBOX_OP_QCTXT_WRT, h_status = 0, h_src = 9, h_dst = 0\<rparr>"
  "qx_cmpt_ctxt_type (m_qctxt setup_demo) = QDMA_MBOX_CMPT_WITH_ST" "qx_qid_hw (m_qctxt setup_demo) = 30"
  "qx_st (m_qctxt setup_demo) = 1" "qx_c2h (m_qctxt setup_demo) = 1"
  "mq_ringsz (qx_descq_conf (m_qctxt setup_demo)) = ucast (192 :: u32)"
  "mq_bufsz (qx_descq_conf (m_qctxt setup_demo)) = ucast (512 :: u32)"
  "mq_cmpt_ringsz (qx_descq_conf (m_qctxt setup_demo)) = ucast (256 :: u32)"
  "mq_cnt_thres (qx_descq_conf (m_qctxt setup_demo)) = ucast (gc_c2h_cnt_th default_csr ! 5)"
  "mq_timer_thres (qx_descq_conf (m_qctxt setup_demo)) = ucast (gc_c2h_timer_cnt default_csr ! 6)"
  "(ucast (mq_triggermode (qx_descq_conf (m_qctxt setup_demo))) :: u8) \<le> TRIG_MODE_TMR_CNTR"
  by code_simp+

lemma demo_indices:
  "(192 :: u32) + 1 = gc_ring_sz default_csr ! unat (3 :: 4 word)" "first_at (gc_ring_sz default_csr) 3"
  "(512 :: u32) = gc_c2h_buf_sz default_csr ! unat (2 :: 4 word)" "first_at (gc_c2h_buf_sz default_csr) 2"
  "(256 :: u32) + 1 = gc_ring_sz default_csr ! unat (4 :: 4 word)" "first_at (gc_ring_sz default_csr) 4"
  "gc_c2h_cnt_th default_csr ! 5 = gc_c2h_cnt_th default_csr ! unat (5 :: 4 word)" "first_at (gc_c2h_cnt_th default_csr) 5"
  "gc_c2h_timer_cnt default_csr ! 6 = gc_c2h_timer_cnt default_csr ! unat (6 :: 4 word)" "first_at (gc_c2h_timer_cnt default_csr) 6"
  "gc_c2h_cnt_th default_csr ! 5 < 256" "gc_c2h_timer_cnt default_csr ! 6 < 256"
  by code_simp+

lemma setup_demo_found: "request_found array_hw (m_qctxt setup_demo) 3 2 5 6 4"
  unfolding request_found_def finds_def Let_def setup_demo_values(6-10)
  using lookups(1) [OF array_arrays demo_indices(1) _ demo_indices(2)]
    lookups(2) [OF array_arrays demo_indices(3) _ demo_indices(4)]
    lookups(1) [OF array_arrays demo_indices(5) _ demo_indices(6)]
    lookups(3) [OF array_arrays demo_indices(7,11,8)] lookups(4) [OF array_arrays demo_indices(9,12,10)]
    setup_demo_values(11)
  by simp

theorem mailbox_queue_setup_witness:
  "\<exists>resp1 s2 resp2 s3.
    qdma_mbox_pf_rcv_msg_handler (Some array_hw) (\<lambda>_. True) 0 0 (Some setup_demo) zero_msg demo_rm [] =
      Some (0, resp1, demo_rm, s2) \<and>
    ctxt_words s2 (ctxt_key_of QDMA_CTXT_SEL_CMPT 30) =
      map Some (pad_words (cmpt_ctxt_words (requested_cmpt (m_qctxt setup_demo) 9 5 6 4))) \<and>
    qdma_mbox_pf_rcv_msg_handler (Some array_hw) (\<lambda>_. True) 0 0 (Some read_demo) zero_msg demo_rm s2 =
      Some (0, resp2, demo_rm, s3) \<and>
    (let c = qx_descq_ctxt (m_qctxt resp2) in
     sw_ring_bs_addr (dc_sw_ctxt c) = 0x12345000 \<and> sw_fnc_id (dc_sw_ctxt c) = 9 \<and> sw_rngsz_idx (dc_sw_ctxt c) = 3 \<and>
     sw_is_mm (dc_sw_ctxt c) = 0 \<and> pf_bufsz_idx (dc_pfetch_ctxt c) = 2)"
proof -
  have own: "sender_owns 0 setup_demo demo_rm"
    unfolding sender_owns_def demo_rm_value setup_demo_values by code_simp
  have rd: "h_op (m_hdr read_demo) = MBOX_OP_QCTXT_RD" "qx_cmpt_ctxt_type (m_qctxt read_demo) = QDMA_MBOX_CMPT_CTXT_NONE"
    "qx_qid_hw (m_qctxt read_demo) = qx_qid_hw (m_qctxt setup_demo)" "qx_st (m_qctxt read_demo) = qx_st (m_qctxt setup_demo)"
    "qx_c2h (m_qctxt read_demo) = qx_c2h (m_qctxt setup_demo)"
    unfolding setup_demo_values by (simp_all add: read_demo_def set_qctxt_def)
  have wr: "h_op (m_hdr setup_demo) = MBOX_OP_QCTXT_WRT" "qx_cmpt_ctxt_type (m_qctxt setup_demo) \<noteq> QDMA_MBOX_CMPT_CTXT_ONLY"
    unfolding setup_demo_values by (simp_all add: cmpt_ctxt_type_defs)
  have v: "with_cmpt (qx_cmpt_ctxt_type (m_qctxt setup_demo))" "asks_st_c2h (m_qctxt setup_demo)" "h_src (m_hdr setup_demo) = 9"
    by (simp_all add: setup_demo_values with_cmpt_def asks_st_c2h_def)
  have f: "sw_ring_bs_addr (sw_stored (requested_sw (m_qctxt setup_demo) 9 3) zero_sw_ctxt) = 0x12345000"
    "sw_fnc_id (sw_stored (requested_sw (m_qctxt setup_demo) 9 3) zero_sw_ctxt) = 9"
    "sw_rngsz_idx (sw_stored (requested_sw (m_qctxt setup_demo) 9 3) zero_sw_ctxt) = 3"
    "sw_is_mm (sw_stored (requested_sw (m_qctxt setup_demo) 9 3) zero_sw_ctxt) = 0"
    "pf_bufsz_idx (pfetch_stored (requested_prefetch (m_qctxt setup_demo) 2) zero_prefetch_ctxt) = 2"
    by code_simp+
  have z: "qx_descq_ctxt (m_qctxt zero_msg) = zero_descq_context" by (simp add: zero_msg_def)
  show ?thesis
    using mailbox_queue_setup [OF array_hw_ok own wr setup_demo_found rd, of "\<lambda>_. True" 0 zero_msg "[]"] v f
    by (auto simp: z zero_descq_context_def setup_demo_values(3) Let_def)
qed

end
