(* ===== verification/Descq_Safety.thy ===== *)
theory Descq_Safety
  imports Descq_Submit
begin

text \<open>
  A descriptor queue over its life (\<^verbatim>\<open>libqdma/qdma_descq.c\<close>, \<^verbatim>\<open>libqdma/libqdma_export.c\<close>): requests
  come in, the queue is serviced, and callers that waited go on, in any order. Every descriptor the
  hardware holds describes memory of a request that is still waiting for it.
\<close>

subsection \<open>Changes outside the lists\<close>

definition same_except :: "nat \<Rightarrow> qdma_descq \<Rightarrow> qdma_descq \<Rightarrow> bool" where
  "same_except i t s \<longleftrightarrow> same_ring t s \<and> dq_credit t = dq_credit s \<and> dq_pend_list t = dq_pend_list s \<and>
     (\<forall>j. j \<noteq> i \<longrightarrow> dq_req t j = dq_req s j)"

lemma same_except_refl [simp]: "same_except i s s"
  by (simp add: same_except_def same_ring_def)

lemma same_except_trans: "same_except i u t \<Longrightarrow> same_except i t s \<Longrightarrow> same_except i u s"
  by (simp add: same_except_def same_ring_def)

lemma except_sel:
  assumes "same_except i t s" "i \<notin> set (listed s)"
  shows "listed t = listed s" "owners t = owners s" "inflight t = inflight s" "j \<in> set (listed s) \<Longrightarrow> dq_req t j = dq_req s j"
proof -
  show l: "listed t = listed s" and "inflight t = inflight s"
    using assms(1) by (simp_all add: same_except_def same_ring_def listed_def inflight_def)
  show r: "dq_req t j = dq_req s j" if "j \<in> set (listed s)" for j
    using assms that by (auto simp: same_except_def)
  show "owners t = owners s" unfolding owners_def l using r by (intro copies_cong) simp
qed

lemma except_queue_ok:
  assumes "same_except i t s" "i \<notin> set (listed s)" "queue_ok v s"
  shows "queue_ok v t"
proof -
  note e = except_sel [OF assms(1,2)]
  have w: "j \<in> set (listed s)" if "j \<in> set (dq_work_list s) \<or> j \<in> set (dq_pend_list s)" for j
    using that by (auto simp: listed_def)
  have tlw: "set (tl (dq_work_list s)) \<subseteq> set (listed s)"
    by (cases "dq_work_list s") (auto simp: listed_def)
  have b: "books_ok s" using assms(3) by (simp add: queue_ok_def)
  have "listed s \<noteq> [] \<Longrightarrow> desc_nr t (hd (listed s)) = desc_nr s (hd (listed s))" using e(4) by simp
  moreover have "dq_pend_list s \<noteq> [] \<Longrightarrow> desc_nr t (hd (dq_pend_list s)) = desc_nr s (hd (dq_pend_list s))"
    using e(4) [of "hd (dq_pend_list s)"] by (simp add: listed_def)
  ultimately have "books_ok t"
    using b assms(1) e w tlw unfolding books_ok_def same_except_def same_ring_def by (auto simp: subset_iff)
  moreover have "owned v t"
    unfolding owned_def
  proof (intro allI impI)
    fix k assume k: "k < inflight t"
    let ?o = "owners s ! (unat (dq_credit s) + k)"
    have "unat (dq_credit s) + k < length (owners s)" using b k e(3) by (simp add: books_ok_def)
    then have "?o \<in> set (listed s)" using set_copies nth_mem unfolding owners_def by blast
    then show "inside (rq_sgl (dq_req t (owners t ! (unat (dq_credit t) + k)))) (v ! ((unat (dq_cidx t) + k) mod rng t))"
      using assms(1,3) k e by (auto simp: queue_ok_def owned_def same_except_def same_ring_def)
  qed
  ultimately show ?thesis using assms(1,3) by (auto simp: queue_ok_def same_except_def same_ring_def)
qed

subsection \<open>Mapping\<close>

lemma map_lens:
  "sgl_map_from pm done sgs = (rv, sgl, un) \<Longrightarrow>
     (rv < 0 \<or> map sg_len sgl = map sg_len (done @ sgs)) \<and> (rv = 0 \<or> rv = - EIO)"
proof (induction pm "done" sgs arbitrary: rv sgl un rule: sgl_map_from.induct)
  case (2 pm "done" sg sgs)
  obtain a err where p: "pm (sg_pg sg) = (a, err)" by force
  show ?case
  proof (cases err)
    case True
    then show ?thesis using "2.prems" p by (auto simp: EIO_def Let_def)
  next
    case False
    then show ?thesis using "2.IH" [OF p [symmetric] refl False] "2.prems" p by (auto simp: Let_def)
  qed
qed auto

lemma req_ok_lens:
  assumes "map sg_len (rq_sgl r') = map sg_len (rq_sgl r)" "rq_count r' = rq_count r"
  shows "req_ok r' = req_ok r"
proof -
  have t: "sg_total sgl = sum_list (map unat (map sg_len sgl))" for sgl by (simp add: sg_total_def)
  have z: "(\<forall>sg\<in>set sgl. sg_len sg \<noteq> 0) = (0 \<notin> set (map sg_len sgl))" for sgl by force
  have "length (rq_sgl r') = length (rq_sgl r)" using arg_cong [OF assms(1), of length] by simp
  then show ?thesis unfolding req_ok_def t z assms by simp
qed

text \<open>A request as a caller makes it, with its call-back data cleared.\<close>

definition new_req :: "qdma_request \<Rightarrow> bool" where
  "new_req r \<longleftrightarrow> req_ok r \<and> cb_desc_nr r = 0 \<and> cb_offset r = 0 \<and> \<not> cb_done r"

lemma new_req_in_work: "new_req r \<Longrightarrow> in_work r"
  by (auto simp: new_req_def in_work_def word_neq_0_conv)

lemma reset_new: "req_ok r \<Longrightarrow> new_req (reset_cb r)"
  by (simp add: new_req_def reset_cb_def req_ok_def)

lemma map_request_ok:
  assumes "map_request e i s = (rv, t)"
  shows "same_except i t s" "rq_ep_addr (dq_req t i) = rq_ep_addr (dq_req s i)"
    "0 \<le> rv \<Longrightarrow> new_req (dq_req s i) \<Longrightarrow> new_req (dq_req t i)"
proof -
  obtain rv1 sgl un where m: "sgl_map (de_map e) (rq_sgl (dq_req s i)) = (rv1, sgl, un)" by (cases "sgl_map (de_map e) (rq_sgl (dq_req s i))")
  then have l: "rv1 < 0 \<or> map sg_len sgl = map sg_len (rq_sgl (dq_req s i))"
    using map_lens [of "de_map e" "[]"] by (auto simp: sgl_map_def)
  let ?r = "(dq_req s i)\<lparr>rq_sgl := sgl, cb_unmap_needed := (0 \<le> rv1)\<rparr>"
  have "0 \<le> rv1 \<Longrightarrow> req_ok ?r = req_ok (dq_req s i)" using l by (intro req_ok_lens) simp_all
  moreover have "cb_desc_nr ?r = cb_desc_nr (dq_req s i)" "cb_offset ?r = cb_offset (dq_req s i)" "cb_done ?r = cb_done (dq_req s i)" by simp_all
  ultimately have "0 \<le> rv1 \<Longrightarrow> new_req (dq_req s i) \<Longrightarrow> new_req ?r" by (simp add: new_req_def)
  then show "same_except i t s" "rq_ep_addr (dq_req t i) = rq_ep_addr (dq_req s i)"
    "0 \<le> rv \<Longrightarrow> new_req (dq_req s i) \<Longrightarrow> new_req (dq_req t i)"
    using assms m by (auto simp: map_request_def upd_req_def same_except_def same_ring_def split: if_splits)
qed

lemma unmap_except: "same_except i (unmap_unless_mapped i s) s"
  by (simp add: unmap_unless_mapped_def unmap_req_def upd_req_def same_except_def same_ring_def Let_def)

subsection \<open>Joining the work list\<close>

lemma add_books:
  assumes "books_ok s" "i \<notin> set (listed s)" "new_req (dq_req s i)"
  shows "books_ok (qdma_work_queue_add i s)"
proof -
  let ?t = "qdma_work_queue_add i s"
  have sel: "dq_conf ?t = dq_conf s" "dq_pidx ?t = dq_pidx s" "dq_cidx ?t = dq_cidx s" "dq_avail ?t = dq_avail s"
    "dq_credit ?t = dq_credit s" "dq_req ?t = dq_req s" "dq_pend_list ?t = dq_pend_list s" "dq_work_list ?t = dq_work_list s @ [i]"
    by (simp_all add: qdma_work_queue_add_def)
  have l: "listed ?t = listed s @ [i]" by (simp add: listed_def sel)
  have n: "req_ok (dq_req s i)" "cb_desc_nr (dq_req s i) = 0" "cb_offset (dq_req s i) = 0"
    using assms(3) by (simp_all add: new_req_def)
  have "owners ?t = owners s" using n(2) by (simp add: owners_def l sel)
  moreover have f: "inflight ?t = inflight s" by (simp add: inflight_def sel)
  moreover have "unat (dq_credit s) = 0" if "listed s = []" using assms(1) that by (simp add: books_ok_def owners_def)
  then have "unat (dq_credit s) \<le> desc_nr s (hd (listed s @ [i]))"
    using assms(1) by (cases "listed s") (simp_all add: books_ok_def)
  moreover have "\<forall>j\<in>set (tl (dq_work_list s @ [i])). cb_desc_nr (dq_req s j) = 0 \<and> cb_offset (dq_req s j) = 0"
    using assms(1) n by (cases "dq_work_list s") (auto simp: books_ok_def)
  ultimately show ?thesis
    using assms(1,2) n(1) new_req_in_work [OF assms(3)] unfolding books_ok_def l by (simp add: sel)
qed

locale queue_kind = request_engine +
  fixes C :: "qdma_queue_conf \<Rightarrow> bool"
  assumes proc_keeps: "hw_ok e \<Longrightarrow> C (dq_conf s) \<Longrightarrow> engine_ok s \<Longrightarrow>
    \<exists>rv t. qdma_descq_proc_sgt_request e s = Some (Some (rv, t)) \<and> engine_ok t \<and> follows s t"
begin

definition kind_inv :: "qdma_descq \<Rightarrow> bool" where
  "kind_inv s \<longleftrightarrow> C (dq_conf s) \<and> engine_ok s \<and> (\<forall>i\<in>set (listed s). \<not> cb_done (dq_req s i))"

lemma follows_inv: "kind_inv s \<Longrightarrow> engine_ok t \<Longrightarrow> follows s t \<Longrightarrow> kind_inv t"
  unfolding kind_inv_def follows_def kept_def by (metis subset_iff)

lemma except_engine_ok:
  assumes "same_except i t s" "i \<notin> set (listed s)" "engine_ok s"
  shows "engine_ok t"
proof -
  have "V t = V s" using assms(1) by (intro V_cong) (simp_all add: same_except_def same_ring_def)
  moreover have "ready (dq_conf t) (dq_req t j)" if "j \<in> set (dq_work_list t)" for j
  proof -
    have "j \<in> set (listed s)" "j \<in> set (dq_work_list s)" using that assms(1) by (auto simp: same_except_def same_ring_def listed_def)
    then show ?thesis using except_sel(4) [OF assms(1,2)] assms(1,3) by (simp add: engine_ok_def same_except_def same_ring_def)
  qed
  ultimately show ?thesis using except_queue_ok [OF assms(1,2)] assms(3) by (simp add: engine_ok_def)
qed

lemma except_inv:
  assumes "same_except i t s" "i \<notin> set (listed s)" "kind_inv s"
  shows "kind_inv t"
proof -
  have "dq_conf t = dq_conf s" using assms(1) by (simp only: same_except_def same_ring_def)
  then show ?thesis
    using except_engine_ok [OF assms(1,2)] except_sel(1,4) [OF assms(1,2)] assms(3) by (simp add: kind_inv_def)
qed

lemma add_inv:
  assumes "kind_inv s" "i \<notin> set (listed s)" "new_req (dq_req s i)" "ready (dq_conf s) (dq_req s i)"
  shows "kind_inv (qdma_work_queue_add i s)"
proof -
  let ?t = "qdma_work_queue_add i s"
  have sel: "dq_conf ?t = dq_conf s" "dq_pidx ?t = dq_pidx s" "dq_cidx ?t = dq_cidx s" "dq_credit ?t = dq_credit s" "dq_req ?t = dq_req s"
    "dq_work_list ?t = dq_work_list s @ [i]" "listed ?t = listed s @ [i]" "V ?t = V s"
    by (auto simp: qdma_work_queue_add_def listed_def intro: V_cong)
  have "owners ?t = owners s" "inflight ?t = inflight s"
    using assms(3) by (simp_all add: owners_def inflight_def sel new_req_def)
  then have "queue_ok (V s) ?t"
    using assms add_books [OF _ assms(2,3)] by (simp add: kind_inv_def engine_ok_def queue_ok_def owned_def sel)
  then show ?thesis using assms by (simp add: kind_inv_def engine_ok_def sel new_req_def)
qed

lemma proc_inv: "hw_ok e \<Longrightarrow> kind_inv s \<Longrightarrow> qdma_descq_proc_sgt_request e s = Some (Some (rv, t)) \<Longrightarrow> kind_inv t"
proof -
  assume a: "hw_ok e" "kind_inv s" "qdma_descq_proc_sgt_request e s = Some (Some (rv, t))"
  then have "C (dq_conf s)" "engine_ok s" by (simp_all add: kind_inv_def)
  then have "engine_ok t" "follows s t" using proc_keeps [OF a(1)] a(3) by fastforce+
  then show "kind_inv t" by (rule follows_inv [OF a(2)])
qed

lemma submit_inv:
  assumes "hw_ok e" "kind_inv s" "i \<notin> set (listed s)" "req_ok r" "ready (dq_conf s) r"
    and sub: "submit_sgt e i (s\<lparr>dq_req := (dq_req s)(i := reset_cb r)\<rparr>) = Some (Some (res, t))"
  shows "kind_inv t"
proof -
  let ?s0 = "s\<lparr>dq_req := (dq_req s)(i := reset_cb r)\<rparr>"
  have e0: "same_except i ?s0 s" by (simp add: same_except_def same_ring_def)
  obtain rv s1 where m: "map_request e i ?s0 = (rv, s1)" by force
  note mo = map_request_ok [OF m]
  note e1 = same_except_trans [OF mo(1) e0]
  have i1: "kind_inv s1" by (rule except_inv [OF e1 assms(3,2)])
  have l1: "i \<notin> set (listed s1)" using except_sel(1) [OF e1 assms(3)] assms(3) by simp
  have un: "kind_inv (unmap_unless_mapped i s1)" by (rule except_inv [OF unmap_except l1 i1])
  consider "t = unmap_unless_mapped i s1"
    | rv' where "0 \<le> rv" "qdma_descq_proc_sgt_request e (qdma_work_queue_add i s1) = Some (Some (rv', t))"
    using sub m unfolding submit_sgt_def Let_def by (auto split: if_splits)
  then show ?thesis
  proof cases
    case 2
    have "new_req (dq_req s1 i)" using mo(3) 2(1) reset_new [OF assms(4)] by simp
    moreover have "ready (dq_conf s1) (dq_req s1 i)"
    proof -
      have "rq_ep_addr (dq_req s1 i) = rq_ep_addr r" using mo(2) by (simp add: reset_cb_def)
      moreover have "dq_conf s1 = dq_conf s" using e1 by (simp add: same_except_def same_ring_def)
      ultimately show ?thesis using ready_cong assms(5) by metis
    qed
    ultimately have "kind_inv (qdma_work_queue_add i s1)" using add_inv i1 l1 by blast
    then show ?thesis using proc_inv [OF assms(1)] 2(2) by blast
  qed (use un in simp)
qed

lemma service_inv:
  assumes "hw_ok e" "kind_inv s" "service_mm_n_h2c e s = Some (Some (rv, t))"
  shows "kind_inv t"
proof -
  let ?s1 = "descq_mm_n_h2c_cmpl_status e s"
  have c: "kind_inv ?s1"
  proof (rule follows_inv [OF assms(2)])
    show "engine_ok ?s1" "follows s ?s1" using cmpl_keeps [OF assms(1), of s] assms(2) by (simp_all add: kind_inv_def)
  qed
  consider "t = s" | rv' where "qdma_descq_proc_sgt_request e s = Some (Some (rv', t))"
    | rv' where "qdma_descq_proc_sgt_request e ?s1 = Some (Some (rv', t))" | "t = ?s1"
    using assms(3) unfolding service_mm_n_h2c_def Let_def by (auto split: if_splits)
  then show ?thesis by cases (use proc_inv [OF assms(1)] c assms(2) in simp_all)
qed

lemma woken_inv:
  assumes "kind_inv s" "cb_done (dq_req s i)"
  shows "kind_inv (snd (submit_sgt_woken i s))"
proof -
  have i: "i \<notin> set (listed s)" using assms by (auto simp: kind_inv_def)
  have "same_except i (snd (submit_sgt_woken i s)) s"
    using assms(2) unmap_except by (simp add: submit_sgt_woken_def qdma_request_wait_for_cmpl_def)
  then show ?thesis by (rule except_inv [OF _ i assms(1)])
qed

end

end
