(* ===== verification/Descq_Reach.thy ===== *)
theory Descq_Reach
  imports Descq_Safety Descq_Demo
begin

text \<open>
  What holds of a descriptor queue (\<^verbatim>\<open>libqdma/qdma_descq.c\<close>) after any number of submissions, services
  and wake-ups, for memory mapped and for streaming host-to-card queues.
\<close>

interpretation mmk: queue_kind mm_V "\<lambda>s i. QDMA_DESC_BLEN_MAX" mm_ready mm_submit
  "\<lambda>c. \<not> qc_st c \<and> qc_q_type c \<noteq> Q_CMPT \<and> qc_aperture_size c = 0 \<and> \<not> is_ul_ext c"
proof
  fix e s
  assume "hw_ok e" "\<not> qc_st (dq_conf s) \<and> qc_q_type (dq_conf s) \<noteq> Q_CMPT \<and> qc_aperture_size (dq_conf s) = 0 \<and> \<not> is_ul_ext (dq_conf s)" "mme.engine_ok s"
  then show "\<exists>rv t. qdma_descq_proc_sgt_request e s = Some (Some (rv, t)) \<and> mme.engine_ok t \<and> follows s t"
    using mm_proc_keeps [of e s] by (simp add: qdma_descq_proc_sgt_request_def)
qed

interpretation stk: queue_kind st_V "\<lambda>s i. pkt_size (dq_req s i)" st_ready st_submit1
  "\<lambda>c. qc_st c \<and> qc_q_type c = Q_H2C \<and> \<not> is_ul_ext c"
proof
  fix e s
  assume a: "hw_ok e" "qc_st (dq_conf s) \<and> qc_q_type (dq_conf s) = Q_H2C \<and> \<not> is_ul_ext (dq_conf s)" "ste.engine_ok s"
  then have "qdma_descq_proc_sgt_request e s = descq_proc_st_h2c_request e s"
    by (auto simp: qdma_descq_proc_sgt_request_def is_ul_ext_def)
  then show "\<exists>rv t. qdma_descq_proc_sgt_request e s = Some (Some (rv, t)) \<and> ste.engine_ok t \<and> follows s t"
    using st_proc_keeps [OF a(1,3)] by simp
qed

text \<open>The queues that are covered: the driver writes the descriptors itself and there is no keyhole.\<close>

definition plain_queue :: "qdma_queue_conf \<Rightarrow> bool" where
  "plain_queue c \<longleftrightarrow> \<not> is_ul_ext c \<and> qc_q_type c \<noteq> Q_CMPT \<and> (if qc_st c then qc_q_type c = Q_H2C else qc_aperture_size c = 0)"

definition user_req :: "qdma_queue_conf \<Rightarrow> qdma_request \<Rightarrow> bool" where
  "user_req c r \<longleftrightarrow> req_ok r \<and> (qc_st c \<longrightarrow> rq_ep_addr r = 0 \<or> (ucast (rq_ep_addr r) :: u32) \<noteq> 0)"

definition ring_view :: "qdma_descq \<Rightarrow> (u64 \<times> u32) list" where
  "ring_view s = (if qc_st (dq_conf s) then st_V s else mm_V s)"

definition idle_queue :: "qdma_descq \<Rightarrow> bool" where
  "idle_queue s \<longleftrightarrow> plain_queue (dq_conf s) \<and> 2 \<le> rng s \<and> rng s \<le> 65536 \<and> dq_pidx s = 0 \<and> dq_cidx s = 0 \<and>
     dq_avail s = qc_rngsz (dq_conf s) - 1 \<and> dq_credit s = 0 \<and> dq_work_list s = [] \<and> dq_pend_list s = [] \<and>
     length (if qc_st (dq_conf s) then map st_view (dq_h2c_ring s) else map (mm_view False) (dq_mm_ring s)) = rng s"

text \<open>One operation on a queue. The number of a new request is not in use.\<close>

inductive dq_step :: "qdma_descq \<Rightarrow> qdma_descq \<Rightarrow> bool" where
  step_submit: "hw_ok e \<Longrightarrow> i \<notin> set (listed s) \<Longrightarrow> user_req (dq_conf s) r \<Longrightarrow>
    submit_sgt e i (s\<lparr>dq_req := (dq_req s)(i := reset_cb r)\<rparr>) = Some (Some (res, t)) \<Longrightarrow> dq_step s t"
| step_service: "hw_ok e \<Longrightarrow> service_mm_n_h2c e s = Some (Some (rv, t)) \<Longrightarrow> dq_step s t"
| step_woken: "cb_done (dq_req s i) \<Longrightarrow> dq_step s (snd (submit_sgt_woken i s))"

abbreviation "dq_reach s0 s \<equiv> dq_step\<^sup>*\<^sup>* s0 s"

definition dq_inv :: "qdma_descq \<Rightarrow> bool" where
  "dq_inv s \<longleftrightarrow> plain_queue (dq_conf s) \<and> (if qc_st (dq_conf s) then stk.kind_inv s else mmk.kind_inv s)"

lemma inv_plain: "stk.kind_inv s \<Longrightarrow> dq_inv s" "mmk.kind_inv s \<Longrightarrow> dq_inv s"
  by (simp_all add: dq_inv_def stk.kind_inv_def mmk.kind_inv_def plain_queue_def)

lemma inv_cases:
  assumes "dq_inv s"
  obtains "stk.kind_inv s" "qc_st (dq_conf s)" | "mmk.kind_inv s" "\<not> qc_st (dq_conf s)"
  using assms by (auto simp: dq_inv_def split: if_splits)

lemma idle_inv: "idle_queue s \<Longrightarrow> dq_inv s"
proof -
  assume q: "idle_queue s"
  then have z: "inflight s = 0" "owners s = []" "listed s = []" by (simp_all add: idle_queue_def inflight_def ring_dist_def owners_def listed_def)
  have "1 \<le> qc_rngsz (dq_conf s)" using q by (simp add: idle_queue_def word_le_nat_alt)
  then have "unat (dq_avail s) = rng s - 1" using q by (simp add: idle_queue_def unat_sub)
  then have "books_ok s" using q z unfolding books_ok_def by (auto simp: idle_queue_def)
  then have "length v = rng s \<Longrightarrow> queue_ok v s" for v using z by (simp add: queue_ok_def owned_def)
  then show ?thesis using q z
    by (auto simp: dq_inv_def idle_queue_def plain_queue_def stk.kind_inv_def mmk.kind_inv_def ste.engine_ok_def mme.engine_ok_def
        mm_V_def st_V_def)
qed

lemma step_inv: "dq_step s t \<Longrightarrow> dq_inv s \<Longrightarrow> dq_inv t"
proof (induction rule: dq_step.induct)
  case (step_submit e i s r res t)
  from step_submit.prems show ?case
  proof (cases rule: inv_cases)
    case 1
    then have "st_ready (dq_conf s) r" using step_submit.hyps(3) by (auto simp: user_req_def st_ready_def stk.kind_inv_def)
    then show ?thesis using stk.submit_inv [OF step_submit.hyps(1) 1(1) step_submit.hyps(2) _ _ step_submit.hyps(4)]
      step_submit.hyps(3) inv_plain by (simp add: user_req_def)
  next
    case 2
    then have "mm_ready (dq_conf s) r" by (simp add: mm_ready_def mmk.kind_inv_def)
    then show ?thesis using mmk.submit_inv [OF step_submit.hyps(1) 2(1) step_submit.hyps(2) _ _ step_submit.hyps(4)]
      step_submit.hyps(3) inv_plain by (simp add: user_req_def)
  qed
next
  case (step_service e s rv t)
  from step_service.prems show ?case
    by (cases rule: inv_cases) (use stk.service_inv mmk.service_inv step_service.hyps inv_plain in blast)+
next
  case (step_woken s i)
  from step_woken.prems show ?case
    by (cases rule: inv_cases) (use stk.woken_inv mmk.woken_inv step_woken.hyps inv_plain in blast)+
qed

lemma reach_inv: "dq_reach s0 s \<Longrightarrow> idle_queue s0 \<Longrightarrow> dq_inv s"
  by (induction rule: rtranclp_induct) (use idle_inv step_inv in blast)+

lemma inv_queue_ok: "dq_inv s \<Longrightarrow> queue_ok (ring_view s) s \<and> (\<forall>i\<in>set (listed s). \<not> cb_done (dq_req s i))"
  by (erule inv_cases) (simp_all add: ring_view_def stk.kind_inv_def mmk.kind_inv_def ste.engine_ok_def mme.engine_ok_def)

lemma owner_listed:
  assumes "books_ok s" "k < inflight s"
  shows "owners s ! (unat (dq_credit s) + k) \<in> set (listed s)"
proof -
  have "unat (dq_credit s) + k < length (owners s)" using assms by (simp add: books_ok_def)
  then show ?thesis using set_copies nth_mem unfolding owners_def by blast
qed

subsection \<open>A queue in use\<close>

lemma demo_hw_ok: "hw_ok (demo_env b)"
  unfolding hw_ok_def
proof (intro allI impI)
  fix s assume b: "books_ok s"
  let ?k = "if b then dq_pidx s else dq_cidx s"
  have "unat (dq_pidx s) < 65536" "unat (dq_cidx s) < 65536" using b by (simp_all add: books_ok_def)
  then have "unat ?k < 2 ^ 16" by simp
  then have u: "unat (ucast ?k :: u16) = unat ?k" by (simp add: unsigned_ucast_eq take_bit_nat_eq_self)
  have "ring_dist (rng s) (unat (dq_cidx s)) (unat ?k) \<le> inflight s" by (simp add: inflight_def ring_dist_def)
  then show "unat (de_status_cidx (demo_env b) s) < rng s \<and>
    ring_dist (rng s) (unat (dq_cidx s)) (unat (de_status_cidx (demo_env b) s)) \<le> inflight s"
    using u b by (auto simp: demo_env_def books_ok_def)
qed

lemma demo_idle: "idle_queue (demo_queue (demo_conf False Q_H2C))"
  using demo_queue_values by (auto simp: idle_queue_def plain_queue_def)

lemma demo_user_req: "user_req (dq_conf (demo_queue (demo_conf False Q_H2C))) demo_req"
  using demo_queue_values by (auto simp: user_req_def req_ok_def demo_req_def demo_sg_def)

lemma demo_fresh: "listed (demo_queue (demo_conf False Q_H2C)) = []"
  using demo_idle by (simp add: idle_queue_def listed_def)

lemma demo_reach: "dq_reach (demo_queue (demo_conf False Q_H2C)) (demo_busy False)"
proof -
  obtain rv where "submit_sgt (demo_env False) 0 ((demo_queue (demo_conf False Q_H2C))
     \<lparr>dq_req := (dq_req (demo_queue (demo_conf False Q_H2C)))(0 := reset_cb demo_req)\<rparr>) = Some (Some (rv, demo_busy False))"
    using demo_submit by blast
  then have "dq_step (demo_queue (demo_conf False Q_H2C)) (demo_busy False)"
    using step_submit [OF demo_hw_ok [of False] _ demo_user_req] by (simp add: demo_fresh)
  then show ?thesis by blast
qed

lemma demo_inflight: "inflight (demo_busy False) = 2"
  using demo_busy_values by (simp add: inflight_def ring_dist_def)

subsection \<open>The properties\<close>

text \<open>
  C4: From an idle queue, after any sequence of submissions, services and wake-ups of callers whose
  request is done, each descriptor the hardware still holds describes memory of one scatter-gather
  entry of a request that is in the lists of the queue and has not been reported done. The queue is
  memory mapped or streams from the host, the driver writes its descriptors itself, and there is no
  keyhole aperture; a submitted request's count is the sum of its entry lengths, below 2^31, with
  no empty entry (or it is one entry of an empty request), and a streaming request's endpoint
  address is zero or has a non-zero low half; the consumer index the hardware reports never passes
  the descriptors it was given. A caller woken by its timeout is not among the steps: that step
  breaks the property, as \<^verbatim>\<open>Descq_Faults\<close> shows.\<close>

theorem hardware_descriptors_owned:
  assumes "dq_reach s0 s" "idle_queue s0" "k < inflight s"
  shows "let i = owners s ! (unat (dq_credit s) + k) in i \<in> set (listed s) \<and> \<not> cb_done (dq_req s i) \<and>
    inside (rq_sgl (dq_req s i)) (ring_view s ! ((unat (dq_cidx s) + k) mod rng s))"
proof -
  note q = inv_queue_ok [OF reach_inv [OF assms(1,2)]]
  have "owners s ! (unat (dq_credit s) + k) \<in> set (listed s)" using owner_listed assms(3) q by (simp add: queue_ok_def)
  then show ?thesis using q assms(3) by (simp add: Let_def queue_ok_def owned_def)
qed

theorem hardware_descriptors_owned_witness:
  "let i = owners (demo_busy False) ! (unat (dq_credit (demo_busy False)) + 1) in
     i \<in> set (listed (demo_busy False)) \<and> \<not> cb_done (dq_req (demo_busy False) i) \<and>
     inside (rq_sgl (dq_req (demo_busy False) i))
       (ring_view (demo_busy False) ! ((unat (dq_cidx (demo_busy False)) + 1) mod rng (demo_busy False)))"
  by (rule hardware_descriptors_owned [OF demo_reach demo_idle]) (simp add: demo_inflight)

text \<open>
  C12: The ring is never overfull. From an idle queue, after any sequence of submissions, services and
  wake-ups of callers whose request is done, the free descriptors and those the hardware holds are
  one less than the size of the ring, and both indices lie in the ring. The queue, the requests and the
  hardware are those of the ownership property: no user-logic extension and no keyhole, requests
  whose count is the sum of their entries, and a reported consumer index that does not pass the
  descriptors the hardware was given.\<close>

theorem ring_never_overfull:
  assumes "dq_reach s0 s" "idle_queue s0"
  shows "unat (dq_avail s) + inflight s = rng s - 1 \<and> unat (dq_pidx s) < rng s \<and> unat (dq_cidx s) < rng s"
  using inv_queue_ok [OF reach_inv [OF assms]] by (simp add: queue_ok_def books_ok_def)

theorem ring_never_overfull_witness:
  "unat (dq_avail (demo_busy False)) + inflight (demo_busy False) = rng (demo_busy False) - 1 \<and>
   unat (dq_pidx (demo_busy False)) < rng (demo_busy False) \<and> unat (dq_cidx (demo_busy False)) < rng (demo_busy False)"
  by (rule ring_never_overfull [OF demo_reach demo_idle])

text \<open>
  C11: Request processing of a queue in use returns when every request's count is the sum of its
  entry lengths (one whose count is larger never lets it return). In a state reached from an idle
  queue by submissions, services and wake-ups of callers whose request is done,
  \<^verbatim>\<open>qdma_descq_proc_sgt_request\<close> returns, keeps the invariant of the queue, loses no request, and
  every request that leaves the lists is reported done. The queue, the requests and the hardware are
  those of the ownership property: no user-logic extension and no keyhole, requests with no empty
  entry and a count below 2^31, and a reported consumer index that does not pass the
  descriptors the hardware was given.\<close>

theorem request_processing_returns:
  assumes "dq_reach s0 s" "idle_queue s0" "hw_ok e"
  shows "\<exists>rv t. qdma_descq_proc_sgt_request e s = Some (Some (rv, t)) \<and> dq_inv t \<and>
    (\<forall>i\<in>set (listed s). i \<in> set (listed t) \<or> cb_done (dq_req t i))"
  using reach_inv [OF assms(1,2)]
proof (cases rule: inv_cases)
  case 1
  then obtain rv t where t: "qdma_descq_proc_sgt_request e s = Some (Some (rv, t))" "ste.engine_ok t" "follows s t"
    using stk.proc_keeps [OF assms(3), of s] by (auto simp: stk.kind_inv_def)
  have "dq_inv t" by (rule inv_plain(1) [OF stk.follows_inv [OF 1(1) t(2,3)]])
  then show ?thesis using t(1,3) by (simp add: follows_def)
next
  case 2
  then obtain rv t where t: "qdma_descq_proc_sgt_request e s = Some (Some (rv, t))" "mme.engine_ok t" "follows s t"
    using mmk.proc_keeps [OF assms(3), of s] by (auto simp: mmk.kind_inv_def)
  have "dq_inv t" by (rule inv_plain(2) [OF mmk.follows_inv [OF 2(1) t(2,3)]])
  then show ?thesis using t(1,3) by (simp add: follows_def)
qed

theorem request_processing_returns_witness:
  "\<exists>rv t. qdma_descq_proc_sgt_request (demo_env True) (demo_busy False) = Some (Some (rv, t)) \<and> dq_inv t \<and>
    (\<forall>i\<in>set (listed (demo_busy False)). i \<in> set (listed t) \<or> cb_done (dq_req t i))"
  by (rule request_processing_returns [OF demo_reach demo_idle demo_hw_ok])

lemma cmpl_status_cidx:
  assumes "distinct (listed s)" "ucast (de_status_cidx e s) = dq_pidx s"
  shows "dq_cidx (descq_mm_n_h2c_cmpl_status e s) = dq_pidx s"
proof (cases "dq_pidx s = dq_cidx s")
  case True
  then show ?thesis by (simp add: descq_mm_n_h2c_cmpl_status_def)
next
  case False
  define cr where "cr = (if dq_pidx s < dq_cidx s then (qc_rngsz (dq_conf s) - dq_cidx s) + dq_pidx s else dq_pidx s - dq_cidx s)"
  define s1 where "s1 = s\<lparr>dq_reads := dq_reads s + 1\<rparr>"
  define s3 where "s3 = incr_cmpl_desc_cnt cr (s1\<lparr>dq_cidx := dq_pidx s, dq_avail := dq_avail s1 + cr, dq_credit := dq_credit s1 + cr\<rparr>)"
  obtain cr1 t where g: "give_credits (dq_credit s3) s3 = (cr1, t)" by force
  have "descq_mm_n_h2c_cmpl_status e s = snd (qdma_pidx_update e True (t\<lparr>dq_credit := cr1\<rparr>))"
    using False g unfolding descq_mm_n_h2c_cmpl_status_def Let_def assms(2)
    by (simp only: if_False prod.case flip: cr_def s1_def s3_def)
  moreover have "same_ring s3 (s\<lparr>dq_cidx := dq_pidx s, dq_avail := dq_avail s + cr\<rparr>)" "distinct (listed s3)"
    using incr_cmpl_frame assms(1) unfolding s3_def s1_def same_ring_def same_books_def by (simp_all add: listed_def)
  moreover from this(2) have "same_ring t s3" using give_credits_spec [OF g] by blast
  ultimately show ?thesis
    using pidx_update_frame(2) [of e True "t\<lparr>dq_credit := cr1\<rparr>"] by (simp add: same_ring_def)
qed

text \<open>
  C7: When the hardware has completed all it was given, no request whose descriptors were all handed
  out is left waiting. In a state reached from an idle queue by submissions, services and wake-ups of
  callers whose request is done, if the status write-back has caught up with the producer index then
  after \<^verbatim>\<open>descq_mm_n_h2c_cmpl_status\<close> the pending list is empty and every request that was on it is
  reported done; the requests of the work list, which still have descriptors to be written, stay
  there in their order. The queue, the requests and the hardware are those of the ownership
  property: no user-logic extension and no keyhole, requests whose count is the sum of their
  entries, and a reported consumer index that does not pass the descriptors the hardware was
  given.\<close>

theorem all_completed_all_done:
  assumes "dq_reach s0 s" "idle_queue s0" "hw_ok e" "ucast (de_status_cidx e s) = dq_pidx s"
  shows "dq_pend_list (descq_mm_n_h2c_cmpl_status e s) = [] \<and>
    (\<forall>i\<in>set (dq_pend_list s). cb_done (dq_req (descq_mm_n_h2c_cmpl_status e s) i)) \<and>
    dq_work_list (descq_mm_n_h2c_cmpl_status e s) = dq_work_list s"
proof -
  let ?t = "descq_mm_n_h2c_cmpl_status e s"
  have q: "queue_ok (ring_view s) s" using inv_queue_ok [OF reach_inv [OF assms(1,2)]] by blast
  note k = cmpl_status_keeps [OF assms(3) q]
  have "distinct (listed s)" using q by (simp only: queue_ok_def books_ok_def)
  then have c: "dq_cidx ?t = dq_pidx s" by (rule cmpl_status_cidx [OF _ assms(4)])
  have b: "books_ok ?t" and "dq_pidx ?t = dq_pidx s" using k by (simp_all only: queue_ok_def completed_def)
  then have "inflight ?t = 0" using c by (simp add: inflight_def ring_dist_def)
  then have z: "length (owners ?t) = unat (dq_credit ?t)" using b by (simp only: books_ok_def)
  have p: "dq_pend_list ?t = []"
  proof (rule ccontr)
    assume ne: "dq_pend_list ?t \<noteq> []"
    then obtain j js where j: "dq_pend_list ?t = j # js" by (cases "dq_pend_list ?t") auto
    then have "unat (dq_credit ?t) < desc_nr ?t j" using b ne unfolding books_ok_def by (metis list.sel(1))
    moreover have "desc_nr ?t j \<le> length (owners ?t)" by (simp add: owners_def listed_def j)
    ultimately show False using z by simp
  qed
  obtain m where "dq_pend_list ?t = drop m (dq_pend_list s)" "\<forall>j\<in>set (take m (dq_pend_list s)). cb_done (dq_req ?t j)"
    and w: "dq_work_list ?t = dq_work_list s"
    using k by (auto simp: completed_def)
  then have "\<forall>i\<in>set (dq_pend_list s). cb_done (dq_req ?t i)" using p by (metis append_Nil2 append_take_drop_id)
  then show ?thesis using p w by blast
qed

theorem all_completed_all_done_witness:
  "dq_pend_list (demo_busy False) = [0] \<and>
   dq_pend_list (descq_mm_n_h2c_cmpl_status (demo_env True) (demo_busy False)) = [] \<and>
   cb_done (dq_req (descq_mm_n_h2c_cmpl_status (demo_env True) (demo_busy False)) 0)"
  using all_completed_all_done [OF demo_reach demo_idle demo_hw_ok, of True] demo_busy_values
  by (simp add: demo_env_def)

end
