(* ===== verification/Descq_Faults.thy ===== *)
theory Descq_Faults
  imports Descq_Reach
begin

text \<open>
  Where the promises of a descriptor queue end (\<^verbatim>\<open>libqdma/qdma_descq.c\<close>, \<^verbatim>\<open>libqdma/libqdma_export.c\<close>):
  requests that do not describe all their bytes, waits that run out of time, and packets that are
  refused after they have been queued.
\<close>

subsection \<open>Writing packets\<close>

text \<open>
  \<^verbatim>\<open>qdma_queue_packet_write\<close>: the request joins the work list first, without the lock of the queue and
  with its call-back data as it is; then its pages are mapped and the state of the queue is checked.
\<close>

definition map_packet :: "dq_env \<Rightarrow> nat \<Rightarrow> qdma_descq \<Rightarrow> int \<times> qdma_descq" where
  "map_packet e i s =
     (if rq_dma_mapped (dq_req s i) then (0, s)
      else
        (let (rv, sgl, un) = sgl_map (de_map e) (rq_sgl (dq_req s i)) in
         (rv, upd_req i (\<lambda>r. r\<lparr>rq_sgl := sgl, cb_unmap_needed := (if rv < 0 then cb_unmap_needed r else True)\<rparr>)
                (s\<lparr>dq_unmaps := dq_unmaps s @ un\<rparr>))))"

definition unmap_if_needed :: "nat \<Rightarrow> qdma_descq \<Rightarrow> qdma_descq" where
  "unmap_if_needed i s = (if cb_unmap_needed (dq_req s i) then unmap_req i s else s)"

definition qdma_queue_packet_write :: "dq_env \<Rightarrow> nat \<Rightarrow> qdma_descq \<Rightarrow> (int \<times> qdma_descq) option option" where
  "qdma_queue_packet_write e i s =
     (if \<not> qc_st (dq_conf s) \<or> qc_q_type (dq_conf s) = Q_C2H then Some (Some (- EINVAL, s))
      else
        (let (rv, s1) = map_packet e i (qdma_work_queue_add i s) in
         if rv < 0 then Some (Some (rv, unmap_if_needed i s1))
         else if \<not> rq_check_qstate_disabled (dq_req s1 i) \<and> dq_q_state s1 \<noteq> Q_STATE_ONLINE
         then Some (Some (- EINVAL, unmap_if_needed i s1))
         else
           map_option (map_option (\<lambda>(rv, t). (sint (rq_count (dq_req t i)), t))) (qdma_descq_proc_sgt_request e s1)))"

lemma unmap_if_needed_lists [simp]: "dq_work_list (unmap_if_needed i s) = dq_work_list s"
  by (simp add: unmap_if_needed_def unmap_req_def upd_req_def Let_def)

text \<open>
  C37: A packet whose pages cannot be mapped is refused with an error, and yet stays in the work list
  of the queue: the next processing takes up a request its owner believes to have back.\<close>

theorem refused_packet_stays_queued:
  assumes "qc_st (dq_conf s)" "qc_q_type (dq_conf s) \<noteq> Q_C2H" "\<not> rq_dma_mapped (dq_req s i)"
    "fst (sgl_map (de_map e) (rq_sgl (dq_req s i))) < 0"
  shows "\<exists>rv t. qdma_queue_packet_write e i s = Some (Some (rv, t)) \<and> rv < 0 \<and> dq_work_list t = dq_work_list s @ [i]"
proof -
  obtain rv sgl un where m: "sgl_map (de_map e) (rq_sgl (dq_req s i)) = (rv, sgl, un)" by (metis prod_cases3)
  then have "rv < 0" using assms(4) by simp
  then show ?thesis using assms m
    by (simp add: qdma_queue_packet_write_def map_packet_def qdma_work_queue_add_def upd_req_def)
qed

definition deaf_env :: dq_env where
  "deaf_env = (demo_env False)\<lparr>de_map := \<lambda>pg. (0, True)\<rparr>"

theorem refused_packet_stays_queued_witness:
  "\<exists>rv t. qdma_queue_packet_write deaf_env 0 ((zero_descq demo_dev (\<lambda>i. demo_req))\<lparr>dq_conf := demo_conf True Q_H2C\<rparr>) = Some (Some (rv, t)) \<and>
     rv < 0 \<and> dq_work_list t = [0]"
  using refused_packet_stays_queued
    [of "(zero_descq demo_dev (\<lambda>i. demo_req))\<lparr>dq_conf := demo_conf True Q_H2C\<rparr>" 0 deaf_env]
  by (simp add: demo_conf_def zero_conf_def zero_descq_def deaf_env_def demo_env_def demo_req_def demo_sg_def sgl_map_def EIO_def)

subsection \<open>Requests that describe too few bytes\<close>

text \<open>The first request waits for bytes beyond its scatter-gather list.\<close>

definition stuck :: "qdma_descq \<Rightarrow> bool" where
  "stuck s \<longleftrightarrow> (\<exists>i ws. dq_work_list s = i # ws \<and> dq_avail s \<noteq> 0 \<and> \<not> is_ul_ext (dq_conf s) \<and>
     cb_offset (dq_req s i) < rq_count (dq_req s i) \<and>
     \<not> fst (find_sg (cb_offset (dq_req s i)) 0 0 (rq_sgl (dq_req s i))) < length (rq_sgl (dq_req s i)))"

lemma stuck_turn:
  assumes "dq_work_list s = i # ws" "dq_avail s \<noteq> 0" "\<not> is_ul_ext (dq_conf s)" "cb_offset (dq_req s i) < rq_count (dq_req s i)"
    "\<not> fst (find_sg (cb_offset (dq_req s i)) 0 0 (rq_sgl (dq_req s i))) < length (rq_sgl (dq_req s i))"
  shows "qdma_sgl_find_offset (dq_req s i) = (- EINVAL, 0)" "stuck (qdma_update_request i 0 0 0 None s)"
proof -
  show "qdma_sgl_find_offset (dq_req s i) = (- EINVAL, 0)"
    using assms(4,5) by (auto simp: qdma_sgl_find_offset_def Let_def split: prod.splits)
  show "stuck (qdma_update_request i 0 0 0 None s)"
    using assms by (auto simp: stuck_def qdma_update_request_def upd_req_def Let_def not_le)
qed

lemma einval_pos [simp]: "0 < EINVAL"
  by (simp add: EINVAL_def)

text \<open>The request loop does not return from such a state: every turn leads to another one.\<close>

lemma stuck_loop:
  assumes "stuck s"
  shows "mm_loop e w s = None"
proof (rule ccontr)
  assume "mm_loop e w s \<noteq> None"
  then obtain y where y: "mm_loop e w s = Some y" by blast
  have "\<not> stuck s"
  proof (rule mm_loop.raw_induct [where P = "\<lambda>e w s y. \<not> stuck s", OF _ y])
    fix loop :: "dq_env \<Rightarrow> u32 \<Rightarrow> qdma_descq \<Rightarrow> (u32 \<times> qdma_descq) option option" and e w s y
    assume IH: "\<And>e w s y. loop e w s = Some y \<Longrightarrow> \<not> stuck s"
      and body: "(case dq_work_list s of [] \<Rightarrow> Some (Some (w, s))
        | i # _ \<Rightarrow>
          (let s1 = (if dq_avail s = 0 then descq_poll_mm_n_h2c_cmpl_status e s else s) in
           if dq_avail s1 = 0 then Some (Some (w, s1))
           else if is_ul_ext (dq_conf s1) then
             (let (n, s2) = de_fill e QDMA_Q_MODE_MM
                    (if qc_q_type (dq_conf s1) = Q_C2H then QDMA_Q_DIR_C2H else QDMA_Q_DIR_H2C) i s1 in
              loop e (w + (if n > 0 then word_of_int n else 0)) s2)
           else
             (let (k, off) = qdma_sgl_find_offset (dq_req s1 i) in
              if k < 0 then loop e w (qdma_update_request i 0 0 0 None s1)
              else
                (case mm_submit i (nat k) off s1 of
                   None \<Rightarrow> Some None
                 | Some (n, s2) \<Rightarrow>
                     if n = 0 then Some (Some (w, s2)) else loop e (w + n) s2)))) = Some y"
    show "\<not> stuck s"
    proof
      assume st: "stuck s"
      then obtain i ws where i: "dq_work_list s = i # ws" "dq_avail s \<noteq> 0" "\<not> is_ul_ext (dq_conf s)"
        "cb_offset (dq_req s i) < rq_count (dq_req s i)"
        "\<not> fst (find_sg (cb_offset (dq_req s i)) 0 0 (rq_sgl (dq_req s i))) < length (rq_sgl (dq_req s i))"
        unfolding stuck_def by blast
      note t = stuck_turn [OF i]
      have "loop e w (qdma_update_request i 0 0 0 None s) = Some y" using body i t(1) by simp
      then show False using IH t(2) by blast
    qed
  qed
  then show False using assms by blast
qed

text \<open>A list whose entries take one descriptor each is written in as many pieces.\<close>

lemma pieces_sgl_short:
  "\<forall>sg\<in>set sgs. sg_len sg \<le> ap \<Longrightarrow> off = 0 \<Longrightarrow> length (pieces_sgl ap room off sgs) \<le> length sgs"
proof (induction ap room off sgs rule: pieces_sgl.induct)
  case (2 ap room off sg sgs)
  have "length (fst (pieces ap room (sg_dma_addr sg) (sg_len sg))) \<le> 1"
    using 2(2) by (cases room) (auto simp: Let_def min_def)
  then show ?case using 2 by (auto simp: Let_def le_Suc_eq)
qed simp

lemma sg_bytes_length: "length (sg_bytes sgs) = sg_total sgs"
  by (simp add: sg_bytes_def sg_total_def length_concat o_def)

lemma u32_bound: "unat (x :: u32) < 4294967296"
  using unsigned_less [where w = x and ?'a = nat] by simp

lemma find_sg_past:
  assumes "\<forall>sg\<in>set sgs. sg_len sg \<noteq> 0" "unat len + sg_total sgs < 2 ^ 32" "sgs \<noteq> []"
    and "unat n = unat len + sg_total sgs"
  shows "find_sg n i len sgs = (i + length sgs, 0)"
  using assms
proof (induction sgs arbitrary: i len)
  case (Cons sg sgs)
  have l: "unat (len + sg_len sg) = unat len + unat (sg_len sg)"
    using Cons.prems(2) by (subst unat_add_lem [THEN iffD1]) (simp_all add: sg_total_def)
  have pos: "0 < unat (sg_len sg)" using Cons.prems(1) by (simp add: unat_gt_0)
  show ?case
  proof (cases "sgs = []")
    case True
    then have "unat (len + sg_len sg) = unat n" using Cons.prems(4) l by (simp add: sg_total_def)
    then have "len + sg_len sg = n" by (simp add: word_unat_eq_iff)
    then show ?thesis using True by simp
  next
    case False
    then obtain x xs where x: "sgs = x # xs" by (cases sgs) auto
    have "0 < unat (sg_len x)" using Cons.prems(1) x by (simp add: unat_gt_0)
    then have "unat (len + sg_len sg) < unat n" using Cons.prems(4) l x by (simp add: sg_total_def)
    then have "len + sg_len sg < n" by (simp add: word_less_nat_alt)
    then have "find_sg n i len (sg # sgs) = find_sg n (i + 1) (len + sg_len sg) sgs" by (auto simp: Let_def)
    then show ?thesis using Cons.IH [of "len + sg_len sg" "i + 1"] Cons.prems False l
      by (simp add: sg_total_def)
  qed
qed simp


lemma find_sg_first: "sg_len sg \<noteq> 0 \<Longrightarrow> find_sg 0 0 0 (sg # sgs) = (0, 0)"
  by (simp add: Let_def word_neq_0_conv)

lemma overlong_loop:
  assumes w: "dq_work_list s = [i]" and rd: "mm_ready (dq_conf s) (dq_req s i)"
    and ring: "length (mm_V s) = rng s" "unat (dq_pidx s) < rng s" "unat (dq_avail s) < rng s"
    and sgl: "rq_sgl (dq_req s i) \<noteq> []" "\<forall>sg\<in>set (rq_sgl (dq_req s i)). sg_len sg \<noteq> 0 \<and> sg_len sg \<le> QDMA_DESC_BLEN_MAX"
      "length (rq_sgl (dq_req s i)) < unat (dq_avail s)"
    and cnt: "sg_total (rq_sgl (dq_req s i)) < unat (rq_count (dq_req s i))" "cb_offset (dq_req s i) = 0"
  shows "mm_loop e n s = None"
proof -
  let ?r = "dq_req s i"
  obtain sg sgs where hd: "rq_sgl ?r = sg # sgs" using sgl(1) by (cases "rq_sgl ?r") auto
  have av: "dq_avail s \<noteq> 0" using sgl(3) by auto
  have c: "rq_count ?r \<noteq> 0" using cnt(1) by auto
  have off: "qdma_sgl_find_offset ?r = (0, 0)"
    unfolding qdma_sgl_find_offset_def cnt(2) hd using sgl(2) hd c find_sg_first [of sg sgs] by simp
  obtain s0 so sgi p ps where ps: "ps = pieces_sgl QDMA_DESC_BLEN_MAX (unat (dq_avail s)) 0 (rq_sgl ?r)"
    and sub: "mm_submit i 0 0 s = Some (of_nat (length ps), sub_state i ps so sgi p s s0)" and nr: "new_ring s0 s"
    using mm_submit_spec [OF rd ring(1,2) av ring(3), of 0 0] sgl(1) by auto
  have l: "length ps \<le> length (rq_sgl ?r)" unfolding ps by (rule pieces_sgl_short) (use sgl(2) in auto)
  have ne: "ps \<noteq> []" unfolding ps hd by (rule pieces_sgl_nonempty) (use sgl(3) in auto)
  have "sg_bytes (rq_sgl ?r) = concat (map piece_bytes ps)"
    using pieces_sgl_bytes [of "rq_sgl ?r" 0 QDMA_DESC_BLEN_MAX "unat (dq_avail s)"] l sgl(3) by (auto simp: ps)
  then have sum: "sum_list (map (unat \<circ> snd) ps) = sg_total (rq_sgl ?r)"
    using length_concat_bytes [of ps] sg_bytes_length by metis
  have lt: "sg_total (rq_sgl ?r) < 2 ^ 32" using cnt(1) u32_bound [of "rq_count ?r"] by simp
  then have tot: "unat (sum_len ps) = sg_total (rq_sgl ?r)" using sum by (simp add: unat_sum_len)
  have n0: "(of_nat (length ps) :: u32) \<noteq> 0" and n1: "dq_avail s - of_nat (length ps) \<noteq> 0"
  proof -
    have "length ps < 2 ^ 32" using l sgl(3) u32_bound [of "dq_avail s"] by simp
    then have u: "unat (of_nat (length ps) :: u32) = length ps" by (simp add: unat_of_nat take_bit_eq_mod)
    then show "(of_nat (length ps) :: u32) \<noteq> 0" using ne by (metis length_0_conv unat_0)
    show "dq_avail s - of_nat (length ps) \<noteq> 0" using u l sgl(3) by auto
  qed
  let ?t = "sub_state i ps so sgi p s s0"
  note sel = new_ring_sel [OF nr]
  have less: "\<not> rq_count ?r \<le> sum_len ps" using tot cnt(1) by (simp add: word_le_nat_alt)
  have t: "dq_work_list ?t = [i]" "dq_avail ?t \<noteq> 0" "dq_conf ?t = dq_conf s" "cb_offset (dq_req ?t i) = sum_len ps"
      "rq_count (dq_req ?t i) = rq_count ?r" "rq_sgl (dq_req ?t i) = rq_sgl ?r"
    using less n1 w cnt(2) by (simp_all add: sub_state_def qdma_update_request_def upd_req_def Let_def sel)
  have "find_sg (sum_len ps) 0 0 (rq_sgl ?r) = (0 + length (rq_sgl ?r), 0)"
    using sgl(1,2) lt tot by (intro find_sg_past) auto
  then have "stuck ?t" using t rd less by (auto simp: stuck_def mm_ready_def)
  then have "mm_loop e (n + of_nat (length ps)) ?t = None" by (rule stuck_loop)
  moreover have "\<not> is_ul_ext (dq_conf s)" using rd by (simp add: mm_ready_def)
  ultimately show ?thesis using w av off sub n0 by (subst mm_loop.simps) simp
qed


lemma map_keeps_lens:
  assumes "0 \<le> fst (map_request e i s)"
  shows "map sg_len (rq_sgl (dq_req (snd (map_request e i s)) i)) = map sg_len (rq_sgl (dq_req s i))"
proof -
  obtain rv sgl un where m: "sgl_map (de_map e) (rq_sgl (dq_req s i)) = (rv, sgl, un)" by (cases "sgl_map (de_map e) (rq_sgl (dq_req s i))")
  then have "rv < 0 \<or> map sg_len sgl = map sg_len (rq_sgl (dq_req s i))"
    using map_lens [of "de_map e" "[]"] by (auto simp: sgl_map_def)
  then show ?thesis using assms m by (auto simp: map_request_def upd_req_def split: if_splits)
qed

lemma lens_transfer:
  assumes "map sg_len xs = map sg_len ys"
  shows "length xs = length ys" "sg_total xs = sg_total ys" "xs = [] \<longleftrightarrow> ys = []"
    "(\<forall>sg\<in>set xs. P (sg_len sg)) \<longleftrightarrow> (\<forall>sg\<in>set ys. P (sg_len sg))"
proof -
  show "length xs = length ys" using assms by (metis length_map)
  then show "xs = [] \<longleftrightarrow> ys = []" by auto
  show "sg_total xs = sg_total ys" unfolding sg_total_def map_map [symmetric] assms ..
  show "(\<forall>sg\<in>set xs. P (sg_len sg)) \<longleftrightarrow> (\<forall>sg\<in>set ys. P (sg_len sg))"
    using arg_cong [OF assms, of set] by (metis (mono_tags, lifting) image_iff list.set_map)
qed

text \<open>
  C35: A fresh memory mapped request whose byte count exceeds its scatter-gather list is never finished.
  On a queue in use with no request and every descriptor free, the submission of such a request -
  its pages mapped, no entry of its list empty or longer than one descriptor takes, and fewer entries
  than free descriptors - does not return: all bytes of the list are written, and then the request
  loop, which holds the lock of the queue, turns for ever over the bytes that are missing.\<close>

theorem overlong_request_never_returns:
  assumes "idle_queue s" "\<not> qc_st (dq_conf s)" "dq_q_state s = Q_STATE_ONLINE" "\<not> dq_q_stop_wait s" "\<not> dq_proc_req_running s"
    and "0 \<le> fst (map_request e i (s\<lparr>dq_req := (dq_req s)(i := reset_cb r)\<rparr>))"
    and "rq_sgl r \<noteq> []" "\<forall>sg\<in>set (rq_sgl r). sg_len sg \<noteq> 0 \<and> sg_len sg \<le> QDMA_DESC_BLEN_MAX"
    and "length (rq_sgl r) < rng s - 1" "sg_total (rq_sgl r) < unat (rq_count r)"
  shows "submit_sgt e i (s\<lparr>dq_req := (dq_req s)(i := reset_cb r)\<rparr>) = None"
proof -
  let ?s0 = "s\<lparr>dq_req := (dq_req s)(i := reset_cb r)\<rparr>"
  obtain rv s1 where m: "map_request e i ?s0 = (rv, s1)" by force
  have "map sg_len (rq_sgl (dq_req s1 i)) = map sg_len (rq_sgl r)"
    using map_keeps_lens [OF assms(6)] m by (simp add: reset_cb_def)
  note sgl = lens_transfer [OF this]
  have q: "dq_pidx s1 = dq_pidx s" "dq_cidx s1 = dq_cidx s" "dq_avail s1 = dq_avail s" "dq_conf s1 = dq_conf s"
    "dq_work_list s1 = dq_work_list s" "dq_mm_ring s1 = dq_mm_ring s" "rq_count (dq_req s1 i) = rq_count r"
    "cb_offset (dq_req s1 i) = 0" "dq_q_state s1 = dq_q_state s" "dq_q_stop_wait s1 = dq_q_stop_wait s"
    "dq_proc_req_running s1 = dq_proc_req_running s"
    using m by (auto simp: map_request_def upd_req_def reset_cb_def split: if_splits prod.splits)
  define t where "t = descq_poll_mm_n_h2c_cmpl_status e (qdma_work_queue_add i s1)"
  have t: "dq_pidx t = 0" "dq_avail t = qc_rngsz (dq_conf s) - 1" "dq_conf t = dq_conf s" "dq_work_list t = [i]"
    "dq_mm_ring t = dq_mm_ring s" "dq_req t = dq_req s1"
    using assms(1) q by (simp_all add: t_def descq_poll_mm_n_h2c_cmpl_status_def descq_mm_n_h2c_cmpl_status_def
        qdma_work_queue_add_def idle_queue_def)
  have r: "2 \<le> rng s" "plain_queue (dq_conf s)" "length (dq_mm_ring s) = rng s"
    using assms(1,2) by (simp_all add: idle_queue_def)
  have av: "unat (dq_avail t) = rng s - 1"
    using r(1) unfolding t(2) by (subst unat_sub) (simp_all add: word_le_nat_alt)
  have "mm_loop e 0 t = None"
  proof (rule overlong_loop [OF t(4)])
    show "mm_ready (dq_conf t) (dq_req t i)" using r(2) assms(2) t(3) by (simp add: mm_ready_def plain_queue_def)
    show "length (mm_V t) = rng t" "unat (dq_pidx t) < rng t" "unat (dq_avail t) < rng t"
      using r(1,3) t av by (simp_all add: mm_V_def)
  qed (use assms(7-10) sgl(1-3) sgl(4) [of "\<lambda>l. l \<noteq> 0 \<and> l \<le> QDMA_DESC_BLEN_MAX"] q av t in simp_all)
  then have "qdma_descq_proc_sgt_request e (qdma_work_queue_add i s1) = None"
    using assms(2-5) q by (simp add: qdma_descq_proc_sgt_request_def descq_mm_proc_request_def qdma_work_queue_add_def
        t_def)
  then show ?thesis using assms(3,6) m q by (simp add: submit_sgt_def)
qed

lemma demo_queue_online:
  "(\<lambda>s. dq_q_state s = Q_STATE_ONLINE \<and> \<not> dq_q_stop_wait s \<and> \<not> dq_proc_req_running s) (demo_queue (demo_conf False Q_H2C))"
  by code_simp

theorem overlong_request_never_returns_witness:
  "submit_sgt (demo_env True) 0 ((demo_queue (demo_conf False Q_H2C))
     \<lparr>dq_req := (dq_req (demo_queue (demo_conf False Q_H2C)))(0 := reset_cb (demo_req\<lparr>rq_count := 151\<rparr>))\<rparr>) = None"
  by (rule overlong_request_never_returns [OF demo_idle])
    (use demo_queue_values demo_queue_online in \<open>simp_all add: map_request_def reset_cb_def demo_req_def demo_sg_def
       demo_env_def sgl_map_def QDMA_DESC_BLEN_MAX_def sg_total_def\<close>)

subsection \<open>Waits that run out of time\<close>

text \<open>
  C36: A caller whose wait runs out of time takes its request off the lists and gives its pages back to
  the DMA mapping, while the descriptors that describe them stay with the hardware.\<close>

theorem timed_out_wait_unmaps_memory_in_use:
  assumes "distinct (listed s)" "\<not> cb_done (dq_req s i)" "\<not> rq_dma_mapped (dq_req s i)"
  shows "fst (submit_sgt_woken i s) = - EIO \<and> i \<notin> set (listed (snd (submit_sgt_woken i s))) \<and>
    dq_unmaps (snd (submit_sgt_woken i s)) = dq_unmaps s @ sgl_unmapped (rq_sgl (dq_req s i)) \<and>
    inflight (snd (submit_sgt_woken i s)) = inflight s \<and> dq_mm_ring (snd (submit_sgt_woken i s)) = dq_mm_ring s \<and>
    dq_cidx (snd (submit_sgt_woken i s)) = dq_cidx s"
proof -
  have "0 < EIO" by (simp add: EIO_def)
  moreover have "i \<notin> set (remove1 i (dq_pend_list s))" "i \<notin> set (remove1 i (dq_work_list s))"
    using assms(1) by (simp_all add: listed_def)
  ultimately show ?thesis using assms(2,3)
    by (simp add: submit_sgt_woken_def qdma_request_wait_for_cmpl_def unmap_unless_mapped_def unmap_req_def upd_req_def
        inflight_def listed_def Let_def)
qed

lemma demo_busy_request: "\<not> cb_done (dq_req (demo_busy False) 0) \<and> \<not> rq_dma_mapped (dq_req (demo_busy False) 0)"
  by code_simp

theorem timed_out_wait_unmaps_memory_in_use_witness:
  "fst (submit_sgt_woken 0 (demo_busy False)) = - EIO \<and> inflight (snd (submit_sgt_woken 0 (demo_busy False))) = 2"
proof -
  have "distinct (listed (demo_busy False))" "inflight (demo_busy False) = 2"
    using demo_busy_values by (simp_all add: listed_def inflight_def ring_dist_def)
  then show ?thesis
    using timed_out_wait_unmaps_memory_in_use [of "demo_busy False" 0] demo_busy_request by simp
qed

end
