(* ===== verification/Descq_Desc.thy ===== *)
theory Descq_Desc
  imports Descq_Demo Descq_Run
begin

text \<open>
  The descriptors that request processing writes (\<^verbatim>\<open>libqdma/qdma_descq.c\<close>): they describe the next
  bytes of the request in their order, they are well-formed, and with a keyhole they stay in its window.
\<close>

subsection \<open>The next bytes\<close>

context request_engine begin

lemma submit_bytes:
  assumes rd: "ready (dq_conf s) (dq_req s i)" and q: "length (V s) = rng s" "unat (dq_pidx s) < rng s"
    and av: "dq_avail s \<noteq> 0" "unat (dq_avail s) < rng s" and r: "req_ok (dq_req s i)" "in_work (dq_req s i)"
  shows "\<exists>k off n t tl. qdma_sgl_find_offset (dq_req s i) = (int k, off) \<and> submit i k off s = Some (n, t) \<and>
    drop (unat (cb_offset (dq_req s i))) (sg_bytes (rq_sgl (dq_req s i))) =
      concat (map (\<lambda>j. piece_bytes (V t ! ((unat (dq_pidx s) + j) mod rng s))) [0..<unat n]) @ tl"
proof -
  let ?r = "dq_req s i"
  obtain k off where f: "qdma_sgl_find_offset ?r = (int k, off)" "k < length (rq_sgl ?r)" "off \<le> sg_len (rq_sgl ?r ! k)"
    "rq_count ?r \<noteq> 0 \<longrightarrow> off \<noteq> sg_len (rq_sgl ?r ! k)"
    "drop (unat (cb_offset ?r)) (sg_bytes (rq_sgl ?r)) = drop (unat off) (sg_bytes (drop k (rq_sgl ?r)))"
    using find_offset_ok [OF r] by blast
  obtain s0 so sgi p ps where ps: "ps = pieces_sgl (ap s i) (unat (dq_avail s)) off (drop k (rq_sgl ?r))"
    and sub: "submit i k off s = Some (of_nat (length ps), sub_state i ps so sgi p s s0)" and s0: "new_ring s0 s"
    and v: "\<forall>j<length ps. V s0 ! ((unat (dq_pidx s) + j) mod rng s) = ps ! j"
    using submit_spec [OF rd q av f(2,3)] by blast
  have nz: "unat (dq_avail s) \<noteq> 0" using av(1) by (simp add: unat_eq_zero)
  note P = submission_pieces [OF r ap_pos [OF rd] nz f(2-5) ps]
  have Vt: "V (sub_state i ps so sgi p s s0) = V s0"
    by (rule V_cong) (simp_all add: sub_state_def qdma_update_request_def qdma_work_queue_del_def upd_req_def Let_def)
  have "unat (dq_avail s) < 2 ^ LENGTH(32)" by (rule unsigned_less)
  then have n: "unat (of_nat (length ps) :: u32) = length ps" using P(1) by (simp add: unat_of_nat)
  have "map (\<lambda>j. piece_bytes (V s0 ! ((unat (dq_pidx s) + j) mod rng s))) [0..<length ps] = map piece_bytes ps"
    using v by (intro nth_equalityI) simp_all
  then show ?thesis using f(1) sub P(8) Vt n by metis
qed

end

text \<open>
  C13: The descriptors one turn of the memory mapped request loop writes describe, in their order, the
  bytes of the request from its offset on.\<close>

theorem mm_descriptors_are_next_bytes:
  assumes "qc_aperture_size (dq_conf s) = 0" "\<not> is_ul_ext (dq_conf s)" "length (dq_mm_ring s) = rng s" "unat (dq_pidx s) < rng s"
    "dq_avail s \<noteq> 0" "unat (dq_avail s) < rng s" "req_ok (dq_req s i)" "in_work (dq_req s i)"
  shows "\<exists>k off n t tl. qdma_sgl_find_offset (dq_req s i) = (int k, off) \<and> mm_submit i k off s = Some (n, t) \<and>
    drop (unat (cb_offset (dq_req s i))) (sg_bytes (rq_sgl (dq_req s i))) =
      concat (map (\<lambda>j. piece_bytes (mm_V t ! ((unat (dq_pidx s) + j) mod rng s))) [0..<unat n]) @ tl"
  by (rule mme.submit_bytes) (use assms in \<open>simp_all add: mm_ready_def mm_V_def\<close>)

definition small_queue :: "bool \<Rightarrow> qdma_descq" where
  "small_queue st = (zero_descq demo_dev (\<lambda>i. demo_req))
     \<lparr>dq_conf := (demo_conf st Q_H2C)\<lparr>qc_rngsz := 4\<rparr>, dq_mm_ring := replicate 4 zero_mm_desc,
      dq_h2c_ring := replicate 4 zero_h2c_desc, dq_work_list := [0], dq_avail := 3\<rparr>"

lemma small_queue_values:
  "dq_conf (small_queue st) = (demo_conf st Q_H2C)\<lparr>qc_rngsz := 4\<rparr>" "length (dq_mm_ring (small_queue st)) = 4"
  "length (dq_h2c_ring (small_queue st)) = 4" "dq_pidx (small_queue st) = 0" "dq_avail (small_queue st) = 3" "dq_req (small_queue st) i = demo_req"
  by (simp_all add: small_queue_def zero_descq_def)

lemma demo_req_ok: "req_ok demo_req" "in_work demo_req" "rq_ep_addr demo_req = 0"
  by (simp_all add: req_ok_def in_work_def demo_req_def demo_sg_def)

theorem mm_descriptors_are_next_bytes_witness:
  "\<exists>k off n t tl. qdma_sgl_find_offset demo_req = (int k, off) \<and> mm_submit 0 k off (small_queue False) = Some (n, t) \<and>
    drop (unat (cb_offset demo_req)) (sg_bytes (rq_sgl demo_req)) =
      concat (map (\<lambda>j. piece_bytes (mm_V t ! ((0 + j) mod 4))) [0..<unat n]) @ tl"
  using mm_descriptors_are_next_bytes [of "small_queue False" 0]
  by (simp add: small_queue_values demo_conf_def zero_conf_def is_ul_ext_def demo_req_ok)

text \<open>
  C14: The descriptors one turn of the streaming request loop writes, cut at the packet size, describe
  in their order the bytes of the request from its offset on.\<close>

theorem st_descriptors_are_next_bytes:
  assumes "\<not> is_ul_ext (dq_conf s)" "rq_ep_addr (dq_req s i) = 0 \<or> (ucast (rq_ep_addr (dq_req s i)) :: u32) \<noteq> 0"
    "length (dq_h2c_ring s) = rng s" "unat (dq_pidx s) < rng s"
    "dq_avail s \<noteq> 0" "unat (dq_avail s) < rng s" "req_ok (dq_req s i)" "in_work (dq_req s i)"
  shows "\<exists>k off n stamp t tl. qdma_sgl_find_offset (dq_req s i) = (int k, off) \<and> st_submit i k off s = Some (n, stamp, t) \<and>
    drop (unat (cb_offset (dq_req s i))) (sg_bytes (rq_sgl (dq_req s i))) =
      concat (map (\<lambda>j. piece_bytes (st_V t ! ((unat (dq_pidx s) + j) mod rng s))) [0..<unat n]) @ tl"
proof -
  have "\<exists>k off n t tl. qdma_sgl_find_offset (dq_req s i) = (int k, off) \<and> st_submit1 i k off s = Some (n, t) \<and>
    drop (unat (cb_offset (dq_req s i))) (sg_bytes (rq_sgl (dq_req s i))) =
      concat (map (\<lambda>j. piece_bytes (st_V t ! ((unat (dq_pidx s) + j) mod rng s))) [0..<unat n]) @ tl"
    by (rule ste.submit_bytes) (use assms in \<open>simp_all add: st_ready_def st_V_def\<close>)
  then show ?thesis unfolding st_submit1_def by (auto simp del: map_map)
qed

theorem st_descriptors_are_next_bytes_witness:
  "\<exists>k off n stamp t tl. qdma_sgl_find_offset demo_req = (int k, off) \<and> st_submit 0 k off (small_queue True) = Some (n, stamp, t) \<and>
    drop (unat (cb_offset demo_req)) (sg_bytes (rq_sgl demo_req)) =
      concat (map (\<lambda>j. piece_bytes (st_V t ! ((0 + j) mod 4))) [0..<unat n]) @ tl"
  using st_descriptors_are_next_bytes [of "small_queue True" 0]
  by (simp add: small_queue_values demo_conf_def zero_conf_def is_ul_ext_def demo_req_ok)

subsection \<open>The keyhole\<close>

text \<open>
  With a keyhole every piece lies inside the aperture: it starts at or after the address of the
  request, ends by the last address of the window, and is not longer than the aperture.\<close>

theorem keyhole_stays_in_window:
  assumes "p_keyhole p" "p_aperture p \<noteq> 0" "unat (p_req_ep_addr p) + unat (p_aperture p) \<le> 2 ^ 64 - 2 ^ 32"
    "p_ep_addr_max p = p_req_ep_addr p + ucast (p_aperture p) - 1" "p_req_ep_addr p \<le> ep" "tlen \<noteq> 0"
    "mm_chunk p tlen ep = (len, ep')"
  shows "p_req_ep_addr p \<le> ep' \<and> unat ep' + unat len \<le> unat (p_ep_addr_max p) + 1 \<and> len \<le> p_aperture p"
proof -
  let ?B = "unat (p_req_ep_addr p)" and ?A = "unat (p_aperture p)" and ?M = "p_ep_addr_max p"
  have A: "0 < ?A" "?A < 2 ^ 32" using assms(2) unsigned_less [of "p_aperture p"] by (simp_all add: unat_gt_0)
  then have ua: "unat (ucast (p_aperture p) :: u64) = ?A" by (simp add: unsigned_ucast_eq take_bit_nat_eq_self)
  have "unat (p_req_ep_addr p + ucast (p_aperture p)) = ?B + ?A"
    using assms(3) ua A(2) by (simp add: unat_word_ariths)
  then have M: "unat ?M = ?B + ?A - 1" unfolding assms(4) using A(1)
    by (subst unat_sub) (simp_all add: word_le_nat_alt)
  define ep1 where "ep1 = (if ep > ?M then p_req_ep_addr p else ep)"
  define len0 where "len0 = min tlen (p_aperture p)"
  have e1: "p_req_ep_addr p \<le> ep1" "?B \<le> unat ep1" "unat ep1 \<le> unat ?M"
    using assms(5) M A by (auto simp: ep1_def word_le_nat_alt word_less_nat_alt)
  have l0: "len0 \<le> p_aperture p" "unat len0 \<le> ?A" by (simp_all add: len0_def word_le_nat_alt [symmetric])
  then have "unat (ucast len0 :: u64) = unat len0" using A by (simp add: unsigned_ucast_eq take_bit_nat_eq_self)
  then have end0: "unat (ep1 + ucast len0) = unat ep1 + unat len0"
    using e1(3) M l0(2) A(2) assms(3) by (simp add: unat_word_ariths)
  have chunk: "ep' = ep1" "len = (if ep1 + ucast len0 > ?M then ucast (?M - ep1 + 1) else len0)"
    using assms(1,7) by (auto simp: mm_chunk_def Let_def ep1_def [symmetric] len0_def [symmetric])
  show ?thesis
  proof (cases "ep1 + ucast len0 > ?M")
    case True
    have "unat (?M - ep1) = unat ?M - unat ep1" using e1(3) by (simp add: unat_sub word_le_nat_alt)
    then have d: "unat (?M - ep1 + 1) = unat ?M - unat ep1 + 1" using M A assms(3) by (simp add: unat_word_ariths)
    moreover have le: "unat ?M - unat ep1 + 1 \<le> ?A" using M e1(2,3) A(1) by linarith
    ultimately have "unat len = unat ?M - unat ep1 + 1"
      using chunk(2) True A(2) by (simp add: unsigned_ucast_eq take_bit_nat_eq_self)
    then show ?thesis using chunk(1) e1 le by (simp add: word_le_nat_alt)
  next
    case False
    then have "len = len0" "unat ep1 + unat len0 \<le> unat ?M" using chunk(2) end0 by (simp_all add: word_less_nat_alt not_less)
    then show ?thesis using chunk(1) e1(1) l0(1) by simp
  qed
qed

definition keyhole_par :: fill_par where
  "keyhole_par = \<lparr>p_rngsz = 4, p_desc_max = 3, p_c2h = False, p_aperture = 64, p_keyhole = True, p_req_ep_addr = 0x1000,
     p_ep_addr_max = 0x103F, p_bypass = False, p_sg_max = 1\<rparr>"

lemma keyhole_chunk: "mm_chunk keyhole_par 100 0x1030 = (16, 0x1030)"
  by (simp add: mm_chunk_def keyhole_par_def)

theorem keyhole_stays_in_window_witness:
  "(0x1000 :: u64) \<le> 0x1030 \<and> unat (0x1030 :: u64) + unat (16 :: u32) \<le> unat (p_ep_addr_max keyhole_par) + 1 \<and> (16 :: u32) \<le> 64"
  using keyhole_stays_in_window [OF _ _ _ _ _ _ keyhole_chunk] by (simp add: keyhole_par_def)

subsection \<open>Well-formed descriptors\<close>

text \<open>A streaming descriptor that is empty or was written by the driver.\<close>

definition h2c_wf :: "qdma_h2c_desc \<Rightarrow> bool" where
  "h2c_wf d \<longleftrightarrow> hd_pld_len d = hd_len d \<and> hd_len d \<le> 4096 \<and> hd_cdh_flags d \<in> {0, S_H2C_DESC_F_ZERO_CDH} \<and> hd_flags d \<in> {0, 1, 2, 3}"

definition ring_wf :: "qdma_descq \<Rightarrow> bool" where
  "ring_wf s \<longleftrightarrow> (\<forall>d\<in>set (dq_h2c_ring s). h2c_wf d)"

lemma ring_upd_wf: "\<forall>d\<in>set ring. h2c_wf d \<Longrightarrow> (k < length ring \<Longrightarrow> h2c_wf x) \<Longrightarrow> \<forall>d\<in>set (ring[k := x]). h2c_wf d"
  by (cases "k < length ring") (auto dest: subsetD [OF set_update_subset_insert] simp: list_update_beyond not_less)

lemma h2c_desc_wf:
  assumes "h2c_wf d" "len \<le> PAGE_SIZE"
  shows "h2c_wf (h2c_desc p i src len d)"
proof -
  have "unat len \<le> 4096" using assms(2) by (simp add: PAGE_SIZE_def word_le_nat_alt)
  then have "(ucast len :: u16) \<le> 4096" by (simp add: word_le_nat_alt unsigned_ucast_eq take_bit_nat_eq_self)
  moreover have "hd_flags d OR a OR b \<in> {0, 1, 2, 3}"
    if "a \<in> {0, S_H2C_DESC_F_SOP}" "b \<in> {0, S_H2C_DESC_F_EOP}" for a b
    using assms(1) that by (auto simp: h2c_wf_def S_H2C_DESC_F_SOP_def S_H2C_DESC_F_EOP_def)
  ultimately show ?thesis using assms(1)
    by (auto simp: h2c_wf_def h2c_desc_def S_H2C_DESC_F_ZERO_CDH_def S_H2C_DESC_F_SOP_def S_H2C_DESC_F_EOP_def)
qed

lemma clear_flags_wf: "\<forall>d\<in>set ring. h2c_wf d \<Longrightarrow> \<forall>d\<in>set (clear_flags k ring). h2c_wf d"
  unfolding clear_flags_def by (rule ring_upd_wf) (auto simp: h2c_wf_def)

lemma st_fill_sg_wf:
  "st_fill_sg p i stamp src tlen f = Some (r, g) \<Longrightarrow> p_aperture p \<le> PAGE_SIZE \<Longrightarrow> \<forall>d\<in>set (f_ring f). h2c_wf d \<Longrightarrow>
     \<forall>d\<in>set (f_ring g). h2c_wf d"
proof (induction p i stamp src tlen f arbitrary: r g rule: st_fill_sg.induct)
  case (1 p i stamp src tlen f)
  let ?len = "min tlen (p_aperture p)" and ?k = "unat (f_pidx f)"
  let ?ring = "(f_ring f)[?k := h2c_desc p i src ?len (f_ring f ! ?k)]"
  have "?len \<le> PAGE_SIZE" using "1.prems"(2) by (simp add: min.coboundedI2)
  then have w: "\<forall>d\<in>set ?ring. h2c_wf d" using "1.prems"(3) by (intro ring_upd_wf h2c_desc_wf) simp_all
  define f1 where "f1 = f\<lparr>f_ring := ?ring, f_end := Some (f_pidx f), f_sg_offset := f_sg_offset f + ?len,
    f_data_cnt := f_data_cnt f + ?len, f_stamp := Some stamp, f_pidx := next_pidx p (f_pidx f), f_desc_cnt := f_desc_cnt f + 1\<rparr>"
  define f2 where "f2 = (if f_pidx f1 \<noteq> 0 then f1\<lparr>f_ring := clear_flags (f_pidx f1) (f_ring f1)\<rparr> else f1)"
  have w2: "\<forall>d\<in>set (f_ring f2). h2c_wf d" using w clear_flags_wf [OF w] by (simp add: f2_def f1_def)
  have eq: "st_fill_sg p i stamp src tlen f = (if \<not> ?k < length (f_ring f) then None
      else if f_pidx f1 \<noteq> 0 \<and> \<not> unat (f_pidx f1) < length (f_ring f1) then None
      else if f_desc_cnt f2 = p_desc_max p \<or> tlen - ?len = 0 then Some (tlen - ?len, f2)
      else st_fill_sg p i stamp (src + ucast ?len) (tlen - ?len) f2)"
    unfolding st_fill_sg.simps [of p i stamp src tlen f] Let_def f1_def [symmetric] f2_def [symmetric] ..
  have k: "?k < length (f_ring f)" "\<not> (f_pidx f1 \<noteq> 0 \<and> \<not> unat (f_pidx f1) < length (f_ring f1))"
    using "1.prems"(1) unfolding eq by (metis option.distinct(1))+
  have step: "(if f_desc_cnt f2 = p_desc_max p \<or> tlen - ?len = 0 then Some (tlen - ?len, f2)
      else st_fill_sg p i stamp (src + ucast ?len) (tlen - ?len) f2) = Some (r, g)"
    using "1.prems"(1) unfolding eq by (simp only: k not_True_eq_False if_False)
  show ?case
  proof (cases "f_desc_cnt f2 = p_desc_max p \<or> tlen - ?len = 0")
    case True
    then show ?thesis using step w2 by auto
  next
    case False
    note IH = "1.IH" [OF refl refl _ f1_def _ f2_def]
    show ?thesis by (rule IH [OF _ _ False _ "1.prems"(2) w2]) (use k step False in simp_all)
  qed
qed

lemma st_fill_sgl_wf:
  "st_fill_sgl p i sgs f = Some (r, g) \<Longrightarrow> p_aperture p \<le> PAGE_SIZE \<Longrightarrow> \<forall>d\<in>set (f_ring f). h2c_wf d \<Longrightarrow>
     \<forall>d\<in>set (f_ring g). h2c_wf d"
proof (induction p i sgs f arbitrary: r g rule: st_fill_sgl.induct)
  case (2 p i sg sgs f)
  show ?case
  proof (cases "f_desc_cnt f < p_desc_max p")
    case True
    let ?sg = "st_fill_sg p i (sg_pg sg + ucast (sg_offset sg)) (sg_dma_addr sg + ucast (f_sg_offset f)) (sg_len sg - f_sg_offset f)
      (f\<lparr>f_sg_offset := 0\<rparr>)"
    obtain tlen1 f1 where f1: "?sg = Some (tlen1, f1)" using "2.prems"(1) True by (cases ?sg) (auto simp: Let_def)
    let ?f2 = "if tlen1 = 0 then f1\<lparr>f_sg_offset := 0\<rparr> else f1"
    have w: "\<forall>d\<in>set (f_ring ?f2). h2c_wf d" using st_fill_sg_wf [OF f1 "2.prems"(2)] "2.prems"(3) by simp
    have "st_fill_sgl p (i + 1) sgs ?f2 = Some (r, g)" using "2.prems"(1) True f1 by (simp add: Let_def)
    then show ?thesis using "2.IH" [OF _ refl refl refl f1 refl _ "2.prems"(2) w] True by simp
  next
    case False
    then show ?thesis using "2.prems" by simp
  qed
qed simp

lemma pkt_size_le: "pkt_size r \<le> PAGE_SIZE"
  by (simp add: pkt_size_def)

lemma st_submit_wf: "st_submit i k off s = Some (n, stamp, t) \<Longrightarrow> ring_wf s \<Longrightarrow> ring_wf t"
proof -
  assume sub: "st_submit i k off s = Some (n, stamp, t)" and w: "ring_wf s"
  define p where "p = st_par s (dq_req s i)"
  define f0 where "f0 = \<lparr>f_ring = clear_flags (dq_pidx s) (dq_h2c_ring s), f_pidx = dq_pidx s, f_ep_addr = 0, f_data_cnt = 0,
    f_desc_cnt = 0, f_sg_offset = off, f_end = None, f_stamp = None\<rparr>"
  have "p_aperture p \<le> PAGE_SIZE" using pkt_size_le by (simp add: p_def)
  moreover have "\<forall>d\<in>set (f_ring f0). h2c_wf d" using w clear_flags_wf by (simp add: f0_def ring_wf_def)
  moreover obtain i1 f where f: "st_fill_sgl p k (drop k (rq_sgl (dq_req s i))) f0 = Some (i1, f)" "dq_h2c_ring t = f_ring f"
    using sub unfolding st_submit_def Let_def p_def [symmetric] f0_def [symmetric]
    by (auto simp: qdma_update_request_def qdma_work_queue_del_def upd_req_def Let_def split: if_splits option.splits)
  ultimately show "ring_wf t" using st_fill_sgl_wf [OF f(1)] by (simp add: ring_wf_def)
qed

lemma same_ring_wf: "dq_h2c_ring t = dq_h2c_ring s \<Longrightarrow> ring_wf t = ring_wf s"
  by (simp add: ring_wf_def)

lemma update_request_ring [simp]: "dq_h2c_ring (qdma_update_request i a b c d s) = dq_h2c_ring s"
  by (simp add: qdma_update_request_def qdma_work_queue_del_def upd_req_def Let_def)

text \<open>What completions leave alone, whatever the status word says.\<close>

definition same_base :: "qdma_descq \<Rightarrow> qdma_descq \<Rightarrow> bool" where
  "same_base t s \<longleftrightarrow> dq_conf t = dq_conf s \<and> dq_h2c_ring t = dq_h2c_ring s"

lemma base_trans: "same_base u t \<Longrightarrow> same_base t s \<Longrightarrow> same_base u s"
  by (simp add: same_base_def)

lemma give_credits_base: "same_base (snd (give_credits cr s)) s"
proof (induction cr s rule: give_credits.induct)
  case (1 cr s)
  show ?case
  proof (cases "dq_pend_list s")
    case Nil
    then show ?thesis by (simp add: give_credits.simps [of cr s] same_base_def)
  next
    case (Cons i "is")
    have d: "same_base (qdma_sgt_req_done i 0 s) s" using req_done_same [of i 0 s] by (simp add: same_base_def same_ring_def)
    have step: "give_credits cr s = (if cb_desc_nr (dq_req s i) \<le> cr then
        (if cr - cb_desc_nr (dq_req s i) = 0 then (cr - cb_desc_nr (dq_req s i), qdma_sgt_req_done i 0 s)
         else give_credits (cr - cb_desc_nr (dq_req s i)) (qdma_sgt_req_done i 0 s))
       else (0, upd_req i (\<lambda>r. r\<lparr>cb_desc_nr := cb_desc_nr (dq_req s i) - cr\<rparr>) s))"
      by (subst give_credits.simps) (simp add: Cons Let_def)
    show ?thesis
    proof (cases "cb_desc_nr (dq_req s i) \<le> cr")
      case True
      note IH = "1.IH" [OF Cons refl True refl refl]
      show ?thesis unfolding step using True d IH base_trans by (auto split: if_splits)
    next
      case False
      then show ?thesis unfolding step by (simp add: same_base_def upd_req_def)
    qed
  qed
qed

lemma cmpl_base: "same_base (descq_mm_n_h2c_cmpl_status e s) s"
proof (cases "dq_pidx s = dq_cidx s \<or> ucast (de_status_cidx e s) = dq_cidx s")
  case True
  then show ?thesis by (auto simp: descq_mm_n_h2c_cmpl_status_def same_base_def Let_def)
next
  case False
  let ?c = "ucast (de_status_cidx e s) :: u32"
  define cr where "cr = (if ?c < dq_cidx s then (qc_rngsz (dq_conf s) - dq_cidx s) + ?c else ?c - dq_cidx s)"
  define s1 where "s1 = s\<lparr>dq_reads := dq_reads s + 1\<rparr>"
  define s3 where "s3 = incr_cmpl_desc_cnt cr (s1\<lparr>dq_cidx := ?c, dq_avail := dq_avail s1 + cr, dq_credit := dq_credit s1 + cr\<rparr>)"
  obtain cr1 t where g: "give_credits (dq_credit s3) s3 = (cr1, t)" by force
  have eq: "descq_mm_n_h2c_cmpl_status e s = snd (qdma_pidx_update e True (t\<lparr>dq_credit := cr1\<rparr>))"
    using False g unfolding descq_mm_n_h2c_cmpl_status_def Let_def
    by (simp only: de_Morgan_disj if_False prod.case flip: cr_def s1_def s3_def)
  have "same_base s3 s" using incr_cmpl_frame unfolding s3_def s1_def same_base_def same_ring_def same_books_def by simp
  moreover have "same_base t s3" using give_credits_base [of "dq_credit s3" s3] g by simp
  moreover have "same_base (snd (qdma_pidx_update e True (t\<lparr>dq_credit := cr1\<rparr>))) t"
    using pidx_update_frame(2) [of e True "t\<lparr>dq_credit := cr1\<rparr>"] by (simp add: same_base_def same_ring_def)
  ultimately show ?thesis unfolding eq using base_trans by blast
qed

lemma poll_base: "same_base (descq_poll_mm_n_h2c_cmpl_status e s) s"
  using cmpl_base [of e "s\<lparr>dq_proc_req_running := True\<rparr>"] by (simp add: descq_poll_mm_n_h2c_cmpl_status_def same_base_def)

lemma submit_written_base: "same_base (snd (submit_written e s)) s"
proof -
  let ?s1 = "s\<lparr>dq_pend_list_empty := False, dq_pidx_info := (dq_pidx_info s)\<lparr>pi_pidx := ucast (dq_pidx s)\<rparr>\<rparr>"
  obtain rv s2 where q: "queue_pidx_update e ?s1 = (rv, s2)" by force
  have "same_base s2 s" using q by (auto simp: queue_pidx_update_def same_base_def split: prod.splits)
  moreover have "same_base ((descq_poll_mm_n_h2c_cmpl_status e s2)\<lparr>dq_proc_req_running := False\<rparr>) s2"
    using poll_base [of e s2] by (simp add: same_base_def)
  ultimately show ?thesis using q base_trans by (auto simp: submit_written_def Let_def)
qed

lemma base_wf: "same_base t s \<Longrightarrow> ring_wf t = ring_wf s"
  by (simp add: same_base_def ring_wf_def)

lemma st_submit_conf: "st_submit i k off s = Some (n, stamp, t) \<Longrightarrow> dq_conf t = dq_conf s"
  by (auto simp: st_submit_def qdma_update_request_def qdma_work_queue_del_def upd_req_def Let_def split: if_splits option.splits)

lemma poll_if_base: "same_base (if b then descq_poll_mm_n_h2c_cmpl_status e s else s) s"
  using poll_base by (simp add: same_base_def)

lemma update_request_conf: "dq_conf (qdma_update_request i a b c d s) = dq_conf s"
  by (simp add: qdma_update_request_def qdma_work_queue_del_def upd_req_def Let_def)

lemma st_loop_wf:
  assumes "st_loop e n stamp s = Some y"
  shows "ring_wf s \<Longrightarrow> \<not> is_ul_ext (dq_conf s) \<Longrightarrow>
    (\<forall>w st t. y = Some (w, st, t) \<longrightarrow> ring_wf t \<and> dq_conf t = dq_conf s)"
proof (rule st_loop.raw_induct [where P = "\<lambda>e n stamp s y. ring_wf s \<longrightarrow> \<not> is_ul_ext (dq_conf s) \<longrightarrow>
    (\<forall>w st t. y = Some (w, st, t) \<longrightarrow> ring_wf t \<and> dq_conf t = dq_conf s)", OF _ assms, THEN mp, THEN mp])
  fix loop :: "dq_env \<Rightarrow> u32 \<Rightarrow> u64 option \<Rightarrow> qdma_descq \<Rightarrow> (u32 \<times> u64 option \<times> qdma_descq) option option" and e n stamp s y
  assume IH: "\<And>e n stamp s y. loop e n stamp s = Some y \<Longrightarrow> ring_wf s \<longrightarrow> \<not> is_ul_ext (dq_conf s) \<longrightarrow>
      (\<forall>w st t. y = Some (w, st, t) \<longrightarrow> ring_wf t \<and> dq_conf t = dq_conf s)"
    and body: "(case dq_work_list s of
        [] \<Rightarrow> Some (Some (n, stamp, s))
      | i # _ \<Rightarrow>
          (let s1 = (if dq_avail s = 0 then descq_poll_mm_n_h2c_cmpl_status e s else s) in
           if dq_avail s1 = 0 then Some (Some (n, stamp, s1))
           else if is_ul_ext (dq_conf s1) then
             (let (m, s2) = de_fill e QDMA_Q_MODE_ST QDMA_Q_DIR_H2C i s1 in
              if m > 0 then loop e (n + word_of_int m) stamp s2 else Some (Some (n, stamp, s2)))
           else
             (let (k, off) = qdma_sgl_find_offset (dq_req s1 i) in
              if k < 0 then loop e n stamp (qdma_update_request i 0 0 0 None s1)
              else
                (case st_submit i (nat k) off s1 of
                   None \<Rightarrow> Some None
                 | Some (m, stamp1, s2) \<Rightarrow>
                     (let stamp2 = (if stamp1 = None then stamp else stamp1) in
                      if m = 0 then Some (Some (n, stamp2, s2)) else loop e (n + m) stamp2 s2))))) = Some y"
  show "ring_wf s \<longrightarrow> \<not> is_ul_ext (dq_conf s) \<longrightarrow>
      (\<forall>w st t. y = Some (w, st, t) \<longrightarrow> ring_wf t \<and> dq_conf t = dq_conf s)"
  proof (intro impI)
    assume w: "ring_wf s" and ul: "\<not> is_ul_ext (dq_conf s)"
    show "\<forall>w st t. y = Some (w, st, t) \<longrightarrow> ring_wf t \<and> dq_conf t = dq_conf s"
    proof (cases "dq_work_list s")
      case Nil
      then show ?thesis using body w by (auto simp: list.case)
    next
      case (Cons i ws)
      define s1 where "s1 = (if dq_avail s = 0 then descq_poll_mm_n_h2c_cmpl_status e s else s)"
      have "same_base s1 s" unfolding s1_def by (rule poll_if_base)
      then have s1: "ring_wf s1" "dq_conf s1 = dq_conf s" using w base_wf by (simp_all add: same_base_def ring_wf_def)
      obtain k off where k: "qdma_sgl_find_offset (dq_req s1 i) = (k, off)" by force
      have step: "(if dq_avail s1 = 0 then Some (Some (n, stamp, s1)) else
         if k < 0 then loop e n stamp (qdma_update_request i 0 0 0 None s1)
         else case st_submit i (nat k) off s1 of None \<Rightarrow> Some None
              | Some (m, stamp1, s2) \<Rightarrow> (let stamp2 = (if stamp1 = None then stamp else stamp1) in
                  if m = 0 then Some (Some (n, stamp2, s2)) else loop e (n + m) stamp2 s2)) = Some y"
        using body unfolding Cons list.case s1_def [symmetric] Let_def [of s1] s1(2) k Let_def [of "(k, off)"] prod.case by (simp only: ul if_False)
      show ?thesis
      proof (cases "dq_avail s1 = 0 \<or> k < 0")
        case True
        have "ring_wf (qdma_update_request i 0 0 0 None s1)" "dq_conf (qdma_update_request i 0 0 0 None s1) = dq_conf s"
          using s1 by (simp_all add: ring_wf_def update_request_conf)
        note u = this
        show ?thesis
        proof (cases "dq_avail s1 = 0")
          case True
          then have "y = Some (n, stamp, s1)" using step by simp
          then show ?thesis using s1 by simp
        next
          case False
          then have "loop e n stamp (qdma_update_request i 0 0 0 None s1) = Some y" using step True by simp
          from IH [OF this] show ?thesis by (simp only: u ul not_False_eq_True simp_thms)
        qed
      next
        case False
        show ?thesis
        proof (cases "st_submit i (nat k) off s1")
          case None
          then show ?thesis using step False by auto
        next
          case (Some q)
          obtain m stamp1 s2 where q: "q = (m, stamp1, s2)" by (cases q) auto
          have s2: "ring_wf s2" "dq_conf s2 = dq_conf s"
            using st_submit_wf [of i "nat k" off s1 m stamp1 s2] st_submit_conf [of i "nat k" off s1 m stamp1 s2] Some q s1 by simp_all
          let ?st = "if stamp1 = None then stamp else stamp1"
          have st: "(if m = 0 then Some (Some (n, ?st, s2)) else loop e (n + m) ?st s2) = Some y"
            using step False unfolding Some q by (simp only: option.case prod.case Let_def de_Morgan_disj if_False)
          show ?thesis
          proof (cases "m = 0")
            case True
            then have "y = Some (n, ?st, s2)" using st by simp
            then show ?thesis using s2 by simp
          next
            case False
            then have "loop e (n + m) ?st s2 = Some y" using st by simp
            from IH [OF this] show ?thesis by (simp only: s2 ul not_False_eq_True simp_thms)
          qed
        qed
      qed
    qed
  qed
qed

text \<open>
  C34: Streaming request processing leaves a well-typed ring: when every descriptor of the ring was
  empty or had been written by the driver, so is every descriptor afterwards, whatever the requests,
  the status word and the register writes did: its length field equals its payload length, is at
  most a page, and its flags hold only the start and end of packet bits.
\<close>

theorem st_ring_stays_well_formed:
  assumes "descq_proc_st_h2c_request e s = Some (Some (rv, t))" "\<not> is_ul_ext (dq_conf s)" "ring_wf s"
  shows "ring_wf t"
proof -
  consider "dq_q_stop_wait s" | "\<not> dq_q_stop_wait s" "dq_q_state s \<noteq> Q_STATE_ONLINE \<or> dq_proc_req_running s"
    | "\<not> dq_q_stop_wait s" "\<not> (dq_q_state s \<noteq> Q_STATE_ONLINE \<or> dq_proc_req_running s)" by blast
  then show ?thesis
  proof cases
    case 1
    then show ?thesis using assms base_wf [OF cmpl_base [of e s]] by (simp add: descq_proc_st_h2c_request_def)
  next
    case 2
    then show ?thesis using assms by (simp add: descq_proc_st_h2c_request_def)
  next
    case 3
    let ?s = "descq_poll_mm_n_h2c_cmpl_status e s"
    obtain y where y: "st_loop e 0 None ?s = Some y"
      using assms(1) 3 by (auto simp: descq_proc_st_h2c_request_def)
    then obtain w st u where u: "y = Some (w, st, u)" using assms(1) 3 by (cases y) (auto simp: descq_proc_st_h2c_request_def)
    note b = poll_base [of e s]
    have wu: "ring_wf u" using st_loop_wf [OF y] base_wf [OF b] b assms(2,3) u by (simp add: same_base_def)
    define v where "v = (case (qc_ping_pong_en (dq_conf u), st) of (True, Some a) \<Rightarrow> u\<lparr>dq_stamps := dq_stamps u @ [a]\<rparr> | _ \<Rightarrow> u)"
    have wv: "ring_wf v" using wu by (auto simp: v_def ring_wf_def split: option.splits bool.splits)
    have "t = (if w \<noteq> 0 then snd (submit_written e v) else u\<lparr>dq_proc_req_running := False\<rparr>)"
      using assms(1) 3 y u by (auto simp: descq_proc_st_h2c_request_def v_def split: if_splits dest!: arg_cong [of _ _ snd])
    then show ?thesis using wu wv base_wf [OF submit_written_base [of e v]] by (auto simp: ring_wf_def)
  qed
qed

text \<open>A packet submitted to an empty streaming queue: two descriptors are written.\<close>

definition packet_queue :: qdma_descq where
  "packet_queue = (let s = demo_queue (demo_conf True Q_H2C) in
     s\<lparr>dq_req := (dq_req s)(0 := reset_cb demo_req), dq_work_list := [0]\<rparr>)"

lemma packet_queue_wf: "\<not> is_ul_ext (dq_conf packet_queue) \<and> list_all h2c_wf (dq_h2c_ring packet_queue)"
  unfolding h2c_wf_def by code_simp

lemma packet_written:
  "case descq_proc_st_h2c_request (demo_env False) packet_queue of
     Some (Some (rv, t)) \<Rightarrow> map hd_len (dq_h2c_ring t) = [100, 50, 0, 0] | _ \<Rightarrow> False"
  by code_simp

lemma st_ring_stays_well_formed_witness:
  "\<exists>rv t. descq_proc_st_h2c_request (demo_env False) packet_queue = Some (Some (rv, t)) \<and> ring_wf t \<and>
     map hd_len (dq_h2c_ring t) = [100, 50, 0, 0]"
proof -
  obtain rv t where t: "descq_proc_st_h2c_request (demo_env False) packet_queue = Some (Some (rv, t))"
      "map hd_len (dq_h2c_ring t) = [100, 50, 0, 0]"
    using packet_written by (auto split: option.splits)
  have "ring_wf packet_queue" using packet_queue_wf by (simp add: ring_wf_def list_all_iff)
  then have "ring_wf t" using st_ring_stays_well_formed [OF t(1)] packet_queue_wf by simp
  with t show ?thesis by (intro exI [of _ rv] exI [of _ t]) simp
qed

end
