(* ===== verification/Queue_Regs.thy ===== *)
theory Queue_Regs
  imports Descq_Context
begin

text \<open>
  The global registers as the driver keeps them (\<^verbatim>\<open>libqdma/qdma_regs.c\<close> and the reading functions of
  \<^verbatim>\<open>libqdma/libqdma_config.c\<close>): ring sizes, buffer sizes, thresholds and timers, and the order of the counter
  thresholds that the adaptive receive threshold moves along. The functions under \<^verbatim>\<open>QDMA_CSR_REG_UPDATE\<close> are not
  compiled. A device handle is valid unless it is said to be \<open>None\<close>.
\<close>

subsection \<open>The order of the thresholds\<close>

text \<open>
  The next index: among the indices other than the last one whose threshold is not below \<open>least\<close>, one with the
  smallest threshold; \<open>j\<close> and \<open>cv\<close> if there is none. The thresholds are cut to a byte, the comparison is not.
\<close>

definition eligible :: "u32 list \<Rightarrow> nat option \<Rightarrow> u8 \<Rightarrow> nat \<Rightarrow> bool" where
  "eligible th ref least i \<longleftrightarrow> ref \<noteq> Some i \<and> \<not> th ! i < ucast least"

fun scan_from :: "u32 list \<Rightarrow> nat option \<Rightarrow> u8 \<Rightarrow> nat list \<Rightarrow> nat \<Rightarrow> u8 \<Rightarrow> nat \<times> u8" where
  "scan_from th ref least [] idx cv = (idx, cv)"
| "scan_from th ref least (i # is) idx cv =
     (if eligible th ref least i \<and> th ! i \<le> ucast cv then scan_from th ref least is i (ucast (th ! i))
      else scan_from th ref least is idx cv)"

fun pick_next :: "u32 list \<Rightarrow> nat option \<Rightarrow> u8 \<Rightarrow> nat list \<Rightarrow> nat \<Rightarrow> u8 \<Rightarrow> nat \<times> u8" where
  "pick_next th ref least [] j cv = (j, cv)"
| "pick_next th ref least (i # is) j cv =
     (if eligible th ref least i then scan_from th ref least (i # is) i (ucast (th ! i))
      else pick_next th ref least is j cv)"

fun sort_thresholds :: "nat \<Rightarrow> u32 list \<Rightarrow> nat \<Rightarrow> nat option \<Rightarrow> u8 \<Rightarrow> u8 \<Rightarrow> u8 list" where
  "sort_thresholds 0 th j ref least cv = []"
| "sort_thresholds (Suc n) th j ref least cv =
     (let (idx, cv1) = pick_next th ref least [0..<QDMA_GLOBAL_CSR_ARRAY_SZ] j cv in
      of_nat idx # sort_thresholds n th (j + 1) (Some idx) cv1 cv1)"

definition qdma_sort_c2h_cntr_th_values :: "xlnx_dma_dev \<Rightarrow> xlnx_dma_dev" where
  "qdma_sort_c2h_cntr_th_values x =
     (let th = gc_c2h_cnt_th (xd_csr_info x) in
      x\<lparr>xd_sorted_c2h_cntr_idx := sort_thresholds QDMA_GLOBAL_CSR_ARRAY_SZ th 0 None 0 (ucast (th ! 0))\<rparr>)"

subsection \<open>Reading the global registers\<close>

text \<open>
  One read: an error other than a missing feature ends the reading with its code converted; after a missing feature
  the values stay as they were.
\<close>

definition csr_field ::
  "bool \<Rightarrow> int \<times> 'v option \<times> hw_log \<Rightarrow> ('v \<Rightarrow> global_csr_conf \<Rightarrow> global_csr_conf) \<Rightarrow> global_csr_conf
     \<Rightarrow> (global_csr_conf \<Rightarrow> hw_log \<Rightarrow> int \<times> global_csr_conf \<times> hw_log) \<Rightarrow> int \<times> global_csr_conf \<times> hw_log" where
  "csr_field optional r put csr f =
     (let (rv, v, s) = r in
      if rv < 0 \<and> \<not> (optional \<and> rv = neg_err QDMA_ERR_HWACC_FEATURE_NOT_SUPPORTED) then (qdma_get_err_code rv, csr, s)
      else f (case v of None \<Rightarrow> csr | Some w \<Rightarrow> put w csr) s)"

definition csr_read_arrays :: "dev_hndl \<Rightarrow> global_csr_conf \<Rightarrow> hw_log \<Rightarrow> int \<times> global_csr_conf \<times> hw_log" where
  "csr_read_arrays dev csr s =
     (let n = of_nat QDMA_GLOBAL_CSR_ARRAY_SZ in
      csr_field False (qdma_global_csr_conf dev 0 n (Some (gc_ring_sz csr)) QDMA_CSR_RING_SZ QDMA_HW_ACCESS_READ s)
        (\<lambda>v c. c\<lparr>gc_ring_sz := v\<rparr>) csr (\<lambda>csr s.
      csr_field True (qdma_global_writeback_interval_read dev (Some (gc_wb_intvl csr)) s) (\<lambda>v c. c\<lparr>gc_wb_intvl := v\<rparr>) csr (\<lambda>csr s.
      csr_field True (qdma_global_csr_conf dev 0 n (Some (gc_c2h_buf_sz csr)) QDMA_CSR_BUF_SZ QDMA_HW_ACCESS_READ s)
        (\<lambda>v c. c\<lparr>gc_c2h_buf_sz := v\<rparr>) csr (\<lambda>csr s.
      csr_field True (qdma_global_csr_conf dev 0 n (Some (gc_c2h_timer_cnt csr)) QDMA_CSR_TIMER_CNT QDMA_HW_ACCESS_READ s)
        (\<lambda>v c. c\<lparr>gc_c2h_timer_cnt := v\<rparr>) csr (\<lambda>csr s.
      csr_field True (qdma_global_csr_conf dev 0 n (Some (gc_c2h_cnt_th csr)) QDMA_CSR_CNT_TH QDMA_HW_ACCESS_READ s)
        (\<lambda>v c. c\<lparr>gc_c2h_cnt_th := v\<rparr>) csr (\<lambda>csr s. (0, csr, s)))))))"

text \<open>Into the device itself; then the thresholds are sorted.\<close>

definition qdma_csr_read :: "dev_hndl \<Rightarrow> xlnx_dma_dev \<Rightarrow> hw_log \<Rightarrow> int \<times> xlnx_dma_dev \<times> hw_log" where
  "qdma_csr_read dev x s =
     (let (rv, csr, s1) = csr_read_arrays dev (xd_csr_info x) s; x1 = x\<lparr>xd_csr_info := csr\<rparr> in
      if rv < 0 then (rv, x1, s1) else (0, qdma_sort_c2h_cntr_th_values x1, s1))"

text \<open>
  For a user: the values the driver holds while queues are in use, otherwise those of the registers, with the
  ring sizes of the range reduced by the entry for the status. The result of the reading is not looked at.
\<close>

definition decr_range :: "nat \<Rightarrow> nat \<Rightarrow> u32 list \<Rightarrow> u32 list" where
  "decr_range i n a = map (\<lambda>(k, v). if i \<le> k \<and> k < i + n then v - 1 else v) (zip [0..<length a] a)"

definition qdma_global_csr_get ::
  "dev_hndl \<Rightarrow> bool \<Rightarrow> xlnx_dma_dev \<Rightarrow> u8 \<Rightarrow> u8 \<Rightarrow> global_csr_conf \<Rightarrow> hw_log \<Rightarrow> int \<times> global_csr_conf \<times> xlnx_dma_dev \<times> hw_log" where
  "qdma_global_csr_get dev queues_active x index count csr s =
     (if unat index + unat count > QDMA_GLOBAL_CSR_ARRAY_SZ then (- EINVAL, csr, x, s)
      else
        (let (csr1, x1, s1) =
           (if queues_active then (xd_csr_info x, x, s)
            else (let (rv, csr1, s1) = csr_read_arrays dev csr s in
                  (csr1, if rv < 0 then x else qdma_sort_c2h_cntr_th_values x, s1))) in
         (0, csr1\<lparr>gc_ring_sz := decr_range (unat index) (unat count) (gc_ring_sz csr1)\<rparr>, x1, s1)))"

text \<open>The sizes in the caller's array are changed in place.\<close>

definition incr_range :: "nat \<Rightarrow> nat \<Rightarrow> u32 list \<Rightarrow> u32 list" where
  "incr_range i n a = map (\<lambda>(k, v). if i \<le> k \<and> k < i + n then v + 1 else v) (zip [0..<length a] a)"

definition qdma_set_ring_sizes :: "dev_hndl \<Rightarrow> u8 \<Rightarrow> u8 \<Rightarrow> u32 list option \<Rightarrow> hw_log \<Rightarrow> int \<times> u32 list option \<times> hw_log" where
  "qdma_set_ring_sizes dev index count sizes s =
     (case sizes of
        None \<Rightarrow> (- EINVAL, None, s)
      | Some a \<Rightarrow>
          (let a1 = incr_range (unat index) (unat count) a;
               (rv, _, s1) = qdma_global_csr_conf dev index count (Some a1) QDMA_CSR_RING_SZ QDMA_HW_ACCESS_WRITE s in
           (if rv \<noteq> 0 then - EINVAL else 0, Some a1, s1)))"

definition qdma_get_ring_sizes :: "dev_hndl \<Rightarrow> u8 \<Rightarrow> u8 \<Rightarrow> u32 list option \<Rightarrow> hw_log \<Rightarrow> int \<times> u32 list option \<times> hw_log" where
  "qdma_get_ring_sizes dev index count sizes s =
     (case sizes of
        None \<Rightarrow> (- EINVAL, None, s)
      | Some a \<Rightarrow>
          (let (rv, v, s1) = qdma_global_csr_conf dev index count (Some a) QDMA_CSR_RING_SZ QDMA_HW_ACCESS_READ s in
           if rv \<noteq> 0 then (- EINVAL, v, s1)
           else (0, map_option (decr_range (unat index) (unat count)) v, s1)))"

subsection \<open>Single values\<close>

text \<open>A caller-supplied array is \<open>None\<close> when its pointer is null; the hardware access checks it.\<close>

definition get_csr_array ::
  "bool \<Rightarrow> qdma_global_csr_type \<Rightarrow> dev_hndl \<Rightarrow> u32 list option \<Rightarrow> hw_log \<Rightarrow> int \<times> u32 list option \<times> hw_log" where
  "get_csr_array convert ty dev vals s =
     (let (rv, v, s1) = qdma_global_csr_conf dev 0 (of_nat QDMA_GLOBAL_CSR_ARRAY_SZ) vals ty QDMA_HW_ACCESS_READ s in
      (if convert then (if rv < 0 then qdma_get_err_code rv else 0) else if rv \<noteq> 0 then - EINVAL else 0, v, s1))"

definition qdma_get_buf_sz :: "dev_hndl \<Rightarrow> u32 list option \<Rightarrow> hw_log \<Rightarrow> int \<times> u32 list option \<times> hw_log" where
  "qdma_get_buf_sz = get_csr_array False QDMA_CSR_BUF_SZ"

definition qdma_get_glbl_rng_sz :: "dev_hndl \<Rightarrow> u32 list option \<Rightarrow> hw_log \<Rightarrow> int \<times> u32 list option \<times> hw_log" where
  "qdma_get_glbl_rng_sz = get_csr_array False QDMA_CSR_RING_SZ"

definition qdma_get_timer_cnt :: "dev_hndl \<Rightarrow> u32 list option \<Rightarrow> hw_log \<Rightarrow> int \<times> u32 list option \<times> hw_log" where
  "qdma_get_timer_cnt = get_csr_array True QDMA_CSR_TIMER_CNT"

definition qdma_get_cnt_thresh :: "dev_hndl \<Rightarrow> u32 list option \<Rightarrow> hw_log \<Rightarrow> int \<times> u32 list option \<times> hw_log" where
  "qdma_get_cnt_thresh = get_csr_array True QDMA_CSR_CNT_TH"

text \<open>An error code is returned as an unsigned number.\<close>

definition qdma_get_wb_intvl :: "dev_hndl \<Rightarrow> hw_log \<Rightarrow> u32 \<times> hw_log" where
  "qdma_get_wb_intvl dev s =
     (let (rv, v, s1) = qdma_global_writeback_interval_read dev (Some 0) s in
      (if rv < 0 then word_of_int (qdma_get_err_code rv) else (case v of None \<Rightarrow> 0 | Some w \<Rightarrow> w), s1))"

definition qdma_get_intr_rngsz :: "xlnx_dma_dev \<Rightarrow> u32" where
  "qdma_get_intr_rngsz x = (if indirect_mode x then ucast (xd_intr_rngsz x) else 0)"

subsection \<open>The thresholds are sorted\<close>

lemma ucast_byte: "w < 256 \<Longrightarrow> ucast (ucast w :: u8) = w" for w :: u32
  by (simp add: word_unat_eq_iff unsigned_ucast_eq unsigned_take_bit_eq take_bit_nat_eq_self word_less_nat_alt)

definition bytes16 :: "u32 list \<Rightarrow> bool" where
  "bytes16 th \<longleftrightarrow> length th = 16 \<and> distinct th \<and> (\<forall>w\<in>set th. w < 256)"

lemma bytes16_neq: "bytes16 th \<Longrightarrow> i < 16 \<Longrightarrow> k < 16 \<Longrightarrow> i \<noteq> k \<Longrightarrow> th ! i \<noteq> th ! k"
  by (simp add: bytes16_def nth_eq_iff_index_eq)

text \<open>What is picked is the smallest of the candidates of a list.\<close>

lemma scan_min:
  assumes "\<forall>i\<in>set is. th ! i < 256" "th ! idx < 256" "cv = ucast (th ! idx)"
  shows "\<exists>k. scan_from th ref least is idx cv = (k, ucast (th ! k)) \<and>
    (k = idx \<or> k \<in> set is \<and> eligible th ref least k) \<and> th ! k \<le> th ! idx \<and>
    (\<forall>i\<in>set is. eligible th ref least i \<longrightarrow> th ! k \<le> th ! i)"
  using assms
proof (induction "is" arbitrary: idx cv)
  case (Cons i "is")
  have c: "ucast cv = th ! idx" using Cons.prems(2,3) ucast_byte by simp
  show ?case
  proof (cases "eligible th ref least i \<and> th ! i \<le> th ! idx")
    case True
    have "\<exists>k. scan_from th ref least is i (ucast (th ! i)) = (k, ucast (th ! k)) \<and>
        (k = i \<or> k \<in> set is \<and> eligible th ref least k) \<and> th ! k \<le> th ! i \<and>
        (\<forall>i\<in>set is. eligible th ref least i \<longrightarrow> th ! k \<le> th ! i)"
      using Cons.prems(1) by (intro Cons.IH) simp_all
    then show ?thesis using True c by (auto intro: order_trans)
  next
    case False
    have "\<exists>k. scan_from th ref least is idx cv = (k, ucast (th ! k)) \<and>
        (k = idx \<or> k \<in> set is \<and> eligible th ref least k) \<and> th ! k \<le> th ! idx \<and>
        (\<forall>i\<in>set is. eligible th ref least i \<longrightarrow> th ! k \<le> th ! i)"
      using Cons.prems by (intro Cons.IH) simp_all
    then show ?thesis using False c by (auto simp: linorder_not_le intro: order_trans less_imp_le)
  qed
qed auto

lemma pick_min:
  assumes "\<forall>i\<in>set is. th ! i < 256" "\<exists>i\<in>set is. eligible th ref least i"
  shows "\<exists>k\<in>set is. pick_next th ref least is j cv = (k, ucast (th ! k)) \<and> eligible th ref least k \<and>
    (\<forall>i\<in>set is. eligible th ref least i \<longrightarrow> th ! k \<le> th ! i)"
  using assms
proof (induction "is")
  case (Cons i "is")
  show ?case
  proof (cases "eligible th ref least i")
    case True
    obtain k where "scan_from th ref least (i # is) i (ucast (th ! i)) = (k, ucast (th ! k))"
      "k = i \<or> k \<in> set (i # is) \<and> eligible th ref least k" "\<forall>m\<in>set (i # is). eligible th ref least m \<longrightarrow> th ! k \<le> th ! m"
      using scan_min [of "i # is" th i "ucast (th ! i)" ref least] Cons.prems(1) by auto
    then show ?thesis using True by (intro bexI [of _ k]) auto
  next
    case False
    then have "\<exists>k\<in>set is. pick_next th ref least is j cv = (k, ucast (th ! k)) \<and> eligible th ref least k \<and>
      (\<forall>i\<in>set is. eligible th ref least i \<longrightarrow> th ! k \<le> th ! i)"
      using Cons.prems by (intro Cons.IH) auto
    then show ?thesis using False by auto
  qed
qed simp

text \<open>
  After \<open>n\<close> turns the indices found are the \<open>n\<close> smallest: \<open>done\<close> are those found so far, the last one is the largest of them.
\<close>

lemma sort_rest:
  assumes "bytes16 th" "Suc n = 16 - card D" "D \<subseteq> {..<16}" "finite D"
    and "D = {} \<longrightarrow> ref = None \<and> least = 0"
    and "D \<noteq> {} \<longrightarrow> (\<exists>r\<in>D. ref = Some r \<and> ucast least = th ! r \<and> (\<forall>i\<in>D. th ! i \<le> th ! r) \<and> (\<forall>i\<in>{..<16} - D. th ! r < th ! i))"
  shows "\<exists>k\<in>{..<16} - D. pick_next th ref least [0..<16] j cv = (k, ucast (th ! k)) \<and> (\<forall>i\<in>{..<16} - D. th ! k \<le> th ! i)"
proof -
  have el: "eligible th ref least i \<longleftrightarrow> i \<notin> D" if "i < 16" for i
  proof (cases "D = {}")
    case True
    then show ?thesis using assms(5) by (simp add: eligible_def)
  next
    case False
    then obtain r where r: "r \<in> D" "ref = Some r" "ucast least = th ! r" "\<forall>i\<in>D. th ! i \<le> th ! r" "\<forall>i\<in>{..<16} - D. th ! r < th ! i"
      using assms(6) by blast
    have "i \<in> D \<Longrightarrow> i \<noteq> r \<Longrightarrow> th ! i < th ! r"
      using r(1,4) bytes16_neq [OF assms(1) that, of r] assms(3) by (auto simp: order_le_less)
    moreover have "i \<notin> D \<Longrightarrow> \<not> th ! i < th ! r" using r(5) that by (auto simp: linorder_not_less intro: less_imp_le)
    ultimately show ?thesis using r(1-3) by (auto simp: eligible_def)
  qed
  have "D \<noteq> {..<16}" using assms(2) by auto
  then obtain m where "m \<in> {..<16} - D" using assms(3) by blast
  then have "\<exists>i\<in>set [0..<16]. eligible th ref least i" using el [of m] by auto
  moreover have "\<forall>i\<in>set [0..<16]. th ! i < 256" using assms(1) by (auto simp: bytes16_def)
  ultimately obtain k where "k \<in> set [0..<16]" "pick_next th ref least [0..<16] j cv = (k, ucast (th ! k))" "eligible th ref least k"
    "\<forall>i\<in>set [0..<16]. eligible th ref least i \<longrightarrow> th ! k \<le> th ! i"
    using pick_min [of "[0..<16]" th ref least j cv] by blast
  then show ?thesis using el by (intro bexI [of _ k]) auto
qed

lemma sort_rest_all:
  assumes "bytes16 th" "n = 16 - card D" "D \<subseteq> {..<16}" "finite D"
    and "D = {} \<longrightarrow> ref = None \<and> least = 0"
    and "D \<noteq> {} \<longrightarrow> (\<exists>r\<in>D. ref = Some r \<and> ucast least = th ! r \<and> (\<forall>i\<in>D. th ! i \<le> th ! r) \<and> (\<forall>i\<in>{..<16} - D. th ! r < th ! i))"
  shows "\<exists>ks. sort_thresholds n th j ref least cv = map of_nat ks \<and> length ks = n \<and> distinct ks \<and> set ks = {..<16} - D \<and>
    sorted (map ((!) th) ks)"
  using assms(2-)
proof (induction n arbitrary: D j ref least cv)
  case 0
  have "card D = 16" using 0(1) card_mono [OF _ 0(2)] by simp
  then have "D = {..<16}" using 0(2) card_subset_eq [of "{..<16 :: nat}" D] by simp
  then show ?case by simp
next
  case (Suc n)
  obtain k where k: "k \<in> {..<16} - D" "pick_next th ref least [0..<16] j cv = (k, ucast (th ! k))" "\<forall>i\<in>{..<16} - D. th ! k \<le> th ! i"
    using sort_rest [OF assms(1) Suc.prems] by blast
  have byte: "th ! k < 256" using k(1) assms(1) by (auto simp: bytes16_def)
  have less: "th ! k < th ! i" if "i \<in> {..<16} - insert k D" for i
    using k(1,3) that bytes16_neq [OF assms(1), of k i] by (auto simp: order_le_less)
  have above: "th ! i \<le> th ! k" if "i \<in> D" for i
  proof -
    note mem = that
    obtain r where "\<forall>i\<in>D. th ! i \<le> th ! r" "\<forall>i\<in>{..<16} - D. th ! r < th ! i" using Suc.prems(5) mem by blast
    then have "th ! i \<le> th ! r" "th ! r < th ! k" using mem k(1) by blast+
    then show ?thesis by simp
  qed
  have "card (insert k D) = Suc (card D)" using k(1) Suc.prems(3) by simp
  then have "n = 16 - card (insert k D)" using Suc.prems(1) by simp
  then have "\<exists>ks. sort_thresholds n th (j + 1) (Some k) (ucast (th ! k)) (ucast (th ! k)) = map of_nat ks \<and> length ks = n \<and>
      distinct ks \<and> set ks = {..<16} - insert k D \<and> sorted (map ((!) th) ks)"
    using k(1) Suc.prems(2,3) less above ucast_byte [OF byte] by (intro Suc.IH) auto
  then obtain ks where ks: "sort_thresholds n th (j + 1) (Some k) (ucast (th ! k)) (ucast (th ! k)) = map of_nat ks" "length ks = n"
      "distinct ks" "set ks = {..<16} - insert k D" "sorted (map ((!) th) ks)"
    by blast
  have "sort_thresholds (Suc n) th j ref least cv = map of_nat (k # ks)"
    using k(2) ks(1) by (simp add: QDMA_GLOBAL_CSR_ARRAY_SZ_def)
  moreover have "set (k # ks) = {..<16} - D" using ks(4) k(1) by auto
  moreover have "sorted (map ((!) th) (k # ks))" using ks(4,5) less by (auto intro: less_imp_le)
  ultimately show ?case using ks(2-4) by (intro exI [of _ "k # ks"]) auto
qed

definition some_csr :: global_csr_conf where
  "some_csr = \<lparr>gc_ring_sz = replicate 16 65, gc_c2h_timer_cnt = replicate 16 1,
     gc_c2h_cnt_th = [9, 4, 8, 16, 24, 32, 48, 64, 80, 2, 112, 128, 144, 160, 176, 192], gc_c2h_buf_sz = replicate 16 4096, gc_wb_intvl = 0\<rparr>"

definition some_dev :: xlnx_dma_dev where
  "some_dev = \<lparr>xd_drv_mode = POLL_MODE, xd_ip_type = QDMA_SOFT_IP, xd_csr_info = some_csr, xd_sorted_c2h_cntr_idx = replicate 16 0,
     xd_func_id = 0, xd_num_vecs = 0, xd_dvec_start_idx = 0, xd_data_msix_qvec_max = 0, xd_intr_list_cnt = [], xd_intr_rngsz = 0,
     xd_intr_coal_list = [], xd_dev_cap = zero_dev_attributes, xd_total_mm_h2c_pkts = 0, xd_total_mm_c2h_pkts = 0,
     xd_total_st_h2c_pkts = 0, xd_total_st_c2h_pkts = 0, xd_intr_moderation = False, xd_ping_pong_lat_min = 0,
     xd_ping_pong_lat_max = 0, xd_ping_pong_lat_total = 0\<rparr>"

text \<open>
  C38: The adaptive receive threshold moves along a sorted list: when the 16 counter thresholds of the
  device are distinct and fit a byte, as the ones the driver programs do, the index list
  that \<^verbatim>\<open>qdma_sort_c2h_cntr_th_values\<close> makes has every index exactly once, in the order of their thresholds.
\<close>

theorem thresholds_sorted:
  assumes "bytes16 (gc_c2h_cnt_th (xd_csr_info x))"
  shows "let ks = map unat (xd_sorted_c2h_cntr_idx (qdma_sort_c2h_cntr_th_values x)) in
    distinct ks \<and> set ks = {0..<16} \<and> sorted (map ((!) (gc_c2h_cnt_th (xd_csr_info x))) ks)"
proof -
  let ?th = "gc_c2h_cnt_th (xd_csr_info x)"
  obtain ks where ks: "sort_thresholds 16 ?th 0 None 0 (ucast (?th ! 0)) = map of_nat ks" "length ks = 16" "distinct ks"
      "set ks = {..<16} - {}" "sorted (map ((!) ?th) ks)"
    using sort_rest_all [OF assms, of 16 "{}" None 0 0 "ucast (?th ! 0)"] by auto
  have "unat (of_nat k :: u8) = k" if "k \<in> set ks" for k
    using ks(4) that by (simp add: unat_of_nat take_bit_nat_eq_self)
  then have "map (\<lambda>k. unat (of_nat k :: u8)) ks = ks" by (rule map_idI)
  then show ?thesis
    using ks by (simp add: qdma_sort_c2h_cntr_th_values_def QDMA_GLOBAL_CSR_ARRAY_SZ_def Let_def atLeast0LessThan comp_def)
qed

theorem thresholds_sorted_witness:
  "let ks = map unat (xd_sorted_c2h_cntr_idx (qdma_sort_c2h_cntr_th_values (some_dev\<lparr>xd_csr_info := some_csr\<rparr>))) in
    distinct ks \<and> set ks = {0..<16} \<and> sorted (map ((!) [9, 4, 8, 16, 24, 32, 48, 64, 80, 2, 112, 128, 144, 160, 176, 192 :: u32]) ks)"
proof -
  have "bytes16 (gc_c2h_cnt_th (xd_csr_info (some_dev\<lparr>xd_csr_info := some_csr\<rparr>)))"
    by (simp add: bytes16_def some_csr_def)
  from thresholds_sorted [OF this] show ?thesis by (simp add: some_csr_def)
qed

text \<open>With two equal smallest thresholds the list never gets beyond them.\<close>

lemma equal_thresholds_starve:
  "sort_thresholds 16 [2, 2, 8, 16, 24, 32, 48, 64, 80, 4, 112, 128, 144, 160, 176, 192] 0 None 0 2 =
    [1, 0, 1, 0, 1, 0, 1, 0, 1, 0, 1, 0, 1, 0, 1, 0]"
  by code_simp

end
