(* ===== verification/Queue_Life.thy ===== *)
theory Queue_Life
  imports Queue_Regs Descq_Submit
begin

text \<open>
  The life of a queue (\<^verbatim>\<open>libqdma/libqdma_export.c\<close>, \<^verbatim>\<open>qdma_device.c\<close>, \<^verbatim>\<open>qdma_thread.c\<close> and the legacy interrupt
  of \<^verbatim>\<open>qdma_intr.c\<close>): adding, configuring, starting, stopping and removing queues on the device of a physical function.
  The three arrays of descriptor queues are adjacent in one allocation, so they are one list; a queue is its place in
  it: the host-to-card queues first, then the card-to-host queues, then the completion queues. A queue operation runs on
  the queue with the device and the hardware log of the state, which it gives back. Messages to the user and the names
  of queues are not modelled. Every operation that takes a handle and a message buffer checks them first;
  \<open>args\<close> says whether these checks pass.
\<close>

definition ENXIO :: int where "ENXIO = 6"
definition ERANGE :: int where "ERANGE = 34"
definition QDMA_QUEUE_IDX_INVALID :: "24 word" where "QDMA_QUEUE_IDX_INVALID = 0xFFFF"
definition QDMA_DESC_ENG_BYPASS_ONLY :: "2 word" where "QDMA_DESC_ENG_BYPASS_ONLY = 1"
definition QDMA_DESC_ENG_INTERNAL_ONLY :: "2 word" where "QDMA_DESC_ENG_INTERNAL_ONLY = 2"
definition CMPT_DESC_SZ_64B :: "2 word" where "CMPT_DESC_SZ_64B = 3"

subsection \<open>The state\<close>

text \<open>
  \<open>ls_up\<close> says whether the queues are allocated, \<open>ls_late\<close> whether the design is of Vivado 2020.2 or later,
  \<open>ls_bus\<close> is the number of the PCI bus. \<open>ls_intr\<close> lists the queues of each interrupt vector, \<open>ls_legacy\<close> those of the
  legacy interrupt. A queue in interrupt mode is counted on the processor \<open>ls_cpu\<close>; a polled queue is on the
  list of the thread \<open>ls_thread\<close>.
\<close>

record qdma_kthread =
  th_work_list :: "nat list"
  th_work_cnt :: u32

record dev_state =
  ls_x :: xlnx_dma_dev
  ls_log :: hw_log
  ls_qsets_max :: int
  ls_qsets_base :: int
  ls_master_pf :: bool
  ls_late :: bool
  ls_idx :: int
  ls_bus :: int
  ls_up :: bool
  ls_init_qrange :: bool
  ls_qmax :: u16
  ls_qbase :: u16
  ls_descq :: "qdma_descq list"
  ls_rm :: rm_state
  ls_intr :: "nat list list"
  ls_legacy :: "nat list"
  ls_percpu :: "u32 list"
  ls_cpu :: "nat \<Rightarrow> nat option"
  ls_threads :: "qdma_kthread list"
  ls_thread :: "nat \<Rightarrow> nat option"

definition qmax :: "dev_state \<Rightarrow> nat" where "qmax s = unat (ls_qmax s)"

definition h2c_descq :: "dev_state \<Rightarrow> nat" where "h2c_descq s = 0"
definition c2h_descq :: "dev_state \<Rightarrow> nat" where "c2h_descq s = qmax s"
definition cmpt_descq :: "dev_state \<Rightarrow> nat" where "cmpt_descq s = 2 * qmax s"

definition base_of :: "dev_state \<Rightarrow> queue_type_t \<Rightarrow> nat" where
  "base_of s ty = (case ty of Q_C2H \<Rightarrow> c2h_descq s | Q_H2C \<Rightarrow> h2c_descq s | _ \<Rightarrow> cmpt_descq s)"

definition upd_q :: "nat \<Rightarrow> (qdma_descq \<Rightarrow> qdma_descq) \<Rightarrow> dev_state \<Rightarrow> dev_state" where
  "upd_q p f s = s\<lparr>ls_descq := (ls_descq s)[p := f (ls_descq s ! p)]\<rparr>"

definition set_q_state :: "nat \<Rightarrow> q_state_t \<Rightarrow> dev_state \<Rightarrow> dev_state" where
  "set_q_state p st = upd_q p (\<lambda>d. d\<lparr>dq_q_state := st\<rparr>)"

text \<open>A queue with the device and the log, and the state after an operation on it.\<close>

definition load_q :: "nat \<Rightarrow> dev_state \<Rightarrow> qdma_descq" where
  "load_q p s = (ls_descq s ! p)\<lparr>dq_xdev := ls_x s, dq_log := ls_log s\<rparr>"

definition store_q :: "nat \<Rightarrow> qdma_descq \<Rightarrow> dev_state \<Rightarrow> dev_state" where
  "store_q p d s = s\<lparr>ls_descq := (ls_descq s)[p := d], ls_x := dq_xdev d, ls_log := dq_log d\<rparr>"

subsection \<open>Finding a queue\<close>

definition qdma_device_get_descq_by_id :: "nat \<Rightarrow> bool \<Rightarrow> dev_state \<Rightarrow> nat option" where
  "qdma_device_get_descq_by_id idx init s =
     (if \<not> ls_up s then None
      else
        (let p = (if idx \<ge> qmax s
                  then (if idx - qmax s \<ge> qmax s
                        then (if idx - qmax s - qmax s \<ge> qmax s then None else Some (cmpt_descq s + (idx - qmax s - qmax s)))
                        else Some (c2h_descq s + (idx - qmax s)))
                  else Some (h2c_descq s + idx)) in
         case p of
           None \<Rightarrow> None
         | Some p \<Rightarrow> if init \<and> dq_q_state (ls_descq s ! p) = Q_STATE_DISABLED then None else Some p))"

definition qdma_device_get_pair_descq_by_id :: "nat \<Rightarrow> bool \<Rightarrow> dev_state \<Rightarrow> nat option" where
  "qdma_device_get_pair_descq_by_id idx init s =
     (if \<not> ls_up s then None
      else
        (let p = (if idx \<ge> qmax s
                  then (if idx - qmax s \<ge> qmax s then None else Some (h2c_descq s + (idx - qmax s)))
                  else Some (c2h_descq s + idx)) in
         case p of
           None \<Rightarrow> None
         | Some p \<Rightarrow> if init \<and> dq_q_state (ls_descq s ! p) = Q_STATE_DISABLED then None else Some p))"

text \<open>No check: the place may be outside.\<close>

definition qdma_device_get_descq_by_hw_qid :: "nat \<Rightarrow> bool \<Rightarrow> dev_state \<Rightarrow> int option" where
  "qdma_device_get_descq_by_hw_qid qidx_hw c2h s =
     (if \<not> ls_up s then None
      else Some (int (if c2h then c2h_descq s else h2c_descq s) + (int qidx_hw - int (unat (ls_qbase s)))))"

text \<open>The search starts at the array of the type of the queue and covers two arrays.\<close>

definition qdma_device_get_id_from_descq :: "nat \<Rightarrow> dev_state \<Rightarrow> int" where
  "qdma_device_get_id_from_descq p s =
     (if \<not> ls_up s then - EINVAL
      else
        (let b = base_of s (qc_q_type (dq_conf (ls_descq s ! p))) in
         case find (\<lambda>k. b + k = p) [0..<2 * qmax s] of None \<Rightarrow> - EINVAL | Some k \<Rightarrow> int (b + k)))"

subsection \<open>Adding a queue\<close>

definition dev_q_type :: "queue_type_t \<Rightarrow> qdma_dev_q_type" where
  "dev_q_type ty = (case ty of Q_H2C \<Rightarrow> QDMA_DEV_Q_TYPE_H2C | Q_C2H \<Rightarrow> QDMA_DEV_Q_TYPE_C2H
     | Q_CMPT \<Rightarrow> QDMA_DEV_Q_TYPE_CMPT | _ \<Rightarrow> QDMA_DEV_Q_TYPE_MAX)"

definition qdma_validate_qconfig :: "xlnx_dma_dev \<Rightarrow> qdma_queue_conf \<Rightarrow> int" where
  "qdma_validate_qconfig x q =
     (if qc_cmpl_trig_mode q > TRIG_MODE_COMBO then - EINVAL
      else if xd_ip_type x = QDMA_VERSAL_HARD_IP \<and>
              (qc_cmpl_desc_sz q = CMPT_DESC_SZ_64B \<or> qc_sw_desc_sz q = DESC_SZ_64B \<or> qc_cmpl_trig_mode q = TRIG_MODE_COMBO)
      then - EINVAL
      else 0)"

text \<open>The four bits of the mask: which of the three queues of the index are in use, and whether one of the first two streams.\<close>

definition is_usable_queue :: "dev_state \<Rightarrow> nat \<Rightarrow> queue_type_t \<Rightarrow> bool \<Rightarrow> bool" where
  "is_usable_queue s qidx ty st =
     (let used = (\<lambda>p. dq_q_state (ls_descq s ! p) \<noteq> Q_STATE_DISABLED); streams = (\<lambda>p. qc_st (dq_conf (ls_descq s ! p)));
          ph = h2c_descq s + qidx; pc = c2h_descq s + qidx;
          h = used ph; c = used pc; m = used (cmpt_descq s + qidx); mode = (h \<and> streams ph \<or> c \<and> streams pc) in
      case ty of
        Q_CMPT \<Rightarrow> \<not> (m \<or> mode)
      | Q_H2C \<Rightarrow> \<not> (st \<and> m) \<and> \<not> (st \<and> c \<and> \<not> mode) \<and> \<not> (\<not> st \<and> c \<and> mode) \<and> \<not> h
      | _ \<Rightarrow> \<not> (st \<and> m) \<and> \<not> (st \<and> h \<and> \<not> mode) \<and> \<not> (\<not> st \<and> h \<and> mode) \<and> \<not> c)"

text \<open>
  Without an index the descriptor pointer moves along with the search and is advanced by the index once more when
  it has found one, so that it is the queue at twice the index; \<open>None\<close> if that is outside the allocation.
\<close>

definition pick_queue :: "dev_state \<Rightarrow> qdma_queue_conf \<Rightarrow> (int + nat \<times> 24 word) option" where
  "pick_queue s q =
     (let b = base_of s (qc_q_type q) in
      if qc_qidx q = QDMA_QUEUE_IDX_INVALID
      then (case find (\<lambda>i. is_usable_queue s i (qc_q_type q) (qc_st q)) [0..<qmax s] of
              None \<Rightarrow> Some (Inl (- EPERM))
            | Some i \<Rightarrow> if b + i + i < length (ls_descq s) then Some (Inr (b + i + i, of_nat i)) else None)
      else if \<not> is_usable_queue s (unat (qc_qidx q)) (qc_q_type q) (qc_st q) then Some (Inl (- EPERM))
      else Some (Inr (b + unat (qc_qidx q), qc_qidx q)))"

text \<open>The range of the function and the global registers, once.\<close>

definition device_set_qrange :: "dev_hndl \<Rightarrow> dev_state \<Rightarrow> int \<times> dev_state" where
  "device_set_qrange dev s =
     (if \<not> ls_up s then (- EINVAL, s)
      else
        (let (rv, _, log) = qdma_fmap_conf dev (ucast (xd_func_id (ls_x s))) (Some \<lparr>fm_qbase = ls_qbase s, fm_qmax = ls_qmax s\<rparr>)
               QDMA_HW_ACCESS_WRITE (ls_log s); s1 = s\<lparr>ls_log := log\<rparr> in
         if rv < 0 then (qdma_get_err_code rv, s1) else (rv, s1\<lparr>ls_init_qrange := True\<rparr>)))"

definition qdma_device_prep_q_resource :: "dev_hndl \<Rightarrow> dev_state \<Rightarrow> int \<times> dev_state" where
  "qdma_device_prep_q_resource dev s =
     (if ls_init_qrange s then (0, s)
      else
        (let (rv, x, log) = qdma_csr_read dev (ls_x s) (ls_log s); s1 = s\<lparr>ls_x := x, ls_log := log\<rparr> in
         if rv < 0 then (rv, s1) else device_set_qrange dev s1))"

text \<open>The legacy interrupt serves one queue; \<open>irq\<close> is the result of its registration.\<close>

definition intr_legacy_clear :: "dev_hndl \<Rightarrow> nat \<Rightarrow> dev_state \<Rightarrow> dev_state" where
  "intr_legacy_clear dev p s =
     (let s1 = s\<lparr>ls_legacy := remove1 p (ls_legacy s)\<rparr> in
      if ls_legacy s1 = [] then s1\<lparr>ls_log := snd (qdma_legacy_intr_conf dev DISABLE (ls_log s1))\<rparr> else s1)"

definition intr_legacy_setup :: "dev_hndl \<Rightarrow> int \<Rightarrow> nat \<Rightarrow> dev_state \<Rightarrow> int \<times> dev_state" where
  "intr_legacy_setup dev irq p s =
     (if ls_legacy s \<noteq> [] then (1, s\<lparr>ls_legacy := ls_legacy s @ [p]\<rparr>)
      else
        (let (rv, log) = qdma_legacy_intr_conf dev DISABLE (ls_log s); s1 = s\<lparr>ls_log := log\<rparr> in
         if rv \<noteq> 0 then (- EINVAL, s1)
         else if irq < 0 then (irq, s1)
         else
           (let s2 = s1\<lparr>ls_legacy := ls_legacy s1 @ [p]\<rparr>; (rv, log) = qdma_legacy_intr_conf dev ENABLE (ls_log s2);
                s3 = s2\<lparr>ls_log := log\<rparr> in
            if rv \<noteq> 0 then (- EINVAL, s3) else (0, s3))))"

text \<open>The counters of the resource manager: a streaming card-to-host queue also counts as a completion queue.\<close>

definition count_added :: "qdma_queue_conf \<Rightarrow> dev_state \<Rightarrow> int \<times> dev_state" where
  "count_added q s =
     (let fid = uint (xd_func_id (ls_x s)); (rv, rm) = qdma_dev_increment_active_queue (ls_idx s) fid (dev_q_type (qc_q_type q)) (ls_rm s);
          s1 = s\<lparr>ls_rm := rm\<rparr> in
      if rv < 0 then (rv, s1)
      else if st_c2h q
      then (let (rv, rm) = qdma_dev_increment_active_queue (ls_idx s1) fid QDMA_DEV_Q_TYPE_CMPT (ls_rm s1); s2 = s1\<lparr>ls_rm := rm\<rparr> in
            if rv < 0
            then (rv, s2\<lparr>ls_rm := snd (qdma_dev_decrement_active_queue (ls_idx s2) fid (dev_q_type (qc_q_type q)) (ls_rm s2))\<rparr>)
            else (0, s2))
      else (0, s1))"

definition count_removed :: "qdma_queue_conf \<Rightarrow> dev_state \<Rightarrow> int \<times> dev_state" where
  "count_removed q s =
     (let fid = uint (xd_func_id (ls_x s)); (rv, rm) = qdma_dev_decrement_active_queue (ls_idx s) fid (dev_q_type (qc_q_type q)) (ls_rm s);
          s1 = s\<lparr>ls_rm := rm\<rparr> in
      if rv < 0 then (rv, s1)
      else if st_c2h q
      then (let (rv, rm) = qdma_dev_decrement_active_queue (ls_idx s1) fid QDMA_DEV_Q_TYPE_CMPT (ls_rm s1); s2 = s1\<lparr>ls_rm := rm\<rparr> in
            if rv < 0
            then (rv, s2\<lparr>ls_rm := snd (qdma_dev_increment_active_queue (ls_idx s2) fid (dev_q_type (qc_q_type q)) (ls_rm s2))\<rparr>)
            else (0, s2))
      else (0, s1))"

text \<open>
  The checks before a place is looked for. The result is the error and whether the handle of the caller has been
  overwritten with the invalid one.
\<close>

definition add_checks :: "bool \<Rightarrow> qdma_queue_conf \<Rightarrow> dev_state \<Rightarrow> int \<times> bool" where
  "add_checks args q s =
     (let c = xd_dev_cap (ls_x s);
          qcnt = to_u32 (qdma_get_device_active_queue_count (ls_idx s) (uint (xd_func_id (ls_x s))) (dev_q_type (qc_q_type q)) (ls_rm s)) in
      if \<not> args then (- EINVAL, False)
      else if qc_q_type q = Q_H2C_C2H then (- EINVAL, False)
      else if qc_st q \<and> qc_q_type q = Q_CMPT then (- EINVAL, False)
      else if qc_q_type q = Q_CMPT \<and> mm_cmpt_en c = 0 then (- EINVAL, False)
      else if qc_st q \<and> st_en c = 0 \<or> \<not> qc_st q \<and> mm_en c = 0 then (- EINVAL, True)
      else if qdma_validate_qconfig (ls_x s) q < 0 then (qdma_validate_qconfig (ls_x s) q, True)
      else if qc_qidx q \<noteq> QDMA_QUEUE_IDX_INVALID \<and> unat (qc_qidx q) \<ge> qmax s then (- EINVAL, True)
      else if qcnt \<ge> int (qmax s) then (- EIO, True)
      else (0, True))"

text \<open>After the queue has been marked as enabled.\<close>

definition add_enabled :: "dev_hndl \<Rightarrow> int \<Rightarrow> nat \<Rightarrow> qdma_queue_conf \<Rightarrow> dev_state \<Rightarrow> int \<times> dev_state" where
  "add_enabled dev irq p q s =
     (let (rv, s1) = qdma_device_prep_q_resource dev s in
      if rv < 0 then (rv, s1)
      else
        (let (rv, s2) = (if xd_drv_mode (ls_x s1) = LEGACY_INTR_MODE then intr_legacy_setup dev irq p s1 else (0, s1)) in
         if rv > 0 then (- EINVAL, set_q_state p Q_STATE_DISABLED (intr_legacy_clear dev p s2))
         else if rv < 0 then (- EINVAL, set_q_state p Q_STATE_DISABLED s2)
         else count_added q (store_q p (qdma_descq_config q False (load_q p s2)) s2)))"

text \<open>The result, the configuration with its index, the handle if one is written, and the state.\<close>

definition qdma_queue_add ::
  "dev_hndl \<Rightarrow> int \<Rightarrow> bool \<Rightarrow> qdma_queue_conf \<Rightarrow> dev_state \<Rightarrow> (int \<times> qdma_queue_conf \<times> nat option \<times> dev_state) option" where
  "qdma_queue_add dev irq args q s =
     (let (rv, reset) = add_checks args q s; none = (if reset then Some (unat QDMA_QUEUE_IDX_INVALID) else None) in
      if rv < 0 then Some (rv, q, none, s)
      else
        (case pick_queue s q of
           None \<Rightarrow> None
         | Some (Inl rv) \<Rightarrow> Some (rv, q, none, s)
         | Some (Inr (p, i)) \<Rightarrow>
             (let q1 = q\<lparr>qc_qidx := i\<rparr>; (rv, s1) = add_enabled dev irq p q1 (set_q_state p Q_STATE_ENABLED s) in
              Some (if rv < 0 then (rv, q1, none, s1)
                    else (0, q1, Some (unat (qc_qidx (dq_conf (ls_descq s1 ! p))) + base_of s1 (qc_q_type q1)), s1)))))"

subsection \<open>Configuring and removing a queue\<close>

definition qdma_queue_config :: "bool \<Rightarrow> nat \<Rightarrow> qdma_queue_conf \<Rightarrow> dev_state \<Rightarrow> int \<times> dev_state" where
  "qdma_queue_config args hndl q s =
     (case (if args then qdma_device_get_descq_by_id hndl False s else None) of
        None \<Rightarrow> (- EINVAL, s)
      | Some p \<Rightarrow>
          if dq_q_state (ls_descq s ! p) \<noteq> Q_STATE_ENABLED then (- EINVAL, s)
          else if qdma_validate_qconfig (ls_x s) q \<noteq> 0 then (qdma_validate_qconfig (ls_x s) q, s)
          else (0, store_q p (qdma_descq_config q True (load_q p s)) s))"

definition qdma_queue_remove :: "dev_hndl \<Rightarrow> bool \<Rightarrow> nat \<Rightarrow> dev_state \<Rightarrow> int \<times> dev_state" where
  "qdma_queue_remove dev args hndl s =
     (case (if args then qdma_device_get_descq_by_id hndl True s else None) of
        None \<Rightarrow> (- EINVAL, s)
      | Some p \<Rightarrow>
          if dq_q_state (ls_descq s ! p) \<noteq> Q_STATE_ENABLED then (- EINVAL, s)
          else
            (let (rv, s1) = count_removed (dq_conf (ls_descq s ! p)) s in
             if rv < 0 then (rv, s1)
             else
               (let s2 = set_q_state p Q_STATE_DISABLED s1 in
                (0, if xd_drv_mode (ls_x s2) = LEGACY_INTR_MODE then intr_legacy_clear dev p s2 else s2))))"

subsection \<open>Where completions are processed\<close>

text \<open>The last processor, or one before it with fewer queues than those looked at so far.\<close>

fun pick_cpu :: "u32 list \<Rightarrow> nat \<Rightarrow> nat \<Rightarrow> u32 \<Rightarrow> nat" where
  "pick_cpu cnt 0 idx v = idx"
| "pick_cpu cnt (Suc i) idx v =
     (if v = 0 then idx else if cnt ! i < v then pick_cpu cnt i i (cnt ! i) else pick_cpu cnt i idx v)"

text \<open>A thread without work, or the last one with less than the first; the smaller count is not kept.\<close>

fun pick_thread :: "u32 list \<Rightarrow> nat \<Rightarrow> nat option \<Rightarrow> u32 \<Rightarrow> nat option" where
  "pick_thread [] i idx v = idx"
| "pick_thread (c # cs) i None v = pick_thread cs (i + 1) (Some i) c"
| "pick_thread (c # cs) i (Some k) v =
     (if c = 0 then Some i else if c < v then pick_thread cs (i + 1) (Some i) v else pick_thread cs (i + 1) (Some k) v)"

text \<open>\<open>None\<close> without a processor or a thread.\<close>

definition qdma_thread_add_work :: "nat \<Rightarrow> dev_state \<Rightarrow> dev_state option" where
  "qdma_thread_add_work p s =
     (if xd_drv_mode (ls_x s) \<noteq> POLL_MODE
      then (if ls_percpu s = [] then None
            else (let n = length (ls_percpu s); idx = pick_cpu (ls_percpu s) (n - 1) (n - 1) (ls_percpu s ! (n - 1)) in
                  Some (s\<lparr>ls_percpu := (ls_percpu s)[idx := ls_percpu s ! idx + 1], ls_cpu := (ls_cpu s)(p \<mapsto> idx)\<rparr>)))
      else (case pick_thread (map th_work_cnt (ls_threads s)) 0 None 0 of
              None \<Rightarrow> None
            | Some idx \<Rightarrow>
                (let t = ls_threads s ! idx in
                 Some (s\<lparr>ls_threads := (ls_threads s)[idx := t\<lparr>th_work_list := th_work_list t @ [p], th_work_cnt := th_work_cnt t + 1\<rparr>],
                         ls_thread := (ls_thread s)(p \<mapsto> idx)\<rparr>))))"

definition qdma_thread_remove_work :: "nat \<Rightarrow> dev_state \<Rightarrow> dev_state" where
  "qdma_thread_remove_work p s =
     (let s1 = s\<lparr>ls_thread := (ls_thread s)(p := None), ls_cpu := (ls_cpu s)(p := None)\<rparr>;
          s2 = (case ls_cpu s p of
                  None \<Rightarrow> s1 | Some idx \<Rightarrow> s1\<lparr>ls_percpu := (ls_percpu s1)[idx := ls_percpu s1 ! idx - 1]\<rparr>) in
      case ls_thread s p of
        None \<Rightarrow> s2
      | Some k \<Rightarrow>
          (let t = ls_threads s2 ! k in
           s2\<lparr>ls_threads := (ls_threads s2)[k := t\<lparr>th_work_list := remove1 p (th_work_list t), th_work_cnt := th_work_cnt t - 1\<rparr>]\<rparr>))"

subsection \<open>Starting a queue\<close>

definition add_intr :: "nat \<Rightarrow> int \<Rightarrow> dev_state \<Rightarrow> dev_state" where
  "add_intr p v s =
     s\<lparr>ls_intr := (ls_intr s)[nat v := ls_intr s ! nat v @ [p]],
       ls_x := (ls_x s)\<lparr>xd_intr_list_cnt := (xd_intr_list_cnt (ls_x s))[nat v := xd_intr_list_cnt (ls_x s) ! nat v + 1]\<rparr>\<rparr>"

definition del_intr :: "nat \<Rightarrow> int \<Rightarrow> dev_state \<Rightarrow> dev_state" where
  "del_intr p v s =
     s\<lparr>ls_intr := (ls_intr s)[nat v := remove1 p (ls_intr s ! nat v)],
       ls_x := (ls_x s)\<lparr>xd_intr_list_cnt := (xd_intr_list_cnt (ls_x s))[nat v := xd_intr_list_cnt (ls_x s) ! nat v - 1]\<rparr>\<rparr>"

definition start_checks :: "nat \<Rightarrow> dev_state \<Rightarrow> int" where
  "start_checks p s =
     (let d = ls_descq s ! p; c = dq_conf d; x = ls_x s; a = qc_aperture_size c in
      if dq_q_state d \<noteq> Q_STATE_ENABLED then - EINVAL
      else if xd_ip_type x = EQDMA_SOFT_IP \<and> ls_late s \<and> desc_eng_mode (xd_dev_cap x) = QDMA_DESC_ENG_BYPASS_ONLY then - EINVAL
      else if xd_ip_type x = EQDMA_SOFT_IP \<and> ls_late s \<and> qc_desc_bypass c \<and>
              desc_eng_mode (xd_dev_cap x) = QDMA_DESC_ENG_INTERNAL_ONLY then - EINVAL
      else if a \<noteq> 0 \<and> a AND (a - 1) \<noteq> 0 then - ERANGE
      else 0)"

text \<open>When the hardware cannot be programmed the contexts are cleared and the rings freed.\<close>

definition start_programmed :: "dq_env \<Rightarrow> qid2vec_conf \<Rightarrow> nat \<Rightarrow> dev_state \<Rightarrow> (int \<times> dev_state) option" where
  "start_programmed e q2v p s =
     (let (rv, d) = qdma_descq_prog_hw e q2v (load_q p s); s1 = store_q p d s in
      if rv < 0
      then (let c = dq_conf d; log = snd (qdma_descq_context_clear (Some (de_hw e)) (dq_qidx_hw d) (qc_st c) (q_type_val (qc_q_type c)) True (dq_log d)) in
            map_option (\<lambda>d1. (rv, store_q p d1 s1)) (qdma_descq_free_resource (d\<lparr>dq_log := log\<rparr>)))
      else
        (let s2 = (if xd_num_vecs (ls_x s1) \<noteq> 0 then add_intr p (dq_intr_id d) s1 else s1) in
         map_option (\<lambda>s3. (0, set_q_state p Q_STATE_ONLINE s3)) (qdma_thread_add_work p s2)))"

definition qdma_queue_start :: "dq_env \<Rightarrow> qid2vec_conf \<Rightarrow> bool \<Rightarrow> nat \<Rightarrow> dev_state \<Rightarrow> (int \<times> dev_state) option" where
  "qdma_queue_start e q2v args hndl s =
     (case (if args then qdma_device_get_descq_by_id hndl True s else None) of
        None \<Rightarrow> Some (- EINVAL, s)
      | Some p \<Rightarrow>
          if start_checks p s < 0 then Some (start_checks p s, s)
          else
            (case qdma_descq_alloc_resource e (qdma_descq_config_complete (load_q p s)) of
               None \<Rightarrow> None
             | Some (rv, d) \<Rightarrow>
                 (let s1 = store_q p d s in if rv < 0 then Some (rv, s1) else start_programmed e q2v p s1)))"

text \<open>The configuration and the state of a queue.\<close>

definition qdma_get_queue_state :: "bool \<Rightarrow> nat \<Rightarrow> dev_state \<Rightarrow> int + bool \<times> queue_type_t \<times> 24 word \<times> q_state_t" where
  "qdma_get_queue_state args hndl s =
     (case (if args then qdma_device_get_descq_by_id hndl True s else None) of
        None \<Rightarrow> Inl (- EINVAL)
      | Some p \<Rightarrow> (let d = ls_descq s ! p; c = dq_conf d in Inr (qc_st c, qc_q_type c, qc_qidx c, dq_q_state d)))"

definition qdma_get_queue_count :: "bool \<Rightarrow> dev_state \<Rightarrow> int + int \<times> int \<times> int" where
  "qdma_get_queue_count args s =
     (let n = (\<lambda>ty. to_u32 (qdma_get_device_active_queue_count (ls_idx s) (uint (xd_func_id (ls_x s))) ty (ls_rm s))) in
      if \<not> args then Inl (- EINVAL) else Inr (n QDMA_DEV_Q_TYPE_H2C, n QDMA_DEV_Q_TYPE_C2H, n QDMA_DEV_Q_TYPE_CMPT))"

subsection \<open>Stopping a queue\<close>

text \<open>The requests on a list are reported with an error; those without a completion call stay on the list.\<close>

fun abort_requests :: "(nat \<Rightarrow> qdma_descq \<Rightarrow> qdma_descq) \<Rightarrow> nat list \<Rightarrow> qdma_descq \<Rightarrow> qdma_descq" where
  "abort_requests del [] d = d"
| "abort_requests del (i # is) d =
     (let d1 = upd_req i (\<lambda>r. r\<lparr>cb_done := True, cb_status := - ENXIO\<rparr>) d;
          d2 = (if rq_fp_done (dq_req d1 i) then (let t = del i d1 in t\<lparr>dq_done := dq_done t @ [(i, 0, - ENXIO)]\<rparr>) else d1) in
      abort_requests del is d2)"

definition abort_all :: "qdma_descq \<Rightarrow> qdma_descq" where
  "abort_all d =
     (let d1 = d\<lparr>dq_q_state := Q_STATE_ENABLED, dq_q_stop_wait := False\<rparr>;
          d2 = abort_requests (\<lambda>i t. t\<lparr>dq_pend_list := remove1 i (dq_pend_list t)\<rparr>) (dq_pend_list d1) d1 in
      abort_requests qdma_work_queue_del (dq_work_list d2) d2)"

text \<open>
  Up to the wait for the pending requests, during which the lock is free, and after it; the wait has a time limit.
  \<open>Inr\<close> is the queue that is waited for.
\<close>

definition stop_begin :: "bool \<Rightarrow> nat \<Rightarrow> dev_state \<Rightarrow> (int + nat) \<times> dev_state" where
  "stop_begin args hndl s =
     (case (if args then qdma_device_get_descq_by_id hndl True s else None) of
        None \<Rightarrow> (Inl (- EINVAL), s)
      | Some p \<Rightarrow>
          if dq_q_state (ls_descq s ! p) \<noteq> Q_STATE_ONLINE then (Inl (- EINVAL), s)
          else (Inr p, upd_q p (\<lambda>d. d\<lparr>dq_q_stop_wait := True\<rparr>) s))"

definition stop_finish :: "dev_hndl \<Rightarrow> nat \<Rightarrow> dev_state \<Rightarrow> dev_state option" where
  "stop_finish dev p s =
     (let s1 = qdma_thread_remove_work p (upd_q p abort_all s); d = load_q p s1; c = dq_conf d;
          s2 = s1\<lparr>ls_log := snd (qdma_descq_context_clear dev (dq_qidx_hw d) (qc_st c) (q_type_val (qc_q_type c)) False (dq_log d))\<rparr>;
          m = xd_drv_mode (ls_x s2);
          s3 = (if m \<noteq> POLL_MODE \<and> m \<noteq> LEGACY_INTR_MODE then del_intr p (dq_intr_id d) s2 else s2) in
      map_option (\<lambda>d1. store_q p (d1\<lparr>dq_total_cmpl_descs := 0\<rparr>) s3) (qdma_descq_free_resource (load_q p s3)))"

definition qdma_queue_stop :: "dev_hndl \<Rightarrow> bool \<Rightarrow> nat \<Rightarrow> dev_state \<Rightarrow> (int \<times> dev_state) option" where
  "qdma_queue_stop dev args hndl s =
     (case stop_begin args hndl s of
        (Inl rv, s1) \<Rightarrow> Some (rv, s1)
      | (Inr p, s1) \<Rightarrow> map_option (\<lambda>t. (0, t)) (stop_finish dev p s1))"

subsection \<open>The device\<close>

definition mm_channels :: "dev_hndl \<Rightarrow> nat list \<Rightarrow> hw_log \<Rightarrow> hw_log" where
  "mm_channels dev is s =
     fold (\<lambda>i t. snd (qdma_mm_channel_conf dev (of_nat i) 0 1 (snd (qdma_mm_channel_conf dev (of_nat i) 1 1 t)))) is s"

text \<open>
  \<open>mem\<close> is the allocation; \<open>req\<close> are the requests of the users of each queue, which are not part of it. When the
  clearing of the context memory fails the queues are allocated but not set up.
\<close>

definition qdma_device_init :: "dev_hndl \<Rightarrow> bool \<Rightarrow> (nat \<Rightarrow> qdma_descq) \<Rightarrow> dev_state \<Rightarrow> int \<times> dev_state" where
  "qdma_device_init dev mem fresh s =
     (let n = nat (ls_qsets_max s) in
      if \<not> mem then (- ENOMEM, s)
      else
        (let (rv, log) = (if ls_master_pf s then qdma_init_ctxt_memory dev (ls_log s) else (0, ls_log s));
             s1 = s\<lparr>ls_up := True, ls_log := log\<rparr> in
         if rv < 0 then (qdma_get_err_code rv, s1\<lparr>ls_qmax := 0, ls_descq := []\<rparr>)
         else
           (let qm = of_nat n :: u16; qb = word_of_int (ls_qsets_base s) :: u16;
                init = (\<lambda>p. qdma_descq_init (ls_x s1) (ucast qb) (of_nat (p mod n)) (of_nat (p mod n)) (fresh p));
                s2 = s1\<lparr>ls_qmax := qm, ls_qbase := qb, ls_init_qrange := False, ls_descq := map init [0..<3 * n]\<rparr> in
            (0, s2\<lparr>ls_log := mm_channels dev [0..<unat (mm_channel_max (xd_dev_cap (ls_x s2)))] (snd (qdma_set_default_global_csr dev (ls_log s2)))\<rparr>))))"

text \<open>Every queue of the first two arrays that is online is stopped, then every enabled one is removed.\<close>

fun stop_all :: "dev_hndl \<Rightarrow> nat list \<Rightarrow> dev_state \<Rightarrow> dev_state option" where
  "stop_all dev [] s = Some s"
| "stop_all dev (p # ps) s =
     (if dq_q_state (ls_descq s ! p) = Q_STATE_ONLINE
      then (case qdma_queue_stop dev True p s of None \<Rightarrow> None | Some (rv, t) \<Rightarrow> stop_all dev ps t)
      else stop_all dev ps s)"

fun remove_all :: "dev_hndl \<Rightarrow> nat list \<Rightarrow> dev_state \<Rightarrow> dev_state" where
  "remove_all dev [] s = s"
| "remove_all dev (p # ps) s =
     remove_all dev ps (if dq_q_state (ls_descq s ! p) = Q_STATE_ENABLED then snd (qdma_queue_remove dev True p s) else s)"

definition qdma_device_cleanup :: "dev_hndl \<Rightarrow> dev_state \<Rightarrow> dev_state option" where
  "qdma_device_cleanup dev s =
     (if \<not> ls_up s then Some s
      else map_option (\<lambda>t. (remove_all dev [0..<2 * qmax s] t)\<lparr>ls_up := False, ls_descq := []\<rparr>) (stop_all dev [0..<2 * qmax s] s))"

text \<open>A new range of queues; the clean-up comes after the resource manager has agreed.\<close>

definition qdma_set_qmax ::
  "dev_hndl \<Rightarrow> allocator \<Rightarrow> bool \<Rightarrow> (nat \<Rightarrow> qdma_descq) \<Rightarrow> int \<Rightarrow> int \<Rightarrow> dev_state \<Rightarrow> (int \<times> dev_state) option" where
  "qdma_set_qmax dev al mem fresh qb0 qsets_max s =
     (let fid = uint (xd_func_id (ls_x s)); (rv, qb, rm) = qdma_dev_update al (ls_idx s) fid qsets_max qb0 (ls_rm s);
          s1 = s\<lparr>ls_rm := rm\<rparr> in
      if rv < 0 then Some (- EINVAL, s1)
      else
        (case qdma_device_cleanup dev s1 of
           None \<Rightarrow> None
         | Some s2 \<Rightarrow>
             (let (rv, qb, qm) = qdma_dev_qinfo_get (ls_idx s2) fid qb qsets_max (ls_rm s2) in
              if rv < 0 then Some (- EINVAL, s2)
              else
                (let (rv, s3) = qdma_device_init dev mem fresh (s2\<lparr>ls_qsets_max := qm, ls_qsets_base := qb\<rparr>) in
                 if rv < 0 then map_option (\<lambda>t. (- EINVAL, t)) (qdma_device_cleanup dev s3) else Some (0, s3)))))"

end
