(* ===== verification/Queue_Rules.thy ===== *)
theory Queue_Rules
  imports Queue_Life
begin

text \<open>
  What holds over the life of the queues of a device: which queues can be in use together, that rings are
  held exactly while a queue runs, and that the resource manager counts the queues in use. The
  proofs look at a queue through its \<open>slot\<close>, the few fields these statements are about.
\<close>

subsection \<open>Slots\<close>

record slot =
  sl_state :: q_state_t
  sl_st :: bool
  sl_type :: queue_type_t
  sl_idx :: nat
  sl_desc :: bool
  sl_cmpt :: bool

definition slot_of :: "qdma_descq \<Rightarrow> slot" where
  "slot_of d = \<lparr>sl_state = dq_q_state d, sl_st = qc_st (dq_conf d), sl_type = qc_q_type (dq_conf d),
     sl_idx = unat (qc_qidx (dq_conf d)), sl_desc = dq_desc d, sl_cmpt = dq_desc_cmpt d\<rparr>"

definition slots :: "dev_state \<Rightarrow> slot list" where "slots s = map slot_of (ls_descq s)"

definition in_use :: "slot \<Rightarrow> bool" where "in_use f \<longleftrightarrow> sl_state f \<noteq> Q_STATE_DISABLED"

text \<open>The two directions of an index are both streaming or both memory mapped, and a completion queue is not next to a streaming one.\<close>

definition pair_ok :: "slot \<Rightarrow> slot \<Rightarrow> slot \<Rightarrow> bool" where
  "pair_ok h c m \<longleftrightarrow> (in_use h \<and> in_use c \<longrightarrow> sl_st h = sl_st c) \<and>
     (in_use m \<longrightarrow> \<not> (in_use h \<and> sl_st h) \<and> \<not> (in_use c \<and> sl_st c))"

definition type_base :: "nat \<Rightarrow> queue_type_t \<Rightarrow> nat" where
  "type_base n ty = (case ty of Q_C2H \<Rightarrow> n | Q_H2C \<Rightarrow> 0 | _ \<Rightarrow> 2 * n)"

text \<open>A queue in use is at the place of its type and index.\<close>

definition place_ok :: "nat \<Rightarrow> nat \<Rightarrow> slot \<Rightarrow> bool" where
  "place_ok n p f \<longleftrightarrow> (in_use f \<longrightarrow> type_base n (sl_type f) + sl_idx f = p \<and> sl_idx f < n \<and> sl_type f \<noteq> Q_H2C_C2H \<and>
     \<not> (sl_st f \<and> sl_type f = Q_CMPT))"

definition rings_ok :: "slot \<Rightarrow> bool" where
  "rings_ok f \<longleftrightarrow>
     (if sl_state f = Q_STATE_ONLINE
      then sl_desc f = (sl_type f \<noteq> Q_CMPT) \<and> sl_cmpt f = (sl_st f \<and> sl_type f = Q_C2H \<or> \<not> sl_st f \<and> sl_type f = Q_CMPT)
      else \<not> sl_desc f \<and> \<not> sl_cmpt f)"

definition count_in :: "(slot \<Rightarrow> bool) \<Rightarrow> nat \<Rightarrow> nat \<Rightarrow> slot list \<Rightarrow> int" where
  "count_in P lo n fs = (\<Sum>k<n. if P (fs ! (lo + k)) then 1 else 0)"

definition slots_ok :: "nat \<Rightarrow> slot list \<Rightarrow> bool" where
  "slots_ok n fs \<longleftrightarrow> length fs = 3 * n \<and> (\<forall>i<n. pair_ok (fs ! i) (fs ! (n + i)) (fs ! (2 * n + i))) \<and>
     (\<forall>p<3 * n. place_ok n p (fs ! p) \<and> rings_ok (fs ! p))"

definition c2h_with_cmpt :: "slot \<Rightarrow> bool" where "c2h_with_cmpt f \<longleftrightarrow> in_use f \<and> sl_st f"

text \<open>The counters of the function: a streaming card-to-host queue counts twice.\<close>

definition counted :: "nat \<Rightarrow> slot list \<Rightarrow> dev_entry option \<Rightarrow> bool" where
  "counted n fs d \<longleftrightarrow>
     (case d of None \<Rightarrow> False
      | Some d \<Rightarrow> active_h2c_qcnt d = count_in in_use 0 n fs \<and> active_c2h_qcnt d = count_in in_use n n fs \<and>
                  active_cmpt_qcnt d = count_in in_use (2 * n) n fs + count_in c2h_with_cmpt n n fs)"

definition my_entry :: "dev_state \<Rightarrow> dev_entry option" where
  "my_entry s = qdma_get_dev_entry (ls_idx s) (uint (xd_func_id (ls_x s))) (ls_rm s)"

definition life_ok :: "dev_state \<Rightarrow> bool" where
  "life_ok s \<longleftrightarrow> ls_up s \<and> slots_ok (qmax s) (slots s) \<and> counted (qmax s) (slots s) (my_entry s)"

lemma slot_of_simps [simp]:
  "sl_state (slot_of d) = dq_q_state d" "sl_st (slot_of d) = qc_st (dq_conf d)" "sl_type (slot_of d) = qc_q_type (dq_conf d)"
  "sl_idx (slot_of d) = unat (qc_qidx (dq_conf d))" "sl_desc (slot_of d) = dq_desc d" "sl_cmpt (slot_of d) = dq_desc_cmpt d"
  by (simp_all add: slot_of_def)

lemma slot_eqI:
  "dq_q_state d = dq_q_state d' \<Longrightarrow> dq_conf d = dq_conf d' \<Longrightarrow> dq_desc d = dq_desc d' \<Longrightarrow> dq_desc_cmpt d = dq_desc_cmpt d' \<Longrightarrow>
    slot_of d = slot_of d'"
  by (simp add: slot_of_def)

lemma base_of_type: "base_of s ty = type_base (qmax s) ty"
  by (cases ty) (simp_all add: base_of_def type_base_def h2c_descq_def c2h_descq_def cmpt_descq_def)

lemma slots_nth: "p < length (ls_descq s) \<Longrightarrow> slots s ! p = slot_of (ls_descq s ! p)"
  by (simp add: slots_def)

lemma slots_length: "length (slots s) = length (ls_descq s)"
  by (simp add: slots_def)

text \<open>The rest of the state the statements depend on.\<close>

definition frame :: "dev_state \<Rightarrow> bool \<times> u16 \<times> int \<times> u8 \<times> rm_state" where
  "frame s = (ls_up s, ls_qmax s, ls_idx s, xd_func_id (ls_x s), ls_rm s)"

lemma life_ok_cong: "frame t = frame s \<Longrightarrow> slots t = slots s \<Longrightarrow> life_ok t = life_ok s"
  by (simp add: life_ok_def frame_def my_entry_def qmax_def)

lemma frame_qmax: "frame t = frame s \<Longrightarrow> qmax t = qmax s" by (simp add: frame_def qmax_def)

subsection \<open>Counting\<close>

lemma count_in_update:
  assumes "p < length fs" "lo \<le> p" "p < lo + n"
  shows "count_in P lo n (fs[p := f]) = count_in P lo n fs - (if P (fs ! p) then 1 else 0) + (if P f then 1 else 0)"
proof -
  have m: "p - lo \<in> {..<n}" using assms by auto
  have "count_in P lo n (fs[p := f]) = (if P f then 1 else 0) + (\<Sum>k\<in>{..<n} - {p - lo}. if P (fs[p := f] ! (lo + k)) then 1 else 0)"
    unfolding count_in_def using assms by (subst sum.remove [OF _ m]) simp_all
  moreover have "(\<Sum>k\<in>{..<n} - {p - lo}. if P (fs[p := f] ! (lo + k)) then 1 else 0) =
      (\<Sum>k\<in>{..<n} - {p - lo}. if P (fs ! (lo + k)) then (1 :: int) else 0)"
    using assms by (intro sum.cong) (auto simp: nth_list_update)
  moreover have "count_in P lo n fs = (if P (fs ! p) then 1 else 0) + (\<Sum>k\<in>{..<n} - {p - lo}. if P (fs ! (lo + k)) then 1 else 0)"
    unfolding count_in_def using assms by (subst sum.remove [OF _ m]) simp_all
  ultimately show ?thesis by simp
qed

lemma count_in_other:
  assumes "p < lo \<or> lo + n \<le> p"
  shows "count_in P lo n (fs[p := f]) = count_in P lo n fs"
  unfolding count_in_def using assms by (intro sum.cong) auto

lemma count_in_bounds: "0 \<le> count_in P lo n fs" "count_in P lo n fs \<le> int n"
proof -
  show "0 \<le> count_in P lo n fs" unfolding count_in_def by (intro sum_nonneg) simp
  have "count_in P lo n fs \<le> (\<Sum>k<n. 1)" unfolding count_in_def by (intro sum_mono) simp
  then show "count_in P lo n fs \<le> int n" by simp
qed

lemma count_in_pos: "lo \<le> p \<Longrightarrow> p < lo + n \<Longrightarrow> P (fs ! p) \<Longrightarrow> 0 < count_in P lo n fs"
proof -
  assume a: "lo \<le> p" "p < lo + n" "P (fs ! p)"
  then have "(\<Sum>k\<in>{p - lo}. if P (fs ! (lo + k)) then (1 :: int) else 0) \<le> count_in P lo n fs"
    unfolding count_in_def by (intro sum_mono2) auto
  then show ?thesis using a by simp
qed

subsection \<open>The resource manager\<close>

lemma entry_put:
  assumes "qdma_get_master_resource_entry i s = Some m" "dma_device_index m' = i" "dev_list m' = dev_list m"
    and "find (\<lambda>d. func_id d = fid) (dev_list m) = Some d" "func_id d' = fid"
  shows "qdma_get_dev_entry i fid (put_master i (put_dev fid d' m') s) = Some d'"
proof -
  have "qdma_get_master_resource_entry i (put_master i (put_dev fid d' m') (s\<lparr>rm_allocs := rm_allocs s\<rparr>)) = Some (put_dev fid d' m')"
    using assms(2) by (intro get_put_master [OF assms(1)]) (simp add: put_dev_def)
  moreover have "find (\<lambda>d. func_id d = fid) (update_first (\<lambda>d. func_id d = fid) (\<lambda>_. d') xs) = Some d'"
    if "find (\<lambda>d. func_id d = fid) xs = Some d" for xs
    using that assms(5) by (induction xs) (auto split: if_splits)
  ultimately show ?thesis using assms(3,4) by (simp add: qdma_get_dev_entry_def put_dev_def)
qed

lemma entry_parts:
  assumes "qdma_get_dev_entry i fid s = Some d"
  obtains m where "qdma_get_master_resource_entry i s = Some m" "dma_device_index m = i"
    "find (\<lambda>d. func_id d = fid) (dev_list m) = Some d" "func_id d = fid"
  using assms by (auto simp: qdma_get_dev_entry_def qdma_get_master_resource_entry_def split: option.splits dest!: find_key_Some)

lemma set_qcnt_func [simp]: "func_id (set_qcnt ty n d) = func_id d" by (cases ty) auto

lemma increment_entry:
  assumes "qdma_get_dev_entry i fid s = Some d" "get_qcnt ty d = Some c" "0 \<le> c" "c < 65536"
    and "qdma_dev_increment_active_queue i fid ty s = (rv, t)"
  shows "rv < 0 \<and> t = s \<or> rv = 0 \<and> qdma_get_dev_entry i fid t = Some (set_qcnt ty (c + 1) d)"
proof -
  obtain m where m: "qdma_get_master_resource_entry i s = Some m" "dma_device_index m = i"
    "find (\<lambda>d. func_id d = fid) (dev_list m) = Some d" "func_id d = fid" by (rule entry_parts [OF assms(1)])
  have "to_u32 (c + 1) = c + 1" using assms(3,4) by (intro to_u32_id) simp_all
  then show ?thesis
    using assms(1,2,5) m entry_put [OF m(1) _ _ m(3), of "m\<lparr>active_qcnt := to_u32 (active_qcnt m + 1)\<rparr>" "set_qcnt ty (c + 1) d"]
    by (auto simp: qdma_dev_increment_active_queue_def neg_err_neg split: if_splits)
qed

lemma decrement_entry:
  assumes "qdma_get_dev_entry i fid s = Some d" "get_qcnt ty d = Some c" "0 < c" "c < 65537"
  shows "\<exists>t. qdma_dev_decrement_active_queue i fid ty s = (0, t) \<and> qdma_get_dev_entry i fid t = Some (set_qcnt ty (c - 1) d)"
proof -
  obtain m where m: "qdma_get_master_resource_entry i s = Some m" "dma_device_index m = i"
    "find (\<lambda>d. func_id d = fid) (dev_list m) = Some d" "func_id d = fid" by (rule entry_parts [OF assms(1)])
  have "to_u32 (c - 1) = c - 1" using assms(3,4) by (intro to_u32_id) simp_all
  then show ?thesis
    using assms(1-3) m entry_put [OF m(1) _ _ m(3), of "m\<lparr>active_qcnt := to_u32 (active_qcnt m - 1)\<rparr>" "set_qcnt ty (c - 1) d"]
    by (auto simp: qdma_dev_decrement_active_queue_def)
qed

subsection \<open>Operations on one queue\<close>

definition face :: "qdma_descq \<Rightarrow> q_state_t \<times> qdma_queue_conf \<times> bool \<times> bool \<times> xlnx_dma_dev" where
  "face d = (dq_q_state d, dq_conf d, dq_desc d, dq_desc_cmpt d, dq_xdev d)"

lemma face_flq [simp]:
  "face (upd_flq f d) = face d" "face (upd_page j g d) = face d" "face (upd_sdesc k h d) = face d" "face (page_ref a n d) = face d"
  by (simp_all add: face_def upd_flq_def upd_page_def upd_sdesc_def page_ref_def)

lemma face_more [simp]:
  "face (d\<lparr>dq_c2h_ring := x\<rparr>) = face d" "face (d\<lparr>dq_unmaps := y\<rparr>) = face d" "face (d\<lparr>dq_flq := z\<rparr>) = face d"
  "face (d\<lparr>dq_allocs := n\<rparr>) = face d" "face (d\<lparr>dq_log := l\<rparr>) = face d" "face (d\<lparr>dq_intr_id := v\<rparr>) = face d"
  by (simp_all add: face_def)

lemma face_free_one [simp]: "face (flq_free_one k d) = face d" by (simp add: flq_free_one_def Let_def)

lemma face_free_page_one [simp]: "face (flq_free_page_one k d) = face d"
  by (simp add: flq_free_page_one_def flq_unmap_page_one_def Let_def)

lemma face_fold: "(\<And>k d. face (f k d) = face d) \<Longrightarrow> face (fold f ks d) = face d"
  by (induction ks arbitrary: d) simp_all

lemma face_free_resource [simp]: "face (descq_flq_free_resource d) = face d"
  by (simp add: descq_flq_free_resource_def face_fold)

lemma face_free_page: "descq_flq_free_page_resource d = Some t \<Longrightarrow> face t = face d"
  by (auto simp: descq_flq_free_page_resource_def Let_def face_fold split: if_splits)

lemma face_fill_one: "flq_fill_one k d = Some (rv, t) \<Longrightarrow> face t = face d"
  by (auto simp: flq_fill_one_def Let_def split: if_splits)

lemma face_fill_page_one: "flq_fill_page_one e j d = (rv, t) \<Longrightarrow> face t = face d"
  by (auto simp: flq_fill_page_one_def Let_def split: option.splits if_splits)

lemma face_fill_pages: "fill_pages e js d = Some (rv, t) \<Longrightarrow> face t = face d"
proof (induction js arbitrary: d)
  case (Cons j js)
  obtain r u where u: "flq_fill_page_one e j d = (r, u)" by fastforce
  show ?case
    using Cons.prems Cons.IH [of u] u face_fill_page_one [OF u] by (auto simp: with_rv_def dest: face_free_page split: if_splits)
qed simp

lemma face_fill_bufs: "fill_bufs ks d = Some (rv, t) \<Longrightarrow> face t = face d"
proof (induction ks arbitrary: d)
  case (Cons k ks)
  from Cons.prems obtain r u where u: "flq_fill_one k d = Some (r, u)" by (auto split: option.splits)
  show ?case
    using Cons.prems Cons.IH [of u] u face_fill_one [OF u] by (auto simp: with_rv_def dest: face_free_page split: if_splits)
qed simp

lemma face_flq_alloc: "descq_flq_alloc_resource e d = Some (rv, t) \<Longrightarrow> face t = face d"
  by (auto simp: descq_flq_alloc_resource_def Let_def with_rv_def split: if_splits option.splits
      dest!: face_free_page face_fill_pages face_fill_bufs)

definition ident :: "qdma_descq \<Rightarrow> q_state_t \<times> qdma_queue_conf \<times> xlnx_dma_dev" where
  "ident d = (dq_q_state d, dq_conf d, dq_xdev d)"

lemma face_ident: "face t = face d \<Longrightarrow> ident t = ident d \<and> dq_desc t = dq_desc d \<and> dq_desc_cmpt t = dq_desc_cmpt d"
  by (simp add: face_def ident_def)

lemma free_resource_frame:
  assumes "qdma_descq_free_resource d = Some t"
  shows "ident t = ident d" "\<not> dq_desc t" "\<not> dq_desc_cmpt t"
proof -
  have "ident t = ident d \<and> \<not> dq_desc t \<and> \<not> dq_desc_cmpt t"
  proof (cases "dq_desc d")
    case False
    then show ?thesis using assms by (cases "dq_desc_cmpt d") (auto simp: qdma_descq_free_resource_def ident_def)
  next
    case True
    then obtain u where u: "(if st_c2h (dq_conf d) then descq_flq_free_page_resource (descq_flq_free_resource d)
        else Some (free_memory (dq_desc_list d) d)) = Some u"
      using assms by (auto simp: qdma_descq_free_resource_def split: option.splits)
    have "ident u = ident d"
    proof (cases "st_c2h (dq_conf d)")
      case True
      then show ?thesis using u face_free_page [of "descq_flq_free_resource d" u] by (auto dest: face_ident)
    next
      case False
      then show ?thesis using u by (auto simp: free_memory_def ident_def split: option.splits)
    qed
    then show ?thesis using assms True u by (cases "dq_desc_cmpt u") (auto simp: qdma_descq_free_resource_def ident_def)
  qed
  then show "ident t = ident d" "\<not> dq_desc t" "\<not> dq_desc_cmpt t" by blast+
qed

lemma alloc_desc_frame:
  "alloc_desc e d = (ok, t) \<Longrightarrow> ident t = ident d \<and> dq_desc_cmpt t = dq_desc_cmpt d \<and>
     (ok \<longrightarrow> dq_desc t = (dq_desc d \<or> qc_q_type (dq_conf d) \<noteq> Q_CMPT))"
  by (auto simp: alloc_desc_def take_memory_def ident_def Let_def split: if_splits)

lemma alloc_bufs_frame:
  "alloc_bufs e d = Some (ok, t) \<Longrightarrow> ident t = ident d \<and> dq_desc t = dq_desc d \<and> dq_desc_cmpt t = dq_desc_cmpt d"
proof -
  assume a: "alloc_bufs e d = Some (ok, t)"
  show ?thesis
  proof (cases "st_c2h (dq_conf d)")
    case True
    then obtain rv where "descq_flq_alloc_resource e (set_flq d) = Some (rv, t)" using a by (auto simp: alloc_bufs_def)
    then have "face t = face d" using face_flq_alloc by (simp add: set_flq_def Let_def)
    then show ?thesis by (rule face_ident)
  next
    case False
    then show ?thesis using a by (auto simp: alloc_bufs_def take_memory_def ident_def split: if_splits)
  qed
qed

lemma alloc_cmpt_frame:
  "alloc_cmpt e d = (ok, t) \<Longrightarrow> ident t = ident d \<and> dq_desc t = dq_desc d \<and>
     (ok \<longrightarrow> dq_desc_cmpt t = (dq_desc_cmpt d \<or> has_cmpt (dq_conf d)))"
  by (auto simp: alloc_cmpt_def take_memory_def ident_def split: if_splits)

text \<open>After a failed allocation no ring is held.\<close>

lemma alloc_resource_frame:
  assumes "qdma_descq_alloc_resource e d = Some (rv, t)"
  shows "ident t = ident d"
    "0 \<le> rv \<Longrightarrow> dq_desc t = (dq_desc d \<or> qc_q_type (dq_conf d) \<noteq> Q_CMPT) \<and> dq_desc_cmpt t = (dq_desc_cmpt d \<or> has_cmpt (dq_conf d))"
    "rv < 0 \<Longrightarrow> \<not> dq_desc t \<and> \<not> dq_desc_cmpt t"
proof -
  obtain ok1 u1 where u1: "alloc_desc e d = (ok1, u1)" by fastforce
  note f1 = alloc_desc_frame [OF u1]
  have "ident t = ident d \<and> (0 \<le> rv \<longrightarrow> dq_desc t = (dq_desc d \<or> qc_q_type (dq_conf d) \<noteq> Q_CMPT) \<and>
      dq_desc_cmpt t = (dq_desc_cmpt d \<or> has_cmpt (dq_conf d))) \<and> (rv < 0 \<longrightarrow> \<not> dq_desc t \<and> \<not> dq_desc_cmpt t)"
  proof (cases ok1)
    case False
    then have "rv = - ENOMEM" "qdma_descq_free_resource u1 = Some t"
      using assms u1 by (auto simp: qdma_descq_alloc_resource_def with_rv_def)
    then show ?thesis using free_resource_frame f1 by (simp add: ENOMEM_def)
  next
    case True
    from assms u1 True obtain ok2 u2 where u2: "alloc_bufs e u1 = Some (ok2, u2)"
      by (auto simp: qdma_descq_alloc_resource_def split: option.splits)
    note f2 = alloc_bufs_frame [OF u2]
    show ?thesis
    proof (cases ok2)
      case False
      then have "rv = - ENOMEM" "qdma_descq_free_resource u2 = Some t"
        using assms u1 u2 True by (auto simp: qdma_descq_alloc_resource_def with_rv_def)
      then show ?thesis using free_resource_frame f1 f2 by (simp add: ENOMEM_def)
    next
      case ok2: True
      obtain ok3 u3 where u3: "alloc_cmpt e u2 = (ok3, u3)" by fastforce
      note f3 = alloc_cmpt_frame [OF u3]
      show ?thesis
      proof (cases ok3)
        case False
        then have "rv = - ENOMEM" "qdma_descq_free_resource u3 = Some t"
          using assms u1 u2 u3 True ok2 by (auto simp: qdma_descq_alloc_resource_def with_rv_def)
        then show ?thesis using free_resource_frame f1 f2 f3 by (simp add: ENOMEM_def)
      next
        case ok3: True
        then have "rv = 0" "t = desc_alloc_irq u3"
          using assms u1 u2 u3 True ok2 by (auto simp: qdma_descq_alloc_resource_def)
        moreover have "face (desc_alloc_irq u3) = face u3" by (simp add: desc_alloc_irq_def Let_def)
        ultimately show ?thesis using f1 f2 f3 True ok2 ok3 face_ident [of t u3] by (simp add: ident_def)
      qed
    qed
  qed
  then show "ident t = ident d"
    "0 \<le> rv \<Longrightarrow> dq_desc t = (dq_desc d \<or> qc_q_type (dq_conf d) \<noteq> Q_CMPT) \<and> dq_desc_cmpt t = (dq_desc_cmpt d \<or> has_cmpt (dq_conf d))"
    "rv < 0 \<Longrightarrow> \<not> dq_desc t \<and> \<not> dq_desc_cmpt t" by blast+
qed

definition kind :: "qdma_descq \<Rightarrow> q_state_t \<times> bool \<times> queue_type_t \<times> 24 word \<times> xlnx_dma_dev" where
  "kind d = (dq_q_state d, qc_st (dq_conf d), qc_q_type (dq_conf d), qc_qidx (dq_conf d), dq_xdev d)"

lemma config_complete_frame:
  "kind (qdma_descq_config_complete d) = kind d" "dq_desc (qdma_descq_config_complete d) = dq_desc d"
  "dq_desc_cmpt (qdma_descq_config_complete d) = dq_desc_cmpt d"
  by (simp_all add: qdma_descq_config_complete_def config_cmpt_def config_counters_def kind_def Let_def)

lemma config_frame:
  "kind (qdma_descq_config q True d) = kind d" "dq_desc (qdma_descq_config q r d) = dq_desc d"
  "dq_desc_cmpt (qdma_descq_config q r d) = dq_desc_cmpt d" "dq_q_state (qdma_descq_config q r d) = dq_q_state d"
  "dq_xdev (qdma_descq_config q r d) = dq_xdev d" "dq_conf (qdma_descq_config q False d) = q"
  by (simp_all add: qdma_descq_config_def kind_def Let_def)

lemma prog_hw_frame: "qdma_descq_prog_hw e q2v d = (rv, t) \<Longrightarrow> face t = face d"
  by (auto simp: qdma_descq_prog_hw_def write_pointers_def queue_cmpt_cidx_update_def queue_pidx_update_def face_def Let_def
      case_prod_unfold split: if_splits)

lemma abort_requests_frame:
  assumes "\<And>i d. face (del i d) = face d"
  shows "face (abort_requests del is d) = face d"
proof (induction "is" arbitrary: d)
  case (Cons i "is")
  have "face (upd_req i f d) = face d" "face (d\<lparr>dq_done := x\<rparr>) = face d" for f d x by (simp_all add: face_def upd_req_def)
  then show ?case using Cons.IH assms by (simp add: Let_def)
qed simp

lemma abort_all_frame: "face (abort_all d) = face (d\<lparr>dq_q_state := Q_STATE_ENABLED\<rparr>)"
proof -
  have "face (d\<lparr>dq_pend_list := x\<rparr>) = face d" "face (qdma_work_queue_del i d) = face d" for d x i
    by (simp_all add: face_def qdma_work_queue_del_def)
  then show ?thesis by (simp add: abort_all_def abort_requests_frame Let_def) (simp add: face_def)
qed

subsection \<open>Operations on the state\<close>

lemma slots_upd: "p < length (ls_descq s) \<Longrightarrow> slots (s\<lparr>ls_descq := (ls_descq s)[p := d]\<rparr>) = (slots s)[p := slot_of d]"
  by (simp add: slots_def map_update)

lemma slots_upd_q: "p < length (ls_descq s) \<Longrightarrow> slots (upd_q p f s) = (slots s)[p := slot_of (f (ls_descq s ! p))]"
  by (simp add: upd_q_def slots_upd)

lemma slots_store: "p < length (ls_descq s) \<Longrightarrow> slots (store_q p d s) = (slots s)[p := slot_of d]"
  by (simp add: store_q_def slots_def map_update)

lemma frame_upd_q [simp]: "frame (upd_q p f s) = frame s" by (simp add: frame_def upd_q_def)

lemma frame_store: "xd_func_id (dq_xdev d) = xd_func_id (ls_x s) \<Longrightarrow> frame (store_q p d s) = frame s"
  by (simp add: frame_def store_q_def)

lemma length_store [simp]: "length (ls_descq (store_q p d s)) = length (ls_descq s)" "length (ls_descq (upd_q p f s)) = length (ls_descq s)"
  by (simp_all add: store_q_def upd_q_def)

text \<open>Parts of the state that no statement is about.\<close>

definition same :: "dev_state \<Rightarrow> dev_state \<Rightarrow> bool" where
  "same t s \<longleftrightarrow> frame t = frame s \<and> ls_descq t = ls_descq s"

lemma sameD: "same t s \<Longrightarrow> frame t = frame s" "same t s \<Longrightarrow> ls_descq t = ls_descq s" "same t s \<Longrightarrow> slots t = slots s"
  by (simp_all add: same_def slots_def)

lemma same_trans: "same u t \<Longrightarrow> same t s \<Longrightarrow> same u s" by (simp add: same_def)

lemma csr_read_frame: "qdma_csr_read dev x l = (rv, y, l') \<Longrightarrow> xd_func_id y = xd_func_id x"
  by (auto simp: qdma_csr_read_def qdma_sort_c2h_cntr_th_values_def Let_def case_prod_unfold split: if_splits)

lemma prep_same: "qdma_device_prep_q_resource dev s = (rv, t) \<Longrightarrow> same t s"
proof -
  assume a: "qdma_device_prep_q_resource dev s = (rv, t)"
  obtain r x l where r: "qdma_csr_read dev (ls_x s) (ls_log s) = (r, x, l)" by (metis prod_cases3)
  have q: "same (snd (device_set_qrange dev u)) u" for u
    by (simp add: device_set_qrange_def same_def frame_def Let_def case_prod_unfold)
  have "same (s\<lparr>ls_x := x, ls_log := l\<rparr>) s" using csr_read_frame [OF r] by (simp add: same_def frame_def)
  then show ?thesis using a r q [of "s\<lparr>ls_x := x, ls_log := l\<rparr>"]
    by (cases "r < 0") (auto simp: qdma_device_prep_q_resource_def same_def Let_def split: if_splits)
qed

lemma legacy_same [simp]: "same (intr_legacy_clear dev p s) s" "same (snd (intr_legacy_setup dev irq p s)) s"
  by (simp_all add: intr_legacy_clear_def intr_legacy_setup_def same_def frame_def Let_def case_prod_unfold)

lemma thread_add_same: "qdma_thread_add_work p s = Some t \<Longrightarrow> same t s"
  by (auto simp: qdma_thread_add_work_def same_def frame_def Let_def split: if_splits option.splits)

lemma thread_remove_same [simp]: "same (qdma_thread_remove_work p s) s"
  by (cases "ls_cpu s p"; cases "ls_thread s p") (simp_all add: qdma_thread_remove_work_def same_def frame_def Let_def)

lemma intr_same [simp]: "same (add_intr p v s) s" "same (del_intr p v s) s" "same (s\<lparr>ls_log := l\<rparr>) s"
  by (simp_all add: add_intr_def del_intr_def same_def frame_def)

lemma same_life: "same t s \<Longrightarrow> life_ok t = life_ok s" by (rule life_ok_cong [OF sameD(1) sameD(3)])

lemma by_id: "ls_up s \<Longrightarrow> qdma_device_get_descq_by_id k b s = Some p \<Longrightarrow> p = k \<and> p < 3 * qmax s \<and> (b \<longrightarrow> dq_q_state (ls_descq s ! p) \<noteq> Q_STATE_DISABLED)"
  by (auto simp: qdma_device_get_descq_by_id_def Let_def cmpt_descq_def c2h_descq_def h2c_descq_def split: if_splits option.splits)

lemma life_length: "life_ok s \<Longrightarrow> length (ls_descq s) = 3 * qmax s"
  by (simp add: life_ok_def slots_ok_def slots_length)

lemma load_simps [simp]: "dq_xdev (load_q p s) = ls_x s" "dq_q_state (load_q p s) = dq_q_state (ls_descq s ! p)"
  "dq_conf (load_q p s) = dq_conf (ls_descq s ! p)" "dq_desc (load_q p s) = dq_desc (ls_descq s ! p)"
  "dq_desc_cmpt (load_q p s) = dq_desc_cmpt (ls_descq s ! p)" "slot_of (load_q p s) = slot_of (ls_descq s ! p)"
  by (simp_all add: load_q_def slot_of_def)

lemma kind_slot: "kind t = kind d \<Longrightarrow> slot_of t = (slot_of d)\<lparr>sl_desc := dq_desc t, sl_cmpt := dq_desc_cmpt t\<rparr> \<and> dq_xdev t = dq_xdev d"
  by (simp add: kind_def slot_of_def)

lemma ident_kind: "ident t = ident d \<Longrightarrow> kind t = kind d" by (simp add: ident_def kind_def)

subsection \<open>A change of one slot\<close>

text \<open>What a queue that stays in use may do: start, stop, take and give back its rings.\<close>

lemma slots_ok_nth: "slots_ok n fs \<Longrightarrow> p < 3 * n \<Longrightarrow> place_ok n p (fs ! p) \<and> rings_ok (fs ! p)" by (simp add: slots_ok_def)

lemma index_cases: fixes p :: nat assumes "p < 3 * n" obtains i where "i < n" "p = i" | i where "i < n" "p = n + i" | i where "i < n" "p = 2 * n + i"
proof -
  consider "p < n" | "n \<le> p" "p < 2 * n" | "2 * n \<le> p" by linarith
  then show thesis
    using assms that(1) [of p] that(2) [of "p - n"] that(3) [of "p - 2 * n"] by cases auto
qed

lemma pair_update:
  assumes "length fs = 3 * n" "p < 3 * n" "\<forall>i<n. pair_ok (fs ! i) (fs ! (n + i)) (fs ! (2 * n + i))"
    and "\<And>i. i < n \<Longrightarrow> p = i \<Longrightarrow> pair_ok f (fs ! (n + i)) (fs ! (2 * n + i))"
    and "\<And>i. i < n \<Longrightarrow> p = n + i \<Longrightarrow> pair_ok (fs ! i) f (fs ! (2 * n + i))"
    and "\<And>i. i < n \<Longrightarrow> p = 2 * n + i \<Longrightarrow> pair_ok (fs ! i) (fs ! (n + i)) f"
  shows "\<forall>i<n. pair_ok (fs[p := f] ! i) (fs[p := f] ! (n + i)) (fs[p := f] ! (2 * n + i))"
proof (intro allI impI)
  fix i assume i: "i < n"
  show "pair_ok (fs[p := f] ! i) (fs[p := f] ! (n + i)) (fs[p := f] ! (2 * n + i))"
    using assms i by (cases "p = i"; cases "p = n + i"; cases "p = 2 * n + i") (simp_all add: nth_list_update)
qed

lemma slots_ok_update:
  assumes "slots_ok n fs" "p < 3 * n" "place_ok n p f" "rings_ok f"
    and "\<And>i. i < n \<Longrightarrow> p = i \<Longrightarrow> pair_ok f (fs ! (n + i)) (fs ! (2 * n + i))"
    and "\<And>i. i < n \<Longrightarrow> p = n + i \<Longrightarrow> pair_ok (fs ! i) f (fs ! (2 * n + i))"
    and "\<And>i. i < n \<Longrightarrow> p = 2 * n + i \<Longrightarrow> pair_ok (fs ! i) (fs ! (n + i)) f"
  shows "slots_ok n (fs[p := f])"
proof -
  note l = assms(1) [unfolded slots_ok_def]
  have "\<forall>i<n. pair_ok (fs[p := f] ! i) (fs[p := f] ! (n + i)) (fs[p := f] ! (2 * n + i))"
    using l assms(2,5-7) by (intro pair_update) blast+
  moreover have "\<forall>q<3 * n. place_ok n q (fs[p := f] ! q) \<and> rings_ok (fs[p := f] ! q)"
    using l assms(2-4) by (auto simp: nth_list_update)
  ultimately show ?thesis using l by (simp add: slots_ok_def)
qed

text \<open>A slot that stays in use with its kind.\<close>

lemma slots_ok_keep:
  assumes "slots_ok n fs" "p < 3 * n" "rings_ok f" "in_use f" "in_use (fs ! p)"
    and "sl_st f = sl_st (fs ! p)" "sl_type f = sl_type (fs ! p)" "sl_idx f = sl_idx (fs ! p)"
  shows "slots_ok n (fs[p := f])"
proof -
  have "place_ok n p f" using slots_ok_nth [OF assms(1,2)] assms(4-8) by (simp add: place_ok_def)
  moreover have "\<forall>i<n. pair_ok (fs ! i) (fs ! (n + i)) (fs ! (2 * n + i))" using assms(1) by (simp add: slots_ok_def)
  ultimately show ?thesis
    using assms by (intro slots_ok_update) (auto simp: pair_ok_def)
qed

lemma count_keep:
  assumes "p < length fs" "P f = P (fs ! p)"
  shows "count_in P lo n (fs[p := f]) = count_in P lo n fs"
  using count_in_update [OF assms(1), of lo n P f] count_in_other [of p lo n P fs f] assms(2) by (cases "lo \<le> p \<and> p < lo + n") auto

lemma counted_keep:
  assumes "p < length fs" "in_use f = in_use (fs ! p)" "sl_st f = sl_st (fs ! p)"
  shows "counted n (fs[p := f]) d = counted n fs d"
proof -
  have "c2h_with_cmpt f = c2h_with_cmpt (fs ! p)" using assms(2,3) by (simp add: c2h_with_cmpt_def)
  then show ?thesis using count_keep [OF assms(1)] assms(2) by (cases d) (simp_all add: counted_def)
qed

text \<open>Starting, stopping and configuring change a slot only in this way.\<close>

lemma life_keep:
  assumes "life_ok s" "frame t = frame s" "slots t = (slots s)[p := f]" "p < 3 * qmax s"
    and "rings_ok f" "in_use f" "in_use (slots s ! p)" "sl_st f = sl_st (slots s ! p)" "sl_type f = sl_type (slots s ! p)"
    "sl_idx f = sl_idx (slots s ! p)"
  shows "life_ok t"
proof -
  have l: "length (slots s) = 3 * qmax s" using assms(1) by (simp add: life_ok_def slots_ok_def)
  have "slots_ok (qmax t) (slots t)" "counted (qmax t) (slots t) (my_entry t)"
    using assms slots_ok_keep [of "qmax s" "slots s" p f] counted_keep [of p "slots s" f "qmax s" "my_entry s"] l frame_qmax [OF assms(2)]
    by (simp_all add: life_ok_def my_entry_def frame_def)
  then show ?thesis using assms(1,2) by (simp add: life_ok_def frame_def)
qed

subsection \<open>The operations keep the books\<close>

lemma config_keeps:
  assumes "life_ok s" "qdma_queue_config args h q s = (rv, t)"
  shows "life_ok t"
proof (cases "t = s")
  case False
  then obtain p where p: "qdma_device_get_descq_by_id h False s = Some p" "dq_q_state (ls_descq s ! p) = Q_STATE_ENABLED"
    "t = store_q p (qdma_descq_config q True (load_q p s)) s"
    using assms(2) by (auto simp: qdma_queue_config_def split: option.splits if_splits)
  have up: "ls_up s" using assms(1) by (simp add: life_ok_def)
  have b: "p < 3 * qmax s" using by_id [OF up p(1)] by simp
  then have l: "p < length (ls_descq s)" using life_length [OF assms(1)] by simp
  let ?d = "qdma_descq_config q True (load_q p s)"
  have k: "slot_of ?d = slot_of (ls_descq s ! p)" "dq_xdev ?d = ls_x s"
    using kind_slot [OF config_frame(1) [of q "load_q p s"]] by (simp_all add: config_frame slot_of_def)
  then have "slots t = slots s" using p(3) l by (simp add: slots_store slots_nth [symmetric])
  moreover have "frame t = frame s" using p(3) k(2) by (simp add: frame_store)
  ultimately show ?thesis using assms(1) life_ok_cong by blast
qed (use assms(1) in simp)

text \<open>The common last step: the queue at \<open>p\<close>, in use, is stored with its kind and with rings that fit its state.\<close>

lemma store_keeps:
  assumes "life_ok s" "p < 3 * qmax s" "same u s" "frame t = frame u" "slots t = (slots u)[p := f]"
    and "rings_ok f" "in_use f" "in_use (slot_of (ls_descq s ! p))"
    and "sl_st f = qc_st (dq_conf (ls_descq s ! p))" "sl_type f = qc_q_type (dq_conf (ls_descq s ! p))"
      "sl_idx f = unat (qc_qidx (dq_conf (ls_descq s ! p)))"
  shows "life_ok t"
proof -
  have "slots s ! p = slot_of (ls_descq s ! p)" using assms(2) life_length [OF assms(1)] by (simp add: slots_nth)
  then show ?thesis
    using assms(3-) by (intro life_keep [OF assms(1), of t p f] assms(2)) (simp_all add: sameD)
qed

lemma start_keeps:
  assumes "life_ok s" "qdma_queue_start e q2v args h s = Some (rv, t)"
  shows "life_ok t"
proof (cases "t = s")
  case False
  then obtain p r d where p: "qdma_device_get_descq_by_id h True s = Some p" "\<not> start_checks p s < 0"
    and a: "qdma_descq_alloc_resource e (qdma_descq_config_complete (load_q p s)) = Some (r, d)"
    and t: "(if r < 0 then Some (r, store_q p d s) else start_programmed e q2v p (store_q p d s)) = Some (rv, t)"
    using assms(2) by (auto simp: qdma_queue_start_def Let_def split: option.splits if_splits prod.splits)
  have up: "ls_up s" using assms(1) by (simp add: life_ok_def)
  have b: "p < 3 * qmax s" using by_id [OF up p(1)] by simp
  then have l: "p < length (ls_descq s)" using life_length [OF assms(1)] by simp
  let ?q = "ls_descq s ! p"
  have en: "dq_q_state ?q = Q_STATE_ENABLED" using p(2) by (auto simp: start_checks_def Let_def EINVAL_def split: if_splits)
  have use: "in_use (slot_of ?q)" using en by (simp add: in_use_def)
  have old: "rings_ok (slot_of ?q)" using assms(1) b l slots_ok_nth [of "qmax s" "slots s" p] by (simp add: life_ok_def slots_nth)
  have none: "\<not> dq_desc ?q" "\<not> dq_desc_cmpt ?q" using old en by (simp_all add: rings_ok_def)
  have k: "kind d = kind (load_q p s)" using ident_kind [OF alloc_resource_frame(1) [OF a]] config_complete_frame(1) by simp
  then have xd: "dq_xdev d = ls_x s" and st: "dq_q_state d = Q_STATE_ENABLED" using en by (simp_all add: kind_def)
  have keep: "sl_st f = qc_st (dq_conf ?q) \<and> sl_type f = qc_q_type (dq_conf ?q) \<and> sl_idx f = unat (qc_qidx (dq_conf ?q))"
    if "f = (slot_of d')\<lparr>sl_state := x\<rparr>" "kind d' = kind d" for f d' x
    using that k by (simp add: kind_def)
  show ?thesis
  proof (cases "r < 0")
    case True
    then have tt: "t = store_q p d s" using t by simp
    have "rings_ok (slot_of d)" using alloc_resource_frame(3) [OF a True] st by (simp add: rings_ok_def)
    then show ?thesis
      using tt st xd use keep [of "slot_of d" "dq_q_state d" d] l
      by (intro store_keeps [OF assms(1) b, of s t "slot_of d"]) (simp_all add: same_def frame_store slots_store in_use_def)
  next
    case False
    then have sp: "start_programmed e q2v p (store_q p d s) = Some (rv, t)" using t by simp
    let ?s1 = "store_q p d s"
    obtain r2 d2 where d2: "qdma_descq_prog_hw e q2v (load_q p ?s1) = (r2, d2)" by fastforce
    have ld: "ls_descq ?s1 ! p = d" "ls_x ?s1 = ls_x s" using l xd by (simp_all add: store_q_def)
    have f2: "face d2 = face (load_q p ?s1)" using prog_hw_frame [OF d2] .
    then have k2: "kind d2 = kind d" "dq_desc d2 = dq_desc d" "dq_desc_cmpt d2 = dq_desc_cmpt d" "dq_xdev d2 = ls_x s"
      using ld xd by (simp_all add: face_def kind_def)
    have rr: "dq_desc d = (qc_q_type (dq_conf ?q) \<noteq> Q_CMPT)" "dq_desc_cmpt d = has_cmpt (dq_conf ?q)"
    proof -
      have "dq_desc d = (dq_desc (qdma_descq_config_complete (load_q p s)) \<or> qc_q_type (dq_conf (qdma_descq_config_complete (load_q p s))) \<noteq> Q_CMPT)"
        "dq_desc_cmpt d = (dq_desc_cmpt (qdma_descq_config_complete (load_q p s)) \<or> has_cmpt (dq_conf (qdma_descq_config_complete (load_q p s))))"
        using alloc_resource_frame(2) [OF a] False by simp_all
      moreover have "kind (qdma_descq_config_complete (load_q p s)) = kind (load_q p s)" by (rule config_complete_frame)
      ultimately show "dq_desc d = (qc_q_type (dq_conf ?q) \<noteq> Q_CMPT)" "dq_desc_cmpt d = has_cmpt (dq_conf ?q)"
        using none by (simp_all add: config_complete_frame kind_def has_cmpt_def st_c2h_def)
    qed
    show ?thesis
    proof (cases "r2 < 0")
      case True
      then obtain l1 d3 where d3: "qdma_descq_free_resource (d2\<lparr>dq_log := l1\<rparr>) = Some d3" and tt: "t = store_q p d3 (store_q p d2 ?s1)"
        using sp d2 by (auto simp: start_programmed_def Let_def)
      have k3: "kind d3 = kind d" "dq_xdev d3 = ls_x s"
        using ident_kind [OF free_resource_frame(1) [OF d3]] k2(1,4) by (simp_all add: kind_def)
      have "rings_ok (slot_of d3)" "dq_q_state d3 = Q_STATE_ENABLED"
        using free_resource_frame(2,3) [OF d3] k3(1) st by (simp_all add: rings_ok_def kind_def)
      moreover have "slots t = (slots s)[p := slot_of d3]" using tt l by (simp add: slots_store)
      moreover have "frame t = frame s"
        using tt k2(4) k3(2) xd by (simp add: frame_store store_q_def frame_def)
      ultimately show ?thesis
        using use keep [of "slot_of d3" "dq_q_state d3" d3] k3(1)
        by (intro store_keeps [OF assms(1) b, of s t "slot_of d3"]) (simp_all add: same_def in_use_def)
    next
      case ok: False
      let ?s2 = "store_q p d2 ?s1"
      let ?s3 = "if xd_num_vecs (ls_x ?s2) \<noteq> 0 then add_intr p (dq_intr_id d2) ?s2 else ?s2"
      obtain s4 where s4: "qdma_thread_add_work p ?s3 = Some s4" and tt: "t = set_q_state p Q_STATE_ONLINE s4"
        using sp d2 ok by (auto simp: start_programmed_def Let_def)
      have "same ?s3 ?s2" by (simp add: same_def) (simp add: add_intr_def frame_def)
      then have sm: "same s4 ?s2" using thread_add_same [OF s4] same_trans by blast
      have l4: "p < length (ls_descq s4)" "ls_descq s4 ! p = d2" using sameD(2) [OF sm] l by (simp_all add: store_q_def)
      let ?f = "(slot_of d2)\<lparr>sl_state := Q_STATE_ONLINE\<rparr>"
      have "slots t = (slots s4)[p := ?f]" using tt l4 by (simp add: set_q_state_def slots_upd_q slot_of_def)
      moreover have "slots s4 = (slots s)[p := slot_of d2]" using sameD(3) [OF sm] l by (simp add: slots_store)
      ultimately have ss: "slots t = (slots s)[p := ?f]" by simp
      have "frame t = frame ?s2" using tt sameD(1) [OF sm] by (simp add: set_q_state_def)
      then have ff: "frame t = frame s" using k2(4) xd by (simp add: frame_store store_q_def frame_def)
      have "rings_ok ?f" using k2 rr k by (simp add: rings_ok_def kind_def has_cmpt_def st_c2h_def)
      then show ?thesis
        using ss ff use keep [of ?f Q_STATE_ONLINE d2] k2(1)
        by (intro store_keeps [OF assms(1) b, of s t ?f]) (simp_all add: same_def in_use_def)
    qed
  qed
qed (use assms(1) in simp)

lemma stop_keeps:
  assumes "life_ok s" "qdma_queue_stop dev args h s = Some (rv, t)"
  shows "life_ok t"
proof (cases "t = s")
  case False
  then obtain p where p: "qdma_device_get_descq_by_id h True s = Some p" "dq_q_state (ls_descq s ! p) = Q_STATE_ONLINE"
    and t: "stop_finish dev p (upd_q p (\<lambda>d. d\<lparr>dq_q_stop_wait := True\<rparr>) s) = Some t"
    using assms(2) by (auto simp: qdma_queue_stop_def stop_begin_def split: option.splits if_splits)
  have up: "ls_up s" using assms(1) by (simp add: life_ok_def)
  have b: "p < 3 * qmax s" using by_id [OF up p(1)] by simp
  then have l: "p < length (ls_descq s)" using life_length [OF assms(1)] by simp
  let ?q = "ls_descq s ! p"
  let ?s0 = "upd_q p (\<lambda>d. d\<lparr>dq_q_stop_wait := True\<rparr>) s"
  let ?s1 = "qdma_thread_remove_work p (upd_q p abort_all ?s0)"
  let ?d = "load_q p ?s1"
  define l2 where "l2 = snd (qdma_descq_context_clear dev (dq_qidx_hw ?d) (qc_st (dq_conf ?d)) (q_type_val (qc_q_type (dq_conf ?d))) False (dq_log ?d))"
  let ?s2 = "?s1\<lparr>ls_log := l2\<rparr>"
  define s3 where "s3 = (if xd_drv_mode (ls_x ?s2) \<noteq> POLL_MODE \<and> xd_drv_mode (ls_x ?s2) \<noteq> LEGACY_INTR_MODE then del_intr p (dq_intr_id ?d) ?s2 else ?s2)"
  have "stop_finish dev p ?s0 = map_option (\<lambda>d1. store_q p (d1\<lparr>dq_total_cmpl_descs := 0\<rparr>) s3) (qdma_descq_free_resource (load_q p s3))"
    by (simp only: stop_finish_def Let_def s3_def l2_def)
  then have "map_option (\<lambda>d1. store_q p (d1\<lparr>dq_total_cmpl_descs := 0\<rparr>) s3) (qdma_descq_free_resource (load_q p s3)) = Some t"
    using t by simp
  then obtain d1 where d1: "qdma_descq_free_resource (load_q p s3) = Some d1" and tt: "t = store_q p (d1\<lparr>dq_total_cmpl_descs := 0\<rparr>) s3"
    by blast
  have "same s3 ?s2" by (simp add: s3_def same_def) (simp add: del_intr_def frame_def)
  then have "same s3 ?s1" using same_trans intr_same(3) by blast
  then have sm: "same s3 (upd_q p abort_all ?s0)" using same_trans thread_remove_same by blast
  have q3: "ls_descq s3 ! p = abort_all (?q\<lparr>dq_q_stop_wait := True\<rparr>)" "length (ls_descq s3) = length (ls_descq s)"
    using sameD(2) [OF sm] l by (simp_all add: upd_q_def)
  have "face (?q\<lparr>dq_q_stop_wait := True, dq_q_state := Q_STATE_ENABLED\<rparr>) = face (?q\<lparr>dq_q_state := Q_STATE_ENABLED\<rparr>)" by (simp add: face_def)
  then have fa: "face (abort_all (?q\<lparr>dq_q_stop_wait := True\<rparr>)) = face (?q\<lparr>dq_q_state := Q_STATE_ENABLED\<rparr>)" by (simp add: abort_all_frame)
  have id1: "ident d1 = ident (load_q p s3)" by (rule free_resource_frame(1) [OF d1])
  then have k1: "dq_q_state d1 = Q_STATE_ENABLED" "dq_conf d1 = dq_conf ?q" "dq_xdev d1 = ls_x s3"
    using fa q3(1) by (simp_all add: ident_def face_def)
  let ?f = "slot_of (d1\<lparr>dq_total_cmpl_descs := 0\<rparr>)"
  have "rings_ok ?f" using free_resource_frame(2,3) [OF d1] k1 by (simp add: rings_ok_def)
  moreover have "slots t = (slots s)[p := ?f]"
    using tt l q3(2) sameD(3) [OF sm] by (simp add: slots_store slots_upd_q)
  moreover have "frame t = frame s"
    using tt k1(3) sameD(1) [OF sm] by (simp add: frame_store)
  moreover have "in_use (slot_of ?q)" using p(2) by (simp add: in_use_def)
  ultimately show ?thesis
    using k1 by (intro store_keeps [OF assms(1) b, of s t ?f]) (simp_all add: same_def in_use_def)
qed (use assms(1) in simp)

subsection \<open>Adding and removing\<close>

text \<open>The counters of the function after \<open>k\<close> queues of a kind.\<close>

definition count_up :: "queue_type_t \<Rightarrow> bool \<Rightarrow> int \<Rightarrow> dev_entry \<Rightarrow> dev_entry" where
  "count_up ty st k d =
     (case ty of
        Q_H2C \<Rightarrow> d\<lparr>active_h2c_qcnt := active_h2c_qcnt d + k\<rparr>
      | Q_C2H \<Rightarrow> d\<lparr>active_c2h_qcnt := active_c2h_qcnt d + k, active_cmpt_qcnt := active_cmpt_qcnt d + (if st then k else 0)\<rparr>
      | _ \<Rightarrow> d\<lparr>active_cmpt_qcnt := active_cmpt_qcnt d + k\<rparr>)"

lemma place_region:
  assumes "place_ok n p f" "in_use f"
  obtains "sl_type f = Q_H2C" "p < n" | "sl_type f = Q_C2H" "n \<le> p" "p < 2 * n" | "sl_type f = Q_CMPT" "\<not> sl_st f" "2 * n \<le> p" "p < 3 * n"
  using assms by (cases "sl_type f") (auto simp: place_ok_def type_base_def)

lemma counted_add:
  assumes "counted n fs (Some d)" "p < length fs" "\<not> in_use (fs ! p)" "in_use f" "place_ok n p f"
  shows "counted n (fs[p := f]) (Some (count_up (sl_type f) (sl_st f) 1 d))"
  using assms(5,4)
proof (cases rule: place_region)
  case 1
  then show ?thesis using assms(1-4)
    by (simp add: counted_def count_up_def count_in_update count_in_other c2h_with_cmpt_def)
next
  case 2
  then show ?thesis using assms(1-4)
    by (simp add: counted_def count_up_def count_in_update count_in_other c2h_with_cmpt_def)
next
  case 3
  then show ?thesis using assms(1-4)
    by (simp add: counted_def count_up_def count_in_update count_in_other c2h_with_cmpt_def)
qed

lemma counted_remove:
  assumes "counted n fs (Some d)" "p < length fs" "in_use (fs ! p)" "\<not> in_use f" "place_ok n p (fs ! p)"
  shows "counted n (fs[p := f]) (Some (count_up (sl_type (fs ! p)) (sl_st (fs ! p)) (- 1) d))"
  using assms(5,3)
proof (cases rule: place_region)
  case 1
  then show ?thesis using assms(1-4)
    by (simp add: counted_def count_up_def count_in_update count_in_other c2h_with_cmpt_def)
next
  case 2
  then show ?thesis using assms(1-4)
    by (simp add: counted_def count_up_def count_in_update count_in_other c2h_with_cmpt_def)
next
  case 3
  then show ?thesis using assms(1-4)
    by (simp add: counted_def count_up_def count_in_update count_in_other c2h_with_cmpt_def)
qed

lemma counted_range:
  assumes "counted n fs (Some d)" "n < 65536"
  shows "0 \<le> active_h2c_qcnt d" "active_h2c_qcnt d < 65536" "0 \<le> active_c2h_qcnt d" "active_c2h_qcnt d < 65536"
    "0 \<le> active_cmpt_qcnt d"
  using assms count_in_bounds [of in_use 0 n fs] count_in_bounds [of in_use n n fs] count_in_bounds [of in_use "2 * n" n fs]
    count_in_bounds [of c2h_with_cmpt n n fs]
  by (simp_all add: counted_def)

text \<open>At an index a completion queue and a streaming queue do not meet, so both kinds together are no more than the indices.\<close>

lemma cmpt_range:
  assumes "counted n fs (Some d)" "slots_ok n fs"
  shows "active_cmpt_qcnt d \<le> int n"
proof -
  have "count_in in_use (2 * n) n fs + count_in c2h_with_cmpt n n fs \<le> (\<Sum>k<n. 1)"
    unfolding count_in_def sum.distrib [symmetric]
  proof (rule sum_mono)
    fix k assume "k \<in> {..<n}"
    then have "pair_ok (fs ! k) (fs ! (n + k)) (fs ! (2 * n + k))" using assms(2) by (simp add: slots_ok_def)
    then show "(if in_use (fs ! (2 * n + k)) then 1 else 0) + (if c2h_with_cmpt (fs ! (n + k)) then 1 else 0) \<le> (1 :: int)"
      by (auto simp: pair_ok_def c2h_with_cmpt_def)
  qed
  then show ?thesis using assms(1) by (simp add: counted_def)
qed

lemma qmax_less: "qmax s < 65536" using unsigned_less [of "ls_qmax s", where 'a = nat] by (simp add: qmax_def)

lemma count_added_entry:
  assumes "my_entry s = Some d" "0 \<le> active_h2c_qcnt d" "active_h2c_qcnt d < 65536" "0 \<le> active_c2h_qcnt d" "active_c2h_qcnt d < 65536"
    "0 \<le> active_cmpt_qcnt d" "active_cmpt_qcnt d < 65536"
    and "qc_q_type q \<noteq> Q_H2C_C2H" "\<not> (qc_st q \<and> qc_q_type q = Q_CMPT)" "count_added q s = (rv, t)" "\<not> rv < 0"
  shows "my_entry t = Some (count_up (qc_q_type q) (qc_st q) 1 d) \<and> (\<exists>rm. t = s\<lparr>ls_rm := rm\<rparr>)"
proof -
  let ?i = "ls_idx s" and ?f = "uint (xd_func_id (ls_x s))" and ?ty = "dev_q_type (qc_q_type q)"
  obtain c where c: "get_qcnt ?ty d = Some c" "0 \<le> c" "c < 65536"
    using assms(2-8) by (cases "qc_q_type q") (auto simp: dev_q_type_def)
  obtain r rm where r: "qdma_dev_increment_active_queue ?i ?f ?ty (ls_rm s) = (r, rm)" by fastforce
  have "\<not> r < 0" using assms(10,11) r by (auto simp: count_added_def Let_def)
  then have e: "qdma_get_dev_entry ?i ?f rm = Some (set_qcnt ?ty (c + 1) d)"
    using increment_entry [OF _ c r] assms(1) by (auto simp: my_entry_def)
  show ?thesis
  proof (cases "st_c2h q")
    case False
    then have t: "t = s\<lparr>ls_rm := rm\<rparr>" using assms(10) r \<open>\<not> r < 0\<close> by (auto simp: count_added_def Let_def)
    have "set_qcnt ?ty (c + 1) d = count_up (qc_q_type q) (qc_st q) 1 d"
      using c(1) False assms(8) by (cases "qc_q_type q") (simp_all add: dev_q_type_def count_up_def st_c2h_def)
    then have "my_entry t = Some (count_up (qc_q_type q) (qc_st q) 1 d)" using e t by (simp add: my_entry_def)
    with t show ?thesis by blast
  next
    case True
    obtain r2 rm2 where r2: "qdma_dev_increment_active_queue ?i ?f QDMA_DEV_Q_TYPE_CMPT rm = (r2, rm2)" by fastforce
    have n: "\<not> r2 < 0" using assms(10,11) r r2 \<open>\<not> r < 0\<close> True by (auto simp: count_added_def Let_def)
    then have t: "t = s\<lparr>ls_rm := rm2\<rparr>" using assms(10) r r2 \<open>\<not> r < 0\<close> True by (auto simp: count_added_def Let_def)
    have e2: "qdma_get_dev_entry ?i ?f rm2 = Some (set_qcnt QDMA_DEV_Q_TYPE_CMPT (active_cmpt_qcnt d + 1) (set_qcnt ?ty (c + 1) d))"
      using increment_entry [OF e _ assms(6,7) r2] n True by (auto simp: st_c2h_def dev_q_type_def)
    have "set_qcnt QDMA_DEV_Q_TYPE_CMPT (active_cmpt_qcnt d + 1) (set_qcnt ?ty (c + 1) d) = count_up (qc_q_type q) (qc_st q) 1 d"
      using c(1) True by (simp add: dev_q_type_def count_up_def st_c2h_def)
    then have "my_entry t = Some (count_up (qc_q_type q) (qc_st q) 1 d)" using e2 t by (simp add: my_entry_def)
    with t show ?thesis by blast
  qed
qed

lemma count_removed_entry:
  assumes "my_entry s = Some d" "active_h2c_qcnt d < 65536" "active_c2h_qcnt d < 65536" "active_cmpt_qcnt d < 65536"
    and "qc_q_type q = Q_H2C \<Longrightarrow> 0 < active_h2c_qcnt d" "qc_q_type q = Q_C2H \<Longrightarrow> 0 < active_c2h_qcnt d"
      "st_c2h q \<or> qc_q_type q = Q_CMPT \<Longrightarrow> 0 < active_cmpt_qcnt d"
    and "qc_q_type q \<noteq> Q_H2C_C2H" "\<not> (qc_st q \<and> qc_q_type q = Q_CMPT)"
  shows "\<exists>rm. count_removed q s = (0, s\<lparr>ls_rm := rm\<rparr>) \<and> my_entry (s\<lparr>ls_rm := rm\<rparr>) = Some (count_up (qc_q_type q) (qc_st q) (- 1) d)"
proof -
  let ?i = "ls_idx s" and ?f = "uint (xd_func_id (ls_x s))" and ?ty = "dev_q_type (qc_q_type q)"
  obtain c where c: "get_qcnt ?ty d = Some c" "0 < c" "c < 65537"
    using assms(2-8) by (cases "qc_q_type q") (auto simp: dev_q_type_def)
  obtain rm where r: "qdma_dev_decrement_active_queue ?i ?f ?ty (ls_rm s) = (0, rm)" and
    e: "qdma_get_dev_entry ?i ?f rm = Some (set_qcnt ?ty (c - 1) d)"
    using decrement_entry [OF _ c] assms(1) unfolding my_entry_def by blast
  show ?thesis
  proof (cases "st_c2h q")
    case False
    then have t: "count_removed q s = (0, s\<lparr>ls_rm := rm\<rparr>)" using r by (simp add: count_removed_def Let_def)
    have "set_qcnt ?ty (c - 1) d = count_up (qc_q_type q) (qc_st q) (- 1) d"
      using c(1) False assms(8) by (cases "qc_q_type q") (simp_all add: dev_q_type_def count_up_def st_c2h_def)
    then have "my_entry (s\<lparr>ls_rm := rm\<rparr>) = Some (count_up (qc_q_type q) (qc_st q) (- 1) d)" using e by (simp add: my_entry_def)
    with t show ?thesis by blast
  next
    case True
    have "get_qcnt QDMA_DEV_Q_TYPE_CMPT (set_qcnt ?ty (c - 1) d) = Some (active_cmpt_qcnt d)"
      using True by (simp add: st_c2h_def dev_q_type_def)
    moreover have "0 < active_cmpt_qcnt d" "active_cmpt_qcnt d < 65537" using assms(4,7) True by simp_all
    ultimately obtain rm2 where r2: "qdma_dev_decrement_active_queue ?i ?f QDMA_DEV_Q_TYPE_CMPT rm = (0, rm2)" and
      e2: "qdma_get_dev_entry ?i ?f rm2 = Some (set_qcnt QDMA_DEV_Q_TYPE_CMPT (active_cmpt_qcnt d - 1) (set_qcnt ?ty (c - 1) d))"
      using decrement_entry [OF e] by blast
    have t: "count_removed q s = (0, s\<lparr>ls_rm := rm2\<rparr>)" using r r2 True by (simp add: count_removed_def Let_def)
    have "set_qcnt QDMA_DEV_Q_TYPE_CMPT (active_cmpt_qcnt d - 1) (set_qcnt ?ty (c - 1) d) = count_up (qc_q_type q) (qc_st q) (- 1) d"
      using c(1) True by (simp add: dev_q_type_def count_up_def st_c2h_def)
    then have "my_entry (s\<lparr>ls_rm := rm2\<rparr>) = Some (count_up (qc_q_type q) (qc_st q) (- 1) d)" using e2 by (simp add: my_entry_def)
    with t show ?thesis by blast
  qed
qed

lemma my_entry_log: "same t s \<Longrightarrow> my_entry t = my_entry s" by (simp add: same_def frame_def my_entry_def)

lemma remove_keeps:
  assumes "life_ok s" "qdma_queue_remove dev args h s = (rv, t)"
  shows "life_ok t"
proof (cases "t = s")
  case False
  then obtain p r s1 where p: "qdma_device_get_descq_by_id h True s = Some p" "dq_q_state (ls_descq s ! p) = Q_STATE_ENABLED"
    and c: "count_removed (dq_conf (ls_descq s ! p)) s = (r, s1)"
    and t: "t = (if r < 0 then s1 else if xd_drv_mode (ls_x (set_q_state p Q_STATE_DISABLED s1)) = LEGACY_INTR_MODE
        then intr_legacy_clear dev p (set_q_state p Q_STATE_DISABLED s1) else set_q_state p Q_STATE_DISABLED s1)"
    using assms(2) by (auto simp: qdma_queue_remove_def Let_def split: option.splits if_splits prod.splits)
  let ?n = "qmax s" and ?fs = "slots s" and ?q = "ls_descq s ! p"
  have up: "ls_up s" and so: "slots_ok ?n ?fs" and co: "counted ?n ?fs (my_entry s)" using assms(1) by (simp_all add: life_ok_def)
  have b: "p < 3 * ?n" using by_id [OF up p(1)] by simp
  then have l: "p < length (ls_descq s)" using life_length [OF assms(1)] by simp
  have f: "?fs ! p = slot_of ?q" using l by (rule slots_nth)
  have use: "in_use (?fs ! p)" using p(2) f by (simp add: in_use_def)
  have pl: "place_ok ?n p (?fs ! p)" and ri: "rings_ok (?fs ! p)" using slots_ok_nth [OF so b] by blast+
  obtain d where d: "my_entry s = Some d" using co by (cases "my_entry s") (auto simp: counted_def)
  note cd = co [unfolded d]
  have kinds: "qc_q_type (dq_conf ?q) \<noteq> Q_H2C_C2H" "\<not> (qc_st (dq_conf ?q) \<and> qc_q_type (dq_conf ?q) = Q_CMPT)"
    using pl use f by (simp_all add: place_ok_def)
  have pos: "(qc_q_type (dq_conf ?q) = Q_H2C \<longrightarrow> 0 < active_h2c_qcnt d) \<and> (qc_q_type (dq_conf ?q) = Q_C2H \<longrightarrow> 0 < active_c2h_qcnt d) \<and>
      (st_c2h (dq_conf ?q) \<or> qc_q_type (dq_conf ?q) = Q_CMPT \<longrightarrow> 0 < active_cmpt_qcnt d)"
    using pl use
  proof (cases rule: place_region)
    case 1
    then show ?thesis using cd count_in_pos [of 0 p ?n in_use ?fs] use f by (simp add: counted_def st_c2h_def)
  next
    case 2
    have "sl_st (?fs ! p) \<Longrightarrow> 0 < count_in c2h_with_cmpt ?n ?n ?fs"
      using 2 use by (intro count_in_pos [of _ p]) (simp_all add: c2h_with_cmpt_def)
    then show ?thesis
      using 2 cd count_in_pos [of ?n p ?n in_use ?fs] count_in_bounds(1) [of in_use "2 * ?n" ?n ?fs] use f by (auto simp: counted_def st_c2h_def)
  next
    case 3
    then show ?thesis
      using cd count_in_pos [of "2 * ?n" p ?n in_use ?fs] count_in_bounds(1) [of c2h_with_cmpt ?n ?n ?fs] use f by (auto simp: counted_def st_c2h_def)
  qed
  have bounds: "active_h2c_qcnt d < 65536" "active_c2h_qcnt d < 65536" "active_cmpt_qcnt d < 65536"
    using counted_range [OF cd qmax_less] cmpt_range [OF cd so] qmax_less [of s] by simp_all
  obtain rm where c2: "count_removed (dq_conf ?q) s = (0, s\<lparr>ls_rm := rm\<rparr>)"
    "my_entry (s\<lparr>ls_rm := rm\<rparr>) = Some (count_up (qc_q_type (dq_conf ?q)) (qc_st (dq_conf ?q)) (- 1) d)"
    using count_removed_entry [OF d bounds _ _ _ kinds] pos by blast
  let ?s1 = "s\<lparr>ls_rm := rm\<rparr>" and ?s2 = "set_q_state p Q_STATE_DISABLED (s\<lparr>ls_rm := rm\<rparr>)"
  have sm: "same t ?s2" using t c c2(1) by (simp add: legacy_same(1)) (simp add: same_def)
  let ?f = "(slot_of ?q)\<lparr>sl_state := Q_STATE_DISABLED\<rparr>"
  have s2: "slots ?s2 = ?fs[p := ?f]" "qmax ?s2 = ?n" "ls_up ?s2" "my_entry ?s2 = my_entry ?s1"
    using l up by (simp_all add: set_q_state_def upd_q_def slots_def map_update slot_of_def qmax_def my_entry_def)
  have off: "\<not> in_use ?f" by (simp add: in_use_def)
  have "rings_ok ?f" using ri f p(2) by (simp add: rings_ok_def)
  moreover have "place_ok ?n p ?f" using off by (simp add: place_ok_def)
  moreover have "\<forall>i<?n. pair_ok (?fs ! i) (?fs ! (?n + i)) (?fs ! (2 * ?n + i))" using so by (simp add: slots_ok_def)
  ultimately have "slots_ok ?n (?fs[p := ?f])"
    using off by (intro slots_ok_update [OF so b]) (auto simp: pair_ok_def)
  moreover have "counted ?n (?fs[p := ?f]) (my_entry ?s1)"
    using counted_remove [OF cd _ use off pl] l c2(2) f by (simp add: slots_length)
  ultimately have "life_ok ?s2" using s2 by (simp add: life_ok_def)
  then show ?thesis using same_life [OF sm] by simp
qed (use assms(1) in simp)

lemma usable_slots:
  assumes "life_ok s" "i < qmax s" "is_usable_queue s i ty st"
  shows "let fs = slots s; n = qmax s; h = fs ! i; c = fs ! (n + i); m = fs ! (2 * n + i);
      mode = (in_use h \<and> sl_st h \<or> in_use c \<and> sl_st c) in
    case ty of
      Q_CMPT \<Rightarrow> \<not> (in_use m \<or> mode)
    | Q_H2C \<Rightarrow> \<not> (st \<and> in_use m) \<and> \<not> (st \<and> in_use c \<and> \<not> mode) \<and> \<not> (\<not> st \<and> in_use c \<and> mode) \<and> \<not> in_use h
    | _ \<Rightarrow> \<not> (st \<and> in_use m) \<and> \<not> (st \<and> in_use h \<and> \<not> mode) \<and> \<not> (\<not> st \<and> in_use h \<and> mode) \<and> \<not> in_use c"
proof -
  have l: "i < length (ls_descq s)" "qmax s + i < length (ls_descq s)" "2 * qmax s + i < length (ls_descq s)"
    using life_length [OF assms(1)] assms(2) by simp_all
  show ?thesis
    using assms(3) unfolding is_usable_queue_def Let_def h2c_descq_def c2h_descq_def cmpt_descq_def slots_nth [OF l(1)] slots_nth [OF l(2)] slots_nth [OF l(3)]
    by (cases ty) (auto simp: in_use_def)
qed

lemma add_slot_ok:
  assumes so: "slots_ok n fs" and i: "i < n" and p: "p = type_base n ty + i" and ty: "ty \<noteq> Q_H2C_C2H" "\<not> (st \<and> ty = Q_CMPT)"
    and u: "let h = fs ! i; c = fs ! (n + i); m = fs ! (2 * n + i); mode = (in_use h \<and> sl_st h \<or> in_use c \<and> sl_st c) in
    case ty of
      Q_CMPT \<Rightarrow> \<not> (in_use m \<or> mode)
    | Q_H2C \<Rightarrow> \<not> (st \<and> in_use m) \<and> \<not> (st \<and> in_use c \<and> \<not> mode) \<and> \<not> (\<not> st \<and> in_use c \<and> mode) \<and> \<not> in_use h
    | _ \<Rightarrow> \<not> (st \<and> in_use m) \<and> \<not> (st \<and> in_use h \<and> \<not> mode) \<and> \<not> (\<not> st \<and> in_use h \<and> mode) \<and> \<not> in_use c"
    and f: "sl_state f = Q_STATE_ENABLED" "sl_st f = st" "sl_type f = ty" "sl_idx f = i" "\<not> sl_desc f" "\<not> sl_cmpt f"
  shows "p < 3 * n" "\<not> in_use (fs ! p)" "place_ok n p f" "slots_ok n (fs[p := f])"
proof -
  have pr: "pair_ok (fs ! i) (fs ! (n + i)) (fs ! (2 * n + i))" using so i by (simp add: slots_ok_def)
  show b: "p < 3 * n" using i p by (cases ty) (simp_all add: type_base_def)
  show "\<not> in_use (fs ! p)" using u p ty(1) by (cases ty) (auto simp: type_base_def Let_def)
  show pl: "place_ok n p f" using f i p ty by (simp add: place_ok_def)
  have ri: "rings_ok f" using f by (simp add: rings_ok_def)
  have iu: "in_use f" using f(1) by (simp add: in_use_def)
  show "slots_ok n (fs[p := f])"
  proof (cases ty)
    case Q_H2C
    then show ?thesis using i p u pr f(2) iu by (intro slots_ok_update [OF so b pl ri]) (auto simp: type_base_def pair_ok_def Let_def)
  next
    case Q_C2H
    then show ?thesis using i p u pr f(2) iu by (intro slots_ok_update [OF so b pl ri]) (auto simp: type_base_def pair_ok_def Let_def)
  next
    case Q_CMPT
    then show ?thesis using i p u pr f(2) iu by (intro slots_ok_update [OF so b pl ri]) (auto simp: type_base_def pair_ok_def Let_def)
  next
    case Q_H2C_C2H
    then show ?thesis using ty by simp
  qed
qed

lemma add_checksD:
  assumes "add_checks args q s = (rv, b)" "\<not> rv < 0"
  shows "qc_q_type q \<noteq> Q_H2C_C2H" "\<not> (qc_st q \<and> qc_q_type q = Q_CMPT)" "qc_qidx q = QDMA_QUEUE_IDX_INVALID \<or> unat (qc_qidx q) < qmax s"
  using assms by (auto simp: add_checks_def Let_def EINVAL_def EIO_def split: if_splits)

lemma add_keeps:
  assumes "life_ok s" "qdma_queue_add dev irq args q s = Some (0, q', h, t)" "qc_qidx q \<noteq> QDMA_QUEUE_IDX_INVALID"
  shows "life_ok t"
proof -
  let ?n = "qmax s" and ?fs = "slots s" and ?i = "unat (qc_qidx q)" and ?ty = "qc_q_type q"
  obtain r b where r: "add_checks args q s = (r, b)" by fastforce
  have rn: "\<not> r < 0" using assms(2) r by (auto simp: qdma_queue_add_def)
  note ch = add_checksD [OF r rn]
  have us: "is_usable_queue s ?i ?ty (qc_st q)"
  proof (rule ccontr)
    assume "\<not> ?thesis"
    then have "pick_queue s q = Some (Inl (- EPERM))" using assms(3) by (simp add: pick_queue_def Let_def)
    then show False using assms(2) r rn by (simp add: qdma_queue_add_def EPERM_def)
  qed
  let ?p = "base_of s ?ty + ?i"
  have "pick_queue s q = Some (Inr (?p, qc_qidx q))" using us assms(3) by (simp add: pick_queue_def Let_def)
  then obtain rv where ae: "add_enabled dev irq ?p q (set_q_state ?p Q_STATE_ENABLED s) = (rv, t)" and rv: "\<not> rv < 0"
    using assms(2) r rn by (auto simp: qdma_queue_add_def Let_def split: if_splits prod.splits)
  have i: "?i < ?n" using ch(3) assms(3) by blast
  have so: "slots_ok ?n ?fs" and co: "counted ?n ?fs (my_entry s)" and up: "ls_up s" using assms(1) by (simp_all add: life_ok_def)
  have pt: "?p = type_base ?n ?ty + ?i" by (simp add: base_of_type)
  let ?s0 = "set_q_state ?p Q_STATE_ENABLED s"
  obtain r1 s1 where p1: "qdma_device_prep_q_resource dev ?s0 = (r1, s1)" by fastforce
  have r1: "\<not> r1 < 0" using ae p1 rv by (auto simp: add_enabled_def)
  define s2 where "s2 = snd (if xd_drv_mode (ls_x s1) = LEGACY_INTR_MODE then intr_legacy_setup dev irq ?p s1 else (0, s1))"
  define r2 where "r2 = fst (if xd_drv_mode (ls_x s1) = LEGACY_INTR_MODE then intr_legacy_setup dev irq ?p s1 else (0, s1))"
  have pp: "(if xd_drv_mode (ls_x s1) = LEGACY_INTR_MODE then intr_legacy_setup dev irq ?p s1 else (0, s1)) = (r2, s2)"
    by (simp add: r2_def s2_def)
  have "same s2 s1" by (simp add: s2_def) (simp add: same_def)
  then have sm: "same s2 ?s0" using prep_same [OF p1] same_trans by blast
  have r2: "r2 = 0" using ae p1 r1 pp rv by (auto simp: add_enabled_def Let_def EINVAL_def split: if_splits)
  let ?d = "qdma_descq_config q False (load_q ?p s2)" and ?s3 = "store_q ?p (qdma_descq_config q False (load_q ?p s2)) s2"
  have ca: "count_added q ?s3 = (rv, t)" using ae p1 r1 pp r2 by (simp add: add_enabled_def Let_def)
  have ps: "?p < length (ls_descq s)" using i pt life_length [OF assms(1)] ch(1) by (cases ?ty) (simp_all add: type_base_def)
  let ?q = "ls_descq s ! ?p"
  have q2: "ls_descq s2 ! ?p = ?q\<lparr>dq_q_state := Q_STATE_ENABLED\<rparr>" "length (ls_descq s2) = length (ls_descq s)"
    using sameD(2) [OF sm] ps by (simp_all add: set_q_state_def upd_q_def)
  let ?f = "slot_of ?d"
  have nu: "\<not> in_use (?fs ! ?p)" and b: "?p < 3 * ?n"
    using add_slot_ok(1,2) [OF so i pt ch(1,2) _ , of "?f\<lparr>sl_state := Q_STATE_ENABLED, sl_st := qc_st q, sl_type := ?ty, sl_idx := ?i, sl_desc := False, sl_cmpt := False\<rparr>"]
      usable_slots [OF assms(1) i us] by (simp_all add: Let_def)
  have "rings_ok (?fs ! ?p)" using slots_ok_nth [OF so b] by blast
  then have "\<not> dq_desc ?q" "\<not> dq_desc_cmpt ?q" using nu ps by (simp_all add: slots_nth rings_ok_def in_use_def)
  then have f: "sl_state ?f = Q_STATE_ENABLED" "sl_st ?f = qc_st q" "sl_type ?f = ?ty" "sl_idx ?f = ?i" "\<not> sl_desc ?f" "\<not> sl_cmpt ?f"
    using q2(1) by (simp_all add: config_frame)
  have ok: "place_ok ?n ?p ?f" "slots_ok ?n (?fs[?p := ?f])"
    using add_slot_ok(3,4) [OF so i pt ch(1,2) _ f] usable_slots [OF assms(1) i us] by (simp_all add: Let_def)
  have xd: "dq_xdev ?d = ls_x s2" by (simp add: config_frame)
  have s3: "slots ?s3 = ?fs[?p := ?f]" "frame ?s3 = frame s"
    using sameD(1,3) [OF sm] ps q2(2) xd by (simp_all add: slots_store slots_upd_q frame_store set_q_state_def)
  have fr: "ls_up ?s3 = ls_up s" "qmax ?s3 = ?n" "my_entry ?s3 = my_entry s" using s3(2) by (simp_all add: frame_def qmax_def my_entry_def)
  obtain d where d: "my_entry s = Some d" using co by (cases "my_entry s") (auto simp: counted_def)
  note cd = co [unfolded d]
  have bounds: "0 \<le> active_h2c_qcnt d" "active_h2c_qcnt d < 65536" "0 \<le> active_c2h_qcnt d" "active_c2h_qcnt d < 65536"
      "0 \<le> active_cmpt_qcnt d" "active_cmpt_qcnt d < 65536"
    using counted_range [OF cd qmax_less] cmpt_range [OF cd so] qmax_less [of s] by simp_all
  have "my_entry ?s3 = Some d" using fr(3) d by simp
  from count_added_entry [OF this bounds ch(1,2) ca rv] obtain rm where
    t: "my_entry t = Some (count_up ?ty (qc_st q) 1 d)" "t = ?s3\<lparr>ls_rm := rm\<rparr>" by auto
  have "counted ?n (?fs[?p := ?f]) (Some (count_up (sl_type ?f) (sl_st ?f) 1 d))"
    using ps nu f(1) ok(1) by (intro counted_add [OF cd]) (simp_all add: slots_length in_use_def)
  then have "counted ?n (?fs[?p := ?f]) (my_entry t)" using t(1) f(2,3) by simp
  moreover have "slots t = ?fs[?p := ?f]" "qmax t = ?n" "ls_up t" using t(2) s3(1) fr up by (simp_all add: slots_def qmax_def)
  ultimately show ?thesis using ok(2) by (simp add: life_ok_def)
qed

subsection \<open>Reachable states\<close>

inductive life_step :: "dev_state \<Rightarrow> dev_state \<Rightarrow> bool" where
  life_add: "qdma_queue_add dev irq args q s = Some (0, q', h, t) \<Longrightarrow> qc_qidx q \<noteq> QDMA_QUEUE_IDX_INVALID \<Longrightarrow> life_step s t"
| life_config: "qdma_queue_config args k q s = (rv, t) \<Longrightarrow> life_step s t"
| life_start: "qdma_queue_start e q2v args k s = Some (rv, t) \<Longrightarrow> life_step s t"
| life_stop: "qdma_queue_stop dev args k s = Some (rv, t) \<Longrightarrow> life_step s t"
| life_remove: "qdma_queue_remove dev args k s = (rv, t) \<Longrightarrow> life_step s t"

inductive life_reach :: "dev_state \<Rightarrow> dev_state \<Rightarrow> bool" for s0 where
  reach_refl: "life_reach s0 s0"
| reach_step: "life_reach s0 s \<Longrightarrow> life_step s t \<Longrightarrow> life_reach s0 t"

lemma life_step_keeps: "life_step s t \<Longrightarrow> life_ok s \<Longrightarrow> life_ok t"
  by (cases rule: life_step.cases) (auto dest: add_keeps config_keeps start_keeps stop_keeps remove_keeps)

lemma life_reach_keeps: "life_reach s t \<Longrightarrow> life_ok s \<Longrightarrow> life_ok t"
  by (induction rule: life_reach.induct) (auto dest: life_step_keeps)

lemma clear_codes:
  "clear_selectors env c i sels l = (rv, l') \<Longrightarrow> rv = 0 \<or> rv = neg_err QDMA_ERR_HWACC_BUSY_TIMEOUT"
  "clear_queues env c is l = (rv, l') \<Longrightarrow> rv = 0 \<or> rv = neg_err QDMA_ERR_HWACC_BUSY_TIMEOUT"
proof -
  show s: "clear_selectors env c i sels l = (rv, l') \<Longrightarrow> rv = 0 \<or> rv = neg_err QDMA_ERR_HWACC_BUSY_TIMEOUT" for sels i l rv l'
  proof (induction sels arbitrary: l)
    case (Cons sel sels)
    have "fst (qdma_indirect_reg_clear env sel i l) = 0 \<or> fst (qdma_indirect_reg_clear env sel i l) = neg_err QDMA_ERR_HWACC_BUSY_TIMEOUT"
      by (simp add: qdma_indirect_reg_clear_def Let_def case_prod_unfold)
    then show ?case using Cons by (auto simp: Let_def split: if_splits prod.splits)
  qed simp
  show "clear_queues env c is l = (rv, l') \<Longrightarrow> rv = 0 \<or> rv = neg_err QDMA_ERR_HWACC_BUSY_TIMEOUT"
  proof (induction "is" arbitrary: l)
    case (Cons i "is")
    obtain r l1 where "clear_selectors env c i queue_selectors l = (r, l1)" by fastforce
    with Cons s [OF this] show ?case by (auto split: if_splits)
  qed simp
qed

lemma init_codes: "qdma_init_ctxt_memory dev l = (rv, l') \<Longrightarrow> rv < 0 \<Longrightarrow> qdma_get_err_code rv \<noteq> 0"
proof -
  assume a: "qdma_init_ctxt_memory dev l = (rv, l')" "rv < 0"
  then have "rv = inv_param \<or> rv = neg_err QDMA_ERR_HWACC_BUSY_TIMEOUT"
    by (auto simp: qdma_init_ctxt_memory_def Let_def split: option.splits prod.splits if_splits dest: clear_codes)
  moreover have "qdma_get_err_code inv_param \<noteq> 0" "qdma_get_err_code (neg_err QDMA_ERR_HWACC_BUSY_TIMEOUT) \<noteq> 0"
    by code_simp+
  ultimately show ?thesis by blast
qed

text \<open>The state after the device has been set up, with no queue counted for the function.\<close>

lemma device_init_ok:
  assumes "qdma_device_init dev mem fresh s = (0, t)" "ls_qsets_max s < 65536"
    and "my_entry s = Some d" "active_h2c_qcnt d = 0" "active_c2h_qcnt d = 0" "active_cmpt_qcnt d = 0"
  shows "life_ok t"
proof -
  let ?n = "nat (ls_qsets_max s)"
  have q: "unat (of_nat ?n :: u16) = ?n" using assms(2) by (simp add: unat_of_nat take_bit_nat_eq_self)
  obtain init where t: "ls_up t" "ls_qmax t = of_nat ?n" "ls_descq t = map init [0..<3 * ?n]" "my_entry t = my_entry s"
    and i: "\<And>p. dq_q_state (init p) = Q_STATE_DISABLED \<and> \<not> dq_desc (init p) \<and> \<not> dq_desc_cmpt (init p)"
  proof -
    let ?qb = "word_of_int (ls_qsets_base s) :: u16"
    let ?init = "\<lambda>p. qdma_descq_init (ls_x s) (ucast ?qb) (of_nat (p mod ?n)) (of_nat (p mod ?n)) (fresh p)"
    have e: "dq_q_state (?init p) = Q_STATE_DISABLED \<and> \<not> dq_desc (?init p) \<and> \<not> dq_desc_cmpt (?init p)" for p
      by (simp add: qdma_descq_init_def zero_descq_def)
    have n: "rv < 0 \<Longrightarrow> qdma_get_err_code rv = 0 \<Longrightarrow> False" if "qdma_init_ctxt_memory dev l = (rv, l')" for rv l l'
      using that init_codes by blast
    show thesis
      using assms(1) that [of ?init] e n
      by (auto simp: qdma_device_init_def Let_def my_entry_def ENOMEM_def split: if_splits prod.splits)
  qed
  have n: "qmax t = ?n" using t(2) q by (simp add: qmax_def)
  have off: "\<not> in_use (slots t ! p)" "rings_ok (slots t ! p)" if "p < 3 * ?n" for p
    using that t(3) i by (simp_all add: slots_nth in_use_def rings_ok_def)
  have z: "count_in P lo ?n (slots t) = 0" if "\<And>k. k < ?n \<Longrightarrow> \<not> P (slots t ! (lo + k))" for P lo
    unfolding count_in_def using that by (intro sum.neutral) auto
  have "slots_ok ?n (slots t)"
    using off t(3) by (auto simp: slots_ok_def slots_length pair_ok_def place_ok_def)
  moreover have "counted ?n (slots t) (my_entry t)"
    using t(4) assms(3-6) z off(1) by (simp add: counted_def c2h_with_cmpt_def)
  ultimately show ?thesis using n t(1) by (simp add: life_ok_def)
qed

end
