(* ===== verification/Queue_Props.thy ===== *)
theory Queue_Props
  imports Queue_Rules Descq_Demo
begin

text \<open>
  What the rules of \<^verbatim>\<open>Queue_Rules\<close> give for the life of the queues of a device, and what happens at its edges:
  an index chosen by the driver and a request that waits while its queue is stopped.
\<close>

subsection \<open>A device for the witnesses\<close>

text \<open>Function 9 of the demonstration resource with three queue pairs, and a streaming queue added to it.\<close>

definition life_start :: dev_state where
  "life_start = \<lparr>ls_x = demo_dev\<lparr>xd_func_id := 9\<rparr>, ls_log = [], ls_qsets_max = 3, ls_qsets_base = 24, ls_master_pf = False,
     ls_late = False, ls_idx = 0, ls_bus = 3, ls_up = False, ls_init_qrange = False, ls_qmax = 0, ls_qbase = 0, ls_descq = [],
     ls_rm = demo_rm, ls_intr = [], ls_legacy = [], ls_percpu = [0, 0], ls_cpu = \<lambda>_. None, ls_threads = [\<lparr>th_work_list = [], th_work_cnt = 0\<rparr>], ls_thread = \<lambda>_. None\<rparr>"

definition life_dev :: dev_hndl where "life_dev = Some (\<lambda>_ _. 4)"

definition life_fresh :: "nat \<Rightarrow> qdma_descq" where "life_fresh p = zero_descq demo_dev (\<lambda>i. demo_req\<lparr>rq_fp_done := False\<rparr>)"

definition life_init :: dev_state where
  "life_init = snd (qdma_device_init life_dev True life_fresh life_start)"

definition life_conf :: "queue_type_t \<Rightarrow> bool \<Rightarrow> 24 word \<Rightarrow> qdma_queue_conf" where
  "life_conf ty st i = (demo_conf st ty)\<lparr>qc_qidx := i\<rparr>"

definition life_added :: "(int \<times> qdma_queue_conf \<times> nat option \<times> dev_state) option" where
  "life_added = qdma_queue_add life_dev 0 True (life_conf Q_C2H True 1) life_init"

lemma life_init_value: "qdma_device_init life_dev True life_fresh life_start = (0, life_init)"
proof -
  have "fst (qdma_device_init life_dev True life_fresh life_start) = 0" unfolding life_start_def demo_rm_value by code_simp
  then show ?thesis by (simp add: life_init_def prod_eq_iff)
qed

lemma life_added_value:
  "map_option (\<lambda>(rv, q, h, t). (rv, h)) life_added = Some (0, Some 4)"
  unfolding life_added_def life_init_def life_start_def demo_rm_value by code_simp

definition life_one :: dev_state where "life_one = snd (snd (snd (the life_added)))"

lemma life_one_slots:
  "slots life_one ! 4 = \<lparr>sl_state = Q_STATE_ENABLED, sl_st = True, sl_type = Q_C2H, sl_idx = 1, sl_desc = False, sl_cmpt = False\<rparr>"
  unfolding life_one_def life_added_def life_init_def life_start_def demo_rm_value by code_simp

lemma life_one_qmax: "qmax life_one = 3"
  unfolding life_one_def life_added_def life_init_def life_start_def demo_rm_value by code_simp

lemma life_one_reach: "life_reach life_init life_one"
proof -
  obtain rv q h u where u: "life_added = Some (rv, q, h, u)" using life_added_value by (cases life_added) auto
  have "rv = 0 \<and> h = Some 4" using life_added_value by (simp add: u)
  then have "life_added = Some (0, q, Some 4, life_one)" by (simp add: u life_one_def)
  moreover have "qc_qidx (life_conf Q_C2H True 1) \<noteq> QDMA_QUEUE_IDX_INVALID" by code_simp
  ultimately have "life_step life_init life_one" unfolding life_added_def by (intro life_add) auto
  then show ?thesis by (rule reach_step [OF reach_refl])
qed

lemma life_start_entry: "my_entry life_start = Some \<lparr>func_id = 9, active_h2c_qcnt = 0, active_c2h_qcnt = 0, active_cmpt_qcnt = 0,
           entry = \<lparr>qbase = 24, total_q = 32\<rparr>\<rparr>"
  unfolding life_start_def demo_rm_value by code_simp

subsection \<open>The queues in use\<close>

text \<open>
  C5: Over any sequence of adding queues at a given index (an add that succeeds), configuring, starting, stopping and
  removing them, whether these succeed or fail, on a device set up with no queue counted: the queues of an index that are in use agree in their mode, and a completion queue is never next
  to a streaming one; a queue in use lies at the place its type and index say; and it holds exactly the
  rings of its kind while it runs and none otherwise.\<close>

theorem queue_life_sound:
  assumes "qdma_device_init dev mem fresh s = (0, s0)" "ls_qsets_max s < 65536"
    and "my_entry s = Some d" "active_h2c_qcnt d = 0" "active_c2h_qcnt d = 0" "active_cmpt_qcnt d = 0"
    and "life_reach s0 t"
  shows "length (slots t) = 3 * qmax t \<and>
    (\<forall>i<qmax t. pair_ok (slots t ! i) (slots t ! (qmax t + i)) (slots t ! (2 * qmax t + i))) \<and>
    (\<forall>p<3 * qmax t. place_ok (qmax t) p (slots t ! p) \<and> rings_ok (slots t ! p))"
  using life_reach_keeps [OF assms(7) device_init_ok [OF assms(1-6)]] by (simp add: life_ok_def slots_ok_def)

theorem queue_life_sound_witness:
  "place_ok 3 4 (slots life_one ! 4) \<and> rings_ok (slots life_one ! 4) \<and> in_use (slots life_one ! 4) \<and> sl_idx (slots life_one ! 4) = 1"
proof -
  have "place_ok (qmax life_one) 4 (slots life_one ! 4) \<and> rings_ok (slots life_one ! 4)"
    using queue_life_sound [OF life_init_value _ life_start_entry _ _ _ life_one_reach] life_one_qmax by (simp add: life_start_def)
  then show ?thesis using life_one_slots life_one_qmax by (simp add: in_use_def)
qed

text \<open>
  C6: The counters of the resource manager are exact: after any such sequence the three counters of the function are the
  numbers of its queues in use, a streaming card-to-host queue counting as a completion queue as well, so that
  as long as a queue is in use a new range for the function is refused and nothing changes.\<close>

theorem range_kept_while_used:
  assumes "qdma_device_init dev mem fresh s = (0, s0)" "ls_qsets_max s < 65536"
    and "my_entry s = Some d" "active_h2c_qcnt d = 0" "active_c2h_qcnt d = 0" "active_cmpt_qcnt d = 0"
    and "life_reach s0 t" "p < 3 * qmax t" "in_use (slots t ! p)"
  shows "counted (qmax t) (slots t) (my_entry t) \<and> qdma_set_qmax dev2 al mem2 fresh2 qb qsets t = Some (- EINVAL, t)"
proof -
  have ok: "slots_ok (qmax t) (slots t)" "counted (qmax t) (slots t) (my_entry t)"
    using life_reach_keeps [OF assms(7) device_init_ok [OF assms(1-6)]] by (simp_all add: life_ok_def)
  obtain e where e: "my_entry t = Some e" using ok(2) by (cases "my_entry t") (auto simp: counted_def)
  have nn: "0 \<le> count_in P lo n fs" for P lo n fs by (rule count_in_bounds)
  have "active_h2c_qcnt e \<noteq> 0 \<or> active_c2h_qcnt e \<noteq> 0 \<or> active_cmpt_qcnt e \<noteq> 0"
  proof (rule index_cases [OF assms(8)])
    fix i assume "i < qmax t" "p = i"
    then have "0 < count_in in_use 0 (qmax t) (slots t)" using assms(9) by (intro count_in_pos [of _ p]) simp_all
    then show ?thesis using ok(2) e by (simp add: counted_def)
  next
    fix i assume "i < qmax t" "p = qmax t + i"
    then have "0 < count_in in_use (qmax t) (qmax t) (slots t)" using assms(9) by (intro count_in_pos [of _ p]) simp_all
    then show ?thesis using ok(2) e by (simp add: counted_def)
  next
    fix i assume "i < qmax t" "p = 2 * qmax t + i"
    then have "0 < count_in in_use (2 * qmax t) (qmax t) (slots t)" using assms(9) by (intro count_in_pos [of _ p]) simp_all
    then show ?thesis using ok(2) e nn [of c2h_with_cmpt "qmax t" "qmax t" "slots t"] by (simp add: counted_def)
  qed
  moreover obtain m where "qdma_get_master_resource_entry (ls_idx t) (ls_rm t) = Some m"
    using e entry_parts [of "ls_idx t" "uint (xd_func_id (ls_x t))" "ls_rm t" e] by (auto simp: my_entry_def)
  ultimately have "qdma_dev_update al (ls_idx t) (uint (xd_func_id (ls_x t))) qsets qb (ls_rm t) =
      (neg_err QDMA_ERR_RM_QMAX_CONF_REJECTED, qb, ls_rm t)"
    using e by (auto simp: qdma_dev_update_def my_entry_def)
  moreover have "neg_err QDMA_ERR_RM_QMAX_CONF_REJECTED < 0" by (rule neg_err_neg) simp
  ultimately have "qdma_set_qmax dev2 al mem2 fresh2 qb qsets t = Some (- EINVAL, t)"
    by (simp add: qdma_set_qmax_def)
  then show ?thesis using ok(2) by blast
qed

theorem range_kept_while_used_witness:
  "counted 3 (slots life_one) (my_entry life_one) \<and>
    qdma_set_qmax life_dev (\<lambda>_. True) True life_fresh 0 8 life_one = Some (- EINVAL, life_one)"
proof -
  have "(4 :: nat) < 3 * qmax life_one" "in_use (slots life_one ! 4)" using life_one_slots life_one_qmax by (simp_all add: in_use_def)
  from range_kept_while_used [OF life_init_value _ life_start_entry _ _ _ life_one_reach this] show ?thesis
    using life_one_qmax by (simp add: life_start_def)
qed

subsection \<open>A request that waits while its queue is stopped\<close>

definition waits :: "qdma_descq \<Rightarrow> nat list \<times> (nat \<Rightarrow> qdma_request)" where
  "waits d = (dq_pend_list d, dq_req d)"

lemma waits_flq [simp]:
  "waits (upd_flq f d) = waits d" "waits (upd_page j g d) = waits d" "waits (upd_sdesc k h d) = waits d" "waits (page_ref a n d) = waits d"
  by (simp_all add: waits_def upd_flq_def upd_page_def upd_sdesc_def page_ref_def)

lemma waits_more [simp]:
  "waits (d\<lparr>dq_c2h_ring := x\<rparr>) = waits d" "waits (d\<lparr>dq_unmaps := y\<rparr>) = waits d" "waits (d\<lparr>dq_flq := z\<rparr>) = waits d"
  "waits (d\<lparr>dq_log := l\<rparr>) = waits d" "waits (d\<lparr>dq_xdev := v\<rparr>) = waits d" "waits (d\<lparr>dq_desc_cmpt := a\<rparr>) = waits d"
  "waits (d\<lparr>dq_desc_cmpt_bus := b\<rparr>) = waits d" "waits (d\<lparr>dq_desc := a\<rparr>) = waits d" "waits (d\<lparr>dq_desc_bus := b\<rparr>) = waits d"
  "waits (d\<lparr>dq_mm_ring := r1\<rparr>) = waits d" "waits (d\<lparr>dq_h2c_ring := r2\<rparr>) = waits d"
  by (simp_all add: waits_def)

lemma waits_free_one [simp]: "waits (flq_free_one k d) = waits d" by (simp add: flq_free_one_def Let_def)

lemma waits_free_page_one [simp]: "waits (flq_free_page_one k d) = waits d"
  by (simp add: flq_free_page_one_def flq_unmap_page_one_def Let_def)

lemma waits_fold: "(\<And>k d. waits (f k d) = waits d) \<Longrightarrow> waits (fold f ks d) = waits d"
  by (induction ks arbitrary: d) simp_all

lemma waits_free_page: "descq_flq_free_page_resource d = Some t \<Longrightarrow> waits t = waits d"
  by (auto simp: descq_flq_free_page_resource_def Let_def waits_fold split: if_splits)

lemma waits_free_memory [simp]: "waits (free_memory a d) = waits d"
  by (simp add: free_memory_def waits_def split: option.splits)

lemma waits_free_resource: "qdma_descq_free_resource d = Some t \<Longrightarrow> waits t = waits d"
  by (auto simp: qdma_descq_free_resource_def descq_flq_free_resource_def waits_fold split: if_splits option.splits dest!: waits_free_page)

definition told :: "nat \<Rightarrow> qdma_descq \<Rightarrow> bool" where
  "told i d \<longleftrightarrow> cb_done (dq_req d i) \<and> cb_status (dq_req d i) = - ENXIO"

lemma abort_requests_waits:
  assumes "\<And>j e. dq_req (del j e) = dq_req e" "\<And>j e k. k \<noteq> j \<Longrightarrow> k \<in> set (dq_pend_list e) \<Longrightarrow> k \<in> set (dq_pend_list (del j e))"
    and "\<not> rq_fp_done (dq_req d i)" "i \<in> set (dq_pend_list d)"
  shows "\<not> rq_fp_done (dq_req (abort_requests del is d) i) \<and> i \<in> set (dq_pend_list (abort_requests del is d)) \<and>
    (i \<in> set is \<or> told i d \<longrightarrow> told i (abort_requests del is d))"
  using assms(3,4)
proof (induction "is" arbitrary: d)
  case (Cons j "is")
  define d1 where "d1 = upd_req j (\<lambda>r. r\<lparr>cb_done := True, cb_status := - ENXIO\<rparr>) d"
  define d2 where "d2 = (if rq_fp_done (dq_req d1 j) then (let t = del j d1 in t\<lparr>dq_done := dq_done t @ [(j, 0, - ENXIO)]\<rparr>) else d1)"
  have r: "dq_req d2 = dq_req d1" by (simp add: d2_def Let_def assms(1))
  have f: "\<not> rq_fp_done (dq_req d1 i)" "i \<in> set (dq_pend_list d1)" using Cons.prems by (cases "i = j"; simp add: d1_def upd_req_def)+
  have p: "i \<in> set (dq_pend_list d2)"
  proof (cases "i = j")
    case False
    then show ?thesis using f assms(2) by (simp add: d2_def Let_def)
  qed (use f in \<open>simp add: d2_def\<close>)
  have t: "i = j \<or> told i d \<Longrightarrow> told i d2" unfolding told_def r by (auto simp: d1_def upd_req_def)
  have "abort_requests del (j # is) d = abort_requests del is d2" by (simp add: d1_def d2_def Let_def)
  then show ?case using Cons.IH [of d2] p t f(1) r by auto
qed simp

lemma abort_all_waits:
  assumes "\<not> rq_fp_done (dq_req d i)" "i \<in> set (dq_pend_list d)"
  shows "i \<in> set (dq_pend_list (abort_all d)) \<and> told i (abort_all d)"
proof -
  let ?d1 = "d\<lparr>dq_q_state := Q_STATE_ENABLED, dq_q_stop_wait := False\<rparr>"
  let ?d2 = "abort_requests (\<lambda>i t. t\<lparr>dq_pend_list := remove1 i (dq_pend_list t)\<rparr>) (dq_pend_list ?d1) ?d1"
  have 2: "\<not> rq_fp_done (dq_req ?d2 i) \<and> i \<in> set (dq_pend_list ?d2) \<and> told i ?d2"
    using abort_requests_waits [of "\<lambda>i t. t\<lparr>dq_pend_list := remove1 i (dq_pend_list t)\<rparr>" ?d1 i "dq_pend_list ?d1"] assms by auto
  show ?thesis
    unfolding abort_all_def Let_def
    using abort_requests_waits [of qdma_work_queue_del ?d2 i "dq_work_list ?d2"] 2 by (auto simp: qdma_work_queue_del_def)
qed

lemma woken_waits:
  assumes "told i d"
  shows "fst (submit_sgt_woken i d) = - EIO" "dq_pend_list (snd (submit_sgt_woken i d)) = dq_pend_list d"
  using assms
  by (simp_all add: submit_sgt_woken_def qdma_request_wait_for_cmpl_def told_def ENXIO_def EIO_def Let_def unmap_unless_mapped_def unmap_req_def upd_req_def)

lemma stop_waits:
  assumes "stop_finish dev p s = Some t" "p < length (ls_descq s)"
    and "\<not> rq_fp_done (dq_req (ls_descq s ! p) i)" "i \<in> set (dq_pend_list (ls_descq s ! p))"
  shows "i \<in> set (dq_pend_list (ls_descq t ! p)) \<and> told i (ls_descq t ! p) \<and> \<not> dq_desc (ls_descq t ! p) \<and> \<not> dq_desc_cmpt (ls_descq t ! p)"
proof -
  let ?s1 = "qdma_thread_remove_work p (upd_q p abort_all s)"
  let ?d = "load_q p ?s1"
  define l2 where "l2 = snd (qdma_descq_context_clear dev (dq_qidx_hw ?d) (qc_st (dq_conf ?d)) (q_type_val (qc_q_type (dq_conf ?d))) False (dq_log ?d))"
  let ?s2 = "?s1\<lparr>ls_log := l2\<rparr>"
  define s3 where "s3 = (if xd_drv_mode (ls_x ?s2) \<noteq> POLL_MODE \<and> xd_drv_mode (ls_x ?s2) \<noteq> LEGACY_INTR_MODE then del_intr p (dq_intr_id ?d) ?s2 else ?s2)"
  have "stop_finish dev p s = map_option (\<lambda>d1. store_q p (d1\<lparr>dq_total_cmpl_descs := 0\<rparr>) s3) (qdma_descq_free_resource (load_q p s3))"
    by (simp only: stop_finish_def Let_def s3_def l2_def)
  then have "map_option (\<lambda>d1. store_q p (d1\<lparr>dq_total_cmpl_descs := 0\<rparr>) s3) (qdma_descq_free_resource (load_q p s3)) = Some t"
    using assms(1) by simp
  then obtain d1 where d1: "qdma_descq_free_resource (load_q p s3) = Some d1" and t: "t = store_q p (d1\<lparr>dq_total_cmpl_descs := 0\<rparr>) s3"
    by blast
  have "same s3 ?s2" by (simp add: s3_def same_def) (simp add: del_intr_def frame_def)
  then have "same s3 (upd_q p abort_all s)" using same_trans intr_same(3) thread_remove_same by blast
  then have q: "ls_descq s3 = (ls_descq s)[p := abort_all (ls_descq s ! p)]" by (simp add: sameD(2) upd_q_def)
  have "waits d1 = waits (abort_all (ls_descq s ! p))"
    using waits_free_resource [OF d1] q assms(2) by (simp add: load_q_def)
  then show ?thesis
    using abort_all_waits [OF assms(3,4)] free_resource_frame(2,3) [OF d1] t q assms(2) by (simp add: store_q_def waits_def told_def)
qed

text \<open>
  C39: A request without a completion call that is pending when its queue is stopped stays on the list of pending requests
  for good: the stop succeeds, frees the rings and reports an error, and the waiter that it wakes returns the error
  without taking the request off the list, so the list keeps a request whose memory its owner may free.\<close>

theorem stopped_request_stays_listed:
  assumes "qdma_queue_stop dev True h s = Some (0, t)" "ls_up s" "length (ls_descq s) = 3 * qmax s"
    and "i \<in> set (dq_pend_list (ls_descq s ! h))" "\<not> rq_fp_done (dq_req (ls_descq s ! h) i)"
  shows "\<not> dq_desc (ls_descq t ! h) \<and> fst (submit_sgt_woken i (ls_descq t ! h)) = - EIO \<and>
    i \<in> set (dq_pend_list (snd (submit_sgt_woken i (ls_descq t ! h))))"
proof -
  obtain p where p: "qdma_device_get_descq_by_id h True s = Some p"
    and t: "stop_finish dev p (upd_q p (\<lambda>d. d\<lparr>dq_q_stop_wait := True\<rparr>) s) = Some t"
    using assms(1) by (auto simp: qdma_queue_stop_def stop_begin_def EINVAL_def split: option.splits if_splits)
  have b: "p = h" "p < length (ls_descq s)" using by_id [OF assms(2) p] assms(3) by simp_all
  let ?s = "upd_q p (\<lambda>d. d\<lparr>dq_q_stop_wait := True\<rparr>) s"
  have "ls_descq ?s ! p = (ls_descq s ! p)\<lparr>dq_q_stop_wait := True\<rparr>" using b by (simp add: upd_q_def)
  then have "i \<in> set (dq_pend_list (ls_descq t ! h)) \<and> told i (ls_descq t ! h) \<and> \<not> dq_desc (ls_descq t ! h)"
    using stop_waits [OF t] b assms(4,5) by simp
  then show ?thesis using woken_waits [of i "ls_descq t ! h"] by simp
qed

text \<open>A queue that does not receive streams can always be stopped.\<close>

lemma stop_returns:
  assumes "ls_up s" "h < 3 * qmax s" "length (ls_descq s) = 3 * qmax s" "dq_q_state (ls_descq s ! h) = Q_STATE_ONLINE"
    and "\<not> st_c2h (dq_conf (ls_descq s ! h))"
  shows "\<exists>t. qdma_queue_stop dev True h s = Some (0, t)"
proof -
  have g: "qdma_device_get_descq_by_id h True s = Some h"
    using assms(1,2,4) by (auto simp: qdma_device_get_descq_by_id_def Let_def h2c_descq_def c2h_descq_def cmpt_descq_def)
  let ?s = "upd_q h (\<lambda>d. d\<lparr>dq_q_stop_wait := True\<rparr>) s"
  have b: "stop_begin True h s = (Inr h, ?s)" using g assms(4) by (simp add: stop_begin_def)
  have "qdma_descq_free_resource d \<noteq> None" if "\<not> st_c2h (dq_conf d)" for d
    using that by (simp add: qdma_descq_free_resource_def)
  moreover have "dq_conf (load_q h u) = dq_conf (ls_descq s ! h)" if "same u (upd_q h abort_all ?s)" for u
  proof -
    have "ls_descq u ! h = abort_all ((ls_descq s ! h)\<lparr>dq_q_stop_wait := True\<rparr>)"
      using sameD(2) [OF that] assms(2,3) by (simp add: upd_q_def)
    then show ?thesis using abort_all_frame [of "(ls_descq s ! h)\<lparr>dq_q_stop_wait := True\<rparr>"] by (simp add: load_q_def face_def)
  qed
  moreover have "same (del_intr h v (u\<lparr>ls_log := l\<rparr>)) (upd_q h abort_all ?s)" "same (u\<lparr>ls_log := l\<rparr>) (upd_q h abort_all ?s)"
    if "same u (upd_q h abort_all ?s)" for u v l
    using that same_trans intr_same(2,3) by blast+
  ultimately have "stop_finish dev h ?s \<noteq> None"
    using assms(5) thread_remove_same by (simp add: stop_finish_def Let_def)
  then show ?thesis using b by (simp add: qdma_queue_stop_def)
qed

definition life_waiting :: dev_state where
  "life_waiting = life_init\<lparr>ls_descq := (ls_descq life_init)[0 := upd_req 0 (\<lambda>r. r\<lparr>rq_fp_done := False\<rparr>) (demo_busy False)]\<rparr>"

lemma life_init_sizes: "ls_up life_init \<and> qmax life_init = 3 \<and> length (ls_descq life_init) = 9"
  unfolding life_init_def life_start_def demo_rm_value by code_simp

lemma demo_busy_online: "(dq_q_state (demo_busy False), st_c2h (dq_conf (demo_busy False))) = (Q_STATE_ONLINE, False)"
  by code_simp

lemma life_waiting_values: "ls_up life_waiting" "qmax life_waiting = 3" "length (ls_descq life_waiting) = 9"
    "ls_descq life_waiting ! 0 = upd_req 0 (\<lambda>r. r\<lparr>rq_fp_done := False\<rparr>) (demo_busy False)"
  using life_init_sizes by (simp_all add: life_waiting_def qmax_def)

theorem stopped_request_stays_listed_witness:
  "\<exists>t. qdma_queue_stop life_dev True 0 life_waiting = Some (0, t) \<and>
    fst (submit_sgt_woken 0 (ls_descq t ! 0)) = - EIO \<and> 0 \<in> set (dq_pend_list (snd (submit_sgt_woken 0 (ls_descq t ! 0))))"
proof -
  obtain t where t: "qdma_queue_stop life_dev True 0 life_waiting = Some (0, t)"
    using stop_returns [of life_waiting 0 life_dev] life_waiting_values demo_busy_online by (auto simp: upd_req_def)
  moreover have "0 \<in> set (dq_pend_list (ls_descq life_waiting ! 0))" "\<not> rq_fp_done (dq_req (ls_descq life_waiting ! 0) 0)"
    using demo_busy_values life_waiting_values(4) by (simp_all add: upd_req_def)
  ultimately show ?thesis using stopped_request_stays_listed [OF t] life_waiting_values by simp
qed

end
