(* ===== verification/Queue_Auto.thy ===== *)
theory Queue_Auto
  imports Queue_Props
begin

text \<open>
  The choice of an index by \<^verbatim>\<open>qdma_queue_add\<close> (\<^verbatim>\<open>libqdma/libqdma_export.c\<close>, the loop over the queues).
\<close>

subsection \<open>An index chosen by the driver\<close>

lemma count_added_rest: "\<exists>rm. snd (count_added q s) = s\<lparr>ls_rm := rm\<rparr>"
proof -
  obtain r1 rm1 where r1: "qdma_dev_increment_active_queue (ls_idx s) (uint (xd_func_id (ls_x s))) (dev_q_type (qc_q_type q)) (ls_rm s) = (r1, rm1)"
    by fastforce
  obtain r2 rm2 where r2: "qdma_dev_increment_active_queue (ls_idx s) (uint (xd_func_id (ls_x s))) QDMA_DEV_Q_TYPE_CMPT rm1 = (r2, rm2)"
    by fastforce
  show ?thesis by (simp add: count_added_def Let_def r1 r2) blast
qed

lemma add_enabledD:
  assumes "add_enabled dev irq p q s = (rv, t)" "\<not> rv < 0" "p < length (ls_descq s)"
  shows "qmax t = qmax s \<and> ls_up t = ls_up s \<and>
    (\<exists>d. ls_descq t = (ls_descq s)[p := d] \<and> dq_conf d = q \<and> dq_q_state d = dq_q_state (ls_descq s ! p))"
proof -
  obtain r1 s1 where p1: "qdma_device_prep_q_resource dev s = (r1, s1)" by fastforce
  have r1: "\<not> r1 < 0" using assms(1,2) p1 by (auto simp: add_enabled_def)
  obtain r2 s2 where p2: "(if xd_drv_mode (ls_x s1) = LEGACY_INTR_MODE then intr_legacy_setup dev irq p s1 else (0, s1)) = (r2, s2)"
    by fastforce
  have "same s2 s1" using p2 legacy_same(2) [of dev irq p s1] by (auto simp: same_def split: if_splits)
  then have sm: "same s2 s" using prep_same [OF p1] same_trans by blast
  have "r2 = 0" using assms(1,2) p1 r1 p2 by (auto simp: add_enabled_def Let_def EINVAL_def split: if_splits)
  then have "count_added q (store_q p (qdma_descq_config q False (load_q p s2)) s2) = (rv, t)"
    using assms(1) p1 r1 p2 by (simp add: add_enabled_def Let_def)
  then obtain rm where "t = (store_q p (qdma_descq_config q False (load_q p s2)) s2)\<lparr>ls_rm := rm\<rparr>"
    using count_added_rest by (metis snd_conv)
  then show ?thesis
    using sameD(1,2) [OF sm] assms(3) by (auto simp: store_q_def qmax_def frame_def config_frame)
qed

text \<open>
  C40: When the driver chooses the index of a queue itself and the first usable index is not 0, the queue is added in the
  wrong place: the descriptor pointer is advanced by the index twice, so the handle that is
  returned, of the index chosen, belongs to a queue that is still disabled and cannot be started, while the
  queue at twice the index has been enabled; where that is beyond the queues of the device, memory is overrun.\<close>

theorem automatic_index_misplaced:
  assumes "add_checks True q s = (0, b)" "ls_up s" "length (ls_descq s) = 3 * qmax s" "qc_qidx q = QDMA_QUEUE_IDX_INVALID"
    and "find (\<lambda>i. is_usable_queue s i (qc_q_type q) (qc_st q)) [0..<qmax s] = Some i" "0 < i"
  shows "(3 * qmax s \<le> base_of s (qc_q_type q) + 2 * i \<longrightarrow> qdma_queue_add dev irq True q s = None) \<and>
    (qdma_queue_add dev irq True q s = Some (0, q', h, t) \<longrightarrow>
      h = Some (base_of s (qc_q_type q) + i) \<and> qdma_queue_start e q2v True (base_of s (qc_q_type q) + i) t = Some (- EINVAL, t) \<and>
      dq_q_state (ls_descq t ! (base_of s (qc_q_type q) + 2 * i)) = Q_STATE_ENABLED)"
proof -
  let ?ty = "qc_q_type q" and ?b = "base_of s (qc_q_type q)"
  let ?p = "?b + i + i" and ?q = "q\<lparr>qc_qidx := of_nat i\<rparr>"
  have ty: "?ty \<noteq> Q_H2C_C2H" using add_checksD(1) [OF assms(1)] by simp
  have us: "i < qmax s" "is_usable_queue s i ?ty (qc_st q)"
    using assms(5) by (auto simp: find_Some_iff)
  have un: "unat (of_nat i :: 24 word) = i"
    using us(1) qmax_less [of s] by (simp add: unat_of_nat take_bit_nat_eq_self)
  have off: "dq_q_state (ls_descq s ! (?b + i)) = Q_STATE_DISABLED"
    using us(2) ty by (cases ?ty) (auto simp: is_usable_queue_def base_of_def h2c_descq_def c2h_descq_def cmpt_descq_def Let_def)
  have pick: "pick_queue s q = (if ?p < length (ls_descq s) then Some (Inr (?p, of_nat i)) else None)"
    using assms(4,5) by (simp add: pick_queue_def Let_def)
  have bi: "?b + i < 3 * qmax s" using us(1) by (cases ?ty) (simp_all add: base_of_def h2c_descq_def c2h_descq_def cmpt_descq_def)
  show ?thesis
  proof (intro conjI impI)
    assume "3 * qmax s \<le> ?b + 2 * i"
    then show "qdma_queue_add dev irq True q s = None" using pick assms(1,3) by (simp add: qdma_queue_add_def)
  next
    assume add: "qdma_queue_add dev irq True q s = Some (0, q', h, t)"
    then have l: "?p < length (ls_descq s)" using pick assms(1) by (auto simp: qdma_queue_add_def split: if_splits)
    let ?s = "set_q_state ?p Q_STATE_ENABLED s"
    obtain rv u where ae: "add_enabled dev irq ?p ?q ?s = (rv, u)" by fastforce
    have rv: "\<not> rv < 0" and u: "u = t" and h: "h = Some (unat (qc_qidx (dq_conf (ls_descq t ! ?p))) + base_of t ?ty)"
      using add pick l assms(1) ae by (auto simp: qdma_queue_add_def Let_def split: if_splits)
    obtain d where d: "qmax t = qmax s" "ls_up t" "ls_descq t = (ls_descq ?s)[?p := d]" "dq_conf d = ?q"
        "dq_q_state d = dq_q_state (ls_descq ?s ! ?p)"
      using add_enabledD [OF ae rv] l u assms(2) by (auto simp: set_q_state_def upd_q_def qmax_def)
    have at: "ls_descq t ! ?p = d" "dq_q_state d = Q_STATE_ENABLED" "ls_descq t ! (?b + i) = ls_descq s ! (?b + i)"
      using d(3,5) l assms(6) by (simp_all add: set_q_state_def upd_q_def)
    have bt: "base_of t ?ty = ?b" using d(1) by (simp add: base_of_type)
    show "h = Some (?b + i)" using h at(1) d(4) un bt by simp
    have "qdma_device_get_descq_by_id (?b + i) True t = None"
    proof (rule ccontr)
      assume "\<not> ?thesis"
      then obtain k where "qdma_device_get_descq_by_id (?b + i) True t = Some k" by blast
      from by_id [OF d(2) this] have "dq_q_state (ls_descq t ! (?b + i)) \<noteq> Q_STATE_DISABLED" by blast
      then show False using at(3) off by metis
    qed
    then show "qdma_queue_start e q2v True (?b + i) t = Some (- EINVAL, t)" by (simp add: qdma_queue_start_def)
    show "dq_q_state (ls_descq t ! (?b + 2 * i)) = Q_STATE_ENABLED" using at(1,2) by (simp add: mult_2 add.assoc)
  qed
qed

text \<open>With the first queue pair taken the queue chosen for a streaming receive queue is the third one.\<close>

definition life_zero :: dev_state where
  "life_zero = upd_q 3 (\<lambda>d. d\<lparr>dq_q_state := Q_STATE_ENABLED, dq_conf := life_conf Q_C2H True 0\<rparr>) life_init"

lemma life_zero_checks: "add_checks True (life_conf Q_C2H True QDMA_QUEUE_IDX_INVALID) life_zero = (0, True)"
  unfolding life_zero_def life_init_def life_start_def demo_rm_value by code_simp

lemma life_zero_first: "find (\<lambda>i. is_usable_queue life_zero i Q_C2H True) [0..<3] = Some 1"
  unfolding life_zero_def life_init_def life_start_def demo_rm_value by code_simp

lemma life_zero_added: "map_option fst (qdma_queue_add life_dev 0 True (life_conf Q_C2H True QDMA_QUEUE_IDX_INVALID) life_zero) = Some 0"
  unfolding life_zero_def life_init_def life_start_def demo_rm_value by code_simp

lemma life_zero_sizes: "ls_up life_zero" "length (ls_descq life_zero) = 9" "qmax life_zero = 3"
  using life_init_sizes by (simp_all add: life_zero_def upd_q_def qmax_def)

theorem automatic_index_misplaced_witness:
  "\<exists>q' t. qdma_queue_add life_dev 0 True (life_conf Q_C2H True QDMA_QUEUE_IDX_INVALID) life_zero = Some (0, q', Some 4, t) \<and>
    qdma_queue_start (demo_env False) (\<lambda>_ _ _ l. l) True 4 t = Some (- EINVAL, t) \<and>
    dq_q_state (ls_descq t ! 5) = Q_STATE_ENABLED"
proof -
  let ?q = "life_conf Q_C2H True QDMA_QUEUE_IDX_INVALID"
  have c: "qc_qidx ?q = QDMA_QUEUE_IDX_INVALID" "qc_q_type ?q = Q_C2H" "qc_st ?q = True"
    by (simp_all add: life_conf_def demo_conf_def)
  obtain q' k t where t: "qdma_queue_add life_dev 0 True ?q life_zero = Some (0, q', k, t)" using life_zero_added by auto
  have "length (ls_descq life_zero) = 3 * qmax life_zero" using life_zero_sizes by simp
  moreover have "find (\<lambda>i. is_usable_queue life_zero i (qc_q_type ?q) (qc_st ?q)) [0..<qmax life_zero] = Some 1"
    unfolding c life_zero_sizes(3) by (rule life_zero_first)
  moreover have "base_of life_zero Q_C2H = 3" using life_zero_sizes by (simp add: base_of_type type_base_def)
  ultimately have "k = Some 4 \<and> qdma_queue_start (demo_env False) (\<lambda>_ _ _ l. l) True 4 t = Some (- EINVAL, t) \<and>
    dq_q_state (ls_descq t ! 5) = Q_STATE_ENABLED"
    using automatic_index_misplaced [OF life_zero_checks life_zero_sizes(1) _ c(1), of 1 life_dev 0 q' k t "demo_env False" "\<lambda>_ _ _ l. l"] c(2) t
    by simp
  then show ?thesis using t by blast
qed

end
