(* ===== verification/Spec2Isabelle.thy ===== *)
theory Spec2Isabelle
  imports Qdma_List Resource_Mgmt Soft_Csr Onic_Json Mbox_Race Mbox_Queue Descq_Reach Descq_Faults Descq_Desc Queue_Contexts Queue_Auto
begin

text \<open>
  \<^bold>\<open>The queue DMA library of onic-driver.\<close>

  The repository is the Linux driver of an FPGA network card. Its core is \<^verbatim>\<open>src/libqdma\<close>, the
  library that drives the queue DMA engine of the card; around it are a network driver
  (\<^verbatim>\<open>src/onic_main.c\<close>, \<^verbatim>\<open>src/onic_ethtool.c\<close>), the reader of the platform file
  (\<^verbatim>\<open>src/onic_json.c\<close>) and a JSON tokenizer (\<^verbatim>\<open>src/jsmn\<close>). A physical function owns the card; it
  hands out ranges of hardware queues to functions (resource manager), writes the contexts of a queue
  through an indirect command interface (contexts), serves virtual functions that have no access to
  the contexts themselves (mailbox), and runs the queues: descriptor rings, completions and
  receive buffers (descriptor queues). This development models these parts as executable
  definitions that follow the C code statement by statement, and proves what makes them correct.

  \<^bold>\<open>Conventions.\<close> A C integer of width w is a \<open>w word\<close>, so that it wraps around; where the code mixes
  \<^verbatim>\<open>int\<close> and \<^verbatim>\<open>uint32_t\<close> the conversion is written out (\<open>to_u32\<close>, \<open>to_s32\<close>). A return code is an \<open>int\<close>,
  negative for an error. A structure is a record whose fields carry a prefix; an array access outside its array,
  the use of freed memory and a loop that does not return are \<open>None\<close>. Loops whose end is not
  structural are functions with a measure; loops of the driver that may run forever
  (\<open>mm_loop\<close>, \<open>st_loop\<close>, \<open>qep\<close>, \<open>refill_drop\<close>, \<open>refill_new\<close>, \<open>count_bufs\<close>) are partial functions
  into \<open>option\<close>: that they return is a theorem (\<open>request_processing_returns\<close>), and one input for which they do not
  is another (\<open>overlong_request_never_returns\<close>). There is no fuel except in \<open>hw_monitor_reg\<close>, which polls a fixed number of
  times in the code as well. What is not code of the repository is a parameter: the
  hardware registers (\<open>hw_env\<close>, a function of the log of accesses so far to the value that is read), the allocators,
  the DMA mapping, the status word and the completion entries the hardware writes (\<open>dq_env\<close>), the kernel's number parsers
  and firmware loader, the descriptor writer and the packet handler of an upper-layer module. What is relied on of them is
  a named hypothesis of the theorems (\<open>ctxt_hw\<close> for the context registers, \<open>hw_ok\<close> for
  the status word); most safety theorems hold for every value of the parameters.

  \<^bold>\<open>The theories.\<close> In the order of their imports:

  \<^item> Prelude: machine-integer types, conversions, error codes, the shared lemmas on lists and words.
  \<^item> Qdma_List (\<^verbatim>\<open>qdma_access/qdma_list.[ch]\<close>): the pointer operations on an explicit heap. They refine the operations
    on HOL lists (\<open>qdma_list_ops_refine\<close>).
  \<^item> Free_List, Resource_Mgmt (\<^verbatim>\<open>qdma_access/qdma_resource_mgmt.c\<close>): the free list of a queue resource with best fit,
    split and defragmentation, and the functions that hold ranges of it. The locale \<open>queue_pool\<close> is the contract of the free list
    towards the manager; the invariant of the reachable states is what \<open>queue_isolation\<close>, \<open>no_queue_lost\<close> and \<open>queue_in_range_exact\<close> follow from.
  \<^item> Bit_Fields, Reg_Access (\<^verbatim>\<open>qdma_access_common.[ch]\<close>, \<^verbatim>\<open>qdma_platform.c\<close>): field macros, register access as a log,
    polling, and the indirect command engine with its lock.
  \<^item> Ctxt_Memory: the abstract context memory and the refinement of the indirect operations to it; the locale \<open>context_memory\<close> is
    the interface the context theories use. The device (\<open>ctxt_hw\<close>) may be busy after a command, for fewer polls than the driver makes,
    and promises the content of its data registers only once a poll has found it idle (\<open>settled\<close>).
  \<^item> Soft_Context, Soft_Csr, Soft_Regs (\<^verbatim>\<open>qdma_soft_access/qdma_soft_access.c\<close>): the queue contexts, packed, unpacked, written and read
    back; the global arrays, the doorbells, start-up; the register list.
  \<^item> Jsmn, Onic_Json (\<^verbatim>\<open>jsmn/jsmn.c\<close>, \<^verbatim>\<open>onic_json.c\<close>): the tokenizer and the reader of the platform file.
  \<^item> Mbox_Layout, Mbox_Msg, Mbox_Handler, Mbox_Hw (\<^verbatim>\<open>qdma_mbox_protocol.c\<close>): the place of the fields in the 128-byte buffer of a
    message, the messages, the handlers of both sides, the mailbox registers. Mbox_Isolation, Mbox_Safety and Mbox_Queue prove
    what a virtual function can and cannot do through them, and what its queue looks like afterwards.
  \<^item> Mbox_Transport, Mbox_Progress, Mbox_Steps (\<^verbatim>\<open>qdma_mbox.c\<close>): the work items of the mailbox and the two lists of messages
    as a transition system whose steps are whole work items; soundness of the lists, progress of the send queue, and the places
    where memory is used after it was freed. Mbox_Race: the send work split at its lock sections, equal to the whole one when
    nothing comes between, and what a timeout in between does.
  \<^item> Queue_Conf (\<^verbatim>\<open>libqdma_export.h\<close>, \<^verbatim>\<open>xdev.h\<close>): queue configuration and the part of the device that the queues use.
  \<^item> Descq, Descq_Proc, Descq_Submit, Descq_Config (\<^verbatim>\<open>qdma_descq.[ch]\<close>, the request functions of \<^verbatim>\<open>libqdma_export.c\<close>):
    the descriptor queue, its request loops, submission, completion and configuration.
  \<^item> St_C2h (\<^verbatim>\<open>qdma_st_c2h.c\<close>): receive buffers, completion entries, packet reception and reading.
  \<^item> Descq_Fill, Descq_Ring: what the two fill loops write, as a list of pieces that fill the ring; Descq_Account: the books of a
    queue (which descriptor belongs to which request) as an invariant \<open>queue_ok\<close>, and that completions keep it; Descq_Engine: the
    locale \<open>request_engine\<close>, what a submission must do to keep the books, and the turn of the request
    loop proved once; Descq_Run: its interpretations for memory mapped and for streaming
    requests; Descq_Loop: the loops return and keep the books; Descq_Safety: the locale \<open>queue_kind\<close> and the invariant over
    submissions, services and wake-ups; Descq_Reach: the reachable states, and the properties over them.
  \<^item> Descq_Demo: a small device and two queues, set up by the operations of the driver, for the witnesses. Descq_Desc: the
    contents of the descriptors. Descq_Faults: where the promises end.
  \<^item> Descq_Context (\<^verbatim>\<open>qdma_context.c\<close>): the contexts made from the configuration of a queue, written by the physical function or
    asked for by a virtual function. Queue_Contexts: that they read back, and that both ways give the same contexts.
  \<^item> Queue_Regs (\<^verbatim>\<open>qdma_regs.c\<close>, the reading functions of \<^verbatim>\<open>libqdma_config.c\<close>): the global registers as the driver keeps them
    and the order of the counter thresholds.
  \<^item> Queue_Life (\<^verbatim>\<open>libqdma_export.c\<close>, \<^verbatim>\<open>qdma_device.c\<close>, \<^verbatim>\<open>qdma_thread.c\<close>): the device of a physical function with its three arrays of
    queues as one list, and the operations that add, configure, start, stop and remove a queue, set the device up and
    clean it up. Queue_Rules: what every operation keeps, proved over the few fields of a queue it depends on, and the
    reachable states. Queue_Props, Queue_Auto: the properties.

  \<^bold>\<open>What the theorems show.\<close>

  \<^item> Isolation: no hardware queue has two owners (\<open>queue_isolation\<close>), a virtual function reaches only the contexts of its own
    queues through the mailbox (\<open>mailbox_queue_isolation\<close>) with one exception (\<open>completion_clear_unchecked\<close>), and cannot claim
    to be another one (\<open>pf_knows_the_sender\<close>).
  \<^item> Contexts: what is written is what is read (\<open>sw_ctxt_write_read\<close>) over the refinement
    \<open>indirect_context_memory\<close>, and under the lock (\<open>indirect_lock_discipline\<close>).
  \<^item> Descriptor queues: for every order of submissions, services and wake-ups the descriptors the hardware holds
    describe memory of requests that are not yet reported done (\<open>hardware_descriptors_owned\<close>), the ring is never
    overfull, processing returns, and a request whose descriptors were all handed out is reported done once the hardware is
    (\<open>all_completed_all_done\<close>). The descriptors of one turn describe exactly the next bytes of the request. The hypotheses: the queue
    (\<open>plain_queue\<close>) has no user-logic extension and no keyhole; the hardware (\<open>hw_ok\<close>) does not complete what it was not given; a
    request (\<open>user_req\<close>) counts the bytes of its scatter-gather list, fewer than \<open>2^31\<close>, and has no empty entry unless it
    is a single one, which is needed: \<open>overlong_request_never_returns\<close>. A wake-up is that of a request that is done; one that times
    out breaks the ownership (\<open>timed_out_wait_unmaps_memory_in_use\<close>).
  \<^item> Memory safety: of the tokenizer, the configuration reader, the mailbox handler and the lists of the mailbox, each
    with the input at which it ends (\<open>truncated_config_overruns\<close>, \<open>handler_memory_safe\<close>,
    \<open>offline_send_uses_freed_message\<close>, \<open>response_frees_waited_message\<close>, \<open>timeout_races_with_send\<close>). A well-formed
    configuration means what its members say (\<open>config_read\<close>).
  \<^item> Programming a queue: the contexts made from its configuration read back (\<open>queue_contexts_read_back\<close>); a virtual function obtains
    the same ones through the mailbox but for three fields (\<open>vf_contexts_equal_pf\<close>).
  \<^item> The life of the queues: which queues of an index can be in use together and which rings they hold (\<open>queue_life_sound\<close>); the
    counters of the resource manager are exact, so that a range in use is not changed (\<open>range_kept_while_used\<close>); the thresholds are
    sorted when they are distinct (\<open>thresholds_sorted\<close>). Two errors: a request that waits while its queue is stopped stays on a
    list (\<open>stopped_request_stays_listed\<close>), and an index chosen by the driver enables the wrong queue (\<open>automatic_index_misplaced\<close>).

  \<^bold>\<open>Not modelled.\<close> Text dumps, debugfs and log output; the register tables of \<^verbatim>\<open>*_reg_dump.c\<close>, which are generated;
  PCI probe and remove, kernel threads, interrupt registration and the network stack call-backs, which are
  calls into the kernel; memory barriers, and concurrency inside a critical section: an operation that
  runs under one lock from its start to its end is one step, and where the code gives the lock back (the wait of a
  submission, the wait of a mailbox sender, and in Mbox_Race the send work) the operation is cut into steps. The members of a C union and the two
  views of the ring memory are kept apart; for the message union Mbox_Layout gives the sizes and offsets, and the handler model
  faults where the code leaves the buffer. Virtual-function builds (\<^verbatim>\<open>__QDMA_VF__\<close>) are modelled where the
  code differs in data only.
\<close>

end
